(* ===== verification/Prelude.thy ===== *)
theory Prelude
  imports Main "HOL-Library.Word" "HOL-Library.List_Lexorder" "HOL-Library.Char_ord" "HOL-Library.Sublist"
begin

text \<open>
  Shared vocabulary of the development: the machine types, the result type of fallible
  code, big-endian values of byte strings, and the fact collections that the component
  theories extend.

  A Rust \<open>Result<T, E>\<close> is \<open>'e + 'a\<close>: \<open>Inl e\<close> is \<open>Err(e)\<close> and \<open>Inr x\<close> is \<open>Ok(x)\<close>.
  A Rust \<open>String\<close> or \<open>&str\<close> is the list of its UTF-8 bytes, a HOL \<open>string\<close> (a HOL
  \<open>char\<close> is exactly one byte), so \<open>length\<close> is Rust's \<open>len()\<close>. A \<open>std::time::Duration\<close>
  is its number of nanoseconds.
\<close>

unbundle bit_operations_syntax

type_synonym u8 = "8 word"
type_synonym u32 = "32 word"
type_synonym u64 = "64 word"
type_synonym bytes = "8 word list"

text \<open>Nanoseconds of a Rust \<open>Duration\<close>, and microseconds of a Postgres timestamp.\<close>

type_synonym nanos = nat
type_synonym micros = int

abbreviation (input) nanos_per_second :: nat where
  "nanos_per_second \<equiv> 1000000000"

abbreviation (input) nanos_per_milli :: nat where
  "nanos_per_milli \<equiv> 1000000"

definition i64_max :: int where
  "i64_max = 9223372036854775807"

definition i32_max :: int where
  "i32_max = 2147483647"

definition u32_max :: nat where
  "u32_max = 4294967295"

named_theorems result_simps \<open>evaluation of results\<close>

section \<open>Results\<close>

definition is_ok :: "'e + 'a \<Rightarrow> bool" where
  "is_ok r = (case r of Inl _ \<Rightarrow> False | Inr _ \<Rightarrow> True)"

definition result_bind :: "'e + 'a \<Rightarrow> ('a \<Rightarrow> 'e + 'b) \<Rightarrow> 'e + 'b" where
  "result_bind r f = (case r of Inl e \<Rightarrow> Inl e | Inr x \<Rightarrow> f x)"

lemma is_ok_simps [simp, result_simps]:
  "is_ok (Inl e) = False" "is_ok (Inr x) = True"
  by (simp_all add: is_ok_def)

lemma result_bind_simps [simp, result_simps]:
  "result_bind (Inl e) f = Inl e" "result_bind (Inr x) f = f x"
  by (simp_all add: result_bind_def)

lemma result_bind_eq_Inr_iff:
  "result_bind r f = Inr y \<longleftrightarrow> (\<exists>x. r = Inr x \<and> f x = Inr y)"
  by (cases r) simp_all

lemma result_bind_eq_Inl_iff:
  "result_bind r f = Inl e \<longleftrightarrow> r = Inl e \<or> (\<exists>x. r = Inr x \<and> f x = Inl e)"
  by (cases r) simp_all

lemma map_sum_Inr_iff [simp]: "map_sum id f x = Inr y \<longleftrightarrow> (\<exists>c. x = Inr c \<and> y = f c)"
  by (cases x) auto

lemma map_sum_eq_Inr_iff: "map_sum g f x = Inr y \<longleftrightarrow> (\<exists>c. x = Inr c \<and> y = f c)"
  by (cases x) auto

lemma map_sum_Inl_iff [simp]: "map_sum id f x = Inl e \<longleftrightarrow> x = Inl e"
  by (cases x) auto

lemma result_bind_cong [fundef_cong]:
  "r = r' \<Longrightarrow> (\<And>x. r' = Inr x \<Longrightarrow> f x = g x) \<Longrightarrow> result_bind r f = result_bind r' g"
  by (cases r') simp_all

text \<open>\<open>rows.iter().map(...).collect()\<close>: the first error, or all results.\<close>

fun collect_results :: "('e + 'a) list \<Rightarrow> 'e + 'a list" where
  "collect_results [] = Inr []"
| "collect_results (r # rest) =
     result_bind r (\<lambda>x. result_bind (collect_results rest) (\<lambda>xs. Inr (x # xs)))"

lemma collect_results_all: "(\<And>x. x \<in> set xs \<Longrightarrow> f x = Inr (g x)) \<Longrightarrow> collect_results (map f xs) = Inr (map g xs)"
  by (induction xs) auto

lemma collect_results_length: "collect_results rs = Inr xs \<Longrightarrow> length xs = length rs"
  by (induction rs arbitrary: xs) (auto simp: result_bind_eq_Inr_iff)

lemma collect_results_eq_Inr_iff:
  "collect_results rs = Inr xs \<longleftrightarrow> rs = map Inr xs"
  by (induction rs arbitrary: xs) (auto simp: result_bind_eq_Inr_iff)

section \<open>Big-endian values of byte strings\<close>

definition be_value :: "bytes \<Rightarrow> nat" where
  "be_value xs = foldl (\<lambda>acc b. acc * 256 + unat b) 0 xs"

lemma foldl_be_value:
  "foldl (\<lambda>acc b. acc * 256 + unat (b :: u8)) a xs = a * 256 ^ length xs + be_value xs"
proof (induction xs arbitrary: a)
  case Nil
  show ?case by (simp add: be_value_def)
next
  case (Cons x xs)
  have "be_value (x # xs) = unat x * 256 ^ length xs + be_value xs"
    using Cons.IH [of "unat x"] by (simp add: be_value_def)
  then show ?case
    using Cons.IH [of "a * 256 + unat x"] by (simp add: algebra_simps)
qed

lemma be_value_Nil [simp]: "be_value [] = 0"
  by (simp add: be_value_def)

lemma be_value_Cons [simp]:
  "be_value (x # xs) = unat x * 256 ^ length xs + be_value xs"
  using foldl_be_value [of "unat x" xs] by (simp add: be_value_def)

lemma unat_u8_bound [simp]: "unat (x :: u8) < 256"
  by (rule order_less_le_trans [OF unsigned_less]) simp

lemma be_value_append:
  "be_value (xs @ ys) = be_value xs * 256 ^ length ys + be_value ys"
  by (induction xs) (simp_all add: power_add algebra_simps)

lemma be_value_bound: "be_value xs < 256 ^ length xs"
proof (induction xs)
  case (Cons x xs)
  have "unat x * 256 ^ length xs + be_value xs < (unat x + 1) * 256 ^ length xs"
    using Cons.IH by (simp add: algebra_simps)
  also have "\<dots> \<le> 256 * 256 ^ length xs"
    using unat_u8_bound [of x] by (intro mult_right_mono) linarith+
  finally show ?case by simp
qed simp

lemma positional_less:
  assumes "a < b" and "r < (m :: nat)"
  shows "a * m + r < b * m + s"
proof -
  have "a * m + r < (a + 1) * m" using \<open>r < m\<close> by simp
  also have "\<dots> \<le> b * m" using \<open>a < b\<close> by (intro mult_right_mono) simp_all
  finally show ?thesis by simp
qed

text \<open>The lexicographic order of byte strings of one length is the order of their values.\<close>

lemma be_value_less_iff:
  "length xs = length ys \<Longrightarrow> xs < ys \<longleftrightarrow> be_value xs < be_value ys"
proof (induction xs ys rule: list_induct2)
  case Nil
  show ?case by simp
next
  case (Cons x xs y ys)
  have bx: "be_value xs < 256 ^ length xs" and bw: "be_value ys < 256 ^ length xs"
    using be_value_bound [of xs] be_value_bound [of ys] Cons.hyps by simp_all
  consider "unat x < unat y" | "unat y < unat x" | "x = y"
    by (metis linorder_neqE_nat word_eq_iff_unsigned)
  then show ?case
  proof cases
    case 1
    then have "unat x * 256 ^ length xs + be_value xs < unat y * 256 ^ length xs + be_value ys"
      using bx by (rule positional_less)
    with 1 show ?thesis by (simp add: Cons.hyps word_less_nat_alt)
  next
    case 2
    then have "unat y * 256 ^ length xs + be_value ys < unat x * 256 ^ length xs + be_value xs"
      using bw by (rule positional_less)
    with 2 show ?thesis by (auto simp: Cons.hyps word_less_nat_alt)
  next
    case 3
    then show ?thesis using Cons.IH by (simp add: Cons.hyps)
  qed
qed

lemma be_value_inject:
  "length xs = length ys \<Longrightarrow> be_value xs = be_value ys \<longleftrightarrow> xs = ys"
  by (metis be_value_less_iff less_irrefl linorder_neqE)

text \<open>The decimal text of a number, as \<open>to_string\<close> prints it.\<close>

fun decimal_text :: "nat \<Rightarrow> string" where
  "decimal_text n =
     (if n < 10 then [char_of (48 + n)] else decimal_text (n div 10) @ [char_of (48 + n mod 10)])"

declare decimal_text.simps [simp del]

section \<open>Keys joined from parts\<close>

text \<open>Every part is followed by the separator; parts contain no byte of it.\<close>

definition terminated_join :: "string \<Rightarrow> string list \<Rightarrow> string" where
  "terminated_join sep parts = concat (map (\<lambda>p. p @ sep) parts)"

lemma terminated_join_simps [simp]:
  "terminated_join sep [] = []"
  "terminated_join sep (p # ps) = p @ sep @ terminated_join sep ps"
  by (simp_all add: terminated_join_def)

lemma separated_split:
  assumes "c \<notin> set p" "c \<notin> set q" "p @ c # xs = q @ c # ys"
  shows "p = q \<and> xs = ys"
  using assms
proof (induction p arbitrary: q)
  case Nil
  then show ?case by (cases q) auto
next
  case (Cons a p)
  then show ?case by (cases q) auto
qed

lemma terminated_join_prefix_iff:
  assumes "list_all (\<lambda>p. p \<noteq> [] \<and> c \<notin> set p) ps" "list_all (\<lambda>p. p \<noteq> [] \<and> c \<notin> set p) qs"
  shows "prefix (terminated_join [c, c] ps) (terminated_join [c, c] qs) \<longleftrightarrow> prefix ps qs"
  using assms
proof (induction ps arbitrary: qs)
  case Nil
  then show ?case by simp
next
  case (Cons p ps)
  show ?case
  proof (cases qs)
    case Nil
    then show ?thesis by simp
  next
    case (Cons q qs')
    have "prefix (p @ c # c # terminated_join [c, c] ps) (q @ c # c # terminated_join [c, c] qs')
      \<longleftrightarrow> p = q \<and> prefix (terminated_join [c, c] ps) (terminated_join [c, c] qs')"
    proof
      assume "prefix (p @ c # c # terminated_join [c, c] ps) (q @ c # c # terminated_join [c, c] qs')"
      then obtain zs where "q @ c # (c # terminated_join [c, c] qs')
        = p @ c # (c # terminated_join [c, c] ps @ zs)" by (auto simp: prefix_def)
      moreover have "c \<notin> set q" "c \<notin> set p"
        using Cons.prems \<open>qs = q # qs'\<close> by simp_all
      ultimately have "q = p \<and> c # terminated_join [c, c] qs' = c # terminated_join [c, c] ps @ zs"
        by (rule separated_split [rotated 2])
      then show "p = q \<and> prefix (terminated_join [c, c] ps) (terminated_join [c, c] qs')"
        by simp
    qed auto
    then show ?thesis
      using Cons.IH [of qs'] Cons.prems \<open>qs = q # qs'\<close> by auto
  qed
qed

lemma terminated_join_inject:
  assumes "list_all (\<lambda>p. p \<noteq> [] \<and> c \<notin> set p) ps" "list_all (\<lambda>p. p \<noteq> [] \<and> c \<notin> set p) qs"
  shows "terminated_join [c, c] ps = terminated_join [c, c] qs \<longleftrightarrow> ps = qs"
  using terminated_join_prefix_iff [OF assms] terminated_join_prefix_iff [OF assms(2,1)]
  by (metis prefix_order.antisym prefix_order.order_refl)

end
