(* ===== verification/SortableId.thy ===== *)
theory SortableId
  imports Prelude
begin

text \<open>
  \<open>src/src/id.rs\<close>: sortable identifiers (16 bytes, a 52-bit big-endian count of 100
  microsecond ticks followed by 76 random bits), their whitened base32 text form, and
  random identifiers drawn from an alphabet by rejection sampling.

  The random source is an explicit state-passing function \<open>fill\<close>: called with a number
  of bytes it returns the bytes or an error, and its next state. The base32 decoder of the
  crate \<open>data_encoding\<close> is a parameter. The wall clock is the argument \<open>now_micros\<close>.
\<close>

section \<open>Data\<close>

definition SORTABLE_ID_SIZE :: nat where "SORTABLE_ID_SIZE = 16"
definition SORTABLE_ID_TEXT_LEN :: nat where "SORTABLE_ID_TEXT_LEN = 26"
definition MAX_RANDOM_ID_OUTPUT_LEN :: nat where "MAX_RANDOM_ID_OUTPUT_LEN = 255"
definition MAX_SORTABLE_ID_MULTI_COUNT :: nat where "MAX_SORTABLE_ID_MULTI_COUNT = 255"
definition TIME_BYTES :: nat where "TIME_BYTES = 7"
definition RANDOM_BYTES_SIZE :: nat where "RANDOM_BYTES_SIZE = 10"
definition RANDOM_BUFFER_SIZE :: nat where "RANDOM_BUFFER_SIZE = 32"
definition TIMESTAMP_RESOLUTION_MICROS :: int where "TIMESTAMP_RESOLUTION_MICROS = 100"
definition MAX_TIMESTAMP_TICKS :: u64 where "MAX_TIMESTAMP_TICKS = push_bit 52 1 - 1"

definition ascii :: "string \<Rightarrow> bytes" where
  "ascii s = map (\<lambda>c. of_char c) s"

definition BASE32_LOWER_ALPHABET :: bytes where
  "BASE32_LOWER_ALPHABET = ascii ''abcdefghijklmnopqrstuvwxyz234567''"

definition ALPHANUMERIC_LOWERCASE :: bytes where
  "ALPHANUMERIC_LOWERCASE = ascii ''0123456789abcdefghijklmnopqrstuvwxyz''"

definition ALPHANUMERIC_ANYCASE :: bytes where
  "ALPHANUMERIC_ANYCASE =
     ascii ''0123456789ABCDEFGHIJKLMNOPQRSTUVWXYZabcdefghijklmnopqrstuvwxyz''"

datatype sortable_id = SortableId (id_bytes: bytes)

datatype random_id = RandomId (random_id_text: bytes)

datatype 'g id_error =
    InvalidSortableIdCount nat nat
  | EmptyRandomIdOutputLength
  | InvalidRandomIdOutputLength nat nat
  | InvalidIdLength nat
  | InvalidTextLength nat
  | InvalidTextByte nat u8
  | Random 'g
  | InjectedRandomFillFailed

type_synonym ('s, 'g) fill = "'s \<Rightarrow> nat \<Rightarrow> ('g id_error + bytes) \<times> 's"

text \<open>The contract of a random fill: it fills the whole slice it is given.\<close>

definition fills :: "('s, 'g) fill \<Rightarrow> bool" where
  "fills fill \<longleftrightarrow> (\<forall>s n bs s'. fill s n = (Inr bs, s') \<longrightarrow> length bs = n)"

instantiation sortable_id :: linorder
begin

definition less_eq_sortable_id :: "sortable_id \<Rightarrow> sortable_id \<Rightarrow> bool" where
  "less_eq_sortable_id a b = (id_bytes a \<le> id_bytes b)"

definition less_sortable_id :: "sortable_id \<Rightarrow> sortable_id \<Rightarrow> bool" where
  "less_sortable_id a b = (id_bytes a < id_bytes b)"

instance
  by standard
    (auto simp: less_eq_sortable_id_def less_sortable_id_def intro: sortable_id.expand)

end

section \<open>Timestamps\<close>

definition unix_micro_to_timestamp_ticks :: "int \<Rightarrow> u64" where
  "unix_micro_to_timestamp_ticks unix_micro =
     (if unix_micro \<le> 0 then 0
      else min (word_of_int (unix_micro div TIMESTAMP_RESOLUTION_MICROS)) MAX_TIMESTAMP_TICKS)"

definition put_timestamp_ticks :: "bytes \<Rightarrow> u64 \<Rightarrow> bytes" where
  "put_timestamp_ticks xs ticks =
     xs[0 := ucast (drop_bit 44 ticks),
        1 := ucast (drop_bit 36 ticks),
        2 := ucast (drop_bit 28 ticks),
        3 := ucast (drop_bit 20 ticks),
        4 := ucast (drop_bit 12 ticks),
        5 := ucast (drop_bit 4 ticks),
        6 := (xs ! 6 AND 0x0f) OR push_bit 4 (ucast (ticks AND 0x0f))]"

definition read_timestamp_ticks :: "bytes \<Rightarrow> u64" where
  "read_timestamp_ticks xs =
     push_bit 44 (ucast (xs ! 0)) OR push_bit 36 (ucast (xs ! 1))
     OR push_bit 28 (ucast (xs ! 2)) OR push_bit 20 (ucast (xs ! 3))
     OR push_bit 12 (ucast (xs ! 4)) OR push_bit 4 (ucast (xs ! 5))
     OR ucast (drop_bit 4 (xs ! 6))"

definition id_to_unix_micros :: "sortable_id \<Rightarrow> int" where
  "id_to_unix_micros i = sint (read_timestamp_ticks (id_bytes i)) * TIMESTAMP_RESOLUTION_MICROS"

definition duration_to_i64_micros_saturating :: "nanos \<Rightarrow> int" where
  "duration_to_i64_micros_saturating d =
     (if int (d div 1000) > i64_max then i64_max else int (d div 1000))"

text \<open>\<open>SystemTime::now().duration_since(UNIX_EPOCH)\<close> is an error before the epoch.\<close>

definition now_unix_micros :: "nanos option \<Rightarrow> int" where
  "now_unix_micros since_epoch =
     (case since_epoch of Some d \<Rightarrow> duration_to_i64_micros_saturating d | None \<Rightarrow> 0)"

section \<open>Generation\<close>

definition new_at_unix_micros_with_random_fill ::
    "int \<Rightarrow> ('s, 'g) fill \<Rightarrow> 's \<Rightarrow> ('g id_error + sortable_id) \<times> 's" where
  "new_at_unix_micros_with_random_fill unix_micros fill s =
     (case fill s (SORTABLE_ID_SIZE - 6) of
        (Inl e, s') \<Rightarrow> (Inl e, s')
      | (Inr rs, s') \<Rightarrow>
          let xs = replicate 6 0 @ rs;
              xs = xs[6 := xs ! 6 AND 0x0f]
          in (Inr (SortableId
                (put_timestamp_ticks xs (unix_micro_to_timestamp_ticks unix_micros))), s'))"

definition multi_id :: "bytes \<Rightarrow> u64 \<Rightarrow> nat \<Rightarrow> sortable_id" where
  "multi_id random_bytes ticks index =
     (let offset = index * RANDOM_BYTES_SIZE;
          random_chunk = take RANDOM_BYTES_SIZE (drop offset random_bytes);
          xs = replicate 6 0 @ [random_chunk ! 0 AND 0x0f] @ drop 1 random_chunk
      in SortableId (put_timestamp_ticks xs ticks))"

definition new_multi_with_random_fill ::
    "nat \<Rightarrow> int \<Rightarrow> ('s, 'g) fill \<Rightarrow> 's \<Rightarrow> ('g id_error + sortable_id list) \<times> 's" where
  "new_multi_with_random_fill count now_micros fill s =
     (if count > MAX_SORTABLE_ID_MULTI_COUNT then
        (Inl (InvalidSortableIdCount count MAX_SORTABLE_ID_MULTI_COUNT), s)
      else if count = 0 then (Inr [], s)
      else case fill s (count * RANDOM_BYTES_SIZE) of
        (Inl e, s') \<Rightarrow> (Inl e, s')
      | (Inr random_bytes, s') \<Rightarrow>
          (Inr (map (multi_id random_bytes (unix_micro_to_timestamp_ticks now_micros))
                 [0..<count]), s'))"

definition min_id_at_unix_micros :: "int \<Rightarrow> sortable_id" where
  "min_id_at_unix_micros unix_micros =
     SortableId (put_timestamp_ticks (replicate SORTABLE_ID_SIZE 0)
       (unix_micro_to_timestamp_ticks unix_micros))"

definition max_id_at_unix_micros :: "int \<Rightarrow> sortable_id" where
  "max_id_at_unix_micros unix_micros =
     (let xs = id_bytes (min_id_at_unix_micros unix_micros);
          xs = xs[6 := xs ! 6 OR 0x0f]
      in SortableId (take 7 xs @ map (\<lambda>_. 0xff) (drop 7 xs)))"

definition from_bytes :: "bytes \<Rightarrow> 'g id_error + sortable_id" where
  "from_bytes xs =
     (if length xs \<noteq> SORTABLE_ID_SIZE then Inl (InvalidIdLength (length xs))
      else Inr (SortableId xs))"

section \<open>Text form\<close>

definition base32_lower :: "u8 \<Rightarrow> u8" where
  "base32_lower index = BASE32_LOWER_ALPHABET ! unat index"

definition encode_base32_5_byte_chunk :: "bytes \<Rightarrow> bytes" where
  "encode_base32_5_byte_chunk input =
     [base32_lower (drop_bit 3 (input ! 0)),
      base32_lower (push_bit 2 (input ! 0 AND 0x07) OR drop_bit 6 (input ! 1)),
      base32_lower (drop_bit 1 (input ! 1) AND 0x1f),
      base32_lower (push_bit 4 (input ! 1 AND 0x01) OR drop_bit 4 (input ! 2)),
      base32_lower (push_bit 1 (input ! 2 AND 0x0f) OR drop_bit 7 (input ! 3)),
      base32_lower (drop_bit 2 (input ! 3) AND 0x1f),
      base32_lower (push_bit 3 (input ! 3 AND 0x03) OR drop_bit 5 (input ! 4)),
      base32_lower (input ! 4 AND 0x1f)]"

definition encode_base32_no_padding_lower :: "bytes \<Rightarrow> bytes" where
  "encode_base32_no_padding_lower xs =
     encode_base32_5_byte_chunk (take 5 xs)
     @ encode_base32_5_byte_chunk (take 5 (drop 5 xs))
     @ encode_base32_5_byte_chunk (take 5 (drop 10 xs))
     @ [base32_lower (drop_bit 3 (xs ! 15)),
        base32_lower (push_bit 2 (xs ! 15 AND 0x07))]"

text \<open>\<open>for index in 0..TIME_BYTES { b[index] ^= b[index + TIME_BYTES] }\<close>\<close>

definition whiten :: "bytes \<Rightarrow> bytes" where
  "whiten xs = foldl (\<lambda>b index. b[index := b ! index XOR b ! (index + TIME_BYTES)])
     xs [0..<TIME_BYTES]"

definition serialize_id :: "sortable_id \<Rightarrow> bytes" where
  "serialize_id i = encode_base32_no_padding_lower (whiten (id_bytes i))"

datatype decode_kind = DkLength | DkSymbol | DkTrailing | DkPadding

type_synonym base32_decoder = "bytes \<Rightarrow> (nat \<times> decode_kind) + bytes"

definition decode_base32_no_padding ::
    "base32_decoder \<Rightarrow> bytes \<Rightarrow> 'g id_error + bytes" where
  "decode_base32_no_padding dec input =
     (case dec input of
        Inl (position, kind) \<Rightarrow>
          Inl (case kind of
                 DkSymbol \<Rightarrow> InvalidTextByte position (input ! position)
               | DkLength \<Rightarrow> InvalidTextLength (length input)
               | _ \<Rightarrow> InvalidTextByte position (input ! position))
      | Inr output \<Rightarrow> Inr output)"

definition parse_id :: "base32_decoder \<Rightarrow> bytes \<Rightarrow> 'g id_error + sortable_id" where
  "parse_id dec input =
     (if length input \<noteq> SORTABLE_ID_TEXT_LEN then Inl (InvalidTextLength (length input))
      else result_bind (decode_base32_no_padding dec input)
        (\<lambda>xs. Inr (SortableId (whiten xs))))"

section \<open>Random identifiers\<close>

definition usable_values :: "bytes \<Rightarrow> nat" where
  "usable_values alphabet = (256 div length alphabet) * length alphabet"

text \<open>The inner loop over one random buffer.\<close>

fun sample_buffer :: "bytes \<Rightarrow> nat \<Rightarrow> bytes \<Rightarrow> bytes \<Rightarrow> bytes" where
  "sample_buffer alphabet output_str_len output [] = output"
| "sample_buffer alphabet output_str_len output (b # bs) =
     (if unat b \<ge> usable_values alphabet then sample_buffer alphabet output_str_len output bs
      else let output = output @ [alphabet ! (unat b mod length alphabet)]
           in if length output = output_str_len then output
              else sample_buffer alphabet output_str_len output bs)"

text \<open>
  The outer loop runs until enough bytes were accepted; with an unlucky source it never
  returns, so it takes fuel and \<open>None\<close> is \<open>still running\<close>.
\<close>

fun sample_loop ::
    "nat \<Rightarrow> bytes \<Rightarrow> nat \<Rightarrow> ('s, 'g) fill \<Rightarrow> bytes \<Rightarrow> 's \<Rightarrow> (('g id_error + bytes) \<times> 's) option"
where
  "sample_loop fuel alphabet output_str_len fill output s =
     (if length output < output_str_len then
        (case fuel of
           0 \<Rightarrow> None
         | Suc fuel' \<Rightarrow>
             (case fill s RANDOM_BUFFER_SIZE of
                (Inl e, s') \<Rightarrow> Some (Inl e, s')
              | (Inr buf, s') \<Rightarrow>
                  sample_loop fuel' alphabet output_str_len fill
                    (sample_buffer alphabet output_str_len output buf) s'))
      else Some (Inr output, s))"

declare sample_loop.simps [simp del]

definition random_id_from_alphabet_with_random_fill ::
    "nat \<Rightarrow> nat \<Rightarrow> bytes \<Rightarrow> ('s, 'g) fill \<Rightarrow> 's \<Rightarrow> (('g id_error + random_id) \<times> 's) option"
where
  "random_id_from_alphabet_with_random_fill fuel output_str_len alphabet fill s =
     (if output_str_len = 0 then Some (Inl EmptyRandomIdOutputLength, s)
      else if output_str_len > MAX_RANDOM_ID_OUTPUT_LEN then
        Some (Inl (InvalidRandomIdOutputLength output_str_len MAX_RANDOM_ID_OUTPUT_LEN), s)
      else case sample_loop fuel alphabet output_str_len fill [] s of
        None \<Rightarrow> None
      | Some (Inl e, s') \<Rightarrow> Some (Inl e, s')
      | Some (Inr output, s') \<Rightarrow> Some (Inr (RandomId output), s'))"

section \<open>Base32 as RFC 4648 states it\<close>

text \<open>
  The reference for the hand-written encoder: the bits of the bytes, most significant first,
  in groups of five, the last group filled with zero bits, one symbol per group.
\<close>

lemma and15: "(x :: 'a::len word) AND 15 = take_bit 4 x"
  by (simp add: take_bit_eq_mask mask_numeral)

definition quintet :: "bool list \<Rightarrow> nat" where
  "quintet bs = foldl (\<lambda>v x. 2 * v + of_bool x) 0 bs"

fun quintets :: "bool list \<Rightarrow> nat list" where
  "quintets (a # b # c # d # e # bs) = quintet [a, b, c, d, e] # quintets bs"
| "quintets [] = []"
| "quintets bs = [quintet (take 5 (bs @ replicate 5 False))]"

definition rfc4648_base32 :: "bytes \<Rightarrow> bytes \<Rightarrow> bytes" where
  "rfc4648_base32 alphabet xs =
     map (\<lambda>q. alphabet ! q) (quintets (concat (map (\<lambda>x. map (bit x) [7, 6, 5, 4, 3, 2, 1, 0]) xs)))"

lemma upt_8: "[0..<8] = [0, 1, 2, 3, 4, 5, 6, 7::nat]"
  by (simp add: upt_rec eval_nat_numeral)

lemma unat_quintet:
  assumes "\<not> bit w 5" "\<not> bit w 6" "\<not> bit w 7"
  shows "unat (w :: u8) = quintet [bit w 4, bit w 3, bit w 2, bit w 1, bit w 0]"
proof -
  have "unat w = take_bit 8 (unat w)"
    by (simp add: take_bit_eq_mod)
  also have "\<dots> = horner_sum of_bool 2 (map (bit (unat w)) [0..<8])"
    by (simp only: horner_sum_bit_eq_take_bit)
  finally show ?thesis using assms by (simp add: upt_8 bit_unsigned_iff quintet_def)
qed

lemma and_masks: "(x :: u8) AND 7 = take_bit 3 x" "x AND 1 = take_bit 1 x" "x AND 3 = take_bit 2 x"
  "x AND 31 = take_bit 5 x"
  by (simp_all add: take_bit_eq_mask mask_numeral)

lemma byte_high_bit [simp]: "8 \<le> n \<Longrightarrow> \<not> bit (w :: u8) n"
  using bit_imp_le_length [of w n] by (auto simp: not_less)

lemmas quintet_bits = bit_simps and_masks and15 numeral_2_eq_2 [symmetric] numeral_3_eq_3 [symmetric]
  One_nat_def [symmetric]

lemma unat_chunk_quintets:
  "unat (drop_bit 3 (a :: u8)) = quintet [bit a 7, bit a 6, bit a 5, bit a 4, bit a 3]"
  "unat (push_bit 2 (a AND 7) OR drop_bit 6 (b :: u8)) = quintet [bit a 2, bit a 1, bit a 0, bit b 7, bit b 6]"
  "unat (drop_bit 1 (b :: u8) AND 31) = quintet [bit b 5, bit b 4, bit b 3, bit b 2, bit b 1]"
  "unat (push_bit 4 (b AND 1) OR drop_bit 4 (c :: u8)) = quintet [bit b 0, bit c 7, bit c 6, bit c 5, bit c 4]"
  "unat (push_bit 1 (c AND 15) OR drop_bit 7 (d :: u8)) = quintet [bit c 3, bit c 2, bit c 1, bit c 0, bit d 7]"
  "unat (drop_bit 2 d AND 31) = quintet [bit d 6, bit d 5, bit d 4, bit d 3, bit d 2]"
  "unat (push_bit 3 (d AND 3) OR drop_bit 5 (e :: u8)) = quintet [bit d 1, bit d 0, bit e 7, bit e 6, bit e 5]"
  "unat (e AND 31) = quintet [bit e 4, bit e 3, bit e 2, bit e 1, bit e 0]"
  "unat (push_bit 2 (a AND 7)) = quintet [bit a 2, bit a 1, bit a 0, False, False]"
  by (subst unat_quintet; simp add: quintet_bits del: bit_0 One_nat_def)+

lemma nth_of_five:
  "[a,b,c,d,e] ! 0 = a" "[a,b,c,d,e] ! 1 = b" "[a,b,c,d,e] ! 2 = c" "[a,b,c,d,e] ! 3 = d" "[a,b,c,d,e] ! 4 = e"
  by simp_all

lemma encode_chunk_quintets:
  "encode_base32_5_byte_chunk [a,b,c,d,e]
   = map (\<lambda>q. BASE32_LOWER_ALPHABET ! q) (quintets (concat (map (\<lambda>x. map (bit x) [7, 6, 5, 4, 3, 2, 1, 0]) [a,b,c,d,e])))"
  unfolding encode_base32_5_byte_chunk_def base32_lower_def nth_of_five unat_chunk_quintets(1-7)
  unfolding unat_chunk_quintets(8) by simp

lemma quintets_append: "length xs = 5 * k \<Longrightarrow> quintets (xs @ ys) = quintets xs @ quintets ys"
proof (induction k arbitrary: xs)
  case (Suc k)
  then obtain a b c d e zs where "xs = a # b # c # d # e # zs" "length zs = 5 * k"
    by (auto simp: numeral_eq_Suc length_Suc_conv)
  then show ?case using Suc.IH [of zs] by simp
qed simp

lemma list16E:
  assumes "length xs = 16"
  obtains a b c d e f g h i j k l m n p q where "xs = [a,b,c,d,e,f,g,h,i,j,k,l,m,n,p,q]"
  using assms
  by (auto simp: numeral_eq_Suc length_Suc_conv)

lemma encode_eq: "length xs = 16 \<Longrightarrow> encode_base32_no_padding_lower xs = rfc4648_base32 BASE32_LOWER_ALPHABET xs"
proof (erule list16E)
  fix a b c d e f g h i j k l m n p q
  assume xs: "xs = [a,b,c,d,e,f,g,h,i,j,k,l,m,n,p,q]"
  let ?bits = "\<lambda>xs. concat (map (\<lambda>x :: u8. map (bit x) [7, 6, 5, 4, 3, 2, 1, 0]) xs)"
  have "?bits xs = ?bits [a,b,c,d,e] @ ?bits [f,g,h,i,j] @ ?bits [k,l,m,n,p] @ ?bits [q]"
    unfolding xs by (simp only: concat_append [symmetric] map_append [symmetric] append.simps)
  then have "quintets (?bits xs) = quintets (?bits [a,b,c,d,e]) @ quintets (?bits [f,g,h,i,j])
    @ quintets (?bits [k,l,m,n,p]) @ quintets (?bits [q])"
    by (simp only:) (subst quintets_append [where k = 8]; simp)+
  moreover have "quintets (?bits [q]) = [unat (drop_bit 3 q), unat (push_bit 2 (q AND 7))]"
    unfolding unat_chunk_quintets by (simp add: numeral_2_eq_2)
  ultimately show ?thesis
    unfolding rfc4648_base32_def encode_base32_no_padding_lower_def xs
    by (simp add: encode_chunk_quintets base32_lower_def del: concat.simps list.map(2))
      (simp add: list.map)
qed
lemma unat_u64_bound: "unat (t :: u64) < 18446744073709551616"
  by (rule order_less_le_trans [OF unsigned_less]) simp

lemma unat_ucast_drop: "unat (ucast (drop_bit k (t :: u64)) :: u8) = unat t div 2 ^ k mod 256"
  unfolding unsigned_ucast_eq by (simp only: unsigned_drop_bit_eq) (simp add: take_bit_eq_mod drop_bit_eq_div unat_u64_bound)

lemma unat_take4: "unat (take_bit 4 x) = unat (x :: 'a::len word) mod 16"
  by (simp only: unsigned_take_bit_eq) (simp add: take_bit_eq_mod)

lemma low_nibble_or:
  "unat ((x AND 15) OR push_bit 4 (ucast (t AND 15)) :: u8) = unat (t :: u64) mod 16 * 16 + unat x mod 16"
proof -
  let ?h = "ucast (take_bit 4 t) :: u8"
  have d: "take_bit 4 x AND push_bit 4 ?h = 0"
    by (rule bit_word_eqI) (auto simp: bit_simps)
  have eq: "(x AND 15) OR push_bit 4 (ucast (t AND 15)) = take_bit 4 x + push_bit 4 ?h"
    by (simp add: and15 disjunctive_add_eq_or [OF d])
  have "unat ?h = unat t mod 16"
    unfolding unsigned_ucast_eq unat_take4 by (simp add: take_bit_eq_mod)
  then have "unat (push_bit 4 ?h) = unat t mod 16 * 16" 
    by (simp only: unsigned_push_bit_eq) (simp add: take_bit_eq_mod push_bit_eq_mult)
  then show ?thesis 
    unfolding eq by (simp only: unat_word_ariths unat_take4) simp
qed

lemma ticks_recompose:
  assumes "t < 2 ^ 52"
  shows "t div 2^44 mod 256 * 256^6 + (t div 2^36 mod 256 * 256^5 + (t div 2^28 mod 256 * 256^4
    + (t div 2^20 mod 256 * 256^3 + (t div 2^12 mod 256 * 256^2 + (t div 2^4 mod 256 * 256 + (t mod 16 * 16 + r))))))
   = t * 16 + (r::nat)"
proof -
  define t1 where "t1 = t div 16"
  define t2 where "t2 = t1 div 256"
  define t3 where "t3 = t2 div 256"
  define t4 where "t4 = t3 div 256"
  define t5 where "t5 = t4 div 256"
  define t6 where "t6 = t5 div 256"
  have e: "t div 2^4 = t1" "t div 2^12 = t2" "t div 2^20 = t3" "t div 2^28 = t4" "t div 2^36 = t5" "t div 2^44 = t6"
    by (simp_all add: t1_def t2_def t3_def t4_def t5_def t6_def div_mult2_eq [symmetric])
  have s: "t = 16 * t1 + t mod 16" "t1 = 256 * t2 + t1 mod 256" "t2 = 256 * t3 + t2 mod 256"
    "t3 = 256 * t4 + t3 mod 256" "t4 = 256 * t5 + t4 mod 256" "t5 = 256 * t6 + t5 mod 256"
    by (simp_all add: t1_def t2_def t3_def t4_def t5_def t6_def)
  have "t6 < 256" using assms unfolding e(6) [symmetric] by (simp add: less_mult_imp_div_less)
  then have "t6 mod 256 = t6" by simp
  then show ?thesis unfolding e using s by simp
qed

lemma be_value_put:
  assumes "length xs = 16" and "unat t < 2 ^ 52"
  shows "be_value (take 7 (put_timestamp_ticks xs t)) = unat t * 16 + unat (xs ! 6) mod 16"
  using assms(1)
proof (rule list16E)
  fix a b c d e f g h i j k l m n p q
  assume xs: "xs = [a,b,c,d,e,f,g,h,i,j,k,l,m,n,p,q]"
  show ?thesis
    unfolding xs put_timestamp_ticks_def
    apply (simp add: unat_ucast_drop low_nibble_or del: power_numeral)
    using ticks_recompose [OF assms(2), of "unat g mod 16"]
    by simp
qed

lemma or_byte_piece:
  assumes "k + 8 \<le> 64"
  shows "push_bit k (ucast (ucast (drop_bit k t) :: u8)) OR take_bit k (t :: u64) = take_bit (k + 8) t"
proof (rule bit_word_eqI)
  fix n assume "n < LENGTH(64)"
  show "bit (push_bit k (ucast (ucast (drop_bit k t) :: u8)) OR take_bit k t) n = bit (take_bit (k + 8) t) n"
  proof (cases "n < k")
    case True
    then show ?thesis by (auto simp: bit_simps)
  next
    case False
    then obtain m where "n = k + m" using le_Suc_ex by (metis not_le)
    then show ?thesis using assms \<open>n < LENGTH(64)\<close> by (auto simp: bit_simps)
  qed
qed

lemma or_nibble_piece:
  "ucast (drop_bit 4 ((x AND 15) OR push_bit 4 (ucast (t AND 15)) :: u8)) = take_bit 4 (t :: u64)"
  by (rule bit_word_eqI) (auto simp: and15 bit_simps)

lemma read_put_timestamp_ticks:
  assumes "length xs = 16"
  shows "read_timestamp_ticks (put_timestamp_ticks xs t) = take_bit 52 t"
  using assms
proof (rule list16E)
  fix a b c d e f g h i j k l m n p q
  assume xs: "xs = [a,b,c,d,e,f,g,h,i,j,k,l,m,n,p,q]"
  show ?thesis
    unfolding xs put_timestamp_ticks_def read_timestamp_ticks_def
    using or_byte_piece [of 4 t] or_byte_piece [of 12 t] or_byte_piece [of 20 t] or_byte_piece [of 28 t]
     or_byte_piece [of 36 t] or_byte_piece [of 44 t]
    by (simp add: or_nibble_piece del: drop_bit_or)
qed


lemma put_read_timestamp_ticks:
  assumes "length xs = 16"
  shows "put_timestamp_ticks xs (read_timestamp_ticks xs) = xs"
  using assms
proof (rule list16E)
  fix a b c d e f g h i j k l m n p q
  assume xs: "xs = [a,b,c,d,e,f,g,h,i,j,k,l,m,n,p,q]"
  let ?t = "push_bit 44 (ucast a) OR push_bit 36 (ucast b) OR push_bit 28 (ucast c) OR push_bit 20 (ucast d)
     OR push_bit 12 (ucast e) OR push_bit 4 (ucast f) OR ucast (drop_bit 4 g) :: u64"
  have "ucast (drop_bit 44 ?t) = a" "ucast (drop_bit 36 ?t) = b" "ucast (drop_bit 28 ?t) = c"
    "ucast (drop_bit 20 ?t) = d" "ucast (drop_bit 12 ?t) = e" "ucast (drop_bit 4 ?t) = f"
    by (rule bit_word_eqI, simp add: bit_simps)+
  moreover have "take_bit 4 ?t = ucast (drop_bit 4 g)"
  proof -
    have "bit g (4 + r) \<Longrightarrow> r < 4" for r
      using byte_high_bit [of "4 + r" g] by linarith
    then show ?thesis
      by (intro bit_word_eqI) (auto simp: take_bit_push_bit bit_simps)
  qed
  moreover have "(g AND 15) OR push_bit 4 (ucast (ucast (drop_bit 4 g) :: u64)) = g"
  proof (rule bit_word_eqI)
    fix n assume "n < LENGTH(8)"
    then show "bit ((g AND 15) OR push_bit 4 (ucast (ucast (drop_bit 4 g) :: u64))) n = bit g n"
      by (cases "n < 4") (auto simp: bit_simps and15)
  qed
  ultimately show ?thesis
    unfolding xs put_timestamp_ticks_def read_timestamp_ticks_def
    by (simp add: and15 del: drop_bit_or take_bit_or)
qed

lemma whiten_involution: "length xs = 16 \<Longrightarrow> whiten (whiten xs) = xs"
  by (erule list16E) (simp add: whiten_def TIME_BYTES_def upt_rec xor.assoc)

section \<open>Order and time\<close>

lemma length_put [simp]: "length (put_timestamp_ticks xs t) = length xs"
  by (simp add: put_timestamp_ticks_def)

lemma drop_put [simp]: "drop 7 (put_timestamp_ticks xs t) = drop 7 xs"
  by (simp add: put_timestamp_ticks_def)

lemma take_bit_read: "length xs = 16 \<Longrightarrow> take_bit 52 (read_timestamp_ticks xs) = read_timestamp_ticks xs"
  using read_put_timestamp_ticks [of xs "read_timestamp_ticks xs"]
  by (simp add: put_read_timestamp_ticks)

lemma take_bit_52_bound: "take_bit 52 t = (t :: u64) \<Longrightarrow> unat t < 2 ^ 52"
  by (metis take_bit_nat_less_exp unsigned_take_bit_eq)

lemma read_bound: "length xs = 16 \<Longrightarrow> unat (read_timestamp_ticks xs) < 2 ^ 52"
  by (rule take_bit_52_bound [OF take_bit_read])

lemma be_value_time:
  "length xs = 16 \<Longrightarrow> be_value (take 7 xs) = unat (read_timestamp_ticks xs) * 16 + unat (xs ! 6) mod 16"
  using be_value_put [of xs "read_timestamp_ticks xs"] read_bound [of xs]
  by (simp add: put_read_timestamp_ticks)

lemma be_value_id:
  assumes "length xs = 16"
  shows "be_value xs = (unat (read_timestamp_ticks xs) * 16 + unat (xs ! 6) mod 16) * 256 ^ 9 + be_value (drop 7 xs)"
  using be_value_append [of "take 7 xs" "drop 7 xs"] assms by (simp add: be_value_time)

lemma MAX_TICKS_value: "unat MAX_TIMESTAMP_TICKS = 2 ^ 52 - 1"
  by (simp add: MAX_TIMESTAMP_TICKS_def)

lemma ticks_bound: "unat (unix_micro_to_timestamp_ticks t) < 2 ^ 52"
proof -
  have "unix_micro_to_timestamp_ticks t \<le> MAX_TIMESTAMP_TICKS"
    by (simp add: unix_micro_to_timestamp_ticks_def)
  then have "unat (unix_micro_to_timestamp_ticks t) \<le> 2 ^ 52 - 1"
    using MAX_TICKS_value by (simp only: word_le_nat_alt)
  then show ?thesis by simp
qed

lemma take_bit_ticks [simp]: 
  "take_bit 52 (unix_micro_to_timestamp_ticks t) = unix_micro_to_timestamp_ticks t"
  using ticks_bound [of t] by (metis unsigned_take_bit_eq take_bit_nat_eq_self word_eq_iff_unsigned)

lemma read_put_ticks [simp]: "length xs = 16 \<Longrightarrow> read_timestamp_ticks (put_timestamp_ticks xs (unix_micro_to_timestamp_ticks t))
  = unix_micro_to_timestamp_ticks t"
  by (simp add: read_put_timestamp_ticks)

lemma less_of_ticks:
  assumes "length xs = 16" "length ys = 16" "read_timestamp_ticks xs < read_timestamp_ticks ys"
  shows "SortableId xs < SortableId ys"
proof -
  have "unat (read_timestamp_ticks xs) < unat (read_timestamp_ticks ys)"
    using assms(3) by (simp add: word_less_nat_alt)
  then have "unat (read_timestamp_ticks xs) * 16 + unat (xs ! 6) mod 16 
    < unat (read_timestamp_ticks ys) * 16 + unat (ys ! 6) mod 16"
    by (rule positional_less) simp
  then have "be_value xs < be_value ys"
    unfolding be_value_id [OF assms(1)] be_value_id [OF assms(2)]
    by (rule positional_less) (use be_value_bound [of "drop 7 xs"] assms in simp)
  then show ?thesis
    by (simp add: less_sortable_id_def be_value_less_iff assms)
qed

lemma ticks_mono_of_le:
  assumes "length xs = 16" "length ys = 16" "SortableId xs \<le> SortableId ys"
  shows "read_timestamp_ticks xs \<le> read_timestamp_ticks ys"
  using less_of_ticks [OF assms(2,1)] assms(3) by fastforce

lemma be_value_put_id:
  assumes "length xs = 16" 
  shows "be_value (put_timestamp_ticks xs (unix_micro_to_timestamp_ticks t))
    = (unat (unix_micro_to_timestamp_ticks t) * 16 + unat (xs ! 6) mod 16) * 256 ^ 9 + be_value (drop 7 xs)"
  using be_value_append [of "take 7 (put_timestamp_ticks xs (unix_micro_to_timestamp_ticks t))" "drop 7 xs"]
    append_take_drop_id [of 7 "put_timestamp_ticks xs (unix_micro_to_timestamp_ticks t)"]
    be_value_put [OF assms ticks_bound] assms
  by simp

lemma min_id_bytes:
  "id_bytes (min_id_at_unix_micros t)
     = put_timestamp_ticks (replicate 16 0) (unix_micro_to_timestamp_ticks t)"
  by (simp add: min_id_at_unix_micros_def SORTABLE_ID_SIZE_def)

lemma replicate_numeral_Cons: "replicate (numeral n) x = x # replicate (pred_numeral n) x"
  by (simp add: numeral_eq_Suc)

lemma max_id_bytes: "id_bytes (max_id_at_unix_micros t) = put_timestamp_ticks (replicate 6 0 @ [15] @ replicate 9 255) (unix_micro_to_timestamp_ticks t)"
proof -
  have "(15 :: u8) AND 15 = 15" "(0 :: u8) AND 15 = 0" by simp_all
  then show ?thesis
  by (simp add: max_id_at_unix_micros_def Let_def min_id_at_unix_micros_def SORTABLE_ID_SIZE_def
    put_timestamp_ticks_def replicate_numeral_Cons or.commute)
qed

lemma min_id_value: "be_value (id_bytes (min_id_at_unix_micros t)) = unat (unix_micro_to_timestamp_ticks t) * 16 * 256 ^ 9"
  by (simp add: min_id_at_unix_micros_def SORTABLE_ID_SIZE_def be_value_put_id replicate_numeral_Cons)

lemma max_id_value: "be_value (id_bytes (max_id_at_unix_micros t)) + 1 = (unat (unix_micro_to_timestamp_ticks t) + 1) * 16 * 256 ^ 9"
  by (simp add: max_id_bytes be_value_put_id replicate_numeral_Cons)

lemma length_min_max: "length (id_bytes (min_id_at_unix_micros t)) = 16" "length (id_bytes (max_id_at_unix_micros t)) = 16"
  by (simp_all add: max_id_bytes min_id_at_unix_micros_def SORTABLE_ID_SIZE_def)

lemma le_iff_be_value: "length xs = length ys \<Longrightarrow> xs \<le> ys \<longleftrightarrow> be_value xs \<le> be_value ys"
  using be_value_less_iff [of ys xs] by (simp add: linorder_not_less [symmetric])

text \<open>C33: The identifiers between \<open>min_at_unix_micros(t)\<close> and \<open>max_at_unix_micros(t)\<close> in byte order are
  exactly the 16-byte identifiers whose timestamp is the tick of \<open>t\<close>: a range scan over one
  instant misses no identifier of that tick and returns no other.\<close>

theorem id_range_exact:
  assumes "length (id_bytes i) = SORTABLE_ID_SIZE"
  shows "min_id_at_unix_micros t \<le> i \<and> i \<le> max_id_at_unix_micros t
    \<longleftrightarrow> read_timestamp_ticks (id_bytes i) = unix_micro_to_timestamp_ticks t"
proof -
  let ?T = "unat (unix_micro_to_timestamp_ticks t)" and ?R = "unat (read_timestamp_ticks (id_bytes i))"
  have len: "length (id_bytes i) = 16" using assms by (simp add: SORTABLE_ID_SIZE_def)
  define low where "low = unat (id_bytes i ! 6) mod 16 * 256 ^ 9 + be_value (drop 7 (id_bytes i))"
  have v: "be_value (id_bytes i) = ?R * (16 * 256 ^ 9) + low"
    by (simp add: be_value_id [OF len] low_def algebra_simps)
  have "unat (id_bytes i ! 6) mod 16 * 256 ^ 9 + be_value (drop 7 (id_bytes i)) < 16 * 256 ^ 9 + 0"
    by (rule positional_less) (use be_value_bound [of "drop 7 (id_bytes i)"] len in simp_all)
  then have low: "low < 16 * 256 ^ 9" by (simp add: low_def)
  have "min_id_at_unix_micros t \<le> i \<and> i \<le> max_id_at_unix_micros t
    \<longleftrightarrow> ?T * (16 * 256 ^ 9) \<le> be_value (id_bytes i) \<and> be_value (id_bytes i) < (?T + 1) * (16 * 256 ^ 9)"
    using max_id_value [of t]
    by (auto simp: less_eq_sortable_id_def le_iff_be_value length_min_max len min_id_value)
  also have "\<dots> \<longleftrightarrow> ?R = ?T"
    using low unfolding v by (auto simp: algebra_simps)
  also have "\<dots> \<longleftrightarrow> read_timestamp_ticks (id_bytes i) = unix_micro_to_timestamp_ticks t"
    by (metis word_eq_iff_unsigned)
  finally show ?thesis .
qed


lemma unat_ticks:
  assumes "t \<le> i64_max"
  shows "int (unat (unix_micro_to_timestamp_ticks t)) = min (max 0 t div 100) (2 ^ 52 - 1)"
proof (cases "t \<le> 0")
  case True
  then show ?thesis by (simp add: unix_micro_to_timestamp_ticks_def)
next
  case False
  have u: "uint (word_of_int (t div 100) :: u64) = t div 100"
    using False assms by (simp add: uint_word_of_int i64_max_def)
  have m: "uint MAX_TIMESTAMP_TICKS = 2 ^ 52 - 1"
    by (simp add: MAX_TIMESTAMP_TICKS_def)
  show ?thesis
    using False u m
    by (auto simp: unix_micro_to_timestamp_ticks_def TIMESTAMP_RESOLUTION_MICROS_def min_def word_le_def
        simp flip: uint_nat split: if_splits)
qed

lemma sint_read:
  assumes "length xs = 16"
  shows "sint (read_timestamp_ticks xs) = int (unat (read_timestamp_ticks xs))"
proof -
  have u: "uint (read_timestamp_ticks xs) = int (unat (read_timestamp_ticks xs))"
    by (rule uint_nat)
  have "unat (read_timestamp_ticks xs) < 2 ^ 63"
    by (rule order_less_trans [OF read_bound [OF assms]]) simp
  then have "uint (read_timestamp_ticks xs) < 2 ^ 63"
    unfolding u by (metis of_nat_less_iff of_nat_numeral of_nat_power)
  then have "signed_take_bit 63 (uint (read_timestamp_ticks xs)) = uint (read_timestamp_ticks xs)"
    by (intro signed_take_bit_int_eq_self) (use uint_ge_0 [of "read_timestamp_ticks xs"] in linarith)+
  then show ?thesis unfolding u [symmetric] by (simp add: sint_uint)
qed

lemma id_to_unix_micros_value:
  "length (id_bytes i) = 16 \<Longrightarrow> id_to_unix_micros i = int (unat (read_timestamp_ticks (id_bytes i))) * 100"
  by (simp add: id_to_unix_micros_def sint_read TIMESTAMP_RESOLUTION_MICROS_def)

lemma new_at_shape:
  assumes "fills fill" "new_at_unix_micros_with_random_fill t fill s = (Inr i, s')"
  obtains rs where "fill s 10 = (Inr rs, s')" "length rs = 10" 
     "i = SortableId (put_timestamp_ticks (replicate 6 0 @ (rs ! 0 AND 15) # drop 1 rs) (unix_micro_to_timestamp_ticks t))"
proof -
  from assms(2) obtain rs where rs: "fill s 10 = (Inr rs, s')" 
     "i = SortableId (put_timestamp_ticks ((replicate 6 0 @ rs)[6 := (replicate 6 0 @ rs) ! 6 AND 15]) (unix_micro_to_timestamp_ticks t))"
    by (auto simp: new_at_unix_micros_with_random_fill_def SORTABLE_ID_SIZE_def Let_def split: prod.splits sum.splits)
  then have "length rs = 10" using assms(1) by (auto simp: fills_def)
  moreover from this have "(replicate 6 0 @ rs)[6 := (replicate 6 0 @ rs) ! 6 AND 15] = replicate 6 0 @ (rs ! 0 AND 15) # drop 1 rs"
    by (cases rs) (simp_all add: list_update_append nth_append)
  ultimately show thesis using that rs by simp
qed

text \<open>A generated identifier has 16 bytes, reads back as its creation time truncated to
  100 microseconds (negative times as 0, late times saturated at 52 bits), and its other 76 bits
  are exactly the random bytes it was given.\<close>

theorem new_at_timestamp:
  assumes "fills fill" "t \<le> i64_max" "new_at_unix_micros_with_random_fill t fill s = (Inr i, s')"
  shows "length (id_bytes i) = SORTABLE_ID_SIZE
    \<and> id_to_unix_micros i = min (max 0 t div 100) (2 ^ 52 - 1) * 100
    \<and> drop 7 (id_bytes i) = drop 1 (projr (fst (fill s 10)))
    \<and> id_bytes i ! 6 AND 15 = projr (fst (fill s 10)) ! 0 AND 15"
  using assms(1,3)
proof (rule new_at_shape)
  fix rs assume rs: "fill s 10 = (Inr rs, s')" "length rs = 10"
   "i = SortableId (put_timestamp_ticks (replicate 6 0 @ (rs ! 0 AND 15) # drop 1 rs) (unix_micro_to_timestamp_ticks t))"
  let ?b = "put_timestamp_ticks (replicate 6 0 @ (rs ! 0 AND 15) # drop 1 rs) (unix_micro_to_timestamp_ticks t)"
  have "?b ! 6 AND 15 = rs ! 0 AND 15"
    by (simp add: put_timestamp_ticks_def and15 nth_append take_bit_push_bit)
  then show ?thesis
    using rs unat_ticks [OF assms(2)] by (simp add: id_to_unix_micros_value SORTABLE_ID_SIZE_def)
qed

lemma id_time_mono:
  assumes len: "length (id_bytes i) = 16" "length (id_bytes j) = 16" and "i \<le> j"
  shows "id_to_unix_micros i \<le> id_to_unix_micros j"
proof -
  have "unat (read_timestamp_ticks (id_bytes i)) \<le> unat (read_timestamp_ticks (id_bytes j))"
    using ticks_mono_of_le [OF len] assms(3) by (simp add: word_le_nat_alt)
  then show ?thesis
    unfolding id_to_unix_micros_value [OF len(1)] id_to_unix_micros_value [OF len(2)] by linarith
qed

text \<open>The byte order of identifiers is consistent with their time order.\<close>

theorem id_order_is_time_order:
  assumes "length (id_bytes i) = SORTABLE_ID_SIZE" "length (id_bytes j) = SORTABLE_ID_SIZE"
  shows "(i \<le> j \<longrightarrow> id_to_unix_micros i \<le> id_to_unix_micros j)
    \<and> (id_to_unix_micros i < id_to_unix_micros j \<longrightarrow> i < j)"
  using id_time_mono [of i j] id_time_mono [of j i] assms
  by (auto simp: SORTABLE_ID_SIZE_def not_less [symmetric])

definition base32_decodes_standard :: "base32_decoder \<Rightarrow> bool" where
  "base32_decodes_standard dec \<longleftrightarrow>
    (\<forall>xs. length xs = 16 \<longrightarrow> dec (rfc4648_base32 BASE32_LOWER_ALPHABET xs) = Inr xs)"

lemma length_whiten [simp]: "length (whiten xs) = length xs"
  by (simp add: whiten_def TIME_BYTES_def upt_rec)

lemma length_encode: "length (encode_base32_no_padding_lower xs) = 26"
  by (simp add: encode_base32_no_padding_lower_def encode_base32_5_byte_chunk_def)

text \<open>C34: Parsing the text form of an identifier gives the identifier back, for every decoder
  that decodes standard base32: the whitening and the hand-written encoder are undone.\<close>

theorem text_round_trip:
  assumes "base32_decodes_standard dec" "length (id_bytes i) = SORTABLE_ID_SIZE"
  shows "parse_id dec (serialize_id i) = Inr i"
proof -
  have len: "length (whiten (id_bytes i)) = 16" using assms by (simp add: SORTABLE_ID_SIZE_def)
  have "dec (serialize_id i) = Inr (whiten (id_bytes i))"
    using assms(1) len unfolding serialize_id_def encode_eq [OF len] base32_decodes_standard_def by blast
  moreover have "length (serialize_id i) = 26"
    by (simp add: serialize_id_def length_encode)
  ultimately show ?thesis
    using assms(2)
    by (simp add: parse_id_def SORTABLE_ID_TEXT_LEN_def SORTABLE_ID_SIZE_def
       decode_base32_no_padding_def whiten_involution)
qed


section \<open>Random identifiers\<close>

definition accepted :: "bytes \<Rightarrow> bytes \<Rightarrow> bytes" where
  "accepted alphabet buf = map (\<lambda>b. alphabet ! (unat b mod length alphabet))
     (filter (\<lambda>b. unat b < usable_values alphabet) buf)"

lemma accepted_simps [simp]:
  "accepted alphabet [] = []"
  "accepted alphabet (b # bs) = (if unat b < usable_values alphabet
     then alphabet ! (unat b mod length alphabet) # accepted alphabet bs else accepted alphabet bs)"
  "accepted alphabet (xs @ ys) = accepted alphabet xs @ accepted alphabet ys"
  by (simp_all add: accepted_def)

lemma sample_buffer_eq:
  "length out < n \<Longrightarrow> sample_buffer alphabet n out buf = take n (out @ accepted alphabet buf)"
proof (induction buf arbitrary: out)
  case Nil
  then show ?case by simp
next
  case (Cons b bs)
  let ?x = "alphabet ! (unat b mod length alphabet)"
  show ?case
  proof (cases "unat b < usable_values alphabet")
    case False
    then show ?thesis using Cons by simp
  next
    case True
    consider "Suc (length out) = n" | "Suc (length out) < n"
      using Cons.prems by linarith
    then show ?thesis
    proof cases
      case 1
      then show ?thesis using True by (auto simp: Let_def Suc_diff_le)
    next
      case 2
      then show ?thesis using True Cons.IH [of "out @ [?x]"] by (simp add: Let_def)
    qed
  qed
qed

text \<open>The buffers a state-passing fill delivers in \<open>k\<close> successive successful calls.\<close>

fun buffers :: "('s, 'g) fill \<Rightarrow> nat \<Rightarrow> 's \<Rightarrow> bytes option" where
  "buffers fill 0 s = Some []"
| "buffers fill (Suc k) s =
     (case fill s RANDOM_BUFFER_SIZE of
        (Inl e, s') \<Rightarrow> None
      | (Inr buf, s') \<Rightarrow> (case buffers fill k s' of None \<Rightarrow> None | Some bs \<Rightarrow> Some (buf @ bs)))"

lemma sample_loop_enough:
  assumes "buffers fill k s = Some bs" "length out \<le> n" "n \<le> length out + length (accepted alphabet bs)"
    "k \<le> fuel"
  shows "\<exists>s'. sample_loop fuel alphabet n fill out s
     = Some (Inr (take n (out @ accepted alphabet bs)), s')"
  using assms
proof (induction k arbitrary: s bs out fuel)
  case 0
  then show ?case by (subst sample_loop.simps) simp
next
  case (Suc k)
  show ?case
  proof (cases "length out = n")
    case True
    then show ?thesis by (subst sample_loop.simps) simp
  next
    case False
    then have lt: "length out < n" using Suc.prems by simp
    from Suc.prems(1) obtain buf s1 bs1 where b: "fill s RANDOM_BUFFER_SIZE = (Inr buf, s1)"
        "buffers fill k s1 = Some bs1" "bs = buf @ bs1"
      by (auto split: prod.splits sum.splits option.splits)
    obtain fuel1 where f: "fuel = Suc fuel1" "k \<le> fuel1" using Suc.prems(4) by (cases fuel) auto
    let ?o = "sample_buffer alphabet n out buf"
    have o: "?o = take n (out @ accepted alphabet buf)" by (rule sample_buffer_eq [OF lt])
    have "\<exists>s'. sample_loop fuel1 alphabet n fill ?o s1 = Some (Inr (take n (?o @ accepted alphabet bs1)), s')"
      by (rule Suc.IH [OF b(2)]) (use Suc.prems lt b f o in auto)
    moreover have "take n (?o @ accepted alphabet bs1) = take n (out @ accepted alphabet bs)"
      unfolding o b(3) by (simp add: min_def)
    ultimately show ?thesis
      using lt b f by (subst sample_loop.simps) simp
  qed
qed

text \<open>If the random source delivers \<open>k\<close> buffers that hold at least \<open>n\<close> acceptable bytes, the
  generator returns after at most \<open>k\<close> rounds, with the first \<open>n\<close> accepted bytes mapped into the
  alphabet.\<close>

theorem random_id_returns:
  assumes "0 < n" "n \<le> MAX_RANDOM_ID_OUTPUT_LEN" "buffers fill k s = Some bs"
    "n \<le> length (accepted alphabet bs)" "k \<le> fuel"
  shows "\<exists>s'. random_id_from_alphabet_with_random_fill fuel n alphabet fill s
     = Some (Inr (RandomId (take n (accepted alphabet bs))), s')"
  using sample_loop_enough [of fill k s bs "[]" n alphabet fuel] assms
  by (auto simp: random_id_from_alphabet_with_random_fill_def)

text \<open>Rejection sampling has no modulo bias: among the byte values the loop accepts, every
  position of the alphabet is hit by the same number of values.\<close>

theorem random_id_unbiased:
  assumes "0 < length alphabet" "c < length alphabet"
  shows "card {v. v < usable_values alphabet \<and> v mod length alphabet = c} = 256 div length alphabet"
proof -
  let ?m = "length alphabet" and ?k = "256 div length alphabet"
  have "{v. v < usable_values alphabet \<and> v mod ?m = c} = (\<lambda>q. q * ?m + c) ` {..<?k}"
  proof (intro equalityI subsetI)
    fix v assume "v \<in> {v. v < usable_values alphabet \<and> v mod ?m = c}"
    then have v: "v < ?k * ?m" "v mod ?m = c" by (simp_all add: usable_values_def)
    then have "v = v div ?m * ?m + c" "v div ?m < ?k"
      using assms by (auto simp: div_mult_mod_eq less_mult_imp_div_less)
    then show "v \<in> (\<lambda>q. q * ?m + c) ` {..<?k}" by blast
  next
    fix v assume "v \<in> (\<lambda>q. q * ?m + c) ` {..<?k}"
    then obtain q where q: "q < ?k" "v = q * ?m + c" by auto
    have "q * ?m + c < ?k * ?m + 0" by (rule positional_less [OF q(1) assms(2)])
    then show "v \<in> {v. v < usable_values alphabet \<and> v mod ?m = c}"
      using q assms by (simp add: usable_values_def)
  qed
  moreover have "inj_on (\<lambda>q. q * ?m + c) {..<?k}"
    using assms by (auto simp: inj_on_def)
  ultimately show ?thesis by (simp add: card_image)
qed

definition chunk_at :: "bytes \<Rightarrow> nat \<Rightarrow> bytes" where
  "chunk_at random_bytes k = take RANDOM_BYTES_SIZE (drop (k * RANDOM_BYTES_SIZE) random_bytes)"

lemma multi_id_spec:
  assumes "length random_bytes = count * RANDOM_BYTES_SIZE" "k < count" "t \<le> i64_max"
  shows "length (id_bytes (multi_id random_bytes (unix_micro_to_timestamp_ticks t) k)) = 16"
    and "id_to_unix_micros (multi_id random_bytes (unix_micro_to_timestamp_ticks t) k)
       = min (max 0 t div 100) (2 ^ 52 - 1) * 100"
    and "drop 7 (id_bytes (multi_id random_bytes (unix_micro_to_timestamp_ticks t) k)) = drop 1 (chunk_at random_bytes k)"
    and "id_bytes (multi_id random_bytes (unix_micro_to_timestamp_ticks t) k) ! 6 AND 15 = chunk_at random_bytes k ! 0 AND 15"
proof -
  have "Suc k * 10 \<le> count * 10" using assms(2) by (intro mult_right_mono) simp_all
  then have len: "length (chunk_at random_bytes k) = 10"
    using assms(1) by (simp add: chunk_at_def RANDOM_BYTES_SIZE_def)
  let ?ys = "replicate 6 0 @ [chunk_at random_bytes k ! 0 AND 15] @ drop 1 (chunk_at random_bytes k)"
  have m: "multi_id random_bytes (unix_micro_to_timestamp_ticks t) k
     = SortableId (put_timestamp_ticks ?ys (unix_micro_to_timestamp_ticks t))"
    by (simp add: multi_id_def chunk_at_def Let_def)
  have ys: "length ?ys = 16" using len by simp
  show "length (id_bytes (multi_id random_bytes (unix_micro_to_timestamp_ticks t) k)) = 16"
    using len by (simp add: m)
  show "id_to_unix_micros (multi_id random_bytes (unix_micro_to_timestamp_ticks t) k)
       = min (max 0 t div 100) (2 ^ 52 - 1) * 100"
    using ys unat_ticks [OF assms(3)] unfolding m
    by (simp add: id_to_unix_micros_value del: length_append)
  show "drop 7 (id_bytes (multi_id random_bytes (unix_micro_to_timestamp_ticks t) k)) = drop 1 (chunk_at random_bytes k)"
    by (simp add: m)
  show "id_bytes (multi_id random_bytes (unix_micro_to_timestamp_ticks t) k) ! 6 AND 15 = chunk_at random_bytes k ! 0 AND 15"
    by (simp add: m put_timestamp_ticks_def and15 nth_append take_bit_push_bit len)
qed

text \<open>A batch of identifiers has the requested number of elements, all of the same tick, each
  carrying its own ten-byte chunk of the random bytes.\<close>

theorem new_multi_share_tick:
  assumes "fills fill" "t \<le> i64_max" "new_multi_with_random_fill count t fill s = (Inr ids, s')" "k < count"
  shows "count \<le> MAX_SORTABLE_ID_MULTI_COUNT \<and> length ids = count
    \<and> id_to_unix_micros (ids ! k) = min (max 0 t div 100) (2 ^ 52 - 1) * 100
    \<and> drop 7 (id_bytes (ids ! k)) = drop 1 (chunk_at (projr (fst (fill s (count * 10)))) k)
    \<and> id_bytes (ids ! k) ! 6 AND 15 = chunk_at (projr (fst (fill s (count * 10)))) k ! 0 AND 15"
proof -
  obtain rs where rs: "fill s (count * RANDOM_BYTES_SIZE) = (Inr rs, s')" "count \<le> MAX_SORTABLE_ID_MULTI_COUNT"
     "ids = map (multi_id rs (unix_micro_to_timestamp_ticks t)) [0..<count]"
    using assms(3,4) by (auto simp: new_multi_with_random_fill_def split: if_splits prod.splits sum.splits)
  then have "length rs = count * RANDOM_BYTES_SIZE" using assms(1) by (auto simp: fills_def)
  then show ?thesis
    using rs multi_id_spec [of rs count k t] assms(2,4) by (simp add: RANDOM_BYTES_SIZE_def)
qed
section \<open>Witnesses\<close>

text \<open>A decoder for the alphabet of RFC 4648, and a random source that repeats one byte.\<close>

definition symbol_index :: "u8 \<Rightarrow> nat" where
  "symbol_index c = length (takeWhile (\<lambda>x. x \<noteq> c) BASE32_LOWER_ALPHABET)"

definition five_bits :: "nat \<Rightarrow> bool list" where
  "five_bits n = map (\<lambda>k. odd (n div 2 ^ k)) [4, 3, 2, 1, 0]"

fun octets :: "bool list \<Rightarrow> bytes" where
  "octets (a # b # c # d # e # f # g # h # bs) =
     horner_sum of_bool 2 [h, g, f, e, d, c, b, a] # octets bs"
| "octets bs = []"

definition reference_decoder :: base32_decoder where
  "reference_decoder input = Inr (octets (concat (map (\<lambda>c. five_bits (symbol_index c)) input)))"

lemma all_below_32: "(\<forall>q < (32 :: nat). P q) \<longleftrightarrow> list_all P [0..<32]"
  by (auto simp: list_all_iff)

lemma symbol_index_inverse: "q < 32 \<Longrightarrow> symbol_index (BASE32_LOWER_ALPHABET ! q) = q"
proof -
  have "\<forall>q < 32. symbol_index (BASE32_LOWER_ALPHABET ! q) = q"
    unfolding all_below_32 by code_simp
  then show "q < 32 \<Longrightarrow> ?thesis" by blast
qed

lemma quintet_bound: "quintet [a, b, c, d, e] < 32"
  by (simp add: quintet_def)

lemma five_bits_quintet: "five_bits (quintet [a, b, c, d, e]) = [a, b, c, d, e]"
  by (cases a; cases b; cases c; cases d; cases e; simp add: quintet_def five_bits_def)

lemma decode_symbol:
  "five_bits (symbol_index (BASE32_LOWER_ALPHABET ! quintet [a, b, c, d, e])) = [a, b, c, d, e]"
  by (simp add: symbol_index_inverse quintet_bound five_bits_quintet)

lemma decode_quintets:
  "\<exists>pad. length pad < 5 \<and> concat (map (\<lambda>q. five_bits (symbol_index (BASE32_LOWER_ALPHABET ! q))) (quintets bs)) = bs @ pad"
  by (induction bs rule: quintets.induct) (simp_all add: decode_symbol numeral_eq_Suc)

lemma octets_pad: "length pad < 8 \<Longrightarrow> octets pad = []"
  by (induction pad rule: octets.induct) simp_all

lemma horner_byte:
  "horner_sum of_bool 2 [bit x 0, bit x 1, bit x 2, bit x 3, bit x 4, bit x 5, bit x 6, bit x 7] = (x :: u8)"
proof -
  have "horner_sum of_bool 2 (map (bit x) [0..<8]) = x"
    unfolding horner_sum_bit_eq_take_bit by (simp add: take_bit_word_eq_self)
  then show ?thesis unfolding upt_8 by (simp only: list.map)
qed

lemma octets_bits:
  "length pad < 8 \<Longrightarrow> octets (concat (map (\<lambda>x. map (bit x) [7, 6, 5, 4, 3, 2, 1, 0]) xs) @ pad) = xs"
proof (induction xs)
  case (Cons x xs)
  then show ?case using horner_byte [of x]
    by (simp del: horner_sum_simps bit_0)
qed (simp add: octets_pad)

lemma reference_decoder_standard: "base32_decodes_standard reference_decoder"
proof -
  have "reference_decoder (rfc4648_base32 BASE32_LOWER_ALPHABET xs) = Inr xs" for xs
  proof -
    let ?bits = "concat (map (\<lambda>x. map (bit x) [7, 6, 5, 4, 3, 2, 1, 0]) xs)"
    obtain pad where "length pad < 5"
      "concat (map (\<lambda>q. five_bits (symbol_index (BASE32_LOWER_ALPHABET ! q))) (quintets ?bits)) = ?bits @ pad"
      using decode_quintets by blast
    then show ?thesis
      using octets_bits [of pad xs] by (simp add: reference_decoder_def rfc4648_base32_def comp_def)
  qed
  then show ?thesis by (simp add: base32_decodes_standard_def)
qed

definition constant_fill :: "u8 \<Rightarrow> (unit, unit) fill" where
  "constant_fill x s n = (Inr (replicate n x), s)"

lemma constant_fill_fills: "fills (constant_fill x)"
  by (simp add: fills_def constant_fill_def)

definition sample_id :: sortable_id where
  "sample_id = SortableId [0, 6, 10, 36, 24, 30, 64, 15, 1, 2, 3, 4, 5, 6, 7, 255]"

theorem id_range_exact_witness:
  "min_id_at_unix_micros 150 \<le> max_id_at_unix_micros 199
    \<and> max_id_at_unix_micros 199 \<le> max_id_at_unix_micros 150"
proof -
  have "unix_micro_to_timestamp_ticks 199 = unix_micro_to_timestamp_ticks 150"
    by (simp add: unix_micro_to_timestamp_ticks_def TIMESTAMP_RESOLUTION_MICROS_def)
  then show ?thesis
    using id_range_exact [of "max_id_at_unix_micros 199" 150]
    by (simp add: max_id_bytes SORTABLE_ID_SIZE_def)
qed

theorem new_at_timestamp_witness:
  "\<exists>i. new_at_unix_micros_with_random_fill 1234567 (constant_fill 250) () = (Inr i, ())
     \<and> id_to_unix_micros i = 1234500"
proof -
  obtain i where i: "new_at_unix_micros_with_random_fill 1234567 (constant_fill 250) () = (Inr i, ())"
    by (simp add: new_at_unix_micros_with_random_fill_def constant_fill_def Let_def)
  show ?thesis
    using new_at_timestamp [OF constant_fill_fills _ i] i by (simp add: i64_max_def)
qed

theorem id_order_is_time_order_witness:
  "min_id_at_unix_micros 100 < min_id_at_unix_micros 200"
proof -
  have "id_to_unix_micros (min_id_at_unix_micros 100) < id_to_unix_micros (min_id_at_unix_micros 200)"
    by (simp add: id_to_unix_micros_value min_id_bytes unat_ticks i64_max_def del: of_nat_unat)
  then show ?thesis
    using id_order_is_time_order [of "min_id_at_unix_micros 100" "min_id_at_unix_micros 200"]
    by (simp add: min_id_bytes SORTABLE_ID_SIZE_def)
qed

theorem text_round_trip_witness:
  "parse_id reference_decoder (serialize_id sample_id) = (Inr sample_id :: unit id_error + sortable_id)"
  using text_round_trip [of reference_decoder sample_id] reference_decoder_standard
  by (simp add: sample_id_def SORTABLE_ID_SIZE_def)

theorem random_id_returns_witness:
  "\<exists>s'. random_id_from_alphabet_with_random_fill 1 4 ALPHANUMERIC_LOWERCASE (constant_fill 251) ()
     = Some (Inr (RandomId (ascii ''zzzz'')), s')"
proof -
  have acc: "accepted ALPHANUMERIC_LOWERCASE (replicate 32 251) = replicate 32 (ALPHANUMERIC_LOWERCASE ! 35)"
    by (simp add: accepted_def usable_values_def ALPHANUMERIC_LOWERCASE_def ascii_def map_replicate_const filter_replicate)
  have z: "take 4 (replicate 32 (ALPHANUMERIC_LOWERCASE ! 35)) = ascii ''zzzz''"
    by (simp add: ALPHANUMERIC_LOWERCASE_def ascii_def replicate_numeral_Cons)
  show ?thesis
    using random_id_returns [of 4 "constant_fill 251" 1 "()" "replicate 32 251" ALPHANUMERIC_LOWERCASE 1]
    unfolding acc z
    by (simp add: MAX_RANDOM_ID_OUTPUT_LEN_def constant_fill_def RANDOM_BUFFER_SIZE_def)
qed

theorem random_id_unbiased_witness:
  "card {v. v < usable_values ALPHANUMERIC_ANYCASE \<and> v mod length ALPHANUMERIC_ANYCASE = 61} = 4"
  using random_id_unbiased [of ALPHANUMERIC_ANYCASE 61]
  by (simp add: ALPHANUMERIC_ANYCASE_def ascii_def)

theorem new_multi_share_tick_witness:
  "\<exists>ids. new_multi_with_random_fill 3 777 (constant_fill 9) () = (Inr ids, ()) \<and> length ids = 3
     \<and> id_to_unix_micros (ids ! 2) = 700"
proof -
  obtain ids where ids: "new_multi_with_random_fill 3 777 (constant_fill 9) () = (Inr ids, ())"
    by (simp add: new_multi_with_random_fill_def constant_fill_def MAX_SORTABLE_ID_MULTI_COUNT_def)
  show ?thesis
    using new_multi_share_tick [OF constant_fill_fills _ ids, of 2] ids by (simp add: i64_max_def)
qed

end
