(* ===== verification/Database.thy ===== *)
theory Database
  imports Prelude
begin

text \<open>
  \<open>src/src/db/{error,sql_state,pool,protocol,mod}.rs\<close>: database errors, the transaction
  handle with its cache of admitted protocol relations, the admission check every store
  operation runs first, the classification of protocol failures, and the commit or rollback
  that ends a transaction the pool owns.

  The state of the tables is the type parameter \<open>'d\<close>. What Postgres answers to the
  admission statement, and whether a commit or rollback succeeds, are arguments.
\<close>

section \<open>Errors\<close>

text \<open>The errors of the driver the code distinguishes; a database error carries its SQLSTATE.\<close>

datatype sqlx_error =
    SqlxColumnDecode
  | SqlxDecode
  | SqlxColumnNotFound
  | SqlxDatabase "string option"
  | SqlxOther

datatype pg_sql_state =
    UniqueViolation
  | ForeignKeyViolation
  | CheckViolation
  | NotNullViolation
  | SerializationFailure
  | DeadlockDetected
  | OtherSqlState string

definition sql_state_from_code :: "string \<Rightarrow> pg_sql_state" where
  "sql_state_from_code code =
     (if code = ''23505'' then UniqueViolation
      else if code = ''23503'' then ForeignKeyViolation
      else if code = ''23514'' then CheckViolation
      else if code = ''23502'' then NotNullViolation
      else if code = ''40001'' then SerializationFailure
      else if code = ''40P01'' then DeadlockDetected
      else OtherSqlState code)"

fun sql_state_as_str :: "pg_sql_state \<Rightarrow> string" where
  "sql_state_as_str UniqueViolation = ''23505''"
| "sql_state_as_str ForeignKeyViolation = ''23503''"
| "sql_state_as_str CheckViolation = ''23514''"
| "sql_state_as_str NotNullViolation = ''23502''"
| "sql_state_as_str SerializationFailure = ''40001''"
| "sql_state_as_str DeadlockDetected = ''40P01''"
| "sql_state_as_str (OtherSqlState code) = code"

fun as_database_error_code :: "sqlx_error \<Rightarrow> string option" where
  "as_database_error_code (SqlxDatabase code) = code"
| "as_database_error_code _ = None"

definition sql_state_from_sqlx_error :: "sqlx_error \<Rightarrow> pg_sql_state option" where
  "sql_state_from_sqlx_error e = map_option sql_state_from_code (as_database_error_code e)"

datatype protocol_error =
    Incompatible (active_epoch: int) (supported_epoch: int) (incompatible_reason: string)
  | ProtocolState string

datatype db_error =
    DbProtocol protocol_error
  | InvalidPoolConfig string
  | InvalidDatabaseUrl sqlx_error
  | DbConnect sqlx_error
  | DbTransaction sqlx_error
  | DbQuery "pg_sql_state option" sqlx_error
  | DbRollbackFailed string db_error db_error
  | SchemaMismatch string
  | InvalidIdentifier string
  | LiteralEncoding string
  | PortableQueryTemplate string

definition db_query_error :: "sqlx_error \<Rightarrow> db_error" where
  "db_query_error e = DbQuery (sql_state_from_sqlx_error e) e"

text \<open>
  \<open>contains_protocol_failure\<close> walks the chain of sources; the source of a failed rollback
  is the operation's error.
\<close>

fun db_contains_protocol_failure :: "db_error \<Rightarrow> bool" where
  "db_contains_protocol_failure (DbProtocol _) = True"
| "db_contains_protocol_failure (DbRollbackFailed _ operation_error _) =
     db_contains_protocol_failure operation_error"
| "db_contains_protocol_failure _ = False"

lemma sql_state_round_trip: "sql_state_as_str (sql_state_from_code code) = code"
  by (simp add: sql_state_from_code_def)

section \<open>Transactions and admission\<close>

definition SUPPORTED_EPOCH :: int where "SUPPORTED_EPOCH = 1"

definition SUPPORTED_FINGERPRINT :: string where
  "SUPPORTED_FINGERPRINT = ''paranoid.protocol.pre9-state.v1''"

record 'd tx =
  admitted_protocols :: "string set"
  tables :: 'd

definition begin_transaction :: "'d \<Rightarrow> 'd tx" where
  "begin_transaction d = \<lparr>admitted_protocols = {}, tables = d\<rparr>"

text \<open>Handing the raw transaction to the caller forgets every cached admission.\<close>

definition sqlx_transaction :: "'d tx \<Rightarrow> 'd tx" where
  "sqlx_transaction tx = tx\<lparr>admitted_protocols := {}\<rparr>"

type_synonym control_row = "int \<times> int \<times> string"
type_synonym admission_reply = "sqlx_error + (control_row \<times> string) list"

definition protocol_query_error :: "sqlx_error \<Rightarrow> db_error" where
  "protocol_query_error e =
     (if e = SqlxColumnDecode \<or> e = SqlxDecode \<or> e = SqlxColumnNotFound then
        DbProtocol (ProtocolState ''protocol control record cannot be decoded'')
      else if as_database_error_code e \<in> {Some ''42P01'', Some ''42703'', Some ''42809''} then
        DbProtocol (ProtocolState ''protocol relation is absent or has an incompatible shape'')
      else db_query_error e)"

definition admit :: "string \<Rightarrow> admission_reply \<Rightarrow> 'd tx \<Rightarrow> (db_error + unit) \<times> 'd tx" where
  "admit identity reply tx =
     (if identity \<in> admitted_protocols tx then (Inr (), tx)
      else case reply of
        Inl e \<Rightarrow> (Inl (protocol_query_error e), tx)
      | Inr [((singleton, epoch, fingerprint), isolation)] \<Rightarrow>
          if singleton \<noteq> 1 \<or> epoch < 1 \<or> fingerprint = [] \<or> length fingerprint > 256 then
            (Inl (DbProtocol (ProtocolState
               ''protocol control record is outside its declared domain'')), tx)
          else if isolation \<noteq> ''read committed'' then
            (Inl (DbProtocol (ProtocolState
               ''protocol admission requires a READ COMMITTED transaction'')), tx)
          else if epoch \<noteq> SUPPORTED_EPOCH \<or> fingerprint \<noteq> SUPPORTED_FINGERPRINT then
            (Inl (DbProtocol (Incompatible epoch SUPPORTED_EPOCH
               (if epoch = SUPPORTED_EPOCH then ''fingerprint mismatch''
                else ''unsupported epoch''))), tx)
          else (Inr (), tx\<lparr>admitted_protocols := insert identity (admitted_protocols tx)\<rparr>)
      | Inr _ \<Rightarrow> (Inl (DbProtocol (ProtocolState
                   ''expected exactly one protocol control record'')), tx))"

definition supported_row :: control_row where
  "supported_row = (1, SUPPORTED_EPOCH, SUPPORTED_FINGERPRINT)"

lemma admit_tables [simp]: "tables (snd (admit identity reply tx)) = tables tx"
  by (auto simp: admit_def split: sum.splits list.splits)

lemma admit_Ok_iff:
  "fst (admit identity reply tx) = Inr () \<longleftrightarrow>
     identity \<in> admitted_protocols tx \<or> reply = Inr [(supported_row, ''read committed'')]"
  by (auto simp: admit_def supported_row_def SUPPORTED_EPOCH_def SUPPORTED_FINGERPRINT_def
      split: sum.splits list.splits)

lemma admit_cache:
  "admitted_protocols (snd (admit identity reply tx)) =
     (if fst (admit identity reply tx) = Inr ()
      then insert identity (admitted_protocols tx) else admitted_protocols tx)"
  by (auto simp: admit_def split: sum.splits list.splits)

lemma admit_error_keeps_tx:
  "fst (admit identity reply tx) = Inl e \<Longrightarrow> snd (admit identity reply tx) = tx"
  by (auto simp: admit_def split: sum.splits list.splits if_splits)

text \<open>A guarded operation: admission first, then the body on the admitted transaction.\<close>

definition admitted ::
    "string \<Rightarrow> admission_reply \<Rightarrow> (db_error \<Rightarrow> 'e) \<Rightarrow> ('d \<Rightarrow> ('e + 'a) \<times> 'd) \<Rightarrow> 'd tx \<Rightarrow> ('e + 'a) \<times> 'd tx"
where
  "admitted identity reply build body tx =
     (case admit identity reply tx of
        (Inl e, tx') \<Rightarrow> (Inl (build e), tx')
      | (Inr _, tx') \<Rightarrow> (let (r, d) = body (tables tx') in (r, tx'\<lparr>tables := d\<rparr>)))"

lemma admitted_ok:
  assumes "fst (admit identity reply tx) = Inr ()"
  shows "fst (admitted identity reply build body tx) = fst (body (tables tx))"
    and "tables (snd (admitted identity reply build body tx)) = snd (body (tables tx))"
  using assms admit_tables [of identity reply tx]
  by (cases "admit identity reply tx"; simp add: admitted_def split: prod.splits)+

lemma admitted_error:
  assumes "fst (admit identity reply tx) = Inl e"
  shows "admitted identity reply build body tx = (Inl (build e), tx)"
  using assms admit_error_keeps_tx [OF assms]
  by (auto simp: admitted_def split: prod.splits)

lemma admitted_Inr:
  assumes "fst (admitted identity reply build body tx) = Inr v"
  shows "fst (admit identity reply tx) = Inr ()" and "fst (body (tables tx)) = Inr v"
    and "tables (snd (admitted identity reply build body tx)) = snd (body (tables tx))"
proof -
  show a: "fst (admit identity reply tx) = Inr ()"
  proof (cases "fst (admit identity reply tx)")
    case (Inl e)
    then show ?thesis using assms by (simp add: admitted_error)
  qed simp
  show "fst (body (tables tx)) = Inr v"
    using assms admitted_ok [OF a, of build body] by simp
  show "tables (snd (admitted identity reply build body tx)) = snd (body (tables tx))"
    by (rule admitted_ok [OF a])
qed

text \<open>Postgres rejects a \<open>bigint\<close> out of range (SQLSTATE 22003); the statement has no effect.\<close>

definition numeric_out_of_range :: sqlx_error where
  "numeric_out_of_range = SqlxDatabase (Some ''22003'')"

text \<open>Other errors of statements: a timestamp out of range, and a duplicate in a unique index.\<close>

definition datetime_out_of_range :: sqlx_error where
  "datetime_out_of_range = SqlxDatabase (Some ''22008'')"

definition unique_violation :: sqlx_error where
  "unique_violation = SqlxDatabase (Some ''23505'')"

section \<open>Ending a transaction the pool owns\<close>

text \<open>
  A commit that reports an error may or may not have been made durable by the server;
  a failed rollback leaves nothing durable.
\<close>

datatype commit_outcome = Committed | CommitFailed sqlx_error bool
datatype rollback_outcome = RolledBack | RollbackFailed sqlx_error

definition finish_write_transaction ::
    "string \<Rightarrow> (db_error \<Rightarrow> 'e) \<Rightarrow> (string \<Rightarrow> 'e \<Rightarrow> db_error \<Rightarrow> 'e) \<Rightarrow> commit_outcome \<Rightarrow> rollback_outcome
     \<Rightarrow> 'd \<Rightarrow> ('e + 'a) \<times> 'd tx \<Rightarrow> ('e + 'a) \<times> 'd"
where
  "finish_write_transaction operation build_database_error build_rollback_error commit rollback
     before outcome =
     (case outcome of
        (Inr v, tx) \<Rightarrow>
          (case commit of
             Committed \<Rightarrow> (Inr v, tables tx)
           | CommitFailed e durable \<Rightarrow>
               (Inl (build_database_error (DbTransaction e)), if durable then tables tx else before))
      | (Inl e, tx) \<Rightarrow>
          (case rollback of
             RolledBack \<Rightarrow> (Inl e, before)
           | RollbackFailed re \<Rightarrow>
               (Inl (build_rollback_error operation e (DbTransaction re)), before)))"

definition finish_rollback_only_transaction ::
    "string \<Rightarrow> (db_error \<Rightarrow> 'e) \<Rightarrow> (string \<Rightarrow> 'e \<Rightarrow> db_error \<Rightarrow> 'e) \<Rightarrow> rollback_outcome
     \<Rightarrow> 'e + 'a \<Rightarrow> 'e + 'a"
where
  "finish_rollback_only_transaction operation build_database_error build_rollback_error rollback
     result =
     (case result of
        Inr v \<Rightarrow>
          (case rollback of
             RolledBack \<Rightarrow> Inr v
           | RollbackFailed e \<Rightarrow> Inl (build_database_error (DbTransaction e)))
      | Inl e \<Rightarrow>
          (case rollback of
             RolledBack \<Rightarrow> Inl e
           | RollbackFailed re \<Rightarrow> Inl (build_rollback_error operation e (DbTransaction re))))"

lemma finish_write_ok:
  "fst (finish_write_transaction operation bd br commit rollback before outcome) = Inr v \<longleftrightarrow>
     fst outcome = Inr v \<and> commit = Committed"
  by (cases outcome)
    (auto simp: finish_write_transaction_def split: sum.splits commit_outcome.splits rollback_outcome.splits)

lemma finish_write_state:
  "snd (finish_write_transaction operation bd br commit rollback before outcome) =
     (if is_ok (fst outcome) \<and> (commit = Committed \<or> (\<exists>e. commit = CommitFailed e True))
      then tables (snd outcome) else before)"
  by (cases outcome)
    (auto simp: finish_write_transaction_def split: sum.splits commit_outcome.splits rollback_outcome.splits)

text \<open>What the server answers during one pool operation.\<close>

record pool_env =
  env_begin :: "sqlx_error option"
  env_reply :: admission_reply
  env_now :: micros
  env_commit :: commit_outcome
  env_rollback :: rollback_outcome

text \<open>A pool operation: begin, the operation in its transaction, then commit or roll back.\<close>

definition pool_write ::
    "string \<Rightarrow> (db_error \<Rightarrow> 'e) \<Rightarrow> (string \<Rightarrow> 'e \<Rightarrow> db_error \<Rightarrow> 'e) \<Rightarrow> pool_env
     \<Rightarrow> ('d tx \<Rightarrow> ('e + 'a) \<times> 'd tx) \<Rightarrow> 'd \<Rightarrow> ('e + 'a) \<times> 'd"
where
  "pool_write operation bd br env body d =
     (case env_begin env of
        Some e \<Rightarrow> (Inl (bd (DbTransaction e)), d)
      | None \<Rightarrow> finish_write_transaction operation bd br (env_commit env) (env_rollback env) d
                  (body (begin_transaction d)))"

definition pool_read ::
    "string \<Rightarrow> (db_error \<Rightarrow> 'e) \<Rightarrow> (string \<Rightarrow> 'e \<Rightarrow> db_error \<Rightarrow> 'e) \<Rightarrow> pool_env
     \<Rightarrow> ('d tx \<Rightarrow> ('e + 'a) \<times> 'd tx) \<Rightarrow> 'd \<Rightarrow> 'e + 'a"
where
  "pool_read operation bd br env body d =
     (case env_begin env of
        Some e \<Rightarrow> Inl (bd (DbTransaction e))
      | None \<Rightarrow> finish_rollback_only_transaction operation bd br (env_rollback env)
                  (fst (body (begin_transaction d))))"

lemma pool_write_ok_iff:
  "fst (pool_write operation bd br env body d) = Inr v \<longleftrightarrow>
     env_begin env = None \<and> env_commit env = Committed \<and> fst (body (begin_transaction d)) = Inr v"
  by (auto simp: pool_write_def finish_write_ok split: option.splits)

lemma pool_write_ok_state:
  "fst (pool_write operation bd br env body d) = Inr v \<Longrightarrow>
     snd (pool_write operation bd br env body d) = tables (snd (body (begin_transaction d)))"
  by (auto simp: pool_write_ok_iff) (simp add: pool_write_def finish_write_state)

text \<open>An error leaves the committed tables alone unless the commit itself was ambiguous.\<close>

lemma pool_write_error_state:
  "fst (pool_write operation bd br env body d) = Inl e \<Longrightarrow>
     snd (pool_write operation bd br env body d) \<noteq> d \<Longrightarrow>
     \<exists>x. env_commit env = CommitFailed x True
       \<and> snd (pool_write operation bd br env body d) = tables (snd (body (begin_transaction d)))"
  using finish_write_ok [of operation bd br "env_commit env" "env_rollback env" d "body (begin_transaction d)"]
  by (auto simp: pool_write_def finish_write_state is_ok_def split: option.splits if_splits sum.splits)

section \<open>Pool configuration\<close>

datatype ssl_mode = SslDisable | SslAllow | SslPrefer | SslRequire | SslVerifyCa | SslVerifyFull

fun ssl_mode_as_postgres_keyword :: "ssl_mode \<Rightarrow> string" where
  "ssl_mode_as_postgres_keyword SslDisable = ''disable''"
| "ssl_mode_as_postgres_keyword SslAllow = ''allow''"
| "ssl_mode_as_postgres_keyword SslPrefer = ''prefer''"
| "ssl_mode_as_postgres_keyword SslRequire = ''require''"
| "ssl_mode_as_postgres_keyword SslVerifyCa = ''verify-ca''"
| "ssl_mode_as_postgres_keyword SslVerifyFull = ''verify-full''"

record pool_config =
  database_url :: string
  max_connections :: nat
  min_connections :: nat
  acquire_timeout :: nanos
  idle_timeout :: "nanos option"
  max_lifetime :: "nanos option"
  application_name :: "string option"
  pool_ssl_mode :: "ssl_mode option"

definition is_ascii_whitespace :: "char \<Rightarrow> bool" where
  "is_ascii_whitespace c \<longleftrightarrow> c \<in> {CHR 0x09, CHR 0x0A, CHR 0x0B, CHR 0x0C, CHR 0x0D, CHR '' ''}"

text \<open>
  \<open>trim_is_empty\<close> is \<open>str::trim\<close> followed by \<open>is_empty\<close>, for text whose white space is
  ASCII.
\<close>

definition trim_is_empty :: "string \<Rightarrow> bool" where
  "trim_is_empty s = list_all is_ascii_whitespace s"

definition validate_pg_pool_config :: "pool_config \<Rightarrow> db_error + unit" where
  "validate_pg_pool_config c =
     (if max_connections c = 0 then
        Inl (InvalidPoolConfig ''max_connections must be at least 1'')
      else if min_connections c > max_connections c then
        Inl (InvalidPoolConfig ''min_connections must not exceed max_connections'')
      else if acquire_timeout c = 0 then
        Inl (InvalidPoolConfig ''acquire_timeout must be non-zero'')
      else if idle_timeout c = Some 0 then
        Inl (InvalidPoolConfig ''idle_timeout must be non-zero when configured'')
      else if max_lifetime c = Some 0 then
        Inl (InvalidPoolConfig ''max_lifetime must be non-zero when configured'')
      else if trim_is_empty (database_url c) then
        Inl (InvalidPoolConfig ''database_url must not be empty'')
      else if (case application_name c of None \<Rightarrow> False
               | Some n \<Rightarrow> n = [] \<or> CHR 0x00 \<in> set n) then
        Inl (InvalidPoolConfig
          ''application_name must be non-empty and must not contain null bytes'')
      else Inr ())"

definition pool_config_new :: "string \<Rightarrow> pool_config" where
  "pool_config_new url =
     \<lparr>database_url = url, max_connections = 10, min_connections = 0,
      acquire_timeout = 30 * nanos_per_second, idle_timeout = Some (600 * nanos_per_second),
      max_lifetime = Some (1800 * nanos_per_second), application_name = None,
      pool_ssl_mode = None\<rparr>"

section \<open>Admission across a whole installation\<close>

text \<open>
  Several transactions against one installation. The control relations are read by the
  admission statement, which first takes an \<open>ACCESS SHARE\<close> lock; Postgres keeps such a lock
  until the transaction ends or a savepoint taken before it is rolled back, and a switch of
  the protocol (an \<open>ACCESS EXCLUSIVE\<close> change of the control relation) waits for it.
\<close>

record installation =
  control :: "string \<Rightarrow> sqlx_error + control_row list"
  isolation_of :: "nat \<Rightarrow> string"
  share_locks :: "(nat \<times> string) set"
  transactions :: "nat \<Rightarrow> unit tx option"

definition admission_reply_of :: "installation \<Rightarrow> nat \<Rightarrow> string \<Rightarrow> admission_reply" where
  "admission_reply_of s i identity =
     map_sum id (map (\<lambda>row. (row, isolation_of s i))) (control s identity)"

definition end_transaction :: "nat \<Rightarrow> installation \<Rightarrow> installation" where
  "end_transaction i s =
     s\<lparr>transactions := (transactions s)(i := None),
       share_locks := {l \<in> share_locks s. fst l \<noteq> i}\<rparr>"

inductive installation_step :: "installation \<Rightarrow> installation \<Rightarrow> bool" where
  start: "transactions s i = None \<Longrightarrow> (\<forall>identity. (i, identity) \<notin> share_locks s) \<Longrightarrow>
    installation_step s
      (s\<lparr>transactions := (transactions s)(i \<mapsto> begin_transaction ()),
         isolation_of := (isolation_of s)(i := level)\<rparr>)"
| admit_cached: "transactions s i = Some tx \<Longrightarrow> identity \<in> admitted_protocols tx \<Longrightarrow>
    installation_step s
      (s\<lparr>transactions := (transactions s)
           (i \<mapsto> snd (admit identity (admission_reply_of s i identity) tx))\<rparr>)"
| admit_queried: "transactions s i = Some tx \<Longrightarrow> identity \<notin> admitted_protocols tx \<Longrightarrow>
    installation_step s
      (s\<lparr>transactions := (transactions s)
           (i \<mapsto> snd (admit identity (admission_reply_of s i identity) tx)),
         share_locks := insert (i, identity) (share_locks s)\<rparr>)"
| caller_sql: "transactions s i = Some tx \<Longrightarrow> kept \<subseteq> share_locks s \<Longrightarrow>
    (\<forall>l \<in> share_locks s. fst l \<noteq> i \<longrightarrow> l \<in> kept) \<Longrightarrow>
    installation_step s
      (s\<lparr>transactions := (transactions s)(i \<mapsto> sqlx_transaction tx), share_locks := kept\<rparr>)"
| finish: "transactions s i = Some tx \<Longrightarrow> installation_step s (end_transaction i s)"
| switch: "(\<forall>i. (i, identity) \<notin> share_locks s) \<Longrightarrow>
    installation_step s (s\<lparr>control := (control s)(identity := rows)\<rparr>)"

inductive_cases installation_stepE: "installation_step s s'"

definition idle_installation :: "installation \<Rightarrow> bool" where
  "idle_installation s \<longleftrightarrow> (\<forall>i. transactions s i = None) \<and> share_locks s = {}"

inductive reachable_installation :: "installation \<Rightarrow> bool" where
  idle: "idle_installation s \<Longrightarrow> reachable_installation s"
| step: "reachable_installation s \<Longrightarrow> installation_step s s' \<Longrightarrow> reachable_installation s'"

text \<open>The invariant: a cached admission is backed by a lock on a supported control record.\<close>

definition admission_inv :: "installation \<Rightarrow> bool" where
  "admission_inv s \<longleftrightarrow>
     (\<forall>i tx identity. transactions s i = Some tx \<longrightarrow> identity \<in> admitted_protocols tx \<longrightarrow>
        (i, identity) \<in> share_locks s \<and> control s identity = Inr [supported_row]
        \<and> isolation_of s i = ''read committed'')
   \<and> (\<forall>i identity. (i, identity) \<in> share_locks s \<longrightarrow> transactions s i \<noteq> None)"

lemma reply_supported_iff:
  "admission_reply_of s i identity = Inr [(supported_row, ''read committed'')] \<longleftrightarrow>
     control s identity = Inr [supported_row] \<and> isolation_of s i = ''read committed''"
  by (cases "control s identity") (auto simp: admission_reply_of_def map_eq_Cons_conv supported_row_def)

lemma admission_inv_step:
  assumes "installation_step s s'" and "admission_inv s"
  shows "admission_inv s'"
  using assms
proof (induction rule: installation_step.induct)
  case (start s i level)
  then show ?case by (auto simp: admission_inv_def begin_transaction_def)
next
  case (admit_cached s i tx identity)
  then have "snd (admit identity (admission_reply_of s i identity) tx) = tx"
    by (simp add: admit_def)
  with admit_cached show ?case by (auto simp: admission_inv_def)
next
  case (admit_queried s i tx identity)
  then show ?case
    by (auto simp: admission_inv_def admit_cache admit_Ok_iff reply_supported_iff split: if_splits)
next
  case (caller_sql s i tx kept)
  then show ?case by (fastforce simp: admission_inv_def sqlx_transaction_def)
next
  case (finish s i tx)
  then show ?case by (auto simp: admission_inv_def end_transaction_def)
next
  case (switch identity s rows)
  then show ?case by (auto simp: admission_inv_def)
qed

lemma admission_inv_reachable: "reachable_installation s \<Longrightarrow> admission_inv s"
proof (induction rule: reachable_installation.induct)
  case (idle s)
  then show ?case by (simp add: admission_inv_def idle_installation_def)
qed (rule admission_inv_step)

text \<open>C35: Whenever admission succeeds, in any interleaving of transactions, protocol switches and
  caller SQL, the control relation holds exactly the record this release supports and the
  transaction is READ COMMITTED, also when the answer comes from the cache without a query.\<close>

theorem admission_is_sound:
  assumes "reachable_installation s" and "transactions s i = Some tx"
    and "fst (admit identity (admission_reply_of s i identity) tx) = Inr ()"
  shows "control s identity = Inr [supported_row] \<and> isolation_of s i = ''read committed''"
  using admission_inv_reachable [OF assms(1)] assms(2,3)
  by (auto simp: admission_inv_def admit_Ok_iff reply_supported_iff)

lemma admission_blocks_switch:
  assumes "reachable_installation s" and "transactions s i = Some tx"
    and "identity \<in> admitted_protocols tx" and "installation_step s s'"
    and "\<exists>tx'. transactions s' i = Some tx' \<and> identity \<in> admitted_protocols tx'"
  shows "control s' identity = control s identity"
  using admission_inv_reachable [OF reachable_installation.step [OF assms(1,4)]] assms(2,3,5)
    admission_inv_reachable [OF assms(1)]
  by (auto simp: admission_inv_def)

theorem admission_is_sound_witness:
  "control (\<lparr>control = (\<lambda>_. Inr [supported_row]), isolation_of = (\<lambda>_. ''read committed''),
       share_locks = {}, transactions = (\<lambda>_. None)(7 \<mapsto> begin_transaction ())\<rparr>) ''t''
     = Inr [supported_row]"
proof -
  let ?s0 = "\<lparr>control = (\<lambda>_. Inr [supported_row]), isolation_of = (\<lambda>_. ''read committed''),
    share_locks = {}, transactions = (\<lambda>_. None)\<rparr>"
  let ?s1 = "\<lparr>control = (\<lambda>_. Inr [supported_row]), isolation_of = (\<lambda>_. ''read committed''),
    share_locks = {}, transactions = (\<lambda>_. None)(7 \<mapsto> begin_transaction ())\<rparr>"
  have "reachable_installation ?s0"
    by (rule reachable_installation.idle) (simp add: idle_installation_def)
  moreover have "installation_step ?s0 ?s1"
    using installation_step.start [of ?s0 7 "''read committed''"] by (simp add: fun_upd_idem)
  ultimately have r: "reachable_installation ?s1" by (rule reachable_installation.step)
  have "fst (admit ''t'' (admission_reply_of ?s1 7 ''t'') (begin_transaction ())) = Inr ()"
    by (simp add: admit_Ok_iff admission_reply_of_def)
  then show ?thesis
    using admission_is_sound [OF r, of 7 "begin_transaction ()" "''t''"] by simp
qed

end
