(* ===== verification/Kv.thy ===== *)
theory Kv
  imports Database "HOL-Library.Product_Lexorder" "HOL-Library.Multiset"
begin

text \<open>
  \<open>src/src/db/kv/\<close>: the key-value table. \<open>validation.rs\<close>, \<open>keys.rs\<close> and \<open>mutation.rs\<close>
  (keys, prefixes, TTLs, batch limits), \<open>sql.rs\<close> (the meaning of each statement on the
  table), \<open>store_execution.rs\<close> and \<open>store_execution_maintenance.rs\<close> (the executors), and
  \<open>store.rs\<close> (the operations inside a transaction and on a pool).

  The table is a partial map from keys to rows. \<open>now\<close> is \<open>statement_timestamp()\<close>;
  \<open>locked\<close> is the set of keys whose rows other transactions hold locked, which the
  statements with \<open>SKIP LOCKED\<close> pass over. Keys sort by bytes (\<open>COLLATE "C"\<close>).
\<close>

section \<open>Limits and errors\<close>

definition KV_KEY_SEPARATOR :: string where "KV_KEY_SEPARATOR = ''::''"
definition MAX_KV_KEY_BYTES :: nat where "MAX_KV_KEY_BYTES = 2048"
definition MIN_KV_TTL :: nanos where "MIN_KV_TTL = nanos_per_second"
definition MAX_KV_DELETE_BATCH_SIZE :: nat where "MAX_KV_DELETE_BATCH_SIZE = 10000"
definition MAX_KV_SCAN_LIMIT :: nat where "MAX_KV_SCAN_LIMIT = 10000"
definition MAX_KV_GET_MULTI_KEYS :: nat where "MAX_KV_GET_MULTI_KEYS = 10000"
definition MAX_KV_SET_MULTI_ENTRIES :: nat where "MAX_KV_SET_MULTI_ENTRIES = 10000"
definition MAX_KV_ACQUIRE_SLOT_CANDIDATES :: nat where "MAX_KV_ACQUIRE_SLOT_CANDIDATES = 10000"

datatype 'c kv_error =
    KvTableNamesMustBeDistinct
  | KvEmptyKey
  | KvEmptyKeyPart
  | KvKeyPartContainsSeparatorByte
  | KvKeyPartContainsNullByte
  | KvKeyTooLong nat nat
  | KvTtlIsZero
  | KvTtlBelowMinimum nanos
  | KvTtlTooLarge
  | KvTtlNoExpirationNotAllowed
  | KvScanLimitIsZero
  | KvScanLimitTooLarge nat nat
  | KvScanCursorOutsidePrefix
  | KvGetMultiKeyCountTooLarge nat nat
  | KvSetMultiEntryCountTooLarge nat nat
  | KvSetMultiLengthMismatch nat nat
  | KvDuplicateKeyInBulkOperation
  | KvAcquireSlotCandidateCountTooLarge nat nat
  | KvDeleteBatchSizeIsZero
  | KvDeleteBatchSizeTooLarge nat nat
  | KvAtomicMutationCouldNotLockKey
  | KvAtomicMutationCallbackInvokedMoreThanOnce
  | KvAtomicMutationLockReturnedNoRow
  | KvAtomicMutationCurrentValueWasNotCaptured
  | KvKeyNotFound
  | KvDatabase db_error
  | KvRollbackFailed string "'c kv_error" db_error
  | KvRollbackFailedAfterCallerError string db_error
  | KvCodec 'c

section \<open>Keys and prefixes\<close>

definition kv_validate_key_part :: "string \<Rightarrow> 'c kv_error + unit" where
  "kv_validate_key_part part =
     (if part = [] then Inl KvEmptyKeyPart
      else if CHR '':'' \<in> set part then Inl KvKeyPartContainsSeparatorByte
      else if CHR 0x00 \<in> set part then Inl KvKeyPartContainsNullByte
      else Inr ())"

definition kv_validate_key_length :: "string \<Rightarrow> 'c kv_error + unit" where
  "kv_validate_key_length key =
     (if length key > MAX_KV_KEY_BYTES
      then Inl (KvKeyTooLong (length key) MAX_KV_KEY_BYTES) else Inr ())"

fun kv_join_parts :: "bool \<Rightarrow> string \<Rightarrow> string list \<Rightarrow> 'c kv_error + (bool \<times> string)" where
  "kv_join_parts saw_part key [] = Inr (saw_part, key)"
| "kv_join_parts saw_part key (part # parts) =
     result_bind (kv_validate_key_part part)
       (\<lambda>_. kv_join_parts True ((if saw_part then key @ KV_KEY_SEPARATOR else key) @ part) parts)"

definition kv_build_key_from_parts :: "string list \<Rightarrow> 'c kv_error + string" where
  "kv_build_key_from_parts parts =
     result_bind (kv_join_parts False [] parts) (\<lambda>(saw_part, key).
       if \<not> saw_part then Inl KvEmptyKey
       else result_bind (kv_validate_key_length (key @ KV_KEY_SEPARATOR))
         (\<lambda>_. Inr (key @ KV_KEY_SEPARATOR)))"

definition kv_build_key_from_prefix_and_parts :: "string \<Rightarrow> string list \<Rightarrow> 'c kv_error + string" where
  "kv_build_key_from_prefix_and_parts key_prefix suffix_parts =
     result_bind (kv_join_parts False key_prefix suffix_parts) (\<lambda>(saw_part, key).
       let key = (if saw_part then key @ KV_KEY_SEPARATOR else key)
       in result_bind (kv_validate_key_length key) (\<lambda>_. Inr key))"

definition kv_validate_raw_suffix_cursor :: "string \<Rightarrow> 'c kv_error + unit" where
  "kv_validate_raw_suffix_cursor raw_suffix =
     (if CHR 0x00 \<in> set raw_suffix then Inl KvKeyPartContainsNullByte else Inr ())"

definition kv_key_from_prefix_and_raw_suffix :: "string \<Rightarrow> string \<Rightarrow> 'c kv_error + string" where
  "kv_key_from_prefix_and_raw_suffix key_prefix raw_suffix =
     result_bind (kv_validate_raw_suffix_cursor raw_suffix) (\<lambda>_.
       if raw_suffix = [] then Inr key_prefix
       else result_bind (kv_validate_key_length (key_prefix @ raw_suffix @ KV_KEY_SEPARATOR))
         (\<lambda>_. Inr (key_prefix @ raw_suffix @ KV_KEY_SEPARATOR)))"

definition prefix_contains_key :: "string \<Rightarrow> string \<Rightarrow> bool" where
  "prefix_contains_key key_prefix key = prefix key_prefix key"

definition kv_validate_scan_limit :: "nat \<Rightarrow> 'c kv_error + unit" where
  "kv_validate_scan_limit limit =
     (if limit = 0 then Inl KvScanLimitIsZero
      else if limit > MAX_KV_SCAN_LIMIT then Inl (KvScanLimitTooLarge limit MAX_KV_SCAN_LIMIT)
      else Inr ())"

definition kv_validate_delete_batch_size :: "nat \<Rightarrow> 'c kv_error + unit" where
  "kv_validate_delete_batch_size batch_size =
     (if batch_size = 0 then Inl KvDeleteBatchSizeIsZero
      else if batch_size > MAX_KV_DELETE_BATCH_SIZE
      then Inl (KvDeleteBatchSizeTooLarge batch_size MAX_KV_DELETE_BATCH_SIZE)
      else Inr ())"

definition kv_validate_get_multi_key_count :: "nat \<Rightarrow> 'c kv_error + unit" where
  "kv_validate_get_multi_key_count key_count =
     (if key_count > MAX_KV_GET_MULTI_KEYS
      then Inl (KvGetMultiKeyCountTooLarge key_count MAX_KV_GET_MULTI_KEYS) else Inr ())"

definition kv_validate_set_multi_entry_count :: "nat \<Rightarrow> 'c kv_error + unit" where
  "kv_validate_set_multi_entry_count entry_count =
     (if entry_count > MAX_KV_SET_MULTI_ENTRIES
      then Inl (KvSetMultiEntryCountTooLarge entry_count MAX_KV_SET_MULTI_ENTRIES) else Inr ())"

definition kv_validate_acquire_slot_candidate_count :: "nat \<Rightarrow> 'c kv_error + unit" where
  "kv_validate_acquire_slot_candidate_count n =
     (if n > MAX_KV_ACQUIRE_SLOT_CANDIDATES
      then Inl (KvAcquireSlotCandidateCountTooLarge n MAX_KV_ACQUIRE_SLOT_CANDIDATES) else Inr ())"

text \<open>The loops that insert every key into a \<open>HashMap\<close> and stop at the first duplicate.\<close>

definition kv_validate_unique_item_keys :: "string list \<Rightarrow> 'c kv_error + unit" where
  "kv_validate_unique_item_keys keys =
     (if distinct keys then Inr () else Inl KvDuplicateKeyInBulkOperation)"

definition prepare_unique_keys_for_multi_get :: "string list \<Rightarrow> 'c kv_error + string list" where
  "prepare_unique_keys_for_multi_get keys =
     result_bind (kv_validate_get_multi_key_count (length keys)) (\<lambda>_.
       if distinct keys then Inr keys else Inl KvDuplicateKeyInBulkOperation)"

definition prepare_unique_entries_for_multi_set ::
    "(string \<times> bytes) list \<Rightarrow> 'c kv_error + (string list \<times> bytes list)" where
  "prepare_unique_entries_for_multi_set entries =
     (if distinct (map fst entries) then Inr (map fst entries, map snd entries)
      else Inl KvDuplicateKeyInBulkOperation)"

definition prepare_unique_keys_for_slot_acquisition :: "string list \<Rightarrow> 'c kv_error + string list" where
  "prepare_unique_keys_for_slot_acquisition keys =
     result_bind (kv_validate_acquire_slot_candidate_count (length keys)) (\<lambda>_.
       if distinct keys then Inr keys else Inl KvDuplicateKeyInBulkOperation)"

definition scan_after_key_text :: "string \<Rightarrow> string option \<Rightarrow> 'c kv_error + string" where
  "scan_after_key_text key_prefix after_key =
     (case after_key of
        None \<Rightarrow> Inr []
      | Some k \<Rightarrow> if prefix_contains_key key_prefix k then Inr k else Inl KvScanCursorOutsidePrefix)"

fun escape_like :: "string \<Rightarrow> string" where
  "escape_like [] = []"
| "escape_like (c # cs) =
     (if c = CHR 0x5C \<or> c = CHR ''%'' \<or> c = CHR ''_'' then CHR 0x5C # c # escape_like cs
      else c # escape_like cs)"

definition prefix_like_pattern :: "string \<Rightarrow> string" where
  "prefix_like_pattern key_prefix = escape_like key_prefix @ ''%''"

definition item_associated_data :: "string \<Rightarrow> string" where
  "item_associated_data key = ''paranoid.db.kv.item.v1'' @ [CHR 0x00] @ key"

definition kv_require_rows_affected :: "nat \<Rightarrow> 'c kv_error + unit" where
  "kv_require_rows_affected rows_affected =
     (if rows_affected = 0 then Inl KvKeyNotFound else Inr ())"

section \<open>Time to live\<close>

definition kv_duration_to_rounded_microseconds :: "nanos \<Rightarrow> 'c kv_error + int" where
  "kv_duration_to_rounded_microseconds d =
     (let microseconds = d div 1000 + (if d mod 1000 = 0 then 0 else 1)
      in if int microseconds > i64_max then Inl KvTtlTooLarge else Inr (int microseconds))"

datatype ttl = Ttl (ttl_duration: "nanos option")

definition NO_EXPIRATION :: ttl where
  "NO_EXPIRATION = Ttl None"

definition ttl_expires_after :: "nanos \<Rightarrow> 'c kv_error + ttl" where
  "ttl_expires_after d =
     (if d = 0 then Inl KvTtlIsZero
      else if d < MIN_KV_TTL then Inl (KvTtlBelowMinimum MIN_KV_TTL)
      else result_bind (kv_duration_to_rounded_microseconds d) (\<lambda>_. Inr (Ttl (Some d))))"

definition ttl_positive_microseconds :: "ttl \<Rightarrow> 'c kv_error + int option" where
  "ttl_positive_microseconds t =
     (case ttl_duration t of
        None \<Rightarrow> Inr None
      | Some d \<Rightarrow> result_bind (kv_duration_to_rounded_microseconds d) (\<lambda>us. Inr (Some us)))"

definition positive_expiring_ttl_microseconds :: "ttl \<Rightarrow> 'c kv_error + int" where
  "positive_expiring_ttl_microseconds t =
     result_bind (ttl_positive_microseconds t) (\<lambda>micros.
       case micros of None \<Rightarrow> Inl KvTtlNoExpirationNotAllowed | Some us \<Rightarrow> Inr us)"

section \<open>Rows and statements\<close>

record kv_row =
  kv_value :: bytes
  kv_expires_at :: "micros option"
  kv_updated_at :: micros

type_synonym kv_table = "string \<rightharpoonup> kv_row"

definition not_expired :: "micros \<Rightarrow> kv_row \<Rightarrow> bool" where
  "not_expired now r = (case kv_expires_at r of None \<Rightarrow> True | Some e \<Rightarrow> e > now)"

definition expired :: "micros \<Rightarrow> kv_row \<Rightarrow> bool" where
  "expired now r = (case kv_expires_at r of None \<Rightarrow> False | Some e \<Rightarrow> e \<le> now)"

text \<open>Postgres timestamps end before the year 294277; beyond, the statement fails (22008).\<close>

definition pg_timestamp_end :: micros where
  "pg_timestamp_end = 9224318016000000000"

definition datetime_field_overflow :: sqlx_error where
  "datetime_field_overflow = SqlxDatabase (Some ''22008'')"

text \<open>The expression of \<open>expires_at\<close>: \<open>NULL\<close>, or the statement timestamp plus microseconds.\<close>

definition expires_at_expression :: "micros \<Rightarrow> int option \<Rightarrow> sqlx_error + micros option" where
  "expires_at_expression now ttl_us =
     (case ttl_us of
        None \<Rightarrow> Inr None
      | Some us \<Rightarrow> if now + us \<ge> pg_timestamp_end then Inl datetime_field_overflow
                  else Inr (Some (now + us)))"

definition live_row :: "micros \<Rightarrow> kv_table \<Rightarrow> string \<Rightarrow> kv_row option" where
  "live_row now t key =
     (case t key of None \<Rightarrow> None | Some r \<Rightarrow> if not_expired now r then Some r else None)"

definition get_bytes_statement :: "micros \<Rightarrow> string \<Rightarrow> kv_table \<Rightarrow> bytes option" where
  "get_bytes_statement now key t = map_option kv_value (live_row now t key)"

definition get_bytes_returning_timestamp_statement ::
    "micros \<Rightarrow> string \<Rightarrow> kv_table \<Rightarrow> (bytes \<times> micros) option" where
  "get_bytes_returning_timestamp_statement now key t =
     map_option (\<lambda>r. (kv_value r, now)) (live_row now t key)"

text \<open>Rows come in any order; each key of the list is at most once in the table.\<close>

definition get_bytes_multi_statement ::
    "micros \<Rightarrow> string list \<Rightarrow> kv_table \<Rightarrow> (string \<times> bytes) list" where
  "get_bytes_multi_statement now keys t =
     List.map_filter (\<lambda>k. map_option (\<lambda>r. (k, kv_value r)) (live_row now t k)) keys"

definition set_bytes_statement ::
    "micros \<Rightarrow> string \<Rightarrow> bytes \<Rightarrow> int option \<Rightarrow> kv_table \<Rightarrow> (sqlx_error + micros) \<times> kv_table" where
  "set_bytes_statement now key v ttl_us t =
     (case expires_at_expression now ttl_us of
        Inl e \<Rightarrow> (Inl e, t)
      | Inr e \<Rightarrow> (Inr now, t(key \<mapsto> \<lparr>kv_value = v, kv_expires_at = e, kv_updated_at = now\<rparr>)))"

definition set_bytes_multi_statement ::
    "micros \<Rightarrow> (string \<times> bytes) list \<Rightarrow> int option \<Rightarrow> kv_table \<Rightarrow> (sqlx_error + unit) \<times> kv_table" where
  "set_bytes_multi_statement now entries ttl_us t =
     (case expires_at_expression now ttl_us of
        Inl e \<Rightarrow> (Inl e, t)
      | Inr e \<Rightarrow> (Inr (), foldl (\<lambda>t (k, v). t(k \<mapsto> \<lparr>kv_value = v, kv_expires_at = e, kv_updated_at = now\<rparr>))
                  t entries))"

definition set_bytes_if_not_exists_statement ::
    "micros \<Rightarrow> string \<Rightarrow> bytes \<Rightarrow> int option \<Rightarrow> kv_table \<Rightarrow> (sqlx_error + micros option) \<times> kv_table" where
  "set_bytes_if_not_exists_statement now key v ttl_us t =
     (case expires_at_expression now ttl_us of
        Inl e \<Rightarrow> (Inl e, t)
      | Inr e \<Rightarrow>
          let row = \<lparr>kv_value = v, kv_expires_at = e, kv_updated_at = now\<rparr>
          in case t key of
               None \<Rightarrow> (Inr (Some now), t(key \<mapsto> row))
             | Some target \<Rightarrow>
                 if expired now target then (Inr (Some now), t(key \<mapsto> row)) else (Inr None, t))"

text \<open>An \<open>UPDATE\<close> or \<open>DELETE\<close> of the live row of a key; the count of rows affected.\<close>

definition update_live_row ::
    "micros \<Rightarrow> string \<Rightarrow> (kv_row \<Rightarrow> kv_row) \<Rightarrow> kv_table \<Rightarrow> nat \<times> kv_table" where
  "update_live_row now key f t =
     (case live_row now t key of None \<Rightarrow> (0, t) | Some r \<Rightarrow> (1, t(key \<mapsto> f r)))"

definition touch_key_statement :: "micros \<Rightarrow> string \<Rightarrow> kv_table \<Rightarrow> nat \<times> kv_table" where
  "touch_key_statement now key t = update_live_row now key (\<lambda>r. r\<lparr>kv_updated_at := now\<rparr>) t"

definition set_key_ttl_statement ::
    "micros \<Rightarrow> string \<Rightarrow> int option \<Rightarrow> kv_table \<Rightarrow> (sqlx_error + nat) \<times> kv_table" where
  "set_key_ttl_statement now key ttl_us t =
     (case live_row now t key of
        None \<Rightarrow> (Inr 0, t)
      | Some r \<Rightarrow>
          (case expires_at_expression now ttl_us of
             Inl e \<Rightarrow> (Inl e, t)
           | Inr e \<Rightarrow> (Inr 1, t(key \<mapsto> r\<lparr>kv_expires_at := e, kv_updated_at := now\<rparr>))))"

definition expire_key_statement :: "micros \<Rightarrow> string \<Rightarrow> kv_table \<Rightarrow> nat \<times> kv_table" where
  "expire_key_statement now key t =
     update_live_row now key (\<lambda>r. r\<lparr>kv_expires_at := Some now, kv_updated_at := now\<rparr>) t"

definition delete_key_statement :: "micros \<Rightarrow> string \<Rightarrow> kv_table \<Rightarrow> nat \<times> kv_table" where
  "delete_key_statement now key t =
     (case live_row now t key of None \<Rightarrow> (0, t) | Some r \<Rightarrow> (1, t(key := None)))"

definition check_key_exists_statement :: "micros \<Rightarrow> string \<Rightarrow> kv_table \<Rightarrow> bool" where
  "check_key_exists_statement now key t = (live_row now t key \<noteq> None)"

text \<open>
  \<open>LIKE pattern ESCAPE '\\'\<close>: \<open>%\<close> matches any text, \<open>_\<close> one character, an escaped
  character itself.
\<close>

fun like_match :: "string \<Rightarrow> string \<Rightarrow> bool" where
  "like_match [] s = (s = [])"
| "like_match (p # ps) s =
     (if p = CHR ''%'' then list_ex (like_match ps) (suffixes s)
      else if p = CHR 0x5C then
        (case (ps, s) of (q # qs, c # cs) \<Rightarrow> q = c \<and> like_match qs cs | _ \<Rightarrow> False)
      else (case s of [] \<Rightarrow> False | c # cs \<Rightarrow> (p = CHR ''_'' \<or> p = c) \<and> like_match ps cs))"

definition count_live_keys_with_prefix_statement :: "micros \<Rightarrow> string \<Rightarrow> kv_table \<Rightarrow> nat" where
  "count_live_keys_with_prefix_statement now like_pattern t =
     card {k \<in> dom t. like_match like_pattern k \<and> live_row now t k \<noteq> None}"

definition scan_keys_with_prefix_statement ::
    "micros \<Rightarrow> string \<Rightarrow> string \<Rightarrow> nat \<Rightarrow> kv_table \<Rightarrow> string list" where
  "scan_keys_with_prefix_statement now like_pattern after limit t =
     take limit (sorted_list_of_set
       {k \<in> dom t. like_match like_pattern k \<and> k > after \<and> live_row now t k \<noteq> None})"

definition scan_bytes_with_prefix_statement ::
    "micros \<Rightarrow> string \<Rightarrow> string \<Rightarrow> nat \<Rightarrow> kv_table \<Rightarrow> (string \<times> bytes) list" where
  "scan_bytes_with_prefix_statement now like_pattern after limit t =
     map (\<lambda>k. (k, kv_value (the (t k)))) (scan_keys_with_prefix_statement now like_pattern after limit t)"

definition delete_keys :: "string list \<Rightarrow> kv_table \<Rightarrow> kv_table" where
  "delete_keys ks t = t |` (- set ks)"

definition delete_expired_keys_once_statement ::
    "string set \<Rightarrow> micros \<Rightarrow> nat \<Rightarrow> kv_table \<Rightarrow> nat \<times> kv_table" where
  "delete_expired_keys_once_statement locked now limit t =
     (let batch = map snd (take limit (sorted_list_of_set
            ((\<lambda>k. (the (kv_expires_at (the (t k))), k)) `
               {k \<in> dom t. expired now (the (t k)) \<and> k \<notin> locked})))
      in (length batch, delete_keys batch t))"

definition delete_keys_with_prefix_once_statement ::
    "string set \<Rightarrow> string \<Rightarrow> nat \<Rightarrow> kv_table \<Rightarrow> nat \<times> kv_table" where
  "delete_keys_with_prefix_once_statement locked like_pattern limit t =
     (let batch = take limit (sorted_list_of_set {k \<in> dom t. like_match like_pattern k \<and> k \<notin> locked})
      in (length batch, delete_keys batch t))"

definition ensure_slot_keys_exist_statement :: "micros \<Rightarrow> string list \<Rightarrow> kv_table \<Rightarrow> kv_table" where
  "ensure_slot_keys_exist_statement now keys t =
     foldl (\<lambda>t k. case t k of
         None \<Rightarrow> t(k \<mapsto> \<lparr>kv_value = [], kv_expires_at = Some (now - 1000000), kv_updated_at = now\<rparr>)
       | Some _ \<Rightarrow> t) t keys"

text \<open>\<open>LIMIT 1\<close> without an order: \<open>pick_row\<close> picks one of the candidate rows.\<close>

definition acquire_slot_statement ::
    "string set \<Rightarrow> (string list \<Rightarrow> string) \<Rightarrow> micros \<Rightarrow> bytes \<Rightarrow> int \<Rightarrow> string list \<Rightarrow> kv_table
     \<Rightarrow> (sqlx_error + string option) \<times> kv_table"
where
  "acquire_slot_statement locked pick_row now v us keys t =
     (let candidates = filter (\<lambda>k. case t k of None \<Rightarrow> False
            | Some r \<Rightarrow> expired now r \<and> k \<notin> locked) keys
      in if candidates = [] then (Inr None, t)
         else case expires_at_expression now (Some us) of
           Inl e \<Rightarrow> (Inl e, t)
         | Inr e \<Rightarrow> (Inr (Some (pick_row candidates)),
             t(pick_row candidates \<mapsto> \<lparr>kv_value = v, kv_expires_at = e, kv_updated_at = now\<rparr>)))"

section \<open>Executors\<close>

definition kv_query_error :: "sqlx_error \<Rightarrow> 'c kv_error" where
  "kv_query_error e = KvDatabase (db_query_error e)"

definition acquire_prepared_slot_bytes ::
    "string set \<Rightarrow> (string list \<Rightarrow> string) \<Rightarrow> micros \<Rightarrow> micros \<Rightarrow> string list \<Rightarrow> bytes \<Rightarrow> int \<Rightarrow> kv_table
     \<Rightarrow> ('c kv_error + string option) \<times> kv_table"
where
  "acquire_prepared_slot_bytes locked pick_row now now' keys v us t =
     (let t' = ensure_slot_keys_exist_statement now keys t
      in case acquire_slot_statement locked pick_row now' v us keys t' of
           (Inl e, t'') \<Rightarrow> (Inl (kv_query_error e), t'')
         | (Inr k, t'') \<Rightarrow> (Inr k, t''))"

definition set_bytes_and_return_database_timestamp_with_executor ::
    "micros \<Rightarrow> string \<Rightarrow> bytes \<Rightarrow> ttl \<Rightarrow> kv_table \<Rightarrow> ('c kv_error + micros) \<times> kv_table" where
  "set_bytes_and_return_database_timestamp_with_executor now key v ttl t =
     (case ttl_positive_microseconds ttl of
        Inl e \<Rightarrow> (Inl e, t)
      | Inr us \<Rightarrow> (case set_bytes_statement now key v us t of
            (Inl e, t') \<Rightarrow> (Inl (kv_query_error e), t')
          | (Inr ts, t') \<Rightarrow> (Inr ts, t')))"

definition set_bytes_with_executor ::
    "micros \<Rightarrow> string \<Rightarrow> bytes \<Rightarrow> ttl \<Rightarrow> kv_table \<Rightarrow> ('c kv_error + unit) \<times> kv_table" where
  "set_bytes_with_executor now key v ttl t =
     (case ttl_positive_microseconds ttl of
        Inl e \<Rightarrow> (Inl e, t)
      | Inr us \<Rightarrow> (case set_bytes_statement now key v us t of
            (Inl e, t') \<Rightarrow> (Inl (kv_query_error e), t')
          | (Inr _, t') \<Rightarrow> (Inr (), t')))"

definition set_bytes_if_not_exists_with_executor ::
    "micros \<Rightarrow> string \<Rightarrow> bytes \<Rightarrow> ttl \<Rightarrow> kv_table \<Rightarrow> ('c kv_error + bool) \<times> kv_table" where
  "set_bytes_if_not_exists_with_executor now key v ttl t =
     (case ttl_positive_microseconds ttl of
        Inl e \<Rightarrow> (Inl e, t)
      | Inr us \<Rightarrow> (case set_bytes_if_not_exists_statement now key v us t of
            (Inl e, t') \<Rightarrow> (Inl (kv_query_error e), t')
          | (Inr ts, t') \<Rightarrow> (Inr (ts \<noteq> None), t')))"

record set_if_not_exists_result =
  was_set :: bool
  set_database_timestamp :: "micros option"

definition set_bytes_if_not_exists_and_return_database_timestamp_with_executor ::
    "micros \<Rightarrow> string \<Rightarrow> bytes \<Rightarrow> ttl \<Rightarrow> kv_table \<Rightarrow> ('c kv_error + set_if_not_exists_result) \<times> kv_table" where
  "set_bytes_if_not_exists_and_return_database_timestamp_with_executor now key v ttl t =
     (case ttl_positive_microseconds ttl of
        Inl e \<Rightarrow> (Inl e, t)
      | Inr us \<Rightarrow> (case set_bytes_if_not_exists_statement now key v us t of
            (Inl e, t') \<Rightarrow> (Inl (kv_query_error e), t')
          | (Inr ts, t') \<Rightarrow> (Inr \<lparr>was_set = (ts \<noteq> None), set_database_timestamp = ts\<rparr>, t')))"

definition get_bytes_with_executor :: "micros \<Rightarrow> string \<Rightarrow> kv_table \<Rightarrow> 'c kv_error + bytes" where
  "get_bytes_with_executor now key t =
     (case get_bytes_statement now key t of None \<Rightarrow> Inl KvKeyNotFound | Some v \<Rightarrow> Inr v)"

definition get_bytes_and_return_database_timestamp_with_executor ::
    "micros \<Rightarrow> string \<Rightarrow> kv_table \<Rightarrow> 'c kv_error + (bytes \<times> micros)" where
  "get_bytes_and_return_database_timestamp_with_executor now key t =
     (case get_bytes_returning_timestamp_statement now key t of
        None \<Rightarrow> Inl KvKeyNotFound | Some p \<Rightarrow> Inr p)"

text \<open>
  \<open>key_to_index\<close> maps a key to its position; results start as \<open>None\<close>. The query has no
  \<open>ORDER BY\<close>: \<open>arrange\<close> is the order in which the server returns the rows.
\<close>

definition index_of :: "string \<Rightarrow> string list \<Rightarrow> nat option" where
  "index_of k ks = (let n = length (takeWhile (\<lambda>x. x \<noteq> k) ks) in if n < length ks then Some n else None)"

definition place_rows :: "string list \<Rightarrow> (string \<times> bytes) list \<Rightarrow> bytes option list" where
  "place_rows keys rows =
     foldl (\<lambda>results (k, v). case index_of k keys of None \<Rightarrow> results | Some i \<Rightarrow> results[i := Some v])
       (replicate (length keys) None) rows"

definition get_bytes_multi_with_executor ::
    "((string \<times> bytes) list \<Rightarrow> (string \<times> bytes) list) \<Rightarrow> micros \<Rightarrow> string list \<Rightarrow> kv_table
     \<Rightarrow> 'c kv_error + bytes option list" where
  "get_bytes_multi_with_executor arrange now keys t =
     result_bind (prepare_unique_keys_for_multi_get keys) (\<lambda>keys.
       if keys = [] then Inr []
       else Inr (place_rows keys (arrange (get_bytes_multi_statement now keys t))))"

definition set_bytes_multi_with_executor ::
    "micros \<Rightarrow> (string \<times> bytes) list \<Rightarrow> ttl \<Rightarrow> kv_table \<Rightarrow> ('c kv_error + unit) \<times> kv_table" where
  "set_bytes_multi_with_executor now entries ttl t =
     (case result_bind (kv_validate_set_multi_entry_count (length entries))
             (\<lambda>_. ttl_positive_microseconds ttl) of
        Inl e \<Rightarrow> (Inl e, t)
      | Inr us \<Rightarrow>
          if entries = [] then (Inr (), t)
          else case prepare_unique_entries_for_multi_set entries of
            Inl e \<Rightarrow> (Inl e, t)
          | Inr (keys, vals) \<Rightarrow>
              (case set_bytes_multi_statement now (zip keys vals) us t of
                 (Inl e, t') \<Rightarrow> (Inl (kv_query_error e), t')
               | (Inr _, t') \<Rightarrow> (Inr (), t')))"

definition touch_key_with_executor :: "micros \<Rightarrow> string \<Rightarrow> kv_table \<Rightarrow> ('c kv_error + unit) \<times> kv_table" where
  "touch_key_with_executor now key t =
     (let (n, t') = touch_key_statement now key t in (kv_require_rows_affected n, t'))"

definition set_key_ttl_with_executor ::
    "micros \<Rightarrow> string \<Rightarrow> ttl \<Rightarrow> kv_table \<Rightarrow> ('c kv_error + unit) \<times> kv_table" where
  "set_key_ttl_with_executor now key ttl t =
     (case ttl_positive_microseconds ttl of
        Inl e \<Rightarrow> (Inl e, t)
      | Inr us \<Rightarrow> (case set_key_ttl_statement now key us t of
            (Inl e, t') \<Rightarrow> (Inl (kv_query_error e), t')
          | (Inr n, t') \<Rightarrow> (kv_require_rows_affected n, t')))"

definition expire_key_with_executor :: "micros \<Rightarrow> string \<Rightarrow> kv_table \<Rightarrow> ('c kv_error + unit) \<times> kv_table" where
  "expire_key_with_executor now key t =
     (let (n, t') = expire_key_statement now key t in (kv_require_rows_affected n, t'))"

definition delete_key_with_executor :: "micros \<Rightarrow> string \<Rightarrow> kv_table \<Rightarrow> ('c kv_error + unit) \<times> kv_table" where
  "delete_key_with_executor now key t =
     (let (n, t') = delete_key_statement now key t in (kv_require_rows_affected n, t'))"

definition check_key_exists_with_executor :: "micros \<Rightarrow> string \<Rightarrow> kv_table \<Rightarrow> 'c kv_error + bool" where
  "check_key_exists_with_executor now key t = Inr (check_key_exists_statement now key t)"

definition count_live_keys_with_prefix_with_executor :: "micros \<Rightarrow> string \<Rightarrow> kv_table \<Rightarrow> 'c kv_error + nat" where
  "count_live_keys_with_prefix_with_executor now key_prefix t =
     Inr (count_live_keys_with_prefix_statement now (prefix_like_pattern key_prefix) t)"

definition scan_bytes_with_prefix_with_executor ::
    "micros \<Rightarrow> string \<Rightarrow> string option \<Rightarrow> nat \<Rightarrow> kv_table \<Rightarrow> 'c kv_error + (string \<times> bytes) list" where
  "scan_bytes_with_prefix_with_executor now key_prefix after_key limit t =
     result_bind (kv_validate_scan_limit limit) (\<lambda>_.
     result_bind (scan_after_key_text key_prefix after_key) (\<lambda>after.
       Inr (scan_bytes_with_prefix_statement now (prefix_like_pattern key_prefix) after limit t)))"

definition scan_keys_with_prefix_with_executor ::
    "micros \<Rightarrow> string \<Rightarrow> string option \<Rightarrow> nat \<Rightarrow> kv_table \<Rightarrow> 'c kv_error + string list" where
  "scan_keys_with_prefix_with_executor now key_prefix after_key limit t =
     result_bind (kv_validate_scan_limit limit) (\<lambda>_.
     result_bind (scan_after_key_text key_prefix after_key) (\<lambda>after.
       Inr (scan_keys_with_prefix_statement now (prefix_like_pattern key_prefix) after limit t)))"

definition delete_expired_keys_once_with_executor ::
    "string set \<Rightarrow> micros \<Rightarrow> nat \<Rightarrow> kv_table \<Rightarrow> ('c kv_error + nat) \<times> kv_table" where
  "delete_expired_keys_once_with_executor locked now batch_size t =
     (case kv_validate_delete_batch_size batch_size of
        Inl e \<Rightarrow> (Inl e, t)
      | Inr _ \<Rightarrow> (let (n, t') = delete_expired_keys_once_statement locked now batch_size t in (Inr n, t')))"

definition delete_keys_with_prefix_once_with_executor ::
    "string set \<Rightarrow> string \<Rightarrow> nat \<Rightarrow> kv_table \<Rightarrow> ('c kv_error + nat) \<times> kv_table" where
  "delete_keys_with_prefix_once_with_executor locked key_prefix batch_size t =
     (case kv_validate_delete_batch_size batch_size of
        Inl e \<Rightarrow> (Inl e, t)
      | Inr _ \<Rightarrow>
          (let (n, t') = delete_keys_with_prefix_once_statement locked (prefix_like_pattern key_prefix) batch_size t
           in (Inr n, t')))"

section \<open>Prefix patterns\<close>

lemma like_match_any [simp]: "like_match ''%'' s"
  by (auto simp: list_ex_iff)

lemma like_match_escape: "like_match (escape_like p @ ''%'') s \<longleftrightarrow> prefix p s"
proof (induction p arbitrary: s)
  case Nil
  then show ?case using like_match_any by simp
next
  case (Cons c p)
  then show ?case by (cases s) auto
qed

text \<open>The pattern built for a key prefix matches exactly the keys that start with the prefix,
  whatever wildcard or escape characters the prefix contains.\<close>

theorem prefix_pattern_exact: "like_match (prefix_like_pattern key_prefix) key = prefix key_prefix key"
  by (simp add: prefix_like_pattern_def like_match_escape)

lemma like_prefix [simp]: "like_match (prefix_like_pattern p) k = prefix p k"
  by (simp add: prefix_like_pattern_def like_match_escape)

section \<open>Reading many keys\<close>

lemma index_of_nth:
  "distinct ks \<Longrightarrow> i < length ks \<Longrightarrow> index_of k ks = Some i \<longleftrightarrow> ks ! i = k"
proof (induction ks arbitrary: i)
  case (Cons a ks)
  show ?case
  proof (cases "a = k")
    case True
    then show ?thesis using Cons.prems by (cases i) (auto simp: index_of_def)
  next
    case False
    have "index_of k (a # ks) = map_option Suc (index_of k ks)"
      using False by (simp add: index_of_def Let_def)
    then show ?thesis using Cons False by (cases i) auto
  qed
qed simp

lemma place_rows_length [simp]: "length (place_rows ks rows) = length ks"
proof -
  have "length (foldl (\<lambda>results (k, v). case index_of k ks of None \<Rightarrow> results
      | Some i \<Rightarrow> results[i := Some v]) rs rows) = length rs" for rs
    by (induction rows arbitrary: rs) (auto split: option.splits)
  then show ?thesis by (simp add: place_rows_def)
qed

lemma place_rows_foldl:
  assumes "distinct ks" "length rs = length ks" "i < length ks"
  shows "foldl (\<lambda>results (k, v). case index_of k ks of None \<Rightarrow> results
      | Some i \<Rightarrow> results[i := Some v]) rs rows ! i =
    (case map_of (rev rows) (ks ! i) of None \<Rightarrow> rs ! i | Some v \<Rightarrow> Some v)"
  using assms(2)
proof (induction rows arbitrary: rs)
  case (Cons row rows)
  obtain k v where row: "row = (k, v)" by (cases row)
  let ?rs = "case index_of k ks of None \<Rightarrow> rs | Some i \<Rightarrow> rs[i := Some v]"
  have len: "length ?rs = length ks" using Cons.prems by (auto split: option.splits)
  have i: "?rs ! i = (if ks ! i = k then Some v else rs ! i)"
    using index_of_nth [OF assms(1,3), of k] Cons.prems assms(3)
    by (auto split: option.splits simp: nth_list_update)
  show ?case
    using Cons.IH [OF len] i by (auto simp: row map_add_def split: option.splits)
qed simp

lemma place_rows_map_of:
  "distinct ks \<Longrightarrow> place_rows ks rows = map (map_of (rev rows)) ks"
proof (rule nth_equalityI)
  fix i
  assume d: "distinct ks" and "i < length (place_rows ks rows)"
  then have i: "i < length ks" by simp
  show "place_rows ks rows ! i = map (map_of (rev rows)) ks ! i"
    unfolding place_rows_def
    by (subst place_rows_foldl [OF d _ i]) (use i in \<open>simp_all split: option.splits\<close>)
qed simp

lemma multi_statement_map_of:
  "distinct ks \<Longrightarrow> k \<in> set ks \<Longrightarrow>
     map_of (get_bytes_multi_statement now ks t) k = get_bytes_statement now k t"
  by (induction ks)
    (auto simp: get_bytes_multi_statement_def get_bytes_statement_def map_filter_simps
      map_of_eq_None_iff map_filter_def split: option.splits)

lemma multi_statement_distinct:
  "distinct ks \<Longrightarrow> distinct (map fst (get_bytes_multi_statement now ks t))"
  by (induction ks)
    (auto simp: get_bytes_multi_statement_def map_filter_simps map_filter_def split: option.splits)

lemma map_of_arranged:
  assumes "mset rows = mset rows'" and "distinct (map fst rows')"
  shows "map_of (rev rows) = map_of rows'"
proof -
  have "mset (map fst rows) = mset (map fst rows')" using assms(1) by simp
  then have "distinct (map fst rows)" using assms(2) by (metis mset_eq_imp_distinct_iff)
  then have "distinct (map fst (rev rows))" by (simp add: rev_map [symmetric])
  moreover have "set (rev rows) = set rows'" using mset_eq_setD [OF assms(1)] by simp
  ultimately show ?thesis using assms(2) by (simp add: map_of_inject_set)
qed

text \<open>A multi-get of distinct keys, within the limit, returns for every position what a single
  get of that key returns, in whatever order the server sends the rows.\<close>

theorem multi_get_positional:
  assumes "\<And>rows. mset (arrange rows) = mset rows"
    and "distinct keys" and "length keys \<le> MAX_KV_GET_MULTI_KEYS"
  shows "get_bytes_multi_with_executor arrange now keys t
    = (Inr (map (\<lambda>k. get_bytes_statement now k t) keys) :: 'c kv_error + _)"
proof -
  have "map_of (rev (arrange (get_bytes_multi_statement now keys t)))
    = map_of (get_bytes_multi_statement now keys t)"
    by (rule map_of_arranged [OF assms(1) multi_statement_distinct [OF assms(2)]])
  then show ?thesis
    using assms(2,3)
    by (simp add: get_bytes_multi_with_executor_def prepare_unique_keys_for_multi_get_def
      kv_validate_get_multi_key_count_def place_rows_map_of multi_statement_map_of)
qed

theorem multi_get_positional_witness:
  "get_bytes_multi_with_executor rev 5 [''b::'', ''c::'', ''a::'']
     [''a::'' \<mapsto> \<lparr>kv_value = [1], kv_expires_at = None, kv_updated_at = 0\<rparr>,
      ''b::'' \<mapsto> \<lparr>kv_value = [2], kv_expires_at = Some 6, kv_updated_at = 0\<rparr>,
      ''c::'' \<mapsto> \<lparr>kv_value = [3], kv_expires_at = Some 5, kv_updated_at = 0\<rparr>]
   = (Inr [Some [2], None, Some [1]] :: unit kv_error + _)"
  by (subst multi_get_positional)
    (simp_all add: MAX_KV_GET_MULTI_KEYS_def get_bytes_statement_def live_row_def not_expired_def)

section \<open>Scanning in pages\<close>

lemma scan_statement_filter:
  assumes "finite (dom t)"
  shows "scan_keys_with_prefix_statement now (prefix_like_pattern p) after limit t =
    take limit (filter (\<lambda>k. after < k)
      (sorted_list_of_set {k \<in> dom t. prefix p k \<and> live_row now t k \<noteq> None}))"
proof -
  let ?A = "{k \<in> dom t. prefix p k \<and> live_row now t k \<noteq> None}"
  have fin: "finite ?A" using assms by (rule finite_subset [rotated]) auto
  have "sorted_list_of_set {k \<in> ?A. after < k} = filter (\<lambda>k. after < k) (sorted_list_of_set ?A)"
    by (rule sorted_list_of_set.idem_if_sorted_distinct [THEN trans [rotated]])
      (use fin in \<open>auto simp: sorted_wrt_filter\<close>)
  moreover have "{k \<in> dom t. like_match (prefix_like_pattern p) k \<and> k > after \<and> live_row now t k \<noteq> None}
      = {k \<in> ?A. after < k}" by auto
  ultimately show ?thesis by (simp only: scan_keys_with_prefix_statement_def)
qed

lemma filter_greater_last_take:
  fixes xs :: "'a :: linorder list"
  assumes "sorted_wrt (<) xs" "0 < n" "n \<le> length xs"
  shows "filter (\<lambda>k. last (take n xs) < k) xs = drop n xs"
proof -
  have split: "xs = take n xs @ drop n xs" by simp
  have last: "last (take n xs) = xs ! (n - 1)"
    using assms by (subst last_conv_nth) auto
  have "filter (\<lambda>k. last (take n xs) < k) (take n xs) = []"
  proof -
    have "\<not> xs ! (n - 1) < xs ! i" if "i < n" for i
    proof (cases "i = n - 1")
      case False
      then have "xs ! i < xs ! (n - 1)"
        using sorted_wrt_nth_less [OF assms(1), of i "n - 1"] that assms by linarith
      then show ?thesis by simp
    qed simp
    then show ?thesis by (auto simp: filter_empty_conv last in_set_conv_nth)
  qed
  moreover have "filter (\<lambda>k. last (take n xs) < k) (drop n xs) = drop n xs"
    using sorted_wrt_nth_less [OF assms(1), of "n - 1"] assms
    by (auto simp: filter_id_conv last in_set_conv_nth)
  ultimately show ?thesis by (metis append_Nil filter_append split)
qed

text \<open>A client that reads page after page, each from the last key of the page before, until a
  page is shorter than the limit.\<close>

fun scan_pages :: "nat \<Rightarrow> (string option \<Rightarrow> 'e + string list) \<Rightarrow> nat \<Rightarrow> string option \<Rightarrow> string list" where
  "scan_pages 0 scan limit cursor = []"
| "scan_pages (Suc n) scan limit cursor =
     (case scan cursor of
        Inl _ \<Rightarrow> []
      | Inr page \<Rightarrow> if length page < limit then page
                    else page @ scan_pages n scan limit (Some (last page)))"

definition cursor_text :: "string option \<Rightarrow> string" where
  "cursor_text cursor = (case cursor of None \<Rightarrow> [] | Some k \<Rightarrow> k)"

lemma scan_pages_rest:
  fixes L :: "string list"
  assumes scan: "\<And>c. cursor_ok c \<Longrightarrow> scan c = Inr (take limit (filter (\<lambda>k. cursor_text c < k) L))"
    and ok: "\<And>k. k \<in> set L \<Longrightarrow> cursor_ok (Some k)"
    and L: "sorted_wrt (<) L" and limit: "0 < limit"
  shows "cursor_ok c \<Longrightarrow> length (filter (\<lambda>k. cursor_text c < k) L) < n \<Longrightarrow>
    scan_pages n scan limit c = filter (\<lambda>k. cursor_text c < k) L"
proof (induction n arbitrary: c)
  case (Suc n)
  let ?F = "filter (\<lambda>k. cursor_text c < k) L"
  show ?case
  proof (cases "length ?F < limit")
    case True
    then show ?thesis using scan [OF Suc.prems(1)] by simp
  next
    case False
    let ?l = "last (take limit ?F)"
    have F: "sorted_wrt (<) ?F" using L by (rule sorted_wrt_filter)
    have ne: "take limit ?F \<noteq> []" using False limit by auto
    have l: "?l \<in> set ?F" using last_in_set [OF ne] by (rule in_set_takeD)
    have "filter (\<lambda>k. ?l < k) L = filter (\<lambda>k. ?l < k) ?F"
      using l by (auto simp: filter_filter intro!: filter_cong)
    also have "\<dots> = drop limit ?F"
      using filter_greater_last_take [OF F limit] False by simp
    finally have rest: "filter (\<lambda>k. cursor_text (Some ?l) < k) L = drop limit ?F"
      by (simp add: cursor_text_def)
    have "scan_pages n scan limit (Some ?l) = drop limit ?F"
      using Suc.IH [of "Some ?l"] ok [of ?l] l Suc.prems(2) limit False
      by (simp add: rest)
    then show ?thesis
      using scan [OF Suc.prems(1)] False by (simp add: min_def)
  qed
qed simp

text \<open>C32: Reading a prefix page by page, each page after the last key of the page before, ends and
  yields exactly the live keys with that prefix, once each and in ascending order.\<close>

theorem scan_pages_complete:
  assumes "finite (dom t)" and "[] \<notin> dom t"
    and "0 < limit" and "limit \<le> MAX_KV_SCAN_LIMIT" and "card (dom t) < n"
  shows "scan_pages n (\<lambda>cursor. scan_keys_with_prefix_with_executor now key_prefix cursor limit t
      :: 'c kv_error + _) limit None
    = sorted_list_of_set {k \<in> dom t. prefix key_prefix k \<and> live_row now t k \<noteq> None}"
proof -
  let ?A = "{k \<in> dom t. prefix key_prefix k \<and> live_row now t k \<noteq> None}"
  let ?scan = "\<lambda>cursor. scan_keys_with_prefix_with_executor now key_prefix cursor limit t :: 'c kv_error + _"
  let ?ok = "\<lambda>c. case c of None \<Rightarrow> True | Some k \<Rightarrow> prefix key_prefix k"
  have sub: "?A \<subseteq> dom t" by auto
  have fin: "finite ?A" by (rule finite_subset [OF sub assms(1)])
  have scan: "?scan c = Inr (take limit (filter (\<lambda>k. cursor_text c < k) (sorted_list_of_set ?A)))"
    if "?ok c" for c
    using that assms(3,4)
    by (cases c) (simp_all add: scan_keys_with_prefix_with_executor_def kv_validate_scan_limit_def
      scan_after_key_text_def prefix_contains_key_def cursor_text_def scan_statement_filter [OF assms(1)])
  have all: "filter (\<lambda>k. cursor_text None < k) (sorted_list_of_set ?A) = sorted_list_of_set ?A"
  proof -
    have "[] < k" if "k \<in> ?A" for k
      using that assms(2) by (cases k) auto
    then show ?thesis using fin by (simp add: cursor_text_def filter_id_conv)
  qed
  have "length (sorted_list_of_set ?A) < n"
    using card_mono [OF assms(1) sub] assms(5) by simp
  then have len: "length (filter (\<lambda>k. cursor_text None < k) (sorted_list_of_set ?A)) < n"
    by (simp only: all)
  have ok: "?ok (Some k)" if "k \<in> set (sorted_list_of_set ?A)" for k
    using that fin by simp
  have "scan_pages n ?scan limit None = filter (\<lambda>k. cursor_text None < k) (sorted_list_of_set ?A)"
    by (rule scan_pages_rest [where cursor_ok = ?ok, OF scan ok strict_sorted_list_of_set assms(3) _ len])
      simp_all
  then show ?thesis by (simp only: all)
qed

theorem scan_pages_complete_witness:
  "scan_pages 4 (\<lambda>cursor. scan_keys_with_prefix_with_executor 5 ''a'' cursor 1
       [''b'' \<mapsto> \<lparr>kv_value = [1], kv_expires_at = None, kv_updated_at = 0\<rparr>,
        ''ab'' \<mapsto> \<lparr>kv_value = [2], kv_expires_at = None, kv_updated_at = 0\<rparr>,
        ''aa'' \<mapsto> \<lparr>kv_value = [3], kv_expires_at = Some 9, kv_updated_at = 0\<rparr>]
       :: unit kv_error + _) 1 None = [''aa'', ''ab'']"
proof -
  let ?t = "[''b'' \<mapsto> \<lparr>kv_value = [1], kv_expires_at = None, kv_updated_at = 0\<rparr>,
        ''ab'' \<mapsto> \<lparr>kv_value = [2], kv_expires_at = None, kv_updated_at = 0\<rparr>,
        ''aa'' \<mapsto> \<lparr>kv_value = [3], kv_expires_at = Some 9, kv_updated_at = 0\<rparr>] :: kv_table"
  have "{k \<in> dom ?t. prefix ''a'' k \<and> live_row 5 ?t k \<noteq> None} = {''aa'', ''ab''}"
    by (auto simp: live_row_def not_expired_def)
  moreover have "sorted_list_of_set {''aa'', ''ab''} = [''aa'', ''ab'']"
    by (subst sorted_list_of_set_insert_remove) (simp_all add: less_char_def)
  moreover have "card (dom ?t) < 4" by (simp add: card_insert_if)
  ultimately show ?thesis
    using scan_pages_complete [of ?t 1 4 5 "''a''"] by (simp add: MAX_KV_SCAN_LIMIT_def)
qed

section \<open>Keys\<close>

lemma kv_validate_part_ok_iff:
  "kv_validate_key_part p = Inr u \<longleftrightarrow> p \<noteq> [] \<and> CHR '':'' \<notin> set p \<and> CHR 0x00 \<notin> set p"
  by (auto simp: kv_validate_key_part_def)

lemma kv_join_parts_append:
  "kv_join_parts b k (ps @ qs) = result_bind (kv_join_parts b k ps) (\<lambda>(b, k). kv_join_parts b k qs)"
proof (induction ps arbitrary: b k)
  case (Cons p ps)
  then show ?case by (cases "kv_validate_key_part p :: 'a kv_error + unit") simp_all
qed simp

lemma kv_join_parts_True:
  "kv_join_parts True k ps = (Inr (b, key) :: 'c kv_error + _) \<Longrightarrow>
     b \<and> list_all (\<lambda>p. p \<noteq> [] \<and> CHR '':'' \<notin> set p) ps
     \<and> key @ KV_KEY_SEPARATOR = k @ KV_KEY_SEPARATOR @ terminated_join KV_KEY_SEPARATOR ps"
proof (induction ps arbitrary: k)
  case (Cons p ps)
  then show ?case
    by (cases "kv_validate_key_part p :: 'c kv_error + unit")
      (auto simp: kv_validate_key_part_def split: if_splits)
qed auto

lemma kv_join_parts_False:
  assumes "kv_join_parts False k ps = (Inr (b, key) :: 'c kv_error + _)"
  shows "(ps = [] \<and> \<not> b \<and> key = k) \<or> (ps \<noteq> [] \<and> b
     \<and> list_all (\<lambda>p. p \<noteq> [] \<and> CHR '':'' \<notin> set p) ps
     \<and> key @ KV_KEY_SEPARATOR = k @ terminated_join KV_KEY_SEPARATOR ps)"
proof (cases ps)
  case (Cons p qs)
  then show ?thesis
    using assms kv_join_parts_True [of "k @ p" qs b key, where ?'c = 'c]
    by (cases "kv_validate_key_part p :: 'c kv_error + unit")
      (auto simp: kv_validate_key_part_def split: if_splits)
qed (use assms in simp)

lemma kv_key_of_parts:
  assumes "kv_build_key_from_parts ps = (Inr key :: 'c kv_error + _)"
  shows "ps \<noteq> [] \<and> list_all (\<lambda>p. p \<noteq> [] \<and> CHR '':'' \<notin> set p) ps
    \<and> key = terminated_join KV_KEY_SEPARATOR ps"
  using assms kv_join_parts_False [of "[]" ps, where ?'c = 'c]
  by (auto simp: kv_build_key_from_parts_def result_bind_eq_Inr_iff split: if_splits)

lemma kv_join_from_separator:
  "kv_join_parts False (k @ KV_KEY_SEPARATOR) qs =
     (if qs = [] then Inr (False, k @ KV_KEY_SEPARATOR) else kv_join_parts True k qs)"
  by (cases qs) simp_all

text \<open>Extending the key prefix of some parts by further parts gives the key of all the parts,
  with the same errors; distinct part lists have distinct keys, and a key lies under a prefix
  exactly when the parts of the prefix start its parts.\<close>

theorem kv_keys_compose:
  assumes "kv_build_key_from_parts ps = (Inr kp :: 'c kv_error + _)"
  shows "(kv_build_key_from_prefix_and_parts kp qs :: 'c kv_error + _) = kv_build_key_from_parts (ps @ qs)
    \<and> (\<forall>rs kr. kv_build_key_from_parts rs = (Inr kr :: 'c kv_error + _) \<longrightarrow>
         prefix_contains_key kp kr = prefix ps rs \<and> (kp = kr \<longleftrightarrow> ps = rs))"
proof (rule conjI)
  obtain b k where join: "kv_join_parts False [] ps = (Inr (b, k) :: 'c kv_error + _)"
    and b: "b" and kp: "kp = k @ KV_KEY_SEPARATOR"
    and len: "kv_validate_key_length kp = (Inr () :: 'c kv_error + _)"
    using assms by (auto simp: kv_build_key_from_parts_def result_bind_eq_Inr_iff split: if_splits)
  show "(kv_build_key_from_prefix_and_parts kp qs :: 'c kv_error + _) = kv_build_key_from_parts (ps @ qs)"
  proof (cases "qs = []")
    case True
    then show ?thesis
      using assms len by (simp add: kv_build_key_from_prefix_and_parts_def)
  next
    case False
    have all: "kv_build_key_from_parts (ps @ qs) = (result_bind (kv_join_parts True k qs) (\<lambda>(b, k).
        if \<not> b then Inl KvEmptyKey
        else result_bind (kv_validate_key_length (k @ KV_KEY_SEPARATOR))
          (\<lambda>_. Inr (k @ KV_KEY_SEPARATOR))) :: 'c kv_error + _)"
      using b by (simp add: kv_build_key_from_parts_def kv_join_parts_append join)
    have pre: "kv_build_key_from_prefix_and_parts kp qs = (result_bind (kv_join_parts True k qs) (\<lambda>(b, k).
        let k = (if b then k @ KV_KEY_SEPARATOR else k)
        in result_bind (kv_validate_key_length k) (\<lambda>_. Inr k)) :: 'c kv_error + _)"
      using False by (simp add: kv_build_key_from_prefix_and_parts_def kp kv_join_from_separator)
    show ?thesis
    proof (cases "kv_join_parts True k qs :: 'c kv_error + _")
      case (Inr r)
      obtain b' k' where r: "r = (b', k')" by (cases r)
      then have "b'" using kv_join_parts_True [of k qs b' k', where ?'c = 'c] Inr by simp
      then show ?thesis unfolding all pre using Inr r by (simp add: Let_def)
    qed (unfold all pre, simp)
  qed
next
  show "\<forall>rs kr. kv_build_key_from_parts rs = (Inr kr :: 'c kv_error + _) \<longrightarrow>
         prefix_contains_key kp kr = prefix ps rs \<and> (kp = kr \<longleftrightarrow> ps = rs)"
  proof (intro allI impI)
    fix rs kr
    assume "kv_build_key_from_parts rs = (Inr kr :: 'c kv_error + _)"
    note facts = kv_key_of_parts [OF assms] kv_key_of_parts [OF this]
    then show "prefix_contains_key kp kr = prefix ps rs \<and> (kp = kr \<longleftrightarrow> ps = rs)"
      by (simp add: prefix_contains_key_def KV_KEY_SEPARATOR_def terminated_join_prefix_iff
        terminated_join_inject)
  qed
qed

theorem kv_keys_compose_witness:
  "(kv_build_key_from_prefix_and_parts ''a::'' [''b''] :: unit kv_error + _) = Inr ''a::b::''
   \<and> \<not> prefix_contains_key ''a::'' ''ab::''"
proof -
  note evaluate = kv_build_key_from_parts_def kv_validate_key_part_def kv_validate_key_length_def
    KV_KEY_SEPARATOR_def MAX_KV_KEY_BYTES_def
  have a: "kv_build_key_from_parts [''a''] = (Inr ''a::'' :: unit kv_error + _)"
    by (simp add: evaluate)
  have ab: "kv_build_key_from_parts [''ab''] = (Inr ''ab::'' :: unit kv_error + _)"
    by (simp add: evaluate)
  have b: "kv_build_key_from_parts ([''a''] @ [''b'']) = (Inr ''a::b::'' :: unit kv_error + _)"
    by (simp add: evaluate)
  note composed = kv_keys_compose [OF a, of "[''b'']"]
  show ?thesis
    using composed [THEN conjunct1] composed [THEN conjunct2, rule_format, OF ab]
    by (simp only: b) simp
qed

section \<open>Time to live\<close>

text \<open>The values of \<open>Ttl\<close> that code outside the module can hold.\<close>

definition valid_ttl :: "ttl \<Rightarrow> bool" where
  "valid_ttl ttl \<longleftrightarrow> ttl = NO_EXPIRATION \<or> (\<exists>d. ttl_expires_after d = (Inr ttl :: unit kv_error + _))"

definition ttl_micros :: "nanos \<Rightarrow> int" where
  "ttl_micros d = int ((d + 999) div 1000)"

lemma kv_rounded: "kv_duration_to_rounded_microseconds d =
    (if ttl_micros d > i64_max then Inl KvTtlTooLarge else Inr (ttl_micros d))"
proof -
  have "d div 1000 + (if d mod 1000 = 0 then 0 else 1) = (d + 999) div 1000"
  proof (rule div_nat_eqI [symmetric])
    have "d = 1000 * (d div 1000) + d mod 1000" by simp
    moreover have "d mod 1000 < 1000" by simp
    ultimately show "1000 * (d div 1000 + (if d mod 1000 = 0 then 0 else 1)) \<le> d + 999"
      and "d + 999 < 1000 * Suc (d div 1000 + (if d mod 1000 = 0 then 0 else 1))"
      by (cases "d mod 1000 = 0"; simp; linarith)+
  qed
  then show ?thesis by (simp add: kv_duration_to_rounded_microseconds_def ttl_micros_def Let_def)
qed

lemma ttl_expires_after_ok:
  "ttl_expires_after d = Inr ttl \<longleftrightarrow> MIN_KV_TTL \<le> d \<and> ttl_micros d \<le> i64_max \<and> ttl = Ttl (Some d)"
  by (auto simp: ttl_expires_after_def kv_rounded MIN_KV_TTL_def)

lemma ttl_positive_microseconds_valid:
  "ttl_positive_microseconds ttl = (Inr us :: 'c kv_error + _) \<Longrightarrow> valid_ttl ttl \<Longrightarrow>
     (case us of None \<Rightarrow> ttl = NO_EXPIRATION | Some u \<Rightarrow> 1000000 \<le> u)"
  by (auto simp: valid_ttl_def ttl_expires_after_ok ttl_positive_microseconds_def NO_EXPIRATION_def
      kv_rounded MIN_KV_TTL_def ttl_micros_def split: if_splits)

text \<open>A value stored with a time to live of \<open>d\<close> nanoseconds is read back until exactly \<open>d\<close>,
  rounded up to microseconds, has passed since the statement, and is not found afterwards;
  other keys are untouched.\<close>

theorem set_then_get_until_expiry:
  assumes "ttl_expires_after d = (Inr ttl :: 'c kv_error + _)"
    and "set_bytes_with_executor now key v ttl t = (Inr () :: 'c kv_error + _, t')"
  shows "get_bytes_with_executor later key t' =
      (if later < now + int ((d + 999) div 1000) then Inr v else (Inl KvKeyNotFound :: 'c kv_error + _))
    \<and> (\<forall>k. k \<noteq> key \<longrightarrow> t' k = t k)"
proof -
  have ttl: "ttl = Ttl (Some d)" "ttl_micros d \<le> i64_max"
    using assms(1) by (simp_all add: ttl_expires_after_ok)
  have "t' = t(key \<mapsto> \<lparr>kv_value = v, kv_expires_at = Some (now + ttl_micros d), kv_updated_at = now\<rparr>)"
    using assms(2) ttl
    by (auto simp: set_bytes_with_executor_def ttl_positive_microseconds_def kv_rounded
        set_bytes_statement_def expires_at_expression_def split: if_splits)
  then show ?thesis
    by (auto simp: get_bytes_with_executor_def get_bytes_statement_def live_row_def not_expired_def
        ttl_micros_def)
qed

theorem set_then_get_until_expiry_witness:
  "get_bytes_with_executor 1000008
     (''k::'') (snd (set_bytes_with_executor 7 ''k::'' [9] (Ttl (Some 1000000001)) Map.empty
        :: (unit kv_error + unit) \<times> kv_table)) = (Inl KvKeyNotFound :: unit kv_error + _)
   \<and> get_bytes_with_executor 1000007
     (''k::'') (snd (set_bytes_with_executor 7 ''k::'' [9] (Ttl (Some 1000000001)) Map.empty
        :: (unit kv_error + unit) \<times> kv_table)) = (Inr [9] :: unit kv_error + _)"
proof -
  let ?r = "set_bytes_with_executor 7 ''k::'' [9] (Ttl (Some 1000000001)) Map.empty
    :: (unit kv_error + unit) \<times> kv_table"
  have a: "ttl_expires_after 1000000001 = (Inr (Ttl (Some 1000000001)) :: unit kv_error + _)"
    by (simp add: ttl_expires_after_ok MIN_KV_TTL_def ttl_micros_def i64_max_def)
  have b: "?r = (Inr (), snd ?r)"
    by (simp add: set_bytes_with_executor_def ttl_positive_microseconds_def kv_rounded ttl_micros_def
        i64_max_def set_bytes_statement_def expires_at_expression_def pg_timestamp_end_def)
  show ?thesis using set_then_get_until_expiry [OF a b] by simp
qed

section \<open>The table as a map whose entries expire\<close>

text \<open>
  The contract of the key-value operations towards their callers: a view of the state at a
  time, which only loses entries as time passes, and steps that report the writes they
  acknowledged. Read against that report, no view shows a value that was not the last one
  written.
\<close>

fun run_steps ::
    "('t \<Rightarrow> 'op \<Rightarrow> 's \<Rightarrow> 'w list \<times> 's) \<Rightarrow> ('t \<times> 'op) list \<Rightarrow> 's \<Rightarrow> 'w list \<times> 's" where
  "run_steps step [] s = ([], s)"
| "run_steps step ((now, op) # ops) s =
     (let (w, s') = step now op s; (ws, s'') = run_steps step ops s' in (w @ ws, s''))"

locale expiring_map =
  fixes view :: "int \<Rightarrow> 's \<Rightarrow> 'k \<Rightarrow> 'v option"
    and step :: "int \<Rightarrow> 'op \<Rightarrow> 's \<Rightarrow> ('k \<times> 'v option) list \<times> 's"
  assumes view_decays: "now \<le> later \<Longrightarrow> view later s k = Some v \<Longrightarrow> view now s k = Some v"
    and step_view: "step now op s = (w, s') \<Longrightarrow> view now s' k = Some v \<Longrightarrow>
      (case map_of (rev w) k of Some x \<Rightarrow> x = Some v | None \<Rightarrow> view now s k = Some v)"
begin

lemma run_view:
  assumes "run_steps step ops s = (w, s')" and "sorted (start # map fst ops @ [later])"
    and "view later s' k = Some v"
  shows "case map_of (rev w) k of Some x \<Rightarrow> x = Some v | None \<Rightarrow> view start s k = Some v"
  using assms
proof (induction ops arbitrary: s w start)
  case Nil
  then show ?case using view_decays [of start later] by simp
next
  case (Cons nop ops)
  obtain now op where nop: "nop = (now, op)" by (cases nop)
  obtain w1 s1 where step1: "step now op s = (w1, s1)" by fastforce
  obtain w2 s2 where run2: "run_steps step ops s1 = (w2, s2)" by fastforce
  have w: "w = w1 @ w2" "s' = s2"
    using Cons.prems(1) by (simp_all add: nop step1 run2)
  have IH: "case map_of (rev w2) k of Some x \<Rightarrow> x = Some v | None \<Rightarrow> view now s1 k = Some v"
    by (rule Cons.IH [OF run2 [folded w(2)]]) (use Cons.prems nop in auto)
  show ?case
  proof (cases "map_of (rev w2) k")
    case None
    then have now: "view now s1 k = Some v" using IH by simp
    have "view now s k = Some v \<Longrightarrow> view start s k = Some v"
      using view_decays [of start now s k v] Cons.prems(2) nop by simp
    then show ?thesis
      using step_view [OF step1 now] None by (auto simp: w map_add_def split: option.splits)
  next
    case (Some x)
    then show ?thesis using IH by (simp add: w map_add_def)
  qed
qed

lemma run_view_from_nothing:
  assumes "run_steps step ops s = (w, s')" and "sorted (map fst ops @ [later])"
    and "\<And>now. view now s k = None" and "view later s' k = Some v"
  shows "map_of (rev w) k = Some (Some v)"
proof -
  obtain start where "sorted (start # map fst ops @ [later])"
    using assms(2) by (cases ops) auto
  from run_view [OF assms(1) this assms(4)] show ?thesis
    using assms(3) by (simp split: option.splits)
qed

end

text \<open>The writing operations and the writes each acknowledges.\<close>

datatype kv_op =
    OpSet string bytes ttl
  | OpSetIfNotExists string bytes ttl
  | OpSetMulti "(string \<times> bytes) list" ttl
  | OpTouch string
  | OpSetTtl string ttl
  | OpExpire string
  | OpDelete string
  | OpDeleteExpired "string set" nat
  | OpDeletePrefix "string set" string nat
  | OpAcquireSlot "string set" "string list \<Rightarrow> string" nat "string list" bytes int

definition acknowledged ::
    "('a \<Rightarrow> 'w list) \<Rightarrow> (unit kv_error + 'a) \<times> kv_table \<Rightarrow> 'w list \<times> kv_table" where
  "acknowledged f r = (case r of (Inl _, t) \<Rightarrow> ([], t) | (Inr x, t) \<Rightarrow> (f x, t))"

fun kv_step :: "micros \<Rightarrow> kv_op \<Rightarrow> kv_table \<Rightarrow> (string \<times> bytes option) list \<times> kv_table" where
  "kv_step now (OpSet key v ttl) t =
     acknowledged (\<lambda>_. [(key, Some v)]) (set_bytes_with_executor now key v ttl t)"
| "kv_step now (OpSetIfNotExists key v ttl) t =
     acknowledged (\<lambda>set. if set then [(key, Some v)] else [])
       (set_bytes_if_not_exists_with_executor now key v ttl t)"
| "kv_step now (OpSetMulti entries ttl) t =
     acknowledged (\<lambda>_. map (\<lambda>(k, v). (k, Some v)) entries) (set_bytes_multi_with_executor now entries ttl t)"
| "kv_step now (OpTouch key) t = acknowledged (\<lambda>_. []) (touch_key_with_executor now key t)"
| "kv_step now (OpSetTtl key ttl) t = acknowledged (\<lambda>_. []) (set_key_ttl_with_executor now key ttl t)"
| "kv_step now (OpExpire key) t = acknowledged (\<lambda>_. [(key, None)]) (expire_key_with_executor now key t)"
| "kv_step now (OpDelete key) t = acknowledged (\<lambda>_. [(key, None)]) (delete_key_with_executor now key t)"
| "kv_step now (OpDeleteExpired locked n) t =
     acknowledged (\<lambda>_. []) (delete_expired_keys_once_with_executor locked now n t)"
| "kv_step now (OpDeletePrefix locked p n) t =
     acknowledged (\<lambda>_. []) (delete_keys_with_prefix_once_with_executor locked p n t)"
| "kv_step now (OpAcquireSlot locked pick_row elapsed keys v us) t =
     acknowledged (\<lambda>slot. case slot of None \<Rightarrow> [] | Some k \<Rightarrow> [(k, Some v)])
       (acquire_prepared_slot_bytes locked pick_row (now - int elapsed) now keys v us t)"

lemma get_bytes_statement_decays:
  "now \<le> later \<Longrightarrow> get_bytes_statement later k t = Some v \<Longrightarrow> get_bytes_statement now k t = Some v"
  by (auto simp: get_bytes_statement_def live_row_def not_expired_def split: option.splits if_splits)

lemma get_bytes_statement_upd:
  "get_bytes_statement now k (t(key \<mapsto> r)) =
     (if k = key then if not_expired now r then Some (kv_value r) else None
      else get_bytes_statement now k t)"
  by (simp add: get_bytes_statement_def live_row_def)

lemma get_bytes_statement_deleted:
  "get_bytes_statement now k (t |` A) = Some v \<Longrightarrow> get_bytes_statement now k t = Some v"
  by (auto simp: get_bytes_statement_def live_row_def restrict_map_def split: option.splits if_splits)

lemma get_bytes_statement_removed:
  "get_bytes_statement now k (t(key := None)) = (if k = key then None else get_bytes_statement now k t)"
  by (simp add: get_bytes_statement_def live_row_def)

lemma get_bytes_statement_multi:
  "get_bytes_statement now k (foldl (\<lambda>t (k, v). t(k \<mapsto> \<lparr>kv_value = v, kv_expires_at = e, kv_updated_at = n\<rparr>))
      t entries) = Some v \<Longrightarrow>
   (case map_of (rev (map (\<lambda>(k, v). (k, Some v)) entries)) k of
      Some x \<Rightarrow> x = Some v | None \<Rightarrow> get_bytes_statement now k t = Some v)"
proof (induction entries arbitrary: t)
  case (Cons a entries)
  obtain key x where a: "a = (key, x)" by (cases a)
  have "case map_of (rev (map (\<lambda>(k, v). (k, Some v)) entries)) k of Some x \<Rightarrow> x = Some v
    | None \<Rightarrow> get_bytes_statement now k
        (t(key \<mapsto> \<lparr>kv_value = x, kv_expires_at = e, kv_updated_at = n\<rparr>)) = Some v"
    by (rule Cons.IH) (use Cons.prems in \<open>simp add: a\<close>)
  then show ?case
    by (auto simp: a map_add_def get_bytes_statement_upd split: option.splits if_splits)
qed simp

lemma live_row_ensured:
  "n \<le> now \<Longrightarrow> live_row now (ensure_slot_keys_exist_statement n keys t) k = live_row now t k"
proof (induction keys arbitrary: t)
  case (Cons a keys)
  have step: "ensure_slot_keys_exist_statement n (a # keys) t = ensure_slot_keys_exist_statement n keys
    (case t a of None \<Rightarrow> t(a \<mapsto> \<lparr>kv_value = [], kv_expires_at = Some (n - 1000000), kv_updated_at = n\<rparr>)
     | Some _ \<Rightarrow> t)"
    by (simp add: ensure_slot_keys_exist_statement_def)
  show ?case
    unfolding step Cons.IH [OF Cons.prems]
    using Cons.prems by (auto simp: live_row_def not_expired_def split: option.splits)
qed (simp add: ensure_slot_keys_exist_statement_def)

lemmas kv_executor_defs =
  set_bytes_with_executor_def set_bytes_statement_def set_bytes_if_not_exists_with_executor_def
  set_bytes_if_not_exists_statement_def touch_key_with_executor_def touch_key_statement_def
  set_key_ttl_with_executor_def set_key_ttl_statement_def expire_key_with_executor_def
  expire_key_statement_def delete_key_with_executor_def delete_key_statement_def update_live_row_def
  delete_expired_keys_once_with_executor_def delete_expired_keys_once_statement_def
  delete_keys_with_prefix_once_with_executor_def delete_keys_with_prefix_once_statement_def
  delete_keys_def


lemma live_row_eq: "live_row now t k = Some r \<Longrightarrow> t k = Some r \<and> not_expired now r"
  by (auto simp: live_row_def split: option.splits if_splits)

lemma get_bytes_statement_live:
  "live_row now t k = Some r \<Longrightarrow> get_bytes_statement now k t = Some (kv_value r)"
  by (simp add: get_bytes_statement_def)

lemma step_view_multi:
  assumes "kv_step now (OpSetMulti entries ttl) t = (w, t')" and "get_bytes_statement now k t' = Some v"
  shows "case map_of (rev w) k of Some x \<Rightarrow> x = Some v | None \<Rightarrow> get_bytes_statement now k t = Some v"
  using assms get_bytes_statement_multi [of now k _ now t entries v]
  by (auto simp: acknowledged_def set_bytes_multi_with_executor_def set_bytes_multi_statement_def
      prepare_unique_entries_for_multi_set_def zip_map_fst_snd
      split: sum.splits prod.splits option.splits if_splits)

lemma step_view_slot:
  assumes "kv_step now (OpAcquireSlot locked pick_row elapsed keys x us) t = (w, t')"
    and "get_bytes_statement now k t' = Some v"
  shows "case map_of (rev w) k of Some x \<Rightarrow> x = Some v | None \<Rightarrow> get_bytes_statement now k t = Some v"
proof -
  let ?t = "ensure_slot_keys_exist_statement (now - int elapsed) keys t"
  have "get_bytes_statement now k ?t = get_bytes_statement now k t" for k
    by (simp add: get_bytes_statement_def live_row_ensured)
  then show ?thesis
    using assms
    by (auto simp: acknowledged_def acquire_prepared_slot_bytes_def acquire_slot_statement_def Let_def
        get_bytes_statement_upd split: sum.splits prod.splits option.splits if_splits)
qed

lemma restrict_UNIV: "t = t |` UNIV"
  by (simp add: restrict_map_def)

lemma delete_expired_shape: "\<exists>A. snd (delete_expired_keys_once_statement locked now n t) = t |` A"
  unfolding delete_expired_keys_once_statement_def delete_keys_def Let_def snd_conv by blast

lemma delete_prefix_shape: "\<exists>A. snd (delete_keys_with_prefix_once_statement locked p n t) = t |` A"
  unfolding delete_keys_with_prefix_once_statement_def delete_keys_def Let_def snd_conv by blast

lemma step_delete_expired:
  "kv_step now (OpDeleteExpired locked n) t = (w, t') \<Longrightarrow> w = [] \<and> (\<exists>A. t' = t |` A)"
  using restrict_UNIV [of t] delete_expired_shape [of locked now n t]
  by (cases "delete_expired_keys_once_statement locked now n t")
    (auto simp: acknowledged_def delete_expired_keys_once_with_executor_def split: sum.splits)

lemma step_delete_prefix:
  "kv_step now (OpDeletePrefix locked p n) t = (w, t') \<Longrightarrow> w = [] \<and> (\<exists>A. t' = t |` A)"
  using restrict_UNIV [of t] delete_prefix_shape [of locked "prefix_like_pattern p" n t]
  by (cases "delete_keys_with_prefix_once_statement locked (prefix_like_pattern p) n t")
    (auto simp: acknowledged_def delete_keys_with_prefix_once_with_executor_def split: sum.splits)

lemma kv_step_view:
  assumes "kv_step now op t = (w, t')" and "get_bytes_statement now k t' = Some v"
  shows "case map_of (rev w) k of Some x \<Rightarrow> x = Some v | None \<Rightarrow> get_bytes_statement now k t = Some v"
proof (cases op)
  case (OpSetMulti entries ttl)
  then show ?thesis using assms step_view_multi by blast
next
  case (OpAcquireSlot locked pick_row elapsed keys v us)
  then show ?thesis using assms step_view_slot by blast
next
  case (OpSet key x ttl)
  then show ?thesis using assms
    by (auto simp: acknowledged_def set_bytes_with_executor_def set_bytes_statement_def
        get_bytes_statement_upd split: sum.splits if_splits)
next
  case (OpSetIfNotExists key x ttl)
  then show ?thesis using assms
    by (auto simp: acknowledged_def set_bytes_if_not_exists_with_executor_def Let_def
        set_bytes_if_not_exists_statement_def get_bytes_statement_upd
        split: sum.splits option.splits if_splits)
next
  case (OpTouch key)
  then show ?thesis using assms
    by (cases "live_row now t key")
      (auto simp: acknowledged_def touch_key_with_executor_def touch_key_statement_def
        update_live_row_def kv_require_rows_affected_def get_bytes_statement_upd
        get_bytes_statement_live split: if_splits)
next
  case (OpSetTtl key ttl)
  then show ?thesis using assms
    by (cases "live_row now t key")
      (auto simp: acknowledged_def set_key_ttl_with_executor_def set_key_ttl_statement_def
        kv_require_rows_affected_def get_bytes_statement_upd get_bytes_statement_live
        split: sum.splits if_splits)
next
  case (OpExpire key)
  then show ?thesis using assms
    by (cases "live_row now t key")
      (auto simp: acknowledged_def expire_key_with_executor_def expire_key_statement_def
        update_live_row_def kv_require_rows_affected_def get_bytes_statement_upd not_expired_def
        split: if_splits)
next
  case (OpDelete key)
  then show ?thesis using assms
    by (cases "live_row now t key")
      (auto simp: acknowledged_def delete_key_with_executor_def delete_key_statement_def
        kv_require_rows_affected_def get_bytes_statement_removed split: if_splits)
next
  case (OpDeleteExpired locked n)
  have "w = [] \<and> (\<exists>A. t' = t |` A)"
    by (rule step_delete_expired [OF assms(1) [unfolded OpDeleteExpired]])
  then show ?thesis using assms(2) by (auto dest: get_bytes_statement_deleted)
next
  case (OpDeletePrefix locked p n)
  have "w = [] \<and> (\<exists>A. t' = t |` A)"
    by (rule step_delete_prefix [OF assms(1) [unfolded OpDeletePrefix]])
  then show ?thesis using assms(2) by (auto dest: get_bytes_statement_deleted)
qed

interpretation kv_map: expiring_map "\<lambda>now t k. get_bytes_statement now k t" kv_step
  by unfold_locales (rule get_bytes_statement_decays, assumption+, rule kv_step_view)

text \<open>C31: In every run of writing operations at non-decreasing times on a table that starts empty,
  a value that a later read returns is the value of the last acknowledged write to that key.\<close>

theorem reads_return_last_write:
  assumes "run_steps kv_step ops Map.empty = (w, t)" and "sorted (map fst ops @ [later])"
    and "get_bytes_with_executor later key t = (Inr v :: 'c kv_error + _)"
  shows "map_of (rev w) key = Some (Some v)"
proof (rule kv_map.run_view_from_nothing [OF assms(1,2)])
  show "get_bytes_statement later key t = Some v"
    using assms(3) by (auto simp: get_bytes_with_executor_def split: option.splits)
qed (simp add: get_bytes_statement_def live_row_def)

theorem reads_return_last_write_witness:
  "map_of (rev (fst (run_steps kv_step
      [(1, OpSet ''k::'' [1] NO_EXPIRATION), (2, OpSetIfNotExists ''k::'' [2] NO_EXPIRATION)]
      Map.empty))) ''k::'' = Some (Some [1])"
proof -
  let ?ops = "[(1, OpSet ''k::'' [1] NO_EXPIRATION), (2, OpSetIfNotExists ''k::'' [2] NO_EXPIRATION)]"
  let ?run = "run_steps kv_step ?ops Map.empty"
  have "?run = ([(''k::'', Some [1])],
      [''k::'' \<mapsto> \<lparr>kv_value = [1], kv_expires_at = None, kv_updated_at = 1\<rparr>])"
    by (simp add: acknowledged_def kv_executor_defs ttl_positive_microseconds_def NO_EXPIRATION_def
      expires_at_expression_def expired_def)
  then have run: "?run = (fst ?run, snd ?run)" and t: "snd ?run
      = [''k::'' \<mapsto> \<lparr>kv_value = [1], kv_expires_at = None, kv_updated_at = 1\<rparr>]" by simp_all
  show ?thesis
    by (rule reads_return_last_write [OF run, of 3 "''k::''" "[1]", where ?'c = unit])
      (unfold t, simp_all add: get_bytes_with_executor_def get_bytes_statement_def live_row_def
        not_expired_def)
qed

section \<open>Exclusive writes\<close>

text \<open>Attempts of several clients to create one key, one after another.\<close>

fun set_attempts :: "(micros \<times> bytes \<times> ttl) list \<Rightarrow> string \<Rightarrow> kv_table \<Rightarrow> ('c kv_error + bool) list \<times> kv_table" where
  "set_attempts [] key t = ([], t)"
| "set_attempts ((now, v, ttl) # rest) key t =
     (let (r, t') = set_bytes_if_not_exists_with_executor now key v ttl t;
          (rs, t'') = set_attempts rest key t' in (r # rs, t''))"

definition held_until :: "micros \<Rightarrow> ttl \<Rightarrow> micros \<Rightarrow> bool" where
  "held_until now ttl later \<longleftrightarrow>
     (case ttl_duration ttl of None \<Rightarrow> True | Some d \<Rightarrow> later < now + ttl_micros d)"

lemma set_if_not_exists_live:
  "set_bytes_if_not_exists_with_executor now key v ttl t = (r, t') \<Longrightarrow> live_row now t key \<noteq> None \<Longrightarrow>
     r \<noteq> Inr True \<and> t' = t"
  by (auto simp: set_bytes_if_not_exists_with_executor_def set_bytes_if_not_exists_statement_def
      live_row_def not_expired_def expired_def split: sum.splits option.splits if_splits)

lemma set_if_not_exists_result:
  "set_bytes_if_not_exists_with_executor now key v ttl t = (Inr b, t') \<Longrightarrow>
     (b \<longleftrightarrow> live_row now t key = None)
     \<and> t' = (if b then t(key \<mapsto> \<lparr>kv_value = v,
           kv_expires_at = map_option (\<lambda>d. now + ttl_micros d) (ttl_duration ttl), kv_updated_at = now\<rparr>) else t)"
  by (auto simp: set_bytes_if_not_exists_with_executor_def set_bytes_if_not_exists_statement_def
      live_row_def not_expired_def expired_def ttl_positive_microseconds_def kv_rounded
      expires_at_expression_def split: sum.splits option.splits if_splits)

lemma set_attempts_live:
  "set_attempts attempts key t = (rs :: ('c kv_error + bool) list, t') \<Longrightarrow> \<forall>(n, v, ttl) \<in> set attempts. live_row n t key \<noteq> None \<Longrightarrow>
     Inr True \<notin> set rs \<and> t' = t"
proof (induction attempts arbitrary: rs)
  case (Cons a attempts)
  obtain n v ttl where a: "a = (n, v, ttl)" by (cases a)
  obtain r :: "'c kv_error + bool" and t1
    where r: "set_bytes_if_not_exists_with_executor n key v ttl t = (r, t1)" by fastforce
  then have "r \<noteq> Inr True \<and> t1 = t"
    using set_if_not_exists_live Cons.prems(2) a by fastforce
  then show ?case using Cons r by (auto simp: a split: prod.splits)
qed simp

text \<open>C30: Creating a key succeeds exactly when no live value is there; from then on, until its time to
  live ends, every other attempt on the key fails and the value stays what the winner wrote.\<close>

theorem set_if_not_exists_excludes:
  assumes "set_bytes_if_not_exists_with_executor now key v ttl t = (Inr b :: 'c kv_error + _, t')"
    and "set_attempts attempts key t' = (rs :: ('c kv_error + bool) list, t'')"
  shows "(b \<longleftrightarrow> live_row now t key = None)
    \<and> (b \<longrightarrow> (\<forall>(n, _) \<in> set attempts. held_until now ttl n) \<longrightarrow>
         Inr True \<notin> set rs
         \<and> (\<forall>later. held_until now ttl later \<longrightarrow> get_bytes_statement later key t'' = Some v))"
proof -
  note result = set_if_not_exists_result [OF assms(1)]
  have live: "live_row n t' key \<noteq> None" and val: "get_bytes_statement n key t' = Some v"
    if "b" and "held_until now ttl n" for n
    using that result
    by (auto simp: live_row_def not_expired_def held_until_def get_bytes_statement_def split: option.splits)
  have "\<forall>(n, v, ttl) \<in> set attempts. live_row n t' key \<noteq> None"
    if "b" and "\<forall>(n, _) \<in> set attempts. held_until now ttl n"
    using that live by fastforce
  then show ?thesis
    using result set_attempts_live [OF assms(2)] val by blast
qed

theorem set_if_not_exists_excludes_witness:
  "set_attempts [(1000004, [2], NO_EXPIRATION)] ''k''
     [''k'' \<mapsto> \<lparr>kv_value = [1], kv_expires_at = Some 1000007, kv_updated_at = 7\<rparr>]
   = ([Inr False] :: (unit kv_error + bool) list,
      [''k'' \<mapsto> \<lparr>kv_value = [1], kv_expires_at = Some 1000007, kv_updated_at = 7\<rparr>])
   \<and> Inr True \<notin> set [Inr False :: unit kv_error + bool]"
proof -
  let ?t = "[''k'' \<mapsto> \<lparr>kv_value = [1], kv_expires_at = Some 1000007, kv_updated_at = 7\<rparr>] :: kv_table"
  have r: "set_bytes_if_not_exists_with_executor 7 ''k'' [1] (Ttl (Some 1000000000)) Map.empty
    = (Inr True :: unit kv_error + bool, ?t)"
    by (simp add: set_bytes_if_not_exists_with_executor_def ttl_positive_microseconds_def kv_rounded
        ttl_micros_def i64_max_def set_bytes_if_not_exists_statement_def expires_at_expression_def
        pg_timestamp_end_def)
  have a: "set_attempts [(1000004, [2], NO_EXPIRATION)] ''k'' ?t
    = ([Inr False] :: (unit kv_error + bool) list, ?t)"
    by (simp add: set_bytes_if_not_exists_with_executor_def set_bytes_if_not_exists_statement_def
        ttl_positive_microseconds_def NO_EXPIRATION_def expires_at_expression_def expired_def)
  show ?thesis
    using a set_if_not_exists_excludes [OF r a] by (simp add: held_until_def ttl_micros_def)
qed

section \<open>Slots\<close>

lemma ensure_slot_keys_Cons:
  "ensure_slot_keys_exist_statement n (a # keys) t = ensure_slot_keys_exist_statement n keys
    (case t a of None \<Rightarrow> t(a \<mapsto> \<lparr>kv_value = [], kv_expires_at = Some (n - 1000000), kv_updated_at = n\<rparr>)
     | Some _ \<Rightarrow> t)"
  by (simp add: ensure_slot_keys_exist_statement_def)

lemma ensured_keeps: "t k = Some r \<Longrightarrow> ensure_slot_keys_exist_statement n keys t k = Some r"
proof (induction keys arbitrary: t)
  case (Cons a keys)
  show ?case
    unfolding ensure_slot_keys_Cons by (rule Cons.IH) (use Cons.prems in \<open>auto split: option.splits\<close>)
qed (simp add: ensure_slot_keys_exist_statement_def)

lemma ensured_present: "k \<in> set keys \<Longrightarrow> ensure_slot_keys_exist_statement n keys t k \<noteq> None"
proof (induction keys arbitrary: t)
  case (Cons a keys)
  let ?t = "case t a of None \<Rightarrow> t(a \<mapsto> \<lparr>kv_value = [], kv_expires_at = Some (n - 1000000), kv_updated_at = n\<rparr>)
     | Some _ \<Rightarrow> t"
  show ?case
  proof (cases "k = a")
    case True
    then have "\<exists>r. ?t k = Some r" by (cases "t a") auto
    then show ?thesis unfolding ensure_slot_keys_Cons using ensured_keeps by blast
  next
    case False
    then show ?thesis unfolding ensure_slot_keys_Cons using Cons by simp
  qed
qed simp

text \<open>A slot is acquired only on a candidate that is neither live nor locked; it then holds the
  value until its time to live ends, and every other live value stays. No slot is returned only
  when every candidate is live or locked.\<close>

theorem acquired_slot_is_exclusive:
  assumes "acquire_prepared_slot_bytes locked pick_row now now' keys v us t = (Inr slot :: 'c kv_error + _, t')"
    and "now \<le> now'" and "\<And>ks. ks \<noteq> [] \<Longrightarrow> pick_row ks \<in> set ks"
  shows "(case slot of
      Some key \<Rightarrow> key \<in> set keys \<and> live_row now' t key = None \<and> key \<notin> locked
        \<and> (\<forall>later < now' + us. get_bytes_statement later key t' = Some v)
        \<and> (\<forall>k. k \<noteq> key \<longrightarrow> live_row now' t' k = live_row now' t k)
    | None \<Rightarrow> \<forall>k \<in> set keys. live_row now' t k \<noteq> None \<or> k \<in> locked)"
proof -
  let ?t = "ensure_slot_keys_exist_statement now keys t"
  let ?free = "\<lambda>k. case ?t k of None \<Rightarrow> False | Some r \<Rightarrow> expired now' r \<and> k \<notin> locked"
  let ?cs = "filter ?free keys"
  have live: "live_row now' ?t k = live_row now' t k" for k
    by (rule live_row_ensured [OF assms(2)])
  have dead: "live_row now' t k = None \<and> k \<notin> locked" if "?free k" for k
    using that live [of k] by (auto simp: live_row_def expired_def not_expired_def split: option.splits)
  have present: "?t k \<noteq> None" if "k \<in> set keys" for k
    using that by (rule ensured_present)
  have free: "?free k" if "k \<in> set keys" "live_row now' t k = None" "k \<notin> locked" for k
    using that live [of k] present [of k]
    by (auto simp: live_row_def expired_def not_expired_def split: option.splits if_splits)
  show ?thesis
  proof (cases "?cs = []")
    case True
    then have "slot = None"
      using assms(1) by (auto simp: acquire_prepared_slot_bytes_def acquire_slot_statement_def Let_def)
    then show ?thesis using True free by (auto simp: filter_empty_conv)
  next
    case False
    have "slot = Some (pick_row ?cs) \<and>
      t' = ?t(pick_row ?cs \<mapsto> \<lparr>kv_value = v, kv_expires_at = Some (now' + us), kv_updated_at = now'\<rparr>)"
      using assms(1) False
      by (auto simp: acquire_prepared_slot_bytes_def acquire_slot_statement_def Let_def
          expires_at_expression_def split: if_splits)
    moreover have "pick_row ?cs \<in> set ?cs" using assms(3) [OF False] .
    then have "pick_row ?cs \<in> set keys \<and> ?free (pick_row ?cs)" by simp
    ultimately show ?thesis
      using dead [of "pick_row ?cs"] live
      by (auto simp: get_bytes_statement_def live_row_def not_expired_def)
  qed
qed


theorem acquired_slot_is_exclusive_witness:
  "acquire_prepared_slot_bytes {''c''} hd 5 6 [''a'', ''b'', ''c''] [7] 1000000
     [''a'' \<mapsto> \<lparr>kv_value = [1], kv_expires_at = None, kv_updated_at = 0\<rparr>]
   = (Inr (Some ''b'') :: unit kv_error + _, snd (acquire_prepared_slot_bytes {''c''} hd 5 6
        [''a'', ''b'', ''c''] [7] 1000000 [''a'' \<mapsto> \<lparr>kv_value = [1], kv_expires_at = None, kv_updated_at = 0\<rparr>]
        :: (unit kv_error + _) \<times> _))
   \<and> live_row 6 [''a'' \<mapsto> \<lparr>kv_value = [1], kv_expires_at = None, kv_updated_at = 0\<rparr>] ''b'' = None"
proof -
  let ?t = "[''a'' \<mapsto> \<lparr>kv_value = [1], kv_expires_at = None, kv_updated_at = 0\<rparr>] :: kv_table"
  let ?r = "acquire_prepared_slot_bytes {''c''} hd 5 6 [''a'', ''b'', ''c''] [7] 1000000 ?t
    :: (unit kv_error + _) \<times> _"
  have r: "?r = (Inr (Some ''b''), snd ?r)"
    by (simp add: acquire_prepared_slot_bytes_def acquire_slot_statement_def Let_def expired_def
        ensure_slot_keys_exist_statement_def expires_at_expression_def pg_timestamp_end_def)
  have "live_row 6 ?t ''b'' = None"
    using acquired_slot_is_exclusive [OF r] by simp
  with r show ?thesis by blast
qed

end
