(* ===== verification/KvStore.thy ===== *)
theory KvStore
  imports Kv
begin

text \<open>
  \<open>src/src/db/kv/store.rs\<close>: the operations of the store, each inside the caller's
  transaction (admission of the protocol first, then the executor) and on a pool (begin, the
  operation, commit or roll back), and the loop that deletes expired keys batch by batch.
\<close>

definition kv_pool_write ::
    "string \<Rightarrow> pool_env \<Rightarrow> (kv_table tx \<Rightarrow> ('c kv_error + 'a) \<times> kv_table tx) \<Rightarrow> kv_table
     \<Rightarrow> ('c kv_error + 'a) \<times> kv_table" where
  "kv_pool_write operation env body t =
     pool_write operation KvDatabase KvRollbackFailed env body t"

definition kv_pool_read ::
    "string \<Rightarrow> pool_env \<Rightarrow> (kv_table tx \<Rightarrow> ('c kv_error + 'a) \<times> kv_table tx) \<Rightarrow> kv_table
     \<Rightarrow> 'c kv_error + 'a" where
  "kv_pool_read operation env body t =
     pool_read operation KvDatabase KvRollbackFailed env body t"

section \<open>Operations\<close>

definition set_bytes_in_current_transaction ::
    "string \<Rightarrow> admission_reply \<Rightarrow> micros \<Rightarrow> string \<Rightarrow> bytes \<Rightarrow> ttl \<Rightarrow> kv_table tx
     \<Rightarrow> ('c kv_error + unit) \<times> kv_table tx" where
  "set_bytes_in_current_transaction protocol reply now key v ttl tx =
     admitted protocol reply KvDatabase
       (set_bytes_with_executor now key v ttl) tx"

definition set_bytes ::
    "string \<Rightarrow> pool_env \<Rightarrow> string \<Rightarrow> bytes \<Rightarrow> ttl \<Rightarrow> kv_table \<Rightarrow> ('c kv_error + unit) \<times> kv_table" where
  "set_bytes protocol env key v ttl t =
     kv_pool_write ''kv.set_bytes'' env
       (set_bytes_in_current_transaction protocol (env_reply env) (env_now env) key v ttl) t"

definition set_bytes_and_return_database_timestamp_in_current_transaction ::
    "string \<Rightarrow> admission_reply \<Rightarrow> micros \<Rightarrow> string \<Rightarrow> bytes \<Rightarrow> ttl \<Rightarrow> kv_table tx
     \<Rightarrow> ('c kv_error + micros) \<times> kv_table tx" where
  "set_bytes_and_return_database_timestamp_in_current_transaction protocol reply now key v ttl tx =
     admitted protocol reply KvDatabase
       (set_bytes_and_return_database_timestamp_with_executor now key v ttl) tx"

definition set_bytes_and_return_database_timestamp ::
    "string \<Rightarrow> pool_env \<Rightarrow> string \<Rightarrow> bytes \<Rightarrow> ttl \<Rightarrow> kv_table \<Rightarrow> ('c kv_error + micros) \<times> kv_table" where
  "set_bytes_and_return_database_timestamp protocol env key v ttl t =
     kv_pool_write ''kv.set_bytes_returning_database_timestamp'' env
       (set_bytes_and_return_database_timestamp_in_current_transaction protocol (env_reply env) (env_now env) key v ttl) t"

definition set_bytes_if_not_exists_in_current_transaction ::
    "string \<Rightarrow> admission_reply \<Rightarrow> micros \<Rightarrow> string \<Rightarrow> bytes \<Rightarrow> ttl \<Rightarrow> kv_table tx
     \<Rightarrow> ('c kv_error + bool) \<times> kv_table tx" where
  "set_bytes_if_not_exists_in_current_transaction protocol reply now key v ttl tx =
     admitted protocol reply KvDatabase
       (set_bytes_if_not_exists_with_executor now key v ttl) tx"

definition set_bytes_if_not_exists ::
    "string \<Rightarrow> pool_env \<Rightarrow> string \<Rightarrow> bytes \<Rightarrow> ttl \<Rightarrow> kv_table \<Rightarrow> ('c kv_error + bool) \<times> kv_table" where
  "set_bytes_if_not_exists protocol env key v ttl t =
     kv_pool_write ''kv.set_bytes_if_not_exists'' env
       (set_bytes_if_not_exists_in_current_transaction protocol (env_reply env) (env_now env) key v ttl) t"

definition set_bytes_if_not_exists_and_return_database_timestamp_in_current_transaction ::
    "string \<Rightarrow> admission_reply \<Rightarrow> micros \<Rightarrow> string \<Rightarrow> bytes \<Rightarrow> ttl \<Rightarrow> kv_table tx
     \<Rightarrow> ('c kv_error + set_if_not_exists_result) \<times> kv_table tx" where
  "set_bytes_if_not_exists_and_return_database_timestamp_in_current_transaction protocol reply now key v ttl tx =
     admitted protocol reply KvDatabase
       (set_bytes_if_not_exists_and_return_database_timestamp_with_executor now key v ttl) tx"

definition set_bytes_if_not_exists_and_return_database_timestamp ::
    "string \<Rightarrow> pool_env \<Rightarrow> string \<Rightarrow> bytes \<Rightarrow> ttl \<Rightarrow> kv_table \<Rightarrow> ('c kv_error + set_if_not_exists_result) \<times> kv_table" where
  "set_bytes_if_not_exists_and_return_database_timestamp protocol env key v ttl t =
     kv_pool_write ''kv.set_bytes_if_not_exists_returning_database_timestamp'' env
       (set_bytes_if_not_exists_and_return_database_timestamp_in_current_transaction protocol (env_reply env) (env_now env) key v ttl) t"

definition get_bytes_in_current_transaction ::
    "string \<Rightarrow> admission_reply \<Rightarrow> micros \<Rightarrow> string \<Rightarrow> kv_table tx
     \<Rightarrow> ('c kv_error + bytes) \<times> kv_table tx" where
  "get_bytes_in_current_transaction protocol reply now key tx =
     admitted protocol reply KvDatabase
       (\<lambda>t. (get_bytes_with_executor now key t, t)) tx"

definition get_bytes ::
    "string \<Rightarrow> pool_env \<Rightarrow> string \<Rightarrow> kv_table \<Rightarrow> 'c kv_error + bytes" where
  "get_bytes protocol env key t =
     kv_pool_read ''kv.get_bytes'' env
       (get_bytes_in_current_transaction protocol (env_reply env) (env_now env) key) t"

definition get_bytes_and_return_database_timestamp_in_current_transaction ::
    "string \<Rightarrow> admission_reply \<Rightarrow> micros \<Rightarrow> string \<Rightarrow> kv_table tx
     \<Rightarrow> ('c kv_error + (bytes \<times> micros)) \<times> kv_table tx" where
  "get_bytes_and_return_database_timestamp_in_current_transaction protocol reply now key tx =
     admitted protocol reply KvDatabase
       (\<lambda>t. (get_bytes_and_return_database_timestamp_with_executor now key t, t)) tx"

definition get_bytes_and_return_database_timestamp ::
    "string \<Rightarrow> pool_env \<Rightarrow> string \<Rightarrow> kv_table \<Rightarrow> 'c kv_error + (bytes \<times> micros)" where
  "get_bytes_and_return_database_timestamp protocol env key t =
     kv_pool_read ''kv.get_bytes_returning_database_timestamp'' env
       (get_bytes_and_return_database_timestamp_in_current_transaction protocol (env_reply env) (env_now env) key) t"

definition get_bytes_multi_in_current_transaction ::
    "string \<Rightarrow> admission_reply \<Rightarrow> micros \<Rightarrow> ((string \<times> bytes) list \<Rightarrow> (string \<times> bytes) list) \<Rightarrow> string list \<Rightarrow> kv_table tx
     \<Rightarrow> ('c kv_error + bytes option list) \<times> kv_table tx" where
  "get_bytes_multi_in_current_transaction protocol reply now arrange keys tx =
     (if keys \<noteq> [] then
        admitted protocol reply KvDatabase
          (\<lambda>t. (get_bytes_multi_with_executor arrange now keys t, t)) tx
      else (get_bytes_multi_with_executor arrange now keys (tables tx), tx))"

definition get_bytes_multi ::
    "string \<Rightarrow> pool_env \<Rightarrow> ((string \<times> bytes) list \<Rightarrow> (string \<times> bytes) list) \<Rightarrow> string list \<Rightarrow> kv_table \<Rightarrow> 'c kv_error + bytes option list" where
  "get_bytes_multi protocol env arrange keys t =
     kv_pool_read ''kv.get_bytes_multi'' env
       (get_bytes_multi_in_current_transaction protocol (env_reply env) (env_now env) arrange keys) t"

definition set_bytes_multi_in_current_transaction ::
    "string \<Rightarrow> admission_reply \<Rightarrow> micros \<Rightarrow> (string \<times> bytes) list \<Rightarrow> ttl \<Rightarrow> kv_table tx
     \<Rightarrow> ('c kv_error + unit) \<times> kv_table tx" where
  "set_bytes_multi_in_current_transaction protocol reply now entries ttl tx =
     (if entries \<noteq> [] then
        admitted protocol reply KvDatabase
          (set_bytes_multi_with_executor now entries ttl) tx
      else (let (r, t) = set_bytes_multi_with_executor now entries ttl (tables tx) in (r, tx\<lparr>tables := t\<rparr>)))"

definition set_bytes_multi ::
    "string \<Rightarrow> pool_env \<Rightarrow> (string \<times> bytes) list \<Rightarrow> ttl \<Rightarrow> kv_table \<Rightarrow> ('c kv_error + unit) \<times> kv_table" where
  "set_bytes_multi protocol env entries ttl t =
     kv_pool_write ''kv.set_bytes_multi'' env
       (set_bytes_multi_in_current_transaction protocol (env_reply env) (env_now env) entries ttl) t"

definition touch_key_in_current_transaction ::
    "string \<Rightarrow> admission_reply \<Rightarrow> micros \<Rightarrow> string \<Rightarrow> kv_table tx
     \<Rightarrow> ('c kv_error + unit) \<times> kv_table tx" where
  "touch_key_in_current_transaction protocol reply now key tx =
     admitted protocol reply KvDatabase
       (touch_key_with_executor now key) tx"

definition touch_key ::
    "string \<Rightarrow> pool_env \<Rightarrow> string \<Rightarrow> kv_table \<Rightarrow> ('c kv_error + unit) \<times> kv_table" where
  "touch_key protocol env key t =
     kv_pool_write ''kv.touch_key'' env
       (touch_key_in_current_transaction protocol (env_reply env) (env_now env) key) t"

definition set_key_ttl_in_current_transaction ::
    "string \<Rightarrow> admission_reply \<Rightarrow> micros \<Rightarrow> string \<Rightarrow> ttl \<Rightarrow> kv_table tx
     \<Rightarrow> ('c kv_error + unit) \<times> kv_table tx" where
  "set_key_ttl_in_current_transaction protocol reply now key ttl tx =
     admitted protocol reply KvDatabase
       (set_key_ttl_with_executor now key ttl) tx"

definition set_key_ttl ::
    "string \<Rightarrow> pool_env \<Rightarrow> string \<Rightarrow> ttl \<Rightarrow> kv_table \<Rightarrow> ('c kv_error + unit) \<times> kv_table" where
  "set_key_ttl protocol env key ttl t =
     kv_pool_write ''kv.set_key_ttl'' env
       (set_key_ttl_in_current_transaction protocol (env_reply env) (env_now env) key ttl) t"

definition expire_key_in_current_transaction ::
    "string \<Rightarrow> admission_reply \<Rightarrow> micros \<Rightarrow> string \<Rightarrow> kv_table tx
     \<Rightarrow> ('c kv_error + unit) \<times> kv_table tx" where
  "expire_key_in_current_transaction protocol reply now key tx =
     admitted protocol reply KvDatabase
       (expire_key_with_executor now key) tx"

definition expire_key ::
    "string \<Rightarrow> pool_env \<Rightarrow> string \<Rightarrow> kv_table \<Rightarrow> ('c kv_error + unit) \<times> kv_table" where
  "expire_key protocol env key t =
     kv_pool_write ''kv.expire_key'' env
       (expire_key_in_current_transaction protocol (env_reply env) (env_now env) key) t"

definition delete_key_in_current_transaction ::
    "string \<Rightarrow> admission_reply \<Rightarrow> micros \<Rightarrow> string \<Rightarrow> kv_table tx
     \<Rightarrow> ('c kv_error + unit) \<times> kv_table tx" where
  "delete_key_in_current_transaction protocol reply now key tx =
     admitted protocol reply KvDatabase
       (delete_key_with_executor now key) tx"

definition delete_key ::
    "string \<Rightarrow> pool_env \<Rightarrow> string \<Rightarrow> kv_table \<Rightarrow> ('c kv_error + unit) \<times> kv_table" where
  "delete_key protocol env key t =
     kv_pool_write ''kv.delete_key'' env
       (delete_key_in_current_transaction protocol (env_reply env) (env_now env) key) t"

definition check_key_exists_in_current_transaction ::
    "string \<Rightarrow> admission_reply \<Rightarrow> micros \<Rightarrow> string \<Rightarrow> kv_table tx
     \<Rightarrow> ('c kv_error + bool) \<times> kv_table tx" where
  "check_key_exists_in_current_transaction protocol reply now key tx =
     admitted protocol reply KvDatabase
       (\<lambda>t. (check_key_exists_with_executor now key t, t)) tx"

definition check_key_exists ::
    "string \<Rightarrow> pool_env \<Rightarrow> string \<Rightarrow> kv_table \<Rightarrow> 'c kv_error + bool" where
  "check_key_exists protocol env key t =
     kv_pool_read ''kv.check_key_exists'' env
       (check_key_exists_in_current_transaction protocol (env_reply env) (env_now env) key) t"

definition delete_expired_keys_once_in_current_transaction ::
    "string \<Rightarrow> admission_reply \<Rightarrow> micros \<Rightarrow> string set \<Rightarrow> nat \<Rightarrow> kv_table tx
     \<Rightarrow> ('c kv_error + nat) \<times> kv_table tx" where
  "delete_expired_keys_once_in_current_transaction protocol reply now locked batch_size tx =
     admitted protocol reply KvDatabase
       (delete_expired_keys_once_with_executor locked now batch_size) tx"

definition delete_expired_keys_once ::
    "string \<Rightarrow> pool_env \<Rightarrow> string set \<Rightarrow> nat \<Rightarrow> kv_table \<Rightarrow> ('c kv_error + nat) \<times> kv_table" where
  "delete_expired_keys_once protocol env locked batch_size t =
     kv_pool_write ''kv.delete_expired_keys_once'' env
       (delete_expired_keys_once_in_current_transaction protocol (env_reply env) (env_now env) locked batch_size) t"

definition count_live_keys_with_prefix_in_current_transaction ::
    "string \<Rightarrow> admission_reply \<Rightarrow> micros \<Rightarrow> string \<Rightarrow> kv_table tx
     \<Rightarrow> ('c kv_error + nat) \<times> kv_table tx" where
  "count_live_keys_with_prefix_in_current_transaction protocol reply now key_prefix tx =
     admitted protocol reply KvDatabase
       (\<lambda>t. (count_live_keys_with_prefix_with_executor now key_prefix t, t)) tx"

definition count_live_keys_with_prefix ::
    "string \<Rightarrow> pool_env \<Rightarrow> string \<Rightarrow> kv_table \<Rightarrow> 'c kv_error + nat" where
  "count_live_keys_with_prefix protocol env key_prefix t =
     kv_pool_read ''kv.count_live_keys_with_prefix'' env
       (count_live_keys_with_prefix_in_current_transaction protocol (env_reply env) (env_now env) key_prefix) t"

definition scan_bytes_with_prefix_in_current_transaction ::
    "string \<Rightarrow> admission_reply \<Rightarrow> micros \<Rightarrow> string \<Rightarrow> string option \<Rightarrow> nat \<Rightarrow> kv_table tx
     \<Rightarrow> ('c kv_error + (string \<times> bytes) list) \<times> kv_table tx" where
  "scan_bytes_with_prefix_in_current_transaction protocol reply now key_prefix after_key limit tx =
     admitted protocol reply KvDatabase
       (\<lambda>t. (scan_bytes_with_prefix_with_executor now key_prefix after_key limit t, t)) tx"

definition scan_bytes_with_prefix ::
    "string \<Rightarrow> pool_env \<Rightarrow> string \<Rightarrow> string option \<Rightarrow> nat \<Rightarrow> kv_table \<Rightarrow> 'c kv_error + (string \<times> bytes) list" where
  "scan_bytes_with_prefix protocol env key_prefix after_key limit t =
     kv_pool_read ''kv.scan_bytes_with_prefix'' env
       (scan_bytes_with_prefix_in_current_transaction protocol (env_reply env) (env_now env) key_prefix after_key limit) t"

definition scan_keys_with_prefix_in_current_transaction ::
    "string \<Rightarrow> admission_reply \<Rightarrow> micros \<Rightarrow> string \<Rightarrow> string option \<Rightarrow> nat \<Rightarrow> kv_table tx
     \<Rightarrow> ('c kv_error + string list) \<times> kv_table tx" where
  "scan_keys_with_prefix_in_current_transaction protocol reply now key_prefix after_key limit tx =
     admitted protocol reply KvDatabase
       (\<lambda>t. (scan_keys_with_prefix_with_executor now key_prefix after_key limit t, t)) tx"

definition scan_keys_with_prefix ::
    "string \<Rightarrow> pool_env \<Rightarrow> string \<Rightarrow> string option \<Rightarrow> nat \<Rightarrow> kv_table \<Rightarrow> 'c kv_error + string list" where
  "scan_keys_with_prefix protocol env key_prefix after_key limit t =
     kv_pool_read ''kv.scan_keys_with_prefix'' env
       (scan_keys_with_prefix_in_current_transaction protocol (env_reply env) (env_now env) key_prefix after_key limit) t"

definition delete_keys_with_prefix_once_in_current_transaction ::
    "string \<Rightarrow> admission_reply \<Rightarrow> micros \<Rightarrow> string set \<Rightarrow> string \<Rightarrow> nat \<Rightarrow> kv_table tx
     \<Rightarrow> ('c kv_error + nat) \<times> kv_table tx" where
  "delete_keys_with_prefix_once_in_current_transaction protocol reply now locked key_prefix batch_size tx =
     admitted protocol reply KvDatabase
       (delete_keys_with_prefix_once_with_executor locked key_prefix batch_size) tx"

definition delete_keys_with_prefix_once ::
    "string \<Rightarrow> pool_env \<Rightarrow> string set \<Rightarrow> string \<Rightarrow> nat \<Rightarrow> kv_table \<Rightarrow> ('c kv_error + nat) \<times> kv_table" where
  "delete_keys_with_prefix_once protocol env locked key_prefix batch_size t =
     kv_pool_write ''kv.delete_keys_with_prefix_once'' env
       (delete_keys_with_prefix_once_in_current_transaction protocol (env_reply env) (env_now env) locked key_prefix batch_size) t"

text \<open>The two statements of a slot acquisition run at \<open>now\<close> and \<open>now'\<close>.\<close>

definition acquire_prepared_slot_bytes_in_current_transaction ::
    "string \<Rightarrow> admission_reply \<Rightarrow> micros \<Rightarrow> micros \<Rightarrow> string set \<Rightarrow> (string list \<Rightarrow> string) \<Rightarrow> string list
     \<Rightarrow> bytes \<Rightarrow> int \<Rightarrow> kv_table tx \<Rightarrow> ('c kv_error + string option) \<times> kv_table tx" where
  "acquire_prepared_slot_bytes_in_current_transaction protocol reply now now' locked pick_row keys v us tx =
     admitted protocol reply KvDatabase
       (acquire_prepared_slot_bytes locked pick_row now now' keys v us) tx"

definition acquire_slot_bytes_in_current_transaction ::
    "string \<Rightarrow> admission_reply \<Rightarrow> micros \<Rightarrow> micros \<Rightarrow> string set \<Rightarrow> (string list \<Rightarrow> string) \<Rightarrow> string list
     \<Rightarrow> bytes \<Rightarrow> ttl \<Rightarrow> kv_table tx \<Rightarrow> ('c kv_error + string option) \<times> kv_table tx" where
  "acquire_slot_bytes_in_current_transaction protocol reply now now' locked pick_row candidate_keys v ttl tx =
     (case prepare_unique_keys_for_slot_acquisition candidate_keys of
        Inl e \<Rightarrow> (Inl e, tx)
      | Inr keys \<Rightarrow>
          (case positive_expiring_ttl_microseconds ttl of
             Inl e \<Rightarrow> (Inl e, tx)
           | Inr us \<Rightarrow>
               if keys = [] then (Inr None, tx)
               else acquire_prepared_slot_bytes_in_current_transaction protocol reply now now'
                      locked pick_row keys v us tx))"

definition acquire_slot_bytes ::
    "string \<Rightarrow> pool_env \<Rightarrow> micros \<Rightarrow> string set \<Rightarrow> (string list \<Rightarrow> string) \<Rightarrow> string list
     \<Rightarrow> bytes \<Rightarrow> ttl \<Rightarrow> kv_table \<Rightarrow> ('c kv_error + string option) \<times> kv_table" where
  "acquire_slot_bytes protocol env now' locked pick_row candidate_keys v ttl t =
     (case prepare_unique_keys_for_slot_acquisition candidate_keys of
        Inl e \<Rightarrow> (Inl e, t)
      | Inr keys \<Rightarrow>
          (case positive_expiring_ttl_microseconds ttl of
             Inl e \<Rightarrow> (Inl e, t)
           | Inr us \<Rightarrow>
               if keys = [] then (Inr None, t)
               else kv_pool_write ''kv.acquire_slot'' env
                 (acquire_prepared_slot_bytes_in_current_transaction protocol (env_reply env)
                    (env_now env) now' locked pick_row keys v us) t))"

text \<open>Deletion of a whole namespace waits for locked rows instead of skipping them.\<close>

definition delete_namespace_keys_with_prefix_once_in_current_transaction ::
    "string \<Rightarrow> admission_reply \<Rightarrow> string \<Rightarrow> nat \<Rightarrow> kv_table tx
     \<Rightarrow> ('c kv_error + nat) \<times> kv_table tx" where
  "delete_namespace_keys_with_prefix_once_in_current_transaction protocol reply key_prefix batch_size tx =
     (case kv_validate_delete_batch_size batch_size of
        Inl e \<Rightarrow> (Inl e, tx)
      | Inr _ \<Rightarrow> admitted protocol reply KvDatabase
          (\<lambda>t. let (n, t') = delete_keys_with_prefix_once_statement {} (prefix_like_pattern key_prefix)
                  batch_size t in (Inr n, t')) tx)"

text \<open>
  The loop over batches. One element of the list is what one iteration meets: the answers of
  the server and the rows that others hold locked. \<open>None\<close> is a loop still running when the
  list ends.
\<close>

fun delete_expired_loop ::
    "string \<Rightarrow> nat \<Rightarrow> (pool_env \<times> string set) list \<Rightarrow> nat \<Rightarrow> kv_table
     \<Rightarrow> (('c kv_error + nat) \<times> kv_table) option" where
  "delete_expired_loop protocol batch_size [] total_deleted t = None"
| "delete_expired_loop protocol batch_size ((env, locked) # rest) total_deleted t =
     (case delete_expired_keys_once protocol env locked batch_size t of
        (Inl e, t') \<Rightarrow> Some (Inl e, t')
      | (Inr deleted, t') \<Rightarrow>
          if deleted < batch_size then Some (Inr (total_deleted + deleted), t')
          else delete_expired_loop protocol batch_size rest (total_deleted + deleted) t')"

definition delete_expired_keys_until_empty ::
    "string \<Rightarrow> (pool_env \<times> string set) list \<Rightarrow> nat \<Rightarrow> kv_table
     \<Rightarrow> (('c kv_error + nat) \<times> kv_table) option" where
  "delete_expired_keys_until_empty protocol envs batch_size t =
     (case kv_validate_delete_batch_size batch_size of
        Inl e \<Rightarrow> Some (Inl e, t)
      | Inr _ \<Rightarrow> delete_expired_loop protocol batch_size envs 0 t)"

section \<open>Operations that were not admitted\<close>

definition supported_reply :: admission_reply where
  "supported_reply = Inr [(supported_row, ''read committed'')]"

lemma fresh_unadmitted:
  "reply \<noteq> supported_reply \<Longrightarrow>
     \<exists>e. admitted protocol reply build body (begin_transaction t) = (Inl e, begin_transaction t)"
proof -
  assume "reply \<noteq> supported_reply"
  then have "fst (admit protocol reply (begin_transaction t)) \<noteq> Inr ()"
    by (simp add: admit_Ok_iff supported_reply_def begin_transaction_def)
  then obtain e where "fst (admit protocol reply (begin_transaction t)) = Inl e"
    by (cases "fst (admit protocol reply (begin_transaction t))") auto
  then show ?thesis by (simp add: admitted_error)
qed

lemma kv_pool_write_unadmitted:
  assumes "env_reply env \<noteq> supported_reply"
    and "\<And>tx. body tx = admitted protocol (env_reply env) KvDatabase work tx"
  shows "kv_pool_write operation env body t = (r, t') \<Longrightarrow> \<not> is_ok r \<and> t' = t"
proof -
  obtain e where e: "body (begin_transaction t) = (Inl e, begin_transaction t)"
    using fresh_unadmitted [OF assms(1), where protocol = protocol and build = KvDatabase and body = work]
    by (auto simp: assms(2))
  assume "kv_pool_write operation env body t = (r, t')"
  then show ?thesis
    by (auto simp: kv_pool_write_def pool_write_def e finish_write_transaction_def
        split: option.splits rollback_outcome.splits)
qed

text \<open>The writes of the store as calls on a pool, with the result reduced to success.\<close>

datatype store_call =
    CallSet string bytes ttl
  | CallSetTimestamp string bytes ttl
  | CallSetIfNotExists string bytes ttl
  | CallSetIfNotExistsTimestamp string bytes ttl
  | CallSetMulti "(string \<times> bytes) list" ttl
  | CallTouch string
  | CallSetTtl string ttl
  | CallExpire string
  | CallDelete string
  | CallDeleteExpired "string set" nat
  | CallDeletePrefix "string set" string nat
  | CallAcquireSlot micros "string set" "string list \<Rightarrow> string" "string list" bytes ttl

definition succeeded :: "(unit kv_error + 'a) \<times> kv_table \<Rightarrow> bool \<times> kv_table" where
  "succeeded r = (is_ok (fst r), snd r)"

fun call_store :: "string \<Rightarrow> pool_env \<Rightarrow> store_call \<Rightarrow> kv_table \<Rightarrow> bool \<times> kv_table" where
  "call_store p env (CallSet key v ttl) t = succeeded (set_bytes p env key v ttl t)"
| "call_store p env (CallSetTimestamp key v ttl) t =
     succeeded (set_bytes_and_return_database_timestamp p env key v ttl t)"
| "call_store p env (CallSetIfNotExists key v ttl) t = succeeded (set_bytes_if_not_exists p env key v ttl t)"
| "call_store p env (CallSetIfNotExistsTimestamp key v ttl) t =
     succeeded (set_bytes_if_not_exists_and_return_database_timestamp p env key v ttl t)"
| "call_store p env (CallSetMulti entries ttl) t = succeeded (set_bytes_multi p env entries ttl t)"
| "call_store p env (CallTouch key) t = succeeded (touch_key p env key t)"
| "call_store p env (CallSetTtl key ttl) t = succeeded (set_key_ttl p env key ttl t)"
| "call_store p env (CallExpire key) t = succeeded (expire_key p env key t)"
| "call_store p env (CallDelete key) t = succeeded (delete_key p env key t)"
| "call_store p env (CallDeleteExpired locked n) t = succeeded (delete_expired_keys_once p env locked n t)"
| "call_store p env (CallDeletePrefix locked q n) t =
     succeeded (delete_keys_with_prefix_once p env locked q n t)"
| "call_store p env (CallAcquireSlot now' locked pick_row keys v ttl) t =
     succeeded (acquire_slot_bytes p env now' locked pick_row keys v ttl t)"

fun empty_batch :: "store_call \<Rightarrow> bool" where
  "empty_batch (CallSetMulti entries _) = (entries = [])"
| "empty_batch (CallAcquireSlot _ _ _ keys _ _) = (keys = [])"
| "empty_batch _ = False"

lemma kv_call_unadmitted:
  assumes "env_reply env \<noteq> supported_reply"
    and "\<And>tx. body tx = admitted protocol (env_reply env) KvDatabase work tx"
  shows "succeeded (kv_pool_write operation env body t) = (False, t)"
  using kv_pool_write_unadmitted [where body = body, OF assms prod.collapse [symmetric]]
  by (simp add: succeeded_def)

lemma set_bytes_multi_unadmitted:
  assumes "env_reply env \<noteq> supported_reply" and "entries \<noteq> []"
  shows "succeeded (set_bytes_multi p env entries ttl t) = (False, t)"
  unfolding set_bytes_multi_def
  by (rule kv_call_unadmitted [OF assms(1)])
    (simp only: set_bytes_multi_in_current_transaction_def assms(2) not_False_eq_True if_True)

lemma acquire_slot_unadmitted:
  assumes "env_reply env \<noteq> supported_reply" and "keys \<noteq> []"
  shows "succeeded (acquire_slot_bytes p env now' locked pick_row keys v ttl t) = (False, t)"
proof (cases "prepare_unique_keys_for_slot_acquisition keys :: unit kv_error + _")
  case (Inr ks)
  then have ks: "ks \<noteq> []" using assms(2)
    by (auto simp: prepare_unique_keys_for_slot_acquisition_def result_bind_eq_Inr_iff split: if_splits)
  show ?thesis
  proof (cases "positive_expiring_ttl_microseconds ttl :: unit kv_error + int")
    case (Inr us)
    have "acquire_slot_bytes p env now' locked pick_row keys v ttl t =
        (kv_pool_write ''kv.acquire_slot'' env
          (acquire_prepared_slot_bytes_in_current_transaction p (env_reply env) (env_now env) now'
            locked pick_row ks v us) t :: (unit kv_error + _) \<times> _)"
      using ks Inr \<open>prepare_unique_keys_for_slot_acquisition keys = Inr ks\<close>
      by (simp add: acquire_slot_bytes_def)
    then show ?thesis
      by (simp only:) (rule kv_call_unadmitted [OF assms(1)
            acquire_prepared_slot_bytes_in_current_transaction_def])
  qed (simp add: succeeded_def acquire_slot_bytes_def Inr)
qed (simp add: succeeded_def acquire_slot_bytes_def)

text \<open>A writing call of the store whose admission statement did not find exactly the supported
  record in a READ COMMITTED transaction reports failure and leaves the table as it was, whatever
  the commit and rollback do; only a batch of no keys is exempt.\<close>

theorem unadmitted_calls_change_nothing:
  assumes "env_reply env \<noteq> supported_reply" and "\<not> empty_batch call"
  shows "call_store p env call t = (False, t)"
proof (cases call)
  case (CallSetMulti entries ttl)
  then show ?thesis using assms by (simp add: set_bytes_multi_unadmitted)
next
  case (CallAcquireSlot now' locked pick_row keys v ttl)
  then show ?thesis using assms by (simp add: acquire_slot_unadmitted)
qed (simp_all only: call_store.simps set_bytes_def set_bytes_and_return_database_timestamp_def
    set_bytes_if_not_exists_def set_bytes_if_not_exists_and_return_database_timestamp_def
    touch_key_def set_key_ttl_def expire_key_def delete_key_def delete_expired_keys_once_def
    delete_keys_with_prefix_once_def,
  (rule kv_call_unadmitted [OF assms(1)], (rule set_bytes_in_current_transaction_def
    set_bytes_and_return_database_timestamp_in_current_transaction_def
    set_bytes_if_not_exists_in_current_transaction_def
    set_bytes_if_not_exists_and_return_database_timestamp_in_current_transaction_def
    touch_key_in_current_transaction_def set_key_ttl_in_current_transaction_def
    expire_key_in_current_transaction_def delete_key_in_current_transaction_def
    delete_expired_keys_once_in_current_transaction_def
    delete_keys_with_prefix_once_in_current_transaction_def))+)

theorem unadmitted_calls_change_nothing_witness:
  "call_store ''protocol'' \<lparr>env_begin = None, env_reply = Inr [((1, 2, ''x''), ''read committed'')],
     env_now = 5, env_commit = Committed, env_rollback = RolledBack\<rparr> (CallDelete ''k'')
     [''k'' \<mapsto> \<lparr>kv_value = [1], kv_expires_at = None, kv_updated_at = 0\<rparr>]
   = (False, [''k'' \<mapsto> \<lparr>kv_value = [1], kv_expires_at = None, kv_updated_at = 0\<rparr>])"
  by (rule unadmitted_calls_change_nothing)
    (simp_all add: supported_reply_def supported_row_def SUPPORTED_EPOCH_def)

section \<open>Deleting expired keys\<close>

definition expired_unlocked :: "string set \<Rightarrow> micros \<Rightarrow> kv_table \<Rightarrow> string set" where
  "expired_unlocked locked now t = {k \<in> dom t. expired now (the (t k)) \<and> k \<notin> locked}"

lemma delete_expired_once_spec:
  assumes "finite (dom t)"
  obtains B where "delete_expired_keys_once_statement locked now n t = (card B, t |` (- B))"
    and "B \<subseteq> expired_unlocked locked now t" and "finite B"
    and "card B = min n (card (expired_unlocked locked now t))"
proof -
  let ?E = "expired_unlocked locked now t"
  let ?f = "\<lambda>k. (the (kv_expires_at (the (t k))), k)"
  let ?l = "take n (sorted_list_of_set (?f ` ?E))"
  let ?B = "set (map snd ?l)"
  have fin: "finite ?E" using assms by (simp add: expired_unlocked_def)
  have sub: "set ?l \<subseteq> ?f ` ?E" using fin by (auto dest: in_set_takeD)
  have "inj_on snd (?f ` ?E)" by (auto simp: inj_on_def)
  then have "inj_on snd (set ?l)" using sub by (rule inj_on_subset)
  then have "distinct (map snd ?l)" by (simp add: distinct_map)
  then have card: "card ?B = length (map snd ?l)" by (rule distinct_card)
  moreover have "card (?f ` ?E) = card ?E" by (rule card_image) (simp add: inj_on_def)
  ultimately have min: "card ?B = min n (card ?E)" by (simp add: min.commute)
  have "delete_expired_keys_once_statement locked now n t = (card ?B, t |` (- ?B))"
    by (simp only: delete_expired_keys_once_statement_def delete_keys_def Let_def
        card [unfolded expired_unlocked_def] expired_unlocked_def)
  then show ?thesis
    by (rule that) (use sub min in auto)
qed


text \<open>A server that answers every statement of the call.\<close>

definition healthy :: "pool_env \<Rightarrow> bool" where
  "healthy env \<longleftrightarrow> env_begin env = None \<and> env_reply env = supported_reply \<and> env_commit env = Committed"

lemma fresh_admitted:
  "fst (admitted protocol supported_reply build body (begin_transaction t)) = fst (body t)"
  "tables (snd (admitted protocol supported_reply build body (begin_transaction t))) = snd (body t)"
proof -
  have "fst (admit protocol supported_reply (begin_transaction t)) = Inr ()"
    by (simp add: admit_Ok_iff supported_reply_def)
  from admitted_ok [OF this, of build body]
  show "fst (admitted protocol supported_reply build body (begin_transaction t)) = fst (body t)"
    "tables (snd (admitted protocol supported_reply build body (begin_transaction t))) = snd (body t)"
    by (simp_all add: begin_transaction_def)
qed

lemma kv_pool_write_healthy:
  assumes "healthy env" and "\<And>tx. body tx = admitted protocol (env_reply env) KvDatabase work tx"
    and "work t = (Inr v, t')"
  shows "kv_pool_write operation env body t = (Inr v, t')"
proof -
  have "body = admitted protocol supported_reply KvDatabase work"
    using assms(1,2) by (auto simp: healthy_def)
  then show ?thesis
    using assms(1,3) fresh_admitted [of protocol KvDatabase work t]
    by (simp add: kv_pool_write_def pool_write_def healthy_def finish_write_transaction_def split_def
        split: sum.splits)
qed

lemma delete_expired_pool_spec:
  assumes "finite (dom t)" and "healthy env" and "0 < n" and "n \<le> MAX_KV_DELETE_BATCH_SIZE"
  obtains B where "delete_expired_keys_once protocol env locked n t = (Inr (card B) :: 'c kv_error + _, t |` (- B))"
    and "B \<subseteq> expired_unlocked locked (env_now env) t" and "finite B"
    and "card B = min n (card (expired_unlocked locked (env_now env) t))"
proof -
  obtain B where B: "delete_expired_keys_once_statement locked (env_now env) n t = (card B, t |` (- B))"
    and rest: "B \<subseteq> expired_unlocked locked (env_now env) t" "finite B"
      "card B = min n (card (expired_unlocked locked (env_now env) t))"
    by (rule delete_expired_once_spec [OF assms(1)])
  have "delete_expired_keys_once_with_executor locked (env_now env) n t
      = (Inr (card B) :: 'c kv_error + _, t |` (- B))"
    using assms(3,4) by (simp add: delete_expired_keys_once_with_executor_def
      kv_validate_delete_batch_size_def B)
  then have "delete_expired_keys_once protocol env locked n t = (Inr (card B) :: 'c kv_error + _, t |` (- B))"
    unfolding delete_expired_keys_once_def
    by (rule kv_pool_write_healthy [OF assms(2) delete_expired_keys_once_in_current_transaction_def])
  then show ?thesis using rest by (rule that)
qed

lemma expired_mono: "n \<le> m \<Longrightarrow> expired n r \<Longrightarrow> expired m r"
  by (auto simp: expired_def split: option.splits)

lemma delete_expired_loop_returns:
  assumes "finite (dom t)" and "0 < n" and "n \<le> MAX_KV_DELETE_BATCH_SIZE"
    and "\<forall>(env, locked) \<in> set envs. healthy env \<and> lo \<le> env_now env \<and> env_now env \<le> hi \<and> locked \<subseteq> L"
    and "card (dom t) < length envs"
  shows "\<exists>D. delete_expired_loop protocol n envs counted t
      = Some (Inr (counted + card D) :: 'c kv_error + _, t |` (- D))
    \<and> expired_unlocked L lo t \<subseteq> D \<and> D \<subseteq> expired_unlocked {} hi t"
  using assms(1,4,5)
proof (induction envs arbitrary: t counted)
  case (Cons e envs)
  obtain env locked where e: "e = (env, locked)" by (cases e)
  have env: "healthy env" "lo \<le> env_now env" "env_now env \<le> hi" "locked \<subseteq> L"
    using Cons.prems(2) e by auto
  obtain B where B: "delete_expired_keys_once protocol env locked n t = (Inr (card B) :: 'c kv_error + _, t |` (- B))"
    "B \<subseteq> expired_unlocked locked (env_now env) t" "finite B"
    "card B = min n (card (expired_unlocked locked (env_now env) t))"
    by (rule delete_expired_pool_spec [OF Cons.prems(1) env(1) assms(2,3)])
  have hi: "B \<subseteq> expired_unlocked {} hi t"
    using B(2) expired_mono [OF env(3)] by (auto simp: expired_unlocked_def)
  have fin: "finite (expired_unlocked locked (env_now env) t)"
    using Cons.prems(1) by (simp add: expired_unlocked_def)
  show ?case
  proof (cases "card B < n")
    case True
    then have "B = expired_unlocked locked (env_now env) t"
      using B(2,4) card_subset_eq [OF fin] by simp
    moreover have "expired_unlocked L lo t \<subseteq> expired_unlocked locked (env_now env) t"
      using expired_mono [OF env(2)] env(4) by (auto simp: expired_unlocked_def)
    ultimately show ?thesis
      using True hi B(1) by (intro exI [of _ B]) (simp add: e)
  next
    case False
    let ?t = "t |` (- B)"
    have domB: "B \<subseteq> dom t" using B(2) by (auto simp: expired_unlocked_def)
    have dom: "dom ?t = dom t - B" by auto
    have "B \<noteq> {}" using False assms(2) by auto
    then have "dom t - B \<subset> dom t" using domB by blast
    then have "card (dom ?t) < card (dom t)"
      unfolding dom by (rule psubset_card_mono [OF Cons.prems(1)])
    then obtain D where D: "delete_expired_loop protocol n envs (counted + card B) ?t
        = Some (Inr (counted + card B + card D) :: 'c kv_error + _, ?t |` (- D))"
      "expired_unlocked L lo ?t \<subseteq> D" "D \<subseteq> expired_unlocked {} hi ?t"
      using Cons.IH [of ?t "counted + card B"] Cons.prems dom by auto
    have DB: "D \<inter> B = {}" "D \<subseteq> expired_unlocked {} hi t"
      using D(3) by (auto simp: expired_unlocked_def restrict_map_def split: if_splits)
    have "D \<subseteq> dom t" using DB(2) by (auto simp: expired_unlocked_def)
    then have "finite D" using Cons.prems(1) by (rule finite_subset)
    then have "card (B \<union> D) = card B + card D"
      using B(3) DB(1) by (intro card_Un_disjoint) auto
    moreover have "?t |` (- D) = t |` (- (B \<union> D))" by (simp add: Int_commute)
    moreover have "expired_unlocked L lo t \<subseteq> B \<union> D"
    proof
      fix k
      assume "k \<in> expired_unlocked L lo t"
      then have "k \<in> expired_unlocked L lo ?t" if "k \<notin> B"
        using that dom by (auto simp: expired_unlocked_def)
      then show "k \<in> B \<union> D" using D(2) by auto
    qed
    ultimately show ?thesis
      using False B(1) D(1) DB(2) hi by (intro exI [of _ "B \<union> D"]) (simp add: e add.assoc)
  qed
qed simp

text \<open>C37: Deleting expired keys until a batch comes back short ends after at most one batch more than
  there are rows, when the server answers. It removes every key that was expired when it started
  and never locked, removes only keys that were expired by its end, keeps every other row, and
  returns the number of rows removed.\<close>

theorem delete_expired_until_empty_returns:
  assumes "finite (dom t)" and "0 < n" and "n \<le> MAX_KV_DELETE_BATCH_SIZE"
    and "\<forall>(env, locked) \<in> set envs. healthy env \<and> lo \<le> env_now env \<and> env_now env \<le> hi \<and> locked \<subseteq> L"
    and "card (dom t) < length envs"
  shows "\<exists>D. delete_expired_keys_until_empty protocol envs n t
      = Some (Inr (card D) :: 'c kv_error + _, t |` (- D))
    \<and> {k \<in> dom t. expired lo (the (t k)) \<and> k \<notin> L} \<subseteq> D \<and> D \<subseteq> {k \<in> dom t. expired hi (the (t k))}"
proof -
  have "kv_validate_delete_batch_size n = (Inr () :: 'c kv_error + _)"
    using assms(2,3) by (simp add: kv_validate_delete_batch_size_def)
  then show ?thesis
    using delete_expired_loop_returns [OF assms, of protocol 0, where ?'c = 'c]
    by (simp add: delete_expired_keys_until_empty_def expired_unlocked_def)
qed

theorem delete_expired_until_empty_returns_witness:
  "\<exists>D. delete_expired_keys_until_empty ''p'' (replicate 2 (\<lparr>env_begin = None, env_reply = supported_reply,
        env_now = 5, env_commit = Committed, env_rollback = RolledBack\<rparr>, {})) 1
      [''k'' \<mapsto> \<lparr>kv_value = [1], kv_expires_at = Some 5, kv_updated_at = 0\<rparr>]
    = Some (Inr (card D) :: unit kv_error + _,
        [''k'' \<mapsto> \<lparr>kv_value = [1], kv_expires_at = Some 5, kv_updated_at = 0\<rparr>] |` (- D))
    \<and> ''k'' \<in> D"
proof -
  let ?t = "[''k'' \<mapsto> \<lparr>kv_value = [1], kv_expires_at = Some 5, kv_updated_at = 0\<rparr>] :: kv_table"
  let ?envs = "replicate 2 (\<lparr>env_begin = None, env_reply = supported_reply,
        env_now = 5, env_commit = Committed, env_rollback = RolledBack\<rparr>, {} :: string set)"
  have "\<exists>D. delete_expired_keys_until_empty ''p'' ?envs 1 ?t = Some (Inr (card D) :: unit kv_error + _, ?t |` (- D))
    \<and> {k \<in> dom ?t. expired 5 (the (?t k)) \<and> k \<notin> {}} \<subseteq> D \<and> D \<subseteq> {k \<in> dom ?t. expired 5 (the (?t k))}"
    by (rule delete_expired_until_empty_returns) (simp_all add: healthy_def MAX_KV_DELETE_BATCH_SIZE_def)
  then obtain D where "delete_expired_keys_until_empty ''p'' ?envs 1 ?t
      = Some (Inr (card D) :: unit kv_error + _, ?t |` (- D))"
    and D: "{k \<in> dom ?t. expired 5 (the (?t k)) \<and> k \<notin> {}} \<subseteq> D" by blast
  moreover have "''k'' \<in> D" using D by (auto simp: expired_def)
  ultimately show ?thesis by blast
qed

end
