(* ===== verification/KvAtomic.thy ===== *)
theory KvAtomic
  imports KvStore
begin

text \<open>
  \<open>src/src/db/kv/store_execution_atomic.rs\<close> and \<open>store_atomic_api.rs\<close>: atomic mutation of one
  key. The key's row is locked, or an expired placeholder row is inserted and thereby locked;
  the caller's callback sees the live value and decides a mutation, which is applied in the
  same transaction.

  A callback is a function from the current state to an error or a mutation. Where the code's
  closure also captures variables, the function returns them beside the mutation. The error
  type \<open>'e\<close> is the caller's; \<open>into_error\<close> is its \<open>From<Error>\<close>.
\<close>

section \<open>Types\<close>

datatype atomic_mutation =
    KeepExisting
  | SetBytes bytes ttl
  | SetBytesPreservingExpiration bytes
  | Delete

datatype atomic_mutation_outcome =
    KeptLiveValue
  | KeptAbsent
  | DidSetBytes
  | DidSetBytesPreservingExpiration
  | DeletedLiveValue
  | DeletedAbsent

record locked_kv_row =
  locked_value :: bytes
  locked_is_live :: bool
  locked_timestamp :: micros

record atomic_current =
  current_live_value :: "bytes option"
  current_timestamp :: micros

record atomic_live_current =
  live_current_value :: bytes
  live_current_timestamp :: micros

record atomic_result =
  result_previous_live_value :: "bytes option"
  result_outcome :: atomic_mutation_outcome

record atomic_live_result =
  live_result_previous_live_value :: bytes
  live_result_outcome :: atomic_mutation_outcome

record atomic_live_or_init_result =
  init_result_initialized :: bool
  init_result_live_value_seen :: bytes
  init_result_outcome :: atomic_mutation_outcome

section \<open>Statements\<close>

text \<open>
  The lock statement. \<open>visible\<close> says whether its snapshot sees the current row: a row that
  another transaction inserts after the snapshot is not seen by \<open>FOR UPDATE\<close>, and
  \<open>ON CONFLICT DO NOTHING\<close> then returns no row.
\<close>

definition lock_key_statement ::
    "bool \<Rightarrow> micros \<Rightarrow> string \<Rightarrow> kv_table \<Rightarrow> (bool \<times> locked_kv_row) option \<times> kv_table" where
  "lock_key_statement visible now key t =
     (case t key of
        Some r \<Rightarrow>
          if visible then
            (Some (False, \<lparr>locked_value = kv_value r, locked_is_live = not_expired now r,
                           locked_timestamp = now\<rparr>), t)
          else (None, t)
      | None \<Rightarrow>
          (Some (True, \<lparr>locked_value = [], locked_is_live = False, locked_timestamp = now\<rparr>),
           t(key \<mapsto> \<lparr>kv_value = [], kv_expires_at = Some now, kv_updated_at = now\<rparr>)))"

definition update_value_and_ttl_statement ::
    "micros \<Rightarrow> string \<Rightarrow> bytes \<Rightarrow> int option \<Rightarrow> kv_table \<Rightarrow> (sqlx_error + nat) \<times> kv_table" where
  "update_value_and_ttl_statement now key v us t =
     (case t key of
        None \<Rightarrow> (Inr 0, t)
      | Some r \<Rightarrow>
          (case expires_at_expression now us of
             Inl e \<Rightarrow> (Inl e, t)
           | Inr x \<Rightarrow> (Inr 1, t(key \<mapsto> \<lparr>kv_value = v, kv_expires_at = x, kv_updated_at = now\<rparr>))))"

definition update_value_preserving_expiration_statement ::
    "micros \<Rightarrow> string \<Rightarrow> bytes \<Rightarrow> kv_table \<Rightarrow> nat \<times> kv_table" where
  "update_value_preserving_expiration_statement now key v t =
     (case t key of
        None \<Rightarrow> (0, t)
      | Some r \<Rightarrow> (1, t(key \<mapsto> r\<lparr>kv_value := v, kv_updated_at := now\<rparr>)))"

definition delete_key_for_atomic_mutation_statement :: "string \<Rightarrow> kv_table \<Rightarrow> kv_table" where
  "delete_key_for_atomic_mutation_statement key t = t(key := None)"

section \<open>Lock, apply\<close>

text \<open>
  What one run meets: the protocol's identity, the reply to an admission that is not cached,
  whether each of the eight lock attempts sees the row and at which time, and the time of the
  statement that applies the mutation.
\<close>

record atomic_env =
  atomic_protocol :: string
  atomic_reply :: admission_reply
  lock_attempts :: "nat \<Rightarrow> bool \<times> micros"
  apply_now :: micros

fun try_lock :: "atomic_env \<Rightarrow> string \<Rightarrow> nat \<Rightarrow> nat \<Rightarrow> kv_table
    \<Rightarrow> ('c kv_error + (bool \<times> locked_kv_row option)) \<times> kv_table" where
  "try_lock env key attempt 0 t = (Inl KvAtomicMutationCouldNotLockKey, t)"
| "try_lock env key attempt (Suc n) t =
     (case lock_key_statement (fst (lock_attempts env attempt)) (snd (lock_attempts env attempt)) key t of
        (Some (inserted, row), t') \<Rightarrow> (Inr (inserted, Some row), t')
      | (None, t') \<Rightarrow> try_lock env key (Suc attempt) n t')"

definition lock_key_for_atomic_mutation ::
    "atomic_env \<Rightarrow> string \<Rightarrow> kv_table tx
     \<Rightarrow> ('c kv_error + (bool \<times> locked_kv_row option)) \<times> kv_table tx" where
  "lock_key_for_atomic_mutation env key tx =
     admitted (atomic_protocol env) (atomic_reply env) KvDatabase (try_lock env key 0 8) tx"

definition delete_key_for_atomic_mutation ::
    "atomic_env \<Rightarrow> string \<Rightarrow> kv_table tx \<Rightarrow> ('c kv_error + unit) \<times> kv_table tx" where
  "delete_key_for_atomic_mutation env key tx =
     admitted (atomic_protocol env) (atomic_reply env) KvDatabase
       (\<lambda>t. (Inr (), delete_key_for_atomic_mutation_statement key t)) tx"

definition update_key_value_and_ttl_for_atomic_mutation ::
    "atomic_env \<Rightarrow> string \<Rightarrow> bytes \<Rightarrow> ttl \<Rightarrow> kv_table tx \<Rightarrow> ('c kv_error + unit) \<times> kv_table tx" where
  "update_key_value_and_ttl_for_atomic_mutation env key v ttl tx =
     admitted (atomic_protocol env) (atomic_reply env) KvDatabase
       (\<lambda>t. case ttl_positive_microseconds ttl of
          Inl e \<Rightarrow> (Inl e, t)
        | Inr us \<Rightarrow> (case update_value_and_ttl_statement (apply_now env) key v us t of
              (Inl e, t') \<Rightarrow> (Inl (kv_query_error e), t')
            | (Inr n, t') \<Rightarrow> (kv_require_rows_affected n, t'))) tx"

definition update_key_value_preserving_expiration_for_atomic_mutation ::
    "atomic_env \<Rightarrow> string \<Rightarrow> bytes \<Rightarrow> kv_table tx \<Rightarrow> ('c kv_error + unit) \<times> kv_table tx" where
  "update_key_value_preserving_expiration_for_atomic_mutation env key v tx =
     admitted (atomic_protocol env) (atomic_reply env) KvDatabase
       (\<lambda>t. let (n, t') = update_value_preserving_expiration_statement (apply_now env) key v t
            in (kv_require_rows_affected n, t')) tx"

text \<open>\<open>do_then r k\<close> is the \<open>?\<close> operator on a result with a transaction.\<close>

definition do_then :: "('e + 'a) \<times> 's \<Rightarrow> ('a \<Rightarrow> 's \<Rightarrow> ('e + 'b) \<times> 's) \<Rightarrow> ('e + 'b) \<times> 's" where
  "do_then r k = (case r of (Inl e, s) \<Rightarrow> (Inl e, s) | (Inr x, s) \<Rightarrow> k x s)"

fun apply_atomic_mutation ::
    "atomic_env \<Rightarrow> string \<Rightarrow> atomic_mutation \<Rightarrow> bool \<Rightarrow> bool \<Rightarrow> kv_table tx
     \<Rightarrow> ('c kv_error + atomic_mutation_outcome) \<times> kv_table tx" where
  "apply_atomic_mutation env key KeepExisting had_live inserted tx =
     do_then (if inserted then delete_key_for_atomic_mutation env key tx else (Inr (), tx))
       (\<lambda>_ tx. (Inr (if had_live then KeptLiveValue else KeptAbsent), tx))"
| "apply_atomic_mutation env key (SetBytes v ttl) had_live inserted tx =
     do_then (update_key_value_and_ttl_for_atomic_mutation env key v ttl tx)
       (\<lambda>_ tx. (Inr DidSetBytes, tx))"
| "apply_atomic_mutation env key (SetBytesPreservingExpiration v) had_live inserted tx =
     (if \<not> had_live then
        do_then (if inserted then delete_key_for_atomic_mutation env key tx else (Inr (), tx))
          (\<lambda>_ tx. (Inl KvKeyNotFound, tx))
      else do_then (update_key_value_preserving_expiration_for_atomic_mutation env key v tx)
        (\<lambda>_ tx. (Inr DidSetBytesPreservingExpiration, tx)))"
| "apply_atomic_mutation env key Delete had_live inserted tx =
     do_then (delete_key_for_atomic_mutation env key tx)
       (\<lambda>_ tx. (Inr (if had_live then DeletedLiveValue else DeletedAbsent), tx))"

section \<open>Operations\<close>

definition map_error :: "('e \<Rightarrow> 'f) \<Rightarrow> ('e + 'a) \<times> 's \<Rightarrow> ('f + 'a) \<times> 's" where
  "map_error f r = (map_sum f id (fst r), snd r)"

text \<open>The second component of a callback's result is what its closure captured.\<close>

definition mutate_key_atomically_in_transaction_internal ::
    "('c kv_error \<Rightarrow> 'e) \<Rightarrow> atomic_env \<Rightarrow> string \<Rightarrow> (atomic_current \<Rightarrow> 'e + (atomic_mutation \<times> 'o))
     \<Rightarrow> bool \<Rightarrow> kv_table tx \<Rightarrow> ('e + (atomic_result \<times> 'o)) \<times> kv_table tx"
where
  "mutate_key_atomically_in_transaction_internal into_error env key decide cleanup tx =
     do_then (map_error into_error (lock_key_for_atomic_mutation env key tx)) (\<lambda>(inserted, locked_row) tx.
       case locked_row of
         None \<Rightarrow> (Inl (into_error KvAtomicMutationLockReturnedNoRow), tx)
       | Some row \<Rightarrow>
           let previous = (if locked_is_live row then Some (locked_value row) else None);
               current = \<lparr>current_live_value = previous, current_timestamp = locked_timestamp row\<rparr>
           in case decide current of
                Inl err \<Rightarrow>
                  if inserted \<and> cleanup then
                    do_then (map_error into_error (delete_key_for_atomic_mutation env key tx))
                      (\<lambda>_ tx. (Inl err, tx))
                  else (Inl err, tx)
              | Inr (mutation, captured) \<Rightarrow>
                  do_then (map_error into_error
                      (apply_atomic_mutation env key mutation (previous \<noteq> None) inserted tx))
                    (\<lambda>outcome tx. (Inr (\<lparr>result_previous_live_value = previous,
                        result_outcome = outcome\<rparr>, captured), tx)))"

definition mutate_live_key_atomically_in_transaction_internal ::
    "('c kv_error \<Rightarrow> 'e) \<Rightarrow> atomic_env \<Rightarrow> string \<Rightarrow> (atomic_live_current \<Rightarrow> 'e + atomic_mutation)
     \<Rightarrow> bool \<Rightarrow> kv_table tx \<Rightarrow> ('e + atomic_live_result) \<times> kv_table tx"
where
  "mutate_live_key_atomically_in_transaction_internal into_error env key decide cleanup tx =
     do_then (mutate_key_atomically_in_transaction_internal into_error env key
         (\<lambda>current. case current_live_value current of
            None \<Rightarrow> Inl (into_error KvKeyNotFound)
          | Some v \<Rightarrow> map_sum id (\<lambda>m. (m, ()))
              (decide \<lparr>live_current_value = v, live_current_timestamp = current_timestamp current\<rparr>))
         cleanup tx)
       (\<lambda>(result, _) tx. case result_previous_live_value result of
          None \<Rightarrow> (Inl (into_error KvAtomicMutationCurrentValueWasNotCaptured), tx)
        | Some v \<Rightarrow> (Inr \<lparr>live_result_previous_live_value = v,
                         live_result_outcome = result_outcome result\<rparr>, tx))"

text \<open>
  The closure of the initialising variant: it captures whether it initialised and the live
  value it showed to the caller's callback. It runs at most once, so its initialiser is never
  taken twice.
\<close>

definition decide_or_initialize ::
    "('c kv_error \<Rightarrow> 'e) \<Rightarrow> (micros \<Rightarrow> 'e + (bytes \<times> ttl)) \<Rightarrow> (atomic_live_current \<Rightarrow> 'e + (atomic_mutation \<times> 'o))
     \<Rightarrow> atomic_current \<Rightarrow> 'e + (atomic_mutation \<times> (bool \<times> bytes option \<times> 'o))"
where
  "decide_or_initialize into_error initialize decide current =
     (case current_live_value current of
        Some v \<Rightarrow> map_sum id (\<lambda>(m, c). (m, (False, Some v, c)))
          (decide \<lparr>live_current_value = v, live_current_timestamp = current_timestamp current\<rparr>)
      | None \<Rightarrow>
          (case initialize (current_timestamp current) of
             Inl e \<Rightarrow> Inl e
           | Inr (initial_value, initial_ttl) \<Rightarrow>
               (case ttl_positive_microseconds initial_ttl of
                  Inl e \<Rightarrow> Inl (into_error e)
                | Inr _ \<Rightarrow>
                    (case decide \<lparr>live_current_value = initial_value,
                                   live_current_timestamp = current_timestamp current\<rparr> of
                       Inl e \<Rightarrow> Inl e
                     | Inr (mutation, c) \<Rightarrow> Inr
                         ((case mutation of
                             KeepExisting \<Rightarrow> SetBytes initial_value initial_ttl
                           | SetBytesPreservingExpiration v \<Rightarrow> SetBytes v initial_ttl
                           | m \<Rightarrow> m), (True, Some initial_value, c))))))"

definition mutate_live_key_or_insert_initial_value_atomically_in_transaction_internal ::
    "('c kv_error \<Rightarrow> 'e) \<Rightarrow> atomic_env \<Rightarrow> string \<Rightarrow> (micros \<Rightarrow> 'e + (bytes \<times> ttl))
     \<Rightarrow> (atomic_live_current \<Rightarrow> 'e + (atomic_mutation \<times> 'o)) \<Rightarrow> bool \<Rightarrow> kv_table tx
     \<Rightarrow> ('e + (atomic_live_or_init_result \<times> 'o)) \<times> kv_table tx"
where
  "mutate_live_key_or_insert_initial_value_atomically_in_transaction_internal
     into_error env key initialize decide cleanup tx =
     do_then (mutate_key_atomically_in_transaction_internal into_error env key
         (decide_or_initialize into_error initialize decide) cleanup tx)
       (\<lambda>(raw_result, (initialized, seen, c)) tx. case seen of
          None \<Rightarrow> (Inl (into_error KvAtomicMutationCurrentValueWasNotCaptured), tx)
        | Some v \<Rightarrow> (Inr (\<lparr>init_result_initialized = initialized, init_result_live_value_seen = v,
                         init_result_outcome = result_outcome raw_result\<rparr>, c), tx))"


text \<open>The public variants: inside the caller's transaction, and on a pool.\<close>

definition mutate_key_atomically_in_current_transaction ::
    "('c kv_error \<Rightarrow> 'e) \<Rightarrow> atomic_env \<Rightarrow> string \<Rightarrow> (atomic_current \<Rightarrow> 'e + (atomic_mutation \<times> 'o))
     \<Rightarrow> kv_table tx \<Rightarrow> ('e + (atomic_result \<times> 'o)) \<times> kv_table tx"
where
  "mutate_key_atomically_in_current_transaction into_error env key decide tx =
     mutate_key_atomically_in_transaction_internal into_error env key decide True tx"

definition mutate_live_key_atomically_in_current_transaction ::
    "('c kv_error \<Rightarrow> 'e) \<Rightarrow> atomic_env \<Rightarrow> string \<Rightarrow> (atomic_live_current \<Rightarrow> 'e + atomic_mutation)
     \<Rightarrow> kv_table tx \<Rightarrow> ('e + atomic_live_result) \<times> kv_table tx"
where
  "mutate_live_key_atomically_in_current_transaction into_error env key decide tx =
     mutate_live_key_atomically_in_transaction_internal into_error env key decide True tx"

definition mutate_live_key_or_insert_initial_value_atomically_in_current_transaction ::
    "('c kv_error \<Rightarrow> 'e) \<Rightarrow> atomic_env \<Rightarrow> string \<Rightarrow> (micros \<Rightarrow> 'e + (bytes \<times> ttl))
     \<Rightarrow> (atomic_live_current \<Rightarrow> 'e + (atomic_mutation \<times> 'o)) \<Rightarrow> kv_table tx
     \<Rightarrow> ('e + (atomic_live_or_init_result \<times> 'o)) \<times> kv_table tx"
where
  "mutate_live_key_or_insert_initial_value_atomically_in_current_transaction into_error env key initialize decide tx =
     mutate_live_key_or_insert_initial_value_atomically_in_transaction_internal
       into_error env key initialize decide True tx"

definition kv_callback_pool ::
    "('c kv_error \<Rightarrow> 'e) \<Rightarrow> string \<Rightarrow> pool_env \<Rightarrow> (kv_table tx \<Rightarrow> ('e + 'a) \<times> kv_table tx) \<Rightarrow> kv_table
     \<Rightarrow> ('e + 'a) \<times> kv_table"
where
  "kv_callback_pool into_error operation env body t =
     pool_write operation (\<lambda>e. into_error (KvDatabase e))
       (\<lambda>operation _ rollback_error. into_error (KvRollbackFailedAfterCallerError operation rollback_error))
       env body t"

definition mutate_key_atomically ::
    "('c kv_error \<Rightarrow> 'e) \<Rightarrow> pool_env \<Rightarrow> atomic_env \<Rightarrow> string
     \<Rightarrow> (atomic_current \<Rightarrow> 'e + (atomic_mutation \<times> 'o)) \<Rightarrow> kv_table
     \<Rightarrow> ('e + (atomic_result \<times> 'o)) \<times> kv_table"
where
  "mutate_key_atomically into_error env aenv key decide t =
     kv_callback_pool into_error ''kv.mutate_key_atomically'' env
       (mutate_key_atomically_in_transaction_internal into_error (aenv\<lparr>atomic_reply := env_reply env\<rparr>) key
          decide False) t"

definition mutate_live_key_atomically ::
    "('c kv_error \<Rightarrow> 'e) \<Rightarrow> pool_env \<Rightarrow> atomic_env \<Rightarrow> string
     \<Rightarrow> (atomic_live_current \<Rightarrow> 'e + atomic_mutation) \<Rightarrow> kv_table
     \<Rightarrow> ('e + atomic_live_result) \<times> kv_table"
where
  "mutate_live_key_atomically into_error env aenv key decide t =
     kv_callback_pool into_error ''kv.mutate_live_key_atomically'' env
       (mutate_live_key_atomically_in_transaction_internal into_error (aenv\<lparr>atomic_reply := env_reply env\<rparr>)
          key decide False) t"

definition mutate_live_key_or_insert_initial_value_atomically ::
    "('c kv_error \<Rightarrow> 'e) \<Rightarrow> pool_env \<Rightarrow> atomic_env \<Rightarrow> string \<Rightarrow> (micros \<Rightarrow> 'e + (bytes \<times> ttl))
     \<Rightarrow> (atomic_live_current \<Rightarrow> 'e + (atomic_mutation \<times> 'o)) \<Rightarrow> kv_table
     \<Rightarrow> ('e + (atomic_live_or_init_result \<times> 'o)) \<times> kv_table"
where
  "mutate_live_key_or_insert_initial_value_atomically into_error env aenv key initialize decide t =
     kv_callback_pool into_error ''kv.mutate_live_key_or_insert_initial_value_atomically'' env
       (mutate_live_key_or_insert_initial_value_atomically_in_transaction_internal into_error
          (aenv\<lparr>atomic_reply := env_reply env\<rparr>) key initialize decide False) t"

section \<open>Reference\<close>

text \<open>
  The same operation without locks, placeholders or admission: the callback decides on the
  live value, and its decision is one operation on the map.
\<close>

definition atomic_reference ::
    "('c kv_error \<Rightarrow> 'e) \<Rightarrow> micros option \<Rightarrow> micros \<Rightarrow> string \<Rightarrow> (atomic_current \<Rightarrow> 'e + (atomic_mutation \<times> 'o))
     \<Rightarrow> kv_table \<Rightarrow> ('e + (atomic_result \<times> 'o)) \<times> kv_table"
where
  "atomic_reference into_error lock now key decide t =
     (case lock of
        None \<Rightarrow> (Inl (into_error KvAtomicMutationCouldNotLockKey), t)
      | Some lock_now \<Rightarrow>
          let live = get_bytes_statement lock_now key t;
              return = (\<lambda>outcome c. Inr (\<lparr>result_previous_live_value = live, result_outcome = outcome\<rparr>, c))
          in case decide \<lparr>current_live_value = live, current_timestamp = lock_now\<rparr> of
               Inl e \<Rightarrow> (Inl e, t)
             | Inr (KeepExisting, c) \<Rightarrow> (return (if live = None then KeptAbsent else KeptLiveValue) c, t)
             | Inr (SetBytes v ttl, c) \<Rightarrow>
                 (case set_bytes_with_executor now key v ttl t of
                    (Inl e, t') \<Rightarrow> (Inl (into_error e), t')
                  | (Inr _, t') \<Rightarrow> (return DidSetBytes c, t'))
             | Inr (SetBytesPreservingExpiration v, c) \<Rightarrow>
                 (if live = None then (Inl (into_error KvKeyNotFound), t)
                  else (return DidSetBytesPreservingExpiration c,
                    t(key \<mapsto> (the (t key))\<lparr>kv_value := v, kv_updated_at := now\<rparr>)))
             | Inr (Delete, c) \<Rightarrow>
                 (return (if live = None then DeletedAbsent else DeletedLiveValue) c, t(key := None)))"

text \<open>The time of the first attempt that locks the row, if one of the eight does.\<close>

definition lock_time :: "atomic_env \<Rightarrow> string \<Rightarrow> kv_table \<Rightarrow> micros option" where
  "lock_time env key t =
     map_option (\<lambda>i. snd (lock_attempts env i))
       (List.find (\<lambda>i. t key = None \<or> fst (lock_attempts env i)) [0..<8])"

definition placeholder :: "micros \<Rightarrow> kv_row" where
  "placeholder now = \<lparr>kv_value = [], kv_expires_at = Some now, kv_updated_at = now\<rparr>"

definition with_placeholder :: "micros \<Rightarrow> string \<Rightarrow> kv_table \<Rightarrow> kv_table" where
  "with_placeholder now key t = (if t key = None then t(key \<mapsto> placeholder now) else t)"

definition locked_row_of :: "micros \<Rightarrow> string \<Rightarrow> kv_table \<Rightarrow> locked_kv_row" where
  "locked_row_of now key t =
     (case t key of
        None \<Rightarrow> \<lparr>locked_value = [], locked_is_live = False, locked_timestamp = now\<rparr>
      | Some r \<Rightarrow> \<lparr>locked_value = kv_value r, locked_is_live = not_expired now r, locked_timestamp = now\<rparr>)"

lemma try_lock_spec:
  "try_lock env key a n t =
     (case List.find (\<lambda>i. t key = None \<or> fst (lock_attempts env i)) [a..<a + n] of
        None \<Rightarrow> (Inl KvAtomicMutationCouldNotLockKey, t)
      | Some i \<Rightarrow> (Inr (t key = None, Some (locked_row_of (snd (lock_attempts env i)) key t)),
          with_placeholder (snd (lock_attempts env i)) key t))"
proof (induction n arbitrary: a)
  case (Suc n)
  have "[a..<a + Suc n] = a # [Suc a..<Suc a + n]" by (simp add: upt_rec)
  then show ?case
    by (auto simp: Suc.IH lock_key_statement_def locked_row_of_def with_placeholder_def placeholder_def
        split: option.splits)
qed simp

lemma locked_row_of_live:
  "(if locked_is_live (locked_row_of now key t) then Some (locked_value (locked_row_of now key t)) else None)
     = get_bytes_statement now key t"
  "locked_timestamp (locked_row_of now key t) = now"
  by (auto simp: locked_row_of_def get_bytes_statement_def live_row_def split: option.splits)

lemma do_then_simps [simp]:
  "do_then (Inl e, s) k = (Inl e, s)" "do_then (Inr x, s) k = k x s"
  by (simp_all add: do_then_def)

lemma admitted_again:
  "atomic_protocol env \<in> admitted_protocols tx \<Longrightarrow>
     admitted (atomic_protocol env) reply build body tx
       = (fst (body (tables tx)), tx\<lparr>tables := snd (body (tables tx))\<rparr>)"
  by (simp add: admitted_def admit_def split_def Let_def)

definition set_failed :: "micros \<Rightarrow> string \<Rightarrow> ttl \<Rightarrow> kv_table \<Rightarrow> bool" where
  "set_failed now key ttl t \<longleftrightarrow> \<not> is_ok (fst (set_bytes_with_executor now key [] ttl t :: (unit kv_error + unit) \<times> _))"

lemma without_placeholder: "(with_placeholder now key t)(key := x) = t(key := x)"
  by (simp add: with_placeholder_def)

lemma remove_placeholder:
  "t key = None \<Longrightarrow> (with_placeholder now key t)(key := None) = t"
  by (simp add: with_placeholder_def) (metis fun_upd_triv)

lemma delete_again:
  "atomic_protocol env \<in> admitted_protocols tx \<Longrightarrow>
     delete_key_for_atomic_mutation env key tx = (Inr (), tx\<lparr>tables := (tables tx)(key := None)\<rparr>)"
  by (simp add: delete_key_for_atomic_mutation_def admitted_again
      delete_key_for_atomic_mutation_statement_def)

lemma apply_matches_reference:
  assumes adm: "atomic_protocol env \<in> admitted_protocols tx"
    and tx: "tables tx = with_placeholder lock_now key t"
    and live: "live = get_bytes_statement lock_now key t"
    and r: "apply_atomic_mutation env key m (live \<noteq> None) (t key = None) tx = (r :: 'c kv_error + _, tx')"
  shows "(case m of
      KeepExisting \<Rightarrow> r = Inr (if live = None then KeptAbsent else KeptLiveValue) \<and> tables tx' = t
    | SetBytes v ttl \<Rightarrow>
        (case set_bytes_with_executor (apply_now env) key v ttl t of
           (Inl e, _) \<Rightarrow> r = Inl e \<and> tables tx' = with_placeholder lock_now key t
         | (Inr _, t') \<Rightarrow> r = Inr DidSetBytes \<and> tables tx' = t')
    | SetBytesPreservingExpiration v \<Rightarrow>
        (if live = None then r = Inl KvKeyNotFound \<and> tables tx' = t
         else r = Inr DidSetBytesPreservingExpiration
           \<and> tables tx' = t(key \<mapsto> (the (t key))\<lparr>kv_value := v, kv_updated_at := apply_now env\<rparr>))
    | Delete \<Rightarrow> r = Inr (if live = None then DeletedAbsent else DeletedLiveValue)
        \<and> tables tx' = t(key := None))"
proof (cases m)
  case KeepExisting
  then show ?thesis
    using r tx by (cases "t key = None")
      (auto simp: delete_again [OF adm] remove_placeholder, simp_all add: with_placeholder_def)
next
  case (SetBytes v ttl)
  have "\<exists>row. tables tx key = Some row" by (auto simp: tx with_placeholder_def)
  then show ?thesis
    using r tx
    by (auto simp: SetBytes update_key_value_and_ttl_for_atomic_mutation_def admitted_again [OF adm]
        update_value_and_ttl_statement_def set_bytes_with_executor_def set_bytes_statement_def
        kv_require_rows_affected_def without_placeholder split: sum.splits option.splits)
next
  case (SetBytesPreservingExpiration v)
  show ?thesis
  proof (cases live)
    case None
    then show ?thesis
      using r tx by (cases "t key = None")
        (auto simp: SetBytesPreservingExpiration delete_again [OF adm] remove_placeholder,
          simp_all add: with_placeholder_def)
  next
    case (Some x)
    then obtain row where "t key = Some row"
      using live by (auto simp: get_bytes_statement_def live_row_def split: option.splits)
    then show ?thesis
      using r tx Some
      by (auto simp: SetBytesPreservingExpiration admitted_again [OF adm] with_placeholder_def
          update_key_value_preserving_expiration_for_atomic_mutation_def kv_require_rows_affected_def
          update_value_preserving_expiration_statement_def)
  qed
next
  case Delete
  then show ?thesis
    using r tx by (auto simp: delete_again [OF adm] without_placeholder)
qed

lemma lock_admitted:
  assumes "fst (admit (atomic_protocol env) (atomic_reply env) tx) = Inr ()"
  shows "\<exists>tx1. lock_key_for_atomic_mutation env key tx
      = (fst (try_lock env key 0 8 (tables tx)) :: 'c kv_error + _, tx1)
    \<and> tables tx1 = snd (try_lock env key 0 8 (tables tx) :: ('c kv_error + _) \<times> _)
    \<and> atomic_protocol env \<in> admitted_protocols tx1"
proof -
  obtain tx0 where tx0: "admit (atomic_protocol env) (atomic_reply env) tx = (Inr (), tx0)"
    using assms by (metis prod.collapse)
  have "atomic_protocol env \<in> admitted_protocols tx0" "tables tx0 = tables tx"
    using admit_cache [of "atomic_protocol env" "atomic_reply env" tx]
      admit_tables [of "atomic_protocol env" "atomic_reply env" tx] by (simp_all add: tx0)
  then show ?thesis
    by (simp add: lock_key_for_atomic_mutation_def admitted_def tx0 split_def Let_def)
qed

definition sets_succeed ::
    "micros \<Rightarrow> string \<Rightarrow> (atomic_current \<Rightarrow> 'e + (atomic_mutation \<times> 'o)) \<Rightarrow> kv_table \<Rightarrow> bool" where
  "sets_succeed now key decide t \<longleftrightarrow> (\<forall>current v ttl c. decide current = Inr (SetBytes v ttl, c) \<longrightarrow>
     is_ok (fst (set_bytes_with_executor now key v ttl t :: (unit kv_error + unit) \<times> kv_table)))"

lemma set_bytes_error_type:
  "is_ok (fst (set_bytes_with_executor now key v ttl t :: ('c kv_error + unit) \<times> kv_table)) \<longleftrightarrow>
   is_ok (fst (set_bytes_with_executor now key v ttl t :: ('d kv_error + unit) \<times> kv_table))"
  by (auto simp: set_bytes_with_executor_def ttl_positive_microseconds_def kv_rounded
      set_bytes_statement_def split: option.splits sum.splits)

lemma mutate_matches_reference:
  fixes into_error :: "'c kv_error \<Rightarrow> 'e"
  assumes adm: "fst (admit (atomic_protocol env) (atomic_reply env) tx) = Inr ()"
    and r: "mutate_key_atomically_in_transaction_internal into_error env key decide cleanup tx = (r, tx')"
    and ref: "atomic_reference into_error (lock_time env key (tables tx)) (apply_now env) key decide (tables tx)
      = (ref, t')"
  shows "r = ref \<and> (tables tx' = t' \<or>
    (\<not> is_ok r \<and> (\<not> cleanup \<or> \<not> sets_succeed (apply_now env) key decide (tables tx))))"
proof -
  let ?t = "tables tx"
  obtain tx1 where lock: "lock_key_for_atomic_mutation env key tx
      = (fst (try_lock env key 0 8 ?t) :: 'c kv_error + _, tx1)"
    and tx1: "tables tx1 = snd (try_lock env key 0 8 ?t :: ('c kv_error + _) \<times> _)"
    and adm1: "atomic_protocol env \<in> admitted_protocols tx1"
    using lock_admitted [OF adm] by blast
  show ?thesis
  proof (cases "List.find (\<lambda>i. ?t key = None \<or> fst (lock_attempts env i)) [0..<8]")
    case None
    then show ?thesis
      using r ref lock tx1
      by (simp add: mutate_key_atomically_in_transaction_internal_def map_error_def try_lock_spec
          atomic_reference_def lock_time_def)
  next
    case (Some i)
    let ?now = "snd (lock_attempts env i)"
    let ?live = "get_bytes_statement ?now key ?t"
    let ?decision = "decide \<lparr>current_live_value = ?live, current_timestamp = ?now\<rparr>"
    have time: "lock_time env key ?t = Some ?now" by (simp add: lock_time_def Some)
    have lock': "lock_key_for_atomic_mutation env key tx
        = (Inr (?t key = None, Some (locked_row_of ?now key ?t)) :: 'c kv_error + _, tx1)"
      and tab: "tables tx1 = with_placeholder ?now key ?t"
      using lock tx1 by (simp_all add: try_lock_spec Some)
    note run = r [unfolded mutate_key_atomically_in_transaction_internal_def lock' map_error_def fst_conv
      snd_conv map_sum.simps id_apply do_then_simps prod.case option.case Let_def locked_row_of_live]
    note spec = ref [unfolded atomic_reference_def time option.case Let_def]
    show ?thesis
    proof (cases ?decision)
      case (Inl e)
      have ref': "ref = Inl e" "t' = ?t" using spec by (simp_all add: Inl)
      show ?thesis
      proof (cases "?t key = None \<and> cleanup")
        case True
        then have "r = Inl e" "tables tx' = (tables tx1)(key := None)"
          using run by (auto simp: Inl delete_again [OF adm1])
        then show ?thesis using True by (simp add: ref' tab remove_placeholder)
      next
        case False
        then have "r = Inl e" "tx' = tx1"
          using run by (auto simp: Inl)
        then show ?thesis using False by (auto simp: ref' tab with_placeholder_def)
      qed
    next
      case (Inr mc)
      obtain m c where mc: "mc = (m, c)" by (cases mc)
      obtain r2 tx2 where r2: "apply_atomic_mutation env key m (?live \<noteq> None) (?t key = None) tx1
          = (r2 :: 'c kv_error + _, tx2)" by fastforce
      have applied: "r = map_sum into_error (\<lambda>outcome. (\<lparr>result_previous_live_value = ?live,
            result_outcome = outcome\<rparr>, c)) r2" "tx' = tx2"
        using run [unfolded Inr mc sum.case prod.case r2 fst_conv snd_conv]
        by (cases r2; auto)+
      note matches = apply_matches_reference [OF adm1 tab refl r2]
      show ?thesis
      proof (cases m)
        case (SetBytes v ttl)
        show ?thesis
        proof (cases "set_bytes_with_executor (apply_now env) key v ttl ?t :: ('c kv_error + unit) \<times> _")
          case (Pair x t1)
          have "\<not> is_ok x \<Longrightarrow> \<not> sets_succeed (apply_now env) key decide ?t"
            using Pair Inr set_bytes_error_type [of "apply_now env" key v ttl ?t, where 'c = 'c and 'd = unit]
            by (auto simp: sets_succeed_def mc SetBytes)
          then show ?thesis
            using matches spec applied by (cases x) (auto simp: Inr mc SetBytes Pair)
        qed
      qed (use matches spec applied in \<open>auto simp: Inr mc split: if_splits\<close>)
    qed
  qed
qed

text \<open>C27: Inside an admitted transaction the atomic mutation of a key is exactly its reference: the
  callback decides on the live value at the time of the lock, every decision has its one effect
  on the map, and neither a failed lock, a failing callback nor a missing live value leaves the
  placeholder behind.\<close>

theorem atomic_mutation_is_reference:
  assumes "fst (admit (atomic_protocol env) (atomic_reply env) tx) = Inr ()"
    and "sets_succeed (apply_now env) key decide (tables tx)"
    and "mutate_key_atomically_in_current_transaction into_error env key decide tx = (r, tx')"
  shows "(r, tables tx')
    = atomic_reference into_error (lock_time env key (tables tx)) (apply_now env) key decide (tables tx)"
  using mutate_matches_reference [OF assms(1) assms(3) [unfolded mutate_key_atomically_in_current_transaction_def]]
    assms(2) by (metis prod.collapse)

text \<open>The pool variant commits either nothing or the effect of the reference, never a placeholder;
  a success is the reference's success and is committed.\<close>

theorem pool_atomic_mutation_commits_reference:
  assumes "mutate_key_atomically into_error env aenv key decide t = (r, t')"
  shows "(t' = t \<or> t' = snd (atomic_reference into_error (lock_time aenv key t) (apply_now aenv) key decide t))
    \<and> (is_ok r \<longrightarrow> (r, t') = atomic_reference into_error (lock_time aenv key t) (apply_now aenv) key decide t)"
proof -
  let ?env = "aenv\<lparr>atomic_reply := env_reply env\<rparr>"
  let ?tx = "begin_transaction t"
  let ?body = "mutate_key_atomically_in_transaction_internal into_error ?env key decide False"
  let ?ref = "atomic_reference into_error (lock_time aenv key t) (apply_now aenv) key decide t"
  have env: "lock_time ?env key t = lock_time aenv key t" "apply_now ?env = apply_now aenv"
    by (simp_all add: lock_time_def)
  obtain r1 tx1 where body: "?body ?tx = (r1, tx1)" by fastforce
  have ok: "(r1, tables tx1) = ?ref" if "is_ok r1"
  proof -
    have "is_ok (fst (admit (atomic_protocol ?env) (atomic_reply ?env) ?tx))"
    proof (rule ccontr)
      assume "\<not> is_ok (fst (admit (atomic_protocol ?env) (atomic_reply ?env) ?tx))"
      then obtain e where "fst (admit (atomic_protocol ?env) (atomic_reply ?env) ?tx) = Inl e"
        by (cases "fst (admit (atomic_protocol ?env) (atomic_reply ?env) ?tx)") auto
      then have "\<not> is_ok r1"
        using body by (auto simp: mutate_key_atomically_in_transaction_internal_def map_error_def
          lock_key_for_atomic_mutation_def admitted_error)
      then show False using that by simp
    qed
    then have "fst (admit (atomic_protocol ?env) (atomic_reply ?env) ?tx) = Inr ()"
      by (cases "fst (admit (atomic_protocol ?env) (atomic_reply ?env) ?tx)") auto
    from mutate_matches_reference [OF this body] that show ?thesis
      by (metis env begin_transaction_def prod.collapse tx.select_convs(2))
  qed
  show ?thesis
    using assms ok
    by (auto simp: mutate_key_atomically_def kv_callback_pool_def pool_write_def body
        finish_write_transaction_def split: option.splits sum.splits commit_outcome.splits
        rollback_outcome.splits if_splits dest: arg_cong [where f = snd])
qed

definition stored :: "micros \<Rightarrow> string \<Rightarrow> bytes \<Rightarrow> ttl \<Rightarrow> kv_table \<Rightarrow> kv_table" where
  "stored now key v ttl t = snd (set_bytes_with_executor now key v ttl t :: (unit kv_error + unit) \<times> kv_table)"

lemma set_bytes_ok_stored:
  "set_bytes_with_executor now key v ttl t = (Inr u :: 'c kv_error + unit, t') \<Longrightarrow> t' = stored now key v ttl t"
  by (auto simp: stored_def set_bytes_with_executor_def ttl_positive_microseconds_def kv_rounded
      set_bytes_statement_def split: option.splits sum.splits if_splits)

text \<open>What a successful reference run did to the map, by the decision taken.\<close>

lemma reference_success:
  assumes "atomic_reference into_error (Some lock_now) now key decide t = (Inr (res, c), t')"
  shows "result_previous_live_value res = get_bytes_statement lock_now key t
    \<and> (\<exists>m. decide \<lparr>current_live_value = get_bytes_statement lock_now key t, current_timestamp = lock_now\<rparr>
          = Inr (m, c)
      \<and> t' = (case m of KeepExisting \<Rightarrow> t | SetBytes v ttl \<Rightarrow> stored now key v ttl t
        | SetBytesPreservingExpiration v \<Rightarrow> t(key \<mapsto> (the (t key))\<lparr>kv_value := v, kv_updated_at := now\<rparr>)
        | Delete \<Rightarrow> t(key := None))
      \<and> (\<forall>v. m = SetBytesPreservingExpiration v \<longrightarrow> get_bytes_statement lock_now key t \<noteq> None))"
  using assms
  by (auto simp: atomic_reference_def Let_def set_bytes_ok_stored
      split: sum.splits prod.splits atomic_mutation.splits if_splits)

lemma mutate_success:
  assumes "fst (admit (atomic_protocol env) (atomic_reply env) tx) = Inr ()"
    and "mutate_key_atomically_in_transaction_internal into_error env key decide cleanup tx = (Inr (res, c), tx')"
  shows "\<exists>lock_now m. lock_time env key (tables tx) = Some lock_now
    \<and> result_previous_live_value res = get_bytes_statement lock_now key (tables tx)
    \<and> decide \<lparr>current_live_value = get_bytes_statement lock_now key (tables tx), current_timestamp = lock_now\<rparr>
          = Inr (m, c)
    \<and> tables tx' = (case m of KeepExisting \<Rightarrow> tables tx | SetBytes v ttl \<Rightarrow> stored (apply_now env) key v ttl (tables tx)
        | SetBytesPreservingExpiration v \<Rightarrow>
            (tables tx)(key \<mapsto> (the (tables tx key))\<lparr>kv_value := v, kv_updated_at := apply_now env\<rparr>)
        | Delete \<Rightarrow> (tables tx)(key := None))
    \<and> (\<forall>v. m = SetBytesPreservingExpiration v \<longrightarrow> get_bytes_statement lock_now key (tables tx) \<noteq> None)"
proof -
  obtain ref t' where ref: "atomic_reference into_error (lock_time env key (tables tx)) (apply_now env) key
      decide (tables tx) = (ref, t')" by fastforce
  have eq: "ref = Inr (res, c)" "tables tx' = t'"
    using mutate_matches_reference [OF assms ref] by auto
  show ?thesis
  proof (cases "lock_time env key (tables tx)")
    case None
    then show ?thesis using ref eq by (simp add: atomic_reference_def)
  next
    case (Some lock_now)
    then show ?thesis using reference_success [OF ref [unfolded Some eq(1)]] eq(2) by auto
  qed
qed

text \<open>The initialising variant calls the initialiser exactly when no live value is there, shows the
  callback the live or the initial value, and on success stores what the decision says: a kept
  or expiration-preserving decision on a fresh key stores with the initial time to live.\<close>

theorem live_or_init_mutation:
  assumes "fst (admit (atomic_protocol env) (atomic_reply env) tx) = Inr ()"
    and "mutate_live_key_or_insert_initial_value_atomically_in_current_transaction
      into_error env key initialize decide tx = (Inr (res, c), tx')"
  shows "\<exists>lock_now initial_ttl m. lock_time env key (tables tx) = Some lock_now
    \<and> (case get_bytes_statement lock_now key (tables tx) of
        Some v \<Rightarrow> \<not> init_result_initialized res \<and> init_result_live_value_seen res = v
      | None \<Rightarrow> init_result_initialized res
          \<and> initialize lock_now = Inr (init_result_live_value_seen res, initial_ttl))
    \<and> decide \<lparr>live_current_value = init_result_live_value_seen res, live_current_timestamp = lock_now\<rparr> = Inr (m, c)
    \<and> tables tx' = (case m of
        KeepExisting \<Rightarrow> if init_result_initialized res
          then stored (apply_now env) key (init_result_live_value_seen res) initial_ttl (tables tx)
          else tables tx
      | SetBytes v ttl \<Rightarrow> stored (apply_now env) key v ttl (tables tx)
      | SetBytesPreservingExpiration v \<Rightarrow> if init_result_initialized res
          then stored (apply_now env) key v initial_ttl (tables tx)
          else (tables tx)(key \<mapsto> (the (tables tx key))\<lparr>kv_value := v, kv_updated_at := apply_now env\<rparr>)
      | Delete \<Rightarrow> (tables tx)(key := None))"
proof -
  let ?decide = "decide_or_initialize into_error initialize decide"
  obtain raw captured tx1 where run: "mutate_key_atomically_in_transaction_internal into_error env key ?decide
      True tx = (Inr (raw, captured), tx1)"
    and seen: "captured = (init_result_initialized res, Some (init_result_live_value_seen res), c)" "tx' = tx1"
    using assms(2)
    by (auto simp: mutate_live_key_or_insert_initial_value_atomically_in_current_transaction_def
        mutate_live_key_or_insert_initial_value_atomically_in_transaction_internal_def do_then_def
        split: prod.splits sum.splits option.splits)
  obtain lock_now m where time: "lock_time env key (tables tx) = Some lock_now"
    and decided: "?decide \<lparr>current_live_value = get_bytes_statement lock_now key (tables tx),
        current_timestamp = lock_now\<rparr> = Inr (m, captured)"
    and tab: "tables tx1 = (case m of KeepExisting \<Rightarrow> tables tx
        | SetBytes v ttl \<Rightarrow> stored (apply_now env) key v ttl (tables tx)
        | SetBytesPreservingExpiration v \<Rightarrow>
            (tables tx)(key \<mapsto> (the (tables tx key))\<lparr>kv_value := v, kv_updated_at := apply_now env\<rparr>)
        | Delete \<Rightarrow> (tables tx)(key := None))"
    using mutate_success [OF assms(1) run] by blast
  show ?thesis
  proof (cases "get_bytes_statement lock_now key (tables tx)")
    case (Some v)
    have m: "decide \<lparr>live_current_value = v, live_current_timestamp = lock_now\<rparr> = Inr (m, c)"
      and c: "init_result_live_value_seen res = v" "\<not> init_result_initialized res"
      using decided [unfolded Some] seen
      by (auto simp: decide_or_initialize_def)
    then show ?thesis
      using time tab seen Some by (intro exI [of _ lock_now] exI [of _ m] exI)
        (auto split: atomic_mutation.splits)
  next
    case None
    obtain v ittl m0 where init: "initialize lock_now = Inr (v, ittl)"
      and d: "decide \<lparr>live_current_value = v, live_current_timestamp = lock_now\<rparr> = Inr (m0, c)"
      and m: "m = (case m0 of KeepExisting \<Rightarrow> SetBytes v ittl
        | SetBytesPreservingExpiration v \<Rightarrow> SetBytes v ittl | m \<Rightarrow> m)"
      and c: "captured = (True, Some v, c)"
      using decided [unfolded None] seen
      by (auto simp: decide_or_initialize_def split: sum.splits prod.splits)
    have v: "init_result_live_value_seen res = v" "init_result_initialized res"
      using seen c by simp_all
    show ?thesis
      using time tab seen(2) None init d m v
      by (intro exI [of _ lock_now] exI [of _ ittl] exI [of _ m0]) (auto split: atomic_mutation.splits)
  qed
qed

section \<open>Instances\<close>

definition calm_env :: atomic_env where
  "calm_env = \<lparr>atomic_protocol = ''p'', atomic_reply = supported_reply,
     lock_attempts = (\<lambda>i. (i > 0, 5)), apply_now = 6\<rparr>"

definition calm_pool :: pool_env where
  "calm_pool = \<lparr>env_begin = None, env_reply = supported_reply, env_now = 5, env_commit = Committed,
     env_rollback = RolledBack\<rparr>"

definition one_row :: "bytes \<Rightarrow> kv_table" where
  "one_row v = [''k'' \<mapsto> \<lparr>kv_value = v, kv_expires_at = None, kv_updated_at = 0\<rparr>]"

definition bump :: "atomic_current \<Rightarrow> unit kv_error + (atomic_mutation \<times> unit)" where
  "bump current = (case current_live_value current of
     None \<Rightarrow> Inl KvEmptyKey | Some v \<Rightarrow> Inr (SetBytes (map ((+) 1) v) NO_EXPIRATION, ()))"

lemma calm_admitted: "fst (admit (atomic_protocol calm_env) (atomic_reply calm_env) tx) = Inr ()"
  by (simp add: calm_env_def admit_Ok_iff supported_reply_def)

lemma set_without_expiration:
  "set_bytes_with_executor now key v NO_EXPIRATION t
     = (Inr (), t(key \<mapsto> \<lparr>kv_value = v, kv_expires_at = None, kv_updated_at = now\<rparr>))"
  by (simp add: set_bytes_with_executor_def set_bytes_statement_def expires_at_expression_def
      ttl_positive_microseconds_def NO_EXPIRATION_def)

lemma bump_sets: "sets_succeed now key bump t"
  by (auto simp: sets_succeed_def bump_def set_without_expiration split: option.splits)

lemma calm_lock: "lock_time calm_env key t = Some 5"
  by (auto simp: lock_time_def calm_env_def upt_rec)

lemma bump_reference:
  "atomic_reference id (Some 5) 6 ''k'' bump (one_row [7])
     = (Inr (\<lparr>result_previous_live_value = Some [7], result_outcome = DidSetBytes\<rparr>, ()),
        [''k'' \<mapsto> \<lparr>kv_value = [8], kv_expires_at = None, kv_updated_at = 6\<rparr>])"
  by (simp add: atomic_reference_def bump_def one_row_def get_bytes_statement_def live_row_def
      not_expired_def set_without_expiration)

theorem atomic_mutation_is_reference_witness:
  "tables (snd (mutate_key_atomically_in_current_transaction id calm_env ''k'' bump
      (begin_transaction (one_row [7]))))
   = [''k'' \<mapsto> \<lparr>kv_value = [8], kv_expires_at = None, kv_updated_at = 6\<rparr>]"
proof -
  let ?tx = "begin_transaction (one_row [7])"
  have "(fst (mutate_key_atomically_in_current_transaction id calm_env ''k'' bump ?tx),
      tables (snd (mutate_key_atomically_in_current_transaction id calm_env ''k'' bump ?tx)))
    = atomic_reference id (lock_time calm_env ''k'' (tables ?tx)) (apply_now calm_env) ''k'' bump (tables ?tx)"
    by (rule atomic_mutation_is_reference [OF calm_admitted bump_sets]) simp
  also have "\<dots> = atomic_reference id (Some 5) 6 ''k'' bump (one_row [7])"
    by (simp add: calm_lock begin_transaction_def) (simp add: calm_env_def)
  finally show ?thesis by (simp add: bump_reference)
qed

theorem pool_atomic_mutation_commits_reference_witness:
  "snd (mutate_key_atomically id calm_pool calm_env ''k'' bump (one_row [7])) \<in>
     {one_row [7], [''k'' \<mapsto> \<lparr>kv_value = [8], kv_expires_at = None, kv_updated_at = 6\<rparr>]}"
proof -
  let ?r = "mutate_key_atomically id calm_pool calm_env ''k'' bump (one_row [7])"
  have "?r = (fst ?r, snd ?r)" by simp
  from pool_atomic_mutation_commits_reference [OF this]
  have "snd ?r = one_row [7] \<or> snd ?r = snd (atomic_reference id (lock_time calm_env ''k'' (one_row [7]))
      (apply_now calm_env) ''k'' bump (one_row [7]))" by blast
  moreover have "apply_now calm_env = 6" by (simp add: calm_env_def)
  ultimately show ?thesis by (simp add: calm_lock bump_reference)
qed

definition initial_five :: "micros \<Rightarrow> unit kv_error + (bytes \<times> ttl)" where
  "initial_five now = Inr ([5], NO_EXPIRATION)"

theorem live_or_init_mutation_witness:
  "\<exists>res tx'. mutate_live_key_or_insert_initial_value_atomically_in_current_transaction id calm_env ''k''
     initial_five (\<lambda>_. Inr (KeepExisting, ())) (begin_transaction Map.empty) = (Inr (res, ()), tx')
   \<and> init_result_initialized res"
proof -
  let ?run = "mutate_live_key_or_insert_initial_value_atomically_in_current_transaction id calm_env ''k''
     initial_five (\<lambda>_. Inr (KeepExisting, ())) (begin_transaction Map.empty)"
  have "is_ok (fst ?run)"
    by (simp add: mutate_live_key_or_insert_initial_value_atomically_in_current_transaction_def
        mutate_live_key_or_insert_initial_value_atomically_in_transaction_internal_def
        mutate_key_atomically_in_transaction_internal_def lock_key_for_atomic_mutation_def
        admitted_def admit_def calm_env_def supported_reply_def supported_row_def begin_transaction_def
        SUPPORTED_EPOCH_def SUPPORTED_FINGERPRINT_def numeral_eq_Suc lock_key_statement_def map_error_def Let_def
        decide_or_initialize_def initial_five_def ttl_positive_microseconds_def NO_EXPIRATION_def
        update_key_value_and_ttl_for_atomic_mutation_def update_value_and_ttl_statement_def
        expires_at_expression_def kv_require_rows_affected_def)
  then obtain res where run: "?run = (Inr (res, ()), snd ?run)"
    by (cases "?run"; cases "fst ?run") auto
  from live_or_init_mutation [OF calm_admitted this] have "init_result_initialized res"
    by (auto simp: calm_lock begin_transaction_def get_bytes_statement_def live_row_def)
  with run show ?thesis by blast
qed

end
