(* ===== verification/KvItem.thy ===== *)
theory KvItem
  imports KvAtomic
begin

text \<open>
  \<open>src/src/db/kv/item*.rs\<close>: typed items under one key prefix. An item encodes its values, plainly or
  encrypted under the full key as associated data, and calls the store.

  What the type of the values brings along is a part of the item: \<open>to_plaintext_bytes\<close> and
  \<open>from_plaintext_bytes\<close> are its \<open>Plaintext\<close> instance, \<open>seal\<close> and \<open>unseal\<close> are the envelope of the
  crypto module under a keyset and associated data. The random bytes of a call are a part of \<open>seal\<close>.
  The error type \<open>'c\<close> is the codec's.
\<close>

section \<open>Types\<close>

text \<open>An encrypted item asks for its keyset at every call.\<close>

datatype ('k, 'c) item_codec = Plain | Encrypted "'c + 'k"

record ('v, 'k, 'c) item =
  item_prefix :: string
  item_codec :: "('k, 'c) item_codec"
  to_plaintext_bytes :: "'v \<Rightarrow> 'c + bytes"
  from_plaintext_bytes :: "bytes \<Rightarrow> 'c + 'v"
  seal :: "'k \<Rightarrow> bytes \<Rightarrow> string \<Rightarrow> 'c + bytes"
  unseal :: "'k \<Rightarrow> bytes \<Rightarrow> string \<Rightarrow> 'c + bytes"

datatype 'v item_atomic_mutation =
    KeepExistingItem
  | SetValue 'v ttl
  | SetValuePreservingExpiration 'v
  | DeleteItem

record 'v item_atomic_current =
  item_live_value :: "'v option"
  item_timestamp :: micros

record 'v item_atomic_live_current =
  item_live :: 'v
  item_live_timestamp :: micros

record 'v item_atomic_result =
  item_previous_live_value :: "'v option"
  item_outcome :: atomic_mutation_outcome

record 'v item_atomic_live_result =
  item_live_previous_live_value :: 'v
  item_live_outcome :: atomic_mutation_outcome

record 'v item_atomic_live_or_init_result =
  item_initialized :: bool
  item_live_value_seen :: 'v
  item_init_outcome :: atomic_mutation_outcome

record 'v item_get_or_init_result =
  got_value :: 'v
  got_initialized :: bool

record 'v item_with_timestamp =
  stamped_value :: 'v
  stamped_at :: micros

record 'v item_scanned_value =
  scanned_key_suffix :: string
  scanned_value :: 'v

record prepared_slot_candidate_keys =
  slot_keys :: "string list"
  key_to_suffix :: "string \<rightharpoonup> string"

text \<open>
  The constructors. The store of an item is an argument of the operations; what the type of the values
  brings along comes from \<open>base\<close>.
\<close>

definition item_new_plain :: "('v, 'k, 'c) item \<Rightarrow> string \<Rightarrow> ('v, 'k, 'c) item" where
  "item_new_plain base key_prefix = base\<lparr>item_prefix := key_prefix, item_codec := Plain\<rparr>"

definition item_new_encrypted :: "('v, 'k, 'c) item \<Rightarrow> string \<Rightarrow> 'c + 'k \<Rightarrow> ('v, 'k, 'c) item" where
  "item_new_encrypted base key_prefix keyset = base\<lparr>item_prefix := key_prefix, item_codec := Encrypted keyset\<rparr>"

definition is_encrypted :: "('v, 'k, 'c) item \<Rightarrow> bool" where
  "is_encrypted it = (case item_codec it of Plain \<Rightarrow> False | Encrypted _ \<Rightarrow> True)"

section \<open>Keys and codecs\<close>

definition item_key_from_parts :: "('v, 'k, 'c) item \<Rightarrow> string list \<Rightarrow> 'c kv_error + string" where
  "item_key_from_parts it key_parts = kv_build_key_from_prefix_and_parts (item_prefix it) key_parts"

definition encode_plain_value :: "('v, 'k, 'c) item \<Rightarrow> 'v \<Rightarrow> 'c kv_error + bytes" where
  "encode_plain_value it v = map_sum KvCodec id (to_plaintext_bytes it v)"

definition encode_encrypted_value_for_key ::
    "('v, 'k, 'c) item \<Rightarrow> 'k \<Rightarrow> string \<Rightarrow> 'v \<Rightarrow> 'c kv_error + bytes" where
  "encode_encrypted_value_for_key it keyset key v =
     map_sum KvCodec id (result_bind (to_plaintext_bytes it v)
       (\<lambda>plaintext. seal it keyset plaintext (item_associated_data key)))"

definition decode_plain_value :: "('v, 'k, 'c) item \<Rightarrow> bytes \<Rightarrow> 'c kv_error + 'v" where
  "decode_plain_value it bs = map_sum KvCodec id (from_plaintext_bytes it bs)"

definition decode_encrypted_value_for_key ::
    "('v, 'k, 'c) item \<Rightarrow> 'k \<Rightarrow> string \<Rightarrow> bytes \<Rightarrow> 'c kv_error + 'v" where
  "decode_encrypted_value_for_key it keyset key bs =
     map_sum KvCodec id (result_bind (unseal it keyset bs (item_associated_data key))
       (from_plaintext_bytes it))"

text \<open>\<open>get_keyset()?\<close> before the work on values.\<close>

definition with_codec ::
    "('v, 'k, 'c) item \<Rightarrow> 'a \<Rightarrow> ('k \<Rightarrow> 'a) \<Rightarrow> ('c kv_error \<Rightarrow> 'a) \<Rightarrow> 'a" where
  "with_codec it plain encrypted failed =
     (case item_codec it of
        Plain \<Rightarrow> plain
      | Encrypted (Inl e) \<Rightarrow> failed (KvCodec e)
      | Encrypted (Inr keyset) \<Rightarrow> encrypted keyset)"

definition encode_value_for_key :: "('v, 'k, 'c) item \<Rightarrow> string \<Rightarrow> 'v \<Rightarrow> 'c kv_error + bytes" where
  "encode_value_for_key it key v =
     with_codec it (encode_plain_value it v) (\<lambda>keyset. encode_encrypted_value_for_key it keyset key v) Inl"

definition decode_value_for_key :: "('v, 'k, 'c) item \<Rightarrow> string \<Rightarrow> bytes \<Rightarrow> 'c kv_error + 'v" where
  "decode_value_for_key it key bs =
     with_codec it (decode_plain_value it bs) (\<lambda>keyset. decode_encrypted_value_for_key it keyset key bs) Inl"

definition keys_from_parts_list :: "('v, 'k, 'c) item \<Rightarrow> string list list \<Rightarrow> 'c kv_error + string list" where
  "keys_from_parts_list it key_parts_list = collect_results (map (item_key_from_parts it) key_parts_list)"

definition keys_from_parts_list_for_multi_get ::
    "('v, 'k, 'c) item \<Rightarrow> string list list \<Rightarrow> 'c kv_error + string list" where
  "keys_from_parts_list_for_multi_get it key_parts_list =
     result_bind (kv_validate_get_multi_key_count (length key_parts_list)) (\<lambda>_.
     result_bind (keys_from_parts_list it key_parts_list) (\<lambda>keys.
     result_bind (kv_validate_unique_item_keys keys) (\<lambda>_. Inr keys)))"

definition multi_set_entries ::
    "('v, 'k, 'c) item \<Rightarrow> string list list \<Rightarrow> 'v list \<Rightarrow> 'c kv_error + (string \<times> bytes) list" where
  "multi_set_entries it key_parts_list values =
     (if length key_parts_list \<noteq> length values
      then Inl (KvSetMultiLengthMismatch (length key_parts_list) (length values))
      else result_bind (kv_validate_set_multi_entry_count (length key_parts_list)) (\<lambda>_.
        result_bind (keys_from_parts_list it key_parts_list) (\<lambda>keys.
        result_bind (kv_validate_unique_item_keys keys) (\<lambda>_.
          if keys = [] then Inr []
          else with_codec it
            (collect_results (map (\<lambda>(key, v). map_sum id (Pair key) (encode_plain_value it v)) (zip keys values)))
            (\<lambda>keyset. collect_results
              (map (\<lambda>(key, v). map_sum id (Pair key) (encode_encrypted_value_for_key it keyset key v)) (zip keys values)))
            Inl))))"

definition strip_prefix_or_empty :: "string \<Rightarrow> string \<Rightarrow> string" where
  "strip_prefix_or_empty p s = (if prefix p s then drop (length p) s else [])"

definition strip_suffix_or_empty :: "string \<Rightarrow> string \<Rightarrow> string" where
  "strip_suffix_or_empty p s = (if suffix p s then take (length s - length p) s else [])"

definition suffix_from_key :: "('v, 'k, 'c) item \<Rightarrow> string \<Rightarrow> string" where
  "suffix_from_key it key =
     strip_suffix_or_empty KV_KEY_SEPARATOR (strip_prefix_or_empty (item_prefix it) key)"

definition after_key_from_optional_suffix ::
    "('v, 'k, 'c) item \<Rightarrow> string option \<Rightarrow> 'c kv_error + string option" where
  "after_key_from_optional_suffix it after_key_suffix =
     (case after_key_suffix of
        None \<Rightarrow> Inr None
      | Some s \<Rightarrow> map_sum id Some (kv_key_from_prefix_and_raw_suffix (item_prefix it) s))"

definition decode_scanned_rows ::
    "('v, 'k, 'c) item \<Rightarrow> (string \<times> bytes) list \<Rightarrow> 'c kv_error + 'v item_scanned_value list" where
  "decode_scanned_rows it rows =
     (let scanned = (\<lambda>key v. \<lparr>scanned_key_suffix = suffix_from_key it key, scanned_value = v\<rparr>)
      in if rows = [] then Inr []
         else with_codec it
           (collect_results (map (\<lambda>(key, bs). map_sum id (scanned key) (decode_plain_value it bs)) rows))
           (\<lambda>keyset. collect_results
             (map (\<lambda>(key, bs). map_sum id (scanned key) (decode_encrypted_value_for_key it keyset key bs)) rows))
           Inl)"

definition transpose_option :: "('e + 'a) option \<Rightarrow> 'e + 'a option" where
  "transpose_option r = (case r of None \<Rightarrow> Inr None | Some (Inl e) \<Rightarrow> Inl e | Some (Inr x) \<Rightarrow> Inr (Some x))"

definition decode_multi_values ::
    "('v, 'k, 'c) item \<Rightarrow> string list \<Rightarrow> bytes option list \<Rightarrow> 'c kv_error + 'v option list" where
  "decode_multi_values it keys values =
     (if list_all (\<lambda>v. v = None) values then Inr (map (\<lambda>_. None) values)
      else with_codec it
        (collect_results (map (\<lambda>(_, v). transpose_option (map_option (decode_plain_value it) v)) (zip keys values)))
        (\<lambda>keyset. collect_results (map (\<lambda>(key, v).
            transpose_option (map_option (decode_encrypted_value_for_key it keyset key) v)) (zip keys values)))
        Inl)"

fun prepare_slot_candidates ::
    "('v, 'k, 'c) item \<Rightarrow> string list \<Rightarrow> prepared_slot_candidate_keys \<Rightarrow> 'c kv_error + prepared_slot_candidate_keys" where
  "prepare_slot_candidates it [] done = Inr done"
| "prepare_slot_candidates it (s # rest) done =
     result_bind (item_key_from_parts it [s]) (\<lambda>key.
       if key_to_suffix done key \<noteq> None then Inl KvDuplicateKeyInBulkOperation
       else prepare_slot_candidates it rest
         \<lparr>slot_keys = slot_keys done @ [key], key_to_suffix = (key_to_suffix done)(key \<mapsto> s)\<rparr>)"

definition prepare_slot_candidate_keys ::
    "('v, 'k, 'c) item \<Rightarrow> string list \<Rightarrow> 'c kv_error + prepared_slot_candidate_keys" where
  "prepare_slot_candidate_keys it candidate_suffixes =
     result_bind (kv_validate_acquire_slot_candidate_count (length candidate_suffixes)) (\<lambda>_.
       prepare_slot_candidates it candidate_suffixes \<lparr>slot_keys = [], key_to_suffix = Map.empty\<rparr>)"

definition encode_atomic_mutation_for_key ::
    "('c kv_error \<Rightarrow> 'e) \<Rightarrow> ('v, 'k, 'c) item \<Rightarrow> string \<Rightarrow> 'v item_atomic_mutation \<Rightarrow> 'e + atomic_mutation" where
  "encode_atomic_mutation_for_key into_error it key m =
     (case m of
        KeepExistingItem \<Rightarrow> Inr KeepExisting
      | SetValue v ttl \<Rightarrow> map_sum into_error (\<lambda>bs. SetBytes bs ttl) (encode_value_for_key it key v)
      | SetValuePreservingExpiration v \<Rightarrow>
          map_sum into_error SetBytesPreservingExpiration (encode_value_for_key it key v)
      | DeleteItem \<Rightarrow> Inr Delete)"

section \<open>Writing\<close>

definition with_key ::
    "('v, 'k, 'c) item \<Rightarrow> string list \<Rightarrow> ('c kv_error \<Rightarrow> 'a) \<Rightarrow> (string \<Rightarrow> 'a) \<Rightarrow> 'a" where
  "with_key it key_parts failed k =
     (case item_key_from_parts it key_parts of Inl e \<Rightarrow> failed e | Inr key \<Rightarrow> k key)"

definition with_key_and_value ::
    "('v, 'k, 'c) item \<Rightarrow> string list \<Rightarrow> 'v \<Rightarrow> ('c kv_error \<Rightarrow> 'a) \<Rightarrow> (string \<Rightarrow> bytes \<Rightarrow> 'a) \<Rightarrow> 'a" where
  "with_key_and_value it key_parts v failed k =
     with_key it key_parts failed (\<lambda>key.
       case encode_value_for_key it key v of Inl e \<Rightarrow> failed e | Inr bs \<Rightarrow> k key bs)"

definition item_set ::
    "('v, 'k, 'c) item \<Rightarrow> string \<Rightarrow> pool_env \<Rightarrow> string list \<Rightarrow> 'v \<Rightarrow> ttl \<Rightarrow> kv_table
     \<Rightarrow> ('c kv_error + unit) \<times> kv_table" where
  "item_set it protocol env key_parts v ttl t =
     with_key_and_value it key_parts v (\<lambda>e. (Inl e, t))
       (\<lambda>key bs. set_bytes protocol env key bs ttl t)"

definition item_set_in_current_transaction ::
    "('v, 'k, 'c) item \<Rightarrow> string \<Rightarrow> admission_reply \<Rightarrow> micros \<Rightarrow> string list \<Rightarrow> 'v \<Rightarrow> ttl \<Rightarrow> kv_table tx
     \<Rightarrow> ('c kv_error + unit) \<times> kv_table tx" where
  "item_set_in_current_transaction it protocol reply now key_parts v ttl tx =
     with_key_and_value it key_parts v (\<lambda>e. (Inl e, tx))
       (\<lambda>key bs. set_bytes_in_current_transaction protocol reply now key bs ttl tx)"

definition item_set_and_return_database_timestamp ::
    "('v, 'k, 'c) item \<Rightarrow> string \<Rightarrow> pool_env \<Rightarrow> string list \<Rightarrow> 'v \<Rightarrow> ttl \<Rightarrow> kv_table
     \<Rightarrow> ('c kv_error + micros) \<times> kv_table" where
  "item_set_and_return_database_timestamp it protocol env key_parts v ttl t =
     with_key_and_value it key_parts v (\<lambda>e. (Inl e, t))
       (\<lambda>key bs. set_bytes_and_return_database_timestamp protocol env key bs ttl t)"

definition item_set_and_return_database_timestamp_in_current_transaction ::
    "('v, 'k, 'c) item \<Rightarrow> string \<Rightarrow> admission_reply \<Rightarrow> micros \<Rightarrow> string list \<Rightarrow> 'v \<Rightarrow> ttl \<Rightarrow> kv_table tx
     \<Rightarrow> ('c kv_error + micros) \<times> kv_table tx" where
  "item_set_and_return_database_timestamp_in_current_transaction it protocol reply now key_parts v ttl tx =
     with_key_and_value it key_parts v (\<lambda>e. (Inl e, tx))
       (\<lambda>key bs. set_bytes_and_return_database_timestamp_in_current_transaction protocol reply now key bs ttl tx)"

definition item_set_if_not_exists ::
    "('v, 'k, 'c) item \<Rightarrow> string \<Rightarrow> pool_env \<Rightarrow> string list \<Rightarrow> 'v \<Rightarrow> ttl \<Rightarrow> kv_table
     \<Rightarrow> ('c kv_error + bool) \<times> kv_table" where
  "item_set_if_not_exists it protocol env key_parts v ttl t =
     with_key_and_value it key_parts v (\<lambda>e. (Inl e, t))
       (\<lambda>key bs. set_bytes_if_not_exists protocol env key bs ttl t)"

definition item_set_if_not_exists_in_current_transaction ::
    "('v, 'k, 'c) item \<Rightarrow> string \<Rightarrow> admission_reply \<Rightarrow> micros \<Rightarrow> string list \<Rightarrow> 'v \<Rightarrow> ttl \<Rightarrow> kv_table tx
     \<Rightarrow> ('c kv_error + bool) \<times> kv_table tx" where
  "item_set_if_not_exists_in_current_transaction it protocol reply now key_parts v ttl tx =
     with_key_and_value it key_parts v (\<lambda>e. (Inl e, tx))
       (\<lambda>key bs. set_bytes_if_not_exists_in_current_transaction protocol reply now key bs ttl tx)"

definition item_set_if_not_exists_and_return_database_timestamp ::
    "('v, 'k, 'c) item \<Rightarrow> string \<Rightarrow> pool_env \<Rightarrow> string list \<Rightarrow> 'v \<Rightarrow> ttl \<Rightarrow> kv_table
     \<Rightarrow> ('c kv_error + set_if_not_exists_result) \<times> kv_table" where
  "item_set_if_not_exists_and_return_database_timestamp it protocol env key_parts v ttl t =
     with_key_and_value it key_parts v (\<lambda>e. (Inl e, t))
       (\<lambda>key bs. set_bytes_if_not_exists_and_return_database_timestamp protocol env key bs ttl t)"

definition item_set_if_not_exists_and_return_database_timestamp_in_current_transaction ::
    "('v, 'k, 'c) item \<Rightarrow> string \<Rightarrow> admission_reply \<Rightarrow> micros \<Rightarrow> string list \<Rightarrow> 'v \<Rightarrow> ttl \<Rightarrow> kv_table tx
     \<Rightarrow> ('c kv_error + set_if_not_exists_result) \<times> kv_table tx" where
  "item_set_if_not_exists_and_return_database_timestamp_in_current_transaction it protocol reply now key_parts v ttl tx =
     with_key_and_value it key_parts v (\<lambda>e. (Inl e, tx))
       (\<lambda>key bs. set_bytes_if_not_exists_and_return_database_timestamp_in_current_transaction protocol reply now key bs ttl tx)"

definition item_set_multi ::
    "('v, 'k, 'c) item \<Rightarrow> string \<Rightarrow> pool_env \<Rightarrow> string list list \<Rightarrow> 'v list \<Rightarrow> ttl \<Rightarrow> kv_table
     \<Rightarrow> ('c kv_error + unit) \<times> kv_table" where
  "item_set_multi it protocol env key_parts_list values ttl t =
     (case multi_set_entries it key_parts_list values of
        Inl e \<Rightarrow> (Inl e, t)
      | Inr entries \<Rightarrow> set_bytes_multi protocol env entries ttl t)"

definition item_set_multi_in_current_transaction ::
    "('v, 'k, 'c) item \<Rightarrow> string \<Rightarrow> admission_reply \<Rightarrow> micros \<Rightarrow> string list list \<Rightarrow> 'v list \<Rightarrow> ttl \<Rightarrow> kv_table tx
     \<Rightarrow> ('c kv_error + unit) \<times> kv_table tx" where
  "item_set_multi_in_current_transaction it protocol reply now key_parts_list values ttl tx =
     (case multi_set_entries it key_parts_list values of
        Inl e \<Rightarrow> (Inl e, tx)
      | Inr entries \<Rightarrow> set_bytes_multi_in_current_transaction protocol reply now entries ttl tx)"

section \<open>Reading\<close>

definition item_get :: "('v, 'k, 'c) item \<Rightarrow> string \<Rightarrow> pool_env \<Rightarrow> string list \<Rightarrow> kv_table \<Rightarrow> 'c kv_error + 'v" where
  "item_get it protocol env key_parts t =
     with_key it key_parts Inl (\<lambda>key.
       result_bind (get_bytes protocol env key t) (decode_value_for_key it key))"

definition item_get_in_current_transaction ::
    "('v, 'k, 'c) item \<Rightarrow> string \<Rightarrow> admission_reply \<Rightarrow> micros \<Rightarrow> string list \<Rightarrow> kv_table tx
     \<Rightarrow> ('c kv_error + 'v) \<times> kv_table tx" where
  "item_get_in_current_transaction it protocol reply now key_parts tx =
     with_key it key_parts (\<lambda>e. (Inl e, tx)) (\<lambda>key.
       do_then (get_bytes_in_current_transaction protocol reply now key tx)
         (\<lambda>bs tx. (decode_value_for_key it key bs, tx)))"

definition stamped ::
    "('v, 'k, 'c) item \<Rightarrow> string \<Rightarrow> bytes \<times> micros \<Rightarrow> 'c kv_error + 'v item_with_timestamp" where
  "stamped it key row = map_sum id (\<lambda>v. \<lparr>stamped_value = v, stamped_at = snd row\<rparr>)
     (decode_value_for_key it key (fst row))"

definition item_get_and_return_database_timestamp ::
    "('v, 'k, 'c) item \<Rightarrow> string \<Rightarrow> pool_env \<Rightarrow> string list \<Rightarrow> kv_table \<Rightarrow> 'c kv_error + 'v item_with_timestamp" where
  "item_get_and_return_database_timestamp it protocol env key_parts t =
     with_key it key_parts Inl (\<lambda>key.
       result_bind (get_bytes_and_return_database_timestamp protocol env key t) (stamped it key))"

definition item_get_and_return_database_timestamp_in_current_transaction ::
    "('v, 'k, 'c) item \<Rightarrow> string \<Rightarrow> admission_reply \<Rightarrow> micros \<Rightarrow> string list \<Rightarrow> kv_table tx
     \<Rightarrow> ('c kv_error + 'v item_with_timestamp) \<times> kv_table tx" where
  "item_get_and_return_database_timestamp_in_current_transaction it protocol reply now key_parts tx =
     with_key it key_parts (\<lambda>e. (Inl e, tx)) (\<lambda>key.
       do_then (get_bytes_and_return_database_timestamp_in_current_transaction protocol reply now key tx)
         (\<lambda>row tx. (stamped it key row, tx)))"

definition item_get_or_fallback ::
    "('v, 'k, 'c) item \<Rightarrow> string \<Rightarrow> pool_env \<Rightarrow> string list \<Rightarrow> 'v \<Rightarrow> kv_table \<Rightarrow> 'c kv_error + 'v" where
  "item_get_or_fallback it protocol env key_parts fallback t =
     (case item_get it protocol env key_parts t of
        Inr v \<Rightarrow> Inr v
      | Inl KvKeyNotFound \<Rightarrow> Inr fallback
      | Inl e \<Rightarrow> Inl e)"

definition item_get_multi ::
    "('v, 'k, 'c) item \<Rightarrow> string \<Rightarrow> pool_env \<Rightarrow> ((string \<times> bytes) list \<Rightarrow> (string \<times> bytes) list)
     \<Rightarrow> string list list \<Rightarrow> kv_table \<Rightarrow> 'c kv_error + 'v option list" where
  "item_get_multi it protocol env arrange key_parts_list t =
     result_bind (keys_from_parts_list_for_multi_get it key_parts_list) (\<lambda>keys.
     result_bind (get_bytes_multi protocol env arrange keys t) (decode_multi_values it keys))"

definition item_get_multi_in_current_transaction ::
    "('v, 'k, 'c) item \<Rightarrow> string \<Rightarrow> admission_reply \<Rightarrow> micros \<Rightarrow> ((string \<times> bytes) list \<Rightarrow> (string \<times> bytes) list)
     \<Rightarrow> string list list \<Rightarrow> kv_table tx \<Rightarrow> ('c kv_error + 'v option list) \<times> kv_table tx" where
  "item_get_multi_in_current_transaction it protocol reply now arrange key_parts_list tx =
     (case keys_from_parts_list_for_multi_get it key_parts_list of
        Inl e \<Rightarrow> (Inl e, tx)
      | Inr keys \<Rightarrow> do_then (get_bytes_multi_in_current_transaction protocol reply now arrange keys tx)
          (\<lambda>values tx. (decode_multi_values it keys values, tx)))"

definition item_check_exists ::
    "('v, 'k, 'c) item \<Rightarrow> string \<Rightarrow> pool_env \<Rightarrow> string list \<Rightarrow> kv_table \<Rightarrow> 'c kv_error + bool" where
  "item_check_exists it protocol env key_parts t =
     with_key it key_parts Inl (\<lambda>key. check_key_exists protocol env key t)"

definition item_check_exists_in_current_transaction ::
    "('v, 'k, 'c) item \<Rightarrow> string \<Rightarrow> admission_reply \<Rightarrow> micros \<Rightarrow> string list \<Rightarrow> kv_table tx
     \<Rightarrow> ('c kv_error + bool) \<times> kv_table tx" where
  "item_check_exists_in_current_transaction it protocol reply now key_parts tx =
     with_key it key_parts (\<lambda>e. (Inl e, tx)) (\<lambda>key. check_key_exists_in_current_transaction protocol reply now key tx)"

definition item_count :: "('v, 'k, 'c) item \<Rightarrow> string \<Rightarrow> pool_env \<Rightarrow> kv_table \<Rightarrow> 'c kv_error + nat" where
  "item_count it protocol env t = count_live_keys_with_prefix protocol env (item_prefix it) t"

definition item_count_in_current_transaction ::
    "('v, 'k, 'c) item \<Rightarrow> string \<Rightarrow> admission_reply \<Rightarrow> micros \<Rightarrow> kv_table tx \<Rightarrow> ('c kv_error + nat) \<times> kv_table tx" where
  "item_count_in_current_transaction it protocol reply now tx =
     count_live_keys_with_prefix_in_current_transaction protocol reply now (item_prefix it) tx"

definition item_scan ::
    "('v, 'k, 'c) item \<Rightarrow> string \<Rightarrow> pool_env \<Rightarrow> string option \<Rightarrow> nat \<Rightarrow> kv_table
     \<Rightarrow> 'c kv_error + 'v item_scanned_value list" where
  "item_scan it protocol env after_key_suffix limit t =
     result_bind (after_key_from_optional_suffix it after_key_suffix) (\<lambda>after_key.
     result_bind (scan_bytes_with_prefix protocol env (item_prefix it) after_key limit t) (decode_scanned_rows it))"

definition item_scan_in_current_transaction ::
    "('v, 'k, 'c) item \<Rightarrow> string \<Rightarrow> admission_reply \<Rightarrow> micros \<Rightarrow> string option \<Rightarrow> nat \<Rightarrow> kv_table tx
     \<Rightarrow> ('c kv_error + 'v item_scanned_value list) \<times> kv_table tx" where
  "item_scan_in_current_transaction it protocol reply now after_key_suffix limit tx =
     (case after_key_from_optional_suffix it after_key_suffix of
        Inl e \<Rightarrow> (Inl e, tx)
      | Inr after_key \<Rightarrow>
          do_then (scan_bytes_with_prefix_in_current_transaction protocol reply now (item_prefix it) after_key limit tx)
            (\<lambda>rows tx. (decode_scanned_rows it rows, tx)))"

definition item_scan_key_suffixes ::
    "('v, 'k, 'c) item \<Rightarrow> string \<Rightarrow> pool_env \<Rightarrow> string option \<Rightarrow> nat \<Rightarrow> kv_table \<Rightarrow> 'c kv_error + string list" where
  "item_scan_key_suffixes it protocol env after_key_suffix limit t =
     result_bind (after_key_from_optional_suffix it after_key_suffix) (\<lambda>after_key.
     map_sum id (map (suffix_from_key it))
       (scan_keys_with_prefix protocol env (item_prefix it) after_key limit t))"

definition item_scan_key_suffixes_in_current_transaction ::
    "('v, 'k, 'c) item \<Rightarrow> string \<Rightarrow> admission_reply \<Rightarrow> micros \<Rightarrow> string option \<Rightarrow> nat \<Rightarrow> kv_table tx
     \<Rightarrow> ('c kv_error + string list) \<times> kv_table tx" where
  "item_scan_key_suffixes_in_current_transaction it protocol reply now after_key_suffix limit tx =
     (case after_key_from_optional_suffix it after_key_suffix of
        Inl e \<Rightarrow> (Inl e, tx)
      | Inr after_key \<Rightarrow>
          do_then (scan_keys_with_prefix_in_current_transaction protocol reply now (item_prefix it) after_key limit tx)
            (\<lambda>keys tx. (Inr (map (suffix_from_key it) keys), tx)))"

section \<open>Lifecycle\<close>

definition item_delete ::
    "('v, 'k, 'c) item \<Rightarrow> string \<Rightarrow> pool_env \<Rightarrow> string list \<Rightarrow> kv_table \<Rightarrow> ('c kv_error + unit) \<times> kv_table" where
  "item_delete it protocol env key_parts t =
     with_key it key_parts (\<lambda>e. (Inl e, t)) (\<lambda>key. delete_key protocol env key t)"

definition item_delete_in_current_transaction ::
    "('v, 'k, 'c) item \<Rightarrow> string \<Rightarrow> admission_reply \<Rightarrow> micros \<Rightarrow> string list \<Rightarrow> kv_table tx
     \<Rightarrow> ('c kv_error + unit) \<times> kv_table tx" where
  "item_delete_in_current_transaction it protocol reply now key_parts tx =
     with_key it key_parts (\<lambda>e. (Inl e, tx)) (\<lambda>key. delete_key_in_current_transaction protocol reply now key tx)"

definition item_touch ::
    "('v, 'k, 'c) item \<Rightarrow> string \<Rightarrow> pool_env \<Rightarrow> string list \<Rightarrow> kv_table \<Rightarrow> ('c kv_error + unit) \<times> kv_table" where
  "item_touch it protocol env key_parts t =
     with_key it key_parts (\<lambda>e. (Inl e, t)) (\<lambda>key. touch_key protocol env key t)"

definition item_touch_in_current_transaction ::
    "('v, 'k, 'c) item \<Rightarrow> string \<Rightarrow> admission_reply \<Rightarrow> micros \<Rightarrow> string list \<Rightarrow> kv_table tx
     \<Rightarrow> ('c kv_error + unit) \<times> kv_table tx" where
  "item_touch_in_current_transaction it protocol reply now key_parts tx =
     with_key it key_parts (\<lambda>e. (Inl e, tx)) (\<lambda>key. touch_key_in_current_transaction protocol reply now key tx)"

definition item_set_ttl ::
    "('v, 'k, 'c) item \<Rightarrow> string \<Rightarrow> pool_env \<Rightarrow> string list \<Rightarrow> ttl \<Rightarrow> kv_table \<Rightarrow> ('c kv_error + unit) \<times> kv_table" where
  "item_set_ttl it protocol env key_parts ttl t =
     with_key it key_parts (\<lambda>e. (Inl e, t)) (\<lambda>key. set_key_ttl protocol env key ttl t)"

definition item_set_ttl_in_current_transaction ::
    "('v, 'k, 'c) item \<Rightarrow> string \<Rightarrow> admission_reply \<Rightarrow> micros \<Rightarrow> string list \<Rightarrow> ttl \<Rightarrow> kv_table tx
     \<Rightarrow> ('c kv_error + unit) \<times> kv_table tx" where
  "item_set_ttl_in_current_transaction it protocol reply now key_parts ttl tx =
     with_key it key_parts (\<lambda>e. (Inl e, tx)) (\<lambda>key. set_key_ttl_in_current_transaction protocol reply now key ttl tx)"

definition item_expire ::
    "('v, 'k, 'c) item \<Rightarrow> string \<Rightarrow> pool_env \<Rightarrow> string list \<Rightarrow> kv_table \<Rightarrow> ('c kv_error + unit) \<times> kv_table" where
  "item_expire it protocol env key_parts t =
     with_key it key_parts (\<lambda>e. (Inl e, t)) (\<lambda>key. expire_key protocol env key t)"

definition item_expire_in_current_transaction ::
    "('v, 'k, 'c) item \<Rightarrow> string \<Rightarrow> admission_reply \<Rightarrow> micros \<Rightarrow> string list \<Rightarrow> kv_table tx
     \<Rightarrow> ('c kv_error + unit) \<times> kv_table tx" where
  "item_expire_in_current_transaction it protocol reply now key_parts tx =
     with_key it key_parts (\<lambda>e. (Inl e, tx)) (\<lambda>key. expire_key_in_current_transaction protocol reply now key tx)"

text \<open>
  The loop over batches, one reply of the admission per batch. \<open>None\<close> is a loop still running when
  the list ends. The code's \<open>u64\<close> sum cannot overflow: it counts rows of one table.
\<close>

fun delete_namespace_loop ::
    "('v, 'k, 'c) item \<Rightarrow> string \<Rightarrow> admission_reply list \<Rightarrow> nat \<Rightarrow> kv_table tx
     \<Rightarrow> (('c kv_error + nat) \<times> kv_table tx) option" where
  "delete_namespace_loop it protocol [] total_deleted tx = None"
| "delete_namespace_loop it protocol (reply # rest) total_deleted tx =
     (case delete_namespace_keys_with_prefix_once_in_current_transaction protocol reply (item_prefix it)
         MAX_KV_DELETE_BATCH_SIZE tx of
        (Inl e, tx) \<Rightarrow> Some (Inl e, tx)
      | (Inr deleted, tx) \<Rightarrow>
          if deleted < MAX_KV_DELETE_BATCH_SIZE then Some (Inr (total_deleted + deleted), tx)
          else delete_namespace_loop it protocol rest (total_deleted + deleted) tx)"

definition delete_entire_namespace_in_current_transaction ::
    "('v, 'k, 'c) item \<Rightarrow> string \<Rightarrow> admission_reply list \<Rightarrow> kv_table tx
     \<Rightarrow> (('c kv_error + nat) \<times> kv_table tx) option" where
  "delete_entire_namespace_in_current_transaction it protocol replies tx =
     delete_namespace_loop it protocol replies 0 tx"

definition delete_entire_namespace_atomically ::
    "('v, 'k, 'c) item \<Rightarrow> string \<Rightarrow> pool_env \<Rightarrow> admission_reply list \<Rightarrow> kv_table
     \<Rightarrow> (('c kv_error + nat) \<times> kv_table) option" where
  "delete_entire_namespace_atomically it protocol env replies t =
     (case env_begin env of
        Some _ \<Rightarrow> Some (kv_pool_write ''kv.item.delete_entire_namespace_atomically'' env (\<lambda>tx. (Inr 0, tx)) t)
      | None \<Rightarrow> map_option (\<lambda>r. kv_pool_write ''kv.item.delete_entire_namespace_atomically'' env (\<lambda>_. r) t)
          (delete_entire_namespace_in_current_transaction it protocol replies (begin_transaction t)))"

section \<open>Slots\<close>

text \<open>
  What the statements of an acquisition meet: the two moments of the acquiring statements, the rows
  locked by others, the row the server picks, and the moment of the write that follows when the item is
  encrypted.
\<close>

record slot_env =
  slot_reply :: admission_reply
  slot_now :: micros
  slot_acquire_now :: micros
  slot_locked :: "string set"
  slot_pick :: "string list \<Rightarrow> string"
  slot_write_now :: micros

definition delete_key_in_transaction ::
    "string \<Rightarrow> admission_reply \<Rightarrow> string \<Rightarrow> kv_table tx \<Rightarrow> ('c kv_error + unit) \<times> kv_table tx" where
  "delete_key_in_transaction protocol reply key tx =
     delete_key_for_atomic_mutation
       \<lparr>atomic_protocol = protocol, atomic_reply = reply, lock_attempts = (\<lambda>_. (True, 0)), apply_now = 0\<rparr> key tx"

definition acquire_prepared_slot_in_current_transaction ::
    "('v, 'k, 'c) item \<Rightarrow> string \<Rightarrow> slot_env \<Rightarrow> prepared_slot_candidate_keys \<Rightarrow> 'v \<Rightarrow> ttl \<Rightarrow> kv_table tx
     \<Rightarrow> ('c kv_error + string option) \<times> kv_table tx" where
  "acquire_prepared_slot_in_current_transaction it protocol env prepared v ttl tx =
     (case positive_expiring_ttl_microseconds ttl of
        Inl e \<Rightarrow> (Inl e, tx)
      | Inr _ \<Rightarrow>
          if slot_keys prepared = [] then (Inr None, tx)
          else
            let acquire = (\<lambda>bs. acquire_slot_bytes_in_current_transaction protocol (slot_reply env) (slot_now env)
                  (slot_acquire_now env) (slot_locked env) (slot_pick env) (slot_keys prepared) bs ttl tx)
            in do_then
              (with_codec it
                (case encode_value_for_key it (hd (slot_keys prepared)) v of
                   Inl e \<Rightarrow> (Inl e, tx)
                 | Inr bs \<Rightarrow> acquire bs)
                (\<lambda>keyset. case map_sum KvCodec id (to_plaintext_bytes it v) of
                   Inl e \<Rightarrow> (Inl e, tx)
                 | Inr plaintext \<Rightarrow> do_then (acquire []) (\<lambda>acquired tx. case acquired of
                     None \<Rightarrow> (Inr None, tx)
                   | Some key \<Rightarrow>
                       (case seal it keyset plaintext (item_associated_data key) of
                          Inl e \<Rightarrow> do_then (delete_key_in_transaction protocol (slot_reply env) key tx)
                            (\<lambda>_ tx. (Inl (KvCodec e), tx))
                        | Inr bs \<Rightarrow> do_then
                            (set_bytes_in_current_transaction protocol (slot_reply env) (slot_write_now env) key bs ttl tx)
                            (\<lambda>_ tx. (Inr (Some key), tx)))))
                (\<lambda>e. (Inl e, tx)))
              (\<lambda>acquired tx. (Inr (Option.bind acquired (key_to_suffix prepared)), tx)))"

definition item_acquire_slot_in_current_transaction ::
    "('v, 'k, 'c) item \<Rightarrow> string \<Rightarrow> slot_env \<Rightarrow> string list \<Rightarrow> 'v \<Rightarrow> ttl \<Rightarrow> kv_table tx
     \<Rightarrow> ('c kv_error + string option) \<times> kv_table tx" where
  "item_acquire_slot_in_current_transaction it protocol env candidate_suffixes v ttl tx =
     (case prepare_slot_candidate_keys it candidate_suffixes of
        Inl e \<Rightarrow> (Inl e, tx)
      | Inr prepared \<Rightarrow> acquire_prepared_slot_in_current_transaction it protocol env prepared v ttl tx)"

definition item_acquire_slot ::
    "('v, 'k, 'c) item \<Rightarrow> string \<Rightarrow> pool_env \<Rightarrow> slot_env \<Rightarrow> string list \<Rightarrow> 'v \<Rightarrow> ttl \<Rightarrow> kv_table
     \<Rightarrow> ('c kv_error + string option) \<times> kv_table" where
  "item_acquire_slot it protocol env senv candidate_suffixes v ttl t =
     (case prepare_slot_candidate_keys it candidate_suffixes of
        Inl e \<Rightarrow> (Inl e, t)
      | Inr prepared \<Rightarrow>
          (case positive_expiring_ttl_microseconds ttl of
             Inl e \<Rightarrow> (Inl e, t)
           | Inr _ \<Rightarrow>
               if slot_keys prepared = [] then (Inr None, t)
               else kv_pool_write ''kv.item.acquire_slot'' env
                 (acquire_prepared_slot_in_current_transaction it protocol (senv\<lparr>slot_reply := env_reply env\<rparr>)
                    prepared v ttl) t))"

section \<open>Atomic mutation\<close>

text \<open>
  As in \<open>KvAtomic\<close>, a callback returns what its closure captured beside its decision.
\<close>

definition decide_get_or_init ::
    "('v, 'k, 'c) item \<Rightarrow> string \<Rightarrow> 'v \<Rightarrow> ttl \<Rightarrow> atomic_current \<Rightarrow> 'c kv_error + (atomic_mutation \<times> 'v)" where
  "decide_get_or_init it key initial_value ttl current =
     (case current_live_value current of
        Some bs \<Rightarrow> map_sum id (\<lambda>v. (KeepExisting, v)) (decode_value_for_key it key bs)
      | None \<Rightarrow> map_sum id (\<lambda>bs. (SetBytes bs ttl, initial_value)) (encode_value_for_key it key initial_value))"

definition get_or_init_in_transaction_internal ::
    "('v, 'k, 'c) item \<Rightarrow> atomic_env \<Rightarrow> string list \<Rightarrow> 'v \<Rightarrow> ttl \<Rightarrow> bool \<Rightarrow> kv_table tx
     \<Rightarrow> ('c kv_error + 'v item_get_or_init_result) \<times> kv_table tx" where
  "get_or_init_in_transaction_internal it env key_parts initial_value ttl cleanup tx =
     with_key it key_parts (\<lambda>e. (Inl e, tx)) (\<lambda>key.
       do_then (mutate_key_atomically_in_transaction_internal id env key
           (decide_get_or_init it key initial_value ttl) cleanup tx)
         (\<lambda>(result, v) tx. (Inr \<lparr>got_value = v, got_initialized = (result_outcome result = DidSetBytes)\<rparr>, tx)))"

definition get_or_init_in_current_transaction ::
    "('v, 'k, 'c) item \<Rightarrow> atomic_env \<Rightarrow> string list \<Rightarrow> 'v \<Rightarrow> ttl \<Rightarrow> kv_table tx
     \<Rightarrow> ('c kv_error + 'v item_get_or_init_result) \<times> kv_table tx" where
  "get_or_init_in_current_transaction it env key_parts initial_value ttl tx =
     get_or_init_in_transaction_internal it env key_parts initial_value ttl True tx"

definition get_or_init ::
    "('v, 'k, 'c) item \<Rightarrow> pool_env \<Rightarrow> atomic_env \<Rightarrow> string list \<Rightarrow> 'v \<Rightarrow> ttl \<Rightarrow> kv_table
     \<Rightarrow> ('c kv_error + 'v item_get_or_init_result) \<times> kv_table" where
  "get_or_init it env aenv key_parts initial_value ttl t =
     kv_pool_write ''kv.item.get_or_init'' env
       (get_or_init_in_transaction_internal it (aenv\<lparr>atomic_reply := env_reply env\<rparr>) key_parts initial_value ttl False) t"

definition decide_item ::
    "('c kv_error \<Rightarrow> 'e) \<Rightarrow> ('v, 'k, 'c) item \<Rightarrow> string \<Rightarrow> ('v item_atomic_current \<Rightarrow> 'e + ('v item_atomic_mutation \<times> 'o))
     \<Rightarrow> atomic_current \<Rightarrow> 'e + (atomic_mutation \<times> ('v option \<times> 'o))" where
  "decide_item into_error it key decide current =
     result_bind (map_sum into_error id
       (transpose_option (map_option (decode_value_for_key it key) (current_live_value current)))) (\<lambda>previous.
     result_bind (decide \<lparr>item_live_value = previous, item_timestamp = current_timestamp current\<rparr>) (\<lambda>(m, c).
     map_sum id (\<lambda>mutation. (mutation, (previous, c))) (encode_atomic_mutation_for_key into_error it key m)))"

definition mutate_item_in_transaction_internal ::
    "('c kv_error \<Rightarrow> 'e) \<Rightarrow> ('v, 'k, 'c) item \<Rightarrow> atomic_env \<Rightarrow> string list
     \<Rightarrow> ('v item_atomic_current \<Rightarrow> 'e + ('v item_atomic_mutation \<times> 'o)) \<Rightarrow> bool \<Rightarrow> kv_table tx
     \<Rightarrow> ('e + ('v item_atomic_result \<times> 'o)) \<times> kv_table tx" where
  "mutate_item_in_transaction_internal into_error it env key_parts decide cleanup tx =
     with_key it key_parts (\<lambda>e. (Inl (into_error e), tx)) (\<lambda>key.
       do_then (mutate_key_atomically_in_transaction_internal into_error env key
           (decide_item into_error it key decide) cleanup tx)
         (\<lambda>(raw, (previous, c)) tx.
            (Inr (\<lparr>item_previous_live_value = previous, item_outcome = result_outcome raw\<rparr>, c), tx)))"

definition decide_live_item ::
    "('c kv_error \<Rightarrow> 'e) \<Rightarrow> ('v, 'k, 'c) item \<Rightarrow> string
     \<Rightarrow> ('v item_atomic_live_current \<Rightarrow> 'e + ('v item_atomic_mutation \<times> 'o))
     \<Rightarrow> atomic_current \<Rightarrow> 'e + (atomic_mutation \<times> ('v \<times> 'o))" where
  "decide_live_item into_error it key decide current =
     (case current_live_value current of
        None \<Rightarrow> Inl (into_error KvKeyNotFound)
      | Some bs \<Rightarrow>
          result_bind (map_sum into_error id (decode_value_for_key it key bs)) (\<lambda>v.
          result_bind (decide \<lparr>item_live = v, item_live_timestamp = current_timestamp current\<rparr>) (\<lambda>(m, c).
          map_sum id (\<lambda>mutation. (mutation, (v, c))) (encode_atomic_mutation_for_key into_error it key m))))"

definition mutate_live_item_in_transaction_internal ::
    "('c kv_error \<Rightarrow> 'e) \<Rightarrow> ('v, 'k, 'c) item \<Rightarrow> atomic_env \<Rightarrow> string list
     \<Rightarrow> ('v item_atomic_live_current \<Rightarrow> 'e + ('v item_atomic_mutation \<times> 'o)) \<Rightarrow> bool \<Rightarrow> kv_table tx
     \<Rightarrow> ('e + ('v item_atomic_live_result \<times> 'o)) \<times> kv_table tx" where
  "mutate_live_item_in_transaction_internal into_error it env key_parts decide cleanup tx =
     with_key it key_parts (\<lambda>e. (Inl (into_error e), tx)) (\<lambda>key.
       do_then (mutate_key_atomically_in_transaction_internal into_error env key
           (decide_live_item into_error it key decide) cleanup tx)
         (\<lambda>(raw, (previous, c)) tx.
            (Inr (\<lparr>item_live_previous_live_value = previous, item_live_outcome = result_outcome raw\<rparr>, c), tx)))"

definition initialize_item ::
    "('c kv_error \<Rightarrow> 'e) \<Rightarrow> ('v, 'k, 'c) item \<Rightarrow> string \<Rightarrow> (micros \<Rightarrow> 'e + ('v \<times> ttl)) \<Rightarrow> micros \<Rightarrow> 'e + (bytes \<times> ttl)"
where
  "initialize_item into_error it key initialize now =
     result_bind (initialize now) (\<lambda>(v, ttl).
     result_bind (map_sum into_error id (ttl_positive_microseconds ttl)) (\<lambda>_.
     map_sum into_error (\<lambda>bs. (bs, ttl)) (encode_value_for_key it key v)))"

definition decide_initialized_item ::
    "('c kv_error \<Rightarrow> 'e) \<Rightarrow> ('v, 'k, 'c) item \<Rightarrow> string
     \<Rightarrow> ('v item_atomic_live_current \<Rightarrow> 'e + ('v item_atomic_mutation \<times> 'o))
     \<Rightarrow> atomic_live_current \<Rightarrow> 'e + (atomic_mutation \<times> ('v \<times> 'o))" where
  "decide_initialized_item into_error it key decide current =
     result_bind (map_sum into_error id (decode_value_for_key it key (live_current_value current))) (\<lambda>v.
     result_bind (decide \<lparr>item_live = v, item_live_timestamp = live_current_timestamp current\<rparr>) (\<lambda>(m, c).
     map_sum id (\<lambda>mutation. (mutation, (v, c))) (encode_atomic_mutation_for_key into_error it key m)))"

definition mutate_live_or_init_item_in_transaction_internal ::
    "('c kv_error \<Rightarrow> 'e) \<Rightarrow> ('v, 'k, 'c) item \<Rightarrow> atomic_env \<Rightarrow> string list \<Rightarrow> (micros \<Rightarrow> 'e + ('v \<times> ttl))
     \<Rightarrow> ('v item_atomic_live_current \<Rightarrow> 'e + ('v item_atomic_mutation \<times> 'o)) \<Rightarrow> bool \<Rightarrow> kv_table tx
     \<Rightarrow> ('e + ('v item_atomic_live_or_init_result \<times> 'o)) \<times> kv_table tx" where
  "mutate_live_or_init_item_in_transaction_internal into_error it env key_parts initialize decide cleanup tx =
     with_key it key_parts (\<lambda>e. (Inl (into_error e), tx)) (\<lambda>key.
       do_then (mutate_live_key_or_insert_initial_value_atomically_in_transaction_internal into_error env key
           (initialize_item into_error it key initialize) (decide_initialized_item into_error it key decide) cleanup tx)
         (\<lambda>(raw, (v, c)) tx.
            (Inr (\<lparr>item_initialized = init_result_initialized raw, item_live_value_seen = v,
                   item_init_outcome = init_result_outcome raw\<rparr>, c), tx)))"

text \<open>The public variants.\<close>

definition item_mutate_atomically_in_current_transaction ::
    "('c kv_error \<Rightarrow> 'e) \<Rightarrow> ('v, 'k, 'c) item \<Rightarrow> atomic_env \<Rightarrow> string list \<Rightarrow>
     ('v item_atomic_current \<Rightarrow> 'e + ('v item_atomic_mutation \<times> 'o)) \<Rightarrow> kv_table tx
     \<Rightarrow> ('e + ('v item_atomic_result \<times> 'o)) \<times> kv_table tx" where
  "item_mutate_atomically_in_current_transaction into_error it env key_parts decide tx =
     mutate_item_in_transaction_internal into_error it env key_parts decide True tx"

definition item_mutate_atomically ::
    "('c kv_error \<Rightarrow> 'e) \<Rightarrow> ('v, 'k, 'c) item \<Rightarrow> pool_env \<Rightarrow> atomic_env \<Rightarrow> string list \<Rightarrow>
     ('v item_atomic_current \<Rightarrow> 'e + ('v item_atomic_mutation \<times> 'o)) \<Rightarrow> kv_table
     \<Rightarrow> ('e + ('v item_atomic_result \<times> 'o)) \<times> kv_table" where
  "item_mutate_atomically into_error it env aenv key_parts decide t =
     kv_callback_pool into_error ''kv.item.mutate_atomically'' env
       (mutate_item_in_transaction_internal into_error it (aenv\<lparr>atomic_reply := env_reply env\<rparr>)
          key_parts decide False) t"

definition item_mutate_live_atomically_in_current_transaction ::
    "('c kv_error \<Rightarrow> 'e) \<Rightarrow> ('v, 'k, 'c) item \<Rightarrow> atomic_env \<Rightarrow> string list \<Rightarrow>
     ('v item_atomic_live_current \<Rightarrow> 'e + ('v item_atomic_mutation \<times> 'o)) \<Rightarrow> kv_table tx
     \<Rightarrow> ('e + ('v item_atomic_live_result \<times> 'o)) \<times> kv_table tx" where
  "item_mutate_live_atomically_in_current_transaction into_error it env key_parts decide tx =
     mutate_live_item_in_transaction_internal into_error it env key_parts decide True tx"

definition item_mutate_live_atomically ::
    "('c kv_error \<Rightarrow> 'e) \<Rightarrow> ('v, 'k, 'c) item \<Rightarrow> pool_env \<Rightarrow> atomic_env \<Rightarrow> string list \<Rightarrow>
     ('v item_atomic_live_current \<Rightarrow> 'e + ('v item_atomic_mutation \<times> 'o)) \<Rightarrow> kv_table
     \<Rightarrow> ('e + ('v item_atomic_live_result \<times> 'o)) \<times> kv_table" where
  "item_mutate_live_atomically into_error it env aenv key_parts decide t =
     kv_callback_pool into_error ''kv.item.mutate_live_atomically'' env
       (mutate_live_item_in_transaction_internal into_error it (aenv\<lparr>atomic_reply := env_reply env\<rparr>)
          key_parts decide False) t"

definition item_mutate_live_or_insert_initial_value_atomically_in_current_transaction ::
    "('c kv_error \<Rightarrow> 'e) \<Rightarrow> ('v, 'k, 'c) item \<Rightarrow> atomic_env \<Rightarrow> string list \<Rightarrow> (micros \<Rightarrow> 'e + ('v \<times> ttl)) \<Rightarrow>
     ('v item_atomic_live_current \<Rightarrow> 'e + ('v item_atomic_mutation \<times> 'o)) \<Rightarrow> kv_table tx
     \<Rightarrow> ('e + ('v item_atomic_live_or_init_result \<times> 'o)) \<times> kv_table tx" where
  "item_mutate_live_or_insert_initial_value_atomically_in_current_transaction into_error it env key_parts initialize decide tx =
     mutate_live_or_init_item_in_transaction_internal into_error it env key_parts initialize decide True tx"

definition item_mutate_live_or_insert_initial_value_atomically ::
    "('c kv_error \<Rightarrow> 'e) \<Rightarrow> ('v, 'k, 'c) item \<Rightarrow> pool_env \<Rightarrow> atomic_env \<Rightarrow> string list \<Rightarrow> (micros \<Rightarrow> 'e + ('v \<times> ttl)) \<Rightarrow>
     ('v item_atomic_live_current \<Rightarrow> 'e + ('v item_atomic_mutation \<times> 'o)) \<Rightarrow> kv_table
     \<Rightarrow> ('e + ('v item_atomic_live_or_init_result \<times> 'o)) \<times> kv_table" where
  "item_mutate_live_or_insert_initial_value_atomically into_error it env aenv key_parts initialize decide t =
     kv_callback_pool into_error ''kv.item.mutate_live_or_insert_initial_value_atomically'' env
       (mutate_live_or_init_item_in_transaction_internal into_error it (aenv\<lparr>atomic_reply := env_reply env\<rparr>)
          key_parts initialize decide False) t"

section \<open>Faithful codecs\<close>

text \<open>What the serializer and the envelope document: they read back what they wrote.\<close>

definition faithful :: "('v, 'k, 'c) item \<Rightarrow> bool" where
  "faithful it \<longleftrightarrow>
     (\<forall>v bs. to_plaintext_bytes it v = Inr bs \<longrightarrow> from_plaintext_bytes it bs = Inr v)
     \<and> (\<forall>keyset p ad bs. seal it keyset p ad = Inr bs \<longrightarrow> unseal it keyset bs ad = Inr p)"

lemma item_new_plain_simps [simp]:
  "item_codec (item_new_plain base p) = Plain" "item_prefix (item_new_plain base p) = p"
  "faithful (item_new_plain base p) = faithful base"
  by (simp_all add: item_new_plain_def faithful_def)

lemma encoded_value_decodes:
  assumes "faithful it" "encode_value_for_key it key v = Inr bs"
  shows "decode_value_for_key it key bs = Inr v"
proof (cases "item_codec it")
  case Plain
  then show ?thesis using assms
    by (auto simp: encode_value_for_key_def decode_value_for_key_def with_codec_def faithful_def
        encode_plain_value_def decode_plain_value_def map_sum_eq_Inr_iff)
next
  case (Encrypted g)
  then show ?thesis using assms
    by (cases g) (auto simp: encode_value_for_key_def decode_value_for_key_def with_codec_def faithful_def
        encode_encrypted_value_for_key_def decode_encrypted_value_for_key_def map_sum_eq_Inr_iff result_bind_eq_Inr_iff)
qed

text \<open>The value of an item as a reader sees it.\<close>

definition item_at :: "('v, 'k, 'c) item \<Rightarrow> string \<Rightarrow> micros \<Rightarrow> kv_table \<Rightarrow> ('c kv_error + 'v) option" where
  "item_at it key now t = map_option (decode_value_for_key it key) (get_bytes_statement now key t)"

lemma healthy_get:
  "healthy env \<Longrightarrow> env_rollback env = RolledBack \<Longrightarrow> get_bytes p env key t = get_bytes_with_executor (env_now env) key t"
  by (auto simp: get_bytes_def kv_pool_read_def pool_read_def healthy_def get_bytes_in_current_transaction_def
      fresh_admitted finish_rollback_only_transaction_def split: sum.splits)

lemma kv_pool_write_ok:
  assumes "kv_pool_write operation env (\<lambda>tx. admitted p (env_reply env) KvDatabase work tx) t = (Inr v, t')"
  shows "work t = (Inr v, t')"
proof -
  have ok: "fst (kv_pool_write operation env (\<lambda>tx. admitted p (env_reply env) KvDatabase work tx) t) = Inr v"
    using assms by simp
  have reply: "env_reply env = supported_reply"
  proof (rule ccontr)
    assume "env_reply env \<noteq> supported_reply"
    from kv_pool_write_unadmitted [OF this refl assms] show False by simp
  qed
  show ?thesis
    using assms ok unfolding kv_pool_write_def pool_write_ok_iff
    by (auto simp: pool_write_def finish_write_transaction_def reply fresh_admitted prod_eq_iff
        split: sum.splits prod.splits commit_outcome.splits)
qed

text \<open>C28: What an item stores it reads back: after a successful typed write every later read of the same
  key returns the value until exactly the time to live has passed and then reports the key as absent,
  plainly stored or encrypted, whatever other keys hold.\<close>

theorem item_round_trip:
  assumes "faithful it"
    and "item_set it p env key_parts v ttl t = (Inr (), t')" and "ttl_expires_after d = (Inr ttl :: 'c kv_error + ttl)"
    and "healthy env'" "env_rollback env' = RolledBack"
  shows "item_get (it :: ('v, 'k, 'c) item) p env' key_parts t' =
    (if env_now env' < env_now env + int ((d + 999) div 1000) then Inr v else Inl KvKeyNotFound)"
proof -
  have "\<exists>key bs. item_key_from_parts it key_parts = Inr key \<and> encode_value_for_key it key v = Inr bs
      \<and> set_bytes p env key bs ttl t = (Inr () :: 'c kv_error + unit, t')"
    using assms(2) by (auto simp: item_set_def with_key_and_value_def with_key_def split: sum.splits)
  then obtain key bs where key: "item_key_from_parts it key_parts = Inr key"
    and bs: "encode_value_for_key it key v = Inr bs" and set: "set_bytes p env key bs ttl t = (Inr () :: 'c kv_error + unit, t')" by blast
  have "kv_pool_write ''kv.set_bytes'' env (\<lambda>tx. admitted p (env_reply env) KvDatabase
      (set_bytes_with_executor (env_now env) key bs ttl) tx) t = (Inr () :: 'c kv_error + unit, t')"
    using set unfolding set_bytes_def set_bytes_in_current_transaction_def .
  then have run: "set_bytes_with_executor (env_now env) key bs ttl t = (Inr () :: 'c kv_error + unit, t')"
    by (rule kv_pool_write_ok)
  have "get_bytes_with_executor (env_now env') key t' =
      (if env_now env' < env_now env + int ((d + 999) div 1000) then Inr bs else Inl KvKeyNotFound :: 'c kv_error + bytes)"
    using set_then_get_until_expiry [OF assms(3) run] by blast
  then show ?thesis
    using encoded_value_decodes [OF assms(1) bs]
    by (simp add: item_get_def with_key_def key healthy_get [OF assms(4,5)])
qed

section \<open>Typed atomic mutation\<close>

lemma admit_after_ok: "is_ok (fst (do_then r k)) \<Longrightarrow> is_ok (fst r)"
  by (auto simp: do_then_def split: sum.splits prod.splits)

lemma mutate_ok_admitted:
  assumes "mutate_key_atomically_in_transaction_internal into_error env key decide cleanup tx = (Inr x, tx')"
  shows "fst (admit (atomic_protocol env) (atomic_reply env) tx) = Inr ()"
proof (rule ccontr)
  assume a: "fst (admit (atomic_protocol env) (atomic_reply env) tx) \<noteq> Inr ()"
  then obtain e where "fst (admit (atomic_protocol env) (atomic_reply env) tx) = Inl e"
    by (cases "fst (admit (atomic_protocol env) (atomic_reply env) tx)") auto
  then show False using assms
    by (auto simp: mutate_key_atomically_in_transaction_internal_def map_error_def
        lock_key_for_atomic_mutation_def admitted_error)
qed

lemma live_or_init_ok_admitted:
  assumes "mutate_live_key_or_insert_initial_value_atomically_in_transaction_internal
      into_error env key initialize decide cleanup tx = (Inr x, tx')"
  shows "fst (admit (atomic_protocol env) (atomic_reply env) tx) = Inr ()"
proof -
  obtain y tx1 where "mutate_key_atomically_in_transaction_internal into_error env key
      (decide_or_initialize into_error initialize decide) cleanup tx = (Inr y, tx1)"
    using assms by (auto simp: mutate_live_key_or_insert_initial_value_atomically_in_transaction_internal_def
        do_then_def split: prod.splits sum.splits)
  then show ?thesis by (rule mutate_ok_admitted)
qed

text \<open>What a decision over values does to the table, at the moment \<open>now\<close>.\<close>

definition item_effect ::
    "('v, 'k, 'c) item \<Rightarrow> string \<Rightarrow> micros \<Rightarrow> 'v item_atomic_mutation \<Rightarrow> kv_table \<Rightarrow> kv_table \<Rightarrow> bool" where
  "item_effect it key now m t t' \<longleftrightarrow>
     (case m of
        KeepExistingItem \<Rightarrow> t' = t
      | SetValue v ttl \<Rightarrow> \<exists>bs. encode_value_for_key it key v = Inr bs \<and> t' = t(key \<mapsto> \<lparr>kv_value = bs,
          kv_expires_at = map_option (\<lambda>d. now + ttl_micros d) (ttl_duration ttl), kv_updated_at = now\<rparr>)
      | SetValuePreservingExpiration v \<Rightarrow> \<exists>bs. encode_value_for_key it key v = Inr bs
          \<and> t' = t(key \<mapsto> (the (t key))\<lparr>kv_value := bs, kv_updated_at := now\<rparr>)
      | DeleteItem \<Rightarrow> t' = t(key := None))"

lemma encode_mutation_cases:
  "encode_atomic_mutation_for_key into_error it key m = Inr raw \<longleftrightarrow>
     (case m of
        KeepExistingItem \<Rightarrow> raw = KeepExisting
      | SetValue v ttl \<Rightarrow> \<exists>bs. encode_value_for_key it key v = Inr bs \<and> raw = SetBytes bs ttl
      | SetValuePreservingExpiration v \<Rightarrow> \<exists>bs. encode_value_for_key it key v = Inr bs \<and> raw = SetBytesPreservingExpiration bs
      | DeleteItem \<Rightarrow> raw = Delete)"
  by (auto simp: encode_atomic_mutation_for_key_def map_sum_eq_Inr_iff split: item_atomic_mutation.splits)

lemma mutate_success_sets:
  fixes into_error :: "'c kv_error \<Rightarrow> 'e"
  assumes run: "mutate_key_atomically_in_transaction_internal into_error env key decide cleanup tx = (Inr x, tx')"
    and time: "lock_time env key (tables tx) = Some lock_now"
    and d: "decide \<lparr>current_live_value = get_bytes_statement lock_now key (tables tx), current_timestamp = lock_now\<rparr>
      = Inr (SetBytes v ttl, c)"
  shows "is_ok (fst (set_bytes_with_executor (apply_now env) key v ttl (tables tx) :: (unit kv_error + unit) \<times> kv_table))"
proof -
  obtain ref t' where ref: "atomic_reference into_error (lock_time env key (tables tx)) (apply_now env) key
      decide (tables tx) = (ref, t')" by fastforce
  have "ref = Inr x" using mutate_matches_reference [OF mutate_ok_admitted [OF run] run ref] by simp
  then have "is_ok (fst (set_bytes_with_executor (apply_now env) key v ttl (tables tx) :: ('c kv_error + unit) \<times> kv_table))"
    using ref d by (auto simp: time atomic_reference_def Let_def split: sum.splits prod.splits)
  then show ?thesis using set_bytes_error_type by blast
qed

text \<open>A value stored with a time to live is there until it has passed.\<close>

lemma stored_row:
  assumes "is_ok (fst (set_bytes_with_executor now key bs ttl t :: (unit kv_error + unit) \<times> kv_table))"
  shows "stored now key bs ttl t = t(key \<mapsto> \<lparr>kv_value = bs,
      kv_expires_at = map_option (\<lambda>d. now + ttl_micros d) (ttl_duration ttl), kv_updated_at = now\<rparr>)"
  using assms
  by (auto simp: stored_def set_bytes_with_executor_def ttl_positive_microseconds_def kv_rounded set_bytes_statement_def
      expires_at_expression_def split: option.splits sum.splits if_splits)

lemma encoded_effect:
  assumes "encode_atomic_mutation_for_key into_error it key m = Inr raw"
    and "\<And>bs ttl. raw = SetBytes bs ttl \<Longrightarrow>
      is_ok (fst (set_bytes_with_executor now key bs ttl t :: (unit kv_error + unit) \<times> kv_table))"
  shows "item_effect it key now m t (case raw of KeepExisting \<Rightarrow> t | SetBytes v ttl \<Rightarrow> stored now key v ttl t
      | SetBytesPreservingExpiration v \<Rightarrow> t(key \<mapsto> (the (t key))\<lparr>kv_value := v, kv_updated_at := now\<rparr>)
      | Delete \<Rightarrow> t(key := None))"
  using assms by (cases m) (auto simp: encode_mutation_cases item_effect_def stored_row)

lemma live_item_success:
  assumes "mutate_live_item_in_transaction_internal into_error it env key_parts decide cleanup tx = (Inr (res, c), tx')"
  shows "\<exists>key lock_now v m. item_key_from_parts it key_parts = Inr key
    \<and> lock_time env key (tables tx) = Some lock_now
    \<and> item_at it key lock_now (tables tx) = Some (Inr v) \<and> item_live_previous_live_value res = v
    \<and> decide \<lparr>item_live = v, item_live_timestamp = lock_now\<rparr> = Inr (m, c)
    \<and> item_effect it key (apply_now env) m (tables tx) (tables tx')"
proof -
  obtain key where key: "item_key_from_parts it key_parts = Inr key"
    using assms by (auto simp: mutate_live_item_in_transaction_internal_def with_key_def split: sum.splits)
  obtain raw tx1 where run: "mutate_key_atomically_in_transaction_internal into_error env key
      (decide_live_item into_error it key decide) cleanup tx
      = (Inr (raw, (item_live_previous_live_value res, c)), tx')"
    using assms unfolding mutate_live_item_in_transaction_internal_def with_key_def key
    by (auto simp: do_then_def split: prod.splits sum.splits)
  obtain lock_now m where t: "lock_time env key (tables tx) = Some lock_now"
    and d: "decide_live_item into_error it key decide \<lparr>current_live_value = get_bytes_statement lock_now key (tables tx),
        current_timestamp = lock_now\<rparr> = Inr (m, (item_live_previous_live_value res, c))"
    and tab: "tables tx' = (case m of KeepExisting \<Rightarrow> tables tx | SetBytes v ttl \<Rightarrow> stored (apply_now env) key v ttl (tables tx)
        | SetBytesPreservingExpiration v \<Rightarrow>
            (tables tx)(key \<mapsto> (the (tables tx key))\<lparr>kv_value := v, kv_updated_at := apply_now env\<rparr>)
        | Delete \<Rightarrow> (tables tx)(key := None))"
    using mutate_success [OF mutate_ok_admitted [OF run] run] by blast
  from d obtain bs m' where bs: "get_bytes_statement lock_now key (tables tx) = Some bs"
    "decode_value_for_key it key bs = Inr (item_live_previous_live_value res)"
    "decide \<lparr>item_live = item_live_previous_live_value res, item_live_timestamp = lock_now\<rparr> = Inr (m', c)"
    "encode_atomic_mutation_for_key into_error it key m' = Inr m"
    by (auto simp: decide_live_item_def result_bind_eq_Inr_iff map_sum_eq_Inr_iff split: option.splits)
  have "item_effect it key (apply_now env) m' (tables tx) (tables tx')"
    unfolding tab by (rule encoded_effect [OF bs(4)], rule mutate_success_sets [OF run t]) (simp add: d)
  then show ?thesis using key t bs(1-3) by (auto simp: item_at_def)
qed

lemma live_or_init_item_success:
  assumes faith: "faithful it"
    and ok: "mutate_live_or_init_item_in_transaction_internal into_error it env key_parts initialize decide cleanup tx
      = (Inr (res, c), tx')"
  shows "\<exists>key lock_now m. item_key_from_parts it key_parts = Inr key
    \<and> lock_time env key (tables tx) = Some lock_now
    \<and> decide \<lparr>item_live = item_live_value_seen res, item_live_timestamp = lock_now\<rparr> = Inr (m, c)
    \<and> (case item_at it key lock_now (tables tx) of
        Some v \<Rightarrow> \<not> item_initialized res \<and> v = Inr (item_live_value_seen res)
          \<and> item_effect it key (apply_now env) m (tables tx) (tables tx')
      | None \<Rightarrow> item_initialized res \<and> (\<exists>ttl. initialize lock_now = Inr (item_live_value_seen res, ttl)
          \<and> item_effect it key (apply_now env)
              (case m of KeepExistingItem \<Rightarrow> SetValue (item_live_value_seen res) ttl
                 | SetValuePreservingExpiration w \<Rightarrow> SetValue w ttl | _ \<Rightarrow> m) (tables tx) (tables tx')))"
proof -
  obtain key where key: "item_key_from_parts it key_parts = Inr key"
    using ok by (auto simp: mutate_live_or_init_item_in_transaction_internal_def with_key_def split: sum.splits)
  let ?init = "initialize_item into_error it key initialize"
  let ?decide = "decide_initialized_item into_error it key decide"
  obtain raw v where raw: "mutate_live_key_or_insert_initial_value_atomically_in_transaction_internal into_error env key
      ?init ?decide cleanup tx = (Inr (raw, (v, c)), tx')"
    and res: "item_live_value_seen res = v" "item_initialized res = init_result_initialized raw"
    using ok unfolding mutate_live_or_init_item_in_transaction_internal_def with_key_def key
    by (auto simp: do_then_def split: prod.splits sum.splits)
  obtain raw0 seen where run: "mutate_key_atomically_in_transaction_internal into_error env key
      (decide_or_initialize into_error ?init ?decide) cleanup tx
        = (Inr (raw0, (init_result_initialized raw, Some seen, (v, c))), tx')"
    using raw unfolding mutate_live_key_or_insert_initial_value_atomically_in_transaction_internal_def
    by (auto simp: do_then_def split: prod.splits sum.splits option.splits)
  obtain lock_now m where t: "lock_time env key (tables tx) = Some lock_now"
    and d: "decide_or_initialize into_error ?init ?decide \<lparr>current_live_value = get_bytes_statement lock_now key (tables tx),
        current_timestamp = lock_now\<rparr> = Inr (m, (init_result_initialized raw, Some seen, (v, c)))"
    and tab: "tables tx' = (case m of KeepExisting \<Rightarrow> tables tx | SetBytes v ttl \<Rightarrow> stored (apply_now env) key v ttl (tables tx)
        | SetBytesPreservingExpiration v \<Rightarrow>
            (tables tx)(key \<mapsto> (the (tables tx key))\<lparr>kv_value := v, kv_updated_at := apply_now env\<rparr>)
        | Delete \<Rightarrow> (tables tx)(key := None))"
    using mutate_success [OF mutate_ok_admitted [OF run] run] by blast
  have sets: "is_ok (fst (set_bytes_with_executor (apply_now env) key bs ttl (tables tx) :: (unit kv_error + unit) \<times> kv_table))"
    if "m = SetBytes bs ttl" for bs ttl
    by (rule mutate_success_sets [OF run t]) (simp add: d that)
  show ?thesis
  proof (cases "get_bytes_statement lock_now key (tables tx)")
    case (Some bs)
    then obtain m' where m': "decode_value_for_key it key bs = Inr v"
        "decide \<lparr>item_live = v, item_live_timestamp = lock_now\<rparr> = Inr (m', c)"
        "encode_atomic_mutation_for_key into_error it key m' = Inr m" "\<not> init_result_initialized raw"
      using d by (auto simp: decide_or_initialize_def decide_initialized_item_def result_bind_eq_Inr_iff map_sum_eq_Inr_iff)
    have "item_effect it key (apply_now env) m' (tables tx) (tables tx')"
      unfolding tab by (rule encoded_effect [OF m'(3) sets])
    then show ?thesis using key t res m' by (simp add: item_at_def Some)
  next
    case None
    obtain bs ttl m1 where i: "?init lock_now = Inr (bs, ttl)"
      and dec: "?decide \<lparr>live_current_value = bs, live_current_timestamp = lock_now\<rparr> = Inr (m1, (v, c))"
      and m: "m = (case m1 of KeepExisting \<Rightarrow> SetBytes bs ttl | SetBytesPreservingExpiration w \<Rightarrow> SetBytes w ttl | m \<Rightarrow> m)"
      and init: "init_result_initialized raw"
      using d None by (auto simp: decide_or_initialize_def split: sum.splits prod.splits)
    obtain v0 where v0: "initialize lock_now = Inr (v0, ttl)" "encode_value_for_key it key v0 = Inr bs"
      using i by (auto simp: initialize_item_def result_bind_eq_Inr_iff map_sum_eq_Inr_iff)
    obtain m' where m': "v0 = v" "decide \<lparr>item_live = v, item_live_timestamp = lock_now\<rparr> = Inr (m', c)"
        "encode_atomic_mutation_for_key into_error it key m' = Inr m1"
      using dec encoded_value_decodes [OF faith v0(2)]
      by (auto simp: decide_initialized_item_def result_bind_eq_Inr_iff map_sum_eq_Inr_iff)
    let ?m = "case m' of KeepExistingItem \<Rightarrow> SetValue v ttl | SetValuePreservingExpiration w \<Rightarrow> SetValue w ttl | _ \<Rightarrow> m'"
    have "encode_atomic_mutation_for_key into_error it key ?m = Inr m"
      using m'(3) v0(2) m'(1) unfolding m by (auto simp: encode_mutation_cases split: item_atomic_mutation.splits)
    then have "item_effect it key (apply_now env) ?m (tables tx) (tables tx')"
      unfolding tab by (rule encoded_effect [OF _ sets])
    then show ?thesis using key t res m' v0(1) init by (auto simp: item_at_def None)
  qed
qed

text \<open>C29: Fetching or initialising an item never overwrites and never invents: a success reports either the live
  value at the moment the row was locked, with the table untouched, or, exactly when there was none, the
  initial value, which is then stored under the given time to live; the flag tells which of the two.\<close>

theorem get_or_init_is_atomic:
  assumes faith: "faithful it"
    and ok: "get_or_init_in_current_transaction it env key_parts initial_value ttl tx = (Inr res, tx')"
  shows "\<exists>key lock_now. item_key_from_parts it key_parts = Inr key
    \<and> lock_time env key (tables tx) = Some lock_now
    \<and> (case item_at it key lock_now (tables tx) of
        Some v \<Rightarrow> \<not> got_initialized res \<and> v = Inr (got_value res) \<and> tables tx' = tables tx
      | None \<Rightarrow> got_initialized res \<and> got_value res = initial_value
          \<and> (\<exists>bs. decode_value_for_key it key bs = Inr initial_value
              \<and> tables tx' = (tables tx)(key \<mapsto> \<lparr>kv_value = bs,
                  kv_expires_at = map_option (\<lambda>d. apply_now env + ttl_micros d) (ttl_duration ttl),
                  kv_updated_at = apply_now env\<rparr>)))"
proof -
  obtain key where key: "item_key_from_parts it key_parts = Inr key"
    using ok by (auto simp: get_or_init_in_current_transaction_def get_or_init_in_transaction_internal_def with_key_def
        split: sum.splits)
  let ?decide = "decide_get_or_init it key initial_value ttl"
  obtain raw v where run: "mutate_key_atomically_in_transaction_internal id env key ?decide True tx = (Inr (raw, v), tx')"
    and res: "res = \<lparr>got_value = v, got_initialized = (result_outcome raw = DidSetBytes)\<rparr>"
    using ok unfolding get_or_init_in_current_transaction_def get_or_init_in_transaction_internal_def with_key_def key
      by (auto simp: do_then_def split: prod.splits sum.splits)
  obtain ref t' where ref: "atomic_reference id (lock_time env key (tables tx)) (apply_now env) key
      ?decide (tables tx) = (ref, t')" by fastforce
  have eq: "ref = Inr (raw, v)" "tables tx' = t'"
    using mutate_matches_reference [OF mutate_ok_admitted [OF run] run ref] by auto
  obtain lock_now m where t: "lock_time env key (tables tx) = Some lock_now"
    and d: "?decide \<lparr>current_live_value = get_bytes_statement lock_now key (tables tx), current_timestamp = lock_now\<rparr> = Inr (m, v)"
    and tab: "tables tx' = (case m of KeepExisting \<Rightarrow> tables tx | SetBytes v ttl \<Rightarrow> stored (apply_now env) key v ttl (tables tx)
        | SetBytesPreservingExpiration v \<Rightarrow>
            (tables tx)(key \<mapsto> (the (tables tx key))\<lparr>kv_value := v, kv_updated_at := apply_now env\<rparr>)
        | Delete \<Rightarrow> (tables tx)(key := None))"
    using mutate_success [OF mutate_ok_admitted [OF run] run] by blast
  have outcome: "result_outcome raw = (case m of KeepExisting \<Rightarrow>
      if get_bytes_statement lock_now key (tables tx) = None then KeptAbsent else KeptLiveValue | _ \<Rightarrow> DidSetBytes)"
    if "m = KeepExisting \<or> (\<exists>bs. m = SetBytes bs ttl)"
    using that ref eq(1) d by (auto simp: t atomic_reference_def Let_def split: sum.splits prod.splits)
  show ?thesis
  proof (cases "get_bytes_statement lock_now key (tables tx)")
    case (Some bs)
    then have m: "m = KeepExisting" "decode_value_for_key it key bs = Inr v"
      using d by (auto simp: decide_get_or_init_def)
    then show ?thesis using key t tab outcome Some by (auto simp: item_at_def res)
  next
    case None
    then obtain bs where m: "m = SetBytes bs ttl" "v = initial_value" "encode_value_for_key it key initial_value = Inr bs"
      using d by (auto simp: decide_get_or_init_def)
    have "is_ok (fst (set_bytes_with_executor (apply_now env) key bs ttl (tables tx) :: (unit kv_error + unit) \<times> kv_table))"
      by (rule mutate_success_sets [OF run t]) (simp add: d m(1))
    then show ?thesis using key t tab outcome None m encoded_value_decodes [OF faith m(3)]
      by (auto simp: item_at_def res stored_row)
  qed
qed

section \<open>Failed mutations\<close>

lemma set_bytes_error_keeps:
  "set_bytes_with_executor now key v ttl t = (Inl e, t') \<Longrightarrow> t' = t"
  by (auto simp: set_bytes_with_executor_def set_bytes_statement_def Let_def split: sum.splits prod.splits)

lemma atomic_reference_error_keeps:
  "atomic_reference into_error lock now key decide t = (Inl e, t') \<Longrightarrow> t' = t"
  by (auto simp: atomic_reference_def Let_def dest: set_bytes_error_keeps
      split: option.splits sum.splits prod.splits atomic_mutation.splits if_splits)

lemma mutate_unadmitted_keeps:
  assumes "mutate_key_atomically_in_transaction_internal into_error env key decide cleanup tx = (r, tx')"
    and "fst (admit (atomic_protocol env) (atomic_reply env) tx) \<noteq> Inr ()"
  shows "tx' = tx \<and> (\<exists>e. r = Inl (into_error (KvDatabase e)))"
proof -
  obtain e where "fst (admit (atomic_protocol env) (atomic_reply env) tx) = Inl e"
    using assms(2) by (cases "fst (admit (atomic_protocol env) (atomic_reply env) tx)") auto
  then show ?thesis using assms(1)
    by (auto simp: mutate_key_atomically_in_transaction_internal_def map_error_def do_then_def
        lock_key_for_atomic_mutation_def admitted_error)
qed

text \<open>A failed mutation in the caller's transaction leaves the tables as they were.\<close>

lemma mutate_error_keeps:
  assumes run: "mutate_key_atomically_in_transaction_internal into_error env key decide True tx = (Inl e, tx')"
    and sets: "sets_succeed (apply_now env) key decide (tables tx)"
  shows "tables tx' = tables tx"
proof (cases "fst (admit (atomic_protocol env) (atomic_reply env) tx) = Inr ()")
  case True
  obtain ref t' where ref: "atomic_reference into_error (lock_time env key (tables tx)) (apply_now env) key
      decide (tables tx) = (ref, t')" by fastforce
  from mutate_matches_reference [OF True run ref] sets have "ref = Inl e" "tables tx' = t'" by simp_all
  then show ?thesis using atomic_reference_error_keeps ref by metis
qed (use mutate_unadmitted_keeps [OF run] in simp)

definition never_sets :: "('cur \<Rightarrow> 'e + ('v item_atomic_mutation \<times> 'o)) \<Rightarrow> bool" where
  "never_sets decide \<longleftrightarrow> (\<forall>current m c. decide current = Inr (m, c) \<longrightarrow> m = KeepExistingItem \<or> m = DeleteItem)"

lemma never_setsD: "never_sets decide \<Longrightarrow> decide current = Inr (m, c) \<Longrightarrow> m = KeepExistingItem \<or> m = DeleteItem"
  unfolding never_sets_def by blast

lemma live_item_error_keeps:
  assumes run: "mutate_live_item_in_transaction_internal into_error it env key_parts decide True tx = (Inl e, tx')"
    and "never_sets decide"
  shows "tables tx' = tables tx"
proof (cases "item_key_from_parts it key_parts")
  case (Inl e)
  then show ?thesis using run by (auto simp: mutate_live_item_in_transaction_internal_def with_key_def)
next
  case (Inr key)
  have sets: "sets_succeed now key (decide_live_item into_error it key decide) t" for now t
    using assms(2) by (auto dest!: never_setsD simp: sets_succeed_def decide_live_item_def result_bind_eq_Inr_iff
        map_sum_eq_Inr_iff encode_atomic_mutation_for_key_def split: option.splits)
  obtain e' where "mutate_key_atomically_in_transaction_internal into_error env key
      (decide_live_item into_error it key decide) True tx = (Inl e', tx')"
    using run Inr unfolding mutate_live_item_in_transaction_internal_def with_key_def
    by (auto simp: do_then_def split: prod.splits sum.splits)
  then show ?thesis by (rule mutate_error_keeps [OF _ sets])
qed

section \<open>Typed slots\<close>

lemma admitted_success:
  assumes "admitted p reply build body tx = (Inr x, tx')"
  shows "body (tables tx) = (Inr x, tables tx')"
proof -
  have "fst (admitted p reply build body tx) = Inr x" using assms by simp
  from admitted_Inr(2,3) [OF this] show ?thesis using assms by (metis prod.collapse snd_conv)
qed

lemma prepare_slots:
  assumes "prepare_slot_candidates it ss d = Inr p" and "dom (key_to_suffix d) = set (slot_keys d)"
  shows "dom (key_to_suffix p) = set (slot_keys p) \<and> set (slot_keys d) \<subseteq> set (slot_keys p)
    \<and> (\<forall>k s. key_to_suffix p k = Some s \<longrightarrow>
        key_to_suffix d k = Some s \<or> s \<in> set ss \<and> item_key_from_parts it [s] = Inr k)
    \<and> (\<forall>s \<in> set ss. \<exists>k \<in> set (slot_keys p). item_key_from_parts it [s] = Inr k)"
  using assms
proof (induction it ss d rule: prepare_slot_candidates.induct)
  case (2 it s rest d)
  then obtain k where k: "item_key_from_parts it [s] = Inr k" "key_to_suffix d k = None"
    and rest: "prepare_slot_candidates it rest
      \<lparr>slot_keys = slot_keys d @ [k], key_to_suffix = (key_to_suffix d)(k \<mapsto> s)\<rparr> = Inr p"
    by (auto simp: result_bind_eq_Inr_iff split: if_splits)
  have dom: "dom (key_to_suffix \<lparr>slot_keys = slot_keys d @ [k], key_to_suffix = (key_to_suffix d)(k \<mapsto> s)\<rparr>)
      = set (slot_keys \<lparr>slot_keys = slot_keys d @ [k], key_to_suffix = (key_to_suffix d)(k \<mapsto> s)\<rparr>)"
    using "2.prems"(2) by simp
  note IH = "2.IH" [OF k(1) _ rest dom]
  have 1: "dom (key_to_suffix p) = set (slot_keys p)" "set (slot_keys d) \<subseteq> set (slot_keys p)"
    "k \<in> set (slot_keys p)"
    and 2: "\<forall>s \<in> set rest. \<exists>k \<in> set (slot_keys p). item_key_from_parts it [s] = Inr k"
    and 3: "\<And>k' s'. key_to_suffix p k' = Some s' \<Longrightarrow> ((key_to_suffix d)(k \<mapsto> s)) k' = Some s'
        \<or> s' \<in> set rest \<and> item_key_from_parts it [s'] = Inr k'"
    using IH k(2) by simp_all
  have "key_to_suffix d k' = Some s' \<or> s' \<in> set (s # rest) \<and> item_key_from_parts it [s'] = Inr k'"
    if "key_to_suffix p k' = Some s'" for k' s'
    using 3 [OF that] k(1) by (cases "k' = k") auto
  then show ?case using 1 2 k(1) by auto
qed auto

lemma slot_set_row:
  assumes "set_bytes_in_current_transaction p reply now key bs ttl tx = (Inr () :: 'c kv_error + unit, tx')"
  shows "tables tx' = (tables tx)(key \<mapsto> \<lparr>kv_value = bs,
      kv_expires_at = map_option (\<lambda>d. now + ttl_micros d) (ttl_duration ttl), kv_updated_at = now\<rparr>)"
proof -
  have s: "set_bytes_with_executor now key bs ttl (tables tx) = (Inr () :: 'c kv_error + unit, tables tx')"
    by (rule admitted_success) (use assms in \<open>simp add: set_bytes_in_current_transaction_def\<close>)
  then have "is_ok (fst (set_bytes_with_executor now key bs ttl (tables tx) :: (unit kv_error + unit) \<times> kv_table))"
    using set_bytes_error_type [where 'c = 'c and 'd = unit] by (metis fst_conv is_ok_simps(2))
  from stored_row [OF this] set_bytes_ok_stored [OF s] show ?thesis by simp
qed

lemma acquire_bytes_success:
  assumes run: "acquire_slot_bytes_in_current_transaction p reply now now' locked pick_row keys bs (Ttl (Some d)) tx
      = (Inr slot :: 'c kv_error + _, tx')"
    and times: "now \<le> now'" and pick: "\<And>ks. ks \<noteq> [] \<Longrightarrow> pick_row ks \<in> set ks" and keys: "keys \<noteq> []"
  shows "(case slot of
      Some key \<Rightarrow> key \<in> set keys \<and> live_row now' (tables tx) key = None \<and> key \<notin> locked
        \<and> (\<forall>later < now' + ttl_micros d. get_bytes_statement later key (tables tx') = Some bs)
        \<and> (\<forall>k. k \<noteq> key \<longrightarrow> live_row now' (tables tx') k = live_row now' (tables tx) k)
    | None \<Rightarrow> \<forall>k \<in> set keys. live_row now' (tables tx) k \<noteq> None \<or> k \<in> locked)"
proof -
  obtain us where us: "(positive_expiring_ttl_microseconds (Ttl (Some d)) :: 'c kv_error + int) = Inr us"
    and r: "acquire_prepared_slot_bytes_in_current_transaction p reply now now' locked pick_row keys bs us tx
      = (Inr slot :: 'c kv_error + _, tx')"
    using run keys
    by (auto simp: acquire_slot_bytes_in_current_transaction_def prepare_unique_keys_for_slot_acquisition_def
        result_bind_eq_Inr_iff split: sum.splits if_splits)
  have "us = ttl_micros d"
    using us by (auto simp: positive_expiring_ttl_microseconds_def ttl_positive_microseconds_def kv_rounded
        result_bind_eq_Inr_iff split: if_splits)
  moreover have "acquire_prepared_slot_bytes locked pick_row now now' keys bs us (tables tx)
      = (Inr slot :: 'c kv_error + _, tables tx')"
    by (rule admitted_success) (use r in \<open>simp add: acquire_prepared_slot_bytes_in_current_transaction_def\<close>)
  ultimately show ?thesis
    using acquired_slot_is_exclusive [OF _ times pick] by blast
qed

lemma plain_encode_any_key:
  "item_codec it = Plain \<Longrightarrow> encode_value_for_key it key v = encode_plain_value it v"
  by (simp add: encode_value_for_key_def with_codec_def)

text \<open>An acquisition of slots leaves live rows and the rows of other keys alone, whatever it answers.\<close>

lemma ensured_other: "k \<notin> set keys \<Longrightarrow> ensure_slot_keys_exist_statement n keys t k = t k"
  by (induction keys arbitrary: t)
    (simp_all add: ensure_slot_keys_exist_statement_def option.case_eq_if)

lemma acquire_prepared_frame:
  assumes "acquire_prepared_slot_bytes locked pick_row now now' keys bs us t = (r, t')"
    and "\<forall>ks. ks \<noteq> [] \<longrightarrow> pick_row ks \<in> set ks" and "live_row now' t k \<noteq> None \<or> k \<notin> set keys"
  shows "t' k = t k"
proof -
  let ?t = "ensure_slot_keys_exist_statement now keys t"
  let ?cs = "filter (\<lambda>k. case ?t k of None \<Rightarrow> False | Some r \<Rightarrow> expired now' r \<and> k \<notin> locked) keys"
  have same: "?t k = t k"
    using assms(3) ensured_other [of k keys now t] ensured_keeps [of t k _ now keys]
    by (cases "t k") (auto simp: live_row_def)
  have "k \<notin> set ?cs"
    using assms(3) same by (auto simp: live_row_def expired_def not_expired_def split: option.splits if_splits)
  then have "?cs \<noteq> [] \<longrightarrow> pick_row ?cs \<noteq> k" using assms(2) by metis
  moreover have "t' = ?t \<or> ?cs \<noteq> [] \<and> (\<exists>e. t' = ?t(pick_row ?cs \<mapsto> e))"
    using assms(1) by (auto simp: acquire_prepared_slot_bytes_def acquire_slot_statement_def Let_def
        split: if_splits sum.splits)
  ultimately show ?thesis using same by auto
qed

lemma admitted_frame:
  assumes "snd (body (tables tx)) k = tables tx k"
  shows "tables (snd (admitted p reply build body tx)) k = tables tx k"
  using assms admit_tables [of p reply tx]
  by (cases "admit p reply tx") (auto simp: admitted_def Let_def split: sum.splits prod.splits)

lemma acquire_bytes_frame:
  assumes run: "acquire_slot_bytes_in_current_transaction p reply now now' locked pick_row keys bs ttl tx
      = (r :: 'c kv_error + _, tx')"
    and "\<forall>ks. ks \<noteq> [] \<longrightarrow> pick_row ks \<in> set ks" and "live_row now' (tables tx) k \<noteq> None \<or> k \<notin> set keys"
  shows "tables tx' k = tables tx k"
proof -
  have frame: "tables (snd (acquire_prepared_slot_bytes_in_current_transaction p reply now now' locked pick_row keys bs us tx
      :: ('c kv_error + string option) \<times> _)) k = tables tx k" for us
    unfolding acquire_prepared_slot_bytes_in_current_transaction_def
    by (rule admitted_frame) (rule acquire_prepared_frame [OF prod.collapse [symmetric] assms(2,3)])
  show ?thesis
  proof (cases "prepare_unique_keys_for_slot_acquisition keys :: 'c kv_error + string list")
    case (Inr ks)
    then have "ks = keys"
      by (auto simp: prepare_unique_keys_for_slot_acquisition_def result_bind_eq_Inr_iff split: if_splits)
    then show ?thesis using run Inr frame
      by (cases "positive_expiring_ttl_microseconds ttl :: 'c kv_error + int"; cases "keys = []")
        (auto simp: acquire_slot_bytes_in_current_transaction_def, metis snd_conv)
  qed (use run in \<open>auto simp: acquire_slot_bytes_in_current_transaction_def\<close>)
qed

lemma plain_slot_frame:
  assumes plain: "item_codec it = Plain"
    and run: "item_acquire_slot_in_current_transaction it p env cands v ttl tx = (r :: 'c kv_error + _, tx')"
    and pick: "\<forall>ks. ks \<noteq> [] \<longrightarrow> slot_pick env ks \<in> set ks"
    and k: "live_row (slot_acquire_now env) (tables tx) k \<noteq> None
      \<or> (\<forall>s \<in> set cands. item_key_from_parts it [s] \<noteq> (Inr k :: 'c kv_error + string))"
  shows "tables tx' k = tables tx k"
proof (cases "prepare_slot_candidate_keys it cands")
  case (Inl e)
  then show ?thesis using run by (auto simp: item_acquire_slot_in_current_transaction_def)
next
  case (Inr prepared)
  then have go: "acquire_prepared_slot_in_current_transaction it p env prepared v ttl tx = (r, tx')"
    using run by (simp add: item_acquire_slot_in_current_transaction_def)
  have prep': "prepare_slot_candidates it cands \<lparr>slot_keys = [], key_to_suffix = Map.empty\<rparr> = Inr prepared"
    using Inr by (auto simp: prepare_slot_candidate_keys_def result_bind_eq_Inr_iff)
  have P: "dom (key_to_suffix prepared) = set (slot_keys prepared)"
    "\<And>k s. key_to_suffix prepared k = Some s \<Longrightarrow> s \<in> set cands \<and> item_key_from_parts it [s] = Inr k"
    using prepare_slots [OF prep'] by simp_all
  have k': "live_row (slot_acquire_now env) (tables tx) k \<noteq> None \<or> k \<notin> set (slot_keys prepared)"
    using k P by (metis domD)
  have frame: "tables (snd (acquire_slot_bytes_in_current_transaction p (slot_reply env) (slot_now env)
      (slot_acquire_now env) (slot_locked env) (slot_pick env) (slot_keys prepared) bs ttl tx :: ('c kv_error + _) \<times> _)) k
      = tables tx k" for bs
    by (rule acquire_bytes_frame [OF prod.collapse [symmetric] pick k'])
  show ?thesis
    using go frame plain
    by (auto simp: acquire_prepared_slot_in_current_transaction_def Let_def do_then_def with_codec_def
        split: sum.splits prod.splits if_splits) (metis snd_conv)+
qed

text \<open>
  What a successful acquisition of a plain item says: a granted suffix is one of the candidates, its key was
  free and unlocked, holds the value for the whole time to live, and no other key changed what it shows;
  a refusal found every candidate live or locked.
\<close>

lemma item_slot_acquired:
  fixes it :: "('v, 'k, 'c) item"
  assumes plain: "item_codec it = Plain" and faith: "faithful it"
    and run: "item_acquire_slot_in_current_transaction it p env cands v (Ttl (Some d)) tx = (Inr slot, tx')"
    and times: "slot_now env \<le> slot_acquire_now env" and pick: "\<And>ks. ks \<noteq> [] \<Longrightarrow> slot_pick env ks \<in> set ks"
  shows "(case slot of
      Some s \<Rightarrow> s \<in> set cands \<and> (\<exists>key. item_key_from_parts it [s] = Inr key
        \<and> live_row (slot_acquire_now env) (tables tx) key = None \<and> key \<notin> slot_locked env
        \<and> (\<forall>later < slot_acquire_now env + ttl_micros d. item_at it key later (tables tx') = Some (Inr v))
        \<and> (\<forall>k. k \<noteq> key \<longrightarrow> live_row (slot_acquire_now env) (tables tx') k = live_row (slot_acquire_now env) (tables tx) k))
    | None \<Rightarrow> \<forall>s \<in> set cands. \<exists>key. item_key_from_parts it [s] = Inr key
        \<and> (live_row (slot_acquire_now env) (tables tx) key \<noteq> None \<or> key \<in> slot_locked env))"
proof -
  obtain prepared where prep: "prepare_slot_candidate_keys it cands = Inr prepared"
    and go: "acquire_prepared_slot_in_current_transaction it p env prepared v (Ttl (Some d)) tx = (Inr slot, tx')"
    using run by (auto simp: item_acquire_slot_in_current_transaction_def split: sum.splits)
  have prep': "prepare_slot_candidates it cands \<lparr>slot_keys = [], key_to_suffix = Map.empty\<rparr> = Inr prepared"
    using prep by (auto simp: prepare_slot_candidate_keys_def result_bind_eq_Inr_iff)
  have "dom (key_to_suffix prepared) = set (slot_keys prepared)
    \<and> (\<forall>k s. key_to_suffix prepared k = Some s \<longrightarrow> s \<in> set cands \<and> item_key_from_parts it [s] = Inr k)
    \<and> (\<forall>s \<in> set cands. \<exists>k \<in> set (slot_keys prepared). item_key_from_parts it [s] = Inr k)"
    using prepare_slots [OF prep'] by simp
  then have P1: "dom (key_to_suffix prepared) = set (slot_keys prepared)"
    and P2: "\<And>k s. key_to_suffix prepared k = Some s \<Longrightarrow> s \<in> set cands \<and> item_key_from_parts it [s] = Inr k"
    and P3: "\<And>s. s \<in> set cands \<Longrightarrow> \<exists>k \<in> set (slot_keys prepared). item_key_from_parts it [s] = Inr k"
    by (fast, fast, fast)
  show ?thesis
  proof (cases "slot_keys prepared = []")
    case True
    then have "cands = []" using P3 by (cases cands) auto
    moreover have "slot = None"
      using go True by (auto simp: acquire_prepared_slot_in_current_transaction_def split: sum.splits)
    ultimately show ?thesis by simp
  next
    case False
    then obtain bs acquired where bs: "encode_plain_value it v = Inr bs"
      and acq: "acquire_slot_bytes_in_current_transaction p (slot_reply env) (slot_now env) (slot_acquire_now env)
        (slot_locked env) (slot_pick env) (slot_keys prepared) bs (Ttl (Some d)) tx = (Inr acquired :: 'c kv_error + _, tx')"
      and slot: "slot = Option.bind acquired (key_to_suffix prepared)"
      using go by (auto simp: acquire_prepared_slot_in_current_transaction_def Let_def do_then_def with_codec_def plain
          plain_encode_any_key split: sum.splits prod.splits)
    have A: "(case acquired of
      Some key \<Rightarrow> key \<in> set (slot_keys prepared) \<and> live_row (slot_acquire_now env) (tables tx) key = None
        \<and> key \<notin> slot_locked env
        \<and> (\<forall>later < slot_acquire_now env + ttl_micros d. get_bytes_statement later key (tables tx') = Some bs)
        \<and> (\<forall>k. k \<noteq> key \<longrightarrow> live_row (slot_acquire_now env) (tables tx') k = live_row (slot_acquire_now env) (tables tx) k)
    | None \<Rightarrow> \<forall>k \<in> set (slot_keys prepared). live_row (slot_acquire_now env) (tables tx) k \<noteq> None \<or> k \<in> slot_locked env)"
      by (rule acquire_bytes_success [OF acq times pick False])
    have reads: "decode_value_for_key it key bs = Inr v" for key
      using encoded_value_decodes [OF faith] bs by (simp add: plain_encode_any_key [OF plain])
    show ?thesis
    proof (cases acquired)
      case None
      then have free: "\<And>k. k \<in> set (slot_keys prepared) \<Longrightarrow>
          live_row (slot_acquire_now env) (tables tx) k \<noteq> None \<or> k \<in> slot_locked env" and "slot = None"
        using A slot by simp_all
      have "\<exists>key. item_key_from_parts it [s] = Inr key
          \<and> (live_row (slot_acquire_now env) (tables tx) key \<noteq> None \<or> key \<in> slot_locked env)" if "s \<in> set cands" for s
        using P3 [OF that] free by metis
      then show ?thesis using \<open>slot = None\<close> by simp
    next
      case (Some key)
      then have "key \<in> dom (key_to_suffix prepared)" using A P1 by simp
      then obtain s where s: "key_to_suffix prepared key = Some s" by blast
      then have "s \<in> set cands" "item_key_from_parts it [s] = Inr key" using P2 by simp_all
      moreover have "slot = Some s" using slot Some s by simp
      ultimately show ?thesis using A Some reads by (simp add: item_at_def)
    qed
  qed
qed

section \<open>Concrete runs\<close>

definition raw_item :: "(bytes, unit, unit) item" where
  "raw_item = \<lparr>item_prefix = ''i::'', item_codec = Plain, to_plaintext_bytes = Inr, from_plaintext_bytes = Inr,
     seal = (\<lambda>_ p _. Inr p), unseal = (\<lambda>_ b _. Inr b)\<rparr>"

lemma raw_item_faithful: "faithful raw_item"
  by (simp add: faithful_def raw_item_def)

lemma calm_pool_healthy: "healthy calm_pool" "env_rollback calm_pool = RolledBack"
  by (simp_all add: healthy_def calm_pool_def)

lemma raw_item_key: "item_key_from_parts raw_item [''a''] = Inr ''i::a::''"
  by (simp add: item_key_from_parts_def raw_item_def kv_build_key_from_prefix_and_parts_def kv_validate_key_part_def
      kv_validate_key_length_def MAX_KV_KEY_BYTES_def KV_KEY_SEPARATOR_def result_bind_def)

lemma raw_item_codec:
  "encode_value_for_key raw_item key v = Inr v" "decode_value_for_key raw_item key v = Inr v"
  by (simp_all add: raw_item_def encode_value_for_key_def decode_value_for_key_def with_codec_def
      encode_plain_value_def decode_plain_value_def)

definition two_second_ttl :: ttl where
  "two_second_ttl = Ttl (Some 2000000000)"

lemma two_second_ttl_valid: "ttl_expires_after 2000000000 = (Inr two_second_ttl :: 'c kv_error + ttl)"
  by (simp add: ttl_expires_after_def two_second_ttl_def MIN_KV_TTL_def kv_rounded result_bind_def ttl_micros_def i64_max_def)

theorem item_round_trip_witness:
  "item_get raw_item ''p'' (calm_pool\<lparr>env_now := 2000005\<rparr>) [''a'']
     (snd (item_set raw_item ''p'' calm_pool [''a''] [7] two_second_ttl Map.empty)) = Inl KvKeyNotFound
   \<and> item_get raw_item ''p'' (calm_pool\<lparr>env_now := 2000004\<rparr>) [''a'']
     (snd (item_set raw_item ''p'' calm_pool [''a''] [7] two_second_ttl Map.empty)) = Inr [7]"
proof -
  let ?r = "item_set raw_item ''p'' calm_pool [''a''] [7] two_second_ttl Map.empty"
  have "fst ?r = Inr ()" 
    by (simp add: item_set_def with_key_and_value_def with_key_def raw_item_key raw_item_codec calm_pool_def
        set_bytes_def set_bytes_in_current_transaction_def kv_pool_write_def pool_write_def finish_write_transaction_def
        supported_reply_def supported_row_def begin_transaction_def SUPPORTED_EPOCH_def SUPPORTED_FINGERPRINT_def
        admitted_def admit_def Let_def set_bytes_with_executor_def set_bytes_statement_def expires_at_expression_def
        pg_timestamp_end_def ttl_positive_microseconds_def kv_rounded two_second_ttl_def result_bind_def ttl_micros_def i64_max_def)
  then have r: "?r = (Inr (), snd ?r)" by (metis prod.collapse)
  have h: "healthy (calm_pool\<lparr>env_now := n\<rparr>)" "env_rollback (calm_pool\<lparr>env_now := n\<rparr>) = RolledBack" for n
    by (simp_all add: healthy_def calm_pool_def)
  show ?thesis
    using item_round_trip [OF raw_item_faithful r two_second_ttl_valid h, of 2000005]
      item_round_trip [OF raw_item_faithful r two_second_ttl_valid h, of 2000004]
    by (simp add: calm_pool_def)
qed

theorem get_or_init_is_atomic_witness:
  "\<exists>res tx'. get_or_init_in_current_transaction raw_item calm_env [''a''] [7] NO_EXPIRATION
       (begin_transaction Map.empty) = (Inr res, tx') \<and> got_initialized res \<and> got_value res = [7]"
proof -
  let ?r = "get_or_init_in_current_transaction raw_item calm_env [''a''] [7] NO_EXPIRATION (begin_transaction Map.empty)"
  have "is_ok (fst ?r)"
    by (simp add: get_or_init_in_current_transaction_def get_or_init_in_transaction_internal_def with_key_def raw_item_key
        mutate_key_atomically_in_transaction_internal_def lock_key_for_atomic_mutation_def
        admitted_def admit_def calm_env_def supported_reply_def supported_row_def begin_transaction_def
        SUPPORTED_EPOCH_def SUPPORTED_FINGERPRINT_def numeral_eq_Suc lock_key_statement_def map_error_def Let_def
        decide_get_or_init_def raw_item_codec ttl_positive_microseconds_def NO_EXPIRATION_def
        update_key_value_and_ttl_for_atomic_mutation_def update_value_and_ttl_statement_def
        expires_at_expression_def kv_require_rows_affected_def do_then_def)
  then obtain res where r: "?r = (Inr res, snd ?r)" by (cases ?r; cases "fst ?r") auto
  have "got_initialized res \<and> got_value res = [7]"
    using get_or_init_is_atomic [OF raw_item_faithful r]
    by (auto simp: item_at_def begin_transaction_def get_bytes_statement_def live_row_def)
  with r show ?thesis by blast
qed

end
