(* ===== verification/Lease.thy ===== *)
theory Lease
  imports Database
begin

text \<open>
  \<open>src/src/db/lease/\<close>: leases with fencing tokens. \<open>model.rs\<close> (keys, holders, durations,
  tokens), \<open>queries.rs\<close> (the meaning of each SQL statement as a function on the tables),
  \<open>execution.rs\<close> (rows decoded into claims) and \<open>store.rs\<close> (the operations inside the
  caller's transaction and on a pool).

  Times are integer microseconds since the Unix epoch; the argument \<open>now\<close> is
  \<open>statement_timestamp()\<close>. A statement runs in READ COMMITTED: the row the claim locks in
  its first common table expression is the argument \<open>seen\<close>, which is the current row, or
  \<open>None\<close> when another transaction inserted the row after the statement took its snapshot.
\<close>

section \<open>Keys, holders, durations and tokens\<close>

definition MAX_LEASE_KEY_BYTES :: nat where "MAX_LEASE_KEY_BYTES = 2048"
definition MAX_LEASE_HOLDER_ID_BYTES :: nat where "MAX_LEASE_HOLDER_ID_BYTES = 512"
definition LEASE_TOKEN_BYTES :: nat where "LEASE_TOKEN_BYTES = 32"
definition LEASE_KEY_SEPARATOR :: string where "LEASE_KEY_SEPARATOR = ''::''"
definition MIN_LEASE_DURATION :: nanos where "MIN_LEASE_DURATION = nanos_per_second"

datatype 'c lease_error =
    LeaseEmptyKey
  | LeaseEmptyKeyPart
  | LeaseKeyPartContainsSeparatorByte
  | LeaseKeyPartContainsNullByte
  | LeaseKeyTooLong nat nat
  | LeaseEmptyHolderId
  | LeaseHolderIdContainsNullByte
  | LeaseHolderIdTooLong nat nat
  | LeaseDurationIsZero
  | LeaseDurationBelowMinimum nanos
  | LeaseDurationTooLarge
  | LeaseInvalidPersistedTokenLength nat nat
  | LeaseInvalidPersistedFencingToken int
  | LeaseTokenGeneration 'c
  | LeaseDatabase db_error
  | LeaseRollbackFailed string "'c lease_error" db_error

definition lease_validate_key_part :: "string \<Rightarrow> 'c lease_error + unit" where
  "lease_validate_key_part part =
     (if part = [] then Inl LeaseEmptyKeyPart
      else if CHR '':'' \<in> set part then Inl LeaseKeyPartContainsSeparatorByte
      else if CHR 0x00 \<in> set part then Inl LeaseKeyPartContainsNullByte
      else Inr ())"

definition lease_validate_key_length :: "string \<Rightarrow> 'c lease_error + unit" where
  "lease_validate_key_length key =
     (if length key > MAX_LEASE_KEY_BYTES
      then Inl (LeaseKeyTooLong (length key) MAX_LEASE_KEY_BYTES) else Inr ())"

text \<open>The loop over the parts; \<open>saw_part\<close> and \<open>key\<close> are its mutable variables.\<close>

fun lease_join_parts :: "bool \<Rightarrow> string \<Rightarrow> string list \<Rightarrow> 'c lease_error + (bool \<times> string)" where
  "lease_join_parts saw_part key [] = Inr (saw_part, key)"
| "lease_join_parts saw_part key (part # parts) =
     result_bind (lease_validate_key_part part)
       (\<lambda>_. lease_join_parts True
          ((if saw_part then key @ LEASE_KEY_SEPARATOR else key) @ part) parts)"

definition lease_build_key_from_parts :: "string list \<Rightarrow> 'c lease_error + string" where
  "lease_build_key_from_parts parts =
     result_bind (lease_join_parts False [] parts) (\<lambda>(saw_part, key).
       if \<not> saw_part then Inl LeaseEmptyKey
       else result_bind (lease_validate_key_length (key @ LEASE_KEY_SEPARATOR))
         (\<lambda>_. Inr (key @ LEASE_KEY_SEPARATOR)))"

definition lease_validate_holder_id :: "string \<Rightarrow> 'c lease_error + unit" where
  "lease_validate_holder_id holder_id =
     (if holder_id = [] then Inl LeaseEmptyHolderId
      else if CHR 0x00 \<in> set holder_id then Inl LeaseHolderIdContainsNullByte
      else if length holder_id > MAX_LEASE_HOLDER_ID_BYTES then
        Inl (LeaseHolderIdTooLong (length holder_id) MAX_LEASE_HOLDER_ID_BYTES)
      else Inr ())"

definition holder_id_new :: "string \<Rightarrow> 'c lease_error + string" where
  "holder_id_new input = result_bind (lease_validate_holder_id input) (\<lambda>_. Inr input)"

definition fencing_token_from_i64 :: "int \<Rightarrow> 'c lease_error + int" where
  "fencing_token_from_i64 value =
     (if value \<le> 0 then Inl (LeaseInvalidPersistedFencingToken value) else Inr value)"

definition token_from_persisted_bytes :: "bytes \<Rightarrow> 'c lease_error + bytes" where
  "token_from_persisted_bytes bs =
     (if length bs \<noteq> LEASE_TOKEN_BYTES
      then Inl (LeaseInvalidPersistedTokenLength (length bs) LEASE_TOKEN_BYTES) else Inr bs)"

text \<open>\<open>Token::random\<close>: the system random source delivers the bytes or an error.\<close>

definition token_random :: "'c + bytes \<Rightarrow> 'c lease_error + bytes" where
  "token_random random = (case random of Inl e \<Rightarrow> Inl (LeaseTokenGeneration e) | Inr bs \<Rightarrow> Inr bs)"

definition duration_to_rounded_microseconds :: "nanos \<Rightarrow> 'c lease_error + int" where
  "duration_to_rounded_microseconds d =
     (let microseconds = d div 1000 + (if d mod 1000 = 0 then 0 else 1)
      in if int microseconds > i64_max then Inl LeaseDurationTooLarge else Inr (int microseconds))"

datatype claim_duration = ClaimDuration (positive_duration: nanos)

definition expires_after :: "nanos \<Rightarrow> 'c lease_error + claim_duration" where
  "expires_after d =
     (if d = 0 then Inl LeaseDurationIsZero
      else if d < MIN_LEASE_DURATION then Inl (LeaseDurationBelowMinimum MIN_LEASE_DURATION)
      else result_bind (duration_to_rounded_microseconds d) (\<lambda>_. Inr (ClaimDuration d)))"

definition positive_microseconds :: "claim_duration \<Rightarrow> 'c lease_error + int" where
  "positive_microseconds c = duration_to_rounded_microseconds (positive_duration c)"

record claim =
  claim_key :: string
  claim_holder_id :: string
  claim_fencing_token :: int
  claim_lease_token :: bytes
  claim_expires_at :: micros

record holder_snapshot =
  snapshot_key :: string
  snapshot_holder_id :: string
  snapshot_fencing_token :: int
  snapshot_expires_at :: micros

section \<open>Tables and statements\<close>

record lease_row =
  row_holder_id :: string
  row_fencing_token :: int
  row_lease_token :: bytes
  row_expires_at :: micros

record lease_tables =
  leases :: "string \<rightharpoonup> lease_row"
  fencing_counters :: "string \<rightharpoonup> int"

definition row_is_live :: "micros \<Rightarrow> lease_row \<Rightarrow> bool" where
  "row_is_live now r = (row_expires_at r > now)"

definition next_fencing_token :: "int \<Rightarrow> int option \<Rightarrow> int" where
  "next_fencing_token existing counter =
     (case counter of None \<Rightarrow> existing + 1 | Some l \<Rightarrow> max (l + 1) (existing + 1))"

definition claim_lease_statement ::
    "lease_row option \<Rightarrow> micros \<Rightarrow> string \<Rightarrow> string \<Rightarrow> bytes \<Rightarrow> int \<Rightarrow> lease_tables
     \<Rightarrow> (sqlx_error + lease_row option) \<times> lease_tables"
where
  "claim_lease_statement seen now key holder_id token microseconds t =
     (if (case seen of None \<Rightarrow> False | Some r \<Rightarrow> row_is_live now r) then (Inr None, t)
      else
        let existing = (case seen of None \<Rightarrow> 0 | Some r \<Rightarrow> row_fencing_token r);
            fencing = next_fencing_token existing (fencing_counters t key);
            row = \<lparr>row_holder_id = holder_id, row_fencing_token = fencing,
                   row_lease_token = token, row_expires_at = now + microseconds\<rparr>;
            t1 = t\<lparr>fencing_counters := (fencing_counters t)(key \<mapsto> fencing)\<rparr>
        in if existing + 1 > i64_max \<or> fencing > i64_max \<or> now + microseconds > i64_max
           then (Inl numeric_out_of_range, t)
           else case leases t key of
             None \<Rightarrow> (Inr (Some row), t1\<lparr>leases := (leases t)(key \<mapsto> row)\<rparr>)
           | Some target \<Rightarrow>
               if row_expires_at target \<le> now
               then (Inr (Some row), t1\<lparr>leases := (leases t)(key \<mapsto> row)\<rparr>)
               else (Inr None, t1))"

definition row_matches :: "micros \<Rightarrow> string \<Rightarrow> int \<Rightarrow> bytes \<Rightarrow> lease_row \<Rightarrow> bool" where
  "row_matches now holder_id fencing token r \<longleftrightarrow>
     row_holder_id r = holder_id \<and> row_fencing_token r = fencing \<and> row_lease_token r = token
     \<and> row_is_live now r"

definition renew_lease_statement ::
    "micros \<Rightarrow> string \<Rightarrow> string \<Rightarrow> int \<Rightarrow> bytes \<Rightarrow> bytes \<Rightarrow> int \<Rightarrow> lease_tables
     \<Rightarrow> (sqlx_error + lease_row option) \<times> lease_tables"
where
  "renew_lease_statement now key holder_id fencing token next_token microseconds t =
     (case leases t key of
        None \<Rightarrow> (Inr None, t)
      | Some r \<Rightarrow>
          if \<not> row_matches now holder_id fencing token r then (Inr None, t)
          else if now + microseconds > i64_max then (Inl numeric_out_of_range, t)
          else let r' = r\<lparr>row_lease_token := next_token, row_expires_at := now + microseconds\<rparr>
               in (Inr (Some r'), t\<lparr>leases := (leases t)(key \<mapsto> r')\<rparr>))"

definition release_lease_statement ::
    "micros \<Rightarrow> string \<Rightarrow> string \<Rightarrow> int \<Rightarrow> bytes \<Rightarrow> lease_tables \<Rightarrow> (sqlx_error + nat) \<times> lease_tables"
where
  "release_lease_statement now key holder_id fencing token t =
     (case leases t key of
        None \<Rightarrow> (Inr 0, t)
      | Some r \<Rightarrow>
          if row_matches now holder_id fencing token r
          then (Inr 1, t\<lparr>leases := (leases t)(key := None)\<rparr>) else (Inr 0, t))"

definition fetch_live_lease_holder_statement ::
    "micros \<Rightarrow> string \<Rightarrow> lease_tables \<Rightarrow> (sqlx_error + lease_row option)"
where
  "fetch_live_lease_holder_statement now key t =
     (case leases t key of
        None \<Rightarrow> Inr None
      | Some r \<Rightarrow> if row_is_live now r then Inr (Some r) else Inr None)"

section \<open>Execution\<close>

definition lease_claim_from_persisted_parts ::
    "string \<Rightarrow> string \<Rightarrow> int \<Rightarrow> bytes \<Rightarrow> micros \<Rightarrow> 'c lease_error + claim"
where
  "lease_claim_from_persisted_parts key holder_id fencing token expires_at =
     result_bind (holder_id_new holder_id) (\<lambda>h.
     result_bind (fencing_token_from_i64 fencing) (\<lambda>f.
     result_bind (token_from_persisted_bytes token) (\<lambda>tok.
       Inr \<lparr>claim_key = key, claim_holder_id = h, claim_fencing_token = f,
            claim_lease_token = tok, claim_expires_at = expires_at\<rparr>)))"

definition lease_holder_snapshot_from_persisted_parts ::
    "string \<Rightarrow> string \<Rightarrow> int \<Rightarrow> micros \<Rightarrow> 'c lease_error + holder_snapshot"
where
  "lease_holder_snapshot_from_persisted_parts key holder_id fencing expires_at =
     result_bind (holder_id_new holder_id) (\<lambda>h.
     result_bind (fencing_token_from_i64 fencing) (\<lambda>f.
       Inr \<lparr>snapshot_key = key, snapshot_holder_id = h, snapshot_fencing_token = f,
            snapshot_expires_at = expires_at\<rparr>))"

text \<open>\<open>row.map(...).transpose()\<close> on a fetched row.\<close>

definition decode_claim ::
    "string \<Rightarrow> sqlx_error + lease_row option \<Rightarrow> 'c lease_error + claim option"
where
  "decode_claim key fetched =
     (case fetched of
        Inl e \<Rightarrow> Inl (LeaseDatabase (db_query_error e))
      | Inr None \<Rightarrow> Inr None
      | Inr (Some r) \<Rightarrow>
          map_sum id Some (lease_claim_from_persisted_parts key (row_holder_id r)
            (row_fencing_token r) (row_lease_token r) (row_expires_at r)))"

definition try_claim_lease_with_executor ::
    "lease_row option \<Rightarrow> micros \<Rightarrow> string \<Rightarrow> string \<Rightarrow> bytes \<Rightarrow> claim_duration \<Rightarrow> lease_tables
     \<Rightarrow> ('c lease_error + claim option) \<times> lease_tables"
where
  "try_claim_lease_with_executor seen now key holder_id token duration t =
     (case positive_microseconds duration of
        Inl e \<Rightarrow> (Inl e, t)
      | Inr us \<Rightarrow>
          (let (fetched, t') = claim_lease_statement seen now key holder_id token us t
           in (decode_claim key fetched, t')))"

definition try_renew_lease_with_executor ::
    "micros \<Rightarrow> claim \<Rightarrow> bytes \<Rightarrow> claim_duration \<Rightarrow> lease_tables
     \<Rightarrow> ('c lease_error + claim option) \<times> lease_tables"
where
  "try_renew_lease_with_executor now c next_token duration t =
     (case positive_microseconds duration of
        Inl e \<Rightarrow> (Inl e, t)
      | Inr us \<Rightarrow>
          (let (fetched, t') = renew_lease_statement now (claim_key c) (claim_holder_id c)
                 (claim_fencing_token c) (claim_lease_token c) next_token us t
           in (decode_claim (claim_key c) fetched, t')))"

definition release_lease_with_executor ::
    "micros \<Rightarrow> claim \<Rightarrow> lease_tables \<Rightarrow> ('c lease_error + bool) \<times> lease_tables"
where
  "release_lease_with_executor now c t =
     (case release_lease_statement now (claim_key c) (claim_holder_id c) (claim_fencing_token c)
             (claim_lease_token c) t of
        (Inl e, t') \<Rightarrow> (Inl (LeaseDatabase (db_query_error e)), t')
      | (Inr n, t') \<Rightarrow> (Inr (n \<noteq> 0), t'))"

definition fetch_live_lease_holder_with_executor ::
    "micros \<Rightarrow> string \<Rightarrow> lease_tables \<Rightarrow> 'c lease_error + holder_snapshot option"
where
  "fetch_live_lease_holder_with_executor now key t =
     (case fetch_live_lease_holder_statement now key t of
        Inl e \<Rightarrow> Inl (LeaseDatabase (db_query_error e))
      | Inr None \<Rightarrow> Inr None
      | Inr (Some r) \<Rightarrow>
          map_sum id Some (lease_holder_snapshot_from_persisted_parts key (row_holder_id r)
            (row_fencing_token r) (row_expires_at r)))"

section \<open>Store operations\<close>

definition try_claim_lease_in_current_transaction ::
    "string \<Rightarrow> 'c + bytes \<Rightarrow> admission_reply \<Rightarrow> lease_row option \<Rightarrow> micros \<Rightarrow> string \<Rightarrow> string
     \<Rightarrow> claim_duration \<Rightarrow> lease_tables tx \<Rightarrow> ('c lease_error + claim option) \<times> lease_tables tx"
where
  "try_claim_lease_in_current_transaction protocol random reply seen now key holder_id duration tx =
     (case token_random random of
        Inl e \<Rightarrow> (Inl e, tx)
      | Inr lease_token \<Rightarrow>
          admitted protocol reply LeaseDatabase
            (try_claim_lease_with_executor seen now key holder_id lease_token duration) tx)"

definition try_renew_lease_in_current_transaction ::
    "string \<Rightarrow> 'c + bytes \<Rightarrow> admission_reply \<Rightarrow> micros \<Rightarrow> claim \<Rightarrow> claim_duration
     \<Rightarrow> lease_tables tx \<Rightarrow> ('c lease_error + claim option) \<times> lease_tables tx"
where
  "try_renew_lease_in_current_transaction protocol random reply now c duration tx =
     (case token_random random of
        Inl e \<Rightarrow> (Inl e, tx)
      | Inr next_lease_token \<Rightarrow>
          admitted protocol reply LeaseDatabase
            (try_renew_lease_with_executor now c next_lease_token duration) tx)"

definition release_lease_in_current_transaction ::
    "string \<Rightarrow> admission_reply \<Rightarrow> micros \<Rightarrow> claim \<Rightarrow> lease_tables tx
     \<Rightarrow> ('c lease_error + bool) \<times> lease_tables tx"
where
  "release_lease_in_current_transaction protocol reply now c tx =
     admitted protocol reply LeaseDatabase (release_lease_with_executor now c) tx"

definition fetch_live_lease_holder_in_current_transaction ::
    "string \<Rightarrow> admission_reply \<Rightarrow> micros \<Rightarrow> string \<Rightarrow> lease_tables tx
     \<Rightarrow> ('c lease_error + holder_snapshot option) \<times> lease_tables tx"
where
  "fetch_live_lease_holder_in_current_transaction protocol reply now key tx =
     admitted protocol reply LeaseDatabase
       (\<lambda>t. (fetch_live_lease_holder_with_executor now key t, t)) tx"

definition try_claim_lease ::
    "string \<Rightarrow> pool_env \<Rightarrow> 'c + bytes \<Rightarrow> lease_row option \<Rightarrow> string \<Rightarrow> string \<Rightarrow> claim_duration
     \<Rightarrow> lease_tables \<Rightarrow> ('c lease_error + claim option) \<times> lease_tables"
where
  "try_claim_lease protocol env random seen key holder_id duration t =
     pool_write ''lease.claim'' LeaseDatabase LeaseRollbackFailed env
       (try_claim_lease_in_current_transaction protocol random (env_reply env) seen (env_now env)
          key holder_id duration) t"

definition try_renew_lease ::
    "string \<Rightarrow> pool_env \<Rightarrow> 'c + bytes \<Rightarrow> claim \<Rightarrow> claim_duration
     \<Rightarrow> lease_tables \<Rightarrow> ('c lease_error + claim option) \<times> lease_tables"
where
  "try_renew_lease protocol env random c duration t =
     pool_write ''lease.renew'' LeaseDatabase LeaseRollbackFailed env
       (try_renew_lease_in_current_transaction protocol random (env_reply env) (env_now env)
          c duration) t"

definition release_lease ::
    "string \<Rightarrow> pool_env \<Rightarrow> claim \<Rightarrow> lease_tables \<Rightarrow> ('c lease_error + bool) \<times> lease_tables"
where
  "release_lease protocol env c t =
     pool_write ''lease.release'' LeaseDatabase LeaseRollbackFailed env
       (release_lease_in_current_transaction protocol (env_reply env) (env_now env) c) t"

definition fetch_live_lease_holder ::
    "string \<Rightarrow> pool_env \<Rightarrow> string \<Rightarrow> lease_tables \<Rightarrow> 'c lease_error + holder_snapshot option"
where
  "fetch_live_lease_holder protocol env key t =
     pool_read ''lease.fetch_live_holder'' LeaseDatabase LeaseRollbackFailed env
       (fetch_live_lease_holder_in_current_transaction protocol (env_reply env) (env_now env) key) t"

section \<open>Keys\<close>

lemma lease_join_parts_value:
  "lease_join_parts saw key parts = (Inr (saw', key') :: 'c lease_error + bool \<times> string) \<Longrightarrow>
     list_all (\<lambda>p. p \<noteq> [] \<and> CHR '':'' \<notin> set p) parts
     \<and> saw' = (saw \<or> parts \<noteq> [])
     \<and> (saw \<longrightarrow> key' @ ''::'' = key @ ''::'' @ terminated_join ''::'' parts)
     \<and> (\<not> saw \<longrightarrow> parts \<noteq> [] \<longrightarrow> key' @ ''::'' = key @ terminated_join ''::'' parts)"
proof (induction parts arbitrary: saw key)
  case Nil
  then show ?case by simp
next
  case (Cons part parts)
  have ok: "part \<noteq> []" "CHR '':'' \<notin> set part"
    "lease_join_parts True ((if saw then key @ LEASE_KEY_SEPARATOR else key) @ part) parts
      = (Inr (saw', key') :: 'c lease_error + bool \<times> string)"
    using Cons.prems by (auto simp: result_bind_eq_Inr_iff lease_validate_key_part_def split: if_splits)
  show ?case using Cons.IH [OF ok(3)] ok by (auto simp: LEASE_KEY_SEPARATOR_def)
qed

lemma lease_build_key_value:
  assumes "lease_build_key_from_parts parts = Inr key"
  shows "key = terminated_join ''::'' parts" and "parts \<noteq> []"
    and "list_all (\<lambda>p. p \<noteq> [] \<and> CHR '':'' \<notin> set p) parts"
proof -
  from assms obtain saw k where j: "lease_join_parts False [] parts = (Inr (saw, k) :: 'a lease_error + _)"
     "saw" "key = k @ ''::''"
    by (auto simp: lease_build_key_from_parts_def result_bind_eq_Inr_iff LEASE_KEY_SEPARATOR_def split: if_splits)
  from lease_join_parts_value [OF j(1)] j
  show "key = terminated_join ''::'' parts" and "parts \<noteq> []"
    and "list_all (\<lambda>p. p \<noteq> [] \<and> CHR '':'' \<notin> set p) parts" by auto
qed

text \<open>Two lists of parts give the same key exactly when they are equal, and one key is a
  prefix of another exactly when its parts are a prefix of the other's parts.\<close>

theorem lease_keys_injective:
  assumes "lease_build_key_from_parts parts = (Inr key :: 'c lease_error + string)"
    and "lease_build_key_from_parts parts' = (Inr key' :: 'd lease_error + string)"
  shows "(key = key' \<longleftrightarrow> parts = parts') \<and> (prefix key key' \<longleftrightarrow> prefix parts parts')"
  using lease_build_key_value [OF assms(1)] lease_build_key_value [OF assms(2)]
  by (simp add: terminated_join_inject terminated_join_prefix_iff)


section \<open>Fencing\<close>

text \<open>
  The interface a client of a lock service relies on: generations that never come back.
  \<open>latest s k\<close> is the last generation handed out for \<open>k\<close>, \<open>holder s k\<close> the generation that
  currently owns \<open>k\<close>.
\<close>

locale fencing_authority =
  fixes latest :: "'s \<Rightarrow> 'k \<Rightarrow> int"
    and holder :: "'s \<Rightarrow> 'k \<Rightarrow> int option"
    and invar :: "'s \<Rightarrow> bool"
    and step :: "'s \<Rightarrow> 's \<Rightarrow> bool"
  assumes invar_step: "invar s \<Longrightarrow> step s s' \<Longrightarrow> invar s'"
    and holder_le_latest: "invar s \<Longrightarrow> holder s k = Some f \<Longrightarrow> f \<le> latest s k"
    and latest_mono: "invar s \<Longrightarrow> step s s' \<Longrightarrow> latest s k \<le> latest s' k"
    and holder_new: "invar s \<Longrightarrow> step s s' \<Longrightarrow> holder s' k = Some f \<Longrightarrow>
      holder s k = Some f \<or> latest s k < f"
begin

lemma invar_run: "step\<^sup>*\<^sup>* s s' \<Longrightarrow> invar s \<Longrightarrow> invar s'"
  by (induction rule: rtranclp_induct) (auto intro: invar_step)

lemma latest_run: "step\<^sup>*\<^sup>* s s' \<Longrightarrow> invar s \<Longrightarrow> latest s k \<le> latest s' k"
proof (induction rule: rtranclp_induct)
  case (step y z)
  then show ?case using latest_mono [of y z k] invar_run [of s y] by linarith
qed simp

lemma never_returns:
  "step\<^sup>*\<^sup>* s s' \<Longrightarrow> invar s \<Longrightarrow> holder s k \<noteq> Some f \<Longrightarrow> f \<le> latest s k \<Longrightarrow> holder s' k \<noteq> Some f"
proof (induction rule: rtranclp_induct)
  case (step y z)
  then have "invar y" "f \<le> latest y k" using invar_run latest_run [of s y k] by force+
  then show ?case using step holder_new [of y z k f] by auto
qed simp

end

inductive lease_step :: "lease_tables \<Rightarrow> lease_tables \<Rightarrow> bool" where
  claim: "seen = leases t key \<or> seen = None \<Longrightarrow>
    lease_step t (snd (claim_lease_statement seen now key holder_id token us t))"
| renew: "lease_step t (snd (renew_lease_statement now key holder_id fencing token next_token us t))"
| release: "lease_step t (snd (release_lease_statement now key holder_id fencing token t))"

definition latest_fencing :: "lease_tables \<Rightarrow> string \<Rightarrow> int" where
  "latest_fencing t key = (case fencing_counters t key of None \<Rightarrow> 0 | Some n \<Rightarrow> n)"

definition holding_fencing :: "lease_tables \<Rightarrow> string \<Rightarrow> int option" where
  "holding_fencing t key = map_option row_fencing_token (leases t key)"

text \<open>Fencing tokens are positive and no row runs ahead of its counter.\<close>

definition lease_inv :: "lease_tables \<Rightarrow> bool" where
  "lease_inv t \<longleftrightarrow>
     (\<forall>key r. leases t key = Some r \<longrightarrow> 0 < row_fencing_token r \<and> row_fencing_token r \<le> latest_fencing t key)
   \<and> (\<forall>key n. fencing_counters t key = Some n \<longrightarrow> 0 < n)"

lemma latest_nonneg: "lease_inv t \<Longrightarrow> 0 \<le> latest_fencing t key"
  by (auto simp: lease_inv_def latest_fencing_def split: option.splits intro: less_imp_le)

lemma next_fencing_gt:
  assumes "lease_inv t" "seen = leases t key \<or> seen = None"
  shows "latest_fencing t key < next_fencing_token (case seen of None \<Rightarrow> 0 | Some r \<Rightarrow> row_fencing_token r) (fencing_counters t key)"
proof (cases "fencing_counters t key")
  case None
  have "0 \<le> (case seen of None \<Rightarrow> 0 | Some r \<Rightarrow> row_fencing_token r)"
  proof (cases seen)
    case (Some r)
    then have "leases t key = Some r" using assms(2) by auto
    then have "0 < row_fencing_token r" using assms(1) unfolding lease_inv_def by blast
    then show ?thesis using Some by simp
  qed simp
  then show ?thesis using None by (simp add: next_fencing_token_def latest_fencing_def)
next
  case (Some n)
  then show ?thesis by (simp add: next_fencing_token_def latest_fencing_def)
qed

lemma claim_statement_cases:
  assumes "claim_lease_statement seen now key holder_id token us t = (res, t')"
  obtains (unchanged) "t' = t" "\<And>r. res \<noteq> Inr (Some r)"
  | (burned) f where "res = Inr None" "f = next_fencing_token (case seen of None \<Rightarrow> 0 | Some r \<Rightarrow> row_fencing_token r) (fencing_counters t key)"
      "t' = t\<lparr>fencing_counters := (fencing_counters t)(key \<mapsto> f)\<rparr>"
  | (granted) r where "res = Inr (Some r)" "row_holder_id r = holder_id" "row_lease_token r = token"
      "row_expires_at r = now + us" "row_expires_at r \<le> i64_max" "row_fencing_token r \<le> i64_max"
      "row_fencing_token r = next_fencing_token (case seen of None \<Rightarrow> 0 | Some r \<Rightarrow> row_fencing_token r) (fencing_counters t key)"
      "t' = t\<lparr>fencing_counters := (fencing_counters t)(key \<mapsto> row_fencing_token r), leases := (leases t)(key \<mapsto> r)\<rparr>"
      "\<And>q. leases t key = Some q \<Longrightarrow> \<not> row_is_live now q"
proof -
  let ?e = "case seen of None \<Rightarrow> 0 | Some r \<Rightarrow> row_fencing_token r"
  let ?f = "next_fencing_token ?e (fencing_counters t key)"
  let ?row = "\<lparr>row_holder_id = holder_id, row_fencing_token = ?f, row_lease_token = token, row_expires_at = now + us\<rparr>"
  consider (live) "case seen of None \<Rightarrow> False | Some r \<Rightarrow> row_is_live now r"
    | (over) "\<not> (case seen of None \<Rightarrow> False | Some r \<Rightarrow> row_is_live now r)"
        "?e + 1 > i64_max \<or> ?f > i64_max \<or> now + us > i64_max"
    | (blocked) q where "\<not> (case seen of None \<Rightarrow> False | Some r \<Rightarrow> row_is_live now r)"
        "\<not> (?e + 1 > i64_max \<or> ?f > i64_max \<or> now + us > i64_max)"
        "leases t key = Some q" "row_is_live now q"
    | (free) "\<not> (case seen of None \<Rightarrow> False | Some r \<Rightarrow> row_is_live now r)"
        "\<not> (?e + 1 > i64_max \<or> ?f > i64_max \<or> now + us > i64_max)"
        "\<And>q. leases t key = Some q \<Longrightarrow> \<not> row_is_live now q"
    by blast
  then show thesis
  proof cases
    case live
    then show ?thesis using assms by (intro unchanged) (auto simp: claim_lease_statement_def)
  next
    case over
    then show ?thesis using assms by (intro unchanged) (auto simp: claim_lease_statement_def Let_def)
  next
    case blocked
    then have "res = Inr None" "t' = t\<lparr>fencing_counters := (fencing_counters t)(key \<mapsto> ?f)\<rparr>"
      using assms by (simp_all add: claim_lease_statement_def Let_def row_is_live_def)
    then show ?thesis by (intro burned) simp_all
  next
    case free
    have "res = Inr (Some ?row) \<and> t' = t\<lparr>fencing_counters := (fencing_counters t)(key \<mapsto> ?f), leases := (leases t)(key \<mapsto> ?row)\<rparr>"
      using assms free by (cases "leases t key") (auto simp: claim_lease_statement_def Let_def row_is_live_def)
    then show ?thesis using free(2,3) by (intro granted [of ?row]) simp_all
  qed
qed

lemma lease_step_counter:
  assumes "lease_inv t" "lease_step t t'"
  shows "fencing_counters t' k = fencing_counters t k
    \<or> (\<exists>n. fencing_counters t' k = Some n \<and> latest_fencing t k < n)"
  using assms(2)
proof cases
  case (claim seen key now holder_id token us)
  obtain res where c: "claim_lease_statement seen now key holder_id token us t = (res, t')"
    using claim by (metis prod.collapse)
  note gt = next_fencing_gt [OF assms(1) claim(2)]
  from c show ?thesis
    by (cases rule: claim_statement_cases) (use gt in auto)
next
  case (renew now key holder_id fencing token next_token us)
  then show ?thesis by (auto simp: renew_lease_statement_def Let_def split: option.splits)
next
  case (release now key holder_id fencing token)
  then show ?thesis by (auto simp: release_lease_statement_def split: option.splits)
qed

lemma lease_step_row:
  assumes "lease_inv t" "lease_step t t'" "leases t' k = Some r"
  shows "(\<exists>q. leases t k = Some q \<and> row_fencing_token r = row_fencing_token q)
    \<or> latest_fencing t k < row_fencing_token r \<and> fencing_counters t' k = Some (row_fencing_token r)"
  using assms(2)
proof cases
  case (claim seen key now holder_id token us)
  obtain res where c: "claim_lease_statement seen now key holder_id token us t = (res, t')"
    using claim by (metis prod.collapse)
  note gt = next_fencing_gt [OF assms(1) claim(2)]
  from c show ?thesis
  proof (cases rule: claim_statement_cases)
    case (granted q)
    then show ?thesis using gt assms(3) by (cases "k = key") auto
  qed (use assms(3) in auto)
next
  case (renew now key holder_id fencing token next_token us)
  then show ?thesis using assms(3)
    by (cases "k = key") (auto simp: renew_lease_statement_def Let_def split: option.splits if_splits)
next
  case (release now key holder_id fencing token)
  then show ?thesis using assms(3)
    by (cases "k = key") (auto simp: release_lease_statement_def split: option.splits if_splits)
qed

lemma latest_step:
  assumes "lease_inv t" "lease_step t t'"
  shows "latest_fencing t k \<le> latest_fencing t' k"
  using lease_step_counter [OF assms, of k] by (auto simp: latest_fencing_def)

lemma lease_inv_step:
  assumes "lease_inv t" "lease_step t t'"
  shows "lease_inv t'"
  unfolding lease_inv_def
proof (intro conjI allI impI)
  fix k n assume n: "fencing_counters t' k = Some n"
  have "fencing_counters t k = Some n \<Longrightarrow> 0 < n" using assms(1) unfolding lease_inv_def by blast
  with n lease_step_counter [OF assms, of k] latest_nonneg [OF assms(1), of k]
  show "0 < n" by auto
next
  fix k r assume r: "leases t' k = Some r"
  have m: "latest_fencing t k \<le> latest_fencing t' k" by (rule latest_step [OF assms])
  have old: "0 < row_fencing_token q \<and> row_fencing_token q \<le> latest_fencing t k" if "leases t k = Some q" for q
    using assms(1) that unfolding lease_inv_def by blast
  from lease_step_row [OF assms r] have "0 < row_fencing_token r \<and> row_fencing_token r \<le> latest_fencing t' k"
  proof (elim disjE exE conjE)
    fix q assume "leases t k = Some q" "row_fencing_token r = row_fencing_token q"
    then show ?thesis using old m by fastforce
  next
    assume "latest_fencing t k < row_fencing_token r" "fencing_counters t' k = Some (row_fencing_token r)"
    then show ?thesis using latest_nonneg [OF assms(1), of k] by (simp add: latest_fencing_def)
  qed
  then show "0 < row_fencing_token r" "row_fencing_token r \<le> latest_fencing t' k" by simp_all
qed

interpretation lease_fencing: fencing_authority latest_fencing holding_fencing lease_inv lease_step
proof unfold_locales
  fix s s' :: lease_tables and k f
  show "lease_inv s \<Longrightarrow> lease_step s s' \<Longrightarrow> lease_inv s'" by (rule lease_inv_step)
  show "lease_inv s \<Longrightarrow> holding_fencing s k = Some f \<Longrightarrow> f \<le> latest_fencing s k"
    unfolding holding_fencing_def lease_inv_def by auto
  show "lease_inv s \<Longrightarrow> lease_step s s' \<Longrightarrow> latest_fencing s k \<le> latest_fencing s' k" by (rule latest_step)
  show "lease_inv s \<Longrightarrow> lease_step s s' \<Longrightarrow> holding_fencing s' k = Some f \<Longrightarrow>
      holding_fencing s k = Some f \<or> latest_fencing s k < f"
    using lease_step_row [of s s' k] by (auto simp: holding_fencing_def)
qed


section \<open>What the operations guarantee\<close>

definition claim_of_row :: "string \<Rightarrow> lease_row \<Rightarrow> claim" where
  "claim_of_row key r =
     \<lparr>claim_key = key, claim_holder_id = row_holder_id r, claim_fencing_token = row_fencing_token r,
      claim_lease_token = row_lease_token r, claim_expires_at = row_expires_at r\<rparr>"

lemma decode_claim_Some:
  "decode_claim key fetched = Inr (Some c) \<Longrightarrow> \<exists>r. fetched = Inr (Some r) \<and> c = claim_of_row key r"
  by (auto simp: decode_claim_def lease_claim_from_persisted_parts_def holder_id_new_def claim_of_row_def
      fencing_token_from_i64_def token_from_persisted_bytes_def result_bind_eq_Inr_iff
      split: sum.splits option.splits if_splits)

lemma decode_claim_row:
  obtains (error) e where "decode_claim key (Inr (Some r)) = (Inl e :: 'c lease_error + claim option)"
  | (claim) "decode_claim key (Inr (Some r)) = (Inr (Some (claim_of_row key r)) :: 'c lease_error + claim option)"
proof (cases "lease_claim_from_persisted_parts key (row_holder_id r) (row_fencing_token r)
    (row_lease_token r) (row_expires_at r) :: 'c lease_error + claim")
  case (Inl e)
  then show ?thesis by (intro error) (simp add: decode_claim_def)
next
  case (Inr c)
  then have "decode_claim key (Inr (Some r)) = (Inr (Some c) :: 'c lease_error + claim option)"
    by (simp add: decode_claim_def)
  with decode_claim_Some [OF this] show ?thesis by (intro claim) simp
qed

lemma executor_claim_Some:
  assumes "try_claim_lease_with_executor seen now key holder_id token duration t
      = ((Inr (Some c) :: 'c lease_error + claim option), t')"
  obtains us r where "positive_microseconds duration = (Inr us :: 'c lease_error + int)"
    "claim_lease_statement seen now key holder_id token us t = (Inr (Some r), t')" "c = claim_of_row key r"
  using assms
  by (auto simp: try_claim_lease_with_executor_def split: sum.splits prod.splits dest!: decode_claim_Some)

lemma executor_claim_step:
  assumes "seen = leases t key \<or> seen = None"
    and "try_claim_lease_with_executor seen now key holder_id token duration t
      = ((r :: 'c lease_error + claim option), t')"
  shows "lease_step\<^sup>*\<^sup>* t t'"
proof (cases "positive_microseconds duration :: 'c lease_error + int")
  case (Inl e)
  then show ?thesis using assms(2) by (simp add: try_claim_lease_with_executor_def)
next
  case (Inr us)
  then have "t' = snd (claim_lease_statement seen now key holder_id token us t)"
    using assms(2) by (auto simp: try_claim_lease_with_executor_def split: prod.splits)
  then show ?thesis using lease_step.claim [OF assms(1)] by auto
qed

text \<open>C15: Fencing tokens of a key only grow: a claim granted later, after any run of claims,
  renewals and releases by anyone, carries a strictly greater fencing token, whether the lease
  in between expired, was released or was replaced, and also when the later statement did not
  see a concurrently inserted row.\<close>

theorem fencing_tokens_increase:
  assumes inv: "lease_inv t"
    and seen: "seen = leases t key \<or> seen = None" "seen' = leases t2 key \<or> seen' = None"
    and first: "try_claim_lease_with_executor seen now key holder_id token duration t
        = ((Inr (Some c) :: 'c lease_error + claim option), t1)"
    and run: "lease_step\<^sup>*\<^sup>* t1 t2"
    and second: "try_claim_lease_with_executor seen' now' key holder_id' token' duration' t2
        = ((Inr (Some c') :: 'c lease_error + claim option), t3)"
  shows "claim_fencing_token c < claim_fencing_token c'"
proof -
  from first obtain us r where 1: "claim_lease_statement seen now key holder_id token us t = (Inr (Some r), t1)"
      "c = claim_of_row key r" by (rule executor_claim_Some)
  from second obtain us' r' where 2: "claim_lease_statement seen' now' key holder_id' token' us' t2 = (Inr (Some r'), t3)"
      "c' = claim_of_row key r'" by (rule executor_claim_Some)
  have inv1: "lease_inv t1"
    using lease_fencing.invar_run [OF executor_claim_step [OF seen(1) first] inv] .
  have "latest_fencing t1 key = row_fencing_token r"
    using 1(1) by (cases rule: claim_statement_cases) (auto simp: latest_fencing_def)
  moreover have "latest_fencing t1 key \<le> latest_fencing t2 key"
    by (rule lease_fencing.latest_run [OF run inv1])
  moreover have "latest_fencing t2 key < row_fencing_token r'"
    using 2(1) next_fencing_gt [OF lease_fencing.invar_run [OF run inv1] seen(2)]
    by (cases rule: claim_statement_cases) auto
  ultimately show ?thesis by (simp add: 1 2 claim_of_row_def)
qed

text \<open>C36: A claim is granted only when no lease on the key is live, and then the row holds exactly
  the claim's material until its expiry; while a lease is live no claim is granted and no lease
  row changes.\<close>

theorem claim_excludes_live_lease:
  assumes seen: "seen = leases t key \<or> seen = None"
    and claim: "try_claim_lease_with_executor seen now key holder_id token duration t
        = ((r :: 'c lease_error + claim option), t')"
  shows "(\<forall>c. r = Inr (Some c) \<longrightarrow>
            (\<forall>q. leases t key = Some q \<longrightarrow> row_expires_at q \<le> now)
            \<and> leases t' = (leases t)(key \<mapsto> \<lparr>row_holder_id = holder_id,
                 row_fencing_token = claim_fencing_token c, row_lease_token = token,
                 row_expires_at = claim_expires_at c\<rparr>)
            \<and> claim_key c = key \<and> claim_holder_id c = holder_id \<and> claim_lease_token c = token
            \<and> Inr (claim_expires_at c - now) = (positive_microseconds duration :: 'c lease_error + int))
      \<and> ((\<forall>c. r \<noteq> Inr (Some c)) \<longrightarrow> leases t' = leases t \<or> (\<exists>e. r = Inl e))
      \<and> (\<forall>q. leases t key = Some q \<longrightarrow> row_is_live now q \<longrightarrow>
            (\<forall>c. r \<noteq> Inr (Some c)) \<and> leases t' = leases t)"
proof (cases "positive_microseconds duration :: 'c lease_error + int")
  case (Inl e)
  then show ?thesis using claim by (auto simp: try_claim_lease_with_executor_def)
next
  case (Inr us)
  obtain res where c: "claim_lease_statement seen now key holder_id token us t = (res, t')"
     "r = decode_claim key res"
    using claim Inr by (auto simp: try_claim_lease_with_executor_def split: prod.splits)
  from c(1) show ?thesis
  proof (cases rule: claim_statement_cases)
    case unchanged
    then show ?thesis using c(2) by (auto dest!: decode_claim_Some)
  next
    case (burned f)
    then show ?thesis using c(2) by (auto dest!: decode_claim_Some)
  next
    case (granted q)
    have free: "\<And>p. leases t key = Some p \<Longrightarrow> row_expires_at p \<le> now"
      using granted(9) by (auto simp: row_is_live_def)
    have "(\<exists>e. r = Inl e) \<or> r = Inr (Some (claim_of_row key q))"
      using c(2) granted(1) by (cases rule: decode_claim_row [of key q]) auto
    then show ?thesis
      using granted(1-8) free Inr
      by (elim disjE exE) (fastforce simp: claim_of_row_def row_is_live_def)+
  qed
qed

lemma executor_renew_step:
  assumes "try_renew_lease_with_executor now c next_token duration t
      = ((r :: 'c lease_error + claim option), t')"
  shows "lease_step\<^sup>*\<^sup>* t t'"
proof (cases "positive_microseconds duration :: 'c lease_error + int")
  case (Inl e)
  then show ?thesis using assms by (simp add: try_renew_lease_with_executor_def)
next
  case (Inr us)
  then have "t' = snd (renew_lease_statement now (claim_key c) (claim_holder_id c)
      (claim_fencing_token c) (claim_lease_token c) next_token us t)"
    using assms by (auto simp: try_renew_lease_with_executor_def split: prod.splits)
  then show ?thesis using lease_step.renew by blast
qed

text \<open>C7: A claim whose fencing token no longer owns its key (it was released, replaced after
  expiry, or superseded) can never again renew or release anything: whatever anyone does in
  the meantime, renewing returns no claim, releasing returns false, and neither changes a table.\<close>

theorem stale_claim_is_powerless:
  assumes inv: "lease_inv t"
    and stale: "holding_fencing t (claim_key c) \<noteq> Some (claim_fencing_token c)"
      "claim_fencing_token c \<le> latest_fencing t (claim_key c)"
    and run: "lease_step\<^sup>*\<^sup>* t t'"
    and duration: "positive_microseconds duration = (Inr us :: 'c lease_error + int)"
  shows "try_renew_lease_with_executor now c next_token duration t'
           = ((Inr None :: 'c lease_error + claim option), t')
    \<and> release_lease_with_executor now c t' = ((Inr False :: 'c lease_error + bool), t')"
proof -
  have gone: "row_fencing_token r \<noteq> claim_fencing_token c" if "leases t' (claim_key c) = Some r" for r
    using lease_fencing.never_returns [OF run inv stale] that by (simp add: holding_fencing_def)
  have "renew_lease_statement now (claim_key c) (claim_holder_id c) (claim_fencing_token c)
      (claim_lease_token c) next_token us t' = (Inr None, t')"
    using gone by (auto simp: renew_lease_statement_def row_matches_def split: option.splits)
  moreover have "release_lease_statement now (claim_key c) (claim_holder_id c) (claim_fencing_token c)
      (claim_lease_token c) t' = (Inr 0, t')"
    using gone by (auto simp: release_lease_statement_def row_matches_def split: option.splits)
  ultimately show ?thesis
    using duration
    by (simp add: try_renew_lease_with_executor_def release_lease_with_executor_def decode_claim_def)
qed

text \<open>A renewal succeeds only for the exact current claim while it is live; it keeps the key,
  holder and fencing token, rotates the lease token and moves the expiry; afterwards the claim
  that was renewed is void, so of two copies of one claim at most one can be used.\<close>

theorem renewal_rotates_claim:
  assumes renew: "try_renew_lease_with_executor now c next_token duration t
      = ((Inr (Some c') :: 'c lease_error + claim option), t')"
    and fresh: "next_token \<noteq> claim_lease_token c"
  shows "leases t (claim_key c) = Some \<lparr>row_holder_id = claim_holder_id c,
            row_fencing_token = claim_fencing_token c, row_lease_token = claim_lease_token c,
            row_expires_at = row_expires_at (the (leases t (claim_key c)))\<rparr>
    \<and> row_is_live now (the (leases t (claim_key c)))
    \<and> claim_key c' = claim_key c \<and> claim_holder_id c' = claim_holder_id c
    \<and> claim_fencing_token c' = claim_fencing_token c \<and> claim_lease_token c' = next_token
    \<and> Inr (claim_expires_at c' - now) = (positive_microseconds duration :: 'c lease_error + int)
    \<and> try_renew_lease_with_executor now' c token'' duration t' = ((Inr None :: 'c lease_error + claim option), t')
    \<and> release_lease_with_executor now' c t' = ((Inr False :: 'c lease_error + bool), t')"
proof -
  obtain us where us: "positive_microseconds duration = (Inr us :: 'c lease_error + int)"
    using renew by (cases "positive_microseconds duration :: 'c lease_error + int")
      (auto simp: try_renew_lease_with_executor_def)
  obtain res where res: "renew_lease_statement now (claim_key c) (claim_holder_id c)
      (claim_fencing_token c) (claim_lease_token c) next_token us t = (res, t')"
      "decode_claim (claim_key c) res = (Inr (Some c') :: 'c lease_error + claim option)"
    using renew us by (auto simp: try_renew_lease_with_executor_def split: prod.splits)
  obtain r where r: "res = Inr (Some r)" "c' = claim_of_row (claim_key c) r"
    using decode_claim_Some [OF res(2)] by blast
  obtain q where q: "leases t (claim_key c) = Some q" "row_matches now (claim_holder_id c) (claim_fencing_token c) (claim_lease_token c) q"
     "r = q\<lparr>row_lease_token := next_token, row_expires_at := now + us\<rparr>" "t' = t\<lparr>leases := (leases t)(claim_key c \<mapsto> r)\<rparr>"
    using res(1) r(1) by (auto simp: renew_lease_statement_def Let_def split: option.splits if_splits)
  have void: "\<not> row_matches now' (claim_holder_id c) (claim_fencing_token c) (claim_lease_token c) r"
    using fresh q(3) by (simp add: row_matches_def)
  have "try_renew_lease_with_executor now' c token'' duration t' = ((Inr None :: 'c lease_error + claim option), t')"
    using void q(4) us by (simp add: try_renew_lease_with_executor_def renew_lease_statement_def decode_claim_def)
  moreover have "release_lease_with_executor now' c t' = ((Inr False :: 'c lease_error + bool), t')"
    using void q(4) by (simp add: release_lease_with_executor_def release_lease_statement_def)
  ultimately show ?thesis
    using q(1-3) r(2) us by (auto simp: row_matches_def claim_of_row_def)
qed

text \<open>A pool-level claim that returns a claim has committed it; one that returns an error has
  left the committed tables as they were, unless the commit itself failed with an unknown outcome.\<close>

theorem pool_claim_is_atomic:
  "case try_claim_lease protocol env random seen key holder_id duration t of
     (Inr (Some c), t') \<Rightarrow> env_commit env = Committed
       \<and> (\<exists>bs. random = Inr bs \<and> try_claim_lease_with_executor seen (env_now env) key holder_id bs duration t
            = ((Inr (Some c) :: 'c lease_error + claim option), t'))
   | (Inr None, t') \<Rightarrow> env_commit env = Committed
   | (Inl (e :: 'c lease_error), t') \<Rightarrow> t' = t \<or> (\<exists>x. env_commit env = CommitFailed x True)"
  (is "case ?op of (Inr (Some c), t') \<Rightarrow> _ c t' | (Inr None, t') \<Rightarrow> _ t' | (Inl e, t') \<Rightarrow> _ e t'")
proof (cases "fst ?op")
  case (Inl e)
  then have "snd ?op = t \<or> (\<exists>x. env_commit env = CommitFailed x True)"
    using pool_write_error_state [OF Inl [unfolded try_claim_lease_def]] unfolding try_claim_lease_def by blast
  then show ?thesis using Inl by (cases ?op) auto
next
  case (Inr v)
  note ok = Inr [unfolded try_claim_lease_def pool_write_ok_iff]
  note st = pool_write_ok_state [OF Inr [unfolded try_claim_lease_def]]
  let ?body = "try_claim_lease_in_current_transaction protocol random (env_reply env) seen (env_now env) key holder_id duration (begin_transaction t)"
  obtain bs where bs: "random = Inr bs" 
    using ok by (cases random) (auto simp: try_claim_lease_in_current_transaction_def token_random_def)
  have body: "?body = (admitted protocol (env_reply env) LeaseDatabase
      (try_claim_lease_with_executor seen (env_now env) key holder_id bs duration) (begin_transaction t)
      :: ('c lease_error + claim option) \<times> lease_tables tx)"
    by (simp add: try_claim_lease_in_current_transaction_def token_random_def bs)
  from ok have "fst ?body = (Inr v :: 'c lease_error + claim option)" by blast
  note adm = admitted_Inr [OF this [unfolded body]]
  from adm(2,3) have "fst (try_claim_lease_with_executor seen (env_now env) key holder_id bs duration t) = (Inr v :: 'c lease_error + claim option)"
     "snd ?op = snd (try_claim_lease_with_executor seen (env_now env) key holder_id bs duration t :: ('c lease_error + claim option) \<times> _)"
    using st unfolding body by (simp_all add: begin_transaction_def try_claim_lease_def)
  then have "?op = try_claim_lease_with_executor seen (env_now env) key holder_id bs duration t"
    using Inr by (simp add: prod_eq_iff)
  moreover obtain t' where "?op = (Inr v, t')" using Inr by (metis prod.collapse)
  ultimately show ?thesis using ok bs by (cases v) auto
qed

section \<open>Witnesses\<close>

definition no_leases :: lease_tables where
  "no_leases = \<lparr>leases = Map.empty, fencing_counters = Map.empty\<rparr>"

lemma lease_inv_no_leases: "lease_inv no_leases"
  by (simp add: lease_inv_def no_leases_def)

definition token_of :: "u8 \<Rightarrow> bytes" where
  "token_of x = replicate 32 x"

definition two_seconds :: claim_duration where
  "two_seconds = ClaimDuration 2000000000"

definition held_row :: "string \<Rightarrow> int \<Rightarrow> u8 \<Rightarrow> micros \<Rightarrow> lease_row" where
  "held_row h f x e = \<lparr>row_holder_id = h, row_fencing_token = f, row_lease_token = token_of x, row_expires_at = e\<rparr>"

definition held_tables :: "string \<Rightarrow> int \<Rightarrow> u8 \<Rightarrow> micros \<Rightarrow> lease_tables" where
  "held_tables h f x e = \<lparr>leases = [''k::'' \<mapsto> held_row h f x e], fencing_counters = [''k::'' \<mapsto> f]\<rparr>"

definition free_tables :: "int \<Rightarrow> lease_tables" where
  "free_tables f = \<lparr>leases = Map.empty, fencing_counters = [''k::'' \<mapsto> f]\<rparr>"

lemma two_seconds_us: "positive_microseconds two_seconds = (Inr 2000000 :: unit lease_error + int)"
  by (simp add: positive_microseconds_def two_seconds_def duration_to_rounded_microseconds_def i64_max_def)

lemmas lease_eval = two_seconds_us held_row_def held_tables_def free_tables_def claim_of_row_def row_is_live_def
  try_claim_lease_with_executor_def claim_lease_statement_def Let_def next_fencing_token_def i64_max_def
  decode_claim_def lease_claim_from_persisted_parts_def holder_id_new_def lease_validate_holder_id_def
  MAX_LEASE_HOLDER_ID_BYTES_def fencing_token_from_i64_def token_from_persisted_bytes_def
  LEASE_TOKEN_BYTES_def token_of_def

lemma first_claim:
  "try_claim_lease_with_executor None 100 ''k::'' ''a'' (token_of 1) two_seconds no_leases
     = ((Inr (Some (claim_of_row ''k::'' (held_row ''a'' 1 1 2000100))) :: unit lease_error + claim option),
        held_tables ''a'' 1 1 2000100)"
  by (simp add: lease_eval no_leases_def)

lemma released:
  "release_lease_statement 200 ''k::'' ''a'' 1 (token_of 1) (held_tables ''a'' 1 1 2000100) = (Inr 1, free_tables 1)"
  by (simp add: release_lease_statement_def row_matches_def lease_eval)

lemma second_claim:
  "try_claim_lease_with_executor None 300 ''k::'' ''b'' (token_of 2) two_seconds (free_tables 1)
     = ((Inr (Some (claim_of_row ''k::'' (held_row ''b'' 2 2 2000300))) :: unit lease_error + claim option),
        held_tables ''b'' 2 2 2000300)"
  by (simp add: lease_eval max_def)

lemma release_run: "lease_step\<^sup>*\<^sup>* (held_tables ''a'' 1 1 2000100) (free_tables 1)"
  using lease_step.release [of "held_tables ''a'' 1 1 2000100" 200 "''k::''" "''a''" 1 "token_of 1"]
  by (simp add: released)

theorem lease_keys_injective_witness:
  "prefix ''a::'' ''a::b::''"
proof -
  have "lease_build_key_from_parts [''a''] = (Inr ''a::'' :: unit lease_error + string)"
    "lease_build_key_from_parts [''a'', ''b''] = (Inr ''a::b::'' :: unit lease_error + string)"
    by (simp_all add: lease_build_key_from_parts_def lease_validate_key_part_def
      LEASE_KEY_SEPARATOR_def lease_validate_key_length_def MAX_LEASE_KEY_BYTES_def)
  from lease_keys_injective [OF this] show ?thesis by simp
qed

theorem fencing_tokens_increase_witness:
  "claim_fencing_token (claim_of_row ''k::'' (held_row ''a'' 1 1 2000100))
     < claim_fencing_token (claim_of_row ''k::'' (held_row ''b'' 2 2 2000300))"
  by (rule fencing_tokens_increase [OF lease_inv_no_leases _ _ first_claim release_run second_claim]) simp_all

theorem claim_excludes_live_lease_witness:
  "\<exists>t'. try_claim_lease_with_executor None 300 ''k::'' ''b'' (token_of 2) two_seconds (held_tables ''a'' 1 1 2000100)
     = ((Inr None :: unit lease_error + claim option), t') \<and> leases t' = leases (held_tables ''a'' 1 1 2000100)"
proof -
  obtain t' where c: "try_claim_lease_with_executor None 300 ''k::'' ''b'' (token_of 2) two_seconds (held_tables ''a'' 1 1 2000100)
     = ((Inr None :: unit lease_error + claim option), t')"
    by (simp add: lease_eval)
  have "leases t' = leases (held_tables ''a'' 1 1 2000100)"
    using claim_excludes_live_lease [OF _ c] by (simp add: held_tables_def held_row_def row_is_live_def)
  with c show ?thesis by blast
qed

theorem stale_claim_is_powerless_witness:
  "release_lease_with_executor 400 (claim_of_row ''k::'' (held_row ''a'' 1 1 2000100)) (held_tables ''b'' 2 2 2000300)
     = ((Inr False :: unit lease_error + bool), held_tables ''b'' 2 2 2000300)"
proof -
  have inv: "lease_inv (free_tables 1)"
    by (simp add: lease_inv_def free_tables_def)
  have run: "lease_step\<^sup>*\<^sup>* (free_tables 1) (held_tables ''b'' 2 2 2000300)"
    by (rule executor_claim_step [OF _ second_claim]) simp
  show ?thesis
    using stale_claim_is_powerless [OF inv _ _ run two_seconds_us,
        of "claim_of_row ''k::'' (held_row ''a'' 1 1 2000100)" 400 "token_of 3"]
    by (simp add: claim_of_row_def holding_fencing_def latest_fencing_def free_tables_def held_row_def)
qed

theorem renewal_rotates_claim_witness:
  "\<exists>c' t'. try_renew_lease_with_executor 500 (claim_of_row ''k::'' (held_row ''a'' 1 1 2000100)) (token_of 9)
      two_seconds (held_tables ''a'' 1 1 2000100) = ((Inr (Some c') :: unit lease_error + claim option), t')
    \<and> release_lease_with_executor 600 (claim_of_row ''k::'' (held_row ''a'' 1 1 2000100)) t'
      = ((Inr False :: unit lease_error + bool), t')"
proof -
  obtain c' t' where c: "try_renew_lease_with_executor 500 (claim_of_row ''k::'' (held_row ''a'' 1 1 2000100)) (token_of 9)
      two_seconds (held_tables ''a'' 1 1 2000100) = ((Inr (Some c') :: unit lease_error + claim option), t')"
    by (simp add: try_renew_lease_with_executor_def renew_lease_statement_def row_matches_def lease_eval)
  have "token_of 9 \<noteq> claim_lease_token (claim_of_row ''k::'' (held_row ''a'' 1 1 2000100))"
    by (simp add: lease_eval)
  with renewal_rotates_claim [OF c, where now' = 600] c show ?thesis by blast
qed

end
