(* ===== verification/FleetError.thy ===== *)
theory FleetError
  imports Lease KvAtomic SortableId
begin

text \<open>
  \<open>src/src/db/fleet/error.rs\<close>, the error type of the fleet primitives; the walk of
  \<open>contains_protocol_failure\<close> (\<open>src/src/db/protocol.rs\<close>) along the sources of the key-value,
  coordination and fleet errors; and \<open>MutexRunError\<close> with the functions of
  \<open>src/src/db/fleet/mutex_guard.rs\<close> that combine the error of a task with that of the release.

  \<open>source()\<close> of a variant is its \<open>#[source]\<close> or \<open>#[from]\<close> field; a variant without one ends
  the walk. An \<open>#[error(transparent)]\<close> variant passes on the source of its field. The error of
  a failed task join is a text; errors of the crypto and codec modules are the type \<open>'c\<close>.
\<close>

section \<open>Sources\<close>

fun lease_contains_protocol_failure :: "'c lease_error \<Rightarrow> bool" where
  "lease_contains_protocol_failure (LeaseDatabase e) = db_contains_protocol_failure e"
| "lease_contains_protocol_failure (LeaseRollbackFailed _ e _) = lease_contains_protocol_failure e"
| "lease_contains_protocol_failure _ = False"

fun kv_contains_protocol_failure :: "'c kv_error \<Rightarrow> bool" where
  "kv_contains_protocol_failure (KvDatabase e) = db_contains_protocol_failure e"
| "kv_contains_protocol_failure (KvRollbackFailed _ e _) = kv_contains_protocol_failure e"
| "kv_contains_protocol_failure _ = False"

text \<open>
  The variants of \<open>Error\<close>, in the order of the source, in four groups and the rest: the error
  of the groups is wrapped once more.
\<close>

datatype 'c fleet_cache_error =
    FleetTableNamesMustBeDistinct
  | FleetInvalidRootKey "'c lease_error"
  | FleetInvalidRootKeyForKv "'c kv_error"
  | FleetInvalidMutexKey "'c lease_error"
  | FleetInvalidCounterKey "'c kv_error"
  | FleetCounterArithmeticOverflow
  | FleetCounterMutationDidNotAssignNextValue
  | FleetInvalidCoalescingCacheKeyForValue "'c kv_error"
  | FleetInvalidCoalescingCacheKeyForEpoch "'c kv_error"
  | FleetInvalidCoalescingCacheKeyForMutex "'c lease_error"
  | FleetInvalidCoalescingCacheLockWaitTimeout
  | FleetInvalidCoalescingCacheComputeTimeout
  | FleetCoalescingCacheLockWaitTimedOut nanos
  | FleetCoalescingCacheComputeTimedOut nanos
  | FleetCoalescingCacheComputeMutexLost

datatype 'c fleet_topic_error =
    FleetInvalidTopicKeyForSequence "'c kv_error"
  | FleetInvalidTopicKeyForEvents "'c kv_error"
  | FleetInvalidSubscriptionKeyForCursor "'c kv_error"
  | FleetInvalidSubscriptionKeyForPollingMutex "'c lease_error"
  | FleetTopicSequenceMustBeNonNegative
  | FleetTopicSequenceOverflow
  | FleetTopicPublishMutationDidNotAssignSequence
  | FleetTopicPublishMutationDidNotObserveTimestamp
  | FleetInvalidTopicEventSequenceSuffix string
  | FleetInvalidSubscriptionPollLimit nat nat
  | FleetInvalidCronKey "'c lease_error"
  | FleetInvalidCronInterval nanos

datatype 'c fleet_throttle_error =
    FleetInvalidSemaphoreKey "'c kv_error"
  | FleetInvalidSemaphoreMaxConcurrent nat nat
  | FleetInvalidSemaphoreMaxHoldDuration "'c kv_error"
  | FleetSemaphoreClaimBelongsToDifferentSemaphore
  | FleetInvalidThrottlerKey "'c kv_error"
  | FleetInvalidRateLimiterKey "'c kv_error"
  | FleetInvalidCircuitBreakerKey "'c kv_error"
  | FleetInvalidThrottlerHasNoControls
  | FleetInvalidThrottlerRequestsPerInterval
  | FleetInvalidThrottlerRateLimitInterval
  | FleetInvalidThrottlerMaxConcurrent nat nat
  | FleetInvalidThrottlerMaxHoldDuration
  | FleetInvalidThrottlerFailureThreshold
  | FleetInvalidThrottlerRecoveryTimeout
  | FleetInvalidThrottlerStateTtl "'c kv_error"
  | FleetThrottlerTimestampOverflow
  | FleetThrottlerHolderIdRequired
  | FleetThrottlerPermitBelongsToDifferentThrottler
  | FleetThrottlerProbeHeartbeatTaskFailed string
  | FleetRateLimiterUnexpectedCircuitOpen

datatype 'c fleet_mutex_error =
    FleetInvalidOnceKeyForCompletionMarker "'c kv_error"
  | FleetInvalidOnceKeyForMutex "'c lease_error"
  | FleetHolderIdGeneration "'c id_error"
  | FleetGeneratedHolderIdRejected "'c lease_error"
  | FleetMutexManualRenewalClaimBelongsToDifferentMutex
  | FleetInvalidMutexHeartbeatInterval nanos
  | FleetInvalidMutexAcquireRetryInterval
  | FleetInvalidMutexMaxAcquireRetryInterval
  | FleetMutexAcquireRetryJitterRandom string
  | FleetInvalidMutexMaxConsecutiveRenewalFailures
  | FleetMutexClaimDurationTooShortForHeartbeat nanos nanos
  | FleetMutexHeartbeatTaskFailed string

datatype 'c fleet_error =
    FleetCacheError "'c fleet_cache_error"
  | FleetTopicError "'c fleet_topic_error"
  | FleetThrottleError "'c fleet_throttle_error"
  | FleetMutexError "'c fleet_mutex_error"
  | FleetMutexGuardStopAndReleaseFailed "'c fleet_error" "'c fleet_error"
  | FleetRunOnceManualRunClaimBelongsToDifferentTask
  | FleetRunOnceManualRunClaimNoLongerLive
  | FleetRunOnceCompletionAlreadyRecordedAfterStart
  | FleetKv "'c kv_error"
  | FleetCoordination "'c lease_error"
  | FleetDatabase db_error
  | FleetDatabaseOperationRollbackFailed string "'c fleet_error" db_error

fun fleet_cache_error_source_failure :: "'c fleet_cache_error \<Rightarrow> bool" where
  "fleet_cache_error_source_failure (FleetInvalidRootKey e) = lease_contains_protocol_failure e"
| "fleet_cache_error_source_failure (FleetInvalidRootKeyForKv e) = kv_contains_protocol_failure e"
| "fleet_cache_error_source_failure (FleetInvalidMutexKey e) = lease_contains_protocol_failure e"
| "fleet_cache_error_source_failure (FleetInvalidCounterKey e) = kv_contains_protocol_failure e"
| "fleet_cache_error_source_failure (FleetInvalidCoalescingCacheKeyForValue e) = kv_contains_protocol_failure e"
| "fleet_cache_error_source_failure (FleetInvalidCoalescingCacheKeyForEpoch e) = kv_contains_protocol_failure e"
| "fleet_cache_error_source_failure (FleetInvalidCoalescingCacheKeyForMutex e) = lease_contains_protocol_failure e"
| "fleet_cache_error_source_failure _ = False"

fun fleet_topic_error_source_failure :: "'c fleet_topic_error \<Rightarrow> bool" where
  "fleet_topic_error_source_failure (FleetInvalidTopicKeyForSequence e) = kv_contains_protocol_failure e"
| "fleet_topic_error_source_failure (FleetInvalidTopicKeyForEvents e) = kv_contains_protocol_failure e"
| "fleet_topic_error_source_failure (FleetInvalidSubscriptionKeyForCursor e) = kv_contains_protocol_failure e"
| "fleet_topic_error_source_failure (FleetInvalidSubscriptionKeyForPollingMutex e) = lease_contains_protocol_failure e"
| "fleet_topic_error_source_failure (FleetInvalidCronKey e) = lease_contains_protocol_failure e"
| "fleet_topic_error_source_failure _ = False"

fun fleet_throttle_error_source_failure :: "'c fleet_throttle_error \<Rightarrow> bool" where
  "fleet_throttle_error_source_failure (FleetInvalidSemaphoreKey e) = kv_contains_protocol_failure e"
| "fleet_throttle_error_source_failure (FleetInvalidSemaphoreMaxHoldDuration e) = kv_contains_protocol_failure e"
| "fleet_throttle_error_source_failure (FleetInvalidThrottlerKey e) = kv_contains_protocol_failure e"
| "fleet_throttle_error_source_failure (FleetInvalidRateLimiterKey e) = kv_contains_protocol_failure e"
| "fleet_throttle_error_source_failure (FleetInvalidCircuitBreakerKey e) = kv_contains_protocol_failure e"
| "fleet_throttle_error_source_failure (FleetInvalidThrottlerStateTtl e) = kv_contains_protocol_failure e"
| "fleet_throttle_error_source_failure _ = False"

fun fleet_mutex_error_source_failure :: "'c fleet_mutex_error \<Rightarrow> bool" where
  "fleet_mutex_error_source_failure (FleetInvalidOnceKeyForCompletionMarker e) = kv_contains_protocol_failure e"
| "fleet_mutex_error_source_failure (FleetInvalidOnceKeyForMutex e) = lease_contains_protocol_failure e"
| "fleet_mutex_error_source_failure (FleetGeneratedHolderIdRejected e) = lease_contains_protocol_failure e"
| "fleet_mutex_error_source_failure _ = False"

fun fleet_contains_protocol_failure :: "'c fleet_error \<Rightarrow> bool" where
  "fleet_contains_protocol_failure (FleetCacheError e) = fleet_cache_error_source_failure e"
| "fleet_contains_protocol_failure (FleetTopicError e) = fleet_topic_error_source_failure e"
| "fleet_contains_protocol_failure (FleetThrottleError e) = fleet_throttle_error_source_failure e"
| "fleet_contains_protocol_failure (FleetMutexError e) = fleet_mutex_error_source_failure e"
| "fleet_contains_protocol_failure (FleetKv e) = kv_contains_protocol_failure e"
| "fleet_contains_protocol_failure (FleetCoordination e) = lease_contains_protocol_failure e"
| "fleet_contains_protocol_failure (FleetDatabase e) = db_contains_protocol_failure e"
| "fleet_contains_protocol_failure (FleetDatabaseOperationRollbackFailed _ e _) = fleet_contains_protocol_failure e"
| "fleet_contains_protocol_failure _ = False"

section \<open>Errors of a guarded task\<close>

datatype ('c, 'e) mutex_run_error =
    RunFleet "'c fleet_error"
  | RunFleetAndLeadershipLost "'c fleet_error"
  | RunFleetAndRelease "'c fleet_error" "'c fleet_error"
  | RunLeadershipLost
  | RunLeadershipLostAndRelease "'c fleet_error"
  | RunTask 'e
  | RunTaskAndLeadershipLost 'e
  | RunRelease "'c fleet_error"
  | RunTaskAndRelease 'e "'c fleet_error"

fun combine_mutex_task_and_release_results ::
    "('c, 'e) mutex_run_error + 'v \<Rightarrow> 'c fleet_error + bool \<Rightarrow> ('c, 'e) mutex_run_error + 'v" where
  "combine_mutex_task_and_release_results (Inr v) (Inr True) = Inr v"
| "combine_mutex_task_and_release_results (Inr v) (Inr False) = Inl RunLeadershipLost"
| "combine_mutex_task_and_release_results (Inr v) (Inl e) = Inl (RunRelease e)"
| "combine_mutex_task_and_release_results (Inl (RunTask s)) (Inr False) = Inl (RunTaskAndLeadershipLost s)"
| "combine_mutex_task_and_release_results (Inl (RunFleet s)) (Inr False) = Inl (RunFleetAndLeadershipLost s)"
| "combine_mutex_task_and_release_results (Inl (RunTask s)) (Inr True) = Inl (RunTask s)"
| "combine_mutex_task_and_release_results (Inl (RunTask s)) (Inl e) = Inl (RunTaskAndRelease s e)"
| "combine_mutex_task_and_release_results (Inl (RunFleet s)) (Inl e) = Inl (RunFleetAndRelease s e)"
| "combine_mutex_task_and_release_results (Inl RunLeadershipLost) (Inl e) = Inl (RunLeadershipLostAndRelease e)"
| "combine_mutex_task_and_release_results (Inl err) _ = Inl err"

definition combine_mutex_guard_stop_and_release_results ::
    "'c fleet_error + unit \<Rightarrow> 'c fleet_error + bool \<Rightarrow> 'c fleet_error + bool" where
  "combine_mutex_guard_stop_and_release_results stop_result release_result =
     (case (stop_result, release_result) of
        (Inr _, Inr released) \<Rightarrow> Inr released
      | (Inr _, Inl e) \<Rightarrow> Inl e
      | (Inl e, Inr _) \<Rightarrow> Inl e
      | (Inl stop_error, Inl release_error) \<Rightarrow>
          Inl (FleetMutexGuardStopAndReleaseFailed stop_error release_error))"

definition require_coalescing_cache_mutex_released :: "'c fleet_error + bool \<Rightarrow> 'c fleet_error + unit" where
  "require_coalescing_cache_mutex_released release_result =
     (case release_result of
        Inr True \<Rightarrow> Inr () | Inr False \<Rightarrow> Inl (FleetCacheError FleetCoalescingCacheComputeMutexLost) | Inl e \<Rightarrow> Inl e)"

definition require_once_task_mutex_released :: "'c fleet_error + bool \<Rightarrow> 'c fleet_error + unit" where
  "require_once_task_mutex_released release_result =
     (case release_result of
        Inr True \<Rightarrow> Inr () | Inr False \<Rightarrow> Inl FleetRunOnceManualRunClaimNoLongerLive | Inl e \<Rightarrow> Inl e)"

lemma combine_mutex_ok_iff:
  "combine_mutex_task_and_release_results task_result release_result = Inr v \<longleftrightarrow>
     task_result = Inr v \<and> release_result = Inr True"
  by (cases "(task_result, release_result)" rule: combine_mutex_task_and_release_results.cases) auto

text \<open>The protocol failure kept in a stop-and-release error is not among its sources.\<close>

lemma stop_and_release_hides_protocol_failure:
  "fleet_contains_protocol_failure (FleetCoordination (LeaseDatabase (DbProtocol p)))"
  "\<not> fleet_contains_protocol_failure (FleetMutexGuardStopAndReleaseFailed stop_error
     (FleetCoordination (LeaseDatabase (DbProtocol p))))"
  by simp_all

end
