(* ===== verification/FleetKeys.thy ===== *)
theory FleetKeys
  imports KvItem FleetError
begin

text \<open>
  \<open>src/src/db/fleet/namespace_keys.rs\<close> and \<open>src/src/db/fleet/keys.rs\<close>: where the fleet primitives keep
  their state. Every primitive joins the root key, its component key and its own key to a prefix in the
  key-value store or to the key of a lease. The validated key types are their texts.
\<close>

section \<open>Component keys\<close>

definition DEFAULT_FLEET_ROOT_KEY :: string where "DEFAULT_FLEET_ROOT_KEY = ''__paranoid_fleet''"
definition FLEET_MUTEX_COMPONENT_KEY :: string where "FLEET_MUTEX_COMPONENT_KEY = ''mutex''"
definition FLEET_COUNTER_COMPONENT_KEY :: string where "FLEET_COUNTER_COMPONENT_KEY = ''counter''"
definition FLEET_SEMAPHORE_COMPONENT_KEY :: string where "FLEET_SEMAPHORE_COMPONENT_KEY = ''semaphore''"
definition FLEET_THROTTLER_COMPONENT_KEY :: string where "FLEET_THROTTLER_COMPONENT_KEY = ''throttler''"
definition FLEET_ONCE_COMPONENT_KEY :: string where "FLEET_ONCE_COMPONENT_KEY = ''once''"
definition FLEET_CACHE_COMPONENT_KEY :: string where "FLEET_CACHE_COMPONENT_KEY = ''cache''"
definition FLEET_TOPIC_COMPONENT_KEY :: string where "FLEET_TOPIC_COMPONENT_KEY = ''topic''"
definition FLEET_CRON_COMPONENT_KEY :: string where "FLEET_CRON_COMPONENT_KEY = ''cron''"
definition FLEET_ONCE_COMPLETION_COMPONENT_KEY :: string where "FLEET_ONCE_COMPLETION_COMPONENT_KEY = ''completion''"
definition FLEET_ONCE_MUTEX_COMPONENT_KEY :: string where "FLEET_ONCE_MUTEX_COMPONENT_KEY = ''mutex''"
definition FLEET_SEMAPHORE_SLOTS_COMPONENT_KEY :: string where "FLEET_SEMAPHORE_SLOTS_COMPONENT_KEY = ''slots''"
definition COALESCING_CACHE_VALUE_COMPONENT_KEY :: string where "COALESCING_CACHE_VALUE_COMPONENT_KEY = ''value''"
definition COALESCING_CACHE_EPOCH_COMPONENT_KEY :: string where "COALESCING_CACHE_EPOCH_COMPONENT_KEY = ''epoch''"
definition COALESCING_CACHE_MUTEX_COMPONENT_KEY :: string where "COALESCING_CACHE_MUTEX_COMPONENT_KEY = ''mutex''"
definition TOPIC_SEQUENCE_COMPONENT_KEY :: string where "TOPIC_SEQUENCE_COMPONENT_KEY = ''sequence''"
definition TOPIC_EVENTS_COMPONENT_KEY :: string where "TOPIC_EVENTS_COMPONENT_KEY = ''events''"
definition TOPIC_SUBSCRIPTIONS_COMPONENT_KEY :: string where "TOPIC_SUBSCRIPTIONS_COMPONENT_KEY = ''subscriptions''"
definition TOPIC_CURSOR_COMPONENT_KEY :: string where "TOPIC_CURSOR_COMPONENT_KEY = ''cursor''"
definition TOPIC_POLLING_MUTEX_COMPONENT_KEY :: string where "TOPIC_POLLING_MUTEX_COMPONENT_KEY = ''polling_mutex''"

lemmas component_key_defs =
  DEFAULT_FLEET_ROOT_KEY_def FLEET_MUTEX_COMPONENT_KEY_def FLEET_COUNTER_COMPONENT_KEY_def
  FLEET_SEMAPHORE_COMPONENT_KEY_def FLEET_THROTTLER_COMPONENT_KEY_def FLEET_ONCE_COMPONENT_KEY_def
  FLEET_CACHE_COMPONENT_KEY_def FLEET_TOPIC_COMPONENT_KEY_def FLEET_CRON_COMPONENT_KEY_def
  FLEET_ONCE_COMPLETION_COMPONENT_KEY_def FLEET_ONCE_MUTEX_COMPONENT_KEY_def
  FLEET_SEMAPHORE_SLOTS_COMPONENT_KEY_def COALESCING_CACHE_VALUE_COMPONENT_KEY_def
  COALESCING_CACHE_EPOCH_COMPONENT_KEY_def COALESCING_CACHE_MUTEX_COMPONENT_KEY_def
  TOPIC_SEQUENCE_COMPONENT_KEY_def TOPIC_EVENTS_COMPONENT_KEY_def TOPIC_SUBSCRIPTIONS_COMPONENT_KEY_def
  TOPIC_CURSOR_COMPONENT_KEY_def TOPIC_POLLING_MUTEX_COMPONENT_KEY_def

section \<open>Prefixes and lease keys\<close>

definition build_counter_prefix :: "string \<Rightarrow> string \<Rightarrow> 'c fleet_error + string" where
  "build_counter_prefix root_key counter_key =
     map_sum (\<lambda>e. FleetCacheError (FleetInvalidCounterKey e)) id
       (kv_build_key_from_parts [root_key, FLEET_COUNTER_COMPONENT_KEY, counter_key])"

definition build_topic_sequence_prefix :: "string \<Rightarrow> string \<Rightarrow> 'c kv_error + string" where
  "build_topic_sequence_prefix root_key topic_key =
     kv_build_key_from_parts [root_key, FLEET_TOPIC_COMPONENT_KEY, topic_key, TOPIC_SEQUENCE_COMPONENT_KEY]"

definition build_topic_events_prefix :: "string \<Rightarrow> string \<Rightarrow> 'c kv_error + string" where
  "build_topic_events_prefix root_key topic_key =
     kv_build_key_from_parts [root_key, FLEET_TOPIC_COMPONENT_KEY, topic_key, TOPIC_EVENTS_COMPONENT_KEY]"

definition build_subscription_cursor_prefix :: "string \<Rightarrow> string \<Rightarrow> string \<Rightarrow> 'c kv_error + string" where
  "build_subscription_cursor_prefix root_key topic_key subscription_key =
     kv_build_key_from_parts [root_key, FLEET_TOPIC_COMPONENT_KEY, topic_key,
       TOPIC_SUBSCRIPTIONS_COMPONENT_KEY, subscription_key, TOPIC_CURSOR_COMPONENT_KEY]"

definition build_subscription_polling_mutex_lease_key ::
    "string \<Rightarrow> string \<Rightarrow> string \<Rightarrow> 'c lease_error + string" where
  "build_subscription_polling_mutex_lease_key root_key topic_key subscription_key =
     lease_build_key_from_parts [root_key, FLEET_TOPIC_COMPONENT_KEY, topic_key,
       TOPIC_SUBSCRIPTIONS_COMPONENT_KEY, subscription_key, TOPIC_POLLING_MUTEX_COMPONENT_KEY]"

definition build_cron_mutex_lease_key :: "string \<Rightarrow> string \<Rightarrow> 'c lease_error + string" where
  "build_cron_mutex_lease_key root_key cron_key =
     lease_build_key_from_parts [root_key, FLEET_CRON_COMPONENT_KEY, cron_key]"

definition build_coalescing_cache_value_prefix :: "string \<Rightarrow> string \<Rightarrow> 'c kv_error + string" where
  "build_coalescing_cache_value_prefix root_key cache_key =
     kv_build_key_from_parts [root_key, FLEET_CACHE_COMPONENT_KEY, cache_key, COALESCING_CACHE_VALUE_COMPONENT_KEY]"

definition build_coalescing_cache_epoch_prefix :: "string \<Rightarrow> string \<Rightarrow> 'c kv_error + string" where
  "build_coalescing_cache_epoch_prefix root_key cache_key =
     kv_build_key_from_parts [root_key, FLEET_CACHE_COMPONENT_KEY, cache_key, COALESCING_CACHE_EPOCH_COMPONENT_KEY]"

definition build_coalescing_cache_mutex_lease_key ::
    "string \<Rightarrow> string \<Rightarrow> string list \<Rightarrow> 'c lease_error + string" where
  "build_coalescing_cache_mutex_lease_key root_key cache_key key_parts =
     lease_build_key_from_parts
       ([root_key, FLEET_CACHE_COMPONENT_KEY, cache_key, COALESCING_CACHE_MUTEX_COMPONENT_KEY] @ key_parts)"

definition validated_cache_key_parts :: "string list \<Rightarrow> 'c fleet_error + string list" where
  "validated_cache_key_parts key_parts =
     map_sum (\<lambda>e. FleetCacheError (FleetInvalidCoalescingCacheKeyForValue e)) (\<lambda>_. key_parts)
       (kv_build_key_from_parts (''validation'' # key_parts))"

definition build_semaphore_slots_prefix :: "string \<Rightarrow> string \<Rightarrow> 'c fleet_error + string" where
  "build_semaphore_slots_prefix root_key semaphore_key =
     map_sum (\<lambda>e. FleetThrottleError (FleetInvalidSemaphoreKey e)) id
       (kv_build_key_from_parts
         [root_key, FLEET_SEMAPHORE_COMPONENT_KEY, FLEET_SEMAPHORE_SLOTS_COMPONENT_KEY, semaphore_key])"

definition build_throttler_state_prefix :: "string \<Rightarrow> string \<Rightarrow> 'c fleet_error + string" where
  "build_throttler_state_prefix root_key throttler_key =
     map_sum (\<lambda>e. FleetThrottleError (FleetInvalidThrottlerKey e)) id
       (kv_build_key_from_parts [root_key, FLEET_THROTTLER_COMPONENT_KEY, throttler_key])"

definition build_once_completion_prefix :: "string \<Rightarrow> string \<Rightarrow> 'c fleet_error + string" where
  "build_once_completion_prefix root_key once_key =
     map_sum (\<lambda>e. FleetMutexError (FleetInvalidOnceKeyForCompletionMarker e)) id
       (kv_build_key_from_parts
         [root_key, FLEET_ONCE_COMPONENT_KEY, FLEET_ONCE_COMPLETION_COMPONENT_KEY, once_key])"

definition build_once_mutex_lease_key :: "string \<Rightarrow> string \<Rightarrow> 'c fleet_error + string" where
  "build_once_mutex_lease_key root_key once_key =
     map_sum (\<lambda>e. FleetMutexError (FleetInvalidOnceKeyForMutex e)) id
       (lease_build_key_from_parts
         [root_key, FLEET_ONCE_COMPONENT_KEY, FLEET_ONCE_MUTEX_COMPONENT_KEY, once_key])"

text \<open>The lease key of \<open>Store::new_mutex\<close>.\<close>

definition build_mutex_lease_key :: "string \<Rightarrow> string \<Rightarrow> 'c fleet_error + string" where
  "build_mutex_lease_key root_key mutex_key =
     map_sum (\<lambda>e. FleetCacheError (FleetInvalidMutexKey e)) id
       (lease_build_key_from_parts [root_key, FLEET_MUTEX_COMPONENT_KEY, mutex_key])"

section \<open>Validated keys\<close>

definition root_key_new :: "string \<Rightarrow> 'c fleet_error + string" where
  "root_key_new input =
     (let lease = (\<lambda>r. map_sum (\<lambda>e. FleetCacheError (FleetInvalidRootKey e)) id r);
          kv = (\<lambda>r. map_sum (\<lambda>e. FleetCacheError (FleetInvalidRootKeyForKv e)) id r)
      in result_bind (lease (lease_build_key_from_parts [input, FLEET_MUTEX_COMPONENT_KEY, ''validation''])) (\<lambda>_.
         result_bind (kv (kv_build_key_from_parts [input, FLEET_COUNTER_COMPONENT_KEY, ''validation''])) (\<lambda>_.
         result_bind (kv (build_coalescing_cache_value_prefix input ''validation'')) (\<lambda>_.
         result_bind (kv (build_coalescing_cache_epoch_prefix input ''validation'')) (\<lambda>_.
         result_bind (lease (build_coalescing_cache_mutex_lease_key input ''validation'' [])) (\<lambda>_.
         result_bind (kv (build_topic_sequence_prefix input ''validation'')) (\<lambda>_.
         result_bind (kv (build_topic_events_prefix input ''validation'')) (\<lambda>_.
         result_bind (kv (build_subscription_cursor_prefix input ''validation'' ''validation'')) (\<lambda>_.
         result_bind (lease (build_cron_mutex_lease_key input ''validation'')) (\<lambda>_.
         result_bind (kv (kv_build_key_from_parts [input, FLEET_SEMAPHORE_COMPONENT_KEY, ''validation''])) (\<lambda>_.
         result_bind (kv (kv_build_key_from_parts [input, FLEET_THROTTLER_COMPONENT_KEY, ''validation''])) (\<lambda>_.
         result_bind (kv (kv_build_key_from_parts
           [input, FLEET_ONCE_COMPONENT_KEY, FLEET_ONCE_COMPLETION_COMPONENT_KEY, ''validation''])) (\<lambda>_.
         Inr input)))))))))))))"

definition mutex_key_new :: "string \<Rightarrow> 'c fleet_error + string" where
  "mutex_key_new input = map_sum id (\<lambda>_. input) (build_mutex_lease_key DEFAULT_FLEET_ROOT_KEY input)"

definition counter_key_new :: "string \<Rightarrow> 'c fleet_error + string" where
  "counter_key_new input = map_sum id (\<lambda>_. input) (build_counter_prefix DEFAULT_FLEET_ROOT_KEY input)"

definition coalescing_cache_key_new :: "string \<Rightarrow> 'c fleet_error + string" where
  "coalescing_cache_key_new input =
     result_bind (map_sum (\<lambda>e. FleetCacheError (FleetInvalidCoalescingCacheKeyForValue e)) id
       (build_coalescing_cache_value_prefix DEFAULT_FLEET_ROOT_KEY input)) (\<lambda>_.
     result_bind (map_sum (\<lambda>e. FleetCacheError (FleetInvalidCoalescingCacheKeyForEpoch e)) id
       (build_coalescing_cache_epoch_prefix DEFAULT_FLEET_ROOT_KEY input)) (\<lambda>_.
     map_sum (\<lambda>e. FleetCacheError (FleetInvalidCoalescingCacheKeyForMutex e)) (\<lambda>_. input)
       (build_coalescing_cache_mutex_lease_key DEFAULT_FLEET_ROOT_KEY input [])))"

definition topic_key_new :: "string \<Rightarrow> 'c fleet_error + string" where
  "topic_key_new input =
     result_bind (map_sum (\<lambda>e. FleetTopicError (FleetInvalidTopicKeyForSequence e)) id
       (build_topic_sequence_prefix DEFAULT_FLEET_ROOT_KEY input)) (\<lambda>_.
     map_sum (\<lambda>e. FleetTopicError (FleetInvalidTopicKeyForEvents e)) (\<lambda>_. input)
       (build_topic_events_prefix DEFAULT_FLEET_ROOT_KEY input))"

definition subscription_key_new :: "string \<Rightarrow> 'c fleet_error + string" where
  "subscription_key_new input =
     result_bind (map_sum (\<lambda>e. FleetTopicError (FleetInvalidSubscriptionKeyForCursor e)) id
       (build_subscription_cursor_prefix DEFAULT_FLEET_ROOT_KEY ''validation'' input)) (\<lambda>_.
     map_sum (\<lambda>e. FleetTopicError (FleetInvalidSubscriptionKeyForPollingMutex e)) (\<lambda>_. input)
       (build_subscription_polling_mutex_lease_key DEFAULT_FLEET_ROOT_KEY ''validation'' input))"

definition cron_key_new :: "string \<Rightarrow> 'c fleet_error + string" where
  "cron_key_new input =
     map_sum (\<lambda>e. FleetTopicError (FleetInvalidCronKey e)) (\<lambda>_. input)
       (build_cron_mutex_lease_key DEFAULT_FLEET_ROOT_KEY input)"

definition semaphore_key_new :: "string \<Rightarrow> 'c fleet_error + string" where
  "semaphore_key_new input = map_sum id (\<lambda>_. input) (build_semaphore_slots_prefix DEFAULT_FLEET_ROOT_KEY input)"

definition throttler_key_new :: "string \<Rightarrow> 'c fleet_error + string" where
  "throttler_key_new input = map_sum id (\<lambda>_. input) (build_throttler_state_prefix DEFAULT_FLEET_ROOT_KEY input)"

definition rate_limiter_key_new :: "string \<Rightarrow> 'c fleet_error + string" where
  "rate_limiter_key_new input =
     map_sum (\<lambda>e. FleetThrottleError (FleetInvalidRateLimiterKey e)) (\<lambda>_. input)
       (kv_build_key_from_parts [DEFAULT_FLEET_ROOT_KEY, FLEET_THROTTLER_COMPONENT_KEY, input])"

definition circuit_breaker_key_new :: "string \<Rightarrow> 'c fleet_error + string" where
  "circuit_breaker_key_new input =
     map_sum (\<lambda>e. FleetThrottleError (FleetInvalidCircuitBreakerKey e)) (\<lambda>_. input)
       (kv_build_key_from_parts [DEFAULT_FLEET_ROOT_KEY, FLEET_THROTTLER_COMPONENT_KEY, input])"

definition once_key_new :: "string \<Rightarrow> 'c fleet_error + string" where
  "once_key_new input =
     result_bind (build_once_completion_prefix DEFAULT_FLEET_ROOT_KEY input) (\<lambda>_.
     map_sum id (\<lambda>_. input) (build_once_mutex_lease_key DEFAULT_FLEET_ROOT_KEY input))"

section \<open>Who keeps what\<close>

text \<open>Every use of the state table and every use of the coordination table.\<close>

datatype kv_namespace =
    CounterValues string
  | CacheValues string
  | CacheEpochs string
  | TopicSequence string
  | TopicEvents string
  | SubscriptionCursor string string
  | SemaphoreSlots string
  | ThrottlerStates string
  | RateLimiterStates string
  | CircuitBreakerStates string
  | OnceCompletions string

datatype lease_use =
    MutexLease string
  | CacheMutexLease string "string list"
  | PollingMutexLease string string
  | CronMutexLease string
  | OnceMutexLease string

text \<open>A rate limiter and a circuit breaker are handles on the throttler of the same key text, and share its row.\<close>

fun backed_by :: "kv_namespace \<Rightarrow> kv_namespace" where
  "backed_by (RateLimiterStates k) = ThrottlerStates k"
| "backed_by (CircuitBreakerStates k) = ThrottlerStates k"
| "backed_by ns = ns"

text \<open>The prefix of a namespace, under whatever error its primitive reports.\<close>

definition kv_namespace_prefix :: "string \<Rightarrow> kv_namespace \<Rightarrow> 'c fleet_error + string" where
  "kv_namespace_prefix root ns =
     (case ns of
        CounterValues k \<Rightarrow> build_counter_prefix root k
      | CacheValues k \<Rightarrow> map_sum FleetKv id (build_coalescing_cache_value_prefix root k)
      | CacheEpochs k \<Rightarrow> map_sum FleetKv id (build_coalescing_cache_epoch_prefix root k)
      | TopicSequence k \<Rightarrow> map_sum FleetKv id (build_topic_sequence_prefix root k)
      | TopicEvents k \<Rightarrow> map_sum FleetKv id (build_topic_events_prefix root k)
      | SubscriptionCursor k s \<Rightarrow> map_sum FleetKv id (build_subscription_cursor_prefix root k s)
      | SemaphoreSlots k \<Rightarrow> build_semaphore_slots_prefix root k
      | ThrottlerStates k \<Rightarrow> build_throttler_state_prefix root k
      | RateLimiterStates k \<Rightarrow> build_throttler_state_prefix root k
      | CircuitBreakerStates k \<Rightarrow> build_throttler_state_prefix root k
      | OnceCompletions k \<Rightarrow> build_once_completion_prefix root k)"

definition lease_use_key :: "string \<Rightarrow> lease_use \<Rightarrow> 'c fleet_error + string" where
  "lease_use_key root u =
     (case u of
        MutexLease k \<Rightarrow> build_mutex_lease_key root k
      | CacheMutexLease k ps \<Rightarrow> map_sum FleetCoordination id (build_coalescing_cache_mutex_lease_key root k ps)
      | PollingMutexLease k s \<Rightarrow> map_sum FleetCoordination id (build_subscription_polling_mutex_lease_key root k s)
      | CronMutexLease k \<Rightarrow> map_sum FleetCoordination id (build_cron_mutex_lease_key root k)
      | OnceMutexLease k \<Rightarrow> build_once_mutex_lease_key root k)"

fun namespace_parts :: "kv_namespace \<Rightarrow> string list" where
  "namespace_parts (CounterValues k) = [FLEET_COUNTER_COMPONENT_KEY, k]"
| "namespace_parts (CacheValues k) = [FLEET_CACHE_COMPONENT_KEY, k, COALESCING_CACHE_VALUE_COMPONENT_KEY]"
| "namespace_parts (CacheEpochs k) = [FLEET_CACHE_COMPONENT_KEY, k, COALESCING_CACHE_EPOCH_COMPONENT_KEY]"
| "namespace_parts (TopicSequence k) = [FLEET_TOPIC_COMPONENT_KEY, k, TOPIC_SEQUENCE_COMPONENT_KEY]"
| "namespace_parts (TopicEvents k) = [FLEET_TOPIC_COMPONENT_KEY, k, TOPIC_EVENTS_COMPONENT_KEY]"
| "namespace_parts (SubscriptionCursor k s) =
     [FLEET_TOPIC_COMPONENT_KEY, k, TOPIC_SUBSCRIPTIONS_COMPONENT_KEY, s, TOPIC_CURSOR_COMPONENT_KEY]"
| "namespace_parts (SemaphoreSlots k) = [FLEET_SEMAPHORE_COMPONENT_KEY, FLEET_SEMAPHORE_SLOTS_COMPONENT_KEY, k]"
| "namespace_parts (ThrottlerStates k) = [FLEET_THROTTLER_COMPONENT_KEY, k]"
| "namespace_parts (RateLimiterStates k) = [FLEET_THROTTLER_COMPONENT_KEY, k]"
| "namespace_parts (CircuitBreakerStates k) = [FLEET_THROTTLER_COMPONENT_KEY, k]"
| "namespace_parts (OnceCompletions k) = [FLEET_ONCE_COMPONENT_KEY, FLEET_ONCE_COMPLETION_COMPONENT_KEY, k]"

fun lease_parts :: "lease_use \<Rightarrow> string list" where
  "lease_parts (MutexLease k) = [FLEET_MUTEX_COMPONENT_KEY, k]"
| "lease_parts (CacheMutexLease k ps) = [FLEET_CACHE_COMPONENT_KEY, k, COALESCING_CACHE_MUTEX_COMPONENT_KEY] @ ps"
| "lease_parts (PollingMutexLease k s) =
     [FLEET_TOPIC_COMPONENT_KEY, k, TOPIC_SUBSCRIPTIONS_COMPONENT_KEY, s, TOPIC_POLLING_MUTEX_COMPONENT_KEY]"
| "lease_parts (CronMutexLease k) = [FLEET_CRON_COMPONENT_KEY, k]"
| "lease_parts (OnceMutexLease k) = [FLEET_ONCE_COMPONENT_KEY, FLEET_ONCE_MUTEX_COMPONENT_KEY, k]"

lemma namespace_prefix_parts:
  "kv_namespace_prefix root ns = (Inr p :: 'c fleet_error + string) \<Longrightarrow>
     kv_build_key_from_parts (root # namespace_parts ns) = (Inr p :: 'c kv_error + string)"
  by (cases ns) (auto simp: kv_namespace_prefix_def build_counter_prefix_def build_coalescing_cache_value_prefix_def
      build_coalescing_cache_epoch_prefix_def build_topic_sequence_prefix_def build_topic_events_prefix_def
      build_subscription_cursor_prefix_def build_semaphore_slots_prefix_def build_throttler_state_prefix_def
      build_once_completion_prefix_def map_sum_eq_Inr_iff)

lemma lease_use_parts:
  "lease_use_key root u = (Inr k :: 'c fleet_error + string) \<Longrightarrow>
     lease_build_key_from_parts (root # lease_parts u) = (Inr k :: 'c lease_error + string)"
  by (cases u) (auto simp: lease_use_key_def build_mutex_lease_key_def build_coalescing_cache_mutex_lease_key_def
      build_subscription_polling_mutex_lease_key_def build_cron_mutex_lease_key_def build_once_mutex_lease_key_def
      map_sum_eq_Inr_iff)

lemma namespace_parts_prefix: "prefix (namespace_parts ns) (namespace_parts ns') \<longleftrightarrow> backed_by ns = backed_by ns'"
  by (cases ns; cases ns') (simp_all add: component_key_defs)

lemma lease_parts_inject: "lease_parts u = lease_parts u' \<Longrightarrow> u = u'"
  by (cases u; cases u') (simp_all add: component_key_defs)

text \<open>C26: Which uses of the fleet tables meet. The prefixes of two namespaces have a key in common if and only if
  they are the same namespace, or both belong to a throttler, a rate limiter or a circuit breaker, with the same root key
  and the same key text: those three are one primitive on one row. For any two other namespaces, which differ in the
  primitive, its key or the root key, no read, scan, count or deletion under one of them sees or touches the other.
  Two uses of the coordination table have the same lease if and only if they are the same use.\<close>

theorem fleet_namespaces_disjoint:
  assumes "kv_namespace_prefix root ns = (Inr p :: 'c fleet_error + string)"
    and "kv_namespace_prefix root' ns' = (Inr p' :: 'c fleet_error + string)"
    and "lease_use_key root u = (Inr k :: 'c fleet_error + string)"
    and "lease_use_key root' u' = (Inr k' :: 'c fleet_error + string)"
  shows "((\<exists>key. prefix_contains_key p key \<and> prefix_contains_key p' key) \<longleftrightarrow> (root, backed_by ns) = (root', backed_by ns'))
    \<and> (k = k' \<longleftrightarrow> (root, u) = (root', u'))"
proof
  note parts = kv_key_of_parts [OF namespace_prefix_parts [OF assms(1)]]
    kv_key_of_parts [OF namespace_prefix_parts [OF assms(2)]]
  have sub: "prefix p p' \<longleftrightarrow> prefix (root # namespace_parts ns) (root' # namespace_parts ns')"
    "prefix p' p \<longleftrightarrow> prefix (root' # namespace_parts ns') (root # namespace_parts ns)"
    using parts by (simp_all add: KV_KEY_SEPARATOR_def terminated_join_prefix_iff del: terminated_join_simps)
  then have sub': "prefix p p' \<longleftrightarrow> (root, backed_by ns) = (root', backed_by ns')"
    "prefix p' p \<longleftrightarrow> (root, backed_by ns) = (root', backed_by ns')"
    by (auto simp: namespace_parts_prefix)
  show "(\<exists>key. prefix_contains_key p key \<and> prefix_contains_key p' key) \<longleftrightarrow> (root, backed_by ns) = (root', backed_by ns')"
  proof
    assume "\<exists>key. prefix_contains_key p key \<and> prefix_contains_key p' key"
    then show "(root, backed_by ns) = (root', backed_by ns')"
      using sub' prefix_same_cases unfolding prefix_contains_key_def by metis
  next
    assume "(root, backed_by ns) = (root', backed_by ns')"
    then have "p = p'" using sub' prefix_order.antisym by blast
    then show "\<exists>key. prefix_contains_key p key \<and> prefix_contains_key p' key"
      unfolding prefix_contains_key_def by blast
  qed
  have "k = k' \<longleftrightarrow> root # lease_parts u = root' # lease_parts u'"
    using lease_build_key_value [OF lease_use_parts [OF assms(3)]] lease_build_key_value [OF lease_use_parts [OF assms(4)]]
    by (simp add: terminated_join_inject del: terminated_join_simps list.pred_inject)
  then show "k = k' \<longleftrightarrow> (root, u) = (root', u')" using lease_parts_inject by auto
qed

lemmas namespace_eval_defs = kv_namespace_prefix_def build_counter_prefix_def build_throttler_state_prefix_def lease_use_key_def
  build_mutex_lease_key_def build_cron_mutex_lease_key_def component_key_defs kv_build_key_from_parts_def
  kv_validate_key_part_def kv_validate_key_length_def KV_KEY_SEPARATOR_def MAX_KV_KEY_BYTES_def result_bind_def
  lease_build_key_from_parts_def lease_validate_key_part_def lease_validate_key_length_def LEASE_KEY_SEPARATOR_def
  MAX_LEASE_KEY_BYTES_def

text \<open>A counter and a throttler of one key do not meet; a rate limiter and a circuit breaker of one key do.\<close>

theorem fleet_namespaces_disjoint_witness:
  "\<not> (\<exists>key. prefix_contains_key ''r::counter::a::'' key \<and> prefix_contains_key ''r::throttler::a::'' key)
   \<and> ''r::mutex::a::'' \<noteq> ''r::cron::a::''
   \<and> (\<exists>key. prefix_contains_key ''r::throttler::a::'' key \<and> prefix_contains_key ''r::throttler::a::'' key)"
proof -
  note apart = fleet_namespaces_disjoint [of "''r''" "CounterValues ''a''" "''r::counter::a::''" "''r''" "ThrottlerStates ''a''"
        "''r::throttler::a::''" "MutexLease ''a''" "''r::mutex::a::''" "CronMutexLease ''a''" "''r::cron::a::''", where 'c = unit]
  note shared = fleet_namespaces_disjoint [of "''r''" "RateLimiterStates ''a''" "''r::throttler::a::''" "''r''"
        "CircuitBreakerStates ''a''" "''r::throttler::a::''" "MutexLease ''a''" "''r::mutex::a::''" "CronMutexLease ''a''"
        "''r::cron::a::''", where 'c = unit]
  have keys: "kv_namespace_prefix ''r'' (CounterValues ''a'') = (Inr ''r::counter::a::'' :: unit fleet_error + string)"
    "kv_namespace_prefix ''r'' (ThrottlerStates ''a'') = (Inr ''r::throttler::a::'' :: unit fleet_error + string)"
    "kv_namespace_prefix ''r'' (RateLimiterStates ''a'') = (Inr ''r::throttler::a::'' :: unit fleet_error + string)"
    "kv_namespace_prefix ''r'' (CircuitBreakerStates ''a'') = (Inr ''r::throttler::a::'' :: unit fleet_error + string)"
    "lease_use_key ''r'' (MutexLease ''a'') = (Inr ''r::mutex::a::'' :: unit fleet_error + string)"
    "lease_use_key ''r'' (CronMutexLease ''a'') = (Inr ''r::cron::a::'' :: unit fleet_error + string)"
    by (simp_all add: namespace_eval_defs)
  show ?thesis using apart [OF keys(1,2,5,6)] shared [OF keys(3,4,5,6)] by auto
qed

section \<open>Transactions of the fleet\<close>

definition fleet_pool_write ::
    "string \<Rightarrow> pool_env \<Rightarrow> ('d tx \<Rightarrow> ('c fleet_error + 'a) \<times> 'd tx) \<Rightarrow> 'd \<Rightarrow> ('c fleet_error + 'a) \<times> 'd" where
  "fleet_pool_write operation env body d =
     pool_write operation FleetDatabase FleetDatabaseOperationRollbackFailed env body d"

text \<open>What a call on a pool leaves behind: nothing, or what its transaction wrote in a successful body.\<close>

lemma fleet_pool_write_cases:
  "snd (fleet_pool_write operation env body d) = d
   \<or> (\<exists>v tx'. body (begin_transaction d) = (Inr v, tx') \<and> snd (fleet_pool_write operation env body d) = tables tx')"
  unfolding fleet_pool_write_def pool_write_def
  by (cases "body (begin_transaction d)")
    (auto simp: finish_write_transaction_def split: option.splits sum.splits commit_outcome.splits rollback_outcome.splits)

lemma fleet_pool_write_ok:
  assumes "fleet_pool_write operation env body d = (Inr v, d')"
  shows "\<exists>tx'. body (begin_transaction d) = (Inr v, tx') \<and> d' = tables tx'"
proof -
  have "fst (pool_write operation FleetDatabase FleetDatabaseOperationRollbackFailed env body d) = Inr v"
    using assms by (simp add: fleet_pool_write_def)
  then show ?thesis
    using assms pool_write_ok_state [of operation FleetDatabase FleetDatabaseOperationRollbackFailed env body d v]
    by (auto simp: pool_write_ok_iff fleet_pool_write_def) (metis prod.collapse snd_conv)
qed

end
