(* ===== verification/Mutex.thy ===== *)
theory Mutex
  imports FleetError
begin

text \<open>
  \<open>src/src/db/fleet/mutex.rs\<close>, \<open>mutex_guard.rs\<close> and \<open>mutex_model.rs\<close>: mutual exclusion over
  leases. A mutex names one lease key; a claim is renewed by hand, or by the heartbeat task of a
  guard, which marks the guard lost when the claim is gone.

  One call on a pool meets a \<open>lease_call\<close>: the server's answers, the random bytes for the lease
  token, and the row its snapshot sees. The task of the heartbeat and the owner of the guard
  share the record \<open>mutex_guard\<close>; the claim is behind a lock that each holds for its whole
  renewal or release, so these are single steps.
\<close>

section \<open>Claims\<close>

record mutex =
  mutex_protocol :: string
  mutex_key :: string
  mutex_lease_key :: string
  mutex_claim_duration :: claim_duration

record mutex_claim =
  claim_mutex_key :: string
  claim_lease :: claim

record mutex_holder_snapshot =
  holder_mutex_key :: string
  holder_lease_snapshot :: holder_snapshot

record mutex_guard_snapshot =
  guard_mutex_key :: string
  guard_holder_id :: string
  guard_fencing_token :: int
  guard_expires_at :: micros

record 'c lease_call =
  call_env :: pool_env
  call_random :: "'c + bytes"
  call_seen :: "lease_row option"

definition claim_from_lease_claim :: "mutex \<Rightarrow> claim \<Rightarrow> mutex_claim" where
  "claim_from_lease_claim m c = \<lparr>claim_mutex_key = mutex_key m, claim_lease = c\<rparr>"

definition holder_snapshot_from_lease_snapshot :: "mutex \<Rightarrow> holder_snapshot \<Rightarrow> mutex_holder_snapshot" where
  "holder_snapshot_from_lease_snapshot m s =
     \<lparr>holder_mutex_key = mutex_key m, holder_lease_snapshot = s\<rparr>"

definition guard_snapshot :: "mutex_claim \<Rightarrow> mutex_guard_snapshot" where
  "guard_snapshot c =
     \<lparr>guard_mutex_key = claim_mutex_key c, guard_holder_id = claim_holder_id (claim_lease c),
      guard_fencing_token = claim_fencing_token (claim_lease c),
      guard_expires_at = claim_expires_at (claim_lease c)\<rparr>"

definition require_claim_matches_mutex :: "mutex \<Rightarrow> mutex_claim \<Rightarrow> 'c fleet_error + unit" where
  "require_claim_matches_mutex m c =
     (if claim_mutex_key c \<noteq> mutex_key m \<or> claim_key (claim_lease c) \<noteq> mutex_lease_key m
      then Inl (FleetMutexError FleetMutexManualRenewalClaimBelongsToDifferentMutex) else Inr ())"

text \<open>The \<open>?\<close> on a lease operation, and the wrapping of its claim.\<close>

definition wrap_claim ::
    "mutex \<Rightarrow> ('c lease_error + claim option) \<times> 's \<Rightarrow> ('c fleet_error + mutex_claim option) \<times> 's" where
  "wrap_claim m r =
     (case r of
        (Inl e, s) \<Rightarrow> (Inl (FleetCoordination e), s)
      | (Inr c, s) \<Rightarrow> (Inr (map_option (claim_from_lease_claim m) c), s))"

definition try_claim_manual_renewal_for_holder ::
    "mutex \<Rightarrow> 'c lease_call \<Rightarrow> string \<Rightarrow> lease_tables \<Rightarrow> ('c fleet_error + mutex_claim option) \<times> lease_tables" where
  "try_claim_manual_renewal_for_holder m call holder_id t =
     wrap_claim m (try_claim_lease (mutex_protocol m) (call_env call) (call_random call) (call_seen call)
       (mutex_lease_key m) holder_id (mutex_claim_duration m) t)"

definition try_claim_manual_renewal_for_holder_in_current_transaction ::
    "mutex \<Rightarrow> 'c lease_call \<Rightarrow> string \<Rightarrow> lease_tables tx
     \<Rightarrow> ('c fleet_error + mutex_claim option) \<times> lease_tables tx" where
  "try_claim_manual_renewal_for_holder_in_current_transaction m call holder_id tx =
     wrap_claim m (try_claim_lease_in_current_transaction (mutex_protocol m) (call_random call)
       (env_reply (call_env call)) (call_seen call) (env_now (call_env call)) (mutex_lease_key m)
       holder_id (mutex_claim_duration m) tx)"

text \<open>A generated holder identifier: the text of a fresh sortable identifier.\<close>

definition generate_holder_id :: "'c id_error + string \<Rightarrow> 'c fleet_error + string" where
  "generate_holder_id new_id_text =
     (case new_id_text of
        Inl e \<Rightarrow> Inl (FleetMutexError (FleetHolderIdGeneration e))
      | Inr text \<Rightarrow>
          (case holder_id_new text of
             Inl e \<Rightarrow> Inl (FleetMutexError (FleetGeneratedHolderIdRejected e))
           | Inr h \<Rightarrow> Inr h))"

definition try_claim_manual_renewal ::
    "mutex \<Rightarrow> 'c id_error + string \<Rightarrow> 'c lease_call \<Rightarrow> lease_tables
     \<Rightarrow> ('c fleet_error + mutex_claim option) \<times> lease_tables" where
  "try_claim_manual_renewal m new_id_text call t =
     (case generate_holder_id new_id_text of
        Inl e \<Rightarrow> (Inl e, t)
      | Inr holder_id \<Rightarrow> try_claim_manual_renewal_for_holder m call holder_id t)"

definition try_claim_manual_renewal_in_current_transaction ::
    "mutex \<Rightarrow> 'c id_error + string \<Rightarrow> 'c lease_call \<Rightarrow> lease_tables tx
     \<Rightarrow> ('c fleet_error + mutex_claim option) \<times> lease_tables tx" where
  "try_claim_manual_renewal_in_current_transaction m new_id_text call tx =
     (case generate_holder_id new_id_text of
        Inl e \<Rightarrow> (Inl e, tx)
      | Inr holder_id \<Rightarrow> try_claim_manual_renewal_for_holder_in_current_transaction m call holder_id tx)"

definition try_renew_manual_renewal_claim ::
    "mutex \<Rightarrow> 'c lease_call \<Rightarrow> mutex_claim \<Rightarrow> lease_tables
     \<Rightarrow> ('c fleet_error + mutex_claim option) \<times> lease_tables" where
  "try_renew_manual_renewal_claim m call c t =
     (case require_claim_matches_mutex m c of
        Inl e \<Rightarrow> (Inl e, t)
      | Inr _ \<Rightarrow> wrap_claim m (try_renew_lease (mutex_protocol m) (call_env call) (call_random call)
          (claim_lease c) (mutex_claim_duration m) t))"

definition try_renew_manual_renewal_claim_in_current_transaction ::
    "mutex \<Rightarrow> 'c lease_call \<Rightarrow> mutex_claim \<Rightarrow> lease_tables tx
     \<Rightarrow> ('c fleet_error + mutex_claim option) \<times> lease_tables tx" where
  "try_renew_manual_renewal_claim_in_current_transaction m call c tx =
     (case require_claim_matches_mutex m c of
        Inl e \<Rightarrow> (Inl e, tx)
      | Inr _ \<Rightarrow> wrap_claim m (try_renew_lease_in_current_transaction (mutex_protocol m) (call_random call)
          (env_reply (call_env call)) (env_now (call_env call)) (claim_lease c) (mutex_claim_duration m) tx))"

definition wrap_coordination :: "('c lease_error + 'a) \<times> 's \<Rightarrow> ('c fleet_error + 'a) \<times> 's" where
  "wrap_coordination r = (case r of (Inl e, s) \<Rightarrow> (Inl (FleetCoordination e), s) | (Inr x, s) \<Rightarrow> (Inr x, s))"

definition release_manual_renewal_claim ::
    "mutex \<Rightarrow> pool_env \<Rightarrow> mutex_claim \<Rightarrow> lease_tables \<Rightarrow> ('c fleet_error + bool) \<times> lease_tables" where
  "release_manual_renewal_claim m env c t =
     (case require_claim_matches_mutex m c of
        Inl e \<Rightarrow> (Inl e, t)
      | Inr _ \<Rightarrow> wrap_coordination (release_lease (mutex_protocol m) env (claim_lease c) t))"

definition release_manual_renewal_claim_in_current_transaction ::
    "mutex \<Rightarrow> admission_reply \<Rightarrow> micros \<Rightarrow> mutex_claim \<Rightarrow> lease_tables tx
     \<Rightarrow> ('c fleet_error + bool) \<times> lease_tables tx" where
  "release_manual_renewal_claim_in_current_transaction m reply now c tx =
     (case require_claim_matches_mutex m c of
        Inl e \<Rightarrow> (Inl e, tx)
      | Inr _ \<Rightarrow> wrap_coordination
          (release_lease_in_current_transaction (mutex_protocol m) reply now (claim_lease c) tx))"

definition fetch_live_holder ::
    "mutex \<Rightarrow> pool_env \<Rightarrow> lease_tables \<Rightarrow> 'c fleet_error + mutex_holder_snapshot option" where
  "fetch_live_holder m env t =
     (case fetch_live_lease_holder (mutex_protocol m) env (mutex_lease_key m) t of
        Inl e \<Rightarrow> Inl (FleetCoordination e)
      | Inr h \<Rightarrow> Inr (map_option (holder_snapshot_from_lease_snapshot m) h))"

definition fetch_live_holder_in_current_transaction ::
    "mutex \<Rightarrow> admission_reply \<Rightarrow> micros \<Rightarrow> lease_tables tx
     \<Rightarrow> ('c fleet_error + mutex_holder_snapshot option) \<times> lease_tables tx" where
  "fetch_live_holder_in_current_transaction m reply now tx =
     (case fetch_live_lease_holder_in_current_transaction (mutex_protocol m) reply now
             (mutex_lease_key m) tx of
        (Inl e, tx') \<Rightarrow> (Inl (FleetCoordination e), tx')
      | (Inr h, tx') \<Rightarrow> (Inr (map_option (holder_snapshot_from_lease_snapshot m) h), tx'))"

section \<open>Configuration of a guard\<close>

definition DEFAULT_FLEET_MUTEX_ACQUIRE_RETRY_INTERVAL :: nanos where
  "DEFAULT_FLEET_MUTEX_ACQUIRE_RETRY_INTERVAL = 100 * nanos_per_milli"

definition DEFAULT_FLEET_MUTEX_MAX_ACQUIRE_RETRY_INTERVAL :: nanos where
  "DEFAULT_FLEET_MUTEX_MAX_ACQUIRE_RETRY_INTERVAL = 2 * nanos_per_second"

definition MIN_FLEET_MUTEX_HEARTBEAT_INTERVAL :: nanos where
  "MIN_FLEET_MUTEX_HEARTBEAT_INTERVAL = 100 * nanos_per_milli"

definition DEFAULT_FLEET_MUTEX_MAX_CONSECUTIVE_RENEWAL_FAILURES :: nat where
  "DEFAULT_FLEET_MUTEX_MAX_CONSECUTIVE_RENEWAL_FAILURES = 3"

text \<open>\<open>Duration::MAX\<close>: \<open>u64::MAX\<close> seconds and 999999999 nanoseconds.\<close>

definition duration_max :: nanos where
  "duration_max = (2 ^ 64 - 1) * nanos_per_second + 999999999"

definition duration_checked_mul :: "nanos \<Rightarrow> nat \<Rightarrow> nanos option" where
  "duration_checked_mul d n = (if d * n > duration_max then None else Some (d * n))"

definition duration_saturating_mul :: "nanos \<Rightarrow> nat \<Rightarrow> nanos" where
  "duration_saturating_mul d n = min (d * n) duration_max"

record mutex_guard_config =
  config_heartbeat_interval :: "nanos option"
  config_acquire_retry_interval :: "nanos option"
  config_max_acquire_retry_interval :: "nanos option"
  config_max_consecutive_renewal_failures :: "nat option"

record resolved_mutex_guard_config =
  heartbeat_interval :: nanos
  acquire_retry_interval :: nanos
  max_acquire_retry_interval :: nanos
  max_consecutive_renewal_failures :: nat

definition option_unwrap_or :: "'a option \<Rightarrow> 'a \<Rightarrow> 'a" where
  "option_unwrap_or opt d = (case opt of None \<Rightarrow> d | Some x \<Rightarrow> x)"

definition resolve_for_claim_duration ::
    "mutex_guard_config \<Rightarrow> claim_duration \<Rightarrow> 'c fleet_error + resolved_mutex_guard_config" where
  "resolve_for_claim_duration config duration =
     (let claim_ns = positive_duration duration;
          hb = option_unwrap_or (config_heartbeat_interval config)
                 (max (claim_ns div 3) MIN_FLEET_MUTEX_HEARTBEAT_INTERVAL);
          too_short = Inl (FleetMutexError (FleetMutexClaimDurationTooShortForHeartbeat claim_ns hb))
      in if hb < MIN_FLEET_MUTEX_HEARTBEAT_INTERVAL then
           Inl (FleetMutexError (FleetInvalidMutexHeartbeatInterval MIN_FLEET_MUTEX_HEARTBEAT_INTERVAL))
         else case duration_checked_mul hb 2 of
           None \<Rightarrow> too_short
         | Some minimum \<Rightarrow>
             if claim_ns < minimum then too_short
             else
               let retry = option_unwrap_or (config_acquire_retry_interval config)
                     DEFAULT_FLEET_MUTEX_ACQUIRE_RETRY_INTERVAL;
                   max_retry = option_unwrap_or (config_max_acquire_retry_interval config)
                     (max DEFAULT_FLEET_MUTEX_MAX_ACQUIRE_RETRY_INTERVAL retry);
                   failures = option_unwrap_or (config_max_consecutive_renewal_failures config)
                     DEFAULT_FLEET_MUTEX_MAX_CONSECUTIVE_RENEWAL_FAILURES
               in if retry = 0 then Inl (FleetMutexError FleetInvalidMutexAcquireRetryInterval)
                  else if max_retry = 0 \<or> max_retry < retry then
                    Inl (FleetMutexError FleetInvalidMutexMaxAcquireRetryInterval)
                  else if failures = 0 then
                    Inl (FleetMutexError FleetInvalidMutexMaxConsecutiveRenewalFailures)
                  else Inr \<lparr>heartbeat_interval = hb, acquire_retry_interval = retry,
                    max_acquire_retry_interval = max_retry,
                    max_consecutive_renewal_failures = failures\<rparr>)"

section \<open>Guards\<close>

record mutex_guard =
  guard_mutex :: mutex
  current_claim :: "mutex_claim option"
  stop_heartbeat :: bool
  leadership_lost :: bool
  heartbeat_task :: bool
  heartbeat_running :: bool
  consecutive_failures :: nat

definition guard_from_claim :: "mutex \<Rightarrow> mutex_claim \<Rightarrow> mutex_guard" where
  "guard_from_claim m c =
     \<lparr>guard_mutex = m, current_claim = Some c, stop_heartbeat = False, leadership_lost = False,
      heartbeat_task = True, heartbeat_running = True, consecutive_failures = 0\<rparr>"

definition try_claim_guard_for_holder ::
    "mutex \<Rightarrow> 'c lease_call \<Rightarrow> string \<Rightarrow> mutex_guard_config \<Rightarrow> lease_tables
     \<Rightarrow> ('c fleet_error + (mutex_guard \<times> resolved_mutex_guard_config) option) \<times> lease_tables" where
  "try_claim_guard_for_holder m call holder_id config t =
     (case resolve_for_claim_duration config (mutex_claim_duration m) of
        Inl e \<Rightarrow> (Inl e, t)
      | Inr resolved \<Rightarrow>
          (case try_claim_manual_renewal_for_holder m call holder_id t of
             (Inl e, t') \<Rightarrow> (Inl e, t')
           | (Inr None, t') \<Rightarrow> (Inr None, t')
           | (Inr (Some c), t') \<Rightarrow> (Inr (Some (guard_from_claim m c, resolved)), t')))"

definition try_claim_guard ::
    "mutex \<Rightarrow> 'c id_error + string \<Rightarrow> 'c lease_call \<Rightarrow> mutex_guard_config \<Rightarrow> lease_tables
     \<Rightarrow> ('c fleet_error + (mutex_guard \<times> resolved_mutex_guard_config) option) \<times> lease_tables" where
  "try_claim_guard m new_id_text call config t =
     (case generate_holder_id new_id_text of
        Inl e \<Rightarrow> (Inl e, t)
      | Inr holder_id \<Rightarrow> try_claim_guard_for_holder m call holder_id config t)"

text \<open>
  The waiting loop. One element of the list is one attempt: the call, and the jittered delay as
  a function of the base interval, or the failure of the random source. The result carries the
  base intervals of the delays; \<open>None\<close> is a loop still waiting when the list ends.
\<close>

fun claim_guard_loop ::
    "mutex \<Rightarrow> string \<Rightarrow> resolved_mutex_guard_config \<Rightarrow> nanos
     \<Rightarrow> ('c lease_call \<times> (nanos \<Rightarrow> string + nanos)) list \<Rightarrow> lease_tables
     \<Rightarrow> ((('c fleet_error + mutex_guard) \<times> lease_tables) option) \<times> nanos list" where
  "claim_guard_loop m holder_id config interval [] t = (None, [])"
| "claim_guard_loop m holder_id config interval ((call, jitter) # rest) t =
     (case try_claim_manual_renewal_for_holder m call holder_id t of
        (Inl e, t') \<Rightarrow> (Some (Inl e, t'), [])
      | (Inr (Some c), t') \<Rightarrow> (Some (Inr (guard_from_claim m c), t'), [])
      | (Inr None, t') \<Rightarrow>
          (case jitter interval of
             Inl reason \<Rightarrow> (Some (Inl (FleetMutexError (FleetMutexAcquireRetryJitterRandom reason)), t'), [])
           | Inr _ \<Rightarrow>
               let (r, waits) = claim_guard_loop m holder_id config
                     (min (duration_saturating_mul interval 2) (max_acquire_retry_interval config)) rest t'
               in (r, interval # waits)))"

definition claim_guard_for_holder_when_available ::
    "mutex \<Rightarrow> string \<Rightarrow> mutex_guard_config \<Rightarrow> ('c lease_call \<times> (nanos \<Rightarrow> string + nanos)) list
     \<Rightarrow> lease_tables \<Rightarrow> ((('c fleet_error + mutex_guard) \<times> lease_tables) option) \<times> nanos list" where
  "claim_guard_for_holder_when_available m holder_id config attempts t =
     (case resolve_for_claim_duration config (mutex_claim_duration m) of
        Inl e \<Rightarrow> (Some (Inl e, t), [])
      | Inr resolved \<Rightarrow>
          claim_guard_loop m holder_id resolved (acquire_retry_interval resolved) attempts t)"

definition claim_guard_when_available ::
    "mutex \<Rightarrow> 'c id_error + string \<Rightarrow> mutex_guard_config
     \<Rightarrow> ('c lease_call \<times> (nanos \<Rightarrow> string + nanos)) list
     \<Rightarrow> lease_tables \<Rightarrow> ((('c fleet_error + mutex_guard) \<times> lease_tables) option) \<times> nanos list" where
  "claim_guard_when_available m new_id_text config attempts t =
     (case generate_holder_id new_id_text of
        Inl e \<Rightarrow> (Some (Inl e, t), [])
      | Inr holder_id \<Rightarrow> claim_guard_for_holder_when_available m holder_id config attempts t)"

definition mark_mutex_guard_lost :: "mutex_guard \<Rightarrow> mutex_guard" where
  "mark_mutex_guard_lost g = g\<lparr>leadership_lost := True\<rparr>"

text \<open>One turn of the heartbeat loop after its sleep or a notification.\<close>

definition heartbeat_turn ::
    "resolved_mutex_guard_config \<Rightarrow> 'c lease_call \<Rightarrow> mutex_guard \<Rightarrow> lease_tables
     \<Rightarrow> mutex_guard \<times> lease_tables" where
  "heartbeat_turn config call g t =
     (if stop_heartbeat g then (g\<lparr>heartbeat_running := False\<rparr>, t)
      else case current_claim g of
        None \<Rightarrow> (g\<lparr>heartbeat_running := False\<rparr>, t)
      | Some c \<Rightarrow>
          (case try_renew_manual_renewal_claim (guard_mutex g) call c t of
             (Inr (Some renewed), t') \<Rightarrow>
               (g\<lparr>current_claim := Some renewed, consecutive_failures := 0\<rparr>, t')
           | (Inr None, t') \<Rightarrow>
               ((mark_mutex_guard_lost (g\<lparr>current_claim := None\<rparr>))\<lparr>heartbeat_running := False\<rparr>, t')
           | (Inl e, t') \<Rightarrow>
               if fleet_contains_protocol_failure e then
                 ((mark_mutex_guard_lost g)\<lparr>heartbeat_running := False\<rparr>, t')
               else
                 let failures = min (consecutive_failures g + 1) u32_max;
                     g = g\<lparr>consecutive_failures := failures\<rparr>
                 in if failures \<ge> max_consecutive_renewal_failures config
                    then ((mark_mutex_guard_lost g)\<lparr>heartbeat_running := False\<rparr>, t')
                    else (g, t')))"

definition live_claim_snapshot :: "mutex_guard \<Rightarrow> mutex_guard_snapshot option" where
  "live_claim_snapshot g =
     (if leadership_lost g then None else map_option guard_snapshot (current_claim g))"

definition release_current_claim ::
    "pool_env \<Rightarrow> mutex_guard \<Rightarrow> lease_tables \<Rightarrow> ('c fleet_error + bool) \<times> mutex_guard \<times> lease_tables" where
  "release_current_claim env g t =
     (case current_claim g of
        None \<Rightarrow> (Inr False, g, t)
      | Some c \<Rightarrow>
          (case release_manual_renewal_claim (guard_mutex g) env c t of
             (Inl e, t') \<Rightarrow> (Inl e, g, t')
           | (Inr released, t') \<Rightarrow> (Inr released, g\<lparr>current_claim := None\<rparr>, t')))"

text \<open>\<open>join\<close> is the failure of the joined task, if any.\<close>

definition stop_heartbeat_loop :: "string option \<Rightarrow> mutex_guard \<Rightarrow> ('c fleet_error + unit) \<times> mutex_guard" where
  "stop_heartbeat_loop join g =
     (let g = g\<lparr>stop_heartbeat := True\<rparr>
      in if \<not> heartbeat_task g then (Inr (), g)
         else ((case join of None \<Rightarrow> Inr () | Some e \<Rightarrow> Inl (FleetMutexError (FleetMutexHeartbeatTaskFailed e))),
               g\<lparr>heartbeat_task := False, heartbeat_running := False\<rparr>))"

definition try_release ::
    "pool_env \<Rightarrow> string option \<Rightarrow> mutex_guard \<Rightarrow> lease_tables
     \<Rightarrow> ('c fleet_error + bool) \<times> mutex_guard \<times> lease_tables" where
  "try_release env join g t =
     (case release_current_claim env g t of
        (Inl e, g', t') \<Rightarrow> (Inl e, g', t')
      | (Inr released, g', t') \<Rightarrow>
          (let (stopped, g'') = stop_heartbeat_loop join g'
           in (combine_mutex_guard_stop_and_release_results stopped (Inr released), g'', t')))"

text \<open>The guard is dropped at the end of \<open>release\<close>.\<close>

definition drop_guard :: "pool_env \<Rightarrow> mutex_guard \<Rightarrow> lease_tables \<Rightarrow> lease_tables" where
  "drop_guard env g t =
     (if \<not> heartbeat_task g then t
      else case current_claim g of
        None \<Rightarrow> t
      | Some c \<Rightarrow> snd (release_manual_renewal_claim (guard_mutex g) env c t
                  :: (unit fleet_error + bool) \<times> lease_tables))"

definition release ::
    "pool_env \<Rightarrow> string option \<Rightarrow> pool_env \<Rightarrow> mutex_guard \<Rightarrow> lease_tables
     \<Rightarrow> ('c fleet_error + bool) \<times> lease_tables" where
  "release env join drop_env g t =
     (case try_release env join g t of
        (result, g', t') \<Rightarrow>
          (if (case result of Inl e \<Rightarrow> fleet_contains_protocol_failure e | Inr _ \<Rightarrow> False) then
             let (stopped, g'') = stop_heartbeat_loop join g'
             in (combine_mutex_guard_stop_and_release_results stopped result,
                 drop_guard drop_env (g''\<lparr>current_claim := None\<rparr>) t')
           else (result, drop_guard drop_env g' t')))"

section \<open>Guarded tasks\<close>

text \<open>
  A task runs between two states of its guard: \<open>before\<close> when it is started and \<open>after\<close> when it
  has returned. It is a function of the snapshot it is given.
\<close>

definition execute_task_while_mutex_guarded ::
    "mutex_guard \<Rightarrow> (mutex_guard_snapshot \<Rightarrow> 'e + 'v) \<Rightarrow> mutex_guard \<Rightarrow> ('c, 'e) mutex_run_error + 'v" where
  "execute_task_while_mutex_guarded before task after =
     (case live_claim_snapshot before of
        None \<Rightarrow> Inl RunLeadershipLost
      | Some snapshot \<Rightarrow>
          (case task snapshot of
             Inl e \<Rightarrow> Inl (RunTask e)
           | Inr v \<Rightarrow> if leadership_lost after then Inl RunLeadershipLost else Inr v))"

definition run_task_once_under_mutex_guard ::
    "mutex_guard \<Rightarrow> (mutex_guard_snapshot \<Rightarrow> 'e + 'v) \<Rightarrow> mutex_guard \<Rightarrow> pool_env \<Rightarrow> string option \<Rightarrow> pool_env
     \<Rightarrow> lease_tables \<Rightarrow> (('c, 'e) mutex_run_error + 'v) \<times> lease_tables" where
  "run_task_once_under_mutex_guard before task after env join drop_env t =
     (let task_result = execute_task_while_mutex_guarded before task after;
          (release_result, t') = release env join drop_env after t
      in (combine_mutex_task_and_release_results task_result release_result, t'))"

datatype 'v mutex_try_run_task_result = Ran 'v | MutexHeld


text \<open>
  The four entry points that acquire, run and release. \<open>meanwhile\<close> is what happens to the
  guard and the tables while the task runs.
\<close>

definition run_claimed_task ::
    "mutex_guard \<Rightarrow> resolved_mutex_guard_config
     \<Rightarrow> (resolved_mutex_guard_config \<Rightarrow> mutex_guard \<Rightarrow> lease_tables \<Rightarrow> mutex_guard \<times> lease_tables)
     \<Rightarrow> (mutex_guard_snapshot \<Rightarrow> 'e + 'v) \<Rightarrow> pool_env \<Rightarrow> string option \<Rightarrow> pool_env
     \<Rightarrow> lease_tables \<Rightarrow> (('c, 'e) mutex_run_error + 'v) \<times> lease_tables" where
  "run_claimed_task g resolved meanwhile task env join drop_env t =
     (let (after, t') = meanwhile resolved g t
      in run_task_once_under_mutex_guard g task after env join drop_env t')"

definition try_run_task_for_holder ::
    "mutex \<Rightarrow> 'c lease_call \<Rightarrow> string \<Rightarrow> mutex_guard_config
     \<Rightarrow> (resolved_mutex_guard_config \<Rightarrow> mutex_guard \<Rightarrow> lease_tables \<Rightarrow> mutex_guard \<times> lease_tables)
     \<Rightarrow> (mutex_guard_snapshot \<Rightarrow> 'e + 'v) \<Rightarrow> pool_env \<Rightarrow> string option \<Rightarrow> pool_env
     \<Rightarrow> lease_tables \<Rightarrow> (('c, 'e) mutex_run_error + 'v mutex_try_run_task_result) \<times> lease_tables" where
  "try_run_task_for_holder m call holder_id config meanwhile task env join drop_env t =
     (case try_claim_guard_for_holder m call holder_id config t of
        (Inl e, t') \<Rightarrow> (Inl (RunFleet e), t')
      | (Inr None, t') \<Rightarrow> (Inr MutexHeld, t')
      | (Inr (Some (g, resolved)), t') \<Rightarrow>
          map_prod (map_sum id Ran) id (run_claimed_task g resolved meanwhile task env join drop_env t'))"

definition try_run_task ::
    "mutex \<Rightarrow> 'c id_error + string \<Rightarrow> 'c lease_call \<Rightarrow> mutex_guard_config
     \<Rightarrow> (resolved_mutex_guard_config \<Rightarrow> mutex_guard \<Rightarrow> lease_tables \<Rightarrow> mutex_guard \<times> lease_tables)
     \<Rightarrow> (mutex_guard_snapshot \<Rightarrow> 'e + 'v) \<Rightarrow> pool_env \<Rightarrow> string option \<Rightarrow> pool_env
     \<Rightarrow> lease_tables \<Rightarrow> (('c, 'e) mutex_run_error + 'v mutex_try_run_task_result) \<times> lease_tables" where
  "try_run_task m new_id_text call config meanwhile task env join drop_env t =
     (case generate_holder_id new_id_text of
        Inl e \<Rightarrow> (Inl (RunFleet e), t)
      | Inr holder_id \<Rightarrow>
          try_run_task_for_holder m call holder_id config meanwhile task env join drop_env t)"

text \<open>The waiting entry points. Without an answer of the waiting loop there is none here either.\<close>

definition run_task_for_holder_when_available ::
    "mutex \<Rightarrow> string \<Rightarrow> mutex_guard_config \<Rightarrow> ('c lease_call \<times> (nanos \<Rightarrow> string + nanos)) list
     \<Rightarrow> (mutex_guard \<Rightarrow> lease_tables \<Rightarrow> mutex_guard \<times> lease_tables)
     \<Rightarrow> (mutex_guard_snapshot \<Rightarrow> 'e + 'v) \<Rightarrow> pool_env \<Rightarrow> string option \<Rightarrow> pool_env
     \<Rightarrow> lease_tables \<Rightarrow> ((('c, 'e) mutex_run_error + 'v) \<times> lease_tables) option" where
  "run_task_for_holder_when_available m holder_id config attempts meanwhile task env join drop_env t =
     (case fst (claim_guard_for_holder_when_available m holder_id config attempts t) of
        None \<Rightarrow> None
      | Some (Inl e, t') \<Rightarrow> Some (Inl (RunFleet e), t')
      | Some (Inr g, t') \<Rightarrow>
          (let (after, t'') = meanwhile g t'
           in Some (run_task_once_under_mutex_guard g task after env join drop_env t'')))"

definition run_task_when_available ::
    "mutex \<Rightarrow> 'c id_error + string \<Rightarrow> mutex_guard_config \<Rightarrow> ('c lease_call \<times> (nanos \<Rightarrow> string + nanos)) list
     \<Rightarrow> (mutex_guard \<Rightarrow> lease_tables \<Rightarrow> mutex_guard \<times> lease_tables)
     \<Rightarrow> (mutex_guard_snapshot \<Rightarrow> 'e + 'v) \<Rightarrow> pool_env \<Rightarrow> string option \<Rightarrow> pool_env
     \<Rightarrow> lease_tables \<Rightarrow> ((('c, 'e) mutex_run_error + 'v) \<times> lease_tables) option" where
  "run_task_when_available m new_id_text config attempts meanwhile task env join drop_env t =
     (case generate_holder_id new_id_text of
        Inl e \<Rightarrow> Some (Inl (RunFleet e), t)
      | Inr holder_id \<Rightarrow>
          run_task_for_holder_when_available m holder_id config attempts meanwhile task env join drop_env t)"

definition stop_heartbeat_and_take_current_claim ::
    "string option \<Rightarrow> mutex_guard \<Rightarrow> mutex \<times> mutex_claim option \<times> ('c fleet_error + unit)" where
  "stop_heartbeat_and_take_current_claim join g =
     (let (stopped, g') = stop_heartbeat_loop join g in (guard_mutex g', current_claim g', stopped))"

section \<open>Configuration and waiting\<close>

text \<open>A resolved configuration has a heartbeat of at least the minimum that fits twice into the
  claim, a positive retry interval below its cap and a positive failure count; every claim
  duration of the lease module resolves with the defaults.\<close>

theorem resolved_config_is_sound:
  assumes "expires_after claim_ns = (Inr duration :: 'c lease_error + claim_duration)"
  shows "(\<forall>r. resolve_for_claim_duration config duration = (Inr r :: 'c fleet_error + _) \<longrightarrow>
      MIN_FLEET_MUTEX_HEARTBEAT_INTERVAL \<le> heartbeat_interval r \<and> 2 * heartbeat_interval r \<le> claim_ns
      \<and> 0 < acquire_retry_interval r \<and> acquire_retry_interval r \<le> max_acquire_retry_interval r
      \<and> 0 < max_consecutive_renewal_failures r)
    \<and> (\<exists>r. resolve_for_claim_duration \<lparr>config_heartbeat_interval = None, config_acquire_retry_interval = None,
          config_max_acquire_retry_interval = None, config_max_consecutive_renewal_failures = None\<rparr> duration
        = (Inr r :: 'c fleet_error + _) \<and> 3 * heartbeat_interval r \<le> claim_ns)"
proof (rule conjI)
  have d: "positive_duration duration = claim_ns" "1000000000 \<le> claim_ns"
      "int (claim_ns div 1000 + (if claim_ns mod 1000 = 0 then 0 else 1)) \<le> i64_max"
    using assms by (auto simp: expires_after_def MIN_LEASE_DURATION_def duration_to_rounded_microseconds_def
      Let_def split: if_splits)
  show "\<forall>r. resolve_for_claim_duration config duration = (Inr r :: 'c fleet_error + _) \<longrightarrow>
      MIN_FLEET_MUTEX_HEARTBEAT_INTERVAL \<le> heartbeat_interval r \<and> 2 * heartbeat_interval r \<le> claim_ns
      \<and> 0 < acquire_retry_interval r \<and> acquire_retry_interval r \<le> max_acquire_retry_interval r
      \<and> 0 < max_consecutive_renewal_failures r"
    by (auto simp: resolve_for_claim_duration_def Let_def d duration_checked_mul_def
        split: if_splits option.splits)
  have "int (claim_ns div 1000) \<le> i64_max" using d(3) by (simp split: if_splits)
  then have "claim_ns div 1000 \<le> 9223372036854775807" by (simp add: i64_max_def)
  then have "claim_ns < 9223372036854775808 * 1000" by (simp add: div_less_iff_less_mult)
  then have "2 * (claim_ns div 3) \<le> duration_max" by (simp add: duration_max_def)
  moreover have "100000000 \<le> claim_ns div 3" using d(2) by simp
  moreover have "3 * (claim_ns div 3) \<le> claim_ns" by simp
  moreover have "2 * (claim_ns div 3) \<le> claim_ns" by simp
  ultimately show "\<exists>r. resolve_for_claim_duration \<lparr>config_heartbeat_interval = None,
      config_acquire_retry_interval = None, config_max_acquire_retry_interval = None,
      config_max_consecutive_renewal_failures = None\<rparr> duration
        = (Inr r :: 'c fleet_error + _) \<and> 3 * heartbeat_interval r \<le> claim_ns"
    by (simp add: resolve_for_claim_duration_def Let_def d(1) option_unwrap_or_def duration_checked_mul_def
        MIN_FLEET_MUTEX_HEARTBEAT_INTERVAL_def DEFAULT_FLEET_MUTEX_ACQUIRE_RETRY_INTERVAL_def
        DEFAULT_FLEET_MUTEX_MAX_ACQUIRE_RETRY_INTERVAL_def
        DEFAULT_FLEET_MUTEX_MAX_CONSECUTIVE_RENEWAL_FAILURES_def max_def mult.commute)
qed

theorem resolved_config_is_sound_witness:
  "\<exists>r. resolve_for_claim_duration \<lparr>config_heartbeat_interval = None, config_acquire_retry_interval = None,
      config_max_acquire_retry_interval = None, config_max_consecutive_renewal_failures = None\<rparr>
      (ClaimDuration 30000000000) = (Inr r :: unit fleet_error + _)"
proof -
  have "expires_after 30000000000 = (Inr (ClaimDuration 30000000000) :: unit lease_error + claim_duration)"
    by (simp add: expires_after_def MIN_LEASE_DURATION_def duration_to_rounded_microseconds_def i64_max_def)
  from resolved_config_is_sound [OF this] show ?thesis by blast
qed

lemma saturating_double: "x \<le> cap \<Longrightarrow> cap \<le> duration_max \<Longrightarrow> min (duration_saturating_mul x 2) cap = min (x * 2) cap"
  by (auto simp: duration_saturating_mul_def min_def)

text \<open>While the mutex is held by others, the waiting loop doubles its base interval from the
  configured one up to the configured cap, attempt after attempt.\<close>

theorem waits_double_up_to_cap:
  assumes "claim_guard_loop m holder_id config interval attempts t = (r, waits)"
    and "interval \<le> max_acquire_retry_interval config"
    and "max_acquire_retry_interval config \<le> duration_max" and "i < length waits"
  shows "waits ! i = min (interval * 2 ^ i) (max_acquire_retry_interval config)"
  using assms
proof (induction m holder_id config interval attempts t arbitrary: r waits i rule: claim_guard_loop.induct)
  case (2 m holder_id config interval call jitter rest t)
  let ?cap = "max_acquire_retry_interval config"
  let ?next = "min (duration_saturating_mul interval 2) ?cap"
  show ?case
  proof (cases "try_claim_manual_renewal_for_holder m call holder_id t")
    case (Pair res t')
    show ?thesis
    proof (cases "res = Inr None \<and> (\<exists>d. jitter interval = Inr d)")
      case True
      then obtain d where j: "jitter interval = Inr d" and res: "res = Inr None" by blast
      obtain r' ws where rec: "claim_guard_loop m holder_id config ?next rest t' = (r', ws)" by fastforce
      have waits: "waits = interval # ws" using 2(2) by (simp add: Pair res j rec)
      show ?thesis
      proof (cases i)
        case 0
        then show ?thesis using waits 2(3) by simp
      next
        case (Suc k)
        have "ws ! k = min (?next * 2 ^ k) ?cap"
          by (rule 2(1) [OF Pair [symmetric] res refl j rec]) (use 2(4,5) waits Suc in auto)
        also have "?next = min (interval * 2) ?cap" by (rule saturating_double [OF 2(3,4)])
        also have "min (min (interval * 2) ?cap * 2 ^ k) ?cap = min (interval * 2 ^ Suc k) ?cap"
        proof (cases "interval * 2 \<le> ?cap")
          case True
          then show ?thesis by (simp add: mult.assoc)
        next
          case False
          have "?cap \<le> ?cap * 2 ^ k" by simp
          moreover have "?cap \<le> interval * 2 * 2 ^ k" using False
            by (metis le_trans linear mult_le_mono1 calculation)
          ultimately have "min (?cap * 2 ^ k) ?cap = ?cap" "min (interval * 2 ^ Suc k) ?cap = ?cap"
            by (simp_all only: min_absorb2 power_Suc mult.assoc)
          moreover have "min (interval * 2) ?cap = ?cap" using False by simp
          ultimately show ?thesis by simp
        qed
        finally show ?thesis using waits Suc by simp
      qed
    next
      case False
      then have "waits = []" using 2(2) Pair by (auto split: sum.splits option.splits)
      then show ?thesis using 2(5) by simp
    qed
  qed
qed simp


theorem waits_double_up_to_cap_witness:
  "snd (claim_guard_loop \<lparr>mutex_protocol = ''p'', mutex_key = ''m'', mutex_lease_key = ''k'',
        mutex_claim_duration = ClaimDuration 30000000000\<rparr> ''h''
      \<lparr>heartbeat_interval = 10000000000, acquire_retry_interval = 100, max_acquire_retry_interval = 300,
        max_consecutive_renewal_failures = 3\<rparr> 100
      (replicate 3 (\<lparr>call_env = calm_pool, call_random = Inr (replicate 32 1),
         call_seen = Some \<lparr>row_holder_id = ''x'', row_fencing_token = 1, row_lease_token = [],
            row_expires_at = 6\<rparr>\<rparr> :: unit lease_call, Inr))
      \<lparr>leases = Map.empty, fencing_counters = Map.empty\<rparr>
      :: ((unit fleet_error + mutex_guard) \<times> lease_tables) option \<times> nanos list) ! 2 = 300"
proof -
  let ?m = "\<lparr>mutex_protocol = ''p'', mutex_key = ''m'', mutex_lease_key = ''k'',
    mutex_claim_duration = ClaimDuration 30000000000\<rparr>"
  let ?config = "\<lparr>heartbeat_interval = 10000000000, acquire_retry_interval = 100,
    max_acquire_retry_interval = 300, max_consecutive_renewal_failures = 3\<rparr>"
  let ?call = "\<lparr>call_env = calm_pool, call_random = Inr (replicate 32 1),
    call_seen = Some \<lparr>row_holder_id = ''x'', row_fencing_token = 1, row_lease_token = [],
      row_expires_at = 6\<rparr>\<rparr> :: unit lease_call"
  let ?t = "\<lparr>leases = Map.empty, fencing_counters = Map.empty\<rparr> :: lease_tables"
  have held: "try_claim_manual_renewal_for_holder ?m ?call ''h'' ?t = (Inr None, ?t)"
    by (simp add: try_claim_manual_renewal_for_holder_def try_claim_lease_def pool_write_def calm_pool_def
        try_claim_lease_in_current_transaction_def token_random_def admitted_def admit_def supported_reply_def
        supported_row_def SUPPORTED_EPOCH_def SUPPORTED_FINGERPRINT_def begin_transaction_def
        try_claim_lease_with_executor_def positive_microseconds_def duration_to_rounded_microseconds_def
        i64_max_def claim_lease_statement_def row_is_live_def decode_claim_def finish_write_transaction_def
        wrap_claim_def)
  let ?loop = "claim_guard_loop ?m ''h'' ?config 100 (replicate 3 (?call, Inr)) ?t
    :: ((unit fleet_error + mutex_guard) \<times> lease_tables) option \<times> nanos list"
  have len: "length (snd ?loop) = 3"
    by (simp add: numeral_3_eq_3 held split_def)
  have "?loop = (fst ?loop, snd ?loop)" by simp
  from waits_double_up_to_cap [OF this, of 2] len have "snd ?loop ! 2 = min (100 * 2 ^ 2) 300"
    by (simp add: duration_max_def)
  then show ?thesis by simp
qed

section \<open>Guards over time\<close>

text \<open>Whatever a pool call does to the lease tables is a run of lease statements.\<close>

lemma admitted_keeps:
  assumes "admitted p reply build body tx = (r, tx')" and "Q (tables tx)"
    and "\<And>r d. body (tables tx) = (r, d) \<Longrightarrow> Q d"
  shows "Q (tables tx')"
proof (cases "fst (admit p reply tx)")
  case (Inl e)
  then show ?thesis using assms by (simp add: admitted_error)
next
  case (Inr u)
  then have "tables (snd (admitted p reply build body tx)) = snd (body (tables tx))"
    by (intro admitted_ok(2)) simp
  then show ?thesis using assms(1) assms(3) [OF prod.collapse [symmetric]] by simp
qed

lemma pool_write_keeps:
  assumes "pool_write operation bd br env body d = (r, d')" and "Q d"
    and "\<And>r tx. body (begin_transaction d) = (r, tx) \<Longrightarrow> Q (tables tx)"
  shows "Q d'"
proof -
  have "d' = d \<or> d' = tables (snd (body (begin_transaction d)))"
    using assms(1) finish_write_state [of operation bd br "env_commit env" "env_rollback env" d
        "body (begin_transaction d)"]
    by (auto simp: pool_write_def split: option.splits)
  then show ?thesis using assms(2,3) prod.collapse [symmetric] by metis
qed

lemma begin_tables [simp]: "tables (begin_transaction d) = d"
  by (simp add: begin_transaction_def)

lemma pool_renew_run:
  assumes "try_renew_lease p env random c duration t = (r :: 'c lease_error + claim option, t')"
  shows "lease_step\<^sup>*\<^sup>* t t'"
proof (rule pool_write_keeps [OF assms [unfolded try_renew_lease_def]])
  fix r' :: "'c lease_error + claim option" and tx
  assume *: "try_renew_lease_in_current_transaction p random (env_reply env) (env_now env) c duration
    (begin_transaction t) = (r', tx)"
  show "lease_step\<^sup>*\<^sup>* t (tables tx)"
  proof (cases "token_random random")
    case (Inl e)
    then show ?thesis using * by (auto simp: try_renew_lease_in_current_transaction_def)
  next
    case (Inr token)
    note a = * [unfolded try_renew_lease_in_current_transaction_def Inr sum.case]
    show ?thesis
      by (rule admitted_keeps [OF a]) (simp_all add: executor_renew_step)
  qed
qed simp

lemma executor_release_step:
  "release_lease_with_executor now c t = (r, t') \<Longrightarrow> lease_step\<^sup>*\<^sup>* t t'"
  using lease_step.release [of t now "claim_key c" "claim_holder_id c" "claim_fencing_token c" "claim_lease_token c"]
  by (auto simp: release_lease_with_executor_def split: sum.splits prod.splits)

lemma pool_release_run:
  assumes "release_lease p env c t = (r :: 'c lease_error + bool, t')"
  shows "lease_step\<^sup>*\<^sup>* t t'"
proof (rule pool_write_keeps [OF assms [unfolded release_lease_def]])
  fix r' :: "'c lease_error + bool" and tx
  assume *: "release_lease_in_current_transaction p (env_reply env) (env_now env) c
    (begin_transaction t) = (r', tx)"
  show "lease_step\<^sup>*\<^sup>* t (tables tx)"
    by (rule admitted_keeps [OF * [unfolded release_lease_in_current_transaction_def]])
      (simp_all add: executor_release_step)
qed simp

text \<open>
  Steps of a guard in its surroundings: a turn of the heartbeat, an attempt of the owner to
  release, or any statement of anyone else on the lease tables.
\<close>

inductive mutex_step ::
    "resolved_mutex_guard_config \<Rightarrow> mutex_guard \<times> lease_tables \<Rightarrow> mutex_guard \<times> lease_tables \<Rightarrow> bool"
  for config where
  heartbeat: "heartbeat_running g \<Longrightarrow>
    mutex_step config (g, t) (heartbeat_turn config (call :: unit lease_call) g t)"
| owner: "mutex_step config (g, t) (snd (try_release env join g t
    :: (unit fleet_error + bool) \<times> mutex_guard \<times> lease_tables))"
| world: "lease_step t t' \<Longrightarrow> mutex_step config (g, t) (g, t')"

text \<open>A claim of the guard is the one it was built from, renewed: same keys, same fencing token.\<close>

definition claim_continues :: "mutex \<Rightarrow> int \<Rightarrow> mutex_claim \<Rightarrow> bool" where
  "claim_continues m fencing c \<longleftrightarrow> claim_mutex_key c = mutex_key m
     \<and> claim_key (claim_lease c) = mutex_lease_key m \<and> claim_fencing_token (claim_lease c) = fencing"

definition guard_inv :: "mutex \<Rightarrow> int \<Rightarrow> mutex_guard \<times> lease_tables \<Rightarrow> bool" where
  "guard_inv m fencing s \<longleftrightarrow> guard_mutex (fst s) = m \<and> lease_inv (snd s)
     \<and> fencing \<le> latest_fencing (snd s) (mutex_lease_key m)
     \<and> (\<forall>c. current_claim (fst s) = Some c \<longrightarrow> claim_continues m fencing c)"

lemma pool_renew_claim:
  assumes "try_renew_lease p env random c duration t = (Inr (Some c') :: 'c lease_error + claim option, t')"
  shows "claim_key c' = claim_key c \<and> claim_fencing_token c' = claim_fencing_token c"
proof -
  let ?body = "try_renew_lease_in_current_transaction p random (env_reply env) (env_now env) c duration"
  have "fst (?body (begin_transaction t)) = (Inr (Some c') :: 'c lease_error + claim option)"
    using arg_cong [OF assms, of fst] by (simp add: try_renew_lease_def pool_write_ok_iff)
  then obtain token where "fst (try_renew_lease_with_executor (env_now env) c token duration t)
      = (Inr (Some c') :: 'c lease_error + claim option)"
    by (auto simp: try_renew_lease_in_current_transaction_def split: sum.splits dest: admitted_Inr(2))
  then show ?thesis
    by (auto simp: try_renew_lease_with_executor_def renew_lease_statement_def Let_def claim_of_row_def
        row_matches_def split: sum.splits prod.splits option.splits if_splits dest!: decode_claim_Some)
qed

lemma wrap_claim_cases:
  assumes "wrap_claim m x = (r, t')"
  obtains (err) e where "x = (Inl e, t')" "r = Inl (FleetCoordination e)"
  | (none) "x = (Inr None, t')" "r = Inr None"
  | (some) c where "x = (Inr (Some c), t')" "r = Inr (Some (claim_from_lease_claim m c))"
  using assms by (auto simp: wrap_claim_def split: sum.splits prod.splits option.splits)

lemma renewal_continues:
  assumes "try_renew_manual_renewal_claim m call c t = (Inr (Some c') :: 'c fleet_error + mutex_claim option, t')"
    and "claim_continues m f c"
  shows "claim_continues m f c'"
proof -
  have match: "require_claim_matches_mutex m c = (Inr () :: 'c fleet_error + unit)"
    using assms(1) by (auto simp: try_renew_manual_renewal_claim_def require_claim_matches_mutex_def split: if_splits)
  note w = assms(1) [unfolded try_renew_manual_renewal_claim_def match sum.case]
  from w show ?thesis
  proof (cases rule: wrap_claim_cases)
    case (some l)
    from pool_renew_claim [OF this(1)] this(2) assms(2) show ?thesis
      by (simp add: claim_continues_def claim_from_lease_claim_def)
  qed simp_all
qed

lemma renewal_run:
  assumes "try_renew_manual_renewal_claim m call c t = (r :: 'c fleet_error + mutex_claim option, t')"
  shows "lease_step\<^sup>*\<^sup>* t t'"
proof (cases "require_claim_matches_mutex m c :: 'c fleet_error + unit")
  case (Inl e)
  then show ?thesis using assms by (simp add: try_renew_manual_renewal_claim_def)
next
  case (Inr u)
  note w = assms [unfolded try_renew_manual_renewal_claim_def Inr sum.case]
  from w show ?thesis by (cases rule: wrap_claim_cases) (auto dest: pool_renew_run)
qed

lemma guard_release_run:
  assumes "release_manual_renewal_claim m env c t = (r :: 'c fleet_error + bool, t')"
  shows "lease_step\<^sup>*\<^sup>* t t'"
proof (cases "require_claim_matches_mutex m c :: 'c fleet_error + unit")
  case (Inl e)
  then show ?thesis using assms by (simp add: release_manual_renewal_claim_def)
next
  case (Inr u)
  obtain x t1 where x: "release_lease (mutex_protocol m) env (claim_lease c) t = (x :: 'c lease_error + bool, t1)"
    by fastforce
  have "t1 = t'" using assms by (simp add: release_manual_renewal_claim_def Inr x wrap_coordination_def split: sum.splits)
  then show ?thesis using pool_release_run [OF x] by simp
qed

lemma heartbeat_turn_effect:
  assumes "heartbeat_turn config call g t = (g', t')"
  shows "lease_step\<^sup>*\<^sup>* t t' \<and> guard_mutex g' = guard_mutex g
    \<and> (leadership_lost g \<longrightarrow> leadership_lost g')
    \<and> (\<forall>c'. current_claim g' = Some c' \<longrightarrow> (\<exists>c. current_claim g = Some c
         \<and> (c' = c \<or> try_renew_manual_renewal_claim (guard_mutex g) call c t = (Inr (Some c'), t'))))"
proof (cases "current_claim g")
  case None
  then show ?thesis using assms by (auto simp: heartbeat_turn_def split: if_splits)
next
  case (Some c)
  obtain r t1 where r: "try_renew_manual_renewal_claim (guard_mutex g) call c t = (r, t1)" by fastforce
  have run: "lease_step\<^sup>*\<^sup>* t t1" using renewal_run [OF r] .
  show ?thesis
    using assms Some run
    by (auto simp: heartbeat_turn_def r mark_mutex_guard_lost_def Let_def
        split: sum.splits option.splits if_splits)
qed

lemma try_release_effect:
  assumes "try_release env join g t = (r :: 'c fleet_error + bool, g', t')"
  shows "lease_step\<^sup>*\<^sup>* t t' \<and> guard_mutex g' = guard_mutex g \<and> leadership_lost g' = leadership_lost g
    \<and> (current_claim g' = current_claim g \<or> current_claim g' = None)"
proof (cases "current_claim g")
  case None
  then show ?thesis
    using assms by (auto simp: try_release_def release_current_claim_def stop_heartbeat_loop_def Let_def
        split: if_splits)
next
  case (Some c)
  obtain x t1 where x: "release_manual_renewal_claim (guard_mutex g) env c t = (x :: 'c fleet_error + bool, t1)"
    by fastforce
  note run = guard_release_run [OF x]
  show ?thesis
  proof (cases x)
    case (Inl e)
    then show ?thesis using assms run by (simp add: try_release_def release_current_claim_def Some x)
  next
    case (Inr b)
    then show ?thesis using assms run
      by (auto simp: try_release_def release_current_claim_def Some x stop_heartbeat_loop_def
          Let_def split: if_splits)
  qed
qed


lemma mutex_step_inv:
  assumes "mutex_step config s s'" and "guard_inv m f s"
  shows "guard_inv m f s' \<and> lease_step\<^sup>*\<^sup>* (snd s) (snd s')"
proof -
  have keep: "lease_inv t' \<and> f \<le> latest_fencing t' (mutex_lease_key m)"
    if "lease_step\<^sup>*\<^sup>* (snd s) t'" for t'
    using that assms(2) lease_fencing.invar_run [OF that] lease_fencing.latest_run [OF that, of "mutex_lease_key m"]
    by (auto simp: guard_inv_def)
  from assms(1) show ?thesis
  proof cases
    case (heartbeat g t call)
    obtain g' t' where s': "s' = (g', t')" by fastforce
    have eff: "heartbeat_turn config call g t = (g', t')" using heartbeat(2) s' by simp
    note e = heartbeat_turn_effect [OF eff]
    show ?thesis using e keep [of t'] assms(2) renewal_continues
      unfolding guard_inv_def s' heartbeat(1) fst_conv snd_conv by blast
  next
    case (owner g t env join)
    obtain r g' t' where r: "try_release env join g t = (r :: unit fleet_error + bool, g', t')"
      by (metis prod.collapse)
    have s': "s' = (g', t')" using owner r by simp
    from try_release_effect [OF r] keep [of t'] assms(2) show ?thesis
      unfolding guard_inv_def s' owner(1) fst_conv snd_conv by (metis option.distinct(1))
  next
    case (world t t' g)
    then show ?thesis using keep [of t'] assms(2) by (auto simp: guard_inv_def)
  qed
qed

lemma mutex_run_inv:
  "(mutex_step config)\<^sup>*\<^sup>* s s' \<Longrightarrow> guard_inv m f s \<Longrightarrow> guard_inv m f s' \<and> lease_step\<^sup>*\<^sup>* (snd s) (snd s')"
proof (induction rule: rtranclp_induct)
  case (step y z)
  then show ?case using mutex_step_inv [of config y z m f] by (meson rtranclp_trans)
qed simp

lemma pool_claim_Some:
  assumes "try_claim_lease p env random seen key h d t = (Inr (Some c) :: 'c lease_error + claim option, t')"
  obtains token where "try_claim_lease_with_executor seen (env_now env) key h token d t
    = (Inr (Some c) :: 'c lease_error + claim option, t')"
proof -
  let ?body = "try_claim_lease_in_current_transaction p random (env_reply env) seen (env_now env) key h d
    :: _ \<Rightarrow> ('c lease_error + claim option) \<times> _"
  note w = arg_cong [OF assms [unfolded try_claim_lease_def], of fst, simplified]
  have body: "fst (?body (begin_transaction t)) = Inr (Some c)" using w by (simp add: pool_write_ok_iff)
  have t': "t' = tables (snd (?body (begin_transaction t)))"
    using pool_write_ok_state [OF w] assms by (simp add: try_claim_lease_def)
  from body obtain token where tok: "token_random random = (Inr token :: 'c lease_error + bytes)"
    by (auto simp: try_claim_lease_in_current_transaction_def split: sum.splits)
  note a = body [unfolded try_claim_lease_in_current_transaction_def tok sum.case]
  from admitted_Inr [OF a] t' show thesis
    by (intro that [of token]) (simp add: try_claim_lease_in_current_transaction_def tok prod_eq_iff)
qed

text \<open>A fresh guard: its claim is granted, so its fencing token exceeds every earlier one.\<close>

lemma claimed_guard:
  assumes inv: "lease_inv t" and seen: "call_seen call = leases t (mutex_lease_key m) \<or> call_seen call = None"
    and claim: "try_claim_guard_for_holder m call h config t
      = (Inr (Some (g, resolved)) :: 'c fleet_error + _, t')"
  obtains c where "g = guard_from_claim m c" "claim_mutex_key c = mutex_key m"
    "latest_fencing t (mutex_lease_key m) < claim_fencing_token (claim_lease c)"
    "claim_holder_id (claim_lease c) = h"
    "holding_fencing t' (mutex_lease_key m) = Some (claim_fencing_token (claim_lease c))"
    "guard_inv m (claim_fencing_token (claim_lease c)) (g, t')"
    "\<And>q. leases t (mutex_lease_key m) = Some q \<Longrightarrow> \<not> row_is_live (env_now (call_env call)) q"
    "resolve_for_claim_duration config (mutex_claim_duration m) = (Inr resolved :: 'c fleet_error + _)"
proof -
  from claim obtain mc where res: "resolve_for_claim_duration config (mutex_claim_duration m) = (Inr resolved :: 'c fleet_error + _)"
    and g: "g = guard_from_claim m mc"
    and mc: "try_claim_manual_renewal_for_holder m call h t = (Inr (Some mc) :: 'c fleet_error + _, t')"
    by (auto simp: try_claim_guard_for_holder_def split: sum.splits prod.splits option.splits)
  note w = mc [unfolded try_claim_manual_renewal_for_holder_def]
  from w obtain c where c: "try_claim_lease (mutex_protocol m) (call_env call) (call_random call) (call_seen call)
       (mutex_lease_key m) h (mutex_claim_duration m) t = (Inr (Some c) :: 'c lease_error + _, t')"
    and mc_eq: "mc = claim_from_lease_claim m c"
    by (cases rule: wrap_claim_cases) auto
  from pool_claim_Some [OF c] obtain token where x: "try_claim_lease_with_executor (call_seen call)
      (env_now (call_env call)) (mutex_lease_key m) h token (mutex_claim_duration m) t
      = (Inr (Some c) :: 'c lease_error + _, t')" .
  from executor_claim_Some [OF x] obtain us r where st: "claim_lease_statement (call_seen call)
      (env_now (call_env call)) (mutex_lease_key m) h token us t = (Inr (Some r), t')"
    and cr: "c = claim_of_row (mutex_lease_key m) r" .
  have run: "lease_step\<^sup>*\<^sup>* t t'" by (rule executor_claim_step [OF seen x])
  have inv': "lease_inv t'" by (rule lease_fencing.invar_run [OF run inv])
  from st show thesis
  proof (cases rule: claim_statement_cases)
    case (granted q)
    then have q: "q = r" by simp
    have lt: "latest_fencing t (mutex_lease_key m) < row_fencing_token r"
      using next_fencing_gt [OF inv seen] granted(7) q by simp
    have held: "holding_fencing t' (mutex_lease_key m) = Some (row_fencing_token r)"
      using granted(8) q by (simp add: holding_fencing_def)
    show thesis
    proof (rule that [of mc])
      show "guard_inv m (claim_fencing_token (claim_lease mc)) (g, t')"
        using inv' lease_fencing.holder_le_latest [OF inv' held]
        by (simp add: guard_inv_def g guard_from_claim_def claim_continues_def mc_eq claim_from_lease_claim_def cr claim_of_row_def)
      show "claim_holder_id (claim_lease mc) = h"
        using granted(2) q by (simp add: mc_eq claim_from_lease_claim_def cr claim_of_row_def)
      show "\<And>q. leases t (mutex_lease_key m) = Some q \<Longrightarrow> \<not> row_is_live (env_now (call_env call)) q"
        by (rule granted(9))
    qed (use g res lt held in \<open>simp_all add: mc_eq claim_from_lease_claim_def cr claim_of_row_def\<close>)
  next
    case unchanged
    then show thesis by blast
  qed simp
qed

text \<open>C39: From the moment a guard is claimed, whatever the heartbeat, the owner and everybody else do,
  a claim the guard still holds carries its own keys and the fencing token it was granted; that
  token exceeds every earlier one of the key, and every guard claimed later on the key gets a
  strictly greater one.\<close>

theorem guard_keeps_fencing_token:
  assumes "lease_inv t"
    and "call_seen call = leases t (mutex_lease_key m) \<or> call_seen call = None"
    and "try_claim_guard_for_holder m call h config t = (Inr (Some (g, resolved)) :: 'c fleet_error + _, t1)"
    and "(mutex_step resolved)\<^sup>*\<^sup>* (g, t1) (g2, t2)"
  shows "\<exists>fencing. latest_fencing t (mutex_lease_key m) < fencing
    \<and> map_option guard_fencing_token (live_claim_snapshot g) = Some fencing
    \<and> (\<forall>c. current_claim g2 = Some c \<longrightarrow> claim_mutex_key c = mutex_key m
         \<and> claim_key (claim_lease c) = mutex_lease_key m \<and> claim_fencing_token (claim_lease c) = fencing)
    \<and> (\<forall>(call' :: 'c lease_call) h' config' g' resolved' t3.
         (call_seen call' = leases t2 (mutex_lease_key m) \<or> call_seen call' = None) \<longrightarrow>
         try_claim_guard_for_holder m call' h' config' t2 = (Inr (Some (g', resolved')) :: 'c fleet_error + _, t3) \<longrightarrow>
         (\<exists>later. map_option guard_fencing_token (live_claim_snapshot g') = Some later \<and> fencing < later))"
proof -
  obtain c where c: "g = guard_from_claim m c"
      "latest_fencing t (mutex_lease_key m) < claim_fencing_token (claim_lease c)"
      "guard_inv m (claim_fencing_token (claim_lease c)) (g, t1)"
    by (rule claimed_guard [OF assms(1,2,3)])
  let ?f = "claim_fencing_token (claim_lease c)"
  have inv2: "guard_inv m ?f (g2, t2)" using mutex_run_inv [OF assms(4) c(3)] by simp
  have later: "\<exists>later. map_option guard_fencing_token (live_claim_snapshot g') = Some later \<and> ?f < later"
    if seen2: "call_seen call' = leases t2 (mutex_lease_key m) \<or> call_seen call' = None"
      and claim2: "try_claim_guard_for_holder m call' h' config' t2 = (Inr (Some (g', resolved')) :: 'c fleet_error + _, t3)"
    for call' :: "'c lease_call" and h' config' g' resolved' t3
  proof -
    have "lease_inv t2" using inv2 by (simp add: guard_inv_def)
    obtain c' where "g' = guard_from_claim m c'"
        "latest_fencing t2 (mutex_lease_key m) < claim_fencing_token (claim_lease c')"
      by (rule claimed_guard [OF \<open>lease_inv t2\<close> seen2 claim2])
    then show ?thesis
      using inv2 by (simp add: guard_inv_def live_claim_snapshot_def guard_from_claim_def guard_snapshot_def)
  qed
  show ?thesis
    by (intro exI [of _ ?f] conjI)
      (use c inv2 later in \<open>auto simp: guard_inv_def claim_continues_def live_claim_snapshot_def
        guard_from_claim_def guard_snapshot_def\<close>)
qed

lemma pool_release_True:
  assumes "release_lease p env c t = (Inr True :: 'c lease_error + bool, t')"
  obtains r where "leases t (claim_key c) = Some r"
    "row_matches (env_now env) (claim_holder_id c) (claim_fencing_token c) (claim_lease_token c) r"
    "t' = t\<lparr>leases := (leases t)(claim_key c := None)\<rparr>"
proof -
  note w = arg_cong [OF assms [unfolded release_lease_def], of fst, simplified]
  let ?body = "release_lease_in_current_transaction p (env_reply env) (env_now env) c
    :: _ \<Rightarrow> ('c lease_error + bool) \<times> _"
  have body: "fst (?body (begin_transaction t)) = Inr True" using w by (simp add: pool_write_ok_iff)
  have t': "t' = tables (snd (?body (begin_transaction t)))"
    using pool_write_ok_state [OF w] assms by (simp add: release_lease_def)
  from admitted_Inr [OF body [unfolded release_lease_in_current_transaction_def]] t'
  have "release_lease_with_executor (env_now env) c t = (Inr True :: 'c lease_error + bool, t')"
    by (simp add: release_lease_in_current_transaction_def prod_eq_iff)
  then show thesis
    using that
    by (auto simp: release_lease_with_executor_def release_lease_statement_def split: option.splits if_splits)
qed

lemma release_True:
  assumes "release env join drop_env g t = (Inr True :: 'c fleet_error + bool, t')"
  obtains c r where "current_claim g = Some c" "leases t (claim_key (claim_lease c)) = Some r"
    "row_matches (env_now env) (claim_holder_id (claim_lease c)) (claim_fencing_token (claim_lease c))
      (claim_lease_token (claim_lease c)) r"
    "t' = t\<lparr>leases := (leases t)(claim_key (claim_lease c) := None)\<rparr>"
proof -
  obtain res g1 t1 where r: "try_release env join g t = (res :: 'c fleet_error + bool, g1, t1)"
    by (metis prod.collapse)
  have res: "res = Inr True" "t' = drop_guard drop_env g1 t1"
    using assms by (auto simp: release_def r Let_def combine_mutex_guard_stop_and_release_results_def
        split: sum.splits prod.splits if_splits)
  obtain c where c: "current_claim g = Some c"
    using r res(1) by (cases "current_claim g") (auto simp: try_release_def release_current_claim_def
        combine_mutex_guard_stop_and_release_results_def Let_def split: sum.splits prod.splits)
  obtain x t2 where x: "release_manual_renewal_claim (guard_mutex g) env c t = (x :: 'c fleet_error + bool, t2)"
    by (metis prod.collapse)
  have x2: "x = Inr True" "t2 = t1" "current_claim g1 = None"
    using r res(1) by (auto simp: try_release_def release_current_claim_def c x stop_heartbeat_loop_def
        combine_mutex_guard_stop_and_release_results_def Let_def split: sum.splits prod.splits if_splits)
  have t': "t' = t1" using res(2) x2(3) by (simp add: drop_guard_def)
  obtain u where "require_claim_matches_mutex (guard_mutex g) c = (Inr u :: 'c fleet_error + unit)"
    using x x2(1) by (auto simp: release_manual_renewal_claim_def split: sum.splits)
  then have "release_lease (mutex_protocol (guard_mutex g)) env (claim_lease c) t = (Inr True :: 'c lease_error + bool, t1)"
    using x x2(1,2) by (auto simp: release_manual_renewal_claim_def wrap_coordination_def split: sum.splits prod.splits)
  from pool_release_True [OF this] c t' that show thesis by metis
qed

text \<open>C38: When a claimed task is reported as run, it had been given the snapshot of the claim and
  succeeded, the guard was not lost, and from the grant to the release the lease row carried the
  guard's own fencing token at every moment, so nobody else was granted the mutex; at the release
  the row was still live, and afterwards it is gone.\<close>

theorem guarded_task_success_excludes:
  assumes "lease_inv t"
    and "call_seen call = leases t (mutex_lease_key m) \<or> call_seen call = None"
    and "try_claim_guard_for_holder m call h config t = (Inr (Some (g, resolved)) :: 'c fleet_error + _, t1)"
    and "meanwhile resolved g t1 = (after, t2)" "(mutex_step resolved)\<^sup>*\<^sup>* (g, t1) (after, t2)"
    and "run_claimed_task g resolved meanwhile task env join drop_env t1
      = (Inr v :: ('c, 'e) mutex_run_error + 'v, t3)"
  shows "\<exists>snapshot r. live_claim_snapshot g = Some snapshot \<and> task snapshot = Inr v \<and> \<not> leadership_lost after
    \<and> (\<forall>gi ti. (mutex_step resolved)\<^sup>*\<^sup>* (g, t1) (gi, ti) \<and> (mutex_step resolved)\<^sup>*\<^sup>* (gi, ti) (after, t2) \<longrightarrow>
         holding_fencing ti (mutex_lease_key m) = Some (guard_fencing_token snapshot))
    \<and> leases t2 (mutex_lease_key m) = Some r \<and> row_is_live (env_now env) r
    \<and> t3 = t2\<lparr>leases := (leases t2)(mutex_lease_key m := None)\<rparr>"
proof -
  obtain c where c: "g = guard_from_claim m c"
      "guard_inv m (claim_fencing_token (claim_lease c)) (g, t1)"
    by (rule claimed_guard [OF assms(1,2,3)])
  let ?f = "claim_fencing_token (claim_lease c)"
  let ?snap = "guard_snapshot c"
  have snap: "live_claim_snapshot g = Some ?snap" "guard_fencing_token ?snap = ?f"
    by (simp_all add: c(1) live_claim_snapshot_def guard_from_claim_def guard_snapshot_def)
  obtain rel where rel: "release env join drop_env after t2 = (rel :: 'c fleet_error + bool, t3)"
    and comb: "combine_mutex_task_and_release_results
        (execute_task_while_mutex_guarded g task after) rel = (Inr v :: ('c, 'e) mutex_run_error + 'v)"
    using assms(6) by (auto simp: run_claimed_task_def assms(4) run_task_once_under_mutex_guard_def Let_def
        split: prod.splits)
  from comb have ran: "execute_task_while_mutex_guarded g task after = (Inr v :: ('c, 'e) mutex_run_error + 'v)"
    and "rel = Inr True" by (simp_all add: combine_mutex_ok_iff)
  then have "release env join drop_env after t2 = (Inr True :: 'c fleet_error + bool, t3)" using rel by simp
  then obtain c2 r where c2: "current_claim after = Some c2" "leases t2 (claim_key (claim_lease c2)) = Some r"
      "row_matches (env_now env) (claim_holder_id (claim_lease c2)) (claim_fencing_token (claim_lease c2))
        (claim_lease_token (claim_lease c2)) r"
      "t3 = t2\<lparr>leases := (leases t2)(claim_key (claim_lease c2) := None)\<rparr>"
    by (rule release_True)
  have "guard_inv m ?f (after, t2)" using mutex_run_inv [OF assms(5) c(2)] by simp
  then have same: "claim_key (claim_lease c2) = mutex_lease_key m" "claim_fencing_token (claim_lease c2) = ?f"
    using c2(1) by (simp_all add: guard_inv_def claim_continues_def)
  have held2: "holding_fencing t2 (mutex_lease_key m) = Some ?f"
    using c2(2,3) same by (simp add: holding_fencing_def row_matches_def)
  have held: "holding_fencing ti (mutex_lease_key m) = Some ?f"
    if "(mutex_step resolved)\<^sup>*\<^sup>* (g, t1) (gi, ti)" "(mutex_step resolved)\<^sup>*\<^sup>* (gi, ti) (after, t2)" for gi ti
  proof (rule ccontr)
    assume no: "holding_fencing ti (mutex_lease_key m) \<noteq> Some ?f"
    have i: "guard_inv m ?f (gi, ti)" using mutex_run_inv [OF that(1) c(2)] by simp
    have "lease_step\<^sup>*\<^sup>* ti t2" using mutex_run_inv [OF that(2) i] by simp
    from lease_fencing.never_returns [OF this _ no] i held2 show False by (simp add: guard_inv_def)
  qed
  show ?thesis
    by (intro exI [of _ ?snap] exI [of _ r] conjI allI impI)
      (use snap ran c2 same held in \<open>auto simp: execute_task_while_mutex_guarded_def row_matches_def
        split: sum.splits if_splits\<close>)
qed

section \<open>Loss of a guard\<close>

text \<open>Turns of the heartbeat loop, each on the tables of its moment; an ended loop takes no turn.\<close>

fun heartbeat_turns ::
    "resolved_mutex_guard_config \<Rightarrow> ('c lease_call \<times> lease_tables) list \<Rightarrow> mutex_guard \<Rightarrow> mutex_guard" where
  "heartbeat_turns config [] g = g"
| "heartbeat_turns config ((call, t) # rest) g =
     heartbeat_turns config rest (if heartbeat_running g then fst (heartbeat_turn config call g t) else g)"

definition renewal_succeeds :: "mutex \<Rightarrow> mutex_claim \<Rightarrow> 'c lease_call \<times> lease_tables \<Rightarrow> bool" where
  "renewal_succeeds m c x = (case fst (try_renew_manual_renewal_claim m (fst x) c (snd x)) of
     Inr (Some _) \<Rightarrow> True | _ \<Rightarrow> False)"

lemma lost_forever: "leadership_lost g \<Longrightarrow> leadership_lost (heartbeat_turns config turns g)"
proof (induction config turns g rule: heartbeat_turns.induct)
  case (2 config call t rest g)
  obtain g' t' where "heartbeat_turn config call g t = (g', t')" by fastforce
  with heartbeat_turn_effect [OF this] 2 show ?case by simp
qed simp

lemma failing_turn:
  assumes "\<not> stop_heartbeat g" "current_claim g = Some c" "\<not> renewal_succeeds (guard_mutex g) c (call, t)"
    and "heartbeat_turn config call g t = (g', t')"
  shows "leadership_lost g'
    \<or> (\<not> leadership_lost g \<longrightarrow> \<not> leadership_lost g') \<and> heartbeat_running g' = heartbeat_running g \<and> \<not> stop_heartbeat g'
      \<and> current_claim g' = Some c \<and> guard_mutex g' = guard_mutex g
      \<and> consecutive_failures g' = min (consecutive_failures g + 1) u32_max
      \<and> consecutive_failures g' < max_consecutive_renewal_failures config"
proof -
  obtain r t1 where r: "try_renew_manual_renewal_claim (guard_mutex g) call c t = (r, t1)" by fastforce
  show ?thesis
    using assms
    by (auto simp: heartbeat_turn_def renewal_succeeds_def r mark_mutex_guard_lost_def Let_def
        split: sum.splits option.splits if_splits)
qed

text \<open>C40: A guard whose renewals all fail is marked lost within the configured number of consecutive
  failures, whatever their errors are: then it hands out no snapshot, and it stays lost.\<close>

theorem failing_heartbeat_is_lost:
  assumes "heartbeat_running g" "\<not> stop_heartbeat g" "current_claim g = Some c"
    and "\<forall>x \<in> set turns. \<not> renewal_succeeds (guard_mutex g) c x"
    and "max_consecutive_renewal_failures config \<le> consecutive_failures g + length turns" "turns \<noteq> []"
    and "max_consecutive_renewal_failures config \<le> u32_max"
  shows "leadership_lost (heartbeat_turns config (turns @ further) g)
    \<and> live_claim_snapshot (heartbeat_turns config (turns @ further) g) = None"
proof -
  have "leadership_lost (heartbeat_turns config turns g)"
    using assms(1-6)
  proof (induction turns arbitrary: g)
    case (Cons x rest)
    obtain call t where x: "x = (call, t)" by fastforce
    obtain g' t' where g': "heartbeat_turn config call g t = (g', t')" by fastforce
    have fail: "\<not> renewal_succeeds (guard_mutex g) c (call, t)" using Cons.prems(4) x by simp
    consider "leadership_lost g'"
      | "heartbeat_running g'" "\<not> stop_heartbeat g'" "current_claim g' = Some c" "guard_mutex g' = guard_mutex g"
        "consecutive_failures g' = min (consecutive_failures g + 1) u32_max"
        "consecutive_failures g' < max_consecutive_renewal_failures config"
      using failing_turn [OF Cons.prems(2,3) fail g'] Cons.prems(1) by blast
    then have "leadership_lost (heartbeat_turns config rest g')"
    proof cases
      case 1
      then show ?thesis by (rule lost_forever)
    next
      case 2
      have f: "consecutive_failures g' = consecutive_failures g + 1" using 2(5,6) assms(7) by linarith
      have "rest \<noteq> []" using Cons.prems(5) 2(6) f by auto
      then show ?thesis
        using 2 Cons.prems(4,5) f by (intro Cons.IH) auto
    qed
    then show ?case using Cons.prems(1) by (simp add: x g')
  qed simp
  moreover have "heartbeat_turns config (turns @ further) g = heartbeat_turns config further (heartbeat_turns config turns g)"
    by (induction config turns g rule: heartbeat_turns.induct) simp_all
  ultimately have "leadership_lost (heartbeat_turns config (turns @ further) g)" by (simp add: lost_forever)
  then show ?thesis by (simp add: live_claim_snapshot_def)
qed

section \<open>Witnesses of the guard\<close>

definition demo_mutex :: mutex where
  "demo_mutex = \<lparr>mutex_protocol = ''p'', mutex_key = ''m'', mutex_lease_key = ''k::'', mutex_claim_duration = two_seconds\<rparr>"

definition demo_call :: "unit lease_call" where
  "demo_call = \<lparr>call_env = calm_pool, call_random = Inr (token_of 1), call_seen = None\<rparr>"

definition demo_guard_config :: mutex_guard_config where
  "demo_guard_config = \<lparr>config_heartbeat_interval = None, config_acquire_retry_interval = None,
     config_max_acquire_retry_interval = None, config_max_consecutive_renewal_failures = None\<rparr>"

definition demo_resolved :: resolved_mutex_guard_config where
  "demo_resolved = \<lparr>heartbeat_interval = 666666666, acquire_retry_interval = 100000000,
     max_acquire_retry_interval = 2000000000, max_consecutive_renewal_failures = 3\<rparr>"

definition demo_mutex_claim :: mutex_claim where
  "demo_mutex_claim = claim_from_lease_claim demo_mutex (claim_of_row ''k::'' (held_row ''a'' 1 1 2000005))"

lemmas demo_pool_eval = pool_write_def calm_pool_def token_random_def admitted_def admit_def supported_reply_def
  supported_row_def SUPPORTED_EPOCH_def SUPPORTED_FINGERPRINT_def begin_transaction_def
  finish_write_transaction_def

lemma demo_resolves: "resolve_for_claim_duration demo_guard_config two_seconds = (Inr demo_resolved :: unit fleet_error + _)"
  by (simp add: resolve_for_claim_duration_def demo_guard_config_def two_seconds_def demo_resolved_def Let_def
      option_unwrap_or_def duration_checked_mul_def duration_max_def MIN_FLEET_MUTEX_HEARTBEAT_INTERVAL_def
      DEFAULT_FLEET_MUTEX_ACQUIRE_RETRY_INTERVAL_def DEFAULT_FLEET_MUTEX_MAX_ACQUIRE_RETRY_INTERVAL_def
      DEFAULT_FLEET_MUTEX_MAX_CONSECUTIVE_RENEWAL_FAILURES_def)

lemma demo_claimed:
  "try_claim_guard_for_holder demo_mutex demo_call ''a'' demo_guard_config no_leases
    = ((Inr (Some (guard_from_claim demo_mutex demo_mutex_claim, demo_resolved)) :: unit fleet_error + _),
       held_tables ''a'' 1 1 2000005)"
proof -
  have "try_claim_lease ''p'' calm_pool (Inr (token_of 1)) None ''k::'' ''a'' two_seconds no_leases
      = ((Inr (Some (claim_of_row ''k::'' (held_row ''a'' 1 1 2000005))) :: unit lease_error + claim option),
         held_tables ''a'' 1 1 2000005)"
    by (simp add: try_claim_lease_def try_claim_lease_in_current_transaction_def demo_pool_eval lease_eval no_leases_def)
  then have "try_claim_manual_renewal_for_holder demo_mutex demo_call ''a'' no_leases
      = ((Inr (Some demo_mutex_claim) :: unit fleet_error + _), held_tables ''a'' 1 1 2000005)"
    by (simp add: try_claim_manual_renewal_for_holder_def demo_mutex_def demo_call_def wrap_claim_def demo_mutex_claim_def)
  moreover have "mutex_claim_duration demo_mutex = two_seconds" by (simp add: demo_mutex_def)
  ultimately show ?thesis
    by (simp add: try_claim_guard_for_holder_def demo_resolves)
qed

theorem guard_keeps_fencing_token_witness:
  "\<exists>fencing > 0. map_option guard_fencing_token (live_claim_snapshot (guard_from_claim demo_mutex demo_mutex_claim)) = Some fencing"
  using guard_keeps_fencing_token [OF lease_inv_no_leases _ demo_claimed rtranclp.rtrancl_refl]
  by (auto simp: demo_call_def latest_fencing_def no_leases_def)

theorem guarded_task_success_excludes_witness:
  "\<exists>snapshot. live_claim_snapshot (guard_from_claim demo_mutex demo_mutex_claim) = Some snapshot
    \<and> holding_fencing (held_tables ''a'' 1 1 2000005) ''k::'' = Some (guard_fencing_token snapshot)"
proof -
  have "release_lease ''p'' calm_pool (claim_of_row ''k::'' (held_row ''a'' 1 1 2000005)) (held_tables ''a'' 1 1 2000005)
      = ((Inr True :: unit lease_error + bool), free_tables 1)"
    by (simp add: release_lease_def release_lease_in_current_transaction_def demo_pool_eval
        release_lease_with_executor_def release_lease_statement_def row_matches_def lease_eval)
  then have "run_claimed_task (guard_from_claim demo_mutex demo_mutex_claim) demo_resolved (\<lambda>_ g t. (g, t))
      (\<lambda>snapshot. Inr (guard_holder_id snapshot)) calm_pool None calm_pool (held_tables ''a'' 1 1 2000005)
    = ((Inr ''a'' :: (unit, unit) mutex_run_error + string), free_tables 1)"
    by (simp add: run_claimed_task_def run_task_once_under_mutex_guard_def execute_task_while_mutex_guarded_def
        live_claim_snapshot_def guard_from_claim_def guard_snapshot_def release_def try_release_def
        release_current_claim_def release_manual_renewal_claim_def require_claim_matches_mutex_def
        demo_mutex_claim_def claim_from_lease_claim_def demo_mutex_def claim_of_row_def held_row_def
        wrap_coordination_def stop_heartbeat_loop_def combine_mutex_guard_stop_and_release_results_def drop_guard_def)
  from guarded_task_success_excludes [OF lease_inv_no_leases _ demo_claimed refl rtranclp.rtrancl_refl this]
  show ?thesis by (auto simp: demo_call_def demo_mutex_def)
qed

theorem failing_heartbeat_is_lost_witness:
  "leadership_lost (heartbeat_turns demo_resolved (replicate 3
      (demo_call\<lparr>call_env := calm_pool\<lparr>env_begin := Some (SqlxDatabase None)\<rparr>\<rparr>, no_leases) @ [])
     (guard_from_claim demo_mutex demo_mutex_claim))"
proof -
  have "\<not> renewal_succeeds demo_mutex demo_mutex_claim
     (demo_call\<lparr>call_env := calm_pool\<lparr>env_begin := Some (SqlxDatabase None)\<rparr>\<rparr>, no_leases)"
    by (simp add: renewal_succeeds_def try_renew_manual_renewal_claim_def require_claim_matches_mutex_def
        demo_mutex_claim_def claim_from_lease_claim_def demo_mutex_def claim_of_row_def try_renew_lease_def
        pool_write_def calm_pool_def demo_call_def wrap_claim_def)
  then show ?thesis
    using failing_heartbeat_is_lost [of "guard_from_claim demo_mutex demo_mutex_claim" demo_mutex_claim
        "replicate 3 (demo_call\<lparr>call_env := calm_pool\<lparr>env_begin := Some (SqlxDatabase None)\<rparr>\<rparr>, no_leases)"
        demo_resolved "[]"]
    by (simp add: guard_from_claim_def demo_resolved_def u32_max_def)
qed

end
