(* ===== verification/Semaphore.thy ===== *)
theory Semaphore
  imports FleetKeys Mutex
begin

text \<open>
  \<open>src/src/db/fleet/semaphore.rs\<close> and \<open>semaphore_model.rs\<close>, and \<open>Store::new_semaphore\<close>: a bounded number
  of holders. The slots of a semaphore are the keys \<open>"1"\<close> to \<open>"n"\<close> of a plain item; a live slot holds the
  identifier of its holder.

  \<open>base\<close> is the serializer of the slots. A call meets a \<open>pool_env\<close>, a \<open>slot_env\<close> when it acquires and an
  \<open>atomic_env\<close> when it releases. The guard's pool and runtime are left out; the release it spawns when it
  is dropped is the step \<open>drop_semaphore_guard\<close>.
\<close>

section \<open>Handles\<close>

definition FLEET_MAX_CONCURRENT_LIMIT :: nat where "FLEET_MAX_CONCURRENT_LIMIT = 100"

record semaphore_slot =
  slot_holder_id :: string

record 'c semaphore =
  semaphore_key :: string
  semaphore_max_concurrent :: nat
  max_hold_ttl :: ttl
  slot_suffixes :: "string list"
  slots_item :: "(semaphore_slot, unit, 'c) item"

record semaphore_claim =
  claim_semaphore_key :: string
  claim_slot_suffix :: string
  claim_slot_holder_id :: string

record semaphore_status =
  current_count :: nat
  max_count :: nat

datatype ('c, 'v, 'e) semaphore_guarded_task_result =
    SemaphoreTaskSucceeded 'v "'c fleet_error + bool"
  | SemaphoreTaskFailed 'e "'c fleet_error + bool"

datatype ('c, 'v, 'e) semaphore_try_run_task_result =
    SemaphoreRan "('c, 'v, 'e) semaphore_guarded_task_result"
  | NoSlotAvailable

definition new_semaphore ::
    "(semaphore_slot, unit, 'c) item \<Rightarrow> string \<Rightarrow> string \<Rightarrow> nat \<Rightarrow> nanos \<Rightarrow> 'c fleet_error + 'c semaphore" where
  "new_semaphore base root_key key max_concurrent max_hold_duration =
     (if max_concurrent = 0 \<or> max_concurrent > FLEET_MAX_CONCURRENT_LIMIT
      then Inl (FleetThrottleError (FleetInvalidSemaphoreMaxConcurrent max_concurrent FLEET_MAX_CONCURRENT_LIMIT))
      else
        result_bind (map_sum (\<lambda>e. FleetThrottleError (FleetInvalidSemaphoreMaxHoldDuration e)) id
          (ttl_expires_after max_hold_duration)) (\<lambda>ttl.
        result_bind (build_semaphore_slots_prefix root_key key) (\<lambda>key_prefix.
          Inr \<lparr>semaphore_key = key, semaphore_max_concurrent = max_concurrent, max_hold_ttl = ttl,
            slot_suffixes = map decimal_text [1..<Suc max_concurrent],
            slots_item = item_new_plain base key_prefix\<rparr>)))"

section \<open>Claims\<close>

definition require_claim_matches_semaphore :: "'c semaphore \<Rightarrow> semaphore_claim \<Rightarrow> 'c fleet_error + unit" where
  "require_claim_matches_semaphore sem c =
     (if claim_semaphore_key c \<noteq> semaphore_key sem
      then Inl (FleetThrottleError FleetSemaphoreClaimBelongsToDifferentSemaphore) else Inr ())"

definition semaphore_try_acquire_for_holder_in_current_transaction ::
    "'c semaphore \<Rightarrow> string \<Rightarrow> slot_env \<Rightarrow> string \<Rightarrow> kv_table tx
     \<Rightarrow> ('c fleet_error + semaphore_claim option) \<times> kv_table tx" where
  "semaphore_try_acquire_for_holder_in_current_transaction sem protocol senv holder tx =
     (case item_acquire_slot_in_current_transaction (slots_item sem) protocol senv (slot_suffixes sem)
         \<lparr>slot_holder_id = holder\<rparr> (max_hold_ttl sem) tx of
        (Inl e, tx) \<Rightarrow> (Inl (FleetKv e), tx)
      | (Inr acquired, tx) \<Rightarrow> (Inr (map_option (\<lambda>s. \<lparr>claim_semaphore_key = semaphore_key sem,
            claim_slot_suffix = s, claim_slot_holder_id = holder\<rparr>) acquired), tx))"

definition semaphore_try_acquire_for_holder ::
    "'c semaphore \<Rightarrow> string \<Rightarrow> pool_env \<Rightarrow> slot_env \<Rightarrow> string \<Rightarrow> kv_table
     \<Rightarrow> ('c fleet_error + semaphore_claim option) \<times> kv_table" where
  "semaphore_try_acquire_for_holder sem protocol env senv holder t =
     fleet_pool_write ''fleet.semaphore.acquire'' env
       (semaphore_try_acquire_for_holder_in_current_transaction sem protocol
          (senv\<lparr>slot_reply := env_reply env\<rparr>) holder) t"

definition semaphore_try_acquire ::
    "'c semaphore \<Rightarrow> string \<Rightarrow> 'c id_error + string \<Rightarrow> pool_env \<Rightarrow> slot_env \<Rightarrow> kv_table
     \<Rightarrow> ('c fleet_error + semaphore_claim option) \<times> kv_table" where
  "semaphore_try_acquire sem protocol new_id_text env senv t =
     (case generate_holder_id new_id_text of
        Inl e \<Rightarrow> (Inl e, t)
      | Inr holder \<Rightarrow> semaphore_try_acquire_for_holder sem protocol env senv holder t)"

definition semaphore_try_acquire_in_current_transaction ::
    "'c semaphore \<Rightarrow> string \<Rightarrow> 'c id_error + string \<Rightarrow> slot_env \<Rightarrow> kv_table tx
     \<Rightarrow> ('c fleet_error + semaphore_claim option) \<times> kv_table tx" where
  "semaphore_try_acquire_in_current_transaction sem protocol new_id_text senv tx =
     (case generate_holder_id new_id_text of
        Inl e \<Rightarrow> (Inl e, tx)
      | Inr holder \<Rightarrow> semaphore_try_acquire_for_holder_in_current_transaction sem protocol senv holder tx)"

text \<open>The closure reports through its variable \<open>released\<close>.\<close>

definition decide_semaphore_release ::
    "string \<Rightarrow> semaphore_slot item_atomic_live_current
     \<Rightarrow> 'c fleet_error + (semaphore_slot item_atomic_mutation \<times> bool)" where
  "decide_semaphore_release holder current =
     (if slot_holder_id (item_live current) = holder then Inr (DeleteItem, True) else Inr (KeepExistingItem, False))"

definition absent_is_false :: "'c fleet_error + bool \<Rightarrow> 'c fleet_error + bool" where
  "absent_is_false r = (case r of Inl (FleetKv KvKeyNotFound) \<Rightarrow> Inr False | _ \<Rightarrow> r)"

definition semaphore_release_in_current_transaction ::
    "'c semaphore \<Rightarrow> atomic_env \<Rightarrow> semaphore_claim \<Rightarrow> kv_table tx \<Rightarrow> ('c fleet_error + bool) \<times> kv_table tx" where
  "semaphore_release_in_current_transaction sem aenv c tx =
     (case require_claim_matches_semaphore sem c of
        Inl e \<Rightarrow> (Inl e, tx)
      | Inr _ \<Rightarrow>
          map_prod (\<lambda>r. absent_is_false (map_sum id snd r)) id
            (item_mutate_live_atomically_in_current_transaction FleetKv (slots_item sem) aenv
              [claim_slot_suffix c] (decide_semaphore_release (claim_slot_holder_id c)) tx))"

definition semaphore_release ::
    "'c semaphore \<Rightarrow> pool_env \<Rightarrow> atomic_env \<Rightarrow> semaphore_claim \<Rightarrow> kv_table \<Rightarrow> ('c fleet_error + bool) \<times> kv_table" where
  "semaphore_release sem env aenv c t =
     fleet_pool_write ''fleet.semaphore.release'' env
       (semaphore_release_in_current_transaction sem (aenv\<lparr>atomic_reply := env_reply env\<rparr>) c) t"

section \<open>Status and reset\<close>

definition semaphore_fetch_status ::
    "'c semaphore \<Rightarrow> string \<Rightarrow> pool_env \<Rightarrow> kv_table \<Rightarrow> 'c fleet_error + semaphore_status" where
  "semaphore_fetch_status sem protocol env t =
     map_sum FleetKv (\<lambda>n. \<lparr>current_count = n, max_count = semaphore_max_concurrent sem\<rparr>)
       (item_count (slots_item sem) protocol env t)"

definition semaphore_fetch_status_in_current_transaction ::
    "'c semaphore \<Rightarrow> string \<Rightarrow> admission_reply \<Rightarrow> micros \<Rightarrow> kv_table tx
     \<Rightarrow> ('c fleet_error + semaphore_status) \<times> kv_table tx" where
  "semaphore_fetch_status_in_current_transaction sem protocol reply now tx =
     map_prod (map_sum FleetKv (\<lambda>n. \<lparr>current_count = n, max_count = semaphore_max_concurrent sem\<rparr>)) id
       (item_count_in_current_transaction (slots_item sem) protocol reply now tx)"

definition semaphore_reset ::
    "'c semaphore \<Rightarrow> string \<Rightarrow> pool_env \<Rightarrow> admission_reply list \<Rightarrow> kv_table
     \<Rightarrow> (('c fleet_error + nat) \<times> kv_table) option" where
  "semaphore_reset sem protocol env replies t =
     map_option (map_prod (map_sum FleetKv id) id)
       (delete_entire_namespace_atomically (slots_item sem) protocol env replies t)"

definition semaphore_reset_in_current_transaction ::
    "'c semaphore \<Rightarrow> string \<Rightarrow> admission_reply list \<Rightarrow> kv_table tx
     \<Rightarrow> (('c fleet_error + nat) \<times> kv_table tx) option" where
  "semaphore_reset_in_current_transaction sem protocol replies tx =
     map_option (map_prod (map_sum FleetKv id) id)
       (delete_entire_namespace_in_current_transaction (slots_item sem) protocol replies tx)"

section \<open>Guards\<close>

record 'c semaphore_guard =
  guard_semaphore :: "'c semaphore"
  guard_claim :: "semaphore_claim option"

definition semaphore_guard_from_claim :: "'c semaphore \<Rightarrow> semaphore_claim \<Rightarrow> 'c semaphore_guard" where
  "semaphore_guard_from_claim sem c = \<lparr>guard_semaphore = sem, guard_claim = Some c\<rparr>"

definition semaphore_try_acquire_guard ::
    "'c semaphore \<Rightarrow> string \<Rightarrow> 'c id_error + string \<Rightarrow> pool_env \<Rightarrow> slot_env \<Rightarrow> kv_table
     \<Rightarrow> ('c fleet_error + 'c semaphore_guard option) \<times> kv_table" where
  "semaphore_try_acquire_guard sem protocol new_id_text env senv t =
     map_prod (map_sum id (map_option (semaphore_guard_from_claim sem))) id
       (semaphore_try_acquire sem protocol new_id_text env senv t)"

definition semaphore_try_acquire_guard_for_holder ::
    "'c semaphore \<Rightarrow> string \<Rightarrow> pool_env \<Rightarrow> slot_env \<Rightarrow> string \<Rightarrow> kv_table
     \<Rightarrow> ('c fleet_error + 'c semaphore_guard option) \<times> kv_table" where
  "semaphore_try_acquire_guard_for_holder sem protocol env senv holder t =
     map_prod (map_sum id (map_option (semaphore_guard_from_claim sem))) id
       (semaphore_try_acquire_for_holder sem protocol env senv holder t)"

text \<open>
  The waiting loop, one element of the list per attempt: the text of a fresh identifier, what the attempt
  meets, and what others do to the table while the loop sleeps after it. \<open>None\<close> is a loop still waiting
  when the list ends.
\<close>

type_synonym 'c semaphore_attempt =
  "('c id_error + string) \<times> pool_env \<times> slot_env \<times> (kv_table \<Rightarrow> kv_table)"

fun semaphore_acquire_guard_when_available ::
    "'c semaphore \<Rightarrow> string \<Rightarrow> 'c semaphore_attempt list \<Rightarrow> kv_table
     \<Rightarrow> (('c fleet_error + 'c semaphore_guard) \<times> kv_table) option" where
  "semaphore_acquire_guard_when_available sem protocol [] t = None"
| "semaphore_acquire_guard_when_available sem protocol ((new_id_text, env, senv, meanwhile) # rest) t =
     (case semaphore_try_acquire_guard sem protocol new_id_text env senv t of
        (Inl e, t) \<Rightarrow> Some (Inl e, t)
      | (Inr (Some g), t) \<Rightarrow> Some (Inr g, t)
      | (Inr None, t) \<Rightarrow> semaphore_acquire_guard_when_available sem protocol rest (meanwhile t))"

definition semaphore_release_live_claim ::
    "pool_env \<Rightarrow> atomic_env \<Rightarrow> 'c semaphore_guard \<Rightarrow> kv_table
     \<Rightarrow> ('c fleet_error + bool) \<times> 'c semaphore_guard \<times> kv_table" where
  "semaphore_release_live_claim env aenv g t =
     (case guard_claim g of
        None \<Rightarrow> (Inr False, g, t)
      | Some c \<Rightarrow>
          (case semaphore_release (guard_semaphore g) env aenv c t of
             (Inl e, t) \<Rightarrow> (Inl e, g, t)
           | (Inr b, t) \<Rightarrow> (Inr b, g\<lparr>guard_claim := None\<rparr>, t)))"

definition semaphore_guard_try_release ::
    "pool_env \<Rightarrow> atomic_env \<Rightarrow> 'c semaphore_guard \<Rightarrow> kv_table
     \<Rightarrow> ('c fleet_error + bool) \<times> 'c semaphore_guard \<times> kv_table" where
  "semaphore_guard_try_release env aenv g t = semaphore_release_live_claim env aenv g t"

text \<open>The release of a dropped guard; its result is ignored.\<close>

definition drop_semaphore_guard :: "pool_env \<Rightarrow> atomic_env \<Rightarrow> 'c semaphore_guard \<Rightarrow> kv_table \<Rightarrow> kv_table" where
  "drop_semaphore_guard env aenv g t =
     (case guard_claim g of
        None \<Rightarrow> t
      | Some c \<Rightarrow> snd (semaphore_release (guard_semaphore g) env aenv c t))"

text \<open>\<open>release\<close> consumes the guard: a claim that could not be released is released once more by the drop.\<close>

definition semaphore_guard_release ::
    "pool_env \<Rightarrow> atomic_env \<Rightarrow> pool_env \<Rightarrow> atomic_env \<Rightarrow> 'c semaphore_guard \<Rightarrow> kv_table
     \<Rightarrow> ('c fleet_error + bool) \<times> kv_table" where
  "semaphore_guard_release env aenv drop_env drop_aenv g t =
     (case semaphore_guard_try_release env aenv g t of
        (r, g, t) \<Rightarrow> (r, drop_semaphore_guard drop_env drop_aenv g t))"

text \<open>
  A task under a guard: it is a step of the table that returns a result. Running it with a guard that
  lost its claim is \<open>unreachable!\<close>, the \<open>None\<close> here.
\<close>

definition semaphore_guard_run_task ::
    "pool_env \<Rightarrow> atomic_env \<Rightarrow> pool_env \<Rightarrow> atomic_env \<Rightarrow> 'c semaphore_guard
     \<Rightarrow> (semaphore_claim \<Rightarrow> kv_table \<Rightarrow> ('e + 'v) \<times> kv_table) \<Rightarrow> kv_table
     \<Rightarrow> (('c, 'v, 'e) semaphore_guarded_task_result \<times> kv_table) option" where
  "semaphore_guard_run_task env aenv drop_env drop_aenv g task t =
     (case guard_claim g of
        None \<Rightarrow> None
      | Some c \<Rightarrow>
          let (result, t) = task c t;
              (release_result, g, t) = semaphore_release_live_claim env aenv g t;
              t = drop_semaphore_guard drop_env drop_aenv g t
          in Some (case result of
               Inr v \<Rightarrow> SemaphoreTaskSucceeded v release_result
             | Inl e \<Rightarrow> SemaphoreTaskFailed e release_result, t))"

definition semaphore_try_run_task ::
    "'c semaphore \<Rightarrow> string \<Rightarrow> 'c id_error + string \<Rightarrow> pool_env \<Rightarrow> slot_env
     \<Rightarrow> pool_env \<Rightarrow> atomic_env \<Rightarrow> pool_env \<Rightarrow> atomic_env
     \<Rightarrow> (semaphore_claim \<Rightarrow> kv_table \<Rightarrow> ('e + 'v) \<times> kv_table) \<Rightarrow> kv_table
     \<Rightarrow> (('c fleet_error + ('c, 'v, 'e) semaphore_try_run_task_result) \<times> kv_table) option" where
  "semaphore_try_run_task sem protocol new_id_text acquire_env senv env aenv drop_env drop_aenv task t =
     (case semaphore_try_acquire_guard sem protocol new_id_text acquire_env senv t of
        (Inl e, t) \<Rightarrow> Some (Inl e, t)
      | (Inr None, t) \<Rightarrow> Some (Inr NoSlotAvailable, t)
      | (Inr (Some g), t) \<Rightarrow> map_option (map_prod (\<lambda>r. Inr (SemaphoreRan r)) id)
          (semaphore_guard_run_task env aenv drop_env drop_aenv g task t))"

definition semaphore_run_task_when_available ::
    "'c semaphore \<Rightarrow> string \<Rightarrow> 'c semaphore_attempt list
     \<Rightarrow> pool_env \<Rightarrow> atomic_env \<Rightarrow> pool_env \<Rightarrow> atomic_env
     \<Rightarrow> (semaphore_claim \<Rightarrow> kv_table \<Rightarrow> ('e + 'v) \<times> kv_table) \<Rightarrow> kv_table
     \<Rightarrow> (('c fleet_error + ('c, 'v, 'e) semaphore_guarded_task_result) \<times> kv_table) option" where
  "semaphore_run_task_when_available sem protocol attempts env aenv drop_env drop_aenv task t =
     (case semaphore_acquire_guard_when_available sem protocol attempts t of
        None \<Rightarrow> None
      | Some (Inl e, t) \<Rightarrow> Some (Inl e, t)
      | Some (Inr g, t) \<Rightarrow> map_option (map_prod Inr id)
          (semaphore_guard_run_task env aenv drop_env drop_aenv g task t))"

section \<open>What the operations do to the slots\<close>

definition slot_key :: "'c semaphore \<Rightarrow> string \<Rightarrow> string \<Rightarrow> bool" where
  "slot_key sem s k \<longleftrightarrow> item_key_from_parts (slots_item sem) [s] = (Inr k :: 'c kv_error + string)"

text \<open>A handle of \<open>new_semaphore\<close> with a serializer that reads back what it wrote.\<close>

definition well_made :: "'c semaphore \<Rightarrow> bool" where
  "well_made sem \<longleftrightarrow> item_codec (slots_item sem) = Plain \<and> faithful (slots_item sem)
     \<and> (\<exists>d. max_hold_ttl sem = Ttl (Some d)) \<and> length (slot_suffixes sem) = semaphore_max_concurrent sem"

definition hold_time :: "'c semaphore \<Rightarrow> int" where
  "hold_time sem = (case max_hold_ttl sem of Ttl (Some d) \<Rightarrow> ttl_micros d | _ \<Rightarrow> 0)"

lemma new_semaphore_well_made:
  "new_semaphore base root key n d = Inr sem \<Longrightarrow> faithful base \<Longrightarrow>
     well_made sem \<and> semaphore_max_concurrent sem = n \<and> hold_time sem = ttl_micros d"
  by (auto simp: new_semaphore_def well_made_def hold_time_def result_bind_eq_Inr_iff map_sum_eq_Inr_iff
      ttl_expires_after_ok split: if_splits)

text \<open>The server picks one of the candidate rows, and the second statement of an acquisition is not before the first.\<close>

definition sane_slot_env :: "slot_env \<Rightarrow> bool" where
  "sane_slot_env env \<longleftrightarrow> slot_now env \<le> slot_acquire_now env \<and> (\<forall>ks. ks \<noteq> [] \<longrightarrow> slot_pick env ks \<in> set ks)"

lemma sane_slot_env_reply [simp]: "sane_slot_env (env\<lparr>slot_reply := r\<rparr>) = sane_slot_env env"
  by (simp add: sane_slot_env_def)

lemma semaphore_acquire_frame:
  assumes well: "well_made sem" and sane: "sane_slot_env senv"
    and k: "live_row (slot_acquire_now senv) t k \<noteq> None \<or> (\<forall>s \<in> set (slot_suffixes sem). \<not> slot_key sem s k)"
  shows "snd (semaphore_try_acquire_for_holder sem p env senv holder t) k = t k"
proof -
  let ?senv = "senv\<lparr>slot_reply := env_reply env\<rparr>"
  let ?body = "semaphore_try_acquire_for_holder_in_current_transaction sem p ?senv holder"
  have "tables tx' k = t k" if run: "?body (begin_transaction t) = (Inr v, tx')" for v tx'
  proof -
    obtain r where "item_acquire_slot_in_current_transaction (slots_item sem) p ?senv (slot_suffixes sem)
        \<lparr>slot_holder_id = holder\<rparr> (max_hold_ttl sem) (begin_transaction t) = (r :: 'a kv_error + _, tx')"
      using run by (auto simp: semaphore_try_acquire_for_holder_in_current_transaction_def split: sum.splits prod.splits)
    from plain_slot_frame [OF _ this] show ?thesis
      using well sane k by (simp add: well_made_def sane_slot_env_def slot_key_def begin_transaction_def)
  qed
  then show ?thesis
    using fleet_pool_write_cases [of "''fleet.semaphore.acquire''" env ?body t]
    by (auto simp: semaphore_try_acquire_for_holder_def)
qed

lemma semaphore_acquire_Some:
  assumes well: "well_made sem" and sane: "sane_slot_env senv"
    and run: "semaphore_try_acquire_for_holder sem p env senv holder t = (Inr (Some c), t')"
  shows "claim_semaphore_key c = semaphore_key sem \<and> claim_slot_holder_id c = holder
    \<and> claim_slot_suffix c \<in> set (slot_suffixes sem)
    \<and> (\<exists>k. slot_key sem (claim_slot_suffix c) k \<and> live_row (slot_acquire_now senv) t k = None
      \<and> (\<forall>later < slot_acquire_now senv + hold_time sem.
          item_at (slots_item sem) k later t' = Some (Inr \<lparr>slot_holder_id = holder\<rparr>)))"
proof -
  let ?senv = "senv\<lparr>slot_reply := env_reply env\<rparr>"
  obtain tx' where body: "semaphore_try_acquire_for_holder_in_current_transaction sem p ?senv holder
      (begin_transaction t) = (Inr (Some c), tx')" and t': "t' = tables tx'"
    using fleet_pool_write_ok [OF run [unfolded semaphore_try_acquire_for_holder_def]] by blast
  obtain d where d: "max_hold_ttl sem = Ttl (Some d)" using well by (auto simp: well_made_def)
  obtain s where run': "item_acquire_slot_in_current_transaction (slots_item sem) p ?senv (slot_suffixes sem)
      \<lparr>slot_holder_id = holder\<rparr> (Ttl (Some d)) (begin_transaction t) = (Inr (Some s) :: 'a kv_error + _, tx')"
    and c: "c = \<lparr>claim_semaphore_key = semaphore_key sem, claim_slot_suffix = s, claim_slot_holder_id = holder\<rparr>"
    using body d by (auto simp: semaphore_try_acquire_for_holder_in_current_transaction_def split: sum.splits prod.splits)
  have "slot_now ?senv \<le> slot_acquire_now ?senv" "\<And>ks. ks \<noteq> [] \<Longrightarrow> slot_pick ?senv ks \<in> set ks"
    using sane by (simp_all add: sane_slot_env_def)
  from item_slot_acquired [OF _ _ run' this] show ?thesis
    using well by (auto simp: well_made_def c t' d hold_time_def slot_key_def begin_transaction_def)
qed

text \<open>A release deletes the slot of its claim while the claim's holder is in it, and does nothing else.\<close>

lemma never_sets_release: "never_sets (decide_semaphore_release holder)"
  by (simp add: never_sets_def decide_semaphore_release_def)

lemma semaphore_release_effect:
  "snd (semaphore_release sem env aenv c t) = t
   \<or> (\<exists>k lock_now v. slot_key sem (claim_slot_suffix c) k
      \<and> lock_time (aenv\<lparr>atomic_reply := env_reply env\<rparr>) k t = Some lock_now
      \<and> item_at (slots_item sem) k lock_now t = Some (Inr v) \<and> slot_holder_id v = claim_slot_holder_id c
      \<and> snd (semaphore_release sem env aenv c t) = t(k := None))"
proof -
  let ?aenv = "aenv\<lparr>atomic_reply := env_reply env\<rparr>"
  let ?decide = "decide_semaphore_release (claim_slot_holder_id c)"
  have "tables tx' = t \<or> (\<exists>k lock_now v. slot_key sem (claim_slot_suffix c) k \<and> lock_time ?aenv k t = Some lock_now
      \<and> item_at (slots_item sem) k lock_now t = Some (Inr v) \<and> slot_holder_id v = claim_slot_holder_id c
      \<and> tables tx' = t(k := None))"
    if run: "semaphore_release_in_current_transaction sem ?aenv c (begin_transaction t) = (Inr b, tx')" for b tx'
  proof -
    obtain r where mut: "mutate_live_item_in_transaction_internal FleetKv (slots_item sem) ?aenv [claim_slot_suffix c]
        ?decide True (begin_transaction t) = (r, tx')"
      using run by (auto simp: semaphore_release_in_current_transaction_def require_claim_matches_semaphore_def
          item_mutate_live_atomically_in_current_transaction_def map_prod_def split: sum.splits if_splits prod.splits)
    show ?thesis
    proof (cases r)
      case (Inl e)
      have "tables tx' = tables (begin_transaction t)"
        by (rule live_item_error_keeps [OF mut [unfolded Inl] never_sets_release])
      then show ?thesis by (simp add: begin_transaction_def)
    next
      case (Inr x)
      obtain res released where "x = (res, released)" by (cases x)
      then have mut': "mutate_live_item_in_transaction_internal FleetKv (slots_item sem) ?aenv [claim_slot_suffix c]
        ?decide True (begin_transaction t) = (Inr (res, released), tx')" using mut Inr by simp
      show ?thesis using live_item_success [OF mut']
        by (auto simp: slot_key_def begin_transaction_def decide_semaphore_release_def item_effect_def split: if_splits)
    qed
  qed
  note effect = this
  let ?op = "''fleet.semaphore.release''" and ?body = "semaphore_release_in_current_transaction sem ?aenv c"
  consider "snd (fleet_pool_write ?op env ?body t) = t"
    | b tx' where "?body (begin_transaction t) = (Inr b, tx')" "snd (fleet_pool_write ?op env ?body t) = tables tx'"
    using fleet_pool_write_cases [of ?op env ?body t]
    by (elim disjE exE conjE) (erule that(1), erule that(2), assumption)
  then show ?thesis
  proof cases
    case 2
    from effect [OF 2(1)] show ?thesis unfolding semaphore_release_def 2(2) .
  qed (simp add: semaphore_release_def)
qed

section \<open>Exclusion\<close>

lemma slot_key_value: "slot_key sem s k \<Longrightarrow> k = item_prefix (slots_item sem) @ s @ ''::''"
  by (auto simp: slot_key_def item_key_from_parts_def kv_build_key_from_prefix_and_parts_def KV_KEY_SEPARATOR_def
      result_bind_eq_Inr_iff Let_def)

lemma item_at_row: "t' k = t k \<Longrightarrow> item_at it k now t' = item_at it k now t"
  by (simp add: item_at_def get_bytes_statement_def live_row_def)

lemma item_at_value: "item_at it k now t = Some x \<Longrightarrow> item_at it k now' t = Some y \<Longrightarrow> x = y"
  by (auto simp: item_at_def get_bytes_statement_def live_row_def split: option.splits if_splits)

lemma item_at_live: "item_at it k now t = Some x \<Longrightarrow> live_row now t k \<noteq> None"
  by (auto simp: item_at_def get_bytes_statement_def)

text \<open>
  What may happen while the claim \<open>c\<close> runs, until the moment \<open>until\<close>: acquisitions by any process, under any
  identifier and with any outcome of their transactions; releases of other claims; and whatever else
  keeps the live rows of the namespace, such as every operation of another primitive and the
  deletion of expired rows.
\<close>

inductive semaphore_step :: "'c semaphore \<Rightarrow> semaphore_claim \<Rightarrow> micros \<Rightarrow> kv_table \<Rightarrow> kv_table \<Rightarrow> bool"
  for sem c until_time where
  acquires: "sane_slot_env senv \<Longrightarrow> slot_acquire_now senv < until_time \<Longrightarrow>
    semaphore_step sem c until_time t (snd (semaphore_try_acquire_for_holder sem p env senv holder t))"
| releases: "claim_slot_suffix c' \<noteq> claim_slot_suffix c \<or> claim_slot_holder_id c' \<noteq> claim_slot_holder_id c \<Longrightarrow>
    semaphore_step sem c until_time t (snd (semaphore_release sem env aenv c' t))"
| elsewhere: "now < until_time \<Longrightarrow>
    (\<forall>k. prefix_contains_key (item_prefix (slots_item sem)) k \<longrightarrow> live_row now t k \<noteq> None \<longrightarrow> t' k = t k) \<Longrightarrow>
    semaphore_step sem c until_time t t'"

definition holds_slot :: "'c semaphore \<Rightarrow> semaphore_claim \<Rightarrow> micros \<Rightarrow> string \<Rightarrow> kv_table \<Rightarrow> bool" where
  "holds_slot sem c until_time k t \<longleftrightarrow> slot_key sem (claim_slot_suffix c) k
     \<and> (\<forall>now < until_time. item_at (slots_item sem) k now t = Some (Inr \<lparr>slot_holder_id = claim_slot_holder_id c\<rparr>))"

lemma semaphore_step_holds:
  assumes well: "well_made sem" and "semaphore_step sem c until_time t t'" and "holds_slot sem c until_time k t"
  shows "holds_slot sem c until_time k t'"
proof -
  have key: "slot_key sem (claim_slot_suffix c) k"
    and at: "\<And>now. now < until_time \<Longrightarrow> item_at (slots_item sem) k now t = Some (Inr \<lparr>slot_holder_id = claim_slot_holder_id c\<rparr>)"
    using assms(3) by (simp_all add: holds_slot_def)
  from assms(2) have "t' k = t k"
  proof cases
    case (acquires senv p env holder)
    from item_at_live [OF at [OF acquires(3)]]
    show ?thesis unfolding acquires(1) by (intro semaphore_acquire_frame [OF well acquires(2)] disjI1)
  next
    case (releases c' env aenv)
    show ?thesis unfolding releases(1)
    proof (rule ccontr)
      assume "snd (semaphore_release sem env aenv c' t) k \<noteq> t k"
      then obtain lock_now v where "slot_key sem (claim_slot_suffix c') k"
        and v: "item_at (slots_item sem) k lock_now t = Some (Inr v)" "slot_holder_id v = claim_slot_holder_id c'"
        using semaphore_release_effect [of sem env aenv c' t] by (auto split: if_splits)
      then have "claim_slot_suffix c' = claim_slot_suffix c"
        using slot_key_value [OF key] slot_key_value by fastforce
      moreover have "Inr v = (Inr \<lparr>slot_holder_id = claim_slot_holder_id c\<rparr> :: 'a kv_error + _)"
        using item_at_value [OF v(1) at [of "until_time - 1"]] by simp
      ultimately show False using releases(2) v(2) by auto
    qed
  next
    case (elsewhere now)
    have "prefix_contains_key (item_prefix (slots_item sem)) k"
      using slot_key_value [OF key] by (simp add: prefix_contains_key_def)
    then show ?thesis using elsewhere(2) item_at_live [OF at [OF elsewhere(1)]] by blast
  qed
  then show ?thesis using key at by (simp add: holds_slot_def item_at_row [of t' k t])
qed

lemma semaphore_run_holds:
  assumes "(semaphore_step sem c until_time)\<^sup>*\<^sup>* t t'" and "well_made sem" and "holds_slot sem c until_time k t"
  shows "holds_slot sem c until_time k t'"
  using assms by (induction rule: rtranclp_induct) (auto intro: semaphore_step_holds)

text \<open>C13: A semaphore claim is exclusive for its whole hold time, unless the semaphore is reset. From the moment
  a slot is granted until the time to live has passed or its own holder releases it, the slot stays under the
  holder's identifier whatever other processes acquire, release or clean up, and no acquisition in that time,
  under any identifier, is granted the same slot again. A reset deletes the live slots too and ends the promise:
  it is not among the steps of these runs.\<close>

theorem semaphore_claim_is_exclusive:
  fixes sem :: "'c semaphore"
  assumes well: "well_made sem" and sane: "sane_slot_env senv"
    and granted: "semaphore_try_acquire_for_holder sem p env senv holder t = (Inr (Some c), t1)"
    and run: "(semaphore_step sem c (slot_acquire_now senv + hold_time sem))\<^sup>*\<^sup>* t1 t2"
    and "sane_slot_env senv'" and "slot_acquire_now senv' < slot_acquire_now senv + hold_time sem"
    and again: "semaphore_try_acquire_for_holder sem p' env' senv' holder' t2 = (Inr (Some c'), t3)"
  shows "claim_slot_suffix c' \<noteq> claim_slot_suffix c
    \<and> (\<exists>k. holds_slot sem c (slot_acquire_now senv + hold_time sem) k t3)"
proof -
  let ?until = "slot_acquire_now senv + hold_time sem"
  obtain k where "slot_key sem (claim_slot_suffix c) k" "holds_slot sem c ?until k t1"
    using semaphore_acquire_Some [OF well sane granted] by (auto simp: holds_slot_def)
  then have holds: "holds_slot sem c ?until k t2" using semaphore_run_holds [OF run well] by blast
  have "semaphore_step sem c ?until t2 t3"
    using semaphore_step.acquires [of senv' ?until sem c t2 p' env' holder'] assms(5,6) again by simp
  then have "holds_slot sem c ?until k t3" by (rule semaphore_step_holds [OF well _ holds])
  moreover have "claim_slot_suffix c' \<noteq> claim_slot_suffix c"
  proof
    assume same: "claim_slot_suffix c' = claim_slot_suffix c"
    obtain k' where "slot_key sem (claim_slot_suffix c') k'" and free: "live_row (slot_acquire_now senv') t2 k' = None"
      using semaphore_acquire_Some [OF well assms(5) again] by blast
    moreover have "slot_key sem (claim_slot_suffix c) k" using holds by (simp add: holds_slot_def)
    ultimately have "k' = k" using slot_key_value same by metis
    then show False using free holds item_at_live assms(6) by (metis holds_slot_def)
  qed
  ultimately show ?thesis by blast
qed

section \<open>The bound\<close>

text \<open>Everything a semaphore does, and everything else that adds no row under its prefix.\<close>

inductive semaphore_change :: "'c semaphore \<Rightarrow> kv_table \<Rightarrow> kv_table \<Rightarrow> bool" for sem where
  change_acquires: "sane_slot_env senv \<Longrightarrow>
    semaphore_change sem t (snd (semaphore_try_acquire_for_holder sem p env senv holder t))"
| change_releases: "semaphore_change sem t (snd (semaphore_release sem env aenv c t))"
| change_resets: "semaphore_reset sem p env replies t = Some (r, t') \<Longrightarrow> semaphore_change sem t t'"
| change_elsewhere: "(\<forall>k. prefix_contains_key (item_prefix (slots_item sem)) k \<longrightarrow> t' k = t k \<or> t' k = None) \<Longrightarrow>
    semaphore_change sem t t'"

definition only_slots :: "'c semaphore \<Rightarrow> kv_table \<Rightarrow> bool" where
  "only_slots sem t \<longleftrightarrow> (\<forall>k. prefix_contains_key (item_prefix (slots_item sem)) k \<longrightarrow> t k \<noteq> None \<longrightarrow>
     (\<exists>s \<in> set (slot_suffixes sem). slot_key sem s k))"

lemma delete_namespace_loop_restricts:
  "delete_namespace_loop (it :: ('v, 'k, 'c) item) p replies n tx = Some (r, tx') \<Longrightarrow> \<exists>A. tables tx' = tables tx |` A"
proof (induction it p replies n tx arbitrary: r tx' rule: delete_namespace_loop.induct)
  case (2 it p reply rest n tx)
  obtain d tx1 where once: "delete_namespace_keys_with_prefix_once_in_current_transaction p reply (item_prefix it)
      MAX_KV_DELETE_BATCH_SIZE tx = (d :: 'c kv_error + nat, tx1)" by fastforce
  have "\<exists>A. tables tx1 = tables tx |` A"
  proof (cases "kv_validate_delete_batch_size MAX_KV_DELETE_BATCH_SIZE :: 'c kv_error + unit")
    case (Inr u)
    have "tables tx1 = tables tx \<or> tables tx1 = snd (delete_keys_with_prefix_once_statement {}
        (prefix_like_pattern (item_prefix it)) MAX_KV_DELETE_BATCH_SIZE (tables tx))"
      using once Inr admit_tables [of p reply tx]
      by (cases "admit p reply tx")
        (auto simp: delete_namespace_keys_with_prefix_once_in_current_transaction_def admitted_def Let_def
          split: sum.splits prod.splits)
    then show ?thesis using delete_prefix_shape restrict_UNIV by metis
  qed (use once restrict_UNIV in \<open>auto simp: delete_namespace_keys_with_prefix_once_in_current_transaction_def\<close>)
  then obtain A where A: "tables tx1 = tables tx |` A" by blast
  consider "tx' = tx1" | m where "d = Inr m" "\<not> m < MAX_KV_DELETE_BATCH_SIZE"
      "delete_namespace_loop it p rest (n + m) tx1 = Some (r, tx')"
    using "2.prems" once by (auto split: sum.splits if_splits)
  then show ?case
  proof cases
    case 1
    then show ?thesis using A by blast
  next
    case 2
    from "2.IH" [OF once [symmetric] _ 2(2,3)] 2(1) obtain B where "tables tx' = tables tx1 |` B" by auto
    then show ?thesis using A by auto
  qed
qed simp


lemma semaphore_reset_restricts:
  assumes "semaphore_reset sem p env replies t = Some (r, t')"
  shows "t' k = t k \<or> t' k = None"
proof -
  obtain r' where run: "delete_entire_namespace_atomically (slots_item sem) p env replies t = Some (r', t')"
    using assms by (auto simp: semaphore_reset_def)
  show ?thesis
  proof (cases "env_begin env")
    case None
    then obtain x tx' where loop: "delete_namespace_loop (slots_item sem) p replies 0 (begin_transaction t) = Some (x, tx')"
      and t': "t' = snd (kv_pool_write ''kv.item.delete_entire_namespace_atomically'' env (\<lambda>_. (x, tx')) t)"
      using run by (auto simp: delete_entire_namespace_atomically_def delete_entire_namespace_in_current_transaction_def
          dest: arg_cong [of _ _ snd])
    have "t' = t \<or> t' = tables tx'"
      unfolding t' kv_pool_write_def pool_write_def finish_write_transaction_def None
      by (auto split: sum.splits commit_outcome.splits rollback_outcome.splits)
    then show ?thesis using delete_namespace_loop_restricts [OF loop] by (auto simp: begin_transaction_def restrict_map_def split: if_splits)
  qed (use run in \<open>auto simp: delete_entire_namespace_atomically_def kv_pool_write_def pool_write_def\<close>)
qed

lemma semaphore_change_only_slots:
  assumes "semaphore_change sem t t'" and "well_made sem" and "only_slots sem t"
  shows "only_slots sem t'"
proof -
  have "t' k = t k \<or> t' k = None \<or> (\<exists>s \<in> set (slot_suffixes sem). slot_key sem s k)"
    if "prefix_contains_key (item_prefix (slots_item sem)) k" for k
    using assms(1)
  proof cases
    case (change_acquires senv p env holder)
    then show ?thesis using semaphore_acquire_frame [OF assms(2) change_acquires(2)] by blast
  next
    case (change_releases env aenv c)
    then show ?thesis using semaphore_release_effect [of sem env aenv c t] by auto
  next
    case (change_resets p env replies r)
    then show ?thesis using semaphore_reset_restricts by blast
  qed (use that in blast)
  then show ?thesis using assms(3) unfolding only_slots_def by metis
qed

lemma only_slots_bound:
  assumes "only_slots sem t" and "well_made sem"
  shows "count_live_keys_with_prefix_statement now (prefix_like_pattern (item_prefix (slots_item sem))) t
    \<le> semaphore_max_concurrent sem"
proof -
  let ?live = "{k \<in> dom t. like_match (prefix_like_pattern (item_prefix (slots_item sem))) k \<and> live_row now t k \<noteq> None}"
  let ?key = "\<lambda>s. item_prefix (slots_item sem) @ s @ ''::''"
  have "?live \<subseteq> ?key ` set (slot_suffixes sem)"
    using assms(1) slot_key_value by (fastforce simp: only_slots_def prefix_contains_key_def)
  then have "card ?live \<le> card (?key ` set (slot_suffixes sem))" by (intro card_mono) simp_all
  also have "\<dots> \<le> length (slot_suffixes sem)" by (metis card_image_le card_length le_trans finite_set)
  finally show ?thesis using assms(2) by (simp add: count_live_keys_with_prefix_statement_def well_made_def)
qed

text \<open>A semaphore never has more live slots than its limit: from a table without rows under its prefix, in
  every run of acquisitions, releases and resets by any number of processes, whatever the commits of
  their transactions came to, every status reports at most \<open>max_concurrent\<close> holders.\<close>

theorem semaphore_never_exceeds_limit:
  fixes sem :: "'c semaphore"
  assumes "new_semaphore base root key n d = Inr sem" and "faithful base"
    and "(semaphore_change sem)\<^sup>*\<^sup>* t t'"
    and "\<forall>k. prefix_contains_key (item_prefix (slots_item sem)) k \<longrightarrow> t k = None"
    and "semaphore_fetch_status sem p env t' = Inr status"
  shows "current_count status \<le> n \<and> max_count status = n"
proof -
  have well: "well_made sem" "semaphore_max_concurrent sem = n"
    using new_semaphore_well_made [OF assms(1,2)] by simp_all
  have "only_slots sem t" using assms(4) by (auto simp: only_slots_def)
  with assms(3) have "only_slots sem t'"
    by (induction rule: rtranclp_induct) (use semaphore_change_only_slots well in blast)+
  note bound = only_slots_bound [OF this well(1)]
  obtain m where m: "item_count (slots_item sem) p env t' = (Inr m :: 'c kv_error + nat)"
    and status: "status = \<lparr>current_count = m, max_count = n\<rparr>"
    using assms(5) well(2) by (auto simp: semaphore_fetch_status_def map_sum_eq_Inr_iff)
  have "fst (admitted p (env_reply env) KvDatabase (\<lambda>t. (count_live_keys_with_prefix_with_executor (env_now env)
      (item_prefix (slots_item sem)) t, t)) (begin_transaction t')) = (Inr m :: 'c kv_error + nat)"
    using m by (auto simp: item_count_def count_live_keys_with_prefix_def kv_pool_read_def pool_read_def
        finish_rollback_only_transaction_def count_live_keys_with_prefix_in_current_transaction_def
        split: option.splits sum.splits rollback_outcome.splits)
  from admitted_Inr(2) [OF this] have "m = count_live_keys_with_prefix_statement (env_now env)
      (prefix_like_pattern (item_prefix (slots_item sem))) t'"
    by (simp add: count_live_keys_with_prefix_with_executor_def begin_transaction_def)
  then have "current_count status = count_live_keys_with_prefix_statement (env_now env)
      (prefix_like_pattern (item_prefix (slots_item sem))) t' \<and> max_count status = n"
    using status by simp
  then show ?thesis using bound well(2) by auto
qed

section \<open>Concrete runs\<close>

definition demo_slots :: "(semaphore_slot, unit, unit) item" where
  "demo_slots = \<lparr>item_prefix = [], item_codec = Plain,
     to_plaintext_bytes = (\<lambda>s. if slot_holder_id s = ''g'' then Inr [1] else if slot_holder_id s = ''h'' then Inr [2] else Inl ()),
     from_plaintext_bytes = (\<lambda>bs. Inr \<lparr>slot_holder_id = (if bs = [1] then ''g'' else ''h'')\<rparr>),
     seal = (\<lambda>_ p _. Inr p), unseal = (\<lambda>_ b _. Inr b)\<rparr>"

definition demo_semaphore :: "unit semaphore" where
  "demo_semaphore = \<lparr>semaphore_key = ''k'', semaphore_max_concurrent = 2, max_hold_ttl = Ttl (Some 2000000000),
     slot_suffixes = [''1'', ''2''], slots_item = item_new_plain demo_slots ''r::semaphore::slots::k::''\<rparr>"

definition demo_slot_env :: "micros \<Rightarrow> slot_env" where
  "demo_slot_env n = \<lparr>slot_reply = supported_reply, slot_now = n, slot_acquire_now = n, slot_locked = {},
     slot_pick = hd, slot_write_now = n\<rparr>"

definition demo_env :: pool_env where
  "demo_env = \<lparr>env_begin = None, env_reply = supported_reply, env_now = 0, env_commit = Committed, env_rollback = RolledBack\<rparr>"

definition demo_row :: "bytes \<Rightarrow> micros \<Rightarrow> kv_row" where
  "demo_row bs n = \<lparr>kv_value = bs, kv_expires_at = Some (n + 2000000), kv_updated_at = n\<rparr>"

lemma demo_slots_faithful: "faithful demo_slots"
  by (auto simp: faithful_def demo_slots_def split: if_splits)

lemma demo_suffixes: "map decimal_text [Suc 0..<3] = [''1'', ''2'']"
  by code_simp

lemma demo_semaphore_new: "new_semaphore demo_slots ''r'' ''k'' 2 2000000000 = Inr demo_semaphore"
  by (simp add: new_semaphore_def FLEET_MAX_CONCURRENT_LIMIT_def ttl_expires_after_def MIN_KV_TTL_def kv_rounded
      result_bind_def ttl_micros_def i64_max_def build_semaphore_slots_prefix_def component_key_defs kv_build_key_from_parts_def
      kv_validate_key_part_def kv_validate_key_length_def KV_KEY_SEPARATOR_def MAX_KV_KEY_BYTES_def demo_semaphore_def
      demo_suffixes del: upt_Suc)

lemma demo_well_made: "well_made demo_semaphore" "hold_time demo_semaphore = 2000000"
  using new_semaphore_well_made [OF demo_semaphore_new demo_slots_faithful] by (simp_all add: ttl_micros_def)

lemma demo_sane: "sane_slot_env (demo_slot_env n)"
  by (simp add: sane_slot_env_def demo_slot_env_def)

lemma demo_prepared:
  "prepare_slot_candidate_keys (slots_item demo_semaphore) [''1'', ''2''] = Inr
     \<lparr>slot_keys = [''r::semaphore::slots::k::1::'', ''r::semaphore::slots::k::2::''],
      key_to_suffix = [''r::semaphore::slots::k::1::'' \<mapsto> ''1'', ''r::semaphore::slots::k::2::'' \<mapsto> ''2'']\<rparr>"
  by (simp add: prepare_slot_candidate_keys_def kv_validate_acquire_slot_candidate_count_def MAX_KV_ACQUIRE_SLOT_CANDIDATES_def
      result_bind_def demo_semaphore_def item_key_from_parts_def kv_build_key_from_prefix_and_parts_def kv_validate_key_part_def
      kv_validate_key_length_def KV_KEY_SEPARATOR_def MAX_KV_KEY_BYTES_def)

abbreviation demo_k1 :: string where "demo_k1 \<equiv> ''r::semaphore::slots::k::1::''"
abbreviation demo_k2 :: string where "demo_k2 \<equiv> ''r::semaphore::slots::k::2::''"

definition demo_table :: kv_table where
  "demo_table = [demo_k2 \<mapsto> \<lparr>kv_value = [], kv_expires_at = Some (5 - 1000000), kv_updated_at = 5\<rparr>, demo_k1 \<mapsto> demo_row [1] 5]"

lemmas demo_run_defs = semaphore_try_acquire_for_holder_def fleet_pool_write_def pool_write_def finish_write_transaction_def
  semaphore_try_acquire_for_holder_in_current_transaction_def item_acquire_slot_in_current_transaction_def
  acquire_prepared_slot_in_current_transaction_def with_codec_def plain_encode_any_key
  encode_plain_value_def demo_slots_def item_new_plain_def positive_expiring_ttl_microseconds_def ttl_positive_microseconds_def
  kv_rounded ttl_micros_def i64_max_def result_bind_def acquire_slot_bytes_in_current_transaction_def
  prepare_unique_keys_for_slot_acquisition_def kv_validate_acquire_slot_candidate_count_def MAX_KV_ACQUIRE_SLOT_CANDIDATES_def
  acquire_prepared_slot_bytes_in_current_transaction_def admitted_def admit_def supported_reply_def supported_row_def
  SUPPORTED_EPOCH_def SUPPORTED_FINGERPRINT_def begin_transaction_def Let_def do_then_def acquire_prepared_slot_bytes_def
  ensure_slot_keys_exist_statement_def acquire_slot_statement_def expired_def expires_at_expression_def pg_timestamp_end_def

lemma demo_fields:
  "slot_suffixes demo_semaphore = [''1'', ''2'']" "max_hold_ttl demo_semaphore = Ttl (Some 2000000000)"
  "semaphore_key demo_semaphore = ''k''" "item_codec (slots_item demo_semaphore) = Plain"
  "to_plaintext_bytes (slots_item demo_semaphore) \<lparr>slot_holder_id = ''g''\<rparr> = Inr [1]"
  "to_plaintext_bytes (slots_item demo_semaphore) \<lparr>slot_holder_id = ''h''\<rparr> = Inr [2]"
  by (simp_all add: demo_semaphore_def demo_slots_def item_new_plain_def)

lemma demo_first:
  "semaphore_try_acquire_for_holder demo_semaphore ''p'' demo_env (demo_slot_env 5) ''g'' Map.empty
   = (Inr (Some \<lparr>claim_semaphore_key = ''k'', claim_slot_suffix = ''1'', claim_slot_holder_id = ''g''\<rparr>), demo_table)"
  by (simp add: demo_run_defs demo_fields demo_prepared demo_slot_env_def demo_env_def demo_row_def demo_table_def)

lemma demo_second:
  "fst (semaphore_try_acquire_for_holder demo_semaphore ''p'' demo_env (demo_slot_env 7) ''h'' demo_table)
   = Inr (Some \<lparr>claim_semaphore_key = ''k'', claim_slot_suffix = ''2'', claim_slot_holder_id = ''h''\<rparr>)"
  by (simp add: demo_run_defs demo_fields demo_prepared demo_slot_env_def demo_env_def demo_row_def demo_table_def)

theorem semaphore_claim_is_exclusive_witness:
  "\<exists>k. holds_slot demo_semaphore \<lparr>claim_semaphore_key = ''k'', claim_slot_suffix = ''1'', claim_slot_holder_id = ''g''\<rparr> 2000005 k
     (snd (semaphore_try_acquire_for_holder demo_semaphore ''p'' demo_env (demo_slot_env 7) ''h'' demo_table))"
proof -
  let ?r = "semaphore_try_acquire_for_holder demo_semaphore ''p'' demo_env (demo_slot_env 7) ''h'' demo_table"
  have r: "?r = (Inr (Some \<lparr>claim_semaphore_key = ''k'', claim_slot_suffix = ''2'', claim_slot_holder_id = ''h''\<rparr>), snd ?r)"
    using demo_second by (metis prod.collapse)
  have "slot_acquire_now (demo_slot_env 7) < slot_acquire_now (demo_slot_env 5) + hold_time demo_semaphore"
    by (simp add: demo_slot_env_def demo_well_made)
  from semaphore_claim_is_exclusive [OF demo_well_made(1) demo_sane demo_first rtranclp.rtrancl_refl demo_sane this r]
  show ?thesis by (simp add: demo_slot_env_def demo_well_made)
qed

theorem semaphore_never_exceeds_limit_witness:
  "\<exists>status. semaphore_fetch_status demo_semaphore ''p'' demo_env demo_table = Inr status \<and> current_count status \<le> 2"
proof -
  have "is_ok (semaphore_fetch_status demo_semaphore ''p'' demo_env demo_table)"
    by (simp add: semaphore_fetch_status_def item_count_def count_live_keys_with_prefix_def kv_pool_read_def pool_read_def
        demo_env_def count_live_keys_with_prefix_in_current_transaction_def finish_rollback_only_transaction_def
        admitted_def admit_def supported_reply_def supported_row_def SUPPORTED_EPOCH_def SUPPORTED_FINGERPRINT_def
        begin_transaction_def count_live_keys_with_prefix_with_executor_def)
  then obtain status where st: "semaphore_fetch_status demo_semaphore ''p'' demo_env demo_table = Inr status"
    by (auto simp: is_ok_def split: sum.splits)
  have "semaphore_change demo_semaphore Map.empty demo_table"
    using change_acquires [OF demo_sane, of demo_semaphore Map.empty "''p''" demo_env 5 "''g''"] demo_first by simp
  then have "(semaphore_change demo_semaphore)\<^sup>*\<^sup>* Map.empty demo_table" by blast
  from semaphore_never_exceeds_limit [OF demo_semaphore_new demo_slots_faithful this _ st] st
  show ?thesis by simp
qed

end
