(* ===== verification/Float64.thy ===== *)
theory Float64
  imports Prelude "HOL-Library.Log_Nat"
begin

text \<open>
  Arithmetic of \<open>f64\<close> on rational numbers: every operation computes exactly and rounds to the nearest number
  with 53 significant bits, a tie to the even one. Neither overflow nor subnormal numbers are modelled:
  the values of the throttler stay between \<open>2 ^ -60\<close> and \<open>2 ^ 120\<close> or are zero.
\<close>

definition round_half_even :: "rat \<Rightarrow> int" where
  "round_half_even x =
     (let f = \<lfloor>x\<rfloor>; d = x - of_int f
      in if d < 1/2 then f else if d > 1/2 then f + 1 else if even f then f else f + 1)"

text \<open>The exponent of the leading bit of a positive number.\<close>

definition leading_exponent :: "rat \<Rightarrow> int" where
  "leading_exponent x =
     (let (p, q) = quotient_of x; k = bitlen p - bitlen q
      in if 2 powi k \<le> x then k else k - 1)"

definition f64_round :: "rat \<Rightarrow> rat" where
  "f64_round x =
     (if x = 0 then 0
      else let e = leading_exponent \<bar>x\<bar> - 52 in of_int (round_half_even (x / 2 powi e)) * 2 powi e)"

definition f64_epsilon :: rat where
  "f64_epsilon = 1 / 2 ^ 53"

lemma round_half_even_error: "\<bar>of_int (round_half_even x) - x\<bar> \<le> 1/2"
proof -
  define d where "d = x - of_int \<lfloor>x\<rfloor>"
  have x: "x = of_int \<lfloor>x\<rfloor> + d" and d: "0 \<le> d" "d < 1" unfolding d_def by linarith+
  have "of_int (round_half_even x) - x = (if d < 1/2 then - d else if d > 1/2 then 1 - d
      else if even \<lfloor>x\<rfloor> then - d else 1 - d)"
    unfolding round_half_even_def Let_def d_def [symmetric] by (simp add: d_def)
  then show ?thesis using d by (simp add: abs_if)
qed

lemma bitlen_bounds_rat:
  assumes "0 < p"
  shows "(2::rat) powi (bitlen p - 1) \<le> of_int p" "of_int p < (2::rat) powi (bitlen p)"
proof -
  have b: "2 ^ nat (bitlen p - 1) \<le> p" "p < 2 ^ nat (bitlen p)" using bitlen_bounds [OF assms] by auto
  have "0 < bitlen p" using assms by (simp add: bitlen_alt_def add_pos_nonneg add.commute [of 1] le_imp_0_less)
  moreover have "(of_int (2 ^ nat (bitlen p - 1)) :: rat) \<le> of_int p" "(of_int p :: rat) < of_int (2 ^ nat (bitlen p))"
    using b by (simp_all only: of_int_le_iff of_int_less_iff)
  ultimately show "(2::rat) powi (bitlen p - 1) \<le> of_int p" "of_int p < (2::rat) powi (bitlen p)"
    by (simp_all add: power_int_def)
qed

lemma leading_exponent_bound:
  assumes "0 < x"
  shows "2 powi leading_exponent x \<le> x"
proof -
  obtain p q where pq: "quotient_of x = (p, q)" by (cases "quotient_of x")
  have q: "0 < q" and x: "x = of_int p / of_int q"
    using quotient_of_denom_pos [OF pq] quotient_of_div [OF pq] by simp_all
  have p: "0 < p" using assms q x by (simp add: zero_less_divide_iff)
  have "2 powi (bitlen p - bitlen q - 1) * of_int q \<le> 2 powi (bitlen p - bitlen q - 1) * (2::rat) powi (bitlen q)"
    using bitlen_bounds_rat(2) [OF q] by (intro mult_left_mono) simp_all
  also have "\<dots> = 2 powi (bitlen p - 1)" by (simp add: power_int_add [symmetric])
  also have "\<dots> \<le> of_int p" by (rule bitlen_bounds_rat(1) [OF p])
  finally have "2 powi (bitlen p - bitlen q - 1) \<le> x"
    using q by (simp add: x field_simps)
  then show ?thesis by (simp add: leading_exponent_def pq Let_def)
qed

lemma f64_round_error: "\<bar>f64_round x - x\<bar> \<le> \<bar>x\<bar> * f64_epsilon"
proof (cases "x = 0")
  case False
  define e where "e = leading_exponent \<bar>x\<bar> - 52"
  have pos: "0 < (2::rat) powi e" by simp
  have "f64_round x - x = (of_int (round_half_even (x / 2 powi e)) - x / 2 powi e) * 2 powi e"
    using False by (simp add: f64_round_def e_def Let_def left_diff_distrib)
  then have "\<bar>f64_round x - x\<bar> = \<bar>of_int (round_half_even (x / 2 powi e)) - x / 2 powi e\<bar> * 2 powi e"
    by (simp add: abs_mult)
  also have "\<dots> \<le> 1/2 * 2 powi e"
    using round_half_even_error by (intro mult_right_mono) simp_all
  also have "\<dots> = 2 powi (leading_exponent \<bar>x\<bar>) * f64_epsilon"
  proof -
    have "(2::rat) powi (leading_exponent \<bar>x\<bar>) = 2 powi (e + 52)" by (simp add: e_def)
    also have "\<dots> = 2 powi e * 2 ^ 52" by (simp add: power_int_add)
    finally show ?thesis by (simp add: f64_epsilon_def)
  qed
  also have "\<dots> \<le> \<bar>x\<bar> * f64_epsilon"
    using leading_exponent_bound [of "\<bar>x\<bar>"] False by (intro mult_right_mono) (simp_all add: f64_epsilon_def)
  finally show ?thesis .
qed (simp add: f64_round_def)

lemma f64_epsilon_small: "0 < f64_epsilon" "f64_epsilon < 1" by (simp_all add: f64_epsilon_def)

lemma f64_round_upper: "0 \<le> x \<Longrightarrow> f64_round x \<le> x * (1 + f64_epsilon)"
  using f64_round_error [of x] by (simp add: distrib_left abs_if split: if_splits)

lemma f64_round_lower: "0 \<le> x \<Longrightarrow> x * (1 - f64_epsilon) \<le> f64_round x"
  using f64_round_error [of x] by (simp add: right_diff_distrib abs_if split: if_splits)

lemma f64_round_nonneg [simp]: "0 \<le> x \<Longrightarrow> 0 \<le> f64_round x"
  by (rule order_trans [OF _ f64_round_lower]) (simp_all add: f64_epsilon_def)

lemma f64_round_pos: "0 < x \<Longrightarrow> 0 < f64_round x"
  by (rule less_le_trans [OF _ f64_round_lower]) (simp_all add: f64_epsilon_def)

end
