(* ===== verification/Throttler.thy ===== *)
theory Throttler
  imports Semaphore Float64 "HOL-Library.Finite_Map"
begin

text \<open>
  \<open>src/src/db/fleet/throttler*.rs\<close> and \<open>Store::new_throttler\<close>: a token bucket, a bound on concurrent holders
  and a circuit breaker that share one state under one key of a plain item.

  The state is a value; an acquisition, a release and a change of the circuit are functions from the state and
  the database's clock to the next one, run under the row lock of the item. The \<open>BTreeMap\<close> of the slots
  is a finite map. The numbers of type \<open>f64\<close> are those of \<open>Float64\<close>.
\<close>

section \<open>Configuration\<close>

definition DEFAULT_FLEET_THROTTLER_MAX_HOLD_DURATION :: nanos where
  "DEFAULT_FLEET_THROTTLER_MAX_HOLD_DURATION = 5 * 60 * nanos_per_second"
definition DEFAULT_FLEET_THROTTLER_STATE_TTL :: nanos where
  "DEFAULT_FLEET_THROTTLER_STATE_TTL = 10 * 60 * nanos_per_second"
definition DEFAULT_FLEET_THROTTLER_PROBE_WINDOW :: nanos where
  "DEFAULT_FLEET_THROTTLER_PROBE_WINDOW = 5 * nanos_per_second"
definition DEFAULT_FLEET_THROTTLER_PROBE_MAX_CONSECUTIVE_HEARTBEAT_FAILURES :: nat where
  "DEFAULT_FLEET_THROTTLER_PROBE_MAX_CONSECUTIVE_HEARTBEAT_FAILURES = 3"
definition DEFAULT_FLEET_THROTTLER_BLOCKING_RETRY_INTERVAL :: nanos where
  "DEFAULT_FLEET_THROTTLER_BLOCKING_RETRY_INTERVAL = 100 * nanos_per_milli"
definition MIN_FLEET_THROTTLER_CIRCUIT_OPEN_WAIT :: nanos where
  "MIN_FLEET_THROTTLER_CIRCUIT_OPEN_WAIT = nanos_per_milli"
definition FLEET_THROTTLER_STATE_TTL_MULTIPLIER :: nat where "FLEET_THROTTLER_STATE_TTL_MULTIPLIER = 10"
definition FLEET_THROTTLER_STATE_KEY_PART :: string where "FLEET_THROTTLER_STATE_KEY_PART = ''state''"

record throttler_rate_limit =
  requests_per_interval :: nat
  rate_interval :: nanos

record throttler_concurrency_limit =
  limit_max_concurrent :: nat
  limit_max_hold_duration :: "nanos option"

record throttler_circuit_breaker =
  failure_threshold :: nat
  recovery_timeout :: nanos

record resolved_concurrency_limit =
  resolved_max_concurrent :: nat
  resolved_max_hold_duration :: nanos

record throttler_slot =
  throttler_slot_holder :: string
  throttler_slot_expires_at :: micros

datatype throttler_circuit_state = Circuit_Closed | Circuit_Open

record throttler_state =
  tokens :: rat
  last_refill :: micros
  throttler_slots :: "(string, throttler_slot) fmap"
  circuit_failures :: nat
  circuit_state :: throttler_circuit_state
  circuit_opened_at :: "micros option"
  probe_holder_id :: "string option"
  probe_expires_at :: "micros option"

text \<open>
  The resolved rate limit and circuit breaker have the fields of the configured ones, so they share their types.
\<close>

record 'c throttler =
  throttler_key :: string
  throttler_rate :: "throttler_rate_limit option"
  throttler_concurrency :: "resolved_concurrency_limit option"
  throttler_breaker :: "throttler_circuit_breaker option"
  state_ttl :: ttl
  state_item :: "(throttler_state, unit, 'c) item"

definition throttler_rounded_microseconds :: "nanos \<Rightarrow> int option" where
  "throttler_rounded_microseconds d =
     (let microseconds = d div 1000 + (if d mod 1000 = 0 then 0 else 1)
      in if int microseconds > i64_max then None else Some (int microseconds))"

definition validate_duration_for_throttler :: "nanos \<Rightarrow> 'c fleet_error \<Rightarrow> 'c fleet_error + unit" where
  "validate_duration_for_throttler d e =
     (if d = 0 \<or> throttler_rounded_microseconds d = None then Inl e else Inr ())"

definition resolve_throttler_rate_limit :: "throttler_rate_limit \<Rightarrow> 'c fleet_error + throttler_rate_limit" where
  "resolve_throttler_rate_limit r =
     (if requests_per_interval r = 0 then Inl (FleetThrottleError FleetInvalidThrottlerRequestsPerInterval)
      else map_sum id (\<lambda>_. r) (validate_duration_for_throttler (rate_interval r)
        (FleetThrottleError FleetInvalidThrottlerRateLimitInterval)))"

definition resolve_throttler_concurrency_limit ::
    "throttler_concurrency_limit \<Rightarrow> 'c fleet_error + resolved_concurrency_limit" where
  "resolve_throttler_concurrency_limit l =
     (if limit_max_concurrent l = 0 \<or> limit_max_concurrent l > FLEET_MAX_CONCURRENT_LIMIT
      then Inl (FleetThrottleError (FleetInvalidThrottlerMaxConcurrent (limit_max_concurrent l) FLEET_MAX_CONCURRENT_LIMIT))
      else
        let hold = option_unwrap_or (limit_max_hold_duration l) DEFAULT_FLEET_THROTTLER_MAX_HOLD_DURATION
        in map_sum id (\<lambda>_. \<lparr>resolved_max_concurrent = limit_max_concurrent l, resolved_max_hold_duration = hold\<rparr>)
          (validate_duration_for_throttler hold (FleetThrottleError FleetInvalidThrottlerMaxHoldDuration)))"

definition resolve_throttler_circuit_breaker ::
    "throttler_circuit_breaker \<Rightarrow> 'c fleet_error + throttler_circuit_breaker" where
  "resolve_throttler_circuit_breaker b =
     (if failure_threshold b = 0 then Inl (FleetThrottleError FleetInvalidThrottlerFailureThreshold)
      else map_sum id (\<lambda>_. b) (validate_duration_for_throttler (recovery_timeout b)
        (FleetThrottleError FleetInvalidThrottlerRecoveryTimeout)))"

definition max_kv_ttl_duration :: nanos where
  "max_kv_ttl_duration = nat i64_max * 1000"

definition scale_duration_for_throttler_state_ttl :: "nanos \<Rightarrow> nanos" where
  "scale_duration_for_throttler_state_ttl d =
     (if d = 0 then 0
      else min (option_unwrap_or (duration_checked_mul d FLEET_THROTTLER_STATE_TTL_MULTIPLIER) max_kv_ttl_duration)
             max_kv_ttl_duration)"

definition throttler_state_ttl ::
    "throttler_rate_limit option \<Rightarrow> resolved_concurrency_limit option \<Rightarrow> throttler_circuit_breaker option
     \<Rightarrow> 'c fleet_error + ttl" where
  "throttler_state_ttl rate concurrency breaker =
     (let ttl = 0;
          ttl = (case rate of None \<Rightarrow> ttl
            | Some r \<Rightarrow> max ttl (scale_duration_for_throttler_state_ttl (rate_interval r)));
          ttl = (case concurrency of None \<Rightarrow> ttl
            | Some l \<Rightarrow> max ttl (scale_duration_for_throttler_state_ttl (resolved_max_hold_duration l)));
          ttl = (case breaker of None \<Rightarrow> ttl
            | Some b \<Rightarrow> max (max ttl (scale_duration_for_throttler_state_ttl (recovery_timeout b)))
                (scale_duration_for_throttler_state_ttl DEFAULT_FLEET_THROTTLER_PROBE_WINDOW));
          ttl = (if ttl = 0 then DEFAULT_FLEET_THROTTLER_STATE_TTL else ttl);
          ttl = (if ttl < MIN_KV_TTL then MIN_KV_TTL else ttl)
      in map_sum (\<lambda>e. FleetThrottleError (FleetInvalidThrottlerStateTtl e)) id (ttl_expires_after ttl))"

text \<open>\<open>map\<close>, \<open>transpose\<close> and \<open>?\<close> on an optional part of the configuration.\<close>

definition resolve_option :: "('a \<Rightarrow> 'e + 'b) \<Rightarrow> 'a option \<Rightarrow> 'e + 'b option" where
  "resolve_option f x = (case x of None \<Rightarrow> Inr None | Some a \<Rightarrow> map_sum id Some (f a))"

record throttler_config =
  config_key :: string
  config_rate_limit :: "throttler_rate_limit option"
  config_concurrency_limit :: "throttler_concurrency_limit option"
  config_circuit_breaker :: "throttler_circuit_breaker option"

definition new_throttler ::
    "(throttler_state, unit, 'c) item \<Rightarrow> string \<Rightarrow> throttler_config \<Rightarrow> 'c fleet_error + 'c throttler" where
  "new_throttler base root_key config =
     result_bind (resolve_option resolve_throttler_rate_limit (config_rate_limit config)) (\<lambda>rate.
     result_bind (resolve_option resolve_throttler_concurrency_limit (config_concurrency_limit config)) (\<lambda>concurrency.
     result_bind (resolve_option resolve_throttler_circuit_breaker (config_circuit_breaker config)) (\<lambda>breaker.
       if rate = None \<and> concurrency = None \<and> breaker = None
       then Inl (FleetThrottleError FleetInvalidThrottlerHasNoControls)
       else
         result_bind (throttler_state_ttl rate concurrency breaker) (\<lambda>ttl.
         result_bind (build_throttler_state_prefix root_key (config_key config)) (\<lambda>key_prefix.
           Inr \<lparr>throttler_key = config_key config, throttler_rate = rate, throttler_concurrency = concurrency,
             throttler_breaker = breaker, state_ttl = ttl, state_item = item_new_plain base key_prefix\<rparr>)))))"

section \<open>Time and floating point\<close>

definition i64_min :: int where "i64_min = - (2 ^ 63)"

definition i64_saturating_sub :: "int \<Rightarrow> int \<Rightarrow> int" where
  "i64_saturating_sub a b = max i64_min (min i64_max (a - b))"

definition add_duration_to_timestamp :: "micros \<Rightarrow> nanos \<Rightarrow> 'c fleet_error + micros" where
  "add_duration_to_timestamp timestamp d =
     (case throttler_rounded_microseconds d of
        None \<Rightarrow> Inl (FleetThrottleError FleetThrottlerTimestampOverflow)
      | Some us \<Rightarrow> if timestamp + us > i64_max then Inl (FleetThrottleError FleetThrottlerTimestampOverflow)
          else Inr (timestamp + us))"

definition duration_to_microseconds_lossy :: "nanos \<Rightarrow> int" where
  "duration_to_microseconds_lossy d = option_unwrap_or (throttler_rounded_microseconds d) i64_max"

definition duration_as_secs_f64 :: "nanos \<Rightarrow> rat" where
  "duration_as_secs_f64 d =
     f64_round (f64_round (of_nat (d div 1000000000)) + f64_round (of_nat (d mod 1000000000) / 1000000000))"

definition duration_from_secs_f64 :: "rat \<Rightarrow> nanos" where
  "duration_from_secs_f64 secs = nat (round_half_even (secs * 1000000000))"

definition refill_rate_per_second :: "throttler_rate_limit \<Rightarrow> rat" where
  "refill_rate_per_second r = f64_round (of_nat (requests_per_interval r) / duration_as_secs_f64 (rate_interval r))"

definition elapsed_seconds :: "micros \<Rightarrow> throttler_state \<Rightarrow> rat" where
  "elapsed_seconds now state =
     f64_round (f64_round (of_int (max (i64_saturating_sub now (last_refill state)) 0)) / 1000000)"

definition refilled_tokens :: "throttler_rate_limit \<Rightarrow> micros \<Rightarrow> throttler_state \<Rightarrow> rat" where
  "refilled_tokens r now state =
     min (f64_round (tokens state + f64_round (elapsed_seconds now state * refill_rate_per_second r)))
       (of_nat (requests_per_interval r))"

definition compute_rate_limit_retry_after_duration :: "rat \<Rightarrow> rat \<Rightarrow> nanos" where
  "compute_rate_limit_retry_after_duration current_tokens rate =
     (if rate \<le> 0 then max_kv_ttl_duration
      else
        let seconds = f64_round (f64_round (1 - current_tokens) / rate)
        in if seconds \<le> 0 then nanos_per_milli
           else max (duration_from_secs_f64 seconds) nanos_per_milli)"

section \<open>Acquiring\<close>

record throttler_permit =
  permit_throttler_key :: string
  permit_holder_id :: "string option"
  permit_slot_suffix :: "string option"
  probe_acquired :: bool

datatype throttler_acquire_result =
    PermitAcquired throttler_permit
  | PermitThrottled "nanos option"
  | PermitCircuitOpen

record throttler_mutation_outcome =
  acquire_result :: throttler_acquire_result
  outcome_state :: throttler_state
  should_write :: bool

record throttler_concurrency_outcome =
  state_was_modified :: bool
  no_slot_available :: bool
  acquired_slot_suffix :: "string option"

record throttler_rate_limit_outcome =
  blocked_by_rate_limit :: bool
  released_acquired_slot :: bool
  retry_after :: nanos

datatype circuit_gate_decision = AllowNormally | AllowProbe | GateBlock

definition initial_state :: "'c throttler \<Rightarrow> micros \<Rightarrow> throttler_state" where
  "initial_state th now =
     \<lparr>tokens = (case throttler_rate th of None \<Rightarrow> 0 | Some r \<Rightarrow> of_nat (requests_per_interval r)),
      last_refill = now, throttler_slots = fmempty, circuit_failures = 0, circuit_state = Circuit_Closed,
      circuit_opened_at = None, probe_holder_id = None, probe_expires_at = None\<rparr>"

definition should_block_for_open_circuit ::
    "'c throttler \<Rightarrow> throttler_state \<Rightarrow> micros \<Rightarrow> string option \<Rightarrow> circuit_gate_decision" where
  "should_block_for_open_circuit th state now holder_id =
     (case throttler_breaker th of
        None \<Rightarrow> AllowNormally
      | Some b \<Rightarrow>
          if circuit_state state \<noteq> Circuit_Open then AllowNormally
          else case circuit_opened_at state of
            None \<Rightarrow> AllowProbe
          | Some opened_at \<Rightarrow>
              if i64_saturating_sub now opened_at < duration_to_microseconds_lossy (recovery_timeout b) then GateBlock
              else case probe_holder_id state of
                None \<Rightarrow> AllowProbe
              | Some holder \<Rightarrow>
                  let probe_is_live = (case probe_expires_at state of None \<Rightarrow> False | Some e \<Rightarrow> now < e);
                      holder_matches_probe = (holder_id = Some holder)
                  in if probe_is_live \<and> \<not> holder_matches_probe then GateBlock else AllowProbe)"

text \<open>The slots whose hold time has not passed.\<close>

definition live_slots :: "micros \<Rightarrow> (string, throttler_slot) fmap \<Rightarrow> (string, throttler_slot) fmap" where
  "live_slots now slots =
     fmfilter (\<lambda>s. case fmlookup slots s of None \<Rightarrow> False | Some slot \<Rightarrow> now < throttler_slot_expires_at slot) slots"

definition acquire_concurrency_slot_if_configured ::
    "'c throttler \<Rightarrow> throttler_state \<Rightarrow> micros \<Rightarrow> string option
     \<Rightarrow> 'c fleet_error + (throttler_concurrency_outcome \<times> throttler_state)" where
  "acquire_concurrency_slot_if_configured th state now holder_id =
     (case throttler_concurrency th of
        None \<Rightarrow> Inr (\<lparr>state_was_modified = False, no_slot_available = False, acquired_slot_suffix = None\<rparr>, state)
      | Some l \<Rightarrow>
          (case holder_id of
             None \<Rightarrow> Inl (FleetThrottleError FleetThrottlerHolderIdRequired)
           | Some holder \<Rightarrow>
               let live = live_slots now (throttler_slots state);
                   modified = (fcard (fmdom live) \<noteq> fcard (fmdom (throttler_slots state)))
               in case find (\<lambda>slot_text. fmlookup live slot_text = None)
                    (map decimal_text [1..<Suc (resolved_max_concurrent l)]) of
                 None \<Rightarrow> Inr (\<lparr>state_was_modified = modified, no_slot_available = True, acquired_slot_suffix = None\<rparr>,
                     state\<lparr>throttler_slots := live\<rparr>)
               | Some slot_text \<Rightarrow>
                   map_sum id (\<lambda>expires_at.
                     (\<lparr>state_was_modified = True, no_slot_available = False, acquired_slot_suffix = Some slot_text\<rparr>,
                      state\<lparr>throttler_slots := fmupd slot_text
                        \<lparr>throttler_slot_holder = holder, throttler_slot_expires_at = expires_at\<rparr> live\<rparr>))
                     (add_duration_to_timestamp now (resolved_max_hold_duration l))))"

definition consume_rate_limit_token_if_configured ::
    "'c throttler \<Rightarrow> throttler_state \<Rightarrow> micros \<Rightarrow> string option
     \<Rightarrow> throttler_rate_limit_outcome \<times> throttler_state" where
  "consume_rate_limit_token_if_configured th state now acquired_suffix =
     (case throttler_rate th of
        None \<Rightarrow> (\<lparr>blocked_by_rate_limit = False, released_acquired_slot = False, retry_after = 0\<rparr>, state)
      | Some r \<Rightarrow>
          let state = state\<lparr>tokens := refilled_tokens r now state, last_refill := now\<rparr>
          in if tokens state \<ge> 1
             then (\<lparr>blocked_by_rate_limit = False, released_acquired_slot = False, retry_after = 0\<rparr>,
                   state\<lparr>tokens := f64_round (tokens state - 1)\<rparr>)
             else
               let released = (case acquired_suffix of None \<Rightarrow> False
                     | Some slot_text \<Rightarrow> fmlookup (throttler_slots state) slot_text \<noteq> None);
                   slots = (case acquired_suffix of None \<Rightarrow> throttler_slots state
                     | Some slot_text \<Rightarrow> fmdrop slot_text (throttler_slots state))
               in (\<lparr>blocked_by_rate_limit = True, released_acquired_slot = released,
                    retry_after = compute_rate_limit_retry_after_duration (tokens state) (refill_rate_per_second r)\<rparr>,
                   state\<lparr>throttler_slots := slots\<rparr>))"

definition evaluate_try_acquire ::
    "'c throttler \<Rightarrow> throttler_state \<Rightarrow> micros \<Rightarrow> string option \<Rightarrow> 'c fleet_error + throttler_mutation_outcome" where
  "evaluate_try_acquire th current now holder_id =
     (let gate = should_block_for_open_circuit th current now holder_id
      in if gate = GateBlock
         then Inr \<lparr>acquire_result = PermitCircuitOpen, outcome_state = current, should_write = False\<rparr>
         else
           result_bind (acquire_concurrency_slot_if_configured th current now holder_id) (\<lambda>(concurrency, state).
             if no_slot_available concurrency
             then Inr \<lparr>acquire_result = PermitThrottled None, outcome_state = state,
                       should_write = state_was_modified concurrency\<rparr>
             else
               let slot_text = acquired_slot_suffix concurrency;
                   (rate, state) = consume_rate_limit_token_if_configured th state now slot_text
               in if blocked_by_rate_limit rate
                  then Inr \<lparr>acquire_result = PermitThrottled (Some (retry_after rate)), outcome_state = state,
                            should_write = True\<rparr>
                  else if gate = AllowProbe then
                    (case holder_id of
                       None \<Rightarrow> Inl (FleetThrottleError FleetThrottlerHolderIdRequired)
                     | Some holder \<Rightarrow>
                         map_sum id (\<lambda>expires_at.
                           \<lparr>acquire_result = PermitAcquired \<lparr>permit_throttler_key = throttler_key th,
                              permit_holder_id = holder_id, permit_slot_suffix = slot_text, probe_acquired = True\<rparr>,
                            outcome_state = state\<lparr>probe_holder_id := Some holder, probe_expires_at := Some expires_at\<rparr>,
                            should_write = True\<rparr>)
                           (add_duration_to_timestamp now DEFAULT_FLEET_THROTTLER_PROBE_WINDOW))
                  else Inr \<lparr>acquire_result = PermitAcquired \<lparr>permit_throttler_key = throttler_key th,
                         permit_holder_id = holder_id, permit_slot_suffix = slot_text, probe_acquired = False\<rparr>,
                       outcome_state = state, should_write = True\<rparr>))"

text \<open>The closure of the acquisition: the decision and the answer it captured.\<close>

definition decide_try_acquire ::
    "'c throttler \<Rightarrow> string option \<Rightarrow> throttler_state item_atomic_live_current
     \<Rightarrow> 'c fleet_error + (throttler_state item_atomic_mutation \<times> throttler_acquire_result)" where
  "decide_try_acquire th holder_id current =
     map_sum id (\<lambda>out.
       (if should_write out then SetValue (outcome_state out) (state_ttl th) else KeepExistingItem, acquire_result out))
       (evaluate_try_acquire th (item_live current) (item_live_timestamp current) holder_id)"

definition throttler_try_acquire_in_current_transaction ::
    "'c throttler \<Rightarrow> atomic_env \<Rightarrow> string option \<Rightarrow> kv_table tx
     \<Rightarrow> ('c fleet_error + throttler_acquire_result) \<times> kv_table tx" where
  "throttler_try_acquire_in_current_transaction th aenv holder_id tx =
     map_prod (map_sum id snd) id
       (item_mutate_live_or_insert_initial_value_atomically_in_current_transaction FleetKv (state_item th) aenv
         [FLEET_THROTTLER_STATE_KEY_PART] (\<lambda>now. Inr (initial_state th now, state_ttl th))
         (decide_try_acquire th holder_id) tx)"

definition throttler_try_acquire ::
    "'c throttler \<Rightarrow> pool_env \<Rightarrow> atomic_env \<Rightarrow> string option \<Rightarrow> kv_table
     \<Rightarrow> ('c fleet_error + throttler_acquire_result) \<times> kv_table" where
  "throttler_try_acquire th env aenv holder_id t =
     fleet_pool_write ''fleet.throttler.acquire'' env
       (throttler_try_acquire_in_current_transaction th (aenv\<lparr>atomic_reply := env_reply env\<rparr>) holder_id) t"

definition generate_holder_id_if_needed :: "'c throttler \<Rightarrow> 'c id_error + string \<Rightarrow> 'c fleet_error + string option" where
  "generate_holder_id_if_needed th new_id_text =
     (if throttler_concurrency th \<noteq> None \<or> throttler_breaker th \<noteq> None
      then map_sum id Some (generate_holder_id new_id_text) else Inr None)"

definition circuit_open_wait :: "'c throttler \<Rightarrow> nanos" where
  "circuit_open_wait th =
     max (case throttler_breaker th of None \<Rightarrow> DEFAULT_FLEET_THROTTLER_BLOCKING_RETRY_INTERVAL
          | Some b \<Rightarrow> recovery_timeout b div 10) MIN_FLEET_THROTTLER_CIRCUIT_OPEN_WAIT"

text \<open>
  The waiting loop, one element of the list per attempt: what it meets and what others do to the table
  during the sleep that follows, whose length is given to them. \<open>None\<close> is a loop still waiting.
\<close>

fun throttler_acquire_when_ready ::
    "'c throttler \<Rightarrow> string option \<Rightarrow> (pool_env \<times> atomic_env \<times> (nanos \<Rightarrow> kv_table \<Rightarrow> kv_table)) list \<Rightarrow> kv_table
     \<Rightarrow> (('c fleet_error + throttler_permit) \<times> kv_table) option" where
  "throttler_acquire_when_ready th holder_id [] t = None"
| "throttler_acquire_when_ready th holder_id ((env, aenv, meanwhile) # rest) t =
     (case throttler_try_acquire th env aenv holder_id t of
        (Inl e, t) \<Rightarrow> Some (Inl e, t)
      | (Inr (PermitAcquired permit), t) \<Rightarrow> Some (Inr permit, t)
      | (Inr (PermitThrottled wait), t) \<Rightarrow> throttler_acquire_when_ready th holder_id rest
          (meanwhile (option_unwrap_or wait DEFAULT_FLEET_THROTTLER_BLOCKING_RETRY_INTERVAL) t)
      | (Inr PermitCircuitOpen, t) \<Rightarrow> throttler_acquire_when_ready th holder_id rest
          (meanwhile (circuit_open_wait th) t))"

section \<open>Releasing\<close>

datatype throttler_task_outcome = NotExecuted | TaskSucceeded | TaskFailed

record throttler_release_result =
  concurrency_slot_released :: bool
  circuit_state_updated :: bool
  probe_released :: bool

definition default_release_result :: throttler_release_result where
  "default_release_result =
     \<lparr>concurrency_slot_released = False, circuit_state_updated = False, probe_released = False\<rparr>"

definition release_modified_state :: "throttler_release_result \<Rightarrow> bool" where
  "release_modified_state r \<longleftrightarrow> concurrency_slot_released r \<or> circuit_state_updated r \<or> probe_released r"

definition release_owned_concurrency_slot ::
    "'c throttler \<Rightarrow> throttler_permit \<Rightarrow> throttler_state \<Rightarrow> bool \<times> throttler_state" where
  "release_owned_concurrency_slot th permit state =
     (if throttler_concurrency th = None then (False, state)
      else case permit_slot_suffix permit of
        None \<Rightarrow> (False, state)
      | Some slot_text \<Rightarrow>
          (case permit_holder_id permit of
             None \<Rightarrow> (False, state)
           | Some holder \<Rightarrow>
               (case fmlookup (throttler_slots state) slot_text of
                  None \<Rightarrow> (False, state)
                | Some slot \<Rightarrow>
                    if throttler_slot_holder slot \<noteq> holder then (False, state)
                    else (True, state\<lparr>throttler_slots := fmdrop slot_text (throttler_slots state)\<rparr>))))"

definition apply_task_outcome_to_circuit_state ::
    "'c throttler \<Rightarrow> micros \<Rightarrow> throttler_task_outcome \<Rightarrow> throttler_state \<Rightarrow> bool \<times> throttler_state" where
  "apply_task_outcome_to_circuit_state th now task_outcome state =
     (case throttler_breaker th of
        None \<Rightarrow> (False, state)
      | Some b \<Rightarrow>
          (case task_outcome of
             NotExecuted \<Rightarrow> (False, state)
           | TaskFailed \<Rightarrow>
               let state = state\<lparr>circuit_failures := min (circuit_failures state + 1) u32_max\<rparr>
               in (True,
                   if circuit_state state = Circuit_Closed \<and> circuit_failures state \<ge> failure_threshold b
                   then state\<lparr>circuit_state := Circuit_Open, circuit_opened_at := Some now\<rparr>
                   else if circuit_state state = Circuit_Open then state\<lparr>circuit_opened_at := Some now\<rparr>
                   else state)
           | TaskSucceeded \<Rightarrow>
               if circuit_failures state = 0 \<and> circuit_state state = Circuit_Closed \<and> circuit_opened_at state = None
               then (False, state)
               else (True, state\<lparr>circuit_failures := 0, circuit_state := Circuit_Closed, circuit_opened_at := None\<rparr>)))"

definition clear_probe_if_owned :: "throttler_permit \<Rightarrow> throttler_state \<Rightarrow> bool \<times> throttler_state" where
  "clear_probe_if_owned permit state =
     (case permit_holder_id permit of
        None \<Rightarrow> (False, state)
      | Some holder \<Rightarrow>
          if probe_holder_id state \<noteq> Some holder then (False, state)
          else (True, state\<lparr>probe_holder_id := None, probe_expires_at := None\<rparr>))"

definition apply_release_and_outcome ::
    "'c throttler \<Rightarrow> micros \<Rightarrow> throttler_permit \<Rightarrow> throttler_task_outcome \<Rightarrow> throttler_state
     \<Rightarrow> throttler_release_result \<times> throttler_state" where
  "apply_release_and_outcome th now permit task_outcome state =
     (let (slot, state) = release_owned_concurrency_slot th permit state
      in if throttler_breaker th = None
         then (\<lparr>concurrency_slot_released = slot, circuit_state_updated = False, probe_released = False\<rparr>, state)
         else
           let (circuit, state) = apply_task_outcome_to_circuit_state th now task_outcome state;
               (probe, state) = clear_probe_if_owned permit state
           in (\<lparr>concurrency_slot_released = slot, circuit_state_updated = circuit, probe_released = probe\<rparr>, state))"

definition require_permit_matches_throttler :: "'c throttler \<Rightarrow> throttler_permit \<Rightarrow> 'c fleet_error + unit" where
  "require_permit_matches_throttler th permit =
     (if permit_throttler_key permit \<noteq> throttler_key th
      then Inl (FleetThrottleError FleetThrottlerPermitBelongsToDifferentThrottler) else Inr ())"

definition needs_state_cleanup :: "'c throttler \<Rightarrow> throttler_permit \<Rightarrow> bool" where
  "needs_state_cleanup th permit \<longleftrightarrow>
     throttler_concurrency th \<noteq> None \<and> permit_slot_suffix permit \<noteq> None \<or> throttler_breaker th \<noteq> None"

definition decide_release ::
    "'c throttler \<Rightarrow> throttler_permit \<Rightarrow> throttler_task_outcome \<Rightarrow> throttler_state item_atomic_live_current
     \<Rightarrow> 'c fleet_error + (throttler_state item_atomic_mutation \<times> throttler_release_result)" where
  "decide_release th permit task_outcome current =
     (let (result, state) = apply_release_and_outcome th (item_live_timestamp current) permit task_outcome (item_live current)
      in Inr (if release_modified_state result then SetValue state (state_ttl th) else KeepExistingItem, result))"

text \<open>An absent state is not an error of a release or of an extension.\<close>

definition absent_is :: "'a \<Rightarrow> 'c fleet_error + 'a \<Rightarrow> 'c fleet_error + 'a" where
  "absent_is d r = (case r of Inl (FleetKv KvKeyNotFound) \<Rightarrow> Inr d | _ \<Rightarrow> r)"

definition throttler_release_in_current_transaction ::
    "'c throttler \<Rightarrow> atomic_env \<Rightarrow> throttler_permit \<Rightarrow> throttler_task_outcome \<Rightarrow> kv_table tx
     \<Rightarrow> ('c fleet_error + throttler_release_result) \<times> kv_table tx" where
  "throttler_release_in_current_transaction th aenv permit task_outcome tx =
     (case require_permit_matches_throttler th permit of
        Inl e \<Rightarrow> (Inl e, tx)
      | Inr _ \<Rightarrow>
          if \<not> needs_state_cleanup th permit then (Inr default_release_result, tx)
          else map_prod (\<lambda>r. absent_is default_release_result (map_sum id snd r)) id
            (item_mutate_live_atomically_in_current_transaction FleetKv (state_item th) aenv
              [FLEET_THROTTLER_STATE_KEY_PART] (decide_release th permit task_outcome) tx))"

definition throttler_release ::
    "'c throttler \<Rightarrow> pool_env \<Rightarrow> atomic_env \<Rightarrow> throttler_permit \<Rightarrow> throttler_task_outcome \<Rightarrow> kv_table
     \<Rightarrow> ('c fleet_error + throttler_release_result) \<times> kv_table" where
  "throttler_release th env aenv permit task_outcome t =
     (case require_permit_matches_throttler th permit of
        Inl e \<Rightarrow> (Inl e, t)
      | Inr _ \<Rightarrow>
          if \<not> needs_state_cleanup th permit then (Inr default_release_result, t)
          else fleet_pool_write ''fleet.throttler.release'' env
            (throttler_release_in_current_transaction th (aenv\<lparr>atomic_reply := env_reply env\<rparr>) permit task_outcome) t)"

section \<open>The probe\<close>

definition decide_extend_probe ::
    "'c throttler \<Rightarrow> string \<Rightarrow> throttler_state item_atomic_live_current
     \<Rightarrow> 'c fleet_error + (throttler_state item_atomic_mutation \<times> bool)" where
  "decide_extend_probe th holder current =
     (let state = item_live current; now = item_live_timestamp current
      in if circuit_state state \<noteq> Circuit_Open \<or> probe_holder_id state \<noteq> Some holder then Inr (KeepExistingItem, False)
         else case probe_expires_at state of
           None \<Rightarrow> Inr (KeepExistingItem, False)
         | Some expires_at \<Rightarrow>
             if now \<ge> expires_at then Inr (KeepExistingItem, False)
             else map_sum id (\<lambda>e. (SetValue (state\<lparr>probe_expires_at := Some e\<rparr>) (state_ttl th), True))
               (add_duration_to_timestamp now DEFAULT_FLEET_THROTTLER_PROBE_WINDOW))"

definition extend_probe_in_current_transaction ::
    "'c throttler \<Rightarrow> atomic_env \<Rightarrow> throttler_permit \<Rightarrow> kv_table tx \<Rightarrow> ('c fleet_error + bool) \<times> kv_table tx" where
  "extend_probe_in_current_transaction th aenv permit tx =
     (case require_permit_matches_throttler th permit of
        Inl e \<Rightarrow> (Inl e, tx)
      | Inr _ \<Rightarrow>
          if \<not> probe_acquired permit then (Inr False, tx)
          else case permit_holder_id permit of
            None \<Rightarrow> (Inl (FleetThrottleError FleetThrottlerHolderIdRequired), tx)
          | Some holder \<Rightarrow> map_prod (\<lambda>r. absent_is False (map_sum id snd r)) id
              (item_mutate_live_atomically_in_current_transaction FleetKv (state_item th) aenv
                [FLEET_THROTTLER_STATE_KEY_PART] (decide_extend_probe th holder) tx))"

definition extend_probe ::
    "'c throttler \<Rightarrow> pool_env \<Rightarrow> atomic_env \<Rightarrow> throttler_permit \<Rightarrow> kv_table \<Rightarrow> ('c fleet_error + bool) \<times> kv_table" where
  "extend_probe th env aenv permit t =
     fleet_pool_write ''fleet.throttler.extend_probe'' env
       (extend_probe_in_current_transaction th (aenv\<lparr>atomic_reply := env_reply env\<rparr>) permit) t"

text \<open>The heartbeat task of a guard, and one turn of it that was not told to stop.\<close>

record probe_heartbeat =
  heartbeat_beating :: bool
  heartbeat_failures :: nat

definition probe_heartbeat_turn ::
    "'c throttler \<Rightarrow> throttler_permit \<Rightarrow> pool_env \<Rightarrow> atomic_env \<Rightarrow> probe_heartbeat \<Rightarrow> kv_table
     \<Rightarrow> probe_heartbeat \<times> kv_table" where
  "probe_heartbeat_turn th permit env aenv hb t =
     (case extend_probe th env aenv permit t of
        (Inr True, t) \<Rightarrow> (hb\<lparr>heartbeat_failures := 0\<rparr>, t)
      | (Inr False, t) \<Rightarrow> (hb\<lparr>heartbeat_beating := False\<rparr>, t)
      | (Inl e, t) \<Rightarrow>
          if fleet_contains_protocol_failure e then (hb\<lparr>heartbeat_beating := False\<rparr>, t)
          else
            let failures = min (heartbeat_failures hb + 1) u32_max
            in (\<lparr>heartbeat_beating = (failures < DEFAULT_FLEET_THROTTLER_PROBE_MAX_CONSECUTIVE_HEARTBEAT_FAILURES),
                 heartbeat_failures = failures\<rparr>, t))"

section \<open>The circuit, the status and the reset\<close>

definition decide_set_circuit ::
    "'c throttler \<Rightarrow> throttler_circuit_state \<Rightarrow> bool \<Rightarrow> bool \<Rightarrow> throttler_state item_atomic_live_current
     \<Rightarrow> 'c fleet_error + (throttler_state item_atomic_mutation \<times> unit)" where
  "decide_set_circuit th target set_opened_at reset_failures current =
     (let state = (item_live current)\<lparr>circuit_state := target,
            circuit_opened_at := (if set_opened_at then Some (item_live_timestamp current) else None),
            probe_holder_id := None, probe_expires_at := None\<rparr>;
          state = (if reset_failures then state\<lparr>circuit_failures := 0\<rparr> else state)
      in Inr (SetValue state (state_ttl th), ()))"

definition set_circuit_state_in_current_transaction ::
    "'c throttler \<Rightarrow> atomic_env \<Rightarrow> throttler_circuit_state \<Rightarrow> bool \<Rightarrow> bool \<Rightarrow> kv_table tx
     \<Rightarrow> ('c fleet_error + unit) \<times> kv_table tx" where
  "set_circuit_state_in_current_transaction th aenv target set_opened_at reset_failures tx =
     (if throttler_breaker th = None then (Inr (), tx)
      else map_prod (map_sum id snd) id
        (item_mutate_live_or_insert_initial_value_atomically_in_current_transaction FleetKv (state_item th) aenv
          [FLEET_THROTTLER_STATE_KEY_PART] (\<lambda>now. Inr (initial_state th now, state_ttl th))
          (decide_set_circuit th target set_opened_at reset_failures) tx))"

definition open_circuit_in_current_transaction ::
    "'c throttler \<Rightarrow> atomic_env \<Rightarrow> kv_table tx \<Rightarrow> ('c fleet_error + unit) \<times> kv_table tx" where
  "open_circuit_in_current_transaction th aenv tx =
     set_circuit_state_in_current_transaction th aenv Circuit_Open True False tx"

definition close_circuit_in_current_transaction ::
    "'c throttler \<Rightarrow> atomic_env \<Rightarrow> kv_table tx \<Rightarrow> ('c fleet_error + unit) \<times> kv_table tx" where
  "close_circuit_in_current_transaction th aenv tx =
     set_circuit_state_in_current_transaction th aenv Circuit_Closed False True tx"

definition open_circuit ::
    "'c throttler \<Rightarrow> pool_env \<Rightarrow> atomic_env \<Rightarrow> kv_table \<Rightarrow> ('c fleet_error + unit) \<times> kv_table" where
  "open_circuit th env aenv t =
     fleet_pool_write ''fleet.throttler.open_circuit'' env
       (open_circuit_in_current_transaction th (aenv\<lparr>atomic_reply := env_reply env\<rparr>)) t"

definition close_circuit ::
    "'c throttler \<Rightarrow> pool_env \<Rightarrow> atomic_env \<Rightarrow> kv_table \<Rightarrow> ('c fleet_error + unit) \<times> kv_table" where
  "close_circuit th env aenv t =
     fleet_pool_write ''fleet.throttler.close_circuit'' env
       (close_circuit_in_current_transaction th (aenv\<lparr>atomic_reply := env_reply env\<rparr>)) t"

record throttler_status =
  available_tokens :: rat
  max_tokens :: rat
  current_concurrency :: nat
  max_concurrency :: nat
  status_circuit_state :: throttler_circuit_state
  status_failures :: nat

definition empty_status :: "'c throttler \<Rightarrow> throttler_status" where
  "empty_status th =
     (let limit = (case throttler_rate th of None \<Rightarrow> 0 | Some r \<Rightarrow> of_nat (requests_per_interval r))
      in \<lparr>available_tokens = limit, max_tokens = limit, current_concurrency = 0,
          max_concurrency = (case throttler_concurrency th of None \<Rightarrow> 0 | Some l \<Rightarrow> resolved_max_concurrent l),
          status_circuit_state = Circuit_Closed, status_failures = 0\<rparr>)"

definition status_from_state :: "'c throttler \<Rightarrow> throttler_state \<Rightarrow> micros \<Rightarrow> throttler_status" where
  "status_from_state th state now =
     (let status = empty_status th;
          status = (case throttler_rate th of None \<Rightarrow> status
            | Some r \<Rightarrow> status\<lparr>available_tokens :=
                min (f64_round (tokens state + f64_round (elapsed_seconds now state * refill_rate_per_second r)))
                  (max_tokens status)\<rparr>);
          status = (case throttler_concurrency th of None \<Rightarrow> status
            | Some l \<Rightarrow> status\<lparr>current_concurrency :=
                min (fcard (fmdom (live_slots now (throttler_slots state)))) 65535\<rparr>)
      in case throttler_breaker th of None \<Rightarrow> status
         | Some b \<Rightarrow> status\<lparr>status_circuit_state := circuit_state state, status_failures := circuit_failures state\<rparr>)"

definition status_of_row ::
    "'c throttler \<Rightarrow> 'c kv_error + throttler_state item_with_timestamp \<Rightarrow> 'c fleet_error + throttler_status" where
  "status_of_row th row =
     (case row of
        Inr r \<Rightarrow> Inr (status_from_state th (stamped_value r) (stamped_at r))
      | Inl KvKeyNotFound \<Rightarrow> Inr (empty_status th)
      | Inl e \<Rightarrow> Inl (FleetKv e))"

definition throttler_fetch_status ::
    "'c throttler \<Rightarrow> string \<Rightarrow> pool_env \<Rightarrow> kv_table \<Rightarrow> 'c fleet_error + throttler_status" where
  "throttler_fetch_status th protocol env t =
     status_of_row th (item_get_and_return_database_timestamp (state_item th) protocol env
       [FLEET_THROTTLER_STATE_KEY_PART] t)"

definition throttler_fetch_status_in_current_transaction ::
    "'c throttler \<Rightarrow> string \<Rightarrow> admission_reply \<Rightarrow> micros \<Rightarrow> kv_table tx
     \<Rightarrow> ('c fleet_error + throttler_status) \<times> kv_table tx" where
  "throttler_fetch_status_in_current_transaction th protocol reply now tx =
     map_prod (status_of_row th) id
       (item_get_and_return_database_timestamp_in_current_transaction (state_item th) protocol reply now
         [FLEET_THROTTLER_STATE_KEY_PART] tx)"

definition absent_is_deleted :: "'c kv_error + unit \<Rightarrow> 'c fleet_error + unit" where
  "absent_is_deleted r = (case r of Inr _ \<Rightarrow> Inr () | Inl KvKeyNotFound \<Rightarrow> Inr () | Inl e \<Rightarrow> Inl (FleetKv e))"

definition throttler_reset ::
    "'c throttler \<Rightarrow> string \<Rightarrow> pool_env \<Rightarrow> kv_table \<Rightarrow> ('c fleet_error + unit) \<times> kv_table" where
  "throttler_reset th protocol env t =
     map_prod absent_is_deleted id (item_delete (state_item th) protocol env [FLEET_THROTTLER_STATE_KEY_PART] t)"

definition throttler_reset_in_current_transaction ::
    "'c throttler \<Rightarrow> string \<Rightarrow> admission_reply \<Rightarrow> micros \<Rightarrow> kv_table tx \<Rightarrow> ('c fleet_error + unit) \<times> kv_table tx" where
  "throttler_reset_in_current_transaction th protocol reply now tx =
     map_prod absent_is_deleted id
       (item_delete_in_current_transaction (state_item th) protocol reply now [FLEET_THROTTLER_STATE_KEY_PART] tx)"

end
