(* ===== verification/ThrottlerSafety.thy ===== *)
theory ThrottlerSafety
  imports Throttler
begin

text \<open>
  What the throttler guarantees across processes. An operation locks the row of the state, computes the next
  state from the live one (or the initial one) and the time of the lock, and stores it with a time to live
  that outlives every promise in it. The lemmas about a promise (a slot, an open circuit, a probe) are
  proved once for any predicate on states in the locale \<open>state_promise\<close>.
\<close>

section \<open>Mutations that find no state\<close>

text \<open>A mutation only depends on what its callback answers to the locked row.\<close>

lemma mutate_cong:
  fixes into_error :: "'c kv_error \<Rightarrow> 'e"
  assumes adm: "fst (admit (atomic_protocol env) (atomic_reply env) tx) = Inr ()"
    and time: "lock_time env key (tables tx) = Some n"
    and same: "decide \<lparr>current_live_value = get_bytes_statement n key (tables tx), current_timestamp = n\<rparr>
      = decide' \<lparr>current_live_value = get_bytes_statement n key (tables tx), current_timestamp = n\<rparr>"
  shows "mutate_key_atomically_in_transaction_internal into_error env key decide cleanup tx
    = mutate_key_atomically_in_transaction_internal into_error env key decide' cleanup tx"
proof -
  let ?t = "tables tx"
  obtain tx1 where lock: "lock_key_for_atomic_mutation env key tx
      = (fst (try_lock env key 0 8 ?t) :: 'c kv_error + _, tx1)"
    using lock_admitted [OF adm] by blast
  obtain i where i: "List.find (\<lambda>i. ?t key = None \<or> fst (lock_attempts env i)) [0..<8] = Some i"
    and n: "n = snd (lock_attempts env i)"
    using time by (auto simp: lock_time_def split: option.splits)
  have lock': "lock_key_for_atomic_mutation env key tx
      = (Inr (?t key = None, Some (locked_row_of n key ?t)) :: 'c kv_error + _, tx1)"
    using lock by (simp add: try_lock_spec i n)
  show ?thesis
    unfolding mutate_key_atomically_in_transaction_internal_def lock' map_error_def fst_conv snd_conv map_sum.simps
      id_apply do_then_simps prod.case option.case Let_def locked_row_of_live
    using same by simp
qed

lemma set_bytes_not_found: "set_bytes_with_executor now key v ttl t \<noteq> (Inl KvKeyNotFound, t')"
  by (auto simp: set_bytes_with_executor_def ttl_positive_microseconds_def kv_rounded kv_query_error_def
      set_bytes_statement_def expires_at_expression_def split: option.splits sum.splits if_splits)

text \<open>A mutation of a live item that finds none leaves the table as it was, so its caller may report that as a success.\<close>

lemma live_item_not_found_keeps:
  assumes run: "mutate_live_item_in_transaction_internal FleetKv it env key_parts decide True tx
      = (Inl (FleetKv KvKeyNotFound) :: 'c fleet_error + _, tx')"
    and never: "\<forall>current. decide current \<noteq> Inl (FleetKv KvKeyNotFound)"
  shows "tables tx' = tables tx"
proof (cases "item_key_from_parts it key_parts")
  case (Inl e)
  then show ?thesis using run by (auto simp: mutate_live_item_in_transaction_internal_def with_key_def)
next
  case (Inr key)
  let ?decide = "decide_live_item FleetKv it key decide"
  have mut: "mutate_key_atomically_in_transaction_internal FleetKv env key ?decide True tx
      = (Inl (FleetKv KvKeyNotFound) :: 'c fleet_error + _, tx')"
    using run Inr unfolding mutate_live_item_in_transaction_internal_def with_key_def
    by (auto simp: do_then_def split: prod.splits sum.splits)
  show ?thesis
  proof (cases "fst (admit (atomic_protocol env) (atomic_reply env) tx) = Inr ()")
    case True
    obtain t' where ref: "atomic_reference FleetKv (lock_time env key (tables tx)) (apply_now env) key
        ?decide (tables tx) = (Inl (FleetKv KvKeyNotFound), t')"
      using mutate_matches_reference [OF True mut prod.collapse [symmetric]] by (metis prod.collapse)
    then obtain n where n: "lock_time env key (tables tx) = Some n"
      by (auto simp: atomic_reference_def split: option.splits)
    let ?current = "\<lparr>current_live_value = get_bytes_statement n key (tables tx), current_timestamp = n\<rparr>"
    show ?thesis
    proof (cases "?decide ?current")
      case (Inl e)
      have "mutate_key_atomically_in_transaction_internal FleetKv env key (\<lambda>_. ?decide ?current) True tx
          = (Inl (FleetKv KvKeyNotFound) :: 'c fleet_error + _, tx')"
        using mut mutate_cong [OF True n, of ?decide "\<lambda>_. ?decide ?current" FleetKv True] by simp
      then show ?thesis by (rule mutate_error_keeps) (simp add: sets_succeed_def Inl)
    next
      case (Inr mc)
      obtain m c where mc: "mc = (m, c)" by (cases mc)
      have "get_bytes_statement n key (tables tx) \<noteq> None"
        using Inr by (auto simp: decide_live_item_def split: option.splits)
      then show ?thesis using ref Inr mc n
        by (auto simp: set_bytes_not_found atomic_reference_def Let_def split: atomic_mutation.splits sum.splits prod.splits)
    qed
  qed (use mutate_unadmitted_keeps [OF mut] in simp)
qed

section \<open>Operations as moves of the state\<close>

datatype throttler_op =
    OpAcquire "string option"
  | OpRelease throttler_permit throttler_task_outcome
  | OpExtend throttler_permit
  | OpOpen
  | OpClose

fun run_op :: "'c throttler \<Rightarrow> pool_env \<Rightarrow> atomic_env \<Rightarrow> throttler_op \<Rightarrow> kv_table \<Rightarrow> kv_table" where
  "run_op th env aenv (OpAcquire holder) t = snd (throttler_try_acquire th env aenv holder t)"
| "run_op th env aenv (OpRelease permit task_outcome) t = snd (throttler_release th env aenv permit task_outcome t)"
| "run_op th env aenv (OpExtend permit) t = snd (extend_probe th env aenv permit t)"
| "run_op th env aenv OpOpen t = snd (open_circuit th env aenv t)"
| "run_op th env aenv OpClose t = snd (close_circuit th env aenv t)"

definition current_at :: "throttler_state \<Rightarrow> micros \<Rightarrow> throttler_state item_atomic_live_current" where
  "current_at st now = \<lparr>item_live = st, item_live_timestamp = now\<rparr>"

text \<open>The next state, when the operation writes one.\<close>

definition written :: "'c fleet_error + (throttler_state item_atomic_mutation \<times> 'o) \<Rightarrow> throttler_state \<Rightarrow> bool" where
  "written r st \<longleftrightarrow> (\<exists>ttl c. r = Inr (SetValue st ttl, c))"

fun op_moves :: "'c throttler \<Rightarrow> throttler_op \<Rightarrow> micros \<Rightarrow> throttler_state \<Rightarrow> throttler_state \<Rightarrow> bool" where
  "op_moves th (OpAcquire holder) now st st' = written (decide_try_acquire th holder (current_at st now)) st'"
| "op_moves th (OpRelease permit task_outcome) now st st' = written (decide_release th permit task_outcome (current_at st now)) st'"
| "op_moves th (OpExtend permit) now st st' = (probe_acquired permit \<and>
     (\<exists>holder. permit_holder_id permit = Some holder \<and> written (decide_extend_probe th holder (current_at st now)) st'))"
| "op_moves th OpOpen now st st' = written (decide_set_circuit th Circuit_Open True False (current_at st now)) st'"
| "op_moves th OpClose now st st' = written (decide_set_circuit th Circuit_Closed False True (current_at st now)) st'"

section \<open>Operations on the table\<close>

definition well_made_throttler :: "'c throttler \<Rightarrow> bool" where
  "well_made_throttler th \<longleftrightarrow> item_codec (state_item th) = Plain \<and> faithful (state_item th) \<and> (\<exists>d. state_ttl th = Ttl (Some d))"

definition state_lifetime :: "'c throttler \<Rightarrow> int" where
  "state_lifetime th = (case state_ttl th of Ttl (Some d) \<Rightarrow> ttl_micros d | _ \<Rightarrow> 0)"

definition state_key :: "'c throttler \<Rightarrow> string \<Rightarrow> bool" where
  "state_key th key \<longleftrightarrow> item_key_from_parts (state_item th) [FLEET_THROTTLER_STATE_KEY_PART] = (Inr key :: 'c kv_error + string)"

definition state_written :: "'c throttler \<Rightarrow> string \<Rightarrow> micros \<Rightarrow> throttler_state \<Rightarrow> kv_table \<Rightarrow> kv_table \<Rightarrow> bool" where
  "state_written th key now st t t' \<longleftrightarrow> (\<exists>bs. decode_value_for_key (state_item th) key bs = (Inr st :: 'c kv_error + throttler_state)
     \<and> t' = t(key \<mapsto> \<lparr>kv_value = bs, kv_expires_at = Some (now + state_lifetime th), kv_updated_at = now\<rparr>))"

definition op_effect :: "'c throttler \<Rightarrow> throttler_op \<Rightarrow> atomic_env \<Rightarrow> kv_table \<Rightarrow> kv_table \<Rightarrow> bool" where
  "op_effect th op aenv t t' \<longleftrightarrow> (\<exists>key n. state_key th key \<and> lock_time aenv key t = Some n \<and>
     (case item_at (state_item th) key n t of
        Some x \<Rightarrow> \<exists>st st'. x = Inr st \<and> op_moves th op n st st' \<and> state_written th key (apply_now aenv) st' t t'
      | None \<Rightarrow> \<exists>st'. (st' = initial_state th n \<or> op_moves th op n (initial_state th n) st')
          \<and> state_written th key (apply_now aenv) st' t t'))"

lemma SetValue_effect:
  assumes "well_made_throttler th" and "item_effect (state_item th) key now (SetValue st (state_ttl th)) t t'"
  shows "state_written th key now st t t'"
  using assms by (auto simp: item_effect_def well_made_throttler_def state_written_def state_lifetime_def
      intro: encoded_value_decodes)

text \<open>Every write of the throttler stores a state under its own time to live.\<close>

definition writes_states :: "'c throttler \<Rightarrow> (throttler_state item_atomic_live_current
    \<Rightarrow> 'c fleet_error + (throttler_state item_atomic_mutation \<times> 'o)) \<Rightarrow> bool" where
  "writes_states th decide \<longleftrightarrow> (\<forall>current m c. decide current = Inr (m, c) \<longrightarrow>
     m = KeepExistingItem \<or> (\<exists>st. m = SetValue st (state_ttl th)))"

lemma writes_states_all:
  "writes_states th (decide_try_acquire th holder)" "writes_states th (decide_release th permit task_outcome)"
  "writes_states th (decide_extend_probe th h)" "writes_states th (decide_set_circuit th target b b')"
  by (auto simp: writes_states_def decide_try_acquire_def decide_release_def decide_extend_probe_def decide_set_circuit_def
      map_sum_eq_Inr_iff Let_def split: if_splits option.splits prod.splits)

lemma live_or_init_effect:
  assumes well: "well_made_throttler th" and writes: "writes_states th decide"
    and run: "mutate_live_or_init_item_in_transaction_internal FleetKv (state_item th) aenv [FLEET_THROTTLER_STATE_KEY_PART]
      (\<lambda>now. Inr (initial_state th now, state_ttl th)) decide True tx = (Inr (res, c), tx')"
  shows "tables tx' = tables tx \<or> (\<exists>key n. state_key th key \<and> lock_time aenv key (tables tx) = Some n \<and>
     (case item_at (state_item th) key n (tables tx) of
        Some x \<Rightarrow> \<exists>st st'. x = Inr st \<and> written (decide (current_at st n)) st'
          \<and> state_written th key (apply_now aenv) st' (tables tx) (tables tx')
      | None \<Rightarrow> \<exists>st'. (st' = initial_state th n \<or> written (decide (current_at (initial_state th n) n)) st')
          \<and> state_written th key (apply_now aenv) st' (tables tx) (tables tx')))"
proof -
  have faith: "faithful (state_item th)" using well by (simp add: well_made_throttler_def)
  obtain key n m where key: "item_key_from_parts (state_item th) [FLEET_THROTTLER_STATE_KEY_PART] = Inr key"
    and n: "lock_time aenv key (tables tx) = Some n"
    and d: "decide \<lparr>item_live = item_live_value_seen res, item_live_timestamp = n\<rparr> = Inr (m, c)"
    and eff: "case item_at (state_item th) key n (tables tx) of
        Some v \<Rightarrow> \<not> item_initialized res \<and> v = Inr (item_live_value_seen res)
          \<and> item_effect (state_item th) key (apply_now aenv) m (tables tx) (tables tx')
      | None \<Rightarrow> item_initialized res \<and> (\<exists>ttl. Inr (initial_state th n, state_ttl th) = (Inr (item_live_value_seen res, ttl) :: 'a fleet_error + _)
          \<and> item_effect (state_item th) key (apply_now aenv)
              (case m of KeepExistingItem \<Rightarrow> SetValue (item_live_value_seen res) ttl
                 | SetValuePreservingExpiration w \<Rightarrow> SetValue w ttl | _ \<Rightarrow> m) (tables tx) (tables tx'))"
    using live_or_init_item_success [OF faith run] by blast
  have m: "m = KeepExistingItem \<or> (\<exists>st. m = SetValue st (state_ttl th))"
    using writes d by (auto simp: writes_states_def)
  show ?thesis
  proof (cases "item_at (state_item th) key n (tables tx)")
    case None
    then have seen: "item_live_value_seen res = initial_state th n" using eff by simp
    show ?thesis
    proof (cases "m = KeepExistingItem")
      case True
      then have "state_written th key (apply_now aenv) (initial_state th n) (tables tx) (tables tx')"
        using eff None seen by (auto intro: SetValue_effect [OF well])
      then show ?thesis using key n None by (auto simp: state_key_def)
    next
      case False
      then obtain st where "m = SetValue st (state_ttl th)" using m by blast
      then have "state_written th key (apply_now aenv) st (tables tx) (tables tx')"
        and "written (decide (current_at (initial_state th n) n)) st"
        using eff None seen d by (auto intro: SetValue_effect [OF well] simp: written_def current_at_def)
      then show ?thesis using key n None by (auto simp: state_key_def)
    qed
  next
    case (Some x)
    then have x: "x = Inr (item_live_value_seen res)"
      and e: "item_effect (state_item th) key (apply_now aenv) m (tables tx) (tables tx')" using eff by simp_all
    show ?thesis
    proof (cases "m = KeepExistingItem")
      case True
      then show ?thesis using e by (simp add: item_effect_def)
    next
      case False
      then obtain st where "m = SetValue st (state_ttl th)" using m by blast
      then have "state_written th key (apply_now aenv) st (tables tx) (tables tx')"
        and "written (decide (current_at (item_live_value_seen res) n)) st"
        using e d by (auto intro: SetValue_effect [OF well] simp: written_def current_at_def)
      then show ?thesis using key n Some x by (auto simp: state_key_def)
    qed
  qed
qed

lemma live_effect:
  assumes well: "well_made_throttler th" and writes: "writes_states th decide"
    and run: "mutate_live_item_in_transaction_internal FleetKv (state_item th) aenv [FLEET_THROTTLER_STATE_KEY_PART]
      decide True tx = (Inr (res, c), tx')"
  shows "tables tx' = tables tx \<or> (\<exists>key n st st'. state_key th key \<and> lock_time aenv key (tables tx) = Some n
     \<and> item_at (state_item th) key n (tables tx) = Some (Inr st) \<and> written (decide (current_at st n)) st'
     \<and> state_written th key (apply_now aenv) st' (tables tx) (tables tx'))"
proof -
  obtain key n v m where key: "item_key_from_parts (state_item th) [FLEET_THROTTLER_STATE_KEY_PART] = Inr key"
    and n: "lock_time aenv key (tables tx) = Some n" and v: "item_at (state_item th) key n (tables tx) = Some (Inr v)"
    and d: "decide \<lparr>item_live = v, item_live_timestamp = n\<rparr> = Inr (m, c)"
    and eff: "item_effect (state_item th) key (apply_now aenv) m (tables tx) (tables tx')"
    using live_item_success [OF run] by blast
  have "m = KeepExistingItem \<or> (\<exists>st. m = SetValue st (state_ttl th))"
    using writes d by (auto simp: writes_states_def)
  then show ?thesis
  proof
    assume "m = KeepExistingItem"
    then show ?thesis using eff by (simp add: item_effect_def)
  next
    assume "\<exists>st. m = SetValue st (state_ttl th)"
    then obtain st where m: "m = SetValue st (state_ttl th)" by blast
    have "state_written th key (apply_now aenv) st (tables tx) (tables tx')"
      by (rule SetValue_effect [OF well]) (use eff m in simp)
    moreover have "written (decide (current_at v n)) st" using d m by (auto simp: written_def current_at_def)
    ultimately show ?thesis using key n v by (auto simp: state_key_def)
  qed
qed

lemma absent_is_Inr: "absent_is d r = Inr x \<Longrightarrow> r = Inr x \<or> r = Inl (FleetKv KvKeyNotFound)"
  by (auto simp: absent_is_def split: sum.splits fleet_error.splits kv_error.splits)

lemma never_not_found:
  "decide_release th permit task_outcome current \<noteq> Inl (FleetKv KvKeyNotFound)"
  "decide_extend_probe th h current \<noteq> Inl (FleetKv KvKeyNotFound)"
  by (auto simp: decide_release_def decide_extend_probe_def add_duration_to_timestamp_def Let_def
      split: prod.splits option.splits if_splits)

text \<open>A live mutation of the state whose failure to find one is reported as a success.\<close>

lemma tolerant_live_effect:
  fixes th :: "'c throttler"
  assumes well: "well_made_throttler th" and writes: "writes_states th decide"
    and never: "\<forall>current. decide current \<noteq> Inl (FleetKv KvKeyNotFound)"
    and run: "map_prod (\<lambda>r. absent_is d (map_sum id snd r)) id (item_mutate_live_atomically_in_current_transaction
      FleetKv (state_item th) aenv [FLEET_THROTTLER_STATE_KEY_PART] decide tx) = (Inr x, tx')"
  shows "tables tx' = tables tx \<or> (\<exists>key n st st'. state_key th key \<and> lock_time aenv key (tables tx) = Some n
     \<and> item_at (state_item th) key n (tables tx) = Some (Inr st) \<and> written (decide (current_at st n)) st'
     \<and> state_written th key (apply_now aenv) st' (tables tx) (tables tx'))"
proof -
  obtain r where mut: "mutate_live_item_in_transaction_internal FleetKv (state_item th) aenv
      [FLEET_THROTTLER_STATE_KEY_PART] decide True tx = (r, tx')" and r: "absent_is d (map_sum id snd r) = Inr x"
    using run by (auto simp: item_mutate_live_atomically_in_current_transaction_def map_prod_def split: prod.splits)
  consider res c where "r = Inr (res, c)" | "r = Inl (FleetKv KvKeyNotFound)"
    using absent_is_Inr [OF r] by (cases r) auto
  then show ?thesis
  proof cases
    case 1
    then show ?thesis using live_effect [OF well writes] mut by blast
  next
    case 2
    then show ?thesis using live_item_not_found_keeps [OF _ never] mut by blast
  qed
qed

lemma op_effect_live:
  assumes "state_key th key" "lock_time aenv key t = Some n" "item_at (state_item th) key n t = Some (Inr st)"
    "op_moves th op n st st'" "state_written th key (apply_now aenv) st' t t'"
  shows "op_effect th op aenv t t'"
  using assms unfolding op_effect_def by fastforce

lemma fleet_pool_write_induct:
  assumes "P d" and "\<And>v tx'. body (begin_transaction d) = (Inr v, tx') \<Longrightarrow> P (tables tx')"
  shows "P (snd (fleet_pool_write operation env body d))"
  using fleet_pool_write_cases [of operation env body d] assms by (elim disjE exE conjE) simp_all

lemma live_or_init_op_effect:
  assumes well: "well_made_throttler th" and writes: "writes_states th decide"
    and moves: "\<And>n st st'. written (decide (current_at st n)) st' \<Longrightarrow> op_moves th op n st st'"
    and run: "map_prod (map_sum id snd) id
       (item_mutate_live_or_insert_initial_value_atomically_in_current_transaction FleetKv (state_item th) aenv
         [FLEET_THROTTLER_STATE_KEY_PART] (\<lambda>now. Inr (initial_state th now, state_ttl th)) decide tx) = (Inr v, tx')"
  shows "tables tx' = tables tx \<or> op_effect th op aenv (tables tx) (tables tx')"
proof -
  obtain res c where "mutate_live_or_init_item_in_transaction_internal FleetKv (state_item th) aenv
      [FLEET_THROTTLER_STATE_KEY_PART] (\<lambda>now. Inr (initial_state th now, state_ttl th)) decide True tx = (Inr (res, c), tx')"
    using run by (auto simp: item_mutate_live_or_insert_initial_value_atomically_in_current_transaction_def
        map_prod_def map_sum_eq_Inr_iff split: prod.splits)
  from live_or_init_effect [OF well writes this] show ?thesis
  proof (elim disjE exE conjE)
    fix key n
    assume key: "state_key th key" and n: "lock_time aenv key (tables tx) = Some n"
      and eff: "case item_at (state_item th) key n (tables tx) of
        Some x \<Rightarrow> \<exists>st st'. x = Inr st \<and> written (decide (current_at st n)) st'
          \<and> state_written th key (apply_now aenv) st' (tables tx) (tables tx')
      | None \<Rightarrow> \<exists>st'. (st' = initial_state th n \<or> written (decide (current_at (initial_state th n) n)) st')
          \<and> state_written th key (apply_now aenv) st' (tables tx) (tables tx')"
    have "op_effect th op aenv (tables tx) (tables tx')"
    proof (cases "item_at (state_item th) key n (tables tx)")
      case None
      then show ?thesis using eff key n moves unfolding op_effect_def by fastforce
    next
      case (Some x)
      then obtain st st' where "x = Inr st" "written (decide (current_at st n)) st'"
        "state_written th key (apply_now aenv) st' (tables tx) (tables tx')" using eff by auto
      then show ?thesis using op_effect_live [OF key n _ moves] Some by blast
    qed
    then show ?thesis by blast
  qed blast
qed

definition op_result :: "'c throttler \<Rightarrow> throttler_op \<Rightarrow> atomic_env \<Rightarrow> kv_table \<Rightarrow> kv_table \<Rightarrow> bool" where
  "op_result th op aenv t t' \<longleftrightarrow> t' = t \<or> op_effect th op aenv t t'"

lemma op_result_pool:
  assumes "\<And>v tx'. body (begin_transaction t) = (Inr v, tx') \<Longrightarrow> op_result th op aenv t (tables tx')"
  shows "op_result th op aenv t (snd (fleet_pool_write operation env body t))"
  by (rule fleet_pool_write_induct [where P = "op_result th op aenv t"]) (simp_all add: op_result_def [of _ _ _ t t] assms)

lemma acquire_result_effect:
  assumes "well_made_throttler th"
  shows "op_result th (OpAcquire holder) (aenv\<lparr>atomic_reply := env_reply env\<rparr>) t
    (snd (throttler_try_acquire th env aenv holder t))"
  unfolding throttler_try_acquire_def
proof (rule op_result_pool)
  fix v tx'
  assume run: "throttler_try_acquire_in_current_transaction th (aenv\<lparr>atomic_reply := env_reply env\<rparr>) holder
      (begin_transaction t) = (Inr v, tx')"
  show "op_result th (OpAcquire holder) (aenv\<lparr>atomic_reply := env_reply env\<rparr>) t (tables tx')"
    using live_or_init_op_effect [OF assms writes_states_all(1) _ run [unfolded throttler_try_acquire_in_current_transaction_def],
        of "OpAcquire holder"]
    by (simp add: op_result_def)
qed

lemma set_circuit_result_effect:
  assumes "well_made_throttler th"
    and moves: "\<And>n st st'. written (decide_set_circuit th target b b' (current_at st n)) st' \<Longrightarrow> op_moves th op n st st'"
  shows "op_result th op aenv t (snd (fleet_pool_write operation env
    (\<lambda>tx. set_circuit_state_in_current_transaction th aenv target b b' tx) t))"
proof (rule op_result_pool)
  fix v tx'
  assume run: "set_circuit_state_in_current_transaction th aenv target b b' (begin_transaction t) = (Inr v, tx')"
  show "op_result th op aenv t (tables tx')"
  proof (cases "throttler_breaker th")
    case None
    then show ?thesis using run by (auto simp: set_circuit_state_in_current_transaction_def op_result_def)
  next
    case (Some x)
    have "map_prod (map_sum id snd) id
       (item_mutate_live_or_insert_initial_value_atomically_in_current_transaction FleetKv (state_item th) aenv
         [FLEET_THROTTLER_STATE_KEY_PART] (\<lambda>now. Inr (initial_state th now, state_ttl th))
         (decide_set_circuit th target b b') (begin_transaction t)) = (Inr v, tx')"
      using run Some by (simp add: set_circuit_state_in_current_transaction_def)
    from live_or_init_op_effect [OF assms(1) writes_states_all(4) moves this] show ?thesis
      by (simp add: op_result_def)
  qed
qed

lemma tolerant_op_result:
  assumes "well_made_throttler th" "writes_states th decide" "\<forall>current. decide current \<noteq> Inl (FleetKv KvKeyNotFound)"
    and moves: "\<And>n st st'. written (decide (current_at st n)) st' \<Longrightarrow> op_moves th op n st st'"
    and run: "map_prod (\<lambda>r. absent_is d (map_sum id snd r)) id (item_mutate_live_atomically_in_current_transaction
      FleetKv (state_item th) aenv [FLEET_THROTTLER_STATE_KEY_PART] decide (begin_transaction t)) = (Inr x, tx')"
  shows "op_result th op aenv t (tables tx')"
  using tolerant_live_effect [OF assms(1,2,3) run] moves op_effect_live
  unfolding op_result_def begin_tables by (elim disjE exE conjE) (simp, blast)

lemma release_result_effect:
  fixes th :: "'c throttler"
  assumes "well_made_throttler th"
  shows "op_result th (OpRelease permit task_outcome) (aenv\<lparr>atomic_reply := env_reply env\<rparr>) t
    (snd (throttler_release th env aenv permit task_outcome t))"
proof (cases "require_permit_matches_throttler th permit :: 'c fleet_error + unit")
  case (Inr u)
  show ?thesis
  proof (cases "needs_state_cleanup th permit")
    case True
    show ?thesis unfolding throttler_release_def Inr sum.case
    proof (simp only: True not_True_eq_False if_False, rule op_result_pool)
      fix v tx'
      assume "throttler_release_in_current_transaction th (aenv\<lparr>atomic_reply := env_reply env\<rparr>) permit task_outcome
          (begin_transaction t) = (Inr v, tx')"
      then have "map_prod (\<lambda>r. absent_is default_release_result (map_sum id snd r)) id
          (item_mutate_live_atomically_in_current_transaction FleetKv (state_item th) (aenv\<lparr>atomic_reply := env_reply env\<rparr>)
            [FLEET_THROTTLER_STATE_KEY_PART] (decide_release th permit task_outcome) (begin_transaction t)) = (Inr v, tx')"
        using Inr True by (simp add: throttler_release_in_current_transaction_def)
      then show "op_result th (OpRelease permit task_outcome) (aenv\<lparr>atomic_reply := env_reply env\<rparr>) t (tables tx')"
        by (rule tolerant_op_result [OF assms writes_states_all(2), rotated 2]) (simp_all add: never_not_found)
    qed
  qed (simp add: throttler_release_def Inr op_result_def)
qed (simp add: throttler_release_def op_result_def)

lemma extend_result_effect:
  fixes th :: "'c throttler"
  assumes "well_made_throttler th"
  shows "op_result th (OpExtend permit) (aenv\<lparr>atomic_reply := env_reply env\<rparr>) t (snd (extend_probe th env aenv permit t))"
  unfolding extend_probe_def
proof (rule op_result_pool)
  fix v tx'
  assume run: "extend_probe_in_current_transaction th (aenv\<lparr>atomic_reply := env_reply env\<rparr>) permit (begin_transaction t) = (Inr v, tx')"
  show "op_result th (OpExtend permit) (aenv\<lparr>atomic_reply := env_reply env\<rparr>) t (tables tx')"
  proof (cases "probe_acquired permit")
    case False
    then show ?thesis using run by (auto simp: extend_probe_in_current_transaction_def op_result_def split: sum.splits)
  next
    case True
    then obtain holder where h: "permit_holder_id permit = Some holder"
      using run by (auto simp: extend_probe_in_current_transaction_def split: sum.splits option.splits)
    then have "map_prod (\<lambda>r. absent_is False (map_sum id snd r)) id
        (item_mutate_live_atomically_in_current_transaction FleetKv (state_item th) (aenv\<lparr>atomic_reply := env_reply env\<rparr>)
          [FLEET_THROTTLER_STATE_KEY_PART] (decide_extend_probe th holder) (begin_transaction t)) = (Inr v, tx')"
      using run True by (auto simp: extend_probe_in_current_transaction_def split: sum.splits)
    then show ?thesis
      by (rule tolerant_op_result [OF assms writes_states_all(3), rotated 2]) (simp_all add: never_not_found True h)
  qed
qed

lemma run_op_effect:
  assumes "well_made_throttler th"
  shows "op_result th op (aenv\<lparr>atomic_reply := env_reply env\<rparr>) t (run_op th env aenv op t)"
proof (cases op)
  case OpOpen
  show ?thesis unfolding OpOpen run_op.simps open_circuit_def open_circuit_in_current_transaction_def
    by (rule set_circuit_result_effect [OF assms]) simp
next
  case OpClose
  show ?thesis unfolding OpClose run_op.simps close_circuit_def close_circuit_in_current_transaction_def
    by (rule set_circuit_result_effect [OF assms]) simp
qed (simp_all add: assms acquire_result_effect release_result_effect extend_result_effect)

section \<open>What an acquisition answers\<close>

lemma lock_time_reply [simp]: "lock_time (aenv\<lparr>atomic_reply := r\<rparr>) key t = lock_time aenv key t"
  by (simp add: lock_time_def)

lemma op_effect_reply [simp]: "op_effect th op (aenv\<lparr>atomic_reply := r\<rparr>) t t' = op_effect th op aenv t t'"
  by (simp add: op_effect_def cong: option.case_cong)

lemma op_result_reply [simp]: "op_result th op (aenv\<lparr>atomic_reply := r\<rparr>) t t' = op_result th op aenv t t'"
  by (simp add: op_result_def)

lemmas run_op_result = run_op_effect [unfolded op_result_reply]

definition state_seen :: "'c throttler \<Rightarrow> string \<Rightarrow> micros \<Rightarrow> kv_table \<Rightarrow> throttler_state \<Rightarrow> bool" where
  "state_seen th key n t st \<longleftrightarrow>
     (case item_at (state_item th) key n t of None \<Rightarrow> st = initial_state th n | Some x \<Rightarrow> x = Inr st)"

lemma acquire_answer:
  fixes th :: "'c throttler"
  assumes well: "well_made_throttler th"
    and run: "throttler_try_acquire th env aenv holder t = (Inr answer, t')"
  obtains key n st out where "state_key th key" "lock_time aenv key t = Some n" "state_seen th key n t st"
    "evaluate_try_acquire th st n holder = (Inr out :: 'c fleet_error + _)" "acquire_result out = answer"
    "should_write out \<Longrightarrow> state_written th key (apply_now aenv) (outcome_state out) t t'"
    "\<not> should_write out \<Longrightarrow> item_at (state_item th) key n t \<noteq> None \<Longrightarrow> t' = t"
proof -
  let ?aenv = "aenv\<lparr>atomic_reply := env_reply env\<rparr>"
  have faith: "faithful (state_item th)" using well by (simp add: well_made_throttler_def)
  obtain tx' where body: "throttler_try_acquire_in_current_transaction th ?aenv holder (begin_transaction t) = (Inr answer, tx')"
    and t': "t' = tables tx'"
    using fleet_pool_write_ok [OF run [unfolded throttler_try_acquire_def]] by blast
  obtain res where raw: "mutate_live_or_init_item_in_transaction_internal FleetKv (state_item th) ?aenv
      [FLEET_THROTTLER_STATE_KEY_PART] (\<lambda>now. Inr (initial_state th now, state_ttl th)) (decide_try_acquire th holder)
      True (begin_transaction t) = (Inr (res, answer), tx')"
    using body by (auto simp: throttler_try_acquire_in_current_transaction_def
        item_mutate_live_or_insert_initial_value_atomically_in_current_transaction_def map_prod_def map_sum_eq_Inr_iff
        split: prod.splits)
  have reply: "apply_now ?aenv = apply_now aenv" by simp
  obtain key n m where key: "item_key_from_parts (state_item th) [FLEET_THROTTLER_STATE_KEY_PART] = Inr key"
    and n: "lock_time aenv key t = Some n"
    and d: "decide_try_acquire th holder \<lparr>item_live = item_live_value_seen res, item_live_timestamp = n\<rparr> = Inr (m, answer)"
    and eff: "case item_at (state_item th) key n t of
        Some v \<Rightarrow> \<not> item_initialized res \<and> v = Inr (item_live_value_seen res)
          \<and> item_effect (state_item th) key (apply_now aenv) m t t'
      | None \<Rightarrow> item_initialized res \<and> (\<exists>ttl. Inr (initial_state th n, state_ttl th) = (Inr (item_live_value_seen res, ttl) :: 'c fleet_error + _)
          \<and> item_effect (state_item th) key (apply_now aenv)
              (case m of KeepExistingItem \<Rightarrow> SetValue (item_live_value_seen res) ttl
                 | SetValuePreservingExpiration w \<Rightarrow> SetValue w ttl | _ \<Rightarrow> m) t t')"
    using live_or_init_item_success [OF faith raw, unfolded begin_tables lock_time_reply reply] t' by blast
  obtain out where out: "evaluate_try_acquire th (item_live_value_seen res) n holder = (Inr out :: 'c fleet_error + _)"
    and answer: "acquire_result out = answer"
    and m: "m = (if should_write out then SetValue (outcome_state out) (state_ttl th) else KeepExistingItem)"
    using d by (auto simp: decide_try_acquire_def map_sum_eq_Inr_iff)
  have seen: "state_seen th key n t (item_live_value_seen res)"
    using eff by (auto simp: state_seen_def split: option.splits)
  show ?thesis
  proof (rule that [OF _ n seen out answer])
    show "state_key th key" using key by (simp add: state_key_def)
    show "state_written th key (apply_now aenv) (outcome_state out) t t'" if "should_write out"
      using eff m that by (cases "item_at (state_item th) key n t") (auto intro: SetValue_effect [OF well])
    show "t' = t" if "\<not> should_write out" "item_at (state_item th) key n t \<noteq> None"
      using eff m that by (auto simp: item_effect_def)
  qed
qed

section \<open>Promises\<close>

text \<open>The clock readings of an operation: none before \<open>since\<close>, none after its last write.\<close>

definition clocked :: "atomic_env \<Rightarrow> micros \<Rightarrow> bool" where
  "clocked aenv since \<longleftrightarrow> (\<forall>i. since \<le> snd (lock_attempts aenv i) \<and> snd (lock_attempts aenv i) \<le> apply_now aenv)"

definition clocked_until :: "atomic_env \<Rightarrow> micros \<Rightarrow> bool" where
  "clocked_until aenv until \<longleftrightarrow> (\<forall>i. snd (lock_attempts aenv i) < until)"

lemma clocked_time:
  assumes "lock_time aenv key t = Some n" and "clocked aenv since"
  shows "since \<le> n" "n \<le> apply_now aenv" "clocked_until aenv until \<Longrightarrow> n < until"
  using assms by (auto simp: clocked_def clocked_until_def lock_time_def)

text \<open>
  What may happen between two moments: operations of the throttler by any process that are \<open>permitted\<close>, with any outcome of
  their transactions, and whatever keeps the live row of the state, such as every operation of another primitive and
  the deletion of expired rows.
\<close>

inductive throttler_step :: "'c throttler \<Rightarrow> (throttler_op \<Rightarrow> bool) \<Rightarrow> micros \<Rightarrow> micros \<Rightarrow> kv_table \<Rightarrow> kv_table \<Rightarrow> bool"
  for th permitted since until where
  operates: "permitted op \<Longrightarrow> clocked aenv since \<Longrightarrow> clocked_until aenv until \<Longrightarrow>
    throttler_step th permitted since until t (run_op th env aenv op t)"
| passes: "now < until \<Longrightarrow> (\<forall>key. state_key th key \<longrightarrow> live_row now t key \<noteq> None \<longrightarrow> t' key = t key) \<Longrightarrow>
    throttler_step th permitted since until t t'"

definition state_until :: "'c throttler \<Rightarrow> (throttler_state \<Rightarrow> bool) \<Rightarrow> micros \<Rightarrow> kv_table \<Rightarrow> bool" where
  "state_until th Q until t \<longleftrightarrow> (\<exists>key st. state_key th key \<and> Q st
     \<and> (\<forall>now < until. item_at (state_item th) key now t = Some (Inr st)))"

lemma state_key_unique: "state_key th key \<Longrightarrow> state_key th key' \<Longrightarrow> key = key'"
  by (simp add: state_key_def)

lemma written_state_until:
  assumes "state_key th key" "state_written th key now st t t'" "until \<le> now + state_lifetime th" "Q st"
  shows "state_until th Q until t'"
proof -
  have "item_at (state_item th) key now' t' = Some (Inr st)" if "now' < until" for now'
    using assms(2,3) that by (auto simp: state_written_def item_at_def get_bytes_statement_def live_row_def not_expired_def)
  then show ?thesis using assms(1,4) unfolding state_until_def by blast
qed

lemma state_until_seen:
  assumes "state_until th Q until t" "state_key th key" "n < until" "state_seen th key n t st"
  shows "Q st" "item_at (state_item th) key n t \<noteq> None"
  using assms by (auto simp: state_until_def state_seen_def dest: state_key_unique)

locale state_promise =
  fixes made :: "'c throttler \<Rightarrow> 'p \<Rightarrow> bool"
    and holds :: "'c throttler \<Rightarrow> 'p \<Rightarrow> throttler_state \<Rightarrow> bool"
    and permitted :: "'c throttler \<Rightarrow> 'p \<Rightarrow> throttler_op \<Rightarrow> bool"
    and since :: "'c throttler \<Rightarrow> 'p \<Rightarrow> micros"
    and until :: "'c throttler \<Rightarrow> 'p \<Rightarrow> micros"
  assumes well: "made th p \<Longrightarrow> well_made_throttler th"
    and lasts: "made th p \<Longrightarrow> until th p \<le> since th p + state_lifetime th"
    and keeps: "made th p \<Longrightarrow> permitted th p op \<Longrightarrow> since th p \<le> n \<Longrightarrow> n < until th p \<Longrightarrow> holds th p st
      \<Longrightarrow> op_moves th op n st st' \<Longrightarrow> holds th p st'"
begin

lemma step_keeps:
  assumes made: "made th p" and "throttler_step th (permitted th p) (since th p) (until th p) t t'"
    and "state_until th (holds th p) (until th p) t"
  shows "state_until th (holds th p) (until th p) t'"
proof -
  obtain key st where key: "state_key th key" and st: "holds th p st"
    and at: "\<And>now. now < until th p \<Longrightarrow> item_at (state_item th) key now t = Some (Inr st)"
    using assms(3) unfolding state_until_def by blast
  from assms(2) show ?thesis
  proof cases
    case (operates op aenv env)
    consider "t' = t" | "op_effect th op aenv t t'"
      using run_op_result [OF well [OF made], of op aenv t env] operates(1) by (auto simp: op_result_def)
    then show ?thesis
    proof cases
      case 2
      then obtain key' n where key': "state_key th key'" and n: "lock_time aenv key' t = Some n"
        and eff: "case item_at (state_item th) key' n t of
            Some x \<Rightarrow> \<exists>st st'. x = Inr st \<and> op_moves th op n st st' \<and> state_written th key' (apply_now aenv) st' t t'
          | None \<Rightarrow> \<exists>st'. (st' = initial_state th n \<or> op_moves th op n (initial_state th n) st')
              \<and> state_written th key' (apply_now aenv) st' t t'"
        unfolding op_effect_def by blast
      have same: "key' = key" using key key' by (rule state_key_unique [symmetric])
      note times = clocked_time [OF n operates(3)] and upper = clocked_time(3) [OF n operates(3,4)]
      obtain st' where "op_moves th op n st st'" and w: "state_written th key (apply_now aenv) st' t t'"
        using eff at [OF upper] same by auto
      then have "holds th p st'" using keeps [OF made operates(2) times(1) upper st] by blast
      then show ?thesis using written_state_until [OF key w] lasts [OF made] times by force
    qed (use assms(3) in simp)
  next
    case (passes now)
    have "live_row now t key \<noteq> None" using at [OF passes(1)] item_at_live by blast
    then have "t' key = t key" using passes(2) key by blast
    then show ?thesis using key st at unfolding state_until_def by (metis item_at_row)
  qed
qed

lemma run_keeps:
  assumes "(throttler_step th (permitted th p) (since th p) (until th p))\<^sup>*\<^sup>* t t'" and "made th p"
    and "state_until th (holds th p) (until th p) t"
  shows "state_until th (holds th p) (until th p) t'"
  using assms by (induction rule: rtranclp_induct) (auto intro: step_keeps)

lemma acquire_within:
  fixes holder :: "string option"
  assumes "(throttler_step th (permitted th p) (since th p) (until th p))\<^sup>*\<^sup>* t t'" and made: "made th p"
    and "state_until th (holds th p) (until th p) t"
    and again: "throttler_try_acquire th env aenv holder t' = (Inr answer, t'')"
    and "clocked aenv (since th p)" "clocked_until aenv (until th p)"
  obtains st n out where "holds th p st" "since th p \<le> n" "n < until th p"
    "evaluate_try_acquire th st n holder = (Inr out :: 'c fleet_error + _)" "acquire_result out = answer"
    "\<not> should_write out \<Longrightarrow> t'' = t'"
proof -
  have held: "state_until th (holds th p) (until th p) t'" using run_keeps [OF assms(1) made assms(3)] .
  obtain key n st out where key: "state_key th key" "lock_time aenv key t' = Some n" and seen: "state_seen th key n t' st"
    and out: "evaluate_try_acquire th st n holder = (Inr out :: 'c fleet_error + _)" "acquire_result out = answer"
    and idle: "\<not> should_write out \<Longrightarrow> item_at (state_item th) key n t' \<noteq> None \<Longrightarrow> t'' = t'"
    using acquire_answer [OF well [OF made] again] by metis
  have n: "since th p \<le> n" "n < until th p" using clocked_time [OF key(2) assms(5)] assms(6) by blast+
  note state_until_seen [OF held key(1) n(2) seen]
  then show ?thesis using that [OF _ n out] idle by blast
qed

end

end
