(* ===== verification/ThrottlerPromises.thy ===== *)
theory ThrottlerPromises
  imports ThrottlerSafety
begin

text \<open>
  The three promises of a throttler, each an instance of \<open>state_promise\<close>: a slot of a permit, an open circuit
  and a probe of it.
\<close>

section \<open>Configured throttlers\<close>

lemma rounded_micros:
  "throttler_rounded_microseconds d = (if ttl_micros d > i64_max then None else Some (ttl_micros d))"
  using kv_rounded [of d]
  by (auto simp: throttler_rounded_microseconds_def kv_duration_to_rounded_microseconds_def Let_def split: if_splits)

lemma ttl_micros_mono: "d \<le> d' \<Longrightarrow> ttl_micros d \<le> ttl_micros d'"
  by (simp add: ttl_micros_def div_le_mono)

lemma scaled_covers:
  assumes "ttl_micros d \<le> i64_max"
  shows "d \<le> scale_duration_for_throttler_state_ttl d"
proof -
  have "d \<le> m * 1000" if "(d + 999) div 1000 \<le> m" for m
    using that div_mult_mod_eq [of "d + 999" 1000] mod_less_divisor [of 1000 "d + 999"] by linarith
  moreover have "0 \<le> i64_max" by (simp add: i64_max_def)
  then have "(d + 999) div 1000 \<le> nat i64_max" using assms by (simp only: le_nat_iff ttl_micros_def)
  ultimately have "d \<le> max_kv_ttl_duration" by (simp add: max_kv_ttl_duration_def)
  then show ?thesis
    by (simp add: scale_duration_for_throttler_state_ttl_def option_unwrap_or_def duration_checked_mul_def
        FLEET_THROTTLER_STATE_TTL_MULTIPLIER_def)
qed

lemma state_ttl_covers:
  assumes "throttler_state_ttl rate concurrency breaker = (Inr ttl :: 'c fleet_error + ttl)"
  obtains d where "ttl = Ttl (Some d)" "ttl_micros d \<le> i64_max"
    "\<And>r. rate = Some r \<Longrightarrow> scale_duration_for_throttler_state_ttl (rate_interval r) \<le> d"
    "\<And>l. concurrency = Some l \<Longrightarrow> scale_duration_for_throttler_state_ttl (resolved_max_hold_duration l) \<le> d"
    "\<And>b. breaker = Some b \<Longrightarrow> scale_duration_for_throttler_state_ttl (recovery_timeout b) \<le> d
       \<and> scale_duration_for_throttler_state_ttl DEFAULT_FLEET_THROTTLER_PROBE_WINDOW \<le> d"
proof -
  define raw where "raw = (let ttl = 0;
          ttl = (case rate of None \<Rightarrow> ttl
            | Some r \<Rightarrow> max ttl (scale_duration_for_throttler_state_ttl (rate_interval r)));
          ttl = (case concurrency of None \<Rightarrow> ttl
            | Some l \<Rightarrow> max ttl (scale_duration_for_throttler_state_ttl (resolved_max_hold_duration l)))
      in case breaker of None \<Rightarrow> ttl
            | Some b \<Rightarrow> max (max ttl (scale_duration_for_throttler_state_ttl (recovery_timeout b)))
                (scale_duration_for_throttler_state_ttl DEFAULT_FLEET_THROTTLER_PROBE_WINDOW))"
  define d where "d = (let ttl = (if raw = 0 then DEFAULT_FLEET_THROTTLER_STATE_TTL else raw)
      in if ttl < MIN_KV_TTL then MIN_KV_TTL else ttl)"
  have "raw \<le> d" by (simp add: d_def Let_def)
  moreover have "throttler_state_ttl rate concurrency breaker
      = (map_sum (\<lambda>e. FleetThrottleError (FleetInvalidThrottlerStateTtl e)) id (ttl_expires_after d) :: 'c fleet_error + ttl)"
    by (simp only: throttler_state_ttl_def Let_def d_def raw_def)
  then have "(map_sum (\<lambda>e. FleetThrottleError (FleetInvalidThrottlerStateTtl e)) id (ttl_expires_after d)
      :: 'c fleet_error + ttl) = Inr ttl" using assms by simp
  then have "ttl_micros d \<le> i64_max" "ttl = Ttl (Some d)" by (auto simp: map_sum_eq_Inr_iff ttl_expires_after_ok)
  moreover have "rate = Some r \<Longrightarrow> scale_duration_for_throttler_state_ttl (rate_interval r) \<le> raw" for r
    by (simp add: raw_def Let_def le_max_iff_disj split: option.splits)
  moreover have "concurrency = Some l \<Longrightarrow> scale_duration_for_throttler_state_ttl (resolved_max_hold_duration l) \<le> raw" for l
    by (simp add: raw_def Let_def le_max_iff_disj split: option.splits)
  moreover have "breaker = Some b \<Longrightarrow> scale_duration_for_throttler_state_ttl (recovery_timeout b) \<le> raw
       \<and> scale_duration_for_throttler_state_ttl DEFAULT_FLEET_THROTTLER_PROBE_WINDOW \<le> raw" for b
    by (simp add: raw_def Let_def le_max_iff_disj split: option.splits)
  ultimately show ?thesis using that [of d] order_trans [OF _ \<open>raw \<le> d\<close>] by auto
qed

text \<open>What the constructor of a throttler ensures.\<close>

definition configured :: "'c throttler \<Rightarrow> bool" where
  "configured th \<longleftrightarrow> (\<exists>base root_key config. faithful base \<and> new_throttler base root_key config = Inr th)"


lemma resolve_option_Inr:
  "resolve_option f x = Inr y \<longleftrightarrow> (case x of None \<Rightarrow> y = None | Some a \<Rightarrow> \<exists>b. f a = Inr b \<and> y = Some b)"
  by (auto simp: resolve_option_def map_sum_eq_Inr_iff split: option.splits)

lemma configured_parts:
  assumes "configured (th :: 'c throttler)"
  obtains base p and rate concurrency breaker where "faithful base" "state_item th = item_new_plain base p"
    "throttler_state_ttl (throttler_rate th) (throttler_concurrency th) (throttler_breaker th)
      = (Inr (state_ttl th) :: 'c fleet_error + ttl)"
    "resolve_option resolve_throttler_rate_limit rate = (Inr (throttler_rate th) :: 'c fleet_error + _)"
    "resolve_option resolve_throttler_concurrency_limit concurrency = (Inr (throttler_concurrency th) :: 'c fleet_error + _)"
    "resolve_option resolve_throttler_circuit_breaker breaker = (Inr (throttler_breaker th) :: 'c fleet_error + _)"
  using assms unfolding configured_def new_throttler_def
  by (auto simp: result_bind_eq_Inr_iff split: if_splits)

lemma validated_micros: "validate_duration_for_throttler d e = Inr u \<Longrightarrow> 0 < d \<and> ttl_micros d \<le> i64_max"
  by (auto simp: validate_duration_for_throttler_def rounded_micros split: if_splits)

lemma configured_facts:
  assumes "configured th"
  shows "well_made_throttler th" "state_lifetime th \<le> i64_max"
    "throttler_rate th = Some r \<Longrightarrow> 0 < requests_per_interval r \<and> 0 < rate_interval r
       \<and> ttl_micros (rate_interval r) \<le> i64_max \<and> ttl_micros (rate_interval r) \<le> state_lifetime th"
    "throttler_concurrency th = Some l \<Longrightarrow> 0 < resolved_max_concurrent l \<and> resolved_max_concurrent l \<le> FLEET_MAX_CONCURRENT_LIMIT
       \<and> ttl_micros (resolved_max_hold_duration l) \<le> i64_max \<and> ttl_micros (resolved_max_hold_duration l) \<le> state_lifetime th"
    "throttler_breaker th = Some b \<Longrightarrow> 0 < failure_threshold b \<and> ttl_micros (recovery_timeout b) \<le> i64_max
       \<and> ttl_micros (recovery_timeout b) \<le> state_lifetime th
       \<and> ttl_micros DEFAULT_FLEET_THROTTLER_PROBE_WINDOW \<le> state_lifetime th"
proof -
  obtain base p rate concurrency breaker where parts: "faithful base" "state_item th = item_new_plain base p"
    and ttl: "throttler_state_ttl (throttler_rate th) (throttler_concurrency th) (throttler_breaker th)
      = (Inr (state_ttl th) :: 'a fleet_error + ttl)"
    and res: "resolve_option resolve_throttler_rate_limit rate = (Inr (throttler_rate th) :: 'a fleet_error + _)"
      "resolve_option resolve_throttler_concurrency_limit concurrency = (Inr (throttler_concurrency th) :: 'a fleet_error + _)"
      "resolve_option resolve_throttler_circuit_breaker breaker = (Inr (throttler_breaker th) :: 'a fleet_error + _)"
    using configured_parts [OF assms] by metis
  obtain d where d: "state_ttl th = Ttl (Some d)" "ttl_micros d \<le> i64_max"
    and covers: "\<And>r. throttler_rate th = Some r \<Longrightarrow> scale_duration_for_throttler_state_ttl (rate_interval r) \<le> d"
      "\<And>l. throttler_concurrency th = Some l \<Longrightarrow> scale_duration_for_throttler_state_ttl (resolved_max_hold_duration l) \<le> d"
      "\<And>b. throttler_breaker th = Some b \<Longrightarrow> scale_duration_for_throttler_state_ttl (recovery_timeout b) \<le> d
         \<and> scale_duration_for_throttler_state_ttl DEFAULT_FLEET_THROTTLER_PROBE_WINDOW \<le> d"
    using state_ttl_covers [OF ttl] by metis
  show "well_made_throttler th" using parts d by (simp add: well_made_throttler_def)
  have life: "state_lifetime th = ttl_micros d" using d by (simp add: state_lifetime_def)
  show "state_lifetime th \<le> i64_max" using life d by simp
  have through: "ttl_micros e \<le> state_lifetime th"
    if "ttl_micros e \<le> i64_max" "scale_duration_for_throttler_state_ttl e \<le> d" for e
    using ttl_micros_mono [of e d] scaled_covers [OF that(1)] that(2) life by simp
  show "0 < requests_per_interval r \<and> 0 < rate_interval r
       \<and> ttl_micros (rate_interval r) \<le> i64_max \<and> ttl_micros (rate_interval r) \<le> state_lifetime th" if "throttler_rate th = Some r"
    using res(1) that covers(1) through
    by (auto simp: resolve_option_Inr resolve_throttler_rate_limit_def map_sum_eq_Inr_iff dest!: validated_micros
        split: option.splits if_splits)
  show "0 < resolved_max_concurrent l \<and> resolved_max_concurrent l \<le> FLEET_MAX_CONCURRENT_LIMIT
       \<and> ttl_micros (resolved_max_hold_duration l) \<le> i64_max \<and> ttl_micros (resolved_max_hold_duration l) \<le> state_lifetime th"
    if "throttler_concurrency th = Some l"
    using res(2) that covers(2) through
    by (auto simp: resolve_option_Inr resolve_throttler_concurrency_limit_def map_sum_eq_Inr_iff Let_def dest!: validated_micros
        split: option.splits if_splits)
  have window: "ttl_micros DEFAULT_FLEET_THROTTLER_PROBE_WINDOW \<le> i64_max"
    by (simp add: ttl_micros_def DEFAULT_FLEET_THROTTLER_PROBE_WINDOW_def i64_max_def)
  show "0 < failure_threshold b \<and> ttl_micros (recovery_timeout b) \<le> i64_max
       \<and> ttl_micros (recovery_timeout b) \<le> state_lifetime th
       \<and> ttl_micros DEFAULT_FLEET_THROTTLER_PROBE_WINDOW \<le> state_lifetime th" if "throttler_breaker th = Some b"
    using res(3) that covers(3) through window
    by (auto simp: resolve_option_Inr resolve_throttler_circuit_breaker_def map_sum_eq_Inr_iff dest!: validated_micros
        split: option.splits if_splits)
qed

section \<open>Slots\<close>

record slot_promise =
  promised_slot :: string
  promised_holder :: string
  slot_since :: micros
  slot_until :: micros

definition slot_made :: "'c throttler \<Rightarrow> slot_promise \<Rightarrow> bool" where
  "slot_made th p \<longleftrightarrow> configured th \<and> (\<exists>l. throttler_concurrency th = Some l
     \<and> slot_until p = slot_since p + ttl_micros (resolved_max_hold_duration l))"

definition slot_kept :: "'c throttler \<Rightarrow> slot_promise \<Rightarrow> throttler_state \<Rightarrow> bool" where
  "slot_kept th p st \<longleftrightarrow> (\<exists>e. slot_until p \<le> e
     \<and> fmlookup (throttler_slots st) (promised_slot p) = Some \<lparr>throttler_slot_holder = promised_holder p, throttler_slot_expires_at = e\<rparr>)"

text \<open>Everything but a release by the holder of the slot.\<close>

definition slot_permits :: "'c throttler \<Rightarrow> slot_promise \<Rightarrow> throttler_op \<Rightarrow> bool" where
  "slot_permits th p op \<longleftrightarrow> (\<forall>permit task_outcome. op = OpRelease permit task_outcome \<longrightarrow>
     permit_slot_suffix permit \<noteq> Some (promised_slot p) \<or> permit_holder_id permit \<noteq> Some (promised_holder p))"

definition slot_from :: "'c throttler \<Rightarrow> slot_promise \<Rightarrow> micros" where "slot_from th p = slot_since p"
definition slot_to :: "'c throttler \<Rightarrow> slot_promise \<Rightarrow> micros" where "slot_to th p = slot_until p"

lemma live_slots_lookup: "fmlookup (live_slots now slots) s =
    (case fmlookup slots s of Some slot \<Rightarrow> if now < throttler_slot_expires_at slot then Some slot else None | None \<Rightarrow> None)"
  by (simp add: live_slots_def split: option.splits)

text \<open>What an acquisition does to the slots: it drops expired ones, takes a free one, or gives that one up again.\<close>

lemma concurrency_outcome:
  fixes th :: "'c throttler"
  assumes run: "acquire_concurrency_slot_if_configured th st now holder = (Inr (con, st') :: 'c fleet_error + _)"
  obtains (unlimited) "throttler_concurrency th = None" "acquired_slot_suffix con = None" "\<not> no_slot_available con" "st' = st"
  | (took) l h s e where "throttler_concurrency th = Some l" "holder = Some h" "acquired_slot_suffix con = Some s"
      "\<not> no_slot_available con" "s \<in> set (map decimal_text [1..<Suc (resolved_max_concurrent l)])"
      "fmlookup (live_slots now (throttler_slots st)) s = None"
      "e = now + ttl_micros (resolved_max_hold_duration l)"
      "st' = st\<lparr>throttler_slots := fmupd s \<lparr>throttler_slot_holder = h, throttler_slot_expires_at = e\<rparr>
         (live_slots now (throttler_slots st))\<rparr>"
  | (full) l where "throttler_concurrency th = Some l" "no_slot_available con" "acquired_slot_suffix con = None"
      "st' = st\<lparr>throttler_slots := live_slots now (throttler_slots st)\<rparr>"
proof (cases "throttler_concurrency th")
  case None
  then show ?thesis using run unlimited by (auto simp: acquire_concurrency_slot_if_configured_def)
next
  case (Some l)
  then obtain h where h: "holder = Some h" using run
    by (auto simp: acquire_concurrency_slot_if_configured_def split: option.splits)
  let ?live = "live_slots now (throttler_slots st)"
  let ?all = "map decimal_text [1..<Suc (resolved_max_concurrent l)]"
  show ?thesis
  proof (cases "find (\<lambda>s. fmlookup ?live s = None) ?all")
    case None
    then show ?thesis using run Some h
      by (intro full [OF Some]) (auto simp: acquire_concurrency_slot_if_configured_def Let_def simp del: upt_Suc)
  next
    case (Some s)
    then have s: "s \<in> set ?all" "fmlookup ?live s = None"
      unfolding find_Some_iff by (auto simp del: upt_Suc intro: nth_mem)
    have "map_sum id (\<lambda>e. (\<lparr>state_was_modified = True, no_slot_available = False, acquired_slot_suffix = Some s\<rparr>,
        st\<lparr>throttler_slots := fmupd s \<lparr>throttler_slot_holder = h, throttler_slot_expires_at = e\<rparr> ?live\<rparr>))
        (add_duration_to_timestamp now (resolved_max_hold_duration l)) = (Inr (con, st') :: 'c fleet_error + _)"
      using run Some \<open>throttler_concurrency th = Some l\<close> h
      by (simp add: acquire_concurrency_slot_if_configured_def Let_def del: upt_Suc)
    then obtain e where "(add_duration_to_timestamp now (resolved_max_hold_duration l) :: 'c fleet_error + micros) = Inr e"
      and con: "con = \<lparr>state_was_modified = True, no_slot_available = False, acquired_slot_suffix = Some s\<rparr>"
      and st': "st' = st\<lparr>throttler_slots := fmupd s \<lparr>throttler_slot_holder = h, throttler_slot_expires_at = e\<rparr> ?live\<rparr>"
      by (auto simp: map_sum_eq_Inr_iff)
    then have "e = now + ttl_micros (resolved_max_hold_duration l)"
      by (auto simp: add_duration_to_timestamp_def rounded_micros split: if_splits)
    then show ?thesis by (intro took [OF \<open>throttler_concurrency th = Some l\<close> h _ _ s _ st']) (simp_all add: con)
  qed
qed

lemma rate_outcome:
  assumes "consume_rate_limit_token_if_configured th st now acquired = (rate, st')"
  shows "throttler_slots st' = (if blocked_by_rate_limit rate then
      (case acquired of None \<Rightarrow> throttler_slots st | Some s \<Rightarrow> fmdrop s (throttler_slots st)) else throttler_slots st)
    \<and> circuit_state st' = circuit_state st \<and> circuit_opened_at st' = circuit_opened_at st
    \<and> circuit_failures st' = circuit_failures st
    \<and> probe_holder_id st' = probe_holder_id st \<and> probe_expires_at st' = probe_expires_at st"
  using assms by (auto simp: consume_rate_limit_token_if_configured_def Let_def split: option.splits if_splits)

text \<open>The four ways an acquisition ends.\<close>

lemma acquire_outcome:
  fixes th :: "'c throttler"
  assumes run: "evaluate_try_acquire th st now holder = (Inr out :: 'c fleet_error + _)"
  obtains (circuit_open) "should_block_for_open_circuit th st now holder = GateBlock"
      "acquire_result out = PermitCircuitOpen" "outcome_state out = st" "\<not> should_write out"
  | (no_slot) con where "should_block_for_open_circuit th st now holder \<noteq> GateBlock"
      "acquire_concurrency_slot_if_configured th st now holder = (Inr (con, outcome_state out) :: 'c fleet_error + _)"
      "no_slot_available con" "acquire_result out = PermitThrottled None"
  | (no_token) con st1 rate where "should_block_for_open_circuit th st now holder \<noteq> GateBlock"
      "acquire_concurrency_slot_if_configured th st now holder = (Inr (con, st1) :: 'c fleet_error + _)" "\<not> no_slot_available con"
      "consume_rate_limit_token_if_configured th st1 now (acquired_slot_suffix con) = (rate, outcome_state out)"
      "blocked_by_rate_limit rate" "acquire_result out = PermitThrottled (Some (retry_after rate))" "should_write out"
  | (granted) con st1 rate st2 probe permit where "should_block_for_open_circuit th st now holder \<noteq> GateBlock"
      "acquire_concurrency_slot_if_configured th st now holder = (Inr (con, st1) :: 'c fleet_error + _)" "\<not> no_slot_available con"
      "consume_rate_limit_token_if_configured th st1 now (acquired_slot_suffix con) = (rate, st2)"
      "\<not> blocked_by_rate_limit rate" "acquire_result out = PermitAcquired permit" "should_write out"
      "permit = \<lparr>permit_throttler_key = throttler_key th, permit_holder_id = holder,
         permit_slot_suffix = acquired_slot_suffix con, probe_acquired = probe\<rparr>"
      "probe \<longleftrightarrow> should_block_for_open_circuit th st now holder = AllowProbe"
      "\<not> probe \<Longrightarrow> outcome_state out = st2"
      "probe \<Longrightarrow> \<exists>h. holder = Some h \<and> outcome_state out = st2\<lparr>probe_holder_id := Some h,
         probe_expires_at := Some (now + ttl_micros DEFAULT_FLEET_THROTTLER_PROBE_WINDOW)\<rparr>"
proof (cases "should_block_for_open_circuit th st now holder = GateBlock")
  case True
  then show ?thesis using run by (intro circuit_open) (auto simp: evaluate_try_acquire_def)
next
  case gate: False
  obtain con st1 where con: "acquire_concurrency_slot_if_configured th st now holder = (Inr (con, st1) :: 'c fleet_error + _)"
    using run gate by (auto simp: evaluate_try_acquire_def Let_def result_bind_eq_Inr_iff)
  show ?thesis
  proof (cases "no_slot_available con")
    case True
    then show ?thesis using run gate con
      by (intro no_slot [OF gate, of con]) (auto simp: evaluate_try_acquire_def Let_def result_bind_def)
  next
    case slot: False
    obtain rate st2 where rate: "consume_rate_limit_token_if_configured th st1 now (acquired_slot_suffix con) = (rate, st2)"
      by (cases "consume_rate_limit_token_if_configured th st1 now (acquired_slot_suffix con)")
    show ?thesis
    proof (cases "blocked_by_rate_limit rate")
      case True
      then show ?thesis using run gate con slot rate
        by (intro no_token [OF gate con slot, of rate]) (auto simp: evaluate_try_acquire_def Let_def result_bind_def)
    next
      case token: False
      note simps = evaluate_try_acquire_def Let_def result_bind_def gate con slot rate token
      show ?thesis
      proof (cases "should_block_for_open_circuit th st now holder = AllowProbe")
        case True
        then show ?thesis using run
          by (intro granted [OF gate con slot rate token, of
                "\<lparr>permit_throttler_key = throttler_key th, permit_holder_id = holder,
                   permit_slot_suffix = acquired_slot_suffix con, probe_acquired = True\<rparr>" True])
            (auto simp: simps map_sum_eq_Inr_iff add_duration_to_timestamp_def rounded_micros split: option.splits if_splits)
      next
        case False
        then show ?thesis using run
          by (intro granted [OF gate con slot rate token, of
                "\<lparr>permit_throttler_key = throttler_key th, permit_holder_id = holder,
                   permit_slot_suffix = acquired_slot_suffix con, probe_acquired = False\<rparr>" False])
            (auto simp: simps)
      qed
    qed
  qed
qed

text \<open>What each operation writes.\<close>

lemma acquire_moves:
  fixes th :: "'c throttler"
  assumes "op_moves th (OpAcquire holder) n st st'"
  obtains out where "evaluate_try_acquire th st n holder = (Inr out :: 'c fleet_error + _)" "should_write out" "outcome_state out = st'"
  using assms by (auto simp: written_def decide_try_acquire_def map_sum_eq_Inr_iff current_at_def split: if_splits)

lemma release_moves:
  assumes "op_moves th (OpRelease permit task_outcome) n st st'"
  shows "snd (apply_release_and_outcome th n permit task_outcome st) = st'"
  using assms by (auto simp: written_def decide_release_def current_at_def split: prod.splits if_splits)

lemma extend_moves:
  assumes "op_moves th (OpExtend permit) n st st'"
  shows "\<exists>h e. permit_holder_id permit = Some h \<and> probe_holder_id st = Some h \<and> circuit_state st = Circuit_Open
    \<and> probe_expires_at st = Some e \<and> n < e
    \<and> st' = st\<lparr>probe_expires_at := Some (n + ttl_micros DEFAULT_FLEET_THROTTLER_PROBE_WINDOW)\<rparr>"
  using assms by (auto simp: written_def decide_extend_probe_def Let_def current_at_def map_sum_eq_Inr_iff
      add_duration_to_timestamp_def rounded_micros split: if_splits option.splits)

lemma open_moves:
  "op_moves th OpOpen n st st' \<Longrightarrow> st' = st\<lparr>circuit_state := Circuit_Open, circuit_opened_at := Some n,
     probe_holder_id := None, probe_expires_at := None\<rparr>"
  by (auto simp: written_def decide_set_circuit_def Let_def current_at_def)

lemma open_moves_circuit:
  "op_moves th OpOpen n st st' \<Longrightarrow> circuit_state st' = Circuit_Open \<and> circuit_opened_at st' = Some n"
  by (drule open_moves) simp

lemma close_moves:
  "op_moves th OpClose n st st' \<Longrightarrow> st' = st\<lparr>circuit_state := Circuit_Closed, circuit_opened_at := None,
     probe_holder_id := None, probe_expires_at := None, circuit_failures := 0\<rparr>"
  by (auto simp: written_def decide_set_circuit_def Let_def current_at_def)

lemma release_stages: "snd (apply_release_and_outcome th n permit task_outcome st) =
    (let st1 = snd (release_owned_concurrency_slot th permit st)
     in if throttler_breaker th = None then st1
        else snd (clear_probe_if_owned permit (snd (apply_task_outcome_to_circuit_state th n task_outcome st1))))"
  by (simp add: apply_release_and_outcome_def Let_def split: prod.splits)

lemma release_stage_fields [simp]:
  "throttler_slots (snd (clear_probe_if_owned permit st)) = throttler_slots st"
  "circuit_state (snd (clear_probe_if_owned permit st)) = circuit_state st"
  "circuit_opened_at (snd (clear_probe_if_owned permit st)) = circuit_opened_at st"
  "tokens (snd (clear_probe_if_owned permit st)) = tokens st"
  "last_refill (snd (clear_probe_if_owned permit st)) = last_refill st"
  "throttler_slots (snd (apply_task_outcome_to_circuit_state th n task_outcome st)) = throttler_slots st"
  "probe_holder_id (snd (apply_task_outcome_to_circuit_state th n task_outcome st)) = probe_holder_id st"
  "probe_expires_at (snd (apply_task_outcome_to_circuit_state th n task_outcome st)) = probe_expires_at st"
  "tokens (snd (apply_task_outcome_to_circuit_state th n task_outcome st)) = tokens st"
  "last_refill (snd (apply_task_outcome_to_circuit_state th n task_outcome st)) = last_refill st"
  "circuit_state (snd (release_owned_concurrency_slot th permit st)) = circuit_state st"
  "circuit_opened_at (snd (release_owned_concurrency_slot th permit st)) = circuit_opened_at st"
  "probe_holder_id (snd (release_owned_concurrency_slot th permit st)) = probe_holder_id st"
  "probe_expires_at (snd (release_owned_concurrency_slot th permit st)) = probe_expires_at st"
  "tokens (snd (release_owned_concurrency_slot th permit st)) = tokens st"
  "last_refill (snd (release_owned_concurrency_slot th permit st)) = last_refill st"
  by (simp_all add: clear_probe_if_owned_def apply_task_outcome_to_circuit_state_def release_owned_concurrency_slot_def Let_def
      split: option.split throttler_task_outcome.split)

lemma release_slots:
  "throttler_slots (snd (apply_release_and_outcome th n permit task_outcome st)) = throttler_slots st \<or>
   (\<exists>s h slot. permit_slot_suffix permit = Some s \<and> permit_holder_id permit = Some h
      \<and> fmlookup (throttler_slots st) s = Some slot \<and> throttler_slot_holder slot = h
      \<and> throttler_slots (snd (apply_release_and_outcome th n permit task_outcome st)) = fmdrop s (throttler_slots st))"
  by (simp add: release_stages Let_def release_owned_concurrency_slot_def split: option.split)

lemma acquire_keeps_slot:
  fixes th :: "'c throttler"
  assumes run: "evaluate_try_acquire th st n holder = (Inr out :: 'c fleet_error + _)"
    and slot: "fmlookup (throttler_slots st) s = Some slot" "n < throttler_slot_expires_at slot"
  shows "fmlookup (throttler_slots (outcome_state out)) s = Some slot"
    and "acquire_result out = PermitAcquired permit \<Longrightarrow> permit_slot_suffix permit \<noteq> Some s"
proof -
  have live: "fmlookup (live_slots n (throttler_slots st)) s = Some slot" using slot by (simp add: live_slots_lookup)
  have kept: "fmlookup (throttler_slots st') s = Some slot" and other: "acquired_slot_suffix con \<noteq> Some s"
    if "acquire_concurrency_slot_if_configured th st n holder = (Inr (con, st') :: 'c fleet_error + _)" for con st'
    using that slot live by (cases rule: concurrency_outcome; simp; metis option.distinct(1))+
  have rated: "fmlookup (throttler_slots st2) s = Some slot"
    if "consume_rate_limit_token_if_configured th st1 n acquired = (rate, st2)" "fmlookup (throttler_slots st1) s = Some slot"
      "acquired \<noteq> Some s" for st1 acquired rate st2
    using rate_outcome [OF that(1)] that(2,3) by (auto split: if_splits option.splits)
  show "fmlookup (throttler_slots (outcome_state out)) s = Some slot"
    using run
  proof (cases rule: acquire_outcome)
    case (granted con st1 rate st2 probe permit)
    have "fmlookup (throttler_slots st2) s = Some slot" by (rule rated [OF granted(4) kept other]) (rule granted(2))+
    then show ?thesis using granted by (cases probe) auto
  qed (use slot kept other rated in blast)+
  show "permit_slot_suffix permit \<noteq> Some s" if "acquire_result out = PermitAcquired permit"
    using run
  proof (cases rule: acquire_outcome)
    case (granted con st1 rate st2 probe permit)
    then show ?thesis using other [OF granted(2)] that by auto
  qed (use that in simp_all)
qed

lemma slot_keeps:
  assumes "slot_permits th p op" "n < slot_until p" "slot_kept th p st" "op_moves th op n st st'"
  shows "slot_kept th p st'"
proof -
  obtain e where e: "slot_until p \<le> e" "fmlookup (throttler_slots st) (promised_slot p)
      = Some \<lparr>throttler_slot_holder = promised_holder p, throttler_slot_expires_at = e\<rparr>"
    using assms(3) by (auto simp: slot_kept_def)
  show ?thesis
  proof (cases op)
    case (OpAcquire holder)
    then obtain out where run: "evaluate_try_acquire th st n holder = (Inr out :: 'a fleet_error + _)"
      and st': "outcome_state out = st'" using assms(4) acquire_moves by blast
    show ?thesis using acquire_keeps_slot(1) [OF run e(2)] assms(2) e(1) st' by (auto simp: slot_kept_def)
  next
    case (OpRelease permit task_outcome)
    then show ?thesis using release_slots [of th n permit task_outcome st] release_moves [of th permit task_outcome n st st']
        assms(1,4) e by (auto simp: slot_kept_def slot_permits_def)
  next
    case (OpExtend permit)
    then show ?thesis using extend_moves [of th permit n st st'] assms(4) e by (auto simp: slot_kept_def)
  next
    case OpOpen
    then show ?thesis using open_moves [of th n st st'] assms(4) e by (auto simp: slot_kept_def)
  next
    case OpClose
    then show ?thesis using close_moves [of th n st st'] assms(4) e by (auto simp: slot_kept_def)
  qed
qed

interpretation slots: state_promise slot_made slot_kept slot_permits slot_from slot_to
proof
  show "well_made_throttler th" if "slot_made th p" for th :: "'c throttler" and p
    using that configured_facts(1) by (auto simp: slot_made_def)
  show "slot_to th p \<le> slot_from th p + state_lifetime th" if "slot_made th p" for th :: "'c throttler" and p
    using that configured_facts(4) by (fastforce simp: slot_made_def slot_to_def slot_from_def)
  show "slot_kept th p st'" if "slot_permits th p op" "n < slot_to th p" "slot_kept th p st" "op_moves th op n st st'"
    for th :: "'c throttler" and p op n st st'
    using slot_keeps that by (auto simp: slot_to_def)
qed

text \<open>C8: A concurrency slot belongs to one permit at a time, across processes. From the moment a permit with a
  slot is granted until its maximal hold time has passed, and as long as its own holder does not release it, no
  acquisition by any process is granted the same slot, whatever acquisitions, releases, probe extensions and circuit
  changes run in between and however their transactions end. A reset of the throttler gives up every slot and is not
  among the steps of these runs.\<close>

theorem throttler_slot_is_exclusive:
  fixes th :: "'c throttler"
  assumes th: "configured th" "throttler_concurrency th = Some l"
    and granted: "throttler_try_acquire th env aenv (Some holder) t = (Inr (PermitAcquired permit), t1)"
      "permit_slot_suffix permit = Some s" "clocked aenv since"
    and p: "p = \<lparr>promised_slot = s, promised_holder = holder, slot_since = since,
      slot_until = since + ttl_micros (resolved_max_hold_duration l)\<rparr>"
    and run: "(throttler_step th (slot_permits th p) since (slot_until p))\<^sup>*\<^sup>* t1 t2"
    and again: "throttler_try_acquire th env' aenv' holder' t2 = (Inr (PermitAcquired permit'), t3)"
      "clocked aenv' since" "clocked_until aenv' (slot_until p)"
  shows "permit_slot_suffix permit' \<noteq> Some s"
proof -
  have made: "slot_made th p" using th p by (simp add: slot_made_def)
  obtain key n st out where key: "state_key th key" "lock_time aenv key t = Some n"
    and out: "evaluate_try_acquire th st n (Some holder) = (Inr out :: 'c fleet_error + _)"
      "acquire_result out = PermitAcquired permit"
    and wr: "should_write out \<Longrightarrow> state_written th key (apply_now aenv) (outcome_state out) t t1"
    using acquire_answer [OF configured_facts(1) [OF th(1)] granted(1)] by metis
  note n = clocked_time(1,2) [OF key(2) granted(3)]
  from out(1) have "should_write out \<and> slot_kept th p (outcome_state out)"
  proof (cases rule: acquire_outcome)
    case (granted con st1 rate st2 probe permit)
    from granted(2) show ?thesis
    proof (cases rule: concurrency_outcome)
      case (took l' h s' e)
      have "s' = s" "h = holder" "l' = l" using took granted out(2) \<open>permit_slot_suffix _ = Some s\<close> th(2) by auto
      then have "fmlookup (throttler_slots st2) s = Some \<lparr>throttler_slot_holder = holder, throttler_slot_expires_at = e\<rparr>"
        using rate_outcome [OF granted(4)] took granted(5) by simp
      moreover have "slot_until p \<le> e" using n(1) took(7) \<open>l' = l\<close> p by simp
      ultimately show ?thesis using granted p by (cases probe) (auto simp: slot_kept_def)
    qed (use granted out(2) \<open>permit_slot_suffix _ = Some s\<close> in auto)
  qed (use out(2) in simp_all)
  moreover have "slot_to th p \<le> apply_now aenv + state_lifetime th" using slots.lasts [OF made] n by (simp add: slot_from_def p)
  ultimately have "state_until th (slot_kept th p) (slot_to th p) t1"
    using written_state_until [OF key(1) wr] by blast
  moreover have "(throttler_step th (slot_permits th p) (slot_from th p) (slot_to th p))\<^sup>*\<^sup>* t1 t2"
    using run p by (simp add: slot_from_def slot_to_def)
  ultimately obtain st n out where "slot_kept th p st" "n < slot_to th p"
    and "evaluate_try_acquire th st n holder' = (Inr out :: 'c fleet_error + _)" "acquire_result out = PermitAcquired permit'"
    using slots.acquire_within [OF _ made _ again(1), of t1] again(2,3) p by (metis slot_from_def slot_to_def slot_promise.select_convs(3))
  then show ?thesis using acquire_keeps_slot(2) p by (force simp: slot_kept_def slot_to_def)
qed

section \<open>The circuit\<close>

record circuit_promise =
  circuit_since :: micros
  circuit_until :: micros

definition circuit_made :: "'c throttler \<Rightarrow> circuit_promise \<Rightarrow> bool" where
  "circuit_made th p \<longleftrightarrow> configured th \<and> (\<exists>b. throttler_breaker th = Some b
     \<and> circuit_until p = circuit_since p + ttl_micros (recovery_timeout b))"

definition circuit_kept :: "'c throttler \<Rightarrow> circuit_promise \<Rightarrow> throttler_state \<Rightarrow> bool" where
  "circuit_kept th p st \<longleftrightarrow> circuit_state st = Circuit_Open \<and> (\<exists>opened. circuit_opened_at st = Some opened \<and> circuit_since p \<le> opened)"

text \<open>Everything but what closes a circuit.\<close>

definition circuit_permits :: "'c throttler \<Rightarrow> circuit_promise \<Rightarrow> throttler_op \<Rightarrow> bool" where
  "circuit_permits th p op \<longleftrightarrow> op \<noteq> OpClose \<and> (\<forall>permit. op \<noteq> OpRelease permit TaskSucceeded)"

definition circuit_from :: "'c throttler \<Rightarrow> circuit_promise \<Rightarrow> micros" where "circuit_from th p = circuit_since p"
definition circuit_to :: "'c throttler \<Rightarrow> circuit_promise \<Rightarrow> micros" where "circuit_to th p = circuit_until p"

lemma concurrency_fields:
  fixes th :: "'c throttler"
  assumes "acquire_concurrency_slot_if_configured th st now holder = (Inr (con, st') :: 'c fleet_error + _)"
  shows "circuit_state st' = circuit_state st \<and> circuit_opened_at st' = circuit_opened_at st
    \<and> circuit_failures st' = circuit_failures st \<and> tokens st' = tokens st \<and> last_refill st' = last_refill st
    \<and> probe_holder_id st' = probe_holder_id st \<and> probe_expires_at st' = probe_expires_at st"
  using assms by (cases rule: concurrency_outcome) simp_all

lemma acquire_keeps_circuit:
  fixes th :: "'c throttler"
  assumes run: "evaluate_try_acquire th st n holder = (Inr out :: 'c fleet_error + _)"
  shows "circuit_state (outcome_state out) = circuit_state st \<and> circuit_opened_at (outcome_state out) = circuit_opened_at st
    \<and> circuit_failures (outcome_state out) = circuit_failures st"
  using run
proof (cases rule: acquire_outcome)
  case (no_token con st1 rate)
  then show ?thesis using concurrency_fields [OF no_token(2)] rate_outcome [OF no_token(4)] by simp
next
  case (granted con st1 rate st2 probe permit)
  then show ?thesis using concurrency_fields [OF granted(2)] rate_outcome [OF granted(4)] by (cases probe) auto
qed (use concurrency_fields in blast)+

lemma task_outcome_circuit:
  "task_outcome \<noteq> TaskSucceeded \<Longrightarrow> circuit_state st = Circuit_Open \<Longrightarrow>
   circuit_state (snd (apply_task_outcome_to_circuit_state th n task_outcome st)) = Circuit_Open
   \<and> circuit_opened_at (snd (apply_task_outcome_to_circuit_state th n task_outcome st)) \<in> {circuit_opened_at st, Some n}"
  by (cases task_outcome) (auto simp: apply_task_outcome_to_circuit_state_def Let_def split: option.split)

lemma circuit_keeps:
  assumes "circuit_permits th p op" "circuit_since p \<le> n" "circuit_kept th p st" "op_moves th op n st st'"
  shows "circuit_kept th p st'"
proof (cases op)
  case (OpAcquire holder)
  then obtain out where run: "evaluate_try_acquire th st n holder = (Inr out :: 'a fleet_error + _)"
    and st': "outcome_state out = st'" using assms(4) acquire_moves by blast
  show ?thesis using acquire_keeps_circuit [OF run] assms(3) st' by (auto simp: circuit_kept_def)
next
  case (OpRelease permit task_outcome)
  let ?st1 = "snd (release_owned_concurrency_slot th permit st)"
  have "task_outcome \<noteq> TaskSucceeded" using assms(1) OpRelease by (auto simp: circuit_permits_def)
  note task_outcome_circuit [OF this, of ?st1 th n]
  moreover have "st' = (if throttler_breaker th = None then ?st1
      else snd (clear_probe_if_owned permit (snd (apply_task_outcome_to_circuit_state th n task_outcome ?st1))))"
    using release_moves [of th permit task_outcome n st st'] assms(4) OpRelease by (auto simp: release_stages Let_def)
  ultimately show ?thesis using assms(2,3) by (auto simp: circuit_kept_def)
next
  case (OpExtend permit)
  then show ?thesis using extend_moves [of th permit n st st'] assms(3,4) by (auto simp: circuit_kept_def)
next
  case OpOpen
  then show ?thesis using open_moves [of th n st st'] assms(2,4) by (auto simp: circuit_kept_def)
next
  case OpClose
  then show ?thesis using assms(1) by (simp add: circuit_permits_def)
qed

interpretation circuit: state_promise circuit_made circuit_kept circuit_permits circuit_from circuit_to
proof
  show "well_made_throttler th" if "circuit_made th p" for th :: "'c throttler" and p
    using that configured_facts(1) by (auto simp: circuit_made_def)
  show "circuit_to th p \<le> circuit_from th p + state_lifetime th" if "circuit_made th p" for th :: "'c throttler" and p
    using that configured_facts(5) by (fastforce simp: circuit_made_def circuit_to_def circuit_from_def)
  show "circuit_kept th p st'" if "circuit_permits th p op" "circuit_from th p \<le> n" "circuit_kept th p st" "op_moves th op n st st'"
    for th :: "'c throttler" and p op n st st'
    using circuit_keeps that by (auto simp: circuit_from_def)
qed

lemma open_gate_blocks:
  assumes "circuit_made th p" "circuit_kept th p st" "n < circuit_until p"
  shows "should_block_for_open_circuit th st n holder = GateBlock"
proof -
  obtain b where b: "throttler_breaker th = Some b" "circuit_until p = circuit_since p + ttl_micros (recovery_timeout b)"
    "ttl_micros (recovery_timeout b) \<le> i64_max"
    using assms(1) configured_facts(5) by (auto simp: circuit_made_def)
  moreover have "0 \<le> ttl_micros (recovery_timeout b)" by (simp add: ttl_micros_def)
  ultimately show ?thesis using assms(2,3)
    by (auto simp: should_block_for_open_circuit_def circuit_kept_def i64_saturating_sub_def i64_min_def
        duration_to_microseconds_lossy_def rounded_micros option_unwrap_or_def)
qed

lemma open_circuit_answer:
  fixes th :: "'c throttler"
  assumes well: "well_made_throttler th" and breaker: "throttler_breaker th \<noteq> None"
    and run: "open_circuit th env aenv t = (Inr (), t')"
  obtains key n st st' where "state_key th key" "lock_time aenv key t = Some n" "op_moves th OpOpen n st st'"
    "state_written th key (apply_now aenv) st' t t'"
proof -
  let ?aenv = "aenv\<lparr>atomic_reply := env_reply env\<rparr>"
  have reply: "apply_now ?aenv = apply_now aenv" by simp
  have faith: "faithful (state_item th)" using well by (simp add: well_made_throttler_def)
  let ?decide = "decide_set_circuit th Circuit_Open True False :: _ \<Rightarrow> 'c fleet_error + _"
  obtain tx' where body: "open_circuit_in_current_transaction th ?aenv (begin_transaction t) = (Inr (), tx')"
    and t': "t' = tables tx'"
    using fleet_pool_write_ok [OF run [unfolded open_circuit_def]] by blast
  obtain res where raw: "mutate_live_or_init_item_in_transaction_internal FleetKv (state_item th) ?aenv
      [FLEET_THROTTLER_STATE_KEY_PART] (\<lambda>now. Inr (initial_state th now, state_ttl th)) ?decide
      True (begin_transaction t) = (Inr (res, ()), tx')"
    using body breaker by (auto simp: open_circuit_in_current_transaction_def set_circuit_state_in_current_transaction_def
        item_mutate_live_or_insert_initial_value_atomically_in_current_transaction_def map_prod_def map_sum_eq_Inr_iff
        split: prod.splits)
  obtain key n m where key: "item_key_from_parts (state_item th) [FLEET_THROTTLER_STATE_KEY_PART] = Inr key"
    and n: "lock_time aenv key t = Some n"
    and d: "?decide \<lparr>item_live = item_live_value_seen res, item_live_timestamp = n\<rparr> = Inr (m, ())"
    and eff: "case item_at (state_item th) key n t of
        Some v \<Rightarrow> \<not> item_initialized res \<and> v = Inr (item_live_value_seen res)
          \<and> item_effect (state_item th) key (apply_now aenv) m t t'
      | None \<Rightarrow> item_initialized res \<and> (\<exists>ttl. Inr (initial_state th n, state_ttl th) = (Inr (item_live_value_seen res, ttl) :: 'c fleet_error + _)
          \<and> item_effect (state_item th) key (apply_now aenv)
              (case m of KeepExistingItem \<Rightarrow> SetValue (item_live_value_seen res) ttl
                 | SetValuePreservingExpiration w \<Rightarrow> SetValue w ttl | _ \<Rightarrow> m) t t')"
    using live_or_init_item_success [OF faith raw, unfolded begin_tables lock_time_reply reply] t' by blast
  obtain st' where m: "m = SetValue st' (state_ttl th)" using d by (auto simp: decide_set_circuit_def Let_def)
  then have "item_effect (state_item th) key (apply_now aenv) m t t'"
    using eff by (auto split: option.splits)
  then have "state_written th key (apply_now aenv) st' t t'" using m by (auto intro: SetValue_effect [OF well])
  moreover have "op_moves th OpOpen n (item_live_value_seen res) st'"
    using d m by (auto simp: written_def current_at_def)
  ultimately show ?thesis using that n key by (auto simp: state_key_def)
qed

text \<open>An acknowledged operation on the live state that does not answer what it answers when there is none.\<close>

lemma live_answer:
  fixes th :: "'c throttler"
  assumes run: "map_prod (\<lambda>r. absent_is d (map_sum id snd r)) id (item_mutate_live_atomically_in_current_transaction
      FleetKv (state_item th) aenv [FLEET_THROTTLER_STATE_KEY_PART] decide tx) = (Inr x, tx')"
    and "x \<noteq> d"
  obtains key n st m where "state_key th key" "lock_time aenv key (tables tx) = Some n"
    "item_at (state_item th) key n (tables tx) = Some (Inr st)" "decide \<lparr>item_live = st, item_live_timestamp = n\<rparr> = Inr (m, x)"
    "item_effect (state_item th) key (apply_now aenv) m (tables tx) (tables tx')"
proof -
  obtain r where mut: "mutate_live_item_in_transaction_internal FleetKv (state_item th) aenv
      [FLEET_THROTTLER_STATE_KEY_PART] decide True tx = (r, tx')" and r: "absent_is d (map_sum id snd r) = Inr x"
    using run by (auto simp: item_mutate_live_atomically_in_current_transaction_def map_prod_def split: prod.splits)
  have "r \<noteq> Inl (FleetKv KvKeyNotFound)" using r assms(2) by (auto simp: absent_is_def)
  then obtain res where "r = Inr (res, x)" using absent_is_Inr [OF r] by (cases r) auto
  then show ?thesis using live_item_success [OF mut [unfolded \<open>r = _\<close>]] that unfolding state_key_def by metis
qed

lemma release_answer:
  fixes th :: "'c throttler"
  assumes well: "well_made_throttler th"
    and run: "throttler_release th env aenv permit task_outcome t = (Inr result, t')" and "release_modified_state result"
  obtains key n st st' where "state_key th key" "lock_time aenv key t = Some n" "op_moves th (OpRelease permit task_outcome) n st st'"
    "apply_release_and_outcome th n permit task_outcome st = (result, st')" "state_written th key (apply_now aenv) st' t t'"
proof -
  let ?aenv = "aenv\<lparr>atomic_reply := env_reply env\<rparr>"
  have modified: "result \<noteq> default_release_result" using assms(3) by (auto simp: release_modified_state_def default_release_result_def)
  have match: "require_permit_matches_throttler th permit = (Inr () :: 'c fleet_error + unit)" and needs: "needs_state_cleanup th permit"
    using run modified by (auto simp: throttler_release_def split: sum.splits if_splits)
  obtain tx' where body: "throttler_release_in_current_transaction th ?aenv permit task_outcome (begin_transaction t) = (Inr result, tx')"
    and t': "t' = tables tx'"
    using fleet_pool_write_ok [OF run [unfolded throttler_release_def match sum.case, simplified needs, simplified]] by blast
  obtain key n st m where key: "state_key th key" "lock_time ?aenv key t = Some n"
    and d: "decide_release th permit task_outcome \<lparr>item_live = st, item_live_timestamp = n\<rparr> = (Inr (m, result) :: 'c fleet_error + _)"
    and eff: "item_effect (state_item th) key (apply_now ?aenv) m t t'"
    using live_answer [OF body [unfolded throttler_release_in_current_transaction_def match sum.case, simplified needs, simplified] modified]
    unfolding begin_tables t' by metis
  obtain st' where st': "apply_release_and_outcome th n permit task_outcome st = (result, st')" "m = SetValue st' (state_ttl th)"
    using d assms(3) by (auto simp: decide_release_def split: prod.splits if_splits)
  show ?thesis
  proof (rule that [OF key(1) _ _ st'(1)])
    show "lock_time aenv key t = Some n" using key(2) by simp
    show "op_moves th (OpRelease permit task_outcome) n st st'" using d st' by (auto simp: written_def current_at_def)
    show "state_written th key (apply_now aenv) st' t t'" using eff st'(2) by (auto intro: SetValue_effect [OF well])
  qed
qed

lemma extend_answer:
  fixes th :: "'c throttler"
  assumes well: "well_made_throttler th" and run: "extend_probe th env aenv permit t = (Inr True, t')"
  obtains key n st st' where "state_key th key" "lock_time aenv key t = Some n" "item_at (state_item th) key n t = Some (Inr st)"
    "op_moves th (OpExtend permit) n st st'" "state_written th key (apply_now aenv) st' t t'"
proof -
  let ?aenv = "aenv\<lparr>atomic_reply := env_reply env\<rparr>"
  obtain tx' where body: "extend_probe_in_current_transaction th ?aenv permit (begin_transaction t) = (Inr True, tx')"
    and t': "t' = tables tx'"
    using fleet_pool_write_ok [OF run [unfolded extend_probe_def]] by blast
  obtain holder where h: "permit_holder_id permit = Some holder" "probe_acquired permit"
    and live: "map_prod (\<lambda>r. absent_is False (map_sum id snd r)) id
      (item_mutate_live_atomically_in_current_transaction FleetKv (state_item th) ?aenv
        [FLEET_THROTTLER_STATE_KEY_PART] (decide_extend_probe th holder) (begin_transaction t)) = (Inr True, tx')"
    using body by (auto simp: extend_probe_in_current_transaction_def split: sum.splits option.splits if_splits)
  obtain key n st m where key: "state_key th key" "lock_time ?aenv key t = Some n"
    and st: "item_at (state_item th) key n t = Some (Inr st)"
    and d: "decide_extend_probe th holder \<lparr>item_live = st, item_live_timestamp = n\<rparr> = (Inr (m, True) :: 'c fleet_error + _)"
    and eff: "item_effect (state_item th) key (apply_now ?aenv) m t t'"
    using live_answer [OF live] unfolding begin_tables t' by metis
  obtain st' where m: "m = SetValue st' (state_ttl th)"
    using d by (auto simp: decide_extend_probe_def Let_def map_sum_eq_Inr_iff split: option.splits if_splits)
  show ?thesis
  proof (rule that [OF key(1) _ st])
    show "lock_time aenv key t = Some n" using key(2) by simp
    show "op_moves th (OpExtend permit) n st st'" using d m h by (auto simp: written_def current_at_def)
    show "state_written th key (apply_now aenv) st' t t'" using eff m by (auto intro: SetValue_effect [OF well])
  qed
qed

text \<open>A release that reports a failure and leaves the circuit open has opened it then.\<close>

lemma failed_release_opens:
  assumes "throttler_breaker th = Some b" and "snd (apply_release_and_outcome th n permit TaskFailed st) = st'"
    and "circuit_state st' = Circuit_Open"
  shows "circuit_opened_at st' = Some n"
  using assms by (cases "circuit_state (snd (release_owned_concurrency_slot th permit st))")
    (auto simp: release_stages Let_def apply_task_outcome_to_circuit_state_def split: if_splits)

lemma item_at_written:
  assumes "state_written th key now st t t'" "item_at (state_item th) key now' t' = Some x"
  shows "x = Inr st"
  using assms by (auto simp: state_written_def item_at_def get_bytes_statement_def live_row_def split: if_splits)

text \<open>C22: An open circuit blocks everybody. After a successful \<open>open_circuit\<close>, or a release by anybody that reports a failure
  and leaves the circuit open (the one that reaches the threshold, or a later one), and until the recovery timeout has
  passed since the earliest clock reading of that call, every acquisition by any process answers that the circuit is open
  and leaves the table as it was. In between run any acquisitions, extensions, openings, and releases that report a failure
  or nothing; runs with \<open>close_circuit\<close>, a release that reports a success, or a reset are excluded: each of them may end the
  promise.\<close>

theorem open_circuit_blocks_everybody:
  fixes th :: "'c throttler"
  assumes th: "configured th" "throttler_breaker th = Some b"
    and opened: "open_circuit th env aenv t = (Inr (), t1)
      \<or> throttler_release th env aenv permit TaskFailed t = (Inr result, t1) \<and> circuit_state_updated result
        \<and> state_key th state_row \<and> item_at (state_item th) state_row now t1 = Some (Inr st1) \<and> circuit_state st1 = Circuit_Open"
      "clocked aenv since"
    and p: "p = \<lparr>circuit_since = since, circuit_until = since + ttl_micros (recovery_timeout b)\<rparr>"
    and run: "(throttler_step th (circuit_permits th p) since (circuit_until p))\<^sup>*\<^sup>* t1 t2"
    and again: "throttler_try_acquire th env' aenv' holder t2 = (Inr answer, t3)"
      "clocked aenv' since" "clocked_until aenv' (circuit_until p)"
  shows "answer = PermitCircuitOpen \<and> t3 = t2"
proof -
  have made: "circuit_made th p" using th p by (simp add: circuit_made_def)
  have breaker: "throttler_breaker th \<noteq> None" using th(2) by simp
  note well = configured_facts(1) [OF th(1)]
  obtain key n st' where key: "state_key th key" "lock_time aenv key t = Some n"
    and wr: "state_written th key (apply_now aenv) st' t t1"
    and st': "circuit_state st' = Circuit_Open" "circuit_opened_at st' = Some n"
    using opened(1)
  proof (elim disjE conjE)
    assume "open_circuit th env aenv t = (Inr (), t1)"
    then show thesis using open_circuit_answer [OF well breaker] open_moves that by (metis (no_types, lifting) open_moves_circuit)
  next
    assume rel: "throttler_release th env aenv permit TaskFailed t = (Inr result, t1)" "circuit_state_updated result"
      and row: "state_key th state_row" "item_at (state_item th) state_row now t1 = Some (Inr st1)" "circuit_state st1 = Circuit_Open"
    have "release_modified_state result" using rel(2) by (simp add: release_modified_state_def)
    then obtain key n st st' where key: "state_key th key" "lock_time aenv key t = Some n"
      and st': "apply_release_and_outcome th n permit TaskFailed st = (result, st')"
      and wr: "state_written th key (apply_now aenv) st' t t1"
      using release_answer [OF well rel(1)] by metis
    have "state_row = key" using row(1) key(1) by (rule state_key_unique)
    then have "st1 = st'" using item_at_written [OF wr] row(2) by blast
    then show thesis using that [OF key wr] failed_release_opens [OF th(2), of n permit st st'] st' row(3) by simp
  qed
  note n = clocked_time(1,2) [OF key(2) opened(2)]
  have "circuit_kept th p st'" using st' n(1) p by (simp add: circuit_kept_def)
  moreover have "circuit_to th p \<le> apply_now aenv + state_lifetime th"
    using circuit.lasts [OF made] n by (simp add: circuit_from_def p)
  ultimately have held: "state_until th (circuit_kept th p) (circuit_to th p) t1"
    using written_state_until [OF key(1) wr] by blast
  have steps: "(throttler_step th (circuit_permits th p) (circuit_from th p) (circuit_to th p))\<^sup>*\<^sup>* t1 t2"
    and clock: "clocked aenv' (circuit_from th p)" "clocked_until aenv' (circuit_to th p)"
    using run again(2,3) p by (simp_all add: circuit_from_def circuit_to_def)
  obtain st n out where st: "circuit_kept th p st" "n < circuit_to th p"
    and out: "evaluate_try_acquire th st n holder = (Inr out :: 'c fleet_error + _)" "acquire_result out = answer"
    and idle: "\<not> should_write out \<Longrightarrow> t3 = t2"
    using circuit.acquire_within [OF steps made held again(1) clock] by metis
  have "should_block_for_open_circuit th st n holder = GateBlock"
    by (rule open_gate_blocks [OF made st(1)]) (use st(2) in \<open>simp add: circuit_to_def\<close>)
  with out(1) have "acquire_result out = PermitCircuitOpen \<and> \<not> should_write out"
    by (cases rule: acquire_outcome) simp_all
  then show ?thesis using out(2) idle by simp
qed

section \<open>States of a throttler\<close>

text \<open>The type invariant of a stored state.\<close>

definition state_ok :: "'c throttler \<Rightarrow> throttler_state \<Rightarrow> bool" where
  "state_ok th st \<longleftrightarrow>
     (\<forall>r. throttler_rate th = Some r \<longrightarrow> 0 \<le> tokens st \<and> tokens st \<le> of_nat (requests_per_interval r))
   \<and> (\<forall>l. throttler_concurrency th = Some l \<longrightarrow>
        fset (fmdom (throttler_slots st)) \<subseteq> set (map decimal_text [1..<Suc (resolved_max_concurrent l)]))
   \<and> (circuit_state st = Circuit_Open \<longleftrightarrow> circuit_opened_at st \<noteq> None)
   \<and> (probe_holder_id st = None \<longleftrightarrow> probe_expires_at st = None)"

text \<open>The limits are machine integers of the source.\<close>

definition u32_limits :: "'c throttler \<Rightarrow> bool" where
  "u32_limits th \<longleftrightarrow> (\<forall>r. throttler_rate th = Some r \<longrightarrow> requests_per_interval r \<le> u32_max)"

lemma initial_state_ok: "state_ok th (initial_state th n)"
  by (simp add: state_ok_def initial_state_def split: option.split)

lemma live_slots_dom: "fset (fmdom (live_slots n slots)) \<subseteq> fset (fmdom slots)"
  by (auto simp: live_slots_def fmlookup_dom_iff split: option.splits)

lemma spent_token:
  assumes "1 \<le> x" "x \<le> of_nat m" "m \<le> u32_max"
  shows "0 \<le> f64_round (x - 1)" "f64_round (x - 1) \<le> of_nat m"
proof -
  show "0 \<le> f64_round (x - 1)" using assms(1) by simp
  have m: "(of_nat m :: rat) \<le> 2 ^ 32"
    using order_trans [OF iffD2 [OF of_nat_le_iff assms(3)], of "2 ^ 32"] by (simp add: u32_max_def)
  have "f64_round (x - 1) \<le> (x - 1) * (1 + f64_epsilon)" using assms(1) by (intro f64_round_upper) simp
  also have "\<dots> \<le> (of_nat m - 1) * (1 + f64_epsilon)" using assms(2) f64_epsilon_small by (intro mult_right_mono) simp_all
  also have "\<dots> \<le> of_nat m"
    using m by (simp add: f64_epsilon_def field_simps)
  finally show "f64_round (x - 1) \<le> of_nat m" .
qed

lemma refilled_ok:
  assumes "0 \<le> tokens st" "0 < requests_per_interval r"
  shows "0 \<le> refilled_tokens r now st" "refilled_tokens r now st \<le> of_nat (requests_per_interval r)"
proof -
  have "0 \<le> elapsed_seconds now st" by (simp add: elapsed_seconds_def)
  moreover have "0 \<le> refill_rate_per_second r" by (simp add: refill_rate_per_second_def duration_as_secs_f64_def)
  ultimately show "0 \<le> refilled_tokens r now st" using assms by (simp add: refilled_tokens_def)
  show "refilled_tokens r now st \<le> of_nat (requests_per_interval r)" by (simp add: refilled_tokens_def)
qed

lemma concurrency_ok:
  fixes th :: "'c throttler"
  assumes run: "acquire_concurrency_slot_if_configured th st n holder = (Inr (con, st') :: 'c fleet_error + _)"
    and ok: "state_ok th st"
  shows "state_ok th st'"
proof -
  have fields: "tokens st' = tokens st" "circuit_state st' = circuit_state st" "circuit_opened_at st' = circuit_opened_at st"
    "probe_holder_id st' = probe_holder_id st" "probe_expires_at st' = probe_expires_at st"
    using concurrency_fields [OF run] by simp_all
  have "fset (fmdom (throttler_slots st')) \<subseteq> set (map decimal_text [1..<Suc (resolved_max_concurrent l)])"
    if "throttler_concurrency th = Some l" for l
    using run
  proof (cases rule: concurrency_outcome)
    case (took l' h s e)
    then show ?thesis using that ok live_slots_dom [of n "throttler_slots st"]
      unfolding state_ok_def by (simp del: upt_Suc set_map) blast
  next
    case (full l')
    then show ?thesis using that ok live_slots_dom [of n "throttler_slots st"]
      unfolding state_ok_def by (simp del: upt_Suc set_map) blast
  qed (use that in simp)
  then show ?thesis using ok fields by (simp add: state_ok_def del: upt_Suc)
qed

lemma rate_ok:
  assumes run: "consume_rate_limit_token_if_configured th st n acquired = (rate, st')"
    and ok: "state_ok th st" and limits: "u32_limits th" "\<And>r. throttler_rate th = Some r \<Longrightarrow> 0 < requests_per_interval r"
  shows "state_ok th st'"
proof -
  note fields = rate_outcome [OF run]
  have "fset (fmdom (throttler_slots st')) \<subseteq> fset (fmdom (throttler_slots st))"
    using fields by (auto split: option.splits if_splits)
  then have slots: "fset (fmdom (throttler_slots st')) \<subseteq> set (map decimal_text [1..<Suc (resolved_max_concurrent l)])"
    if "throttler_concurrency th = Some l" for l
    using ok that unfolding state_ok_def by blast
  have "0 \<le> tokens st' \<and> tokens st' \<le> of_nat (requests_per_interval r)" if r: "throttler_rate th = Some r" for r
  proof -
    have "0 \<le> tokens st" using ok r by (simp add: state_ok_def)
    note refilled = refilled_ok [OF this limits(2) [OF r], of n]
    have "tokens st' = (if refilled_tokens r n st \<ge> 1 then f64_round (refilled_tokens r n st - 1) else refilled_tokens r n st)"
      using run r by (auto simp: consume_rate_limit_token_if_configured_def Let_def split: if_splits)
    then show ?thesis using refilled spent_token [OF _ refilled(2)] limits(1) r by (auto simp: u32_limits_def)
  qed
  then show ?thesis using ok slots fields by (simp add: state_ok_def del: upt_Suc)
qed

lemma acquire_ok:
  fixes th :: "'c throttler"
  assumes run: "evaluate_try_acquire th st n holder = (Inr out :: 'c fleet_error + _)" and ok: "state_ok th st"
    and limits: "u32_limits th" "\<And>r. throttler_rate th = Some r \<Longrightarrow> 0 < requests_per_interval r"
  shows "state_ok th (outcome_state out)"
  using run
proof (cases rule: acquire_outcome)
  case (granted con st1 rate st2 probe permit)
  have "state_ok th st2" by (rule rate_ok [OF granted(4) concurrency_ok [OF granted(2) ok] limits])
  then show ?thesis using granted(10,11) by (cases probe) (auto simp: state_ok_def simp del: upt_Suc)
qed (use ok limits concurrency_ok rate_ok in blast)+

lemma release_ok:
  assumes ok: "state_ok th st"
  shows "state_ok th (snd (apply_release_and_outcome th n permit task_outcome st))"
proof -
  have slot: "state_ok th (snd (release_owned_concurrency_slot th permit st))"
    using ok by (auto simp: release_owned_concurrency_slot_def state_ok_def simp del: upt_Suc split: option.split)
  have task: "state_ok th (snd (apply_task_outcome_to_circuit_state th n task_outcome st'))" if "state_ok th st'" for st'
    using that by (auto simp: apply_task_outcome_to_circuit_state_def state_ok_def Let_def simp del: upt_Suc
        split: option.split throttler_task_outcome.split throttler_circuit_state.splits)
  have probe: "state_ok th (snd (clear_probe_if_owned permit st'))" if "state_ok th st'" for st'
    using that by (auto simp: clear_probe_if_owned_def state_ok_def simp del: upt_Suc split: option.split)
  show ?thesis by (simp add: release_stages Let_def slot task probe)
qed

lemma op_moves_ok:
  assumes "state_ok th st" "op_moves th op n st st'"
    and limits: "u32_limits th" "\<And>r. throttler_rate th = Some r \<Longrightarrow> 0 < requests_per_interval r"
  shows "state_ok th st'"
proof (cases op)
  case (OpAcquire holder)
  then obtain out where "evaluate_try_acquire th st n holder = (Inr out :: 'a fleet_error + _)" "outcome_state out = st'"
    using assms(2) acquire_moves by blast
  then show ?thesis using acquire_ok [OF _ assms(1) limits] by blast
next
  case (OpRelease permit task_outcome)
  then show ?thesis using release_moves [of th permit task_outcome n st st'] assms(2) release_ok [OF assms(1)] by metis
next
  case (OpExtend permit)
  then show ?thesis using extend_moves [of th permit n st st'] assms(1,2) by (auto simp: state_ok_def simp del: upt_Suc)
next
  case OpOpen
  then show ?thesis using open_moves [of th n st st'] assms(1,2) by (auto simp: state_ok_def simp del: upt_Suc)
next
  case OpClose
  then show ?thesis using close_moves [of th n st st'] assms(1,2) by (auto simp: state_ok_def simp del: upt_Suc)
qed

text \<open>Everything a throttler does, and whatever else leaves the row of the state alone or deletes it.\<close>

inductive throttler_change :: "'c throttler \<Rightarrow> kv_table \<Rightarrow> kv_table \<Rightarrow> bool" for th where
  change_operates: "throttler_change th t (run_op th env aenv op t)"
| change_resets: "throttler_change th t (snd (throttler_reset th protocol env t))"
| change_passes: "(\<forall>key. state_key th key \<longrightarrow> t' key = t key \<or> t' key = None) \<Longrightarrow> throttler_change th t t'"

definition table_ok :: "'c throttler \<Rightarrow> kv_table \<Rightarrow> bool" where
  "table_ok th t \<longleftrightarrow> (\<forall>key now st. state_key th key \<longrightarrow> item_at (state_item th) key now t = Some (Inr st) \<longrightarrow> state_ok th st)"

lemma reset_deletes: "snd (throttler_reset th protocol env t) key = t key \<or> snd (throttler_reset th protocol env t) key = None"
proof -
  let ?Q = "\<lambda>t'. t' key = t key \<or> t' key = None"
  have "?Q (snd (delete_key protocol env k t :: ('a kv_error + unit) \<times> kv_table))" for k
    unfolding delete_key_def kv_pool_write_def
  proof (rule pool_write_keeps [OF prod.collapse [symmetric], where Q = ?Q])
    fix r tx
    assume "delete_key_in_current_transaction protocol (env_reply env) (env_now env) k (begin_transaction t) = (r :: 'a kv_error + unit, tx)"
    then show "?Q (tables tx)"
      using admit_tables [of protocol "env_reply env" "begin_transaction t"]
      by (cases "admit protocol (env_reply env) (begin_transaction t)")
        (auto simp: delete_key_in_current_transaction_def admitted_def delete_key_with_executor_def delete_key_statement_def
          split: sum.splits option.splits if_splits)
  qed simp
  then show ?thesis by (auto simp: throttler_reset_def item_delete_def with_key_def split: sum.splits)
qed

lemma table_ok_keeps:
  assumes ok: "table_ok th t" and keeps: "\<forall>key. state_key th key \<longrightarrow> t' key = t key \<or> t' key = None"
  shows "table_ok th t'"
  unfolding table_ok_def
proof (intro allI impI)
  fix key now st assume key: "state_key th key" and at: "item_at (state_item th) key now t' = Some (Inr st)"
  then have "t' key = t key" using keeps item_at_live [OF at] by (auto simp: live_row_def)
  then show "state_ok th st" using ok key at item_at_row unfolding table_ok_def by metis
qed

lemma table_ok_change:
  fixes th :: "'c throttler"
  assumes th: "configured th" "u32_limits th" and "throttler_change th t t'" and ok: "table_ok th t"
  shows "table_ok th t'"
  using assms(3)
proof cases
  case (change_operates env aenv op)
  have limits: "\<And>r. throttler_rate th = Some r \<Longrightarrow> 0 < requests_per_interval r" using configured_facts(3) [OF th(1)] by blast
  consider "t' = t" | "op_effect th op aenv t t'"
    using run_op_result [OF configured_facts(1) [OF th(1)], of op aenv t env] change_operates by (auto simp: op_result_def)
  then show ?thesis
  proof cases
    case 2
    then obtain key n where key: "state_key th key"
      and eff: "case item_at (state_item th) key n t of
          Some x \<Rightarrow> \<exists>st st'. x = Inr st \<and> op_moves th op n st st' \<and> state_written th key (apply_now aenv) st' t t'
        | None \<Rightarrow> \<exists>st'. (st' = initial_state th n \<or> op_moves th op n (initial_state th n) st')
            \<and> state_written th key (apply_now aenv) st' t t'"
      unfolding op_effect_def by blast
    obtain st' where "state_ok th st'" and w: "state_written th key (apply_now aenv) st' t t'"
    proof (cases "item_at (state_item th) key n t")
      case None
      then show ?thesis using eff that op_moves_ok [OF initial_state_ok _ th(2) limits] initial_state_ok by fastforce
    next
      case (Some x)
      then obtain st st' where "x = Inr st" "op_moves th op n st st'" "state_written th key (apply_now aenv) st' t t'"
        using eff by auto
      then show ?thesis using that op_moves_ok [OF _ _ th(2) limits] ok key Some unfolding table_ok_def by blast
    qed
    show ?thesis unfolding table_ok_def
    proof (intro allI impI)
      fix key' now st assume key': "state_key th key'" and at: "item_at (state_item th) key' now t' = Some (Inr st)"
      have "key' = key" by (rule state_key_unique [OF key' key])
      from at [unfolded this] have "item_at (state_item th) key now t' = Some (Inr st)" .
      then have "Inr st = (Inr st' :: 'c kv_error + throttler_state)" by (rule item_at_written [OF w])
      then show "state_ok th st" using \<open>state_ok th st'\<close> by simp
    qed
  qed (use ok in simp)
next
  case (change_resets protocol env)
  have "t' key = t key \<or> t' key = None" for key unfolding change_resets by (rule reset_deletes)
  then show ?thesis by (intro table_ok_keeps [OF ok]) simp
next
  case change_passes
  show ?thesis by (rule table_ok_keeps [OF ok change_passes])
qed

lemma fetched_row:
  assumes "get_bytes_and_return_database_timestamp p env key t = (Inr (bs, now) :: 'c kv_error + _)"
  shows "get_bytes_statement (env_now env) key t = Some bs"
proof -
  have "fst (admitted p (env_reply env) KvDatabase (\<lambda>t. (get_bytes_and_return_database_timestamp_with_executor (env_now env)
      key t, t)) (begin_transaction t)) = (Inr (bs, now) :: 'c kv_error + _)"
    using assms by (auto simp: get_bytes_and_return_database_timestamp_def kv_pool_read_def pool_read_def
        finish_rollback_only_transaction_def get_bytes_and_return_database_timestamp_in_current_transaction_def
        split: option.splits sum.splits rollback_outcome.splits)
  from admitted_Inr(2) [OF this] show ?thesis
    by (auto simp: get_bytes_and_return_database_timestamp_with_executor_def get_bytes_returning_timestamp_statement_def
        get_bytes_statement_def split: option.splits)
qed

lemma fetched_status:
  fixes th :: "'c throttler"
  assumes "throttler_fetch_status th p env t = (Inr status :: 'c fleet_error + throttler_status)"
  shows "status = empty_status th \<or> (\<exists>key now st. state_key th key
    \<and> item_at (state_item th) key (env_now env) t = Some (Inr st) \<and> status = status_from_state th st now)"
proof (cases "item_get_and_return_database_timestamp (state_item th) p env [FLEET_THROTTLER_STATE_KEY_PART] t")
  case (Inl e)
  then show ?thesis using assms by (cases e) (simp_all add: throttler_fetch_status_def status_of_row_def)
next
  case (Inr row)
  then obtain key bs now where "state_key th key"
    and "get_bytes_and_return_database_timestamp p env key t = (Inr (bs, now) :: 'c kv_error + _)"
    and "stamped (state_item th) key (bs, now) = Inr row"
    by (auto simp: item_get_and_return_database_timestamp_def with_key_def state_key_def result_bind_eq_Inr_iff split: sum.splits)
  then have "item_at (state_item th) key (env_now env) t = Some (Inr (stamped_value row))"
    using fetched_row by (fastforce simp: item_at_def stamped_def map_sum_eq_Inr_iff)
  then show ?thesis using assms Inr \<open>state_key th key\<close> by (auto simp: throttler_fetch_status_def status_of_row_def)
qed

text \<open>C24: The state of a throttler keeps its type invariant: from a table without its row, in every run of acquisitions,
  releases, probe extensions, circuit changes and resets by any number of processes, whatever the commits of their
  transactions came to, every state that the row decodes to has tokens within the limit, slots among the configured
  ones, an opening time exactly when the circuit is open and an expiry exactly when there is a probe; and a status
  reports no more holders than the limit, between none and the limit of tokens, and the configured limits.\<close>

theorem throttler_status_is_bounded:
  fixes th :: "'c throttler"
  assumes th: "configured th" "u32_limits th" and run: "(throttler_change th)\<^sup>*\<^sup>* t t'"
    and fresh: "\<forall>key. state_key th key \<longrightarrow> t key = None"
    and status: "throttler_fetch_status th p env t' = (Inr status :: 'c fleet_error + throttler_status)"
  shows "table_ok th t'
    \<and> (case throttler_concurrency th of None \<Rightarrow> current_concurrency status = 0
      | Some l \<Rightarrow> current_concurrency status \<le> resolved_max_concurrent l \<and> max_concurrency status = resolved_max_concurrent l)
    \<and> (case throttler_rate th of None \<Rightarrow> available_tokens status = 0
      | Some r \<Rightarrow> 0 \<le> available_tokens status \<and> available_tokens status \<le> of_nat (requests_per_interval r))
    \<and> (throttler_breaker th = None \<longrightarrow> status_circuit_state status = Circuit_Closed \<and> status_failures status = 0)"
proof -
  have "table_ok th t"
    using fresh by (auto simp: table_ok_def item_at_def get_bytes_statement_def live_row_def)
  with run have ok: "table_ok th t'" by (induction rule: rtranclp_induct) (auto intro: table_ok_change [OF th])
  have limits: "\<And>r. throttler_rate th = Some r \<Longrightarrow> 0 < requests_per_interval r" using configured_facts(3) [OF th(1)] by blast
  have bound: "fcard (fmdom (live_slots now (throttler_slots st))) \<le> resolved_max_concurrent l"
    if "state_ok th st" "throttler_concurrency th = Some l" for st now l
  proof -
    have "fset (fmdom (live_slots now (throttler_slots st))) \<subseteq> set (map decimal_text [1..<Suc (resolved_max_concurrent l)])"
      using that live_slots_dom [of now "throttler_slots st"] unfolding state_ok_def by blast
    from card_mono [OF finite_set this] show ?thesis
      using card_length [of "map decimal_text [1..<Suc (resolved_max_concurrent l)]"]
      by (simp add: fcard.rep_eq del: upt_Suc set_map)
  qed
  consider "status = empty_status th"
    | key now st where "state_key th key" "item_at (state_item th) key (env_now env) t' = Some (Inr st)" "status = status_from_state th st now"
    using fetched_status [OF status] by blast
  then show ?thesis
  proof cases
    case 1
    then show ?thesis using ok by (simp add: empty_status_def Let_def split: option.split)
  next
    case 2
    have st: "state_ok th st" using ok 2 unfolding table_ok_def by blast
    show ?thesis
      using ok st bound [OF st] refilled_ok [of st _ now] limits
      by (auto simp: 2(3) status_from_state_def empty_status_def Let_def state_ok_def refilled_tokens_def min.coboundedI1
          simp del: upt_Suc split: option.split)
  qed
qed

section \<open>The probe of an open circuit\<close>

record probe_promise =
  probing_holder :: string
  probe_since :: micros
  probe_until :: micros

definition probe_made :: "'c throttler \<Rightarrow> probe_promise \<Rightarrow> bool" where
  "probe_made th p \<longleftrightarrow> configured th \<and> throttler_breaker th \<noteq> None
     \<and> probe_until p = probe_since p + ttl_micros DEFAULT_FLEET_THROTTLER_PROBE_WINDOW"

definition probe_kept :: "'c throttler \<Rightarrow> probe_promise \<Rightarrow> throttler_state \<Rightarrow> bool" where
  "probe_kept th p st \<longleftrightarrow> probe_holder_id st = Some (probing_holder p)
     \<and> (\<exists>e. probe_expires_at st = Some e \<and> probe_until p \<le> e)
     \<and> (circuit_state st = Circuit_Open \<longrightarrow> circuit_opened_at st \<noteq> None)"

text \<open>Everything but a change of the circuit by hand and a release by the holder of the probe.\<close>

definition probe_permits :: "'c throttler \<Rightarrow> probe_promise \<Rightarrow> throttler_op \<Rightarrow> bool" where
  "probe_permits th p op \<longleftrightarrow> op \<noteq> OpOpen \<and> op \<noteq> OpClose
     \<and> (\<forall>permit task_outcome. op = OpRelease permit task_outcome \<longrightarrow> permit_holder_id permit \<noteq> Some (probing_holder p))"

definition probe_from :: "'c throttler \<Rightarrow> probe_promise \<Rightarrow> micros" where "probe_from th p = probe_since p"
definition probe_to :: "'c throttler \<Rightarrow> probe_promise \<Rightarrow> micros" where "probe_to th p = probe_until p"

lemma live_probe_gate:
  assumes "probe_kept th p st" "n < probe_until p" "holder \<noteq> Some (probing_holder p)"
  shows "should_block_for_open_circuit th st n holder \<noteq> AllowProbe"
  using assms by (auto simp: should_block_for_open_circuit_def probe_kept_def Let_def split: option.splits)

lemma acquire_probe:
  fixes th :: "'c throttler"
  assumes run: "evaluate_try_acquire th st n holder = (Inr out :: 'c fleet_error + _)"
  shows "(if \<exists>permit. acquire_result out = PermitAcquired permit \<and> probe_acquired permit
      then holder \<noteq> None \<and> should_block_for_open_circuit th st n holder = AllowProbe
        \<and> probe_holder_id (outcome_state out) = holder
        \<and> probe_expires_at (outcome_state out) = Some (n + ttl_micros DEFAULT_FLEET_THROTTLER_PROBE_WINDOW)
      else probe_holder_id (outcome_state out) = probe_holder_id st \<and> probe_expires_at (outcome_state out) = probe_expires_at st)"
  using run
proof (cases rule: acquire_outcome)
  case (no_token con st1 rate)
  then show ?thesis using concurrency_fields [OF no_token(2)] rate_outcome [OF no_token(4)] by simp
next
  case (granted con st1 rate st2 probe permit)
  then show ?thesis using concurrency_fields [OF granted(2)] rate_outcome [OF granted(4)] by (cases probe) auto
qed (use concurrency_fields in fastforce)+

lemma release_probe:
  assumes "permit_holder_id permit \<noteq> probe_holder_id st" "probe_holder_id st \<noteq> None"
    "circuit_state st = Circuit_Open \<longrightarrow> circuit_opened_at st \<noteq> None"
    "st' = snd (apply_release_and_outcome th n permit task_outcome st)"
  shows "probe_holder_id st' = probe_holder_id st \<and> probe_expires_at st' = probe_expires_at st
    \<and> (circuit_state st' = Circuit_Open \<longrightarrow> circuit_opened_at st' \<noteq> None)"
proof -
  have clear: "clear_probe_if_owned permit s = (False, s)" if "probe_holder_id s = probe_holder_id st" for s
    using assms(1) that by (auto simp: clear_probe_if_owned_def split: option.split)
  have task: "circuit_state (snd (apply_task_outcome_to_circuit_state th n task_outcome s)) = Circuit_Open \<longrightarrow>
      circuit_opened_at (snd (apply_task_outcome_to_circuit_state th n task_outcome s)) \<noteq> None"
    if "circuit_state s = Circuit_Open \<longrightarrow> circuit_opened_at s \<noteq> None" for s
    using that by (auto simp: apply_task_outcome_to_circuit_state_def Let_def split: option.split throttler_task_outcome.split)
  show ?thesis unfolding assms(4) using assms(3) task by (simp add: release_stages Let_def clear)
qed

lemma probe_keeps:
  assumes "probe_permits th p op" "probe_since p \<le> n" "n < probe_until p" "probe_kept th p st" "op_moves th op n st st'"
    and until: "probe_until p = probe_since p + ttl_micros DEFAULT_FLEET_THROTTLER_PROBE_WINDOW"
  shows "probe_kept th p st'"
proof (cases op)
  case (OpAcquire holder)
  then obtain out where run: "evaluate_try_acquire th st n holder = (Inr out :: 'a fleet_error + _)"
    and st': "outcome_state out = st'" using assms(5) acquire_moves by blast
  show ?thesis
    using acquire_probe [OF run] acquire_keeps_circuit [OF run] live_probe_gate [OF assms(4,3), of holder] assms(2,4) until st'
    by (auto simp: probe_kept_def split: if_splits)
next
  case (OpRelease permit task_outcome)
  then have "permit_holder_id permit \<noteq> Some (probing_holder p)" using assms(1) by (simp add: probe_permits_def)
  then show ?thesis
    using release_probe [of permit st st' th n task_outcome] release_moves [of th permit task_outcome n st st'] assms(4,5) OpRelease
    by (auto simp: probe_kept_def)
next
  case (OpExtend permit)
  then show ?thesis using extend_moves [of th permit n st st'] assms(2,4,5) until by (auto simp: probe_kept_def)
qed (use assms(1) in \<open>simp_all add: probe_permits_def\<close>)

interpretation probe: state_promise probe_made probe_kept probe_permits probe_from probe_to
proof
  show "well_made_throttler th" if "probe_made th p" for th :: "'c throttler" and p
    using that configured_facts(1) by (auto simp: probe_made_def)
  show "probe_to th p \<le> probe_from th p + state_lifetime th" if "probe_made th p" for th :: "'c throttler" and p
    using that configured_facts(5) by (fastforce simp: probe_made_def probe_to_def probe_from_def)
  show "probe_kept th p st'" if "probe_made th p" "probe_permits th p op" "probe_from th p \<le> n" "n < probe_to th p"
      "probe_kept th p st" "op_moves th op n st st'" for th :: "'c throttler" and p op n st st'
    using probe_keeps that by (auto simp: probe_from_def probe_to_def probe_made_def)
qed

text \<open>C23: A circuit is probed by one holder at a time. From the moment a probe is granted, or its heartbeat extended it with
  success, until its window of five seconds has passed since the earliest clock reading of that call, and as long as its
  holder does not release it and nobody opens or closes the circuit by hand or resets the throttler, no acquisition under
  another identifier is granted a probe, whatever acquisitions, extensions and releases of other permits run in between.
  So each acknowledged heartbeat makes the promise anew, and a probe may run for as long as its heartbeats are in time.\<close>

theorem throttler_probe_is_single:
  fixes th :: "'c throttler"
  assumes th: "configured th" "throttler_breaker th \<noteq> None" and ok: "table_ok th t"
    and granted: "throttler_try_acquire th env aenv (Some holder) t = (Inr (PermitAcquired permit), t1) \<and> probe_acquired permit
      \<or> extend_probe th env aenv permit t = (Inr True, t1) \<and> permit_holder_id permit = Some holder"
      "clocked aenv since"
    and p: "p = \<lparr>probing_holder = holder, probe_since = since,
      probe_until = since + ttl_micros DEFAULT_FLEET_THROTTLER_PROBE_WINDOW\<rparr>"
    and run: "(throttler_step th (probe_permits th p) since (probe_until p))\<^sup>*\<^sup>* t1 t2"
    and again: "throttler_try_acquire th env' aenv' holder' t2 = (Inr (PermitAcquired permit'), t3)"
      "clocked aenv' since" "clocked_until aenv' (probe_until p)" "holder' \<noteq> Some holder"
  shows "\<not> probe_acquired permit'"
proof -
  have made: "probe_made th p" using th p by (simp add: probe_made_def)
  note well = configured_facts(1) [OF th(1)]
  obtain key n st' where key: "state_key th key" "lock_time aenv key t = Some n"
    and wr: "state_written th key (apply_now aenv) st' t t1"
    and st': "probe_holder_id st' = Some holder" "probe_expires_at st' = Some (n + ttl_micros DEFAULT_FLEET_THROTTLER_PROBE_WINDOW)"
      "circuit_state st' = Circuit_Open \<longrightarrow> circuit_opened_at st' \<noteq> None"
    using granted(1)
  proof (elim disjE conjE)
    assume acquired: "throttler_try_acquire th env aenv (Some holder) t = (Inr (PermitAcquired permit), t1)" "probe_acquired permit"
    obtain key n st out where key: "state_key th key" "lock_time aenv key t = Some n" and seen: "state_seen th key n t st"
      and out: "evaluate_try_acquire th st n (Some holder) = (Inr out :: 'c fleet_error + _)"
        "acquire_result out = PermitAcquired permit"
      and wr: "should_write out \<Longrightarrow> state_written th key (apply_now aenv) (outcome_state out) t t1"
      using acquire_answer [OF well acquired(1)] by metis
    have st: "state_ok th st"
      using ok key(1) seen initial_state_ok unfolding table_ok_def state_seen_def by (auto split: option.splits)
    have "should_write out" using out by (cases rule: acquire_outcome) simp_all
    then show thesis using that [OF key wr] acquire_probe [OF out(1)] acquire_keeps_circuit [OF out(1)] out(2) acquired(2) st
      by (auto simp: state_ok_def split: if_splits)
  next
    assume extended: "extend_probe th env aenv permit t = (Inr True, t1)" "permit_holder_id permit = Some holder"
    obtain key n st st' where key: "state_key th key" "lock_time aenv key t = Some n"
      and st: "item_at (state_item th) key n t = Some (Inr st)"
      and moved: "op_moves th (OpExtend permit) n st st'" and wr: "state_written th key (apply_now aenv) st' t t1"
      using extend_answer [OF well extended(1)] by metis
    have "state_ok th st" using ok key(1) st unfolding table_ok_def by blast
    then show thesis using that [OF key wr] extend_moves [OF moved] extended(2) by (auto simp: state_ok_def)
  qed
  note n = clocked_time(1,2) [OF key(2) granted(2)]
  have "probe_kept th p st'" using st' n(1) p by (simp add: probe_kept_def)
  moreover have "probe_to th p \<le> apply_now aenv + state_lifetime th" using probe.lasts [OF made] n by (simp add: probe_from_def p)
  ultimately have held: "state_until th (probe_kept th p) (probe_to th p) t1"
    using written_state_until [OF key(1) wr] by blast
  have steps: "(throttler_step th (probe_permits th p) (probe_from th p) (probe_to th p))\<^sup>*\<^sup>* t1 t2"
    and clock: "clocked aenv' (probe_from th p)" "clocked_until aenv' (probe_to th p)"
    using run again(2,3) p by (simp_all add: probe_from_def probe_to_def)
  obtain st2 m out2 where st2: "probe_kept th p st2" "m < probe_to th p"
    and out2: "evaluate_try_acquire th st2 m holder' = (Inr out2 :: 'c fleet_error + _)" "acquire_result out2 = PermitAcquired permit'"
    using probe.acquire_within [OF steps made held again(1) clock] by metis
  have "should_block_for_open_circuit th st2 m holder' \<noteq> AllowProbe"
    by (rule live_probe_gate [OF st2(1)]) (use st2(2) again(4) in \<open>simp_all add: probe_to_def p\<close>)
  then show ?thesis using acquire_probe [OF out2(1)] out2(2) by (auto split: if_splits)
qed

end
