(* ===== verification/ThrottlerRate.thy ===== *)
theory ThrottlerRate
  imports ThrottlerPromises
begin

text \<open>
  The rate that a token bucket enforces. The bucket is kept in \<open>f64\<close>; the bound below holds for the
  rounded arithmetic of the source.
\<close>

section \<open>One consumption of the bucket\<close>

text \<open>The tokens that a configured rate yields in a time, with the excess that rounding can give.\<close>

definition yield :: "throttler_rate_limit \<Rightarrow> micros \<Rightarrow> rat" where
  "yield r d = of_int d * 1000 / of_nat (rate_interval r) * of_nat (requests_per_interval r) * (1 + 1 / 2 ^ 50)"

definition slack :: "throttler_rate_limit \<Rightarrow> rat" where
  "slack r = of_nat (requests_per_interval r) / 2 ^ 52"

lemma f64_factor: "(1 + f64_epsilon) ^ 5 \<le> (1 - f64_epsilon) ^ 2 * (1 + 1 / 2 ^ 50)"
proof -
  have "x ^ 5 = x * x * x * x * x" for x :: rat by (simp add: numeral_eq_Suc)
  then show ?thesis by (simp add: f64_epsilon_def power2_eq_square)
qed

lemma elapsed_upper:
  assumes "0 \<le> d" "n - last_refill st \<le> d"
  shows "0 \<le> elapsed_seconds n st" "elapsed_seconds n st \<le> of_int d / 1000000 * (1 + f64_epsilon) ^ 2"
proof -
  let ?us = "max (i64_saturating_sub n (last_refill st)) 0"
  have us: "0 \<le> ?us" "?us \<le> d" using assms by (auto simp: i64_saturating_sub_def i64_min_def)
  have "f64_round (of_int ?us) \<le> of_int ?us * (1 + f64_epsilon)" by (intro f64_round_upper) (use us in simp)
  also have "\<dots> \<le> of_int d * (1 + f64_epsilon)" using us f64_epsilon_small by (intro mult_right_mono) simp_all
  finally have a: "f64_round (of_int ?us) / 1000000 \<le> of_int d / 1000000 * (1 + f64_epsilon)" by simp
  have nonneg: "0 \<le> f64_round (of_int ?us :: rat) / 1000000" using us by simp
  then show "0 \<le> elapsed_seconds n st" by (simp add: elapsed_seconds_def)
  have "elapsed_seconds n st \<le> f64_round (of_int ?us) / 1000000 * (1 + f64_epsilon)"
    unfolding elapsed_seconds_def using nonneg by (rule f64_round_upper)
  also have "\<dots> \<le> of_int d / 1000000 * (1 + f64_epsilon) * (1 + f64_epsilon)"
    using a f64_epsilon_small by (intro mult_right_mono) simp_all
  finally show "elapsed_seconds n st \<le> of_int d / 1000000 * (1 + f64_epsilon) ^ 2"
    by (simp add: power2_eq_square mult.assoc)
qed

lemma rate_upper:
  assumes "0 < rate_interval r"
  shows "0 \<le> refill_rate_per_second r"
    "refill_rate_per_second r * (1 - f64_epsilon) ^ 2
      \<le> of_nat (requests_per_interval r) * 1000000000 / of_nat (rate_interval r) * (1 + f64_epsilon)"
proof -
  define a b where "a = rate_interval r div 1000000000" and "b = rate_interval r mod 1000000000"
  let ?S = "(of_nat (rate_interval r) / 1000000000 :: rat)"
  let ?D = "duration_as_secs_f64 (rate_interval r)"
  let ?l = "1 - f64_epsilon"
  have "rate_interval r = a * 1000000000 + b" by (simp add: a_def b_def)
  then have split: "?S = of_nat a + of_nat b / 1000000000" by simp
  have l: "0 < ?l" using f64_epsilon_small by simp
  have sum: "?S * ?l \<le> f64_round (of_nat a) + f64_round (of_nat b / 1000000000)"
    unfolding split distrib_right by (intro add_mono f64_round_lower) simp_all
  have pos: "0 < ?S" using assms by simp
  then have "0 \<le> ?S * ?l" using l by simp
  then have "?S * ?l * ?l \<le> (f64_round (of_nat a) + f64_round (of_nat b / 1000000000)) * ?l"
    using sum l by (intro mult_right_mono) simp_all
  also have "\<dots> \<le> ?D"
    unfolding duration_as_secs_f64_def a_def [symmetric] b_def [symmetric] by (intro f64_round_lower) simp
  finally have D: "?S * ?l ^ 2 \<le> ?D" by (simp add: power2_eq_square mult.assoc)
  have Dpos: "0 < ?D" using D pos l by (metis less_le_trans mult_pos_pos zero_less_power)
  show "0 \<le> refill_rate_per_second r" using Dpos by (simp add: refill_rate_per_second_def)
  have "refill_rate_per_second r \<le> of_nat (requests_per_interval r) / ?D * (1 + f64_epsilon)"
    unfolding refill_rate_per_second_def using Dpos by (intro f64_round_upper) simp
  then have "refill_rate_per_second r * ?l ^ 2
      \<le> of_nat (requests_per_interval r) / ?D * (1 + f64_epsilon) * ?l ^ 2"
    by (intro mult_right_mono) simp_all
  also have "\<dots> = of_nat (requests_per_interval r) * (1 + f64_epsilon) * (?l ^ 2 / ?D)" by simp
  also have "\<dots> \<le> of_nat (requests_per_interval r) * (1 + f64_epsilon) * (1 / ?S)"
    using D Dpos pos f64_epsilon_small
    by (intro mult_left_mono) (simp_all add: divide_simps mult.commute)
  finally show "refill_rate_per_second r * ?l ^ 2
      \<le> of_nat (requests_per_interval r) * 1000000000 / of_nat (rate_interval r) * (1 + f64_epsilon)"
    by (simp add: field_simps)
qed

lemma refill_upper:
  assumes r: "0 < rate_interval r" and d: "0 \<le> d" "n - last_refill st \<le> d"
  shows "f64_round (elapsed_seconds n st * refill_rate_per_second r) * (1 + f64_epsilon) \<le> yield r d"
proof -
  let ?l = "1 - f64_epsilon" and ?u = "1 + f64_epsilon"
  let ?E = "of_int d / 1000000 :: rat" and ?R = "of_nat (requests_per_interval r) * 1000000000 / of_nat (rate_interval r) :: rat"
  note e = elapsed_upper [OF d] and q = rate_upper [OF r]
  have l: "0 < ?l ^ 2" and u: "0 \<le> ?u" using f64_epsilon_small by simp_all
  have ER: "0 \<le> ?E * ?R" using d by simp
  have "f64_round (elapsed_seconds n st * refill_rate_per_second r) * ?u * ?l ^ 2
      \<le> elapsed_seconds n st * refill_rate_per_second r * ?u * ?u * ?l ^ 2"
    using e(1) q(1) u l by (intro mult_right_mono f64_round_upper) simp_all
  also have "\<dots> = elapsed_seconds n st * (refill_rate_per_second r * ?l ^ 2) * ?u ^ 2" by (simp add: power2_eq_square)
  also have "\<dots> \<le> (?E * ?u ^ 2) * (?R * ?u) * ?u ^ 2"
  proof (intro mult_right_mono mult_mono [OF e(2) q(2)])
    show "0 \<le> ?E * ?u ^ 2" using d u by simp
    show "0 \<le> refill_rate_per_second r * ?l ^ 2" using q(1) by simp
  qed simp
  also have "\<dots> = ?E * ?R * ?u ^ 5" by (simp add: power2_eq_square numeral_eq_Suc)
  also have "\<dots> \<le> ?E * ?R * (?l ^ 2 * (1 + 1 / 2 ^ 50))" by (intro mult_left_mono f64_factor ER)
  also have "\<dots> = yield r d * ?l ^ 2" by (simp add: yield_def)
  finally show ?thesis using l by (simp only: mult_le_cancel_right)
qed

lemma consumed:
  assumes run: "consume_rate_limit_token_if_configured th st n acquired = (rate, st')"
    and r: "throttler_rate th = Some r" "0 < rate_interval r"
    and tokens: "0 \<le> tokens st" "tokens st \<le> of_nat (requests_per_interval r)" and d: "0 \<le> d" "n - last_refill st \<le> d"
  shows "last_refill st' = n"
    "(if blocked_by_rate_limit rate then 0 else 1) + tokens st' \<le> tokens st + yield r d + slack r"
    "(if blocked_by_rate_limit rate then 0 else 1) + tokens st' \<le> of_nat (requests_per_interval r) + slack r"
proof -
  let ?L = "of_nat (requests_per_interval r) :: rat"
  let ?x = "refilled_tokens r n st"
  let ?f = "f64_round (elapsed_seconds n st * refill_rate_per_second r)"
  have st': "tokens st' = (if ?x \<ge> 1 then f64_round (?x - 1) else ?x)" "blocked_by_rate_limit rate \<longleftrightarrow> \<not> ?x \<ge> 1" "last_refill st' = n"
    using run r by (auto simp: consume_rate_limit_token_if_configured_def Let_def split: if_splits)
  have f: "0 \<le> ?f" using elapsed_upper(1) [OF d] rate_upper(1) [OF r(2)] by simp
  have "?x \<le> f64_round (tokens st + ?f)" by (simp add: refilled_tokens_def)
  also have "\<dots> \<le> (tokens st + ?f) * (1 + f64_epsilon)" using tokens f by (intro f64_round_upper) simp
  also have "\<dots> \<le> tokens st + ?L * f64_epsilon + yield r d"
  proof -
    have "tokens st * f64_epsilon \<le> ?L * f64_epsilon" using tokens(2) f64_epsilon_small by (intro mult_right_mono) simp_all
    moreover have "?f * (1 + f64_epsilon) \<le> yield r d" by (rule refill_upper [OF r(2) d])
    ultimately show ?thesis by (simp only: distrib_right distrib_left mult_1_right)
  qed
  finally have x: "?x \<le> tokens st + ?L * f64_epsilon + yield r d" .
  have cap: "?x \<le> ?L" by (simp add: refilled_tokens_def)
  have spent: "1 + f64_round (?x - 1) \<le> ?x + ?L * f64_epsilon" if "1 \<le> ?x"
  proof -
    have "f64_round (?x - 1) \<le> (?x - 1) * (1 + f64_epsilon)" using that by (intro f64_round_upper) simp
    also have "\<dots> = (?x - 1) + (?x - 1) * f64_epsilon" by (simp add: distrib_left)
    also have "\<dots> \<le> (?x - 1) + ?L * f64_epsilon" using cap f64_epsilon_small by (intro add_left_mono mult_right_mono) simp_all
    finally show ?thesis by simp
  qed
  have two: "?L * f64_epsilon + ?L * f64_epsilon = slack r" "0 \<le> ?L * f64_epsilon" by (simp_all add: f64_epsilon_def slack_def)
  have step: "(if blocked_by_rate_limit rate then 0 else 1) + tokens st' \<le> ?x + ?L * f64_epsilon"
    using spent two(2) st' by (cases "1 \<le> ?x") simp_all
  show "last_refill st' = n" by (rule st'(3))
  show "(if blocked_by_rate_limit rate then 0 else 1) + tokens st' \<le> tokens st + yield r d + slack r"
    using step x two by linarith
  show "(if blocked_by_rate_limit rate then 0 else 1) + tokens st' \<le> ?L + slack r"
    using step cap two by linarith
qed

section \<open>A run of acquisitions\<close>

definition granted :: "'c fleet_error + throttler_acquire_result \<Rightarrow> bool" where
  "granted r \<longleftrightarrow> (\<exists>permit. r = Inr (PermitAcquired permit))"

text \<open>
  Acquisitions and other operations one after another, each at a database time not before the former's:
  \<open>k\<close> acquisitions, \<open>g\<close> of them granted, by the time \<open>now\<close>.
\<close>

inductive rate_run :: "'c throttler \<Rightarrow> micros \<Rightarrow> kv_table \<Rightarrow> nat \<Rightarrow> nat \<Rightarrow> micros \<Rightarrow> kv_table \<Rightarrow> bool"
  for th start t0 where
  rate_starts: "rate_run th start t0 0 0 start t0"
| rate_acquires: "rate_run th start t0 k g now t \<Longrightarrow> clocked aenv now \<Longrightarrow> clocked_until aenv now' \<Longrightarrow>
    throttler_try_acquire th env aenv holder t = (r, t') \<Longrightarrow>
    rate_run th start t0 (k + 1) (if granted r then g + 1 else g) now' t'"
| rate_operates: "rate_run th start t0 k g now t \<Longrightarrow> clocked aenv now \<Longrightarrow> clocked_until aenv now' \<Longrightarrow>
    (\<forall>holder. op \<noteq> OpAcquire holder) \<Longrightarrow> rate_run th start t0 k g now' (run_op th env aenv op t)"
| rate_passes: "rate_run th start t0 k g now t \<Longrightarrow> now \<le> now' \<Longrightarrow>
    (\<forall>key. state_key th key \<longrightarrow> t' key = t key \<or> live_row now' t key = None \<and> t' key = None) \<Longrightarrow>
    rate_run th start t0 k g now' t'"

lemma acquire_bucket:
  fixes th :: "'c throttler"
  assumes run: "evaluate_try_acquire th st n holder = (Inr out :: 'c fleet_error + _)"
  obtains (unspent) "\<not> granted (Inr (acquire_result out) :: 'c fleet_error + _)"
      "tokens (outcome_state out) = tokens st" "last_refill (outcome_state out) = last_refill st"
  | (spent) st1 acquired rate st2 where "tokens st1 = tokens st" "last_refill st1 = last_refill st" "should_write out"
      "consume_rate_limit_token_if_configured th st1 n acquired = (rate, st2)"
      "tokens (outcome_state out) = tokens st2" "last_refill (outcome_state out) = last_refill st2"
      "granted (Inr (acquire_result out) :: 'c fleet_error + _) \<longleftrightarrow> \<not> blocked_by_rate_limit rate"
  using run
proof (cases rule: acquire_outcome)
  case circuit_open
  then show ?thesis by (intro unspent) (simp_all add: granted_def)
next
  case (no_slot con)
  then show ?thesis using concurrency_fields [OF no_slot(2)] by (intro unspent) (simp_all add: granted_def)
next
  case (no_token con st1 rate)
  then show ?thesis using concurrency_fields [OF no_token(2)] by (intro spent [OF _ _ _ no_token(4)]) (simp_all add: granted_def)
next
  case (granted con st1 rate st2 probe permit)
  then show ?thesis using concurrency_fields [OF granted(2)]
    by (intro spent [OF _ _ _ granted(4)]) (cases probe; auto simp: granted_def)+
qed

lemma other_moves_bucket:
  assumes "op_moves th op n st st'" "\<forall>holder. op \<noteq> OpAcquire holder"
  shows "tokens st' = tokens st \<and> last_refill st' = last_refill st"
proof (cases op)
  case (OpRelease permit task_outcome)
  then show ?thesis using release_moves [of th permit task_outcome n st st'] assms(1) by (auto simp: release_stages Let_def)
next
  case (OpExtend permit)
  then show ?thesis using extend_moves [of th permit n st st'] assms(1) by auto
next
  case OpOpen
  then show ?thesis using open_moves [of th n st st'] assms(1) by simp
next
  case OpClose
  then show ?thesis using close_moves [of th n st st'] assms(1) by simp
qed (use assms(2) in simp)

text \<open>
  What a run knows of the bucket: \<open>x\<close> tokens were left at the time \<open>m\<close>, and a state that is gone was left to expire.
\<close>

definition allowance :: "throttler_rate_limit \<Rightarrow> micros \<Rightarrow> nat \<Rightarrow> micros \<Rightarrow> rat" where
  "allowance r start k m = of_nat (requests_per_interval r) + yield r (m - start) + of_nat k * slack r"

definition bucket :: "'c throttler \<Rightarrow> throttler_rate_limit \<Rightarrow> micros \<Rightarrow> nat \<Rightarrow> nat \<Rightarrow> micros \<Rightarrow> rat \<Rightarrow> micros \<Rightarrow> kv_table \<Rightarrow> bool" where
  "bucket th r start k g now x m t \<longleftrightarrow>
     0 \<le> x \<and> x \<le> of_nat (requests_per_interval r)
   \<and> (g = 0 \<or> start \<le> m \<and> m \<le> now \<and> of_nat g + x \<le> allowance r start k m)
   \<and> (\<forall>key n. state_key th key \<longrightarrow> now \<le> n \<longrightarrow> (case item_at (state_item th) key n t of
        None \<Rightarrow> g = 0 \<or> m + state_lifetime th \<le> n
      | Some (Inl e) \<Rightarrow> True
      | Some (Inr st) \<Rightarrow> tokens st = x \<and> last_refill st = m))"

lemma yield_add: "yield r (a + b) = yield r a + yield r b"
  by (simp add: yield_def add_divide_distrib distrib_left distrib_right)

lemma yield_nonneg: "0 \<le> d \<Longrightarrow> 0 \<le> yield r d" by (simp add: yield_def)

lemma yield_mono: "a \<le> b \<Longrightarrow> yield r a \<le> yield r b"
  using yield_nonneg [of "b - a" r] yield_add [of r a "b - a"] by simp

lemma slack_nonneg: "0 \<le> slack r" by (simp add: slack_def)

text \<open>The time to live of a state fills the bucket.\<close>

lemma yield_of_interval:
  assumes "0 < rate_interval r" "ttl_micros (rate_interval r) \<le> d"
  shows "of_nat (requests_per_interval r) \<le> yield r d"
proof -
  have "rate_interval r \<le> (rate_interval r + 999) div 1000 * 1000"
    using div_mult_mod_eq [of "rate_interval r + 999" 1000] mod_less_divisor [of 1000 "rate_interval r + 999"] by linarith
  then have "int (rate_interval r) \<le> ttl_micros (rate_interval r) * 1000" unfolding ttl_micros_def by linarith
  then have "int (rate_interval r) \<le> d * 1000" using assms(2) by linarith
  then have "(of_int (int (rate_interval r)) :: rat) \<le> of_int (d * 1000)" by (simp only: of_int_le_iff)
  then have "1 \<le> (of_int d * 1000 / of_nat (rate_interval r) :: rat)" using assms(1) by simp
  then have "1 * of_nat (requests_per_interval r) * 1 \<le> yield r d"
    unfolding yield_def by (intro mult_mono mult_nonneg_nonneg) simp_all
  then show ?thesis by simp
qed

text \<open>How a write of the state carries the bucket on.\<close>

lemma bucket_written:
  assumes key: "state_key th key" and w: "state_written th key now2 st t t'"
    and x: "0 \<le> tokens st" "tokens st \<le> of_nat (requests_per_interval r)"
    and g: "g = 0 \<or> start \<le> last_refill st \<and> last_refill st \<le> now' \<and> of_nat g + tokens st \<le> allowance r start k (last_refill st)"
    and m: "g = 0 \<or> last_refill st \<le> now2"
  shows "bucket th r start k g now' (tokens st) (last_refill st) t'"
proof -
  have at: "case item_at (state_item th) key n t' of None \<Rightarrow> g = 0 \<or> last_refill st + state_lifetime th \<le> n
      | Some (Inl e) \<Rightarrow> True | Some (Inr st') \<Rightarrow> tokens st' = tokens st \<and> last_refill st' = last_refill st" for n
    using w m by (auto simp: state_written_def item_at_def get_bytes_statement_def live_row_def not_expired_def split: if_splits)
  have "key' = key" if "state_key th key'" for key' using state_key_unique [OF that key] .
  then show ?thesis unfolding bucket_def using x g at by blast
qed

lemma bucket_seen:
  assumes bucket: "bucket th r start k g now x m t" and "state_key th key" "now \<le> n" "state_seen th key n t st"
    and th: "throttler_rate th = Some r" "0 < rate_interval r" "ttl_micros (rate_interval r) \<le> state_lifetime th"
  shows "0 \<le> tokens st \<and> tokens st \<le> of_nat (requests_per_interval r)
    \<and> (g = 0 \<or> start \<le> last_refill st \<and> last_refill st \<le> n \<and> of_nat g + tokens st \<le> allowance r start k (last_refill st))"
proof -
  have at: "case item_at (state_item th) key n t of None \<Rightarrow> g = 0 \<or> m + state_lifetime th \<le> n
      | Some (Inl e) \<Rightarrow> True | Some (Inr st) \<Rightarrow> tokens st = x \<and> last_refill st = m"
    using bucket assms(2,3) unfolding bucket_def by blast
  have x: "0 \<le> x" "x \<le> of_nat (requests_per_interval r)"
    and g: "g = 0 \<or> start \<le> m \<and> m \<le> now \<and> of_nat g + x \<le> allowance r start k m"
    using bucket unfolding bucket_def by blast+
  show ?thesis
  proof (cases "item_at (state_item th) key n t")
    case None
    then have st: "st = initial_state th n" using assms(4) by (simp add: state_seen_def)
    have "start \<le> n \<and> of_nat g + of_nat (requests_per_interval r) \<le> allowance r start k n" if "g \<noteq> 0"
    proof -
      have m: "start \<le> m" "m + state_lifetime th \<le> n" "of_nat g + x \<le> allowance r start k m" using that g at None by auto
      have "of_nat (requests_per_interval r) \<le> yield r (n - m)"
        by (rule yield_of_interval [OF th(2)]) (use m th(3) in linarith)
      moreover have "allowance r start k n = allowance r start k m + yield r (n - m)"
        unfolding allowance_def using yield_add [of r "m - start" "n - m"] by simp
      moreover have "0 \<le> state_lifetime th" using th(3) by (simp add: ttl_micros_def)
      ultimately show ?thesis using m x by linarith
    qed
    then show ?thesis using st th(1) by (auto simp: initial_state_def)
  next
    case (Some y)
    then show ?thesis using at x g assms(3,4) by (auto simp: state_seen_def)
  qed
qed

lemma bucket_same:
  assumes "bucket th r start k g now x m t" "now \<le> now'"
    and "\<forall>key. state_key th key \<longrightarrow> t' key = t key \<or> live_row now' t key = None \<and> t' key = None"
  shows "bucket th r start k g now' x m t'"
proof -
  have "case item_at (state_item th) key n t' of None \<Rightarrow> g = 0 \<or> m + state_lifetime th \<le> n
      | Some (Inl e) \<Rightarrow> True | Some (Inr st) \<Rightarrow> tokens st = x \<and> last_refill st = m"
    if key: "state_key th key" and n: "now' \<le> n" for key n
  proof -
    have at: "case item_at (state_item th) key n t of None \<Rightarrow> g = 0 \<or> m + state_lifetime th \<le> n
      | Some (Inl e) \<Rightarrow> True | Some (Inr st) \<Rightarrow> tokens st = x \<and> last_refill st = m" if "now \<le> n" for n
      using assms(1) key that unfolding bucket_def by blast
    show ?thesis
    proof (cases "t' key = t key")
      case True
      show ?thesis using at [OF order_trans [OF assms(2) n]] unfolding item_at_row [of t' key t, OF True] .
    next
      case False
      then have gone: "live_row now' t key = None" "t' key = None" using assms(3) [rule_format, OF key] by simp_all
      have "item_at (state_item th) key now' t = None" using gone(1) by (simp add: item_at_def get_bytes_statement_def)
      then have "g = 0 \<or> m + state_lifetime th \<le> n" using at [OF assms(2)] n by auto
      moreover have "item_at (state_item th) key n t' = None" using gone(2) by (simp add: item_at_def get_bytes_statement_def live_row_def)
      ultimately show ?thesis by simp
    qed
  qed
  moreover have "0 \<le> x" "x \<le> of_nat (requests_per_interval r)"
    "g = 0 \<or> start \<le> m \<and> m \<le> now' \<and> of_nat g + x \<le> allowance r start k m"
    using assms(1,2) unfolding bucket_def by auto
  ultimately show ?thesis unfolding bucket_def by blast
qed

lemma bucket_later:
  assumes "bucket th r start k g now x m t" "now \<le> now'" "k \<le> k'"
  shows "bucket th r start k' g now' x m t"
proof -
  have "allowance r start k m \<le> allowance r start k' m"
    using assms(3) slack_nonneg [of r] by (simp add: allowance_def mult_right_mono)
  moreover have "bucket th r start k g now' x m t" by (rule bucket_same [OF assms(1,2)]) simp
  ultimately show ?thesis unfolding bucket_def by (meson order_trans)
qed

lemma other_op_bucket:
  assumes th: "configured th" "throttler_rate th = Some r"
    and bucket: "bucket th r start k g now x m t" and op: "\<forall>holder. op \<noteq> OpAcquire holder"
    and clock: "clocked aenv now" "clocked_until aenv now'" "now \<le> now'"
  shows "\<exists>x m. bucket th r start k g now' x m (run_op th env aenv op t)"
proof -
  note rate = configured_facts(3) [OF th]
  consider "run_op th env aenv op t = t" | "op_effect th op aenv t (run_op th env aenv op t)"
    using run_op_result [OF configured_facts(1) [OF th(1)], of op aenv t env] by (auto simp: op_result_def)
  then show ?thesis
  proof cases
    case 1
    then show ?thesis using bucket_later [OF bucket clock(3), of k] by auto
  next
    case 2
    then obtain key n where key: "state_key th key" and n: "lock_time aenv key t = Some n"
      and eff: "case item_at (state_item th) key n t of
          Some x \<Rightarrow> \<exists>st st'. x = Inr st \<and> op_moves th op n st st' \<and> state_written th key (apply_now aenv) st' t (run_op th env aenv op t)
        | None \<Rightarrow> \<exists>st'. (st' = initial_state th n \<or> op_moves th op n (initial_state th n) st')
            \<and> state_written th key (apply_now aenv) st' t (run_op th env aenv op t)"
      unfolding op_effect_def by blast
    note times = clocked_time(1,2) [OF n clock(1)] and upper = clocked_time(3) [OF n clock(1,2)]
    obtain st st' where seen: "state_seen th key n t st" and moved: "st' = st \<or> op_moves th op n st st'"
      and w: "state_written th key (apply_now aenv) st' t (run_op th env aenv op t)"
      using eff by (auto simp: state_seen_def split: option.splits)
    have same: "tokens st' = tokens st" "last_refill st' = last_refill st" using moved other_moves_bucket op by blast+
    have facts: "0 \<le> tokens st" "tokens st \<le> of_nat (requests_per_interval r)"
      "g = 0 \<or> start \<le> last_refill st \<and> last_refill st \<le> n \<and> of_nat g + tokens st \<le> allowance r start k (last_refill st)"
      using bucket_seen [OF bucket key times(1) seen th(2)] rate by auto
    then have "bucket th r start k g now' (tokens st') (last_refill st') (run_op th env aenv op t)"
      using times upper same by (intro bucket_written [OF key w]) auto
    then show ?thesis by blast
  qed
qed

lemma consumed_range:
  assumes run: "consume_rate_limit_token_if_configured th st n acquired = (rate, st')"
    and r: "throttler_rate th = Some r" "0 < requests_per_interval r" "requests_per_interval r \<le> u32_max" and tokens: "0 \<le> tokens st"
  shows "0 \<le> tokens st'" "tokens st' \<le> of_nat (requests_per_interval r)"
proof -
  let ?x = "refilled_tokens r n st"
  have "tokens st' = (if ?x \<ge> 1 then f64_round (?x - 1) else ?x)"
    using run r by (auto simp: consume_rate_limit_token_if_configured_def Let_def split: if_splits)
  then show "0 \<le> tokens st'" "tokens st' \<le> of_nat (requests_per_interval r)"
    using refilled_ok [OF tokens r(2), of n] spent_token [OF _ _ r(3), of ?x] by auto
qed

definition grants :: "throttler_mutation_outcome \<Rightarrow> nat" where
  "grants out = (case acquire_result out of PermitAcquired _ \<Rightarrow> 1 | _ \<Rightarrow> 0)"

lemma acquire_allowance:
  fixes th :: "'c throttler"
  assumes run: "evaluate_try_acquire th st n holder = (Inr out :: 'c fleet_error + _)"
    and r: "throttler_rate th = Some r" "0 < requests_per_interval r" "requests_per_interval r \<le> u32_max" "0 < rate_interval r"
    and tokens: "0 \<le> tokens st" "tokens st \<le> of_nat (requests_per_interval r)" and n: "start \<le> n"
    and g: "g = 0 \<or> start \<le> last_refill st \<and> last_refill st \<le> n \<and> of_nat g + tokens st \<le> allowance r start k (last_refill st)"
  defines "st' \<equiv> outcome_state out"
  shows "0 \<le> tokens st' \<and> tokens st' \<le> of_nat (requests_per_interval r)
    \<and> (g + grants out = 0 \<or> start \<le> last_refill st' \<and> last_refill st' \<le> n
        \<and> of_nat (g + grants out) + tokens st' \<le> allowance r start (k + 1) (last_refill st'))"
  using run
proof (cases rule: acquire_bucket)
  case unspent
  have "grants out = 0" using unspent(1) by (auto simp: granted_def grants_def split: throttler_acquire_result.splits)
  moreover have "allowance r start k m \<le> allowance r start (k + 1) m" for m
    using slack_nonneg [of r] by (simp add: allowance_def distrib_right)
  ultimately show ?thesis using unspent(2,3) tokens g order_trans unfolding st'_def by (auto intro: order_trans)
next
  case (spent st1 acquired rate st2)
  have a: "of_nat (grants out) = (if blocked_by_rate_limit rate then 0 else 1 :: rat)"
    using spent(7) by (auto simp: granted_def grants_def split: throttler_acquire_result.splits)
  note range = consumed_range [OF spent(4) r(1-3)]
  define d where "d = max (n - last_refill st1) 0"
  have d: "0 \<le> d" "n - last_refill st1 \<le> d" by (simp_all add: d_def)
  note bound = consumed [OF spent(4) r(1) r(4) _ _ d]
  have st1: "0 \<le> tokens st1" "tokens st1 \<le> of_nat (requests_per_interval r)" using tokens spent(1) by simp_all
  note bound = bound [OF st1]
  have "of_nat (g + grants out) + tokens st2 \<le> allowance r start (k + 1) n"
  proof (cases "g = 0")
    case True
    have "of_nat (requests_per_interval r) + slack r \<le> allowance r start (k + 1) n"
      using yield_nonneg [of "n - start" r] n slack_nonneg [of r] by (simp add: allowance_def distrib_right)
    then show ?thesis using bound(3) True a by simp
  next
    case False
    then have prev: "last_refill st1 \<le> n" "of_nat g + tokens st1 \<le> allowance r start k (last_refill st1)"
      using g spent(1,2) by auto
    have "allowance r start (k + 1) n = allowance r start k (last_refill st1) + yield r d + slack r"
      using yield_add [of r "last_refill st1 - start" "n - last_refill st1"] prev(1)
      by (simp add: allowance_def distrib_right d_def)
    then show ?thesis using bound(2) prev(2) a by simp
  qed
  then show ?thesis using range st1 spent(5,6) bound(1) n unfolding st'_def by simp
qed

lemma acquire_run_bucket:
  fixes th :: "'c throttler"
  assumes th: "configured th" "u32_limits th" "throttler_rate th = Some r"
    and bucket: "bucket th r start k g now x m t" and start: "start \<le> now"
    and clock: "clocked aenv now" "clocked_until aenv now'" "now \<le> now'"
    and run: "throttler_try_acquire th env aenv holder t = (answer, t')"
  shows "\<exists>x m. bucket th r start (k + 1) (if granted answer then g + 1 else g) now' x m t'"
proof -
  note rate = configured_facts(3) [OF th(1,3)]
  have limit: "requests_per_interval r \<le> u32_max" using th(2,3) by (simp add: u32_limits_def)
  have step: "bucket th r start (k + 1) (g + grants out) now' (tokens (outcome_state out)) (last_refill (outcome_state out)) t'
      \<and> bucket th r start (k + 1) g now' (tokens (outcome_state out)) (last_refill (outcome_state out)) t'"
    if key: "state_key th key" and n: "lock_time aenv key t = Some n" and seen: "state_seen th key n t st"
      and out: "evaluate_try_acquire th st n holder = (Inr out :: 'c fleet_error + _)"
      and w: "state_written th key (apply_now aenv) (outcome_state out) t t'" for key n st out
  proof -
    note times = clocked_time(1,2) [OF n clock(1)] and upper = clocked_time(3) [OF n clock(1,2)]
    have facts: "0 \<le> tokens st" "tokens st \<le> of_nat (requests_per_interval r)"
      "g = 0 \<or> start \<le> last_refill st \<and> last_refill st \<le> n \<and> of_nat g + tokens st \<le> allowance r start k (last_refill st)"
      using bucket_seen [OF bucket key times(1) seen th(3)] rate by auto
    have "start \<le> n" using start times(1) by linarith
    note all = acquire_allowance [OF out th(3) _ limit _ facts(1,2) this facts(3)]
    have after: "0 \<le> tokens (outcome_state out)" "tokens (outcome_state out) \<le> of_nat (requests_per_interval r)"
      "g + grants out = 0 \<or> start \<le> last_refill (outcome_state out) \<and> last_refill (outcome_state out) \<le> n
        \<and> of_nat (g + grants out) + tokens (outcome_state out) \<le> allowance r start (k + 1) (last_refill (outcome_state out))"
      using all rate by auto
    show ?thesis
      using times upper after by (intro conjI bucket_written [OF key w]) auto
  qed
  show ?thesis
  proof (cases "granted answer")
    case True
    then obtain permit where ok: "answer = Inr (PermitAcquired permit)" by (auto simp: granted_def)
    obtain key n st out where at: "state_key th key" "lock_time aenv key t = Some n" "state_seen th key n t st"
      and out: "evaluate_try_acquire th st n holder = (Inr out :: 'c fleet_error + _)" "acquire_result out = PermitAcquired permit"
      and w: "should_write out \<Longrightarrow> state_written th key (apply_now aenv) (outcome_state out) t t'"
      using acquire_answer [OF configured_facts(1) [OF th(1)] run [unfolded ok]] by metis
    have "should_write out" using out by (cases rule: acquire_outcome) simp_all
    moreover have "grants out = 1" using out(2) by (simp add: grants_def)
    ultimately show ?thesis using step [OF at out(1) w] True by auto
  next
    case False
    consider "t' = t" | "op_effect th (OpAcquire holder) aenv t t'"
      using run_op_result [OF configured_facts(1) [OF th(1)], of "OpAcquire holder" aenv t env] run by (auto simp: op_result_def)
    then have "\<exists>x m. bucket th r start (k + 1) g now' x m t'"
    proof cases
      case 1
      then show ?thesis using bucket_later [OF bucket clock(3), of "k + 1"] by auto
    next
      case 2
      then obtain key n where key: "state_key th key" and n: "lock_time aenv key t = Some n"
        and eff: "case item_at (state_item th) key n t of
            Some x \<Rightarrow> \<exists>st st'. x = Inr st \<and> op_moves th (OpAcquire holder) n st st' \<and> state_written th key (apply_now aenv) st' t t'
          | None \<Rightarrow> \<exists>st'. (st' = initial_state th n \<or> op_moves th (OpAcquire holder) n (initial_state th n) st')
              \<and> state_written th key (apply_now aenv) st' t t'"
        unfolding op_effect_def by blast
      obtain st st' where seen: "state_seen th key n t st" and moved: "st' = st \<or> op_moves th (OpAcquire holder) n st st'"
        and w: "state_written th key (apply_now aenv) st' t t'"
        using eff by (auto simp: state_seen_def simp del: op_moves.simps split: option.splits)
      from moved show ?thesis
      proof
        assume same: "st' = st"
        note times = clocked_time(1,2) [OF n clock(1)] and upper = clocked_time(3) [OF n clock(1,2)]
        have facts: "0 \<le> tokens st" "tokens st \<le> of_nat (requests_per_interval r)"
          "g = 0 \<or> start \<le> last_refill st \<and> last_refill st \<le> n \<and> of_nat g + tokens st \<le> allowance r start k (last_refill st)"
          using bucket_seen [OF bucket key times(1) seen th(3)] rate by auto
        then have "bucket th r start k g now' (tokens st) (last_refill st) t'"
          using times upper same by (intro bucket_written [OF key w [unfolded same]]) auto
        from bucket_later [OF this order_refl, of "k + 1"] show ?thesis by auto
      next
        assume "op_moves th (OpAcquire holder) n st st'"
        then obtain out where "evaluate_try_acquire th st n holder = (Inr out :: 'c fleet_error + _)" "outcome_state out = st'"
          using acquire_moves by blast
        then show ?thesis using step [OF key n seen] w by blast
      qed
    qed
    then show ?thesis using False by simp
  qed
qed

lemma clocked_order:
  assumes "clocked aenv now" "clocked_until aenv now'"
  shows "now \<le> now'"
  using assms unfolding clocked_def clocked_until_def by (metis less_le_not_le linear order_trans)

lemma rate_run_bucket:
  assumes th: "configured th" "u32_limits th" "throttler_rate th = Some r" and ok: "table_ok th t0"
    and run: "rate_run th start t0 k g now t"
  shows "start \<le> now \<and> (\<exists>x m. bucket th r start k g now x m t)"
  using run
proof (induction rule: rate_run.induct)
  case rate_starts
  obtain x m where x: "0 \<le> x" "x \<le> of_nat (requests_per_interval r)"
    "\<And>key n st. state_key th key \<Longrightarrow> item_at (state_item th) key n t0 = Some (Inr st) \<Longrightarrow> tokens st = x \<and> last_refill st = m"
  proof -
  have "\<exists>x m. 0 \<le> x \<and> x \<le> of_nat (requests_per_interval r) \<and>
      (\<forall>key n st. state_key th key \<longrightarrow> item_at (state_item th) key n t0 = Some (Inr st) \<longrightarrow> tokens st = x \<and> last_refill st = m)"
  proof (cases "\<exists>key n st. state_key th key \<and> item_at (state_item th) key n t0 = Some (Inr st)")
    case True
    then obtain key n st where key: "state_key th key" and st: "item_at (state_item th) key n t0 = Some (Inr st)" by blast
    have "tokens st' = tokens st \<and> last_refill st' = last_refill st"
      if "state_key th key'" "item_at (state_item th) key' n' t0 = Some (Inr st')" for key' n' st'
    proof -
      have "key' = key" by (rule state_key_unique [OF that(1) key])
      from item_at_value [OF that(2) [unfolded this] st] show ?thesis by simp
    qed
    moreover have "0 \<le> tokens st \<and> tokens st \<le> of_nat (requests_per_interval r)"
      using ok key st th(3) unfolding table_ok_def state_ok_def by blast
    ultimately show ?thesis by blast
  next
    case False
    then show ?thesis by (intro exI [of _ 0]) auto
  qed
  then show ?thesis using that by blast
  qed
  have "bucket th r start 0 0 start x m t0" unfolding bucket_def using x by (auto split: option.split sum.split)
  then show ?case by blast
next
  case (rate_acquires k g now t aenv now' env holder a t')
  note now = clocked_order [OF rate_acquires.hyps(2,3)]
  obtain x m where b: "bucket th r start k g now x m t" and s: "start \<le> now" using rate_acquires.IH by blast
  show ?case using acquire_run_bucket [OF th b s rate_acquires.hyps(2,3) now rate_acquires.hyps(4)] now s by auto
next
  case (rate_operates k g now t aenv now' op env)
  note now = clocked_order [OF rate_operates.hyps(2,3)]
  obtain x m where b: "bucket th r start k g now x m t" and s: "start \<le> now" using rate_operates.IH by blast
  show ?case using other_op_bucket [OF th(1,3) b rate_operates.hyps(4,2,3) now] now s by auto
next
  case (rate_passes k g now t now' t')
  obtain x m where b: "bucket th r start k g now x m t" and s: "start \<le> now" using rate_passes.IH by blast
  have "start \<le> now'" using s rate_passes.hyps(2) by linarith
  moreover have "bucket th r start k g now' x m t'" by (rule bucket_same [OF b rate_passes.hyps(2,3)])
  ultimately show ?case by blast
qed

text \<open>C14: The rate limit holds in the floating-point arithmetic of the source. In any run of acquisitions by any
  number of processes over a time \<open>T\<close>, with other operations in between and whatever their transactions came to, the
  permits granted are at most the burst, which is the number of requests per interval, plus that number times
  \<open>T\<close> over the interval, up to a relative error of \<open>2 ^ -50\<close> and an error of \<open>2 ^ -52\<close> of the burst per acquisition.
  A state that was left to expire does not give more, since its time to live covers the interval. A reset makes the
  bucket full again and is not among the other operations.\<close>

theorem throttler_rate_is_enforced:
  assumes th: "configured th" "u32_limits th" "throttler_rate th = Some r" and ok: "table_ok th t0"
    and run: "rate_run th start t0 k g now t"
  shows "of_nat g \<le> of_nat (requests_per_interval r)
      + of_int (now - start) * 1000 / of_nat (rate_interval r) * of_nat (requests_per_interval r) * (1 + 1 / 2 ^ 50)
      + of_nat k * (of_nat (requests_per_interval r) / 2 ^ 52 :: rat)"
proof -
  obtain x m where "bucket th r start k g now x m t" and s: "start \<le> now" using rate_run_bucket [OF th ok run] by blast
  then have x: "0 \<le> x" and g: "g = 0 \<or> m \<le> now \<and> of_nat g + x \<le> allowance r start k m" unfolding bucket_def by auto
  have "of_nat g \<le> allowance r start k now"
  proof (cases "g = 0")
    case True
    then show ?thesis using yield_nonneg [of "now - start" r] s slack_nonneg [of r] by (simp add: allowance_def)
  next
    case False
    then have "of_nat g + x \<le> allowance r start k m" "m \<le> now" using g by simp_all
    moreover have "allowance r start k m \<le> allowance r start k now"
      using yield_mono [of "m - start" "now - start" r] \<open>m \<le> now\<close> by (simp add: allowance_def)
    ultimately show ?thesis using x by linarith
  qed
  then show ?thesis by (simp add: allowance_def yield_def slack_def)
qed

end
