(* ===== verification/ThrottlerRuns.thy ===== *)
theory ThrottlerRuns
  imports ThrottlerRate
begin

text \<open>
  Concrete runs of throttlers: a bound on concurrency, a circuit breaker and a rate limit, each built by the
  constructor, on tables that evaluation computes. They are the witnesses of the properties of the throttler.
\<close>

section \<open>Concrete runs\<close>

text \<open>Plain items whose codec knows the states of the runs.\<close>

definition demo_states :: "throttler_state list \<Rightarrow> (throttler_state, unit, unit) item" where
  "demo_states sts = \<lparr>item_prefix = [], item_codec = Plain,
     to_plaintext_bytes = (\<lambda>st. case find (\<lambda>i. sts ! i = st) [0..<length sts] of Some i \<Rightarrow> Inr [of_nat i] | None \<Rightarrow> Inl ()),
     from_plaintext_bytes = (\<lambda>bs. case bs of [i] \<Rightarrow> Inr (sts ! unat i) | _ \<Rightarrow> Inl ()),
     seal = (\<lambda>_ p _. Inr p), unseal = (\<lambda>_ b _. Inr b)\<rparr>"

lemma demo_states_faithful: "length sts \<le> 256 \<Longrightarrow> faithful (demo_states sts)"
  by (auto simp: faithful_def demo_states_def find_Some_iff unat_of_nat split: option.splits)

definition demo_time :: "micros \<Rightarrow> atomic_env" where
  "demo_time n = \<lparr>atomic_protocol = ''p'', atomic_reply = supported_reply, lock_attempts = (\<lambda>_. (True, n)), apply_now = n\<rparr>"

definition demo_blank :: "micros \<Rightarrow> throttler_state" where
  "demo_blank n = \<lparr>tokens = 0, last_refill = n, throttler_slots = fmempty, circuit_failures = 0, circuit_state = Circuit_Closed,
      circuit_opened_at = None, probe_holder_id = None, probe_expires_at = None\<rparr>"

definition demo_config :: throttler_config where
  "demo_config = \<lparr>config_key = ''k'', config_rate_limit = None,
     config_concurrency_limit = Some \<lparr>limit_max_concurrent = 2, limit_max_hold_duration = Some 2000000000\<rparr>,
     config_circuit_breaker = None\<rparr>"

definition demo_taken1 :: throttler_state where
  "demo_taken1 = (demo_blank 5)\<lparr>throttler_slots := fmupd ''1'' \<lparr>throttler_slot_holder = ''g'', throttler_slot_expires_at = 2000005\<rparr> fmempty\<rparr>"

definition demo_taken2 :: throttler_state where
  "demo_taken2 = (demo_blank 5)\<lparr>throttler_slots := fmupd ''2'' \<lparr>throttler_slot_holder = ''h'', throttler_slot_expires_at = 2000007\<rparr>
       (fmupd ''1'' \<lparr>throttler_slot_holder = ''g'', throttler_slot_expires_at = 2000005\<rparr> fmempty)\<rparr>"

definition demo_sts :: "throttler_state list" where
  "demo_sts = [demo_blank 5, demo_taken1, demo_taken2]"

definition demo_throttler :: "unit throttler" where
  "demo_throttler = \<lparr>throttler_key = ''k'', throttler_rate = None,
     throttler_concurrency = Some \<lparr>resolved_max_concurrent = 2, resolved_max_hold_duration = 2000000000\<rparr>,
     throttler_breaker = None, state_ttl = Ttl (Some 20000000000), state_item = item_new_plain (demo_states demo_sts) ''r::throttler::k::''\<rparr>"

lemmas throttler_new_defs = new_throttler_def resolve_option_def resolve_throttler_rate_limit_def
  resolve_throttler_concurrency_limit_def resolve_throttler_circuit_breaker_def
  FLEET_MAX_CONCURRENT_LIMIT_def validate_duration_for_throttler_def rounded_micros ttl_micros_def i64_max_def option_unwrap_or_def
  result_bind_def throttler_state_ttl_def scale_duration_for_throttler_state_ttl_def duration_checked_mul_def
  FLEET_THROTTLER_STATE_TTL_MULTIPLIER_def DEFAULT_FLEET_THROTTLER_PROBE_WINDOW_def duration_max_def max_kv_ttl_duration_def
  MIN_KV_TTL_def ttl_expires_after_def kv_rounded
  build_throttler_state_prefix_def component_key_defs kv_build_key_from_parts_def kv_validate_key_part_def kv_validate_key_length_def
  KV_KEY_SEPARATOR_def MAX_KV_KEY_BYTES_def Let_def

lemma demo_throttler_new: "new_throttler (demo_states demo_sts) ''r'' demo_config = Inr demo_throttler"
  by (simp add: throttler_new_defs demo_config_def demo_throttler_def)

lemma try_lock_at_once:
  assumes "fst (lock_attempts env 0)"
  shows "try_lock env key 0 8 t = (Inr (t key = None, Some (locked_row_of (snd (lock_attempts env 0)) key t)),
    with_placeholder (snd (lock_attempts env 0)) key t)"
proof -
  have "[0..<0 + 8] = 0 # [1..<8::nat]" by (simp add: upt_rec)
  then show ?thesis using assms unfolding try_lock_spec by simp
qed

lemmas throttler_run_defs = throttler_try_acquire_def fleet_pool_write_def pool_write_def finish_write_transaction_def
  throttler_try_acquire_in_current_transaction_def item_mutate_live_or_insert_initial_value_atomically_in_current_transaction_def
  mutate_live_or_init_item_in_transaction_internal_def with_key_def
  mutate_live_key_or_insert_initial_value_atomically_in_transaction_internal_def decide_or_initialize_def
  mutate_key_atomically_in_transaction_internal_def lock_key_for_atomic_mutation_def map_error_def
  initialize_item_def decide_initialized_item_def encode_atomic_mutation_for_key_def plain_encode_any_key encode_plain_value_def
  decode_value_for_key_def decode_plain_value_def with_codec_def
  ttl_positive_microseconds_def kv_rounded ttl_micros_def i64_max_def result_bind_def admitted_def admit_def supported_reply_def
  supported_row_def SUPPORTED_EPOCH_def SUPPORTED_FINGERPRINT_def Let_def do_then_def
  set_bytes_with_executor_def set_bytes_statement_def expires_at_expression_def pg_timestamp_end_def
  try_lock_at_once locked_row_of_def with_placeholder_def placeholder_def not_expired_def
  update_key_value_and_ttl_for_atomic_mutation_def update_value_and_ttl_statement_def kv_require_rows_affected_def

lemma demo_key: "item_key_from_parts (state_item demo_throttler) [FLEET_THROTTLER_STATE_KEY_PART] = Inr ''r::throttler::k::state::''"
  by (simp add: item_key_from_parts_def demo_throttler_def kv_build_key_from_prefix_and_parts_def kv_validate_key_part_def
      kv_validate_key_length_def MAX_KV_KEY_BYTES_def KV_KEY_SEPARATOR_def result_bind_def FLEET_THROTTLER_STATE_KEY_PART_def)

lemma demo_th_suffixes: "map decimal_text [Suc 0..<3] = [''1'', ''2'']"
  by code_simp

lemma demo_acquire_first:
  "evaluate_try_acquire demo_throttler (demo_blank 5) 5 (Some ''g'') = Inr
    \<lparr>acquire_result = PermitAcquired \<lparr>permit_throttler_key = ''k'', permit_holder_id = Some ''g'', permit_slot_suffix = Some ''1'',
       probe_acquired = False\<rparr>, outcome_state = demo_taken1, should_write = True\<rparr>"
  by (simp add: evaluate_try_acquire_def demo_throttler_def should_block_for_open_circuit_def acquire_concurrency_slot_if_configured_def
      demo_blank_def live_slots_def demo_th_suffixes result_bind_def add_duration_to_timestamp_def rounded_micros ttl_micros_def i64_max_def
      consume_rate_limit_token_if_configured_def demo_taken1_def Let_def del: upt_Suc)

lemma fmap_neq: "fmupd k v m \<noteq> fmempty" "fmempty \<noteq> fmupd k v m"
  "k' \<noteq> k \<Longrightarrow> fmupd k' v' (fmupd k v fmempty) \<noteq> fmupd k v fmempty" "k' \<noteq> k \<Longrightarrow> fmupd k v fmempty \<noteq> fmupd k' v' (fmupd k v fmempty)"
  by (metis fmempty_lookup fmupd_lookup option.distinct(1))+

lemma demo_codec:
  "item_codec (state_item demo_throttler) = Plain"
  "to_plaintext_bytes (state_item demo_throttler) (demo_blank 5) = Inr [0]"
  "to_plaintext_bytes (state_item demo_throttler) (demo_taken1) = Inr [1]"
  "to_plaintext_bytes (state_item demo_throttler) (demo_taken2) = Inr [2]"
  "from_plaintext_bytes (state_item demo_throttler) [0] = Inr (demo_blank 5)"
  "from_plaintext_bytes (state_item demo_throttler) [1] = Inr (demo_taken1)"
  "from_plaintext_bytes (state_item demo_throttler) [2] = Inr (demo_taken2)"
  "state_ttl demo_throttler = Ttl (Some 20000000000)"
  by (simp_all add: demo_throttler_def demo_states_def item_new_plain_def demo_sts_def demo_taken1_def demo_taken2_def demo_blank_def upt_rec fmap_neq)

lemma demo_initial: "initial_state demo_throttler n = demo_blank n"
  by (simp add: initial_state_def demo_throttler_def demo_blank_def)

lemma demo_step_first:
  "throttler_try_acquire demo_throttler demo_env (demo_time 5) (Some ''g'') Map.empty
   = (Inr (PermitAcquired \<lparr>permit_throttler_key = ''k'', permit_holder_id = Some ''g'', permit_slot_suffix = Some ''1'',
       probe_acquired = False\<rparr>), [''r::throttler::k::state::'' \<mapsto> \<lparr>kv_value = [1], kv_expires_at = Some 20000005, kv_updated_at = 5\<rparr>])"
  by (simp add: throttler_run_defs demo_key demo_env_def demo_time_def begin_transaction_def demo_codec demo_initial demo_acquire_first decide_try_acquire_def)

lemma demo_live_slots: "live_slots 7 (throttler_slots demo_taken1) = throttler_slots demo_taken1"
  by (rule fmap_ext) (simp add: live_slots_lookup demo_taken1_def split: option.split)

lemma demo_acquire_second:
  "evaluate_try_acquire demo_throttler demo_taken1 7 (Some ''h'') = Inr
    \<lparr>acquire_result = PermitAcquired \<lparr>permit_throttler_key = ''k'', permit_holder_id = Some ''h'', permit_slot_suffix = Some ''2'',
       probe_acquired = False\<rparr>, outcome_state = demo_taken2, should_write = True\<rparr>"
  using demo_live_slots
  by (simp add: evaluate_try_acquire_def demo_throttler_def should_block_for_open_circuit_def acquire_concurrency_slot_if_configured_def
      demo_blank_def demo_th_suffixes result_bind_def add_duration_to_timestamp_def rounded_micros ttl_micros_def i64_max_def
      consume_rate_limit_token_if_configured_def demo_taken1_def demo_taken2_def Let_def del: upt_Suc)

lemma demo_step_second:
  "throttler_try_acquire demo_throttler demo_env (demo_time 7) (Some ''h'')
    [''r::throttler::k::state::'' \<mapsto> \<lparr>kv_value = [1], kv_expires_at = Some 20000005, kv_updated_at = 5\<rparr>]
   = (Inr (PermitAcquired \<lparr>permit_throttler_key = ''k'', permit_holder_id = Some ''h'', permit_slot_suffix = Some ''2'',
       probe_acquired = False\<rparr>), [''r::throttler::k::state::'' \<mapsto> \<lparr>kv_value = [2], kv_expires_at = Some 20000007, kv_updated_at = 7\<rparr>])"
  by (simp add: throttler_run_defs demo_key demo_env_def demo_time_def begin_transaction_def demo_codec demo_initial demo_acquire_second decide_try_acquire_def)

lemma demo_configured: "configured demo_throttler"
  using demo_throttler_new demo_states_faithful [of demo_sts] unfolding configured_def by (auto simp: demo_sts_def)

lemma demo_micros: "ttl_micros 2000000000 = 2000000" "ttl_micros 1000000000 = 1000000"
  by (simp_all add: ttl_micros_def)

theorem throttler_slot_is_exclusive_witness:
  "''2'' \<noteq> ''1'' \<and> fst (throttler_try_acquire demo_throttler demo_env (demo_time 7) (Some ''h'')
      (snd (throttler_try_acquire demo_throttler demo_env (demo_time 5) (Some ''g'') Map.empty)))
    = Inr (PermitAcquired \<lparr>permit_throttler_key = ''k'', permit_holder_id = Some ''h'', permit_slot_suffix = Some ''2'', probe_acquired = False\<rparr>)"
proof -
  have "permit_slot_suffix \<lparr>permit_throttler_key = ''k'', permit_holder_id = Some ''h'', permit_slot_suffix = Some ''2'',
       probe_acquired = False\<rparr> \<noteq> Some ''1''"
    by (rule throttler_slot_is_exclusive [where since = 5 and l = "\<lparr>resolved_max_concurrent = 2, resolved_max_hold_duration = 2000000000\<rparr>", OF demo_configured _ demo_step_first _ _ refl rtranclp.rtrancl_refl demo_step_second])
      (simp_all add: demo_throttler_def clocked_def clocked_until_def demo_time_def demo_micros)
  then show ?thesis using demo_step_first demo_step_second by simp
qed

section \<open>A circuit breaker\<close>

definition breaker_config :: throttler_config where
  "breaker_config = \<lparr>config_key = ''k'', config_rate_limit = None, config_concurrency_limit = None,
     config_circuit_breaker = Some \<lparr>failure_threshold = 1, recovery_timeout = 1000000000\<rparr>\<rparr>"

definition demo_open :: throttler_state where
  "demo_open = (demo_blank 5)\<lparr>circuit_state := Circuit_Open, circuit_opened_at := Some 5\<rparr>"

definition demo_probed :: throttler_state where
  "demo_probed = demo_open\<lparr>probe_holder_id := Some ''g'', probe_expires_at := Some 7000000\<rparr>"

definition demo_closed :: throttler_state where
  "demo_closed = demo_probed\<lparr>circuit_state := Circuit_Closed, circuit_opened_at := None\<rparr>"

definition breaker_sts :: "throttler_state list" where
  "breaker_sts = [demo_blank 5, demo_open, demo_probed, demo_closed]"

definition demo_breaker :: "unit throttler" where
  "demo_breaker = \<lparr>throttler_key = ''k'', throttler_rate = None, throttler_concurrency = None,
     throttler_breaker = Some \<lparr>failure_threshold = 1, recovery_timeout = 1000000000\<rparr>,
     state_ttl = Ttl (Some 50000000000), state_item = item_new_plain (demo_states breaker_sts) ''r::throttler::k::''\<rparr>"

lemma demo_breaker_new: "new_throttler (demo_states breaker_sts) ''r'' breaker_config = Inr demo_breaker"
  by (simp add: throttler_new_defs breaker_config_def demo_breaker_def)

lemma breaker_configured: "configured demo_breaker"
  using demo_breaker_new demo_states_faithful [of breaker_sts] unfolding configured_def by (auto simp: breaker_sts_def)

lemma breaker_key: "item_key_from_parts (state_item demo_breaker) [FLEET_THROTTLER_STATE_KEY_PART] = Inr ''r::throttler::k::state::''"
  by (simp add: item_key_from_parts_def demo_breaker_def kv_build_key_from_prefix_and_parts_def kv_validate_key_part_def
      kv_validate_key_length_def MAX_KV_KEY_BYTES_def KV_KEY_SEPARATOR_def result_bind_def FLEET_THROTTLER_STATE_KEY_PART_def)

lemma breaker_codec:
  "item_codec (state_item demo_breaker) = Plain"
  "to_plaintext_bytes (state_item demo_breaker) (demo_blank 5) = Inr [0]"
  "to_plaintext_bytes (state_item demo_breaker) demo_open = Inr [1]"
  "to_plaintext_bytes (state_item demo_breaker) demo_probed = Inr [2]"
  "to_plaintext_bytes (state_item demo_breaker) demo_closed = Inr [3]"
  "from_plaintext_bytes (state_item demo_breaker) [0] = Inr (demo_blank 5)"
  "from_plaintext_bytes (state_item demo_breaker) [1] = Inr demo_open"
  "from_plaintext_bytes (state_item demo_breaker) [2] = Inr demo_probed"
  "from_plaintext_bytes (state_item demo_breaker) [3] = Inr demo_closed"
  "state_ttl demo_breaker = Ttl (Some 50000000000)" "throttler_breaker demo_breaker \<noteq> None"
  by (simp_all add: demo_breaker_def demo_states_def item_new_plain_def breaker_sts_def demo_closed_def demo_probed_def demo_open_def
      demo_blank_def upt_rec)

lemma breaker_initial: "initial_state demo_breaker n = demo_blank n"
  by (simp add: initial_state_def demo_breaker_def demo_blank_def)

definition breaker_row :: "8 word \<Rightarrow> micros \<Rightarrow> kv_table" where
  "breaker_row i n = [''r::throttler::k::state::'' \<mapsto> \<lparr>kv_value = [i], kv_expires_at = Some (50000000 + n), kv_updated_at = n\<rparr>]"

lemma breaker_opening: "decide_set_circuit demo_breaker Circuit_Open True False \<lparr>item_live = demo_blank 5, item_live_timestamp = 5\<rparr>
    = Inr (SetValue demo_open (Ttl (Some 50000000000)), ())"
  by (simp add: decide_set_circuit_def demo_breaker_def demo_open_def demo_blank_def Let_def)

lemmas breaker_run_defs = throttler_run_defs breaker_key demo_env_def demo_time_def begin_transaction_def breaker_codec
  breaker_initial decide_try_acquire_def breaker_row_def

lemma breaker_step_open: "open_circuit demo_breaker demo_env (demo_time 5) Map.empty = (Inr (), breaker_row 1 5)"
  by (simp add: open_circuit_def open_circuit_in_current_transaction_def set_circuit_state_in_current_transaction_def
      breaker_run_defs breaker_opening)

lemma breaker_blocked: "evaluate_try_acquire demo_breaker demo_open 7 (Some ''h'') = Inr
    \<lparr>acquire_result = PermitCircuitOpen, outcome_state = demo_open, should_write = False\<rparr>"
  by (simp add: evaluate_try_acquire_def should_block_for_open_circuit_def demo_breaker_def demo_open_def i64_saturating_sub_def
      i64_min_def i64_max_def duration_to_microseconds_lossy_def rounded_micros ttl_micros_def option_unwrap_or_def)

lemma breaker_step_blocked:
  "throttler_try_acquire demo_breaker demo_env (demo_time 7) (Some ''h'') (breaker_row 1 5) = (Inr PermitCircuitOpen, breaker_row 1 5)"
  by (simp add: breaker_run_defs breaker_blocked)

theorem open_circuit_blocks_everybody_witness:
  "throttler_try_acquire demo_breaker demo_env (demo_time 7) (Some ''h'')
     (snd (open_circuit demo_breaker demo_env (demo_time 5) Map.empty)) = (Inr PermitCircuitOpen, breaker_row 1 5)"
proof -
  have "PermitCircuitOpen = PermitCircuitOpen \<and> breaker_row 1 5 = breaker_row 1 5"
    by (rule open_circuit_blocks_everybody [where since = 5 and th = demo_breaker and b = "\<lparr>failure_threshold = 1, recovery_timeout = 1000000000\<rparr>", OF breaker_configured _ disjI1 [OF breaker_step_open] _ refl
          rtranclp.rtrancl_refl breaker_step_blocked])
      (simp_all add: demo_breaker_def clocked_def clocked_until_def demo_time_def demo_micros)
  then show ?thesis using breaker_step_open breaker_step_blocked by simp
qed

definition demo_permit :: "string \<Rightarrow> bool \<Rightarrow> throttler_permit" where
  "demo_permit h p = \<lparr>permit_throttler_key = ''k'', permit_holder_id = Some h, permit_slot_suffix = None, probe_acquired = p\<rparr>"

lemmas breaker_eval_defs = evaluate_try_acquire_def should_block_for_open_circuit_def demo_breaker_def demo_open_def demo_probed_def
  demo_closed_def i64_saturating_sub_def i64_min_def i64_max_def duration_to_microseconds_lossy_def rounded_micros ttl_micros_def
  option_unwrap_or_def acquire_concurrency_slot_if_configured_def consume_rate_limit_token_if_configured_def result_bind_def
  add_duration_to_timestamp_def DEFAULT_FLEET_THROTTLER_PROBE_WINDOW_def demo_permit_def demo_blank_def Let_def

lemma breaker_probing: "evaluate_try_acquire demo_breaker demo_open 2000000 (Some ''g'') = Inr
    \<lparr>acquire_result = PermitAcquired (demo_permit ''g'' True), outcome_state = demo_probed, should_write = True\<rparr>"
  by (simp add: breaker_eval_defs)

lemma breaker_admits: "evaluate_try_acquire demo_breaker demo_closed 2000002 (Some ''h'') = Inr
    \<lparr>acquire_result = PermitAcquired (demo_permit ''h'' False), outcome_state = demo_closed, should_write = True\<rparr>"
  by (simp add: breaker_eval_defs)

lemma breaker_recovers: "decide_release demo_breaker (demo_permit ''h'' False) TaskSucceeded \<lparr>item_live = demo_probed, item_live_timestamp = 2000001\<rparr> = Inr
    (SetValue demo_closed (Ttl (Some 50000000000)), \<lparr>concurrency_slot_released = False, circuit_state_updated = True, probe_released = False\<rparr>)"
  by (simp add: decide_release_def apply_release_and_outcome_def release_owned_concurrency_slot_def
      apply_task_outcome_to_circuit_state_def clear_probe_if_owned_def release_modified_state_def breaker_eval_defs demo_blank_def)

lemma breaker_step_probe:
  "throttler_try_acquire demo_breaker demo_env (demo_time 2000000) (Some ''g'') (breaker_row 1 5)
   = (Inr (PermitAcquired (demo_permit ''g'' True)), breaker_row 2 2000000)"
  by (simp add: breaker_run_defs breaker_probing)

lemma breaker_step_release:
  "throttler_release demo_breaker demo_env (demo_time 2000001) (demo_permit ''h'' False) TaskSucceeded (breaker_row 2 2000000)
   = (Inr \<lparr>concurrency_slot_released = False, circuit_state_updated = True, probe_released = False\<rparr>, breaker_row 3 2000001)"
proof -
  have a: "require_permit_matches_throttler demo_breaker (demo_permit ''h'' False) = Inr ()" "needs_state_cleanup demo_breaker (demo_permit ''h'' False)"
    by (simp_all add: require_permit_matches_throttler_def needs_state_cleanup_def demo_breaker_def demo_permit_def)
  show ?thesis
    by (simp add: throttler_release_def throttler_release_in_current_transaction_def a
        item_mutate_live_atomically_in_current_transaction_def mutate_live_item_in_transaction_internal_def decide_live_item_def
        absent_is_def breaker_run_defs breaker_recovers)
qed

lemma breaker_step_admit:
  "throttler_try_acquire demo_breaker demo_env (demo_time 2000002) (Some ''h'') (breaker_row 3 2000001)
   = (Inr (PermitAcquired (demo_permit ''h'' False)), breaker_row 3 2000002)"
  by (simp add: breaker_run_defs breaker_admits)

lemma breaker_table_ok: "table_ok demo_breaker (breaker_row 1 5)"
proof -
  have "x = Inr demo_open" if "state_key demo_breaker key" "item_at (state_item demo_breaker) key now (breaker_row 1 5) = Some x" for key now x
    using that breaker_key breaker_codec
    by (auto simp: state_key_def item_at_def get_bytes_statement_def live_row_def breaker_row_def decode_value_for_key_def
        decode_plain_value_def with_codec_def split: if_splits)
  moreover have "state_ok demo_breaker demo_open" by (simp add: state_ok_def demo_breaker_def demo_open_def demo_blank_def)
  ultimately show ?thesis unfolding table_ok_def by fastforce
qed

theorem throttler_probe_is_single_witness:
  "\<not> probe_acquired (demo_permit ''h'' False) \<and> fst (throttler_try_acquire demo_breaker demo_env (demo_time 2000002) (Some ''h'')
     (breaker_row 3 2000001)) = Inr (PermitAcquired (demo_permit ''h'' False))"
proof -
  let ?p = "\<lparr>probing_holder = ''g'', probe_since = 2000000, probe_until = 2000000 + ttl_micros DEFAULT_FLEET_THROTTLER_PROBE_WINDOW\<rparr>"
  have window: "ttl_micros DEFAULT_FLEET_THROTTLER_PROBE_WINDOW = 5000000"
    by (simp add: ttl_micros_def DEFAULT_FLEET_THROTTLER_PROBE_WINDOW_def)
  have "throttler_step demo_breaker (probe_permits demo_breaker ?p) 2000000 (probe_until ?p) (breaker_row 2 2000000)
      (run_op demo_breaker demo_env (demo_time 2000001) (OpRelease (demo_permit ''h'' False) TaskSucceeded) (breaker_row 2 2000000))"
    by (rule throttler_step.operates)
      (simp_all add: probe_permits_def demo_permit_def clocked_def clocked_until_def demo_time_def window)
  then have run: "(throttler_step demo_breaker (probe_permits demo_breaker ?p) 2000000 (probe_until ?p))\<^sup>*\<^sup>*
      (breaker_row 2 2000000) (breaker_row 3 2000001)"
    by (simp add: breaker_step_release)
  have "\<not> probe_acquired (demo_permit ''h'' False)"
    by (rule throttler_probe_is_single [OF breaker_configured _ breaker_table_ok
          disjI1 [OF conjI [OF breaker_step_probe]] _ refl run breaker_step_admit])
      (simp_all add: breaker_codec demo_permit_def clocked_def clocked_until_def demo_time_def window)
  then show ?thesis by (simp add: breaker_step_admit)
qed

theorem throttler_status_is_bounded_witness:
  "\<exists>status. throttler_fetch_status demo_throttler ''p'' demo_env
      [''r::throttler::k::state::'' \<mapsto> \<lparr>kv_value = [1], kv_expires_at = Some 20000005, kv_updated_at = 5\<rparr>] = Inr status
    \<and> current_concurrency status \<le> 2
    \<and> table_ok demo_throttler [''r::throttler::k::state::'' \<mapsto> \<lparr>kv_value = [1], kv_expires_at = Some 20000005, kv_updated_at = 5\<rparr>]"
proof -
  let ?t = "[''r::throttler::k::state::'' \<mapsto> \<lparr>kv_value = [1], kv_expires_at = Some 20000005, kv_updated_at = 5\<rparr>] :: kv_table"
  have "is_ok (throttler_fetch_status demo_throttler ''p'' demo_env ?t)"
    by (simp add: throttler_fetch_status_def item_get_and_return_database_timestamp_def with_key_def demo_key
        get_bytes_and_return_database_timestamp_def kv_pool_read_def pool_read_def demo_env_def
        get_bytes_and_return_database_timestamp_in_current_transaction_def finish_rollback_only_transaction_def
        get_bytes_and_return_database_timestamp_with_executor_def get_bytes_returning_timestamp_statement_def live_row_def not_expired_def
        stamped_def status_of_row_def throttler_run_defs begin_transaction_def demo_codec)
  then obtain status where st: "throttler_fetch_status demo_throttler ''p'' demo_env ?t = Inr status"
    by (auto simp: is_ok_def split: sum.splits)
  have "throttler_change demo_throttler Map.empty ?t"
    using throttler_change.change_operates [of demo_throttler Map.empty demo_env "demo_time 5" "OpAcquire (Some ''g'')"] demo_step_first by simp
  then have run: "(throttler_change demo_throttler)\<^sup>*\<^sup>* Map.empty ?t" by blast
  have "throttler_concurrency demo_throttler = Some \<lparr>resolved_max_concurrent = 2, resolved_max_hold_duration = 2000000000\<rparr>"
    by (simp add: demo_throttler_def)
  then show ?thesis using throttler_status_is_bounded [OF demo_configured _ run _ st] st
    by (auto simp: u32_limits_def demo_throttler_def)
qed

section \<open>A rate limit\<close>

definition rate_config :: throttler_config where
  "rate_config = \<lparr>config_key = ''k'', config_rate_limit = Some \<lparr>requests_per_interval = 2, rate_interval = 1000000000\<rparr>,
     config_concurrency_limit = None, config_circuit_breaker = None\<rparr>"

definition rate_sts :: "throttler_state list" where
  "rate_sts = [(demo_blank 5)\<lparr>tokens := 2\<rparr>, (demo_blank 5)\<lparr>tokens := 1\<rparr>]"

definition demo_limiter :: "unit throttler" where
  "demo_limiter = \<lparr>throttler_key = ''k'', throttler_rate = Some \<lparr>requests_per_interval = 2, rate_interval = 1000000000\<rparr>,
     throttler_concurrency = None, throttler_breaker = None,
     state_ttl = Ttl (Some 10000000000), state_item = item_new_plain (demo_states rate_sts) ''r::throttler::k::''\<rparr>"

lemma limiter_configured: "configured demo_limiter"
proof -
  have "new_throttler (demo_states rate_sts) ''r'' rate_config = Inr demo_limiter"
    by (simp add: throttler_new_defs rate_config_def demo_limiter_def)
  then show ?thesis using demo_states_faithful [of rate_sts] unfolding configured_def by (auto simp: rate_sts_def)
qed

lemma limiter_key: "item_key_from_parts (state_item demo_limiter) [FLEET_THROTTLER_STATE_KEY_PART] = Inr ''r::throttler::k::state::''"
  by (simp add: item_key_from_parts_def demo_limiter_def kv_build_key_from_prefix_and_parts_def kv_validate_key_part_def
      kv_validate_key_length_def MAX_KV_KEY_BYTES_def KV_KEY_SEPARATOR_def result_bind_def FLEET_THROTTLER_STATE_KEY_PART_def)

lemma limiter_codec:
  "item_codec (state_item demo_limiter) = Plain"
  "to_plaintext_bytes (state_item demo_limiter) ((demo_blank 5)\<lparr>tokens := 2\<rparr>) = Inr [0]"
  "to_plaintext_bytes (state_item demo_limiter) ((demo_blank 5)\<lparr>tokens := 1\<rparr>) = Inr [1]"
  "from_plaintext_bytes (state_item demo_limiter) [0] = Inr ((demo_blank 5)\<lparr>tokens := 2\<rparr>)"
  "from_plaintext_bytes (state_item demo_limiter) [1] = Inr ((demo_blank 5)\<lparr>tokens := 1\<rparr>)"
  "state_ttl demo_limiter = Ttl (Some 10000000000)"
  by (simp_all add: demo_limiter_def demo_states_def item_new_plain_def rate_sts_def demo_blank_def upt_rec)

lemma limiter_initial: "initial_state demo_limiter n = (demo_blank n)\<lparr>tokens := 2\<rparr>"
  by (simp add: initial_state_def demo_limiter_def demo_blank_def)

lemma limiter_tokens: "f64_round 0 = 0" "f64_round 1 = 1" "f64_round 2 = 2"
  by code_simp+

lemma limiter_grants: "evaluate_try_acquire demo_limiter ((demo_blank 5)\<lparr>tokens := 2\<rparr>) 5 None = Inr
    \<lparr>acquire_result = PermitAcquired \<lparr>permit_throttler_key = ''k'', permit_holder_id = None, permit_slot_suffix = None, probe_acquired = False\<rparr>,
     outcome_state = (demo_blank 5)\<lparr>tokens := 1\<rparr>, should_write = True\<rparr>"
  by (simp add: evaluate_try_acquire_def should_block_for_open_circuit_def demo_limiter_def acquire_concurrency_slot_if_configured_def
      consume_rate_limit_token_if_configured_def result_bind_def refilled_tokens_def elapsed_seconds_def demo_blank_def
      i64_saturating_sub_def i64_min_def i64_max_def limiter_tokens Let_def)

lemma limiter_step:
  "throttler_try_acquire demo_limiter demo_env (demo_time 5) None Map.empty
   = (Inr (PermitAcquired \<lparr>permit_throttler_key = ''k'', permit_holder_id = None, permit_slot_suffix = None, probe_acquired = False\<rparr>),
      [''r::throttler::k::state::'' \<mapsto> \<lparr>kv_value = [1], kv_expires_at = Some 10000005, kv_updated_at = 5\<rparr>])"
  by (simp add: throttler_run_defs limiter_key demo_env_def demo_time_def begin_transaction_def limiter_codec limiter_initial
      limiter_grants decide_try_acquire_def)

theorem throttler_rate_is_enforced_witness:
  "\<exists>t. rate_run demo_limiter 5 Map.empty 1 1 6 t
    \<and> (of_nat 1 :: rat) \<le> 2 + of_int (6 - 5) * 1000 / 1000000000 * 2 * (1 + 1 / 2 ^ 50) + 1 * (2 / 2 ^ 52)"
proof -
  let ?t = "[''r::throttler::k::state::'' \<mapsto> \<lparr>kv_value = [1], kv_expires_at = Some 10000005, kv_updated_at = 5\<rparr>] :: kv_table"
  have run: "rate_run demo_limiter 5 Map.empty 1 1 6 ?t"
    using rate_acquires [where now' = 6, OF rate_starts [of demo_limiter 5 Map.empty] _ _ limiter_step]
    by (simp add: clocked_def clocked_until_def demo_time_def granted_def)
  have rate: "throttler_rate demo_limiter = Some \<lparr>requests_per_interval = 2, rate_interval = 1000000000\<rparr>"
    by (simp add: demo_limiter_def)
  have "u32_limits demo_limiter" "table_ok demo_limiter Map.empty"
    by (simp_all add: u32_limits_def u32_max_def rate table_ok_def item_at_def get_bytes_statement_def live_row_def)
  from throttler_rate_is_enforced [OF limiter_configured this(1) rate this(2) run] run
  show ?thesis by (intro exI [of _ ?t]) simp
qed

end
