(* ===== verification/ThrottlerGuard.thy ===== *)
theory ThrottlerGuard
  imports ThrottlerRuns
begin

text \<open>
  \<open>src/src/db/fleet/throttler_guard.rs\<close>, the acquiring and task-running part of \<open>throttler.rs\<close>, and the two
  specialised handles \<open>rate_limiter.rs\<close> and \<open>circuit_breaker.rs\<close>: guards that own a permit and release it.

  A guarded task is a function from its permit and the table to its result and the table it leaves, including what
  other processes and the heartbeat of the guard do in the meantime. The release that a dropped guard spawns is
  a function on the table too. The join error of a heartbeat task is a value the runtime reports.
\<close>

section \<open>Guards\<close>

record 'c throttler_guard =
  guard_throttler :: "'c throttler"
  guard_permit :: "throttler_permit option"
  drop_outcome :: throttler_task_outcome
  guard_heartbeat :: "probe_heartbeat option"

definition start_probe_heartbeat_if_needed :: "throttler_permit \<Rightarrow> probe_heartbeat option" where
  "start_probe_heartbeat_if_needed permit =
     (if \<not> probe_acquired permit then None else Some \<lparr>heartbeat_beating = True, heartbeat_failures = 0\<rparr>)"

definition guard_for_permit :: "'c throttler \<Rightarrow> throttler_permit \<Rightarrow> 'c throttler_guard" where
  "guard_for_permit th permit = \<lparr>guard_throttler = th, guard_permit = Some permit, drop_outcome = NotExecuted,
     guard_heartbeat = start_probe_heartbeat_if_needed permit\<rparr>"

text \<open>
  The heartbeat task: one element of the list per wake-up, with whether the flag to stop was set and what the
  database does then. \<open>None\<close> is a heartbeat still beating.
\<close>

fun run_throttler_probe_heartbeat ::
    "'c throttler \<Rightarrow> throttler_permit \<Rightarrow> (bool \<times> pool_env \<times> atomic_env \<times> (kv_table \<Rightarrow> kv_table)) list \<Rightarrow> probe_heartbeat
     \<Rightarrow> kv_table \<Rightarrow> (probe_heartbeat \<times> kv_table) option" where
  "run_throttler_probe_heartbeat th permit [] hb t = None"
| "run_throttler_probe_heartbeat th permit ((stopped, env, aenv, meanwhile) # rest) hb t =
     (let t = meanwhile t
      in if stopped then Some (hb\<lparr>heartbeat_beating := False\<rparr>, t)
         else
           let (hb, t) = probe_heartbeat_turn th permit env aenv hb t
           in if heartbeat_beating hb then run_throttler_probe_heartbeat th permit rest hb t else Some (hb, t))"

definition stop_probe_heartbeat ::
    "string option \<Rightarrow> 'c throttler_guard \<Rightarrow> ('c fleet_error + unit) \<times> 'c throttler_guard" where
  "stop_probe_heartbeat join_error g =
     (case guard_heartbeat g of
        None \<Rightarrow> (Inr (), g)
      | Some _ \<Rightarrow>
          ((case join_error of None \<Rightarrow> Inr ()
            | Some e \<Rightarrow> Inl (FleetThrottleError (FleetThrottlerProbeHeartbeatTaskFailed e))),
           g\<lparr>guard_heartbeat := None\<rparr>))"

definition release_live_permit_after_task_outcome ::
    "pool_env \<Rightarrow> atomic_env \<Rightarrow> string option \<Rightarrow> throttler_task_outcome \<Rightarrow> 'c throttler_guard \<Rightarrow> kv_table
     \<Rightarrow> ('c fleet_error + throttler_release_result) \<times> 'c throttler_guard \<times> kv_table" where
  "release_live_permit_after_task_outcome env aenv join_error task_outcome g t =
     (case guard_permit g of
        None \<Rightarrow>
          let (stopped, g) = stop_probe_heartbeat join_error g
          in (map_sum id (\<lambda>_. default_release_result) stopped, g, t)
      | Some permit \<Rightarrow>
          let g = g\<lparr>drop_outcome := task_outcome\<rparr>
          in case throttler_release (guard_throttler g) env aenv permit task_outcome t of
               (Inl e, t) \<Rightarrow> (Inl e, g, t)
             | (Inr result, t) \<Rightarrow>
                 let g = g\<lparr>guard_permit := None\<rparr>;
                     (stopped, g) = stop_probe_heartbeat join_error g
                 in (map_sum id (\<lambda>_. result) stopped, g, t))"

text \<open>Dropping a guard: the release it spawns, if it still owns a permit. Its result is ignored.\<close>

definition drop_throttler_guard :: "pool_env \<Rightarrow> atomic_env \<Rightarrow> 'c throttler_guard \<Rightarrow> kv_table \<Rightarrow> kv_table" where
  "drop_throttler_guard env aenv g t =
     (case guard_permit g of
        None \<Rightarrow> t
      | Some permit \<Rightarrow> snd (throttler_release (guard_throttler g) env aenv permit (drop_outcome g) t))"

datatype ('r, 'v, 'e) guarded_task_result =
    TaskDone (task_value: 'v) (done_release: 'r)
  | TaskError (task_error: 'e) (error_release: 'r)

text \<open>\<open>run_task\<close>; the guard it returns is the one that is dropped at its end.\<close>

definition guard_run_task ::
    "pool_env \<Rightarrow> atomic_env \<Rightarrow> string option \<Rightarrow> (throttler_permit \<Rightarrow> kv_table \<Rightarrow> ('e + 'v) \<times> kv_table)
     \<Rightarrow> 'c throttler_guard \<Rightarrow> kv_table
     \<Rightarrow> (('c fleet_error + throttler_release_result, 'v, 'e) guarded_task_result \<times> 'c throttler_guard \<times> kv_table) option" where
  "guard_run_task env aenv join_error task g t =
     (case guard_permit g of
        None \<Rightarrow> None
      | Some permit \<Rightarrow>
          let g = g\<lparr>drop_outcome := TaskFailed\<rparr>
          in case task permit t of
               (Inr v, t) \<Rightarrow>
                 let (r, g, t) = release_live_permit_after_task_outcome env aenv join_error TaskSucceeded g t
                 in Some (TaskDone v r, g, t)
             | (Inl e, t) \<Rightarrow>
                 let (r, g, t) = release_live_permit_after_task_outcome env aenv join_error TaskFailed g t
                 in Some (TaskError e r, g, t))"

text \<open>A guarded task whose future is dropped while it runs, having left the table \<open>t\<close>.\<close>

definition guard_task_cancelled :: "pool_env \<Rightarrow> atomic_env \<Rightarrow> 'c throttler_guard \<Rightarrow> kv_table \<Rightarrow> kv_table" where
  "guard_task_cancelled env aenv g t = drop_throttler_guard env aenv (g\<lparr>drop_outcome := TaskFailed\<rparr>) t"

section \<open>Acquiring guards and running tasks\<close>

datatype 'g guard_acquire_result =
    GuardAcquired 'g
  | GuardThrottled "nanos option"
  | GuardCircuitOpen

definition try_acquire_guard_with_optional_holder ::
    "'c throttler \<Rightarrow> pool_env \<Rightarrow> atomic_env \<Rightarrow> string option \<Rightarrow> kv_table
     \<Rightarrow> ('c fleet_error + 'c throttler_guard guard_acquire_result) \<times> kv_table" where
  "try_acquire_guard_with_optional_holder th env aenv holder t =
     (case throttler_try_acquire th env aenv holder t of
        (Inl e, t) \<Rightarrow> (Inl e, t)
      | (Inr (PermitAcquired permit), t) \<Rightarrow> (Inr (GuardAcquired (guard_for_permit th permit)), t)
      | (Inr (PermitThrottled wait), t) \<Rightarrow> (Inr (GuardThrottled wait), t)
      | (Inr PermitCircuitOpen, t) \<Rightarrow> (Inr GuardCircuitOpen, t))"

definition acquire_guard_with_optional_holder_when_ready ::
    "'c throttler \<Rightarrow> string option \<Rightarrow> (pool_env \<times> atomic_env \<times> (nanos \<Rightarrow> kv_table \<Rightarrow> kv_table)) list \<Rightarrow> kv_table
     \<Rightarrow> (('c fleet_error + 'c throttler_guard) \<times> kv_table) option" where
  "acquire_guard_with_optional_holder_when_ready th holder attempts t =
     map_option (map_prod (map_sum id (guard_for_permit th)) id) (throttler_acquire_when_ready th holder attempts t)"

text \<open>Without a holder of the caller's, one is generated where the throttler needs one.\<close>

definition try_acquire_manual_permit ::
    "'c throttler \<Rightarrow> 'c id_error + string \<Rightarrow> pool_env \<Rightarrow> atomic_env \<Rightarrow> kv_table
     \<Rightarrow> ('c fleet_error + throttler_acquire_result) \<times> kv_table" where
  "try_acquire_manual_permit th new_id env aenv t =
     (case generate_holder_id_if_needed th new_id of
        Inl e \<Rightarrow> (Inl e, t) | Inr holder \<Rightarrow> throttler_try_acquire th env aenv holder t)"

definition try_acquire_guard ::
    "'c throttler \<Rightarrow> 'c id_error + string \<Rightarrow> pool_env \<Rightarrow> atomic_env \<Rightarrow> kv_table
     \<Rightarrow> ('c fleet_error + 'c throttler_guard guard_acquire_result) \<times> kv_table" where
  "try_acquire_guard th new_id env aenv t =
     (case generate_holder_id_if_needed th new_id of
        Inl e \<Rightarrow> (Inl e, t) | Inr holder \<Rightarrow> try_acquire_guard_with_optional_holder th env aenv holder t)"

definition acquire_manual_permit_when_ready ::
    "'c throttler \<Rightarrow> 'c id_error + string \<Rightarrow> (pool_env \<times> atomic_env \<times> (nanos \<Rightarrow> kv_table \<Rightarrow> kv_table)) list \<Rightarrow> kv_table
     \<Rightarrow> (('c fleet_error + throttler_permit) \<times> kv_table) option" where
  "acquire_manual_permit_when_ready th new_id attempts t =
     (case generate_holder_id_if_needed th new_id of
        Inl e \<Rightarrow> Some (Inl e, t) | Inr holder \<Rightarrow> throttler_acquire_when_ready th holder attempts t)"

definition acquire_guard_when_ready ::
    "'c throttler \<Rightarrow> 'c id_error + string \<Rightarrow> (pool_env \<times> atomic_env \<times> (nanos \<Rightarrow> kv_table \<Rightarrow> kv_table)) list \<Rightarrow> kv_table
     \<Rightarrow> (('c fleet_error + 'c throttler_guard) \<times> kv_table) option" where
  "acquire_guard_when_ready th new_id attempts t =
     (case generate_holder_id_if_needed th new_id of
        Inl e \<Rightarrow> Some (Inl e, t) | Inr holder \<Rightarrow> acquire_guard_with_optional_holder_when_ready th holder attempts t)"

datatype 'r try_run_result =
    TaskRan 'r
  | RunThrottled "nanos option"
  | RunCircuitOpen

text \<open>What a runner does with the answer of an acquisition, and with a guard that a waiting acquisition got.\<close>

definition run_when_acquired ::
    "('g \<Rightarrow> kv_table \<Rightarrow> ('r \<times> 'g \<times> kv_table) option) \<Rightarrow> ('c fleet_error + 'g guard_acquire_result) \<times> kv_table
     \<Rightarrow> (('c fleet_error + 'r try_run_result) \<times> kv_table) option" where
  "run_when_acquired run acquired =
     (case acquired of
        (Inl e, t) \<Rightarrow> Some (Inl e, t)
      | (Inr (GuardAcquired g), t) \<Rightarrow> map_option (\<lambda>(r, _, t). (Inr (TaskRan r), t)) (run g t)
      | (Inr (GuardThrottled wait), t) \<Rightarrow> Some (Inr (RunThrottled wait), t)
      | (Inr GuardCircuitOpen, t) \<Rightarrow> Some (Inr RunCircuitOpen, t))"

definition throttler_try_run_task ::
    "'c throttler \<Rightarrow> 'c id_error + string \<Rightarrow> pool_env \<Rightarrow> atomic_env \<Rightarrow> pool_env \<Rightarrow> atomic_env \<Rightarrow> string option
     \<Rightarrow> (throttler_permit \<Rightarrow> kv_table \<Rightarrow> ('e + 'v) \<times> kv_table) \<Rightarrow> kv_table
     \<Rightarrow> (('c fleet_error + ('c fleet_error + throttler_release_result, 'v, 'e) guarded_task_result try_run_result) \<times> kv_table) option" where
  "throttler_try_run_task th new_id env aenv env' aenv' join_error task t =
     run_when_acquired (guard_run_task env' aenv' join_error task) (try_acquire_guard th new_id env aenv t)"

definition throttler_try_run_task_for_holder ::
    "'c throttler \<Rightarrow> string \<Rightarrow> pool_env \<Rightarrow> atomic_env \<Rightarrow> pool_env \<Rightarrow> atomic_env \<Rightarrow> string option
     \<Rightarrow> (throttler_permit \<Rightarrow> kv_table \<Rightarrow> ('e + 'v) \<times> kv_table) \<Rightarrow> kv_table
     \<Rightarrow> (('c fleet_error + ('c fleet_error + throttler_release_result, 'v, 'e) guarded_task_result try_run_result) \<times> kv_table) option" where
  "throttler_try_run_task_for_holder th holder env aenv env' aenv' join_error task t =
     run_when_acquired (guard_run_task env' aenv' join_error task) (try_acquire_guard_with_optional_holder th env aenv (Some holder) t)"

definition throttler_run_task_when_ready ::
    "'c throttler \<Rightarrow> 'c id_error + string \<Rightarrow> (pool_env \<times> atomic_env \<times> (nanos \<Rightarrow> kv_table \<Rightarrow> kv_table)) list
     \<Rightarrow> pool_env \<Rightarrow> atomic_env \<Rightarrow> string option \<Rightarrow> (throttler_permit \<Rightarrow> kv_table \<Rightarrow> ('e + 'v) \<times> kv_table) \<Rightarrow> kv_table
     \<Rightarrow> (('c fleet_error + ('c fleet_error + throttler_release_result, 'v, 'e) guarded_task_result) \<times> kv_table) option" where
  "throttler_run_task_when_ready th new_id attempts env aenv join_error task t =
     (case acquire_guard_when_ready th new_id attempts t of
        None \<Rightarrow> None
      | Some (Inl e, t) \<Rightarrow> Some (Inl e, t)
      | Some (Inr g, t) \<Rightarrow> map_option (\<lambda>(r, _, t). (Inr r, t)) (guard_run_task env aenv join_error task g t))"

section \<open>Rate limiters\<close>

record 'c rate_limiter =
  rate_limiter_key :: string
  limiter_throttler :: "'c throttler"

definition new_rate_limiter ::
    "(throttler_state, unit, 'c) item \<Rightarrow> string \<Rightarrow> string \<Rightarrow> nat \<Rightarrow> nanos \<Rightarrow> 'c fleet_error + 'c rate_limiter" where
  "new_rate_limiter base root_key key requests interval =
     map_sum id (\<lambda>th. \<lparr>rate_limiter_key = key, limiter_throttler = th\<rparr>)
       (new_throttler base root_key \<lparr>config_key = key,
          config_rate_limit = Some \<lparr>requests_per_interval = requests, rate_interval = interval\<rparr>,
          config_concurrency_limit = None, config_circuit_breaker = None\<rparr>)"

record rate_limiter_permit =
  limiter_permit_key :: string
  limiter_throttler_permit :: throttler_permit

datatype 'p rate_limiter_acquire_result =
    LimiterAcquired 'p
  | LimiterThrottled "nanos option"

definition limiter_wrap_permit :: "'c rate_limiter \<Rightarrow> throttler_permit \<Rightarrow> rate_limiter_permit" where
  "limiter_wrap_permit rl permit = \<lparr>limiter_permit_key = rate_limiter_key rl, limiter_throttler_permit = permit\<rparr>"

definition limiter_wrap_acquire_result ::
    "'c rate_limiter \<Rightarrow> throttler_acquire_result \<Rightarrow> 'c fleet_error + rate_limiter_permit rate_limiter_acquire_result" where
  "limiter_wrap_acquire_result rl result =
     (case result of
        PermitAcquired permit \<Rightarrow> Inr (LimiterAcquired (limiter_wrap_permit rl permit))
      | PermitThrottled wait \<Rightarrow> Inr (LimiterThrottled wait)
      | PermitCircuitOpen \<Rightarrow> Inl (FleetThrottleError FleetRateLimiterUnexpectedCircuitOpen))"

definition limiter_try_acquire_manual_permit ::
    "'c rate_limiter \<Rightarrow> 'c id_error + string \<Rightarrow> pool_env \<Rightarrow> atomic_env \<Rightarrow> kv_table
     \<Rightarrow> ('c fleet_error + rate_limiter_permit rate_limiter_acquire_result) \<times> kv_table" where
  "limiter_try_acquire_manual_permit rl new_id env aenv t =
     (let (r, t) = try_acquire_manual_permit (limiter_throttler rl) new_id env aenv t
      in (result_bind r (limiter_wrap_acquire_result rl), t))"

record 'c rate_limiter_guard =
  limiter_guard_key :: string
  limiter_throttler_guard :: "'c throttler_guard"

definition limiter_wrap_guard :: "'c rate_limiter \<Rightarrow> 'c throttler_guard \<Rightarrow> 'c rate_limiter_guard" where
  "limiter_wrap_guard rl g = \<lparr>limiter_guard_key = rate_limiter_key rl, limiter_throttler_guard = g\<rparr>"

definition limiter_wrap_guard_acquire_result ::
    "'c rate_limiter \<Rightarrow> 'c throttler_guard guard_acquire_result
     \<Rightarrow> 'c fleet_error + 'c rate_limiter_guard rate_limiter_acquire_result" where
  "limiter_wrap_guard_acquire_result rl result =
     (case result of
        GuardAcquired g \<Rightarrow> Inr (LimiterAcquired (limiter_wrap_guard rl g))
      | GuardThrottled wait \<Rightarrow> Inr (LimiterThrottled wait)
      | GuardCircuitOpen \<Rightarrow> Inl (FleetThrottleError FleetRateLimiterUnexpectedCircuitOpen))"

definition limiter_try_acquire_guard ::
    "'c rate_limiter \<Rightarrow> 'c id_error + string \<Rightarrow> pool_env \<Rightarrow> atomic_env \<Rightarrow> kv_table
     \<Rightarrow> ('c fleet_error + 'c rate_limiter_guard rate_limiter_acquire_result) \<times> kv_table" where
  "limiter_try_acquire_guard rl new_id env aenv t =
     (let (r, t) = try_acquire_guard (limiter_throttler rl) new_id env aenv t
      in (result_bind r (limiter_wrap_guard_acquire_result rl), t))"

definition limiter_live_permit :: "'c rate_limiter_guard \<Rightarrow> rate_limiter_permit option" where
  "limiter_live_permit g =
     map_option (\<lambda>p. \<lparr>limiter_permit_key = limiter_guard_key g, limiter_throttler_permit = p\<rparr>)
       (guard_permit (limiter_throttler_guard g))"

definition limiter_run_task ::
    "pool_env \<Rightarrow> atomic_env \<Rightarrow> string option \<Rightarrow> (rate_limiter_permit \<Rightarrow> kv_table \<Rightarrow> ('e + 'v) \<times> kv_table)
     \<Rightarrow> 'c rate_limiter_guard \<Rightarrow> kv_table
     \<Rightarrow> (('c fleet_error + unit, 'v, 'e) guarded_task_result \<times> 'c rate_limiter_guard \<times> kv_table) option" where
  "limiter_run_task env aenv join_error task g t =
     map_option (\<lambda>(r, tg, t). (map_guarded_task_result (map_sum id (\<lambda>_. ())) id id r, g\<lparr>limiter_throttler_guard := tg\<rparr>, t))
       (guard_run_task env aenv join_error
         (\<lambda>p. task \<lparr>limiter_permit_key = limiter_guard_key g, limiter_throttler_permit = p\<rparr>) (limiter_throttler_guard g) t)"

definition limiter_try_run_task ::
    "'c rate_limiter \<Rightarrow> 'c id_error + string \<Rightarrow> pool_env \<Rightarrow> atomic_env \<Rightarrow> pool_env \<Rightarrow> atomic_env \<Rightarrow> string option
     \<Rightarrow> (rate_limiter_permit \<Rightarrow> kv_table \<Rightarrow> ('e + 'v) \<times> kv_table) \<Rightarrow> kv_table
     \<Rightarrow> (('c fleet_error + ('c fleet_error + unit, 'v, 'e) guarded_task_result rate_limiter_acquire_result) \<times> kv_table) option" where
  "limiter_try_run_task rl new_id env aenv env' aenv' join_error task t =
     (case limiter_try_acquire_guard rl new_id env aenv t of
        (Inl e, t) \<Rightarrow> Some (Inl e, t)
      | (Inr (LimiterAcquired g), t) \<Rightarrow>
          map_option (\<lambda>(r, _, t). (Inr (LimiterAcquired r), t)) (limiter_run_task env' aenv' join_error task g t)
      | (Inr (LimiterThrottled wait), t) \<Rightarrow> Some (Inr (LimiterThrottled wait), t))"

definition limiter_acquire_guard_when_ready ::
    "'c rate_limiter \<Rightarrow> 'c id_error + string \<Rightarrow> (pool_env \<times> atomic_env \<times> (nanos \<Rightarrow> kv_table \<Rightarrow> kv_table)) list \<Rightarrow> kv_table
     \<Rightarrow> (('c fleet_error + 'c rate_limiter_guard) \<times> kv_table) option" where
  "limiter_acquire_guard_when_ready rl new_id attempts t =
     map_option (map_prod (map_sum id (limiter_wrap_guard rl)) id) (acquire_guard_when_ready (limiter_throttler rl) new_id attempts t)"

record rate_limiter_status =
  limiter_available_tokens :: rat
  limiter_max_tokens :: rat

definition limiter_fetch_status ::
    "'c rate_limiter \<Rightarrow> string \<Rightarrow> pool_env \<Rightarrow> kv_table \<Rightarrow> 'c fleet_error + rate_limiter_status" where
  "limiter_fetch_status rl protocol env t =
     map_sum id (\<lambda>s. \<lparr>limiter_available_tokens = available_tokens s, limiter_max_tokens = max_tokens s\<rparr>)
       (throttler_fetch_status (limiter_throttler rl) protocol env t)"

section \<open>Circuit breakers\<close>

record 'c circuit_breaker =
  circuit_breaker_key :: string
  breaker_throttler :: "'c throttler"

definition new_circuit_breaker ::
    "(throttler_state, unit, 'c) item \<Rightarrow> string \<Rightarrow> string \<Rightarrow> nat \<Rightarrow> nanos \<Rightarrow> 'c fleet_error + 'c circuit_breaker" where
  "new_circuit_breaker base root_key key threshold recovery =
     map_sum id (\<lambda>th. \<lparr>circuit_breaker_key = key, breaker_throttler = th\<rparr>)
       (new_throttler base root_key \<lparr>config_key = key, config_rate_limit = None, config_concurrency_limit = None,
          config_circuit_breaker = Some \<lparr>failure_threshold = threshold, recovery_timeout = recovery\<rparr>\<rparr>)"

record circuit_breaker_permit =
  breaker_permit_key :: string
  breaker_throttler_permit :: throttler_permit

record 'c circuit_breaker_guard =
  breaker_guard_key :: string
  breaker_throttler_guard :: "'c throttler_guard"

datatype 'p circuit_breaker_acquire_result =
    BreakerAcquired 'p
  | BreakerCircuitOpen

definition breaker_wrap_permit :: "'c circuit_breaker \<Rightarrow> throttler_permit \<Rightarrow> circuit_breaker_permit" where
  "breaker_wrap_permit cb permit = \<lparr>breaker_permit_key = circuit_breaker_key cb, breaker_throttler_permit = permit\<rparr>"

definition breaker_wrap_guard :: "'c circuit_breaker \<Rightarrow> 'c throttler_guard \<Rightarrow> 'c circuit_breaker_guard" where
  "breaker_wrap_guard cb g = \<lparr>breaker_guard_key = circuit_breaker_key cb, breaker_throttler_guard = g\<rparr>"

definition breaker_try_acquire_manual_permit ::
    "'c circuit_breaker \<Rightarrow> 'c id_error + string \<Rightarrow> pool_env \<Rightarrow> atomic_env \<Rightarrow> kv_table
     \<Rightarrow> ('c fleet_error + circuit_breaker_permit circuit_breaker_acquire_result) \<times> kv_table" where
  "breaker_try_acquire_manual_permit cb new_id env aenv t =
     (let (r, t) = try_acquire_manual_permit (breaker_throttler cb) new_id env aenv t
      in (map_sum id (\<lambda>a. case a of PermitAcquired permit \<Rightarrow> BreakerAcquired (breaker_wrap_permit cb permit)
            | PermitCircuitOpen \<Rightarrow> BreakerCircuitOpen | PermitThrottled _ \<Rightarrow> BreakerCircuitOpen) r, t))"

definition breaker_try_acquire_guard ::
    "'c circuit_breaker \<Rightarrow> 'c id_error + string \<Rightarrow> pool_env \<Rightarrow> atomic_env \<Rightarrow> kv_table
     \<Rightarrow> ('c fleet_error + 'c circuit_breaker_guard circuit_breaker_acquire_result) \<times> kv_table" where
  "breaker_try_acquire_guard cb new_id env aenv t =
     (let (r, t) = try_acquire_guard (breaker_throttler cb) new_id env aenv t
      in (map_sum id (\<lambda>a. case a of GuardAcquired g \<Rightarrow> BreakerAcquired (breaker_wrap_guard cb g)
            | GuardCircuitOpen \<Rightarrow> BreakerCircuitOpen | GuardThrottled _ \<Rightarrow> BreakerCircuitOpen) r, t))"

record circuit_breaker_release_result =
  breaker_state_updated :: bool
  breaker_probe_released :: bool

definition breaker_release_result :: "throttler_release_result \<Rightarrow> circuit_breaker_release_result" where
  "breaker_release_result r = \<lparr>breaker_state_updated = circuit_state_updated r, breaker_probe_released = probe_released r\<rparr>"

definition breaker_run_task ::
    "pool_env \<Rightarrow> atomic_env \<Rightarrow> string option \<Rightarrow> (circuit_breaker_permit \<Rightarrow> kv_table \<Rightarrow> ('e + 'v) \<times> kv_table)
     \<Rightarrow> 'c circuit_breaker_guard \<Rightarrow> kv_table
     \<Rightarrow> (('c fleet_error + circuit_breaker_release_result, 'v, 'e) guarded_task_result \<times> 'c circuit_breaker_guard \<times> kv_table) option" where
  "breaker_run_task env aenv join_error task g t =
     map_option (\<lambda>(r, tg, t). (map_guarded_task_result (map_sum id breaker_release_result) id id r, g\<lparr>breaker_throttler_guard := tg\<rparr>, t))
       (guard_run_task env aenv join_error
         (\<lambda>p. task \<lparr>breaker_permit_key = breaker_guard_key g, breaker_throttler_permit = p\<rparr>) (breaker_throttler_guard g) t)"

definition breaker_try_run_task ::
    "'c circuit_breaker \<Rightarrow> 'c id_error + string \<Rightarrow> pool_env \<Rightarrow> atomic_env \<Rightarrow> pool_env \<Rightarrow> atomic_env \<Rightarrow> string option
     \<Rightarrow> (circuit_breaker_permit \<Rightarrow> kv_table \<Rightarrow> ('e + 'v) \<times> kv_table) \<Rightarrow> kv_table
     \<Rightarrow> (('c fleet_error + ('c fleet_error + circuit_breaker_release_result, 'v, 'e) guarded_task_result circuit_breaker_acquire_result)
          \<times> kv_table) option" where
  "breaker_try_run_task cb new_id env aenv env' aenv' join_error task t =
     (case breaker_try_acquire_guard cb new_id env aenv t of
        (Inl e, t) \<Rightarrow> Some (Inl e, t)
      | (Inr (BreakerAcquired g), t) \<Rightarrow>
          map_option (\<lambda>(r, _, t). (Inr (BreakerAcquired r), t)) (breaker_run_task env' aenv' join_error task g t)
      | (Inr BreakerCircuitOpen, t) \<Rightarrow> Some (Inr BreakerCircuitOpen, t))"

record circuit_breaker_status =
  breaker_circuit_state :: throttler_circuit_state
  breaker_failures :: nat

definition breaker_fetch_status ::
    "'c circuit_breaker \<Rightarrow> string \<Rightarrow> pool_env \<Rightarrow> kv_table \<Rightarrow> 'c fleet_error + circuit_breaker_status" where
  "breaker_fetch_status cb protocol env t =
     map_sum id (\<lambda>s. \<lparr>breaker_circuit_state = status_circuit_state s, breaker_failures = status_failures s\<rparr>)
       (throttler_fetch_status (breaker_throttler cb) protocol env t)"

section \<open>What the handles guarantee\<close>

text \<open>The state after releases that report a failure, each at its time.\<close>

definition after_failures :: "'c throttler \<Rightarrow> (micros \<times> throttler_permit) list \<Rightarrow> throttler_state \<Rightarrow> throttler_state" where
  "after_failures th releases st = fold (\<lambda>(n, permit) st. snd (apply_release_and_outcome th n permit TaskFailed st)) releases st"

lemma failed_release:
  assumes "throttler_breaker th = Some b"
    and st'_def: "st' = snd (apply_release_and_outcome th n permit TaskFailed st)"
  shows "circuit_failures st' = min (circuit_failures st + 1) u32_max"
    "circuit_state st' = Circuit_Open \<longleftrightarrow> circuit_state st = Circuit_Open \<or> circuit_failures st' \<ge> failure_threshold b"
proof -
  have fails: "circuit_failures (snd (release_owned_concurrency_slot th permit st)) = circuit_failures st"
    by (simp add: release_owned_concurrency_slot_def split: option.split)
  have clear: "circuit_failures (snd (clear_probe_if_owned permit s)) = circuit_failures s" for s
    by (simp add: clear_probe_if_owned_def split: option.split)
  show "circuit_failures st' = min (circuit_failures st + 1) u32_max"
    unfolding st'_def using assms(1) fails
    by (simp add: release_stages Let_def clear apply_task_outcome_to_circuit_state_def)
  show "circuit_state st' = Circuit_Open \<longleftrightarrow> circuit_state st = Circuit_Open \<or> circuit_failures st' \<ge> failure_threshold b"
    unfolding st'_def using assms(1) fails
    by (cases "circuit_state st") (simp_all add: release_stages Let_def clear apply_task_outcome_to_circuit_state_def)
qed

text \<open>C25: A circuit opens exactly at the threshold. From a closed circuit, releases that report failures open it when, and
  only when, the failures counted since the last success reach the configured threshold, and an open circuit stays
  open under further failures; the count saturates.\<close>

theorem circuit_opens_at_threshold:
  assumes "throttler_breaker th = Some b" and "circuit_state st = Circuit_Closed"
    and "circuit_failures st < failure_threshold b" and "failure_threshold b \<le> u32_max"
  shows "circuit_failures (after_failures th releases st) = min (circuit_failures st + length releases) u32_max
    \<and> (circuit_state (after_failures th releases st) = Circuit_Open
         \<longleftrightarrow> failure_threshold b \<le> circuit_failures st + length releases)"
proof (induction releases rule: rev_induct)
  case Nil
  then show ?case using assms by (simp add: after_failures_def)
next
  case (snoc x releases)
  obtain n permit where x: "x = (n, permit)" by (cases x)
  have "after_failures th (releases @ [x]) st
      = snd (apply_release_and_outcome th n permit TaskFailed (after_failures th releases st))"
    by (simp add: after_failures_def x)
  then show ?case using snoc.IH failed_release [OF assms(1), of _ n permit "after_failures th releases st"] assms(4) by auto
qed

theorem circuit_opens_at_threshold_witness:
  "circuit_state (after_failures demo_breaker [(7, demo_permit ''g'' False)] (demo_blank 5)) = Circuit_Open
   \<and> circuit_failures (after_failures demo_breaker [(7, demo_permit ''g'' False)] (demo_blank 5)) = 1"
  using circuit_opens_at_threshold [of demo_breaker "\<lparr>failure_threshold = 1, recovery_timeout = 1000000000\<rparr>" "demo_blank 5"
      "[(7, demo_permit ''g'' False)]"]
  by (simp add: demo_breaker_def demo_blank_def u32_max_def)

lemma new_rate_limiter_facts:
  assumes "new_rate_limiter base root_key key requests interval = Inr rl" "faithful base"
  shows "configured (limiter_throttler rl)" "throttler_breaker (limiter_throttler rl) = None"
proof -
  let ?config = "\<lparr>config_key = key, config_rate_limit = Some \<lparr>requests_per_interval = requests, rate_interval = interval\<rparr>,
      config_concurrency_limit = None, config_circuit_breaker = None\<rparr>"
  have new: "new_throttler base root_key ?config = Inr (limiter_throttler rl)"
    using assms(1) by (auto simp: new_rate_limiter_def map_sum_eq_Inr_iff)
  then show "configured (limiter_throttler rl)" using assms(2) unfolding configured_def by blast
  from new show "throttler_breaker (limiter_throttler rl) = None"
    by (auto simp: new_throttler_def resolve_option_def result_bind_eq_Inr_iff map_sum_eq_Inr_iff
        dest!: arg_cong [of _ _ throttler_breaker])
qed

text \<open>The error that a rate limiter keeps for an open circuit is never the answer of its own state: whenever its
  throttler answers, the answer is a permit or a wait, also when the row of its state was written by a circuit
  breaker of the same key and holds an open circuit.\<close>

theorem rate_limiter_never_reports_open_circuit:
  fixes rl :: "'c rate_limiter"
  assumes "new_rate_limiter base root_key key requests interval = Inr rl" and "faithful base"
    and "try_acquire_manual_permit (limiter_throttler rl) new_id env aenv t = (Inr answer, t')"
  shows "\<exists>a. limiter_try_acquire_manual_permit rl new_id env aenv t = (Inr a, t')"
proof -
  note rl = new_rate_limiter_facts [OF assms(1,2)]
  obtain holder where run: "throttler_try_acquire (limiter_throttler rl) env aenv holder t = (Inr answer, t')"
    using assms(3) by (auto simp: try_acquire_manual_permit_def split: sum.splits)
  obtain st n out where "evaluate_try_acquire (limiter_throttler rl) st n holder = (Inr out :: 'c fleet_error + _)"
      "acquire_result out = answer"
    using acquire_answer [OF configured_facts(1) [OF rl(1)] run] by metis
  then have "answer \<noteq> PermitCircuitOpen"
    by (cases rule: acquire_outcome) (auto simp: should_block_for_open_circuit_def rl(2))
  then show ?thesis using assms(3)
    by (cases answer) (auto simp: limiter_try_acquire_manual_permit_def result_bind_def limiter_wrap_acquire_result_def)
qed

definition demo_rate_limiter :: "unit rate_limiter" where
  "demo_rate_limiter = \<lparr>rate_limiter_key = ''k'', limiter_throttler = demo_limiter\<rparr>"

theorem rate_limiter_never_reports_open_circuit_witness:
  "\<exists>a. limiter_try_acquire_manual_permit demo_rate_limiter (Inl EmptyRandomIdOutputLength) demo_env (demo_time 5) Map.empty
     = (Inr a, [''r::throttler::k::state::'' \<mapsto> \<lparr>kv_value = [1], kv_expires_at = Some 10000005, kv_updated_at = 5\<rparr>])"
proof (rule rate_limiter_never_reports_open_circuit)
  show "new_rate_limiter (demo_states rate_sts) ''r'' ''k'' 2 1000000000 = Inr demo_rate_limiter"
    by (simp add: new_rate_limiter_def throttler_new_defs demo_rate_limiter_def demo_limiter_def)
  show "faithful (demo_states rate_sts)" using demo_states_faithful [of rate_sts] by (simp add: rate_sts_def)
  show "try_acquire_manual_permit (limiter_throttler demo_rate_limiter) (Inl EmptyRandomIdOutputLength) demo_env (demo_time 5) Map.empty
      = (Inr (PermitAcquired \<lparr>permit_throttler_key = ''k'', permit_holder_id = None, permit_slot_suffix = None, probe_acquired = False\<rparr>),
         [''r::throttler::k::state::'' \<mapsto> \<lparr>kv_value = [1], kv_expires_at = Some 10000005, kv_updated_at = 5\<rparr>])"
    using limiter_step by (simp add: try_acquire_manual_permit_def generate_holder_id_if_needed_def demo_rate_limiter_def demo_limiter_def)
qed

text \<open>
  A rate limiter, a circuit breaker and a throttler under one key keep their states in one row, although the
  types of their keys differ.
\<close>

theorem handles_of_one_key_share_state:
  fixes th :: "'c throttler"
  assumes "new_rate_limiter base root_key key requests interval = Inr rl"
    and "new_circuit_breaker base root_key key threshold recovery = Inr cb"
    and "state_key (limiter_throttler rl) row"
  shows "state_key (breaker_throttler cb) row"
proof -
  obtain p p' where "(build_throttler_state_prefix root_key key :: 'a fleet_error + string) = Inr p"
      "item_prefix (state_item (limiter_throttler rl)) = p"
    using assms(1) by (auto simp: new_rate_limiter_def map_sum_eq_Inr_iff new_throttler_def result_bind_eq_Inr_iff split: if_splits)
  moreover have "(build_throttler_state_prefix root_key key :: 'a fleet_error + string) = Inr (item_prefix (state_item (breaker_throttler cb)))"
    using assms(2) by (auto simp: new_circuit_breaker_def map_sum_eq_Inr_iff new_throttler_def result_bind_eq_Inr_iff split: if_splits)
  ultimately show ?thesis using assms(3) by (auto simp: state_key_def item_key_from_parts_def)
qed

section \<open>A release whose commit is not acknowledged\<close>

text \<open>
  The guard keeps its permit when its release reports an error, and its drop releases again. When the
  first release was durable, one failed task is counted twice.
\<close>

definition twice_sts :: "throttler_state list" where
  "twice_sts = [demo_blank 5, (demo_blank 5)\<lparr>circuit_failures := 1\<rparr>,
     (demo_blank 5)\<lparr>circuit_failures := 2, circuit_state := Circuit_Open, circuit_opened_at := Some 9\<rparr>]"

definition twice_breaker :: "unit throttler" where
  "twice_breaker = demo_breaker\<lparr>throttler_breaker := Some \<lparr>failure_threshold = 2, recovery_timeout = 1000000000\<rparr>,
     state_item := item_new_plain (demo_states twice_sts) ''r::throttler::k::''\<rparr>"

lemma twice_key: "item_key_from_parts (state_item twice_breaker) [FLEET_THROTTLER_STATE_KEY_PART] = Inr ''r::throttler::k::state::''"
  by (simp add: item_key_from_parts_def twice_breaker_def kv_build_key_from_prefix_and_parts_def kv_validate_key_part_def
      kv_validate_key_length_def MAX_KV_KEY_BYTES_def KV_KEY_SEPARATOR_def result_bind_def FLEET_THROTTLER_STATE_KEY_PART_def)

lemma twice_codec:
  "item_codec (state_item twice_breaker) = Plain" "state_ttl twice_breaker = Ttl (Some 50000000000)"
  "to_plaintext_bytes (state_item twice_breaker) ((demo_blank 5)\<lparr>circuit_failures := Suc 0\<rparr>) = Inr [1]"
  "to_plaintext_bytes (state_item twice_breaker)
     ((demo_blank 5)\<lparr>circuit_failures := 2, circuit_state := Circuit_Open, circuit_opened_at := Some 9\<rparr>) = Inr [2]"
  "from_plaintext_bytes (state_item twice_breaker) [0] = Inr (demo_blank 5)"
  "from_plaintext_bytes (state_item twice_breaker) [1] = Inr ((demo_blank 5)\<lparr>circuit_failures := Suc 0\<rparr>)"
  by (simp_all add: twice_breaker_def demo_breaker_def demo_states_def item_new_plain_def twice_sts_def demo_blank_def upt_rec)

lemma twice_decides:
  "decide_release twice_breaker (demo_permit ''g'' False) TaskFailed \<lparr>item_live = demo_blank 5, item_live_timestamp = 7\<rparr> = Inr
     (SetValue ((demo_blank 5)\<lparr>circuit_failures := Suc 0\<rparr>) (Ttl (Some 50000000000)),
      \<lparr>concurrency_slot_released = False, circuit_state_updated = True, probe_released = False\<rparr>)"
  "decide_release twice_breaker (demo_permit ''g'' False) TaskFailed
     \<lparr>item_live = (demo_blank 5)\<lparr>circuit_failures := Suc 0\<rparr>, item_live_timestamp = 9\<rparr> = Inr
     (SetValue ((demo_blank 5)\<lparr>circuit_failures := 2, circuit_state := Circuit_Open, circuit_opened_at := Some 9\<rparr>) (Ttl (Some 50000000000)),
      \<lparr>concurrency_slot_released = False, circuit_state_updated = True, probe_released = False\<rparr>)"
  by (simp_all add: decide_release_def apply_release_and_outcome_def release_owned_concurrency_slot_def
      apply_task_outcome_to_circuit_state_def clear_probe_if_owned_def release_modified_state_def twice_breaker_def demo_breaker_def
      demo_permit_def demo_blank_def u32_max_def Let_def)

definition lost_commit :: pool_env where
  "lost_commit = demo_env\<lparr>env_commit := CommitFailed SqlxOther True\<rparr>"

lemmas twice_run_defs = throttler_release_def throttler_release_in_current_transaction_def
  item_mutate_live_atomically_in_current_transaction_def mutate_live_item_in_transaction_internal_def decide_live_item_def
  absent_is_def throttler_run_defs twice_key twice_codec twice_decides demo_env_def lost_commit_def demo_time_def
  begin_transaction_def breaker_row_def

lemma twice_releases:
  "require_permit_matches_throttler twice_breaker (demo_permit ''g'' False) = Inr ()"
  "needs_state_cleanup twice_breaker (demo_permit ''g'' False)"
  by (simp_all add: require_permit_matches_throttler_def needs_state_cleanup_def twice_breaker_def demo_breaker_def demo_permit_def)

lemma twice_first: "\<exists>e. throttler_release twice_breaker lost_commit (demo_time 7) (demo_permit ''g'' False) TaskFailed (breaker_row 0 5)
    = (Inl e, breaker_row 1 7)"
  by (simp add: twice_run_defs twice_releases)

lemma twice_second: "snd (throttler_release twice_breaker demo_env (demo_time 9) (demo_permit ''g'' False) TaskFailed (breaker_row 1 7))
    = breaker_row 2 9"
  by (simp add: twice_run_defs twice_releases)

theorem unacknowledged_release_counts_twice:
  "case guard_run_task lost_commit (demo_time 7) None (\<lambda>_ t. (Inl ''error'' :: string + unit, t))
       (guard_for_permit twice_breaker (demo_permit ''g'' False)) (breaker_row 0 5) of
     Some (TaskError e r, g, t) \<Rightarrow> t = breaker_row 1 7 \<and> drop_throttler_guard demo_env (demo_time 9) g t = breaker_row 2 9
   | _ \<Rightarrow> False"
proof -
  obtain e where "throttler_release twice_breaker lost_commit (demo_time 7) (demo_permit ''g'' False) TaskFailed (breaker_row 0 5)
    = (Inl e, breaker_row 1 7)" using twice_first by blast
  then show ?thesis using twice_second
    by (simp add: guard_run_task_def guard_for_permit_def release_live_permit_after_task_outcome_def drop_throttler_guard_def Let_def)
qed

end
