(* ===== verification/Lasting.thy ===== *)
theory Lasting
  imports FleetKeys
begin

text \<open>
  Values of items that never expire: what an atomic mutation, a write and a read do to them. Counters,
  topics, cursors and completion markers keep their state in such values.
\<close>

section \<open>A value that lasts\<close>

lemma map_sum_eq_Inl_iff: "map_sum g f x = Inl y \<longleftrightarrow> (\<exists>c. x = Inl c \<and> y = g c)"
  by (cases x) auto

definition item_key_is :: "('v, 'k, 'c) item \<Rightarrow> string list \<Rightarrow> string \<Rightarrow> bool" where
  "item_key_is it parts key \<longleftrightarrow> item_key_from_parts it parts = (Inr key :: 'c kv_error + string)"

text \<open>The row under the key holds a value without an end.\<close>

definition lasting :: "('v, 'k, 'c) item \<Rightarrow> string \<Rightarrow> 'v \<Rightarrow> kv_table \<Rightarrow> bool" where
  "lasting it key v t \<longleftrightarrow>
     (\<exists>r. t key = Some r \<and> kv_expires_at r = None \<and> decode_value_for_key it key (kv_value r) = Inr v)"

text \<open>The row under the key is absent, or holds a value without an end.\<close>

definition lasting_option :: "('v, 'k, 'c) item \<Rightarrow> string \<Rightarrow> 'v option \<Rightarrow> kv_table \<Rightarrow> bool" where
  "lasting_option it key x t \<longleftrightarrow> (case x of None \<Rightarrow> t key = None | Some v \<Rightarrow> lasting it key v t)"

lemma lasting_at: "lasting it key v t \<Longrightarrow> item_at it key now t = Some (Inr v)"
  by (auto simp: lasting_def item_at_def get_bytes_statement_def live_row_def not_expired_def)

lemma lasting_option_at: "lasting_option it key x t \<Longrightarrow> item_at it key now t = map_option Inr x"
  using lasting_at [of it key _ t now]
  by (cases x) (auto simp: lasting_option_def, simp add: item_at_def get_bytes_statement_def live_row_def)

lemma lasting_unique: "lasting it key v t \<Longrightarrow> lasting it key w t \<Longrightarrow> v = w"
  by (auto simp: lasting_def)

lemma lasting_option_unique: "lasting_option it key x t \<Longrightarrow> lasting_option it key y t \<Longrightarrow> x = y"
  by (auto simp: lasting_option_def lasting_def split: option.splits)

lemma lasting_option_row: "t' key = t key \<Longrightarrow> lasting_option it key x t' = lasting_option it key x t"
  by (simp add: lasting_option_def lasting_def split: option.split)

lemma lasting_option_simps [simp]:
  "lasting_option it key None t \<longleftrightarrow> t key = None" "lasting_option it key (Some v) t \<longleftrightarrow> lasting it key v t"
  by (simp_all add: lasting_option_def)

lemma item_key_unique: "item_key_is it parts key \<Longrightarrow> item_key_is it parts key' \<Longrightarrow> key = key'"
  by (simp add: item_key_is_def)

lemma lasting_written:
  assumes "faithful it" and "item_effect it key now (SetValue v NO_EXPIRATION) t t'"
  shows "lasting it key v t'" "k \<noteq> key \<Longrightarrow> t' k = t k"
  using assms by (auto simp: item_effect_def lasting_def NO_EXPIRATION_def intro: encoded_value_decodes)

section \<open>Transactions\<close>

lemma do_then_Inr:
  assumes "do_then r k = (Inr y, tx')"
  obtains x tx1 where "r = (Inr x, tx1)" "k x tx1 = (Inr y, tx')"
  using assms by (cases r; cases "fst r") (auto simp: do_then_def)

text \<open>A call on a pool fails and writes nothing, or its transaction succeeded and its writes are there.\<close>

lemma pool_write_answer:
  assumes "pool_write operation bd br env body d = (r, d')"
  obtains (kept) e where "d' = d" "r = Inl e"
  | (written) v tx' where "body (begin_transaction d) = (Inr v, tx')" "d' = tables tx'" "r = Inr v \<or> (\<exists>e. r = Inl e)"
proof (cases "env_begin env")
  case None
  show ?thesis
  proof (cases "body (begin_transaction d)")
    case (Pair x tx')
    then show ?thesis using assms that None
      by (auto simp: pool_write_def finish_write_transaction_def
          split: sum.splits commit_outcome.splits rollback_outcome.splits if_splits)
  qed
qed (use assms that in \<open>auto simp: pool_write_def\<close>)

lemma fleet_pool_write_answer [consumes 1, case_names kept written]:
  assumes "fleet_pool_write operation env body d = (r, d')"
  obtains (kept) e where "d' = d" "r = Inl e"
  | (written) v tx' where "body (begin_transaction d) = (Inr v, tx')" "d' = tables tx'" "r = Inr v \<or> (\<exists>e. r = Inl e)"
  using pool_write_answer [OF assms [unfolded fleet_pool_write_def]] by metis

lemma kv_pool_write_answer [consumes 1, case_names kept written]:
  assumes "kv_pool_write operation env body d = (r, d')"
  obtains (kept) e where "d' = d" "r = Inl e"
  | (written) v tx' where "body (begin_transaction d) = (Inr v, tx')" "d' = tables tx'" "r = Inr v \<or> (\<exists>e. r = Inl e)"
  using pool_write_answer [OF assms [unfolded kv_pool_write_def]] by metis

definition i64_checked_add :: "int \<Rightarrow> int \<Rightarrow> int option" where
  "i64_checked_add a b = (if - i64_max - 1 \<le> a + b \<and> a + b \<le> i64_max then Some (a + b) else None)"

section \<open>Mutations\<close>

definition writes_lasting :: "('cur \<Rightarrow> 'e + ('v item_atomic_mutation \<times> 'o)) \<Rightarrow> bool" where
  "writes_lasting decide \<longleftrightarrow> (\<forall>current m c. decide current = Inr (m, c) \<longrightarrow>
     m = KeepExistingItem \<or> (\<exists>v. m = SetValue v NO_EXPIRATION))"

lemma lasting_live_or_init:
  assumes faith: "faithful it" and writes: "writes_lasting decide" and key: "item_key_is it parts key"
    and run: "mutate_live_or_init_item_in_transaction_internal (into_error :: 'c kv_error \<Rightarrow> 'e) it env parts
      (\<lambda>now. Inr (v0, NO_EXPIRATION)) decide cleanup tx = (Inr (res, c), tx')"
    and before: "lasting_option it key x (tables tx)"
  obtains n m where "lock_time env key (tables tx) = Some n"
    and "decide \<lparr>item_live = (case x of None \<Rightarrow> v0 | Some v \<Rightarrow> v), item_live_timestamp = n\<rparr> = Inr (m, c)"
    and "lasting it key (case m of SetValue w _ \<Rightarrow> w | _ \<Rightarrow> (case x of None \<Rightarrow> v0 | Some v \<Rightarrow> v)) (tables tx')"
    and "\<And>k. k \<noteq> key \<Longrightarrow> tables tx' k = tables tx k"
proof -
  obtain n m where n: "lock_time env key (tables tx) = Some n"
    and d: "decide \<lparr>item_live = item_live_value_seen res, item_live_timestamp = n\<rparr> = Inr (m, c)"
    and eff: "case item_at it key n (tables tx) of
        Some v \<Rightarrow> \<not> item_initialized res \<and> v = Inr (item_live_value_seen res)
          \<and> item_effect it key (apply_now env) m (tables tx) (tables tx')
      | None \<Rightarrow> item_initialized res \<and> (\<exists>ttl. Inr (v0, NO_EXPIRATION) = (Inr (item_live_value_seen res, ttl) :: 'e + _)
          \<and> item_effect it key (apply_now env)
              (case m of KeepExistingItem \<Rightarrow> SetValue (item_live_value_seen res) ttl
                 | SetValuePreservingExpiration w \<Rightarrow> SetValue w ttl | _ \<Rightarrow> m) (tables tx) (tables tx'))"
    using live_or_init_item_success [OF faith run] key unfolding item_key_is_def by fastforce
  have m: "m = KeepExistingItem \<or> (\<exists>v. m = SetValue v NO_EXPIRATION)"
    using writes d unfolding writes_lasting_def by blast
  have seen: "item_live_value_seen res = (case x of None \<Rightarrow> v0 | Some v \<Rightarrow> v)"
    using eff lasting_option_at [OF before, of n] by (cases x) auto
  have after: "lasting it key (case m of SetValue w _ \<Rightarrow> w | _ \<Rightarrow> (case x of None \<Rightarrow> v0 | Some v \<Rightarrow> v)) (tables tx')
    \<and> (\<forall>k. k \<noteq> key \<longrightarrow> tables tx' k = tables tx k)"
  proof (cases x)
    case None
    have e: "item_effect it key (apply_now env) (case m of KeepExistingItem \<Rightarrow> SetValue v0 NO_EXPIRATION
        | SetValuePreservingExpiration w \<Rightarrow> SetValue w NO_EXPIRATION | _ \<Rightarrow> m) (tables tx) (tables tx')"
      using eff lasting_option_at [OF before, of n] None by auto
    show ?thesis using m
    proof
      assume "m = KeepExistingItem"
      then show ?thesis using lasting_written [OF faith] e None by auto
    next
      assume "\<exists>v. m = SetValue v NO_EXPIRATION"
      then show ?thesis using lasting_written [OF faith] e by auto
    qed
  next
    case (Some v)
    have e: "item_effect it key (apply_now env) m (tables tx) (tables tx')"
      using eff lasting_option_at [OF before, of n] Some by auto
    show ?thesis using m
    proof
      assume "m = KeepExistingItem"
      then show ?thesis using e before Some by (simp add: item_effect_def)
    next
      assume "\<exists>v. m = SetValue v NO_EXPIRATION"
      then show ?thesis using lasting_written [OF faith] e by auto
    qed
  qed
  show ?thesis by (rule that [OF n d [unfolded seen]]) (use after in auto)
qed

lemma lasting_mutation:
  assumes faith: "faithful it" and writes: "writes_lasting decide" and key: "item_key_is it parts key"
    and run: "mutate_item_in_transaction_internal into_error it env parts decide cleanup tx = (Inr (res, c), tx')"
    and before: "lasting_option it key x (tables tx)"
  obtains n m where "lock_time env key (tables tx) = Some n"
    and "decide \<lparr>item_live_value = x, item_timestamp = n\<rparr> = Inr (m, c)"
    and "lasting_option it key (case m of SetValue w _ \<Rightarrow> Some w | _ \<Rightarrow> x) (tables tx')"
    and "\<And>k. k \<noteq> key \<Longrightarrow> tables tx' k = tables tx k"
proof -
  obtain raw tx1 where mut: "mutate_key_atomically_in_transaction_internal into_error env key
      (decide_item into_error it key decide) cleanup tx = (Inr (raw, (item_previous_live_value res, c)), tx')"
    using run key unfolding mutate_item_in_transaction_internal_def with_key_def item_key_is_def
    by (auto simp: do_then_def split: prod.splits sum.splits)
  obtain n raw_m where n: "lock_time env key (tables tx) = Some n"
    and d: "decide_item into_error it key decide \<lparr>current_live_value = get_bytes_statement n key (tables tx),
        current_timestamp = n\<rparr> = Inr (raw_m, (item_previous_live_value res, c))"
    and tab: "tables tx' = (case raw_m of KeepExisting \<Rightarrow> tables tx
        | SetBytes v ttl \<Rightarrow> stored (apply_now env) key v ttl (tables tx)
        | SetBytesPreservingExpiration v \<Rightarrow>
            (tables tx)(key \<mapsto> (the (tables tx key))\<lparr>kv_value := v, kv_updated_at := apply_now env\<rparr>)
        | Delete \<Rightarrow> (tables tx)(key := None))"
    using mutate_success [OF mutate_ok_admitted [OF mut] mut] by blast
  from d obtain m where seen: "transpose_option (map_option (decode_value_for_key it key)
        (get_bytes_statement n key (tables tx))) = Inr (item_previous_live_value res)"
    and m: "decide \<lparr>item_live_value = item_previous_live_value res, item_timestamp = n\<rparr> = Inr (m, c)"
      "encode_atomic_mutation_for_key into_error it key m = Inr raw_m"
    by (auto simp: decide_item_def result_bind_eq_Inr_iff map_sum_eq_Inr_iff)
  have x: "item_previous_live_value res = x"
    using seen lasting_option_at [OF before, of n]
    by (cases x) (auto simp: transpose_option_def item_at_def split: option.splits)
  have e: "item_effect it key (apply_now env) m (tables tx) (tables tx')"
    unfolding tab by (rule encoded_effect [OF m(2)], rule mutate_success_sets [OF mut n]) (simp add: d)
  have "m = KeepExistingItem \<or> (\<exists>v. m = SetValue v NO_EXPIRATION)"
    using writes m(1) unfolding writes_lasting_def by blast
  then have after: "lasting_option it key (case m of SetValue w _ \<Rightarrow> Some w | _ \<Rightarrow> x) (tables tx')
    \<and> (\<forall>k. k \<noteq> key \<longrightarrow> tables tx' k = tables tx k)"
  proof
    assume "m = KeepExistingItem"
    then show ?thesis using e before by (simp add: item_effect_def)
  next
    assume "\<exists>v. m = SetValue v NO_EXPIRATION"
    then show ?thesis using lasting_written [OF faith] e by auto
  qed
  show ?thesis by (rule that [OF n m(1) [unfolded x]]) (use after in auto)
qed

section \<open>Writes, reads and deletions\<close>

lemma lasting_set:
  assumes faith: "faithful it" and key: "item_key_is it parts key"
    and run: "item_set_in_current_transaction it p reply now parts v NO_EXPIRATION tx = (Inr (), tx')"
  shows "lasting it key v (tables tx')" "k \<noteq> key \<Longrightarrow> tables tx' k = tables tx k"
proof -
  obtain bs where bs: "encode_value_for_key it key v = Inr bs"
    and set: "set_bytes_in_current_transaction p reply now key bs NO_EXPIRATION tx = (Inr () :: 'c kv_error + unit, tx')"
    using run key by (auto simp: item_set_in_current_transaction_def with_key_and_value_def with_key_def item_key_is_def
        split: sum.splits)
  from slot_set_row [OF set] encoded_value_decodes [OF faith bs]
  show "lasting it key v (tables tx')" "k \<noteq> key \<Longrightarrow> tables tx' k = tables tx k"
    by (auto simp: lasting_def NO_EXPIRATION_def)
qed

lemma lasting_set_pool:
  assumes faith: "faithful it" and key: "item_key_is it parts key"
    and run: "item_set it p env parts v NO_EXPIRATION t = (r, t')"
  obtains (kept) e where "t' = t" "r = Inl e"
  | (written) "lasting it key v t'" "\<And>k. k \<noteq> key \<Longrightarrow> t' k = t k"
proof (cases "encode_value_for_key it key v")
  case (Inl e)
  then show ?thesis using run key that
    by (auto simp: item_set_def with_key_and_value_def with_key_def item_key_is_def)
next
  case (Inr bs)
  then have "kv_pool_write ''kv.set_bytes'' env
      (set_bytes_in_current_transaction p (env_reply env) (env_now env) key bs NO_EXPIRATION) t = (r, t')"
    using run key by (simp add: item_set_def with_key_and_value_def with_key_def item_key_is_def set_bytes_def)
  then show ?thesis
  proof (cases rule: kv_pool_write_answer)
    case (kept e)
    then show ?thesis by (rule that(1))
  next
    case (written u tx')
    from slot_set_row [OF written(1) [simplified]] encoded_value_decodes [OF faith Inr] written(2)
    have "lasting it key v t'" "\<And>k. k \<noteq> key \<Longrightarrow> t' k = t k"
      by (auto simp: lasting_def NO_EXPIRATION_def begin_transaction_def)
    then show ?thesis by (rule that(2))
  qed
qed

lemma item_get_Inr_at:
  assumes "item_get it p env parts t = (Inr v :: 'c kv_error + 'v)"
  shows "\<exists>key. item_key_is (it :: ('v, 'k, 'c) item) parts key \<and> item_at it key (env_now env) t = Some (Inr v)"
proof -
  obtain key bs where key: "item_key_from_parts it parts = Inr key"
    and bs: "get_bytes p env key t = (Inr bs :: 'c kv_error + bytes)" and v: "decode_value_for_key it key bs = Inr v"
    using assms by (auto simp: item_get_def with_key_def result_bind_eq_Inr_iff split: sum.splits)
  have "fst (admitted p (env_reply env) KvDatabase (\<lambda>t. (get_bytes_with_executor (env_now env) key t, t))
      (begin_transaction t)) = (Inr bs :: 'c kv_error + bytes)"
    using bs by (auto simp: get_bytes_def kv_pool_read_def pool_read_def finish_rollback_only_transaction_def
        get_bytes_in_current_transaction_def split: option.splits sum.splits rollback_outcome.splits)
  from admitted_Inr(2) [OF this] have "get_bytes_statement (env_now env) key t = Some bs"
    by (auto simp: get_bytes_with_executor_def begin_transaction_def split: option.splits)
  then show ?thesis using key v by (auto simp: item_key_is_def item_at_def)
qed

lemma item_get_absent:
  assumes "item_get it p env parts t = (Inl KvKeyNotFound :: 'c kv_error + 'v)" and key: "item_key_is it parts key"
    and plain: "item_codec (it :: ('v, 'k, 'c) item) = Plain"
  shows "item_at it key (env_now env) t = None"
proof -
  have b: "get_bytes p env key t = (Inl KvKeyNotFound :: 'c kv_error + bytes)"
    using assms by (auto simp: item_get_def with_key_def item_key_is_def result_bind_def decode_value_for_key_def
        with_codec_def decode_plain_value_def map_sum_eq_Inl_iff split: sum.splits)
  let ?body = "get_bytes_in_current_transaction p (env_reply env) (env_now env) key (begin_transaction t)
      :: ('c kv_error + bytes) \<times> kv_table tx"
  have "fst ?body = Inl KvKeyNotFound"
    using b by (auto simp: get_bytes_def kv_pool_read_def pool_read_def finish_rollback_only_transaction_def
        split: option.splits sum.splits rollback_outcome.splits)
  then have "get_bytes_with_executor (env_now env) key t = (Inl KvKeyNotFound :: 'c kv_error + bytes)"
    by (cases "fst (admit p (env_reply env) (begin_transaction t))")
      (simp_all add: get_bytes_in_current_transaction_def admitted_error admitted_ok, simp add: begin_transaction_def)
  then show ?thesis by (auto simp: item_at_def get_bytes_with_executor_def split: option.splits)
qed

lemma lasting_get:
  assumes "lasting_option it key x t" and "item_key_is it parts key" and "item_codec it = Plain"
  shows "item_get it p env parts t = Inr v \<Longrightarrow> x = Some v"
    and "item_get it p env parts t = Inl KvKeyNotFound \<Longrightarrow> x = None"
proof -
  show "x = Some v" if "item_get it p env parts t = Inr v"
    using item_get_Inr_at [OF that] item_key_unique [OF assms(2)] lasting_option_at [OF assms(1), of "env_now env"]
    by (cases x) auto
  show "x = None" if "item_get it p env parts t = Inl KvKeyNotFound"
    using item_get_absent [OF that assms(2,3)] lasting_option_at [OF assms(1), of "env_now env"] by simp
qed

lemma lasting_get_in_transaction:
  assumes last: "lasting_option it key x (tables tx)" and key: "item_key_is it parts key" and plain: "item_codec it = Plain"
    and run: "item_get_in_current_transaction it p reply now parts tx = (r, tx')"
  shows "tables tx' = tables tx" and "r = Inr v \<Longrightarrow> x = Some v" and "r = Inl KvKeyNotFound \<Longrightarrow> x = None"
proof -
  let ?get = "get_bytes_in_current_transaction p reply now key tx :: ('c kv_error + bytes) \<times> kv_table tx"
  have run': "do_then ?get (\<lambda>bs tx. (decode_value_for_key it key bs, tx)) = (r, tx')"
    using run key by (simp add: item_get_in_current_transaction_def with_key_def item_key_is_def)
  have "tables (snd ?get) k = tables tx k" for k
    unfolding get_bytes_in_current_transaction_def by (rule admitted_frame) simp
  then have tab: "tables (snd ?get) = tables tx" by blast
  have "snd (do_then ?get (\<lambda>bs tx. (decode_value_for_key it key bs, tx))) = snd ?get"
    by (cases ?get; cases "fst ?get") (simp_all add: do_then_def)
  then show "tables tx' = tables tx" using run' tab by simp
  have at: "fst (admit p reply tx) = Inr () \<Longrightarrow> fst ?get = get_bytes_with_executor now key (tables tx)"
    by (simp add: get_bytes_in_current_transaction_def admitted_ok)
  have adm: "fst (admit p reply tx) = Inr () \<or> (\<exists>e. fst ?get = Inl (KvDatabase e))"
    by (cases "fst (admit p reply tx)") (auto simp: get_bytes_in_current_transaction_def admitted_error)
  have r: "r = result_bind (fst ?get) (decode_value_for_key it key)"
    using run' by (cases ?get; cases "fst ?get") (auto simp: do_then_def result_bind_def)
  have item: "item_at it key now (tables tx) = map_option Inr x" by (rule lasting_option_at [OF last])
  show "x = Some v" if "r = Inr v"
    using that adm at item r
    by (cases x) (auto simp: item_at_def get_bytes_with_executor_def result_bind_eq_Inr_iff result_bind_def split: option.splits)
  have no: "decode_value_for_key it key bs \<noteq> Inl KvKeyNotFound" for bs
    by (simp add: decode_value_for_key_def with_codec_def plain decode_plain_value_def map_sum_eq_Inl_iff)
  show "x = None" if "r = Inl KvKeyNotFound"
    using that adm at item r no
    by (cases x) (auto simp: item_at_def get_bytes_with_executor_def result_bind_def split: option.splits)
qed

section \<open>A concrete serializer of small numbers\<close>

definition byte_numbers :: "(int, unit, unit) item" where
  "byte_numbers = \<lparr>item_prefix = [], item_codec = Plain,
     to_plaintext_bytes = (\<lambda>v. if 0 \<le> v \<and> v < 256 then Inr [word_of_int v] else Inl ()),
     from_plaintext_bytes = (\<lambda>bs. Inr (uint (hd bs))), seal = (\<lambda>_ p _. Inr p), unseal = (\<lambda>_ b _. Inr b)\<rparr>"

lemma byte_numbers_faithful: "faithful byte_numbers"
  by (auto simp: faithful_def byte_numbers_def uint_word_of_int split: if_splits)

lemma byte_numbers_codec:
  "encode_value_for_key (item_new_plain byte_numbers p) k v = (if 0 \<le> v \<and> v < 256 then Inr [word_of_int v] else Inl (KvCodec ()))"
  "decode_value_for_key (item_new_plain byte_numbers p) k bs = Inr (uint (hd bs))"
  by (simp_all add: byte_numbers_def item_new_plain_def encode_value_for_key_def decode_value_for_key_def
      with_codec_def encode_plain_value_def decode_plain_value_def)

end
