(* ===== verification/Counter.thy ===== *)
theory Counter
  imports Lasting
begin

text \<open>
  \<open>src/src/db/fleet/counter.rs\<close> and \<open>Store::new_counter\<close>: a number of 64 bits under one key, kept
  without an end.

  The closure of an addition reports through its variable \<open>next_value\<close>; a successful mutation has run it,
  so the error \<open>CounterMutationDidNotAssignNextValue\<close> is never the answer. \<open>base\<close> is the serializer of the
  numbers.
\<close>

section \<open>Operations\<close>

definition FLEET_COUNTER_VALUE_KEY_PART :: string where "FLEET_COUNTER_VALUE_KEY_PART = ''value''"

record 'c counter =
  counter_key :: string
  counter_item :: "(int, unit, 'c) item"

definition new_counter :: "(int, unit, 'c) item \<Rightarrow> string \<Rightarrow> string \<Rightarrow> 'c fleet_error + 'c counter" where
  "new_counter base root_key key =
     map_sum id (\<lambda>key_prefix. \<lparr>counter_key = key, counter_item = item_new_plain base key_prefix\<rparr>)
       (build_counter_prefix root_key key)"

definition decide_counter_add ::
    "int \<Rightarrow> int item_atomic_live_current \<Rightarrow> 'c fleet_error + (int item_atomic_mutation \<times> int)" where
  "decide_counter_add delta current =
     (case i64_checked_add (item_live current) delta of
        None \<Rightarrow> Inl (FleetCacheError FleetCounterArithmeticOverflow)
      | Some v \<Rightarrow> Inr (SetValue v NO_EXPIRATION, v))"

definition counter_add_in_current_transaction ::
    "'c counter \<Rightarrow> atomic_env \<Rightarrow> int \<Rightarrow> kv_table tx \<Rightarrow> ('c fleet_error + int) \<times> kv_table tx" where
  "counter_add_in_current_transaction c aenv delta tx =
     map_prod (map_sum id snd) id
       (item_mutate_live_or_insert_initial_value_atomically_in_current_transaction FleetKv (counter_item c) aenv
         [FLEET_COUNTER_VALUE_KEY_PART] (\<lambda>_. Inr (0, NO_EXPIRATION)) (decide_counter_add delta) tx)"

definition counter_add ::
    "'c counter \<Rightarrow> pool_env \<Rightarrow> atomic_env \<Rightarrow> int \<Rightarrow> kv_table \<Rightarrow> ('c fleet_error + int) \<times> kv_table" where
  "counter_add c env aenv delta t =
     fleet_pool_write ''fleet.counter.add'' env
       (counter_add_in_current_transaction c (aenv\<lparr>atomic_reply := env_reply env\<rparr>) delta) t"

definition absent_is_zero :: "'c kv_error + int \<Rightarrow> 'c fleet_error + int" where
  "absent_is_zero r = (case r of Inr v \<Rightarrow> Inr v | Inl KvKeyNotFound \<Rightarrow> Inr 0 | Inl e \<Rightarrow> Inl (FleetKv e))"

definition counter_fetch_value :: "'c counter \<Rightarrow> string \<Rightarrow> pool_env \<Rightarrow> kv_table \<Rightarrow> 'c fleet_error + int" where
  "counter_fetch_value c protocol env t =
     absent_is_zero (item_get (counter_item c) protocol env [FLEET_COUNTER_VALUE_KEY_PART] t)"

definition counter_fetch_value_in_current_transaction ::
    "'c counter \<Rightarrow> string \<Rightarrow> admission_reply \<Rightarrow> micros \<Rightarrow> kv_table tx \<Rightarrow> ('c fleet_error + int) \<times> kv_table tx" where
  "counter_fetch_value_in_current_transaction c protocol reply now tx =
     map_prod absent_is_zero id
       (item_get_in_current_transaction (counter_item c) protocol reply now [FLEET_COUNTER_VALUE_KEY_PART] tx)"

definition counter_set_value ::
    "'c counter \<Rightarrow> string \<Rightarrow> pool_env \<Rightarrow> int \<Rightarrow> kv_table \<Rightarrow> ('c fleet_error + unit) \<times> kv_table" where
  "counter_set_value c protocol env v t =
     map_prod (map_sum FleetKv id) id
       (item_set (counter_item c) protocol env [FLEET_COUNTER_VALUE_KEY_PART] v NO_EXPIRATION t)"

definition counter_set_value_in_current_transaction ::
    "'c counter \<Rightarrow> string \<Rightarrow> admission_reply \<Rightarrow> micros \<Rightarrow> int \<Rightarrow> kv_table tx \<Rightarrow> ('c fleet_error + unit) \<times> kv_table tx" where
  "counter_set_value_in_current_transaction c protocol reply now v tx =
     map_prod (map_sum FleetKv id) id
       (item_set_in_current_transaction (counter_item c) protocol reply now [FLEET_COUNTER_VALUE_KEY_PART] v
         NO_EXPIRATION tx)"

section \<open>Histories\<close>

text \<open>The calls that change a counter, what they answer, and what the number becomes when they take effect.\<close>

datatype counter_call = CounterAdd int | CounterSet int

fun run_counter_call ::
    "'c counter \<Rightarrow> string \<Rightarrow> pool_env \<Rightarrow> atomic_env \<Rightarrow> counter_call \<Rightarrow> kv_table \<Rightarrow> ('c fleet_error + int) \<times> kv_table" where
  "run_counter_call c p env aenv (CounterAdd delta) t = counter_add c env aenv delta t"
| "run_counter_call c p env aenv (CounterSet v) t = map_prod (map_sum id (\<lambda>_. v)) id (counter_set_value c p env v t)"

fun counted :: "counter_call \<Rightarrow> int \<Rightarrow> int" where
  "counted (CounterAdd delta) v = v + delta"
| "counted (CounterSet w) v = w"

fun fits :: "counter_call \<Rightarrow> int \<Rightarrow> bool" where
  "fits (CounterAdd delta) v \<longleftrightarrow> i64_checked_add v delta \<noteq> None"
| "fits (CounterSet w) v \<longleftrightarrow> True"

text \<open>
  A history explains a number: in its order, each call either failed without an effect, or took effect on
  what the calls before it had made, and then it answered that new number or reported an error.
\<close>

fun explains :: "int \<Rightarrow> (counter_call \<times> ('c fleet_error + int)) list \<Rightarrow> int \<Rightarrow> bool" where
  "explains v [] v' \<longleftrightarrow> v' = v"
| "explains v ((call, r) # rest) v' \<longleftrightarrow>
     (\<not> is_ok r \<and> explains v rest v')
     \<or> (fits call v \<and> (is_ok r \<longrightarrow> r = Inr (counted call v)) \<and> explains (counted call v) rest v')"

definition counter_at :: "'c counter \<Rightarrow> int \<Rightarrow> kv_table \<Rightarrow> bool" where
  "counter_at c v t \<longleftrightarrow> (\<exists>key x. item_key_is (counter_item c) [FLEET_COUNTER_VALUE_KEY_PART] key
     \<and> lasting_option (counter_item c) key x t \<and> v = (case x of None \<Rightarrow> 0 | Some w \<Rightarrow> w))"

text \<open>
  A run of calls by any processes, one transaction after the other, between which others may do anything to
  the table but to the row of the counter.
\<close>

inductive counter_run ::
    "'c counter \<Rightarrow> (counter_call \<times> ('c fleet_error + int)) list \<Rightarrow> kv_table \<Rightarrow> kv_table \<Rightarrow> bool" for c where
  run_empty: "counter_run c [] t t"
| run_call: "counter_run c log t t' \<Longrightarrow> run_counter_call c p env aenv call t' = (r, t'') \<Longrightarrow>
    counter_run c (log @ [(call, r)]) t t''"
| run_elsewhere: "counter_run c log t t' \<Longrightarrow>
    (\<forall>key. item_key_is (counter_item c) [FLEET_COUNTER_VALUE_KEY_PART] key \<longrightarrow> t'' key = t' key) \<Longrightarrow>
    counter_run c log t t''"

lemma explains_snoc:
  "explains v (log @ [(call, r)]) v' \<longleftrightarrow>
     (\<exists>u. explains v log u \<and> explains u [(call, r)] v')"
  by (induction v log v' rule: explains.induct) auto

lemma writes_lasting_add: "writes_lasting (decide_counter_add delta)"
  by (auto simp: writes_lasting_def decide_counter_add_def split: option.splits)

lemma counter_add_effect:
  assumes faith: "faithful (counter_item c)" and at: "counter_at c v t"
    and run: "counter_add c env aenv delta t = (r, t')"
  shows "(\<exists>e. r = Inl e) \<and> t' = t
    \<or> i64_checked_add v delta \<noteq> None \<and> (is_ok r \<longrightarrow> r = Inr (v + delta)) \<and> counter_at c (v + delta) t'"
  using run unfolding counter_add_def
proof (cases rule: fleet_pool_write_answer)
  case (written w tx')
  let ?aenv = "aenv\<lparr>atomic_reply := env_reply env\<rparr>"
  obtain res where mut: "mutate_live_or_init_item_in_transaction_internal FleetKv (counter_item c) ?aenv
      [FLEET_COUNTER_VALUE_KEY_PART] (\<lambda>_. Inr (0, NO_EXPIRATION)) (decide_counter_add delta) True (begin_transaction t)
      = (Inr (res, w), tx')"
    using written(1) by (auto simp: counter_add_in_current_transaction_def map_prod_def map_sum_eq_Inr_iff
        item_mutate_live_or_insert_initial_value_atomically_in_current_transaction_def split: prod.splits)
  obtain key x where key: "item_key_is (counter_item c) [FLEET_COUNTER_VALUE_KEY_PART] key"
    and x: "lasting_option (counter_item c) key x t" and v: "v = (case x of None \<Rightarrow> 0 | Some w \<Rightarrow> w)"
    using at by (auto simp: counter_at_def)
  have x': "lasting_option (counter_item c) key x (tables (begin_transaction t))"
    using x by (simp add: begin_transaction_def)
  obtain n m where d: "decide_counter_add delta \<lparr>item_live = v, item_live_timestamp = n\<rparr> = (Inr (m, w) :: 'a fleet_error + _)"
    and last: "lasting (counter_item c) key (case m of SetValue w _ \<Rightarrow> w | _ \<Rightarrow> v) (tables tx')"
    using lasting_live_or_init [OF faith writes_lasting_add key mut x'] v by metis
  have "i64_checked_add v delta = Some w" "m = SetValue w NO_EXPIRATION"
    using d by (auto simp: decide_counter_add_def split: option.splits)
  moreover from this have "w = v + delta" by (auto simp: i64_checked_add_def split: if_splits)
  ultimately show ?thesis using last written key by (auto simp: counter_at_def is_ok_def intro!: exI [of _ key] exI [of _ "Some w"])
qed auto

lemma counter_set_effect:
  assumes faith: "faithful (counter_item c)" and at: "counter_at c v t"
    and run: "counter_set_value c p env w t = (r, t')"
  shows "(\<exists>e. r = Inl e) \<and> t' = t \<or> counter_at c w t'"
proof -
  obtain key where key: "item_key_is (counter_item c) [FLEET_COUNTER_VALUE_KEY_PART] key"
    using at by (auto simp: counter_at_def)
  obtain r' where run': "item_set (counter_item c) p env [FLEET_COUNTER_VALUE_KEY_PART] w NO_EXPIRATION t = (r', t')"
    and r: "r = map_sum FleetKv id r'"
    using run by (auto simp: counter_set_value_def map_prod_def split: prod.splits)
  show ?thesis
  proof (cases rule: lasting_set_pool [OF faith key run', case_names kept written])
    case written
    then show ?thesis using key by (auto simp: counter_at_def intro!: exI [of _ key] exI [of _ "Some w"])
  qed (simp add: r)
qed

lemma counter_call_effect:
  assumes "faithful (counter_item c)" and "counter_at c v t" and "run_counter_call c p env aenv call t = (r, t')"
  shows "\<exists>v'. explains v [(call, r)] v' \<and> counter_at c v' t'"
proof (cases call)
  case (CounterAdd delta)
  then show ?thesis using counter_add_effect [OF assms(1,2), of env aenv delta r t'] assms(2,3) by (auto simp: is_ok_def)
next
  case (CounterSet w)
  then obtain r' where "counter_set_value c p env w t = (r', t')" "r = map_sum id (\<lambda>_. w) r'"
    using assms(3) by (auto simp: map_prod_def split: prod.splits)
  then show ?thesis using counter_set_effect [OF assms(1,2), of p env w r' t'] CounterSet assms(2)
    by (cases r') (auto simp: is_ok_def)
qed

text \<open>C6: No addition is lost and none counts twice: in every run of additions and assignments by any number of
  processes, whatever the commits of their transactions came to, the answers are explained by taking the
  calls one after the other, each on the result of those before it, and a later fetch reports exactly what
  they made.\<close>

theorem counter_loses_no_update:
  fixes c :: "'c counter"
  assumes "new_counter base root key = Inr c" and "faithful base"
    and "counter_run c log t t'" and "counter_at c v t"
  shows "\<exists>v'. explains v log v' \<and> counter_at c v' t'
    \<and> (\<forall>p env w. counter_fetch_value c p env t' = Inr w \<longrightarrow> w = v')"
proof -
  have faith: "faithful (counter_item c)" "item_codec (counter_item c) = Plain"
    using assms(1,2) by (auto simp: new_counter_def map_sum_eq_Inr_iff)
  have "\<exists>v'. explains v log v' \<and> counter_at c v' t'"
    using assms(3,4)
  proof (induction rule: counter_run.induct)
    case (run_call log t t' p env aenv call r t'')
    then show ?case using counter_call_effect [OF faith(1)] explains_snoc by metis
  next
    case (run_elsewhere log t t' t'')
    then show ?case by (metis counter_at_def lasting_option_row)
  qed auto
  then obtain v' where v': "explains v log v'" "counter_at c v' t'" by blast
  have "w = v'" if "counter_fetch_value c p env t' = Inr w" for p env w
  proof -
    obtain k x where x: "item_key_is (counter_item c) [FLEET_COUNTER_VALUE_KEY_PART] k"
      "lasting_option (counter_item c) k x t'" "v' = (case x of None \<Rightarrow> 0 | Some w \<Rightarrow> w)"
      using v'(2) by (auto simp: counter_at_def)
    then show ?thesis using that lasting_get [OF x(2,1) faith(2), of p env]
      by (auto simp: counter_fetch_value_def absent_is_zero_def split: sum.splits kv_error.splits)
  qed
  then show ?thesis using v' by blast
qed

section \<open>A concrete run\<close>

definition demo_counter :: "unit counter" where
  "demo_counter = \<lparr>counter_key = ''k'', counter_item = item_new_plain byte_numbers ''r::counter::k::''\<rparr>"

lemma demo_counter_new: "new_counter byte_numbers ''r'' ''k'' = Inr demo_counter"
  by (simp add: new_counter_def build_counter_prefix_def component_key_defs kv_build_key_from_parts_def
      kv_validate_key_part_def kv_validate_key_length_def KV_KEY_SEPARATOR_def MAX_KV_KEY_BYTES_def result_bind_def
      demo_counter_def)

lemma demo_counter_key: "item_key_from_parts (counter_item demo_counter) [''value''] = Inr ''r::counter::k::value::''"
  by (simp add: item_key_from_parts_def demo_counter_def kv_build_key_from_prefix_and_parts_def kv_validate_key_part_def
      kv_validate_key_length_def MAX_KV_KEY_BYTES_def KV_KEY_SEPARATOR_def result_bind_def)

lemma demo_counter_codec:
  "encode_value_for_key (counter_item demo_counter) k v = (if 0 \<le> v \<and> v < 256 then Inr [word_of_int v] else Inl (KvCodec ()))"
  "decode_value_for_key (counter_item demo_counter) k bs = Inr (uint (hd bs))"
  by (simp_all add: demo_counter_def byte_numbers_codec)

lemma demo_count_ok: "is_ok (fst (counter_add demo_counter calm_pool calm_env 5 Map.empty))"
  by (simp add: counter_add_def fleet_pool_write_def pool_write_def calm_pool_def counter_add_in_current_transaction_def
      item_mutate_live_or_insert_initial_value_atomically_in_current_transaction_def
      mutate_live_or_init_item_in_transaction_internal_def with_key_def FLEET_COUNTER_VALUE_KEY_PART_def demo_counter_key
      mutate_live_key_or_insert_initial_value_atomically_in_transaction_internal_def
      mutate_key_atomically_in_transaction_internal_def lock_key_for_atomic_mutation_def
      admitted_def admit_def calm_env_def supported_reply_def supported_row_def begin_transaction_def
      SUPPORTED_EPOCH_def SUPPORTED_FINGERPRINT_def numeral_eq_Suc lock_key_statement_def map_error_def Let_def
      decide_or_initialize_def initialize_item_def decide_initialized_item_def decide_counter_add_def demo_counter_codec
      i64_checked_add_def i64_max_def encode_atomic_mutation_for_key_def result_bind_def
      ttl_positive_microseconds_def NO_EXPIRATION_def update_key_value_and_ttl_for_atomic_mutation_def
      update_value_and_ttl_statement_def expires_at_expression_def kv_require_rows_affected_def do_then_def
      finish_write_transaction_def)

theorem counter_loses_no_update_witness:
  "\<exists>t'. counter_add demo_counter calm_pool calm_env 5 Map.empty = (Inr 5, t') \<and> counter_at demo_counter 5 t'"
proof -
  let ?r = "run_counter_call demo_counter ''p'' calm_pool calm_env (CounterAdd 5) Map.empty"
  have "counter_run demo_counter [(CounterAdd 5, fst ?r)] Map.empty (snd ?r)"
    using run_call [OF run_empty, of demo_counter "''p''" calm_pool calm_env "CounterAdd 5" Map.empty "fst ?r" "snd ?r"]
    by simp
  moreover have "counter_at demo_counter 0 Map.empty"
    unfolding counter_at_def
    by (intro exI [of _ "''r::counter::k::value::''"] exI [of _ None])
      (simp add: item_key_is_def FLEET_COUNTER_VALUE_KEY_PART_def demo_counter_key)
  ultimately obtain v' where "explains 0 [(CounterAdd 5, fst ?r)] v'" "counter_at demo_counter v' (snd ?r)"
    using counter_loses_no_update [OF demo_counter_new byte_numbers_faithful] by blast
  then have "fst ?r = Inr 5" "counter_at demo_counter 5 (snd ?r)" using demo_count_ok by auto
  then show ?thesis by (metis prod.collapse run_counter_call.simps(1))
qed

end
