(* ===== verification/TopicSequence.thy ===== *)
theory TopicSequence
  imports Lasting
begin

text \<open>
  \<open>src/src/db/fleet/topic_support.rs\<close>: sequence numbers of topics and the texts under which their events
  are stored, 20 decimal digits with leading zeros.
\<close>

definition validate_non_negative_topic_sequence :: "int \<Rightarrow> 'c fleet_error + unit" where
  "validate_non_negative_topic_sequence s =
     (if s < 0 then Inl (FleetTopicError FleetTopicSequenceMustBeNonNegative) else Inr ())"

text \<open>\<open>format!("{sequence:020}")\<close> of a number that is not negative.\<close>

definition topic_sequence_key_suffix :: "int \<Rightarrow> 'c fleet_error + string" where
  "topic_sequence_key_suffix s =
     result_bind (validate_non_negative_topic_sequence s) (\<lambda>_.
       let digits = decimal_text (nat s) in Inr (replicate (20 - length digits) (CHR ''0'') @ digits))"

definition is_ascii_digit :: "char \<Rightarrow> bool" where
  "is_ascii_digit c \<longleftrightarrow> CHR ''0'' \<le> c \<and> c \<le> CHR ''9''"

definition digits_value :: "string \<Rightarrow> nat" where
  "digits_value s = foldl (\<lambda>n c. 10 * n + (of_char c - 48)) 0 s"

text \<open>\<open>parse::<i64>\<close> on digits fails exactly when the number does not fit.\<close>

definition parse_topic_sequence_key_suffix :: "string \<Rightarrow> 'c fleet_error + int" where
  "parse_topic_sequence_key_suffix s =
     (if length s \<noteq> 20 \<or> \<not> list_all is_ascii_digit s \<or> int (digits_value s) > i64_max
      then Inl (FleetTopicError (FleetInvalidTopicEventSequenceSuffix s))
      else Inr (int (digits_value s)))"

section \<open>Digits\<close>

lemma foldl_digits: "foldl (\<lambda>n c. 10 * n + (of_char c - 48)) a s = a * 10 ^ length s + digits_value s" for a :: nat
proof (induction s arbitrary: a)
  case (Cons c s)
  have "digits_value (c # s) = (of_char c - 48) * 10 ^ length s + digits_value s"
    using Cons.IH [of "of_char c - 48"] by (simp add: digits_value_def)
  then show ?case using Cons.IH [of "10 * a + (of_char c - 48)"] by (simp add: algebra_simps)
qed (simp add: digits_value_def)

lemma digits_value_simps [simp]:
  "digits_value [] = 0" "digits_value (c # s) = (of_char c - 48) * 10 ^ length s + digits_value s"
  using foldl_digits [of "of_char c - 48" s] by (simp_all add: digits_value_def)

lemma digits_value_append [simp]: "digits_value (s @ s') = digits_value s * 10 ^ length s' + digits_value s'"
  by (induction s) (simp_all add: power_add algebra_simps)

lemma digit_bounds: "is_ascii_digit c \<longleftrightarrow> 48 \<le> (of_char c :: nat) \<and> (of_char c :: nat) \<le> 57"
  by (simp add: is_ascii_digit_def less_eq_char_def)

lemma digits_value_bound: "list_all is_ascii_digit s \<Longrightarrow> digits_value s < 10 ^ length s"
proof (induction s)
  case (Cons c s)
  then have "of_char c - 48 \<le> (9 :: nat)" and l: "digits_value s < 10 ^ length s" by (auto simp: digit_bounds)
  then have "(of_char c - 48) * 10 ^ length s \<le> (9 :: nat) * 10 ^ length s" by (intro mult_le_mono1)
  with l have "(of_char c - 48) * 10 ^ length s + digits_value s < (10 :: nat) * 10 ^ length s" by linarith
  then show ?case by simp
qed simp

lemma digits_order:
  assumes "length s = length s'" and "list_all is_ascii_digit s" and "list_all is_ascii_digit s'"
  shows "s < s' \<longleftrightarrow> digits_value s < digits_value s'"
  using assms
proof (induction s s' rule: list_induct2)
  case (Cons c s c' s')
  let ?p = "10 ^ length s :: nat"
  have b: "digits_value s < ?p" "digits_value s' < ?p"
    using Cons digits_value_bound [of s] digits_value_bound [of s'] by simp_all
  have d: "48 \<le> (of_char c :: nat)" "48 \<le> (of_char c' :: nat)" using Cons.prems by (simp_all add: digit_bounds)
  have less: "a * ?p + digits_value x < b * ?p + digits_value y" if "a < b" "digits_value x < ?p" for a b :: nat and x y
  proof -
    have "a * ?p + digits_value x < Suc a * ?p" using that(2) by simp
    also have "\<dots> \<le> b * ?p" using that(1) by (intro mult_le_mono1) simp
    finally show ?thesis by simp
  qed
  consider (lt) "(of_char c :: nat) < of_char c'" | (gt) "(of_char c' :: nat) < of_char c" | (eq) "c = c'"
    by (metis linorder_neqE_nat of_char_eq_iff)
  then show ?case
  proof cases
    case lt
    then have "c < c'" and "of_char c - 48 < (of_char c' - 48 :: nat)" using d by (simp_all add: less_char_def)
    then show ?thesis using less [of "of_char c - 48" "of_char c' - 48" s s'] b Cons.hyps by simp
  next
    case gt
    then have "c' < c" and "of_char c' - 48 < (of_char c - 48 :: nat)" using d by (simp_all add: less_char_def)
    then show ?thesis using less [of "of_char c' - 48" "of_char c - 48" s' s] b Cons.hyps by auto
  next
    case eq
    then show ?thesis using Cons by simp
  qed
qed simp

lemma digit_char: "n < 10 \<Longrightarrow> of_char (char_of (48 + n)) = (48 + n :: nat)"
  by (simp add: of_char_of)

lemma decimal_text_digits: "list_all is_ascii_digit (decimal_text n) \<and> digits_value (decimal_text n) = n
  \<and> decimal_text n \<noteq> []"
proof (induction n rule: decimal_text.induct)
  case (1 n)
  show ?case
  proof (cases "n < 10")
    case True
    then show ?thesis using digit_char [OF True] by (simp add: decimal_text.simps [of n] digit_bounds)
  next
    case False
    then have s: "decimal_text n = decimal_text (n div 10) @ [char_of (48 + n mod 10)]"
      by (simp add: decimal_text.simps [of n])
    have "of_char (char_of (48 + n mod 10)) = (48 + n mod 10 :: nat)" by (rule digit_char) simp
    then show ?thesis using 1 [OF False] unfolding s by (simp add: digit_bounds)
  qed
qed

lemma decimal_text_length: "0 < k \<Longrightarrow> n < 10 ^ k \<Longrightarrow> length (decimal_text n) \<le> k"
proof (induction n arbitrary: k rule: decimal_text.induct)
  case (1 n)
  show ?case
  proof (cases "n < 10")
    case False
    then have s: "decimal_text n = decimal_text (n div 10) @ [char_of (48 + n mod 10)]"
      by (simp add: decimal_text.simps [of n])
    obtain j where j: "k = Suc j" using 1(2) by (cases k) simp_all
    then have "n div 10 < 10 ^ j" "0 < j" using 1(3) False by (auto intro!: Nat.gr0I)
    then show ?thesis using "1.IH" [OF False] j s by simp
  qed (use 1(2) in \<open>simp add: decimal_text.simps [of n]\<close>)
qed

lemma zero_digits [simp]:
  "digits_value (replicate k (CHR ''0'')) = 0" "list_all is_ascii_digit (replicate k (CHR ''0''))"
  by (induction k) (simp_all add: digit_bounds)

lemma sequence_text:
  assumes "0 \<le> s" and "s \<le> i64_max" and "topic_sequence_key_suffix s = Inr w1"
  shows "length w1 = 20" "list_all is_ascii_digit w1" "int (digits_value w1) = s"
proof -
  let ?d = "decimal_text (nat s)"
  have "nat s < 10 ^ 20" using assms(2) by (simp add: i64_max_def)
  then have "length ?d \<le> 20" by (intro decimal_text_length) simp_all
  moreover have "w1 = replicate (20 - length ?d) (CHR ''0'') @ ?d"
    using assms(1,3) by (simp add: topic_sequence_key_suffix_def validate_non_negative_topic_sequence_def result_bind_def Let_def)
  ultimately show "length w1 = 20" "list_all is_ascii_digit w1" "int (digits_value w1) = s"
    using decimal_text_digits [of "nat s"] assms(1) by simp_all
qed

lemma sequence_text_total: "0 \<le> s \<Longrightarrow> \<exists>w1. topic_sequence_key_suffix s = Inr w1"
  by (simp add: topic_sequence_key_suffix_def validate_non_negative_topic_sequence_def result_bind_def Let_def)

text \<open>The text of a sequence number has 20 digits and is read back as that number, and texts are ordered as
  byte strings exactly as their numbers are, so a scan by key visits events in the order of publication.\<close>

theorem sequence_text_round_trip:
  assumes "0 \<le> s" "s \<le> i64_max" and "0 \<le> s'" "s' \<le> i64_max"
  shows "\<exists>w1 w2. topic_sequence_key_suffix s = (Inr w1 :: 'c fleet_error + string)
    \<and> topic_sequence_key_suffix s' = (Inr w2 :: 'c fleet_error + string)
    \<and> parse_topic_sequence_key_suffix w1 = (Inr s :: 'c fleet_error + int)
    \<and> (w1 < w2 \<longleftrightarrow> s < s')"
proof -
  obtain w1 w2 where t: "topic_sequence_key_suffix s = (Inr w1 :: 'c fleet_error + string)"
    and t': "topic_sequence_key_suffix s' = (Inr w2 :: 'c fleet_error + string)"
    using sequence_text_total [OF assms(1)] sequence_text_total [OF assms(3)] by blast
  note a = sequence_text [OF assms(1,2) t] and b = sequence_text [OF assms(3,4) t']
  have "w1 < w2 \<longleftrightarrow> digits_value w1 < digits_value w2" using digits_order a b by simp
  moreover have "parse_topic_sequence_key_suffix w1 = (Inr s :: 'c fleet_error + int)"
    using a assms(2) by (simp add: parse_topic_sequence_key_suffix_def)
  ultimately show ?thesis using t t' a(3) b(3) by auto
qed

theorem sequence_text_round_trip_witness:
  "\<exists>w1. topic_sequence_key_suffix 12 = (Inr w1 :: unit fleet_error + string)
     \<and> parse_topic_sequence_key_suffix w1 = (Inr 12 :: unit fleet_error + int)"
  using sequence_text_round_trip [of 12 9, where 'c = unit] by (auto simp: i64_max_def)

end
