(* ===== verification/Topic.thy ===== *)
theory Topic
  imports TopicSequence Mutex
begin

text \<open>
  \<open>src/src/db/fleet/topic.rs\<close>, \<open>topic_model.rs\<close> and \<open>Store::new_topic\<close>: durable topics and the cursors of
  their subscriptions. A topic keeps its last sequence number under its sequence prefix itself, the events
  under their numbers, and a subscription its cursor under its cursor prefix itself.

  \<open>base\<close> and \<open>event_base\<close> are the serializers of numbers and of event envelopes. The closures report through
  their variables; a successful mutation has run them, so the two errors about an unassigned variable are
  never the answer. The statements of one transaction meet the moments in their environments.
\<close>

section \<open>Handles\<close>

definition DEFAULT_SUBSCRIPTION_POLL_LIMIT :: nat where "DEFAULT_SUBSCRIPTION_POLL_LIMIT = 100"
definition MAX_SUBSCRIPTION_POLL_LIMIT :: nat where "MAX_SUBSCRIPTION_POLL_LIMIT = 1000"
definition DEFAULT_SUBSCRIPTION_POLLING_LOOP_CLAIM_DURATION :: nanos where
  "DEFAULT_SUBSCRIPTION_POLLING_LOOP_CLAIM_DURATION = 30 * 1000000000"

record 'v topic_event_envelope =
  envelope_published_at :: micros
  envelope_data :: 'v

record 'v topic_event =
  event_sequence :: int
  event_published_at :: micros
  event_data :: 'v

record ('v, 'c) topic =
  topic_key :: string
  event_ttl :: ttl
  sequence_item :: "(int, unit, 'c) item"
  event_prefix :: string
  event_item :: "('v topic_event_envelope, unit, 'c) item"
  topic_root_key :: string

record ('v, 'c) subscription =
  subscription_topic_key :: string
  subscription_key :: string
  poll_limit :: nat
  subscription_event_item :: "('v topic_event_envelope, unit, 'c) item"
  cursor_item :: "(int, unit, 'c) item"
  polling_mutex :: mutex
  polling_mutex_guard_config :: mutex_guard_config

definition new_topic ::
    "(int, unit, 'c) item \<Rightarrow> ('v topic_event_envelope, unit, 'c) item \<Rightarrow> string \<Rightarrow> string \<Rightarrow> ttl
     \<Rightarrow> 'c fleet_error + ('v, 'c) topic" where
  "new_topic base event_base root_key key ttl =
     result_bind (map_sum (\<lambda>e. FleetTopicError (FleetInvalidTopicKeyForSequence e)) id
       (build_topic_sequence_prefix root_key key)) (\<lambda>sequence_prefix.
     result_bind (map_sum (\<lambda>e. FleetTopicError (FleetInvalidTopicKeyForEvents e)) id
       (build_topic_events_prefix root_key key)) (\<lambda>events_prefix.
     Inr \<lparr>topic_key = key, event_ttl = ttl, sequence_item = item_new_plain base sequence_prefix,
       event_prefix = events_prefix, event_item = item_new_plain event_base events_prefix,
       topic_root_key = root_key\<rparr>))"

definition validate_subscription_poll_limit :: "nat \<Rightarrow> 'c fleet_error + unit" where
  "validate_subscription_poll_limit limit =
     (if limit = 0 \<or> limit > MAX_SUBSCRIPTION_POLL_LIMIT
      then Inl (FleetTopicError (FleetInvalidSubscriptionPollLimit limit MAX_SUBSCRIPTION_POLL_LIMIT)) else Inr ())"

definition default_mutex_guard_config :: mutex_guard_config where
  "default_mutex_guard_config = \<lparr>config_heartbeat_interval = None, config_acquire_retry_interval = None,
     config_max_acquire_retry_interval = None, config_max_consecutive_renewal_failures = None\<rparr>"

text \<open>The numbers of the cursor are those of the sequence; \<open>protocol\<close> is the one of the lease store.\<close>

definition subscribe ::
    "('v, 'c) topic \<Rightarrow> string \<Rightarrow> string \<Rightarrow> nat option \<Rightarrow> 'c fleet_error + ('v, 'c) subscription" where
  "subscribe tp protocol key limit =
     (let limit = option_unwrap_or limit DEFAULT_SUBSCRIPTION_POLL_LIMIT in
     result_bind (validate_subscription_poll_limit limit) (\<lambda>_.
     result_bind (map_sum (\<lambda>e. FleetTopicError (FleetInvalidSubscriptionKeyForCursor e)) id
       (build_subscription_cursor_prefix (topic_root_key tp) (topic_key tp) key)) (\<lambda>cursor_prefix.
     result_bind (map_sum (\<lambda>e. FleetTopicError (FleetInvalidSubscriptionKeyForPollingMutex e)) id
       (build_subscription_polling_mutex_lease_key (topic_root_key tp) (topic_key tp) key)) (\<lambda>lease_key.
     result_bind (map_sum FleetCoordination id (expires_after DEFAULT_SUBSCRIPTION_POLLING_LOOP_CLAIM_DURATION)) (\<lambda>duration.
     result_bind (resolve_for_claim_duration default_mutex_guard_config duration) (\<lambda>_.
     Inr \<lparr>subscription_topic_key = topic_key tp, subscription_key = key, poll_limit = limit,
       subscription_event_item = item_new_plain (event_item tp) (event_prefix tp),
       cursor_item = item_new_plain (sequence_item tp) cursor_prefix,
       polling_mutex = \<lparr>mutex_protocol = protocol, mutex_key = key, mutex_lease_key = lease_key,
         mutex_claim_duration = duration\<rparr>,
       polling_mutex_guard_config = default_mutex_guard_config\<rparr>))))))"

section \<open>Publishing\<close>

definition decide_publish ::
    "int item_atomic_live_current \<Rightarrow> 'c fleet_error + (int item_atomic_mutation \<times> (int \<times> micros))" where
  "decide_publish current =
     (case i64_checked_add (item_live current) 1 of
        None \<Rightarrow> Inl (FleetTopicError FleetTopicSequenceOverflow)
      | Some next \<Rightarrow> Inr (SetValue next NO_EXPIRATION, (next, item_live_timestamp current)))"

definition publish_in_current_transaction ::
    "('v, 'c) topic \<Rightarrow> atomic_env \<Rightarrow> micros \<Rightarrow> 'v \<Rightarrow> kv_table tx \<Rightarrow> ('c fleet_error + int) \<times> kv_table tx" where
  "publish_in_current_transaction tp aenv write_now event tx =
     do_then (item_mutate_live_or_insert_initial_value_atomically_in_current_transaction FleetKv (sequence_item tp) aenv
         [] (\<lambda>_. Inr (0, NO_EXPIRATION)) decide_publish tx)
       (\<lambda>(_, (s, published_at)) tx.
          case topic_sequence_key_suffix s of
            Inl e \<Rightarrow> (Inl e, tx)
          | Inr key_suffix \<Rightarrow>
              map_prod (map_sum FleetKv (\<lambda>_. s)) id
                (item_set_in_current_transaction (event_item tp) (atomic_protocol aenv) (atomic_reply aenv) write_now
                  [key_suffix] \<lparr>envelope_published_at = published_at, envelope_data = event\<rparr> (event_ttl tp) tx))"

definition publish ::
    "('v, 'c) topic \<Rightarrow> pool_env \<Rightarrow> atomic_env \<Rightarrow> micros \<Rightarrow> 'v \<Rightarrow> kv_table \<Rightarrow> ('c fleet_error + int) \<times> kv_table" where
  "publish tp env aenv write_now event t =
     fleet_pool_write ''fleet.topic.publish'' env
       (publish_in_current_transaction tp (aenv\<lparr>atomic_reply := env_reply env\<rparr>) write_now event) t"

definition sequence_or_zero :: "'c kv_error + int \<Rightarrow> 'c fleet_error + int" where
  "sequence_or_zero r =
     (case r of
        Inr s \<Rightarrow> result_bind (validate_non_negative_topic_sequence s) (\<lambda>_. Inr s)
      | Inl KvKeyNotFound \<Rightarrow> Inr 0
      | Inl e \<Rightarrow> Inl (FleetKv e))"

definition fetch_latest_sequence :: "('v, 'c) topic \<Rightarrow> string \<Rightarrow> pool_env \<Rightarrow> kv_table \<Rightarrow> 'c fleet_error + int" where
  "fetch_latest_sequence tp protocol env t = sequence_or_zero (item_get (sequence_item tp) protocol env [] t)"

definition fetch_latest_sequence_in_current_transaction ::
    "('v, 'c) topic \<Rightarrow> string \<Rightarrow> admission_reply \<Rightarrow> micros \<Rightarrow> kv_table tx \<Rightarrow> ('c fleet_error + int) \<times> kv_table tx" where
  "fetch_latest_sequence_in_current_transaction tp protocol reply now tx =
     map_prod sequence_or_zero id (item_get_in_current_transaction (sequence_item tp) protocol reply now [] tx)"

definition purge_retained_events_atomically ::
    "('v, 'c) topic \<Rightarrow> string \<Rightarrow> pool_env \<Rightarrow> admission_reply list \<Rightarrow> kv_table
     \<Rightarrow> (('c fleet_error + nat) \<times> kv_table) option" where
  "purge_retained_events_atomically tp protocol env replies t =
     map_option (map_prod (map_sum FleetKv id) id)
       (delete_entire_namespace_atomically (event_item tp) protocol env replies t)"

definition purge_retained_events_in_current_transaction ::
    "('v, 'c) topic \<Rightarrow> string \<Rightarrow> admission_reply list \<Rightarrow> kv_table tx
     \<Rightarrow> (('c fleet_error + nat) \<times> kv_table tx) option" where
  "purge_retained_events_in_current_transaction tp protocol replies tx =
     map_option (map_prod (map_sum FleetKv id) id)
       (delete_entire_namespace_in_current_transaction (event_item tp) protocol replies tx)"

section \<open>Reading\<close>

definition scanned_topic_events_to_public_events ::
    "'v topic_event_envelope item_scanned_value list \<Rightarrow> 'c fleet_error + 'v topic_event list" where
  "scanned_topic_events_to_public_events rows =
     collect_results (map (\<lambda>row. map_sum id (\<lambda>s. \<lparr>event_sequence = s,
         event_published_at = envelope_published_at (scanned_value row), event_data = envelope_data (scanned_value row)\<rparr>)
       (parse_topic_sequence_key_suffix (scanned_key_suffix row))) rows)"

definition fetch_events_after ::
    "('v, 'c) subscription \<Rightarrow> string \<Rightarrow> pool_env \<Rightarrow> int \<Rightarrow> kv_table \<Rightarrow> 'c fleet_error + 'v topic_event list" where
  "fetch_events_after sub protocol env after_sequence t =
     result_bind (validate_non_negative_topic_sequence after_sequence) (\<lambda>_.
     result_bind (topic_sequence_key_suffix after_sequence) (\<lambda>after_key_suffix.
     result_bind (map_sum FleetKv id
       (item_scan (subscription_event_item sub) protocol env (Some after_key_suffix) (poll_limit sub) t))
       scanned_topic_events_to_public_events))"

definition fetch_events_after_in_current_transaction ::
    "('v, 'c) subscription \<Rightarrow> string \<Rightarrow> admission_reply \<Rightarrow> micros \<Rightarrow> int \<Rightarrow> kv_table tx
     \<Rightarrow> ('c fleet_error + 'v topic_event list) \<times> kv_table tx" where
  "fetch_events_after_in_current_transaction sub protocol reply now after_sequence tx =
     (case result_bind (validate_non_negative_topic_sequence after_sequence)
         (\<lambda>_. topic_sequence_key_suffix after_sequence) of
        Inl e \<Rightarrow> (Inl e, tx)
      | Inr after_key_suffix \<Rightarrow>
          do_then (map_prod (map_sum FleetKv id) id
            (item_scan_in_current_transaction (subscription_event_item sub) protocol reply now (Some after_key_suffix)
              (poll_limit sub) tx))
            (\<lambda>rows tx. (scanned_topic_events_to_public_events rows, tx)))"

section \<open>Cursors\<close>

definition fetch_cursor :: "('v, 'c) subscription \<Rightarrow> string \<Rightarrow> pool_env \<Rightarrow> kv_table \<Rightarrow> 'c fleet_error + int" where
  "fetch_cursor sub protocol env t = sequence_or_zero (item_get (cursor_item sub) protocol env [] t)"

definition fetch_cursor_in_current_transaction ::
    "('v, 'c) subscription \<Rightarrow> string \<Rightarrow> admission_reply \<Rightarrow> micros \<Rightarrow> kv_table tx
     \<Rightarrow> ('c fleet_error + int) \<times> kv_table tx" where
  "fetch_cursor_in_current_transaction sub protocol reply now tx =
     map_prod sequence_or_zero id (item_get_in_current_transaction (cursor_item sub) protocol reply now [] tx)"

definition set_cursor ::
    "('v, 'c) subscription \<Rightarrow> string \<Rightarrow> pool_env \<Rightarrow> int \<Rightarrow> kv_table \<Rightarrow> ('c fleet_error + unit) \<times> kv_table" where
  "set_cursor sub protocol env s t =
     (case validate_non_negative_topic_sequence s of
        Inl e \<Rightarrow> (Inl e, t)
      | Inr _ \<Rightarrow> map_prod (map_sum FleetKv id) id (item_set (cursor_item sub) protocol env [] s NO_EXPIRATION t))"

definition set_cursor_in_current_transaction ::
    "('v, 'c) subscription \<Rightarrow> string \<Rightarrow> admission_reply \<Rightarrow> micros \<Rightarrow> int \<Rightarrow> kv_table tx
     \<Rightarrow> ('c fleet_error + unit) \<times> kv_table tx" where
  "set_cursor_in_current_transaction sub protocol reply now s tx =
     (case validate_non_negative_topic_sequence s of
        Inl e \<Rightarrow> (Inl e, tx)
      | Inr _ \<Rightarrow> map_prod (map_sum FleetKv id) id
          (item_set_in_current_transaction (cursor_item sub) protocol reply now [] s NO_EXPIRATION tx))"

definition absent_is_unit :: "'c kv_error + unit \<Rightarrow> 'c fleet_error + unit" where
  "absent_is_unit r = (case r of Inr _ \<Rightarrow> Inr () | Inl KvKeyNotFound \<Rightarrow> Inr () | Inl e \<Rightarrow> Inl (FleetKv e))"

definition delete_cursor ::
    "('v, 'c) subscription \<Rightarrow> string \<Rightarrow> pool_env \<Rightarrow> kv_table \<Rightarrow> ('c fleet_error + unit) \<times> kv_table" where
  "delete_cursor sub protocol env t = map_prod absent_is_unit id (item_delete (cursor_item sub) protocol env [] t)"

definition delete_cursor_in_current_transaction ::
    "('v, 'c) subscription \<Rightarrow> string \<Rightarrow> admission_reply \<Rightarrow> micros \<Rightarrow> kv_table tx \<Rightarrow> ('c fleet_error + unit) \<times> kv_table tx" where
  "delete_cursor_in_current_transaction sub protocol reply now tx =
     map_prod absent_is_unit id (item_delete_in_current_transaction (cursor_item sub) protocol reply now [] tx)"

definition decide_advance_cursor ::
    "int \<Rightarrow> int item_atomic_live_current \<Rightarrow> 'c fleet_error + (int item_atomic_mutation \<times> unit)" where
  "decide_advance_cursor s current =
     result_bind (validate_non_negative_topic_sequence (item_live current)) (\<lambda>_.
       if item_live current \<ge> s then Inr (KeepExistingItem, ()) else Inr (SetValue s NO_EXPIRATION, ()))"

definition advance_cursor_if_needed_in_current_transaction ::
    "('v, 'c) subscription \<Rightarrow> atomic_env \<Rightarrow> int \<Rightarrow> kv_table tx \<Rightarrow> ('c fleet_error + unit) \<times> kv_table tx" where
  "advance_cursor_if_needed_in_current_transaction sub aenv s tx =
     (case validate_non_negative_topic_sequence s of
        Inl e \<Rightarrow> (Inl e, tx)
      | Inr _ \<Rightarrow> map_prod (map_sum id (\<lambda>_. ())) id
          (item_mutate_live_or_insert_initial_value_atomically_in_current_transaction FleetKv (cursor_item sub) aenv []
            (\<lambda>_. Inr (s, NO_EXPIRATION)) (decide_advance_cursor s) tx))"

definition advance_cursor_if_needed ::
    "('v, 'c) subscription \<Rightarrow> pool_env \<Rightarrow> atomic_env \<Rightarrow> int \<Rightarrow> kv_table \<Rightarrow> ('c fleet_error + unit) \<times> kv_table" where
  "advance_cursor_if_needed sub env aenv s t =
     fleet_pool_write ''fleet.topic.advance_cursor'' env
       (advance_cursor_if_needed_in_current_transaction sub (aenv\<lparr>atomic_reply := env_reply env\<rparr>) s) t"

definition read_new_events_and_advance_cursor_in_current_transaction ::
    "('v, 'c) subscription \<Rightarrow> micros \<Rightarrow> micros \<Rightarrow> atomic_env \<Rightarrow> kv_table tx
     \<Rightarrow> ('c fleet_error + 'v topic_event list) \<times> kv_table tx" where
  "read_new_events_and_advance_cursor_in_current_transaction sub cursor_now scan_now aenv tx =
     do_then (fetch_cursor_in_current_transaction sub (atomic_protocol aenv) (atomic_reply aenv) cursor_now tx)
       (\<lambda>cursor tx. do_then (fetch_events_after_in_current_transaction sub (atomic_protocol aenv) (atomic_reply aenv)
           scan_now cursor tx)
         (\<lambda>events tx. if events = [] then (Inr events, tx)
            else do_then (advance_cursor_if_needed_in_current_transaction sub aenv (event_sequence (last events)) tx)
              (\<lambda>_ tx. (Inr events, tx))))"

definition read_new_events_and_advance_cursor ::
    "('v, 'c) subscription \<Rightarrow> pool_env \<Rightarrow> micros \<Rightarrow> atomic_env \<Rightarrow> kv_table
     \<Rightarrow> ('c fleet_error + 'v topic_event list) \<times> kv_table" where
  "read_new_events_and_advance_cursor sub env scan_now aenv t =
     fleet_pool_write ''fleet.topic.read_new_events_and_advance_cursor'' env
       (read_new_events_and_advance_cursor_in_current_transaction sub (env_now env) scan_now
         (aenv\<lparr>atomic_reply := env_reply env\<rparr>)) t"

end
