(* ===== verification/TopicDelivery.thy ===== *)
theory TopicDelivery
  imports Topic
begin

text \<open>
  What a topic and its subscriptions guarantee: publications are numbered without a gap, and a
  subscription that reads and advances its cursor gets every retained event once, in order.
\<close>

section \<open>Keys of the rows\<close>

definition sequence_digits :: "int \<Rightarrow> string" where
  "sequence_digits s = replicate (20 - length (decimal_text (nat s))) (CHR ''0'') @ decimal_text (nat s)"

lemma sequence_digits_suffix: "0 \<le> s \<Longrightarrow> topic_sequence_key_suffix s = Inr (sequence_digits s)"
  by (simp add: topic_sequence_key_suffix_def validate_non_negative_topic_sequence_def result_bind_def Let_def
      sequence_digits_def)

lemma sequence_digits_parse:
  assumes "0 \<le> s" "s \<le> i64_max"
  shows "parse_topic_sequence_key_suffix (sequence_digits s) = (Inr s :: 'c fleet_error + int)"
  using sequence_text [OF assms sequence_digits_suffix [OF assms(1), where 'a = 'c]] assms(2)
  by (simp add: parse_topic_sequence_key_suffix_def)

lemma sequence_digits_less:
  assumes "0 \<le> s" "s \<le> i64_max" "0 \<le> s'" "s' \<le> i64_max"
  shows "sequence_digits s < sequence_digits s' \<longleftrightarrow> s < s'"
proof -
  note a = sequence_text [OF assms(1,2) sequence_digits_suffix [OF assms(1)]]
    and b = sequence_text [OF assms(3,4) sequence_digits_suffix [OF assms(3)]]
  have "sequence_digits s < sequence_digits s' \<longleftrightarrow> digits_value (sequence_digits s) < digits_value (sequence_digits s')"
    using digits_order [of "sequence_digits s" "sequence_digits s'"] a b by simp
  then show ?thesis using a(3) b(3) of_nat_less_iff by metis
qed

definition event_row_key :: "('v, 'c) topic \<Rightarrow> int \<Rightarrow> string" where
  "event_row_key tp s = event_prefix tp @ sequence_digits s @ ''::''"

lemma append_less: "xs @ ys < xs @ zs \<longleftrightarrow> ys < (zs :: string)"
  by (induction xs) simp_all

lemma less_append_same_length: "length ys = length zs \<Longrightarrow> ys @ us < zs @ us \<longleftrightarrow> ys < (zs :: string)"
  by (induction ys zs rule: list_induct2) auto

lemma event_row_key_less:
  assumes "0 \<le> s" "s \<le> i64_max" "0 \<le> s'" "s' \<le> i64_max"
  shows "event_row_key tp s < event_row_key tp s' \<longleftrightarrow> s < s'"
proof -
  have "length (sequence_digits s) = length (sequence_digits s')"
    using sequence_text(1) [OF assms(1,2) sequence_digits_suffix [OF assms(1)]]
      sequence_text(1) [OF assms(3,4) sequence_digits_suffix [OF assms(3)]] by simp
  then show ?thesis
    using less_append_same_length [of "sequence_digits s" "sequence_digits s'" "''::''"]
      append_less [of "event_prefix tp"] sequence_digits_less [OF assms] by (simp add: event_row_key_def)
qed

lemma item_key_one_part:
  "item_key_is it [s] k \<Longrightarrow> k = item_prefix it @ s @ ''::''"
  by (auto simp: item_key_is_def item_key_from_parts_def kv_build_key_from_prefix_and_parts_def KV_KEY_SEPARATOR_def
      result_bind_eq_Inr_iff Let_def)

lemma item_key_no_part: "item_key_is it [] k \<Longrightarrow> k = item_prefix it"
  by (auto simp: item_key_is_def item_key_from_parts_def kv_build_key_from_prefix_and_parts_def result_bind_eq_Inr_iff Let_def)

text \<open>A topic of \<open>new_topic\<close> whose serializers read back what they wrote, and a subscription of it.\<close>

definition made_topic :: "('v, 'c) topic \<Rightarrow> ('v, 'c) subscription \<Rightarrow> bool" where
  "made_topic tp sub \<longleftrightarrow>
     faithful (sequence_item tp) \<and> item_codec (sequence_item tp) = Plain
     \<and> faithful (event_item tp) \<and> item_codec (event_item tp) = Plain \<and> item_prefix (event_item tp) = event_prefix tp
     \<and> subscription_event_item sub = event_item tp
     \<and> faithful (cursor_item sub) \<and> item_codec (cursor_item sub) = Plain
     \<and> \<not> prefix (event_prefix tp) (item_prefix (sequence_item tp))
     \<and> \<not> prefix (event_prefix tp) (item_prefix (cursor_item sub))
     \<and> item_prefix (sequence_item tp) \<noteq> item_prefix (cursor_item sub)
     \<and> 0 < poll_limit sub \<and> poll_limit sub \<le> MAX_KV_SCAN_LIMIT"

lemma item_new_plain_again: "item_new_plain (item_new_plain base p) q = item_new_plain base q"
  by (simp add: item_new_plain_def)

lemma subscribed_topic_made:
  fixes tp :: "('v, 'c) topic"
  assumes tp: "new_topic base event_base root_key key ttl = Inr tp" and base: "faithful base" "faithful event_base"
    and sub: "subscribe tp protocol sub_key limit = Inr sub"
  shows "made_topic tp sub"
proof -
  obtain sp ep where sp: "build_topic_sequence_prefix root_key key = (Inr sp :: 'c kv_error + string)"
    and ep: "build_topic_events_prefix root_key key = (Inr ep :: 'c kv_error + string)"
    and t: "tp = \<lparr>topic_key = key, event_ttl = ttl, sequence_item = item_new_plain base sp,
      event_prefix = ep, event_item = item_new_plain event_base ep, topic_root_key = root_key\<rparr>"
    using tp
    by (cases "build_topic_sequence_prefix root_key key :: 'c kv_error + string";
        cases "build_topic_events_prefix root_key key :: 'c kv_error + string") (auto simp: new_topic_def result_bind_def)
  obtain cp where cp: "build_subscription_cursor_prefix root_key key sub_key = (Inr cp :: 'c kv_error + string)"
    and s: "subscription_event_item sub = event_item tp" "cursor_item sub = item_new_plain base cp"
      "0 < poll_limit sub" "poll_limit sub \<le> MAX_SUBSCRIPTION_POLL_LIMIT"
    using sub by (auto simp: subscribe_def t result_bind_eq_Inr_iff map_sum_eq_Inr_iff item_new_plain_again Let_def
        validate_subscription_poll_limit_def split: if_splits)
  note parts = kv_key_of_parts [OF sp [unfolded build_topic_sequence_prefix_def]]
    kv_key_of_parts [OF ep [unfolded build_topic_events_prefix_def]]
    kv_key_of_parts [OF cp [unfolded build_subscription_cursor_prefix_def]]
  have "\<not> prefix ep sp" "\<not> prefix ep cp" "sp \<noteq> cp"
    using parts by (simp_all add: KV_KEY_SEPARATOR_def terminated_join_prefix_iff terminated_join_inject component_key_defs
        del: terminated_join_simps)
  then show ?thesis using s base
    by (simp add: made_topic_def t MAX_SUBSCRIPTION_POLL_LIMIT_def MAX_KV_SCAN_LIMIT_def)
qed

section \<open>Publications\<close>

definition number_at :: "(int, unit, 'c) item \<Rightarrow> int \<Rightarrow> kv_table \<Rightarrow> bool" where
  "number_at it v t \<longleftrightarrow> (\<exists>key x. item_key_is it [] key \<and> lasting_option it key x t
     \<and> v = (case x of None \<Rightarrow> 0 | Some w \<Rightarrow> w))"

text \<open>
  The table holds some of the events \<open>pub\<close> of a topic, each under its number, counted from 1; the rest has
  expired or been purged.
\<close>

definition event_rows :: "('v, 'c) topic \<Rightarrow> 'v list \<Rightarrow> kv_table \<Rightarrow> bool" where
  "event_rows tp pub t \<longleftrightarrow> (\<forall>k r. prefix (event_prefix tp) k \<longrightarrow> t k = Some r \<longrightarrow>
     (\<exists>i env. i < length pub \<and> k = event_row_key tp (int i + 1)
       \<and> decode_value_for_key (event_item tp) k (kv_value r) = (Inr env :: 'c kv_error + _) \<and> envelope_data env = pub ! i))"

definition published :: "('v, 'c) topic \<Rightarrow> 'v list \<Rightarrow> kv_table \<Rightarrow> bool" where
  "published tp pub t \<longleftrightarrow> int (length pub) \<le> i64_max \<and> number_at (sequence_item tp) (int (length pub)) t
     \<and> event_rows tp pub t"

lemma number_at_row: "t' (item_prefix it) = t (item_prefix it) \<Longrightarrow> number_at it v t' = number_at it v t"
  unfolding number_at_def by (metis item_key_no_part lasting_option_row)

lemma event_rows_keep:
  assumes "event_rows tp pub t" and "\<forall>k. prefix (event_prefix tp) k \<longrightarrow> t' k = t k \<or> t' k = None"
  shows "event_rows tp pub t'"
  using assms unfolding event_rows_def by (metis option.distinct(1))

lemma event_rows_snoc:
  fixes tp :: "('v, 'c) topic"
  assumes rows: "event_rows tp pub t" and new: "\<forall>k. k \<noteq> event_row_key tp (int (length pub) + 1) \<longrightarrow> prefix (event_prefix tp) k \<longrightarrow> t' k = t k"
    and row: "t' (event_row_key tp (int (length pub) + 1)) = Some r"
      "decode_value_for_key (event_item tp) (event_row_key tp (int (length pub) + 1)) (kv_value r) = (Inr env :: 'c kv_error + _)"
      "envelope_data env = event"
  shows "event_rows tp (pub @ [event]) t'"
  unfolding event_rows_def
proof (intro allI impI)
  fix k r'
  assume k: "prefix (event_prefix tp) k" "t' k = Some r'"
  show "\<exists>i env. i < length (pub @ [event]) \<and> k = event_row_key tp (int i + 1)
    \<and> decode_value_for_key (event_item tp) k (kv_value r') = (Inr env :: 'c kv_error + _) \<and> envelope_data env = (pub @ [event]) ! i"
  proof (cases "k = event_row_key tp (int (length pub) + 1)")
    case True
    then show ?thesis using row k by (intro exI [of _ "length pub"] exI [of _ env]) auto
  next
    case False
    then obtain i e where "i < length pub" "k = event_row_key tp (int i + 1)"
      "decode_value_for_key (event_item tp) k (kv_value r') = (Inr e :: 'c kv_error + _)" "envelope_data e = pub ! i"
      using rows new k unfolding event_rows_def by metis
    then show ?thesis by (intro exI [of _ i] exI [of _ e]) (auto simp: nth_append)
  qed
qed

lemma writes_lasting_publish: "writes_lasting decide_publish"
  by (auto simp: writes_lasting_def decide_publish_def split: option.splits)

lemma item_set_row:
  fixes it :: "('v, 'k, 'c) item"
  assumes faith: "faithful it"
    and run: "item_set_in_current_transaction it p reply now parts v ttl tx = (Inr () :: 'c kv_error + unit, tx')"
  obtains key bs where "item_key_is it parts key" and "decode_value_for_key it key bs = (Inr v :: 'c kv_error + 'v)"
    and "tables tx' = (tables tx)(key \<mapsto> \<lparr>kv_value = bs,
      kv_expires_at = map_option (\<lambda>d. now + ttl_micros d) (ttl_duration ttl), kv_updated_at = now\<rparr>)"
proof -
  obtain key bs where key: "item_key_from_parts it parts = (Inr key :: 'c kv_error + string)"
    and bs: "encode_value_for_key it key v = (Inr bs :: 'c kv_error + bytes)"
    and set: "set_bytes_in_current_transaction p reply now key bs ttl tx = (Inr () :: 'c kv_error + unit, tx')"
    using run by (auto simp: item_set_in_current_transaction_def with_key_and_value_def with_key_def split: sum.splits)
  show ?thesis
    by (rule that [of key bs]) (use key slot_set_row [OF set] encoded_value_decodes [OF faith bs] in \<open>simp_all add: item_key_is_def\<close>)
qed

text \<open>A publication fails and leaves the table, or takes the next number and stores the event under it.\<close>

lemma publish_effect:
  fixes tp :: "('v, 'c) topic"
  assumes made: "made_topic tp sub" and before: "published tp pub t"
    and run: "publish tp env aenv write_now event t = (r, t')"
  shows "(\<exists>e. r = Inl e) \<and> t' = t
    \<or> published tp (pub @ [event]) t' \<and> (is_ok r \<longrightarrow> r = Inr (int (length pub) + 1))
      \<and> (\<forall>k. k \<noteq> item_prefix (sequence_item tp) \<longrightarrow> k \<noteq> event_row_key tp (int (length pub) + 1) \<longrightarrow> t' k = t k)"
  using run unfolding publish_def
proof (cases rule: fleet_pool_write_answer)
  case (written s tx')
  let ?aenv = "aenv\<lparr>atomic_reply := env_reply env\<rparr>"
  have made': "faithful (sequence_item tp)" "faithful (event_item tp)" "item_prefix (event_item tp) = event_prefix tp"
    "\<not> prefix (event_prefix tp) (item_prefix (sequence_item tp))" using made by (simp_all add: made_topic_def)
  obtain res published_at tx1 w1 where
    mut: "mutate_live_or_init_item_in_transaction_internal FleetKv (sequence_item tp) ?aenv [] (\<lambda>_. Inr (0, NO_EXPIRATION))
      decide_publish True (begin_transaction t) = (Inr (res, (s, published_at)), tx1)"
    and w1: "topic_sequence_key_suffix s = (Inr w1 :: 'c fleet_error + string)"
    and set: "item_set_in_current_transaction (event_item tp) (atomic_protocol ?aenv) (atomic_reply ?aenv) write_now [w1]
      \<lparr>envelope_published_at = published_at, envelope_data = event\<rparr> (event_ttl tp) tx1 = (Inr (), tx')"
    using written(1) by (auto simp: publish_in_current_transaction_def do_then_def map_prod_def map_sum_eq_Inr_iff
        item_mutate_live_or_insert_initial_value_atomically_in_current_transaction_def
        split: prod.splits sum.splits)
  have before': "int (length pub) \<le> i64_max" "number_at (sequence_item tp) (int (length pub)) t" "event_rows tp pub t"
    using before by (simp_all add: published_def)
  obtain key x where key: "item_key_is (sequence_item tp) [] key"
    and x: "lasting_option (sequence_item tp) key x t" and v: "int (length pub) = (case x of None \<Rightarrow> 0 | Some w \<Rightarrow> w)"
    using before'(2) by (auto simp: number_at_def)
  have key': "key = item_prefix (sequence_item tp)" using key by (rule item_key_no_part)
  have x': "lasting_option (sequence_item tp) key x (tables (begin_transaction t))" using x by (simp add: begin_transaction_def)
  obtain n m where d: "decide_publish \<lparr>item_live = int (length pub), item_live_timestamp = n\<rparr>
      = (Inr (m, (s, published_at)) :: 'c fleet_error + _)"
    and last: "lasting (sequence_item tp) key (case m of SetValue w _ \<Rightarrow> w | _ \<Rightarrow> int (length pub)) (tables tx1)"
    and others: "\<And>k. k \<noteq> key \<Longrightarrow> tables tx1 k = t k"
    using lasting_live_or_init [OF made'(1) writes_lasting_publish key mut x'] v
    by (metis begin_tables)
  have s: "s = int (length pub) + 1" "s \<le> i64_max" "m = SetValue s NO_EXPIRATION"
    using d by (auto simp: decide_publish_def i64_checked_add_def split: option.splits if_splits)
  have w1': "w1 = sequence_digits s" using w1 sequence_digits_suffix [of s, where 'a = 'c] s(1) by simp
  obtain k bs where k: "item_key_is (event_item tp) [w1] k"
    and bs: "decode_value_for_key (event_item tp) k bs
      = (Inr \<lparr>envelope_published_at = published_at, envelope_data = event\<rparr> :: 'c kv_error + _)"
    and tab: "tables tx' = (tables tx1)(k \<mapsto> \<lparr>kv_value = bs,
      kv_expires_at = map_option (\<lambda>d. write_now + ttl_micros d) (ttl_duration (event_ttl tp)), kv_updated_at = write_now\<rparr>)"
    using item_set_row [OF made'(2) set] by blast
  have k': "k = event_row_key tp s"
    using item_key_one_part [OF k] w1' made'(3) by (simp add: event_row_key_def)
  have apart: "k \<noteq> key" using made'(4) unfolding k' key' event_row_key_def by (metis prefixI)
  have t': "t' = tables tx'" by (rule written(2))
  have "lasting (sequence_item tp) key s t'"
    using last apart s(3) unfolding t' tab by (simp add: lasting_def)
  then have num: "number_at (sequence_item tp) (int (length (pub @ [event]))) t'"
    using key s(1) unfolding number_at_def by (intro exI [of _ key] exI [of _ "Some s"]) simp
  have rows: "event_rows tp (pub @ [event]) t'"
  proof (rule event_rows_snoc [OF before'(3), where r = "\<lparr>kv_value = bs, kv_expires_at = map_option (\<lambda>d. write_now + ttl_micros d)
      (ttl_duration (event_ttl tp)), kv_updated_at = write_now\<rparr>" and env = "\<lparr>envelope_published_at = published_at, envelope_data = event\<rparr>"])
    show "\<forall>k. k \<noteq> event_row_key tp (int (length pub) + 1) \<longrightarrow> prefix (event_prefix tp) k \<longrightarrow> t' k = t k"
      using others made'(4) key' k' s(1) unfolding t' tab by auto
  qed (use k' s(1) bs in \<open>simp_all add: t' tab\<close>)
  have "is_ok r \<longrightarrow> r = Inr (int (length pub) + 1)" using written(3) s(1) by (auto simp: is_ok_def)
  moreover have "\<forall>k. k \<noteq> item_prefix (sequence_item tp) \<longrightarrow> k \<noteq> event_row_key tp (int (length pub) + 1) \<longrightarrow> t' k = t k"
    using others key' k' s(1) unfolding t' tab by auto
  ultimately show ?thesis using num rows s by (simp add: published_def)
qed auto

section \<open>Reads\<close>

definition live_sequences :: "('v, 'c) topic \<Rightarrow> micros \<Rightarrow> nat \<Rightarrow> kv_table \<Rightarrow> int list" where
  "live_sequences tp now n t = filter (\<lambda>s. live_row now t (event_row_key tp s) \<noteq> None) [1..int n]"

definition stored_envelope :: "('v, 'c) topic \<Rightarrow> kv_table \<Rightarrow> int \<Rightarrow> 'v topic_event_envelope" where
  "stored_envelope tp t s = projr (decode_value_for_key (event_item tp) (event_row_key tp s)
     (kv_value (the (t (event_row_key tp s)))))"

definition stored_event :: "('v, 'c) topic \<Rightarrow> kv_table \<Rightarrow> int \<Rightarrow> 'v topic_event" where
  "stored_event tp t s = \<lparr>event_sequence = s, event_published_at = envelope_published_at (stored_envelope tp t s),
     event_data = envelope_data (stored_envelope tp t s)\<rparr>"

text \<open>The next page of a subscription whose cursor is \<open>c\<close>.\<close>

definition next_sequences :: "('v, 'c) topic \<Rightarrow> nat \<Rightarrow> micros \<Rightarrow> nat \<Rightarrow> kv_table \<Rightarrow> int \<Rightarrow> int list" where
  "next_sequences tp limit now n t c = take limit (filter (\<lambda>s. c < s) (live_sequences tp now n t))"

lemma live_sequences_set: "s \<in> set (live_sequences tp now n t) \<longleftrightarrow> 1 \<le> s \<and> s \<le> int n \<and> live_row now t (event_row_key tp s) \<noteq> None"
  by (auto simp: live_sequences_def)

lemma sorted_sequences: "sorted_wrt (<) (live_sequences tp now n t)" "sorted_wrt (<) (next_sequences tp limit now n t c)"
proof -
  have "sorted_wrt (<) [1..int n]" by simp
  then show "sorted_wrt (<) (live_sequences tp now n t)" unfolding live_sequences_def by (rule sorted_wrt_filter)
  then show "sorted_wrt (<) (next_sequences tp limit now n t c)"
    unfolding next_sequences_def by (intro sorted_wrt_take sorted_wrt_filter)
qed

lemma event_row_key_inject:
  assumes "0 \<le> s" "s \<le> i64_max" "0 \<le> s'" "s' \<le> i64_max" and "event_row_key tp s = event_row_key tp s'"
  shows "s = s'"
  using event_row_key_less [OF assms(1-4), of tp] event_row_key_less [OF assms(3,4,1,2), of tp] assms(5)
  by (metis less_irrefl linorder_neqE_linordered_idom)

lemma stored_envelope_row:
  fixes tp :: "('v, 'c) topic"
  assumes rows: "event_rows tp pub t" and len: "int (length pub) \<le> i64_max" and s: "1 \<le> s" "s \<le> int (length pub)"
    and row: "t (event_row_key tp s) = Some r"
  shows "decode_value_for_key (event_item tp) (event_row_key tp s) (kv_value r) = (Inr (stored_envelope tp t s) :: 'c kv_error + _)"
    and "envelope_data (stored_envelope tp t s) = pub ! (nat s - 1)"
proof -
  have "prefix (event_prefix tp) (event_row_key tp s)" by (simp add: event_row_key_def)
  then obtain i env where i: "i < length pub" "event_row_key tp s = event_row_key tp (int i + 1)"
    and env: "decode_value_for_key (event_item tp) (event_row_key tp s) (kv_value r) = (Inr env :: 'c kv_error + _)"
      "envelope_data env = pub ! i"
    using rows row unfolding event_rows_def by blast
  have "s = int i + 1" by (rule event_row_key_inject [OF _ _ _ _ i(2)]) (use s len i(1) in simp_all)
  then have "i = nat s - 1" by simp
  moreover have "stored_envelope tp t s = env" by (simp add: stored_envelope_def row env(1))
  ultimately show "decode_value_for_key (event_item tp) (event_row_key tp s) (kv_value r) = (Inr (stored_envelope tp t s) :: 'c kv_error + _)"
    "envelope_data (stored_envelope tp t s) = pub ! (nat s - 1)" using env by simp_all
qed

lemma scan_events:
  assumes rows: "event_rows tp pub t" and len: "int (length pub) \<le> i64_max" and c: "0 \<le> c" "c \<le> i64_max"
  shows "scan_keys_with_prefix_statement now (prefix_like_pattern (event_prefix tp)) (event_row_key tp c) limit t
    = map (event_row_key tp) (next_sequences tp limit now (length pub) t c)"
proof -
  let ?ss = "filter (\<lambda>s. c < s) (live_sequences tp now (length pub) t)"
  let ?A = "{k \<in> dom t. like_match (prefix_like_pattern (event_prefix tp)) k \<and> k > event_row_key tp c \<and> live_row now t k \<noteq> None}"
  have ss: "1 \<le> s \<and> s \<le> int (length pub) \<and> c < s \<and> live_row now t (event_row_key tp s) \<noteq> None \<longleftrightarrow> s \<in> set ?ss" for s
    by (auto simp: live_sequences_set)
  have less: "event_row_key tp s < event_row_key tp s'" if "s \<in> set ?ss" "s' \<in> set ?ss" "s < s'" for s s'
    using that ss [of s] ss [of s'] len by (subst event_row_key_less) auto
  have after: "event_row_key tp c < event_row_key tp s \<longleftrightarrow> c < s" if "1 \<le> s" "s \<le> int (length pub)" for s
    by (rule event_row_key_less) (use that len c in simp_all)
  have "?A = event_row_key tp ` set ?ss"
  proof (intro equalityI subsetI)
    fix k assume k: "k \<in> ?A"
    then obtain r where "prefix (event_prefix tp) k" "t k = Some r" by auto
    then obtain i where i: "i < length pub" "k = event_row_key tp (int i + 1)" using rows unfolding event_rows_def by blast
    then have "int i + 1 \<in> set ?ss" using k after [of "int i + 1"] ss [of "int i + 1"] by auto
    then show "k \<in> event_row_key tp ` set ?ss" using i(2) by blast
  next
    fix k assume "k \<in> event_row_key tp ` set ?ss"
    then obtain s where s: "s \<in> set ?ss" "k = event_row_key tp s" by blast
    then show "k \<in> ?A" using ss [of s] after [of s] by (auto simp: event_row_key_def live_row_def split: option.splits)
  qed
  then have A: "?A = set (map (event_row_key tp) ?ss)" by simp
  have "sorted_wrt (<) ?ss" using sorted_sequences(1) by (rule sorted_wrt_filter)
  then have "sorted_wrt (\<lambda>s s'. event_row_key tp s < event_row_key tp s') ?ss"
    by (rule sorted_wrt_mono_rel [rotated]) (rule less)
  then have "sorted_wrt (<) (map (event_row_key tp) ?ss)" by (simp add: sorted_wrt_map)
  then have "sorted_list_of_set ?A = map (event_row_key tp) ?ss"
    unfolding A by (intro sorted_list_of_set.idem_if_sorted_distinct) (simp_all add: strict_sorted_iff)
  then show ?thesis by (simp add: scan_keys_with_prefix_statement_def next_sequences_def take_map)
qed

lemma suffix_of_event: "item_prefix it = event_prefix tp \<Longrightarrow> suffix_from_key it (event_row_key tp s) = sequence_digits s"
  by (simp add: suffix_from_key_def strip_prefix_or_empty_def strip_suffix_or_empty_def event_row_key_def KV_KEY_SEPARATOR_def
      suffix_def)

text \<open>What the rows of a scan decode to: the next page of the subscription.\<close>

lemma page_effect:
  fixes tp :: "('v, 'c) topic"
  assumes made: "made_topic tp sub" and pub: "published tp pub t" and c: "0 \<le> c" "c \<le> i64_max"
    and after: "after_key_from_optional_suffix (event_item tp) (Some (sequence_digits c)) = (Inr after :: 'c kv_error + _)"
    and scan: "scan_bytes_with_prefix_with_executor now (event_prefix tp) after limit t = (Inr rows :: 'c kv_error + _)"
    and scanned: "decode_scanned_rows (event_item tp) rows = (Inr scanned :: 'c kv_error + _)"
    and events: "scanned_topic_events_to_public_events scanned = (Inr events :: 'c fleet_error + _)"
  shows "events = map (stored_event tp t) (next_sequences tp limit now (length pub) t c)"
proof -
  let ?it = "event_item tp" and ?t = t
  let ?ns = "next_sequences tp limit now (length pub) ?t c"
  have made': "item_codec ?it = Plain" "item_prefix ?it = event_prefix tp"
    using made by (simp_all add: made_topic_def)
  have pub': "event_rows tp pub ?t" "int (length pub) \<le> i64_max" using pub by (simp_all add: published_def)
  have after': "after = Some (event_row_key tp c)"
    using after sequence_text(1) [OF c sequence_digits_suffix [OF c(1), where 'a = 'c]] made'(2)
    by (auto simp: after_key_from_optional_suffix_def kv_key_from_prefix_and_raw_suffix_def result_bind_eq_Inr_iff
        map_sum_eq_Inr_iff event_row_key_def KV_KEY_SEPARATOR_def split: if_splits)
  have rows: "rows = map (\<lambda>s. (event_row_key tp s, kv_value (the (?t (event_row_key tp s))))) ?ns"
    using scan scan_events [OF pub' c] unfolding after'
    by (auto simp: scan_bytes_with_prefix_with_executor_def result_bind_eq_Inr_iff scan_after_key_text_def
        scan_bytes_with_prefix_statement_def split: if_splits)
  have ns: "1 \<le> s" "s \<le> int (length pub)" "?t (event_row_key tp s) \<noteq> None" if "s \<in> set ?ns" for s
    using that live_sequences_set [of s tp now "length pub" ?t]
    by (auto simp: next_sequences_def live_row_def split: option.splits dest!: in_set_takeD)
  let ?scanned = "\<lambda>s. \<lparr>scanned_key_suffix = sequence_digits s, scanned_value = stored_envelope tp ?t s\<rparr>"
  have decoded: "decode_plain_value ?it (kv_value (the (?t (event_row_key tp s)))) = (Inr (stored_envelope tp ?t s) :: 'c kv_error + _)"
    if s: "s \<in> set ?ns" for s
  proof -
    obtain r where "?t (event_row_key tp s) = Some r" using ns(3) [OF s] by blast
    then show ?thesis using stored_envelope_row(1) [OF pub' ns(1,2) [OF s]] made'(1)
      by (simp add: decode_value_for_key_def with_codec_def)
  qed
  have "decode_scanned_rows ?it rows = (Inr (map ?scanned ?ns) :: 'c kv_error + _)"
  proof (cases "?ns = []")
    case False
    have "collect_results (map (\<lambda>s. map_sum id (\<lambda>v. \<lparr>scanned_key_suffix = suffix_from_key ?it (event_row_key tp s), scanned_value = v\<rparr>)
        (decode_plain_value ?it (kv_value (the (?t (event_row_key tp s)))))) ?ns) = (Inr (map ?scanned ?ns) :: 'c kv_error + _)"
      by (rule collect_results_all) (simp add: decoded suffix_of_event [OF made'(2)])
    then show ?thesis using False made'(1) by (simp add: decode_scanned_rows_def rows with_codec_def comp_def)
  qed (simp add: decode_scanned_rows_def rows)
  then have "scanned = map ?scanned ?ns" using scanned by simp
  moreover have "scanned_topic_events_to_public_events (map ?scanned ?ns)
      = (Inr (map (stored_event tp ?t) ?ns) :: 'c fleet_error + _)"
  proof -
    have "collect_results (map (\<lambda>s. map_sum id (\<lambda>n. \<lparr>event_sequence = n, event_published_at = envelope_published_at (stored_envelope tp ?t s),
        event_data = envelope_data (stored_envelope tp ?t s)\<rparr>) (parse_topic_sequence_key_suffix (sequence_digits s))) ?ns)
        = (Inr (map (stored_event tp ?t) ?ns) :: 'c fleet_error + _)"
    proof (rule collect_results_all)
      fix s assume s: "s \<in> set ?ns"
      have "parse_topic_sequence_key_suffix (sequence_digits s) = (Inr s :: 'c fleet_error + int)"
        by (rule sequence_digits_parse) (use ns(1,2) [OF s] pub'(2) in simp_all)
      then show "map_sum id (\<lambda>n. \<lparr>event_sequence = n, event_published_at = envelope_published_at (stored_envelope tp ?t s),
        event_data = envelope_data (stored_envelope tp ?t s)\<rparr>) (parse_topic_sequence_key_suffix (sequence_digits s))
        = (Inr (stored_event tp ?t s) :: 'c fleet_error + _)" by (simp add: stored_event_def)
    qed
    then show ?thesis by (simp add: scanned_topic_events_to_public_events_def comp_def)
  qed
  ultimately show ?thesis using events by simp
qed

lemma fetch_events_effect:
  fixes tp :: "('v, 'c) topic"
  assumes made: "made_topic tp sub" and pub: "published tp pub (tables tx)" and c: "0 \<le> c" "c \<le> i64_max"
    and run: "fetch_events_after_in_current_transaction sub p reply now c tx = (Inr events, tx')"
  shows "tables tx' = tables tx
    \<and> events = map (stored_event tp (tables tx)) (next_sequences tp (poll_limit sub) now (length pub) (tables tx) c)"
proof -
  let ?it = "event_item tp" and ?t = "tables tx"
  have made': "subscription_event_item sub = ?it" "item_codec ?it = Plain" "item_prefix ?it = event_prefix tp"
    using made by (simp_all add: made_topic_def)
  obtain scanned after where scan: "do_then (scan_bytes_with_prefix_in_current_transaction p reply now (event_prefix tp) after
        (poll_limit sub) tx) (\<lambda>rows tx. (decode_scanned_rows ?it rows, tx)) = (Inr scanned :: 'c kv_error + _, tx')"
    and after: "after_key_from_optional_suffix ?it (Some (sequence_digits c)) = (Inr after :: 'c kv_error + _)"
    and events: "scanned_topic_events_to_public_events scanned = (Inr events :: 'c fleet_error + _)"
    using run c(1) made' sequence_digits_suffix [OF c(1), where 'a = 'c]
    by (auto simp: fetch_events_after_in_current_transaction_def validate_non_negative_topic_sequence_def result_bind_def
        item_scan_in_current_transaction_def do_then_def map_prod_def map_sum_eq_Inr_iff split: sum.splits prod.splits)
  obtain rows where scan0: "scan_bytes_with_prefix_in_current_transaction p reply now (event_prefix tp) after (poll_limit sub) tx
      = (Inr rows :: 'c kv_error + _, tx')" and scanned: "decode_scanned_rows ?it rows = (Inr scanned :: 'c kv_error + _)"
    using scan by (auto simp: do_then_def split: sum.splits prod.splits)
  have "(scan_bytes_with_prefix_with_executor now (event_prefix tp) after (poll_limit sub) ?t, ?t)
      = (Inr rows :: 'c kv_error + _, tables tx')"
    using admitted_success [OF scan0 [unfolded scan_bytes_with_prefix_in_current_transaction_def]] .
  note pair = this [unfolded prod.inject]
  show ?thesis using page_effect [OF made pub c after conjunct1 [OF pair] scanned events] pair by simp
qed

text \<open>The same on a pool.\<close>

lemma fetch_events_pool_effect:
  fixes tp :: "('v, 'c) topic"
  assumes made: "made_topic tp sub" and pub: "published tp pub t" and c: "0 \<le> c" "c \<le> i64_max"
    and run: "fetch_events_after sub p env c t = (Inr events :: 'c fleet_error + _)"
  shows "events = map (stored_event tp t) (next_sequences tp (poll_limit sub) (env_now env) (length pub) t c)"
proof -
  let ?it = "event_item tp"
  have made': "subscription_event_item sub = ?it" "item_prefix ?it = event_prefix tp"
    using made by (simp_all add: made_topic_def)
  obtain scanned after rows where after: "after_key_from_optional_suffix ?it (Some (sequence_digits c)) = (Inr after :: 'c kv_error + _)"
    and scan: "scan_bytes_with_prefix p env (event_prefix tp) after (poll_limit sub) t = (Inr rows :: 'c kv_error + _)"
    and scanned: "decode_scanned_rows ?it rows = (Inr scanned :: 'c kv_error + _)"
    and events: "scanned_topic_events_to_public_events scanned = (Inr events :: 'c fleet_error + _)"
    using run c(1) made' sequence_digits_suffix [OF c(1), where 'a = 'c]
    by (auto simp: fetch_events_after_def validate_non_negative_topic_sequence_def result_bind_eq_Inr_iff item_scan_def
        map_sum_eq_Inr_iff split: if_splits)
  have "fst (admitted p (env_reply env) KvDatabase (\<lambda>t. (scan_bytes_with_prefix_with_executor (env_now env) (event_prefix tp)
      after (poll_limit sub) t, t)) (begin_transaction t)) = (Inr rows :: 'c kv_error + _)"
    using scan by (auto simp: scan_bytes_with_prefix_def kv_pool_read_def pool_read_def finish_rollback_only_transaction_def
        scan_bytes_with_prefix_in_current_transaction_def split: option.splits sum.splits rollback_outcome.splits)
  from admitted_Inr(2) [OF this]
  have "scan_bytes_with_prefix_with_executor (env_now env) (event_prefix tp) after (poll_limit sub) t = (Inr rows :: 'c kv_error + _)"
    by (simp add: begin_transaction_def)
  from page_effect [OF made pub c after this scanned events] show ?thesis .
qed

end
