(* ===== verification/TopicRun.thy ===== *)
theory TopicRun
  imports TopicDelivery
begin

text \<open>
  A subscription that reads and advances its cursor, in runs with any publications, expirations and purges:
  it gets every retained event, once, in the order of publication.
\<close>

section \<open>The cursor\<close>

lemma number_at_key: "number_at it v t \<Longrightarrow> number_at it w t \<Longrightarrow> v = w"
  unfolding number_at_def by (metis item_key_unique lasting_option_unique)

lemma fetch_cursor_effect:
  assumes made: "made_topic tp sub" and at: "number_at (cursor_item sub) c (tables tx)" and c: "0 \<le> c"
    and run: "fetch_cursor_in_current_transaction sub p reply now tx = (Inr v, tx')"
  shows "v = c \<and> tables tx' = tables tx"
proof -
  obtain key x where key: "item_key_is (cursor_item sub) [] key" and x: "lasting_option (cursor_item sub) key x (tables tx)"
    and c': "c = (case x of None \<Rightarrow> 0 | Some w \<Rightarrow> w)" using at by (auto simp: number_at_def)
  obtain r where get: "item_get_in_current_transaction (cursor_item sub) p reply now [] tx = (r, tx')"
    and v: "sequence_or_zero r = Inr v"
    using run by (auto simp: fetch_cursor_in_current_transaction_def map_prod_def split: prod.splits)
  have plain: "item_codec (cursor_item sub) = Plain" using made by (simp add: made_topic_def)
  note got = lasting_get_in_transaction [OF x key plain get]
  show ?thesis using v got c'
    by (auto simp: sequence_or_zero_def result_bind_eq_Inr_iff split: sum.splits kv_error.splits)
qed

lemma writes_lasting_advance: "writes_lasting (decide_advance_cursor s)"
  by (auto simp: writes_lasting_def decide_advance_cursor_def result_bind_eq_Inr_iff split: if_splits)

lemma advance_cursor_effect:
  fixes sub :: "('v, 'c) subscription"
  assumes made: "made_topic tp sub" and at: "number_at (cursor_item sub) c (tables tx)" and s: "c \<le> s"
    and run: "advance_cursor_if_needed_in_current_transaction sub aenv s tx = (Inr u, tx')"
  shows "number_at (cursor_item sub) s (tables tx') \<and> (\<forall>k. k \<noteq> item_prefix (cursor_item sub) \<longrightarrow> tables tx' k = tables tx k)"
proof -
  have faith: "faithful (cursor_item sub)" using made by (simp add: made_topic_def)
  obtain key x where key: "item_key_is (cursor_item sub) [] key" and x: "lasting_option (cursor_item sub) key x (tables tx)"
    and c: "c = (case x of None \<Rightarrow> 0 | Some w \<Rightarrow> w)" using at by (auto simp: number_at_def)
  obtain res where mut: "mutate_live_or_init_item_in_transaction_internal FleetKv (cursor_item sub) aenv []
      (\<lambda>_. Inr (s, NO_EXPIRATION)) (decide_advance_cursor s) True tx = (Inr (res, ()), tx')"
    using run by (auto simp: advance_cursor_if_needed_in_current_transaction_def map_prod_def map_sum_eq_Inr_iff
        item_mutate_live_or_insert_initial_value_atomically_in_current_transaction_def split: prod.splits sum.splits)
  obtain n m where d: "decide_advance_cursor s \<lparr>item_live = (case x of None \<Rightarrow> s | Some v \<Rightarrow> v), item_live_timestamp = n\<rparr>
      = (Inr (m, ()) :: 'c fleet_error + _)"
    and last: "lasting (cursor_item sub) key (case m of SetValue w _ \<Rightarrow> w | _ \<Rightarrow> (case x of None \<Rightarrow> s | Some v \<Rightarrow> v)) (tables tx')"
    and others: "\<And>k. k \<noteq> key \<Longrightarrow> tables tx' k = tables tx k"
    using lasting_live_or_init [OF faith writes_lasting_advance key mut x] by metis
  have "(case m of SetValue w _ \<Rightarrow> w | _ \<Rightarrow> (case x of None \<Rightarrow> s | Some v \<Rightarrow> v)) = s"
    using d s c by (auto simp: decide_advance_cursor_def result_bind_eq_Inr_iff split: if_splits option.splits)
  then have "number_at (cursor_item sub) s (tables tx')"
    using last key unfolding number_at_def by (intro exI [of _ key] exI [of _ "Some s"]) simp
  then show ?thesis using others item_key_no_part [OF key] by blast
qed

lemma next_sequences_last:
  assumes "next_sequences tp limit now n t c \<noteq> []"
  shows "c < last (next_sequences tp limit now n t c)" "1 \<le> last (next_sequences tp limit now n t c)"
    "last (next_sequences tp limit now n t c) \<le> int n"
  using last_in_set [OF assms] by (auto simp: next_sequences_def live_sequences_set dest!: in_set_takeD)

text \<open>A page is cut off at its end only: nothing live up to its last number is left out.\<close>

lemma next_sequences_complete:
  assumes "next_sequences tp limit now n t c \<noteq> []" and "s \<le> last (next_sequences tp limit now n t c)"
    and "c < s" "1 \<le> s" "s \<le> int n" "live_row now t (event_row_key tp s) \<noteq> None"
  shows "s \<in> set (next_sequences tp limit now n t c)"
proof -
  let ?xs = "filter (\<lambda>s. c < s) (live_sequences tp now n t)"
  have "s \<in> set (take limit ?xs @ drop limit ?xs)" using assms(3-6) by (simp add: live_sequences_set)
  moreover have "sorted_wrt (<) (take limit ?xs @ drop limit ?xs)"
    using sorted_wrt_filter [OF sorted_sequences(1)] by simp
  then have "\<forall>x \<in> set (take limit ?xs). \<forall>y \<in> set (drop limit ?xs). x < y" unfolding sorted_wrt_append by blast
  then have "\<forall>y \<in> set (drop limit ?xs). last (take limit ?xs) < y"
    using last_in_set [OF assms(1)] unfolding next_sequences_def by blast
  ultimately show ?thesis using assms(2) unfolding next_sequences_def set_append by force
qed

lemma read_effect:
  fixes tp :: "('v, 'c) topic"
  assumes made: "made_topic tp sub" and pub: "published tp pub t" and at: "number_at (cursor_item sub) c t"
    and c: "0 \<le> c" "c \<le> int (length pub)"
    and run: "read_new_events_and_advance_cursor sub env scan_now aenv t = (Inr events, t')"
    and ns: "ns = next_sequences tp (poll_limit sub) scan_now (length pub) t c"
  shows "events = map (stored_event tp t) ns \<and> number_at (cursor_item sub) (if ns = [] then c else last ns) t'
    \<and> (\<forall>k. k \<noteq> item_prefix (cursor_item sub) \<longrightarrow> t' k = t k)"
  using run unfolding read_new_events_and_advance_cursor_def
proof (cases rule: fleet_pool_write_answer)
  case (written v tx')
  let ?aenv = "aenv\<lparr>atomic_reply := env_reply env\<rparr>"
  let ?p = "atomic_protocol ?aenv" and ?reply = "atomic_reply ?aenv"
  have v: "v = events" using written(3) by simp
  obtain c' tx1 where cur: "fetch_cursor_in_current_transaction sub ?p ?reply (env_now env) (begin_transaction t) = (Inr c' :: 'c fleet_error + _, tx1)"
    and rest: "do_then (fetch_events_after_in_current_transaction sub ?p ?reply scan_now c' tx1)
      (\<lambda>events tx. if events = [] then (Inr events, tx)
        else do_then (advance_cursor_if_needed_in_current_transaction sub ?aenv (event_sequence (last events)) tx)
          (\<lambda>_ tx. (Inr events, tx))) = (Inr events, tx')"
    by (rule do_then_Inr [OF written(1) [unfolded v read_new_events_and_advance_cursor_in_current_transaction_def]])
      (erule (1) that)
  have at0: "number_at (cursor_item sub) c (tables (begin_transaction t))" using at by (simp add: begin_transaction_def)
  have c': "c' = c" "tables tx1 = t" using fetch_cursor_effect [OF made at0 c(1) cur] by (simp_all add: begin_transaction_def)
  obtain events' tx2 where fetch: "fetch_events_after_in_current_transaction sub ?p ?reply scan_now c tx1 = (Inr events' :: 'c fleet_error + _, tx2)"
    and fin: "(if events' = [] then (Inr events', tx2)
        else do_then (advance_cursor_if_needed_in_current_transaction sub ?aenv (event_sequence (last events')) tx2)
          (\<lambda>_ tx. (Inr events', tx))) = (Inr events :: 'c fleet_error + _, tx')"
    by (rule do_then_Inr [OF rest [unfolded c'(1)]]) (erule (1) that)
  have len: "c \<le> i64_max" using pub c(2) by (simp add: published_def)
  have ev: "tables tx2 = t" "events' = map (stored_event tp t) ns"
    using fetch_events_effect [OF made _ c(1) len fetch, of pub] pub c'(2) by (simp_all add: ns)
  have t': "t' = tables tx'" by (rule written(2))
  show ?thesis
  proof (cases "ns = []")
    case True
    then show ?thesis using fin ev at by (simp add: t')
  next
    case False
    have seq: "event_sequence (last events') = last ns" using False by (simp add: ev(2) last_map stored_event_def)
    obtain u where adv: "advance_cursor_if_needed_in_current_transaction sub ?aenv (last ns) tx2 = (Inr u :: 'c fleet_error + _, tx')"
      and "events = events'"
      using fin False ev(2) seq by (auto simp: do_then_def split: prod.splits sum.splits)
    moreover have "c \<le> last ns" using next_sequences_last(1) [OF False [unfolded ns]] unfolding ns by simp
    ultimately show ?thesis
      using advance_cursor_effect [OF made _ _ adv, of c] at ev False by (simp add: t')
  qed
qed simp

section \<open>Runs\<close>

inductive topic_run ::
    "('v, 'c) topic \<Rightarrow> ('v, 'c) subscription \<Rightarrow> ('v \<times> ('c fleet_error + int)) list \<Rightarrow> 'v topic_event list \<Rightarrow> micros
     \<Rightarrow> kv_table \<Rightarrow> bool" for tp sub where
  topic_start: "published tp [] t \<Longrightarrow> number_at (cursor_item sub) 0 t \<Longrightarrow> topic_run tp sub [] [] now t"
| topic_publish: "topic_run tp sub log delivered now t \<Longrightarrow> publish tp env aenv write_now event t = (r, t') \<Longrightarrow>
    topic_run tp sub (log @ [(event, r)]) delivered now t'"
| topic_read: "topic_run tp sub log delivered now t \<Longrightarrow>
    read_new_events_and_advance_cursor sub env scan_now aenv t = (r, t') \<Longrightarrow> now \<le> scan_now \<Longrightarrow> is_ok r \<or> t' = t \<Longrightarrow>
    topic_run tp sub log (delivered @ (case r of Inr events \<Rightarrow> events | Inl _ \<Rightarrow> [])) scan_now t'"
| topic_elsewhere: "topic_run tp sub log delivered now t \<Longrightarrow>
    t' (item_prefix (sequence_item tp)) = t (item_prefix (sequence_item tp)) \<Longrightarrow>
    t' (item_prefix (cursor_item sub)) = t (item_prefix (cursor_item sub)) \<Longrightarrow>
    (\<forall>k. prefix (event_prefix tp) k \<longrightarrow> t' k = t k \<or> t' k = None) \<Longrightarrow>
    topic_run tp sub log delivered now t'"

text \<open>
  The publications that took effect, in their order: all that were acknowledged, which answered the position
  of their event, and some of those that reported an error.
\<close>

fun numbered :: "nat \<Rightarrow> ('v \<times> ('c fleet_error + int)) list \<Rightarrow> 'v list \<Rightarrow> bool" where
  "numbered n [] pub \<longleftrightarrow> pub = []"
| "numbered n ((event, r) # rest) pub \<longleftrightarrow>
     (\<not> is_ok r \<and> numbered n rest pub)
     \<or> (is_ok r \<longrightarrow> r = Inr (int n + 1)) \<and> (\<exists>pub'. pub = event # pub' \<and> numbered (Suc n) rest pub')"

lemma numbered_snoc:
  "numbered n (log @ [(event, r)]) pub \<longleftrightarrow>
     (\<not> is_ok r \<and> numbered n log pub)
     \<or> (\<exists>pub'. pub = pub' @ [event] \<and> numbered n log pub' \<and> (is_ok r \<longrightarrow> r = Inr (int (n + length pub') + 1)))"
proof (induction n log pub rule: numbered.induct)
  case (2 n event' r' rest pub)
  show ?case
    by (auto simp: "2.IH"(1) "2.IH"(2) Cons_eq_append_conv)
qed (auto simp: Cons_eq_append_conv)

definition latest_number :: "'v topic_event list \<Rightarrow> int" where
  "latest_number delivered = (if delivered = [] then 0 else event_sequence (last delivered))"

definition delivery_inv ::
    "('v, 'c) topic \<Rightarrow> ('v, 'c) subscription \<Rightarrow> 'v list \<Rightarrow> 'v topic_event list \<Rightarrow> micros \<Rightarrow> kv_table \<Rightarrow> bool" where
  "delivery_inv tp sub pub delivered now t \<longleftrightarrow>
     published tp pub t \<and> number_at (cursor_item sub) (latest_number delivered) t
     \<and> sorted_wrt (<) (map event_sequence delivered)
     \<and> (\<forall>e \<in> set delivered. 1 \<le> event_sequence e \<and> event_sequence e \<le> int (length pub)
          \<and> event_data e = pub ! (nat (event_sequence e) - 1))
     \<and> (\<forall>s. 1 \<le> s \<longrightarrow> s \<le> latest_number delivered \<longrightarrow> live_row now t (event_row_key tp s) \<noteq> None \<longrightarrow>
          s \<in> event_sequence ` set delivered)"

lemma delivered_bounds:
  assumes "\<forall>e \<in> set delivered. 1 \<le> event_sequence e \<and> event_sequence e \<le> n" and "0 \<le> n"
  shows "0 \<le> latest_number delivered \<and> latest_number delivered \<le> n"
  using assms by (auto simp: latest_number_def dest!: bspec [OF _ last_in_set])

lemma live_row_before: "now \<le> later \<Longrightarrow> live_row later t k \<noteq> None \<Longrightarrow> live_row now t k \<noteq> None"
  by (auto simp: live_row_def not_expired_def split: option.splits if_splits)

lemma live_row_same: "t' k = t k \<Longrightarrow> live_row now t' k = live_row now t k"
  by (simp add: live_row_def)

lemma delivery_publish:
  fixes tp :: "('v, 'c) topic"
  assumes made: "made_topic tp sub" and inv: "delivery_inv tp sub pub delivered now t"
    and run: "publish tp env aenv write_now event t = (r, t')"
  shows "(\<not> is_ok r \<and> delivery_inv tp sub pub delivered now t')
    \<or> ((is_ok r \<longrightarrow> r = Inr (int (length pub) + 1)) \<and> delivery_inv tp sub (pub @ [event]) delivered now t')"
proof -
  have pub: "published tp pub t" and at: "number_at (cursor_item sub) (latest_number delivered) t"
    and evs: "\<And>e. e \<in> set delivered \<Longrightarrow> 1 \<le> event_sequence e \<and> event_sequence e \<le> int (length pub)
          \<and> event_data e = pub ! (nat (event_sequence e) - 1)"
    and complete: "\<And>s. 1 \<le> s \<Longrightarrow> s \<le> latest_number delivered \<Longrightarrow> live_row now t (event_row_key tp s) \<noteq> None \<Longrightarrow>
          s \<in> event_sequence ` set delivered" and sorted: "sorted_wrt (<) (map event_sequence delivered)"
    using inv by (auto simp: delivery_inv_def)
  have up: "latest_number delivered \<le> int (length pub)" using delivered_bounds [of delivered "int (length pub)"] evs by simp
  from publish_effect [OF made pub run] show ?thesis
  proof (elim disjE conjE)
    assume p: "published tp (pub @ [event]) t'" and ok: "is_ok r \<longrightarrow> r = Inr (int (length pub) + 1)"
      and same: "\<forall>k. k \<noteq> item_prefix (sequence_item tp) \<longrightarrow> k \<noteq> event_row_key tp (int (length pub) + 1) \<longrightarrow> t' k = t k"
    have apart: "item_prefix (cursor_item sub) \<noteq> item_prefix (sequence_item tp)"
      "\<not> prefix (event_prefix tp) (item_prefix (cursor_item sub))" "\<not> prefix (event_prefix tp) (item_prefix (sequence_item tp))"
      using made by (auto simp: made_topic_def)
    have ev_key: "event_row_key tp s \<noteq> item_prefix (sequence_item tp)" "event_row_key tp s \<noteq> item_prefix (cursor_item sub)" for s
      using apart(2,3) by (auto simp: event_row_key_def dest: sym)
    have len: "int (length pub) + 1 \<le> i64_max" using p by (simp add: published_def)
    have "number_at (cursor_item sub) (latest_number delivered) t'"
      using at same apart(1) ev_key(2) number_at_row by metis
    moreover have "t' (event_row_key tp s) = t (event_row_key tp s)" if "1 \<le> s" "s \<le> latest_number delivered" for s
    proof -
      have "event_row_key tp s \<noteq> event_row_key tp (int (length pub) + 1)"
        using event_row_key_inject [of s "int (length pub) + 1" tp] that up len by auto
      then show ?thesis using same ev_key by simp
    qed
    moreover from this have "s \<in> event_sequence ` set delivered"
      if "1 \<le> s" "s \<le> latest_number delivered" "live_row now t' (event_row_key tp s) \<noteq> None" for s
      using complete [OF that(1,2)] that live_row_same by metis
    moreover have "1 \<le> event_sequence e \<and> event_sequence e \<le> int (length (pub @ [event]))
          \<and> event_data e = (pub @ [event]) ! (nat (event_sequence e) - 1)" if "e \<in> set delivered" for e
      using evs [OF that] by (auto simp: nth_append)
    ultimately have "delivery_inv tp sub (pub @ [event]) delivered now t'"
      unfolding delivery_inv_def using p sorted by blast
    then show ?thesis using ok by blast
  qed (use inv in \<open>auto simp: is_ok_def\<close>)
qed

lemma delivery_read:
  fixes tp :: "('v, 'c) topic"
  assumes made: "made_topic tp sub" and inv: "delivery_inv tp sub pub delivered now t"
    and run: "read_new_events_and_advance_cursor sub env scan_now aenv t = (Inr events, t')" and later: "now \<le> scan_now"
  shows "delivery_inv tp sub pub (delivered @ events) scan_now t'"
proof -
  let ?c = "latest_number delivered"
  have pub: "published tp pub t" and at: "number_at (cursor_item sub) ?c t"
    and evs: "\<And>e. e \<in> set delivered \<Longrightarrow> 1 \<le> event_sequence e \<and> event_sequence e \<le> int (length pub)
          \<and> event_data e = pub ! (nat (event_sequence e) - 1)"
    and complete: "\<And>s. 1 \<le> s \<Longrightarrow> s \<le> ?c \<Longrightarrow> live_row now t (event_row_key tp s) \<noteq> None \<Longrightarrow>
          s \<in> event_sequence ` set delivered" and sorted: "sorted_wrt (<) (map event_sequence delivered)"
    using inv by (auto simp: delivery_inv_def)
  have c: "0 \<le> ?c" "?c \<le> int (length pub)" using delivered_bounds [of delivered "int (length pub)"] evs by simp_all
  define ns where "ns = next_sequences tp (poll_limit sub) scan_now (length pub) t ?c"
  have eff: "events = map (stored_event tp t) ns" "number_at (cursor_item sub) (if ns = [] then ?c else last ns) t'"
    "\<And>k. k \<noteq> item_prefix (cursor_item sub) \<Longrightarrow> t' k = t k"
    using read_effect [OF made pub at c run ns_def] by simp_all
  have seqs: "map event_sequence events = ns" by (simp add: eff(1) comp_def stored_event_def)
  have ns: "?c < s \<and> 1 \<le> s \<and> s \<le> int (length pub) \<and> live_row scan_now t (event_row_key tp s) \<noteq> None" if "s \<in> set ns" for s
    using that by (auto simp: ns_def next_sequences_def live_sequences_set dest!: in_set_takeD)
  have latest: "latest_number (delivered @ events) = (if ns = [] then ?c else last ns)"
    using seqs last_map [of events event_sequence] by (cases "events = []") (auto simp: latest_number_def)
  have apart: "item_prefix (cursor_item sub) \<noteq> item_prefix (sequence_item tp)"
    "\<not> prefix (event_prefix tp) (item_prefix (cursor_item sub))"
    using made by (auto simp: made_topic_def)
  have same: "t' (event_row_key tp s) = t (event_row_key tp s)" for s
    by (rule eff(3)) (use apart(2) in \<open>auto simp: event_row_key_def dest: sym\<close>)
  have 1: "published tp pub t'"
  proof -
    have "event_rows tp pub t'" by (rule event_rows_keep [of tp pub t]) (use pub eff(3) apart(2) in \<open>auto simp: published_def\<close>)
    moreover have "number_at (sequence_item tp) (int (length pub)) t'"
      using pub eff(3) apart(1) number_at_row [of t' "sequence_item tp" t] unfolding published_def by metis
    ultimately show ?thesis using pub by (simp add: published_def)
  qed
  have 2: "sorted_wrt (<) (map event_sequence (delivered @ events))"
  proof -
    have "x < y" if "x \<in> set (map event_sequence delivered)" "y \<in> set ns" for x y
    proof -
      have "x \<le> ?c"
      proof -
        have "delivered \<noteq> []" using that(1) by auto
        then have "x \<in> set (butlast (map event_sequence delivered)) \<or> x = ?c"
          using that(1) by (cases delivered rule: rev_cases) (auto simp: latest_number_def)
        then show ?thesis using sorted \<open>delivered \<noteq> []\<close>
          by (cases delivered rule: rev_cases) (auto simp: latest_number_def sorted_wrt_append order_less_imp_le)
      qed
      then show ?thesis using ns [OF that(2)] by simp
    qed
    then show ?thesis using sorted sorted_sequences(2) seqs unfolding map_append sorted_wrt_append ns_def by metis
  qed
  have 3: "1 \<le> event_sequence e \<and> event_sequence e \<le> int (length pub) \<and> event_data e = pub ! (nat (event_sequence e) - 1)"
    if e: "e \<in> set (delivered @ events)" for e
  proof (cases "e \<in> set delivered")
    case False
    then obtain s where s: "s \<in> set ns" "e = stored_event tp t s" using e eff(1) by auto
    obtain r where "t (event_row_key tp s) = Some r" using ns [OF s(1)] by (auto simp: live_row_def split: option.splits)
    then have "envelope_data (stored_envelope tp t s) = pub ! (nat s - 1)"
      using stored_envelope_row(2) [of tp pub t s] pub ns [OF s(1)] by (simp add: published_def)
    then show ?thesis using ns [OF s(1)] s(2) by (simp add: stored_event_def)
  qed (use evs in blast)
  have 4: "s \<in> event_sequence ` set (delivered @ events)"
    if "1 \<le> s" "s \<le> latest_number (delivered @ events)" "live_row scan_now t' (event_row_key tp s) \<noteq> None" for s
  proof (cases "s \<le> ?c")
    case True
    have "live_row scan_now t (event_row_key tp s) \<noteq> None" using that(3) same live_row_same by metis
    then have "s \<in> event_sequence ` set delivered" using complete [OF that(1) True] live_row_before [OF later] by blast
    then show ?thesis by auto
  next
    case False
    then have n: "ns \<noteq> []" "s \<le> last ns" using that(2) latest by (auto split: if_splits)
    have "s \<le> int (length pub)" using n(2) next_sequences_last(3) n(1) unfolding ns_def by (metis order_trans)
    moreover have "live_row scan_now t (event_row_key tp s) \<noteq> None" using that(3) same live_row_same by metis
    ultimately have "s \<in> set ns"
      using next_sequences_complete [of tp "poll_limit sub" scan_now "length pub" t ?c s] n False that(1) unfolding ns_def by simp
    then have "s \<in> event_sequence ` set events" using seqs by (metis list.set_map)
    then show ?thesis by auto
  qed
  show ?thesis
    unfolding delivery_inv_def
    by (intro conjI ballI allI impI) (use 1 2 3 4 eff(2) latest in auto)
qed

lemma delivery_elsewhere:
  assumes "made_topic tp sub" and inv: "delivery_inv tp sub pub delivered now t"
    and "t' (item_prefix (sequence_item tp)) = t (item_prefix (sequence_item tp))"
    and "t' (item_prefix (cursor_item sub)) = t (item_prefix (cursor_item sub))"
    and rows: "\<forall>k. prefix (event_prefix tp) k \<longrightarrow> t' k = t k \<or> t' k = None"
  shows "delivery_inv tp sub pub delivered now t'"
proof -
  have "published tp pub t'"
    using inv number_at_row [of t' "sequence_item tp" t, OF assms(3)] event_rows_keep [OF _ rows] by (simp add: delivery_inv_def published_def)
  moreover have "number_at (cursor_item sub) (latest_number delivered) t'"
    using inv number_at_row [of t' "cursor_item sub" t, OF assms(4)] by (simp add: delivery_inv_def)
  moreover have "live_row now t (event_row_key tp s) \<noteq> None" if "live_row now t' (event_row_key tp s) \<noteq> None" for s
  proof -
    have "prefix (event_prefix tp) (event_row_key tp s)" by (simp add: event_row_key_def)
    then have "t' (event_row_key tp s) = t (event_row_key tp s) \<or> t' (event_row_key tp s) = None"
      by (rule rows [rule_format])
    then show ?thesis
    proof
      assume "t' (event_row_key tp s) = None"
      then show ?thesis using that by (simp add: live_row_def)
    qed (use that live_row_same in metis)
  qed
  ultimately show ?thesis using inv unfolding delivery_inv_def by (elim conjE, intro conjI) simp_all
qed

lemma topic_run_inv:
  assumes "topic_run tp sub log delivered now t" and made: "made_topic tp sub"
  shows "\<exists>pub. numbered 0 log pub \<and> delivery_inv tp sub pub delivered now t"
  using assms(1)
proof (induction rule: topic_run.induct)
  case (topic_start t now)
  then show ?case by (auto simp: delivery_inv_def latest_number_def)
next
  case (topic_publish log delivered now t env aenv write_now event r t')
  then obtain pub where n: "numbered 0 log pub" and inv: "delivery_inv tp sub pub delivered now t" by blast
  from delivery_publish [OF made inv topic_publish.hyps(2)] show ?case
  proof (elim disjE conjE)
    assume "\<not> is_ok r" "delivery_inv tp sub pub delivered now t'"
    then show ?thesis using n by (intro exI [of _ pub]) (simp add: numbered_snoc)
  next
    assume "is_ok r \<longrightarrow> r = Inr (int (length pub) + 1)" "delivery_inv tp sub (pub @ [event]) delivered now t'"
    then show ?thesis using n by (intro exI [of _ "pub @ [event]"]) (simp add: numbered_snoc)
  qed
next
  case (topic_read log delivered now t env scan_now aenv r t')
  then obtain pub where n: "numbered 0 log pub" and inv: "delivery_inv tp sub pub delivered now t" by blast
  show ?case
  proof (cases r)
    case (Inl e)
    then have "t' = t" using topic_read.hyps(4) by (simp add: is_ok_def)
    moreover have "delivery_inv tp sub pub delivered scan_now t"
      using inv live_row_before [OF topic_read.hyps(3)] unfolding delivery_inv_def by blast
    ultimately show ?thesis using n Inl by auto
  next
    case (Inr events)
    then show ?thesis using n delivery_read [OF made inv topic_read.hyps(2) [unfolded Inr] topic_read.hyps(3)] by auto
  qed
next
  case (topic_elsewhere log delivered now t t')
  then show ?case using delivery_elsewhere [OF made] by blast
qed

text \<open>C2: A subscription gets every retained event once and in order. In every run of publications by any
  processes with any outcome of their commits, of expirations and purges, and of reads whose outcome the
  reader learns, from an empty topic: the acknowledged publications answered the positions 1, 2, 3 and so
  on of their events; the events delivered have strictly increasing numbers and carry what was published
  under them; and every event up to the last one delivered that is still retained was delivered.\<close>

theorem subscription_delivers_in_order:
  fixes tp :: "('v, 'c) topic"
  assumes "new_topic base event_base root_key key ttl = Inr tp" and "faithful base" "faithful event_base"
    and "subscribe tp protocol sub_key limit = Inr sub" and "topic_run tp sub log delivered now t"
  shows "\<exists>pub. numbered 0 log pub \<and> sorted_wrt (<) (map event_sequence delivered)
    \<and> (\<forall>e \<in> set delivered. 1 \<le> event_sequence e \<and> event_sequence e \<le> int (length pub)
         \<and> event_data e = pub ! (nat (event_sequence e) - 1))
    \<and> (\<forall>s. 1 \<le> s \<and> s \<le> latest_number delivered \<and> live_row now t (event_row_key tp s) \<noteq> None \<longrightarrow>
         s \<in> event_sequence ` set delivered)"
proof -
  have "made_topic tp sub" by (rule subscribed_topic_made [OF assms(1-4)])
  from topic_run_inv [OF assms(5) this] show ?thesis unfolding delivery_inv_def by blast
qed

section \<open>A concrete run\<close>

definition byte_events :: "(int topic_event_envelope, unit, unit) item" where
  "byte_events = \<lparr>item_prefix = [], item_codec = Plain,
     to_plaintext_bytes = (\<lambda>e. if envelope_published_at e = 5 \<and> 0 \<le> envelope_data e \<and> envelope_data e < 256
       then Inr [word_of_int (envelope_data e)] else Inl ()),
     from_plaintext_bytes = (\<lambda>bs. Inr \<lparr>envelope_published_at = 5, envelope_data = uint (hd bs)\<rparr>),
     seal = (\<lambda>_ p _. Inr p), unseal = (\<lambda>_ b _. Inr b)\<rparr>"

lemma byte_events_faithful: "faithful byte_events"
  by (auto simp: faithful_def byte_events_def uint_word_of_int split: if_splits)

definition demo_topic :: "(int, unit) topic" where
  "demo_topic = \<lparr>topic_key = ''k'', event_ttl = NO_EXPIRATION,
     sequence_item = item_new_plain byte_numbers ''r::topic::k::sequence::'', event_prefix = ''r::topic::k::events::'',
     event_item = item_new_plain byte_events ''r::topic::k::events::'', topic_root_key = ''r''\<rparr>"

definition demo_subscription :: "(int, unit) subscription" where
  "demo_subscription = \<lparr>subscription_topic_key = ''k'', subscription_key = ''s'', poll_limit = 100,
     subscription_event_item = item_new_plain byte_events ''r::topic::k::events::'',
     cursor_item = item_new_plain byte_numbers ''r::topic::k::subscriptions::s::cursor::'',
     polling_mutex = \<lparr>mutex_protocol = ''p'', mutex_key = ''s'',
       mutex_lease_key = ''r::topic::k::subscriptions::s::polling_mutex::'',
       mutex_claim_duration = ClaimDuration 30000000000\<rparr>,
     polling_mutex_guard_config = default_mutex_guard_config\<rparr>"

lemmas demo_build_defs = component_key_defs kv_build_key_from_parts_def kv_validate_key_part_def kv_validate_key_length_def
  KV_KEY_SEPARATOR_def MAX_KV_KEY_BYTES_def lease_build_key_from_parts_def lease_validate_key_part_def
  lease_validate_key_length_def LEASE_KEY_SEPARATOR_def MAX_LEASE_KEY_BYTES_def

lemma demo_topic_new: "new_topic byte_numbers byte_events ''r'' ''k'' NO_EXPIRATION = Inr demo_topic"
  by (simp add: new_topic_def build_topic_sequence_prefix_def build_topic_events_prefix_def demo_build_defs result_bind_def
      demo_topic_def)

lemma demo_subscribe: "subscribe demo_topic ''p'' ''s'' None = Inr demo_subscription"
  by (simp add: subscribe_def option_unwrap_or_def DEFAULT_SUBSCRIPTION_POLL_LIMIT_def validate_subscription_poll_limit_def
      MAX_SUBSCRIPTION_POLL_LIMIT_def build_subscription_cursor_prefix_def build_subscription_polling_mutex_lease_key_def
      demo_build_defs result_bind_def expires_after_def DEFAULT_SUBSCRIPTION_POLLING_LOOP_CLAIM_DURATION_def
      MIN_LEASE_DURATION_def duration_to_rounded_microseconds_def i64_max_def resolve_for_claim_duration_def
      default_mutex_guard_config_def MIN_FLEET_MUTEX_HEARTBEAT_INTERVAL_def duration_checked_mul_def duration_max_def
      DEFAULT_FLEET_MUTEX_ACQUIRE_RETRY_INTERVAL_def DEFAULT_FLEET_MUTEX_MAX_ACQUIRE_RETRY_INTERVAL_def
      DEFAULT_FLEET_MUTEX_MAX_CONSECUTIVE_RENEWAL_FAILURES_def Let_def item_new_plain_again demo_topic_def
      demo_subscription_def)

lemma demo_made: "made_topic demo_topic demo_subscription"
  by (rule subscribed_topic_made [OF demo_topic_new byte_numbers_faithful byte_events_faithful demo_subscribe])

lemma demo_topic_keys:
  "item_key_from_parts (sequence_item demo_topic) [] = Inr ''r::topic::k::sequence::''"
  "item_key_from_parts (cursor_item demo_subscription) [] = Inr ''r::topic::k::subscriptions::s::cursor::''"
  "item_key_from_parts (event_item demo_topic) [''00000000000000000001''] = Inr ''r::topic::k::events::00000000000000000001::''"
  by (simp_all add: item_key_from_parts_def demo_topic_def demo_subscription_def kv_build_key_from_prefix_and_parts_def
      kv_validate_key_part_def kv_validate_key_length_def MAX_KV_KEY_BYTES_def KV_KEY_SEPARATOR_def result_bind_def)

lemma demo_event_codec:
  "encode_value_for_key (item_new_plain byte_events p) k e = (if envelope_published_at e = 5 \<and> 0 \<le> envelope_data e \<and> envelope_data e < 256
     then Inr [word_of_int (envelope_data e)] else Inl (KvCodec ()))"
  "decode_value_for_key (item_new_plain byte_events p) k bs = Inr \<lparr>envelope_published_at = 5, envelope_data = uint (hd bs)\<rparr>"
  by (simp_all add: byte_events_def item_new_plain_def encode_value_for_key_def decode_value_for_key_def
      with_codec_def encode_plain_value_def decode_plain_value_def)

lemma demo_items:
  "sequence_item demo_topic = item_new_plain byte_numbers ''r::topic::k::sequence::''"
  "event_item demo_topic = item_new_plain byte_events ''r::topic::k::events::''"
  "event_prefix demo_topic = ''r::topic::k::events::''" "event_ttl demo_topic = NO_EXPIRATION"
  "cursor_item demo_subscription = item_new_plain byte_numbers ''r::topic::k::subscriptions::s::cursor::''"
  "poll_limit demo_subscription = 100"
  "subscription_event_item demo_subscription = item_new_plain byte_events ''r::topic::k::events::''"
  by (simp_all add: demo_topic_def demo_subscription_def)

definition demo_published :: kv_table where
  "demo_published = [''r::topic::k::sequence::'' \<mapsto> \<lparr>kv_value = [1], kv_expires_at = None, kv_updated_at = 6\<rparr>,
     ''r::topic::k::events::00000000000000000001::'' \<mapsto> \<lparr>kv_value = [7], kv_expires_at = None, kv_updated_at = 6\<rparr>]"

lemma demo_digits: "sequence_digits 1 = ''00000000000000000001''"
  by code_simp

lemma demo_suffix: "topic_sequence_key_suffix 1 = Inr ''00000000000000000001''"
  using sequence_digits_suffix [of 1] demo_digits by simp

lemmas demo_mutation_defs =
  item_mutate_live_or_insert_initial_value_atomically_in_current_transaction_def
  mutate_live_or_init_item_in_transaction_internal_def with_key_def
  mutate_live_key_or_insert_initial_value_atomically_in_transaction_internal_def
  mutate_key_atomically_in_transaction_internal_def lock_key_for_atomic_mutation_def
  admitted_def admit_def calm_env_def supported_reply_def supported_row_def begin_transaction_def
  SUPPORTED_EPOCH_def SUPPORTED_FINGERPRINT_def lock_key_statement_def map_error_def Let_def
  decide_or_initialize_def initialize_item_def decide_initialized_item_def
  i64_checked_add_def i64_max_def encode_atomic_mutation_for_key_def result_bind_def
  ttl_positive_microseconds_def NO_EXPIRATION_def update_key_value_and_ttl_for_atomic_mutation_def
  update_value_and_ttl_statement_def expires_at_expression_def kv_require_rows_affected_def do_then_def
  finish_write_transaction_def

lemma demo_publish: "publish demo_topic calm_pool calm_env 6 7 Map.empty = (Inr 1, demo_published)"
  by (simp add: publish_def fleet_pool_write_def pool_write_def calm_pool_def publish_in_current_transaction_def
      demo_mutation_defs demo_items byte_numbers_codec demo_event_codec demo_topic_keys [unfolded demo_items]
      decide_publish_def demo_suffix item_set_in_current_transaction_def with_key_and_value_def
      set_bytes_in_current_transaction_def set_bytes_with_executor_def set_bytes_statement_def
      numeral_eq_Suc demo_published_def)

lemma demo_published_inv: "published demo_topic [7] demo_published" "number_at (cursor_item demo_subscription) 0 demo_published"
proof -
  have start: "published demo_topic [] Map.empty"
    by (simp add: published_def event_rows_def i64_max_def number_at_def item_key_is_def demo_topic_keys
        exI [of _ "None :: int option"])
  show "published demo_topic [7] demo_published"
    using publish_effect [OF demo_made start demo_publish] by auto
  show "number_at (cursor_item demo_subscription) 0 demo_published"
    unfolding number_at_def
    by (intro exI [of _ "''r::topic::k::subscriptions::s::cursor::''"] exI [of _ None])
      (simp add: item_key_is_def demo_topic_keys demo_published_def)
qed

lemma demo_next: "next_sequences demo_topic 100 now 1 demo_published 0 = [1]"
  by (simp add: next_sequences_def live_sequences_def event_row_key_def demo_items demo_digits live_row_def
      demo_published_def not_expired_def upto.simps)

lemma demo_digits_zero: "sequence_digits 0 = ''00000000000000000000''" "topic_sequence_key_suffix 0 = Inr ''00000000000000000000''"
proof -
  show "sequence_digits 0 = ''00000000000000000000''" by code_simp
  then show "topic_sequence_key_suffix 0 = Inr ''00000000000000000000''" using sequence_digits_suffix [of 0] by simp
qed

lemma demo_scan:
  "scan_keys_with_prefix_statement now (prefix_like_pattern ''r::topic::k::events::'') ''r::topic::k::events::00000000000000000000::''
     100 demo_published = [''r::topic::k::events::00000000000000000001::'']"
  using scan_events [of demo_topic "[7]" demo_published 0 now 100] demo_published_inv(1) demo_next
  by (simp add: published_def event_row_key_def demo_items demo_digits demo_digits_zero i64_max_def)

lemma demo_rows:
  "demo_published ''r::topic::k::subscriptions::s::cursor::'' = None"
  "demo_published ''r::topic::k::events::00000000000000000001::'' = Some \<lparr>kv_value = [7], kv_expires_at = None, kv_updated_at = 6\<rparr>"
  by (simp_all add: demo_published_def)

lemma demo_decoded:
  "decode_scanned_rows (item_new_plain byte_events ''r::topic::k::events::'') [(''r::topic::k::events::00000000000000000001::'', [7])]
     = Inr [\<lparr>scanned_key_suffix = ''00000000000000000001'', scanned_value = \<lparr>envelope_published_at = 5, envelope_data = 7\<rparr>\<rparr>]"
  by (simp add: decode_scanned_rows_def with_codec_def decode_plain_value_def byte_events_def item_new_plain_def result_bind_def
      suffix_from_key_def strip_prefix_or_empty_def strip_suffix_or_empty_def KV_KEY_SEPARATOR_def suffix_def)

lemma demo_parsed: "parse_topic_sequence_key_suffix ''00000000000000000001'' = (Inr 1 :: unit fleet_error + int)"
  using sequence_digits_parse [of 1] by (simp add: demo_digits i64_max_def)

lemma try_lock_first:
  "try_lock env key 0 8 t =
     (case lock_key_statement (fst (lock_attempts env 0)) (snd (lock_attempts env 0)) key t of
        (Some (inserted, row), t') \<Rightarrow> (Inr (inserted, Some row), t')
      | (None, t') \<Rightarrow> try_lock env key (Suc 0) 7 t')"
  using try_lock.simps(2) [of env key 0 7 t] by simp

lemma demo_read_ok: "is_ok (fst (read_new_events_and_advance_cursor demo_subscription calm_pool 6 calm_env demo_published))"
  by (simp add: read_new_events_and_advance_cursor_def fleet_pool_write_def pool_write_def calm_pool_def
      read_new_events_and_advance_cursor_in_current_transaction_def fetch_cursor_in_current_transaction_def
      item_get_in_current_transaction_def demo_mutation_defs demo_items demo_topic_keys [unfolded demo_items]
      get_bytes_in_current_transaction_def get_bytes_with_executor_def get_bytes_statement_def live_row_def
      sequence_or_zero_def demo_rows demo_decoded demo_parsed scanned_topic_events_to_public_events_def
      fetch_events_after_in_current_transaction_def validate_non_negative_topic_sequence_def demo_digits_zero
      item_scan_in_current_transaction_def after_key_from_optional_suffix_def kv_key_from_prefix_and_raw_suffix_def
      kv_validate_raw_suffix_cursor_def kv_validate_key_length_def MAX_KV_KEY_BYTES_def KV_KEY_SEPARATOR_def
      scan_bytes_with_prefix_in_current_transaction_def scan_bytes_with_prefix_with_executor_def kv_validate_scan_limit_def
      MAX_KV_SCAN_LIMIT_def scan_after_key_text_def prefix_contains_key_def scan_bytes_with_prefix_statement_def demo_scan
      advance_cursor_if_needed_in_current_transaction_def decide_advance_cursor_def byte_numbers_codec try_lock_first)

theorem subscription_delivers_in_order_witness:
  "\<exists>e t. read_new_events_and_advance_cursor demo_subscription calm_pool 6 calm_env demo_published = (Inr [e], t)
     \<and> event_sequence e = 1 \<and> event_data e = 7"
proof -
  let ?r = "read_new_events_and_advance_cursor demo_subscription calm_pool 6 calm_env demo_published"
  obtain events t where r: "?r = (Inr events, t)" using demo_read_ok by (cases ?r; cases "fst ?r") (auto simp: is_ok_def)
  have "events = map (stored_event demo_topic demo_published) [1]"
    using read_effect [OF demo_made demo_published_inv _ _ r refl] demo_next by (simp add: demo_items)
  then have one: "events = [stored_event demo_topic demo_published 1]" by simp
  have "topic_run demo_topic demo_subscription [] [] 0 Map.empty"
  proof (rule topic_start)
    show "published demo_topic [] Map.empty"
      by (simp add: published_def event_rows_def i64_max_def number_at_def item_key_is_def demo_topic_keys
          exI [of _ "None :: int option"])
    show "number_at (cursor_item demo_subscription) 0 Map.empty"
      by (simp add: number_at_def item_key_is_def demo_topic_keys exI [of _ "None :: int option"])
  qed
  from topic_read [OF topic_publish [OF this demo_publish] r]
  have "topic_run demo_topic demo_subscription [(7, Inr 1)] events 6 t" by simp
  from subscription_delivers_in_order [OF demo_topic_new byte_numbers_faithful byte_events_faithful demo_subscribe this]
  have "event_data (stored_event demo_topic demo_published 1) = 7"
    unfolding one by (auto simp: stored_event_def)
  then show ?thesis using r one by (auto simp: stored_event_def)
qed

end
