(* ===== verification/TopicPolling.thy ===== *)
theory TopicPolling
  imports TopicRun
begin

text \<open>
  The polling loop of \<open>src/src/db/fleet/topic.rs\<close> with the policies of \<open>topic_support.rs\<close> and the error types
  of \<open>topic_model.rs\<close>: under the guard of the polling mutex, fetch the events after the cursor, hand them to
  the handler, and advance the cursor only when it succeeded.

  One element of a list of turns is what one turn of the loop meets: whether the stop signal is what each
  \<open>select!\<close> takes, what the guard's flag says at each check, the server's answers, the answer of the handler,
  and what others do to the tables in between. \<open>None\<close> is a loop still running when the list ends. An attempt
  to claim that is cancelled by the stop signal may have reached the server.
\<close>

section \<open>Policies\<close>

definition DEFAULT_SUBSCRIPTION_POLL_ERROR_RETRY_INTERVAL :: nanos where
  "DEFAULT_SUBSCRIPTION_POLL_ERROR_RETRY_INTERVAL = 1000000000"
definition MAX_SUBSCRIPTION_POLL_ERROR_RETRY_INTERVAL :: nanos where
  "MAX_SUBSCRIPTION_POLL_ERROR_RETRY_INTERVAL = 30 * 1000000000"
definition MIN_SUBSCRIPTION_POLL_INTERVAL :: nanos where "MIN_SUBSCRIPTION_POLL_INTERVAL = 10 * 1000000"

definition is_retryable_database_operation_error :: "db_error \<Rightarrow> bool" where
  "is_retryable_database_operation_error e =
     (case e of
        DbTransaction _ \<Rightarrow> True
      | DbQuery (Some SerializationFailure) _ \<Rightarrow> True
      | DbQuery (Some DeadlockDetected) _ \<Rightarrow> True
      | DbQuery (Some (OtherSqlState code)) _ \<Rightarrow>
          take 2 code \<in> {''08'', ''53'', ''58''} \<or> code \<in> {''57014'', ''57P01'', ''57P02'', ''57P03'', ''55P03''}
      | DbQuery None _ \<Rightarrow> True
      | _ \<Rightarrow> False)"

definition is_retryable_subscription_poll_error :: "'c fleet_error \<Rightarrow> bool" where
  "is_retryable_subscription_poll_error e =
     (case e of
        FleetDatabase d \<Rightarrow> is_retryable_database_operation_error d
      | FleetCoordination (LeaseDatabase d) \<Rightarrow> is_retryable_database_operation_error d
      | FleetKv (KvDatabase d) \<Rightarrow> is_retryable_database_operation_error d
      | _ \<Rightarrow> False)"

definition normalize_subscription_poll_interval :: "nanos \<Rightarrow> nanos" where
  "normalize_subscription_poll_interval d = max d MIN_SUBSCRIPTION_POLL_INTERVAL"

datatype subscription_poll_error_action = ContinueAfter nanos | StopPolling

datatype ('c, 'e) subscription_run_error =
    SubscriptionFleet "'c fleet_error"
  | PollingGuardLost
  | PollingGuardRelease "'c fleet_error"
  | FleetAndPollingGuardLost "'c fleet_error"
  | FleetAndPollingGuardRelease "'c fleet_error" "'c fleet_error"
  | Handler 'e
  | HandlerAndPollingGuardLost 'e
  | HandlerAndPollingGuardRelease 'e "'c fleet_error"
  | PollingGuardLostAndRelease "'c fleet_error"

text \<open>A policy keeps a state \<open>'s\<close>: the closures for an error and for a successful fetch.\<close>

record ('s, 'c) poll_policy =
  on_poll_error :: "'c fleet_error \<Rightarrow> 's \<Rightarrow> subscription_poll_error_action \<times> 's"
  on_poll_success :: "'s \<Rightarrow> 's"

definition subscription_poll_error_retry_delay_from_policy ::
    "('s, 'c) poll_policy \<Rightarrow> 'c fleet_error \<Rightarrow> 's \<Rightarrow> (('c, 'e) subscription_run_error + nanos) \<times> 's" where
  "subscription_poll_error_retry_delay_from_policy policy e s =
     (if \<not> is_retryable_subscription_poll_error e then (Inl (SubscriptionFleet e), s)
      else case on_poll_error policy e s of
        (ContinueAfter d, s) \<Rightarrow> (Inr (normalize_subscription_poll_interval d), s)
      | (StopPolling, s) \<Rightarrow> (Inl (SubscriptionFleet e), s))"

definition duration_to_microseconds_for_subscription_retry_delay :: "nanos \<Rightarrow> nat" where
  "duration_to_microseconds_for_subscription_retry_delay d = min (d div 1000) (2 ^ 64 - 1)"

text \<open>The default policy: the state is the next delay in microseconds; \<open>saturating_mul\<close> is that of \<open>u64\<close>.\<close>

definition default_poll_policy :: "(nat, 'c) poll_policy" where
  "default_poll_policy =
     \<lparr>on_poll_error = (\<lambda>_ delay. (ContinueAfter (delay * 1000),
        min (min (delay * 2) (2 ^ 64 - 1))
          (duration_to_microseconds_for_subscription_retry_delay MAX_SUBSCRIPTION_POLL_ERROR_RETRY_INTERVAL))),
      on_poll_success = (\<lambda>_. duration_to_microseconds_for_subscription_retry_delay
        DEFAULT_SUBSCRIPTION_POLL_ERROR_RETRY_INTERVAL)\<rparr>"

definition explicit_poll_policy :: "('c fleet_error \<Rightarrow> 's \<Rightarrow> subscription_poll_error_action \<times> 's) \<Rightarrow> ('s, 'c) poll_policy" where
  "explicit_poll_policy f = \<lparr>on_poll_error = f, on_poll_success = id\<rparr>"

definition combine_subscription_run_and_polling_guard_release_results ::
    "('c, 'e) subscription_run_error + unit \<Rightarrow> 'c fleet_error + bool \<Rightarrow> ('c, 'e) subscription_run_error + unit" where
  "combine_subscription_run_and_polling_guard_release_results run_result release_result =
     (case (run_result, release_result) of
        (Inr _, Inr True) \<Rightarrow> Inr ()
      | (Inr _, Inr False) \<Rightarrow> Inl PollingGuardLost
      | (Inr _, Inl s) \<Rightarrow> Inl (PollingGuardRelease s)
      | (Inl (Handler s), Inr False) \<Rightarrow> Inl (HandlerAndPollingGuardLost s)
      | (Inl (Handler s), Inl e) \<Rightarrow> Inl (HandlerAndPollingGuardRelease s e)
      | (Inl (SubscriptionFleet s), Inr False) \<Rightarrow> Inl (FleetAndPollingGuardLost s)
      | (Inl (SubscriptionFleet s), Inl e) \<Rightarrow> Inl (FleetAndPollingGuardRelease s e)
      | (Inl PollingGuardLost, Inl e) \<Rightarrow> Inl (PollingGuardLostAndRelease e)
      | (Inl e, _) \<Rightarrow> Inl e)"

section \<open>Claiming the polling mutex\<close>

record 'c claim_attempt =
  stop_before_claim :: bool
  cancelled_claim_lands :: bool
  attempt_id_text :: "'c id_error + string"
  attempt_call :: "'c lease_call"
  attempt_jitter :: "nanos \<Rightarrow> string + nanos"
  stop_during_wait :: bool

text \<open>\<open>Inr None\<close> is the early \<open>Ok(())\<close> of a stopped loop.\<close>

fun claim_polling_guard ::
    "('v, 'c) subscription \<Rightarrow> ('s, 'c) poll_policy \<Rightarrow> nanos \<Rightarrow> nanos \<Rightarrow> 'c claim_attempt list \<Rightarrow> 's \<Rightarrow> lease_tables
     \<Rightarrow> ((('c, 'e) subscription_run_error + mutex_guard option) \<times> 's \<times> lease_tables) option" where
  "claim_polling_guard sub policy interval max_interval [] s lt = None"
| "claim_polling_guard sub policy interval max_interval (a # rest) s lt =
     (let (claim_result, lt') = try_claim_guard (polling_mutex sub) (attempt_id_text a) (attempt_call a)
            (polling_mutex_guard_config sub) lt
      in if stop_before_claim a then Some (Inr None, s, if cancelled_claim_lands a then lt' else lt)
         else case claim_result of
           Inr (Some (g, _)) \<Rightarrow> Some (Inr (Some g), s, lt')
         | Inr None \<Rightarrow>
             (case attempt_jitter a interval of
                Inl reason \<Rightarrow> Some (Inl (SubscriptionFleet (FleetMutexError (FleetMutexAcquireRetryJitterRandom reason))), s, lt')
              | Inr _ \<Rightarrow> if stop_during_wait a then Some (Inr None, s, lt')
                  else claim_polling_guard sub policy (min (duration_saturating_mul interval 2) max_interval) max_interval
                    rest s lt')
         | Inl e \<Rightarrow>
             (case subscription_poll_error_retry_delay_from_policy policy e s of
                (Inl err, s) \<Rightarrow> Some (Inl err, s, lt')
              | (Inr _, s) \<Rightarrow> if stop_during_wait a then Some (Inr None, s, lt')
                  else claim_polling_guard sub policy interval max_interval rest s lt'))"

section \<open>One turn\<close>

record ('v, 'c, 'e) poll_turn =
  lost_at_start :: bool
  stop_at_cursor :: bool
  cursor_env :: pool_env
  stop_after_error :: bool
  before_fetch :: "kv_table \<Rightarrow> kv_table"
  stop_at_fetch :: bool
  fetch_env :: pool_env
  stop_when_idle :: bool
  lost_before_handler :: bool
  handle_events :: "'v topic_event list \<Rightarrow> 'e + unit"
  before_advance :: "kv_table \<Rightarrow> kv_table"
  lost_after_handler :: bool
  advance_env :: pool_env
  advance_aenv :: atomic_env
  lost_after_advance :: bool
  stop_at_end :: bool
  after_turn :: "kv_table \<Rightarrow> kv_table"

text \<open>
  The state of the loop: its copy of the cursor, the state of the policy, the events of the batches the
  handler has accepted, and the table. A turn goes on with a new state or ends the loop with a result.
\<close>

record ('v, 's) poll_state =
  local_cursor :: "int option"
  policy_state :: 's
  handled :: "'v topic_event list"
  poll_table :: kv_table

definition after_poll_error ::
    "('s, 'c) poll_policy \<Rightarrow> bool \<Rightarrow> 'c fleet_error \<Rightarrow> ('v, 's) poll_state
     \<Rightarrow> ('v, 's) poll_state \<times> (('c, 'e) subscription_run_error + unit) option" where
  "after_poll_error policy stop e st =
     (case subscription_poll_error_retry_delay_from_policy policy e (policy_state st) of
        (Inl err, s) \<Rightarrow> (st\<lparr>policy_state := s\<rparr>, Some (Inl err))
      | (Inr _, s) \<Rightarrow> (st\<lparr>policy_state := s\<rparr>, if stop then Some (Inr ()) else None))"

definition poll_events ::
    "('v, 'c) subscription \<Rightarrow> string \<Rightarrow> ('s, 'c) poll_policy \<Rightarrow> ('v, 'c, 'e) poll_turn \<Rightarrow> int \<Rightarrow> ('v, 's) poll_state
     \<Rightarrow> ('v, 's) poll_state \<times> (('c, 'e) subscription_run_error + unit) option" where
  "poll_events sub protocol policy turn cursor st =
     (if stop_at_fetch turn then (st, Some (Inr ()))
      else case fetch_events_after sub protocol (fetch_env turn) cursor (poll_table st) of
        Inl e \<Rightarrow> after_poll_error policy (stop_after_error turn) e st
      | Inr events \<Rightarrow>
          let st = st\<lparr>policy_state := on_poll_success policy (policy_state st)\<rparr>
          in if events = [] then (st, if stop_when_idle turn then Some (Inr ()) else None)
             else if lost_before_handler turn then (st, Some (Inl PollingGuardLost))
             else case handle_events turn events of
               Inl e \<Rightarrow> (st, Some (Inl (Handler e)))
             | Inr _ \<Rightarrow>
                 let st = st\<lparr>handled := handled st @ events, poll_table := before_advance turn (poll_table st)\<rparr>
                 in if lost_after_handler turn then (st, Some (Inl PollingGuardLost))
                    else case advance_cursor_if_needed sub (advance_env turn) (advance_aenv turn)
                        (event_sequence (last events)) (poll_table st) of
                      (Inl e, t) \<Rightarrow> (st\<lparr>poll_table := t\<rparr>, Some (Inl (SubscriptionFleet e)))
                    | (Inr _, t) \<Rightarrow>
                        let st = st\<lparr>poll_table := t\<rparr>
                        in if lost_after_advance turn then (st, Some (Inl PollingGuardLost))
                           else if stop_at_end turn then (st, Some (Inr ()))
                           else (st\<lparr>local_cursor := Some (event_sequence (last events))\<rparr>, None))"

definition poll_step ::
    "('v, 'c) subscription \<Rightarrow> string \<Rightarrow> ('s, 'c) poll_policy \<Rightarrow> ('v, 'c, 'e) poll_turn \<Rightarrow> ('v, 's) poll_state
     \<Rightarrow> ('v, 's) poll_state \<times> (('c, 'e) subscription_run_error + unit) option" where
  "poll_step sub protocol policy turn st =
     (if lost_at_start turn then (st, Some (Inl PollingGuardLost))
      else case local_cursor st of
        Some cursor \<Rightarrow>
          poll_events sub protocol policy turn cursor (st\<lparr>poll_table := before_fetch turn (poll_table st)\<rparr>)
      | None \<Rightarrow>
          if stop_at_cursor turn then (st, Some (Inr ()))
          else case fetch_cursor sub protocol (cursor_env turn) (poll_table st) of
            Inl e \<Rightarrow> after_poll_error policy (stop_after_error turn) e st
          | Inr cursor \<Rightarrow>
              poll_events sub protocol policy turn cursor
                (st\<lparr>local_cursor := Some cursor, poll_table := before_fetch turn (poll_table st)\<rparr>))"

fun poll_loop ::
    "('v, 'c) subscription \<Rightarrow> string \<Rightarrow> ('s, 'c) poll_policy \<Rightarrow> ('v, 'c, 'e) poll_turn list \<Rightarrow> ('v, 's) poll_state
     \<Rightarrow> ('v, 's) poll_state \<times> (('c, 'e) subscription_run_error + unit) option" where
  "poll_loop sub protocol policy [] st = (st, None)"
| "poll_loop sub protocol policy (turn # rest) st =
     (case poll_step sub protocol policy turn st of
        (st, Some result) \<Rightarrow> (st, Some result)
      | (st, None) \<Rightarrow> poll_loop sub protocol policy rest (st\<lparr>poll_table := after_turn turn (poll_table st)\<rparr>))"

text \<open>
  The whole loop. \<open>after_loop\<close> is what the heartbeat has made of the guard when the loop ends.
\<close>

definition run_polling ::
    "('v, 'c) subscription \<Rightarrow> string \<Rightarrow> ('s, 'c) poll_policy \<Rightarrow> 's \<Rightarrow> 'c claim_attempt list \<Rightarrow> ('v, 'c, 'e) poll_turn list
     \<Rightarrow> (mutex_guard \<Rightarrow> lease_tables \<Rightarrow> mutex_guard \<times> lease_tables) \<Rightarrow> pool_env \<Rightarrow> string option \<Rightarrow> pool_env
     \<Rightarrow> lease_tables \<times> kv_table
     \<Rightarrow> ((('c, 'e) subscription_run_error + unit) \<times> 'v topic_event list \<times> (lease_tables \<times> kv_table)) option" where
  "run_polling sub protocol policy s attempts turns after_loop release_env join drop_env db =
     (case resolve_for_claim_duration (polling_mutex_guard_config sub) (mutex_claim_duration (polling_mutex sub)) of
        Inl e \<Rightarrow> Some (Inl (SubscriptionFleet e), [], db)
      | Inr resolved \<Rightarrow>
          (case claim_polling_guard sub policy (acquire_retry_interval resolved) (max_acquire_retry_interval resolved)
              attempts s (fst db) of
             None \<Rightarrow> None
           | Some (Inl e, _, lt) \<Rightarrow> Some (Inl e, [], (lt, snd db))
           | Some (Inr None, _, lt) \<Rightarrow> Some (Inr (), [], (lt, snd db))
           | Some (Inr (Some g), s, lt) \<Rightarrow>
               (case poll_loop sub protocol policy turns
                   \<lparr>local_cursor = None, policy_state = s, handled = [], poll_table = snd db\<rparr> of
                  (st, None) \<Rightarrow> None
                | (st, Some run_result) \<Rightarrow>
                    let (g, lt) = after_loop g lt;
                        (release_result, lt) = release release_env join drop_env g lt
                    in Some (combine_subscription_run_and_polling_guard_release_results run_result release_result,
                         handled st, (lt, poll_table st)))))"

text \<open>The two public forms: with the default policy, whose first delay is a second, and with the caller's.\<close>

definition run_polling_until_stopped_or_handler_error where
  "run_polling_until_stopped_or_handler_error sub protocol =
     run_polling sub protocol default_poll_policy
       (duration_to_microseconds_for_subscription_retry_delay DEFAULT_SUBSCRIPTION_POLL_ERROR_RETRY_INTERVAL)"

definition run_polling_with_poll_error_policy where
  "run_polling_with_poll_error_policy sub protocol f = run_polling sub protocol (explicit_poll_policy f)"

end
