(* ===== verification/PollingDelivery.thy ===== *)
theory PollingDelivery
  imports TopicPolling
begin

text \<open>
  What the polling loop guarantees when nobody else moves the cursor: every retained event is handed to the
  handler in order, and the cursor moves only over events of batches the handler accepted.
\<close>

lemma fetch_cursor_pool_effect:
  assumes made: "made_topic tp sub" and at: "number_at (cursor_item sub) c t"
    and run: "fetch_cursor sub p env t = Inr v"
  shows "v = c"
proof -
  obtain key x where key: "item_key_is (cursor_item sub) [] key" and x: "lasting_option (cursor_item sub) key x t"
    and c: "c = (case x of None \<Rightarrow> 0 | Some w \<Rightarrow> w)" using at by (auto simp: number_at_def)
  have plain: "item_codec (cursor_item sub) = Plain" using made by (simp add: made_topic_def)
  note got = lasting_get [OF x key plain]
  show ?thesis using run c got
    by (auto simp: fetch_cursor_def sequence_or_zero_def result_bind_eq_Inr_iff split: sum.splits kv_error.splits)
qed

lemma advance_cursor_pool_effect:
  fixes sub :: "('v, 'c) subscription"
  assumes made: "made_topic tp sub" and at: "number_at (cursor_item sub) c t" and s: "c \<le> s"
    and run: "advance_cursor_if_needed sub env aenv s t = (r, t')"
  shows "(\<not> is_ok r \<and> t' = t)
    \<or> (number_at (cursor_item sub) s t' \<and> (\<forall>k. k \<noteq> item_prefix (cursor_item sub) \<longrightarrow> t' k = t k))"
  using run unfolding advance_cursor_if_needed_def
proof (cases rule: fleet_pool_write_answer)
  case (written v tx')
  have "number_at (cursor_item sub) c (tables (begin_transaction t))" using at by (simp add: begin_transaction_def)
  from advance_cursor_effect [OF made this s written(1)] show ?thesis
    using written(2) by (simp add: begin_transaction_def)
qed (simp add: is_ok_def)

section \<open>Other processes\<close>

text \<open>
  What others do to the tables between two statements of the loop: they publish, rows expire and are purged,
  and anything else that leaves the rows of the topic and the cursor alone.
\<close>

definition others_at_work :: "('v, 'c) topic \<Rightarrow> ('v, 'c) subscription \<Rightarrow> (kv_table \<Rightarrow> kv_table) \<Rightarrow> bool" where
  "others_at_work tp sub f \<longleftrightarrow> (\<forall>pub t. published tp pub t \<longrightarrow>
     (\<exists>new. published tp (pub @ new) (f t)) \<and> f t (item_prefix (cursor_item sub)) = t (item_prefix (cursor_item sub))
     \<and> (\<forall>s. 1 \<le> s \<and> s \<le> int (length pub) \<longrightarrow>
          f t (event_row_key tp s) = t (event_row_key tp s) \<or> f t (event_row_key tp s) = None))"

definition turn_is_fair :: "('v, 'c) topic \<Rightarrow> ('v, 'c) subscription \<Rightarrow> micros \<Rightarrow> ('v, 'c, 'e) poll_turn \<Rightarrow> bool" where
  "turn_is_fair tp sub end_time turn \<longleftrightarrow>
     others_at_work tp sub (before_fetch turn) \<and> others_at_work tp sub (before_advance turn)
     \<and> others_at_work tp sub (after_turn turn) \<and> env_now (fetch_env turn) \<le> end_time"

section \<open>The invariant\<close>

definition latest_handled :: "int \<Rightarrow> 'v topic_event list \<Rightarrow> int" where
  "latest_handled start events = (if events = [] then start else event_sequence (last events))"

definition polled ::
    "('v, 'c) topic \<Rightarrow> ('v, 'c) subscription \<Rightarrow> int \<Rightarrow> micros \<Rightarrow> 'v list \<Rightarrow> int \<Rightarrow> 'v topic_event list \<Rightarrow> kv_table \<Rightarrow> bool" where
  "polled tp sub start end_time pub c events t \<longleftrightarrow>
     published tp pub t \<and> number_at (cursor_item sub) c t \<and> 0 \<le> start \<and> start \<le> c \<and> c \<le> latest_handled start events
     \<and> latest_handled start events \<le> int (length pub)
     \<and> (c = start \<or> c \<in> event_sequence ` set events)
     \<and> sorted_wrt (<) (map event_sequence events)
     \<and> (\<forall>e \<in> set events. start < event_sequence e \<and> event_sequence e \<le> int (length pub)
          \<and> event_data e = pub ! (nat (event_sequence e) - 1))
     \<and> (\<forall>s. start < s \<longrightarrow> s \<le> latest_handled start events \<longrightarrow> live_row end_time t (event_row_key tp s) \<noteq> None \<longrightarrow>
          s \<in> event_sequence ` set events)"

lemma polled_others:
  assumes made: "made_topic tp sub" and inv: "polled tp sub start end_time pub c events t"
    and others: "others_at_work tp sub f"
  shows "\<exists>new. polled tp sub start end_time (pub @ new) c events (f t)"
proof -
  have pub: "published tp pub t" and at: "number_at (cursor_item sub) c t" and up: "latest_handled start events \<le> int (length pub)"
    and start: "0 \<le> start" and order: "start \<le> c" "c \<le> latest_handled start events"
    and member: "c = start \<or> c \<in> event_sequence ` set events" and sorted: "sorted_wrt (<) (map event_sequence events)"
    and evs: "\<And>e. e \<in> set events \<Longrightarrow> start < event_sequence e \<and> event_sequence e \<le> int (length pub)
          \<and> event_data e = pub ! (nat (event_sequence e) - 1)"
    and complete: "\<And>s. start < s \<Longrightarrow> s \<le> latest_handled start events \<Longrightarrow> live_row end_time t (event_row_key tp s) \<noteq> None \<Longrightarrow>
          s \<in> event_sequence ` set events"
    using inv unfolding polled_def by auto
  obtain new where new: "published tp (pub @ new) (f t)"
    and cursor: "f t (item_prefix (cursor_item sub)) = t (item_prefix (cursor_item sub))"
    and rows: "\<And>s. 1 \<le> s \<and> s \<le> int (length pub) \<longrightarrow>
          f t (event_row_key tp s) = t (event_row_key tp s) \<or> f t (event_row_key tp s) = None"
    using others [unfolded others_at_work_def, rule_format, OF pub] by (elim conjE exE) (erule (1) that, simp)
  have 1: "number_at (cursor_item sub) c (f t)" using at number_at_row [of "f t" "cursor_item sub" t] cursor by simp
  have 2: "s \<in> event_sequence ` set events"
    if "start < s" "s \<le> latest_handled start events" "live_row end_time (f t) (event_row_key tp s) \<noteq> None" for s
  proof -
    have "1 \<le> s \<and> s \<le> int (length pub)" using that start up by simp
    then have "f t (event_row_key tp s) = t (event_row_key tp s) \<or> f t (event_row_key tp s) = None"
      by (rule rows [rule_format])
    then show ?thesis
    proof
      assume "f t (event_row_key tp s) = t (event_row_key tp s)"
      then show ?thesis using complete [OF that(1,2)] that(3) live_row_same by metis
    qed (use that(3) in \<open>simp add: live_row_def\<close>)
  qed
  have 3: "start < event_sequence e \<and> event_sequence e \<le> int (length (pub @ new))
      \<and> event_data e = (pub @ new) ! (nat (event_sequence e) - 1)" if "e \<in> set events" for e
    using evs [OF that] start by (auto simp: nth_append)
  have complete': "\<forall>s. start < s \<longrightarrow> s \<le> latest_handled start events \<longrightarrow>
      live_row end_time (f t) (event_row_key tp s) \<noteq> None \<longrightarrow> s \<in> event_sequence ` set events"
    by (intro allI impI) (rule 2)
  have events': "\<forall>e \<in> set events. start < event_sequence e \<and> event_sequence e \<le> int (length (pub @ new))
      \<and> event_data e = (pub @ new) ! (nat (event_sequence e) - 1)"
    by (intro ballI) (rule 3)
  have 4: "latest_handled start events \<le> int (length (pub @ new))" using up by simp
  show ?thesis
    unfolding polled_def
    by (intro exI [of _ new] conjI) (rule new start order member sorted 1 complete' events' 4)+
qed

lemma polled_row_before: "polled tp sub start end_time pub c events t \<Longrightarrow> c \<le> i64_max"
  by (auto simp: polled_def published_def)

text \<open>A batch the handler accepted.\<close>

lemma polled_batch:
  fixes tp :: "('v, 'c) topic"
  assumes made: "made_topic tp sub" and inv: "polled tp sub start end_time pub c events t"
    and c: "c = latest_handled start events"
    and batch: "batch = map (stored_event tp t) (next_sequences tp limit now (length pub) t c)" "batch \<noteq> []"
    and now: "now \<le> end_time"
  shows "polled tp sub start end_time pub c (events @ batch) t" and "c < event_sequence (last batch)"
proof -
  define ns where "ns = next_sequences tp limit now (length pub) t c"
  have pub: "published tp pub t" and at: "number_at (cursor_item sub) c t" and up: "c \<le> int (length pub)"
    and start: "0 \<le> start" "start \<le> c" and member: "c = start \<or> c \<in> event_sequence ` set events"
    and evs: "\<And>e. e \<in> set events \<Longrightarrow> start < event_sequence e \<and> event_sequence e \<le> int (length pub)
          \<and> event_data e = pub ! (nat (event_sequence e) - 1)"
    and complete: "\<And>s. start < s \<Longrightarrow> s \<le> c \<Longrightarrow> live_row end_time t (event_row_key tp s) \<noteq> None \<Longrightarrow>
          s \<in> event_sequence ` set events" and sorted: "sorted_wrt (<) (map event_sequence events)"
    using inv c unfolding polled_def by auto
  have ne: "ns \<noteq> []" using batch by (simp add: ns_def)
  have seqs: "map event_sequence batch = ns" by (simp add: batch(1) comp_def stored_event_def ns_def)
  then have lst: "event_sequence (last batch) = last ns" using last_map [OF batch(2), of event_sequence] by simp
  have ns: "c < s \<and> 1 \<le> s \<and> s \<le> int (length pub) \<and> live_row now t (event_row_key tp s) \<noteq> None" if "s \<in> set ns" for s
    using that by (auto simp: ns_def next_sequences_def live_sequences_set dest!: in_set_takeD)
  note last_ns = next_sequences_last [OF ne [unfolded ns_def], folded ns_def]
  show "c < event_sequence (last batch)" using last_ns lst by simp
  have latest: "latest_handled start (events @ batch) = last ns" using batch(2) lst by (simp add: latest_handled_def)
  have low: "x \<le> c" if x: "x \<in> set (map event_sequence events)" for x
  proof -
    obtain es e where es: "events = es @ [e]" using x by (cases events rule: rev_cases) auto
    then have "c = event_sequence e" using c by (simp add: latest_handled_def)
    then show ?thesis using sorted x by (auto simp: es sorted_wrt_append order_less_imp_le)
  qed
  have 1: "sorted_wrt (<) (map event_sequence (events @ batch))"
  proof -
    have "x < y" if "x \<in> set (map event_sequence events)" "y \<in> set ns" for x y
      using low [OF that(1)] ns [OF that(2)] by simp
    then show ?thesis using sorted sorted_sequences(2) seqs unfolding map_append sorted_wrt_append ns_def by metis
  qed
  have 2: "start < event_sequence e \<and> event_sequence e \<le> int (length pub) \<and> event_data e = pub ! (nat (event_sequence e) - 1)"
    if e: "e \<in> set (events @ batch)" for e
  proof (cases "e \<in> set events")
    case False
    then obtain s where s: "s \<in> set ns" "e = stored_event tp t s" using e batch(1) by (auto simp: ns_def)
    obtain r where "t (event_row_key tp s) = Some r" using ns [OF s(1)] by (auto simp: live_row_def split: option.splits)
    then have "envelope_data (stored_envelope tp t s) = pub ! (nat s - 1)"
      using stored_envelope_row(2) [of tp pub t s] pub ns [OF s(1)] by (simp add: published_def)
    then show ?thesis using ns [OF s(1)] s(2) start by (simp add: stored_event_def)
  qed (use evs in blast)
  have 3: "s \<in> event_sequence ` set (events @ batch)"
    if "start < s" "s \<le> last ns" "live_row end_time t (event_row_key tp s) \<noteq> None" for s
  proof (cases "s \<le> c")
    case True
    then show ?thesis using complete [OF that(1) True that(3)] by auto
  next
    case False
    have "s \<in> set ns" unfolding ns_def
      by (rule next_sequences_complete)
        (use that False start ne last_ns live_row_before [OF now that(3)] in \<open>auto simp: ns_def\<close>)
    then have "s \<in> event_sequence ` set batch" using seqs by (metis list.set_map)
    then show ?thesis by auto
  qed
  show "polled tp sub start end_time pub c (events @ batch) t"
    unfolding polled_def latest
    by (intro conjI ballI allI impI) (use pub at start member last_ns 1 2 3 in auto)
qed

lemma polled_advance:
  fixes tp :: "('v, 'c) topic"
  assumes made: "made_topic tp sub" and inv: "polled tp sub start end_time pub c events t" and ne: "events \<noteq> []"
    and run: "advance_cursor_if_needed sub env aenv (event_sequence (last events)) t = (r, t')"
  shows "(\<not> is_ok r \<and> polled tp sub start end_time pub c events t')
    \<or> polled tp sub start end_time pub (latest_handled start events) events t'"
proof -
  have at: "number_at (cursor_item sub) c t" and le: "c \<le> event_sequence (last events)"
    using inv ne unfolding polled_def latest_handled_def by auto
  from advance_cursor_pool_effect [OF made at le run] show ?thesis
  proof (elim disjE conjE)
    assume num: "number_at (cursor_item sub) (event_sequence (last events)) t'"
      and same: "\<forall>k. k \<noteq> item_prefix (cursor_item sub) \<longrightarrow> t' k = t k"
    have apart: "item_prefix (cursor_item sub) \<noteq> item_prefix (sequence_item tp)"
      "\<not> prefix (event_prefix tp) (item_prefix (cursor_item sub))"
      using made by (auto simp: made_topic_def)
    have row: "t' (event_row_key tp s) = t (event_row_key tp s)" for s
      by (rule same [rule_format]) (use apart(2) in \<open>auto simp: event_row_key_def dest: sym\<close>)
    have "event_rows tp pub t'"
      by (rule event_rows_keep [of tp pub t]) (use inv same apart(2) in \<open>auto simp: polled_def published_def\<close>)
    moreover have "number_at (sequence_item tp) (int (length pub)) t'"
      using inv same apart(1) number_at_row [of t' "sequence_item tp" t] unfolding polled_def published_def by metis
    ultimately have "published tp pub t'" using inv by (simp add: polled_def published_def)
    moreover have "live_row end_time t' (event_row_key tp s) = live_row end_time t (event_row_key tp s)" for s
      by (rule live_row_same) (rule row)
    moreover have "latest_handled start events = event_sequence (last events)" "last events \<in> set events"
      using ne by (simp_all add: latest_handled_def)
    ultimately have "polled tp sub start end_time pub (latest_handled start events) events t'"
      using inv num unfolding polled_def by (elim conjE, intro conjI) auto
    then show ?thesis ..
  qed (use inv in blast)
qed

section \<open>The loop\<close>

text \<open>What holds when a turn is over with a state and perhaps a result.\<close>

definition orderly_end :: "(('c, 'e) subscription_run_error + unit) option \<Rightarrow> bool" where
  "orderly_end res \<longleftrightarrow> (case res of None \<Rightarrow> True | Some (Inr _) \<Rightarrow> True | Some (Inl (Handler _)) \<Rightarrow> True | _ \<Rightarrow> False)"

definition cursor_known :: "int \<Rightarrow> ('v, 's) poll_state \<Rightarrow> bool" where
  "cursor_known start st \<longleftrightarrow> (local_cursor st = None \<longrightarrow> handled st = [])
     \<and> (\<forall>l. local_cursor st = Some l \<longrightarrow> l = latest_handled start (handled st))"

definition turn_over ::
    "('v, 'c) topic \<Rightarrow> ('v, 'c) subscription \<Rightarrow> int \<Rightarrow> micros \<Rightarrow> 'v list
     \<Rightarrow> ('v, 's) poll_state \<times> (('c, 'e) subscription_run_error + unit) option \<Rightarrow> bool" where
  "turn_over tp sub start end_time pub result \<longleftrightarrow>
     (\<exists>new c. polled tp sub start end_time (pub @ new) c (handled (fst result)) (poll_table (fst result))
        \<and> (orderly_end (snd result) \<longrightarrow> c = latest_handled start (handled (fst result)))
        \<and> (snd result = None \<longrightarrow> cursor_known start (fst result)))"

lemma turn_over_same:
  assumes "polled tp sub start end_time (pub @ new) (latest_handled start (handled st)) (handled st) (poll_table st)"
    and "cursor_known start st"
  shows "turn_over tp sub start end_time pub (st, res)"
  using assms unfolding turn_over_def by (intro exI [of _ new] exI [of _ "latest_handled start (handled st)"]) simp

lemma after_poll_error_over:
  assumes "polled tp sub start end_time (pub @ new) (latest_handled start (handled st)) (handled st) (poll_table st)"
    and "cursor_known start st"
  shows "turn_over tp sub start end_time pub (after_poll_error policy stop e st)"
proof -
  let ?r = "subscription_poll_error_retry_delay_from_policy policy e (policy_state st) :: ((_, 'e) subscription_run_error + nanos) \<times> _"
  have "turn_over tp sub start end_time pub (st\<lparr>policy_state := s\<rparr>, res)" for s res
    by (rule turn_over_same [of tp sub start end_time pub new]) (use assms in \<open>simp_all add: cursor_known_def\<close>)
  then show ?thesis unfolding after_poll_error_def by (auto split: prod.splits sum.splits)
qed

lemma poll_events_over:
  fixes tp :: "('v, 'c) topic"
  assumes made: "made_topic tp sub" and fair: "turn_is_fair tp sub end_time turn"
    and inv: "polled tp sub start end_time (pub @ new) c (handled (st :: ('v, 's) poll_state)) (poll_table st)"
    and c: "c = latest_handled start (handled st)" and local: "local_cursor st = Some c"
  shows "turn_over tp sub start end_time pub (poll_events sub p policy (turn :: ('v, 'c, 'e) poll_turn) c st)"
proof -
  have same: "turn_over tp sub start end_time pub (st\<lparr>policy_state := s\<rparr>, res)" for s :: 's and res :: "(('c, 'e) subscription_run_error + unit) option"
    by (rule turn_over_same [of tp sub start end_time pub new]) (use inv c local in \<open>simp_all add: cursor_known_def\<close>)
  have stays: "turn_over tp sub start end_time pub (st, res)" for res :: "(('c, 'e) subscription_run_error + unit) option"
    by (rule turn_over_same [of tp sub start end_time pub new]) (use inv c local in \<open>simp_all add: cursor_known_def\<close>)
  show ?thesis
  proof (cases "stop_at_fetch turn")
    case False
    show ?thesis
    proof (cases "fetch_events_after sub p (fetch_env turn) c (poll_table st) :: 'c fleet_error + _")
      case (Inl e)
      have "turn_over tp sub start end_time pub (after_poll_error policy (stop_after_error turn) e st)"
        by (rule after_poll_error_over [of tp sub start end_time pub new]) (use inv c local in \<open>simp_all add: cursor_known_def\<close>)
      then show ?thesis using False Inl by (simp add: poll_events_def)
    next
      case (Inr batch)
      let ?s = "on_poll_success policy (policy_state st)"
      show ?thesis
      proof (cases "batch = [] \<or> lost_before_handler turn \<or> \<not> is_ok (handle_events turn batch)")
        case True
        then show ?thesis using False Inr same [of ?s]
          by (auto simp: poll_events_def Let_def is_ok_def split: sum.splits)
      next
        case accepted: False
        have pub: "published tp (pub @ new) (poll_table st)" and start: "0 \<le> start" "start \<le> c"
          using inv by (simp_all add: polled_def)
        have cc: "0 \<le> c" "c \<le> i64_max" using start inv by (auto simp: polled_def published_def)
        have batch: "batch = map (stored_event tp (poll_table st))
            (next_sequences tp (poll_limit sub) (env_now (fetch_env turn)) (length (pub @ new)) (poll_table st) c)"
          using fetch_events_pool_effect [OF made pub cc Inr] .
        have now: "env_now (fetch_env turn) \<le> end_time" using fair by (simp add: turn_is_fair_def)
        have ne: "batch \<noteq> []" using accepted by simp
        note step1 = polled_batch [OF made inv c batch ne now]
        have other: "others_at_work tp sub (before_advance turn)" using fair by (simp add: turn_is_fair_def)
        let ?st = "st\<lparr>policy_state := ?s, handled := handled st @ batch, poll_table := before_advance turn (poll_table st)\<rparr>"
        obtain new' where inv': "polled tp sub start end_time ((pub @ new) @ new') c (handled ?st) (poll_table ?st)"
          using polled_others [OF made step1(1) other] by auto
        obtain r t' where adv: "advance_cursor_if_needed sub (advance_env turn) (advance_aenv turn)
            (event_sequence (last batch)) (poll_table ?st) = (r :: 'c fleet_error + unit, t')" by fastforce
        have ne': "handled ?st \<noteq> []" using ne by simp
        have adv': "advance_cursor_if_needed sub (advance_env turn) (advance_aenv turn)
            (event_sequence (last (handled ?st))) (poll_table ?st) = (r, t')" using adv ne by simp
        then have after: "(\<not> is_ok r \<and> polled tp sub start end_time (pub @ new @ new') c (handled ?st) t')
            \<or> polled tp sub start end_time (pub @ new @ new') (event_sequence (last batch)) (handled ?st) t'"
          using polled_advance [OF made inv' ne' adv'] ne by (simp add: latest_handled_def)
        have lat: "latest_handled start (handled st @ batch) = event_sequence (last batch)" using ne by (simp add: latest_handled_def)
        have fin: "turn_over tp sub start end_time pub (st2, res)"
          if "handled st2 = handled st @ batch" "poll_table st2 = t'" "orderly_end res \<longrightarrow> is_ok r"
            "res = None \<longrightarrow> local_cursor st2 = Some (event_sequence (last batch))"
          for st2 :: "('v, 's) poll_state" and res :: "(('c, 'e) subscription_run_error + unit) option"
          using after
        proof (elim disjE conjE)
          assume "\<not> is_ok r" "polled tp sub start end_time (pub @ new @ new') c (handled ?st) t'"
          then show ?thesis using that unfolding turn_over_def
            by (intro exI [of _ "new @ new'"] exI [of _ c]) (auto simp: orderly_end_def split: option.splits)
        next
          assume "polled tp sub start end_time (pub @ new @ new') (event_sequence (last batch)) (handled ?st) t'"
          then show ?thesis using that lat unfolding turn_over_def
            by (intro exI [of _ "new @ new'"] exI [of _ "event_sequence (last batch)"]) (simp add: cursor_known_def)
        qed
        have mid: "turn_over tp sub start end_time pub (?st, Some (Inl PollingGuardLost) :: (('c, 'e) subscription_run_error + unit) option)"
          unfolding turn_over_def using inv' by (intro exI [of _ "new @ new'"] exI [of _ c]) (simp add: orderly_end_def)
        show ?thesis
        proof (cases r)
          case (Inl e)
          then show ?thesis using False Inr accepted adv mid
            by (auto simp: poll_events_def Let_def is_ok_def orderly_end_def intro!: fin split: sum.splits)
        next
          case r: (Inr u)
          then show ?thesis using False Inr accepted adv mid
            by (auto simp: poll_events_def Let_def is_ok_def intro!: fin split: sum.splits)
        qed
      qed
    qed
  qed (simp add: poll_events_def stays)
qed

lemma poll_step_over:
  fixes tp :: "('v, 'c) topic"
  assumes made: "made_topic tp sub" and fair: "turn_is_fair tp sub end_time turn"
    and inv: "polled tp sub start end_time (pub @ new) (latest_handled start (handled st)) (handled st) (poll_table st)"
    and known: "cursor_known start st"
  shows "turn_over tp sub start end_time pub (poll_step sub p policy turn st)"
proof -
  let ?c = "latest_handled start (handled st)" and ?t = "before_fetch turn (poll_table st)"
  have stays: "turn_over tp sub start end_time pub (st, res)" for res :: "(('c, 'e) subscription_run_error + unit) option"
    by (rule turn_over_same [of tp sub start end_time pub new]) (use inv known in simp_all)
  have other: "others_at_work tp sub (before_fetch turn)" using fair by (simp add: turn_is_fair_def)
  obtain new' where inv': "polled tp sub start end_time (pub @ new @ new') ?c (handled st) ?t"
    using polled_others [OF made inv other] by auto
  have go_on: "turn_over tp sub start end_time pub (poll_events sub p policy turn ?c st2)"
    if "handled st2 = handled st" "poll_table st2 = ?t" "local_cursor st2 = Some ?c" for st2
    by (rule poll_events_over [OF made fair, of _ _ "new @ new'"]) (use inv' that in simp_all)
  show ?thesis
  proof (cases "lost_at_start turn")
    case False
    show ?thesis
    proof (cases "local_cursor st")
      case None
      show ?thesis
      proof (cases "stop_at_cursor turn")
        case no: False
        show ?thesis
        proof (cases "fetch_cursor sub p (cursor_env turn) (poll_table st) :: 'c fleet_error + int")
          case (Inl e)
          have "turn_over tp sub start end_time pub (after_poll_error policy (stop_after_error turn) e st)"
            by (rule after_poll_error_over [of tp sub start end_time pub new]) (use inv known in simp_all)
          then show ?thesis using False None no Inl by (simp add: poll_step_def)
        next
          case (Inr v)
          have "number_at (cursor_item sub) ?c (poll_table st)" using inv by (simp add: polled_def)
          then have "v = ?c" using fetch_cursor_pool_effect [OF made _ Inr] by blast
          then show ?thesis using False None no Inr go_on by (simp add: poll_step_def)
        qed
      qed (simp add: poll_step_def False None stays)
    next
      case (Some l)
      then have l: "l = ?c" using known by (simp add: cursor_known_def)
      then show ?thesis using False Some l go_on by (simp add: poll_step_def)
    qed
  qed (simp add: poll_step_def stays)
qed

lemma turn_over_Some: "turn_over tp sub start end_time (pub @ new) (st, Some r) \<Longrightarrow> turn_over tp sub start end_time pub (st, Some r)"
  unfolding turn_over_def by (metis append.assoc snd_conv option.distinct(1))

lemma poll_loop_over:
  fixes tp :: "('v, 'c) topic"
  assumes made: "made_topic tp sub"
  shows "\<forall>turn \<in> set turns. turn_is_fair tp sub end_time turn \<Longrightarrow>
    polled tp sub start end_time (pub @ new) (latest_handled start (handled st)) (handled st) (poll_table st) \<Longrightarrow>
    cursor_known start st \<Longrightarrow> turn_over tp sub start end_time pub (poll_loop sub p policy turns st)"
proof (induction turns arbitrary: st new)
  case Nil
  then show ?case by (simp add: turn_over_same)
next
  case (Cons turn rest)
  have fair: "turn_is_fair tp sub end_time turn" using Cons.prems(1) by simp
  obtain st1 res where step: "poll_step sub p policy turn st = (st1, res)" by fastforce
  have over: "turn_over tp sub start end_time pub (st1, res)"
    using poll_step_over [OF made fair Cons.prems(2,3), of p policy] step by simp
  show ?case
  proof (cases res)
    case None
    obtain new1 where inv1: "polled tp sub start end_time (pub @ new1) (latest_handled start (handled st1)) (handled st1) (poll_table st1)"
      and known1: "cursor_known start st1"
      using over None by (auto simp: turn_over_def orderly_end_def)
    have other: "others_at_work tp sub (after_turn turn)" using fair by (simp add: turn_is_fair_def)
    obtain new2 where inv2: "polled tp sub start end_time (pub @ new1 @ new2) (latest_handled start (handled st1)) (handled st1)
        (after_turn turn (poll_table st1))"
      using polled_others [OF made inv1 other] by auto
    have "turn_over tp sub start end_time pub (poll_loop sub p policy rest (st1\<lparr>poll_table := after_turn turn (poll_table st1)\<rparr>))"
      by (rule Cons.IH [of "new1 @ new2"]) (use Cons.prems(1) inv2 known1 in \<open>simp_all add: cursor_known_def\<close>)
    then show ?thesis using step None by simp
  next
    case (Some r)
    then show ?thesis using step over by simp
  qed
qed

text \<open>C5: The polling loop delivers at least once. In every run of it, with any answers of the servers, lost
  acknowledgements, failing handlers and lost guards, while others publish, purge and let rows expire but
  leave the cursor alone: the events of accepted batches have strictly increasing numbers above the cursor
  found at the start and carry what was published under them; no event up to the last of them that is still
  retained was left out; the persisted cursor is the old one or the number of an accepted event; and when
  the loop still runs, was stopped, or ended because the handler failed, it is that of the last accepted event,
  so that a failed batch is read again.\<close>

theorem polling_delivers_at_least_once:
  fixes tp :: "('v, 'c) topic"
  assumes "new_topic base event_base root_key key ttl = Inr tp" and "faithful base" "faithful event_base"
    and "subscribe tp protocol sub_key limit = Inr sub"
    and "published tp pub t" and "number_at (cursor_item sub) start t" and "0 \<le> start" "start \<le> int (length pub)"
    and "\<forall>turn \<in> set turns. turn_is_fair tp sub end_time turn"
    and "poll_loop sub protocol policy turns \<lparr>local_cursor = None, policy_state = s, handled = [], poll_table = t\<rparr> = (st, res)"
  shows "\<exists>new c. number_at (cursor_item sub) c (poll_table st)
    \<and> (c = start \<or> c \<in> event_sequence ` set (handled st))
    \<and> (orderly_end res \<longrightarrow> c = latest_handled start (handled st))
    \<and> sorted_wrt (<) (map event_sequence (handled st))
    \<and> (\<forall>e \<in> set (handled st). start < event_sequence e \<and> event_sequence e \<le> int (length (pub @ new))
         \<and> event_data e = (pub @ new) ! (nat (event_sequence e) - 1))
    \<and> (\<forall>n. start < n \<and> n \<le> latest_handled start (handled st)
         \<and> live_row end_time (poll_table st) (event_row_key tp n) \<noteq> None \<longrightarrow> n \<in> event_sequence ` set (handled st))"
proof -
  have made: "made_topic tp sub" by (rule subscribed_topic_made [OF assms(1-4)])
  let ?st = "\<lparr>local_cursor = None, policy_state = s, handled = [], poll_table = t\<rparr>"
  have "turn_over tp sub start end_time pub (poll_loop sub protocol policy turns ?st)"
    by (rule poll_loop_over [OF made assms(9), of start pub "[]"])
      (use assms(5-8) in \<open>simp_all add: polled_def latest_handled_def cursor_known_def\<close>)
  then obtain new c where inv: "polled tp sub start end_time (pub @ new) c (handled st) (poll_table st)"
    and orderly: "orderly_end res \<longrightarrow> c = latest_handled start (handled st)"
    unfolding assms(10) turn_over_def by auto
  note inv = inv [unfolded polled_def]
  show ?thesis
    by (intro exI [of _ new] exI [of _ c] conjI allI impI) (use inv orderly in blast)+
qed

section \<open>A concrete turn\<close>

definition demo_turn :: "(int, unit, unit) poll_turn" where
  "demo_turn = \<lparr>lost_at_start = False, stop_at_cursor = False, cursor_env = calm_pool, stop_after_error = False,
     before_fetch = id, stop_at_fetch = False, fetch_env = calm_pool, stop_when_idle = False, lost_before_handler = False,
     handle_events = (\<lambda>_. Inr ()), before_advance = id, lost_after_handler = False, advance_env = calm_pool,
     advance_aenv = calm_env, lost_after_advance = False, stop_at_end = True, after_turn = id\<rparr>"

definition demo_poll_state :: "(int, nat) poll_state" where
  "demo_poll_state = \<lparr>local_cursor = None, policy_state = 0, handled = [], poll_table = demo_published\<rparr>"

lemma others_idle: "others_at_work tp sub id"
  unfolding others_at_work_def by (auto intro: exI [of _ "[]"])

lemmas demo_pool_read_defs = kv_pool_read_def pool_read_def calm_pool_def finish_rollback_only_transaction_def
  demo_items demo_topic_keys [unfolded demo_items] demo_rows result_bind_def demo_digits_zero

lemma demo_fetch_cursor: "fetch_cursor demo_subscription ''p'' calm_pool demo_published = Inr 0"
  by (simp add: fetch_cursor_def item_get_def get_bytes_def demo_pool_read_defs with_key_def admitted_def admit_def
      supported_reply_def supported_row_def begin_transaction_def SUPPORTED_EPOCH_def SUPPORTED_FINGERPRINT_def
      get_bytes_in_current_transaction_def get_bytes_with_executor_def get_bytes_statement_def live_row_def
      sequence_or_zero_def)

lemma demo_fetch_events:
  "fetch_events_after demo_subscription ''p'' calm_pool 0 demo_published
     = Inr [\<lparr>event_sequence = 1, event_published_at = 5, event_data = 7\<rparr>]"
  by (simp add: fetch_events_after_def item_scan_def scan_bytes_with_prefix_def demo_pool_read_defs admitted_def admit_def
      supported_reply_def supported_row_def begin_transaction_def SUPPORTED_EPOCH_def SUPPORTED_FINGERPRINT_def
      demo_decoded demo_parsed scanned_topic_events_to_public_events_def validate_non_negative_topic_sequence_def
      after_key_from_optional_suffix_def kv_key_from_prefix_and_raw_suffix_def kv_validate_raw_suffix_cursor_def
      kv_validate_key_length_def MAX_KV_KEY_BYTES_def KV_KEY_SEPARATOR_def kv_validate_scan_limit_def
      scan_bytes_with_prefix_in_current_transaction_def scan_bytes_with_prefix_with_executor_def
      MAX_KV_SCAN_LIMIT_def scan_after_key_text_def prefix_contains_key_def scan_bytes_with_prefix_statement_def demo_scan)

lemma demo_advance: "is_ok (fst (advance_cursor_if_needed demo_subscription calm_pool calm_env 1 demo_published))"
  by (simp add: advance_cursor_if_needed_def fleet_pool_write_def pool_write_def calm_pool_def demo_mutation_defs demo_items
      demo_topic_keys [unfolded demo_items] demo_rows advance_cursor_if_needed_in_current_transaction_def
      validate_non_negative_topic_sequence_def decide_advance_cursor_def byte_numbers_codec try_lock_first)

lemma demo_poll_ends:
  "snd (poll_loop demo_subscription ''p'' default_poll_policy [demo_turn] demo_poll_state) = Some (Inr ())"
proof -
  obtain u t where "advance_cursor_if_needed demo_subscription calm_pool calm_env 1 demo_published = (Inr u, t)"
    using demo_advance by (cases "advance_cursor_if_needed demo_subscription calm_pool calm_env 1 demo_published";
        cases "fst (advance_cursor_if_needed demo_subscription calm_pool calm_env 1 demo_published)") (auto simp: is_ok_def)
  then show ?thesis
    by (simp add: poll_step_def poll_events_def demo_turn_def demo_poll_state_def Let_def demo_fetch_cursor demo_fetch_events)
qed

theorem polling_delivers_at_least_once_witness:
  "\<exists>st. poll_loop demo_subscription ''p'' default_poll_policy [demo_turn] demo_poll_state = (st, Some (Inr ()))
     \<and> number_at (cursor_item demo_subscription) (latest_handled 0 (handled st)) (poll_table st)"
proof -
  obtain st where st: "poll_loop demo_subscription ''p'' default_poll_policy [demo_turn] demo_poll_state = (st, Some (Inr ()))"
    using demo_poll_ends by (metis prod.collapse)
  have fair: "\<forall>turn \<in> set [demo_turn]. turn_is_fair demo_topic demo_subscription 6 turn"
    by (simp add: turn_is_fair_def demo_turn_def others_idle calm_pool_def)
  from polling_delivers_at_least_once [OF demo_topic_new byte_numbers_faithful byte_events_faithful demo_subscribe
      demo_published_inv _ _ fair st [unfolded demo_poll_state_def]]
  show ?thesis using st by (auto simp: orderly_end_def)
qed

end
