(* ===== verification/Table.thy ===== *)
theory Table
  imports Prelude "HOL-Library.Product_Lexorder"
begin

text \<open>
  A database table keyed by its primary key: the list of its rows, in whatever order the server
  stores and returns them. A statement selects keys with a condition, an order and a limit, and
  then updates, deletes or inserts rows.
\<close>

definition update_rows :: "'k list \<Rightarrow> ('r \<Rightarrow> 'r) \<Rightarrow> ('k \<times> 'r) list \<Rightarrow> ('k \<times> 'r) list" where
  "update_rows ks f t = map (\<lambda>(k, r). if k \<in> set ks then (k, f r) else (k, r)) t"

definition delete_rows :: "'k list \<Rightarrow> ('k \<times> 'r) list \<Rightarrow> ('k \<times> 'r) list" where
  "delete_rows ks t = filter (\<lambda>(k, r). k \<notin> set ks) t"

definition rows_of :: "'k list \<Rightarrow> ('k \<times> 'r) list \<Rightarrow> ('k \<times> 'r) list" where
  "rows_of ks t = filter (\<lambda>(k, r). k \<in> set ks) t"

text \<open>\<open>SELECT id ... WHERE ... ORDER BY ... LIMIT n\<close>\<close>

definition select_keys ::
    "('k \<times> 'r \<Rightarrow> bool) \<Rightarrow> ('k \<times> 'r \<Rightarrow> 'o :: linorder) \<Rightarrow> nat \<Rightarrow> ('k \<times> 'r) list \<Rightarrow> 'k list" where
  "select_keys P order n t = take n (map fst (sort_key order (filter P t)))"

definition well_keyed :: "('k \<times> 'r) list \<Rightarrow> bool" where
  "well_keyed t \<longleftrightarrow> distinct (map fst t)"

lemma fst_update_rows [simp]: "map fst (update_rows ks f t) = map fst t"
  by (auto simp: update_rows_def)

lemma map_of_update_rows:
  "map_of (update_rows ks f t) k = (if k \<in> set ks then map_option f (map_of t k) else map_of t k)"
  by (induction t) (auto simp: update_rows_def)

lemma map_of_delete_rows:
  "map_of (delete_rows ks t) k = (if k \<in> set ks then None else map_of t k)"
  by (induction t) (auto simp: delete_rows_def)

lemma map_of_rows_of:
  "map_of (rows_of ks t) k = (if k \<in> set ks then map_of t k else None)"
  by (induction t) (auto simp: rows_of_def)

lemma fst_delete_rows: "map fst (delete_rows ks t) = filter (\<lambda>k. k \<notin> set ks) (map fst t)"
  by (induction t) (auto simp: delete_rows_def)

lemma well_keyed_update [simp]: "well_keyed (update_rows ks f t) \<longleftrightarrow> well_keyed t"
  by (simp add: well_keyed_def)

lemma well_keyed_delete [intro]: "well_keyed t \<Longrightarrow> well_keyed (delete_rows ks t)"
  by (simp add: well_keyed_def fst_delete_rows)

lemma well_keyed_Nil [simp]: "well_keyed []"
  by (simp add: well_keyed_def)

lemma well_keyed_append [simp]:
  "well_keyed (xs @ ys) \<longleftrightarrow> well_keyed xs \<and> well_keyed ys \<and> fst ` set xs \<inter> fst ` set ys = {}"
  by (simp add: well_keyed_def)

lemma well_keyed_Cons [simp]: "well_keyed (x # xs) \<longleftrightarrow> fst x \<notin> fst ` set xs \<and> well_keyed xs"
  by (simp add: well_keyed_def)

lemma in_table_iff: "well_keyed t \<Longrightarrow> (k, r) \<in> set t \<longleftrightarrow> map_of t k = Some r"
  by (simp add: well_keyed_def)

lemma select_keys_subset:
  "well_keyed t \<Longrightarrow> k \<in> set (select_keys P order n t) \<Longrightarrow> \<exists>r. map_of t k = Some r \<and> P (k, r)"
  by (auto simp: select_keys_def in_table_iff dest!: in_set_takeD)

lemma select_keys_distinct: "well_keyed t \<Longrightarrow> distinct (select_keys P order n t)"
proof -
  assume "well_keyed t"
  then have "distinct (map fst (filter P t))" by (simp add: well_keyed_def distinct_map_filter)
  then have "distinct (map fst (sort_key order (filter P t)))"
    by (metis distinct_map distinct_sort set_sort)
  then show ?thesis by (simp add: select_keys_def)
qed

lemma select_keys_length: "length (select_keys P order n t) = min n (length (filter P t))"
  by (simp add: select_keys_def)

lemma select_keys_unlimited:
  assumes "well_keyed t" "length (select_keys P order n t) < n" "map_of t k = Some r" "P (k, r)"
  shows "k \<in> set (select_keys P order n t)"
proof -
  have "n \<ge> length (map fst (sort_key order (filter P t)))"
    using assms(2) by (simp add: select_keys_def)
  then have "select_keys P order n t = map fst (sort_key order (filter P t))"
    by (simp add: select_keys_def)
  moreover have "(k, r) \<in> set (filter P t)" using assms by (simp add: in_table_iff)
  ultimately show ?thesis by force
qed

text \<open>A row left out by the limit comes after every row taken.\<close>

lemma select_keys_first:
  assumes wk: "well_keyed t" and sel: "k \<in> set (select_keys P order n t)" "map_of t k = Some r"
    and out: "map_of t j = Some q" "P (j, q)" "j \<notin> set (select_keys P order n t)"
  shows "order (k, r) \<le> order (j, q)"
proof -
  let ?s = "sort_key order (filter P t)"
  have sorted: "sorted (map order ?s)" by simp
  have "(j, q) \<in> set ?s" using out wk by (simp add: in_table_iff)
  moreover have "(j, q) \<notin> set (take n ?s)" using out(3)
    by (force simp: select_keys_def take_map)
  ultimately have "(j, q) \<in> set (drop n ?s)" by (metis Un_iff append_take_drop_id set_append)
  then obtain b where b: "b < length (drop n ?s)" "drop n ?s ! b = (j, q)" by (auto simp: in_set_conv_nth)
  from sel(1) obtain r' where "(k, r') \<in> set (take n ?s)" by (auto simp: select_keys_def take_map)
  moreover from this have "(k, r') \<in> set t" by (auto dest: in_set_takeD)
  ultimately have "(k, r) \<in> set (take n ?s)" using sel(2) wk by (simp add: in_table_iff)
  then obtain a where a: "a < length (take n ?s)" "take n ?s ! a = (k, r)" by (auto simp: in_set_conv_nth)
  have "a < n + b" "n + b < length ?s" "?s ! a = (k, r)" "?s ! (n + b) = (j, q)"
    using a b by auto
  then show ?thesis using sorted sorted_nth_mono [of "map order ?s" a "n + b"] by auto
qed

end
