(* ===== verification/Queue.thy ===== *)
theory Queue
  imports Table SortableId Database "HOL-Library.Option_ord"
begin

text \<open>
  \<open>src/src/db/queue\<close>: the durable job queue. This theory holds its rows, errors and input
  validation, the meaning of every statement on its tables, and the functions that run one
  statement and read its answer.

  A statement runs on the tables of its moment. \<open>stmt_locked\<close> are the rows other transactions hold
  locked, which \<open>SKIP LOCKED\<close> passes over; \<open>stmt_hidden\<close> are rows committed after the statement
  took its snapshot, which its selections do not see but its unique indexes do.
\<close>

section \<open>Rows\<close>

datatype job_status = Pending | Running | Completed | Failed

fun job_status_as_str :: "job_status \<Rightarrow> string" where
  "job_status_as_str Pending = ''pending''"
| "job_status_as_str Running = ''running''"
| "job_status_as_str Completed = ''completed''"
| "job_status_as_str Failed = ''failed''"

datatype dead_letter_reason = MaxRetriesExceeded | PermanentError | OperatorAction | ExecutionExpired

fun dead_letter_reason_as_str :: "dead_letter_reason \<Rightarrow> string" where
  "dead_letter_reason_as_str MaxRetriesExceeded = ''max_retries_exceeded''"
| "dead_letter_reason_as_str PermanentError = ''permanent_error''"
| "dead_letter_reason_as_str OperatorAction = ''operator_action''"
| "dead_letter_reason_as_str ExecutionExpired = ''execution_expired''"

datatype job_timeout = WorkerDefault | NoTimeout | ExpiresAfter nanos

text \<open>The worker columns of a row are set and cleared together.\<close>

record runtime_columns =
  worker_id :: "string option"
  claimed_by_worker_at :: "micros option"
  execution_started_at :: "micros option"
  execution_heartbeat_at :: "micros option"
  finished_at :: "micros option"

record job_row =
  job_task_name :: string
  job_payload :: string
  job_status :: job_status
  job_run_at_or_after :: micros
  job_last_error :: "string option"
  job_retry_count :: int
  job_max_retries :: int
  job_timeout_nanos :: int
  job_dedupe_key :: "string option"
  job_runtime :: runtime_columns
  job_created_at :: micros
  job_updated_at :: micros

record dead_letter_row =
  dl_original_job_id :: bytes
  dl_task_name :: string
  dl_payload :: string
  dl_last_error :: string
  dl_retry_count :: int
  dl_max_retries :: int
  dl_timeout_nanos :: int
  dl_dedupe_key :: "string option"
  dl_reason :: dead_letter_reason
  dl_dead_lettered_at :: micros
  dl_created_at :: micros
  dl_updated_at :: micros

record pause_row =
  pause_task_name :: "string option"
  pause_paused_at :: micros
  pause_updated_at :: micros

record queue_tables =
  jobs :: "(bytes \<times> job_row) list"
  dead_letters :: "(bytes \<times> dead_letter_row) list"
  pauses :: "(string \<times> pause_row) list"

record stmt =
  stmt_now :: micros
  stmt_locked :: "bytes set"
  stmt_hidden :: "bytes set"

section \<open>Limits and errors\<close>

definition DEFAULT_QUEUE_MAX_RETRIES :: nat where "DEFAULT_QUEUE_MAX_RETRIES = 5"
definition MAX_QUEUE_TASK_NAME_BYTES :: nat where "MAX_QUEUE_TASK_NAME_BYTES = 128"
definition MAX_QUEUE_DEDUPE_KEY_BYTES :: nat where "MAX_QUEUE_DEDUPE_KEY_BYTES = 512"
definition MAX_QUEUE_WORKER_OWNER_ID_BYTES :: nat where "MAX_QUEUE_WORKER_OWNER_ID_BYTES = 512"
definition MAX_QUEUE_ENQUEUE_BATCH_SIZE :: nat where "MAX_QUEUE_ENQUEUE_BATCH_SIZE = 1000"
definition MAX_QUEUE_PAYLOAD_JSON_LIMIT_BYTES :: nat where "MAX_QUEUE_PAYLOAD_JSON_LIMIT_BYTES = 16777216"
definition MAX_QUEUE_RUN_AT_OR_AFTER_UNIX_MICROSECONDS :: int where
  "MAX_QUEUE_RUN_AT_OR_AFTER_UNIX_MICROSECONDS = 253402300799999999"
definition MAX_QUEUE_CLAIM_LIMIT :: nat where "MAX_QUEUE_CLAIM_LIMIT = 1000"
definition DEFAULT_QUEUE_LIST_LIMIT :: nat where "DEFAULT_QUEUE_LIST_LIMIT = 100"
definition MAX_QUEUE_LIST_LIMIT :: nat where "MAX_QUEUE_LIST_LIMIT = 1000"
definition MAX_QUEUE_RETRY_AVAILABLE_FAILED_JOBS_LIMIT :: nat where
  "MAX_QUEUE_RETRY_AVAILABLE_FAILED_JOBS_LIMIT = 1000"
definition MAX_QUEUE_DEAD_LETTER_MOVE_BATCH_SIZE :: nat where "MAX_QUEUE_DEAD_LETTER_MOVE_BATCH_SIZE = 2048"
definition MAX_QUEUE_RECLAIM_BATCH_SIZE :: nat where
  "MAX_QUEUE_RECLAIM_BATCH_SIZE = MAX_QUEUE_DEAD_LETTER_MOVE_BATCH_SIZE"
definition MAX_QUEUE_CLEANUP_BATCH_SIZE :: nat where "MAX_QUEUE_CLEANUP_BATCH_SIZE = 10000"
definition MAX_QUEUE_DEDUPE_INSERT_ATTEMPTS :: nat where "MAX_QUEUE_DEDUPE_INSERT_ATTEMPTS = 5"
definition GLOBAL_PAUSE_KEY :: string where "GLOBAL_PAUSE_KEY = ''__global__''"
definition TASK_PAUSE_KEY_PREFIX :: string where "TASK_PAUSE_KEY_PREFIX = ''task:''"
definition STALE_EXECUTION_ERROR :: string where
  "STALE_EXECUTION_ERROR = ''execution expired (stale threshold exceeded)''"
definition TRANSITION_OUTCOME_APPLIED :: string where "TRANSITION_OUTCOME_APPLIED = ''applied''"
definition TRANSITION_OUTCOME_NOT_FOUND :: string where "TRANSITION_OUTCOME_NOT_FOUND = ''not_found''"
definition TRANSITION_OUTCOME_STATE_MISMATCH :: string where "TRANSITION_OUTCOME_STATE_MISMATCH = ''state_mismatch''"
definition TRANSITION_OUTCOME_DEDUPE_CONFLICT :: string where "TRANSITION_OUTCOME_DEDUPE_CONFLICT = ''dedupe_conflict''"
definition TRANSITION_OUTCOME_LOCKED :: string where "TRANSITION_OUTCOME_LOCKED = ''locked''"
definition ENQUEUE_OUTCOME_INSERTED :: string where "ENQUEUE_OUTCOME_INSERTED = ''inserted''"
definition ENQUEUE_OUTCOME_QUEUE_PAUSED :: string where "ENQUEUE_OUTCOME_QUEUE_PAUSED = ''queue_paused''"
definition ENQUEUE_OUTCOME_TASK_PAUSED :: string where "ENQUEUE_OUTCOME_TASK_PAUSED = ''task_paused''"
definition ENQUEUE_OUTCOME_NOT_INSERTED :: string where "ENQUEUE_OUTCOME_NOT_INSERTED = ''not_inserted''"

text \<open>The error enum, grouped: invalid input, invalid limits, refused transitions, bad rows.\<close>

datatype queue_input_error =
    TaskNameRequired
  | InvalidTaskName
  | TaskNameTooLong nat nat
  | InvalidDedupeKey
  | DedupeKeyTooLong nat nat
  | EnqueueBatchSizeTooLarge nat nat
  | PayloadJsonLimitIsZero
  | PayloadJsonLimitTooLarge nat nat
  | RunAtOrAfterUnixMicrosecondsIsNegative int
  | RunAtOrAfterUnixMicrosecondsTooLarge int int
  | InvalidMaxRetries
  | InvalidTimeout
  | ClaimLimitIsZero
  | ClaimLimitTooLarge nat nat
  | WorkerOwnerIdRequired
  | InvalidWorkerOwnerId
  | WorkerOwnerIdTooLong nat nat

datatype queue_limit_error =
    ListLimitIsZero
  | ListLimitTooLarge nat nat
  | RetryAvailableFailedJobsLimitIsZero
  | RetryAvailableFailedJobsLimitTooLarge nat nat
  | ReclaimBatchSizeIsZero
  | ReclaimBatchSizeTooLarge nat nat
  | CleanupAgeIsZero
  | CleanupAgeTooLarge
  | StaleThresholdIsZero
  | StaleThresholdTooLarge
  | RetryBackoffTooLarge
  | CleanupBatchSizeIsZero
  | CleanupBatchSizeTooLarge nat nat
  | DeadLetterMoveBatchSizeTooLarge nat nat
  | DuplicateJobIdInDeadLetterMoveBatch sortable_id

datatype queue_state_error =
    QueuePaused
  | TaskPaused
  | JobNotFound
  | JobLockedByConcurrentTransaction
  | DeadLetterJobNotFound
  | DeadLetterJobLockedByConcurrentTransaction
  | JobNotPending
  | JobNotRunning
  | JobNotFailed
  | RetryConflictWithActiveDedupeJob

datatype queue_row_error =
    InvalidPersistedJobStatus string
  | InvalidPersistedDeadLetterReason string
  | InvalidPersistedJobTimeout int
  | InvalidPersistedRetryCount int
  | InvalidPersistedMaxRetries int

datatype queue_payload_error =
    PayloadJson string
  | PayloadJsonTooLarge nat nat
  | EnqueueBatchPayloadJson nat string
  | EnqueueBatchPayloadJsonTooLarge nat nat nat

datatype 'g queue_error =
    QueueInput queue_input_error
  | QueueLimit queue_limit_error
  | QueueState queue_state_error
  | QueueRow queue_row_error
  | QueuePayload queue_payload_error
  | QueueDecodeRow
  | QueueUnexpectedOutcome string string
  | QueueDatabase db_error
  | QueueJobId "'g id_error"
  | QueueDatabaseOperationRollbackFailed string "'g queue_error" db_error
  | QueueWorkerDatabaseOperationTimedOut string nanos
  | QueueWorkerDatabaseOperationRollbackFailed string "'g queue_error" db_error
  | QueueWorkerHeartbeatTaskJoinFailed string
  | QueueWorkerHeartbeatFailureAndJobFinalizationFailed "'g queue_error" "'g queue_error"
  | QueueWorkerJobPersistenceFailureAndRequeueFailed "'g queue_error" "'g queue_error"
  | QueueWorkerRuntimeFailureAndClaimedJobCleanupFailed "'g queue_error" "'g queue_error"
  | QueueWorkerRuntimeMultipleFailures "'g queue_error list"
  | QueueWorkerTaskJoinFailed string
  | QueueRetryJitterRandom string

section \<open>Validation\<close>

definition is_task_name_first_byte :: "char \<Rightarrow> bool" where
  "is_task_name_first_byte c \<longleftrightarrow> c = CHR ''_''
     \<or> CHR ''0'' \<le> c \<and> c \<le> CHR ''9'' \<or> CHR ''A'' \<le> c \<and> c \<le> CHR ''Z'' \<or> CHR ''a'' \<le> c \<and> c \<le> CHR ''z''"

definition is_task_name_trailing_byte :: "char \<Rightarrow> bool" where
  "is_task_name_trailing_byte c \<longleftrightarrow> is_task_name_first_byte c \<or> c = CHR ''.'' \<or> c = CHR ''-''"

definition validate_task_name :: "string \<Rightarrow> 'g queue_error + unit" where
  "validate_task_name name =
     (case name of
        [] \<Rightarrow> Inl (QueueInput TaskNameRequired)
      | first # rest \<Rightarrow>
          if length name > MAX_QUEUE_TASK_NAME_BYTES then
            Inl (QueueInput (TaskNameTooLong (length name) MAX_QUEUE_TASK_NAME_BYTES))
          else if \<not> is_task_name_first_byte first then Inl (QueueInput InvalidTaskName)
          else if \<not> list_all is_task_name_trailing_byte rest then Inl (QueueInput InvalidTaskName)
          else Inr ())"

fun validate_registered_task_names :: "string list \<Rightarrow> 'g queue_error + unit" where
  "validate_registered_task_names [] = Inr ()"
| "validate_registered_task_names (name # rest) =
     result_bind (validate_task_name name) (\<lambda>_. validate_registered_task_names rest)"

definition validate_optional_dedupe_key :: "string option \<Rightarrow> 'g queue_error + unit" where
  "validate_optional_dedupe_key key =
     (case key of
        None \<Rightarrow> Inr ()
      | Some k \<Rightarrow>
          if k = [] then Inl (QueueInput InvalidDedupeKey)
          else if length k > MAX_QUEUE_DEDUPE_KEY_BYTES then
            Inl (QueueInput (DedupeKeyTooLong (length k) MAX_QUEUE_DEDUPE_KEY_BYTES))
          else if CHR 0x00 \<in> set k then Inl (QueueInput InvalidDedupeKey)
          else Inr ())"

definition validate_payload_json_limit_bytes :: "nat \<Rightarrow> 'g queue_error + unit" where
  "validate_payload_json_limit_bytes limit =
     (if limit = 0 then Inl (QueueInput PayloadJsonLimitIsZero)
      else if limit > MAX_QUEUE_PAYLOAD_JSON_LIMIT_BYTES then
        Inl (QueueInput (PayloadJsonLimitTooLarge limit MAX_QUEUE_PAYLOAD_JSON_LIMIT_BYTES))
      else Inr ())"

definition validate_enqueue_batch_size :: "nat \<Rightarrow> 'g queue_error + unit" where
  "validate_enqueue_batch_size n =
     (if n > MAX_QUEUE_ENQUEUE_BATCH_SIZE then
        Inl (QueueInput (EnqueueBatchSizeTooLarge n MAX_QUEUE_ENQUEUE_BATCH_SIZE))
      else Inr ())"

definition validate_claim_limit :: "nat \<Rightarrow> 'g queue_error + unit" where
  "validate_claim_limit n =
     (if n = 0 then Inl (QueueInput ClaimLimitIsZero)
      else if n > MAX_QUEUE_CLAIM_LIMIT then Inl (QueueInput (ClaimLimitTooLarge n MAX_QUEUE_CLAIM_LIMIT))
      else Inr ())"

definition queue_validate_list_limit :: "nat option \<Rightarrow> 'g queue_error + nat" where
  "queue_validate_list_limit limit =
     (let n = (case limit of None \<Rightarrow> DEFAULT_QUEUE_LIST_LIMIT | Some n \<Rightarrow> n)
      in if n = 0 then Inl (QueueLimit ListLimitIsZero)
         else if n > MAX_QUEUE_LIST_LIMIT then Inl (QueueLimit (ListLimitTooLarge n MAX_QUEUE_LIST_LIMIT))
         else Inr n)"

definition validate_retry_available_failed_jobs_limit :: "nat \<Rightarrow> 'g queue_error + unit" where
  "validate_retry_available_failed_jobs_limit n =
     (if n = 0 then Inl (QueueLimit RetryAvailableFailedJobsLimitIsZero)
      else if n > MAX_QUEUE_RETRY_AVAILABLE_FAILED_JOBS_LIMIT then
        Inl (QueueLimit (RetryAvailableFailedJobsLimitTooLarge n MAX_QUEUE_RETRY_AVAILABLE_FAILED_JOBS_LIMIT))
      else Inr ())"

definition validate_reclaim_batch_size :: "nat \<Rightarrow> 'g queue_error + unit" where
  "validate_reclaim_batch_size n =
     (if n = 0 then Inl (QueueLimit ReclaimBatchSizeIsZero)
      else if n > MAX_QUEUE_RECLAIM_BATCH_SIZE then
        Inl (QueueLimit (ReclaimBatchSizeTooLarge n MAX_QUEUE_RECLAIM_BATCH_SIZE))
      else Inr ())"

definition validate_cleanup_batch_size :: "nat \<Rightarrow> 'g queue_error + unit" where
  "validate_cleanup_batch_size n =
     (if n = 0 then Inl (QueueLimit CleanupBatchSizeIsZero)
      else if n > MAX_QUEUE_CLEANUP_BATCH_SIZE then
        Inl (QueueLimit (CleanupBatchSizeTooLarge n MAX_QUEUE_CLEANUP_BATCH_SIZE))
      else Inr ())"

definition validate_worker_owner_id :: "string \<Rightarrow> 'g queue_error + unit" where
  "validate_worker_owner_id w =
     (if w = [] then Inl (QueueInput WorkerOwnerIdRequired)
      else if length w > MAX_QUEUE_WORKER_OWNER_ID_BYTES then
        Inl (QueueInput (WorkerOwnerIdTooLong (length w) MAX_QUEUE_WORKER_OWNER_ID_BYTES))
      else if CHR 0x00 \<in> set w then Inl (QueueInput InvalidWorkerOwnerId)
      else Inr ())"

text \<open>\<open>as_micros().max(1)\<close>, then the conversion to \<open>i64\<close>.\<close>

definition queue_duration_to_rounded_microseconds :: "nanos \<Rightarrow> 'g queue_error + int" where
  "queue_duration_to_rounded_microseconds d =
     (if d = 0 then Inl (QueueLimit CleanupAgeIsZero)
      else let us = int (max (d div 1000) 1)
           in if us > i64_max then Inl (QueueLimit CleanupAgeTooLarge) else Inr us)"

definition stale_threshold_to_microseconds :: "nanos \<Rightarrow> 'g queue_error + int" where
  "stale_threshold_to_microseconds d =
     (if d = 0 then Inl (QueueLimit StaleThresholdIsZero)
      else let us = int (max (d div 1000) 1)
           in if us > i64_max then Inl (QueueLimit StaleThresholdTooLarge) else Inr us)"

definition retry_backoff_to_microseconds :: "nanos \<Rightarrow> 'g queue_error + int" where
  "retry_backoff_to_microseconds d =
     (if int (d div 1000) > i64_max then Inl (QueueLimit RetryBackoffTooLarge) else Inr (int (d div 1000)))"

text \<open>A \<open>u32\<close> that must fit a Postgres \<open>INT\<close>.\<close>

definition i32_from_u32 :: "nat \<Rightarrow> 'g queue_error + int" where
  "i32_from_u32 n = (if int n > i32_max then Inl (QueueInput InvalidMaxRetries) else Inr (int n))"

fun timeout_to_nanos :: "job_timeout \<Rightarrow> 'g queue_error + int" where
  "timeout_to_nanos WorkerDefault = Inr 0"
| "timeout_to_nanos NoTimeout = Inr (-1)"
| "timeout_to_nanos (ExpiresAfter d) =
     (if d = 0 then Inl (QueueInput InvalidTimeout)
      else if int d > i64_max then Inl (QueueInput InvalidTimeout) else Inr (int d))"

definition run_at_or_after_from_unix_microseconds :: "int \<Rightarrow> 'g queue_error + int" where
  "run_at_or_after_from_unix_microseconds us =
     (if us < 0 then Inl (QueueInput (RunAtOrAfterUnixMicrosecondsIsNegative us))
      else if us > MAX_QUEUE_RUN_AT_OR_AFTER_UNIX_MICROSECONDS then
        Inl (QueueInput (RunAtOrAfterUnixMicrosecondsTooLarge us MAX_QUEUE_RUN_AT_OR_AFTER_UNIX_MICROSECONDS))
      else Inr us)"

section \<open>Decoding rows\<close>

text \<open>A job as the library returns it.\<close>

record job =
  id_of_job :: sortable_id
  task_name :: string
  payload_json :: string
  status_of_job :: job_status
  run_at_or_after :: micros
  last_error :: "string option"
  retry_count :: nat
  max_retries :: nat
  timeout :: job_timeout
  dedupe_key :: "string option"
  runtime_of_job :: runtime_columns
  created_at :: micros
  updated_at :: micros

record dead_letter_job =
  id_of_dead_letter :: sortable_id
  original_job_id :: sortable_id
  dead_letter_task_name :: string
  dead_letter_payload_json :: string
  dead_letter_last_error :: string
  dead_letter_retry_count :: nat
  dead_letter_max_retries :: nat
  dead_letter_timeout :: job_timeout
  dead_letter_dedupe_key :: "string option"
  reason_of_dead_letter :: dead_letter_reason
  dead_lettered_at :: micros
  dead_letter_created_at :: micros
  dead_letter_updated_at :: micros

definition job_status_parse :: "string \<Rightarrow> 'g queue_error + job_status" where
  "job_status_parse s =
     (if s = ''pending'' then Inr Pending else if s = ''running'' then Inr Running
      else if s = ''completed'' then Inr Completed else if s = ''failed'' then Inr Failed
      else Inl (QueueRow (InvalidPersistedJobStatus s)))"

definition dead_letter_reason_parse :: "string \<Rightarrow> 'g queue_error + dead_letter_reason" where
  "dead_letter_reason_parse s =
     (if s = ''max_retries_exceeded'' then Inr MaxRetriesExceeded
      else if s = ''permanent_error'' then Inr PermanentError
      else if s = ''operator_action'' then Inr OperatorAction
      else if s = ''execution_expired'' then Inr ExecutionExpired
      else Inl (QueueRow (InvalidPersistedDeadLetterReason s)))"

definition timeout_from_persisted_nanos :: "int \<Rightarrow> 'g queue_error + job_timeout" where
  "timeout_from_persisted_nanos n =
     (if n = -1 then Inr NoTimeout else if n = 0 then Inr WorkerDefault
      else if n > 0 then Inr (ExpiresAfter (nat n))
      else Inl (QueueRow (InvalidPersistedJobTimeout n)))"

definition retry_count_from_persisted_i32 :: "int \<Rightarrow> 'g queue_error + nat" where
  "retry_count_from_persisted_i32 n =
     (if n < 0 then Inl (QueueRow (InvalidPersistedRetryCount n)) else Inr (nat n))"

definition max_retries_from_persisted_i32 :: "int \<Rightarrow> 'g queue_error + nat" where
  "max_retries_from_persisted_i32 n =
     (if n < 0 then Inl (QueueRow (InvalidPersistedMaxRetries n)) else Inr (nat n))"

definition queue_id_from_bytes :: "bytes \<Rightarrow> 'g queue_error + sortable_id" where
  "queue_id_from_bytes bs = map_sum QueueJobId id (from_bytes bs)"

definition worker_owner_id_from_validated_text :: "string option \<Rightarrow> 'g queue_error + string option" where
  "worker_owner_id_from_validated_text w =
     (case w of None \<Rightarrow> Inr None
      | Some w \<Rightarrow> result_bind (validate_worker_owner_id w) (\<lambda>_. Inr (Some w)))"

definition queue_job_from_row :: "bytes \<times> job_row \<Rightarrow> 'g queue_error + job" where
  "queue_job_from_row row =
     (let (k, r) = row in
      result_bind (queue_id_from_bytes k) (\<lambda>i.
      result_bind (job_status_parse (job_status_as_str (job_status r))) (\<lambda>st.
      result_bind (retry_count_from_persisted_i32 (job_retry_count r)) (\<lambda>rc.
      result_bind (max_retries_from_persisted_i32 (job_max_retries r)) (\<lambda>mr.
      result_bind (timeout_from_persisted_nanos (job_timeout_nanos r)) (\<lambda>t.
      result_bind (worker_owner_id_from_validated_text (worker_id (job_runtime r))) (\<lambda>_.
        Inr \<lparr>id_of_job = i, task_name = job_task_name r, payload_json = job_payload r, status_of_job = st,
          run_at_or_after = job_run_at_or_after r, last_error = job_last_error r, retry_count = rc,
          max_retries = mr, timeout = t, dedupe_key = job_dedupe_key r, runtime_of_job = job_runtime r,
          created_at = job_created_at r, updated_at = job_updated_at r\<rparr>)))))))"

definition queue_dead_letter_job_from_row :: "bytes \<times> dead_letter_row \<Rightarrow> 'g queue_error + dead_letter_job" where
  "queue_dead_letter_job_from_row row =
     (let (k, r) = row in
      result_bind (queue_id_from_bytes k) (\<lambda>i.
      result_bind (queue_id_from_bytes (dl_original_job_id r)) (\<lambda>original.
      result_bind (retry_count_from_persisted_i32 (dl_retry_count r)) (\<lambda>rc.
      result_bind (max_retries_from_persisted_i32 (dl_max_retries r)) (\<lambda>mr.
      result_bind (timeout_from_persisted_nanos (dl_timeout_nanos r)) (\<lambda>t.
      result_bind (dead_letter_reason_parse (dead_letter_reason_as_str (dl_reason r))) (\<lambda>reason.
        Inr \<lparr>id_of_dead_letter = i, original_job_id = original, dead_letter_task_name = dl_task_name r,
          dead_letter_payload_json = dl_payload r, dead_letter_last_error = dl_last_error r,
          dead_letter_retry_count = rc, dead_letter_max_retries = mr, dead_letter_timeout = t,
          dead_letter_dedupe_key = dl_dedupe_key r, reason_of_dead_letter = reason,
          dead_lettered_at = dl_dead_lettered_at r, dead_letter_created_at = dl_created_at r,
          dead_letter_updated_at = dl_updated_at r\<rparr>)))))))"

record reclaimed_job =
  reclaimed_id :: sortable_id
  reclaimed_task_name :: string

record reclaimed_failed_job =
  reclaimed_failed_id :: sortable_id
  reclaimed_failed_task_name :: string
  reclaimed_failed_last_error :: string

record moved_to_dead_letter_job =
  moved_dead_letter_id :: sortable_id
  moved_original_job_id :: sortable_id
  moved_task_name :: string
  moved_last_error :: string

definition queue_reclaimed_job_from_row :: "bytes \<times> job_row \<Rightarrow> 'g queue_error + reclaimed_job" where
  "queue_reclaimed_job_from_row row =
     (let (k, r) = row in result_bind (queue_id_from_bytes k) (\<lambda>i.
        Inr \<lparr>reclaimed_id = i, reclaimed_task_name = job_task_name r\<rparr>))"

definition queue_reclaimed_failed_job_from_row :: "bytes \<times> job_row \<Rightarrow> 'g queue_error + reclaimed_failed_job" where
  "queue_reclaimed_failed_job_from_row row =
     (let (k, r) = row in result_bind (queue_id_from_bytes k) (\<lambda>i.
        case job_last_error r of
          None \<Rightarrow> Inl QueueDecodeRow
        | Some e \<Rightarrow> Inr \<lparr>reclaimed_failed_id = i, reclaimed_failed_task_name = job_task_name r,
            reclaimed_failed_last_error = e\<rparr>))"

definition queue_moved_to_dead_letter_job_from_row ::
    "bytes \<times> dead_letter_row \<Rightarrow> 'g queue_error + moved_to_dead_letter_job" where
  "queue_moved_to_dead_letter_job_from_row row =
     (let (k, r) = row in
      result_bind (queue_id_from_bytes k) (\<lambda>i.
      result_bind (queue_id_from_bytes (dl_original_job_id r)) (\<lambda>original.
        Inr \<lparr>moved_dead_letter_id = i, moved_original_job_id = original, moved_task_name = dl_task_name r,
          moved_last_error = dl_last_error r\<rparr>)))"

section \<open>Statements on owned running jobs\<close>

definition no_runtime :: "micros option \<Rightarrow> runtime_columns" where
  "no_runtime finished = \<lparr>worker_id = None, claimed_by_worker_at = None, execution_started_at = None,
     execution_heartbeat_at = None, finished_at = finished\<rparr>"

text \<open>What a selection sees, and what it can lock.\<close>

definition visible_row :: "stmt \<Rightarrow> (bytes \<times> 'r) list \<Rightarrow> bytes \<Rightarrow> 'r option" where
  "visible_row s t k = (if k \<in> stmt_hidden s then None else map_of t k)"

definition lockable :: "stmt \<Rightarrow> bytes \<Rightarrow> bool" where
  "lockable s k \<longleftrightarrow> k \<notin> stmt_locked s \<and> k \<notin> stmt_hidden s"

definition transition_outcome :: "bool \<Rightarrow> bool \<Rightarrow> bool \<Rightarrow> string" where
  "transition_outcome updated mismatch visible =
     (if updated then TRANSITION_OUTCOME_APPLIED else if mismatch then TRANSITION_OUTCOME_STATE_MISMATCH
      else if visible then TRANSITION_OUTCOME_LOCKED else TRANSITION_OUTCOME_NOT_FOUND)"

definition owned_running :: "string \<Rightarrow> job_row \<Rightarrow> bool" where
  "owned_running worker r \<longleftrightarrow> job_status r = Running \<and> worker_id (job_runtime r) = Some worker"

text \<open>
  The shape of the updates of one owned running job: \<open>extra\<close> is a further condition on the row,
  \<open>change\<close> the assignments.
\<close>

definition owned_update :: "stmt \<Rightarrow> (job_row \<Rightarrow> bool) \<Rightarrow> (job_row \<Rightarrow> job_row) \<Rightarrow> bytes \<Rightarrow> string
     \<Rightarrow> queue_tables \<Rightarrow> string \<times> queue_tables" where
  "owned_update s extra change i worker t =
     (case visible_row s (jobs t) i of
        None \<Rightarrow> (transition_outcome False False False, t)
      | Some r \<Rightarrow>
          (let hit = owned_running worker r \<and> extra r \<and> i \<notin> stmt_locked s
           in (transition_outcome hit (\<not> (owned_running worker r \<and> extra r)) True,
               if hit then t\<lparr>jobs := update_rows [i] change (jobs t)\<rparr> else t)))"

definition mark_job_started_statement :: "stmt \<Rightarrow> bytes \<Rightarrow> string \<Rightarrow> queue_tables \<Rightarrow> string \<times> queue_tables" where
  "mark_job_started_statement s =
     owned_update s (\<lambda>r. True) (\<lambda>r. r\<lparr>job_runtime := (job_runtime r)
       \<lparr>execution_started_at := Some (stmt_now s), execution_heartbeat_at := Some (stmt_now s)\<rparr>,
       job_updated_at := stmt_now s\<rparr>)"

definition mark_job_completed_statement :: "stmt \<Rightarrow> bytes \<Rightarrow> string \<Rightarrow> queue_tables \<Rightarrow> string \<times> queue_tables" where
  "mark_job_completed_statement s =
     owned_update s (\<lambda>r. True) (\<lambda>r. r\<lparr>job_status := Completed, job_runtime := no_runtime (Some (stmt_now s)),
       job_updated_at := stmt_now s\<rparr>)"

definition touch_execution_heartbeat_statement :: "stmt \<Rightarrow> bytes \<Rightarrow> string \<Rightarrow> queue_tables \<Rightarrow> string \<times> queue_tables" where
  "touch_execution_heartbeat_statement s =
     owned_update s (\<lambda>r. True) (\<lambda>r. r\<lparr>job_runtime := (job_runtime r)
       \<lparr>execution_heartbeat_at := Some (stmt_now s)\<rparr>, job_updated_at := stmt_now s\<rparr>)"

definition return_to_pending :: "micros \<Rightarrow> job_row \<Rightarrow> job_row" where
  "return_to_pending now r = r\<lparr>job_status := Pending, job_runtime := no_runtime None, job_updated_at := now\<rparr>"

definition has_started :: "job_row \<Rightarrow> bool" where
  "has_started r \<longleftrightarrow> execution_started_at (job_runtime r) \<noteq> None"

definition return_owned_unstarted_statement :: "stmt \<Rightarrow> bytes \<Rightarrow> string \<Rightarrow> queue_tables \<Rightarrow> string \<times> queue_tables" where
  "return_owned_unstarted_statement s =
     owned_update s (\<lambda>r. \<not> has_started r) (return_to_pending (stmt_now s))"

definition return_owned_started_statement :: "stmt \<Rightarrow> bytes \<Rightarrow> string \<Rightarrow> queue_tables \<Rightarrow> string \<times> queue_tables" where
  "return_owned_started_statement s = owned_update s has_started (return_to_pending (stmt_now s))"

definition return_available_owned_statement ::
    "stmt \<Rightarrow> (job_row \<Rightarrow> bool) \<Rightarrow> string \<Rightarrow> queue_tables \<Rightarrow> nat \<times> queue_tables" where
  "return_available_owned_statement s started worker t =
     (let ks = map fst (filter (\<lambda>(k, r). lockable s k \<and> owned_running worker r \<and> started r) (jobs t))
      in (length ks, t\<lparr>jobs := update_rows ks (return_to_pending (stmt_now s)) (jobs t)\<rparr>))"

text \<open>A retry counter past the range of \<open>INT\<close> fails the statement.\<close>

definition retry_count_plus :: "bool \<Rightarrow> job_row \<Rightarrow> int" where
  "retry_count_plus increment r = job_retry_count r + (if increment then 1 else 0)"

definition mark_job_failed_statement ::
    "stmt \<Rightarrow> string \<Rightarrow> bool \<Rightarrow> bytes \<Rightarrow> string \<Rightarrow> queue_tables \<Rightarrow> (sqlx_error + string) \<times> queue_tables" where
  "mark_job_failed_statement s message increment i worker t =
     (let (res, t') = owned_update s (\<lambda>r. True) (\<lambda>r. r\<lparr>job_status := Failed, job_last_error := Some message,
            job_retry_count := retry_count_plus increment r, job_runtime := no_runtime (Some (stmt_now s)),
            job_updated_at := stmt_now s\<rparr>) i worker t
      in if res = TRANSITION_OUTCOME_APPLIED
            \<and> (case map_of (jobs t') i of None \<Rightarrow> False | Some r \<Rightarrow> job_retry_count r > i32_max)
         then (Inl numeric_out_of_range, t) else (Inr res, t'))"

definition schedule_owned_running_job_retry_statement ::
    "stmt \<Rightarrow> int \<Rightarrow> int \<Rightarrow> string \<Rightarrow> bytes \<Rightarrow> string \<Rightarrow> queue_tables
     \<Rightarrow> (sqlx_error + string \<times> micros option) \<times> queue_tables" where
  "schedule_owned_running_job_retry_statement s new_retry_count us message i worker t =
     (let next_run_at = stmt_now s + us;
          (res, t') = owned_update s (\<lambda>r. True) (\<lambda>r. r\<lparr>job_status := Pending, job_retry_count := new_retry_count,
            job_run_at_or_after := next_run_at, job_last_error := Some message,
            job_runtime := no_runtime None, job_updated_at := stmt_now s\<rparr>) i worker t
      in if res \<noteq> TRANSITION_OUTCOME_APPLIED then (Inr (res, None), t')
         else if next_run_at > i64_max then (Inl numeric_out_of_range, t)
         else (Inr (res, Some next_run_at), t'))"

text \<open>A dead letter is refused when its own id or its source is already there.\<close>

definition insert_dead_letter ::
    "bytes \<Rightarrow> dead_letter_row \<Rightarrow> queue_tables \<Rightarrow> sqlx_error + queue_tables" where
  "insert_dead_letter i d t =
     (if i \<in> set (map fst (dead_letters t))
         \<or> dl_original_job_id d \<in> set (map (dl_original_job_id \<circ> snd) (dead_letters t))
      then Inl unique_violation else Inr (t\<lparr>dead_letters := dead_letters t @ [(i, d)]\<rparr>))"

definition dead_letter_of ::
    "micros \<Rightarrow> bytes \<Rightarrow> string \<Rightarrow> int \<Rightarrow> dead_letter_reason \<Rightarrow> job_row \<Rightarrow> dead_letter_row" where
  "dead_letter_of now i message retries reason r =
     \<lparr>dl_original_job_id = i, dl_task_name = job_task_name r, dl_payload = job_payload r,
      dl_last_error = message, dl_retry_count = retries, dl_max_retries = job_max_retries r,
      dl_timeout_nanos = job_timeout_nanos r, dl_dedupe_key = job_dedupe_key r, dl_reason = reason,
      dl_dead_lettered_at = now, dl_created_at = now, dl_updated_at = now\<rparr>"

definition move_owned_running_job_to_dead_letter_statement ::
    "stmt \<Rightarrow> bytes \<Rightarrow> string \<Rightarrow> bool \<Rightarrow> dead_letter_reason \<Rightarrow> bytes \<Rightarrow> string \<Rightarrow> queue_tables
     \<Rightarrow> (sqlx_error + string \<times> bytes option) \<times> queue_tables" where
  "move_owned_running_job_to_dead_letter_statement s new_id message increment reason i worker t =
     (case visible_row s (jobs t) i of
        None \<Rightarrow> (Inr (transition_outcome False False False, None), t)
      | Some r \<Rightarrow>
          if \<not> (owned_running worker r \<and> i \<notin> stmt_locked s) then
            (Inr (transition_outcome False (\<not> owned_running worker r) True, None), t)
          else if retry_count_plus increment r > i32_max then (Inl numeric_out_of_range, t)
          else case insert_dead_letter new_id
                  (dead_letter_of (stmt_now s) i message (retry_count_plus increment r) reason r)
                  (t\<lparr>jobs := delete_rows [i] (jobs t)\<rparr>) of
            Inl e \<Rightarrow> (Inl e, t)
          | Inr t' \<Rightarrow> (Inr (transition_outcome True False True, Some new_id), t'))"

text \<open>Claiming: due pending jobs of the named tasks, unless paused, earliest first.\<close>

definition paused_task_key :: "string \<Rightarrow> string" where
  "paused_task_key name = TASK_PAUSE_KEY_PREFIX @ name"

definition pause_key_present :: "string \<Rightarrow> queue_tables \<Rightarrow> bool" where
  "pause_key_present k t \<longleftrightarrow> k \<in> set (map fst (pauses t))"

definition claimable :: "stmt \<Rightarrow> string list \<Rightarrow> queue_tables \<Rightarrow> bytes \<times> job_row \<Rightarrow> bool" where
  "claimable s names t row \<longleftrightarrow>
     (let (k, r) = row in job_status r = Pending \<and> job_task_name r \<in> set names
        \<and> job_run_at_or_after r \<le> stmt_now s \<and> \<not> pause_key_present GLOBAL_PAUSE_KEY t
        \<and> \<not> pause_key_present (paused_task_key (job_task_name r)) t)"

definition claim_row :: "micros \<Rightarrow> string \<Rightarrow> job_row \<Rightarrow> job_row" where
  "claim_row now worker r = r\<lparr>job_status := Running, job_runtime := (job_runtime r)
     \<lparr>worker_id := Some worker, claimed_by_worker_at := Some now, execution_heartbeat_at := Some now\<rparr>,
     job_updated_at := now\<rparr>"

definition claim_available_jobs_statement ::
    "stmt \<Rightarrow> string list \<Rightarrow> nat \<Rightarrow> string \<Rightarrow> queue_tables \<Rightarrow> (bytes \<times> job_row) list \<times> queue_tables" where
  "claim_available_jobs_statement s names limit worker t =
     (let ks = select_keys (\<lambda>row. lockable s (fst row) \<and> claimable s names t row)
                 (\<lambda>(k, r). (job_run_at_or_after r, k)) limit (jobs t);
          js = update_rows ks (claim_row (stmt_now s) worker) (jobs t)
      in (rows_of ks js, t\<lparr>jobs := js\<rparr>))"

section \<open>Operator statements\<close>

text \<open>The shape of a transition by identifier: \<open>expected\<close> is the status it needs.\<close>

definition cancel_pending_job_statement :: "stmt \<Rightarrow> job_status \<Rightarrow> bytes \<Rightarrow> queue_tables \<Rightarrow> string \<times> queue_tables" where
  "cancel_pending_job_statement s expected i t =
     (case visible_row s (jobs t) i of
        None \<Rightarrow> (TRANSITION_OUTCOME_NOT_FOUND, t)
      | Some r \<Rightarrow>
          if i \<in> stmt_locked s then
            (if job_status r \<noteq> expected then TRANSITION_OUTCOME_STATE_MISMATCH else TRANSITION_OUTCOME_LOCKED, t)
          else if job_status r = expected then
            (TRANSITION_OUTCOME_APPLIED, t\<lparr>jobs := delete_rows [i] (jobs t)\<rparr>)
          else (TRANSITION_OUTCOME_STATE_MISMATCH, t))"

definition force_requeue_running_job_statement ::
    "stmt \<Rightarrow> job_status \<Rightarrow> bytes \<Rightarrow> queue_tables \<Rightarrow> string \<times> queue_tables" where
  "force_requeue_running_job_statement s expected i t =
     (case visible_row s (jobs t) i of
        None \<Rightarrow> (TRANSITION_OUTCOME_NOT_FOUND, t)
      | Some r \<Rightarrow>
          if i \<in> stmt_locked s then
            (if job_status r \<noteq> expected then TRANSITION_OUTCOME_STATE_MISMATCH else TRANSITION_OUTCOME_LOCKED, t)
          else if job_status r = expected then
            (TRANSITION_OUTCOME_APPLIED,
             t\<lparr>jobs := update_rows [i] (return_to_pending (stmt_now s)) (jobs t)\<rparr>)
          else (TRANSITION_OUTCOME_STATE_MISMATCH, t))"

definition is_active :: "job_row \<Rightarrow> bool" where
  "is_active r \<longleftrightarrow> job_status r = Pending \<or> job_status r = Running"

definition same_dedupe :: "string \<Rightarrow> string option \<Rightarrow> job_row \<Rightarrow> bool" where
  "same_dedupe name key r \<longleftrightarrow> key \<noteq> None \<and> job_task_name r = name \<and> job_dedupe_key r = key"

text \<open>An active row with the same dedupe key, other than \<open>i\<close>: seen by a selection, or held by the
  unique index over the active rows.\<close>

definition visible_dedupe_conflict :: "stmt \<Rightarrow> bytes \<Rightarrow> string \<Rightarrow> string option \<Rightarrow> queue_tables \<Rightarrow> bool" where
  "visible_dedupe_conflict s i name key t \<longleftrightarrow>
     list_ex (\<lambda>(j, q). j \<noteq> i \<and> j \<notin> stmt_hidden s \<and> is_active q \<and> same_dedupe name key q) (jobs t)"

definition index_dedupe_conflict :: "bytes \<Rightarrow> string \<Rightarrow> string option \<Rightarrow> queue_tables \<Rightarrow> bool" where
  "index_dedupe_conflict i name key t \<longleftrightarrow>
     list_ex (\<lambda>(j, q). j \<noteq> i \<and> is_active q \<and> same_dedupe name key q) (jobs t)"

text \<open>An error of a statement, and whether it names the unique index over the active rows.\<close>

type_synonym constrained_error = "sqlx_error \<times> bool"

definition epoch_plus :: "micros option \<Rightarrow> micros \<Rightarrow> micros" where
  "epoch_plus us now = (case us of None \<Rightarrow> now | Some u \<Rightarrow> u)"

definition retry_failed_row :: "micros \<Rightarrow> micros option \<Rightarrow> job_row \<Rightarrow> job_row" where
  "retry_failed_row now run_at r = r\<lparr>job_status := Pending, job_retry_count := 0, job_last_error := None,
     job_run_at_or_after := epoch_plus run_at now, job_runtime := no_runtime None, job_updated_at := now\<rparr>"

definition retry_failed_job_by_id_statement ::
    "stmt \<Rightarrow> micros option \<Rightarrow> bytes \<Rightarrow> queue_tables \<Rightarrow> (constrained_error + string) \<times> queue_tables" where
  "retry_failed_job_by_id_statement s run_at i t =
     (case visible_row s (jobs t) i of
        None \<Rightarrow> (Inr TRANSITION_OUTCOME_NOT_FOUND, t)
      | Some r \<Rightarrow>
          if i \<in> stmt_locked s then
            (Inr (if job_status r \<noteq> Failed then TRANSITION_OUTCOME_STATE_MISMATCH else TRANSITION_OUTCOME_LOCKED), t)
          else if job_status r \<noteq> Failed then (Inr TRANSITION_OUTCOME_STATE_MISMATCH, t)
          else if visible_dedupe_conflict s i (job_task_name r) (job_dedupe_key r) t then
            (Inr TRANSITION_OUTCOME_DEDUPE_CONFLICT, t)
          else if index_dedupe_conflict i (job_task_name r) (job_dedupe_key r) t then
            (Inl (unique_violation, True), t)
          else (Inr TRANSITION_OUTCOME_APPLIED,
                t\<lparr>jobs := update_rows [i] (retry_failed_row (stmt_now s) run_at) (jobs t)\<rparr>))"

definition retry_order :: "bytes \<times> job_row \<Rightarrow> micros option \<times> bytes" where
  "retry_order row = (finished_at (job_runtime (snd row)), fst row)"

text \<open>\<open>ROW_NUMBER()\<close> over the rows with the same task and dedupe key.\<close>

definition first_of_dedupe :: "(bytes \<times> job_row) list \<Rightarrow> bytes \<times> job_row \<Rightarrow> bool" where
  "first_of_dedupe rows row \<longleftrightarrow>
     list_all (\<lambda>other. same_dedupe (job_task_name (snd row)) (job_dedupe_key (snd row)) (snd other)
       \<longrightarrow> retry_order row \<le> retry_order other) rows"

definition retry_available_failed_jobs_statement ::
    "stmt \<Rightarrow> nat \<Rightarrow> micros option \<Rightarrow> string option \<Rightarrow> queue_tables \<Rightarrow> (constrained_error + nat) \<times> queue_tables" where
  "retry_available_failed_jobs_statement s limit run_at name t =
     (let lockable_keys = select_keys (\<lambda>(k, r). lockable s k \<and> job_status r = Failed
             \<and> (name = None \<or> name = Some (job_task_name r))
             \<and> \<not> visible_dedupe_conflict s k (job_task_name r) (job_dedupe_key r) t) retry_order limit (jobs t);
          ranked = rows_of lockable_keys (jobs t);
          candidates = filter (first_of_dedupe ranked) ranked
      in if list_ex (\<lambda>(k, r). index_dedupe_conflict k (job_task_name r) (job_dedupe_key r) t) candidates
         then (Inl (unique_violation, True), t)
         else (Inr (length candidates),
               t\<lparr>jobs := update_rows (map fst candidates) (retry_failed_row (stmt_now s) run_at) (jobs t)\<rparr>))"

definition option_or_empty :: "string option \<Rightarrow> string" where
  "option_or_empty e = (case e of None \<Rightarrow> [] | Some m \<Rightarrow> m)"

text \<open>The answer row: inserted id, target exists, target matches, visible exists, visible matches.\<close>

definition move_failed_job_to_dead_letter_statement ::
    "stmt \<Rightarrow> bytes \<Rightarrow> dead_letter_reason \<Rightarrow> bytes \<Rightarrow> queue_tables
     \<Rightarrow> (sqlx_error + bytes option \<times> bool \<times> bool \<times> bool \<times> bool) \<times> queue_tables" where
  "move_failed_job_to_dead_letter_statement s new_id reason i t =
     (case visible_row s (jobs t) i of
        None \<Rightarrow> (Inr (None, False, False, False, False), t)
      | Some r \<Rightarrow>
          (let failed = (job_status r = Failed)
           in if i \<in> stmt_locked s then (Inr (None, False, False, True, failed), t)
              else if \<not> failed then (Inr (None, True, False, True, False), t)
              else case insert_dead_letter new_id
                      (dead_letter_of (stmt_now s) i (option_or_empty (job_last_error r)) (job_retry_count r) reason r)
                      (t\<lparr>jobs := delete_rows [i] (jobs t)\<rparr>) of
                Inl e \<Rightarrow> (Inl e, t)
              | Inr t' \<Rightarrow> (Inr (Some new_id, True, True, True, True), t')))"

fun insert_dead_letters ::
    "(bytes \<times> dead_letter_row) list \<Rightarrow> queue_tables \<Rightarrow> sqlx_error + queue_tables" where
  "insert_dead_letters [] t = Inr t"
| "insert_dead_letters ((i, d) # rest) t =
     result_bind (insert_dead_letter i d t) (\<lambda>t'. insert_dead_letters rest t')"

definition move_failed_jobs_to_dead_letter_batch_statement ::
    "stmt \<Rightarrow> (bytes \<times> bytes) list \<Rightarrow> dead_letter_reason \<Rightarrow> queue_tables
     \<Rightarrow> (sqlx_error + (bytes \<times> dead_letter_row) list) \<times> queue_tables" where
  "move_failed_jobs_to_dead_letter_batch_statement s id_map reason t =
     (let moved = map (\<lambda>(i, r). (the (map_of id_map i),
              dead_letter_of (stmt_now s) i (option_or_empty (job_last_error r)) (job_retry_count r) reason r))
            (filter (\<lambda>(i, r). i \<in> set (map fst id_map) \<and> lockable s i \<and> job_status r = Failed) (jobs t))
      in case insert_dead_letters moved
              (t\<lparr>jobs := delete_rows (map (dl_original_job_id \<circ> snd) moved) (jobs t)\<rparr>) of
           Inl e \<Rightarrow> (Inl e, t)
         | Inr t' \<Rightarrow> (Inr moved, t'))"

section \<open>Dead letters\<close>

definition new_job_row ::
    "micros \<Rightarrow> string \<Rightarrow> string \<Rightarrow> micros option \<Rightarrow> int \<Rightarrow> int \<Rightarrow> string option \<Rightarrow> job_row" where
  "new_job_row now name payload run_at retries timeout_ns key =
     \<lparr>job_task_name = name, job_payload = payload, job_status = Pending,
      job_run_at_or_after = epoch_plus run_at now, job_last_error = None, job_retry_count = 0,
      job_max_retries = retries, job_timeout_nanos = timeout_ns, job_dedupe_key = key,
      job_runtime = no_runtime None, job_created_at = now, job_updated_at = now\<rparr>"

text \<open>\<open>INSERT ... ON CONFLICT (task, dedupe key) DO NOTHING\<close>; the primary key is another index.\<close>

definition insert_job_unless_active ::
    "bytes \<Rightarrow> job_row \<Rightarrow> queue_tables \<Rightarrow> constrained_error + (bool \<times> queue_tables)" where
  "insert_job_unless_active i r t =
     (if list_ex (\<lambda>(j, q). is_active q \<and> same_dedupe (job_task_name r) (job_dedupe_key r) q) (jobs t)
      then Inr (False, t)
      else if i \<in> set (map fst (jobs t)) then Inl (unique_violation, False)
      else Inr (True, t\<lparr>jobs := jobs t @ [(i, r)]\<rparr>))"

text \<open>The answer row: inserted id, source exists, visible exists, conflict exists, source deleted.\<close>

definition requeue_dead_letter_job_statement ::
    "stmt \<Rightarrow> bytes \<Rightarrow> micros option \<Rightarrow> bytes \<Rightarrow> queue_tables
     \<Rightarrow> (constrained_error + bytes option \<times> bool \<times> bool \<times> bool \<times> bool) \<times> queue_tables" where
  "requeue_dead_letter_job_statement s new_id run_at i t =
     (case visible_row s (dead_letters t) i of
        None \<Rightarrow> (Inr (None, False, False, False, False), t)
      | Some d \<Rightarrow>
          if i \<in> stmt_locked s then (Inr (None, False, True, False, False), t)
          else if list_ex (\<lambda>(j, q). j \<notin> stmt_hidden s \<and> is_active q
                   \<and> same_dedupe (dl_task_name d) (dl_dedupe_key d) q) (jobs t)
          then (Inr (None, True, True, True, False), t)
          else case insert_job_unless_active new_id (new_job_row (stmt_now s) (dl_task_name d) (dl_payload d)
                  run_at (dl_max_retries d) (dl_timeout_nanos d) (dl_dedupe_key d)) t of
            Inl e \<Rightarrow> (Inl e, t)
          | Inr (False, t') \<Rightarrow> (Inr (None, True, True, False, False), t')
          | Inr (True, t') \<Rightarrow> (Inr (Some new_id, True, True, False, True),
              t'\<lparr>dead_letters := delete_rows [i] (dead_letters t')\<rparr>))"

definition delete_dead_letter_job_statement :: "stmt \<Rightarrow> bytes \<Rightarrow> queue_tables \<Rightarrow> string \<times> queue_tables" where
  "delete_dead_letter_job_statement s i t =
     (case visible_row s (dead_letters t) i of
        None \<Rightarrow> (TRANSITION_OUTCOME_NOT_FOUND, t)
      | Some d \<Rightarrow>
          if i \<in> stmt_locked s then (TRANSITION_OUTCOME_LOCKED, t)
          else (TRANSITION_OUTCOME_APPLIED, t\<lparr>dead_letters := delete_rows [i] (dead_letters t)\<rparr>))"

section \<open>Maintenance statements\<close>

text \<open>\<open>statement_timestamp()\<close> less an age; Postgres has no timestamp before 4714 BC.\<close>

definition pg_min_timestamp :: micros where
  "pg_min_timestamp = - 210866803200000000"

definition timestamp_before :: "micros \<Rightarrow> int \<Rightarrow> sqlx_error + micros" where
  "timestamp_before now us = (if now - us < pg_min_timestamp then Inl datetime_out_of_range else Inr (now - us))"

definition finished_before :: "micros \<Rightarrow> job_row \<Rightarrow> bool" where
  "finished_before cutoff r \<longleftrightarrow> (case finished_at (job_runtime r) of None \<Rightarrow> False | Some f \<Rightarrow> f < cutoff)"

definition cleanup_jobs_statement ::
    "stmt \<Rightarrow> job_status \<Rightarrow> int \<Rightarrow> nat \<Rightarrow> queue_tables \<Rightarrow> (sqlx_error + nat) \<times> queue_tables" where
  "cleanup_jobs_statement s status us limit t =
     (case timestamp_before (stmt_now s) us of
        Inl e \<Rightarrow> (Inl e, t)
      | Inr cutoff \<Rightarrow>
          (let ks = select_keys (\<lambda>(k, r). lockable s k \<and> job_status r = status \<and> finished_before cutoff r)
                 (\<lambda>(k, r). (finished_at (job_runtime r), k)) limit (jobs t)
           in (Inr (length ks), t\<lparr>jobs := delete_rows ks (jobs t)\<rparr>)))"

definition cleanup_dead_letters_statement ::
    "stmt \<Rightarrow> int \<Rightarrow> nat \<Rightarrow> queue_tables \<Rightarrow> (sqlx_error + nat) \<times> queue_tables" where
  "cleanup_dead_letters_statement s us limit t =
     (case timestamp_before (stmt_now s) us of
        Inl e \<Rightarrow> (Inl e, t)
      | Inr cutoff \<Rightarrow>
          (let ks = select_keys (\<lambda>(k, d). lockable s k \<and> dl_dead_lettered_at d < cutoff)
                 (\<lambda>(k, d). (dl_dead_lettered_at d, k)) limit (dead_letters t)
           in (Inr (length ks), t\<lparr>dead_letters := delete_rows ks (dead_letters t)\<rparr>)))"

definition stale :: "micros \<Rightarrow> job_row \<Rightarrow> bool" where
  "stale cutoff r \<longleftrightarrow> job_status r = Running
     \<and> (case execution_heartbeat_at (job_runtime r) of None \<Rightarrow> False | Some h \<Rightarrow> h < cutoff)"

definition heartbeat_order :: "bytes \<times> job_row \<Rightarrow> micros option \<times> bytes" where
  "heartbeat_order row = (execution_heartbeat_at (job_runtime (snd row)), fst row)"

definition reclaim_never_started_statement ::
    "stmt \<Rightarrow> int \<Rightarrow> nat \<Rightarrow> queue_tables \<Rightarrow> (sqlx_error + (bytes \<times> job_row) list) \<times> queue_tables" where
  "reclaim_never_started_statement s us limit t =
     (case timestamp_before (stmt_now s) us of
        Inl e \<Rightarrow> (Inl e, t)
      | Inr cutoff \<Rightarrow>
          (let ks = select_keys (\<lambda>(k, r). lockable s k \<and> stale cutoff r \<and> \<not> has_started r)
                 heartbeat_order limit (jobs t);
               js = update_rows ks (return_to_pending (stmt_now s)) (jobs t)
           in (Inr (rows_of ks js), t\<lparr>jobs := js\<rparr>)))"

definition expire_row :: "job_status \<Rightarrow> micros option \<Rightarrow> micros \<Rightarrow> job_row \<Rightarrow> job_row" where
  "expire_row status finished now r = r\<lparr>job_status := status, job_retry_count := job_retry_count r + 1,
     job_last_error := Some ((case job_last_error r of None \<Rightarrow> [] | Some e \<Rightarrow> e @ '' | '') @ STALE_EXECUTION_ERROR),
     job_runtime := no_runtime finished, job_updated_at := now\<rparr>"

definition reclaim_expired_statement ::
    "stmt \<Rightarrow> (job_row \<Rightarrow> bool) \<Rightarrow> (job_row \<Rightarrow> job_row) \<Rightarrow> int \<Rightarrow> nat \<Rightarrow> queue_tables
     \<Rightarrow> (sqlx_error + (bytes \<times> job_row) list) \<times> queue_tables" where
  "reclaim_expired_statement s budget change us limit t =
     (case timestamp_before (stmt_now s) us of
        Inl e \<Rightarrow> (Inl e, t)
      | Inr cutoff \<Rightarrow>
          (let ks = select_keys (\<lambda>(k, r). lockable s k \<and> stale cutoff r \<and> has_started r \<and> budget r)
                 heartbeat_order limit (jobs t);
               js = update_rows ks change (jobs t)
           in if list_ex (\<lambda>(k, r). job_retry_count r > i32_max) (rows_of ks js)
              then (Inl numeric_out_of_range, t)
              else (Inr (rows_of ks js), t\<lparr>jobs := js\<rparr>)))"

definition reclaim_expired_to_failed_statement ::
    "stmt \<Rightarrow> int \<Rightarrow> nat \<Rightarrow> queue_tables \<Rightarrow> (sqlx_error + (bytes \<times> job_row) list) \<times> queue_tables" where
  "reclaim_expired_to_failed_statement s =
     reclaim_expired_statement s (\<lambda>r. job_retry_count r \<ge> job_max_retries r)
       (expire_row Failed (Some (stmt_now s)) (stmt_now s))"

definition reclaim_expired_to_pending_statement ::
    "stmt \<Rightarrow> int \<Rightarrow> nat \<Rightarrow> queue_tables \<Rightarrow> (sqlx_error + (bytes \<times> job_row) list) \<times> queue_tables" where
  "reclaim_expired_to_pending_statement s =
     reclaim_expired_statement s (\<lambda>r. job_retry_count r < job_max_retries r)
       (expire_row Pending None (stmt_now s))"

section \<open>Enqueue and pause statements\<close>

definition pause_outcome :: "string \<Rightarrow> queue_tables \<Rightarrow> string option" where
  "pause_outcome name t =
     (if pause_key_present GLOBAL_PAUSE_KEY t then Some ENQUEUE_OUTCOME_QUEUE_PAUSED
      else if pause_key_present (paused_task_key name) t then Some ENQUEUE_OUTCOME_TASK_PAUSED else None)"

definition single_enqueue_statement ::
    "stmt \<Rightarrow> bytes \<Rightarrow> job_row \<Rightarrow> queue_tables \<Rightarrow> (sqlx_error + bytes option \<times> string) \<times> queue_tables" where
  "single_enqueue_statement s i r t =
     (case pause_outcome (job_task_name r) t of
        Some paused \<Rightarrow> (Inr (None, paused), t)
      | None \<Rightarrow>
          if i \<in> set (map fst (jobs t)) then (Inl unique_violation, t)
          else (Inr (Some i, ENQUEUE_OUTCOME_INSERTED), t\<lparr>jobs := jobs t @ [(i, r)]\<rparr>))"

definition batch_enqueue_statement ::
    "stmt \<Rightarrow> string \<Rightarrow> (bytes \<times> job_row) list \<Rightarrow> queue_tables \<Rightarrow> (sqlx_error + int \<times> string) \<times> queue_tables" where
  "batch_enqueue_statement s name rows t =
     (case pause_outcome name t of
        Some paused \<Rightarrow> (Inr (0, paused), t)
      | None \<Rightarrow>
          if \<not> distinct (map fst rows) \<or> list_ex (\<lambda>i. i \<in> set (map fst (jobs t))) (map fst rows)
          then (Inl unique_violation, t)
          else (Inr (int (length rows),
                  if rows = [] then ENQUEUE_OUTCOME_NOT_INSERTED else ENQUEUE_OUTCOME_INSERTED),
                t\<lparr>jobs := jobs t @ rows\<rparr>))"

text \<open>The answer row: inserted id, existing id, outcome.\<close>

definition dedupe_enqueue_statement ::
    "stmt \<Rightarrow> bytes \<Rightarrow> job_row \<Rightarrow> queue_tables
     \<Rightarrow> (sqlx_error + bytes option \<times> bytes option \<times> string) \<times> queue_tables" where
  "dedupe_enqueue_statement s i r t =
     (let existing = map_option fst (find (\<lambda>(j, q). j \<notin> stmt_hidden s \<and> is_active q
            \<and> same_dedupe (job_task_name r) (job_dedupe_key r) q) (jobs t))
      in case pause_outcome (job_task_name r) t of
           Some paused \<Rightarrow> (Inr (None, existing, paused), t)
         | None \<Rightarrow>
             (case insert_job_unless_active i r t of
                Inl (e, _) \<Rightarrow> (Inl e, t)
              | Inr (True, t') \<Rightarrow> (Inr (Some i, existing, ENQUEUE_OUTCOME_INSERTED), t')
              | Inr (False, t') \<Rightarrow> (Inr (None, existing, ENQUEUE_OUTCOME_NOT_INSERTED), t')))"

definition upsert_pause_key_statement :: "stmt \<Rightarrow> string \<Rightarrow> string option \<Rightarrow> queue_tables \<Rightarrow> queue_tables" where
  "upsert_pause_key_statement s k name t =
     (let row = \<lparr>pause_task_name = name, pause_paused_at = stmt_now s, pause_updated_at = stmt_now s\<rparr>
      in if k \<in> set (map fst (pauses t)) then t\<lparr>pauses := update_rows [k] (\<lambda>_. row) (pauses t)\<rparr>
         else t\<lparr>pauses := pauses t @ [(k, row)]\<rparr>)"

definition delete_pause_key_statement :: "string \<Rightarrow> queue_tables \<Rightarrow> queue_tables" where
  "delete_pause_key_statement k t = t\<lparr>pauses := delete_rows [k] (pauses t)\<rparr>"

end
