(* ===== verification/QueueStore.thy ===== *)
theory QueueStore
  imports Queue
begin

text \<open>
  \<open>src/src/db/queue/operations\<close>, \<open>preparation.rs\<close> and \<open>api\<close>: the functions that run one statement and
  read its answer, and every operation of the store inside a transaction and on a pool. Each takes
  the moment \<open>s\<close> of its statement; an operation of several statements takes one moment each.
\<close>

section \<open>Running a statement\<close>

definition queue_query_error :: "sqlx_error \<Rightarrow> 'g queue_error" where
  "queue_query_error e = QueueDatabase (db_query_error e)"

text \<open>\<open>.map_err(DbError::query)?\<close> followed by the reading of the answer.\<close>

definition read_answer ::
    "('a \<Rightarrow> 'g queue_error + 'b) \<Rightarrow> (sqlx_error + 'a) \<times> queue_tables \<Rightarrow> ('g queue_error + 'b) \<times> queue_tables" where
  "read_answer f res = (case res of (Inl e, t) \<Rightarrow> (Inl (queue_query_error e), t) | (Inr x, t) \<Rightarrow> (f x, t))"

definition ok_answer :: "'a \<times> queue_tables \<Rightarrow> (sqlx_error + 'a) \<times> queue_tables" where
  "ok_answer res = (Inr (fst res), snd res)"

definition owned_running_job_update_result_from_outcome ::
    "string \<Rightarrow> queue_state_error \<Rightarrow> string \<Rightarrow> 'g queue_error + unit" where
  "owned_running_job_update_result_from_outcome operation mismatch outcome =
     (if outcome = TRANSITION_OUTCOME_APPLIED then Inr ()
      else if outcome = TRANSITION_OUTCOME_LOCKED then Inl (QueueState JobLockedByConcurrentTransaction)
      else if outcome = TRANSITION_OUTCOME_NOT_FOUND \<or> outcome = TRANSITION_OUTCOME_STATE_MISMATCH then
        Inl (QueueState mismatch)
      else Inl (QueueUnexpectedOutcome operation outcome))"

definition schedule_owned_running_job_retry_result_from_outcome ::
    "string \<Rightarrow> micros option \<Rightarrow> 'g queue_error + micros" where
  "schedule_owned_running_job_retry_result_from_outcome outcome next_run_at =
     (if outcome = TRANSITION_OUTCOME_APPLIED then
        (case next_run_at of
           None \<Rightarrow> Inl (QueueUnexpectedOutcome ''schedule owned running job retry'' ''applied without next run time'')
         | Some n \<Rightarrow> Inr n)
      else if outcome = TRANSITION_OUTCOME_LOCKED then Inl (QueueState JobLockedByConcurrentTransaction)
      else if outcome = TRANSITION_OUTCOME_NOT_FOUND \<or> outcome = TRANSITION_OUTCOME_STATE_MISMATCH then
        Inl (QueueState JobNotRunning)
      else Inl (QueueUnexpectedOutcome ''schedule owned running job retry'' outcome))"

definition move_owned_running_job_to_dead_letter_result_from_outcome ::
    "string \<Rightarrow> bytes option \<Rightarrow> 'g queue_error + sortable_id" where
  "move_owned_running_job_to_dead_letter_result_from_outcome outcome inserted =
     (if outcome = TRANSITION_OUTCOME_APPLIED then
        (case inserted of
           None \<Rightarrow> Inl (QueueUnexpectedOutcome ''move owned running job to dead letter''
             ''applied without inserted dead-letter id'')
         | Some bs \<Rightarrow> queue_id_from_bytes bs)
      else if outcome = TRANSITION_OUTCOME_LOCKED then Inl (QueueState JobLockedByConcurrentTransaction)
      else if outcome = TRANSITION_OUTCOME_NOT_FOUND \<or> outcome = TRANSITION_OUTCOME_STATE_MISMATCH then
        Inl (QueueState JobNotRunning)
      else Inl (QueueUnexpectedOutcome ''move owned running job to dead letter'' outcome))"

definition queue_job_state_transition_result_from_outcome ::
    "string \<Rightarrow> queue_state_error \<Rightarrow> string \<Rightarrow> 'g queue_error + unit" where
  "queue_job_state_transition_result_from_outcome operation mismatch outcome =
     (if outcome = TRANSITION_OUTCOME_APPLIED then Inr ()
      else if outcome = TRANSITION_OUTCOME_NOT_FOUND then Inl (QueueState JobNotFound)
      else if outcome = TRANSITION_OUTCOME_LOCKED then Inl (QueueState JobLockedByConcurrentTransaction)
      else if outcome = TRANSITION_OUTCOME_STATE_MISMATCH then Inl (QueueState mismatch)
      else Inl (QueueUnexpectedOutcome operation outcome))"

definition queue_retry_failed_job_result_from_outcome :: "string \<Rightarrow> 'g queue_error + unit" where
  "queue_retry_failed_job_result_from_outcome outcome =
     (if outcome = TRANSITION_OUTCOME_APPLIED then Inr ()
      else if outcome = TRANSITION_OUTCOME_NOT_FOUND then Inl (QueueState JobNotFound)
      else if outcome = TRANSITION_OUTCOME_LOCKED then Inl (QueueState JobLockedByConcurrentTransaction)
      else if outcome = TRANSITION_OUTCOME_STATE_MISMATCH then Inl (QueueState JobNotFailed)
      else if outcome = TRANSITION_OUTCOME_DEDUPE_CONFLICT then Inl (QueueState RetryConflictWithActiveDedupeJob)
      else Inl (QueueUnexpectedOutcome ''retry failed job'' outcome))"

definition move_failed_job_to_dead_letter_result_from_row_state ::
    "bytes option \<Rightarrow> bool \<Rightarrow> bool \<Rightarrow> bool \<Rightarrow> bool \<Rightarrow> 'g queue_error + sortable_id" where
  "move_failed_job_to_dead_letter_result_from_row_state inserted target_exists target_matches
       visible_exists visible_matches =
     (case inserted of
        Some bs \<Rightarrow> queue_id_from_bytes bs
      | None \<Rightarrow>
          if \<not> visible_exists then Inl (QueueState JobNotFound)
          else if \<not> target_exists \<and> visible_matches then Inl (QueueState JobLockedByConcurrentTransaction)
          else if \<not> target_matches then Inl (QueueState JobNotFailed)
          else Inl (QueueUnexpectedOutcome ''move failed job to dead letter''
            ''failed job matched but no dead-letter row was inserted''))"

definition requeue_dead_letter_job_result_from_row_state ::
    "bytes option \<Rightarrow> bool \<Rightarrow> bool \<Rightarrow> bool \<Rightarrow> bool \<Rightarrow> 'g queue_error + sortable_id" where
  "requeue_dead_letter_job_result_from_row_state inserted source_exists visible_exists
       conflict_exists deleted_source =
     (case inserted of
        Some bs \<Rightarrow>
          if \<not> deleted_source then Inl (QueueUnexpectedOutcome ''requeue dead-letter job''
            ''inserted replacement job without deleting dead-letter source'')
          else queue_id_from_bytes bs
      | None \<Rightarrow>
          if \<not> visible_exists then Inl (QueueState DeadLetterJobNotFound)
          else if \<not> source_exists then Inl (QueueState DeadLetterJobLockedByConcurrentTransaction)
          else if conflict_exists then Inl (QueueState RetryConflictWithActiveDedupeJob)
          else Inl (QueueUnexpectedOutcome ''requeue dead-letter job''
            ''dead-letter source matched but no replacement job was inserted''))"

definition delete_dead_letter_job_result_from_outcome :: "string \<Rightarrow> 'g queue_error + unit" where
  "delete_dead_letter_job_result_from_outcome outcome =
     (if outcome = TRANSITION_OUTCOME_APPLIED then Inr ()
      else if outcome = TRANSITION_OUTCOME_NOT_FOUND then Inl (QueueState DeadLetterJobNotFound)
      else if outcome = TRANSITION_OUTCOME_LOCKED then
        Inl (QueueState DeadLetterJobLockedByConcurrentTransaction)
      else Inl (QueueUnexpectedOutcome ''delete dead-letter job'' outcome))"

text \<open>A unique violation that names the index over the active rows is a dedupe conflict.\<close>

definition sqlx_error_is_active_dedupe_unique_violation :: "constrained_error \<Rightarrow> bool" where
  "sqlx_error_is_active_dedupe_unique_violation e \<longleftrightarrow>
     sql_state_from_sqlx_error (fst e) = Some UniqueViolation \<and> snd e"

definition map_retry_query_error :: "constrained_error \<Rightarrow> 'g queue_error" where
  "map_retry_query_error e =
     (if sqlx_error_is_active_dedupe_unique_violation e then QueueState RetryConflictWithActiveDedupeJob
      else queue_query_error (fst e))"

definition claim_available_jobs_with_executor ::
    "stmt \<Rightarrow> string list \<Rightarrow> nat \<Rightarrow> string \<Rightarrow> queue_tables \<Rightarrow> ('g queue_error + job list) \<times> queue_tables" where
  "claim_available_jobs_with_executor s names limit worker t =
     (if names = [] then (Inr [], t)
      else read_answer (\<lambda>rows. collect_results (map queue_job_from_row rows))
             (ok_answer (claim_available_jobs_statement s names limit worker t)))"

definition execute_owned_running_job_update ::
    "string \<Rightarrow> (bytes \<Rightarrow> string \<Rightarrow> queue_tables \<Rightarrow> string \<times> queue_tables) \<Rightarrow> sortable_id \<Rightarrow> string
     \<Rightarrow> queue_tables \<Rightarrow> ('g queue_error + unit) \<times> queue_tables" where
  "execute_owned_running_job_update operation statement i worker t =
     read_answer (owned_running_job_update_result_from_outcome operation JobNotRunning)
       (ok_answer (statement (id_bytes i) worker t))"

definition execute_mark_owned_running_job_failed ::
    "stmt \<Rightarrow> sortable_id \<Rightarrow> string \<Rightarrow> string \<Rightarrow> bool \<Rightarrow> queue_tables \<Rightarrow> ('g queue_error + unit) \<times> queue_tables" where
  "execute_mark_owned_running_job_failed s i worker message increment t =
     read_answer (owned_running_job_update_result_from_outcome ''mark owned running job failed'' JobNotRunning)
       (mark_job_failed_statement s message increment (id_bytes i) worker t)"

definition schedule_owned_running_job_retry_with_executor ::
    "stmt \<Rightarrow> sortable_id \<Rightarrow> string \<Rightarrow> int \<Rightarrow> int \<Rightarrow> string \<Rightarrow> queue_tables
     \<Rightarrow> ('g queue_error + micros) \<times> queue_tables" where
  "schedule_owned_running_job_retry_with_executor s i worker new_retry_count us message t =
     read_answer (\<lambda>(outcome, next_run_at). schedule_owned_running_job_retry_result_from_outcome outcome next_run_at)
       (schedule_owned_running_job_retry_statement s new_retry_count us message (id_bytes i) worker t)"

definition move_owned_running_job_to_dead_letter_with_executor ::
    "stmt \<Rightarrow> 'g id_error + sortable_id \<Rightarrow> sortable_id \<Rightarrow> string \<Rightarrow> string \<Rightarrow> bool \<Rightarrow> dead_letter_reason
     \<Rightarrow> queue_tables \<Rightarrow> ('g queue_error + sortable_id) \<times> queue_tables" where
  "move_owned_running_job_to_dead_letter_with_executor s new_id i worker message increment reason t =
     (case new_id of
        Inl e \<Rightarrow> (Inl (QueueJobId e), t)
      | Inr dead \<Rightarrow>
          read_answer (\<lambda>(outcome, inserted). move_owned_running_job_to_dead_letter_result_from_outcome outcome inserted)
            (move_owned_running_job_to_dead_letter_statement s (id_bytes dead) message increment reason
              (id_bytes i) worker t))"

definition return_available_owned_running_jobs_to_pending ::
    "stmt \<Rightarrow> (job_row \<Rightarrow> bool) \<Rightarrow> string \<Rightarrow> queue_tables \<Rightarrow> ('g queue_error + nat) \<times> queue_tables" where
  "return_available_owned_running_jobs_to_pending s started worker t =
     read_answer Inr (ok_answer (return_available_owned_statement s started worker t))"

definition execute_job_state_transition_for_expected_status ::
    "(job_status \<Rightarrow> bytes \<Rightarrow> queue_tables \<Rightarrow> string \<times> queue_tables) \<Rightarrow> string \<Rightarrow> job_status \<Rightarrow> queue_state_error
     \<Rightarrow> sortable_id \<Rightarrow> queue_tables \<Rightarrow> ('g queue_error + unit) \<times> queue_tables" where
  "execute_job_state_transition_for_expected_status statement operation expected mismatch i t =
     read_answer (queue_job_state_transition_result_from_outcome operation mismatch)
       (ok_answer (statement expected (id_bytes i) t))"

definition execute_job_state_transition ::
    "(job_status \<Rightarrow> bytes \<Rightarrow> queue_tables \<Rightarrow> string \<times> queue_tables) \<Rightarrow> string \<Rightarrow> queue_state_error
     \<Rightarrow> sortable_id \<Rightarrow> queue_tables \<Rightarrow> ('g queue_error + unit) \<times> queue_tables" where
  "execute_job_state_transition statement operation mismatch i t =
     execute_job_state_transition_for_expected_status statement operation Pending mismatch i t"

definition execute_retry_failed_job ::
    "stmt \<Rightarrow> sortable_id \<Rightarrow> micros option \<Rightarrow> queue_tables \<Rightarrow> ('g queue_error + unit) \<times> queue_tables" where
  "execute_retry_failed_job s i run_at t =
     (case retry_failed_job_by_id_statement s run_at (id_bytes i) t of
        (Inl e, t') \<Rightarrow> (Inl (map_retry_query_error e), t')
      | (Inr outcome, t') \<Rightarrow> (queue_retry_failed_job_result_from_outcome outcome, t'))"

definition move_failed_job_to_dead_letter_with_executor ::
    "stmt \<Rightarrow> 'g id_error + sortable_id \<Rightarrow> sortable_id \<Rightarrow> dead_letter_reason \<Rightarrow> queue_tables
     \<Rightarrow> ('g queue_error + sortable_id) \<times> queue_tables" where
  "move_failed_job_to_dead_letter_with_executor s new_id i reason t =
     (case new_id of
        Inl e \<Rightarrow> (Inl (QueueJobId e), t)
      | Inr dead \<Rightarrow>
          read_answer (\<lambda>(inserted, te, tm, ve, vm).
              move_failed_job_to_dead_letter_result_from_row_state inserted te tm ve vm)
            (move_failed_job_to_dead_letter_statement s (id_bytes dead) reason (id_bytes i) t))"

record move_batch_result =
  requested_count :: nat
  moved_jobs :: "moved_to_dead_letter_job list"

definition skipped_count :: "move_batch_result \<Rightarrow> nat" where
  "skipped_count r = requested_count r - length (moved_jobs r)"

text \<open>The first identifier that repeats an earlier one.\<close>

fun first_duplicate :: "'a list \<Rightarrow> 'a list \<Rightarrow> 'a option" where
  "first_duplicate seen [] = None"
| "first_duplicate seen (x # xs) = (if x \<in> set seen then Some x else first_duplicate (x # seen) xs)"

definition move_failed_jobs_to_dead_letter_batch_with_executor ::
    "stmt \<Rightarrow> (nat \<Rightarrow> 'g id_error + sortable_id) \<Rightarrow> sortable_id list \<Rightarrow> dead_letter_reason \<Rightarrow> queue_tables
     \<Rightarrow> ('g queue_error + move_batch_result) \<times> queue_tables" where
  "move_failed_jobs_to_dead_letter_batch_with_executor s new_id job_ids reason t =
     (if job_ids = [] then (Inr \<lparr>requested_count = 0, moved_jobs = []\<rparr>, t)
      else if length job_ids > MAX_QUEUE_DEAD_LETTER_MOVE_BATCH_SIZE then
        (Inl (QueueLimit (DeadLetterMoveBatchSizeTooLarge (length job_ids) MAX_QUEUE_DEAD_LETTER_MOVE_BATCH_SIZE)), t)
      else case first_duplicate [] job_ids of
        Some i \<Rightarrow> (Inl (QueueLimit (DuplicateJobIdInDeadLetterMoveBatch i)), t)
      | None \<Rightarrow>
          (case collect_results (map (\<lambda>n. map_sum QueueJobId id (new_id n)) [0..<length job_ids]) of
             Inl e \<Rightarrow> (Inl e, t)
           | Inr dead_ids \<Rightarrow>
               read_answer (\<lambda>rows. map_sum id (\<lambda>moved. \<lparr>requested_count = length job_ids, moved_jobs = moved\<rparr>)
                   (collect_results (map queue_moved_to_dead_letter_job_from_row rows)))
                 (move_failed_jobs_to_dead_letter_batch_statement s
                   (zip (map id_bytes job_ids) (map id_bytes dead_ids)) reason t)))"

definition requeue_dead_letter_job_with_executor ::
    "stmt \<Rightarrow> 'g id_error + sortable_id \<Rightarrow> sortable_id \<Rightarrow> micros option \<Rightarrow> queue_tables
     \<Rightarrow> ('g queue_error + sortable_id) \<times> queue_tables" where
  "requeue_dead_letter_job_with_executor s new_id i run_at t =
     (case new_id of
        Inl e \<Rightarrow> (Inl (QueueJobId e), t)
      | Inr fresh \<Rightarrow>
          (case requeue_dead_letter_job_statement s (id_bytes fresh) run_at (id_bytes i) t of
             (Inl e, t') \<Rightarrow> (Inl (map_retry_query_error e), t')
           | (Inr (inserted, se, ve, ce, ds), t') \<Rightarrow>
               (requeue_dead_letter_job_result_from_row_state inserted se ve ce ds, t')))"

definition delete_dead_letter_job_with_executor ::
    "stmt \<Rightarrow> sortable_id \<Rightarrow> queue_tables \<Rightarrow> ('g queue_error + unit) \<times> queue_tables" where
  "delete_dead_letter_job_with_executor s i t =
     read_answer delete_dead_letter_job_result_from_outcome
       (ok_answer (delete_dead_letter_job_statement s (id_bytes i) t))"

section \<open>Maintenance\<close>

definition cleanup_jobs_older_than_once ::
    "stmt \<Rightarrow> job_status \<Rightarrow> nanos \<Rightarrow> nat \<Rightarrow> queue_tables \<Rightarrow> ('g queue_error + nat) \<times> queue_tables" where
  "cleanup_jobs_older_than_once s status older_than batch_size t =
     (case queue_duration_to_rounded_microseconds older_than of
        Inl e \<Rightarrow> (Inl e, t)
      | Inr us \<Rightarrow>
          (case validate_cleanup_batch_size batch_size of
             Inl e \<Rightarrow> (Inl e, t)
           | Inr _ \<Rightarrow> read_answer Inr (cleanup_jobs_statement s status us batch_size t)))"

definition cleanup_available_dead_letter_jobs_older_than_once_with_executor ::
    "stmt \<Rightarrow> nanos \<Rightarrow> nat \<Rightarrow> queue_tables \<Rightarrow> ('g queue_error + nat) \<times> queue_tables" where
  "cleanup_available_dead_letter_jobs_older_than_once_with_executor s older_than batch_size t =
     (case queue_duration_to_rounded_microseconds older_than of
        Inl e \<Rightarrow> (Inl e, t)
      | Inr us \<Rightarrow>
          (case validate_cleanup_batch_size batch_size of
             Inl e \<Rightarrow> (Inl e, t)
           | Inr _ \<Rightarrow> read_answer Inr (cleanup_dead_letters_statement s us batch_size t)))"

datatype cleanup_target = CleanupJobs job_status | CleanupDeadLetterJobs

definition cleanup_batch ::
    "string \<Rightarrow> pool_env \<Rightarrow> stmt \<Rightarrow> cleanup_target \<Rightarrow> nanos \<Rightarrow> nat \<Rightarrow> queue_tables
     \<Rightarrow> ('g queue_error + nat) \<times> queue_tables" where
  "cleanup_batch protocol env s target older_than batch_size t =
     pool_write (case target of CleanupJobs _ \<Rightarrow> ''cleanup jobs until empty batch''
                 | CleanupDeadLetterJobs \<Rightarrow> ''cleanup dead letter jobs until empty batch'')
       QueueDatabase QueueDatabaseOperationRollbackFailed env
       (admitted protocol (env_reply env) QueueDatabase
         (case target of
            CleanupJobs status \<Rightarrow> cleanup_jobs_older_than_once s status older_than batch_size
          | CleanupDeadLetterJobs \<Rightarrow>
              cleanup_available_dead_letter_jobs_older_than_once_with_executor s older_than batch_size)) t"

definition u64_max :: nat where
  "u64_max = 18446744073709551615"

definition checked_add_cleanup_total :: "nat \<Rightarrow> nat \<Rightarrow> 'g queue_error + nat" where
  "checked_add_cleanup_total current deleted =
     (if current + deleted > u64_max then
        Inl (QueueUnexpectedOutcome ''queue cleanup'' ''deleted row count overflowed'')
      else Inr (current + deleted))"

text \<open>
  One element of the list is what one turn of the loop meets: the answers of the server, the
  moment of the statement, whether cancellation was requested before it and during the sleep
  after it. \<open>None\<close> is a loop still running when the list ends.
\<close>

fun cleanup_loop ::
    "string \<Rightarrow> cleanup_target \<Rightarrow> nanos \<Rightarrow> nat \<Rightarrow> (pool_env \<times> stmt \<times> bool \<times> bool) list \<Rightarrow> nat
     \<Rightarrow> queue_tables \<Rightarrow> (('g queue_error + nat) \<times> queue_tables) option" where
  "cleanup_loop protocol target older_than batch_size [] total_deleted t = None"
| "cleanup_loop protocol target older_than batch_size ((env, s, cancelled, cancelled_asleep) # rest) total_deleted t =
     (if cancelled then Some (Inr total_deleted, t)
      else case cleanup_batch protocol env s target older_than batch_size t of
        (Inl e, t') \<Rightarrow> Some (Inl e, t')
      | (Inr deleted, t') \<Rightarrow>
          (case checked_add_cleanup_total total_deleted deleted of
             Inl e \<Rightarrow> Some (Inl e, t')
           | Inr total_deleted' \<Rightarrow>
               if deleted < batch_size \<or> cancelled_asleep then Some (Inr total_deleted', t')
               else cleanup_loop protocol target older_than batch_size rest total_deleted' t'))"

definition cleanup_target_older_than_until_empty ::
    "string \<Rightarrow> cleanup_target \<Rightarrow> nanos \<Rightarrow> nat \<Rightarrow> (pool_env \<times> stmt \<times> bool \<times> bool) list
     \<Rightarrow> queue_tables \<Rightarrow> (('g queue_error + nat) \<times> queue_tables) option" where
  "cleanup_target_older_than_until_empty protocol target older_than batch_size turns t =
     (case validate_cleanup_batch_size batch_size of
        Inl e \<Rightarrow> Some (Inl e, t)
      | Inr _ \<Rightarrow> cleanup_loop protocol target older_than batch_size turns 0 t)"

definition reclaim_never_started_running_jobs ::
    "stmt \<Rightarrow> int \<Rightarrow> nat \<Rightarrow> queue_tables \<Rightarrow> ('g queue_error + reclaimed_job list) \<times> queue_tables" where
  "reclaim_never_started_running_jobs s us batch_size t =
     (case validate_reclaim_batch_size batch_size of
        Inl e \<Rightarrow> (Inl e, t)
      | Inr _ \<Rightarrow> read_answer (\<lambda>rows. collect_results (map queue_reclaimed_job_from_row rows))
                   (reclaim_never_started_statement s us batch_size t))"

definition reclaim_expired_running_jobs_to_failed ::
    "stmt \<Rightarrow> int \<Rightarrow> nat \<Rightarrow> queue_tables \<Rightarrow> ('g queue_error + reclaimed_failed_job list) \<times> queue_tables" where
  "reclaim_expired_running_jobs_to_failed s us batch_size t =
     (case validate_reclaim_batch_size batch_size of
        Inl e \<Rightarrow> (Inl e, t)
      | Inr _ \<Rightarrow> read_answer (\<lambda>rows. collect_results (map queue_reclaimed_failed_job_from_row rows))
                   (reclaim_expired_to_failed_statement s us batch_size t))"

definition reclaim_expired_running_jobs_to_pending_for_retry ::
    "stmt \<Rightarrow> int \<Rightarrow> nat \<Rightarrow> queue_tables \<Rightarrow> ('g queue_error + reclaimed_job list) \<times> queue_tables" where
  "reclaim_expired_running_jobs_to_pending_for_retry s us batch_size t =
     (case validate_reclaim_batch_size batch_size of
        Inl e \<Rightarrow> (Inl e, t)
      | Inr _ \<Rightarrow> read_answer (\<lambda>rows. collect_results (map queue_reclaimed_job_from_row rows))
                   (reclaim_expired_to_pending_statement s us batch_size t))"

record reclaim_result =
  never_started_jobs_returned_to_pending :: "reclaimed_job list"
  expired_jobs_moved_to_failed :: "reclaimed_failed_job list"
  expired_jobs_moved_to_dead_letter :: "moved_to_dead_letter_job list"
  expired_jobs_returned_to_pending_for_retry :: "reclaimed_job list"

text \<open>A step of a body that may fail, with the tables threaded through.\<close>

definition step_bind ::
    "('e + 'a) \<times> queue_tables \<Rightarrow> ('a \<Rightarrow> queue_tables \<Rightarrow> ('e + 'b) \<times> queue_tables) \<Rightarrow> ('e + 'b) \<times> queue_tables" where
  "step_bind res f = (case res of (Inl e, t) \<Rightarrow> (Inl e, t) | (Inr x, t) \<Rightarrow> f x t)"

text \<open>The four statements of one reclaim pass run at the moments \<open>s 0\<close> to \<open>s 3\<close>.\<close>

definition reclaim_pass ::
    "(nat \<Rightarrow> stmt) \<Rightarrow> (nat \<Rightarrow> 'g id_error + sortable_id) \<Rightarrow> int \<Rightarrow> nat \<Rightarrow> bool \<Rightarrow> queue_tables
     \<Rightarrow> ('g queue_error + reclaim_result) \<times> queue_tables" where
  "reclaim_pass s new_id us batch_size to_dead_letter t =
     step_bind (reclaim_never_started_running_jobs (s 0) us batch_size t) (\<lambda>returned t.
     step_bind (reclaim_expired_running_jobs_to_failed (s 1) us batch_size t) (\<lambda>failed t.
     step_bind (if to_dead_letter
                then step_bind (move_failed_jobs_to_dead_letter_batch_with_executor (s 2) new_id
                       (map reclaimed_failed_id failed) ExecutionExpired t) (\<lambda>r t. (Inr (moved_jobs r), t))
                else (Inr [], t)) (\<lambda>moved t.
     step_bind (reclaim_expired_running_jobs_to_pending_for_retry (s 3) us batch_size t) (\<lambda>retried t.
       (Inr \<lparr>never_started_jobs_returned_to_pending = returned, expired_jobs_moved_to_failed = failed,
          expired_jobs_moved_to_dead_letter = moved, expired_jobs_returned_to_pending_for_retry = retried\<rparr>, t)))))"

definition reclaim_available_stale_running_jobs_once_in_current_transaction ::
    "string \<Rightarrow> admission_reply \<Rightarrow> (nat \<Rightarrow> stmt) \<Rightarrow> (nat \<Rightarrow> 'g id_error + sortable_id) \<Rightarrow> nanos \<Rightarrow> nat \<Rightarrow> bool
     \<Rightarrow> queue_tables tx \<Rightarrow> ('g queue_error + reclaim_result) \<times> queue_tables tx" where
  "reclaim_available_stale_running_jobs_once_in_current_transaction protocol reply s new_id stale_threshold
       batch_size to_dead_letter tx =
     (case stale_threshold_to_microseconds stale_threshold of
        Inl e \<Rightarrow> (Inl e, tx)
      | Inr us \<Rightarrow>
          (case validate_reclaim_batch_size batch_size of
             Inl e \<Rightarrow> (Inl e, tx)
           | Inr _ \<Rightarrow> admitted protocol reply QueueDatabase (reclaim_pass s new_id us batch_size to_dead_letter) tx))"

end
