(* ===== verification/QueueInvariant.thy ===== *)
theory QueueInvariant
  imports QueueStore
begin

text \<open>
  The constraints the schema of the queue declares (\<open>src/src/db/queue/sql/schema_sql.rs\<close>), stated as
  an invariant of the tables, and the proof that no statement of the queue breaks one: the checks of
  the server never reject a statement. Every statement is a step of a transition relation labelled
  with who runs it.
\<close>

section \<open>Constraints of the schema\<close>

definition job_lifecycle_constraint :: "job_row \<Rightarrow> bool" where
  "job_lifecycle_constraint r \<longleftrightarrow>
     (let c = job_runtime r in
      job_status r = Pending \<and> worker_id c = None \<and> claimed_by_worker_at c = None
        \<and> execution_started_at c = None \<and> execution_heartbeat_at c = None \<and> finished_at c = None
      \<or> job_status r = Running \<and> worker_id c \<noteq> None \<and> claimed_by_worker_at c \<noteq> None
        \<and> execution_heartbeat_at c \<noteq> None \<and> finished_at c = None
      \<or> (job_status r = Completed \<or> job_status r = Failed) \<and> worker_id c = None
        \<and> claimed_by_worker_at c = None \<and> execution_started_at c = None
        \<and> execution_heartbeat_at c = None \<and> finished_at c \<noteq> None)"

text \<open>The numeric check, with the ranges of \<open>INT\<close> and \<open>BIGINT\<close>.\<close>

definition numeric_constraint :: "int \<Rightarrow> int \<Rightarrow> int \<Rightarrow> bool" where
  "numeric_constraint retries limit timeout_ns \<longleftrightarrow>
     0 \<le> retries \<and> retries \<le> i32_max \<and> 0 \<le> limit \<and> limit \<le> i32_max
     \<and> -1 \<le> timeout_ns \<and> timeout_ns \<le> i64_max"

definition text_constraint :: "string \<Rightarrow> string option \<Rightarrow> bool" where
  "text_constraint name key \<longleftrightarrow>
     name \<noteq> [] \<and> is_task_name_first_byte (hd name) \<and> list_all is_task_name_trailing_byte (tl name)
     \<and> length name \<le> MAX_QUEUE_TASK_NAME_BYTES
     \<and> (case key of None \<Rightarrow> True | Some k \<Rightarrow> k \<noteq> [] \<and> length k \<le> MAX_QUEUE_DEDUPE_KEY_BYTES)"

definition worker_text_constraint :: "string \<Rightarrow> bool" where
  "worker_text_constraint w \<longleftrightarrow> w \<noteq> [] \<and> length w \<le> MAX_QUEUE_WORKER_OWNER_ID_BYTES \<and> CHR 0x00 \<notin> set w"

definition job_row_ok :: "job_row \<Rightarrow> bool" where
  "job_row_ok r \<longleftrightarrow> job_lifecycle_constraint r
     \<and> numeric_constraint (job_retry_count r) (job_max_retries r) (job_timeout_nanos r)
     \<and> text_constraint (job_task_name r) (job_dedupe_key r)
     \<and> (case worker_id (job_runtime r) of None \<Rightarrow> True | Some w \<Rightarrow> worker_text_constraint w)"

definition dead_letter_row_ok :: "dead_letter_row \<Rightarrow> bool" where
  "dead_letter_row_ok d \<longleftrightarrow> length (dl_original_job_id d) = SORTABLE_ID_SIZE
     \<and> numeric_constraint (dl_retry_count d) (dl_max_retries d) (dl_timeout_nanos d)
     \<and> text_constraint (dl_task_name d) (dl_dedupe_key d)"

definition pause_row_ok :: "string \<Rightarrow> pause_row \<Rightarrow> bool" where
  "pause_row_ok k p \<longleftrightarrow>
     (case pause_task_name p of
        None \<Rightarrow> k = GLOBAL_PAUSE_KEY
      | Some name \<Rightarrow> k = paused_task_key name \<and> text_constraint name None)"

text \<open>The unique index over the active rows with a dedupe key.\<close>

definition active_dedupe_unique :: "(bytes \<times> job_row) list \<Rightarrow> bool" where
  "active_dedupe_unique js \<longleftrightarrow>
     (\<forall>(i, r) \<in> set js. \<forall>(j, q) \<in> set js. is_active r \<and> is_active q
        \<and> same_dedupe (job_task_name r) (job_dedupe_key r) q \<longrightarrow> i = j)"

definition jobs_inv :: "(bytes \<times> job_row) list \<Rightarrow> bool" where
  "jobs_inv js \<longleftrightarrow> well_keyed js \<and> active_dedupe_unique js
     \<and> (\<forall>(i, r) \<in> set js. length i = SORTABLE_ID_SIZE \<and> job_row_ok r)"

definition letters_inv :: "(bytes \<times> dead_letter_row) list \<Rightarrow> bool" where
  "letters_inv ds \<longleftrightarrow> well_keyed ds \<and> distinct (map (dl_original_job_id \<circ> snd) ds)
     \<and> (\<forall>(i, d) \<in> set ds. length i = SORTABLE_ID_SIZE \<and> dead_letter_row_ok d)"

definition pauses_inv :: "(string \<times> pause_row) list \<Rightarrow> bool" where
  "pauses_inv ps \<longleftrightarrow> well_keyed ps \<and> (\<forall>(k, p) \<in> set ps. pause_row_ok k p)"

definition queue_inv :: "queue_tables \<Rightarrow> bool" where
  "queue_inv t \<longleftrightarrow> jobs_inv (jobs t) \<and> letters_inv (dead_letters t) \<and> pauses_inv (pauses t)"

definition empty_queue :: queue_tables where
  "empty_queue = \<lparr>jobs = [], dead_letters = [], pauses = []\<rparr>"

section \<open>Rows under updates\<close>

lemma in_update_rows:
  "(k, r) \<in> set (update_rows ks f t) \<longleftrightarrow> (\<exists>q. (k, q) \<in> set t \<and> r = (if k \<in> set ks then f q else q))"
  by (auto simp: update_rows_def image_iff split: prod.splits if_splits)

lemma in_delete_rows: "(k, r) \<in> set (delete_rows ks t) \<longleftrightarrow> (k, r) \<in> set t \<and> k \<notin> set ks"
  by (auto simp: delete_rows_def)

lemma key_eq_row: "well_keyed t \<Longrightarrow> (k, r) \<in> set t \<Longrightarrow> (k, q) \<in> set t \<Longrightarrow> r = q"
  by (simp add: in_table_iff)

lemma active_dedupe_uniqueD:
  "active_dedupe_unique js \<Longrightarrow> (i, r) \<in> set js \<Longrightarrow> (j, q) \<in> set js \<Longrightarrow> is_active r \<Longrightarrow> is_active q
     \<Longrightarrow> same_dedupe (job_task_name r) (job_dedupe_key r) q \<Longrightarrow> i = j"
  unfolding active_dedupe_unique_def by blast

lemma active_dedupe_uniqueI:
  "(\<And>i r j q. (i, r) \<in> set js \<Longrightarrow> (j, q) \<in> set js \<Longrightarrow> is_active r \<Longrightarrow> is_active q
     \<Longrightarrow> same_dedupe (job_task_name r) (job_dedupe_key r) q \<Longrightarrow> i = j) \<Longrightarrow> active_dedupe_unique js"
  unfolding active_dedupe_unique_def by blast

lemma jobs_invI:
  "well_keyed js \<Longrightarrow> active_dedupe_unique js
     \<Longrightarrow> (\<And>i r. (i, r) \<in> set js \<Longrightarrow> length i = SORTABLE_ID_SIZE \<and> job_row_ok r) \<Longrightarrow> jobs_inv js"
  unfolding jobs_inv_def by blast

lemma jobs_inv_well_keyed: "jobs_inv js \<Longrightarrow> well_keyed js"
  and jobs_inv_unique: "jobs_inv js \<Longrightarrow> active_dedupe_unique js"
  and jobs_inv_in: "jobs_inv js \<Longrightarrow> (i, r) \<in> set js \<Longrightarrow> length i = SORTABLE_ID_SIZE \<and> job_row_ok r"
  unfolding jobs_inv_def by blast+

lemma jobs_inv_row: "jobs_inv js \<Longrightarrow> map_of js i = Some r \<Longrightarrow> length i = SORTABLE_ID_SIZE \<and> job_row_ok r"
  by (rule jobs_inv_in) (auto dest: map_of_SomeD)

text \<open>
  A change of rows that keeps each row within its checks, its task and its dedupe key, and makes
  no row active that was not.
\<close>

definition benign :: "(job_row \<Rightarrow> bool) \<Rightarrow> (job_row \<Rightarrow> job_row) \<Rightarrow> bool" where
  "benign P f \<longleftrightarrow> (\<forall>r. P r \<longrightarrow> job_row_ok r \<longrightarrow> job_row_ok (f r) \<and> job_task_name (f r) = job_task_name r
     \<and> job_dedupe_key (f r) = job_dedupe_key r \<and> (is_active (f r) \<longrightarrow> is_active r))"

lemma jobs_inv_update:
  assumes inv: "jobs_inv js" and f: "benign P f"
    and sel: "\<And>k r. (k, r) \<in> set js \<Longrightarrow> k \<in> set ks \<Longrightarrow> P r"
  shows "jobs_inv (update_rows ks f js)"
proof (rule jobs_invI)
  have ok: "job_row_ok (f r) \<and> job_task_name (f r) = job_task_name r
     \<and> job_dedupe_key (f r) = job_dedupe_key r \<and> (is_active (f r) \<longrightarrow> is_active r)"
    if "(k, r) \<in> set js" "k \<in> set ks" for k r
    using f sel [OF that] jobs_inv_in [OF inv that(1)] unfolding benign_def by blast
  show "well_keyed (update_rows ks f js)" using inv by (simp add: jobs_inv_well_keyed)
  show "active_dedupe_unique (update_rows ks f js)"
  proof (rule active_dedupe_uniqueI)
    fix i r j q
    assume a: "(i, r) \<in> set (update_rows ks f js)" "(j, q) \<in> set (update_rows ks f js)" "is_active r" "is_active q"
      "same_dedupe (job_task_name r) (job_dedupe_key r) q"
    then obtain r0 q0 where rows: "(i, r0) \<in> set js" "r = (if i \<in> set ks then f r0 else r0)"
      "(j, q0) \<in> set js" "q = (if j \<in> set ks then f q0 else q0)"
      unfolding in_update_rows by blast
    have "is_active r0" "is_active q0" "same_dedupe (job_task_name r0) (job_dedupe_key r0) q0"
      using a(3-5) rows ok [OF rows(1)] ok [OF rows(3)] by (auto simp: same_dedupe_def split: if_splits)
    then show "i = j" using active_dedupe_uniqueD [OF jobs_inv_unique [OF inv] rows(1,3)] by blast
  qed
  show "length i = SORTABLE_ID_SIZE \<and> job_row_ok r" if "(i, r) \<in> set (update_rows ks f js)" for i r
    using that ok jobs_inv_in [OF inv] unfolding in_update_rows by (metis (full_types))
qed

lemma jobs_inv_subset: "jobs_inv js \<Longrightarrow> set qs \<subseteq> set js \<Longrightarrow> well_keyed qs \<Longrightarrow> jobs_inv qs"
  by (meson active_dedupe_uniqueD active_dedupe_uniqueI jobs_invI jobs_inv_in jobs_inv_unique subsetD)

lemma jobs_inv_delete: "jobs_inv js \<Longrightarrow> jobs_inv (delete_rows ks js)"
  by (rule jobs_inv_subset [of js]) (simp_all add: delete_rows_def jobs_inv_well_keyed well_keyed_delete [unfolded delete_rows_def] filter_is_subset)

lemma jobs_inv_append:
  assumes inv: "jobs_inv js" and new: "i \<notin> set (map fst js)" "length i = SORTABLE_ID_SIZE" "job_row_ok r"
    and free: "\<And>j q. (j, q) \<in> set js \<Longrightarrow> is_active q \<Longrightarrow> \<not> same_dedupe (job_task_name r) (job_dedupe_key r) q"
  shows "jobs_inv (js @ [(i, r)])"
proof (rule jobs_invI)
  show "well_keyed (js @ [(i, r)])" using inv new by (auto simp: jobs_inv_well_keyed)
  show "active_dedupe_unique (js @ [(i, r)])"
  proof (rule active_dedupe_uniqueI)
    fix a b c d
    assume h: "(a, b) \<in> set (js @ [(i, r)])" "(c, d) \<in> set (js @ [(i, r)])" "is_active b" "is_active d"
      "same_dedupe (job_task_name b) (job_dedupe_key b) d"
    have sym: "same_dedupe (job_task_name d) (job_dedupe_key d) b" using h(5) by (auto simp: same_dedupe_def)
    from h(1,2) consider "(a, b) \<in> set js" "(c, d) \<in> set js" | "(a, b) = (i, r)" "(c, d) \<in> set js"
      | "(a, b) \<in> set js" "(c, d) = (i, r)" | "(a, b) = (i, r)" "(c, d) = (i, r)" by auto
    then show "a = c"
    proof cases
      case 1 then show ?thesis using active_dedupe_uniqueD [OF jobs_inv_unique [OF inv]] h by blast
    next
      case 2 then show ?thesis using free [of c d] h by simp
    next
      case 3 then show ?thesis using free [of a b] h sym by simp
    qed simp
  qed
qed (use new jobs_inv_in [OF inv] in auto)

lemma letters_inv_delete:
  assumes "letters_inv ds"
  shows "letters_inv (delete_rows ks ds)"
proof -
  have "distinct (map (dl_original_job_id \<circ> snd) (delete_rows ks ds))"
    using assms unfolding letters_inv_def delete_rows_def by (auto intro: distinct_map_filter)
  then show ?thesis using assms unfolding letters_inv_def by (auto simp: in_delete_rows)
qed

lemma letters_inv_insert:
  assumes "letters_inv (dead_letters t)" "insert_dead_letter i d t = Inr t'"
    "length i = SORTABLE_ID_SIZE" "dead_letter_row_ok d"
  shows "letters_inv (dead_letters t')"
  using assms by (auto simp: letters_inv_def insert_dead_letter_def split: if_splits)

lemma insert_dead_letter_keeps:
  "insert_dead_letter i d t = Inr t' \<Longrightarrow> jobs t' = jobs t \<and> pauses t' = pauses t
     \<and> dead_letters t' = dead_letters t @ [(i, d)]"
  by (auto simp: insert_dead_letter_def split: if_splits)


section \<open>The statements keep the constraints\<close>

text \<open>What a worker's update of a running row writes is within the checks.\<close>

lemmas row_check_defs = job_row_ok_def job_lifecycle_constraint_def numeric_constraint_def

lemma benign_started: "benign (owned_running w)
    (\<lambda>r. r\<lparr>job_runtime := (job_runtime r)\<lparr>execution_started_at := Some now, execution_heartbeat_at := Some now\<rparr>,
       job_updated_at := now\<rparr>)"
  by (auto simp: benign_def row_check_defs owned_running_def is_active_def Let_def)

lemma benign_touch: "benign (owned_running w)
    (\<lambda>r. r\<lparr>job_runtime := (job_runtime r)\<lparr>execution_heartbeat_at := Some now\<rparr>, job_updated_at := now\<rparr>)"
  by (auto simp: benign_def row_check_defs owned_running_def is_active_def Let_def)

lemma benign_completed: "benign (owned_running w)
    (\<lambda>r. r\<lparr>job_status := Completed, job_runtime := no_runtime (Some now), job_updated_at := now\<rparr>)"
  by (auto simp: benign_def row_check_defs owned_running_def is_active_def no_runtime_def Let_def)

lemma benign_return: "benign (\<lambda>r. job_status r = Running) (return_to_pending now)"
  by (auto simp: benign_def row_check_defs is_active_def no_runtime_def return_to_pending_def Let_def)

lemma benign_claim: "worker_text_constraint w \<Longrightarrow> benign (\<lambda>r. job_status r = Pending) (claim_row now w)"
  by (auto simp: benign_def row_check_defs is_active_def claim_row_def Let_def)

lemma benign_weaken: "benign P f \<Longrightarrow> (\<And>r. Q r \<Longrightarrow> P r) \<Longrightarrow> benign Q f"
  unfolding benign_def by blast

text \<open>The shape of an update of the jobs: a change of some rows, and nothing else.\<close>

lemma queue_inv_update_jobs:
  assumes "queue_inv t" "benign P f" "\<And>k r. map_of (jobs t) k = Some r \<Longrightarrow> k \<in> set ks \<Longrightarrow> P r"
  shows "queue_inv (t\<lparr>jobs := update_rows ks f (jobs t)\<rparr>)"
  using assms jobs_inv_update [of "jobs t" P f ks]
  by (auto simp: queue_inv_def jobs_inv_well_keyed in_table_iff)

lemma queue_inv_delete_jobs: "queue_inv t \<Longrightarrow> queue_inv (t\<lparr>jobs := delete_rows ks (jobs t)\<rparr>)"
  by (simp add: queue_inv_def jobs_inv_delete)

lemma queue_inv_delete_letters: "queue_inv t \<Longrightarrow> queue_inv (t\<lparr>dead_letters := delete_rows ks (dead_letters t)\<rparr>)"
  by (simp add: queue_inv_def letters_inv_delete)

lemma queue_inv_jobs_row:
  "queue_inv t \<Longrightarrow> map_of (jobs t) i = Some r \<Longrightarrow> length i = SORTABLE_ID_SIZE \<and> job_row_ok r"
  unfolding queue_inv_def by (blast dest: jobs_inv_row)

lemma filtered_key_row:
  "well_keyed t \<Longrightarrow> k \<in> set (map fst (filter P t)) \<Longrightarrow> map_of t k = Some r \<Longrightarrow> P (k, r)"
  by (auto simp: in_table_iff)

lemma queue_inv_well_keyed: "queue_inv t \<Longrightarrow> well_keyed (jobs t)"
  by (simp add: queue_inv_def jobs_inv_well_keyed)

lemma owned_update_cases:
  "owned_update s extra change i worker t = (res, t') \<Longrightarrow>
     (res = TRANSITION_OUTCOME_APPLIED \<and> t' = t\<lparr>jobs := update_rows [i] change (jobs t)\<rparr>
        \<and> i \<notin> stmt_locked s \<and> i \<notin> stmt_hidden s
        \<and> (\<exists>r. map_of (jobs t) i = Some r \<and> owned_running worker r \<and> extra r))
     \<or> (res \<noteq> TRANSITION_OUTCOME_APPLIED \<and> t' = t)"
  by (auto simp: owned_update_def visible_row_def transition_outcome_def Let_def TRANSITION_OUTCOME_APPLIED_def
      TRANSITION_OUTCOME_NOT_FOUND_def TRANSITION_OUTCOME_STATE_MISMATCH_def TRANSITION_OUTCOME_LOCKED_def
      split: option.splits if_splits)

lemma queue_inv_owned_update:
  assumes "queue_inv t" "benign (\<lambda>r. owned_running worker r \<and> extra r) change"
  shows "queue_inv (snd (owned_update s extra change i worker t))"
proof -
  obtain res t' where r: "owned_update s extra change i worker t = (res, t')" by fastforce
  then show ?thesis using owned_update_cases [OF r] assms
      queue_inv_update_jobs [OF assms, of "[i]"] by auto
qed

lemma owned_is_running: "owned_running w r \<Longrightarrow> job_status r = Running"
  by (simp add: owned_running_def)

lemma queue_inv_worker_updates:
  assumes "queue_inv t"
  shows "queue_inv (snd (mark_job_started_statement s i w t))"
    and "queue_inv (snd (mark_job_completed_statement s i w t))"
    and "queue_inv (snd (touch_execution_heartbeat_statement s i w t))"
    and "queue_inv (snd (return_owned_unstarted_statement s i w t))"
    and "queue_inv (snd (return_owned_started_statement s i w t))"
  using assms
  by (auto simp: mark_job_started_statement_def mark_job_completed_statement_def
      touch_execution_heartbeat_statement_def return_owned_unstarted_statement_def return_owned_started_statement_def
      dest: owned_is_running
      intro!: queue_inv_owned_update benign_weaken [OF benign_started] benign_weaken [OF benign_completed]
        benign_weaken [OF benign_touch] benign_weaken [OF benign_return])

lemma queue_inv_return_available:
  assumes "queue_inv t"
  shows "queue_inv (snd (return_available_owned_statement s started w t))"
proof -
  let ?P = "\<lambda>(k, r). lockable s k \<and> owned_running w r \<and> started r"
  have "job_status r = Running" if "map_of (jobs t) k = Some r" "k \<in> set (map fst (filter ?P (jobs t)))" for k r
    using filtered_key_row [OF queue_inv_well_keyed [OF assms] that(2,1)] by (simp add: owned_running_def)
  then have "queue_inv (t\<lparr>jobs := update_rows (map fst (filter ?P (jobs t))) (return_to_pending (stmt_now s)) (jobs t)\<rparr>)"
    by (rule queue_inv_update_jobs [OF assms benign_return])
  then show ?thesis by (simp only: return_available_owned_statement_def Let_def snd_conv)
qed

lemma failed_row_ok:
  assumes "owned_running w r" "job_row_ok r" "retry_count_plus increment r \<le> i32_max"
  shows "job_row_ok (r\<lparr>job_status := Failed, job_last_error := Some message,
            job_retry_count := retry_count_plus increment r, job_runtime := no_runtime (Some now),
            job_updated_at := now\<rparr>)"
  using assms by (simp add: row_check_defs owned_running_def no_runtime_def Let_def retry_count_plus_def)

lemma queue_inv_mark_failed:
  assumes "queue_inv t"
  shows "queue_inv (snd (mark_job_failed_statement s message increment i w t))"
proof -
  let ?f = "\<lambda>r. r\<lparr>job_status := Failed, job_last_error := Some message,
            job_retry_count := retry_count_plus increment r, job_runtime := no_runtime (Some (stmt_now s)),
            job_updated_at := stmt_now s\<rparr>"
  obtain res t' where r: "owned_update s (\<lambda>r. True) ?f i w t = (res, t')" by fastforce
  show ?thesis
  proof (cases "res = TRANSITION_OUTCOME_APPLIED \<and> \<not> (case map_of (jobs t') i of None \<Rightarrow> False | Some r \<Rightarrow> job_retry_count r > i32_max)")
    case False
    then show ?thesis using assms owned_update_cases [OF r] by (auto simp: mark_job_failed_statement_def r Let_def)
  next
    case True
    then obtain r0 where t': "t' = t\<lparr>jobs := update_rows [i] ?f (jobs t)\<rparr>" "map_of (jobs t) i = Some r0" "owned_running w r0"
      using owned_update_cases [OF r] by auto
    then have small: "retry_count_plus increment r0 \<le> i32_max" using True by (simp add: map_of_update_rows split: option.splits)
    have ben: "benign (\<lambda>r. r = r0) ?f"
      using failed_row_ok [OF t'(3) _ small] by (simp add: benign_def is_active_def)
    have "queue_inv t'" unfolding t'(1)
      by (rule queue_inv_update_jobs [OF assms ben]) (use t'(2) in simp)
    then show ?thesis using True by (simp add: mark_job_failed_statement_def r)
  qed
qed

lemma queue_inv_schedule_retry:
  assumes "queue_inv t" "0 \<le> n" "n \<le> i32_max"
  shows "queue_inv (snd (schedule_owned_running_job_retry_statement s n us message i w t))"
proof -
  let ?f = "\<lambda>r. r\<lparr>job_status := Pending, job_retry_count := n,
            job_run_at_or_after := stmt_now s + us, job_last_error := Some message,
            job_runtime := no_runtime None, job_updated_at := stmt_now s\<rparr>"
  have "benign (owned_running w) ?f"
    using assms by (auto simp: benign_def row_check_defs owned_running_def is_active_def no_runtime_def Let_def)
  then have "queue_inv (snd (owned_update s (\<lambda>r. True) ?f i w t))"
    using queue_inv_owned_update [OF assms(1), of w "\<lambda>r. True" ?f] by (simp add: benign_def)
  then show ?thesis using assms(1)
    by (auto simp: schedule_owned_running_job_retry_statement_def Let_def split: prod.splits)
qed

lemma selected_key_row:
  "well_keyed t \<Longrightarrow> k \<in> set (select_keys P order n t) \<Longrightarrow> map_of t k = Some r \<Longrightarrow> P (k, r)"
  using select_keys_subset [of t k P order n] by auto

text \<open>An update of the rows a selection took, when the selection checks what the change needs.\<close>

lemma queue_inv_update_selected:
  assumes "queue_inv t" "benign Q f" "\<And>k r. P (k, r) \<Longrightarrow> Q r"
  shows "queue_inv (t\<lparr>jobs := update_rows (select_keys P order n (jobs t)) f (jobs t)\<rparr>)"
  by (rule queue_inv_update_jobs [OF assms(1,2)])
    (use assms(3) selected_key_row [OF queue_inv_well_keyed [OF assms(1)]] in blast)

lemma queue_inv_claim:
  assumes "queue_inv t" "worker_text_constraint w"
  shows "queue_inv (snd (claim_available_jobs_statement s names limit w t))"
  unfolding claim_available_jobs_statement_def Let_def snd_conv
  by (rule queue_inv_update_selected [OF assms(1) benign_claim [OF assms(2)]])
    (simp add: claimable_def)

lemma dead_letter_of_ok:
  assumes "job_row_ok r" "length i = SORTABLE_ID_SIZE" "0 \<le> n" "n \<le> i32_max"
  shows "dead_letter_row_ok (dead_letter_of now i message n reason r)"
  using assms by (simp add: dead_letter_row_ok_def dead_letter_of_def job_row_ok_def numeric_constraint_def)

text \<open>Moving one job to the dead letters.\<close>

lemma queue_inv_bury:
  assumes inv: "queue_inv t" and ins: "insert_dead_letter new_id d (t\<lparr>jobs := delete_rows ks (jobs t)\<rparr>) = Inr t'"
    and "length new_id = SORTABLE_ID_SIZE" "dead_letter_row_ok d"
  shows "queue_inv t'"
  using assms letters_inv_insert [OF _ ins] insert_dead_letter_keeps [OF ins] jobs_inv_delete
  by (simp add: queue_inv_def)

lemma queue_inv_move_owned:
  assumes inv: "queue_inv t" and "length new_id = SORTABLE_ID_SIZE"
  shows "queue_inv (snd (move_owned_running_job_to_dead_letter_statement s new_id message increment reason i w t))"
proof (cases "visible_row s (jobs t) i")
  case None
  then show ?thesis using inv by (simp add: move_owned_running_job_to_dead_letter_statement_def)
next
  case (Some r)
  then have row: "map_of (jobs t) i = Some r" by (simp add: visible_row_def split: if_splits)
  note ok = queue_inv_jobs_row [OF inv row]
  show ?thesis
  proof (cases "owned_running w r \<and> i \<notin> stmt_locked s \<and> retry_count_plus increment r \<le> i32_max")
    case False
    then show ?thesis using inv Some by (auto simp: move_owned_running_job_to_dead_letter_statement_def)
  next
    case True
    have "dead_letter_row_ok (dead_letter_of (stmt_now s) i message (retry_count_plus increment r) reason r)"
      using ok True by (intro dead_letter_of_ok) (auto simp: retry_count_plus_def job_row_ok_def numeric_constraint_def)
    note bury = queue_inv_bury [OF inv _ assms(2) this]
    show ?thesis using True Some inv bury
      by (auto simp: move_owned_running_job_to_dead_letter_statement_def split: sum.splits)
  qed
qed

section \<open>Operator statements keep the constraints\<close>

lemma queue_inv_cancel:
  assumes "queue_inv t" shows "queue_inv (snd (cancel_pending_job_statement s expected i t))"
  using assms queue_inv_delete_jobs [OF assms] by (simp add: cancel_pending_job_statement_def split: option.splits)

lemma queue_inv_force:
  assumes inv: "queue_inv t" shows "queue_inv (snd (force_requeue_running_job_statement s Running i t))"
proof (cases "visible_row s (jobs t) i")
  case None
  then show ?thesis using inv by (simp add: force_requeue_running_job_statement_def)
next
  case (Some r)
  then have row: "map_of (jobs t) i = Some r" by (simp add: visible_row_def split: if_splits)
  have "queue_inv (t\<lparr>jobs := update_rows [i] (return_to_pending (stmt_now s)) (jobs t)\<rparr>)" if "job_status r = Running"
    by (rule queue_inv_update_jobs [OF inv benign_return]) (use row that in simp)
  then show ?thesis using Some inv by (simp add: force_requeue_running_job_statement_def)
qed

lemma retry_failed_row_ok: "job_row_ok r \<Longrightarrow> job_row_ok (retry_failed_row now run_at r)"
  by (simp add: retry_failed_row_def row_check_defs no_runtime_def Let_def i32_max_def)

lemma index_conflictI:
  "(j, q) \<in> set (jobs t) \<Longrightarrow> j \<noteq> i \<Longrightarrow> is_active q \<Longrightarrow> same_dedupe name key q \<Longrightarrow> index_dedupe_conflict i name key t"
  by (force simp: index_dedupe_conflict_def list_ex_iff)

text \<open>
  Making failed rows active again: none may conflict with an active row, nor two of them with
  each other.
\<close>

lemma queue_inv_retry:
  assumes inv: "queue_inv t"
    and rows: "\<And>k r. map_of (jobs t) k = Some r \<Longrightarrow> k \<in> set ks
      \<Longrightarrow> \<not> index_dedupe_conflict k (job_task_name r) (job_dedupe_key r) t"
    and apart: "\<And>i r j q. map_of (jobs t) i = Some r \<Longrightarrow> i \<in> set ks \<Longrightarrow> map_of (jobs t) j = Some q \<Longrightarrow> j \<in> set ks
      \<Longrightarrow> same_dedupe (job_task_name r) (job_dedupe_key r) q \<Longrightarrow> i = j"
  shows "queue_inv (t\<lparr>jobs := update_rows ks (retry_failed_row now run_at) (jobs t)\<rparr>)"
proof -
  let ?f = "retry_failed_row now run_at"
  note wk = queue_inv_well_keyed [OF inv]
  have f: "job_task_name (?f r) = job_task_name r" "job_dedupe_key (?f r) = job_dedupe_key r" for r
    by (simp_all add: retry_failed_row_def)
  have "jobs_inv (update_rows ks ?f (jobs t))"
  proof (rule jobs_invI)
    show "well_keyed (update_rows ks ?f (jobs t))" using wk by simp
    show "length i = SORTABLE_ID_SIZE \<and> job_row_ok r" if "(i, r) \<in> set (update_rows ks ?f (jobs t))" for i r
      using that inv retry_failed_row_ok jobs_inv_in [of "jobs t"] unfolding in_update_rows queue_inv_def by metis
    show "active_dedupe_unique (update_rows ks ?f (jobs t))"
    proof (rule active_dedupe_uniqueI)
      fix i r j q
      assume a: "(i, r) \<in> set (update_rows ks ?f (jobs t))" "(j, q) \<in> set (update_rows ks ?f (jobs t))"
        "is_active r" "is_active q" "same_dedupe (job_task_name r) (job_dedupe_key r) q"
      then obtain r0 q0 where o: "(i, r0) \<in> set (jobs t)" "r = (if i \<in> set ks then ?f r0 else r0)"
        "(j, q0) \<in> set (jobs t)" "q = (if j \<in> set ks then ?f q0 else q0)" unfolding in_update_rows by blast
      have m: "map_of (jobs t) i = Some r0" "map_of (jobs t) j = Some q0" using o(1,3) wk by (simp_all add: in_table_iff)
      have d: "same_dedupe (job_task_name r0) (job_dedupe_key r0) q0" "same_dedupe (job_task_name q0) (job_dedupe_key q0) r0"
        using a(5) o(2,4) f by (auto simp: same_dedupe_def split: if_splits)
      consider "i \<in> set ks" "j \<in> set ks" | "i \<in> set ks" "j \<notin> set ks" | "i \<notin> set ks" "j \<in> set ks" | "i \<notin> set ks" "j \<notin> set ks"
        by blast
      then show "i = j"
      proof cases
        case 1 then show ?thesis using apart [OF m(1) _ m(2) _ d(1)] by blast
      next
        case 2 then show ?thesis using rows [OF m(1)] index_conflictI [OF o(3), of i] a(4) o(4) d(1) by fastforce
      next
        case 3 then show ?thesis using rows [OF m(2)] index_conflictI [OF o(1), of j] a(3) o(2) d(2) by fastforce
      next
        case 4 then show ?thesis
          using active_dedupe_uniqueD [OF jobs_inv_unique o(1) o(3)] inv a(3,4) o(2,4) d(1) by (simp add: queue_inv_def)
      qed
    qed
  qed
  then show ?thesis using inv by (simp add: queue_inv_def)
qed

lemma queue_inv_retry_by_id:
  assumes inv: "queue_inv t" shows "queue_inv (snd (retry_failed_job_by_id_statement s run_at i t))"
proof (cases "visible_row s (jobs t) i")
  case None
  then show ?thesis using inv by (simp add: retry_failed_job_by_id_statement_def)
next
  case (Some r)
  then have row: "map_of (jobs t) i = Some r" by (simp add: visible_row_def split: if_splits)
  have "queue_inv (t\<lparr>jobs := update_rows [i] (retry_failed_row (stmt_now s) run_at) (jobs t)\<rparr>)"
    if "\<not> index_dedupe_conflict i (job_task_name r) (job_dedupe_key r) t"
    by (rule queue_inv_retry [OF inv]) (use row that in simp_all)
  then show ?thesis using Some inv by (simp add: retry_failed_job_by_id_statement_def)
qed

lemma queue_inv_retry_available:
  assumes inv: "queue_inv t" shows "queue_inv (snd (retry_available_failed_jobs_statement s limit run_at name t))"
proof -
  note wk = queue_inv_well_keyed [OF inv]
  define lks where "lks = select_keys (\<lambda>(k, r). lockable s k \<and> job_status r = Failed
             \<and> (name = None \<or> name = Some (job_task_name r))
             \<and> \<not> visible_dedupe_conflict s k (job_task_name r) (job_dedupe_key r) t) retry_order limit (jobs t)"
  define ranked where "ranked = rows_of lks (jobs t)"
  define cands where "cands = filter (first_of_dedupe ranked) ranked"
  have cand: "(k, r) \<in> set cands" if "map_of (jobs t) k = Some r" "k \<in> set (map fst cands)" for k r
  proof -
    from that(2) obtain r' where "(k, r') \<in> set cands" by auto
    moreover from this have "(k, r') \<in> set (jobs t)" by (auto simp: cands_def ranked_def rows_of_def)
    ultimately show ?thesis using that(1) wk by (simp add: in_table_iff)
  qed
  have eq: "i = j" if "map_of (jobs t) i = Some r" "i \<in> set (map fst cands)" "map_of (jobs t) j = Some q"
    "j \<in> set (map fst cands)" "same_dedupe (job_task_name r) (job_dedupe_key r) q" for i r j q
  proof -
    have c: "(i, r) \<in> set cands" "(j, q) \<in> set cands" using cand that by blast+
    have "same_dedupe (job_task_name q) (job_dedupe_key q) r" using that(5) by (auto simp: same_dedupe_def)
    then have "retry_order (i, r) \<le> retry_order (j, q)" "retry_order (j, q) \<le> retry_order (i, r)"
      using c that(5) by (auto simp: cands_def first_of_dedupe_def list_all_iff)
    then have "retry_order (i, r) = retry_order (j, q)" by simp
    then show ?thesis by (simp add: retry_order_def)
  qed
  have "queue_inv (t\<lparr>jobs := update_rows (map fst cands) (retry_failed_row (stmt_now s) run_at) (jobs t)\<rparr>)"
    if free: "\<not> list_ex (\<lambda>(k, r). index_dedupe_conflict k (job_task_name r) (job_dedupe_key r) t) cands"
  proof (rule queue_inv_retry [OF inv])
    show "\<not> index_dedupe_conflict k (job_task_name r) (job_dedupe_key r) t"
      if "map_of (jobs t) k = Some r" "k \<in> set (map fst cands)" for k r
      using cand [OF that] free by (auto simp: list_ex_iff)
  qed (rule eq)
  then show ?thesis using inv
    by (simp add: retry_available_failed_jobs_statement_def Let_def lks_def [symmetric] ranked_def [symmetric] cands_def [symmetric])
qed

lemma queue_inv_move_failed:
  assumes inv: "queue_inv t" and "length new_id = SORTABLE_ID_SIZE"
  shows "queue_inv (snd (move_failed_job_to_dead_letter_statement s new_id reason i t))"
proof (cases "visible_row s (jobs t) i")
  case None
  then show ?thesis using inv by (simp add: move_failed_job_to_dead_letter_statement_def)
next
  case (Some r)
  then have row: "map_of (jobs t) i = Some r" by (simp add: visible_row_def split: if_splits)
  note ok = queue_inv_jobs_row [OF inv row]
  have "dead_letter_row_ok (dead_letter_of (stmt_now s) i (option_or_empty (job_last_error r)) (job_retry_count r) reason r)"
    using ok by (intro dead_letter_of_ok) (auto simp: job_row_ok_def numeric_constraint_def)
  note bury = queue_inv_bury [OF inv _ assms(2) this]
  show ?thesis using Some inv bury
    by (auto simp: move_failed_job_to_dead_letter_statement_def Let_def split: sum.splits)
qed

lemma insert_dead_letters_keeps:
  "insert_dead_letters ds t = Inr t' \<Longrightarrow> jobs t' = jobs t \<and> pauses t' = pauses t \<and> dead_letters t' = dead_letters t @ ds"
proof (induction ds t arbitrary: t' rule: insert_dead_letters.induct)
  case (2 i d rest t)
  then obtain t1 where t1: "insert_dead_letter i d t = Inr t1" "insert_dead_letters rest t1 = Inr t'"
    by (auto simp: result_bind_eq_Inr_iff)
  then show ?case using insert_dead_letter_keeps [OF t1(1)] "2.IH" [OF t1] by simp
qed simp

lemma queue_inv_bury_all:
  "queue_inv t \<Longrightarrow> insert_dead_letters ds t = Inr t'
     \<Longrightarrow> (\<And>i d. (i, d) \<in> set ds \<Longrightarrow> length i = SORTABLE_ID_SIZE \<and> dead_letter_row_ok d) \<Longrightarrow> queue_inv t'"
proof (induction ds t arbitrary: t' rule: insert_dead_letters.induct)
  case (2 i d rest t)
  then obtain t1 where t1: "insert_dead_letter i d t = Inr t1" "insert_dead_letters rest t1 = Inr t'"
    by (auto simp: result_bind_eq_Inr_iff)
  have "length i = SORTABLE_ID_SIZE \<and> dead_letter_row_ok d" using "2.prems"(3) [of i d] by simp
  then have "queue_inv t1" using letters_inv_insert [OF _ t1(1)] insert_dead_letter_keeps [OF t1(1)] "2.prems"(1)
    by (simp add: queue_inv_def)
  then show ?case using "2.IH" [OF t1(1) _ t1(2)] "2.prems"(3) by (meson list.set_intros(2))
qed simp

lemma queue_inv_move_batch:
  assumes inv: "queue_inv t" and ids: "\<And>i. i \<in> set (map snd id_map) \<Longrightarrow> length i = SORTABLE_ID_SIZE"
  shows "queue_inv (snd (move_failed_jobs_to_dead_letter_batch_statement s id_map reason t))"
proof -
  define moved where "moved = map (\<lambda>(i, r). (the (map_of id_map i),
              dead_letter_of (stmt_now s) i (option_or_empty (job_last_error r)) (job_retry_count r) reason r))
            (filter (\<lambda>(i, r). i \<in> set (map fst id_map) \<and> lockable s i \<and> job_status r = Failed) (jobs t))"
  have ok: "length k = SORTABLE_ID_SIZE \<and> dead_letter_row_ok d" if k: "(k, d) \<in> set moved" for k d
  proof -
    from k obtain i r where ir: "(i, r) \<in> set (jobs t)" "i \<in> set (map fst id_map)" "k = the (map_of id_map i)"
      "d = dead_letter_of (stmt_now s) i (option_or_empty (job_last_error r)) (job_retry_count r) reason r"
      by (auto simp: moved_def)
    obtain v where v: "map_of id_map i = Some v" using ir(2) by (metis list.set_map map_of_eq_None_iff not_None_eq)
    then have "k \<in> set (map snd id_map)" using ir(3) by (force dest: map_of_SomeD)
    moreover have "length i = SORTABLE_ID_SIZE \<and> job_row_ok r" using inv ir(1) jobs_inv_in unfolding queue_inv_def by blast
    ultimately show ?thesis using ids ir(4) dead_letter_of_ok by (auto simp: job_row_ok_def numeric_constraint_def)
  qed
  show ?thesis
    unfolding move_failed_jobs_to_dead_letter_batch_statement_def Let_def moved_def [symmetric]
    using inv queue_inv_bury_all [OF queue_inv_delete_jobs [OF inv] _ ok]
    by (auto split: sum.splits simp del: list.map_comp map_map)
qed

lemma new_job_row_ok:
  assumes "text_constraint name key" "0 \<le> retries" "retries \<le> i32_max" "-1 \<le> ns" "ns \<le> i64_max"
  shows "job_row_ok (new_job_row now name payload run_at retries ns key)"
  using assms by (simp add: new_job_row_def row_check_defs no_runtime_def Let_def i32_max_def)

lemma queue_inv_insert_unless_active:
  assumes inv: "queue_inv t" and ins: "insert_job_unless_active i r t = Inr (b, t')"
    and "length i = SORTABLE_ID_SIZE" "job_row_ok r"
  shows "queue_inv t'"
proof (cases b)
  case False
  then show ?thesis using inv ins by (auto simp: insert_job_unless_active_def split: if_splits)
next
  case True
  then have t': "t' = t\<lparr>jobs := jobs t @ [(i, r)]\<rparr>" "i \<notin> set (map fst (jobs t))"
    and free: "\<not> list_ex (\<lambda>(j, q). is_active q \<and> same_dedupe (job_task_name r) (job_dedupe_key r) q) (jobs t)"
    using ins by (auto simp: insert_job_unless_active_def split: if_splits)
  have "\<not> same_dedupe (job_task_name r) (job_dedupe_key r) q" if "(j, q) \<in> set (jobs t)" "is_active q" for j q
    using free that unfolding list_ex_iff by blast
  then have "jobs_inv (jobs t @ [(i, r)])" using assms(3,4) t'(2) inv by (intro jobs_inv_append) (simp_all add: queue_inv_def)
  then show ?thesis using inv t'(1) by (simp add: queue_inv_def)
qed

lemma queue_inv_requeue:
  assumes inv: "queue_inv t" and "length new_id = SORTABLE_ID_SIZE"
  shows "queue_inv (snd (requeue_dead_letter_job_statement s new_id run_at i t))"
proof (cases "visible_row s (dead_letters t) i")
  case None
  then show ?thesis using inv by (simp add: requeue_dead_letter_job_statement_def)
next
  case (Some d)
  then have "(i, d) \<in> set (dead_letters t)" by (auto simp: visible_row_def dest: map_of_SomeD split: if_splits)
  then have "dead_letter_row_ok d" using inv by (auto simp: queue_inv_def letters_inv_def)
  then have "job_row_ok (new_job_row (stmt_now s) (dl_task_name d) (dl_payload d) run_at (dl_max_retries d)
      (dl_timeout_nanos d) (dl_dedupe_key d))"
    by (intro new_job_row_ok) (simp_all add: dead_letter_row_ok_def numeric_constraint_def)
  note ins = queue_inv_insert_unless_active [OF inv _ assms(2) this]
  show ?thesis using Some inv ins queue_inv_delete_letters
    by (auto simp: requeue_dead_letter_job_statement_def split: sum.splits bool.splits)
qed

lemma queue_inv_delete_letter:
  assumes "queue_inv t" shows "queue_inv (snd (delete_dead_letter_job_statement s i t))"
  using assms queue_inv_delete_letters [OF assms] by (simp add: delete_dead_letter_job_statement_def split: option.splits)

section \<open>Maintenance, enqueue and pause statements keep the constraints\<close>

lemma queue_inv_cleanup:
  assumes "queue_inv t"
  shows "queue_inv (snd (cleanup_jobs_statement s status us limit t))"
    and "queue_inv (snd (cleanup_dead_letters_statement s us limit t))"
  using assms queue_inv_delete_jobs [OF assms] queue_inv_delete_letters [OF assms]
  by (simp_all add: cleanup_jobs_statement_def cleanup_dead_letters_statement_def Let_def split: sum.splits)

lemma queue_inv_reclaim_never_started:
  assumes inv: "queue_inv t" shows "queue_inv (snd (reclaim_never_started_statement s us limit t))"
proof (cases "timestamp_before (stmt_now s) us")
  case (Inl e)
  then show ?thesis using inv by (simp add: reclaim_never_started_statement_def)
next
  case (Inr cutoff)
  show ?thesis unfolding reclaim_never_started_statement_def Inr sum.case Let_def snd_conv
    by (rule queue_inv_update_selected [OF inv benign_return]) (simp add: stale_def)
qed

lemma expire_row_ok:
  assumes "job_row_ok r" "job_retry_count r + 1 \<le> i32_max" "status = Pending \<and> finished = None \<or> status = Failed \<and> finished = Some now"
  shows "job_row_ok (expire_row status finished now r)"
  using assms by (auto simp: expire_row_def row_check_defs no_runtime_def Let_def)

lemma queue_inv_reclaim_expired:
  assumes inv: "queue_inv t"
    and st: "status = Pending \<and> finished = None \<or> status = Failed \<and> finished = Some (stmt_now s)"
  shows "queue_inv (snd (reclaim_expired_statement s budget (expire_row status finished (stmt_now s)) us limit t))"
proof (cases "timestamp_before (stmt_now s) us")
  case (Inl e)
  then show ?thesis using inv by (simp add: reclaim_expired_statement_def)
next
  case (Inr cutoff)
  let ?f = "expire_row status finished (stmt_now s)"
  define ks where "ks = select_keys (\<lambda>(k, r). lockable s k \<and> stale cutoff r \<and> has_started r \<and> budget r) heartbeat_order limit (jobs t)"
  define js where "js = update_rows ks ?f (jobs t)"
  note wk = queue_inv_well_keyed [OF inv]
  have "queue_inv (t\<lparr>jobs := js\<rparr>)" if small: "\<not> list_ex (\<lambda>(k, r). job_retry_count r > i32_max) (rows_of ks js)"
    unfolding js_def
  proof (rule queue_inv_update_jobs [OF inv, of "\<lambda>r. job_status r = Running \<and> job_retry_count r + 1 \<le> i32_max"])
    show "benign (\<lambda>r. job_status r = Running \<and> job_retry_count r + 1 \<le> i32_max) ?f"
      using expire_row_ok st by (auto simp: benign_def is_active_def expire_row_def)
    fix k r assume r: "map_of (jobs t) k = Some r" "k \<in> set ks"
    have "stale cutoff r" using selected_key_row [OF wk r(2) [unfolded ks_def] r(1)] by simp
    moreover have "map_of (rows_of ks js) k = Some (?f r)" using r by (simp add: map_of_rows_of js_def map_of_update_rows)
    then have "(k, ?f r) \<in> set (rows_of ks js)" by (rule map_of_SomeD)
    then have "job_retry_count (?f r) \<le> i32_max" using small by (force simp: list_ex_iff)
    ultimately show "job_status r = Running \<and> job_retry_count r + 1 \<le> i32_max" by (simp add: stale_def expire_row_def)
  qed
  then show ?thesis using inv by (simp add: reclaim_expired_statement_def Inr Let_def ks_def [symmetric] js_def [symmetric])
qed

lemma queue_inv_reclaim:
  assumes "queue_inv t"
  shows "queue_inv (snd (reclaim_expired_to_failed_statement s us limit t))"
    and "queue_inv (snd (reclaim_expired_to_pending_statement s us limit t))"
  unfolding reclaim_expired_to_failed_statement_def reclaim_expired_to_pending_statement_def
  by (rule queue_inv_reclaim_expired [OF assms]; simp)+

lemma queue_inv_insert_jobs:
  assumes "queue_inv t" "distinct (map fst rows)" "fst ` set rows \<inter> set (map fst (jobs t)) = {}"
    "\<And>i r. (i, r) \<in> set rows \<Longrightarrow> length i = SORTABLE_ID_SIZE \<and> job_row_ok r \<and> job_dedupe_key r = None"
  shows "queue_inv (t\<lparr>jobs := jobs t @ rows\<rparr>)"
  using assms
proof (induction rows rule: rev_induct)
  case (snoc x rows)
  obtain i r where x: "x = (i, r)" by fastforce
  have "queue_inv (t\<lparr>jobs := jobs t @ rows\<rparr>)" using snoc by auto
  moreover have "length i = SORTABLE_ID_SIZE \<and> job_row_ok r \<and> job_dedupe_key r = None"
    using snoc.prems(4) [of i r] x by simp
  ultimately have "jobs_inv ((jobs t @ rows) @ [(i, r)])"
    using snoc.prems(2,3) x by (intro jobs_inv_append) (auto simp: queue_inv_def same_dedupe_def)
  then show ?case using snoc.prems(1) by (simp add: queue_inv_def x)
qed simp

lemma queue_inv_single_enqueue:
  assumes "queue_inv t" "length i = SORTABLE_ID_SIZE" "job_row_ok r" "job_dedupe_key r = None"
  shows "queue_inv (snd (single_enqueue_statement s i r t))"
  using assms queue_inv_insert_jobs [OF assms(1), of "[(i, r)]"]
  by (simp add: single_enqueue_statement_def split: option.splits)

lemma queue_inv_batch_enqueue:
  assumes "queue_inv t"
    "\<And>i r. (i, r) \<in> set rows \<Longrightarrow> length i = SORTABLE_ID_SIZE \<and> job_row_ok r \<and> job_dedupe_key r = None"
  shows "queue_inv (snd (batch_enqueue_statement s name rows t))"
proof (cases "distinct (map fst rows) \<and> fst ` set rows \<inter> set (map fst (jobs t)) = {}")
  case True
  then show ?thesis using assms(1) queue_inv_insert_jobs [OF assms(1), of rows] assms(2)
    by (simp add: batch_enqueue_statement_def split: option.splits)
next
  case False
  then have "\<not> distinct (map fst rows) \<or> list_ex (\<lambda>i. i \<in> set (map fst (jobs t))) (map fst rows)"
    by (auto simp: list_ex_iff)
  then show ?thesis using assms(1) by (simp add: batch_enqueue_statement_def split: option.splits)
qed

lemma queue_inv_dedupe_enqueue:
  assumes "queue_inv t" "length i = SORTABLE_ID_SIZE" "job_row_ok r"
  shows "queue_inv (snd (dedupe_enqueue_statement s i r t))"
  using assms queue_inv_insert_unless_active [OF assms(1) _ assms(2,3)]
  by (auto simp: dedupe_enqueue_statement_def Let_def split: option.splits sum.splits bool.splits)

lemma queue_inv_pause:
  assumes "queue_inv t"
    "name = None \<and> k = GLOBAL_PAUSE_KEY \<or> (\<exists>n. name = Some n \<and> k = paused_task_key n \<and> text_constraint n None)"
  shows "queue_inv (upsert_pause_key_statement s k name t)" "queue_inv (delete_pause_key_statement k' t)"
proof -
  let ?row = "\<lparr>pause_task_name = name, pause_paused_at = stmt_now s, pause_updated_at = stmt_now s\<rparr>"
  have row: "pause_row_ok k ?row" using assms(2) by (auto simp: pause_row_ok_def)
  have ps: "pauses_inv (pauses t)" using assms(1) by (simp add: queue_inv_def)
  have "pauses_inv (update_rows [k] (\<lambda>_. ?row) (pauses t))"
    using ps row unfolding pauses_inv_def by (fastforce simp: in_update_rows)
  moreover have "pauses_inv (pauses t @ [(k, ?row)])" if "k \<notin> set (map fst (pauses t))"
    using ps row that by (auto simp: pauses_inv_def)
  ultimately show "queue_inv (upsert_pause_key_statement s k name t)"
    using assms(1) by (simp add: upsert_pause_key_statement_def queue_inv_def Let_def)
  have "pauses_inv (delete_rows [k'] (pauses t))" using ps by (auto simp: pauses_inv_def in_delete_rows)
  then show "queue_inv (delete_pause_key_statement k' t)"
    using assms(1) by (simp add: delete_pause_key_statement_def queue_inv_def)
qed

section \<open>A small queue\<close>

text \<open>One job waits under a dedupe key, one is held by \<open>w\<close>, one has failed; the task \<open>off\<close> is paused.\<close>

definition waiting_job :: job_row where
  "waiting_job = new_job_row 5 ''mail'' ''{}'' (Some 10) 3 0 (Some ''k'')"

definition held_job :: job_row where
  "held_job = claim_row 20 ''w'' (new_job_row 5 ''mail'' ''{}'' (Some 11) 3 0 None)"

definition failed_job :: job_row where
  "failed_job = (new_job_row 5 ''mail'' ''{}'' None 3 (-1) None)
     \<lparr>job_status := Failed, job_last_error := Some ''no route'', job_runtime := no_runtime (Some 30)\<rparr>"

definition small_queue :: queue_tables where
  "small_queue = \<lparr>jobs = [(replicate 16 0, waiting_job), (replicate 16 1, held_job), (replicate 16 2, failed_job)],
     dead_letters = [],
     pauses = [(paused_task_key ''off'', \<lparr>pause_task_name = Some ''off'', pause_paused_at = 1, pause_updated_at = 1\<rparr>)]\<rparr>"

definition at_time :: "micros \<Rightarrow> stmt" where
  "at_time now = \<lparr>stmt_now = now, stmt_locked = {}, stmt_hidden = {}\<rparr>"

lemma small_queue_inv: "queue_inv small_queue"
  by code_simp

end
