(* ===== verification/QueueApi.thy ===== *)
theory QueueApi
  imports QueueStore
begin

text \<open>
  \<open>src/src/db/queue/api\<close> and \<open>preparation.rs\<close>: every operation of the store, inside the caller's
  transaction and on a pool. Input is validated before a transaction is begun and again inside it.
\<close>

definition queue_pool_write ::
    "string \<Rightarrow> pool_env \<Rightarrow> (queue_tables tx \<Rightarrow> ('g queue_error + 'a) \<times> queue_tables tx) \<Rightarrow> queue_tables
     \<Rightarrow> ('g queue_error + 'a) \<times> queue_tables" where
  "queue_pool_write operation env = pool_write operation QueueDatabase QueueDatabaseOperationRollbackFailed env"

section \<open>Transitions by a worker\<close>

definition claim_available_jobs_for_worker_in_current_transaction ::
    "string \<Rightarrow> admission_reply \<Rightarrow> stmt \<Rightarrow> string list \<Rightarrow> nat \<Rightarrow> string \<Rightarrow> queue_tables tx
     \<Rightarrow> ('g queue_error + job list) \<times> queue_tables tx" where
  "claim_available_jobs_for_worker_in_current_transaction protocol reply s names limit worker tx =
     (case validate_registered_task_names names of Inl e \<Rightarrow> (Inl e, tx) | Inr _ \<Rightarrow>
       (case validate_claim_limit limit of Inl e \<Rightarrow> (Inl e, tx) | Inr _ \<Rightarrow>
       (case validate_worker_owner_id worker of Inl e \<Rightarrow> (Inl e, tx) | Inr _ \<Rightarrow>
       (if names = [] then let (r, t) = (claim_available_jobs_with_executor s names limit worker) (tables tx) in (r, tx\<lparr>tables := t\<rparr>)
        else admitted protocol reply QueueDatabase (claim_available_jobs_with_executor s names limit worker) tx))))"

definition claim_available_jobs_for_worker ::
    "string \<Rightarrow> pool_env \<Rightarrow> stmt \<Rightarrow> string list \<Rightarrow> nat \<Rightarrow> string \<Rightarrow> queue_tables
     \<Rightarrow> ('g queue_error + job list) \<times> queue_tables" where
  "claim_available_jobs_for_worker protocol env s names limit worker t =
     (case validate_registered_task_names names of Inl e \<Rightarrow> (Inl e, t) | Inr _ \<Rightarrow>
       (case validate_claim_limit limit of Inl e \<Rightarrow> (Inl e, t) | Inr _ \<Rightarrow>
       (case validate_worker_owner_id worker of Inl e \<Rightarrow> (Inl e, t) | Inr _ \<Rightarrow>
       queue_pool_write ''claim available jobs for worker'' env (claim_available_jobs_for_worker_in_current_transaction protocol (env_reply env) s names limit worker) t)))"

definition mark_owned_running_job_started_in_current_transaction ::
    "string \<Rightarrow> admission_reply \<Rightarrow> stmt \<Rightarrow> sortable_id \<Rightarrow> string \<Rightarrow> queue_tables tx
     \<Rightarrow> ('g queue_error + unit) \<times> queue_tables tx" where
  "mark_owned_running_job_started_in_current_transaction protocol reply s i worker tx =
     (case validate_worker_owner_id worker of Inl e \<Rightarrow> (Inl e, tx) | Inr _ \<Rightarrow>
       admitted protocol reply QueueDatabase (execute_owned_running_job_update ''mark owned running job started'' (mark_job_started_statement s) i worker) tx)"

definition mark_owned_running_job_started ::
    "string \<Rightarrow> pool_env \<Rightarrow> stmt \<Rightarrow> sortable_id \<Rightarrow> string \<Rightarrow> queue_tables
     \<Rightarrow> ('g queue_error + unit) \<times> queue_tables" where
  "mark_owned_running_job_started protocol env s i worker t =
     (case validate_worker_owner_id worker of Inl e \<Rightarrow> (Inl e, t) | Inr _ \<Rightarrow>
       queue_pool_write ''mark owned running job started'' env (mark_owned_running_job_started_in_current_transaction protocol (env_reply env) s i worker) t)"

definition mark_owned_running_job_completed_in_current_transaction ::
    "string \<Rightarrow> admission_reply \<Rightarrow> stmt \<Rightarrow> sortable_id \<Rightarrow> string \<Rightarrow> queue_tables tx
     \<Rightarrow> ('g queue_error + unit) \<times> queue_tables tx" where
  "mark_owned_running_job_completed_in_current_transaction protocol reply s i worker tx =
     (case validate_worker_owner_id worker of Inl e \<Rightarrow> (Inl e, tx) | Inr _ \<Rightarrow>
       admitted protocol reply QueueDatabase (execute_owned_running_job_update ''mark owned running job completed'' (mark_job_completed_statement s) i worker) tx)"

definition mark_owned_running_job_completed ::
    "string \<Rightarrow> pool_env \<Rightarrow> stmt \<Rightarrow> sortable_id \<Rightarrow> string \<Rightarrow> queue_tables
     \<Rightarrow> ('g queue_error + unit) \<times> queue_tables" where
  "mark_owned_running_job_completed protocol env s i worker t =
     (case validate_worker_owner_id worker of Inl e \<Rightarrow> (Inl e, t) | Inr _ \<Rightarrow>
       queue_pool_write ''mark owned running job completed'' env (mark_owned_running_job_completed_in_current_transaction protocol (env_reply env) s i worker) t)"

definition touch_owned_running_job_execution_heartbeat_in_current_transaction ::
    "string \<Rightarrow> admission_reply \<Rightarrow> stmt \<Rightarrow> sortable_id \<Rightarrow> string \<Rightarrow> queue_tables tx
     \<Rightarrow> ('g queue_error + unit) \<times> queue_tables tx" where
  "touch_owned_running_job_execution_heartbeat_in_current_transaction protocol reply s i worker tx =
     (case validate_worker_owner_id worker of Inl e \<Rightarrow> (Inl e, tx) | Inr _ \<Rightarrow>
       admitted protocol reply QueueDatabase (execute_owned_running_job_update ''touch owned running job heartbeat'' (touch_execution_heartbeat_statement s) i worker) tx)"

definition touch_owned_running_job_execution_heartbeat ::
    "string \<Rightarrow> pool_env \<Rightarrow> stmt \<Rightarrow> sortable_id \<Rightarrow> string \<Rightarrow> queue_tables
     \<Rightarrow> ('g queue_error + unit) \<times> queue_tables" where
  "touch_owned_running_job_execution_heartbeat protocol env s i worker t =
     (case validate_worker_owner_id worker of Inl e \<Rightarrow> (Inl e, t) | Inr _ \<Rightarrow>
       queue_pool_write ''touch owned running job heartbeat'' env (touch_owned_running_job_execution_heartbeat_in_current_transaction protocol (env_reply env) s i worker) t)"

definition return_owned_unstarted_running_job_to_pending_in_current_transaction ::
    "string \<Rightarrow> admission_reply \<Rightarrow> stmt \<Rightarrow> sortable_id \<Rightarrow> string \<Rightarrow> queue_tables tx
     \<Rightarrow> ('g queue_error + unit) \<times> queue_tables tx" where
  "return_owned_unstarted_running_job_to_pending_in_current_transaction protocol reply s i worker tx =
     (case validate_worker_owner_id worker of Inl e \<Rightarrow> (Inl e, tx) | Inr _ \<Rightarrow>
       admitted protocol reply QueueDatabase (execute_owned_running_job_update ''return owned unstarted running job to pending'' (return_owned_unstarted_statement s) i worker) tx)"

definition return_owned_unstarted_running_job_to_pending ::
    "string \<Rightarrow> pool_env \<Rightarrow> stmt \<Rightarrow> sortable_id \<Rightarrow> string \<Rightarrow> queue_tables
     \<Rightarrow> ('g queue_error + unit) \<times> queue_tables" where
  "return_owned_unstarted_running_job_to_pending protocol env s i worker t =
     (case validate_worker_owner_id worker of Inl e \<Rightarrow> (Inl e, t) | Inr _ \<Rightarrow>
       queue_pool_write ''return owned unstarted running job to pending'' env (return_owned_unstarted_running_job_to_pending_in_current_transaction protocol (env_reply env) s i worker) t)"

definition return_owned_started_running_job_to_pending_in_current_transaction ::
    "string \<Rightarrow> admission_reply \<Rightarrow> stmt \<Rightarrow> sortable_id \<Rightarrow> string \<Rightarrow> queue_tables tx
     \<Rightarrow> ('g queue_error + unit) \<times> queue_tables tx" where
  "return_owned_started_running_job_to_pending_in_current_transaction protocol reply s i worker tx =
     (case validate_worker_owner_id worker of Inl e \<Rightarrow> (Inl e, tx) | Inr _ \<Rightarrow>
       admitted protocol reply QueueDatabase (execute_owned_running_job_update ''return owned started running job to pending'' (return_owned_started_statement s) i worker) tx)"

definition return_owned_started_running_job_to_pending ::
    "string \<Rightarrow> pool_env \<Rightarrow> stmt \<Rightarrow> sortable_id \<Rightarrow> string \<Rightarrow> queue_tables
     \<Rightarrow> ('g queue_error + unit) \<times> queue_tables" where
  "return_owned_started_running_job_to_pending protocol env s i worker t =
     (case validate_worker_owner_id worker of Inl e \<Rightarrow> (Inl e, t) | Inr _ \<Rightarrow>
       queue_pool_write ''return owned started running job to pending'' env (return_owned_started_running_job_to_pending_in_current_transaction protocol (env_reply env) s i worker) t)"

definition schedule_owned_running_job_retry_in_current_transaction ::
    "string \<Rightarrow> admission_reply \<Rightarrow> stmt \<Rightarrow> sortable_id \<Rightarrow> string \<Rightarrow> nat \<Rightarrow> nanos \<Rightarrow> string \<Rightarrow> queue_tables tx
     \<Rightarrow> ('g queue_error + micros) \<times> queue_tables tx" where
  "schedule_owned_running_job_retry_in_current_transaction protocol reply s i worker new_retry_count retry_after message tx =
     (case validate_worker_owner_id worker of Inl e \<Rightarrow> (Inl e, tx) | Inr _ \<Rightarrow>
       (case i32_from_u32 new_retry_count of Inl e \<Rightarrow> (Inl e, tx) | Inr n \<Rightarrow>
       (case retry_backoff_to_microseconds retry_after of Inl e \<Rightarrow> (Inl e, tx) | Inr us \<Rightarrow>
       admitted protocol reply QueueDatabase
         (schedule_owned_running_job_retry_with_executor s i worker n us message) tx)))"

definition schedule_owned_running_job_retry ::
    "string \<Rightarrow> pool_env \<Rightarrow> stmt \<Rightarrow> sortable_id \<Rightarrow> string \<Rightarrow> nat \<Rightarrow> nanos \<Rightarrow> string \<Rightarrow> queue_tables
     \<Rightarrow> ('g queue_error + micros) \<times> queue_tables" where
  "schedule_owned_running_job_retry protocol env s i worker new_retry_count retry_after message t =
     (case validate_worker_owner_id worker of Inl e \<Rightarrow> (Inl e, t) | Inr _ \<Rightarrow>
       queue_pool_write ''schedule owned running job retry'' env
         (schedule_owned_running_job_retry_in_current_transaction protocol (env_reply env) s i worker
           new_retry_count retry_after message) t)"

definition mark_owned_running_job_failed_in_current_transaction ::
    "string \<Rightarrow> admission_reply \<Rightarrow> stmt \<Rightarrow> sortable_id \<Rightarrow> string \<Rightarrow> string \<Rightarrow> bool \<Rightarrow> queue_tables tx
     \<Rightarrow> ('g queue_error + unit) \<times> queue_tables tx" where
  "mark_owned_running_job_failed_in_current_transaction protocol reply s i worker message increment tx =
     (case validate_worker_owner_id worker of Inl e \<Rightarrow> (Inl e, tx) | Inr _ \<Rightarrow>
       admitted protocol reply QueueDatabase (execute_mark_owned_running_job_failed s i worker message increment) tx)"

definition mark_owned_running_job_failed ::
    "string \<Rightarrow> pool_env \<Rightarrow> stmt \<Rightarrow> sortable_id \<Rightarrow> string \<Rightarrow> string \<Rightarrow> bool \<Rightarrow> queue_tables
     \<Rightarrow> ('g queue_error + unit) \<times> queue_tables" where
  "mark_owned_running_job_failed protocol env s i worker message increment t =
     (case validate_worker_owner_id worker of Inl e \<Rightarrow> (Inl e, t) | Inr _ \<Rightarrow>
       queue_pool_write ''mark owned running job failed'' env (mark_owned_running_job_failed_in_current_transaction protocol (env_reply env) s i worker message increment) t)"

definition move_owned_running_job_to_dead_letter_in_current_transaction ::
    "string \<Rightarrow> admission_reply \<Rightarrow> stmt \<Rightarrow> 'g id_error + sortable_id \<Rightarrow> sortable_id \<Rightarrow> string \<Rightarrow> string \<Rightarrow> bool \<Rightarrow> dead_letter_reason \<Rightarrow> queue_tables tx
     \<Rightarrow> ('g queue_error + sortable_id) \<times> queue_tables tx" where
  "move_owned_running_job_to_dead_letter_in_current_transaction protocol reply s new_id i worker message increment reason tx =
     (case validate_worker_owner_id worker of Inl e \<Rightarrow> (Inl e, tx) | Inr _ \<Rightarrow>
       admitted protocol reply QueueDatabase (move_owned_running_job_to_dead_letter_with_executor s new_id i worker message increment reason) tx)"

definition move_owned_running_job_to_dead_letter ::
    "string \<Rightarrow> pool_env \<Rightarrow> stmt \<Rightarrow> 'g id_error + sortable_id \<Rightarrow> sortable_id \<Rightarrow> string \<Rightarrow> string \<Rightarrow> bool \<Rightarrow> dead_letter_reason \<Rightarrow> queue_tables
     \<Rightarrow> ('g queue_error + sortable_id) \<times> queue_tables" where
  "move_owned_running_job_to_dead_letter protocol env s new_id i worker message increment reason t =
     (case validate_worker_owner_id worker of Inl e \<Rightarrow> (Inl e, t) | Inr _ \<Rightarrow>
       queue_pool_write ''move owned running job to dead letter'' env (move_owned_running_job_to_dead_letter_in_current_transaction protocol (env_reply env) s new_id i worker message increment reason) t)"

definition return_available_owned_unstarted_running_jobs_to_pending_in_current_transaction ::
    "string \<Rightarrow> admission_reply \<Rightarrow> stmt \<Rightarrow> string \<Rightarrow> queue_tables tx
     \<Rightarrow> ('g queue_error + nat) \<times> queue_tables tx" where
  "return_available_owned_unstarted_running_jobs_to_pending_in_current_transaction protocol reply s worker tx =
     (case validate_worker_owner_id worker of Inl e \<Rightarrow> (Inl e, tx) | Inr _ \<Rightarrow>
       admitted protocol reply QueueDatabase (return_available_owned_running_jobs_to_pending s (\<lambda>r. \<not> has_started r) worker) tx)"

definition return_available_owned_unstarted_running_jobs_to_pending ::
    "string \<Rightarrow> pool_env \<Rightarrow> stmt \<Rightarrow> string \<Rightarrow> queue_tables
     \<Rightarrow> ('g queue_error + nat) \<times> queue_tables" where
  "return_available_owned_unstarted_running_jobs_to_pending protocol env s worker t =
     (case validate_worker_owner_id worker of Inl e \<Rightarrow> (Inl e, t) | Inr _ \<Rightarrow>
       queue_pool_write ''return available owned unstarted running jobs to pending'' env (return_available_owned_unstarted_running_jobs_to_pending_in_current_transaction protocol (env_reply env) s worker) t)"

definition return_available_owned_started_running_jobs_to_pending_in_current_transaction ::
    "string \<Rightarrow> admission_reply \<Rightarrow> stmt \<Rightarrow> string \<Rightarrow> queue_tables tx
     \<Rightarrow> ('g queue_error + nat) \<times> queue_tables tx" where
  "return_available_owned_started_running_jobs_to_pending_in_current_transaction protocol reply s worker tx =
     (case validate_worker_owner_id worker of Inl e \<Rightarrow> (Inl e, tx) | Inr _ \<Rightarrow>
       admitted protocol reply QueueDatabase (return_available_owned_running_jobs_to_pending s has_started worker) tx)"

definition return_available_owned_started_running_jobs_to_pending ::
    "string \<Rightarrow> pool_env \<Rightarrow> stmt \<Rightarrow> string \<Rightarrow> queue_tables
     \<Rightarrow> ('g queue_error + nat) \<times> queue_tables" where
  "return_available_owned_started_running_jobs_to_pending protocol env s worker t =
     (case validate_worker_owner_id worker of Inl e \<Rightarrow> (Inl e, t) | Inr _ \<Rightarrow>
       queue_pool_write ''return available owned started running jobs to pending'' env (return_available_owned_started_running_jobs_to_pending_in_current_transaction protocol (env_reply env) s worker) t)"

section \<open>Transitions by an operator\<close>

definition cancel_pending_job_in_current_transaction ::
    "string \<Rightarrow> admission_reply \<Rightarrow> stmt \<Rightarrow> sortable_id \<Rightarrow> queue_tables tx
     \<Rightarrow> ('g queue_error + unit) \<times> queue_tables tx" where
  "cancel_pending_job_in_current_transaction protocol reply s i tx =
     admitted protocol reply QueueDatabase (execute_job_state_transition (cancel_pending_job_statement s) ''cancel pending job'' JobNotPending i) tx"

definition cancel_pending_job ::
    "string \<Rightarrow> pool_env \<Rightarrow> stmt \<Rightarrow> sortable_id \<Rightarrow> queue_tables
     \<Rightarrow> ('g queue_error + unit) \<times> queue_tables" where
  "cancel_pending_job protocol env s i t =
     queue_pool_write ''cancel pending job'' env (cancel_pending_job_in_current_transaction protocol (env_reply env) s i) t"

definition force_requeue_running_job_by_id_in_current_transaction ::
    "string \<Rightarrow> admission_reply \<Rightarrow> stmt \<Rightarrow> sortable_id \<Rightarrow> queue_tables tx
     \<Rightarrow> ('g queue_error + unit) \<times> queue_tables tx" where
  "force_requeue_running_job_by_id_in_current_transaction protocol reply s i tx =
     admitted protocol reply QueueDatabase (execute_job_state_transition_for_expected_status (force_requeue_running_job_statement s)
         ''force requeue running job'' Running JobNotRunning i) tx"

definition force_requeue_running_job_by_id ::
    "string \<Rightarrow> pool_env \<Rightarrow> stmt \<Rightarrow> sortable_id \<Rightarrow> queue_tables
     \<Rightarrow> ('g queue_error + unit) \<times> queue_tables" where
  "force_requeue_running_job_by_id protocol env s i t =
     queue_pool_write ''force requeue running job'' env (force_requeue_running_job_by_id_in_current_transaction protocol (env_reply env) s i) t"

definition retry_failed_job_in_current_transaction ::
    "string \<Rightarrow> admission_reply \<Rightarrow> stmt \<Rightarrow> sortable_id \<Rightarrow> micros option \<Rightarrow> queue_tables tx
     \<Rightarrow> ('g queue_error + unit) \<times> queue_tables tx" where
  "retry_failed_job_in_current_transaction protocol reply s i run_at tx =
     admitted protocol reply QueueDatabase (execute_retry_failed_job s i run_at) tx"

definition retry_failed_job ::
    "string \<Rightarrow> pool_env \<Rightarrow> stmt \<Rightarrow> sortable_id \<Rightarrow> micros option \<Rightarrow> queue_tables
     \<Rightarrow> ('g queue_error + unit) \<times> queue_tables" where
  "retry_failed_job protocol env s i run_at t =
     queue_pool_write ''retry failed job'' env (retry_failed_job_in_current_transaction protocol (env_reply env) s i run_at) t"

text \<open>
  Up to five attempts, each under a savepoint; a conflict with a row the statement could not see
  is tried again. Attempt \<open>n\<close> runs at the moment \<open>s n\<close>.
\<close>

fun retry_available_attempts ::
    "(nat \<Rightarrow> stmt) \<Rightarrow> nat \<Rightarrow> nat \<Rightarrow> micros option \<Rightarrow> string option \<Rightarrow> nat \<Rightarrow> queue_tables
     \<Rightarrow> ('g queue_error + nat) \<times> queue_tables" where
  "retry_available_attempts s n limit run_at name 0 t =
     (Inl (QueueUnexpectedOutcome ''retry available failed jobs in current transaction'' ''retry loop exhausted''), t)"
| "retry_available_attempts s n limit run_at name (Suc left) t =
     (case retry_available_failed_jobs_statement (s n) limit run_at name t of
        (Inr count, t') \<Rightarrow> (Inr count, t')
      | (Inl e, _) \<Rightarrow>
          if sqlx_error_is_active_dedupe_unique_violation e then
            (if n < 4 then retry_available_attempts s (n + 1) limit run_at name left t
             else (Inl (QueueState RetryConflictWithActiveDedupeJob), t))
          else (Inl (queue_query_error (fst e)), t))"

definition retry_available_failed_jobs_in_current_transaction ::
    "string \<Rightarrow> admission_reply \<Rightarrow> (nat \<Rightarrow> stmt) \<Rightarrow> string option \<Rightarrow> nat \<Rightarrow> micros option \<Rightarrow> queue_tables tx
     \<Rightarrow> ('g queue_error + nat) \<times> queue_tables tx" where
  "retry_available_failed_jobs_in_current_transaction protocol reply s name limit run_at tx =
     (case (case name of None \<Rightarrow> Inr () | Some n \<Rightarrow> validate_task_name n) of Inl e \<Rightarrow> (Inl e, tx) | Inr _ \<Rightarrow>
       (case validate_retry_available_failed_jobs_limit limit of Inl e \<Rightarrow> (Inl e, tx) | Inr _ \<Rightarrow>
       admitted protocol reply QueueDatabase (retry_available_attempts s 0 limit run_at name 5) tx))"

definition retry_available_failed_jobs ::
    "string \<Rightarrow> pool_env \<Rightarrow> (nat \<Rightarrow> stmt) \<Rightarrow> string option \<Rightarrow> nat \<Rightarrow> micros option \<Rightarrow> queue_tables
     \<Rightarrow> ('g queue_error + nat) \<times> queue_tables" where
  "retry_available_failed_jobs protocol env s name limit run_at t =
     (case (case name of None \<Rightarrow> Inr () | Some n \<Rightarrow> validate_task_name n) of Inl e \<Rightarrow> (Inl e, t) | Inr _ \<Rightarrow>
       (case validate_retry_available_failed_jobs_limit limit of Inl e \<Rightarrow> (Inl e, t) | Inr _ \<Rightarrow>
       queue_pool_write ''retry available failed jobs'' env
         (retry_available_failed_jobs_in_current_transaction protocol (env_reply env) s name limit run_at) t))"

definition move_failed_job_to_dead_letter_in_current_transaction ::
    "string \<Rightarrow> admission_reply \<Rightarrow> stmt \<Rightarrow> 'g id_error + sortable_id \<Rightarrow> sortable_id \<Rightarrow> dead_letter_reason \<Rightarrow> queue_tables tx
     \<Rightarrow> ('g queue_error + sortable_id) \<times> queue_tables tx" where
  "move_failed_job_to_dead_letter_in_current_transaction protocol reply s new_id i reason tx =
     admitted protocol reply QueueDatabase (move_failed_job_to_dead_letter_with_executor s new_id i reason) tx"

definition move_failed_job_to_dead_letter ::
    "string \<Rightarrow> pool_env \<Rightarrow> stmt \<Rightarrow> 'g id_error + sortable_id \<Rightarrow> sortable_id \<Rightarrow> dead_letter_reason \<Rightarrow> queue_tables
     \<Rightarrow> ('g queue_error + sortable_id) \<times> queue_tables" where
  "move_failed_job_to_dead_letter protocol env s new_id i reason t =
     queue_pool_write ''move failed job to dead letter'' env (move_failed_job_to_dead_letter_in_current_transaction protocol (env_reply env) s new_id i reason) t"

definition move_failed_jobs_to_dead_letter_batch_in_current_transaction ::
    "string \<Rightarrow> admission_reply \<Rightarrow> stmt \<Rightarrow> (nat \<Rightarrow> 'g id_error + sortable_id) \<Rightarrow> sortable_id list \<Rightarrow> dead_letter_reason \<Rightarrow> queue_tables tx
     \<Rightarrow> ('g queue_error + move_batch_result) \<times> queue_tables tx" where
  "move_failed_jobs_to_dead_letter_batch_in_current_transaction protocol reply s new_id job_ids reason tx =
     (if job_ids = [] then let (r, t) = (move_failed_jobs_to_dead_letter_batch_with_executor s new_id job_ids reason) (tables tx) in (r, tx\<lparr>tables := t\<rparr>)
        else admitted protocol reply QueueDatabase (move_failed_jobs_to_dead_letter_batch_with_executor s new_id job_ids reason) tx)"

definition move_failed_jobs_to_dead_letter_batch ::
    "string \<Rightarrow> pool_env \<Rightarrow> stmt \<Rightarrow> (nat \<Rightarrow> 'g id_error + sortable_id) \<Rightarrow> sortable_id list \<Rightarrow> dead_letter_reason \<Rightarrow> queue_tables
     \<Rightarrow> ('g queue_error + move_batch_result) \<times> queue_tables" where
  "move_failed_jobs_to_dead_letter_batch protocol env s new_id job_ids reason t =
     queue_pool_write ''move failed jobs to dead letter batch'' env (move_failed_jobs_to_dead_letter_batch_in_current_transaction protocol (env_reply env) s new_id job_ids reason) t"

definition requeue_dead_letter_job_in_current_transaction ::
    "string \<Rightarrow> admission_reply \<Rightarrow> stmt \<Rightarrow> 'g id_error + sortable_id \<Rightarrow> sortable_id \<Rightarrow> micros option \<Rightarrow> queue_tables tx
     \<Rightarrow> ('g queue_error + sortable_id) \<times> queue_tables tx" where
  "requeue_dead_letter_job_in_current_transaction protocol reply s new_id i run_at tx =
     admitted protocol reply QueueDatabase (requeue_dead_letter_job_with_executor s new_id i run_at) tx"

definition requeue_dead_letter_job ::
    "string \<Rightarrow> pool_env \<Rightarrow> stmt \<Rightarrow> 'g id_error + sortable_id \<Rightarrow> sortable_id \<Rightarrow> micros option \<Rightarrow> queue_tables
     \<Rightarrow> ('g queue_error + sortable_id) \<times> queue_tables" where
  "requeue_dead_letter_job protocol env s new_id i run_at t =
     queue_pool_write ''requeue dead letter job'' env (requeue_dead_letter_job_in_current_transaction protocol (env_reply env) s new_id i run_at) t"

definition delete_dead_letter_job_in_current_transaction ::
    "string \<Rightarrow> admission_reply \<Rightarrow> stmt \<Rightarrow> sortable_id \<Rightarrow> queue_tables tx
     \<Rightarrow> ('g queue_error + unit) \<times> queue_tables tx" where
  "delete_dead_letter_job_in_current_transaction protocol reply s i tx =
     admitted protocol reply QueueDatabase (delete_dead_letter_job_with_executor s i) tx"

definition delete_dead_letter_job ::
    "string \<Rightarrow> pool_env \<Rightarrow> stmt \<Rightarrow> sortable_id \<Rightarrow> queue_tables
     \<Rightarrow> ('g queue_error + unit) \<times> queue_tables" where
  "delete_dead_letter_job protocol env s i t =
     queue_pool_write ''delete dead letter job'' env (delete_dead_letter_job_in_current_transaction protocol (env_reply env) s i) t"

section \<open>Maintenance\<close>

definition cleanup_available_completed_jobs_older_than_once_in_current_transaction ::
    "string \<Rightarrow> admission_reply \<Rightarrow> stmt \<Rightarrow> nanos \<Rightarrow> nat \<Rightarrow> queue_tables tx
     \<Rightarrow> ('g queue_error + nat) \<times> queue_tables tx" where
  "cleanup_available_completed_jobs_older_than_once_in_current_transaction protocol reply s older_than batch_size tx =
     admitted protocol reply QueueDatabase (cleanup_jobs_older_than_once s Completed older_than batch_size) tx"

definition cleanup_available_completed_jobs_older_than_once ::
    "string \<Rightarrow> pool_env \<Rightarrow> stmt \<Rightarrow> nanos \<Rightarrow> nat \<Rightarrow> queue_tables
     \<Rightarrow> ('g queue_error + nat) \<times> queue_tables" where
  "cleanup_available_completed_jobs_older_than_once protocol env s older_than batch_size t =
     queue_pool_write ''cleanup completed jobs once'' env (cleanup_available_completed_jobs_older_than_once_in_current_transaction protocol (env_reply env) s older_than batch_size) t"

definition cleanup_available_failed_jobs_older_than_once_in_current_transaction ::
    "string \<Rightarrow> admission_reply \<Rightarrow> stmt \<Rightarrow> nanos \<Rightarrow> nat \<Rightarrow> queue_tables tx
     \<Rightarrow> ('g queue_error + nat) \<times> queue_tables tx" where
  "cleanup_available_failed_jobs_older_than_once_in_current_transaction protocol reply s older_than batch_size tx =
     admitted protocol reply QueueDatabase (cleanup_jobs_older_than_once s Failed older_than batch_size) tx"

definition cleanup_available_failed_jobs_older_than_once ::
    "string \<Rightarrow> pool_env \<Rightarrow> stmt \<Rightarrow> nanos \<Rightarrow> nat \<Rightarrow> queue_tables
     \<Rightarrow> ('g queue_error + nat) \<times> queue_tables" where
  "cleanup_available_failed_jobs_older_than_once protocol env s older_than batch_size t =
     queue_pool_write ''cleanup failed jobs once'' env (cleanup_available_failed_jobs_older_than_once_in_current_transaction protocol (env_reply env) s older_than batch_size) t"

definition cleanup_available_dead_letter_jobs_older_than_once_in_current_transaction ::
    "string \<Rightarrow> admission_reply \<Rightarrow> stmt \<Rightarrow> nanos \<Rightarrow> nat \<Rightarrow> queue_tables tx
     \<Rightarrow> ('g queue_error + nat) \<times> queue_tables tx" where
  "cleanup_available_dead_letter_jobs_older_than_once_in_current_transaction protocol reply s older_than batch_size tx =
     admitted protocol reply QueueDatabase (cleanup_available_dead_letter_jobs_older_than_once_with_executor s older_than batch_size) tx"

definition cleanup_available_dead_letter_jobs_older_than_once ::
    "string \<Rightarrow> pool_env \<Rightarrow> stmt \<Rightarrow> nanos \<Rightarrow> nat \<Rightarrow> queue_tables
     \<Rightarrow> ('g queue_error + nat) \<times> queue_tables" where
  "cleanup_available_dead_letter_jobs_older_than_once protocol env s older_than batch_size t =
     queue_pool_write ''cleanup dead letter jobs once'' env (cleanup_available_dead_letter_jobs_older_than_once_in_current_transaction protocol (env_reply env) s older_than batch_size) t"

definition cleanup_available_completed_jobs_older_than_until_empty ::
    "string \<Rightarrow> nanos \<Rightarrow> nat \<Rightarrow> (pool_env \<times> stmt \<times> bool \<times> bool) list
     \<Rightarrow> queue_tables \<Rightarrow> (('g queue_error + nat) \<times> queue_tables) option" where
  "cleanup_available_completed_jobs_older_than_until_empty protocol =
     cleanup_target_older_than_until_empty protocol (CleanupJobs Completed)"

definition cleanup_available_failed_jobs_older_than_until_empty ::
    "string \<Rightarrow> nanos \<Rightarrow> nat \<Rightarrow> (pool_env \<times> stmt \<times> bool \<times> bool) list
     \<Rightarrow> queue_tables \<Rightarrow> (('g queue_error + nat) \<times> queue_tables) option" where
  "cleanup_available_failed_jobs_older_than_until_empty protocol =
     cleanup_target_older_than_until_empty protocol (CleanupJobs Failed)"

definition cleanup_available_dead_letter_jobs_older_than_until_empty ::
    "string \<Rightarrow> nanos \<Rightarrow> nat \<Rightarrow> (pool_env \<times> stmt \<times> bool \<times> bool) list
     \<Rightarrow> queue_tables \<Rightarrow> (('g queue_error + nat) \<times> queue_tables) option" where
  "cleanup_available_dead_letter_jobs_older_than_until_empty protocol =
     cleanup_target_older_than_until_empty protocol CleanupDeadLetterJobs"

definition reclaim_available_stale_running_jobs_once ::
    "string \<Rightarrow> pool_env \<Rightarrow> (nat \<Rightarrow> stmt) \<Rightarrow> (nat \<Rightarrow> 'g id_error + sortable_id) \<Rightarrow> nanos \<Rightarrow> nat \<Rightarrow> bool
     \<Rightarrow> queue_tables \<Rightarrow> ('g queue_error + reclaim_result) \<times> queue_tables" where
  "reclaim_available_stale_running_jobs_once protocol env s new_id stale_threshold batch_size to_dead_letter t =
     queue_pool_write ''reclaim stale running jobs once'' env
       (reclaim_available_stale_running_jobs_once_in_current_transaction protocol (env_reply env) s new_id
         stale_threshold batch_size to_dead_letter) t"

section \<open>Enqueue\<close>

record enqueue_options =
  option_run_at_or_after :: "micros option"
  option_max_retries :: "nat option"
  option_timeout :: job_timeout
  option_dedupe_key :: "string option"

record enqueue_result =
  enqueued_job_id :: sortable_id
  deduplicated :: bool

record prepared_enqueue =
  prepared_job_id :: sortable_id
  prepared_task_name :: string
  prepared_payload_json :: string
  prepared_run_at :: "micros option"
  prepared_max_retries :: int
  prepared_timeout_nanos :: int
  prepared_dedupe_key :: "string option"

text \<open>
  A payload is what its serializer does to a writer: the pieces it writes, then its own error if
  it has one. The writer refuses the piece that would pass the limit.
\<close>

type_synonym payload = "string list \<times> string option"

datatype payload_json_serialization_error = JsonFailed string | JsonTooLarge nat nat

fun payload_json_write :: "nat \<Rightarrow> string \<Rightarrow> string list \<Rightarrow> nat + string" where
  "payload_json_write limit written [] = Inr written"
| "payload_json_write limit written (piece # rest) =
     (if length written + length piece > limit then Inl (length written + length piece)
      else payload_json_write limit (written @ piece) rest)"

definition serialize_payload_json :: "payload \<Rightarrow> nat \<Rightarrow> payload_json_serialization_error + string" where
  "serialize_payload_json p limit =
     (case payload_json_write limit [] (fst p) of
        Inl actual_minimum \<Rightarrow> Inl (JsonTooLarge actual_minimum limit)
      | Inr written \<Rightarrow> (case snd p of Some e \<Rightarrow> Inl (JsonFailed e) | None \<Rightarrow> Inr written))"

fun into_single_payload_error :: "payload_json_serialization_error \<Rightarrow> 'g queue_error" where
  "into_single_payload_error (JsonFailed e) = QueuePayload (PayloadJson e)"
| "into_single_payload_error (JsonTooLarge a m) = QueuePayload (PayloadJsonTooLarge a m)"

fun into_batch_payload_error :: "nat \<Rightarrow> payload_json_serialization_error \<Rightarrow> 'g queue_error" where
  "into_batch_payload_error n (JsonFailed e) = QueuePayload (EnqueueBatchPayloadJson n e)"
| "into_batch_payload_error n (JsonTooLarge a m) = QueuePayload (EnqueueBatchPayloadJsonTooLarge n a m)"

definition retries_or_default :: "nat option \<Rightarrow> nat" where
  "retries_or_default r = (case r of None \<Rightarrow> DEFAULT_QUEUE_MAX_RETRIES | Some n \<Rightarrow> n)"

definition prepared_enqueue_new ::
    "'g id_error + sortable_id \<Rightarrow> string \<Rightarrow> payload \<Rightarrow> enqueue_options \<Rightarrow> nat \<Rightarrow> 'g queue_error + prepared_enqueue" where
  "prepared_enqueue_new new_id name p options payload_limit =
     result_bind (validate_payload_json_limit_bytes payload_limit) (\<lambda>_.
     result_bind (validate_task_name name) (\<lambda>_.
     result_bind (validate_optional_dedupe_key (option_dedupe_key options)) (\<lambda>_.
     result_bind (i32_from_u32 (retries_or_default (option_max_retries options))) (\<lambda>retries.
     result_bind (timeout_to_nanos (option_timeout options)) (\<lambda>ns.
     result_bind (map_sum into_single_payload_error id (serialize_payload_json p payload_limit)) (\<lambda>json.
     result_bind (map_sum QueueJobId id new_id) (\<lambda>i.
       Inr \<lparr>prepared_job_id = i, prepared_task_name = name, prepared_payload_json = json,
         prepared_run_at = option_run_at_or_after options, prepared_max_retries = retries,
         prepared_timeout_nanos = ns, prepared_dedupe_key = option_dedupe_key options\<rparr>)))))))"

definition prepared_row :: "stmt \<Rightarrow> prepared_enqueue \<Rightarrow> job_row" where
  "prepared_row s p = new_job_row (stmt_now s) (prepared_task_name p) (prepared_payload_json p)
     (prepared_run_at p) (prepared_max_retries p) (prepared_timeout_nanos p) (prepared_dedupe_key p)"

definition queue_enqueue_result_from_insert_outcome ::
    "string \<Rightarrow> bytes option \<Rightarrow> string \<Rightarrow> 'g queue_error + enqueue_result" where
  "queue_enqueue_result_from_insert_outcome operation inserted outcome =
     (if outcome = ENQUEUE_OUTCOME_INSERTED then
        (case inserted of
           None \<Rightarrow> Inl (QueueUnexpectedOutcome operation ''inserted without id'')
         | Some bs \<Rightarrow> map_sum id (\<lambda>i. \<lparr>enqueued_job_id = i, deduplicated = False\<rparr>) (queue_id_from_bytes bs))
      else if outcome = ENQUEUE_OUTCOME_QUEUE_PAUSED then Inl (QueueState QueuePaused)
      else if outcome = ENQUEUE_OUTCOME_TASK_PAUSED then Inl (QueueState TaskPaused)
      else Inl (QueueUnexpectedOutcome operation outcome))"

datatype dedupe_enqueue_attempt_outcome = AttemptApplied enqueue_result | RetryAfterInvisibleConflict

definition queue_dedupe_enqueue_result_from_insert_outcome ::
    "string \<Rightarrow> bytes option \<Rightarrow> bytes option \<Rightarrow> string \<Rightarrow> 'g queue_error + dedupe_enqueue_attempt_outcome" where
  "queue_dedupe_enqueue_result_from_insert_outcome operation inserted existing outcome =
     (if outcome = ENQUEUE_OUTCOME_INSERTED then
        map_sum id AttemptApplied (queue_enqueue_result_from_insert_outcome operation inserted outcome)
      else if outcome = ENQUEUE_OUTCOME_NOT_INSERTED then
        (case existing of
           Some bs \<Rightarrow> map_sum id (\<lambda>i. AttemptApplied \<lparr>enqueued_job_id = i, deduplicated = True\<rparr>) (queue_id_from_bytes bs)
         | None \<Rightarrow> Inr RetryAfterInvisibleConflict)
      else if outcome = ENQUEUE_OUTCOME_QUEUE_PAUSED then Inl (QueueState QueuePaused)
      else if outcome = ENQUEUE_OUTCOME_TASK_PAUSED then Inl (QueueState TaskPaused)
      else Inl (QueueUnexpectedOutcome operation outcome))"

definition execute_non_dedupe_enqueue ::
    "stmt \<Rightarrow> prepared_enqueue \<Rightarrow> queue_tables \<Rightarrow> ('g queue_error + enqueue_result) \<times> queue_tables" where
  "execute_non_dedupe_enqueue s p t =
     read_answer (\<lambda>(inserted, outcome). queue_enqueue_result_from_insert_outcome ''enqueue'' inserted outcome)
       (single_enqueue_statement s (id_bytes (prepared_job_id p)) ((prepared_row s p)\<lparr>job_dedupe_key := None\<rparr>) t)"

text \<open>
  Attempt \<open>n\<close> runs at the moment \<open>s n\<close>; an attempt after the first takes the next fresh
  identifier \<open>new_id n\<close>.
\<close>

fun dedupe_enqueue_attempts ::
    "(nat \<Rightarrow> stmt) \<Rightarrow> (nat \<Rightarrow> 'g id_error + sortable_id) \<Rightarrow> nat \<Rightarrow> nat \<Rightarrow> prepared_enqueue \<Rightarrow> queue_tables
     \<Rightarrow> ('g queue_error + enqueue_result) \<times> queue_tables" where
  "dedupe_enqueue_attempts s new_id n 0 p t =
     (Inl (QueueUnexpectedOutcome ''dedupe enqueue'' ''retry loop exhausted''), t)"
| "dedupe_enqueue_attempts s new_id n (Suc left) p t =
     step_bind (read_answer (\<lambda>(inserted, existing, outcome).
           queue_dedupe_enqueue_result_from_insert_outcome ''dedupe enqueue'' inserted existing outcome)
         (dedupe_enqueue_statement (s n) (id_bytes (prepared_job_id p)) (prepared_row (s n) p) t))
       (\<lambda>attempt t'. case attempt of
          AttemptApplied r \<Rightarrow> (Inr r, t')
        | RetryAfterInvisibleConflict \<Rightarrow>
            if n + 1 < MAX_QUEUE_DEDUPE_INSERT_ATTEMPTS then
              (case new_id (n + 1) of
                 Inl e \<Rightarrow> (Inl (QueueJobId e), t')
               | Inr i \<Rightarrow> dedupe_enqueue_attempts s new_id (n + 1) left (p\<lparr>prepared_job_id := i\<rparr>) t')
            else (Inl (QueueUnexpectedOutcome ''dedupe enqueue'' ''not inserted without existing active job''), t'))"

definition execute_dedupe_enqueue ::
    "(nat \<Rightarrow> stmt) \<Rightarrow> (nat \<Rightarrow> 'g id_error + sortable_id) \<Rightarrow> prepared_enqueue \<Rightarrow> queue_tables
     \<Rightarrow> ('g queue_error + enqueue_result) \<times> queue_tables" where
  "execute_dedupe_enqueue s new_id p t =
     dedupe_enqueue_attempts s new_id 0 MAX_QUEUE_DEDUPE_INSERT_ATTEMPTS p t"

definition execute_dedupe_enqueue_in_current_transaction ::
    "string \<Rightarrow> admission_reply \<Rightarrow> (nat \<Rightarrow> stmt) \<Rightarrow> (nat \<Rightarrow> 'g id_error + sortable_id) \<Rightarrow> prepared_enqueue
     \<Rightarrow> queue_tables tx \<Rightarrow> ('g queue_error + enqueue_result) \<times> queue_tables tx" where
  "execute_dedupe_enqueue_in_current_transaction protocol reply s new_id p tx =
     admitted protocol reply QueueDatabase (execute_dedupe_enqueue s new_id p) tx"

definition execute_enqueue_in_current_transaction ::
    "string \<Rightarrow> admission_reply \<Rightarrow> (nat \<Rightarrow> stmt) \<Rightarrow> (nat \<Rightarrow> 'g id_error + sortable_id) \<Rightarrow> prepared_enqueue
     \<Rightarrow> queue_tables tx \<Rightarrow> ('g queue_error + enqueue_result) \<times> queue_tables tx" where
  "execute_enqueue_in_current_transaction protocol reply s new_id p tx =
     (case admit protocol reply tx of
        (Inl e, tx') \<Rightarrow> (Inl (QueueDatabase e), tx')
      | (Inr _, tx') \<Rightarrow>
          if prepared_dedupe_key p \<noteq> None then
            execute_dedupe_enqueue_in_current_transaction protocol reply s new_id p tx'
          else (let (r, t) = execute_non_dedupe_enqueue (s 0) p (tables tx') in (r, tx'\<lparr>tables := t\<rparr>)))"

definition enqueue_json_in_current_transaction ::
    "string \<Rightarrow> admission_reply \<Rightarrow> (nat \<Rightarrow> stmt) \<Rightarrow> (nat \<Rightarrow> 'g id_error + sortable_id) \<Rightarrow> nat \<Rightarrow> string \<Rightarrow> payload
     \<Rightarrow> enqueue_options \<Rightarrow> queue_tables tx \<Rightarrow> ('g queue_error + enqueue_result) \<times> queue_tables tx" where
  "enqueue_json_in_current_transaction protocol reply s new_id payload_limit name p options tx =
     (case prepared_enqueue_new (new_id 0) name p options payload_limit of
        Inl e \<Rightarrow> (Inl e, tx)
      | Inr prepared \<Rightarrow> execute_enqueue_in_current_transaction protocol reply s new_id prepared tx)"

definition enqueue_json ::
    "string \<Rightarrow> pool_env \<Rightarrow> (nat \<Rightarrow> stmt) \<Rightarrow> (nat \<Rightarrow> 'g id_error + sortable_id) \<Rightarrow> nat \<Rightarrow> string \<Rightarrow> payload
     \<Rightarrow> enqueue_options \<Rightarrow> queue_tables \<Rightarrow> ('g queue_error + enqueue_result) \<times> queue_tables" where
  "enqueue_json protocol env s new_id payload_limit name p options t =
     (case prepared_enqueue_new (new_id 0) name p options payload_limit of
        Inl e \<Rightarrow> (Inl e, t)
      | Inr prepared \<Rightarrow> queue_pool_write ''enqueue'' env
          (execute_enqueue_in_current_transaction protocol (env_reply env) s new_id prepared) t)"

text \<open>Batches: each payload is serialized and given an identifier in turn.\<close>

fun prepare_batch_jobs ::
    "(nat \<Rightarrow> 'g id_error + sortable_id) \<Rightarrow> nat \<Rightarrow> nat \<Rightarrow> payload list \<Rightarrow> 'g queue_error + (sortable_id \<times> string) list" where
  "prepare_batch_jobs new_id limit n [] = Inr []"
| "prepare_batch_jobs new_id limit n (p # rest) =
     result_bind (map_sum (into_batch_payload_error n) id (serialize_payload_json p limit)) (\<lambda>json.
     result_bind (map_sum QueueJobId id (new_id n)) (\<lambda>i.
     result_bind (prepare_batch_jobs new_id limit (n + 1) rest) (\<lambda>js. Inr ((i, json) # js))))"

record prepared_enqueue_batch =
  batch_task_name :: string
  batch_jobs :: "(sortable_id \<times> string) list"
  batch_run_at :: "micros option"
  batch_max_retries :: int
  batch_timeout_nanos :: int

definition prepared_enqueue_batch_new ::
    "(nat \<Rightarrow> 'g id_error + sortable_id) \<Rightarrow> string \<Rightarrow> payload list \<Rightarrow> enqueue_options \<Rightarrow> nat
     \<Rightarrow> 'g queue_error + prepared_enqueue_batch" where
  "prepared_enqueue_batch_new new_id name ps options payload_limit =
     result_bind (validate_payload_json_limit_bytes payload_limit) (\<lambda>_.
     result_bind (validate_task_name name) (\<lambda>_.
     result_bind (validate_enqueue_batch_size (length ps)) (\<lambda>_.
     result_bind (i32_from_u32 (retries_or_default (option_max_retries options))) (\<lambda>retries.
     result_bind (timeout_to_nanos (option_timeout options)) (\<lambda>ns.
     result_bind (prepare_batch_jobs new_id payload_limit 0 ps) (\<lambda>js.
       Inr \<lparr>batch_task_name = name, batch_jobs = js, batch_run_at = option_run_at_or_after options,
         batch_max_retries = retries, batch_timeout_nanos = ns\<rparr>))))))"

definition queue_batch_enqueue_results_from_insert_outcome ::
    "(sortable_id \<times> string) list \<Rightarrow> int \<Rightarrow> string \<Rightarrow> 'g queue_error + enqueue_result list" where
  "queue_batch_enqueue_results_from_insert_outcome js inserted_count outcome =
     (if outcome = ENQUEUE_OUTCOME_INSERTED then
        (if inserted_count = int (length js) then
           Inr (map (\<lambda>(i, _). \<lparr>enqueued_job_id = i, deduplicated = False\<rparr>) js)
         else Inl (QueueUnexpectedOutcome ''batch enqueue'' ''inserted another number of rows''))
      else if outcome = ENQUEUE_OUTCOME_QUEUE_PAUSED then Inl (QueueState QueuePaused)
      else if outcome = ENQUEUE_OUTCOME_TASK_PAUSED then Inl (QueueState TaskPaused)
      else Inl (QueueUnexpectedOutcome ''batch enqueue'' outcome))"

definition execute_batch_enqueue ::
    "stmt \<Rightarrow> prepared_enqueue_batch \<Rightarrow> queue_tables \<Rightarrow> ('g queue_error + enqueue_result list) \<times> queue_tables" where
  "execute_batch_enqueue s b t =
     (if batch_jobs b = [] then (Inr [], t)
      else read_answer (\<lambda>(n, outcome). queue_batch_enqueue_results_from_insert_outcome (batch_jobs b) n outcome)
        (batch_enqueue_statement s (batch_task_name b)
          (map (\<lambda>(i, json). (id_bytes i, new_job_row (stmt_now s) (batch_task_name b) json (batch_run_at b)
             (batch_max_retries b) (batch_timeout_nanos b) None)) (batch_jobs b)) t))"

definition enqueue_json_batch_in_current_transaction ::
    "string \<Rightarrow> admission_reply \<Rightarrow> stmt \<Rightarrow> (nat \<Rightarrow> 'g id_error + sortable_id) \<Rightarrow> nat \<Rightarrow> string \<Rightarrow> payload list
     \<Rightarrow> enqueue_options \<Rightarrow> queue_tables tx \<Rightarrow> ('g queue_error + enqueue_result list) \<times> queue_tables tx" where
  "enqueue_json_batch_in_current_transaction protocol reply s new_id payload_limit name ps options tx =
     (case prepared_enqueue_batch_new new_id name ps options payload_limit of
        Inl e \<Rightarrow> (Inl e, tx)
      | Inr b \<Rightarrow> if batch_jobs b = [] then (Inr [], tx)
          else admitted protocol reply QueueDatabase (execute_batch_enqueue s b) tx)"

definition enqueue_json_batch ::
    "string \<Rightarrow> pool_env \<Rightarrow> stmt \<Rightarrow> (nat \<Rightarrow> 'g id_error + sortable_id) \<Rightarrow> nat \<Rightarrow> string \<Rightarrow> payload list
     \<Rightarrow> enqueue_options \<Rightarrow> queue_tables \<Rightarrow> ('g queue_error + enqueue_result list) \<times> queue_tables" where
  "enqueue_json_batch protocol env s new_id payload_limit name ps options t =
     (case prepared_enqueue_batch_new new_id name ps options payload_limit of
        Inl e \<Rightarrow> (Inl e, t)
      | Inr b \<Rightarrow> if batch_jobs b = [] then (Inr [], t)
          else queue_pool_write ''batch enqueue'' env
            (admitted protocol (env_reply env) QueueDatabase (execute_batch_enqueue s b)) t)"

section \<open>Pausing\<close>

definition pause_queue_in_current_transaction ::
    "string \<Rightarrow> admission_reply \<Rightarrow> stmt \<Rightarrow> queue_tables tx
     \<Rightarrow> ('g queue_error + unit) \<times> queue_tables tx" where
  "pause_queue_in_current_transaction protocol reply s  tx =
     admitted protocol reply QueueDatabase (\<lambda>t. (Inr (), upsert_pause_key_statement s GLOBAL_PAUSE_KEY None t)) tx"

definition pause_queue ::
    "string \<Rightarrow> pool_env \<Rightarrow> stmt \<Rightarrow> queue_tables
     \<Rightarrow> ('g queue_error + unit) \<times> queue_tables" where
  "pause_queue protocol env s  t =
     queue_pool_write ''pause queue'' env (pause_queue_in_current_transaction protocol (env_reply env) s ) t"

definition resume_queue_in_current_transaction ::
    "string \<Rightarrow> admission_reply \<Rightarrow> stmt \<Rightarrow> queue_tables tx
     \<Rightarrow> ('g queue_error + unit) \<times> queue_tables tx" where
  "resume_queue_in_current_transaction protocol reply s  tx =
     admitted protocol reply QueueDatabase (\<lambda>t. (Inr (), delete_pause_key_statement GLOBAL_PAUSE_KEY t)) tx"

definition resume_queue ::
    "string \<Rightarrow> pool_env \<Rightarrow> stmt \<Rightarrow> queue_tables
     \<Rightarrow> ('g queue_error + unit) \<times> queue_tables" where
  "resume_queue protocol env s  t =
     queue_pool_write ''resume queue'' env (resume_queue_in_current_transaction protocol (env_reply env) s ) t"

definition pause_task_in_current_transaction ::
    "string \<Rightarrow> admission_reply \<Rightarrow> stmt \<Rightarrow> string \<Rightarrow> queue_tables tx
     \<Rightarrow> ('g queue_error + unit) \<times> queue_tables tx" where
  "pause_task_in_current_transaction protocol reply s name tx =
     (case validate_task_name name of Inl e \<Rightarrow> (Inl e, tx) | Inr _ \<Rightarrow>
       admitted protocol reply QueueDatabase (\<lambda>t. (Inr (), upsert_pause_key_statement s (paused_task_key name) (Some name) t)) tx)"

definition pause_task ::
    "string \<Rightarrow> pool_env \<Rightarrow> stmt \<Rightarrow> string \<Rightarrow> queue_tables
     \<Rightarrow> ('g queue_error + unit) \<times> queue_tables" where
  "pause_task protocol env s name t =
     (case validate_task_name name of Inl e \<Rightarrow> (Inl e, t) | Inr _ \<Rightarrow>
       queue_pool_write ''pause task'' env (pause_task_in_current_transaction protocol (env_reply env) s name) t)"

definition resume_task_in_current_transaction ::
    "string \<Rightarrow> admission_reply \<Rightarrow> stmt \<Rightarrow> string \<Rightarrow> queue_tables tx
     \<Rightarrow> ('g queue_error + unit) \<times> queue_tables tx" where
  "resume_task_in_current_transaction protocol reply s name tx =
     (case validate_task_name name of Inl e \<Rightarrow> (Inl e, tx) | Inr _ \<Rightarrow>
       admitted protocol reply QueueDatabase (\<lambda>t. (Inr (), delete_pause_key_statement (paused_task_key name) t)) tx)"

definition resume_task ::
    "string \<Rightarrow> pool_env \<Rightarrow> stmt \<Rightarrow> string \<Rightarrow> queue_tables
     \<Rightarrow> ('g queue_error + unit) \<times> queue_tables" where
  "resume_task protocol env s name t =
     (case validate_task_name name of Inl e \<Rightarrow> (Inl e, t) | Inr _ \<Rightarrow>
       queue_pool_write ''resume task'' env (resume_task_in_current_transaction protocol (env_reply env) s name) t)"

definition fetch_queue_is_paused_in_current_transaction ::
    "string \<Rightarrow> admission_reply \<Rightarrow> stmt \<Rightarrow> queue_tables tx
     \<Rightarrow> ('g queue_error + bool) \<times> queue_tables tx" where
  "fetch_queue_is_paused_in_current_transaction protocol reply s  tx =
     admitted protocol reply QueueDatabase (\<lambda>t. (Inr (pause_key_present GLOBAL_PAUSE_KEY t), t)) tx"

definition fetch_queue_is_paused ::
    "string \<Rightarrow> pool_env \<Rightarrow> stmt \<Rightarrow> queue_tables \<Rightarrow> 'g queue_error + bool" where
  "fetch_queue_is_paused protocol env s  t =
     pool_read ''fetch queue is paused'' QueueDatabase QueueDatabaseOperationRollbackFailed env
       (fetch_queue_is_paused_in_current_transaction protocol (env_reply env) s ) t"

definition fetch_task_is_paused_in_current_transaction ::
    "string \<Rightarrow> admission_reply \<Rightarrow> stmt \<Rightarrow> string \<Rightarrow> queue_tables tx
     \<Rightarrow> ('g queue_error + bool) \<times> queue_tables tx" where
  "fetch_task_is_paused_in_current_transaction protocol reply s name tx =
     (case validate_task_name name of Inl e \<Rightarrow> (Inl e, tx) | Inr _ \<Rightarrow>
       admitted protocol reply QueueDatabase (\<lambda>t. (Inr (pause_key_present (paused_task_key name) t), t)) tx)"

definition fetch_task_is_paused ::
    "string \<Rightarrow> pool_env \<Rightarrow> stmt \<Rightarrow> string \<Rightarrow> queue_tables \<Rightarrow> 'g queue_error + bool" where
  "fetch_task_is_paused protocol env s name t =
     (case validate_task_name name of Inl e \<Rightarrow> Inl e | Inr _ \<Rightarrow>
       pool_read ''fetch task is paused'' QueueDatabase QueueDatabaseOperationRollbackFailed env
       (fetch_task_is_paused_in_current_transaction protocol (env_reply env) s name) t)"

end
