(* ===== verification/QueueLifecycle.thy ===== *)
theory QueueLifecycle
  imports QueueInvariant QueueApi
begin

text \<open>
  The life of a job as a state machine. \<open>queue_step\<close> is the transition relation of the tables: one
  rule for every statement of \<open>src/src/db/queue/sql\<close> that writes, labelled with who runs it.
  \<open>queue_spec\<close> is what it promises, over the states of jobs only, and the tables refine it.
\<close>

section \<open>Steps of the tables\<close>

datatype actor = Worker string | Producer | Operator | Maintenance

inductive queue_step :: "actor \<Rightarrow> queue_tables \<Rightarrow> queue_tables \<Rightarrow> bool" where
  step_claim: "worker_text_constraint w \<Longrightarrow>
    queue_step (Worker w) t (snd (claim_available_jobs_statement s names limit w t))"
| step_started: "queue_step (Worker w) t (snd (mark_job_started_statement s i w t))"
| step_completed: "queue_step (Worker w) t (snd (mark_job_completed_statement s i w t))"
| step_touch: "queue_step (Worker w) t (snd (touch_execution_heartbeat_statement s i w t))"
| step_return_unstarted: "queue_step (Worker w) t (snd (return_owned_unstarted_statement s i w t))"
| step_return_started: "queue_step (Worker w) t (snd (return_owned_started_statement s i w t))"
| step_return_available: "queue_step (Worker w) t (snd (return_available_owned_statement s started w t))"
| step_failed: "queue_step (Worker w) t (snd (mark_job_failed_statement s message increment i w t))"
| step_retry_later: "0 \<le> n \<Longrightarrow> n \<le> i32_max \<Longrightarrow>
    queue_step (Worker w) t (snd (schedule_owned_running_job_retry_statement s n us message i w t))"
| step_bury: "length new_id = SORTABLE_ID_SIZE \<Longrightarrow>
    queue_step (Worker w) t (snd (move_owned_running_job_to_dead_letter_statement s new_id message increment reason i w t))"
| step_cancel: "queue_step Operator t (snd (cancel_pending_job_statement s Pending i t))"
| step_force: "queue_step Operator t (snd (force_requeue_running_job_statement s Running i t))"
| step_retry_one: "queue_step Operator t (snd (retry_failed_job_by_id_statement s run_at i t))"
| step_retry_many: "queue_step Operator t (snd (retry_available_failed_jobs_statement s limit run_at name t))"
| step_bury_failed: "length new_id = SORTABLE_ID_SIZE \<Longrightarrow>
    queue_step Operator t (snd (move_failed_job_to_dead_letter_statement s new_id reason i t))"
| step_bury_batch: "a = Operator \<or> a = Maintenance \<Longrightarrow> (\<And>i. i \<in> set (map snd ids) \<Longrightarrow> length i = SORTABLE_ID_SIZE) \<Longrightarrow>
    queue_step a t (snd (move_failed_jobs_to_dead_letter_batch_statement s ids reason t))"
| step_requeue: "length new_id = SORTABLE_ID_SIZE \<Longrightarrow>
    queue_step Operator t (snd (requeue_dead_letter_job_statement s new_id run_at i t))"
| step_delete_letter: "queue_step Operator t (snd (delete_dead_letter_job_statement s i t))"
| step_cleanup_jobs: "status = Completed \<or> status = Failed \<Longrightarrow>
    queue_step Maintenance t (snd (cleanup_jobs_statement s status us limit t))"
| step_cleanup_letters: "queue_step Maintenance t (snd (cleanup_dead_letters_statement s us limit t))"
| step_reclaim_unstarted: "queue_step Maintenance t (snd (reclaim_never_started_statement s us limit t))"
| step_reclaim_failed: "queue_step Maintenance t (snd (reclaim_expired_to_failed_statement s us limit t))"
| step_reclaim_retry: "queue_step Maintenance t (snd (reclaim_expired_to_pending_statement s us limit t))"
| step_enqueue: "length i = SORTABLE_ID_SIZE \<Longrightarrow> job_row_ok r \<Longrightarrow> job_status r = Pending \<Longrightarrow> job_dedupe_key r = None \<Longrightarrow>
    queue_step Producer t (snd (single_enqueue_statement s i r t))"
| step_enqueue_batch: "(\<And>i r. (i, r) \<in> set rows \<Longrightarrow>
      length i = SORTABLE_ID_SIZE \<and> job_row_ok r \<and> job_status r = Pending \<and> job_dedupe_key r = None) \<Longrightarrow>
    queue_step Producer t (snd (batch_enqueue_statement s name rows t))"
| step_enqueue_dedupe: "length i = SORTABLE_ID_SIZE \<Longrightarrow> job_row_ok r \<Longrightarrow> job_status r = Pending \<Longrightarrow>
    queue_step Producer t (snd (dedupe_enqueue_statement s i r t))"
| step_pause: "name = None \<and> k = GLOBAL_PAUSE_KEY \<or> (\<exists>n. name = Some n \<and> k = paused_task_key n \<and> text_constraint n None) \<Longrightarrow>
    queue_step Operator t (upsert_pause_key_statement s k name t)"
| step_resume: "queue_step Operator t (delete_pause_key_statement k t)"

lemma queue_step_inv: "queue_step a t t' \<Longrightarrow> queue_inv t \<Longrightarrow> queue_inv t'"
  by (induction rule: queue_step.induct)
    (auto intro: queue_inv_claim queue_inv_worker_updates queue_inv_return_available queue_inv_mark_failed
      queue_inv_schedule_retry queue_inv_move_owned queue_inv_cancel queue_inv_force queue_inv_retry_by_id
      queue_inv_retry_available queue_inv_move_failed queue_inv_move_batch queue_inv_requeue queue_inv_delete_letter
      queue_inv_cleanup queue_inv_reclaim_never_started queue_inv_reclaim queue_inv_single_enqueue
      queue_inv_batch_enqueue queue_inv_dedupe_enqueue queue_inv_pause)

text \<open>A run: the steps of any number of workers and operators in any order.\<close>

inductive queue_run :: "actor list \<Rightarrow> queue_tables \<Rightarrow> queue_tables \<Rightarrow> bool" where
  run_done: "queue_run [] t t"
| run_step: "queue_run as t t' \<Longrightarrow> queue_step a t' t'' \<Longrightarrow> queue_run (as @ [a]) t t''"

lemma queue_run_inv: "queue_run as t t' \<Longrightarrow> queue_inv t \<Longrightarrow> queue_inv t'"
  by (induction rule: queue_run.induct) (auto intro: queue_step_inv)

lemma empty_queue_inv: "queue_inv empty_queue"
  by (simp add: queue_inv_def empty_queue_def jobs_inv_def letters_inv_def pauses_inv_def active_dedupe_unique_def)

section \<open>The abstract queue\<close>

datatype life = Waiting | Held string | Done | Broken

definition life_of :: "job_row \<Rightarrow> life" where
  "life_of r = (case job_status r of
      Pending \<Rightarrow> Waiting
    | Running \<Rightarrow> Held (option_or_empty (worker_id (job_runtime r)))
    | Completed \<Rightarrow> Done
    | Failed \<Rightarrow> Broken)"

text \<open>Where a job is: in the job table, and whether it is buried among the dead letters.\<close>

type_synonym whereabouts = "life option \<times> bool"

definition buried :: "queue_tables \<Rightarrow> bytes \<Rightarrow> bool" where
  "buried t i \<longleftrightarrow> i \<in> set (map (dl_original_job_id \<circ> snd) (dead_letters t))"

definition whereabouts :: "queue_tables \<Rightarrow> bytes \<Rightarrow> whereabouts" where
  "whereabouts t i = (map_option life_of (map_of (jobs t) i), buried t i)"

inductive life_move :: "actor \<Rightarrow> whereabouts \<Rightarrow> whereabouts \<Rightarrow> bool" where
  claimed: "life_move (Worker w) (Some Waiting, b) (Some (Held w), b)"
| given_back: "life_move (Worker w) (Some (Held w), b) (Some Waiting, b)"
| finished: "life_move (Worker w) (Some (Held w), b) (Some Done, b)"
| gave_up: "life_move (Worker w) (Some (Held w), b) (Some Broken, b)"
| dead_lettered: "life_move (Worker w) (Some (Held w), False) (None, True)"
| enqueued: "life_move Producer (None, b) (Some Waiting, b)"
| cancelled: "life_move Operator (Some Waiting, b) (None, b)"
| forced: "life_move Operator (Some (Held w), b) (Some Waiting, b)"
| retried: "life_move Operator (Some Broken, b) (Some Waiting, b)"
| put_away: "a = Operator \<or> a = Maintenance \<Longrightarrow> life_move a (Some Broken, False) (None, True)"
| letter_removed: "a = Operator \<or> a = Maintenance \<Longrightarrow> life_move a (l, True) (l, False)"
| requeued: "life_move Operator (None, b) (Some Waiting, b)"
| requeued_same: "life_move Operator (None, True) (Some Waiting, False)"
| reclaimed: "life_move Maintenance (Some (Held w), b) (Some Waiting, b)"
| expired: "life_move Maintenance (Some (Held w), b) (Some Broken, b)"
| cleaned: "l = Done \<or> l = Broken \<Longrightarrow> life_move Maintenance (Some l, b) (None, b)"

inductive_cases worker_moveE: "life_move (Worker w) x y"
inductive_cases producer_moveE: "life_move Producer x y"

definition queue_spec :: "actor \<Rightarrow> (bytes \<Rightarrow> whereabouts) \<Rightarrow> (bytes \<Rightarrow> whereabouts) \<Rightarrow> bool" where
  "queue_spec a v v' \<longleftrightarrow> (\<forall>i. v' i = v i \<or> life_move a (v i) (v' i))"

section \<open>The shapes of the statements refine it\<close>

lemma queue_spec_refl [simp]: "queue_spec a v v"
  by (simp add: queue_spec_def)

lemma spec_update:
  assumes "\<And>k r b. map_of (jobs t) k = Some r \<Longrightarrow> k \<in> set ks \<Longrightarrow>
     life_of (f r) = life_of r \<or> life_move a (Some (life_of r), b) (Some (life_of (f r)), b)"
  shows "queue_spec a (whereabouts t) (whereabouts (t\<lparr>jobs := update_rows ks f (jobs t)\<rparr>))"
  unfolding queue_spec_def
proof
  fix i
  show "whereabouts (t\<lparr>jobs := update_rows ks f (jobs t)\<rparr>) i = whereabouts t i
      \<or> life_move a (whereabouts t i) (whereabouts (t\<lparr>jobs := update_rows ks f (jobs t)\<rparr>) i)"
    using assms [of i _ "buried t i"]
    by (cases "map_of (jobs t) i") (auto simp: whereabouts_def buried_def map_of_update_rows)
qed

lemma spec_delete:
  assumes "\<And>k r b. map_of (jobs t) k = Some r \<Longrightarrow> k \<in> set ks \<Longrightarrow> life_move a (Some (life_of r), b) (None, b)"
  shows "queue_spec a (whereabouts t) (whereabouts (t\<lparr>jobs := delete_rows ks (jobs t)\<rparr>))"
  unfolding queue_spec_def
proof
  fix i
  show "whereabouts (t\<lparr>jobs := delete_rows ks (jobs t)\<rparr>) i = whereabouts t i
      \<or> life_move a (whereabouts t i) (whereabouts (t\<lparr>jobs := delete_rows ks (jobs t)\<rparr>) i)"
    using assms [of i _ "buried t i"]
    by (cases "map_of (jobs t) i") (auto simp: whereabouts_def buried_def map_of_delete_rows)
qed

lemma spec_append:
  assumes "\<And>k r. (k, r) \<in> set rows \<Longrightarrow> k \<notin> set (map fst (jobs t)) \<and> job_status r = Pending"
    and "a = Producer"
  shows "queue_spec a (whereabouts t) (whereabouts (t\<lparr>jobs := jobs t @ rows\<rparr>))"
  unfolding queue_spec_def
proof
  fix i
  show "whereabouts (t\<lparr>jobs := jobs t @ rows\<rparr>) i = whereabouts t i
      \<or> life_move a (whereabouts t i) (whereabouts (t\<lparr>jobs := jobs t @ rows\<rparr>) i)"
  proof (cases "map_of rows i")
    case None
    then show ?thesis by (cases "map_of (jobs t) i") (simp_all add: whereabouts_def buried_def map_add_def)
  next
    case (Some r)
    then have r: "i \<notin> set (map fst (jobs t))" "job_status r = Pending"
      using assms(1) [OF map_of_SomeD [OF Some]] by blast+
    then have "map_of (jobs t) i = None" by (simp add: map_of_eq_None_iff)
    then show ?thesis using Some r assms(2)
      by (simp add: whereabouts_def buried_def map_add_def life_of_def enqueued)
  qed
qed

lemma insert_dead_letter_fresh:
  "insert_dead_letter i d t = Inr t' \<Longrightarrow> \<not> buried t (dl_original_job_id d)"
  by (auto simp: insert_dead_letter_def buried_def split: if_splits)

lemma insert_dead_letters_fresh:
  "insert_dead_letters ds t = Inr t' \<Longrightarrow> (k, d) \<in> set ds \<Longrightarrow> \<not> buried t (dl_original_job_id d)"
proof (induction ds t arbitrary: t' rule: insert_dead_letters.induct)
  case (2 i e rest t)
  then obtain t1 where t1: "insert_dead_letter i e t = Inr t1" "insert_dead_letters rest t1 = Inr t'"
    by (auto simp: result_bind_eq_Inr_iff)
  show ?case
  proof (cases "(k, d) = (i, e)")
    case True
    then show ?thesis using insert_dead_letter_fresh [OF t1(1)] by simp
  next
    case False
    then have "\<not> buried t1 (dl_original_job_id d)" using "2.IH" [OF t1] "2.prems"(2) by auto
    then show ?thesis using insert_dead_letter_keeps [OF t1(1)] by (auto simp: buried_def)
  qed
qed simp

text \<open>Moving rows to the dead letters: the rows deleted are the sources of the letters inserted.\<close>

lemma spec_bury:
  assumes ins: "insert_dead_letters ds (t\<lparr>jobs := delete_rows ks (jobs t)\<rparr>) = Inr t'"
    and ks: "set ks = set (map (dl_original_job_id \<circ> snd) ds)"
    and row: "\<And>k. k \<in> set ks \<Longrightarrow> \<exists>r. map_of (jobs t) k = Some r \<and> life_move a (Some (life_of r), False) (None, True)"
  shows "queue_spec a (whereabouts t) (whereabouts t')"
  unfolding queue_spec_def
proof
  fix i
  note k = insert_dead_letters_keeps [OF ins]
  have b: "buried t' i \<longleftrightarrow> buried t i \<or> i \<in> set ks" using k ks by (auto simp: buried_def)
  show "whereabouts t' i = whereabouts t i \<or> life_move a (whereabouts t i) (whereabouts t' i)"
  proof (cases "i \<in> set ks")
    case False
    then show ?thesis using b k by (simp add: whereabouts_def map_of_delete_rows)
  next
    case True
    then obtain j d where "(j, d) \<in> set ds" "dl_original_job_id d = i" using ks by auto
    then have "\<not> buried t i" using insert_dead_letters_fresh [OF ins] by (auto simp: buried_def)
    then show ?thesis using row [OF True] True b k by (auto simp: whereabouts_def map_of_delete_rows)
  qed
qed

lemma insert_one: "insert_dead_letter i d t = Inr t' \<longleftrightarrow> insert_dead_letters [(i, d)] t = Inr t'"
  by (cases "insert_dead_letter i d t") auto

lemma spec_delete_letters:
  assumes "letters_inv (dead_letters t)" "a = Operator \<or> a = Maintenance"
  shows "queue_spec a (whereabouts t) (whereabouts (t\<lparr>dead_letters := delete_rows ks (dead_letters t)\<rparr>))"
  unfolding queue_spec_def
proof
  fix i
  let ?t' = "t\<lparr>dead_letters := delete_rows ks (dead_letters t)\<rparr>"
  have "buried ?t' i \<longrightarrow> buried t i" by (auto simp: buried_def delete_rows_def)
  then show "whereabouts ?t' i = whereabouts t i \<or> life_move a (whereabouts t i) (whereabouts ?t' i)"
    using assms(2) by (cases "buried t i"; cases "buried ?t' i") (auto simp: whereabouts_def intro: letter_removed)
qed

section \<open>Every statement refines it\<close>

lemma life_of_running: "job_status r = Running \<Longrightarrow> life_of r = Held (option_or_empty (worker_id (job_runtime r)))"
  by (simp add: life_of_def)

lemma life_of_owned: "owned_running w r \<Longrightarrow> life_of r = Held w"
  by (simp add: life_of_def owned_running_def option_or_empty_def)

lemma spec_owned_update:
  assumes "\<And>r b. owned_running w r \<Longrightarrow> extra r
     \<Longrightarrow> life_of (f r) = Held w \<or> life_move (Worker w) (Some (Held w), b) (Some (life_of (f r)), b)"
  shows "queue_spec (Worker w) (whereabouts t) (whereabouts (snd (owned_update s extra f i w t)))"
proof -
  obtain res t' where r: "owned_update s extra f i w t = (res, t')" by fastforce
  show ?thesis
  proof (cases "res = TRANSITION_OUTCOME_APPLIED")
    case False
    then show ?thesis using owned_update_cases [OF r] by (simp add: r)
  next
    case True
    then obtain q where q: "t' = t\<lparr>jobs := update_rows [i] f (jobs t)\<rparr>" "map_of (jobs t) i = Some q"
      "owned_running w q" "extra q" using owned_update_cases [OF r] by auto
    have "queue_spec (Worker w) (whereabouts t) (whereabouts (t\<lparr>jobs := update_rows [i] f (jobs t)\<rparr>))"
      by (rule spec_update) (use q assms life_of_owned [OF q(3)] in force)
    then show ?thesis using q(1) by (simp add: r)
  qed
qed

lemma spec_worker_updates:
  "queue_spec (Worker w) (whereabouts t) (whereabouts (snd (mark_job_started_statement s i w t)))"
  "queue_spec (Worker w) (whereabouts t) (whereabouts (snd (mark_job_completed_statement s i w t)))"
  "queue_spec (Worker w) (whereabouts t) (whereabouts (snd (touch_execution_heartbeat_statement s i w t)))"
  "queue_spec (Worker w) (whereabouts t) (whereabouts (snd (return_owned_unstarted_statement s i w t)))"
  "queue_spec (Worker w) (whereabouts t) (whereabouts (snd (return_owned_started_statement s i w t)))"
  unfolding mark_job_started_statement_def mark_job_completed_statement_def
      touch_execution_heartbeat_statement_def return_owned_unstarted_statement_def return_owned_started_statement_def
  by (rule spec_owned_update; simp add: life_of_def owned_running_def return_to_pending_def option_or_empty_def
      life_move.intros)+

lemma spec_schedule_retry:
  "queue_spec (Worker w) (whereabouts t)
     (whereabouts (snd (schedule_owned_running_job_retry_statement s n us message i w t)))"
proof -
  let ?f = "\<lambda>r. r\<lparr>job_status := Pending, job_retry_count := n,
            job_run_at_or_after := stmt_now s + us, job_last_error := Some message,
            job_runtime := no_runtime None, job_updated_at := stmt_now s\<rparr>"
  have "queue_spec (Worker w) (whereabouts t) (whereabouts (snd (owned_update s (\<lambda>r. True) ?f i w t)))"
    by (rule spec_owned_update) (simp add: life_of_def given_back)
  then show ?thesis by (auto simp: schedule_owned_running_job_retry_statement_def Let_def split: prod.splits)
qed

lemma spec_mark_failed:
  "queue_spec (Worker w) (whereabouts t) (whereabouts (snd (mark_job_failed_statement s message increment i w t)))"
proof -
  let ?f = "\<lambda>r. r\<lparr>job_status := Failed, job_last_error := Some message,
            job_retry_count := retry_count_plus increment r, job_runtime := no_runtime (Some (stmt_now s)),
            job_updated_at := stmt_now s\<rparr>"
  have "queue_spec (Worker w) (whereabouts t) (whereabouts (snd (owned_update s (\<lambda>r. True) ?f i w t)))"
    by (rule spec_owned_update) (simp add: life_of_def gave_up)
  then show ?thesis by (simp add: mark_job_failed_statement_def split_beta)
qed

lemma spec_update_selected:
  assumes "well_keyed (jobs t)"
    "\<And>k r b. P (k, r) \<Longrightarrow> life_of (f r) = life_of r \<or> life_move a (Some (life_of r), b) (Some (life_of (f r)), b)"
  shows "queue_spec a (whereabouts t) (whereabouts (t\<lparr>jobs := update_rows (select_keys P order n (jobs t)) f (jobs t)\<rparr>))"
  by (rule spec_update) (use assms(2) selected_key_row [OF assms(1)] in blast)

lemma spec_return_available:
  assumes "well_keyed (jobs t)"
  shows "queue_spec (Worker w) (whereabouts t) (whereabouts (snd (return_available_owned_statement s started w t)))"
  unfolding return_available_owned_statement_def Let_def snd_conv
proof (rule spec_update)
  fix k r b
  assume k: "map_of (jobs t) k = Some r"
    "k \<in> set (map fst (filter (\<lambda>(k, r). lockable s k \<and> owned_running w r \<and> started r) (jobs t)))"
  have "owned_running w r" using filtered_key_row [OF assms k(2,1)] by simp
  then show "life_of (return_to_pending (stmt_now s) r) = life_of r
      \<or> life_move (Worker w) (Some (life_of r), b) (Some (life_of (return_to_pending (stmt_now s) r)), b)"
    by (simp add: life_of_owned) (simp add: life_of_def return_to_pending_def given_back)
qed

lemma spec_claim:
  assumes "well_keyed (jobs t)"
  shows "queue_spec (Worker w) (whereabouts t) (whereabouts (snd (claim_available_jobs_statement s names limit w t)))"
  unfolding claim_available_jobs_statement_def Let_def snd_conv
  by (rule spec_update_selected [OF assms])
    (simp add: claimable_def claim_row_def life_of_def option_or_empty_def claimed)

lemma spec_bury_one:
  assumes ins: "insert_dead_letter new_id d (t\<lparr>jobs := delete_rows [dl_original_job_id d] (jobs t)\<rparr>) = Inr t'"
    and "map_of (jobs t) (dl_original_job_id d) = Some r" "life_move a (Some (life_of r), False) (None, True)"
  shows "queue_spec a (whereabouts t) (whereabouts t')"
  using spec_bury [OF ins [unfolded insert_one]] assms(2,3) by simp

lemma spec_move_owned:
  "queue_spec (Worker w) (whereabouts t)
     (whereabouts (snd (move_owned_running_job_to_dead_letter_statement s new_id message increment reason i w t)))"
proof (cases "visible_row s (jobs t) i")
  case None
  then show ?thesis by (simp add: move_owned_running_job_to_dead_letter_statement_def)
next
  case (Some r)
  then have row: "map_of (jobs t) i = Some r" by (simp add: visible_row_def split: if_splits)
  let ?d = "dead_letter_of (stmt_now s) i message (retry_count_plus increment r) reason r"
  have "queue_spec (Worker w) (whereabouts t) (whereabouts t')"
    if "insert_dead_letter new_id ?d (t\<lparr>jobs := delete_rows [i] (jobs t)\<rparr>) = Inr t'" "owned_running w r" for t'
    using spec_bury_one [of new_id ?d t t' r "Worker w"] that row
    by (simp add: dead_letter_of_def life_of_owned dead_lettered)
  then show ?thesis using Some
    by (auto simp: move_owned_running_job_to_dead_letter_statement_def split: sum.splits)
qed

lemma spec_cancel:
  "queue_spec Operator (whereabouts t) (whereabouts (snd (cancel_pending_job_statement s Pending i t)))"
proof (cases "visible_row s (jobs t) i")
  case None
  then show ?thesis by (simp add: cancel_pending_job_statement_def)
next
  case (Some r)
  then have row: "map_of (jobs t) i = Some r" by (simp add: visible_row_def split: if_splits)
  have "queue_spec Operator (whereabouts t) (whereabouts (t\<lparr>jobs := delete_rows [i] (jobs t)\<rparr>))" if "job_status r = Pending"
    by (rule spec_delete) (use row that in \<open>auto simp: life_of_def cancelled\<close>)
  then show ?thesis using Some by (simp add: cancel_pending_job_statement_def)
qed

lemma spec_force:
  "queue_spec Operator (whereabouts t) (whereabouts (snd (force_requeue_running_job_statement s Running i t)))"
proof (cases "visible_row s (jobs t) i")
  case None
  then show ?thesis by (simp add: force_requeue_running_job_statement_def)
next
  case (Some r)
  then have row: "map_of (jobs t) i = Some r" by (simp add: visible_row_def split: if_splits)
  have "queue_spec Operator (whereabouts t) (whereabouts (t\<lparr>jobs := update_rows [i] (return_to_pending (stmt_now s)) (jobs t)\<rparr>))"
    if "job_status r = Running"
    by (rule spec_update) (use row that in \<open>auto simp: life_of_def return_to_pending_def forced\<close>)
  then show ?thesis using Some by (simp add: force_requeue_running_job_statement_def)
qed

lemma spec_retry_one:
  "queue_spec Operator (whereabouts t) (whereabouts (snd (retry_failed_job_by_id_statement s run_at i t)))"
proof (cases "visible_row s (jobs t) i")
  case None
  then show ?thesis by (simp add: retry_failed_job_by_id_statement_def)
next
  case (Some r)
  then have row: "map_of (jobs t) i = Some r" by (simp add: visible_row_def split: if_splits)
  have "queue_spec Operator (whereabouts t) (whereabouts (t\<lparr>jobs := update_rows [i] (retry_failed_row (stmt_now s) run_at) (jobs t)\<rparr>))"
    if "job_status r = Failed"
    by (rule spec_update) (use row that in \<open>auto simp: life_of_def retry_failed_row_def retried\<close>)
  then show ?thesis using Some by (simp add: retry_failed_job_by_id_statement_def)
qed

lemma spec_retry_many:
  assumes wk: "well_keyed (jobs t)"
  shows "queue_spec Operator (whereabouts t) (whereabouts (snd (retry_available_failed_jobs_statement s limit run_at name t)))"
proof -
  define P :: "bytes \<times> job_row \<Rightarrow> bool" where "P = (\<lambda>(k, r). lockable s k \<and> job_status r = Failed
             \<and> (name = None \<or> name = Some (job_task_name r))
             \<and> \<not> visible_dedupe_conflict s k (job_task_name r) (job_dedupe_key r) t)"
  define ranked where "ranked = rows_of (select_keys P retry_order limit (jobs t)) (jobs t)"
  define cands where "cands = filter (first_of_dedupe ranked) ranked"
  have "queue_spec Operator (whereabouts t)
      (whereabouts (t\<lparr>jobs := update_rows (map fst cands) (retry_failed_row (stmt_now s) run_at) (jobs t)\<rparr>))"
  proof (rule spec_update)
    fix k r b
    assume k: "map_of (jobs t) k = Some r" "k \<in> set (map fst cands)"
    then have "k \<in> set (select_keys P retry_order limit (jobs t))" by (auto simp: cands_def ranked_def rows_of_def)
    then have "P (k, r)" by (rule selected_key_row [OF wk]) (rule k(1))
    then have "job_status r = Failed" by (simp add: P_def)
    then show "life_of (retry_failed_row (stmt_now s) run_at r) = life_of r \<or> life_move Operator (Some (life_of r), b)
        (Some (life_of (retry_failed_row (stmt_now s) run_at r)), b)"
      by (simp add: life_of_def retry_failed_row_def retried)
  qed
  then show ?thesis
    by (simp add: retry_available_failed_jobs_statement_def Let_def P_def [symmetric] ranked_def [symmetric] cands_def [symmetric])
qed

lemma spec_move_failed:
  "queue_spec Operator (whereabouts t) (whereabouts (snd (move_failed_job_to_dead_letter_statement s new_id reason i t)))"
proof (cases "visible_row s (jobs t) i")
  case None
  then show ?thesis by (simp add: move_failed_job_to_dead_letter_statement_def)
next
  case (Some r)
  then have row: "map_of (jobs t) i = Some r" by (simp add: visible_row_def split: if_splits)
  let ?d = "dead_letter_of (stmt_now s) i (option_or_empty (job_last_error r)) (job_retry_count r) reason r"
  have "queue_spec Operator (whereabouts t) (whereabouts t')"
    if "insert_dead_letter new_id ?d (t\<lparr>jobs := delete_rows [i] (jobs t)\<rparr>) = Inr t'" "job_status r = Failed" for t'
    using spec_bury_one [of new_id ?d t t' r Operator] that row
    by (simp add: dead_letter_of_def life_of_def put_away)
  then show ?thesis using Some
    by (auto simp: move_failed_job_to_dead_letter_statement_def Let_def split: sum.splits)
qed

lemma spec_move_batch:
  assumes wk: "well_keyed (jobs t)" and a: "a = Operator \<or> a = Maintenance"
  shows "queue_spec a (whereabouts t) (whereabouts (snd (move_failed_jobs_to_dead_letter_batch_statement s ids reason t)))"
proof -
  define P :: "bytes \<times> job_row \<Rightarrow> bool" where "P = (\<lambda>(i, r). i \<in> set (map fst ids) \<and> lockable s i \<and> job_status r = Failed)"
  define moved where "moved = map (\<lambda>(i, r). (the (map_of ids i),
              dead_letter_of (stmt_now s) i (option_or_empty (job_last_error r)) (job_retry_count r) reason r))
            (filter P (jobs t))"
  have ks: "map (dl_original_job_id \<circ> snd) moved = map fst (filter P (jobs t))"
    by (auto simp: moved_def dead_letter_of_def)
  have "queue_spec a (whereabouts t) (whereabouts t')"
    if ins: "insert_dead_letters moved (t\<lparr>jobs := delete_rows (map fst (filter P (jobs t))) (jobs t)\<rparr>) = Inr t'" for t'
  proof (rule spec_bury [OF ins])
    show "set (map fst (filter P (jobs t))) = set (map (dl_original_job_id \<circ> snd) moved)" by (simp only: ks)
    fix k assume k: "k \<in> set (map fst (filter P (jobs t)))"
    then obtain r where r: "map_of (jobs t) k = Some r" using wk by (auto simp: in_table_iff)
    have "job_status r = Failed" using filtered_key_row [OF wk k r] by (simp add: P_def)
    then show "\<exists>r. map_of (jobs t) k = Some r \<and> life_move a (Some (life_of r), False) (None, True)"
      using r a by (auto simp: life_of_def intro: put_away)
  qed
  then show ?thesis
    unfolding move_failed_jobs_to_dead_letter_batch_statement_def P_def [symmetric] moved_def [symmetric] Let_def ks
    by (simp split: sum.splits)
qed

lemma spec_requeue:
  assumes inv: "queue_inv t"
  shows "queue_spec Operator (whereabouts t) (whereabouts (snd (requeue_dead_letter_job_statement s new_id run_at i t)))"
proof (cases "visible_row s (dead_letters t) i")
  case None
  then show ?thesis by (simp add: requeue_dead_letter_job_statement_def)
next
  case (Some d)
  let ?r = "new_job_row (stmt_now s) (dl_task_name d) (dl_payload d) run_at (dl_max_retries d) (dl_timeout_nanos d) (dl_dedupe_key d)"
  have wl: "letters_inv (dead_letters t)" using inv by (simp add: queue_inv_def)
  have "queue_spec Operator (whereabouts t) (whereabouts (t'\<lparr>dead_letters := delete_rows [i] (dead_letters t')\<rparr>))"
    if ins: "insert_job_unless_active new_id ?r t = Inr (True, t')" for t'
    unfolding queue_spec_def
  proof
    fix j
    have t': "t' = t\<lparr>jobs := jobs t @ [(new_id, ?r)]\<rparr>" "new_id \<notin> set (map fst (jobs t))"
      using ins by (auto simp: insert_job_unless_active_def split: if_splits)
    let ?t = "t'\<lparr>dead_letters := delete_rows [i] (dead_letters t')\<rparr>"
    have b: "buried ?t j \<longrightarrow> buried t j" using t' by (auto simp: buried_def delete_rows_def)
    show "whereabouts ?t j = whereabouts t j \<or> life_move Operator (whereabouts t j) (whereabouts ?t j)"
    proof (cases "j = new_id")
      case True
      then have "map_of (jobs t) j = None" using t'(2) by (simp add: map_of_eq_None_iff)
      then have m: "map_of (jobs t') j = Some ?r" using t' True by (simp add: map_add_def)
      have l: "life_of ?r = Waiting" by (simp add: life_of_def new_job_row_def)
      show ?thesis using \<open>map_of (jobs t) j = None\<close> b l
        by (cases "buried t j"; cases "buried ?t j") (auto simp: whereabouts_def m intro: requeued requeued_same)
    next
      case False
      then have m: "map_of (jobs t') j = map_of (jobs t) j" using t' by (simp add: map_add_def split: option.split)
      show ?thesis using b m by (cases "buried t j"; cases "buried ?t j") (auto simp: whereabouts_def intro: letter_removed)
    qed
  qed
  moreover have "t' = t" if "insert_job_unless_active new_id ?r t = Inr (False, t')" for t'
    using that by (auto simp: insert_job_unless_active_def split: if_splits)
  ultimately show ?thesis using Some
    by (auto simp: requeue_dead_letter_job_statement_def split: sum.splits bool.splits)
qed

lemma spec_delete_letter:
  assumes "queue_inv t"
  shows "queue_spec Operator (whereabouts t) (whereabouts (snd (delete_dead_letter_job_statement s i t)))"
  using assms spec_delete_letters [of t Operator "[i]"]
  by (simp add: delete_dead_letter_job_statement_def queue_inv_def split: option.splits)

lemma spec_cleanup_jobs:
  assumes wk: "well_keyed (jobs t)" and st: "status = Completed \<or> status = Failed"
  shows "queue_spec Maintenance (whereabouts t) (whereabouts (snd (cleanup_jobs_statement s status us limit t)))"
proof (cases "timestamp_before (stmt_now s) us")
  case (Inl e)
  then show ?thesis by (simp add: cleanup_jobs_statement_def)
next
  case (Inr cutoff)
  show ?thesis unfolding cleanup_jobs_statement_def Inr sum.case Let_def snd_conv
    by (rule spec_delete)
      (use st selected_key_row [OF wk] in \<open>force simp: life_of_def intro: cleaned\<close>)
qed

lemma spec_cleanup_letters:
  assumes "queue_inv t"
  shows "queue_spec Maintenance (whereabouts t) (whereabouts (snd (cleanup_dead_letters_statement s us limit t)))"
  using assms spec_delete_letters [of t Maintenance]
  by (simp add: cleanup_dead_letters_statement_def queue_inv_def Let_def split: sum.splits)

lemma spec_reclaim_unstarted:
  assumes wk: "well_keyed (jobs t)"
  shows "queue_spec Maintenance (whereabouts t) (whereabouts (snd (reclaim_never_started_statement s us limit t)))"
proof (cases "timestamp_before (stmt_now s) us")
  case (Inl e)
  then show ?thesis by (simp add: reclaim_never_started_statement_def)
next
  case (Inr cutoff)
  show ?thesis unfolding reclaim_never_started_statement_def Inr sum.case Let_def snd_conv
    by (rule spec_update_selected [OF wk]) (simp add: stale_def life_of_def return_to_pending_def reclaimed)
qed

lemma spec_reclaim_expired:
  assumes wk: "well_keyed (jobs t)" and "status = Pending \<or> status = Failed"
  shows "queue_spec Maintenance (whereabouts t)
    (whereabouts (snd (reclaim_expired_statement s budget (expire_row status fin now) us limit t)))"
proof (cases "timestamp_before (stmt_now s) us")
  case (Inl e)
  then show ?thesis by (simp add: reclaim_expired_statement_def)
next
  case (Inr cutoff)
  let ?ks = "select_keys (\<lambda>(k, r). lockable s k \<and> stale cutoff r \<and> has_started r \<and> budget r) heartbeat_order limit (jobs t)"
  have "queue_spec Maintenance (whereabouts t)
      (whereabouts (t\<lparr>jobs := update_rows ?ks (expire_row status fin now) (jobs t)\<rparr>))"
    by (rule spec_update_selected [OF wk])
      (use assms(2) in \<open>auto simp: stale_def life_of_def expire_row_def reclaimed expired\<close>)
  then show ?thesis by (simp add: reclaim_expired_statement_def Inr Let_def)
qed

lemma spec_enqueue:
  assumes "job_status r = Pending"
  shows "queue_spec Producer (whereabouts t) (whereabouts (snd (single_enqueue_statement s i r t)))"
  using assms spec_append [of "[(i, r)]" t Producer] by (simp add: single_enqueue_statement_def split: option.splits)

lemma spec_enqueue_batch:
  assumes "\<And>i r. (i, r) \<in> set rows \<Longrightarrow> job_status r = Pending"
  shows "queue_spec Producer (whereabouts t) (whereabouts (snd (batch_enqueue_statement s name rows t)))"
proof (cases "list_ex (\<lambda>i. i \<in> set (map fst (jobs t))) (map fst rows)")
  case True
  then show ?thesis by (simp add: batch_enqueue_statement_def split: option.splits)
next
  case False
  then have "k \<notin> set (map fst (jobs t)) \<and> job_status r = Pending" if "(k, r) \<in> set rows" for k r
    using that assms by (force simp: list_ex_iff)
  then have "queue_spec Producer (whereabouts t) (whereabouts (t\<lparr>jobs := jobs t @ rows\<rparr>))" by (rule spec_append) simp_all
  then show ?thesis by (simp add: batch_enqueue_statement_def split: option.splits)
qed

lemma spec_enqueue_dedupe:
  assumes "job_status r = Pending"
  shows "queue_spec Producer (whereabouts t) (whereabouts (snd (dedupe_enqueue_statement s i r t)))"
  using assms spec_append [of "[(i, r)]" t Producer]
  by (auto simp: dedupe_enqueue_statement_def insert_job_unless_active_def Let_def split: option.splits)

lemma whereabouts_pause [simp]:
  "whereabouts (upsert_pause_key_statement s k name t) = whereabouts t"
  "whereabouts (delete_pause_key_statement k t) = whereabouts t"
  by (auto simp: whereabouts_def buried_def upsert_pause_key_statement_def delete_pause_key_statement_def Let_def)

text \<open>C1: every statement that writes the queue, run by the party allowed to run it on tables that
  satisfy the schema, leaves the schema satisfied and moves every job along an edge of the abstract life
  cycle or not at all: only the worker that holds a job finishes it, fails it, gives it back or buries it,
  a claim takes waiting jobs only, and a job enters the dead letters once and only by leaving the job table.\<close>

theorem queue_refines_spec:
  assumes "queue_step a t t'" "queue_inv t"
  shows "queue_inv t' \<and> queue_spec a (whereabouts t) (whereabouts t')"
proof -
  have wk: "well_keyed (jobs t)" using assms(2) by (rule queue_inv_well_keyed)
  have "queue_spec a (whereabouts t) (whereabouts t')"
    using assms(1)
  proof cases
    case step_reclaim_failed
    then show ?thesis unfolding reclaim_expired_to_failed_statement_def using spec_reclaim_expired [OF wk] by simp
  next
    case step_reclaim_retry
    then show ?thesis unfolding reclaim_expired_to_pending_statement_def using spec_reclaim_expired [OF wk] by simp
  next
    case (step_enqueue_batch rows s name)
    then show ?thesis using spec_enqueue_batch by blast
  qed (simp_all add: spec_claim [OF wk] spec_worker_updates spec_return_available [OF wk] spec_mark_failed
      spec_schedule_retry spec_move_owned spec_cancel spec_force spec_retry_one spec_retry_many [OF wk]
      spec_move_failed spec_move_batch [OF wk] spec_requeue [OF assms(2)] spec_delete_letter [OF assms(2)]
      spec_cleanup_jobs [OF wk] spec_cleanup_letters [OF assms(2)] spec_reclaim_unstarted [OF wk]
      spec_enqueue spec_enqueue_dedupe)
  then show ?thesis using queue_step_inv [OF assms] by simp
qed

theorem queue_refines_spec_witness:
  "queue_spec (Worker ''w'') (whereabouts small_queue)
     (whereabouts (snd (mark_job_completed_statement (at_time 40) (replicate 16 1) ''w'' small_queue)))
   \<and> whereabouts small_queue (replicate 16 1) = (Some (Held ''w''), False)
   \<and> whereabouts (snd (mark_job_completed_statement (at_time 40) (replicate 16 1) ''w'' small_queue)) (replicate 16 1)
       = (Some Done, False)"
proof (intro conjI)
  show "queue_spec (Worker ''w'') (whereabouts small_queue)
     (whereabouts (snd (mark_job_completed_statement (at_time 40) (replicate 16 1) ''w'' small_queue)))"
    by (rule queue_refines_spec [OF step_completed small_queue_inv, THEN conjunct2])
qed code_simp+

end
