(* ===== verification/QueueClaim.thy ===== *)
theory QueueClaim
  imports QueueLifecycle
begin

text \<open>
  What the queue promises its workers and producers: rows of reachable tables decode, claims take
  the earliest due jobs and only those, a held job is left alone by everybody else, a lost job can
  no longer be changed, and an enqueue under a dedupe key finds or makes the one active job.
\<close>

section \<open>Rows within the checks decode\<close>

definition job_view :: "bytes \<Rightarrow> job_row \<Rightarrow> job" where
  "job_view k r = \<lparr>id_of_job = SortableId k, task_name = job_task_name r, payload_json = job_payload r,
     status_of_job = job_status r, run_at_or_after = job_run_at_or_after r, last_error = job_last_error r,
     retry_count = nat (job_retry_count r), max_retries = nat (job_max_retries r),
     timeout = (if job_timeout_nanos r = -1 then NoTimeout else if job_timeout_nanos r = 0 then WorkerDefault
                else ExpiresAfter (nat (job_timeout_nanos r))),
     dedupe_key = job_dedupe_key r, runtime_of_job = job_runtime r,
     created_at = job_created_at r, updated_at = job_updated_at r\<rparr>"

lemma job_status_round_trip [simp]: "job_status_parse (job_status_as_str st) = Inr st"
  by (cases st) (simp_all add: job_status_parse_def)

lemma dead_letter_reason_round_trip [simp]: "dead_letter_reason_parse (dead_letter_reason_as_str x) = Inr x"
  by (cases x) (simp_all add: dead_letter_reason_parse_def)

lemma id_decodes: "length k = SORTABLE_ID_SIZE \<Longrightarrow> queue_id_from_bytes k = Inr (SortableId k)"
  by (simp add: queue_id_from_bytes_def from_bytes_def)

lemma worker_text_valid: "worker_text_constraint w \<Longrightarrow> validate_worker_owner_id w = Inr ()"
  by (auto simp: worker_text_constraint_def validate_worker_owner_id_def)

lemma job_row_decodes:
  assumes "length k = SORTABLE_ID_SIZE" "job_row_ok r"
  shows "queue_job_from_row (k, r) = Inr (job_view k r)"
  using assms
  by (auto simp: queue_job_from_row_def job_view_def id_decodes job_row_ok_def numeric_constraint_def
      retry_count_from_persisted_i32_def max_retries_from_persisted_i32_def timeout_from_persisted_nanos_def
      worker_owner_id_from_validated_text_def worker_text_valid split: option.splits)

lemma dead_letter_row_decodes:
  assumes "length k = SORTABLE_ID_SIZE" "dead_letter_row_ok d"
  shows "\<exists>x. queue_dead_letter_job_from_row (k, d) = Inr x \<and> id_bytes (id_of_dead_letter x) = k
    \<and> id_bytes (original_job_id x) = dl_original_job_id d \<and> reason_of_dead_letter x = dl_reason d"
  using assms
  by (auto simp: queue_dead_letter_job_from_row_def id_decodes dead_letter_row_ok_def numeric_constraint_def
      retry_count_from_persisted_i32_def max_retries_from_persisted_i32_def timeout_from_persisted_nanos_def)

text \<open>C21: no run of workers, producers, operators and maintenance from empty tables ever breaks a check or
  a unique index of the schema, and every row such a run can reach decodes: the row errors of the store
  (unknown status or reason, negative counters, malformed identifiers) are unreachable through the queue itself.\<close>

theorem reachable_rows_decode:
  assumes "queue_run as empty_queue t"
  shows "queue_inv t
    \<and> (\<forall>(k, r) \<in> set (jobs t). queue_job_from_row (k, r) = (Inr (job_view k r) :: 'a queue_error + job))
    \<and> (\<forall>(k, d) \<in> set (dead_letters t). is_ok (queue_dead_letter_job_from_row (k, d) :: 'a queue_error + dead_letter_job))"
proof -
  have inv: "queue_inv t" using queue_run_inv [OF assms empty_queue_inv] .
  have "queue_job_from_row (k, r) = (Inr (job_view k r) :: 'a queue_error + job)" if "(k, r) \<in> set (jobs t)" for k r
    using inv that jobs_inv_in job_row_decodes unfolding queue_inv_def by blast
  moreover have "is_ok (queue_dead_letter_job_from_row (k, d) :: 'a queue_error + dead_letter_job)" if "(k, d) \<in> set (dead_letters t)" for k d
  proof -
    have "length k = SORTABLE_ID_SIZE" "dead_letter_row_ok d"
      using inv that unfolding queue_inv_def letters_inv_def by blast+
    then obtain x where "queue_dead_letter_job_from_row (k, d) = (Inr x :: 'a queue_error + dead_letter_job)"
      using dead_letter_row_decodes by blast
    then show ?thesis by simp
  qed
  ultimately show ?thesis using inv by blast
qed

theorem reachable_rows_decode_witness:
  "queue_job_from_row (replicate 16 0, waiting_job\<lparr>job_dedupe_key := None\<rparr>)
     = (Inr (job_view (replicate 16 0) (waiting_job\<lparr>job_dedupe_key := None\<rparr>)) :: unit queue_error + job)"
proof -
  let ?t = "snd (single_enqueue_statement (at_time 5) (replicate 16 0) (waiting_job\<lparr>job_dedupe_key := None\<rparr>) empty_queue)"
  have ok: "job_row_ok (waiting_job\<lparr>job_dedupe_key := None\<rparr>)"
    and st: "job_status (waiting_job\<lparr>job_dedupe_key := None\<rparr>) = Pending" "job_dedupe_key (waiting_job\<lparr>job_dedupe_key := None\<rparr>) = None"
    and len: "length (replicate 16 0 :: bytes) = SORTABLE_ID_SIZE"
    and row: "(replicate 16 0, waiting_job\<lparr>job_dedupe_key := None\<rparr>) \<in> set (jobs ?t)" by code_simp+
  show ?thesis
    using reachable_rows_decode [OF run_step [OF run_done step_enqueue [OF len ok st]], of "at_time 5"] row by blast
qed

section \<open>Claims\<close>

text \<open>C16: a claim returns without error at most the asked number of distinct jobs, each of which was
  pending, due, unpaused, of a named task and unlocked, is now running under the worker, and is returned as the
  table holds it; no job left behind was due earlier; if fewer than the limit came back nothing was left behind;
  and every other row is untouched.\<close>

theorem claims_are_exclusive_and_ordered:
  assumes inv: "queue_inv t" and w: "worker_text_constraint w" and names: "names \<noteq> []"
    and run: "claim_available_jobs_with_executor s names limit w t = (res, t')"
  shows "\<exists>js. res = Inr js \<and> length js \<le> limit \<and> distinct (map id_of_job js)
    \<and> (\<forall>j \<in> set js. \<exists>r. map_of (jobs t) (id_bytes (id_of_job j)) = Some r
         \<and> claimable s names t (id_bytes (id_of_job j), r) \<and> lockable s (id_bytes (id_of_job j))
         \<and> map_of (jobs t') (id_bytes (id_of_job j)) = Some (claim_row (stmt_now s) w r)
         \<and> j = job_view (id_bytes (id_of_job j)) (claim_row (stmt_now s) w r)
         \<and> (\<forall>k q. map_of (jobs t) k = Some q \<longrightarrow> claimable s names t (k, q) \<longrightarrow> lockable s k
              \<longrightarrow> k \<notin> id_bytes ` id_of_job ` set js
              \<longrightarrow> (job_run_at_or_after r, id_bytes (id_of_job j)) \<le> (job_run_at_or_after q, k)))
    \<and> (length js < limit \<longrightarrow> (\<forall>k q. map_of (jobs t) k = Some q \<longrightarrow> claimable s names t (k, q)
         \<longrightarrow> lockable s k \<longrightarrow> k \<in> id_bytes ` id_of_job ` set js))
    \<and> (\<forall>k. k \<notin> id_bytes ` id_of_job ` set js \<longrightarrow> map_of (jobs t') k = map_of (jobs t) k)"
proof -
  define P where "P = (\<lambda>row. lockable s (fst row) \<and> claimable s names t row)"
  define ks where "ks = select_keys P (\<lambda>(k, r). (job_run_at_or_after r, k)) limit (jobs t)"
  define js where "js = update_rows ks (claim_row (stmt_now s) w) (jobs t)"
  define out where "out = map (\<lambda>(k, r). job_view k r) (rows_of ks js)"
  note wk = queue_inv_well_keyed [OF inv]
  have inv': "queue_inv (t\<lparr>jobs := js\<rparr>)"
    using queue_inv_claim [OF inv w, of s names limit]
    by (simp add: claim_available_jobs_statement_def Let_def P_def ks_def js_def)
  have in_rows: "(k, q) \<in> set (rows_of ks js) \<longleftrightarrow>
      k \<in> set ks \<and> (\<exists>r. map_of (jobs t) k = Some r \<and> q = claim_row (stmt_now s) w r)" for k q
    using wk by (auto simp: rows_of_def js_def in_update_rows in_table_iff)
  have "queue_job_from_row x = Inr (case x of (k, r) \<Rightarrow> job_view k r)" if "x \<in> set (rows_of ks js)" for x
  proof -
    have "x \<in> set js" using that by (auto simp: rows_of_def)
    then have "length (fst x) = SORTABLE_ID_SIZE \<and> job_row_ok (snd x)"
      using inv' jobs_inv_in [of js "fst x" "snd x"] by (simp add: queue_inv_def)
    then show ?thesis by (cases x) (simp add: job_row_decodes)
  qed
  then have dec: "collect_results (map queue_job_from_row (rows_of ks js)) = Inr out"
    unfolding out_def by (rule collect_results_all)
  have eq: "res = Inr out" "t' = t\<lparr>jobs := js\<rparr>"
    using run names dec
    by (auto simp: claim_available_jobs_with_executor_def claim_available_jobs_statement_def read_answer_def ok_answer_def
        Let_def P_def [symmetric] ks_def [symmetric] js_def [symmetric])
  have ids: "map (id_bytes \<circ> id_of_job) out = map fst (rows_of ks js)"
    by (auto simp: out_def job_view_def)
  have keys: "id_bytes ` id_of_job ` set out = set ks"
  proof -
    have "id_bytes ` id_of_job ` set out = fst ` set (rows_of ks js)"
      using arg_cong [OF ids, of set] by (simp add: image_image)
    moreover have "fst ` set (rows_of ks js) = set ks"
    proof
      show "fst ` set (rows_of ks js) \<subseteq> set ks" by (auto simp: rows_of_def)
      show "set ks \<subseteq> fst ` set (rows_of ks js)"
      proof
        fix k assume k: "k \<in> set ks"
        then obtain r where "map_of (jobs t) k = Some r" using select_keys_subset [OF wk] unfolding ks_def by blast
        then have "(k, claim_row (stmt_now s) w r) \<in> set (rows_of ks js)" using k in_rows by blast
        then show "k \<in> fst ` set (rows_of ks js)" by force
      qed
    qed
    ultimately show ?thesis by simp
  qed
  have wkr: "well_keyed (rows_of ks js)"
    using wk unfolding well_keyed_def rows_of_def js_def by (auto intro: distinct_map_filter simp: fst_update_rows)
  have dist: "distinct (map (id_bytes \<circ> id_of_job) out)" unfolding ids using wkr by (simp add: well_keyed_def)
  then have dist2: "distinct (map id_of_job out)" by (metis distinct_map map_map)
  have "length out = card (set ks)"
    using dist keys by (metis distinct_card image_comp length_map list.set_map)
  also have "\<dots> = length ks" by (rule distinct_card) (unfold ks_def, rule select_keys_distinct [OF wk])
  finally have len: "length out = length ks" .
  have rest: "\<exists>r. map_of (jobs t) k = Some r \<and> claimable s names t (k, r) \<and> lockable s k
         \<and> map_of js k = Some (claim_row (stmt_now s) w r) \<and> j = job_view k (claim_row (stmt_now s) w r)
         \<and> (\<forall>k' q. map_of (jobs t) k' = Some q \<longrightarrow> claimable s names t (k', q) \<longrightarrow> lockable s k' \<longrightarrow> k' \<notin> set ks
              \<longrightarrow> (job_run_at_or_after r, k) \<le> (job_run_at_or_after q, k'))"
    if j: "j \<in> set out" "k = id_bytes (id_of_job j)" for j k
  proof -
    from j(1) obtain k' q where q': "(k', q) \<in> set (rows_of ks js)" "j = job_view k' q" by (auto simp: out_def)
    then have "k = k'" using j(2) by (simp add: job_view_def)
    then have q: "(k, q) \<in> set (rows_of ks js)" "j = job_view k q" using q' by blast+
    then obtain r where r: "k \<in> set ks" "map_of (jobs t) k = Some r" "q = claim_row (stmt_now s) w r"
      using in_rows by blast
    have "P (k, r)" by (rule selected_key_row [OF wk r(1) [unfolded ks_def] r(2)])
    moreover have "(job_run_at_or_after r, k) \<le> (job_run_at_or_after q', k')"
      if "map_of (jobs t) k' = Some q'" "P (k', q')" "k' \<notin> set ks" for k' q'
      using select_keys_first [OF wk r(1) [unfolded ks_def] r(2) that(1,2) that(3) [unfolded ks_def]] by simp
    ultimately show ?thesis
      unfolding q(2) r(3) using r(1,2) by (simp add: P_def js_def map_of_update_rows)
  qed
  have all: "k \<in> set ks" if "length ks < limit" "map_of (jobs t) k = Some q" "P (k, q)" for k q
    using select_keys_unlimited [where P = P, OF wk, of "\<lambda>(k, r). (job_run_at_or_after r, k)" limit k q] that
    unfolding ks_def by blast
  show ?thesis
  proof (intro exI [of _ out] conjI)
    show "\<forall>k. k \<notin> id_bytes ` id_of_job ` set out \<longrightarrow> map_of (jobs t') k = map_of (jobs t) k"
      unfolding keys eq by (simp add: js_def map_of_update_rows)
    show "length out \<le> limit" unfolding len ks_def by (simp add: select_keys_length)
    show "res = Inr out" by (rule eq(1))
    show "distinct (map id_of_job out)" by (rule dist2)
    show "length out < limit \<longrightarrow> (\<forall>k q. map_of (jobs t) k = Some q \<longrightarrow> claimable s names t (k, q)
         \<longrightarrow> lockable s k \<longrightarrow> k \<in> id_bytes ` id_of_job ` set out)"
      unfolding keys len using all by (simp add: P_def)
    show "\<forall>j \<in> set out. \<exists>r. map_of (jobs t) (id_bytes (id_of_job j)) = Some r
         \<and> claimable s names t (id_bytes (id_of_job j), r) \<and> lockable s (id_bytes (id_of_job j))
         \<and> map_of (jobs t') (id_bytes (id_of_job j)) = Some (claim_row (stmt_now s) w r)
         \<and> j = job_view (id_bytes (id_of_job j)) (claim_row (stmt_now s) w r)
         \<and> (\<forall>k q. map_of (jobs t) k = Some q \<longrightarrow> claimable s names t (k, q) \<longrightarrow> lockable s k
              \<longrightarrow> k \<notin> id_bytes ` id_of_job ` set out
              \<longrightarrow> (job_run_at_or_after r, id_bytes (id_of_job j)) \<le> (job_run_at_or_after q, k))"
      unfolding keys using rest [OF _ refl] by (simp add: eq(2))
  qed
qed

theorem claims_are_exclusive_and_ordered_witness:
  "\<exists>js. (claim_available_jobs_with_executor (at_time 40) [''mail''] 5 ''v'' small_queue
       :: (unit queue_error + job list) \<times> queue_tables) = (Inr js, snd (claim_available_jobs_statement (at_time 40) [''mail''] 5 ''v'' small_queue))
     \<and> map (id_bytes \<circ> id_of_job) js = [replicate 16 0]"
proof -
  let ?run = "claim_available_jobs_with_executor (at_time 40) [''mail''] 5 ''v'' small_queue :: (unit queue_error + job list) \<times> queue_tables"
  have w: "worker_text_constraint ''v''" by code_simp
  obtain js where js: "fst ?run = Inr js" "distinct (map id_of_job js)"
    using claims_are_exclusive_and_ordered [OF small_queue_inv w _ prod.collapse [symmetric], where names = "[''mail'']"] by blast
  have "map_sum id (map (id_bytes \<circ> id_of_job)) (fst ?run) = Inr [replicate 16 0]
     \<and> snd ?run = snd (claim_available_jobs_statement (at_time 40) [''mail''] 5 ''v'' small_queue)" by code_simp
  then show ?thesis using js(1) by (metis map_sum.simps(2) prod.collapse sum.inject(2))
qed

section \<open>Held and lost jobs\<close>

lemma owned_update_spares:
  assumes "map_of (jobs t) i = Some r" "owned_running w r" "v \<noteq> w"
  shows "map_of (jobs (snd (owned_update s extra f j v t))) i = Some r"
proof -
  obtain res t' where u: "owned_update s extra f j v t = (res, t')" by fastforce
  show ?thesis using owned_update_cases [OF u] assms by (auto simp: u map_of_update_rows owned_running_def)
qed

lemma bury_spares:
  assumes "insert_dead_letter new_id d (t\<lparr>jobs := delete_rows [j] (jobs t)\<rparr>) = Inr t'" "i \<noteq> j"
  shows "map_of (jobs t') i = map_of (jobs t) i"
  using insert_dead_letter_keeps [OF assms(1)] assms(2) by (simp add: map_of_delete_rows)

lemma foreign_worker_spares:
  assumes step: "queue_step (Worker v) t t'" and inv: "queue_inv t"
    and row: "map_of (jobs t) i = Some r" "owned_running w r" and other: "v \<noteq> w"
  shows "map_of (jobs t') i = Some r"
  using step
proof cases
  case (step_claim s names limit)
  let ?ks = "select_keys (\<lambda>row. lockable s (fst row) \<and> claimable s names t row) (\<lambda>(k, r). (job_run_at_or_after r, k)) limit (jobs t)"
  have "i \<notin> set ?ks"
  proof
    assume "i \<in> set ?ks"
    from selected_key_row [OF queue_inv_well_keyed [OF inv] this row(1)] row(2) show False
      by (simp add: claimable_def owned_running_def)
  qed
  then show ?thesis using row(1) unfolding step_claim claim_available_jobs_statement_def Let_def
    by (simp add: map_of_update_rows)
next
  case (step_return_available s started)
  let ?ks = "map fst (filter (\<lambda>(k, r). lockable s k \<and> owned_running v r \<and> started r) (jobs t))"
  have "i \<notin> set ?ks"
  proof
    assume "i \<in> set ?ks"
    from filtered_key_row [OF queue_inv_well_keyed [OF inv] this row(1)] row(2) other show False
      by (simp add: owned_running_def)
  qed
  then show ?thesis using row(1) unfolding step_return_available return_available_owned_statement_def Let_def
    by (simp add: map_of_update_rows)
next
  case (step_bury new_id s message increment reason j)
  show ?thesis
  proof (cases "visible_row s (jobs t) j")
    case None
    then show ?thesis using row step_bury by (simp add: move_owned_running_job_to_dead_letter_statement_def)
  next
    case (Some q)
    then have q: "map_of (jobs t) j = Some q" by (simp add: visible_row_def split: if_splits)
    have "i \<noteq> j" if "owned_running v q" using that q row other by (auto simp: owned_running_def)
    then show ?thesis using Some row(1) bury_spares
      by (auto simp: step_bury move_owned_running_job_to_dead_letter_statement_def split: sum.splits)
  qed
next
  case (step_failed s message increment j)
  then show ?thesis using row owned_update_spares [OF row other]
    by (simp add: mark_job_failed_statement_def split_beta)
next
  case (step_retry_later n s us message j)
  then show ?thesis using row owned_update_spares [OF row other]
    by (simp add: schedule_owned_running_job_retry_statement_def Let_def split_beta)
qed (simp_all add: mark_job_started_statement_def mark_job_completed_statement_def touch_execution_heartbeat_statement_def
      return_owned_unstarted_statement_def return_owned_started_statement_def owned_update_spares [OF row other])

lemma append_spares: "map_of t i = Some r \<Longrightarrow> i \<notin> fst ` set rows \<Longrightarrow> map_of (t @ rows) i = Some r"
  by (simp add: map_add_Some_iff map_of_eq_None_iff)

lemma producer_spares:
  assumes step: "queue_step Producer t t'" and row: "map_of (jobs t) i = Some r"
  shows "map_of (jobs t') i = Some r"
proof -
  have i: "i \<in> set (map fst (jobs t))" using row by (metis list.set_map map_of_eq_None_iff option.distinct(1))
  from step show ?thesis
  proof cases
    case (step_enqueue k q s)
    then show ?thesis using row i by (auto simp: single_enqueue_statement_def intro: append_spares split: option.splits)
  next
    case (step_enqueue_batch rows s name)
    have "i \<notin> fst ` set rows" if "\<not> list_ex (\<lambda>i. i \<in> set (map fst (jobs t))) (map fst rows)"
      using that i unfolding list_ex_iff set_map by blast
    then show ?thesis unfolding step_enqueue_batch using row
      by (auto simp: batch_enqueue_statement_def intro: append_spares split: option.splits)
  next
    case (step_enqueue_dedupe k q s)
    then show ?thesis using row i
      by (auto simp: dedupe_enqueue_statement_def insert_job_unless_active_def Let_def intro: append_spares
          split: option.splits)
  qed simp_all
qed

text \<open>C17: while a worker holds a job, no sequence of steps of other workers and of producers, of any length
  and in any order, changes the row of that job.\<close>

theorem held_jobs_are_exclusive:
  assumes "queue_run as t t'" "queue_inv t"
    and "map_of (jobs t) i = Some r" "owned_running w r"
    and "\<forall>a \<in> set as. a = Producer \<or> (\<exists>v. a = Worker v \<and> v \<noteq> w)"
  shows "map_of (jobs t') i = Some r"
  using assms
proof (induction rule: queue_run.induct)
  case (run_step as t t' a t'')
  have "map_of (jobs t') i = Some r" using run_step by simp
  moreover have "queue_inv t'" using queue_run_inv [OF run_step.hyps(1)] run_step.prems(1) .
  moreover have "a = Producer \<or> (\<exists>v. a = Worker v \<and> v \<noteq> w)" using run_step.prems(4) by simp
  ultimately show ?case
    using run_step.hyps(2) run_step.prems(3) producer_spares foreign_worker_spares by blast
qed

theorem held_jobs_are_exclusive_witness:
  "map_of (jobs (snd (mark_job_completed_statement (at_time 40) (replicate 16 1) ''v'' small_queue))) (replicate 16 1) = Some held_job"
proof (rule held_jobs_are_exclusive [OF run_step [OF run_done step_completed] small_queue_inv, where w = "''w''"])
  show "map_of (jobs small_queue) (replicate 16 1) = Some held_job" "owned_running ''w'' held_job" by code_simp+
qed simp

lemma owned_update_lost:
  assumes "\<forall>r. map_of (jobs t) i = Some r \<longrightarrow> \<not> owned_running w r"
  shows "owned_update s extra f i w t = (TRANSITION_OUTCOME_NOT_FOUND, t)
    \<or> owned_update s extra f i w t = (TRANSITION_OUTCOME_STATE_MISMATCH, t)"
  using assms by (auto simp: owned_update_def visible_row_def transition_outcome_def Let_def split: option.splits)

lemmas outcome_defs = TRANSITION_OUTCOME_APPLIED_def TRANSITION_OUTCOME_NOT_FOUND_def
  TRANSITION_OUTCOME_STATE_MISMATCH_def TRANSITION_OUTCOME_DEDUPE_CONFLICT_def TRANSITION_OUTCOME_LOCKED_def

lemma execute_owned_lost:
  assumes "\<forall>r. map_of (jobs t) (id_bytes i) = Some r \<longrightarrow> \<not> owned_running w r"
  shows "execute_owned_running_job_update operation (owned_update s extra f) i w t = (Inl (QueueState JobNotRunning), t)"
  using owned_update_lost [OF assms, where s = s and extra = extra and f = f]
  by (auto simp: execute_owned_running_job_update_def ok_answer_def read_answer_def
      owned_running_job_update_result_from_outcome_def outcome_defs)

text \<open>C12: a worker that does not hold a job (it was reclaimed, finished, given to another worker or
  deleted) is answered \<open>JobNotRunning\<close> by every transition it can ask for (start, complete, heartbeat, both
  returns, fail, retry later, bury), and none of them changes the tables.\<close>

theorem lost_jobs_cannot_be_changed:
  assumes lost: "\<forall>r. map_of (jobs t) (id_bytes i) = Some r \<longrightarrow> \<not> owned_running w r"
  shows "execute_owned_running_job_update operation (mark_job_started_statement s) i w t = (Inl (QueueState JobNotRunning), t)
    \<and> execute_owned_running_job_update operation (mark_job_completed_statement s) i w t = (Inl (QueueState JobNotRunning), t)
    \<and> execute_owned_running_job_update operation (touch_execution_heartbeat_statement s) i w t = (Inl (QueueState JobNotRunning), t)
    \<and> execute_owned_running_job_update operation (return_owned_unstarted_statement s) i w t = (Inl (QueueState JobNotRunning), t)
    \<and> execute_owned_running_job_update operation (return_owned_started_statement s) i w t = (Inl (QueueState JobNotRunning), t)
    \<and> execute_mark_owned_running_job_failed s i w message increment t = (Inl (QueueState JobNotRunning), t)
    \<and> schedule_owned_running_job_retry_with_executor s i w n us message t = (Inl (QueueState JobNotRunning), t)
    \<and> move_owned_running_job_to_dead_letter_with_executor s (Inr dead) i w message increment reason t
           = (Inl (QueueState JobNotRunning), t)"
proof -
  have failed: "execute_mark_owned_running_job_failed s i w message increment t = (Inl (QueueState JobNotRunning), t)"
    using owned_update_lost [OF lost, where s = s and extra = "\<lambda>r. True" and f = "\<lambda>r. r\<lparr>job_status := Failed, job_last_error := Some message,
            job_retry_count := retry_count_plus increment r, job_runtime := no_runtime (Some (stmt_now s)),
            job_updated_at := stmt_now s\<rparr>"]
    by (auto simp: execute_mark_owned_running_job_failed_def mark_job_failed_statement_def read_answer_def
        owned_running_job_update_result_from_outcome_def outcome_defs)
  have later: "schedule_owned_running_job_retry_with_executor s i w n us message t = (Inl (QueueState JobNotRunning), t)"
    using owned_update_lost [OF lost, where s = s and extra = "\<lambda>r. True" and f = "\<lambda>r. r\<lparr>job_status := Pending, job_retry_count := n,
            job_run_at_or_after := stmt_now s + us, job_last_error := Some message,
            job_runtime := no_runtime None, job_updated_at := stmt_now s\<rparr>"]
    by (auto simp: schedule_owned_running_job_retry_with_executor_def schedule_owned_running_job_retry_statement_def
        read_answer_def schedule_owned_running_job_retry_result_from_outcome_def Let_def outcome_defs)
  have dead: "move_owned_running_job_to_dead_letter_with_executor s (Inr dead) i w message increment reason t
           = (Inl (QueueState JobNotRunning), t)"
    using lost by (auto simp: move_owned_running_job_to_dead_letter_with_executor_def
        move_owned_running_job_to_dead_letter_statement_def read_answer_def visible_row_def transition_outcome_def
        move_owned_running_job_to_dead_letter_result_from_outcome_def outcome_defs split: option.splits)
  show ?thesis
    unfolding mark_job_started_statement_def mark_job_completed_statement_def touch_execution_heartbeat_statement_def
      return_owned_unstarted_statement_def return_owned_started_statement_def
    using failed later dead by (simp add: execute_owned_lost [OF lost])
qed

theorem lost_jobs_cannot_be_changed_witness:
  "(execute_owned_running_job_update ''complete'' (mark_job_completed_statement (at_time 40)) (SortableId (replicate 16 1)) ''v'' small_queue
      :: (unit queue_error + unit) \<times> queue_tables) = (Inl (QueueState JobNotRunning), small_queue)"
proof (rule lost_jobs_cannot_be_changed [THEN conjunct2, THEN conjunct1])
  show "\<forall>r. map_of (jobs small_queue) (id_bytes (SortableId (replicate 16 1))) = Some r \<longrightarrow> \<not> owned_running ''v'' r"
  proof -
    have "map_of (jobs small_queue) (id_bytes (SortableId (replicate 16 1))) = Some held_job" "\<not> owned_running ''v'' held_job"
      by code_simp+
    then show ?thesis by simp
  qed
qed

end
