(* ===== verification/QueueEnqueue.thy ===== *)
theory QueueEnqueue
  imports QueueClaim
begin

text \<open>
  Enqueueing under a dedupe key: the attempts of \<open>execute_dedupe_enqueue\<close> end with the one active
  job of that key, and paused queues and tasks take nothing.
\<close>

section \<open>One attempt\<close>

definition active_under :: "string \<Rightarrow> string option \<Rightarrow> bytes \<times> job_row \<Rightarrow> bool" where
  "active_under name key row \<longleftrightarrow> is_active (snd row) \<and> same_dedupe name key (snd row)"

lemma prepared_row_retry [simp]: "prepared_row s (p\<lparr>prepared_job_id := i\<rparr>) = prepared_row s p"
  by (simp add: prepared_row_def)

lemma prepared_row_names [simp]:
  "job_task_name (prepared_row s p) = prepared_task_name p" "job_dedupe_key (prepared_row s p) = prepared_dedupe_key p"
  by (simp_all add: prepared_row_def new_job_row_def)

lemmas enqueue_outcome_defs = ENQUEUE_OUTCOME_INSERTED_def ENQUEUE_OUTCOME_NOT_INSERTED_def
  ENQUEUE_OUTCOME_QUEUE_PAUSED_def ENQUEUE_OUTCOME_TASK_PAUSED_def

lemma find_active:
  "map_option fst (find (\<lambda>(j, q). j \<notin> H \<and> is_active q \<and> same_dedupe name key q) js) = Some k
     \<Longrightarrow> \<exists>q. (k, q) \<in> set js \<and> k \<notin> H \<and> active_under name key (k, q)"
  by (auto simp: find_Some_iff active_under_def) (metis nth_mem)

lemma find_none_active:
  "find (\<lambda>(j, q). j \<notin> H \<and> is_active q \<and> same_dedupe name key q) js = None
     \<Longrightarrow> (k, q) \<in> set js \<Longrightarrow> active_under name key (k, q) \<Longrightarrow> k \<in> H"
  by (auto simp: find_None_iff active_under_def)

text \<open>What one attempt does to the tables, for every answer.\<close>

lemma dedupe_attempt_cases:
  assumes run: "dedupe_enqueue_statement s i (prepared_row s p) t = (ans, t')"
  obtains (failed) e where "ans = Inl e" "t' = t"
  | (paused) x existing where "ans = Inr (None, existing, x)" "t' = t"
      "x = ENQUEUE_OUTCOME_QUEUE_PAUSED \<or> x = ENQUEUE_OUTCOME_TASK_PAUSED"
      "pause_outcome (prepared_task_name p) t = Some x"
  | (existing) k q where "ans = Inr (None, Some k, ENQUEUE_OUTCOME_NOT_INSERTED)" "t' = t"
      "(k, q) \<in> set (jobs t)" "active_under (prepared_task_name p) (prepared_dedupe_key p) (k, q)"
  | (invisible) k q where "ans = Inr (None, None, ENQUEUE_OUTCOME_NOT_INSERTED)" "t' = t"
      "(k, q) \<in> set (jobs t)" "active_under (prepared_task_name p) (prepared_dedupe_key p) (k, q)" "k \<in> stmt_hidden s"
  | (inserted) "ans = Inr (Some i, None, ENQUEUE_OUTCOME_INSERTED)" "t' = t\<lparr>jobs := jobs t @ [(i, prepared_row s p)]\<rparr>"
      "i \<notin> set (map fst (jobs t))" "\<And>row. row \<in> set (jobs t) \<Longrightarrow> \<not> active_under (prepared_task_name p) (prepared_dedupe_key p) row"
      "pause_outcome (prepared_task_name p) t = None"
proof -
  let ?f = "find (\<lambda>(j, q). j \<notin> stmt_hidden s \<and> is_active q
      \<and> same_dedupe (prepared_task_name p) (prepared_dedupe_key p) q) (jobs t)"
  let ?any = "list_ex (\<lambda>(j, q). is_active q \<and> same_dedupe (prepared_task_name p) (prepared_dedupe_key p) q) (jobs t)"
  note run' = run [unfolded dedupe_enqueue_statement_def Let_def prepared_row_names]
  show thesis
  proof (cases "pause_outcome (prepared_task_name p) t")
    case (Some x)
    then have "x = ENQUEUE_OUTCOME_QUEUE_PAUSED \<or> x = ENQUEUE_OUTCOME_TASK_PAUSED"
      by (auto simp: pause_outcome_def split: if_splits)
    moreover have "ans = Inr (None, map_option fst ?f, x)" "t' = t" using run' Some by auto
    ultimately show thesis using paused Some by blast
  next
    case None
    show thesis
    proof (cases ?any)
      case True
      then obtain k q where q: "(k, q) \<in> set (jobs t)" "active_under (prepared_task_name p) (prepared_dedupe_key p) (k, q)"
        by (auto simp: list_ex_iff active_under_def)
      have a: "ans = Inr (None, map_option fst ?f, ENQUEUE_OUTCOME_NOT_INSERTED)" "t' = t"
        using run' None True by (auto simp: insert_job_unless_active_def)
      show thesis
      proof (cases "map_option fst ?f")
        case None
        then have none: "?f = None" by simp
        have hidden: "k \<in> stmt_hidden s" by (rule find_none_active [OF none q])
        have "ans = Inr (None, None, ENQUEUE_OUTCOME_NOT_INSERTED)" using a(1) None by simp
        from invisible [OF this a(2) q hidden] show thesis .
      next
        case (Some j)
        obtain q' where "(j, q') \<in> set (jobs t)" "active_under (prepared_task_name p) (prepared_dedupe_key p) (j, q')"
          using find_active [OF Some] by blast
        moreover have "ans = Inr (None, Some j, ENQUEUE_OUTCOME_NOT_INSERTED)" using a(1) Some by simp
        ultimately show thesis using existing a(2) by blast
      qed
    next
      case False
      then have free: "\<not> active_under (prepared_task_name p) (prepared_dedupe_key p) row" if "row \<in> set (jobs t)" for row
        using that unfolding list_ex_iff active_under_def by fastforce
      show thesis
      proof (cases "i \<in> set (map fst (jobs t))")
        case True
        then show thesis using failed run' None False by (auto simp: insert_job_unless_active_def)
      next
        case fresh: False
        have "?f = None" using free by (auto simp: find_None_iff active_under_def)
        then have "ans = Inr (Some i, None, ENQUEUE_OUTCOME_INSERTED)" "t' = t\<lparr>jobs := jobs t @ [(i, prepared_row s p)]\<rparr>"
          using run' None False fresh by (auto simp: insert_job_unless_active_def)
        then show thesis using inserted free fresh None by blast
      qed
    qed
  qed
qed

section \<open>A request\<close>

definition small_request :: prepared_enqueue where
  "small_request = \<lparr>prepared_job_id = SortableId (replicate 16 7), prepared_task_name = ''mail'', prepared_payload_json = ''{}'',
     prepared_run_at = Some 60, prepared_max_retries = 3, prepared_timeout_nanos = 0, prepared_dedupe_key = Some ''k2''\<rparr>"

lemma small_request_ok: "job_row_ok (prepared_row s small_request)"
proof -
  have "prepared_row s small_request = (prepared_row (at_time 0) small_request)
      \<lparr>job_created_at := stmt_now s, job_updated_at := stmt_now s\<rparr>"
    by (simp add: prepared_row_def new_job_row_def small_request_def epoch_plus_def)
  moreover have "job_row_ok (r\<lparr>job_created_at := a, job_updated_at := b\<rparr>) = job_row_ok r" for r a b
    by (simp add: job_row_ok_def job_lifecycle_constraint_def)
  moreover have "job_row_ok (prepared_row (at_time 0) small_request)" by code_simp
  ultimately show ?thesis by simp
qed

section \<open>All attempts\<close>

definition dedupe_enqueue_done :: "nat \<Rightarrow> nat \<Rightarrow> (nat \<Rightarrow> stmt) \<Rightarrow> prepared_enqueue \<Rightarrow> queue_tables
     \<Rightarrow> enqueue_result \<Rightarrow> queue_tables \<Rightarrow> bool" where
  "dedupe_enqueue_done n m s p t r t' \<longleftrightarrow>
     (if deduplicated r
      then t' = t \<and> list_ex (\<lambda>row. fst row = id_bytes (enqueued_job_id r)
             \<and> active_under (prepared_task_name p) (prepared_dedupe_key p) row) (jobs t)
      else list_ex (\<lambda>k. t' = t\<lparr>jobs := jobs t @ [(id_bytes (enqueued_job_id r), prepared_row (s k) p)]\<rparr>) [n..<m]
        \<and> id_bytes (enqueued_job_id r) \<notin> set (map fst (jobs t))
        \<and> list_all (\<lambda>row. \<not> active_under (prepared_task_name p) (prepared_dedupe_key p) row) (jobs t))"

lemma dedupe_enqueue_done_later:
  "dedupe_enqueue_done (n + 1) m s (p\<lparr>prepared_job_id := i\<rparr>) t r t' \<Longrightarrow> dedupe_enqueue_done n m s p t r t'"
  by (auto simp: dedupe_enqueue_done_def list_ex_iff split: if_splits)

lemma dedupe_attempts_result:
  assumes "dedupe_enqueue_attempts s new_id n left p t = (res, t')"
    and "length (id_bytes (prepared_job_id p)) = SORTABLE_ID_SIZE"
    and "\<And>k i. new_id k = Inr i \<Longrightarrow> length (id_bytes i) = SORTABLE_ID_SIZE"
  shows "(case res of Inl e \<Rightarrow> t' = t | Inr r \<Rightarrow> dedupe_enqueue_done n (n + left) s p t r t')"
  using assms(1,2)
proof (induction left arbitrary: n p res t')
  case (Suc left)
  obtain ans t1 where st: "dedupe_enqueue_statement (s n) (id_bytes (prepared_job_id p)) (prepared_row (s n) p) t = (ans, t1)"
    by fastforce
  note run = Suc.prems(1) [unfolded dedupe_enqueue_attempts.simps st]
  from st show ?case
  proof (cases rule: dedupe_attempt_cases)
    case (failed e)
    then show ?thesis using run by (auto simp: read_answer_def step_bind_def)
  next
    case (paused x existing)
    then show ?thesis using run
      by (auto simp: read_answer_def step_bind_def queue_dedupe_enqueue_result_from_insert_outcome_def enqueue_outcome_defs)
  next
    case (existing k q)
    show ?thesis
    proof (cases "queue_id_from_bytes k :: 'a queue_error + sortable_id")
      case (Inl e)
      then show ?thesis using run existing
        by (auto simp: read_answer_def step_bind_def queue_dedupe_enqueue_result_from_insert_outcome_def enqueue_outcome_defs)
    next
      case (Inr i)
      then have "id_bytes i = k" by (auto simp: queue_id_from_bytes_def from_bytes_def split: if_splits)
      moreover have "res = Inr \<lparr>enqueued_job_id = i, deduplicated = True\<rparr>" "t' = t"
        using run existing Inr
        by (auto simp: read_answer_def step_bind_def queue_dedupe_enqueue_result_from_insert_outcome_def enqueue_outcome_defs)
      ultimately show ?thesis using existing(3,4)
        by (simp add: dedupe_enqueue_done_def list_ex_iff) (metis fst_conv)
    qed
  next
    case (invisible k q)
    have r: "(if n + 1 < MAX_QUEUE_DEDUPE_INSERT_ATTEMPTS then
              (case new_id (n + 1) of
                 Inl e \<Rightarrow> (Inl (QueueJobId e), t)
               | Inr i \<Rightarrow> dedupe_enqueue_attempts s new_id (n + 1) left (p\<lparr>prepared_job_id := i\<rparr>) t)
            else (Inl (QueueUnexpectedOutcome ''dedupe enqueue'' ''not inserted without existing active job''), t)) = (res, t')"
      using run invisible(1,2)
      by (simp add: read_answer_def step_bind_def queue_dedupe_enqueue_result_from_insert_outcome_def enqueue_outcome_defs)
    show ?thesis
    proof (cases "n + 1 < MAX_QUEUE_DEDUPE_INSERT_ATTEMPTS")
      case False
      then show ?thesis using r by auto
    next
      case True
      show ?thesis
      proof (cases "new_id (n + 1)")
        case (Inl e)
        then show ?thesis using r True by auto
      next
        case (Inr i)
        then have "dedupe_enqueue_attempts s new_id (n + 1) left (p\<lparr>prepared_job_id := i\<rparr>) t = (res, t')" using r True by simp
        from Suc.IH [OF this] assms(3) [OF Inr] show ?thesis
          using dedupe_enqueue_done_later by (auto split: sum.splits)
      qed
    qed
  next
    case inserted
    have "queue_id_from_bytes (id_bytes (prepared_job_id p)) = (Inr (prepared_job_id p) :: 'a queue_error + sortable_id)"
      using Suc.prems(2) id_decodes [of "id_bytes (prepared_job_id p)"] by simp
    then have "res = Inr \<lparr>enqueued_job_id = prepared_job_id p, deduplicated = False\<rparr>" "t' = t1"
      using run inserted(1)
      by (auto simp: read_answer_def step_bind_def queue_dedupe_enqueue_result_from_insert_outcome_def
          queue_enqueue_result_from_insert_outcome_def enqueue_outcome_defs)
    moreover have "list_ex (\<lambda>k. t1 = t\<lparr>jobs := jobs t @ [(id_bytes (prepared_job_id p), prepared_row (s k) p)]\<rparr>) [n..<n + Suc left]"
      unfolding list_ex_iff by (rule bexI [of _ n]) (simp_all add: inserted(2) del: upt_Suc)
    ultimately show ?thesis using inserted(3,4)
      unfolding dedupe_enqueue_done_def list_all_iff by (simp del: upt_Suc add_Suc_right)
  qed
qed simp

lemma dedupe_insert_id:
  assumes "dedupe_enqueue_attempts s new_id n left p t = (Inr r, t')"
    and "length (id_bytes (prepared_job_id p)) = SORTABLE_ID_SIZE"
    and "\<And>k i. new_id k = Inr i \<Longrightarrow> length (id_bytes i) = SORTABLE_ID_SIZE"
  shows "length (id_bytes (enqueued_job_id r)) = SORTABLE_ID_SIZE"
  using assms(1,2)
proof (induction left arbitrary: n p t)
  case (Suc left)
  have len: "length (id_bytes i) = SORTABLE_ID_SIZE" if "queue_id_from_bytes k = (Inr i :: 'b queue_error + sortable_id)" for k i
    using that by (auto simp: queue_id_from_bytes_def from_bytes_def split: if_splits)
  from Suc show ?case
    using assms(3) len
    by (auto simp: step_bind_def read_answer_def queue_dedupe_enqueue_result_from_insert_outcome_def
        queue_enqueue_result_from_insert_outcome_def
        split: prod.splits sum.splits dedupe_enqueue_attempt_outcome.splits if_splits option.splits)
qed simp

text \<open>C18: a dedupe enqueue that succeeds either reports the job already active under its task and key and
  changes nothing, or appends exactly the requested row under a fresh identifier; afterwards the schema still
  holds and the reported job is the one and only active job under that task and key.\<close>

theorem dedupe_enqueue_finds_or_makes_one:
  assumes inv: "queue_inv t"
    and run: "execute_dedupe_enqueue s new_id p t = (Inr r, t')"
    and key: "prepared_dedupe_key p \<noteq> None"
    and ids: "length (id_bytes (prepared_job_id p)) = SORTABLE_ID_SIZE"
      "\<forall>k i. new_id k = Inr i \<longrightarrow> length (id_bytes i) = SORTABLE_ID_SIZE"
    and ok: "\<forall>k. job_row_ok (prepared_row (s k) p)"
  shows "dedupe_enqueue_done 0 MAX_QUEUE_DEDUPE_INSERT_ATTEMPTS s p t r t'
    \<and> queue_inv t'
    \<and> (\<forall>row \<in> set (jobs t'). active_under (prepared_task_name p) (prepared_dedupe_key p) row
         \<longleftrightarrow> fst row = id_bytes (enqueued_job_id r))"
proof -
  have d: "dedupe_enqueue_done 0 MAX_QUEUE_DEDUPE_INSERT_ATTEMPTS s p t r t'"
    using dedupe_attempts_result [OF run [unfolded execute_dedupe_enqueue_def] ids(1)] ids(2) by simp
  have "queue_inv t' \<and> (\<exists>q. (id_bytes (enqueued_job_id r), q) \<in> set (jobs t')
      \<and> active_under (prepared_task_name p) (prepared_dedupe_key p) (id_bytes (enqueued_job_id r), q))"
  proof (cases "deduplicated r")
    case True
    then have t': "t' = t" using d by (simp add: dedupe_enqueue_done_def)
    obtain row where "row \<in> set (jobs t)" "fst row = id_bytes (enqueued_job_id r)"
      "active_under (prepared_task_name p) (prepared_dedupe_key p) row"
      using d True unfolding dedupe_enqueue_done_def list_ex_iff by auto
    then show ?thesis using inv t' by (metis prod.collapse)
  next
    case False
    let ?i = "id_bytes (enqueued_job_id r)"
    obtain k where k: "t' = t\<lparr>jobs := jobs t @ [(?i, prepared_row (s k) p)]\<rparr>" "?i \<notin> set (map fst (jobs t))"
      and free: "\<forall>row \<in> set (jobs t). \<not> active_under (prepared_task_name p) (prepared_dedupe_key p) row"
      using d False unfolding dedupe_enqueue_done_def list_ex_iff list_all_iff by auto
    have act: "active_under (prepared_task_name p) (prepared_dedupe_key p) (?i, prepared_row (s k) p)"
      using key by (simp add: active_under_def same_dedupe_def is_active_def) (simp add: prepared_row_def new_job_row_def)
    have len: "length ?i = SORTABLE_ID_SIZE"
      using dedupe_insert_id [OF run [unfolded execute_dedupe_enqueue_def] ids(1)] ids(2) by blast
    have "jobs_inv (jobs t @ [(?i, prepared_row (s k) p)])"
    proof (rule jobs_inv_append)
      show "jobs_inv (jobs t)" using inv by (simp add: queue_inv_def)
      show "\<not> same_dedupe (job_task_name (prepared_row (s k) p)) (job_dedupe_key (prepared_row (s k) p)) q"
        if "(j, q) \<in> set (jobs t)" "is_active q" for j q
        using free that by (auto simp: active_under_def)
    qed (use k(2) len ok in simp_all)
    then show ?thesis using inv k(1) act by (auto simp: queue_inv_def)
  qed
  then obtain q where inv': "queue_inv t'" and q: "(id_bytes (enqueued_job_id r), q) \<in> set (jobs t')"
    "active_under (prepared_task_name p) (prepared_dedupe_key p) (id_bytes (enqueued_job_id r), q)" by blast
  have uniq: "active_dedupe_unique (jobs t')" and wk: "well_keyed (jobs t')"
    using inv' by (simp_all add: queue_inv_def jobs_inv_def)
  have "active_under (prepared_task_name p) (prepared_dedupe_key p) (j, x) \<longleftrightarrow> j = id_bytes (enqueued_job_id r)"
    if j: "(j, x) \<in> set (jobs t')" for j x
  proof
    assume "active_under (prepared_task_name p) (prepared_dedupe_key p) (j, x)"
    then show "j = id_bytes (enqueued_job_id r)"
      using active_dedupe_uniqueD [OF uniq j q(1)] q(2) by (auto simp: active_under_def same_dedupe_def)
  next
    assume "j = id_bytes (enqueued_job_id r)"
    then show "active_under (prepared_task_name p) (prepared_dedupe_key p) (j, x)"
      using key_eq_row [OF wk j] q by (auto simp: active_under_def)
  qed
  then show ?thesis using d inv' by auto
qed

theorem dedupe_enqueue_finds_or_makes_one_witness:
  "\<exists>r. fst (execute_dedupe_enqueue (\<lambda>n. at_time 50) (\<lambda>n. Inr (SortableId (replicate 16 9))) small_request small_queue
         :: (unit queue_error + enqueue_result) \<times> queue_tables) = Inr r
     \<and> queue_inv (snd (execute_dedupe_enqueue (\<lambda>n. at_time 50) (\<lambda>n. Inr (SortableId (replicate 16 9))) small_request small_queue
         :: (unit queue_error + enqueue_result) \<times> queue_tables))"
proof -
  let ?run = "execute_dedupe_enqueue (\<lambda>n. at_time 50) (\<lambda>n. Inr (SortableId (replicate 16 9))) small_request small_queue
         :: (unit queue_error + enqueue_result) \<times> queue_tables"
  have "is_ok (fst ?run)" by code_simp
  then obtain r where r: "?run = (Inr r, snd ?run)" by (cases "fst ?run") (auto simp: prod_eq_iff)
  have key: "prepared_dedupe_key small_request \<noteq> None" and len: "length (id_bytes (prepared_job_id small_request)) = SORTABLE_ID_SIZE"
    by code_simp+
  have "\<forall>k i. (Inr (SortableId (replicate 16 9)) :: unit id_error + sortable_id) = Inr i \<longrightarrow> length (id_bytes i) = SORTABLE_ID_SIZE"
    by (simp add: SORTABLE_ID_SIZE_def)
  from dedupe_enqueue_finds_or_makes_one [OF small_queue_inv r key len this] small_request_ok r show ?thesis
    by (metis fst_conv)
qed

lemma settles_from:
  assumes "n + left = MAX_QUEUE_DEDUPE_INSERT_ATTEMPTS" "n \<le> m" "m < MAX_QUEUE_DEDUPE_INSERT_ATTEMPTS"
    and "stmt_hidden (s m) = {}" "queue_inv t" "pause_outcome (prepared_task_name p) t = None"
    and "length (id_bytes (prepared_job_id p)) = SORTABLE_ID_SIZE" "id_bytes (prepared_job_id p) \<notin> set (map fst (jobs t))"
    and "\<And>k. \<exists>i. new_id k = Inr i \<and> length (id_bytes i) = SORTABLE_ID_SIZE \<and> id_bytes i \<notin> set (map fst (jobs t))"
  shows "\<exists>r t'. dedupe_enqueue_attempts s new_id n left p t = (Inr r, t')"
  using assms(1-3,6-8)
proof (induction left arbitrary: n p)
  case (Suc left)
  obtain ans t1 where st: "dedupe_enqueue_statement (s n) (id_bytes (prepared_job_id p)) (prepared_row (s n) p) t = (ans, t1)"
    by fastforce
  from st show ?case
  proof (cases rule: dedupe_attempt_cases)
    case (failed e)
    have "ans \<noteq> Inl e" using st Suc.prems(4,6)
      by (auto simp: dedupe_enqueue_statement_def insert_job_unless_active_def Let_def split: if_splits option.splits)
    then show ?thesis using failed by simp
  next
    case (existing k q)
    then have "queue_id_from_bytes k = (Inr (SortableId k) :: 'a queue_error + sortable_id)"
      using assms(5) jobs_inv_in [of "jobs t" k q] by (simp add: id_decodes queue_inv_def)
    then show ?thesis using st existing(1)
      by (simp add: step_bind_def read_answer_def queue_dedupe_enqueue_result_from_insert_outcome_def enqueue_outcome_defs)
  next
    case (invisible k q)
    obtain i where i: "new_id (n + 1) = Inr i" "length (id_bytes i) = SORTABLE_ID_SIZE" "id_bytes i \<notin> set (map fst (jobs t))"
      using assms(9) by blast
    have "n \<noteq> m" using invisible(5) assms(4) by auto
    then have "n + 1 \<le> m" "n + 1 < MAX_QUEUE_DEDUPE_INSERT_ATTEMPTS" using Suc.prems(2,3) by simp_all
    moreover have "\<exists>r t'. dedupe_enqueue_attempts s new_id (n + 1) left (p\<lparr>prepared_job_id := i\<rparr>) t = (Inr r, t')"
      using Suc.IH [of "n + 1" "p\<lparr>prepared_job_id := i\<rparr>"] Suc.prems i calculation by simp
    ultimately show ?thesis using st invisible(1,2) i(1)
      by (simp add: step_bind_def read_answer_def queue_dedupe_enqueue_result_from_insert_outcome_def enqueue_outcome_defs)
  next
    case inserted
    have "queue_id_from_bytes (id_bytes (prepared_job_id p)) = (Inr (prepared_job_id p) :: 'a queue_error + sortable_id)"
      using Suc.prems(5) id_decodes [of "id_bytes (prepared_job_id p)"] by simp
    then show ?thesis using st inserted(1)
      by (simp add: step_bind_def read_answer_def queue_dedupe_enqueue_result_from_insert_outcome_def
          queue_enqueue_result_from_insert_outcome_def enqueue_outcome_defs)
  qed (use Suc.prems(4) in simp)
qed simp

text \<open>C19: A dedupe enqueue settles. If neither the queue nor the task is paused, and the identifiers of all attempts are
  well-formed and unused, it succeeds as soon as one of its five attempts sees every committed row; conflicts with
  rows it cannot see yet never make it give up before that. (A paused queue or task makes it answer so, a failure to
  make an identifier makes it fail.)\<close>

theorem dedupe_enqueue_settles:
  assumes "queue_inv t" "m < MAX_QUEUE_DEDUPE_INSERT_ATTEMPTS" "stmt_hidden (s m) = {}"
    and "pause_outcome (prepared_task_name p) t = None"
    and "length (id_bytes (prepared_job_id p)) = SORTABLE_ID_SIZE" "id_bytes (prepared_job_id p) \<notin> set (map fst (jobs t))"
    and "\<forall>k. \<exists>i. new_id k = Inr i \<and> length (id_bytes i) = SORTABLE_ID_SIZE \<and> id_bytes i \<notin> set (map fst (jobs t))"
  shows "\<exists>r t'. execute_dedupe_enqueue s new_id p t = (Inr r, t')"
  unfolding execute_dedupe_enqueue_def
  using settles_from [of 0 MAX_QUEUE_DEDUPE_INSERT_ATTEMPTS m s t p new_id] assms by simp

theorem dedupe_enqueue_settles_witness:
  "\<exists>r t'. (execute_dedupe_enqueue (\<lambda>n. at_time 50) (\<lambda>n. Inr (SortableId (replicate 16 9))) small_request small_queue
     :: (unit queue_error + enqueue_result) \<times> queue_tables) = (Inr r, t')"
proof (rule dedupe_enqueue_settles [OF small_queue_inv, where m = 0])
  show "(0::nat) < MAX_QUEUE_DEDUPE_INSERT_ATTEMPTS" "stmt_hidden (at_time 50) = {}"
    "pause_outcome (prepared_task_name small_request) small_queue = None"
    "length (id_bytes (prepared_job_id small_request)) = SORTABLE_ID_SIZE"
    "id_bytes (prepared_job_id small_request) \<notin> set (map fst (jobs small_queue))" by code_simp+
  have "length (id_bytes (SortableId (replicate 16 9))) = SORTABLE_ID_SIZE"
    "id_bytes (SortableId (replicate 16 9)) \<notin> set (map fst (jobs small_queue))" by code_simp+
  then show "\<forall>k. \<exists>i. (Inr (SortableId (replicate 16 9)) :: unit id_error + sortable_id) = Inr i \<and> length (id_bytes i) = SORTABLE_ID_SIZE
      \<and> id_bytes i \<notin> set (map fst (jobs small_queue))" by blast
qed

end
