(* ===== verification/QueueReclaim.thy ===== *)
theory QueueReclaim
  imports QueueClaim
begin

text \<open>
  The reclaim pass of \<open>src/src/db/queue/operations/maintenance.rs\<close>: which fate each row meets in the
  four statements of a pass, and that a job whose heartbeat is fresh meets none.
\<close>

section \<open>The statements, row by row\<close>

lemma timestamp_before_Inr: "timestamp_before now us = Inr cutoff \<Longrightarrow> cutoff = now - us"
  by (simp add: timestamp_before_def split: if_splits)

lemma update_selected_row:
  assumes "well_keyed t" "map_of t k = Some q"
  shows "map_of (update_rows (select_keys P order n t) f t) k = Some q
    \<or> P (k, q) \<and> map_of (update_rows (select_keys P order n t) f t) k = Some (f q)"
  using selected_key_row [OF assms(1) _ assms(2)] assms(2) by (auto simp: map_of_update_rows)

lemma never_started_row:
  assumes wk: "well_keyed (jobs t)" and row: "map_of (jobs t) k = Some q"
    and run: "reclaim_never_started_running_jobs s us limit t = (res, t')"
  shows "(map_of (jobs t') k = Some q \<or> stale (stmt_now s - us) q \<and> \<not> has_started q
      \<and> map_of (jobs t') k = Some (return_to_pending (stmt_now s) q))
    \<and> well_keyed (jobs t') \<and> dead_letters t' = dead_letters t"
proof -
  let ?stmt = "reclaim_never_started_statement s us limit t"
  have "t' = t \<or> t' = snd ?stmt"
    using run by (auto simp: reclaim_never_started_running_jobs_def read_answer_def split: sum.splits prod.splits)
  moreover have "(map_of (jobs (snd ?stmt)) k = Some q \<or> stale (stmt_now s - us) q \<and> \<not> has_started q
      \<and> map_of (jobs (snd ?stmt)) k = Some (return_to_pending (stmt_now s) q))
    \<and> well_keyed (jobs (snd ?stmt)) \<and> dead_letters (snd ?stmt) = dead_letters t"
  proof (cases "timestamp_before (stmt_now s) us")
    case (Inl e)
    then show ?thesis using row wk by (simp add: reclaim_never_started_statement_def)
  next
    case (Inr cutoff)
    show ?thesis
      using update_selected_row [OF wk row, of "\<lambda>(k, r). lockable s k \<and> stale cutoff r \<and> \<not> has_started r"
          heartbeat_order limit "return_to_pending (stmt_now s)"] wk timestamp_before_Inr [OF Inr]
      by (simp add: reclaim_never_started_statement_def Inr Let_def) blast
  qed
  ultimately show ?thesis using row wk by auto
qed

lemma expired_statement_row:
  assumes wk: "well_keyed (jobs t)" and row: "map_of (jobs t) k = Some q"
    and run: "reclaim_expired_statement s budget f us limit t = (res, t')"
  shows "(map_of (jobs t') k = Some q \<or> stale (stmt_now s - us) q \<and> has_started q \<and> budget q
      \<and> map_of (jobs t') k = Some (f q))
    \<and> well_keyed (jobs t') \<and> dead_letters t' = dead_letters t
    \<and> (case res of Inl _ \<Rightarrow> True | Inr rows \<Rightarrow> k \<in> fst ` set rows \<longrightarrow> stale (stmt_now s - us) q \<and> has_started q
         \<and> budget q \<and> map_of (jobs t') k = Some (f q))"
proof (cases "timestamp_before (stmt_now s) us")
  case (Inl e)
  then show ?thesis using row wk run by (auto simp: reclaim_expired_statement_def)
next
  case (Inr cutoff)
  define ks where "ks = select_keys (\<lambda>(k, r). lockable s k \<and> stale cutoff r \<and> has_started r \<and> budget r)
      heartbeat_order limit (jobs t)"
  note c = timestamp_before_Inr [OF Inr]
  have sel: "stale cutoff q \<and> has_started q \<and> budget q" if "k \<in> set ks"
    using selected_key_row [OF wk that [unfolded ks_def] row] by simp
  have upd: "map_of (update_rows ks f (jobs t)) k = (if k \<in> set ks then Some (f q) else Some q)"
    using row by (simp add: map_of_update_rows)
  have keys: "k \<in> fst ` set (rows_of ks js) \<Longrightarrow> k \<in> set ks" for js :: "(bytes \<times> job_row) list"
    by (auto simp: rows_of_def)
  have "(res, t') = (if list_ex (\<lambda>(k, r). job_retry_count r > i32_max) (rows_of ks (update_rows ks f (jobs t)))
       then (Inl numeric_out_of_range, t)
       else (Inr (rows_of ks (update_rows ks f (jobs t))), t\<lparr>jobs := update_rows ks f (jobs t)\<rparr>))"
    using run [symmetric] by (simp add: reclaim_expired_statement_def Inr Let_def ks_def)
  then show ?thesis using row wk sel upd keys c by (auto split: if_splits)
qed

lemma expired_to_failed_row:
  assumes wk: "well_keyed (jobs t)" and row: "map_of (jobs t) k = Some q"
    and run: "reclaim_expired_running_jobs_to_failed s us limit t = (res, t')"
  defines "failed \<equiv> expire_row Failed (Some (stmt_now s)) (stmt_now s) q"
  defines "due \<equiv> stale (stmt_now s - us) q \<and> has_started q \<and> job_retry_count q \<ge> job_max_retries q"
  shows "(map_of (jobs t') k = Some q \<or> due \<and> map_of (jobs t') k = Some failed)
    \<and> well_keyed (jobs t') \<and> dead_letters t' = dead_letters t
    \<and> (case res of Inl _ \<Rightarrow> True | Inr js \<Rightarrow> k \<in> set (map (id_bytes \<circ> reclaimed_failed_id) js)
         \<longrightarrow> due \<and> map_of (jobs t') k = Some failed)"
proof (cases "validate_reclaim_batch_size limit :: 'a queue_error + unit")
  case (Inl e)
  then show ?thesis using run row wk by (auto simp: reclaim_expired_running_jobs_to_failed_def)
next
  case (Inr u)
  obtain ans t1 where st: "reclaim_expired_statement s (\<lambda>r. job_retry_count r \<ge> job_max_retries r)
      (expire_row Failed (Some (stmt_now s)) (stmt_now s)) us limit t = (ans, t1)" by fastforce
  note r = expired_statement_row [OF wk row st]
  have ids: "set (map (id_bytes \<circ> reclaimed_failed_id) js) \<subseteq> fst ` set rows"
    if "collect_results (map queue_reclaimed_failed_job_from_row rows) = (Inr js :: 'a queue_error + reclaimed_failed_job list)"
    for rows js
    using that
  proof (induction rows arbitrary: js)
    case (Cons x rows)
    obtain j js' where j: "queue_reclaimed_failed_job_from_row x = (Inr j :: 'a queue_error + reclaimed_failed_job)"
      "collect_results (map queue_reclaimed_failed_job_from_row rows) = (Inr js' :: 'a queue_error + reclaimed_failed_job list)"
      "js = j # js'"
      using Cons.prems by (auto simp: result_bind_eq_Inr_iff)
    have "id_bytes (reclaimed_failed_id j) = fst x"
      using j(1) by (cases x) (auto simp: queue_reclaimed_failed_job_from_row_def result_bind_eq_Inr_iff queue_id_from_bytes_def
          from_bytes_def split: if_splits option.splits)
    then show ?case using Cons.IH [OF j(2)] j(3) by auto
  qed simp
  have "t' = t1" and "case res of Inl _ \<Rightarrow> True | Inr js \<Rightarrow> \<exists>rows. ans = Inr rows
      \<and> collect_results (map queue_reclaimed_failed_job_from_row rows) = (Inr js :: 'a queue_error + reclaimed_failed_job list)"
    using run by (auto simp: reclaim_expired_running_jobs_to_failed_def reclaim_expired_to_failed_statement_def Inr st
        read_answer_def split: sum.splits)
  then show ?thesis using r ids unfolding failed_def due_def by (auto split: sum.splits)
qed

lemma expired_to_pending_stmt:
  assumes "reclaim_expired_running_jobs_to_pending_for_retry s us limit t = (res, t')"
  shows "t' = t \<or> t' = snd (reclaim_expired_statement s (\<lambda>r. job_retry_count r < job_max_retries r)
      (expire_row Pending None (stmt_now s)) us limit t)"
  using assms by (auto simp: reclaim_expired_running_jobs_to_pending_for_retry_def reclaim_expired_to_pending_statement_def
        read_answer_def split: sum.splits prod.splits)

lemma expired_to_pending_row:
  assumes wk: "well_keyed (jobs t)" and row: "map_of (jobs t) k = Some q"
    and run: "reclaim_expired_running_jobs_to_pending_for_retry s us limit t = (res, t')"
  shows "map_of (jobs t') k = Some q \<or> stale (stmt_now s - us) q \<and> has_started q \<and> job_retry_count q < job_max_retries q
      \<and> map_of (jobs t') k = Some (expire_row Pending None (stmt_now s) q)"
proof -
  obtain ans t1 where st: "reclaim_expired_statement s (\<lambda>r. job_retry_count r < job_max_retries r)
      (expire_row Pending None (stmt_now s)) us limit t = (ans, t1)" by fastforce
  show ?thesis using expired_to_pending_stmt [OF run] expired_statement_row [OF wk row st] row by (auto simp: st)
qed

lemma expired_to_pending_rest:
  assumes run: "reclaim_expired_running_jobs_to_pending_for_retry s us limit t = (res, t')"
  shows "dead_letters t' = dead_letters t \<and> (map_of (jobs t) k = None \<longrightarrow> map_of (jobs t') k = None)"
  using expired_to_pending_stmt [OF run]
  by (auto simp: reclaim_expired_statement_def Let_def map_of_update_rows split: sum.splits if_splits)

lemma move_batch_statement_row:
  assumes wk: "well_keyed (jobs t)" and row: "map_of (jobs t) k = Some q"
    and run: "move_failed_jobs_to_dead_letter_batch_statement s id_map reason t = (res, t')"
  shows "(map_of (jobs t') k = Some q \<or> job_status q = Failed \<and> k \<in> set (map fst id_map)
      \<and> map_of (jobs t') k = None \<and> buried t' k) \<and> well_keyed (jobs t')"
proof -
  define P :: "bytes \<times> job_row \<Rightarrow> bool" where "P = (\<lambda>(i, r). i \<in> set (map fst id_map) \<and> lockable s i \<and> job_status r = Failed)"
  define moved where "moved = map (\<lambda>(i, r). (the (map_of id_map i),
              dead_letter_of (stmt_now s) i (option_or_empty (job_last_error r)) (job_retry_count r) reason r))
            (filter P (jobs t))"
  define ks where "ks = map fst (filter P (jobs t))"
  have ks: "map (dl_original_job_id \<circ> snd) moved = ks"
    by (auto simp: moved_def ks_def dead_letter_of_def)
  have run': "(res, t') = (case insert_dead_letters moved (t\<lparr>jobs := delete_rows ks (jobs t)\<rparr>) of
      Inl e \<Rightarrow> (Inl e, t) | Inr t' \<Rightarrow> (Inr moved, t'))"
    using run [symmetric]
    unfolding move_failed_jobs_to_dead_letter_batch_statement_def P_def [symmetric] moved_def [symmetric] Let_def ks .
  show ?thesis
  proof (cases "insert_dead_letters moved (t\<lparr>jobs := delete_rows ks (jobs t)\<rparr>)")
    case (Inl e)
    then show ?thesis using run' row wk by simp
  next
    case (Inr t1)
    note k = insert_dead_letters_keeps [OF Inr]
    have t': "t' = t1" using run' Inr by simp
    have "job_status q = Failed \<and> k \<in> set (map fst id_map)" if "k \<in> set ks"
      using filtered_key_row [OF wk that [unfolded ks_def] row] by (simp add: P_def)
    moreover have "buried t1 k" if "k \<in> set ks"
    proof -
      have "set ks \<subseteq> set (map (dl_original_job_id \<circ> snd) (dead_letters t1))" using k ks by (simp only: map_append set_append) auto
      then show ?thesis using that unfolding buried_def by blast
    qed
    ultimately show ?thesis using k row wk t' by (auto simp: map_of_delete_rows)
  qed
qed

lemma move_batch_row:
  assumes wk: "well_keyed (jobs t)" and row: "map_of (jobs t) k = Some q"
    and run: "move_failed_jobs_to_dead_letter_batch_with_executor s new_id ids reason t = (res, t')"
  shows "(map_of (jobs t') k = Some q \<or> job_status q = Failed \<and> k \<in> set (map id_bytes ids)
      \<and> map_of (jobs t') k = None \<and> buried t' k) \<and> well_keyed (jobs t')"
proof -
  let ?ids = "collect_results (map (\<lambda>n. map_sum QueueJobId id (new_id n)) [0..<length ids])"
  consider "t' = t" | dead_ids where "?ids = Inr dead_ids"
      "t' = snd (move_failed_jobs_to_dead_letter_batch_statement s (zip (map id_bytes ids) (map id_bytes dead_ids)) reason t)"
    using run unfolding move_failed_jobs_to_dead_letter_batch_with_executor_def read_answer_def
    by (auto split: if_splits option.splits sum.splits prod.splits)
  then show ?thesis
  proof cases
    case 1
    then show ?thesis using row wk by simp
  next
    case 2
    have len: "length dead_ids = length ids" using collect_results_length [OF 2(1)] by simp
    obtain ans t1 where "move_failed_jobs_to_dead_letter_batch_statement s (zip (map id_bytes ids) (map id_bytes dead_ids)) reason t
        = (ans, t1)" by fastforce
    from move_batch_statement_row [OF wk row this] show ?thesis using 2(2) len \<open>_ = (ans, t1)\<close> by simp
  qed
qed

section \<open>A pass\<close>

text \<open>The fates of one row in a pass that starts with it as \<open>q\<close>.\<close>

definition reclaim_fate :: "(nat \<Rightarrow> stmt) \<Rightarrow> int \<Rightarrow> bool \<Rightarrow> queue_tables \<Rightarrow> bytes \<Rightarrow> job_row \<Rightarrow> bool" where
  "reclaim_fate s us to_dead_letter t' k q \<longleftrightarrow>
     (let now = map_of (jobs t') k;
          failed = Some (expire_row Failed (Some (stmt_now (s 1))) (stmt_now (s 1)) q) in
      now = Some q
      \<or> stale (stmt_now (s 0) - us) q \<and> \<not> has_started q \<and> now = Some (return_to_pending (stmt_now (s 0)) q)
      \<or> stale (stmt_now (s 1) - us) q \<and> has_started q \<and> job_max_retries q \<le> job_retry_count q
          \<and> (now = failed \<or> to_dead_letter \<and> now = None \<and> buried t' k)
      \<or> stale (stmt_now (s 3) - us) q \<and> has_started q \<and> job_retry_count q < job_max_retries q
          \<and> now = Some (expire_row Pending None (stmt_now (s 3)) q))"

lemma not_stale [simp]:
  "\<not> stale c (return_to_pending now q)" "\<not> stale c (expire_row Failed fin now q)"
  "\<not> stale c (expire_row Pending fin now q)"
  by (simp_all add: stale_def return_to_pending_def expire_row_def)

lemma expire_row_changes: "expire_row st fin now q \<noteq> q"
proof
  assume "expire_row st fin now q = q"
  then have "job_retry_count (expire_row st fin now q) = job_retry_count q" by simp
  then show False by (simp add: expire_row_def)
qed

lemma step_bind_simps [simp]:
  "step_bind (Inl e, t) f = (Inl e, t)" "step_bind (Inr x, t) f = f x t"
  by (simp_all add: step_bind_def)

lemma fail_not_return: "expire_row Failed fin now q \<noteq> return_to_pending now' q"
proof
  assume "expire_row Failed fin now q = return_to_pending now' q"
  then have "job_status (expire_row Failed fin now q) = job_status (return_to_pending now' q)" by simp
  then show False by (simp add: expire_row_def return_to_pending_def)
qed

lemma fate_of_pass:
  assumes wk: "well_keyed (jobs t)" and row: "map_of (jobs t) k = Some q"
    and run: "reclaim_pass s new_id us limit to_dead_letter t = (res, t')"
  shows "reclaim_fate s us to_dead_letter t' k q"
proof -
  let ?ret = "return_to_pending (stmt_now (s 0)) q"
  let ?fail = "expire_row Failed (Some (stmt_now (s 1))) (stmt_now (s 1)) q"
  obtain r0 t1 where s0: "reclaim_never_started_running_jobs (s 0) us limit t = (r0 :: 'a queue_error + reclaimed_job list, t1)" by fastforce
  have f1: "map_of (jobs t1) k = Some q \<or> stale (stmt_now (s 0) - us) q \<and> \<not> has_started q \<and> map_of (jobs t1) k = Some ?ret"
    and wk1: "well_keyed (jobs t1)" using never_started_row [OF wk row s0] by auto
  have F1: "reclaim_fate s us to_dead_letter t1 k q" using f1 by (auto simp: reclaim_fate_def)
  show ?thesis
  proof (cases r0)
    case (Inl e)
    then show ?thesis using run F1 unfolding reclaim_pass_def s0 Inl by simp
  next
    case (Inr x0)
    obtain r1 t2 where s1: "reclaim_expired_running_jobs_to_failed (s 1) us limit t1 = (r1 :: 'a queue_error + reclaimed_failed_job list, t2)" by fastforce
    have f2: "map_of (jobs t2) k = Some q
        \<or> stale (stmt_now (s 0) - us) q \<and> \<not> has_started q \<and> map_of (jobs t2) k = Some ?ret
        \<or> stale (stmt_now (s 1) - us) q \<and> has_started q \<and> job_max_retries q \<le> job_retry_count q \<and> map_of (jobs t2) k = Some ?fail"
      and wk2: "well_keyed (jobs t2)"
      and ids: "\<And>js. r1 = Inr js \<Longrightarrow> k \<in> set (map (id_bytes \<circ> reclaimed_failed_id) js) \<Longrightarrow> map_of (jobs t2) k = Some ?fail"
      using f1 expired_to_failed_row [OF wk1 _ s1, of k q] expired_to_failed_row [OF wk1 _ s1, of k ?ret] by auto
    have F2: "reclaim_fate s us to_dead_letter t2 k q" using f2 by (auto simp: reclaim_fate_def)
    show ?thesis
    proof (cases r1)
      case (Inl e)
      then show ?thesis using run F2 unfolding reclaim_pass_def s0 Inr step_bind_simps s1 Inl by simp
    next
      case failed: (Inr js)
      define mv where "mv = (if to_dead_letter
                then step_bind (move_failed_jobs_to_dead_letter_batch_with_executor (s 2) new_id
                       (map reclaimed_failed_id js) ExecutionExpired t2) (\<lambda>r t. (Inr (moved_jobs r), t))
                else (Inr [], t2))"
      obtain r2 t3 where s2: "mv = (r2, t3)" by fastforce
      note run' = run [unfolded reclaim_pass_def s0 Inr step_bind_simps s1 failed, folded mv_def, unfolded s2]
      have f3: "(map_of (jobs t3) k = map_of (jobs t2) k
          \<or> to_dead_letter \<and> map_of (jobs t2) k = Some ?fail \<and> map_of (jobs t3) k = None \<and> buried t3 k) \<and> well_keyed (jobs t3)"
      proof (cases to_dead_letter)
        case False
        then show ?thesis using s2 wk2 by (simp add: mv_def)
      next
        case True
        obtain rm tm where m: "move_failed_jobs_to_dead_letter_batch_with_executor (s 2) new_id
            (map reclaimed_failed_id js) ExecutionExpired t2 = (rm, tm)" by fastforce
        have "t3 = tm" using s2 True by (auto simp: mv_def m step_bind_def split: sum.splits)
        moreover obtain q2 where "map_of (jobs t2) k = Some q2" using f2 by blast
        ultimately show ?thesis
          using move_batch_row [OF wk2 _ m, of k q2] ids [OF failed] True by auto
      qed
      have F3: "reclaim_fate s us to_dead_letter t3 k q"
      proof (cases "map_of (jobs t3) k = map_of (jobs t2) k")
        case True
        then show ?thesis using f2 by (auto simp: reclaim_fate_def)
      next
        case False
        then have x: "to_dead_letter" "map_of (jobs t2) k = Some ?fail" "map_of (jobs t3) k = None" "buried t3 k" using f3 by auto
        have "?fail \<noteq> ?ret" by (rule fail_not_return)
        then have "stale (stmt_now (s 1) - us) q \<and> has_started q \<and> job_max_retries q \<le> job_retry_count q"
          using f2 x(2) expire_row_changes by auto
        then show ?thesis using x by (auto simp: reclaim_fate_def)
      qed
      show ?thesis
      proof (cases r2)
        case (Inl e)
        then have "t' = t3" using run' by simp
        then show ?thesis using F3 by simp
      next
        case moved: (Inr ms)
        obtain r3 t4 where s3: "reclaim_expired_running_jobs_to_pending_for_retry (s 3) us limit t3
            = (r3 :: 'a queue_error + reclaimed_job list, t4)" by fastforce
        have t': "t' = t4" using run' [unfolded moved step_bind_simps s3] by (cases r3) auto
        note rest = expired_to_pending_rest [OF s3, of k]
        show ?thesis
        proof (cases "map_of (jobs t3) k")
          case None
          then have "map_of (jobs t4) k = None" "buried t4 k \<longleftrightarrow> buried t3 k" using rest by (auto simp: buried_def)
          then show ?thesis using F3 None t' by (auto simp: reclaim_fate_def)
        next
          case (Some q3)
          have "map_of (jobs t4) k = Some q3 \<or> stale (stmt_now (s 3) - us) q3 \<and> has_started q3 \<and> job_retry_count q3 < job_max_retries q3
              \<and> map_of (jobs t4) k = Some (expire_row Pending None (stmt_now (s 3)) q3)"
            using expired_to_pending_row [OF _ Some s3] f3 by blast
          then show ?thesis using F3 Some t' by (auto simp: reclaim_fate_def Let_def)
        qed
      qed
    qed
  qed
qed

text \<open>C20: a reclaim pass, whether it succeeds or stops at an error, does one of these to a row: nothing;
  back to pending if it is stale and never started; failed, or buried if dead lettering is on, if it is stale,
  started and out of retries; back to pending with one more retry counted if it is stale, started and has
  retries left. A row that is not stale at any of the statements stays exactly as it is.\<close>

theorem reclaim_spares_live_jobs:
  assumes inv: "queue_inv t" and row: "map_of (jobs t) k = Some q"
    and run: "reclaim_pass s new_id us limit to_dead_letter t = (res, t')"
  shows "reclaim_fate s us to_dead_letter t' k q
    \<and> (\<not> list_ex (\<lambda>m. stale (stmt_now (s m) - us) q) [0, 1, 3] \<longrightarrow> map_of (jobs t') k = Some q)"
  using fate_of_pass [OF queue_inv_well_keyed [OF inv] row run] by (auto simp: reclaim_fate_def Let_def)

theorem reclaim_spares_live_jobs_witness:
  "map_of (jobs (snd (reclaim_pass (\<lambda>n. at_time (40 + int n)) (\<lambda>n. Inr (SortableId (replicate 16 9))) 100 10 True small_queue
      :: (unit queue_error + reclaim_result) \<times> queue_tables))) (replicate 16 1) = Some held_job"
proof -
  have row: "map_of (jobs small_queue) (replicate 16 1) = Some held_job" by code_simp
  have live: "\<not> list_ex (\<lambda>m. stale (stmt_now (at_time (40 + int m)) - 100) held_job) [0, 1, 3]" by code_simp
  show ?thesis
    by (rule reclaim_spares_live_jobs [OF small_queue_inv row prod.collapse [symmetric], THEN conjunct2, THEN mp]) (rule live)
qed

end
