(* ===== verification/FleetDatabase.thy ===== *)
theory FleetDatabase
  imports FleetKeys Mutex
begin

text \<open>
  The database of the primitives that use leases and the state table together: the lease tables, the state
  table and the rows of the application. A transaction may write all of them; an operation on one of the
  tables acts on its part. And \<open>Store::new_mutex\<close>.
\<close>

record 'a database =
  db_leases :: lease_tables
  db_state :: kv_table
  db_app :: 'a

text \<open>A part of a transaction shares the admissions with the whole.\<close>

definition tx_leases ::
    "(lease_tables tx \<Rightarrow> 'r \<times> lease_tables tx) \<Rightarrow> 'a database tx \<Rightarrow> 'r \<times> 'a database tx" where
  "tx_leases f tx =
     (let (r, part) = f \<lparr>admitted_protocols = admitted_protocols tx, tables = db_leases (tables tx)\<rparr>
      in (r, \<lparr>admitted_protocols = admitted_protocols part, tables = (tables tx)\<lparr>db_leases := tables part\<rparr>\<rparr>))"

definition tx_state :: "(kv_table tx \<Rightarrow> 'r \<times> kv_table tx) \<Rightarrow> 'a database tx \<Rightarrow> 'r \<times> 'a database tx" where
  "tx_state f tx =
     (let (r, part) = f \<lparr>admitted_protocols = admitted_protocols tx, tables = db_state (tables tx)\<rparr>
      in (r, \<lparr>admitted_protocols = admitted_protocols part, tables = (tables tx)\<lparr>db_state := tables part\<rparr>\<rparr>))"

definition on_leases :: "(lease_tables \<Rightarrow> 'r \<times> lease_tables) \<Rightarrow> 'a database \<Rightarrow> 'r \<times> 'a database" where
  "on_leases f d = (let (r, t) = f (db_leases d) in (r, d\<lparr>db_leases := t\<rparr>))"

definition same_rest :: "'a database \<Rightarrow> 'a database \<Rightarrow> bool" where
  "same_rest d d' \<longleftrightarrow> db_state d' = db_state d \<and> db_app d' = db_app d"

lemma same_rest_refl [simp]: "same_rest d d" by (simp add: same_rest_def)

lemma same_rest_trans: "same_rest d d1 \<Longrightarrow> same_rest d1 d2 \<Longrightarrow> same_rest d d2" by (simp add: same_rest_def)

lemma on_leases_rest: "on_leases f d = (r, d') \<Longrightarrow> same_rest d d'"
  by (auto simp: on_leases_def same_rest_def split: prod.splits)

lemma tx_leases_rest: "tx_leases f tx = (r, tx') \<Longrightarrow> same_rest (tables tx) (tables tx')"
  by (auto simp: tx_leases_def same_rest_def split: prod.splits)

lemma tx_state_part:
  assumes "tx_state f tx = (r, tx')"
  obtains part where "f \<lparr>admitted_protocols = admitted_protocols tx, tables = db_state (tables tx)\<rparr> = (r, part)"
    "db_state (tables tx') = tables part" "db_app (tables tx') = db_app (tables tx)" "db_leases (tables tx') = db_leases (tables tx)"
  using assms by (auto simp: tx_state_def split: prod.splits)

section \<open>The constructor of a mutex\<close>

definition new_mutex :: "string \<Rightarrow> string \<Rightarrow> string \<Rightarrow> claim_duration \<Rightarrow> 'c fleet_error + mutex" where
  "new_mutex protocol root_key key duration =
     map_sum id (\<lambda>lease_key. \<lparr>mutex_protocol = protocol, mutex_key = key, mutex_lease_key = lease_key,
       mutex_claim_duration = duration\<rparr>) (build_mutex_lease_key root_key key)"

end
