(* ===== verification/Once.thy ===== *)
theory Once
  imports FleetDatabase Lasting
begin

text \<open>
  \<open>src/src/db/fleet/once.rs\<close>, \<open>once_completion.rs\<close>, \<open>once_task.rs\<close>, \<open>once_model.rs\<close> and \<open>Store::new_once\<close>: a
  task that is to run once. A mutex excludes others while it runs, and a durable marker in the state table
  tells that it has run.

  A task is a function on the state table and the application's rows. A pool-level call on one of the tables
  meets its own environment.
\<close>

section \<open>Handles, claims and results\<close>

definition FLEET_ONCE_DONE_KEY_PART :: string where "FLEET_ONCE_DONE_KEY_PART = ''done''"

record once_completion =
  finished_at :: micros
  completion_holder_id :: string
  completion_fencing_token :: int

record 'c once =
  completion_item :: "(once_completion, unit, 'c) item"
  once_key :: string
  once_mutex :: mutex

record once_claim =
  claim_once_key :: string
  once_mutex_claim :: mutex_claim

record once_snapshot =
  snapshot_once_key :: string
  snapshot_holder_id :: string
  snapshot_fencing_token :: int
  snapshot_expires_at :: micros

datatype 'v once_run_result = OnceRan 'v | OnceAlreadyDone once_completion
datatype 'v once_try_run_result = OnceTryRan 'v | OnceTryAlreadyDone once_completion | OnceTryAlreadyRunning

datatype ('c, 'e) once_run_error =
    OnceRunFleet "'c fleet_error"
  | OnceRunTask 'e
  | OnceRunTaskAndRelease 'e "'c fleet_error"
  | OnceRunCompletionFailed "'c fleet_error"
  | OnceRunCompletionAndReleaseFailed "'c fleet_error" "'c fleet_error"
  | OnceRunRelease "'c fleet_error"

datatype ('c, 'e) once_transactional_run_error =
    OnceTxFleet "'c fleet_error"
  | OnceTxTask 'e
  | OnceTxTaskAndTransactionRollback 'e "'c fleet_error"
  | OnceTxTaskAndRelease 'e "'c fleet_error"
  | OnceTxTaskTransactionRollbackAndRelease 'e "'c fleet_error" "'c fleet_error"
  | OnceTxTransactionAndRelease "'c fleet_error" "'c fleet_error"
  | OnceTxRelease "'c fleet_error"

definition new_once ::
    "(once_completion, unit, 'c) item \<Rightarrow> string \<Rightarrow> string \<Rightarrow> string \<Rightarrow> claim_duration \<Rightarrow> 'c fleet_error + 'c once" where
  "new_once base protocol root_key key duration =
     result_bind (build_once_completion_prefix root_key key) (\<lambda>completion_prefix.
     result_bind (build_once_mutex_lease_key root_key key) (\<lambda>lease_key.
     Inr \<lparr>completion_item = item_new_plain base completion_prefix, once_key = key,
       once_mutex = \<lparr>mutex_protocol = protocol, mutex_key = key, mutex_lease_key = lease_key,
         mutex_claim_duration = duration\<rparr>\<rparr>))"

definition snapshot_from_mutex_guard_snapshot :: "'c once \<Rightarrow> mutex_guard_snapshot \<Rightarrow> once_snapshot" where
  "snapshot_from_mutex_guard_snapshot o1 s =
     \<lparr>snapshot_once_key = once_key o1, snapshot_holder_id = guard_holder_id s,
      snapshot_fencing_token = guard_fencing_token s, snapshot_expires_at = guard_expires_at s\<rparr>"

definition require_claim_matches_once :: "'c once \<Rightarrow> once_claim \<Rightarrow> 'c fleet_error + unit" where
  "require_claim_matches_once o1 c =
     (if claim_once_key c \<noteq> once_key o1 then Inl FleetRunOnceManualRunClaimBelongsToDifferentTask
      else require_claim_matches_mutex (once_mutex o1) (once_mutex_claim c))"

section \<open>The marker\<close>

definition done_or_none :: "'c kv_error + once_completion \<Rightarrow> 'c fleet_error + once_completion option" where
  "done_or_none r = (case r of Inr c \<Rightarrow> Inr (Some c) | Inl KvKeyNotFound \<Rightarrow> Inr None | Inl e \<Rightarrow> Inl (FleetKv e))"

definition check_done :: "'c once \<Rightarrow> string \<Rightarrow> pool_env \<Rightarrow> kv_table \<Rightarrow> 'c fleet_error + once_completion option" where
  "check_done o1 protocol env t = done_or_none (item_get (completion_item o1) protocol env [FLEET_ONCE_DONE_KEY_PART] t)"

definition check_done_in_current_transaction ::
    "'c once \<Rightarrow> string \<Rightarrow> admission_reply \<Rightarrow> micros \<Rightarrow> kv_table tx
     \<Rightarrow> ('c fleet_error + once_completion option) \<times> kv_table tx" where
  "check_done_in_current_transaction o1 protocol reply now tx =
     map_prod done_or_none id
       (item_get_in_current_transaction (completion_item o1) protocol reply now [FLEET_ONCE_DONE_KEY_PART] tx)"

definition decide_completion ::
    "string \<Rightarrow> int \<Rightarrow> once_completion item_atomic_current
     \<Rightarrow> 'c fleet_error + (once_completion item_atomic_mutation \<times> unit)" where
  "decide_completion holder_id fencing current =
     (if item_live_value current \<noteq> None then Inr (KeepExistingItem, ())
      else Inr (SetValue \<lparr>finished_at = item_timestamp current, completion_holder_id = holder_id,
        completion_fencing_token = fencing\<rparr> NO_EXPIRATION, ()))"

definition mark_completion_in_current_transaction ::
    "'c once \<Rightarrow> atomic_env \<Rightarrow> string \<Rightarrow> int \<Rightarrow> kv_table tx \<Rightarrow> ('c fleet_error + bool) \<times> kv_table tx" where
  "mark_completion_in_current_transaction o1 aenv holder_id fencing tx =
     map_prod (map_sum id (\<lambda>(res, _). item_outcome res = DidSetBytes)) id
       (item_mutate_atomically_in_current_transaction FleetKv (completion_item o1) aenv [FLEET_ONCE_DONE_KEY_PART]
         (decide_completion holder_id fencing) tx)"

definition mark_completion ::
    "'c once \<Rightarrow> pool_env \<Rightarrow> atomic_env \<Rightarrow> once_snapshot \<Rightarrow> kv_table \<Rightarrow> ('c fleet_error + bool) \<times> kv_table" where
  "mark_completion o1 env aenv s t =
     fleet_pool_write ''fleet.once.mark_completion'' env
       (mark_completion_in_current_transaction o1 (aenv\<lparr>atomic_reply := env_reply env\<rparr>) (snapshot_holder_id s)
         (snapshot_fencing_token s)) t"

section \<open>Runs by hand\<close>

record 'c start_env =
  first_check :: pool_env
  start_call :: "'c lease_call"
  second_check :: pool_env
  undo_env :: pool_env

definition try_start_manual_run_for_holder ::
    "'c once \<Rightarrow> string \<Rightarrow> 'c start_env \<Rightarrow> string \<Rightarrow> 'a database
     \<Rightarrow> ('c fleet_error + once_claim option) \<times> 'a database" where
  "try_start_manual_run_for_holder o1 protocol env holder_id d =
     (case check_done o1 protocol (first_check env) (db_state d) of
        Inl e \<Rightarrow> (Inl e, d)
      | Inr (Some _) \<Rightarrow> (Inr None, d)
      | Inr None \<Rightarrow>
          (case on_leases (try_claim_manual_renewal_for_holder (once_mutex o1) (start_call env) holder_id) d of
             (Inl e, d) \<Rightarrow> (Inl e, d)
           | (Inr None, d) \<Rightarrow> (Inr None, d)
           | (Inr (Some c), d) \<Rightarrow>
               (case check_done o1 protocol (second_check env) (db_state d) of
                  Inl e \<Rightarrow> (Inl e, d)
                | Inr None \<Rightarrow> (Inr (Some \<lparr>claim_once_key = once_key o1, once_mutex_claim = c\<rparr>), d)
                | Inr (Some _) \<Rightarrow>
                    (case on_leases (release_manual_renewal_claim (once_mutex o1) (undo_env env) c) d of
                       (Inl e, d) \<Rightarrow> (Inl e, d)
                     | (Inr released, d) \<Rightarrow>
                         (if released then Inr None else Inl FleetRunOnceManualRunClaimNoLongerLive, d)))))"

definition try_start_manual_run ::
    "'c once \<Rightarrow> string \<Rightarrow> 'c id_error + string \<Rightarrow> 'c start_env \<Rightarrow> 'a database
     \<Rightarrow> ('c fleet_error + once_claim option) \<times> 'a database" where
  "try_start_manual_run o1 protocol new_id_text env d =
     (case generate_holder_id new_id_text of
        Inl e \<Rightarrow> (Inl e, d)
      | Inr holder_id \<Rightarrow> try_start_manual_run_for_holder o1 protocol env holder_id d)"

definition mark_done_and_release_manual_run_in_current_transaction ::
    "'c once \<Rightarrow> 'c lease_call \<Rightarrow> atomic_env \<Rightarrow> micros \<Rightarrow> once_claim \<Rightarrow> 'a database tx
     \<Rightarrow> ('c fleet_error + bool) \<times> 'a database tx" where
  "mark_done_and_release_manual_run_in_current_transaction o1 call aenv release_now c tx =
     (case require_claim_matches_once o1 c of
        Inl e \<Rightarrow> (Inl e, tx)
      | Inr _ \<Rightarrow>
          do_then (tx_leases (try_renew_manual_renewal_claim_in_current_transaction (once_mutex o1) call
              (once_mutex_claim c)) tx) (\<lambda>renewed tx.
            case renewed of
              None \<Rightarrow> (Inl FleetRunOnceManualRunClaimNoLongerLive, tx)
            | Some renewed_claim \<Rightarrow>
                do_then (tx_state (mark_completion_in_current_transaction o1 aenv
                    (claim_holder_id (claim_lease (once_mutex_claim c)))
                    (claim_fencing_token (claim_lease (once_mutex_claim c)))) tx) (\<lambda>marked_done tx.
                  do_then (tx_leases (release_manual_renewal_claim_in_current_transaction (once_mutex o1)
                      (env_reply (call_env call)) release_now renewed_claim) tx) (\<lambda>released tx.
                    (if released then Inr marked_done else Inl FleetRunOnceManualRunClaimNoLongerLive, tx)))))"

definition mark_done_and_release_manual_run ::
    "'c once \<Rightarrow> pool_env \<Rightarrow> 'c lease_call \<Rightarrow> atomic_env \<Rightarrow> micros \<Rightarrow> once_claim \<Rightarrow> 'a database
     \<Rightarrow> ('c fleet_error + bool) \<times> 'a database" where
  "mark_done_and_release_manual_run o1 env call aenv release_now c d =
     fleet_pool_write ''fleet.once.mark_done_and_release'' env
       (mark_done_and_release_manual_run_in_current_transaction o1 call aenv release_now c) d"

definition release_manual_run_without_marking_done ::
    "'c once \<Rightarrow> pool_env \<Rightarrow> once_claim \<Rightarrow> lease_tables \<Rightarrow> ('c fleet_error + bool) \<times> lease_tables" where
  "release_manual_run_without_marking_done o1 env c t =
     (case require_claim_matches_once o1 c of
        Inl e \<Rightarrow> (Inl e, t)
      | Inr _ \<Rightarrow> release_manual_renewal_claim (once_mutex o1) env (once_mutex_claim c) t)"

definition release_manual_run_without_marking_done_in_current_transaction ::
    "'c once \<Rightarrow> admission_reply \<Rightarrow> micros \<Rightarrow> once_claim \<Rightarrow> lease_tables tx
     \<Rightarrow> ('c fleet_error + bool) \<times> lease_tables tx" where
  "release_manual_run_without_marking_done_in_current_transaction o1 reply now c tx =
     (case require_claim_matches_once o1 c of
        Inl e \<Rightarrow> (Inl e, tx)
      | Inr _ \<Rightarrow> release_manual_renewal_claim_in_current_transaction (once_mutex o1) reply now (once_mutex_claim c) tx)"

definition absent_is_done :: "'c kv_error + unit \<Rightarrow> 'c fleet_error + unit" where
  "absent_is_done r = (case r of Inr _ \<Rightarrow> Inr () | Inl KvKeyNotFound \<Rightarrow> Inr () | Inl e \<Rightarrow> Inl (FleetKv e))"

definition try_reset_in_current_transaction ::
    "'c once \<Rightarrow> string \<Rightarrow> 'c id_error + string \<Rightarrow> 'c lease_call \<Rightarrow> admission_reply \<Rightarrow> micros \<Rightarrow> micros \<Rightarrow> 'a database tx
     \<Rightarrow> ('c fleet_error + bool) \<times> 'a database tx" where
  "try_reset_in_current_transaction o1 protocol new_id_text call reply delete_now release_now tx =
     do_then (tx_leases (try_claim_manual_renewal_in_current_transaction (once_mutex o1) new_id_text call) tx)
       (\<lambda>claimed tx. case claimed of
          None \<Rightarrow> (Inr False, tx)
        | Some c \<Rightarrow>
            do_then (tx_state (\<lambda>tx. map_prod absent_is_done id
                (item_delete_in_current_transaction (completion_item o1) protocol reply delete_now
                  [FLEET_ONCE_DONE_KEY_PART] tx)) tx) (\<lambda>_ tx.
              do_then (tx_leases (release_manual_renewal_claim_in_current_transaction (once_mutex o1)
                  (env_reply (call_env call)) release_now c) tx) (\<lambda>released tx.
                (if released then Inr True else Inl FleetRunOnceManualRunClaimNoLongerLive, tx))))"

definition try_reset ::
    "'c once \<Rightarrow> string \<Rightarrow> 'c id_error + string \<Rightarrow> pool_env \<Rightarrow> 'c lease_call \<Rightarrow> micros \<Rightarrow> micros \<Rightarrow> 'a database
     \<Rightarrow> ('c fleet_error + bool) \<times> 'a database" where
  "try_reset o1 protocol new_id_text env call delete_now release_now d =
     fleet_pool_write ''fleet.once.try_reset'' env
       (try_reset_in_current_transaction o1 protocol new_id_text call (env_reply env) delete_now release_now) d"

end
