(* ===== verification/OnceTask.thy ===== *)
theory OnceTask
  imports Once
begin

text \<open>
  \<open>src/src/db/fleet/once_task.rs\<close> and the entry points of \<open>once.rs\<close>: a task that is run under the guard of the
  mutex, with the marker written after it, or in the same transaction.

  What the heartbeat does to the guard and the lease tables before the task starts and while it runs is a
  function of the environment. A guard that is dropped by an early return releases its claim. The task of an
  atomic run has its rows by key, so that what others commit before the end of the transaction is kept.
\<close>

section \<open>Guards\<close>

record guard_env =
  before_task :: "mutex_guard \<Rightarrow> lease_tables \<Rightarrow> mutex_guard \<times> lease_tables"
  during_task :: "mutex_guard \<Rightarrow> lease_tables \<Rightarrow> mutex_guard \<times> lease_tables"
  guard_release :: pool_env
  guard_join :: "string option"
  guard_drop :: pool_env

definition release_once_guard :: "guard_env \<Rightarrow> mutex_guard \<Rightarrow> 'a database \<Rightarrow> ('c fleet_error + unit) \<times> 'a database" where
  "release_once_guard env g d =
     map_prod require_once_task_mutex_released id
       (on_leases (release (guard_release env) (guard_join env) (guard_drop env) g) d)"

definition drop_once_guard :: "guard_env \<Rightarrow> mutex_guard \<Rightarrow> 'a database \<Rightarrow> 'a database" where
  "drop_once_guard env g d = d\<lparr>db_leases := drop_guard (guard_drop env) g (db_leases d)\<rparr>"

definition release_once_claim :: "mutex \<Rightarrow> pool_env \<Rightarrow> mutex_claim \<Rightarrow> 'a database \<Rightarrow> ('c fleet_error + unit) \<times> 'a database" where
  "release_once_claim m env c d =
     map_prod require_once_task_mutex_released id (on_leases (release_manual_renewal_claim m env c) d)"

type_synonym ('v, 'e, 'a) once_task = "once_snapshot \<Rightarrow> kv_table \<times> 'a \<Rightarrow> ('e + 'v) \<times> (kv_table \<times> 'a)"

definition perform_task :: "('v, 'e, 'a) once_task \<Rightarrow> once_snapshot \<Rightarrow> 'a database \<Rightarrow> ('e + 'v) \<times> 'a database" where
  "perform_task task s d =
     (let (r, (state, app)) = task s (db_state d, db_app d) in (r, d\<lparr>db_state := state, db_app := app\<rparr>))"

section \<open>The task, then the marker\<close>

record once_task_env =
  task_check :: pool_env
  task_guard :: guard_env
  task_mark :: pool_env
  task_mark_mutation :: atomic_env

definition completion_after_task ::
    "'c once \<Rightarrow> once_task_env \<Rightarrow> once_snapshot \<Rightarrow> mutex_guard \<Rightarrow> 'a database \<Rightarrow> ('c fleet_error + unit) \<times> 'a database" where
  "completion_after_task o1 env s g d =
     (if leadership_lost g then (Inl FleetRunOnceManualRunClaimNoLongerLive, d)
      else case mark_completion o1 (task_mark env) (task_mark_mutation env) s (db_state d) of
        (r, t) \<Rightarrow> (result_bind r (\<lambda>marked. if marked then Inr ()
            else Inl FleetRunOnceCompletionAlreadyRecordedAfterStart), d\<lparr>db_state := t\<rparr>))"

definition run_task_after_acquiring_guard ::
    "'c once \<Rightarrow> string \<Rightarrow> once_task_env \<Rightarrow> mutex_guard \<Rightarrow> ('v, 'e, 'a) once_task \<Rightarrow> 'a database
     \<Rightarrow> (('c, 'e) once_run_error + 'v once_run_result) \<times> 'a database" where
  "run_task_after_acquiring_guard o1 protocol env g task d =
     (case check_done o1 protocol (task_check env) (db_state d) of
        Inl e \<Rightarrow> (Inl (OnceRunFleet e), drop_once_guard (task_guard env) g d)
      | Inr (Some completion) \<Rightarrow>
          (case release_once_guard (task_guard env) g d of
             (Inl e, d) \<Rightarrow> (Inl (OnceRunFleet e), d)
           | (Inr _, d) \<Rightarrow> (Inr (OnceAlreadyDone completion), d))
      | Inr None \<Rightarrow>
          (case on_leases (before_task (task_guard env) g) d of (g, d) \<Rightarrow>
             case live_claim_snapshot g of
               None \<Rightarrow>
                 (case release_once_guard (task_guard env) g d of
                    (Inl e, d) \<Rightarrow> (Inl (OnceRunFleet e), d)
                  | (Inr _, d) \<Rightarrow> (Inl (OnceRunFleet FleetRunOnceManualRunClaimNoLongerLive), d))
             | Some live \<Rightarrow>
                 let s = snapshot_from_mutex_guard_snapshot o1 live;
                     (task_result, d) = perform_task task s d;
                     (g, d) = on_leases (during_task (task_guard env) g) d
                 in case task_result of
                      Inl e \<Rightarrow>
                        (case release_once_guard (task_guard env) g d of
                           (Inr _, d) \<Rightarrow> (Inl (OnceRunTask e), d)
                         | (Inl release_error, d) \<Rightarrow> (Inl (OnceRunTaskAndRelease e release_error), d))
                    | Inr v \<Rightarrow>
                        let (completion_result, d) = completion_after_task o1 env s g d;
                            (release_result, d) = release_once_guard (task_guard env) g d
                        in ((case (completion_result, release_result) of
                               (Inr _, Inr _) \<Rightarrow> Inr (OnceRan v)
                             | (Inr _, Inl e) \<Rightarrow> Inl (OnceRunRelease e)
                             | (Inl e, Inr _) \<Rightarrow> Inl (OnceRunCompletionFailed e)
                             | (Inl e, Inl release_error) \<Rightarrow> Inl (OnceRunCompletionAndReleaseFailed e release_error)), d)))"

section \<open>The task and the marker in one transaction\<close>

record ('c, 'a) atomic_task_env =
  atomic_tx :: pool_env
  atomic_guard :: guard_env
  atomic_renew :: "'c lease_call"
  atomic_mark :: atomic_env
  claim_release :: pool_env
  second_claim_release :: pool_env
  others_before_task :: "'a database \<Rightarrow> 'a database"
  others_after_task :: "'a database \<Rightarrow> 'a database"

definition rollback_result :: "rollback_outcome \<Rightarrow> 'c fleet_error + unit" where
  "rollback_result r = (case r of RolledBack \<Rightarrow> Inr () | RollbackFailed e \<Rightarrow> Inl (FleetDatabase (DbTransaction e)))"

text \<open>\<open>rollback_transaction_and_release_after_task_error\<close> and \<open>rollback_transaction_and_release_after_fleet_error\<close>, on their two results.\<close>

definition after_task_error ::
    "'e \<Rightarrow> 'c fleet_error + unit \<Rightarrow> 'c fleet_error + unit \<Rightarrow> ('c, 'e) once_transactional_run_error" where
  "after_task_error source rollback release_result =
     (case (rollback, release_result) of
        (Inr _, Inr _) \<Rightarrow> OnceTxTask source
      | (Inr _, Inl e) \<Rightarrow> OnceTxTaskAndRelease source e
      | (Inl e, Inr _) \<Rightarrow> OnceTxTaskAndTransactionRollback source e
      | (Inl e, Inl e') \<Rightarrow> OnceTxTaskTransactionRollbackAndRelease source e e')"

definition after_fleet_error ::
    "'c fleet_error \<Rightarrow> 'c fleet_error + unit \<Rightarrow> 'c fleet_error + unit \<Rightarrow> ('c, 'e) once_transactional_run_error" where
  "after_fleet_error source rollback release_result =
     (case (rollback, release_result) of
        (Inr _, Inr _) \<Rightarrow> OnceTxFleet source
      | (Inr _, Inl e) \<Rightarrow> OnceTxTransactionAndRelease source e
      | (Inl e, Inr _) \<Rightarrow> OnceTxFleet e
      | (Inl e, Inl e') \<Rightarrow> OnceTxTransactionAndRelease e e')"

text \<open>The combination of the branches after the heartbeat was stopped.\<close>

definition after_stopped_guard ::
    "'c fleet_error \<Rightarrow> 'c fleet_error + unit \<Rightarrow> 'c fleet_error + unit \<Rightarrow> ('c, 'e) once_transactional_run_error" where
  "after_stopped_guard source rollback release_result =
     (case (rollback, release_result) of
        (Inr _, Inr _) \<Rightarrow> OnceTxFleet source
      | (Inr _, Inl e) \<Rightarrow> OnceTxTransactionAndRelease source e
      | (Inl e, Inr _) \<Rightarrow> OnceTxTransactionAndRelease source e
      | (Inl e, Inl e') \<Rightarrow> OnceTxTransactionAndRelease e e')"

definition release_after_failed_atomic_once_transaction ::
    "mutex \<Rightarrow> pool_env \<Rightarrow> pool_env \<Rightarrow> mutex_claim \<Rightarrow> mutex_claim \<Rightarrow> 'a database \<Rightarrow> ('c fleet_error + unit) \<times> 'a database" where
  "release_after_failed_atomic_once_transaction m env env' renewed original d =
     (case on_leases (release_manual_renewal_claim m env renewed) d of
        (r, d) \<Rightarrow> if r = (Inr True :: 'c fleet_error + bool) then (Inr (), d) else release_once_claim m env' original d)"

text \<open>What follows the task: \<open>d\<close> is what is committed when the heartbeat was stopped, \<open>tx\<close> the transaction.\<close>

definition finish_atomic_task ::
    "'c once \<Rightarrow> ('c, 'a) atomic_task_env \<Rightarrow> mutex_guard \<Rightarrow> 'v \<Rightarrow> 'a database \<Rightarrow> 'a database tx
     \<Rightarrow> (('c, 'e) once_transactional_run_error + 'v once_run_result) \<times> 'a database" where
  "finish_atomic_task o1 env g v d tx =
     (let (m, claim, stop_result) = stop_heartbeat_and_take_current_claim (guard_join (atomic_guard env)) g;
          rollback = rollback_result (env_rollback (atomic_tx env))
      in case stop_result of
        Inl e \<Rightarrow>
          let (release_result, d) = (case claim of
                Some c \<Rightarrow> release_once_claim m (claim_release env) c d | None \<Rightarrow> (Inr (), d))
          in (Inl (after_stopped_guard e rollback release_result), d)
      | Inr _ \<Rightarrow>
          (case claim of
             None \<Rightarrow> (Inl (OnceTxFleet (case rollback of
                 Inr _ \<Rightarrow> FleetRunOnceManualRunClaimNoLongerLive | Inl e \<Rightarrow> e)), d)
           | Some current \<Rightarrow>
               (case tx_leases (try_renew_manual_renewal_claim_in_current_transaction m (atomic_renew env) current) tx of
                  (Inl e, tx) \<Rightarrow> (Inl (OnceTxFleet e), d)
                | (Inr None, tx) \<Rightarrow>
                    let (release_result, d) = release_once_claim m (claim_release env) current d
                    in (Inl (after_stopped_guard FleetRunOnceManualRunClaimNoLongerLive rollback release_result), d)
                | (Inr (Some renewed), tx) \<Rightarrow>
                    (case tx_state (mark_completion_in_current_transaction o1 (atomic_mark env)
                        (claim_holder_id (claim_lease renewed)) (claim_fencing_token (claim_lease renewed))) tx of
                       (Inl e, tx) \<Rightarrow> (Inl (OnceTxFleet e), d)
                     | (Inr False, tx) \<Rightarrow>
                         let (release_result, d) = release_after_failed_atomic_once_transaction m (claim_release env)
                               (second_claim_release env) renewed current d
                         in (Inl (after_stopped_guard FleetRunOnceCompletionAlreadyRecordedAfterStart rollback
                               release_result), d)
                     | (Inr True, tx) \<Rightarrow>
                         (case env_commit (atomic_tx env) of
                            Committed \<Rightarrow>
                              (case release_once_claim m (claim_release env) renewed (tables tx) of
                                 (Inl e, d) \<Rightarrow> (Inl (OnceTxRelease e), d)
                               | (Inr _, d) \<Rightarrow> (Inr (OnceRan v), d))
                          | CommitFailed e durable \<Rightarrow>
                              (case release_after_failed_atomic_once_transaction m (claim_release env)
                                  (second_claim_release env) renewed current (if durable then tables tx else d) of
                                 (Inr _, d) \<Rightarrow> (Inl (OnceTxFleet (FleetDatabase (DbTransaction e))), d)
                               | (Inl release_error, d) \<Rightarrow>
                                   (Inl (OnceTxTransactionAndRelease (FleetDatabase (DbTransaction e)) release_error), d)))))))"

text \<open>
  Up to the marking the transaction, which is READ COMMITTED, holds no row of the once task: between its
  statements others commit. So the code is cut into three pieces, and each of them meets the rows that are committed
  when it runs: \<open>begin_atomic_task\<close> ends with the check of the marker, \<open>perform_atomic_task\<close> with the task,
  \<open>finish_atomic_task\<close> with the commit and the release. The task runs on the rows \<open>seen\<close> and leaves \<open>written\<close>;
  later statements of the transaction see these writes on top of what is committed by then. From the
  renewal on the transaction holds the row of the lease, and from the marking on the row of the marker, until it
  ends: nobody else writes them, so renewal, marking and commit are one piece.
\<close>

definition merge_writes :: "('k \<Rightarrow> 'r) \<Rightarrow> ('k \<Rightarrow> 'r) \<Rightarrow> ('k \<Rightarrow> 'r) \<Rightarrow> 'k \<Rightarrow> 'r" where
  "merge_writes seen written committed k = (if written k = seen k then committed k else written k)"

definition transaction_view ::
    "('k \<Rightarrow> 'r) database \<Rightarrow> ('k \<Rightarrow> 'r) database \<Rightarrow> ('k \<Rightarrow> 'r) database \<Rightarrow> ('k \<Rightarrow> 'r) database" where
  "transaction_view seen written d =
     d\<lparr>db_state := merge_writes (db_state seen) (db_state written) (db_state d),
       db_app := merge_writes (db_app seen) (db_app written) (db_app d)\<rparr>"

definition begin_atomic_task ::
    "'c once \<Rightarrow> string \<Rightarrow> ('c, 'a) atomic_task_env \<Rightarrow> mutex_guard \<Rightarrow> 'a database
     \<Rightarrow> (((('c, 'e) once_transactional_run_error + 'v once_run_result)) + string set) \<times> 'a database" where
  "begin_atomic_task o1 protocol env g d =
     (let genv = atomic_guard env; rollback = rollback_result (env_rollback (atomic_tx env)) in
      case env_begin (atomic_tx env) of
        Some e \<Rightarrow> (Inl (Inl (OnceTxFleet (FleetDatabase (DbTransaction e)))), drop_once_guard genv g d)
      | None \<Rightarrow>
          (case tx_state (check_done_in_current_transaction o1 protocol (env_reply (atomic_tx env)) (env_now (atomic_tx env)))
              (begin_transaction d) of
             (Inl e, tx) \<Rightarrow> (Inl (Inl (OnceTxFleet e)), drop_once_guard genv g d)
           | (Inr (Some completion), tx) \<Rightarrow>
               let (release_result, d) = release_once_guard genv g d
               in (Inl (case (rollback, release_result) of
                      (Inr _, Inr _) \<Rightarrow> Inr (OnceAlreadyDone completion)
                    | (Inr _, Inl e) \<Rightarrow> Inl (OnceTxRelease e)
                    | (Inl e, Inr _) \<Rightarrow> Inl (OnceTxFleet e)
                    | (Inl e, Inl e') \<Rightarrow> Inl (OnceTxTransactionAndRelease e e')), d)
           | (Inr None, tx) \<Rightarrow> (Inr (admitted_protocols tx), d)))"

definition perform_atomic_task ::
    "'c once \<Rightarrow> ('c, 'a) atomic_task_env \<Rightarrow> mutex_guard \<Rightarrow> ('v, 'e, 'a) once_task \<Rightarrow> 'a database
     \<Rightarrow> ((('c, 'e) once_transactional_run_error + 'v once_run_result) + (mutex_guard \<times> 'v \<times> 'a database \<times> 'a database))
        \<times> 'a database" where
  "perform_atomic_task o1 env g task d =
     (let genv = atomic_guard env; rollback = rollback_result (env_rollback (atomic_tx env)) in
      case on_leases (before_task genv g) d of (g, d) \<Rightarrow>
        case live_claim_snapshot g of
          None \<Rightarrow>
            let (release_result, d) = release_once_guard genv g d
            in (Inl (Inl (after_fleet_error FleetRunOnceManualRunClaimNoLongerLive rollback release_result)), d)
        | Some live \<Rightarrow>
            let (task_result, written) = perform_task task (snapshot_from_mutex_guard_snapshot o1 live) d;
                seen = d;
                (g, d) = on_leases (during_task genv g) d
            in case task_result of
                 Inl source \<Rightarrow>
                   let (release_result, d) = release_once_guard genv g d
                   in (Inl (Inl (after_task_error source rollback release_result)), d)
               | Inr v \<Rightarrow> (Inr (g, v, seen, written), d))"

text \<open>The whole: what others commit between the pieces is a function of the environment.\<close>

definition run_task_atomically_after_acquiring_guard ::
    "'c once \<Rightarrow> string \<Rightarrow> ('c, 'k \<Rightarrow> 'r) atomic_task_env \<Rightarrow> mutex_guard \<Rightarrow> ('v, 'e, 'k \<Rightarrow> 'r) once_task
     \<Rightarrow> ('k \<Rightarrow> 'r) database
     \<Rightarrow> (('c, 'e) once_transactional_run_error + 'v once_run_result) \<times> ('k \<Rightarrow> 'r) database" where
  "run_task_atomically_after_acquiring_guard o1 protocol env g task d =
     (case begin_atomic_task o1 protocol env g d of
        (Inl answer, d) \<Rightarrow> (answer, d)
      | (Inr admissions, d) \<Rightarrow>
          (case perform_atomic_task o1 env g task (others_before_task env d) of
             (Inl answer, d) \<Rightarrow> (answer, d)
           | (Inr (g, v, seen, written), d) \<Rightarrow>
               let d = others_after_task env d
               in finish_atomic_task o1 env g v d
                    \<lparr>admitted_protocols = admissions, tables = transaction_view seen written d\<rparr>))"

section \<open>Entry points\<close>

record 'c once_entry_env =
  entry_check :: pool_env
  entry_id_text :: "'c id_error + string"
  entry_call :: "'c lease_call"
  held_check :: pool_env

definition once_guard_config :: mutex_guard_config where
  "once_guard_config = \<lparr>config_heartbeat_interval = None, config_acquire_retry_interval = None,
     config_max_acquire_retry_interval = None, config_max_consecutive_renewal_failures = None\<rparr>"

fun tried :: "'v once_run_result \<Rightarrow> 'v once_try_run_result" where
  "tried (OnceRan v) = OnceTryRan v"
| "tried (OnceAlreadyDone completion) = OnceTryAlreadyDone completion"

text \<open>Both forms of the entry points: \<open>into\<close> is the error of a Fleet operation, \<open>run\<close> what follows the claim.\<close>

definition try_run_entry ::
    "('c fleet_error \<Rightarrow> 'x) \<Rightarrow> 'c once \<Rightarrow> string \<Rightarrow> 'c once_entry_env
     \<Rightarrow> (mutex_guard \<Rightarrow> 'a database \<Rightarrow> ('x + 'v once_run_result) \<times> 'a database) \<Rightarrow> 'a database
     \<Rightarrow> ('x + 'v once_try_run_result) \<times> 'a database" where
  "try_run_entry into o1 protocol env run d =
     (case check_done o1 protocol (entry_check env) (db_state d) of
        Inl e \<Rightarrow> (Inl (into e), d)
      | Inr (Some completion) \<Rightarrow> (Inr (OnceTryAlreadyDone completion), d)
      | Inr None \<Rightarrow>
          (case on_leases (try_claim_guard (once_mutex o1) (entry_id_text env) (entry_call env) once_guard_config) d of
             (Inl e, d) \<Rightarrow> (Inl (into e), d)
           | (Inr (Some (g, _)), d) \<Rightarrow> map_prod (map_sum id tried) id (run g d)
           | (Inr None, d) \<Rightarrow>
               (case check_done o1 protocol (held_check env) (db_state d) of
                  Inl e \<Rightarrow> (Inl (into e), d)
                | Inr (Some completion) \<Rightarrow> (Inr (OnceTryAlreadyDone completion), d)
                | Inr None \<Rightarrow> (Inr OnceTryAlreadyRunning, d))))"

definition try_run_once_task where
  "try_run_once_task o1 protocol entry env task =
     try_run_entry OnceRunFleet o1 protocol entry (\<lambda>g. run_task_after_acquiring_guard o1 protocol env g task)"

definition try_run_task_atomically where
  "try_run_task_atomically o1 protocol entry env task =
     try_run_entry OnceTxFleet o1 protocol entry (\<lambda>g. run_task_atomically_after_acquiring_guard o1 protocol env g task)"

text \<open>The waiting forms; \<open>None\<close> is a loop still waiting when the attempts end.\<close>

definition run_entry_when_available ::
    "('c fleet_error \<Rightarrow> 'x) \<Rightarrow> 'c once \<Rightarrow> string \<Rightarrow> pool_env \<Rightarrow> 'c id_error + string
     \<Rightarrow> ('c lease_call \<times> (nanos \<Rightarrow> string + nanos)) list
     \<Rightarrow> (mutex_guard \<Rightarrow> 'a database \<Rightarrow> ('x + 'v once_run_result) \<times> 'a database) \<Rightarrow> 'a database
     \<Rightarrow> (('x + 'v once_run_result) \<times> 'a database) option" where
  "run_entry_when_available into o1 protocol check new_id_text attempts run d =
     (case check_done o1 protocol check (db_state d) of
        Inl e \<Rightarrow> Some (Inl (into e), d)
      | Inr (Some completion) \<Rightarrow> Some (Inr (OnceAlreadyDone completion), d)
      | Inr None \<Rightarrow>
          (case fst (claim_guard_when_available (once_mutex o1) new_id_text once_guard_config attempts (db_leases d)) of
             None \<Rightarrow> None
           | Some (Inl e, t) \<Rightarrow> Some (Inl (into e), d\<lparr>db_leases := t\<rparr>)
           | Some (Inr g, t) \<Rightarrow> Some (run g (d\<lparr>db_leases := t\<rparr>))))"

definition run_once_task_when_available where
  "run_once_task_when_available o1 protocol check new_id_text attempts env task =
     run_entry_when_available OnceRunFleet o1 protocol check new_id_text attempts
       (\<lambda>g. run_task_after_acquiring_guard o1 protocol env g task)"

definition run_task_atomically_when_available where
  "run_task_atomically_when_available o1 protocol check new_id_text attempts env task =
     run_entry_when_available OnceTxFleet o1 protocol check new_id_text attempts
       (\<lambda>g. run_task_atomically_after_acquiring_guard o1 protocol env g task)"

end
