(* ===== verification/OnceSafety.thy ===== *)
theory OnceSafety
  imports OnceTask
begin

text \<open>
  A task that is run in the transaction of its marker takes effect at most once.
\<close>

section \<open>The marker\<close>

definition marker_is :: "'c once \<Rightarrow> once_completion option \<Rightarrow> kv_table \<Rightarrow> bool" where
  "marker_is o1 x t \<longleftrightarrow> (\<exists>key. item_key_is (completion_item o1) [FLEET_ONCE_DONE_KEY_PART] key
     \<and> lasting_option (completion_item o1) key x t)"

definition keeps_marker :: "'c once \<Rightarrow> kv_table \<Rightarrow> kv_table \<Rightarrow> bool" where
  "keeps_marker o1 t t' \<longleftrightarrow> (\<forall>key. item_key_is (completion_item o1) [FLEET_ONCE_DONE_KEY_PART] key \<longrightarrow> t' key = t key)"

definition other_keys :: "'c once \<Rightarrow> kv_table \<Rightarrow> kv_table \<Rightarrow> bool" where
  "other_keys o1 t t' \<longleftrightarrow> (\<forall>key. \<not> item_key_is (completion_item o1) [FLEET_ONCE_DONE_KEY_PART] key \<longrightarrow> t' key = t key)"

definition made_once :: "'c once \<Rightarrow> bool" where
  "made_once o1 \<longleftrightarrow> faithful (completion_item o1) \<and> item_codec (completion_item o1) = Plain"

lemma new_once_made: "new_once base p root key duration = Inr o1 \<Longrightarrow> faithful base \<Longrightarrow> made_once o1"
  by (auto simp: new_once_def result_bind_eq_Inr_iff made_once_def)



lemma check_done_effect:
  assumes made: "made_once o1" and marker: "marker_is o1 x t" and run: "check_done o1 p env t = Inr y"
  shows "y = x"
proof -
  obtain key where key: "item_key_is (completion_item o1) [FLEET_ONCE_DONE_KEY_PART] key"
    and x: "lasting_option (completion_item o1) key x t" using marker by (auto simp: marker_is_def)
  note got = lasting_get [OF x key made [unfolded made_once_def, THEN conjunct2]]
  show ?thesis using run got
    by (auto simp: check_done_def done_or_none_def split: sum.splits kv_error.splits)
qed

lemma check_done_in_transaction_effect:
  assumes made: "made_once o1" and marker: "marker_is o1 x (tables tx)"
    and run: "check_done_in_current_transaction o1 p reply now tx = (r, tx')"
  shows "tables tx' = tables tx" and "r = Inr y \<Longrightarrow> y = x"
proof -
  obtain key where key: "item_key_is (completion_item o1) [FLEET_ONCE_DONE_KEY_PART] key"
    and x: "lasting_option (completion_item o1) key x (tables tx)" using marker by (auto simp: marker_is_def)
  obtain q where get: "item_get_in_current_transaction (completion_item o1) p reply now [FLEET_ONCE_DONE_KEY_PART] tx = (q, tx')"
    and r: "r = done_or_none q"
    using run by (auto simp: check_done_in_current_transaction_def map_prod_def split: prod.splits)
  note got = lasting_get_in_transaction [OF x key made [unfolded made_once_def, THEN conjunct2] get]
  show "tables tx' = tables tx" by (rule got)
  show "r = Inr y \<Longrightarrow> y = x" using r got by (auto simp: done_or_none_def split: sum.splits kv_error.splits)
qed

text \<open>Marking reports success exactly for the one that set the marker.\<close>

lemma set_outcome:
  assumes "mutate_key_atomically_in_transaction_internal (into_error :: 'c kv_error \<Rightarrow> 'e) env key decide cleanup tx
      = (Inr (res, c), tx')"
    and "result_outcome res = DidSetBytes"
  shows "\<exists>n v ttl. decide \<lparr>current_live_value = result_previous_live_value res, current_timestamp = n\<rparr> = Inr (SetBytes v ttl, c)"
proof -
  obtain r1 tx1 where lock: "map_error into_error (lock_key_for_atomic_mutation env key tx) = (r1, tx1)" by fastforce
  obtain inserted locked where r1: "r1 = Inr (inserted, locked)"
    using assms(1) lock by (cases r1) (auto simp: mutate_key_atomically_in_transaction_internal_def do_then_def)
  obtain row where row: "locked = Some row"
    using assms(1) lock r1 by (cases locked) (simp_all add: mutate_key_atomically_in_transaction_internal_def do_then_def)
  let ?prev = "if locked_is_live row then Some (locked_value row) else None"
  let ?current = "\<lparr>current_live_value = ?prev, current_timestamp = locked_timestamp row\<rparr>"
  obtain m where d: "decide ?current = Inr (m, c)"
    and a: "do_then (map_error into_error (apply_atomic_mutation env key m (?prev \<noteq> None) inserted tx1))
        (\<lambda>outcome tx. (Inr (\<lparr>result_previous_live_value = ?prev, result_outcome = outcome\<rparr>, c), tx)) = (Inr (res, c), tx')"
  proof (cases "decide ?current")
    case (Inl e)
    then show ?thesis using assms(1) lock r1 row
      by (auto simp: mutate_key_atomically_in_transaction_internal_def do_then_def Let_def split: if_splits prod.splits sum.splits)
  next
    case (Inr mc)
    obtain m c' where mc: "mc = (m, c')" by fastforce
    have run: "do_then (map_error into_error (apply_atomic_mutation env key m (?prev \<noteq> None) inserted tx1))
        (\<lambda>outcome tx. (Inr (\<lparr>result_previous_live_value = ?prev, result_outcome = outcome\<rparr>, c'), tx)) = (Inr (res, c), tx')"
      using assms(1) lock r1 row Inr mc
      by (simp add: mutate_key_atomically_in_transaction_internal_def do_then_def [of "map_error into_error (lock_key_for_atomic_mutation env key tx)"] Let_def)
    have "c' = c" using run by (auto simp: do_then_def split: prod.splits sum.splits)
    then show ?thesis using that [of m] run Inr mc by simp
  qed
  have prev: "result_previous_live_value res = (if locked_is_live row then Some (locked_value row) else None)"
    and out: "fst (apply_atomic_mutation env key m ((if locked_is_live row then Some (locked_value row) else None) \<noteq> None) inserted tx1)
      = (Inr (result_outcome res) :: 'c kv_error + _)"
    using a by (auto simp: do_then_def map_error_def map_sum_eq_Inr_iff split: prod.splits sum.splits)
  have "\<exists>v ttl. m = SetBytes v ttl"
    using out assms(2) by (cases m) (auto simp: do_then_def split: prod.splits sum.splits if_splits)
  then show ?thesis using d unfolding prev by blast
qed

lemma mark_effect:
  fixes o1 :: "'c once"
  assumes made: "made_once o1" and marker: "marker_is o1 x (tables tx)"
    and run: "mark_completion_in_current_transaction o1 aenv holder fencing tx = (Inr True, tx')"
  shows "x = None \<and> (\<exists>at. marker_is o1 (Some \<lparr>finished_at = at, completion_holder_id = holder,
      completion_fencing_token = fencing\<rparr>) (tables tx'))
    \<and> other_keys o1 (tables tx) (tables tx')"
proof -
  obtain key where key: "item_key_is (completion_item o1) [FLEET_ONCE_DONE_KEY_PART] key"
    and x: "lasting_option (completion_item o1) key x (tables tx)" using marker by (auto simp: marker_is_def)
  obtain res where mut: "mutate_item_in_transaction_internal FleetKv (completion_item o1) aenv [FLEET_ONCE_DONE_KEY_PART]
      (decide_completion holder fencing) True tx = (Inr (res, ()) :: 'c fleet_error + _, tx')" and out: "item_outcome res = DidSetBytes"
    using run by (auto simp: mark_completion_in_current_transaction_def item_mutate_atomically_in_current_transaction_def
        map_prod_def map_sum_eq_Inr_iff split: prod.splits sum.splits)
  obtain raw where raw: "mutate_key_atomically_in_transaction_internal FleetKv aenv key
      (decide_item FleetKv (completion_item o1) key (decide_completion holder fencing)) True tx
        = (Inr (raw, (item_previous_live_value res, ())) :: 'c fleet_error + _, tx')" and raw_out: "result_outcome raw = DidSetBytes"
    using mut out key unfolding mutate_item_in_transaction_internal_def with_key_def item_key_is_def
    by (auto simp: do_then_def split: prod.splits sum.splits)
  have none: "item_previous_live_value res = None"
    using set_outcome [OF raw raw_out]
    by (cases "item_previous_live_value res")
      (auto simp: decide_item_def decide_completion_def result_bind_eq_Inr_iff map_sum_eq_Inr_iff
        encode_atomic_mutation_for_key_def)
  have faith: "faithful (completion_item o1)" and writes: "writes_lasting (decide_completion holder fencing)"
    using made by (auto simp: made_once_def writes_lasting_def decide_completion_def split: if_splits)
  obtain n m where d: "decide_completion holder fencing \<lparr>item_live_value = x, item_timestamp = n\<rparr> = (Inr (m, ()) :: 'c fleet_error + _)"
    and after: "lasting_option (completion_item o1) key (case m of SetValue w _ \<Rightarrow> Some w | _ \<Rightarrow> x) (tables tx')"
    and frame: "\<And>k. k \<noteq> key \<Longrightarrow> tables tx' k = tables tx k"
    by (rule lasting_mutation [OF faith writes key mut x]) (rule that, assumption+)
  have x': "x = None"
  proof -
    obtain lock_now where "result_previous_live_value raw = get_bytes_statement lock_now key (tables tx)"
      using mutate_success [OF mutate_ok_admitted [OF raw] raw] by blast
    moreover have "result_previous_live_value raw = None"
      using set_outcome [OF raw raw_out] none
      by (cases "result_previous_live_value raw")
        (auto simp: decide_item_def result_bind_eq_Inr_iff map_sum_eq_Inr_iff transpose_option_def split: sum.splits)
    ultimately show ?thesis using lasting_option_at [OF x, of lock_now] by (cases x) (auto simp: item_at_def)
  qed
  then have "m = SetValue \<lparr>finished_at = n, completion_holder_id = holder, completion_fencing_token = fencing\<rparr> NO_EXPIRATION"
    using d by (simp add: decide_completion_def)
  moreover have "other_keys o1 (tables tx) (tables tx')"
    unfolding other_keys_def using frame key by metis
  ultimately show ?thesis using x' after key by (auto simp: marker_is_def)
qed

section \<open>Runs of a task\<close>


lemma drop_rest [simp]: "same_rest d (drop_once_guard env g d)" by (simp add: same_rest_def drop_once_guard_def)


lemma mutex_renew_in_transaction:
  fixes call :: "'c lease_call"
  assumes "tx_leases (try_renew_manual_renewal_claim_in_current_transaction m call c) tx
    = (Inr (Some renewed) :: 'c fleet_error + mutex_claim option, tx')"
  obtains r where "leases (db_leases (tables tx)) (claim_key (claim_lease c)) = Some r"
    and "row_matches (env_now (call_env call)) (claim_holder_id (claim_lease c)) (claim_fencing_token (claim_lease c))
      (claim_lease_token (claim_lease c)) r"
    and "claim_key (claim_lease renewed) = claim_key (claim_lease c)"
    and "claim_key (claim_lease c) = mutex_lease_key m"
    and "claim_holder_id (claim_lease renewed) = claim_holder_id (claim_lease c)"
    and "claim_fencing_token (claim_lease renewed) = claim_fencing_token (claim_lease c)" and "same_rest (tables tx) (tables tx')"
proof -
  let ?part = "\<lparr>admitted_protocols = admitted_protocols tx, tables = db_leases (tables tx)\<rparr>" and ?c = "claim_lease c"
  obtain part where run: "try_renew_manual_renewal_claim_in_current_transaction m call c ?part
      = (Inr (Some renewed) :: 'c fleet_error + _, part)"
    using assms by (auto simp: tx_leases_def split: prod.splits)
  obtain q part' where q: "try_renew_lease_in_current_transaction (mutex_protocol m) (call_random call)
      (env_reply (call_env call)) (env_now (call_env call)) ?c (mutex_claim_duration m) ?part = (q :: 'c lease_error + _, part')"
    by fastforce
  obtain l where l: "q = Inr (Some l)" "renewed = claim_from_lease_claim m l" "part' = part"
    using run q by (cases "require_claim_matches_mutex m c :: 'c fleet_error + unit"; cases q)
      (auto simp: try_renew_manual_renewal_claim_in_current_transaction_def wrap_claim_def)
  obtain next_token where "admitted (mutex_protocol m) (env_reply (call_env call)) LeaseDatabase
      (try_renew_lease_with_executor (env_now (call_env call)) ?c next_token (mutex_claim_duration m)) ?part
        = (Inr (Some l) :: 'c lease_error + _, part)"
    using q l by (auto simp: try_renew_lease_in_current_transaction_def split: sum.splits)
  from admitted_success [OF this]
  have "try_renew_lease_with_executor (env_now (call_env call)) ?c next_token (mutex_claim_duration m) (db_leases (tables tx))
      = (Inr (Some l) :: 'c lease_error + _, tables part)" by simp
  then obtain us r' where st: "renew_lease_statement (env_now (call_env call)) (claim_key ?c) (claim_holder_id ?c)
        (claim_fencing_token ?c) (claim_lease_token ?c) next_token us (db_leases (tables tx)) = (Inr (Some r'), tables part)"
      and l': "l = claim_of_row (claim_key ?c) r'"
    by (auto simp: try_renew_lease_with_executor_def split: sum.splits prod.splits dest!: decode_claim_Some)
  show ?thesis
  proof (rule that)
    show "claim_key (claim_lease renewed) = claim_key ?c" by (simp add: l(2) l' claim_from_lease_claim_def claim_of_row_def)
    show "same_rest (tables tx) (tables tx')" by (rule tx_leases_rest [OF assms])
    show "claim_key ?c = mutex_lease_key m"
      using run by (auto simp: try_renew_manual_renewal_claim_in_current_transaction_def require_claim_matches_mutex_def split: if_splits)
    show "claim_holder_id (claim_lease renewed) = claim_holder_id ?c"
      "claim_fencing_token (claim_lease renewed) = claim_fencing_token ?c"
      using st by (auto simp: l(2) l' claim_from_lease_claim_def claim_of_row_def renew_lease_statement_def row_matches_def Let_def
          split: option.splits if_splits)
    obtain r where "leases (db_leases (tables tx)) (claim_key ?c) = Some r"
      using st by (cases "leases (db_leases (tables tx)) (claim_key ?c)") (auto simp: renew_lease_statement_def)
    then show "leases (db_leases (tables tx)) (claim_key ?c) = Some (the (leases (db_leases (tables tx)) (claim_key ?c)))"
      "row_matches (env_now (call_env call)) (claim_holder_id ?c) (claim_fencing_token ?c) (claim_lease_token ?c)
        (the (leases (db_leases (tables tx)) (claim_key ?c)))"
      using st by (auto simp: renew_lease_statement_def Let_def split: if_splits)
  qed
qed


definition ran_value :: "('x + 'v once_run_result) \<Rightarrow> 'v option" where
  "ran_value r = (case r of Inr (OnceRan v) \<Rightarrow> Some v | _ \<Rightarrow> None)"

text \<open>The row of the lease was live at some instant and carried the claim.\<close>

definition owns_lease :: "string \<Rightarrow> claim \<Rightarrow> lease_tables \<Rightarrow> bool" where
  "owns_lease key c t \<longleftrightarrow> claim_key c = key \<and> (\<exists>now row. leases t key = Some row
     \<and> row_matches now (claim_holder_id c) (claim_fencing_token c) (claim_lease_token c) row)"



text \<open>A task that leaves the row of the marker alone.\<close>

definition respects_marker :: "'c once \<Rightarrow> ('v, 'e, 'a) once_task \<Rightarrow> bool" where
  "respects_marker o1 task \<longleftrightarrow> (\<forall>s t app. keeps_marker o1 t (fst (snd (task s (t, app)))))"



text \<open>The answer of a piece that performed the task is what the task made of the rows it saw.\<close>

definition task_made ::
    "('v, 'e, 'a) once_task \<Rightarrow> 'v \<Rightarrow> 'a database \<Rightarrow> 'a database \<Rightarrow> bool" where
  "task_made task v seen written \<longleftrightarrow>
     (\<exists>s. task s (db_state seen, db_app seen) = (Inr v, (db_state written, db_app written)))"

text \<open>The heartbeat keeps the mutex of its guard.\<close>

definition same_mutex :: "guard_env \<Rightarrow> bool" where
  "same_mutex env \<longleftrightarrow> (\<forall>g t. guard_mutex (fst (before_task env g t)) = guard_mutex g
     \<and> guard_mutex (fst (during_task env g t)) = guard_mutex g)"



section \<open>Any number of attempts\<close>

text \<open>
  A log entry is an attempt that ended: its task, the value if it answered that it ran the task, and the
  committed database before and after its last piece. An effect is an answered value, or any change of the
  application's rows or of the state table.
\<close>

type_synonym ('v, 'e, 'a) once_entry = "('v, 'e, 'a) once_task \<times> 'v option \<times> 'a database \<times> 'a database"

definition effective :: "('v, 'e, 'a) once_entry \<Rightarrow> bool" where
  "effective entry = (case entry of (task, answer, d, d') \<Rightarrow> answer \<noteq> None \<or> \<not> same_rest d d')"

text \<open>
  What the one effect is: there was no marker, the row of the lease was live and carried the claim whose holder and
  fencing token the marker now has, and the rows that the task wrote, and only those, were written.
\<close>

definition takes_effect ::
    "'c once \<Rightarrow> ('v, 'e, 'k \<Rightarrow> 'r) once_task \<Rightarrow> 'v option \<Rightarrow> ('k \<Rightarrow> 'r) database \<Rightarrow> ('k \<Rightarrow> 'r) database \<Rightarrow> bool" where
  "takes_effect o1 task answer d d' \<longleftrightarrow>
     marker_is o1 None (db_state d)
     \<and> (\<exists>c at. owns_lease (mutex_lease_key (once_mutex o1)) c (db_leases d)
          \<and> marker_is o1 (Some \<lparr>finished_at = at, completion_holder_id = claim_holder_id c,
               completion_fencing_token = claim_fencing_token c\<rparr>) (db_state d'))
     \<and> (\<exists>v seen written. task_made task v seen written \<and> (answer = None \<or> answer = Some v)
          \<and> db_app d' = merge_writes (db_app seen) (db_app written) (db_app d)
          \<and> other_keys o1 (merge_writes (db_state seen) (db_state written) (db_state d)) (db_state d'))"

definition faithful_entry :: "'c once \<Rightarrow> ('v, 'e, 'k \<Rightarrow> 'r) once_entry \<Rightarrow> bool" where
  "faithful_entry o1 entry = (case entry of (task, answer, d, d') \<Rightarrow> takes_effect o1 task answer d d')"

lemma entry_simps [simp]:
  "effective (task, answer, d, d') \<longleftrightarrow> answer \<noteq> None \<or> \<not> same_rest d d'"
  "faithful_entry o1 (task, answer, d, d') \<longleftrightarrow> takes_effect o1 task answer d d'"
  by (simp_all add: effective_def faithful_entry_def)


text \<open>
  Attempts of any processes, whose pieces interleave with each other's in any order, with any tasks and outcomes of their
  calls and commits; an attempt may also stop for ever between two pieces. The rest of the world, the other
  forms of a run among it, changes the leases and the rows at any time and may set the marker; it does not
  remove it.
\<close>

datatype ('v, 'e, 'a) once_attempt =
    Checked mutex_guard "string set" "('v, 'e, 'a) once_task"
  | Performed mutex_guard "string set" "('v, 'e, 'a) once_task" 'v "'a database" "'a database"

definition keeps_done :: "'c once \<Rightarrow> kv_table \<Rightarrow> kv_table \<Rightarrow> bool" where
  "keeps_done o1 t t' \<longleftrightarrow> keeps_marker o1 t t' \<or> (\<exists>c. marker_is o1 (Some c) t')"

inductive once_run ::
    "'c once \<Rightarrow> ('v, 'e, 'k \<Rightarrow> 'r) once_entry list \<Rightarrow> ('v, 'e, 'k \<Rightarrow> 'r) once_attempt list \<Rightarrow> ('k \<Rightarrow> 'r) database \<Rightarrow> bool"
  for o1 :: "'c once" where
  once_start: "marker_is o1 None (db_state d) \<Longrightarrow> once_run o1 [] [] d"
| once_begin: "once_run o1 log running d \<Longrightarrow> respects_marker o1 task \<Longrightarrow> guard_mutex g = once_mutex o1 \<Longrightarrow>
    begin_atomic_task o1 p env g d = (Inr admissions :: (('c, 'e) once_transactional_run_error + 'v once_run_result) + _, d') \<Longrightarrow>
    once_run o1 log (running @ [Checked g admissions task]) d'"
| once_begin_ends: "once_run o1 log running d \<Longrightarrow>
    begin_atomic_task o1 p env g d = (Inl (r :: ('c, 'e) once_transactional_run_error + 'v once_run_result), d') \<Longrightarrow>
    once_run o1 (log @ [(task, ran_value r, d, d')]) running d'"
| once_perform: "once_run o1 log (xs @ Checked g admissions task # ys) d \<Longrightarrow> same_mutex (atomic_guard env) \<Longrightarrow>
    perform_atomic_task o1 env g task d = (Inr (g', v, seen, written), d') \<Longrightarrow>
    once_run o1 log (xs @ Performed g' admissions task v seen written # ys) d'"
| once_perform_ends: "once_run o1 log (xs @ Checked g admissions task # ys) d \<Longrightarrow> same_mutex (atomic_guard env) \<Longrightarrow>
    perform_atomic_task o1 env g task d = (Inl r, d') \<Longrightarrow>
    once_run o1 (log @ [(task, ran_value r, d, d')]) (xs @ ys) d'"
| once_finish: "once_run o1 log (xs @ Performed g admissions task v seen written # ys) d \<Longrightarrow>
    finish_atomic_task o1 env g v d \<lparr>admitted_protocols = admissions, tables = transaction_view seen written d\<rparr>
      = (r :: ('c, 'e) once_transactional_run_error + 'v once_run_result, d') \<Longrightarrow>
    once_run o1 (log @ [(task, ran_value r, d, d')]) (xs @ ys) d'"
| once_others: "once_run o1 log running d \<Longrightarrow> keeps_done o1 (db_state d) (db_state d') \<Longrightarrow> once_run o1 log running d'"

text \<open>
  The entry points are such runs, with whatever others do between the pieces: an attempt that claims the guard runs its
  three pieces and is logged with its answer, and any other leaves the log as it is.
\<close>

definition others_keep_done :: "'c once \<Rightarrow> ('c, 'a) atomic_task_env \<Rightarrow> bool" where
  "others_keep_done o1 env \<longleftrightarrow> same_mutex (atomic_guard env)
     \<and> (\<forall>d. keeps_done o1 (db_state d) (db_state (others_before_task env d))
          \<and> keeps_done o1 (db_state d) (db_state (others_after_task env d)))"

lemma same_rest_others: "once_run o1 log running d \<Longrightarrow> same_rest d d' \<Longrightarrow> once_run o1 log running d'"
  by (erule once_others) (simp add: same_rest_def keeps_done_def keeps_marker_def)

lemma atomic_run_is_run:
  fixes r :: "('c, 'e) once_transactional_run_error + 'v once_run_result"
  assumes start: "once_run o1 log running d" and task: "respects_marker o1 task" and mutex: "guard_mutex g = once_mutex o1"
    and others: "others_keep_done o1 env"
    and run: "run_task_atomically_after_acquiring_guard o1 p env g task d = (r, d')"
  shows "\<exists>before. once_run o1 (log @ [(task, ran_value r, before, d')]) running d'"
proof -
  have same: "same_mutex (atomic_guard env)" using others by (simp add: others_keep_done_def)
  obtain q d1 where first: "begin_atomic_task o1 p env g d = (q :: (('c, 'e) once_transactional_run_error + 'v once_run_result) + _, d1)"
    by fastforce
  note run = run [unfolded run_task_atomically_after_acquiring_guard_def first prod.case]
  show ?thesis
  proof (cases q)
    case (Inl answer)
    then show ?thesis using once_begin_ends [OF start first [unfolded Inl]] run by auto
  next
    case (Inr admissions)
    let ?d1 = "others_before_task env d1"
    have r1: "once_run o1 log (running @ [Checked g admissions task]) ?d1"
      by (rule once_others [OF once_begin [OF start task mutex first [unfolded Inr]]]) (use others in \<open>simp add: others_keep_done_def\<close>)
    obtain q2 d2 where second: "perform_atomic_task o1 env g task ?d1 = (q2, d2)" by fastforce
    note run = run [unfolded Inr sum.case second prod.case]
    show ?thesis
    proof (cases q2)
      case (Inl answer)
      then show ?thesis using once_perform_ends [OF r1 same second [unfolded Inl]] run by auto
    next
      case (Inr w)
      obtain g2 v seen written where w: "w = (g2, v, seen, written)" by (cases w)
      let ?d2 = "others_after_task env d2"
      have r2: "once_run o1 log (running @ [Performed g2 admissions task v seen written]) ?d2"
        by (rule once_others [OF once_perform [OF r1 same second [unfolded Inr w]]]) (use others in \<open>simp add: others_keep_done_def\<close>)
      from once_finish [OF r2 run [unfolded Inr w sum.case prod.case Let_def]] show ?thesis by auto
    qed
  qed
qed

definition try_value :: "('x + 'v once_try_run_result) \<Rightarrow> 'v option" where
  "try_value r = (case r of Inr (OnceTryRan v) \<Rightarrow> Some v | _ \<Rightarrow> None)"

lemma try_value_tried: "try_value (map_sum id tried r) = ran_value r"
  by (cases r; cases "projr r") (simp_all add: try_value_def ran_value_def)

lemma claimed_guard_mutex: "try_claim_guard m text1 call config t = (Inr (Some (g, resolved)), t') \<Longrightarrow> guard_mutex g = m"
  by (auto simp: try_claim_guard_def try_claim_guard_for_holder_def guard_from_claim_def split: sum.splits prod.splits option.splits)

lemma try_run_is_run:
  fixes r :: "('c, 'e) once_transactional_run_error + 'v once_try_run_result"
  assumes start: "once_run o1 log running d" and task: "respects_marker o1 task" and others: "others_keep_done o1 env"
    and run: "try_run_task_atomically o1 p entry env task d = (r, d')"
  shows "(try_value r = None \<and> once_run o1 log running d')
    \<or> (\<exists>before. once_run o1 (log @ [(task, try_value r, before, d')]) running d')"
proof -
  note run = run [unfolded try_run_task_atomically_def try_run_entry_def]
  obtain q d1 where claim: "on_leases (try_claim_guard (once_mutex o1) (entry_id_text entry) (entry_call entry)
      once_guard_config) d = (q :: 'c fleet_error + _, d1)" by fastforce
  have d1: "same_rest d d1" by (rule on_leases_rest [OF claim])
  show ?thesis
  proof (cases "check_done o1 p (entry_check entry) (db_state d) = (Inr None :: 'c fleet_error + _) \<and> (\<exists>g. q = Inr (Some g))")
    case False
    then have "try_value r = None" "same_rest d d'" using run claim d1
      by (auto simp: try_value_def split: prod.splits sum.splits option.splits)
    then show ?thesis using same_rest_others [OF start] by blast
  next
    case True
    then obtain g cfg where g: "q = Inr (Some (g, cfg))" by auto
    obtain r1 where go: "run_task_atomically_after_acquiring_guard o1 p env g task d1 = (r1, d')" and r: "r = map_sum id tried r1"
      using run claim True g by (auto simp: map_prod_def split: prod.splits)
    have mutex: "guard_mutex g = once_mutex o1"
      using claim g by (auto simp: on_leases_def split: prod.splits intro: claimed_guard_mutex)
    from atomic_run_is_run [OF same_rest_others [OF start d1] task mutex others go]
    show ?thesis by (simp add: r try_value_tried)
  qed
qed

lemma waiting_guard_mutex:
  "fst (claim_guard_loop m holder_id resolved interval attempts t) = Some (Inr g, t') \<Longrightarrow> guard_mutex g = m"
  by (induction m holder_id resolved interval attempts t rule: claim_guard_loop.induct)
    (auto simp: guard_from_claim_def Let_def split: sum.splits prod.splits option.splits if_splits)

lemma waiting_run_is_run:
  fixes r :: "('c, 'e) once_transactional_run_error + 'v once_run_result"
  assumes start: "once_run o1 log running d" and task: "respects_marker o1 task" and others: "others_keep_done o1 env"
    and run: "run_task_atomically_when_available o1 p check new_id_text attempts env task d = Some (r, d')"
  shows "(ran_value r = None \<and> once_run o1 log running d')
    \<or> (\<exists>before. once_run o1 (log @ [(task, ran_value r, before, d')]) running d')"
proof -
  note run = run [unfolded run_task_atomically_when_available_def run_entry_when_available_def]
  let ?claim = "fst (claim_guard_when_available (once_mutex o1) new_id_text once_guard_config attempts (db_leases d))
    :: (('c fleet_error + mutex_guard) \<times> lease_tables) option"
  show ?thesis
  proof (cases "check_done o1 p check (db_state d) = (Inr None :: 'c fleet_error + _) \<and> (\<exists>g t. ?claim = Some (Inr g, t))")
    case False
    then have "ran_value r = None" "same_rest d d'" using run
      by (auto simp: ran_value_def same_rest_def split: prod.splits sum.splits option.splits)
    then show ?thesis using same_rest_others [OF start] by blast
  next
    case True
    then obtain g t where g: "?claim = Some (Inr g, t)" by blast
    then have go: "run_task_atomically_after_acquiring_guard o1 p env g task (d\<lparr>db_leases := t\<rparr>) = (r, d')"
      using run True by simp
    have mutex: "guard_mutex g = once_mutex o1"
      using g by (auto simp: claim_guard_when_available_def claim_guard_for_holder_when_available_def
          split: sum.splits intro: waiting_guard_mutex)
    have "same_rest d (d\<lparr>db_leases := t\<rparr>)" by (simp add: same_rest_def)
    from atomic_run_is_run [OF same_rest_others [OF start this] task mutex others go] show ?thesis by blast
  qed
qed









section \<open>Completion by hand\<close>

lemma mutex_release_in_transaction:
  assumes "tx_leases (release_manual_renewal_claim_in_current_transaction m reply now c) tx = (Inr True :: 'c fleet_error + bool, tx')"
  shows "leases (db_leases (tables tx')) (claim_key (claim_lease c)) = None" and "same_rest (tables tx) (tables tx')"
proof -
  let ?part = "\<lparr>admitted_protocols = admitted_protocols tx, tables = db_leases (tables tx)\<rparr>" and ?c = "claim_lease c"
  show "same_rest (tables tx) (tables tx')" by (rule tx_leases_rest [OF assms])
  obtain part where run: "release_manual_renewal_claim_in_current_transaction m reply now c ?part = (Inr True :: 'c fleet_error + bool, part)"
    and part: "db_leases (tables tx') = tables part"
    using assms by (auto simp: tx_leases_def split: prod.splits)
  have "admitted (mutex_protocol m) reply LeaseDatabase (release_lease_with_executor now ?c) ?part = (Inr True :: 'c lease_error + bool, part)"
    using run by (auto simp: release_manual_renewal_claim_in_current_transaction_def wrap_coordination_def
        release_lease_in_current_transaction_def split: sum.splits prod.splits)
  from admitted_success [OF this]
  have "release_lease_with_executor now ?c (db_leases (tables tx)) = (Inr True :: 'c lease_error + bool, tables part)" by simp
  then show "leases (db_leases (tables tx')) (claim_key (claim_lease c)) = None"
    by (auto simp: release_lease_with_executor_def release_lease_statement_def part split: option.splits if_splits sum.splits
        dest!: sym [where t = "tables _"])
qed

lemma mark_kept:
  fixes o1 :: "'c once"
  assumes made: "made_once o1" and marker: "marker_is o1 x (tables tx)"
    and run: "mark_completion_in_current_transaction o1 aenv holder fencing tx = (Inr b, tx')"
  shows "(case x of Some _ \<Rightarrow> marker_is o1 x (tables tx')
    | None \<Rightarrow> \<exists>at. marker_is o1 (Some \<lparr>finished_at = at, completion_holder_id = holder, completion_fencing_token = fencing\<rparr>) (tables tx'))"
proof -
  obtain key where key: "item_key_is (completion_item o1) [FLEET_ONCE_DONE_KEY_PART] key"
    and x: "lasting_option (completion_item o1) key x (tables tx)" using marker by (auto simp: marker_is_def)
  obtain res where mut: "mutate_item_in_transaction_internal FleetKv (completion_item o1) aenv [FLEET_ONCE_DONE_KEY_PART]
      (decide_completion holder fencing) True tx = (Inr (res, ()) :: 'c fleet_error + _, tx')"
    using run by (auto simp: mark_completion_in_current_transaction_def item_mutate_atomically_in_current_transaction_def
        map_prod_def map_sum_eq_Inr_iff split: prod.splits sum.splits)
  have faith: "faithful (completion_item o1)" and writes: "writes_lasting (decide_completion holder fencing)"
    using made by (auto simp: made_once_def writes_lasting_def decide_completion_def split: if_splits)
  obtain n m where d: "decide_completion holder fencing \<lparr>item_live_value = x, item_timestamp = n\<rparr> = (Inr (m, ()) :: 'c fleet_error + _)"
    and after: "lasting_option (completion_item o1) key (case m of SetValue w _ \<Rightarrow> Some w | _ \<Rightarrow> x) (tables tx')"
    by (rule lasting_mutation [OF faith writes key mut x])
  then show ?thesis using key unfolding marker_is_def
    by (cases x) (fastforce simp: decide_completion_def)+
qed

text \<open>C11: A run that is completed by hand was fenced. When \<open>mark_done_and_release_run\<close> succeeds, the row of the
  lease was live and carried the claim's holder, fencing token and lease token at the renewal, and it is gone;
  the application's rows are unchanged; an existing marker is kept as it is, and otherwise the marker carries
  the holder and the fencing token of the claim. When it reports that it set the marker, there was none.\<close>

theorem manual_completion_is_fenced:
  fixes o1 :: "'c once"
  assumes new: "new_once base protocol root_key key duration = Inr o1" "faithful base"
    and marker: "marker_is o1 x (db_state d)"
    and run: "mark_done_and_release_manual_run o1 env call aenv release_now c d = (Inr b, d')"
  shows "(\<exists>r. leases (db_leases d) (claim_key (claim_lease (once_mutex_claim c))) = Some r
      \<and> row_matches (env_now (call_env call)) (claim_holder_id (claim_lease (once_mutex_claim c)))
          (claim_fencing_token (claim_lease (once_mutex_claim c))) (claim_lease_token (claim_lease (once_mutex_claim c))) r)
    \<and> leases (db_leases d') (claim_key (claim_lease (once_mutex_claim c))) = None \<and> db_app d' = db_app d
    \<and> (case x of Some _ \<Rightarrow> marker_is o1 x (db_state d')
       | None \<Rightarrow> \<exists>at. marker_is o1 (Some \<lparr>finished_at = at, completion_holder_id = claim_holder_id (claim_lease (once_mutex_claim c)),
           completion_fencing_token = claim_fencing_token (claim_lease (once_mutex_claim c))\<rparr>) (db_state d'))
    \<and> (b \<longrightarrow> x = None)"
proof -
  have made: "made_once o1" by (rule new_once_made [OF new])
  let ?c = "once_mutex_claim c"
  from run obtain tx' where body: "mark_done_and_release_manual_run_in_current_transaction o1 call aenv release_now c
      (begin_transaction d) = (Inr b :: 'c fleet_error + bool, tx')" and d': "d' = tables tx'"
    unfolding mark_done_and_release_manual_run_def by (cases rule: fleet_pool_write_answer) auto
  have match: "require_claim_matches_once o1 c = (Inr () :: 'c fleet_error + unit)"
    using body by (auto simp: mark_done_and_release_manual_run_in_current_transaction_def split: sum.splits)
  note body = body [unfolded mark_done_and_release_manual_run_in_current_transaction_def match sum.case]
  obtain q tx1 where renew0: "tx_leases (try_renew_manual_renewal_claim_in_current_transaction (once_mutex o1) call ?c)
      (begin_transaction d) = (Inr q :: 'c fleet_error + _, tx1)"
    and rest0: "(case q of None \<Rightarrow> (Inl FleetRunOnceManualRunClaimNoLongerLive, tx1)
      | Some renewed_claim \<Rightarrow> do_then (tx_state (mark_completion_in_current_transaction o1 aenv
            (claim_holder_id (claim_lease ?c)) (claim_fencing_token (claim_lease ?c))) tx1) (\<lambda>marked_done tx.
          do_then (tx_leases (release_manual_renewal_claim_in_current_transaction (once_mutex o1)
              (env_reply (call_env call)) release_now renewed_claim) tx) (\<lambda>released tx.
            (if released then Inr marked_done else Inl FleetRunOnceManualRunClaimNoLongerLive, tx))))
      = (Inr b :: 'c fleet_error + bool, tx')"
    by (rule do_then_Inr [OF body]) (erule (1) that)
  obtain renewed where q: "q = Some renewed" using rest0 by (cases q) auto
  note rest1 = rest0 [unfolded q option.case]
  obtain b1 tx2 where mark: "tx_state (mark_completion_in_current_transaction o1 aenv (claim_holder_id (claim_lease ?c))
        (claim_fencing_token (claim_lease ?c))) tx1 = (Inr b1 :: 'c fleet_error + bool, tx2)"
    and rest2: "do_then (tx_leases (release_manual_renewal_claim_in_current_transaction (once_mutex o1)
        (env_reply (call_env call)) release_now renewed) tx2) (\<lambda>released tx.
          (if released then Inr b1 else Inl FleetRunOnceManualRunClaimNoLongerLive, tx)) = (Inr b :: 'c fleet_error + bool, tx')"
    by (rule do_then_Inr [OF rest1]) (erule (1) that)
  obtain released tx3 where rel: "tx_leases (release_manual_renewal_claim_in_current_transaction (once_mutex o1)
        (env_reply (call_env call)) release_now renewed) tx2 = (Inr released :: 'c fleet_error + bool, tx3)"
    and fin: "(if released then Inr b1 else Inl FleetRunOnceManualRunClaimNoLongerLive, tx3) = (Inr b :: 'c fleet_error + bool, tx')"
    by (rule do_then_Inr [OF rest2]) (erule (1) that)
  have r: "released" "b1 = b" "tx3 = tx'" using fin by (auto split: if_splits)
  obtain row where row: "leases (db_leases d) (claim_key (claim_lease ?c)) = Some row"
      "row_matches (env_now (call_env call)) (claim_holder_id (claim_lease ?c)) (claim_fencing_token (claim_lease ?c))
        (claim_lease_token (claim_lease ?c)) row"
    and key: "claim_key (claim_lease renewed) = claim_key (claim_lease ?c)" and s1: "same_rest d (tables tx1)"
    by (rule mutex_renew_in_transaction [OF renew0 [unfolded q]]) (simp add: begin_transaction_def)
  note gone = mutex_release_in_transaction [OF rel [unfolded eqTrueI [OF r(1)]]]
  obtain part where part: "mark_completion_in_current_transaction o1 aenv (claim_holder_id (claim_lease ?c))
        (claim_fencing_token (claim_lease ?c)) \<lparr>admitted_protocols = admitted_protocols tx1, tables = db_state (tables tx1)\<rparr>
      = (Inr b1 :: 'c fleet_error + bool, part)" "db_state (tables tx2) = tables part" "db_app (tables tx2) = db_app (tables tx1)"
    by (rule tx_state_part [OF mark])
  have m1: "marker_is o1 x (tables \<lparr>admitted_protocols = admitted_protocols tx1, tables = db_state (tables tx1)\<rparr>)"
    using marker s1 by (simp add: same_rest_def)
  have same: "db_state d' = tables part" "db_app d' = db_app d"
    using gone(2) part(2,3) s1 by (simp_all add: d' r(3) [symmetric] same_rest_def)
  have "leases (db_leases d') (claim_key (claim_lease ?c)) = None" using gone(1) key by (simp add: d' r(3) [symmetric])
  moreover have "b \<longrightarrow> x = None" using mark_effect [OF made m1] part(1) r(2) by (cases b) auto
  moreover note mark_kept [OF made m1 part(1), folded same(1)]
  moreover have "\<exists>r. leases (db_leases d) (claim_key (claim_lease ?c)) = Some r
      \<and> row_matches (env_now (call_env call)) (claim_holder_id (claim_lease ?c)) (claim_fencing_token (claim_lease ?c))
          (claim_lease_token (claim_lease ?c)) r" using row by blast
  ultimately show ?thesis using same(2) by (intro conjI)
qed

end
