(* ===== verification/OnceWitness.thy ===== *)
theory OnceWitness
  imports OnceSafety TopicRun
begin

text \<open>A task that two overlapping attempts run, and a run that is completed by hand.\<close>

definition demo_lease_key :: string where "demo_lease_key = ''r::once::mutex::k::''"

definition demo_completion :: once_completion where
  "demo_completion = \<lparr>finished_at = 5, completion_holder_id = ''a'', completion_fencing_token = 1\<rparr>"

definition byte_completion :: "(once_completion, unit, unit) item" where
  "byte_completion = \<lparr>item_prefix = [], item_codec = Plain,
     to_plaintext_bytes = (\<lambda>c. if c = demo_completion then Inr [1] else Inl ()),
     from_plaintext_bytes = (\<lambda>_. Inr demo_completion), seal = (\<lambda>_ p _. Inr p), unseal = (\<lambda>_ b _. Inr b)\<rparr>"

lemma byte_completion_faithful: "faithful byte_completion"
  by (auto simp: faithful_def byte_completion_def split: if_splits)

definition demo_once_mutex :: mutex where
  "demo_once_mutex = \<lparr>mutex_protocol = ''p'', mutex_key = ''k'', mutex_lease_key = demo_lease_key,
     mutex_claim_duration = two_seconds\<rparr>"

definition demo_once :: "unit once" where
  "demo_once = \<lparr>completion_item = item_new_plain byte_completion ''r::once::completion::k::'', once_key = ''k'',
     once_mutex = demo_once_mutex\<rparr>"

lemma demo_once_new: "new_once byte_completion ''p'' ''r'' ''k'' two_seconds = Inr demo_once"
  by (simp add: new_once_def build_once_completion_prefix_def build_once_mutex_lease_key_def FLEET_ONCE_COMPONENT_KEY_def
      FLEET_ONCE_COMPLETION_COMPONENT_KEY_def FLEET_ONCE_MUTEX_COMPONENT_KEY_def kv_build_key_from_parts_def
      kv_validate_key_part_def kv_validate_key_length_def KV_KEY_SEPARATOR_def MAX_KV_KEY_BYTES_def
      lease_build_key_from_parts_def lease_validate_key_part_def lease_validate_key_length_def LEASE_KEY_SEPARATOR_def
      MAX_LEASE_KEY_BYTES_def result_bind_def demo_once_def demo_once_mutex_def demo_lease_key_def)

definition once_leases :: "u8 \<Rightarrow> lease_tables" where
  "once_leases x = \<lparr>leases = [demo_lease_key \<mapsto> held_row ''a'' 1 x 2000005], fencing_counters = [demo_lease_key \<mapsto> 1]\<rparr>"

definition demo_once_claim :: "u8 \<Rightarrow> mutex_claim" where
  "demo_once_claim x = claim_from_lease_claim demo_once_mutex (claim_of_row demo_lease_key (held_row ''a'' 1 x 2000005))"



text \<open>The task counts its runs in a row of the application.\<close>

definition once_rows :: "nat \<Rightarrow> string \<Rightarrow> nat" where "once_rows n = (\<lambda>_. 0)(''n'' := n)"


lemma demo_done_key: "item_key_from_parts (completion_item demo_once) [FLEET_ONCE_DONE_KEY_PART] = Inr ''r::once::completion::k::done::''"
  by (simp add: item_key_from_parts_def demo_once_def kv_build_key_from_prefix_and_parts_def FLEET_ONCE_DONE_KEY_PART_def
      kv_validate_key_part_def kv_validate_key_length_def MAX_KV_KEY_BYTES_def KV_KEY_SEPARATOR_def result_bind_def)


definition demo_marked :: kv_table where
  "demo_marked = [''r::once::completion::k::done::'' \<mapsto> \<lparr>kv_value = [1], kv_expires_at = None, kv_updated_at = 6\<rparr>]"

lemma demo_once_marks:
  "mark_completion_in_current_transaction demo_once calm_env ''a'' 1 \<lparr>admitted_protocols = {''p''}, tables = Map.empty\<rparr>
   = (Inr True, \<lparr>admitted_protocols = {''p''}, tables = demo_marked\<rparr>)"
  by (simp add: mark_completion_in_current_transaction_def item_mutate_atomically_in_current_transaction_def
      mutate_item_in_transaction_internal_def with_key_def demo_done_key mutate_key_atomically_in_transaction_internal_def
      lock_key_for_atomic_mutation_def admitted_def admit_def calm_env_def try_lock_first lock_key_statement_def
      map_error_def Let_def decide_item_def transpose_option_def decide_completion_def result_bind_def
      encode_atomic_mutation_for_key_def encode_value_for_key_def with_codec_def encode_plain_value_def demo_once_def
      item_new_plain_def byte_completion_def demo_completion_def update_key_value_and_ttl_for_atomic_mutation_def
      ttl_positive_microseconds_def NO_EXPIRATION_def update_value_and_ttl_statement_def expires_at_expression_def
      kv_require_rows_affected_def do_then_def demo_marked_def
      demo_done_key [unfolded demo_once_def item_new_plain_def byte_completion_def demo_completion_def, simplified])


definition demo_done :: "(string \<Rightarrow> nat) database" where
  "demo_done = \<lparr>db_leases = \<lparr>leases = Map.empty, fencing_counters = [demo_lease_key \<mapsto> 1]\<rparr>, db_state = demo_marked,
     db_app = once_rows 1\<rparr>"

definition once_claimed :: "nat \<Rightarrow> (string \<Rightarrow> nat) database" where
  "once_claimed n = \<lparr>db_leases = once_leases 1, db_state = Map.empty, db_app = once_rows n\<rparr>"





lemma merge_same [simp]: "merge_writes a a c = c"
  by (simp add: merge_writes_def fun_eq_iff)





definition demo_manual_claim :: once_claim where
  "demo_manual_claim = \<lparr>claim_once_key = ''k'', once_mutex_claim = demo_once_claim 1\<rparr>"

lemma demo_manual_completes:
  "mark_done_and_release_manual_run demo_once calm_pool (demo_call\<lparr>call_random := Inr (token_of 2)\<rparr>) calm_env 5
     demo_manual_claim (once_claimed 1) = (Inr True, demo_done)"
proof -
  have mutex: "once_mutex demo_once = demo_once_mutex" "once_key demo_once = ''k''" by (simp_all add: demo_once_def)
  have match: "require_claim_matches_once demo_once demo_manual_claim = (Inr () :: unit fleet_error + unit)"
    by (simp add: require_claim_matches_once_def mutex demo_manual_claim_def require_claim_matches_mutex_def demo_once_claim_def
        claim_from_lease_claim_def demo_once_mutex_def claim_of_row_def)
  have renew: "try_renew_manual_renewal_claim_in_current_transaction demo_once_mutex (demo_call\<lparr>call_random := Inr (token_of 2)\<rparr>)
     (demo_once_claim 1) \<lparr>admitted_protocols = {}, tables = once_leases 1\<rparr>
   = ((Inr (Some (demo_once_claim 2)) :: unit fleet_error + _), \<lparr>admitted_protocols = {''p''}, tables = once_leases 2\<rparr>)"
    by (simp add: try_renew_manual_renewal_claim_in_current_transaction_def require_claim_matches_mutex_def demo_once_claim_def
      claim_from_lease_claim_def demo_once_mutex_def try_renew_lease_in_current_transaction_def demo_call_def calm_pool_def
      token_random_def admitted_def admit_def supported_reply_def supported_row_def SUPPORTED_EPOCH_def SUPPORTED_FINGERPRINT_def
      try_renew_lease_with_executor_def renew_lease_statement_def row_matches_def
      lease_eval once_leases_def wrap_claim_def demo_lease_key_def)
  have held: "claim_holder_id (claim_lease (demo_once_claim 1)) = ''a''" "claim_fencing_token (claim_lease (demo_once_claim 1)) = 1"
    by (simp_all add: demo_once_claim_def claim_from_lease_claim_def claim_of_row_def held_row_def)
  have rel: "release_manual_renewal_claim_in_current_transaction demo_once_mutex supported_reply 5 (demo_once_claim 2)
      \<lparr>admitted_protocols = {''p''}, tables = once_leases 2\<rparr>
    = ((Inr True :: unit fleet_error + bool), \<lparr>admitted_protocols = {''p''}, tables = db_leases demo_done\<rparr>)"
    by (simp add: release_manual_renewal_claim_in_current_transaction_def require_claim_matches_mutex_def demo_once_claim_def
      claim_from_lease_claim_def demo_once_mutex_def release_lease_in_current_transaction_def admitted_def admit_def
      release_lease_with_executor_def release_lease_statement_def row_matches_def lease_eval once_leases_def
      wrap_coordination_def demo_lease_key_def demo_done_def)
  have reply: "env_reply (call_env demo_call) = supported_reply" by (simp add: demo_call_def calm_pool_def)
  have pool: "env_begin calm_pool = None" "env_commit calm_pool = Committed" by (simp_all add: calm_pool_def)
  have claim: "once_mutex_claim demo_manual_claim = demo_once_claim 1" by (simp add: demo_manual_claim_def)
  show ?thesis
    by (simp add: mark_done_and_release_manual_run_def fleet_pool_write_def pool_write_def pool finish_write_transaction_def
        mark_done_and_release_manual_run_in_current_transaction_def match mutex claim held tx_leases_def tx_state_def
        once_claimed_def begin_transaction_def renew do_then_def demo_once_marks rel reply)
      (simp add: demo_done_def)
qed

theorem manual_completion_is_fenced_witness:
  "\<exists>r. leases (db_leases (once_claimed 1)) demo_lease_key = Some r \<and> row_fencing_token r = 1
    \<and> leases (db_leases demo_done) demo_lease_key = None"
proof -
  have "marker_is demo_once None (db_state (once_claimed 1))"
    by (simp add: marker_is_def item_key_is_def demo_done_key once_claimed_def)
  from manual_completion_is_fenced [OF demo_once_new byte_completion_faithful this demo_manual_completes]
  show ?thesis
    by (auto simp: demo_manual_claim_def demo_once_claim_def claim_from_lease_claim_def claim_of_row_def held_row_def row_matches_def)
qed

end
