(* ===== verification/Cache.thy ===== *)
theory Cache
  imports FleetDatabase Lasting Throttler
begin

text \<open>
  \<open>src/src/db/fleet/cache.rs\<close>, \<open>cache_model.rs\<close> and \<open>Store::new_coalescing_cache\<close>: values that are computed under
  a mutex of their key and kept with the epoch of the cache at the start of the computation. Advancing the
  epoch invalidates every value at once.

  Time is measured in the environment: how long the caller has waited after each attempt, and whether the
  computation ran out of time. Between two statements others may change the tables; a computation is
  its result, and what happens meanwhile to the guard and the database.
\<close>

section \<open>Handles\<close>

definition DEFAULT_COALESCING_CACHE_MUTEX_CLAIM_DURATION :: nanos where
  "DEFAULT_COALESCING_CACHE_MUTEX_CLAIM_DURATION = 30 * nanos_per_second"
definition DEFAULT_COALESCING_CACHE_LOCK_WAIT_TIMEOUT :: nanos where
  "DEFAULT_COALESCING_CACHE_LOCK_WAIT_TIMEOUT = 60 * nanos_per_second"
definition DEFAULT_COALESCING_CACHE_LOCK_RETRY_INTERVAL :: nanos where
  "DEFAULT_COALESCING_CACHE_LOCK_RETRY_INTERVAL = 25 * nanos_per_milli"

record 'v cache_entry =
  entry_value :: 'v
  entry_epoch :: int

record cache_config =
  config_cache_key :: string
  config_value_ttl :: ttl
  config_lock_wait_timeout :: "nanos option"
  config_compute_timeout :: "nanos option"

record ('v, 'c) coalescing_cache =
  cache_key :: string
  value_ttl :: ttl
  lock_wait_timeout :: nanos
  compute_timeout :: "nanos option"
  value_item :: "('v cache_entry, unit, 'c) item"
  epoch_item :: "(int, unit, 'c) item"
  cache_mutex_protocol :: string
  cache_mutex_claim_duration :: claim_duration
  cache_root_key :: string

datatype ('c, 'e) cache_fetch_error =
    FetchFleet "'c fleet_error"
  | FetchCompute 'e
  | FetchComputeAndRelease 'e "'c fleet_error"

definition validate_positive_duration_for_coalescing_cache_lock_wait_timeout :: "nanos \<Rightarrow> 'c fleet_error + unit" where
  "validate_positive_duration_for_coalescing_cache_lock_wait_timeout d =
     (if d = 0 \<or> throttler_rounded_microseconds d = None
      then Inl (FleetCacheError FleetInvalidCoalescingCacheLockWaitTimeout) else Inr ())"

definition validate_positive_duration_for_coalescing_cache_compute_timeout :: "nanos \<Rightarrow> 'c fleet_error + unit" where
  "validate_positive_duration_for_coalescing_cache_compute_timeout d =
     (if d = 0 \<or> throttler_rounded_microseconds d = None
      then Inl (FleetCacheError FleetInvalidCoalescingCacheComputeTimeout) else Inr ())"

text \<open>The claim duration of the default is valid, so its \<open>expect\<close> never fails.\<close>

definition new_coalescing_cache ::
    "('v cache_entry, unit, 'c) item \<Rightarrow> (int, unit, 'c) item \<Rightarrow> string \<Rightarrow> string \<Rightarrow> cache_config
     \<Rightarrow> 'c fleet_error + ('v, 'c) coalescing_cache" where
  "new_coalescing_cache base epoch_base protocol root_key config =
     (let timeout = option_unwrap_or (config_lock_wait_timeout config) DEFAULT_COALESCING_CACHE_LOCK_WAIT_TIMEOUT;
          key = config_cache_key config in
     result_bind (validate_positive_duration_for_coalescing_cache_lock_wait_timeout timeout) (\<lambda>_.
     result_bind (case config_compute_timeout config of
         None \<Rightarrow> Inr () | Some d \<Rightarrow> validate_positive_duration_for_coalescing_cache_compute_timeout d) (\<lambda>_.
     result_bind (map_sum (\<lambda>e. FleetCacheError (FleetInvalidCoalescingCacheKeyForValue e)) id
       (build_coalescing_cache_value_prefix root_key key)) (\<lambda>value_prefix.
     result_bind (map_sum (\<lambda>e. FleetCacheError (FleetInvalidCoalescingCacheKeyForEpoch e)) id
       (build_coalescing_cache_epoch_prefix root_key key)) (\<lambda>epoch_prefix.
     result_bind (map_sum (\<lambda>e. FleetCacheError (FleetInvalidCoalescingCacheKeyForMutex e)) id
       (build_coalescing_cache_mutex_lease_key root_key key [])) (\<lambda>_.
     result_bind (map_sum FleetCoordination id (expires_after DEFAULT_COALESCING_CACHE_MUTEX_CLAIM_DURATION)) (\<lambda>duration.
     Inr \<lparr>cache_key = key, value_ttl = config_value_ttl config, lock_wait_timeout = timeout,
       compute_timeout = config_compute_timeout config, value_item = item_new_plain base value_prefix,
       epoch_item = item_new_plain epoch_base epoch_prefix, cache_mutex_protocol = protocol,
       cache_mutex_claim_duration = duration, cache_root_key = root_key\<rparr>)))))))"

section \<open>Epochs and entries\<close>

definition fetch_current_epoch :: "('v, 'c) coalescing_cache \<Rightarrow> string \<Rightarrow> pool_env \<Rightarrow> kv_table \<Rightarrow> 'c fleet_error + int" where
  "fetch_current_epoch c protocol env t =
     (case item_get (epoch_item c) protocol env [] t of
        Inr epoch \<Rightarrow> Inr epoch | Inl KvKeyNotFound \<Rightarrow> Inr 0 | Inl e \<Rightarrow> Inl (FleetKv e))"

definition fetch_cached_entry ::
    "('v, 'c) coalescing_cache \<Rightarrow> string \<Rightarrow> pool_env \<Rightarrow> string list \<Rightarrow> kv_table \<Rightarrow> 'c fleet_error + 'v cache_entry option" where
  "fetch_cached_entry c protocol env parts t =
     (case item_get (value_item c) protocol env parts t of
        Inr entry \<Rightarrow> Inr (Some entry) | Inl KvKeyNotFound \<Rightarrow> Inr None | Inl e \<Rightarrow> Inl (FleetKv e))"

text \<open>The two reads of a fetch see the table at two moments.\<close>

definition fetch_fresh_cached_value ::
    "('v, 'c) coalescing_cache \<Rightarrow> string \<Rightarrow> pool_env \<Rightarrow> pool_env \<Rightarrow> string list \<Rightarrow> kv_table \<Rightarrow> kv_table
     \<Rightarrow> 'c fleet_error + 'v option" where
  "fetch_fresh_cached_value c protocol entry_env epoch_env parts t1 t2 =
     (case fetch_cached_entry c protocol entry_env parts t1 of
        Inl e \<Rightarrow> Inl e
      | Inr None \<Rightarrow> Inr None
      | Inr (Some entry) \<Rightarrow>
          map_sum id (\<lambda>current. if entry_epoch entry < current then None else Some (entry_value entry))
            (fetch_current_epoch c protocol epoch_env t2))"

definition fetch_locked_cached_value_and_epoch ::
    "('v, 'c) coalescing_cache \<Rightarrow> string \<Rightarrow> pool_env \<Rightarrow> pool_env \<Rightarrow> string list \<Rightarrow> kv_table \<Rightarrow> kv_table
     \<Rightarrow> 'c fleet_error + ('v option \<times> int)" where
  "fetch_locked_cached_value_and_epoch c protocol entry_env epoch_env parts t1 t2 =
     (case fetch_cached_entry c protocol entry_env parts t1 of
        Inl e \<Rightarrow> Inl e
      | Inr None \<Rightarrow> map_sum id (Pair None) (fetch_current_epoch c protocol epoch_env t2)
      | Inr (Some entry) \<Rightarrow>
          map_sum id (\<lambda>current. (if entry_epoch entry \<ge> current then Some (entry_value entry) else None, current))
            (fetch_current_epoch c protocol epoch_env t2))"

definition decide_next_epoch ::
    "int item_atomic_live_current \<Rightarrow> 'c fleet_error + (int item_atomic_mutation \<times> unit)" where
  "decide_next_epoch current =
     (case i64_checked_add (item_live current) 1 of
        None \<Rightarrow> Inl (FleetCacheError FleetCounterArithmeticOverflow)
      | Some next \<Rightarrow> Inr (SetValue next NO_EXPIRATION, ()))"

definition invalidate_all_in_current_transaction ::
    "('v, 'c) coalescing_cache \<Rightarrow> atomic_env \<Rightarrow> kv_table tx \<Rightarrow> ('c fleet_error + unit) \<times> kv_table tx" where
  "invalidate_all_in_current_transaction c aenv tx =
     map_prod (map_sum id (\<lambda>_. ())) id
       (item_mutate_live_or_insert_initial_value_atomically_in_current_transaction FleetKv (epoch_item c) aenv []
         (\<lambda>_. Inr (1, NO_EXPIRATION)) decide_next_epoch tx)"

definition invalidate_all ::
    "('v, 'c) coalescing_cache \<Rightarrow> pool_env \<Rightarrow> atomic_env \<Rightarrow> kv_table \<Rightarrow> ('c fleet_error + unit) \<times> kv_table" where
  "invalidate_all c env aenv t =
     fleet_pool_write ''fleet.cache.invalidate_all'' env
       (invalidate_all_in_current_transaction c (aenv\<lparr>atomic_reply := env_reply env\<rparr>)) t"

text \<open>The epoch is read in one moment and the entry stored in a later one.\<close>

definition set_without_mutex ::
    "('v, 'c) coalescing_cache \<Rightarrow> string \<Rightarrow> pool_env \<Rightarrow> pool_env \<Rightarrow> string list \<Rightarrow> 'v \<Rightarrow> (kv_table \<Rightarrow> kv_table) \<Rightarrow> kv_table
     \<Rightarrow> ('c fleet_error + unit) \<times> kv_table" where
  "set_without_mutex c protocol epoch_env set_env parts v between t =
     (case fetch_current_epoch c protocol epoch_env t of
        Inl e \<Rightarrow> (Inl e, t)
      | Inr epoch \<Rightarrow>
          map_prod (map_sum FleetKv id) id
            (item_set (value_item c) protocol set_env parts \<lparr>entry_value = v, entry_epoch = epoch\<rparr> (value_ttl c) (between t)))"

definition store_computed_value_best_effort ::
    "('v, 'c) coalescing_cache \<Rightarrow> string \<Rightarrow> pool_env \<Rightarrow> string list \<Rightarrow> 'v \<Rightarrow> int \<Rightarrow> kv_table \<Rightarrow> kv_table" where
  "store_computed_value_best_effort c protocol env parts v epoch t =
     snd (item_set (value_item c) protocol env parts \<lparr>entry_value = v, entry_epoch = epoch\<rparr> (value_ttl c) t)"

section \<open>The mutex of a key\<close>

definition mutex_for_key_parts :: "('v, 'c) coalescing_cache \<Rightarrow> string list \<Rightarrow> 'c fleet_error + mutex" where
  "mutex_for_key_parts c parts =
     map_sum (\<lambda>e. FleetCacheError (FleetInvalidCoalescingCacheKeyForMutex e))
       (\<lambda>lease_key. \<lparr>mutex_protocol = cache_mutex_protocol c, mutex_key = cache_key c, mutex_lease_key = lease_key,
         mutex_claim_duration = cache_mutex_claim_duration c\<rparr>)
       (build_coalescing_cache_mutex_lease_key (cache_root_key c) (cache_key c) parts)"

definition cache_guard_config :: mutex_guard_config where
  "cache_guard_config = \<lparr>config_heartbeat_interval = None,
     config_acquire_retry_interval = Some DEFAULT_COALESCING_CACHE_LOCK_RETRY_INTERVAL,
     config_max_acquire_retry_interval = None, config_max_consecutive_renewal_failures = None\<rparr>"

record 'c cache_attempt =
  cache_attempt_id_text :: "'c id_error + string"
  cache_attempt_call :: "'c lease_call"
  elapsed_after :: nanos

text \<open>\<open>None\<close> is a caller still waiting when the attempts end.\<close>

fun acquire_compute_mutex_guard ::
    "nanos \<Rightarrow> mutex \<Rightarrow> 'c cache_attempt list \<Rightarrow> lease_tables \<Rightarrow> (('c fleet_error + mutex_guard) \<times> lease_tables) option" where
  "acquire_compute_mutex_guard timeout_ns m [] t = None"
| "acquire_compute_mutex_guard timeout_ns m (a # rest) t =
     (case try_claim_guard m (cache_attempt_id_text a) (cache_attempt_call a) cache_guard_config t of
        (Inl e, t) \<Rightarrow> Some (Inl e, t)
      | (Inr (Some (g, _)), t) \<Rightarrow> Some (Inr g, t)
      | (Inr None, t) \<Rightarrow>
          if elapsed_after a \<ge> timeout_ns
          then Some (Inl (FleetCacheError (FleetCoalescingCacheLockWaitTimedOut timeout_ns)), t)
          else acquire_compute_mutex_guard timeout_ns m rest t)"

text \<open>The wait after an attempt that found the mutex held.\<close>

definition lock_wait :: "nanos \<Rightarrow> nanos \<Rightarrow> nanos" where
  "lock_wait timeout_ns elapsed = min (timeout_ns - elapsed) DEFAULT_COALESCING_CACHE_LOCK_RETRY_INTERVAL"

record 'c under_mutex =
  mutex_attempts :: "'c cache_attempt list"
  mutex_release :: pool_env
  mutex_join :: "string option"
  mutex_drop :: pool_env

definition release_cache_guard :: "'c under_mutex \<Rightarrow> mutex_guard \<Rightarrow> 'a database \<Rightarrow> ('c fleet_error + unit) \<times> 'a database" where
  "release_cache_guard env g d =
     map_prod require_coalescing_cache_mutex_released id
       (on_leases (release (mutex_release env) (mutex_join env) (mutex_drop env) g) d)"

definition run_under_cache_mutex ::
    "('v, 'c) coalescing_cache \<Rightarrow> string list \<Rightarrow> 'c under_mutex \<Rightarrow> ('c fleet_error \<Rightarrow> 'r)
     \<Rightarrow> (mutex_guard \<Rightarrow> 'a database \<Rightarrow> 'r \<times> 'a database) \<Rightarrow> 'a database \<Rightarrow> ('r \<times> 'a database) option" where
  "run_under_cache_mutex c parts env failed body d =
     (case mutex_for_key_parts c parts of
        Inl e \<Rightarrow> Some (failed e, d)
      | Inr m \<Rightarrow>
          (case acquire_compute_mutex_guard (lock_wait_timeout c) m (mutex_attempts env) (db_leases d) of
             None \<Rightarrow> None
           | Some (Inl e, t) \<Rightarrow> Some (failed e, d\<lparr>db_leases := t\<rparr>)
           | Some (Inr g, t) \<Rightarrow> Some (body g (d\<lparr>db_leases := t\<rparr>))))"

section \<open>Fetching\<close>

record ('v, 'e, 'a, 'c) compute_env =
  entry_env :: pool_env
  before_epoch :: "kv_table \<Rightarrow> kv_table"
  epoch_env :: pool_env
  computation :: "'e + 'v"
  runs_out_of_time :: bool
  during_compute :: "mutex_guard \<Rightarrow> 'a database \<Rightarrow> mutex_guard \<times> 'a database"
  store_env :: pool_env

text \<open>The guard is the caller's, which releases it: the second component of the result.\<close>

definition fetch_or_compute_while_holding_mutex ::
    "('v, 'c) coalescing_cache \<Rightarrow> string \<Rightarrow> ('v, 'e, 'a, 'c) compute_env \<Rightarrow> string list \<Rightarrow> mutex_guard \<Rightarrow> 'a database
     \<Rightarrow> (('c, 'e) cache_fetch_error + 'v) \<times> mutex_guard \<times> 'a database" where
  "fetch_or_compute_while_holding_mutex c protocol env parts g d =
     (let t1 = db_state d; d = d\<lparr>db_state := before_epoch env t1\<rparr> in
      case fetch_locked_cached_value_and_epoch c protocol (entry_env env) (epoch_env env) parts t1 (db_state d) of
        Inl e \<Rightarrow> (Inl (FetchFleet e), g, d)
      | Inr (Some v, _) \<Rightarrow> (Inr v, g, d)
      | Inr (None, epoch) \<Rightarrow>
          let (g, d) = during_compute env g d in
          case (compute_timeout c, runs_out_of_time env) of
            (Some limit, True) \<Rightarrow> (Inl (FetchFleet (FleetCacheError (FleetCoalescingCacheComputeTimedOut limit))), g, d)
          | _ \<Rightarrow>
              (case computation env of
                 Inl e \<Rightarrow> (Inl (FetchCompute e), g, d)
               | Inr v \<Rightarrow>
                   if leadership_lost g then (Inl (FetchFleet (FleetCacheError FleetCoalescingCacheComputeMutexLost)), g, d)
                   else (Inr v, g, d\<lparr>db_state := store_computed_value_best_effort c protocol (store_env env) parts v epoch
                          (db_state d)\<rparr>)))"

definition combine_fetch_and_release ::
    "('c, 'e) cache_fetch_error + 'v \<Rightarrow> 'c fleet_error + unit \<Rightarrow> ('c, 'e) cache_fetch_error + 'v" where
  "combine_fetch_and_release result release_result =
     (case (result, release_result) of
        (Inr v, Inr _) \<Rightarrow> Inr v
      | (Inr _, Inl e) \<Rightarrow> Inl (FetchFleet e)
      | (Inl (FetchCompute e), Inl release_error) \<Rightarrow> Inl (FetchComputeAndRelease e release_error)
      | (Inl e, _) \<Rightarrow> Inl e)"

record fresh_env =
  fresh_entry_env :: pool_env
  before_fresh_epoch :: "kv_table \<Rightarrow> kv_table"
  fresh_epoch_env :: pool_env
  before_mutex :: "kv_table \<Rightarrow> kv_table"

definition fetch_or_compute ::
    "('v, 'c) coalescing_cache \<Rightarrow> string \<Rightarrow> fresh_env \<Rightarrow> 'c under_mutex \<Rightarrow> ('v, 'e, 'a, 'c) compute_env \<Rightarrow> string list
     \<Rightarrow> 'a database \<Rightarrow> ((('c, 'e) cache_fetch_error + 'v) \<times> 'a database) option" where
  "fetch_or_compute c protocol fresh env compute parts d =
     (case validated_cache_key_parts parts of
        Inl e \<Rightarrow> Some (Inl (FetchFleet e), d)
      | Inr parts \<Rightarrow>
          let t1 = db_state d; d = d\<lparr>db_state := before_fresh_epoch fresh t1\<rparr> in
          (case fetch_fresh_cached_value c protocol (fresh_entry_env fresh) (fresh_epoch_env fresh) parts t1 (db_state d) of
             Inl e \<Rightarrow> Some (Inl (FetchFleet e), d)
           | Inr (Some v) \<Rightarrow> Some (Inr v, d)
           | Inr None \<Rightarrow>
               run_under_cache_mutex c parts env (Inl \<circ> FetchFleet) (\<lambda>g d.
                 let (result, g, d) = fetch_or_compute_while_holding_mutex c protocol compute parts g d;
                     (release_result, d) = release_cache_guard env g d
                 in (combine_fetch_and_release result release_result, d))
                 (d\<lparr>db_state := before_mutex fresh (db_state d)\<rparr>)))"

section \<open>Setting and invalidating\<close>

definition cache_set ::
    "('v, 'c) coalescing_cache \<Rightarrow> string \<Rightarrow> 'c under_mutex \<Rightarrow> pool_env \<Rightarrow> pool_env \<Rightarrow> (kv_table \<Rightarrow> kv_table) \<Rightarrow> string list \<Rightarrow> 'v
     \<Rightarrow> 'a database \<Rightarrow> (('c fleet_error + unit) \<times> 'a database) option" where
  "cache_set c protocol env epoch_env1 set_env between parts v d =
     (case validated_cache_key_parts parts of
        Inl e \<Rightarrow> Some (Inl e, d)
      | Inr parts \<Rightarrow>
          run_under_cache_mutex c parts env Inl (\<lambda>g d.
            let (result, t) = set_without_mutex c protocol epoch_env1 set_env parts v between (db_state d);
                (release_result, d) = release_cache_guard env g (d\<lparr>db_state := t\<rparr>)
            in (result_bind result (\<lambda>_. release_result), d)) d)"

definition cache_invalidate ::
    "('v, 'c) coalescing_cache \<Rightarrow> string \<Rightarrow> 'c under_mutex \<Rightarrow> pool_env \<Rightarrow> string list
     \<Rightarrow> 'a database \<Rightarrow> (('c fleet_error + unit) \<times> 'a database) option" where
  "cache_invalidate c protocol env delete_env parts d =
     (case validated_cache_key_parts parts of
        Inl e \<Rightarrow> Some (Inl e, d)
      | Inr parts \<Rightarrow>
          run_under_cache_mutex c parts env Inl (\<lambda>g d.
            let (result, t) = item_delete (value_item c) protocol delete_env parts (db_state d);
                (release_result, d) = release_cache_guard env g (d\<lparr>db_state := t\<rparr>)
            in ((case result of
                   Inr _ \<Rightarrow> release_result
                 | Inl KvKeyNotFound \<Rightarrow> release_result
                 | Inl e \<Rightarrow> Inl (FleetKv e)), d)) d)"

end
