(* ===== verification/CacheSafety.thy ===== *)
theory CacheSafety
  imports Cache TopicRun
begin

text \<open>
  What invalidating a whole cache guarantees: no fetch reads from the cache a value whose writer had read the epoch
  before the last acknowledged invalidation.
\<close>

definition made_cache :: "('v, 'c) coalescing_cache \<Rightarrow> bool" where
  "made_cache c \<longleftrightarrow> faithful (value_item c) \<and> item_codec (value_item c) = Plain
     \<and> faithful (epoch_item c) \<and> item_codec (epoch_item c) = Plain
     \<and> \<not> prefix (item_prefix (value_item c)) (item_prefix (epoch_item c))"

lemma new_cache_made:
  fixes c :: "('v, 'c) coalescing_cache"
  assumes new: "new_coalescing_cache base epoch_base protocol root_key config = Inr c"
    and "faithful base" "faithful epoch_base"
  shows "made_cache c"
proof -
  obtain vp ep where vp: "build_coalescing_cache_value_prefix root_key (config_cache_key config) = (Inr vp :: 'c kv_error + string)"
    and ep: "build_coalescing_cache_epoch_prefix root_key (config_cache_key config) = (Inr ep :: 'c kv_error + string)"
    and c: "value_item c = item_new_plain base vp" "epoch_item c = item_new_plain epoch_base ep"
    using new by (auto simp: new_coalescing_cache_def Let_def result_bind_eq_Inr_iff map_sum_eq_Inr_iff)
  note parts = kv_key_of_parts [OF vp [unfolded build_coalescing_cache_value_prefix_def]]
    kv_key_of_parts [OF ep [unfolded build_coalescing_cache_epoch_prefix_def]]
  have "\<not> prefix vp ep"
    using parts by (simp_all add: KV_KEY_SEPARATOR_def terminated_join_prefix_iff terminated_join_inject component_key_defs
        del: terminated_join_simps)
  then show ?thesis using assms(2,3) by (simp add: made_cache_def c)
qed

lemma join_parts_prefix: "kv_join_parts saw key parts = Inr (saw', key') \<Longrightarrow> prefix key key'"
proof (induction parts arbitrary: saw key)
  case (Cons part parts)
  then have "prefix (if saw then key @ KV_KEY_SEPARATOR @ part else key @ part) key'"
    by (auto simp: result_bind_eq_Inr_iff split: if_splits)
  then show ?case by (auto split: if_splits dest: append_prefixD)
qed simp

lemma item_key_prefix: "item_key_is it parts key \<Longrightarrow> prefix (item_prefix it) key"
  by (auto simp: item_key_is_def item_key_from_parts_def kv_build_key_from_prefix_and_parts_def result_bind_eq_Inr_iff
      Let_def dest!: join_parts_prefix split: if_splits)

section \<open>Effects\<close>

lemma fetch_epoch_effect:
  assumes made: "made_cache c" and at: "number_at (epoch_item c) v t" and run: "fetch_current_epoch c p env t = Inr e"
  shows "e = v"
proof -
  obtain key x where key: "item_key_is (epoch_item c) [] key" and x: "lasting_option (epoch_item c) key x t"
    and v: "v = (case x of None \<Rightarrow> 0 | Some w \<Rightarrow> w)" using at by (auto simp: number_at_def)
  have plain: "item_codec (epoch_item c) = Plain" using made by (simp add: made_cache_def)
  note got = lasting_get [OF x key plain]
  show ?thesis using run v got
    by (auto simp: fetch_current_epoch_def split: sum.splits kv_error.splits)
qed

lemma fetch_entry_effect:
  fixes c :: "('v, 'c) coalescing_cache"
  assumes "fetch_cached_entry c p env parts t = Inr (Some entry)"
  obtains key r where "prefix (item_prefix (value_item c)) key" "t key = Some r"
    "decode_value_for_key (value_item c) key (kv_value r) = (Inr entry :: 'c kv_error + _)"
proof -
  have "item_get (value_item c) p env parts t = (Inr entry :: 'c kv_error + _)"
    using assms by (auto simp: fetch_cached_entry_def split: sum.splits kv_error.splits)
  from item_get_Inr_at [OF this] obtain key where key: "item_key_is (value_item c) parts key"
    and at: "item_at (value_item c) key (env_now env) t = Some (Inr entry :: 'c kv_error + _)" by blast
  then obtain r where "t key = Some r" "decode_value_for_key (value_item c) key (kv_value r) = (Inr entry :: 'c kv_error + _)"
    by (auto simp: item_at_def get_bytes_statement_def live_row_def split: option.splits if_splits)
  then show ?thesis using that item_key_prefix [OF key] by blast
qed

lemma writes_lasting_epoch: "writes_lasting (decide_next_epoch :: _ \<Rightarrow> 'c fleet_error + _)"
  by (auto simp: writes_lasting_def decide_next_epoch_def split: option.splits)

lemma invalidate_all_effect:
  fixes c :: "('v, 'c) coalescing_cache"
  assumes made: "made_cache c" and at: "number_at (epoch_item c) v t" and run: "invalidate_all c env aenv t = (r, t')"
  shows "(\<not> is_ok r \<and> t' = t)
    \<or> (\<exists>v'. v < v' \<and> number_at (epoch_item c) v' t' \<and> (\<forall>k. k \<noteq> item_prefix (epoch_item c) \<longrightarrow> t' k = t k))"
  using run unfolding invalidate_all_def
proof (cases rule: fleet_pool_write_answer)
  case (written u tx')
  have faith: "faithful (epoch_item c)" using made by (simp add: made_cache_def)
  obtain key x where key: "item_key_is (epoch_item c) [] key" and x: "lasting_option (epoch_item c) key x t"
    and v: "v = (case x of None \<Rightarrow> 0 | Some w \<Rightarrow> w)" using at by (auto simp: number_at_def)
  have x': "lasting_option (epoch_item c) key x (tables (begin_transaction t))" using x by (simp add: begin_transaction_def)
  obtain res aenv' where mut: "mutate_live_or_init_item_in_transaction_internal FleetKv (epoch_item c) aenv' []
      (\<lambda>_. Inr (1, NO_EXPIRATION)) decide_next_epoch True (begin_transaction t) = (Inr (res, ()) :: 'c fleet_error + _, tx')"
    using written(1) by (auto simp: invalidate_all_in_current_transaction_def map_prod_def map_sum_eq_Inr_iff
        item_mutate_live_or_insert_initial_value_atomically_in_current_transaction_def split: prod.splits sum.splits)
  obtain n m where d: "decide_next_epoch \<lparr>item_live = (case x of None \<Rightarrow> 1 | Some w \<Rightarrow> w), item_live_timestamp = n\<rparr>
      = (Inr (m, ()) :: 'c fleet_error + _)"
    and after: "lasting (epoch_item c) key (case m of SetValue w _ \<Rightarrow> w | _ \<Rightarrow> (case x of None \<Rightarrow> 1 | Some w \<Rightarrow> w)) (tables tx')"
    and others: "\<And>k. k \<noteq> key \<Longrightarrow> tables tx' k = tables (begin_transaction t) k"
    using lasting_live_or_init [OF faith writes_lasting_epoch key mut x'] by metis
  obtain w where m: "m = SetValue w NO_EXPIRATION" "v < w"
    using d v by (auto simp: decide_next_epoch_def i64_checked_add_def split: option.splits if_splits)
  have "number_at (epoch_item c) w t'"
    using after m key written(2) unfolding number_at_def by (intro exI [of _ key] exI [of _ "Some w"]) simp
  then show ?thesis using m(2) others item_key_no_part [OF key] written(2) by (auto simp: begin_transaction_def)
qed (simp add: is_ok_def)

lemma cache_store_effect:
  fixes c :: "('v, 'c) coalescing_cache"
  assumes made: "made_cache c" and run: "item_set (value_item c) p env parts entry d t = (r, t')"
  shows "t' = t \<or> (\<exists>key row. prefix (item_prefix (value_item c)) key \<and> t' = t(key \<mapsto> row)
    \<and> decode_value_for_key (value_item c) key (kv_value row) = (Inr entry :: 'c kv_error + _))"
proof (cases "item_key_from_parts (value_item c) parts :: 'c kv_error + string")
  case (Inl e)
  then show ?thesis using run by (auto simp: item_set_def with_key_and_value_def with_key_def)
next
  case (Inr key)
  show ?thesis
  proof (cases "encode_value_for_key (value_item c) key entry :: 'c kv_error + bytes")
    case (Inl e)
    then show ?thesis using run Inr by (auto simp: item_set_def with_key_and_value_def with_key_def)
  next
    case bs: (Inr bs)
    have "kv_pool_write ''kv.set_bytes'' env (set_bytes_in_current_transaction p (env_reply env) (env_now env) key bs d) t = (r, t')"
      using run Inr bs by (simp add: item_set_def with_key_and_value_def with_key_def set_bytes_def)
    then show ?thesis
    proof (cases rule: kv_pool_write_answer)
      case (written u tx')
      then have set: "set_bytes_in_current_transaction p (env_reply env) (env_now env) key bs d (begin_transaction t)
          = (Inr () :: 'c kv_error + unit, tx')" by (cases u) simp
      have "decode_value_for_key (value_item c) key bs = (Inr entry :: 'c kv_error + _)"
        by (rule encoded_value_decodes) (use made bs in \<open>auto simp: made_cache_def\<close>)
      moreover have "prefix (item_prefix (value_item c)) key" by (rule item_key_prefix) (use Inr in \<open>simp add: item_key_is_def\<close>)
      ultimately show ?thesis using slot_set_row [OF set] written(2) by (auto simp: begin_transaction_def intro!: exI)
    qed simp
  qed
qed

section \<open>Runs\<close>

text \<open>
  The state of a run: the values whose writers have read the epoch since the last acknowledged invalidation,
  the entries that writers may still store (a value with the epoch its writer has read), and the table. The
  steps are the statements of fetches, settings and invalidations of any processes, and what others do to
  other rows, expirations and deletions.
\<close>

type_synonym 'v cache_state = "'v set \<times> ('v \<times> int) set \<times> kv_table"

inductive cache_step :: "('v, 'c) coalescing_cache \<Rightarrow> 'v cache_state \<Rightarrow> 'v cache_state \<Rightarrow> bool" for c where
  start_computing: "fetch_locked_cached_value_and_epoch c p env env' parts t1 t = Inr (None, epoch) \<Longrightarrow>
    cache_step c (fresh, pending, t) (insert v fresh, insert (v, epoch) pending, t)"
| start_setting: "fetch_current_epoch c p env t = Inr epoch \<Longrightarrow>
    cache_step c (fresh, pending, t) (insert v fresh, insert (v, epoch) pending, t)"
| store_computed: "(v, epoch) \<in> pending \<Longrightarrow>
    cache_step c (fresh, pending, t) (fresh, pending, store_computed_value_best_effort c p env parts v epoch t)"
| store_set: "(v, epoch) \<in> pending \<Longrightarrow>
    item_set (value_item c) p env parts \<lparr>entry_value = v, entry_epoch = epoch\<rparr> (value_ttl c) t = (r, t') \<Longrightarrow>
    cache_step c (fresh, pending, t) (fresh, pending, t')"
| invalidating: "invalidate_all c env aenv t = (r, t') \<Longrightarrow>
    cache_step c (fresh, pending, t) (if is_ok r then {} else fresh, pending, t')"
| elsewhere: "t' (item_prefix (epoch_item c)) = t (item_prefix (epoch_item c)) \<Longrightarrow>
    (\<forall>k. prefix (item_prefix (value_item c)) k \<longrightarrow> t' k = t k \<or> t' k = None) \<Longrightarrow>
    cache_step c (fresh, pending, t) (fresh, pending, t')"

text \<open>A value with an epoch is current, or older than the epoch of the cache.\<close>

definition outdated_or_fresh :: "int \<Rightarrow> 'v set \<Rightarrow> 'v \<times> int \<Rightarrow> bool" where
  "outdated_or_fresh epoch fresh p \<longleftrightarrow> snd p < epoch \<or> snd p = epoch \<and> fst p \<in> fresh"

definition value_rows :: "('v, 'c) coalescing_cache \<Rightarrow> ('v \<times> int \<Rightarrow> bool) \<Rightarrow> kv_table \<Rightarrow> bool" where
  "value_rows c good t \<longleftrightarrow> (\<forall>k r entry. prefix (item_prefix (value_item c)) k \<longrightarrow> t k = Some r \<longrightarrow>
     decode_value_for_key (value_item c) k (kv_value r) = (Inr entry :: 'c kv_error + _) \<longrightarrow>
     good (entry_value entry, entry_epoch entry))"

definition cache_inv :: "('v, 'c) coalescing_cache \<Rightarrow> int \<Rightarrow> 'v cache_state \<Rightarrow> bool" where
  "cache_inv c epoch s = (case s of (fresh, pending, t) \<Rightarrow> number_at (epoch_item c) epoch t
     \<and> (\<forall>p \<in> pending. outdated_or_fresh epoch fresh p) \<and> value_rows c (outdated_or_fresh epoch fresh) t)"

lemma value_rows_mono: "value_rows c good t \<Longrightarrow> (\<And>p. good p \<Longrightarrow> good' p) \<Longrightarrow>
    (\<forall>k. prefix (item_prefix (value_item c)) k \<longrightarrow> t' k = t k \<or> t' k = None) \<Longrightarrow> value_rows c good' t'"
  unfolding value_rows_def by (metis option.distinct(1))

lemma value_rows_store:
  fixes c :: "('v, 'c) coalescing_cache"
  assumes made: "made_cache c" and rows: "value_rows c good t" and good: "good (v, epoch)"
    and run: "item_set (value_item c) p env parts \<lparr>entry_value = v, entry_epoch = epoch\<rparr> d t = (r :: 'c kv_error + unit, t')"
  shows "value_rows c good t'" and "number_at (epoch_item c) e t \<Longrightarrow> number_at (epoch_item c) e t'"
proof -
  from cache_store_effect [OF made run] have "value_rows c good t' \<and> t' (item_prefix (epoch_item c)) = t (item_prefix (epoch_item c))"
  proof (elim disjE exE conjE)
    fix key row
    assume key: "prefix (item_prefix (value_item c)) key" and t': "t' = t(key \<mapsto> row)"
      and row: "decode_value_for_key (value_item c) key (kv_value row)
        = (Inr \<lparr>entry_value = v, entry_epoch = epoch\<rparr> :: 'c kv_error + _)"
    have "value_rows c good t'"
      unfolding value_rows_def
    proof (intro allI impI)
      fix k r' entry
      assume k: "prefix (item_prefix (value_item c)) k" "t' k = Some r'"
        and dec: "decode_value_for_key (value_item c) k (kv_value r') = (Inr entry :: 'c kv_error + _)"
      show "good (entry_value entry, entry_epoch entry)"
      proof (cases "k = key")
        case True
        then have "entry = \<lparr>entry_value = v, entry_epoch = epoch\<rparr>" using k(2) dec row t' by simp
        then show ?thesis using good by simp
      next
        case False
        then have "t k = Some r'" using k(2) t' by simp
        then show ?thesis using rows k(1) dec unfolding value_rows_def by blast
      qed
    qed
    moreover have "key \<noteq> item_prefix (epoch_item c)" using key made by (auto simp: made_cache_def)
    ultimately show ?thesis using t' by simp
  qed (use rows in simp)
  then show "value_rows c good t'" "number_at (epoch_item c) e t \<Longrightarrow> number_at (epoch_item c) e t'"
    using number_at_row by blast+
qed

lemma locked_epoch:
  "fetch_locked_cached_value_and_epoch c p env env' parts t1 t = Inr (x, epoch) \<Longrightarrow> fetch_current_epoch c p env' t = Inr epoch"
  by (auto simp: fetch_locked_cached_value_and_epoch_def map_sum_eq_Inr_iff split: sum.splits option.splits if_splits)

lemma cache_step_inv:
  fixes c :: "('v, 'c) coalescing_cache"
  assumes step: "cache_step c s s'" and made: "made_cache c" and inv: "cache_inv c epoch s"
  shows "\<exists>epoch'. cache_inv c epoch' s' \<and> (\<forall>p. outdated_or_fresh epoch (fst s) p \<longrightarrow> outdated_or_fresh epoch' (fst s') p)"
  using step inv
proof (cases rule: cache_step.cases)
  case (start_computing p env env' parts t1 t e fresh pending v)
  have e: "e = epoch"
    by (rule fetch_epoch_effect [OF made _ locked_epoch [OF start_computing(3)]]) (use inv start_computing(1) in \<open>simp add: cache_inv_def\<close>)
  have mono: "outdated_or_fresh epoch fresh q \<Longrightarrow> outdated_or_fresh epoch (insert v fresh) q" for q
    by (auto simp: outdated_or_fresh_def)
  have "value_rows c (outdated_or_fresh epoch (insert v fresh)) t"
    by (rule value_rows_mono [of c "outdated_or_fresh epoch fresh" t]) (use inv start_computing(1) mono in \<open>auto simp: cache_inv_def\<close>)
  then show ?thesis using inv start_computing(1,2) mono e
    by (intro exI [of _ epoch]) (auto simp: cache_inv_def outdated_or_fresh_def)
next
  case (start_setting p env t e fresh pending v)
  have e: "e = epoch"
    by (rule fetch_epoch_effect [OF made _ start_setting(3)]) (use inv start_setting(1) in \<open>simp add: cache_inv_def\<close>)
  have mono: "outdated_or_fresh epoch fresh q \<Longrightarrow> outdated_or_fresh epoch (insert v fresh) q" for q
    by (auto simp: outdated_or_fresh_def)
  have "value_rows c (outdated_or_fresh epoch (insert v fresh)) t"
    by (rule value_rows_mono [of c "outdated_or_fresh epoch fresh" t]) (use inv start_setting(1) mono in \<open>auto simp: cache_inv_def\<close>)
  then show ?thesis using inv start_setting(1,2) mono e
    by (intro exI [of _ epoch]) (auto simp: cache_inv_def outdated_or_fresh_def)
next
  case (store_computed v e pending fresh t p env parts)
  obtain r t' where set: "item_set (value_item c) p env parts \<lparr>entry_value = v, entry_epoch = e\<rparr> (value_ttl c) t
      = (r :: 'c kv_error + unit, t')" by fastforce
  have t': "store_computed_value_best_effort c p env parts v e t = t'"
    using set by (simp add: store_computed_value_best_effort_def)
  have good: "outdated_or_fresh epoch fresh (v, e)" and rows: "value_rows c (outdated_or_fresh epoch fresh) t"
    using inv store_computed(1,3) by (auto simp: cache_inv_def)
  then show ?thesis using inv store_computed(1,2) value_rows_store [OF made rows good set] t'
    by (intro exI [of _ epoch]) (simp add: cache_inv_def)
next
  case (store_set v e pending p env parts t r t' fresh)
  have good: "outdated_or_fresh epoch fresh (v, e)" and rows: "value_rows c (outdated_or_fresh epoch fresh) t"
    using inv store_set(1,3) by (auto simp: cache_inv_def)
  then show ?thesis using inv store_set(1,2) value_rows_store [OF made rows good store_set(4)]
    by (intro exI [of _ epoch]) (simp add: cache_inv_def)
next
  case (invalidating env aenv t r t' fresh pending)
  have at: "number_at (epoch_item c) epoch t" using inv invalidating(1) by (simp add: cache_inv_def)
  from invalidate_all_effect [OF made at invalidating(3)] show ?thesis
  proof (elim disjE exE conjE)
    assume "\<not> is_ok r" "t' = t"
    then show ?thesis using inv invalidating(1,2) by (intro exI [of _ epoch]) simp
  next
    fix epoch'
    assume e: "epoch < epoch'" "number_at (epoch_item c) epoch' t'"
      and others: "\<forall>k. k \<noteq> item_prefix (epoch_item c) \<longrightarrow> t' k = t k"
    have mono: "outdated_or_fresh epoch fresh q \<Longrightarrow> outdated_or_fresh epoch' fresh' q" for fresh' q
      using e(1) by (auto simp: outdated_or_fresh_def)
    have "value_rows c (outdated_or_fresh epoch' (fst s')) t'"
      by (rule value_rows_mono [of c "outdated_or_fresh epoch fresh" t])
        (use inv invalidating(1) mono others made in \<open>auto simp: cache_inv_def made_cache_def\<close>)
    then show ?thesis using inv invalidating(1,2) mono e(2)
      by (intro exI [of _ epoch']) (auto simp: cache_inv_def)
  qed
next
  case (elsewhere t' t fresh pending)
  have "number_at (epoch_item c) epoch t'"
    using inv elsewhere(1,3) number_at_row by (auto simp: cache_inv_def)
  moreover have "value_rows c (outdated_or_fresh epoch fresh) t'"
    by (rule value_rows_mono [of c "outdated_or_fresh epoch fresh" t]) (use inv elsewhere(1,4) in \<open>auto simp: cache_inv_def\<close>)
  ultimately show ?thesis using inv elsewhere(1,2) by (intro exI [of _ epoch]) (auto simp: cache_inv_def)
qed

lemma cache_run_inv:
  assumes "(cache_step c)\<^sup>*\<^sup>* s s'" and made: "made_cache c" and inv: "cache_inv c epoch s"
  shows "\<exists>epoch'. cache_inv c epoch' s' \<and> (\<forall>p. outdated_or_fresh epoch (fst s) p \<longrightarrow> outdated_or_fresh epoch' (fst s') p)"
  using assms(1)
proof (induction rule: rtranclp_induct)
  case base
  then show ?case using inv by blast
next
  case (step s1 s2)
  then obtain e1 where e1: "cache_inv c e1 s1" "\<forall>p. outdated_or_fresh epoch (fst s) p \<longrightarrow> outdated_or_fresh e1 (fst s1) p"
    by blast
  from cache_step_inv [OF step.hyps(2) made e1(1)] show ?case using e1(2) by blast
qed

text \<open>A value that is read from the cache, under the mutex or not, is fresh when the epoch is read.\<close>

lemma cached_reads_are_fresh:
  fixes c :: "('v, 'c) coalescing_cache"
  assumes made: "made_cache c" and inv1: "cache_inv c e1 (fresh1, pending1, t1)"
    and run: "(cache_step c)\<^sup>*\<^sup>* (fresh1, pending1, t1) (fresh2, pending2, t2)"
    and fetch: "fetch_fresh_cached_value c p env env' parts t1 t2 = Inr (Some v)
      \<or> fetch_locked_cached_value_and_epoch c p env env' parts t1 t2 = Inr (Some v, epoch)"
  shows "v \<in> fresh2"
proof -
  from cache_run_inv [OF run made inv1] obtain e2 where inv2: "cache_inv c e2 (fresh2, pending2, t2)"
    and mono: "\<And>q. outdated_or_fresh e1 fresh1 q \<Longrightarrow> outdated_or_fresh e2 fresh2 q" by auto
  obtain entry current where entry: "fetch_cached_entry c p env parts t1 = Inr (Some entry)"
    and current: "fetch_current_epoch c p env' t2 = Inr current" "current \<le> entry_epoch entry" "v = entry_value entry"
    using fetch by (auto simp: fetch_fresh_cached_value_def fetch_locked_cached_value_and_epoch_def map_sum_eq_Inr_iff
        split: sum.splits option.splits if_splits)
  obtain key r where row: "prefix (item_prefix (value_item c)) key" "t1 key = Some r"
    "decode_value_for_key (value_item c) key (kv_value r) = (Inr entry :: 'c kv_error + _)"
    by (rule fetch_entry_effect [OF entry])
  have "outdated_or_fresh e1 fresh1 (entry_value entry, entry_epoch entry)"
    using inv1 row unfolding cache_inv_def value_rows_def by auto
  from mono [OF this] have "entry_epoch entry < e2 \<or> v \<in> fresh2" using current(3) by (auto simp: outdated_or_fresh_def)
  moreover have "current = e2" using fetch_epoch_effect [OF made _ current(1)] inv2 by (simp add: cache_inv_def)
  ultimately show ?thesis using current(2) by simp
qed

text \<open>Where the value of a fetch comes from.\<close>

lemma combined_value: "combine_fetch_and_release result release_result = Inr v \<Longrightarrow> result = Inr v"
  by (auto simp: combine_fetch_and_release_def split: sum.splits cache_fetch_error.splits)

lemma holding_value:
  assumes run: "fetch_or_compute_while_holding_mutex c p env parts g d = (Inr v, g', d')"
  shows "\<exists>epoch. fetch_locked_cached_value_and_epoch c p (entry_env env) (epoch_env env) parts (db_state d)
      (before_epoch env (db_state d)) = Inr (Some v, epoch)
    \<or> fetch_locked_cached_value_and_epoch c p (entry_env env) (epoch_env env) parts (db_state d)
      (before_epoch env (db_state d)) = Inr (None, epoch) \<and> computation env = Inr v"
  using run unfolding fetch_or_compute_while_holding_mutex_def
  by (auto simp: Let_def split: sum.splits prod.splits option.splits bool.splits if_splits)

lemma fetch_value:
  assumes "fetch_or_compute c p first locking compute parts d = Some (Inr v, d')"
  shows "fetch_fresh_cached_value c p (fresh_entry_env first) (fresh_epoch_env first) parts (db_state d)
      (before_fresh_epoch first (db_state d)) = Inr (Some v)
    \<or> (\<exists>epoch. fetch_locked_cached_value_and_epoch c p (entry_env compute) (epoch_env compute) parts
          (before_mutex first (before_fresh_epoch first (db_state d)))
          (before_epoch compute (before_mutex first (before_fresh_epoch first (db_state d)))) = Inr (Some v, epoch)
      \<or> fetch_locked_cached_value_and_epoch c p (entry_env compute) (epoch_env compute) parts
          (before_mutex first (before_fresh_epoch first (db_state d)))
          (before_epoch compute (before_mutex first (before_fresh_epoch first (db_state d)))) = Inr (None, epoch)
        \<and> computation compute = Inr v)"
  using assms unfolding fetch_or_compute_def
  by (auto simp: run_under_cache_mutex_def validated_cache_key_parts_def map_sum_eq_Inr_iff Let_def
      split: sum.splits prod.splits option.splits dest!: combined_value holding_value)

text \<open>C4: A value read from the cache is never older than an acknowledged invalidation. In every run of fetches,
  computations, settings and invalidations by any processes, whatever their order, answers and lost acknowledgements,
  from a cache without values: the value that \<open>fetch_or_compute\<close> returns is read from the cache without the mutex, or
  under it, and then its writer had read the epoch after every invalidation acknowledged up to the moment at which this
  fetch read the epoch; or the fetch computed it itself, after reading the epoch. (An invalidation acknowledged while the
  fetch computes does not stop it from returning what it computed.) The tables t1 to t4 are those of the fetch's entry
  and epoch reads; others run between them.\<close>

theorem invalidated_values_are_never_served:
  fixes c :: "('v, 'c) coalescing_cache"
  assumes new: "new_coalescing_cache base epoch_base protocol root_key config = Inr c"
    and "faithful base" "faithful epoch_base"
    and start: "number_at (epoch_item c) epoch0 t0" "\<forall>k. prefix (item_prefix (value_item c)) k \<longrightarrow> t0 k = None"
    and run1: "(cache_step c)\<^sup>*\<^sup>* ({}, {}, t0) (fresh1, pending1, db_state d)"
    and run2: "(cache_step c)\<^sup>*\<^sup>* (fresh1, pending1, db_state d) (fresh2, pending2, t2)"
    and run3: "(cache_step c)\<^sup>*\<^sup>* (fresh2, pending2, t2) (fresh3, pending3, t3)"
    and run4: "(cache_step c)\<^sup>*\<^sup>* (fresh3, pending3, t3) (fresh4, pending4, t4)"
    and others: "before_fresh_epoch first (db_state d) = t2" "before_mutex first t2 = t3" "before_epoch compute t3 = t4"
    and fetch: "fetch_or_compute c p first locking compute parts d = Some (Inr v, d')"
  shows "fetch_fresh_cached_value c p (fresh_entry_env first) (fresh_epoch_env first) parts (db_state d) t2 = Inr (Some v)
      \<and> v \<in> fresh2
    \<or> (\<exists>epoch. fetch_locked_cached_value_and_epoch c p (entry_env compute) (epoch_env compute) parts t3 t4 = Inr (Some v, epoch)
        \<and> v \<in> fresh4)
    \<or> (\<exists>epoch. fetch_locked_cached_value_and_epoch c p (entry_env compute) (epoch_env compute) parts t3 t4 = Inr (None, epoch)
        \<and> computation compute = Inr v)"
proof -
  have made: "made_cache c" by (rule new_cache_made [OF assms(1-3)])
  have "cache_inv c epoch0 ({}, {}, t0)" using start by (simp add: cache_inv_def value_rows_def)
  from cache_run_inv [OF run1 made this] obtain e1 where inv1: "cache_inv c e1 (fresh1, pending1, db_state d)" by blast
  from cache_run_inv [OF rtranclp_trans [OF run2 run3] made this] obtain e3 where inv3: "cache_inv c e3 (fresh3, pending3, t3)"
    by blast
  show ?thesis
    using fetch_value [OF fetch, unfolded others] cached_reads_are_fresh [OF made inv1 run2]
      cached_reads_are_fresh [OF made inv3 run4] by blast
qed

section \<open>A concrete cache\<close>

definition byte_entries :: "(int cache_entry, unit, unit) item" where
  "byte_entries = \<lparr>item_prefix = [], item_codec = Plain,
     to_plaintext_bytes = (\<lambda>e. if entry_epoch e = 0 \<and> 0 \<le> entry_value e \<and> entry_value e < 256
       then Inr [word_of_int (entry_value e)] else Inl ()),
     from_plaintext_bytes = (\<lambda>bs. Inr \<lparr>entry_value = uint (hd bs), entry_epoch = 0\<rparr>),
     seal = (\<lambda>_ p _. Inr p), unseal = (\<lambda>_ b _. Inr b)\<rparr>"

lemma byte_entries_faithful: "faithful byte_entries"
  by (auto simp: faithful_def byte_entries_def uint_word_of_int split: if_splits)

definition demo_cache_config :: cache_config where
  "demo_cache_config = \<lparr>config_cache_key = ''k'', config_value_ttl = NO_EXPIRATION, config_lock_wait_timeout = None,
     config_compute_timeout = None\<rparr>"

definition demo_cache :: "(int, unit) coalescing_cache" where
  "demo_cache = \<lparr>cache_key = ''k'', value_ttl = NO_EXPIRATION, lock_wait_timeout = 60000000000, compute_timeout = None,
     value_item = item_new_plain byte_entries ''r::cache::k::value::'',
     epoch_item = item_new_plain byte_numbers ''r::cache::k::epoch::'', cache_mutex_protocol = ''p'',
     cache_mutex_claim_duration = ClaimDuration 30000000000, cache_root_key = ''r''\<rparr>"

lemma demo_cache_new: "new_coalescing_cache byte_entries byte_numbers ''p'' ''r'' demo_cache_config = Inr demo_cache"
  by (simp add: new_coalescing_cache_def demo_cache_config_def option_unwrap_or_def
      DEFAULT_COALESCING_CACHE_LOCK_WAIT_TIMEOUT_def DEFAULT_COALESCING_CACHE_MUTEX_CLAIM_DURATION_def
      validate_positive_duration_for_coalescing_cache_lock_wait_timeout_def throttler_rounded_microseconds_def Let_def
      i64_max_def build_coalescing_cache_value_prefix_def build_coalescing_cache_epoch_prefix_def
      build_coalescing_cache_mutex_lease_key_def demo_build_defs result_bind_def expires_after_def MIN_LEASE_DURATION_def
      duration_to_rounded_microseconds_def demo_cache_def)

definition demo_filled :: kv_table where
  "demo_filled = [''r::cache::k::value::a::'' \<mapsto> \<lparr>kv_value = [7], kv_expires_at = None, kv_updated_at = 5\<rparr>]"

definition demo_advanced :: kv_table where
  "demo_advanced = demo_filled(''r::cache::k::epoch::'' \<mapsto> \<lparr>kv_value = [2], kv_expires_at = None, kv_updated_at = 6\<rparr>)"

lemma demo_cache_keys:
  "item_key_from_parts (value_item demo_cache) [''a''] = Inr ''r::cache::k::value::a::''"
  "item_key_from_parts (epoch_item demo_cache) [] = Inr ''r::cache::k::epoch::''"
  by (simp_all add: item_key_from_parts_def demo_cache_def kv_build_key_from_prefix_and_parts_def
      kv_validate_key_part_def kv_validate_key_length_def MAX_KV_KEY_BYTES_def KV_KEY_SEPARATOR_def result_bind_def)

lemma demo_cache_items:
  "value_item demo_cache = item_new_plain byte_entries ''r::cache::k::value::''"
  "epoch_item demo_cache = item_new_plain byte_numbers ''r::cache::k::epoch::''" "value_ttl demo_cache = NO_EXPIRATION"
  by (simp_all add: demo_cache_def)

lemma demo_entry_codec:
  "encode_value_for_key (item_new_plain byte_entries p) k \<lparr>entry_value = 7, entry_epoch = 0\<rparr> = Inr [7]"
  "decode_value_for_key (item_new_plain byte_entries p) k [7] = Inr \<lparr>entry_value = 7, entry_epoch = 0\<rparr>"
  by (simp_all add: byte_entries_def item_new_plain_def encode_value_for_key_def decode_value_for_key_def
      with_codec_def encode_plain_value_def decode_plain_value_def)

lemmas demo_cache_read_defs = fetch_current_epoch_def fetch_cached_entry_def item_get_def with_key_def get_bytes_def
  kv_pool_read_def pool_read_def calm_pool_def finish_rollback_only_transaction_def get_bytes_in_current_transaction_def
  admitted_def admit_def supported_reply_def supported_row_def begin_transaction_def SUPPORTED_EPOCH_def
  SUPPORTED_FINGERPRINT_def result_bind_def get_bytes_with_executor_def get_bytes_statement_def live_row_def not_expired_def
  demo_cache_items demo_cache_keys [unfolded demo_cache_items] demo_entry_codec byte_numbers_codec

lemma demo_epoch_zero: "fetch_current_epoch demo_cache ''p'' calm_pool Map.empty = Inr 0"
  by (simp add: demo_cache_read_defs)

lemma demo_fetch_filled:
  "fetch_fresh_cached_value demo_cache ''p'' calm_pool calm_pool [''a''] demo_filled demo_filled = Inr (Some 7)"
  by (simp add: fetch_fresh_cached_value_def demo_cache_read_defs demo_filled_def)

lemma demo_store: "item_set (value_item demo_cache) ''p'' calm_pool [''a''] \<lparr>entry_value = 7, entry_epoch = 0\<rparr>
    (value_ttl demo_cache) Map.empty = (Inr () :: unit kv_error + unit, demo_filled)"
  by (simp add: item_set_def with_key_and_value_def with_key_def demo_cache_items demo_cache_keys [unfolded demo_cache_items]
      demo_entry_codec set_bytes_def kv_pool_write_def pool_write_def calm_pool_def finish_write_transaction_def
      set_bytes_in_current_transaction_def admitted_def admit_def supported_reply_def supported_row_def
      begin_transaction_def SUPPORTED_EPOCH_def SUPPORTED_FINGERPRINT_def set_bytes_with_executor_def set_bytes_statement_def
      ttl_positive_microseconds_def NO_EXPIRATION_def expires_at_expression_def demo_filled_def)

lemma demo_invalidate: "invalidate_all demo_cache calm_pool calm_env demo_filled = (Inr (), demo_advanced)"
  by (simp add: invalidate_all_def fleet_pool_write_def pool_write_def calm_pool_def invalidate_all_in_current_transaction_def
      demo_mutation_defs demo_cache_items byte_numbers_codec demo_cache_keys [unfolded demo_cache_items]
      decide_next_epoch_def demo_filled_def demo_advanced_def try_lock_first)

definition first_reads :: "(kv_table \<Rightarrow> kv_table) \<Rightarrow> fresh_env" where
  "first_reads others = \<lparr>fresh_entry_env = calm_pool, before_fresh_epoch = others, fresh_epoch_env = calm_pool, before_mutex = id\<rparr>"

definition demo_under :: "unit under_mutex" where
  "demo_under = \<lparr>mutex_attempts = [], mutex_release = calm_pool, mutex_join = None, mutex_drop = calm_pool\<rparr>"

definition demo_compute :: "(int, unit, unit, unit) compute_env" where
  "demo_compute = \<lparr>entry_env = calm_pool, before_epoch = id, epoch_env = calm_pool, computation = Inr 8,
     runs_out_of_time = False, during_compute = Pair, store_env = calm_pool\<rparr>"

definition demo_filled_database :: "unit database" where
  "demo_filled_database = \<lparr>db_leases = \<lparr>leases = Map.empty, fencing_counters = Map.empty\<rparr>, db_state = demo_filled, db_app = ()\<rparr>"

lemma demo_fetches:
  "fetch_or_compute demo_cache ''p'' (first_reads id) demo_under demo_compute [''a''] demo_filled_database
   = Some (Inr 7, demo_filled_database)"
proof -
  have "validated_cache_key_parts [''a''] = (Inr [''a''] :: unit fleet_error + _)"
    by (simp add: validated_cache_key_parts_def kv_build_key_from_parts_def kv_validate_key_part_def kv_validate_key_length_def
        MAX_KV_KEY_BYTES_def KV_KEY_SEPARATOR_def result_bind_def)
  then show ?thesis
    by (simp add: fetch_or_compute_def first_reads_def demo_filled_database_def Let_def demo_fetch_filled)
qed

theorem invalidated_values_are_never_served_witness:
  "fetch_or_compute demo_cache ''p'' (first_reads id) demo_under demo_compute [''a''] demo_filled_database
     = Some (Inr 7, demo_filled_database)
   \<and> invalidate_all demo_cache calm_pool calm_env demo_filled = (Inr (), demo_advanced)
   \<and> (\<forall>d. fetch_or_compute demo_cache ''p'' (first_reads (\<lambda>_. demo_advanced)) demo_under demo_compute [''a'']
        demo_filled_database \<noteq> Some (Inr 7, d))"
proof -
  have start: "number_at (epoch_item demo_cache) 0 Map.empty"
    by (simp add: number_at_def item_key_is_def demo_cache_keys exI [of _ "None :: int option"])
  have a: "cache_step demo_cache ({}, {}, Map.empty) ({7}, {(7, 0)}, Map.empty)"
    using start_setting [OF demo_epoch_zero, of "{}" "{}" 7] by simp
  have b: "cache_step demo_cache ({7}, {(7, 0)}, Map.empty) ({7}, {(7, 0)}, demo_filled)"
    by (rule store_set [OF _ demo_store]) simp
  have c: "cache_step demo_cache ({7}, {(7, 0)}, demo_filled) ({}, {(7, 0)}, demo_advanced)"
    using invalidating [OF demo_invalidate, of "{7}" "{(7, 0)}"] by (simp add: is_ok_def)
  have run1: "(cache_step demo_cache)\<^sup>*\<^sup>* ({}, {}, Map.empty) ({7}, {(7, 0)}, demo_filled)"
    using a b by (meson converse_rtranclp_into_rtranclp r_into_rtranclp)
  have run1': "(cache_step demo_cache)\<^sup>*\<^sup>* ({}, {}, Map.empty) ({7}, {(7, 0)}, db_state demo_filled_database)"
    and run2: "(cache_step demo_cache)\<^sup>*\<^sup>* ({7}, {(7, 0)}, db_state demo_filled_database) ({}, {(7, 0)}, demo_advanced)"
    using run1 c by (simp_all add: demo_filled_database_def)
  have "fetch_or_compute demo_cache ''p'' (first_reads (\<lambda>_. demo_advanced)) demo_under demo_compute [''a'']
        demo_filled_database \<noteq> Some (Inr 7, d)" for d
    using invalidated_values_are_never_served [OF demo_cache_new byte_entries_faithful byte_numbers_faithful start _ run1'
        run2 rtranclp.rtrancl_refl rtranclp.rtrancl_refl,
        of "first_reads (\<lambda>_. demo_advanced)" demo_compute "''p''" demo_under "[''a'']" 7 d]
    by (auto simp: first_reads_def demo_compute_def)
  then show ?thesis using demo_fetches demo_invalidate by blast
qed

end
