(* ===== verification/Cron.thy ===== *)
theory Cron
  imports FleetKeys TopicPolling
begin

text \<open>
  The single-leader periodic runner of \<open>src/src/db/fleet/cron.rs\<close> and \<open>cron_model.rs\<close>, the constructor in
  \<open>store.rs\<close>, the combination of results in \<open>mutex_guard.rs\<close> and the handle of a background run in
  \<open>handles.rs\<close>.

  What happens to the guard and the lease tables before a tick, while its task runs and while the runner
  sleeps is a function of the environment, as are the answers of the tasks and of the error policy, and
  which branch of a \<open>select!\<close> is taken. A run reports the ticks it started: the snapshot the task was given
  and what it answered. \<open>None\<close> is a run still waiting, or still running, when the environment ends. Spawning
  the background run is not modelled.
\<close>

section \<open>Handles, configuration and errors\<close>

definition DEFAULT_FLEET_CRON_CLAIM_DURATION :: nanos where
  "DEFAULT_FLEET_CRON_CLAIM_DURATION = 30 * nanos_per_second"
definition DEFAULT_FLEET_CRON_HEARTBEAT_INTERVAL :: nanos where
  "DEFAULT_FLEET_CRON_HEARTBEAT_INTERVAL = 10 * nanos_per_second"
definition DEFAULT_FLEET_CRON_ACQUIRE_RETRY_INTERVAL :: nanos where
  "DEFAULT_FLEET_CRON_ACQUIRE_RETRY_INTERVAL = 5 * nanos_per_second"
definition MIN_FLEET_CRON_INTERVAL :: nanos where "MIN_FLEET_CRON_INTERVAL = 1 * nanos_per_second"

record cron_config =
  config_cron_key :: string
  config_cron_interval :: nanos
  config_cron_claim_duration :: "claim_duration option"
  config_cron_heartbeat_interval :: "nanos option"
  config_cron_acquire_retry_interval :: "nanos option"
  config_cron_max_consecutive_renewal_failures :: "nat option"

record cron =
  cron_key :: string
  cron_interval :: nanos
  cron_mutex :: mutex
  cron_guard_config :: mutex_guard_config

datatype 'v cron_try_run_once_result = CronRan 'v | LeadershipHeld
datatype cron_task_error_action = ContinueTicks | StopTicks
datatype tenure_outcome = StopRequested | TenureLost

datatype ('c, 'e) cron_run_error =
    CronFleet "'c fleet_error"
  | CronFleetAndLeadershipLost "'c fleet_error"
  | CronFleetAndRelease "'c fleet_error" "'c fleet_error"
  | CronLeadershipLost
  | CronLeadershipLostAndRelease "'c fleet_error"
  | CronTask 'e
  | CronTaskAndLeadershipLost 'e
  | CronRelease "'c fleet_error"
  | CronTaskAndRelease 'e "'c fleet_error"

text \<open>The default claim duration is valid, so its \<open>expect\<close> never fails.\<close>

definition new_cron :: "string \<Rightarrow> string \<Rightarrow> cron_config \<Rightarrow> 'c fleet_error + cron" where
  "new_cron protocol root_key config =
     (if config_cron_interval config < MIN_FLEET_CRON_INTERVAL
      then Inl (FleetTopicError (FleetInvalidCronInterval MIN_FLEET_CRON_INTERVAL))
      else
        result_bind (case config_cron_claim_duration config of
            Some d \<Rightarrow> Inr d
          | None \<Rightarrow> map_sum FleetCoordination id (expires_after DEFAULT_FLEET_CRON_CLAIM_DURATION)) (\<lambda>duration.
        result_bind (map_sum (\<lambda>e. FleetTopicError (FleetInvalidCronKey e)) id
            (build_cron_mutex_lease_key root_key (config_cron_key config))) (\<lambda>lease_key.
        let guard_config = \<lparr>
              config_heartbeat_interval =
                Some (option_unwrap_or (config_cron_heartbeat_interval config) DEFAULT_FLEET_CRON_HEARTBEAT_INTERVAL),
              config_acquire_retry_interval =
                Some (option_unwrap_or (config_cron_acquire_retry_interval config) DEFAULT_FLEET_CRON_ACQUIRE_RETRY_INTERVAL),
              config_max_acquire_retry_interval = None,
              config_max_consecutive_renewal_failures = config_cron_max_consecutive_renewal_failures config\<rparr>
        in result_bind (resolve_for_claim_duration guard_config duration) (\<lambda>_.
        Inr \<lparr>cron_key = config_cron_key config, cron_interval = config_cron_interval config,
          cron_mutex = \<lparr>mutex_protocol = protocol, mutex_key = config_cron_key config, mutex_lease_key = lease_key,
            mutex_claim_duration = duration\<rparr>,
          cron_guard_config = guard_config\<rparr>))))"

fun combine_cron_task_and_release_results ::
    "('c, 'e) cron_run_error + 'v \<Rightarrow> 'c fleet_error + bool \<Rightarrow> ('c, 'e) cron_run_error + 'v" where
  "combine_cron_task_and_release_results (Inr v) (Inr True) = Inr v"
| "combine_cron_task_and_release_results (Inr v) (Inr False) = Inl CronLeadershipLost"
| "combine_cron_task_and_release_results (Inr v) (Inl e) = Inl (CronRelease e)"
| "combine_cron_task_and_release_results (Inl (CronTask s)) (Inr False) = Inl (CronTaskAndLeadershipLost s)"
| "combine_cron_task_and_release_results (Inl (CronFleet s)) (Inr False) = Inl (CronFleetAndLeadershipLost s)"
| "combine_cron_task_and_release_results (Inl (CronTask s)) (Inr True) = Inl (CronTask s)"
| "combine_cron_task_and_release_results (Inl (CronTask s)) (Inl e) = Inl (CronTaskAndRelease s e)"
| "combine_cron_task_and_release_results (Inl (CronFleet s)) (Inl e) = Inl (CronFleetAndRelease s e)"
| "combine_cron_task_and_release_results (Inl CronLeadershipLost) (Inl e) = Inl (CronLeadershipLostAndRelease e)"
| "combine_cron_task_and_release_results (Inl err) _ = Inl err"

definition release_cron_guard_after_leadership_lost ::
    "'c fleet_error + bool \<Rightarrow> ('c, 'e) cron_run_error + tenure_outcome" where
  "release_cron_guard_after_leadership_lost release_result =
     (case release_result of Inr _ \<Rightarrow> Inr TenureLost | Inl e \<Rightarrow> Inl (CronLeadershipLostAndRelease e))"

definition is_retryable_cron_leadership_acquire_error :: "'c fleet_error \<Rightarrow> bool" where
  "is_retryable_cron_leadership_acquire_error e =
     (case e of
        FleetDatabase d \<Rightarrow> is_retryable_database_operation_error d
      | FleetCoordination (LeaseDatabase d) \<Rightarrow> is_retryable_database_operation_error d
      | _ \<Rightarrow> False)"

section \<open>One task\<close>

definition execute_task_while_guarded ::
    "mutex_guard \<Rightarrow> (mutex_guard_snapshot \<Rightarrow> 'e + 'v) \<Rightarrow> mutex_guard \<Rightarrow> ('c, 'e) cron_run_error + 'v" where
  "execute_task_while_guarded before task after =
     (case live_claim_snapshot before of
        None \<Rightarrow> Inl CronLeadershipLost
      | Some snapshot \<Rightarrow>
          (case task snapshot of
             Inl e \<Rightarrow> Inl (CronTask e)
           | Inr v \<Rightarrow> if leadership_lost after then Inl CronLeadershipLost else Inr v))"

record guard_release_env =
  release_env :: pool_env
  release_join :: "string option"
  release_drop :: pool_env

definition release_cron_guard :: "guard_release_env \<Rightarrow> mutex_guard \<Rightarrow> lease_tables \<Rightarrow> ('c fleet_error + bool) \<times> lease_tables" where
  "release_cron_guard env = release (release_env env) (release_join env) (release_drop env)"

definition run_task_once_under_guard ::
    "mutex_guard \<Rightarrow> (mutex_guard \<Rightarrow> lease_tables \<Rightarrow> mutex_guard \<times> lease_tables) \<Rightarrow> (mutex_guard_snapshot \<Rightarrow> 'e + 'v)
     \<Rightarrow> guard_release_env \<Rightarrow> lease_tables \<Rightarrow> (('c, 'e) cron_run_error + 'v) \<times> lease_tables" where
  "run_task_once_under_guard g during task env t =
     (let (after, t) = during g t; task_result = execute_task_while_guarded g task after;
          (release_result, t) = release_cron_guard env after t
      in (combine_cron_task_and_release_results task_result release_result, t))"

definition cron_try_run_once ::
    "cron \<Rightarrow> 'c id_error + string \<Rightarrow> 'c lease_call \<Rightarrow> (mutex_guard \<Rightarrow> lease_tables \<Rightarrow> mutex_guard \<times> lease_tables)
     \<Rightarrow> (mutex_guard_snapshot \<Rightarrow> 'e + 'v) \<Rightarrow> guard_release_env \<Rightarrow> lease_tables
     \<Rightarrow> (('c, 'e) cron_run_error + 'v cron_try_run_once_result) \<times> lease_tables" where
  "cron_try_run_once c new_id_text call during task env t =
     (case try_claim_guard (cron_mutex c) new_id_text call (cron_guard_config c) t of
        (Inl e, t) \<Rightarrow> (Inl (CronFleet e), t)
      | (Inr None, t) \<Rightarrow> (Inr LeadershipHeld, t)
      | (Inr (Some (g, _)), t) \<Rightarrow> map_prod (map_sum id CronRan) id (run_task_once_under_guard g during task env t))"

definition cron_run_once ::
    "cron \<Rightarrow> 'c id_error + string \<Rightarrow> ('c lease_call \<times> (nanos \<Rightarrow> string + nanos)) list
     \<Rightarrow> (mutex_guard \<Rightarrow> lease_tables \<Rightarrow> mutex_guard \<times> lease_tables) \<Rightarrow> (mutex_guard_snapshot \<Rightarrow> 'e + 'v) \<Rightarrow> guard_release_env
     \<Rightarrow> lease_tables \<Rightarrow> ((('c, 'e) cron_run_error + 'v) \<times> lease_tables) option" where
  "cron_run_once c new_id_text attempts during task env t =
     map_option (\<lambda>(claimed, t). case claimed of
         Inl e \<Rightarrow> (Inl (CronFleet e), t)
       | Inr g \<Rightarrow> run_task_once_under_guard g during task env t)
       (fst (claim_guard_when_available (cron_mutex c) new_id_text (cron_guard_config c) attempts t))"

section \<open>Becoming the leader\<close>

text \<open>
  One element is one turn of the acquiring loop. A claim that the stop signal cancels may have reached the
  server: \<open>cancelled_claim\<close> is then what it made of the tables.
\<close>

record 'c leadership_turn =
  cancelled_claim :: "(lease_tables \<Rightarrow> lease_tables) option"
  leader_id_text :: "'c id_error + string"
  leader_attempts :: "('c lease_call \<times> (nanos \<Rightarrow> string + nanos)) list"
  leader_jitter :: "nanos \<Rightarrow> string + nanos"
  stop_in_retry_delay :: bool
  after_retry_delay :: "lease_tables \<Rightarrow> lease_tables"

definition cron_retry_delay :: "cron \<Rightarrow> (nanos \<Rightarrow> string + nanos) \<Rightarrow> ('c, 'e) cron_run_error + nanos" where
  "cron_retry_delay c jitter =
     map_sum (\<lambda>reason. CronFleet (FleetMutexError (FleetMutexAcquireRetryJitterRandom reason))) id
       (jitter (option_unwrap_or (config_acquire_retry_interval (cron_guard_config c))
         DEFAULT_FLEET_MUTEX_ACQUIRE_RETRY_INTERVAL))"

text \<open>\<open>Inr None\<close> is the early return of a stopped run.\<close>

fun acquire_leadership ::
    "cron \<Rightarrow> 'c leadership_turn list \<Rightarrow> lease_tables \<Rightarrow> ((('c, 'e) cron_run_error + mutex_guard option) \<times> lease_tables) option" where
  "acquire_leadership c [] t = None"
| "acquire_leadership c (a # rest) t =
     (case cancelled_claim a of
        Some left \<Rightarrow> Some (Inr None, left t)
      | None \<Rightarrow>
          (case fst (claim_guard_when_available (cron_mutex c) (leader_id_text a) (cron_guard_config c) (leader_attempts a) t) of
             None \<Rightarrow> None
           | Some (Inr g, t) \<Rightarrow> Some (Inr (Some g), t)
           | Some (Inl e, t) \<Rightarrow>
               if is_retryable_cron_leadership_acquire_error e then
                 (case cron_retry_delay c (leader_jitter a) of
                    Inl err \<Rightarrow> Some (Inl err, t)
                  | Inr _ \<Rightarrow> if stop_in_retry_delay a then Some (Inr None, t)
                      else acquire_leadership c rest (after_retry_delay a t))
               else Some (Inl (CronFleet e), t)))"

section \<open>Ticks\<close>

record 'e cron_tick =
  before_tick :: "mutex_guard \<Rightarrow> lease_tables \<Rightarrow> mutex_guard \<times> lease_tables"
  tick_task :: "mutex_guard_snapshot \<Rightarrow> 'e + unit"
  during_tick :: "mutex_guard \<Rightarrow> lease_tables \<Rightarrow> mutex_guard \<times> lease_tables"
  tick_policy :: "'e \<Rightarrow> cron_task_error_action"
  during_sleep :: "mutex_guard \<Rightarrow> lease_tables \<Rightarrow> mutex_guard \<times> lease_tables"
  stop_wins :: bool
  sleep_wins :: bool
  tick_release :: guard_release_env

type_synonym 'e tick_log = "(mutex_guard_snapshot \<times> ('e + unit)) list"

definition started_tick :: "mutex_guard \<Rightarrow> (mutex_guard_snapshot \<Rightarrow> 'e + unit) \<Rightarrow> 'e tick_log" where
  "started_tick g task = (case live_claim_snapshot g of None \<Rightarrow> [] | Some s \<Rightarrow> [(s, task s)])"

text \<open>What follows the sleep of a tick: \<open>None\<close> is the next tick.\<close>

definition after_sleep ::
    "'e cron_tick \<Rightarrow> mutex_guard \<Rightarrow> lease_tables
     \<Rightarrow> ((('c, 'e) cron_run_error + tenure_outcome) \<times> lease_tables) option" where
  "after_sleep k g t =
     (let (release_result, t') = release_cron_guard (tick_release k) g t
      in if stop_wins k then Some (map_sum CronRelease (\<lambda>_. StopRequested) release_result, t')
         else if leadership_lost g \<and> \<not> sleep_wins k
         then Some (release_cron_guard_after_leadership_lost release_result, t')
         else None)"

text \<open>What ends a tenure right after the task of a tick: \<open>None\<close> is the sleep.\<close>

definition after_task ::
    "'e cron_tick \<Rightarrow> ('c, 'e) cron_run_error + unit \<Rightarrow> mutex_guard \<Rightarrow> lease_tables
     \<Rightarrow> ((('c, 'e) cron_run_error + tenure_outcome) \<times> lease_tables) option" where
  "after_task k result g t =
     (let (release_result, t') = release_cron_guard (tick_release k) g t
      in case result of
           Inr _ \<Rightarrow> None
         | Inl (CronTask source) \<Rightarrow>
             if tick_policy k source = StopTicks
             then Some (combine_cron_task_and_release_results (Inl (CronTask source)) release_result, t')
             else if leadership_lost g then Some (release_cron_guard_after_leadership_lost release_result, t')
             else None
         | Inl CronLeadershipLost \<Rightarrow> Some (release_cron_guard_after_leadership_lost release_result, t')
         | Inl e \<Rightarrow>
             Some (map_sum id (\<lambda>_. TenureLost)
               (combine_cron_task_and_release_results (Inl e :: ('c, 'e) cron_run_error + unit) release_result), t'))"

fun tick_loop ::
    "'e cron_tick list \<Rightarrow> mutex_guard \<Rightarrow> lease_tables
     \<Rightarrow> 'e tick_log \<times> ((('c, 'e) cron_run_error + tenure_outcome) \<times> lease_tables) option" where
  "tick_loop [] g t = ([], None)"
| "tick_loop (k # rest) g t =
     (let (g, t) = before_tick k g t;
          started = started_tick g (tick_task k);
          (after, t) = (if started = [] then (g, t) else during_tick k g t)
      in case after_task k (execute_task_while_guarded g (tick_task k) after) after t of
           Some ended \<Rightarrow> (started, Some ended)
         | None \<Rightarrow>
             let (g, t) = during_sleep k after t
             in case after_sleep k g t of
                  Some ended \<Rightarrow> (started, Some ended)
                | None \<Rightarrow> map_prod (append started) id (tick_loop rest g t))"

section \<open>Tenures\<close>

record ('c, 'e) tenure =
  leadership :: "'c leadership_turn list"
  ticks :: "'e cron_tick list"
  reacquire_jitter :: "nanos \<Rightarrow> string + nanos"
  stop_before_reacquire :: bool
  between_tenures :: "lease_tables \<Rightarrow> lease_tables"

definition run_single_leadership_tenure ::
    "cron \<Rightarrow> ('c, 'e) tenure \<Rightarrow> lease_tables
     \<Rightarrow> 'e tick_log \<times> ((('c, 'e) cron_run_error + tenure_outcome) \<times> lease_tables) option" where
  "run_single_leadership_tenure c e t =
     (case acquire_leadership c (leadership e) t of
        None \<Rightarrow> ([], None)
      | Some (Inl err, t) \<Rightarrow> ([], Some (Inl err, t))
      | Some (Inr None, t) \<Rightarrow> ([], Some (Inr StopRequested, t))
      | Some (Inr (Some g), t) \<Rightarrow> tick_loop (ticks e) g t)"

definition run_until_stopped_with_task_error_policy ::
    "cron \<Rightarrow> ('c, 'e) tenure \<Rightarrow> lease_tables \<Rightarrow> 'e tick_log \<times> ((('c, 'e) cron_run_error + unit) \<times> lease_tables) option" where
  "run_until_stopped_with_task_error_policy c e t =
     map_prod id (map_option (map_prod (\<lambda>r. result_bind r (\<lambda>ended. case ended of
         StopRequested \<Rightarrow> Inr () | TenureLost \<Rightarrow> Inl CronLeadershipLost)) id))
       (run_single_leadership_tenure c e t)"

fun run_continuously_until_stopped_with_task_error_policy ::
    "cron \<Rightarrow> ('c, 'e) tenure list \<Rightarrow> lease_tables
     \<Rightarrow> 'e tick_log \<times> ((('c, 'e) cron_run_error + unit) \<times> lease_tables) option" where
  "run_continuously_until_stopped_with_task_error_policy c [] t = ([], None)"
| "run_continuously_until_stopped_with_task_error_policy c (e # rest) t =
     (case run_single_leadership_tenure c e t of
        (log, None) \<Rightarrow> (log, None)
      | (log, Some (Inl err, t)) \<Rightarrow> (log, Some (Inl err, t))
      | (log, Some (Inr StopRequested, t)) \<Rightarrow> (log, Some (Inr (), t))
      | (log, Some (Inr TenureLost, t)) \<Rightarrow>
          (case cron_retry_delay c (reacquire_jitter e) of
             Inl err \<Rightarrow> (log, Some (Inl err, t))
           | Inr _ \<Rightarrow> if stop_before_reacquire e then (log, Some (Inr (), t))
               else map_prod (append log) id
                 (run_continuously_until_stopped_with_task_error_policy c rest (between_tenures e t))))"

text \<open>The forms whose policy is \<open>|_| CronTaskErrorAction::Stop\<close>.\<close>

definition stopping_tenure :: "('c, 'e) tenure \<Rightarrow> ('c, 'e) tenure" where
  "stopping_tenure e = e\<lparr>ticks := map (\<lambda>k. k\<lparr>tick_policy := \<lambda>_. StopTicks\<rparr>) (ticks e)\<rparr>"

definition run_until_stopped_or_task_error ::
    "cron \<Rightarrow> ('c, 'e) tenure \<Rightarrow> lease_tables \<Rightarrow> 'e tick_log \<times> ((('c, 'e) cron_run_error + unit) \<times> lease_tables) option" where
  "run_until_stopped_or_task_error c e t = run_until_stopped_with_task_error_policy c (stopping_tenure e) t"

definition run_continuously_until_stopped_or_task_error ::
    "cron \<Rightarrow> ('c, 'e) tenure list \<Rightarrow> lease_tables
     \<Rightarrow> 'e tick_log \<times> ((('c, 'e) cron_run_error + unit) \<times> lease_tables) option" where
  "run_continuously_until_stopped_or_task_error c es t =
     run_continuously_until_stopped_with_task_error_policy c (map stopping_tenure es) t"

definition cron_fetch_live_leader ::
    "cron \<Rightarrow> pool_env \<Rightarrow> lease_tables \<Rightarrow> 'c fleet_error + mutex_holder_snapshot option" where
  "cron_fetch_live_leader c env t = fetch_live_holder (cron_mutex c) env t"

section \<open>The handle of a background run\<close>

text \<open>
  \<open>stop_sender\<close> is whether the handle still has its sender, \<open>join_handle\<close> the run it can wait for: the
  failure to join it, or its result. The receiver is gone when the run has ended.
\<close>

record ('c, 'e) cron_run_handle =
  stop_sender :: bool
  join_handle :: "(string + (('c, 'e) cron_run_error + unit)) option"

datatype ('c, 'e) cron_run_handle_error = HandleRun "('c, 'e) cron_run_error" | HandleJoin string

definition send_stop_signal :: "bool \<Rightarrow> bool \<Rightarrow> bool \<times> bool" where
  "send_stop_signal receiver_alive sender = (sender \<and> receiver_alive, False)"

definition request_stop :: "bool \<Rightarrow> ('c, 'e) cron_run_handle \<Rightarrow> bool \<times> ('c, 'e) cron_run_handle" where
  "request_stop receiver_alive h =
     (let (sent, sender) = send_stop_signal receiver_alive (stop_sender h) in (sent, h\<lparr>stop_sender := sender\<rparr>))"

definition handle_is_finished :: "bool \<Rightarrow> ('c, 'e) cron_run_handle \<Rightarrow> bool" where
  "handle_is_finished ended h = (case join_handle h of Some _ \<Rightarrow> ended | None \<Rightarrow> True)"

definition handle_wait :: "('c, 'e) cron_run_handle \<Rightarrow> ('c, 'e) cron_run_handle_error + unit" where
  "handle_wait h =
     (case join_handle h of
        None \<Rightarrow> Inr ()
      | Some (Inr result) \<Rightarrow> map_sum HandleRun id result
      | Some (Inl e) \<Rightarrow> Inl (HandleJoin e))"

definition stop_and_wait :: "bool \<Rightarrow> ('c, 'e) cron_run_handle \<Rightarrow> ('c, 'e) cron_run_handle_error + unit" where
  "stop_and_wait receiver_alive h = handle_wait (snd (request_stop receiver_alive h))"

end
