(* ===== verification/CronSafety.thy ===== *)
theory CronSafety
  imports Cron
begin

text \<open>
  What the fencing tokens of the leases give a cron: every tick carries the token of its tenure, which
  exceeds everything granted before, in every run with any interference. And when a cron stops.
\<close>

section \<open>What others may do\<close>

text \<open>The statement of a claim sees the row of the lease, or misses one inserted meanwhile.\<close>

fun calls_see :: "mutex \<Rightarrow> string \<Rightarrow> ('c lease_call \<times> (nanos \<Rightarrow> string + nanos)) list \<Rightarrow> lease_tables \<Rightarrow> bool" where
  "calls_see m h [] t \<longleftrightarrow> True"
| "calls_see m h ((call, jitter) # rest) t \<longleftrightarrow>
     (call_seen call = leases t (mutex_lease_key m) \<or> call_seen call = None)
     \<and> calls_see m h rest (snd (try_claim_manual_renewal_for_holder m call h t :: ('c fleet_error + mutex_claim option) \<times> _))"

text \<open>Everybody else runs statements on the lease tables; the heartbeat turns, and renews the own claim.\<close>

fun leadership_plausible :: "cron \<Rightarrow> 'c leadership_turn list \<Rightarrow> lease_tables \<Rightarrow> bool" where
  "leadership_plausible c [] t \<longleftrightarrow> True"
| "leadership_plausible c (a # rest) t \<longleftrightarrow>
     (case cancelled_claim a of
        Some left \<Rightarrow> lease_step\<^sup>*\<^sup>* t (left t)
      | None \<Rightarrow>
          (case generate_holder_id (leader_id_text a) of
             Inl e \<Rightarrow> True | Inr h \<Rightarrow> calls_see (cron_mutex c) h (leader_attempts a) t)
          \<and> (case fst (claim_guard_when_available (cron_mutex c) (leader_id_text a) (cron_guard_config c)
                (leader_attempts a) t) of
               Some (Inl e, t) \<Rightarrow> lease_step\<^sup>*\<^sup>* t (after_retry_delay a t) \<and> leadership_plausible c rest (after_retry_delay a t)
             | _ \<Rightarrow> True))"

definition tick_plausible :: "resolved_mutex_guard_config \<Rightarrow> 'e cron_tick \<Rightarrow> bool" where
  "tick_plausible config k \<longleftrightarrow>
     (\<forall>g t. (mutex_step config)\<^sup>*\<^sup>* (g, t) (before_tick k g t) \<and> (mutex_step config)\<^sup>*\<^sup>* (g, t) (during_tick k g t)
       \<and> (mutex_step config)\<^sup>*\<^sup>* (g, t) (during_sleep k g t))"

fun run_plausible :: "resolved_mutex_guard_config \<Rightarrow> cron \<Rightarrow> ('c, 'e) tenure list \<Rightarrow> lease_tables \<Rightarrow> bool" where
  "run_plausible config c [] t \<longleftrightarrow> True"
| "run_plausible config c (e # rest) t \<longleftrightarrow>
     leadership_plausible c (leadership e) t \<and> list_all (tick_plausible config) (ticks e)
     \<and> (case snd (run_single_leadership_tenure c e t) of
          Some (_, t) \<Rightarrow> lease_step\<^sup>*\<^sup>* t (between_tenures e t) \<and> run_plausible config c rest (between_tenures e t)
        | None \<Rightarrow> True)"

section \<open>Statements of claims and releases\<close>

lemma claim_run:
  assumes seen: "call_seen call = leases t (mutex_lease_key m) \<or> call_seen call = None"
    and claim: "try_claim_manual_renewal_for_holder m call h t = (r :: 'c fleet_error + mutex_claim option, t')"
  shows "lease_step\<^sup>*\<^sup>* t t'"
proof -
  obtain x where x: "try_claim_lease (mutex_protocol m) (call_env call) (call_random call) (call_seen call)
      (mutex_lease_key m) h (mutex_claim_duration m) t = (x :: 'c lease_error + claim option, t')"
    using claim [unfolded try_claim_manual_renewal_for_holder_def] by (cases rule: wrap_claim_cases) auto
  show ?thesis
  proof (rule pool_write_keeps [OF x [unfolded try_claim_lease_def]])
    fix r' :: "'c lease_error + claim option" and tx
    assume *: "try_claim_lease_in_current_transaction (mutex_protocol m) (call_random call) (env_reply (call_env call))
      (call_seen call) (env_now (call_env call)) (mutex_lease_key m) h (mutex_claim_duration m) (begin_transaction t) = (r', tx)"
    show "lease_step\<^sup>*\<^sup>* t (tables tx)"
    proof (cases "token_random (call_random call)")
      case (Inl e)
      then show ?thesis using * by (auto simp: try_claim_lease_in_current_transaction_def)
    next
      case (Inr token)
      note a = * [unfolded try_claim_lease_in_current_transaction_def Inr sum.case]
      show ?thesis
        by (rule admitted_keeps [OF a]) (simp_all add: executor_claim_step [OF seen])
    qed
  qed simp
qed

lemma release_cron_guard_run:
  assumes "release_cron_guard env g t = (r :: 'c fleet_error + bool, t')"
  shows "lease_step\<^sup>*\<^sup>* t t'"
proof -
  have dropped: "lease_step\<^sup>*\<^sup>* t (drop_guard e g t)" for e g t
    using guard_release_run [OF prod.collapse [symmetric]] by (auto simp: drop_guard_def split: option.splits)
  obtain x g1 t1 where x: "try_release (release_env env) (release_join env) g t = (x :: 'c fleet_error + bool, g1, t1)"
    by (metis prod.collapse)
  have run: "lease_step\<^sup>*\<^sup>* t t1" using try_release_effect [OF x] by simp
  obtain g2 where "t' = drop_guard (release_drop env) g2 t1"
    using assms by (auto simp: release_cron_guard_def release_def x Let_def split: if_splits prod.splits)
  then show ?thesis using run dropped by (metis rtranclp_trans)
qed

lemma live_guard_token:
  assumes "guard_inv m f (g, t)" and "live_claim_snapshot g = Some s"
  shows "guard_fencing_token s = f \<and> guard_mutex_key s = mutex_key m"
  using assms by (auto simp: guard_inv_def claim_continues_def live_claim_snapshot_def guard_snapshot_def split: if_splits)

section \<open>A tenure\<close>

text \<open>A guard that was granted after the state \<open>t\<close>, in the state \<open>t'\<close>.\<close>

definition leads :: "mutex \<Rightarrow> lease_tables \<Rightarrow> lease_tables \<Rightarrow> mutex_guard \<Rightarrow> bool" where
  "leads m t t' g \<longleftrightarrow> (\<exists>f. latest_fencing t (mutex_lease_key m) < f \<and> guard_inv m f (g, t'))"

lemma leads_earlier: "lease_step\<^sup>*\<^sup>* t t1 \<Longrightarrow> lease_inv t \<Longrightarrow> leads m t1 t' g \<Longrightarrow> leads m t t' g"
  unfolding leads_def by (meson lease_fencing.latest_run order_le_less_trans)

lemma claim_loop_leads:
  fixes t :: lease_tables
  assumes "claim_guard_loop m h resolved interval attempts t = (Some (r :: 'c fleet_error + mutex_guard, t'), waits)"
    and "resolve_for_claim_duration config (mutex_claim_duration m) = (Inr resolved :: 'c fleet_error + _)"
    and "calls_see m h attempts t" and "lease_inv t"
  shows "lease_step\<^sup>*\<^sup>* t t' \<and> (\<forall>g. r = Inr g \<longrightarrow> leads m t t' g)"
  using assms
proof (induction attempts arbitrary: interval t waits)
  case (Cons a rest)
  obtain call jitter where a: "a = (call, jitter)" by fastforce
  obtain x t1 where x: "try_claim_manual_renewal_for_holder m call h t = (x :: 'c fleet_error + _, t1)" by fastforce
  have seen: "call_seen call = leases t (mutex_lease_key m) \<or> call_seen call = None" and rest: "calls_see m h rest t1"
    using Cons.prems(3) by (auto simp: a x)
  have run: "lease_step\<^sup>*\<^sup>* t t1" by (rule claim_run [OF seen x])
  consider (err) e where "x = Inl e" | (claimed) c where "x = Inr (Some c)" | (held) "x = Inr None"
    by (cases x; cases "projr x") auto
  then show ?case
  proof cases
    case err
    then show ?thesis using Cons.prems(1) run by (auto simp: a x)
  next
    case claimed
    have "try_claim_guard_for_holder m call h config t = (Inr (Some (guard_from_claim m c, resolved)) :: 'c fleet_error + _, t1)"
      using x claimed Cons.prems(2) by (simp add: try_claim_guard_for_holder_def)
    then obtain c1 where "guard_from_claim m c = guard_from_claim m c1"
        "latest_fencing t (mutex_lease_key m) < claim_fencing_token (claim_lease c1)"
        "guard_inv m (claim_fencing_token (claim_lease c1)) (guard_from_claim m c, t1)"
      by (rule claimed_guard [OF Cons.prems(4) seen])
    then show ?thesis using Cons.prems(1) run claimed by (auto simp: a x leads_def)
  next
    case held
    then obtain interval' waits' where "claim_guard_loop m h resolved interval' rest t1 = (Some (r, t'), waits')
        \<or> (\<exists>e. r = Inl e \<and> t' = t1)"
      using Cons.prems(1) by (auto simp: a x Let_def split: sum.splits prod.splits)
    then show ?thesis
    proof (elim disjE exE)
      assume *: "claim_guard_loop m h resolved interval' rest t1 = (Some (r, t'), waits')"
      show ?thesis
        using Cons.IH [OF * Cons.prems(2) rest lease_fencing.invar_run [OF run Cons.prems(4)]] run
          leads_earlier [OF run Cons.prems(4)] by (auto intro: rtranclp_trans)
    qed (use run in auto)
  qed
qed simp

lemma claim_when_available_leads:
  assumes "fst (claim_guard_when_available m new_id config attempts t) = Some (r :: 'c fleet_error + mutex_guard, t')"
    and "case generate_holder_id new_id of Inl (e :: 'c fleet_error) \<Rightarrow> True | Inr h \<Rightarrow> calls_see m h attempts t"
    and "lease_inv t"
  shows "lease_step\<^sup>*\<^sup>* t t' \<and> (\<forall>g. r = Inr g \<longrightarrow> leads m t t' g)"
proof (cases "generate_holder_id new_id :: 'c fleet_error + _")
  case (Inl e)
  then show ?thesis using assms(1) by (auto simp: claim_guard_when_available_def)
next
  case (Inr h)
  show ?thesis
  proof (cases "resolve_for_claim_duration config (mutex_claim_duration m) :: 'c fleet_error + _")
    case (Inl e)
    then show ?thesis
      using assms(1) Inr by (auto simp: claim_guard_when_available_def claim_guard_for_holder_when_available_def)
  next
    case res: (Inr resolved)
    obtain waits where "claim_guard_loop m h resolved (acquire_retry_interval resolved) attempts t = (Some (r, t'), waits)"
      using assms(1) Inr res
      by (cases "claim_guard_loop m h resolved (acquire_retry_interval resolved) attempts t :: ((('c fleet_error + _) \<times> _) option) \<times> _")
        (simp add: claim_guard_when_available_def claim_guard_for_holder_when_available_def)
    then show ?thesis using claim_loop_leads [OF _ res] assms(2,3) Inr by auto
  qed
qed

lemma retry_delay_no_task_error: "cron_retry_delay c jitter = Inl err \<Longrightarrow> (\<exists>x. err = CronFleet x)"
  by (auto simp: cron_retry_delay_def map_sum_def split: sum.splits)

lemma acquire_no_task_error: "acquire_leadership c turns t = Some (Inl err, t') \<Longrightarrow> (\<exists>x. err = CronFleet x)"
  by (induction turns arbitrary: t) (auto split: option.splits sum.splits if_splits dest: retry_delay_no_task_error)

lemma acquired_leadership:
  fixes r :: "('c, 'e) cron_run_error + mutex_guard option"
  assumes "acquire_leadership c turns t = Some (r, t')" and "leadership_plausible c turns t" and "lease_inv t"
  shows "lease_step\<^sup>*\<^sup>* t t' \<and> (\<forall>g. r = Inr (Some g) \<longrightarrow> leads (cron_mutex c) t t' g)"
  using assms
proof (induction turns arbitrary: t)
  case (Cons a rest)
  show ?case
  proof (cases "cancelled_claim a")
    case (Some left)
    then show ?thesis using Cons.prems by auto
  next
    case None
    obtain claimed t1 where claim: "fst (claim_guard_when_available (cron_mutex c) (leader_id_text a) (cron_guard_config c)
        (leader_attempts a) t) = Some (claimed, t1)"
      using Cons.prems(1) None by (auto split: option.splits)
    note leads = claim_when_available_leads [OF claim _ Cons.prems(3)]
    have run: "lease_step\<^sup>*\<^sup>* t t1" using leads Cons.prems(2) None by simp
    show ?thesis
    proof (cases claimed)
      case (Inr g)
      then show ?thesis using Cons.prems(1,2) None claim leads by auto
    next
      case (Inl e)
      let ?t2 = "after_retry_delay a t1"
      have next_run: "lease_step\<^sup>*\<^sup>* t1 ?t2" and plausible: "leadership_plausible c rest ?t2"
        using Cons.prems(2) None claim Inl by auto
      have run2: "lease_step\<^sup>*\<^sup>* t ?t2" using run next_run by (rule rtranclp_trans)
      consider "acquire_leadership c rest ?t2 = Some (r, t')" | "t' = t1" "\<forall>g. r \<noteq> Inr (Some g)"
        using Cons.prems(1) None claim Inl by (auto split: if_splits sum.splits)
      then show ?thesis
      proof cases
        case 1
        from Cons.IH [OF this plausible lease_fencing.invar_run [OF run2 Cons.prems(3)]]
          leads_earlier [OF run2 Cons.prems(3)] run2
        show ?thesis by (auto intro: rtranclp_trans)
      qed (use run in auto)
    qed
  qed
qed simp

definition of_tenure :: "mutex \<Rightarrow> int \<Rightarrow> mutex_guard_snapshot \<times> 'x \<Rightarrow> bool" where
  "of_tenure m f x \<longleftrightarrow> guard_fencing_token (fst x) = f \<and> guard_mutex_key (fst x) = mutex_key m"

lemma started_of_tenure: "guard_inv m f (g, t) \<Longrightarrow> list_all (of_tenure m f) (started_tick g task)"
  using live_guard_token [of m f g t] by (auto simp: started_tick_def of_tenure_def split: option.splits)

lemma after_task_run: "after_task k result g t = Some (r, t') \<Longrightarrow> lease_step\<^sup>*\<^sup>* t t'"
  using release_cron_guard_run [of "tick_release k" g t]
  by (auto simp: after_task_def split: prod.splits sum.splits cron_run_error.splits if_splits)

lemma after_sleep_run: "after_sleep k g t = Some (r, t') \<Longrightarrow> lease_step\<^sup>*\<^sup>* t t'"
  using release_cron_guard_run [of "tick_release k" g t]
  by (auto simp: after_sleep_def split: prod.splits if_splits)

lemma ticks_of_tenure:
  fixes r :: "((('c, 'e) cron_run_error + tenure_outcome) \<times> lease_tables) option"
  assumes "tick_loop ks g t = (log, r)" and "guard_inv m f (g, t)" and "list_all (tick_plausible config) ks"
  shows "list_all (of_tenure m f) log \<and> (\<forall>res t'. r = Some (res, t') \<longrightarrow> lease_step\<^sup>*\<^sup>* t t')"
  using assms
proof (induction ks arbitrary: g t log r)
  case (Cons k rest)
  obtain g1 t1 where before: "before_tick k g t = (g1, t1)" by fastforce
  let ?started = "started_tick g1 (tick_task k)"
  obtain g2 t2 where during: "(if ?started = [] then (g1, t1) else during_tick k g1 t1) = (g2, t2)" by fastforce
  obtain g3 t3 where sleep: "during_sleep k g2 t2 = (g3, t3)" by fastforce
  have steps: "(mutex_step config)\<^sup>*\<^sup>* (g, t) (g1, t1)" "(mutex_step config)\<^sup>*\<^sup>* (g1, t1) (g2, t2)"
      "(mutex_step config)\<^sup>*\<^sup>* (g2, t2) (g3, t3)"
    using Cons.prems(3) before during sleep by (auto simp: tick_plausible_def split: if_splits) (metis)+
  have i1: "guard_inv m f (g1, t1)" "lease_step\<^sup>*\<^sup>* t t1" using mutex_run_inv [OF steps(1) Cons.prems(2)] by auto
  have i2: "guard_inv m f (g2, t2)" "lease_step\<^sup>*\<^sup>* t1 t2" using mutex_run_inv [OF steps(2) i1(1)] by auto
  have i3: "guard_inv m f (g3, t3)" "lease_step\<^sup>*\<^sup>* t2 t3" using mutex_run_inv [OF steps(3) i2(1)] by auto
  have run2: "lease_step\<^sup>*\<^sup>* t t2" using i1(2) i2(2) by (rule rtranclp_trans)
  have run3: "lease_step\<^sup>*\<^sup>* t t3" using run2 i3(2) by (rule rtranclp_trans)
  note started = started_of_tenure [OF i1(1), of "tick_task k"]
  let ?task = "after_task k (execute_task_while_guarded g1 (tick_task k) g2) g2 t2 :: ((('c, 'e) cron_run_error + _) \<times> _) option"
  note loop = Cons.prems(1) [unfolded tick_loop.simps before Let_def prod.case during sleep]
  show ?case
  proof (cases ?task)
    case (Some ended)
    then show ?thesis using started run2 rtranclp_trans [OF run2 after_task_run [of k _ g2 t2]] loop [unfolded Some option.case] by auto
  next
    case None
    show ?thesis
    proof (cases "after_sleep k g3 t3 :: ((('c, 'e) cron_run_error + _) \<times> _) option")
      case (Some ended)
      then show ?thesis using started rtranclp_trans [OF run3 after_sleep_run [of k g3 t3]] loop [unfolded None option.case Some] by auto
    next
      case none: None
      obtain log' and r' :: "((('c, 'e) cron_run_error + tenure_outcome) \<times> lease_tables) option"
        where rec: "tick_loop rest g3 t3 = (log', r')" by fastforce
      have "log = ?started @ log'" "r = r'" using loop [unfolded None option.case none rec] by auto
      then show ?thesis using Cons.IH [OF rec i3(1)] Cons.prems(3) started run3 by (auto intro: rtranclp_trans)
    qed
  qed
qed simp

section \<open>Runs\<close>

lemma tenure_effect:
  fixes r :: "((('c, 'e) cron_run_error + tenure_outcome) \<times> lease_tables) option"
  assumes run: "run_single_leadership_tenure c e t = (log, r)" and lead: "leadership_plausible c (leadership e) t"
    and plausible: "list_all (tick_plausible config) (ticks e)" and inv: "lease_inv t"
  shows "\<exists>f. latest_fencing t (mutex_lease_key (cron_mutex c)) < f \<and> list_all (of_tenure (cron_mutex c) f) log
    \<and> (\<forall>res t'. r = Some (res, t') \<longrightarrow> lease_step\<^sup>*\<^sup>* t t'
        \<and> (log \<noteq> [] \<longrightarrow> f \<le> latest_fencing t' (mutex_lease_key (cron_mutex c))))"
proof (cases "acquire_leadership c (leadership e) t :: ((('c, 'e) cron_run_error + _) \<times> _) option")
  case None
  then show ?thesis using run by (auto simp: run_single_leadership_tenure_def gt_ex)
next
  case (Some x)
  obtain a t1 where x: "x = (a, t1)" by fastforce
  note acquired = acquired_leadership [OF Some [unfolded x] lead inv]
  show ?thesis
  proof (cases "\<exists>g. a = Inr (Some g)")
    case True
    then obtain g where a: "a = Inr (Some g)" ..
    then obtain f where f: "latest_fencing t (mutex_lease_key (cron_mutex c)) < f" "guard_inv (cron_mutex c) f (g, t1)"
      using acquired by (auto simp: leads_def)
    have loop: "tick_loop (ticks e) g t1 = (log, r)" using run Some x a by (simp add: run_single_leadership_tenure_def)
    have later: "f \<le> latest_fencing t' (mutex_lease_key (cron_mutex c))" if "lease_step\<^sup>*\<^sup>* t1 t'" for t'
      using f(2) lease_fencing.latest_run [OF that] by (auto simp: guard_inv_def intro: order_trans)
    show ?thesis
      using ticks_of_tenure [OF loop f(2) plausible] f(1) later acquired by (auto intro!: exI [of _ f] intro: rtranclp_trans)
  next
    case False
    then have "log = [] \<and> (\<forall>res t'. r = Some (res, t') \<longrightarrow> t' = t1)"
      using run Some x by (auto simp: run_single_leadership_tenure_def split: sum.splits option.splits)
    then show ?thesis using acquired by (auto simp: gt_ex)
  qed
qed

definition tick_token :: "mutex_guard_snapshot \<times> 'x \<Rightarrow> int" where "tick_token = guard_fencing_token \<circ> fst"

lemma sorted_tenure: "list_all (of_tenure m f) log \<Longrightarrow> sorted (map tick_token log)"
  by (induction log) (auto simp: of_tenure_def tick_token_def list_all_iff)

text \<open>The tokens of a run between two states: above all granted before, ascending, below all granted after.\<close>

definition fenced_run :: "mutex \<Rightarrow> lease_tables \<Rightarrow> 'e tick_log \<Rightarrow> ('r \<times> lease_tables) option \<Rightarrow> bool" where
  "fenced_run m t log r \<longleftrightarrow>
     list_all (\<lambda>x. guard_mutex_key (fst x) = mutex_key m \<and> latest_fencing t (mutex_lease_key m) < tick_token x) log
     \<and> sorted (map tick_token log)
     \<and> (\<forall>res t'. r = Some (res, t') \<longrightarrow>
          lease_step\<^sup>*\<^sup>* t t' \<and> list_all (\<lambda>x. tick_token x \<le> latest_fencing t' (mutex_lease_key m)) log)"

lemma fenced_tenure:
  assumes "latest_fencing t (mutex_lease_key m) < f" and "list_all (of_tenure m f) log"
    and "\<forall>res t'. r = Some (res, t') \<longrightarrow> lease_step\<^sup>*\<^sup>* t t' \<and> (log \<noteq> [] \<longrightarrow> f \<le> latest_fencing t' (mutex_lease_key m))"
  shows "fenced_run m t log r"
  unfolding fenced_run_def using assms sorted_tenure [OF assms(2)]
  by (cases "log = []") (auto simp: of_tenure_def tick_token_def list_all_iff)

lemma fenced_append:
  assumes first: "fenced_run m t log1 (Some (res, t1))" and run: "lease_step\<^sup>*\<^sup>* t1 t2"
    and second: "fenced_run m t2 log2 r" and inv: "lease_inv t"
  shows "fenced_run m t (log1 @ log2) r"
proof -
  have run1: "lease_step\<^sup>*\<^sup>* t t1" using first by (simp add: fenced_run_def)
  note inv1 = lease_fencing.invar_run [OF run1 inv]
  let ?key = "mutex_lease_key m"
  have mono: "latest_fencing t ?key \<le> latest_fencing t2 ?key" "latest_fencing t1 ?key \<le> latest_fencing t2 ?key"
    using lease_fencing.latest_run [OF run1 inv, of ?key] lease_fencing.latest_run [OF run inv1, of ?key] by auto
  have after: "latest_fencing t2 ?key \<le> latest_fencing t' ?key" if "r = Some (res', t')" for res' t'
    using lease_fencing.latest_run [OF _ lease_fencing.invar_run [OF run inv1], of t' ?key] second that by (auto simp: fenced_run_def)
  have sorted: "sorted (map tick_token (log1 @ log2))"
    using first second mono by (fastforce simp: fenced_run_def sorted_append list_all_iff)
  have whole: "lease_step\<^sup>*\<^sup>* t t'" if "r = Some (res', t')" for res' t'
    using run1 run second that by (auto simp: fenced_run_def)
  show ?thesis
    unfolding fenced_run_def
  proof (intro conjI allI impI)
    show "list_all (\<lambda>x. guard_mutex_key (fst x) = mutex_key m \<and> latest_fencing t ?key < tick_token x) (log1 @ log2)"
      using first second mono(1) by (auto simp: fenced_run_def list_all_iff)
    fix res' t' assume r: "r = Some (res', t')"
    show "list_all (\<lambda>x. tick_token x \<le> latest_fencing t' ?key) (log1 @ log2)"
      using first second mono(2) after [OF r] r by (fastforce simp: fenced_run_def list_all_iff)
  qed (use sorted whole in auto)
qed

lemma continuous_run_fenced:
  fixes r :: "((('c, 'e) cron_run_error + unit) \<times> lease_tables) option"
  assumes "run_continuously_until_stopped_with_task_error_policy c es t = (log, r)" and "run_plausible config c es t"
    and "lease_inv t"
  shows "fenced_run (cron_mutex c) t log r"
  using assms
proof (induction es arbitrary: t log r)
  case (Cons e rest)
  let ?m = "cron_mutex c"
  obtain log1 and r1 :: "((('c, 'e) cron_run_error + tenure_outcome) \<times> lease_tables) option"
    where first: "run_single_leadership_tenure c e t = (log1, r1)" by fastforce
  have plausible: "leadership_plausible c (leadership e) t" "list_all (tick_plausible config) (ticks e)"
    using Cons.prems(2) by auto
  from tenure_effect [OF first this Cons.prems(3)] obtain f where f: "latest_fencing t (mutex_lease_key ?m) < f"
      "list_all (of_tenure ?m f) log1"
      "\<forall>res t'. r1 = Some (res, t') \<longrightarrow> lease_step\<^sup>*\<^sup>* t t' \<and> (log1 \<noteq> [] \<longrightarrow> f \<le> latest_fencing t' (mutex_lease_key ?m))"
    by blast
  note fenced = fenced_tenure [OF f]
  show ?case
  proof (cases "\<exists>res t1 t2. r1 = Some (res, t1) \<and> t2 = between_tenures e t1
      \<and> map_prod (append log1) id (run_continuously_until_stopped_with_task_error_policy c rest t2) = (log, r)")
    case True
    then obtain res t1 where r1: "r1 = Some (res, t1)"
        and cont: "map_prod (append log1) id (run_continuously_until_stopped_with_task_error_policy c rest (between_tenures e t1)) = (log, r)"
      by blast
    obtain log2 and r2 :: "((('c, 'e) cron_run_error + unit) \<times> lease_tables) option"
      where second: "run_continuously_until_stopped_with_task_error_policy c rest (between_tenures e t1) = (log2, r2)" by fastforce
    have log: "log = log1 @ log2" "r = r2" using cont by (simp_all add: second)
    have run: "lease_step\<^sup>*\<^sup>* t t1" using f(3) r1 by simp
    have between: "lease_step\<^sup>*\<^sup>* t1 (between_tenures e t1)" and rest: "run_plausible config c rest (between_tenures e t1)"
      using Cons.prems(2) first r1 by auto
    have inv: "lease_inv (between_tenures e t1)"
      by (rule lease_fencing.invar_run [OF between lease_fencing.invar_run [OF run Cons.prems(3)]])
    show ?thesis
      unfolding log by (rule fenced_append [OF fenced [unfolded r1] between Cons.IH [OF second rest inv] Cons.prems(3)])
  next
    case False
    then have "log = log1 \<and> (\<forall>res t'. r = Some (res, t') \<longrightarrow> (\<exists>res1. r1 = Some (res1, t')))"
      using Cons.prems(1) first by (auto split: option.splits sum.splits tenure_outcome.splits if_splits)
    then show ?thesis using fenced by (auto simp: fenced_run_def)
  qed
qed (auto simp: fenced_run_def)

text \<open>C9: The ticks of a cron are fenced. In every run of the continuous loop, whatever the heartbeat does, whoever
  claims, renews or releases in between and however often leadership is lost: a tick is started only with a
  snapshot of this cron's mutex; its fencing token exceeds every token of the lease granted before the run; the
  tokens never decrease from one tick to the next; and none exceeds what the lease has granted when the run
  ends, so that every tick of a tenure that begins later, by anybody, carries a strictly greater token.\<close>

theorem cron_ticks_are_fenced:
  assumes "new_cron protocol root_key config = (Inr c :: 'c fleet_error + cron)"
    and "resolve_for_claim_duration (cron_guard_config c) (mutex_claim_duration (cron_mutex c)) = (Inr resolved :: 'c fleet_error + _)"
    and "lease_inv t" and "run_plausible resolved c es t"
    and "run_continuously_until_stopped_with_task_error_policy c es t
      = (log, r :: ((('c, 'e) cron_run_error + unit) \<times> lease_tables) option)"
  shows "list_all (\<lambda>x. guard_mutex_key (fst x) = config_cron_key config
      \<and> latest_fencing t (mutex_lease_key (cron_mutex c)) < guard_fencing_token (fst x)) log
    \<and> sorted (map (guard_fencing_token \<circ> fst) log)
    \<and> (case r of None \<Rightarrow> True
       | Some (_, t') \<Rightarrow> lease_step\<^sup>*\<^sup>* t t'
           \<and> list_all (\<lambda>x. guard_fencing_token (fst x) \<le> latest_fencing t' (mutex_lease_key (cron_mutex c))) log)"
proof -
  have "mutex_key (cron_mutex c) = config_cron_key config"
    using assms(1) by (auto simp: new_cron_def Let_def result_bind_def split: if_splits sum.splits)
  then show ?thesis
    using continuous_run_fenced [OF assms(5,4,3)]
    by (cases r) (auto simp: fenced_run_def tick_token_def)
qed

section \<open>Stopping on a task error\<close>

definition tick_succeeded :: "'s \<times> ('e + unit) \<Rightarrow> bool" where "tick_succeeded x \<longleftrightarrow> snd x = Inr ()"

fun task_error :: "((('c, 'e) cron_run_error + 'v) \<times> 't) option \<Rightarrow> 'e option" where
  "task_error (Some (Inl (CronTask e), t)) = Some e"
| "task_error (Some (Inl (CronTaskAndLeadershipLost e), t)) = Some e"
| "task_error (Some (Inl (CronTaskAndRelease e e'), t)) = Some e"
| "task_error r = None"

text \<open>A log and a result that stop at the first failing task.\<close>

definition stops_at_first_error :: "'e tick_log \<Rightarrow> ((('c, 'e) cron_run_error + 'v) \<times> 't) option \<Rightarrow> bool" where
  "stops_at_first_error log r \<longleftrightarrow>
     list_all tick_succeeded log \<and> task_error r = None
     \<or> (\<exists>before s e. log = before @ [(s, Inl e)] \<and> list_all tick_succeeded before \<and> task_error r = Some e)"

lemma stops_append:
  "list_all tick_succeeded log1 \<Longrightarrow> stops_at_first_error log2 r \<Longrightarrow> stops_at_first_error (log1 @ log2) r"
  unfolding stops_at_first_error_def
  by (elim disjE exE conjE) (simp, rule disjI2, rule exI [of _ "log1 @ _"], auto)

lemma lost_release_error [simp]:
  "task_error (Some (release_cron_guard_after_leadership_lost rel, t)) = None"
  by (cases rel) (simp_all add: release_cron_guard_after_leadership_lost_def)

lemma task_release_error [simp]:
  "task_error (Some (combine_cron_task_and_release_results (Inl (CronTask e)) rel, t)) = Some e"
proof (cases rel)
  case (Inr b)
  then show ?thesis by (cases b) simp_all
qed simp

lemma stop_release_error [simp]: "task_error (Some (map_sum CronRelease f rel, t)) = None"
  by (cases rel) simp_all

lemma after_task_ok [simp]: "after_task k (Inr u) g t = None"
  by (simp add: after_task_def split: prod.splits)

lemma after_task_lost: "task_error (after_task k (Inl CronLeadershipLost) g t) = None \<and> after_task k (Inl CronLeadershipLost) g t \<noteq> None"
  by (auto simp: after_task_def split: prod.splits)

lemma after_task_failed:
  assumes "tick_policy k = (\<lambda>_. StopTicks)"
  shows "task_error (after_task k (Inl (CronTask e)) g t) = Some e"
  using assms by (auto simp: after_task_def split: prod.splits)

lemma after_sleep_error: "task_error (after_sleep k g t) = None"
  by (auto simp: after_sleep_def split: prod.splits)

lemma tick_loop_stops:
  fixes r :: "((('c, 'e) cron_run_error + tenure_outcome) \<times> lease_tables) option"
  assumes "tick_loop ks g t = (log, r)" and "list_all (\<lambda>k. tick_policy k = (\<lambda>_. StopTicks)) ks"
  shows "stops_at_first_error log r"
  using assms
proof (induction ks arbitrary: g t log r)
  case (Cons k rest)
  obtain g1 t1 where before: "before_tick k g t = (g1, t1)" by fastforce
  let ?started = "started_tick g1 (tick_task k)"
  obtain g2 t2 where during: "(if ?started = [] then (g1, t1) else during_tick k g1 t1) = (g2, t2)" by fastforce
  obtain g3 t3 where sleep: "during_sleep k g2 t2 = (g3, t3)" by fastforce
  let ?result = "execute_task_while_guarded g1 (tick_task k) g2 :: ('c, 'e) cron_run_error + unit"
  let ?task = "after_task k ?result g2 t2"
  note loop = Cons.prems(1) [unfolded tick_loop.simps before Let_def prod.case during sleep]
  have stop: "tick_policy k = (\<lambda>_. StopTicks)" using Cons.prems(2) by simp
  consider (failed) s e where "?started = [(s, Inl e)]" "?result = Inl (CronTask e)"
    | (lost) "list_all tick_succeeded ?started" "?result = Inl CronLeadershipLost"
    | (ok) "list_all tick_succeeded ?started" "?result = Inr ()"
  proof (cases "live_claim_snapshot g1")
    case None
    then show ?thesis using lost by (simp add: started_tick_def execute_task_while_guarded_def)
  next
    case (Some s)
    then show ?thesis
      using that by (cases "tick_task k s"; cases "leadership_lost g2")
        (auto simp: started_tick_def execute_task_while_guarded_def tick_succeeded_def)
  qed
  then show ?case
  proof cases
    case failed
    then have error: "task_error ?task = Some e" using after_task_failed [OF stop] by simp
    then obtain ended where "?task = Some ended" by (cases ?task) auto
    then have "log = [(s, Inl e)]" "r = ?task" using loop failed(1) by auto
    then show ?thesis using error by (simp add: stops_at_first_error_def)
  next
    case lost
    have "task_error ?task = None \<and> ?task \<noteq> None" unfolding lost(2) by (rule after_task_lost)
    then obtain ended where "?task = Some ended" "task_error ?task = None" by blast
    then have "log = ?started" "task_error r = None" using loop by auto
    then show ?thesis using lost(1) by (simp add: stops_at_first_error_def)
  next
    case ok
    then have none: "?task = None" by simp
    show ?thesis
    proof (cases "after_sleep k g3 t3 :: ((('c, 'e) cron_run_error + _) \<times> _) option")
      case (Some ended)
      then have "log = ?started" "task_error r = None" using loop [unfolded none] arg_cong [OF Some, of task_error] by (auto simp: after_sleep_error)
      then show ?thesis using ok(1) by (simp add: stops_at_first_error_def)
    next
      case None
      obtain log2 and r2 :: "((('c, 'e) cron_run_error + tenure_outcome) \<times> lease_tables) option"
        where second: "tick_loop rest g3 t3 = (log2, r2)" by fastforce
      have "log = ?started @ log2" "r = r2" using loop [unfolded none option.case None second] by auto
      then show ?thesis using stops_append [OF ok(1) Cons.IH [OF second]] Cons.prems(2) by simp
    qed
  qed
qed (simp add: stops_at_first_error_def)

lemma tenure_stops:
  fixes r :: "((('c, 'e) cron_run_error + tenure_outcome) \<times> lease_tables) option"
  assumes "run_single_leadership_tenure c (stopping_tenure e) t = (log, r)"
  shows "stops_at_first_error log r"
proof (cases "\<exists>g t1. acquire_leadership c (leadership e) t
    = (Some (Inr (Some g), t1) :: ((('c, 'e) cron_run_error + mutex_guard option) \<times> lease_tables) option)")
  case True
  then obtain g t1 where "tick_loop (ticks (stopping_tenure e)) g t1 = (log, r)"
    using assms by (auto simp: run_single_leadership_tenure_def stopping_tenure_def)
  then show ?thesis by (rule tick_loop_stops) (simp add: stopping_tenure_def list_all_iff)
next
  case False
  then have "log = [] \<and> task_error r = None"
    using assms by (auto simp: run_single_leadership_tenure_def stopping_tenure_def split: option.splits sum.splits
        dest!: acquire_no_task_error)
  then show ?thesis by (simp add: stops_at_first_error_def)
qed

lemma tenure_continues:
  assumes "stops_at_first_error log (Some (Inr x, t))"
  shows "list_all tick_succeeded log"
  using assms by (auto simp: stops_at_first_error_def)

lemma task_error_same:
  "task_error (Some (Inl err :: ('c, 'e) cron_run_error + 'v, t)) = task_error (Some (Inl err :: ('c, 'e) cron_run_error + 'w, t'))"
  by (cases err) simp_all

lemma continuous_run_stops:
  fixes r :: "((('c, 'e) cron_run_error + unit) \<times> lease_tables) option"
  assumes "run_continuously_until_stopped_with_task_error_policy c (map stopping_tenure es) t = (log, r)"
  shows "stops_at_first_error log r"
  using assms
proof (induction es arbitrary: t log r)
  case Nil
  then show ?case by (simp add: stops_at_first_error_def)
next
  case (Cons e rest)
  obtain log1 and r1 :: "((('c, 'e) cron_run_error + tenure_outcome) \<times> lease_tables) option"
    where first: "run_single_leadership_tenure c (stopping_tenure e) t = (log1, r1)" by fastforce
  note stops = tenure_stops [OF first]
  note run = Cons.prems [unfolded list.map run_continuously_until_stopped_with_task_error_policy.simps first prod.case]
  consider (waiting) "r1 = None" | (failed) err t1 where "r1 = Some (Inl err, t1)"
    | (stopped) t1 where "r1 = Some (Inr StopRequested, t1)" | (lost) t1 where "r1 = Some (Inr TenureLost, t1)"
  proof (cases r1)
    case (Some x)
    obtain res t1 where x: "x = (res, t1)" by fastforce
    show ?thesis
    proof (cases res)
      case (Inl err)
      then show ?thesis using failed Some x by simp
    next
      case (Inr ended)
      then show ?thesis using stopped lost Some x by (cases ended) simp_all
    qed
  qed (use waiting in simp)
  then show ?case
  proof cases
    case waiting
    then show ?thesis using run stops by (simp add: stops_at_first_error_def)
  next
    case failed
    then show ?thesis
      using run stops task_error_same [where 'v = tenure_outcome and 'w = unit, of err t1 t1]
      by (simp add: stops_at_first_error_def)
  next
    case stopped
    then show ?thesis using run tenure_continues [OF stops [unfolded stopped]] by (auto simp: stops_at_first_error_def)
  next
    case lost
    note ok = tenure_continues [OF stops [unfolded lost]]
    obtain log2 and r2 :: "((('c, 'e) cron_run_error + unit) \<times> lease_tables) option"
      where second: "run_continuously_until_stopped_with_task_error_policy c (map stopping_tenure rest)
        (between_tenures (stopping_tenure e) t1) = (log2, r2)" by fastforce
    note later = stops_append [OF ok Cons.IH [OF second]]
    show ?thesis
    proof (cases "cron_retry_delay c (reacquire_jitter (stopping_tenure e)) :: ('c, 'e) cron_run_error + nanos")
      case (Inl err)
      then obtain x where "err = CronFleet x" by (auto dest: retry_delay_no_task_error)
      then show ?thesis using run lost ok Inl by (auto simp: stops_at_first_error_def)
    next
      case (Inr d)
      show ?thesis
      proof (cases "stop_before_reacquire (stopping_tenure e)")
        case True
        then show ?thesis using run lost ok Inr by (auto simp: stops_at_first_error_def)
      next
        case False
        then have "log = log1 @ log2" "r = r2" using run lost Inr second by auto
        then show ?thesis using later by simp
      qed
    qed
  qed
qed

text \<open>C10: A cron that stops on task errors stops at the first one. In every run of the continuous loop with that
  policy, over all its tenures: either every task it started has succeeded, and then the run is still going on
  or its result is not the error of a task; or the last task it started is the first that failed, and the run
  has ended with the error of that task.\<close>

theorem cron_stops_at_first_task_error:
  "case run_continuously_until_stopped_or_task_error c es t
      :: 'e tick_log \<times> ((('c, 'e) cron_run_error + unit) \<times> lease_tables) option of (log, r) \<Rightarrow>
     list_all tick_succeeded log \<and> task_error r = None
     \<or> (\<exists>before s e. log = before @ [(s, Inl e)] \<and> list_all tick_succeeded before \<and> task_error r = Some e)"
  using continuous_run_stops [of c es t]
  by (auto simp: run_continuously_until_stopped_or_task_error_def stops_at_first_error_def split: prod.splits)

section \<open>A run\<close>

text \<open>One tenure with one tick, stopped in its sleep.\<close>

definition demo_cron_key :: string where "demo_cron_key = ''r::cron::k::''"

definition demo_cron_config :: cron_config where
  "demo_cron_config = \<lparr>config_cron_key = ''k'', config_cron_interval = nanos_per_second,
     config_cron_claim_duration = Some two_seconds, config_cron_heartbeat_interval = Some 500000000,
     config_cron_acquire_retry_interval = None, config_cron_max_consecutive_renewal_failures = None\<rparr>"

definition demo_cron_mutex :: mutex where
  "demo_cron_mutex = \<lparr>mutex_protocol = ''p'', mutex_key = ''k'', mutex_lease_key = demo_cron_key, mutex_claim_duration = two_seconds\<rparr>"

definition demo_cron_guard_config :: mutex_guard_config where
  "demo_cron_guard_config = \<lparr>config_heartbeat_interval = Some 500000000, config_acquire_retry_interval = Some 5000000000,
     config_max_acquire_retry_interval = None, config_max_consecutive_renewal_failures = None\<rparr>"

definition demo_cron :: cron where
  "demo_cron = \<lparr>cron_key = ''k'', cron_interval = nanos_per_second, cron_mutex = demo_cron_mutex,
     cron_guard_config = demo_cron_guard_config\<rparr>"

definition demo_cron_resolved :: resolved_mutex_guard_config where
  "demo_cron_resolved = \<lparr>heartbeat_interval = 500000000, acquire_retry_interval = 5000000000,
     max_acquire_retry_interval = 5000000000, max_consecutive_renewal_failures = 3\<rparr>"

lemma demo_cron_resolves:
  "resolve_for_claim_duration demo_cron_guard_config two_seconds = (Inr demo_cron_resolved :: unit fleet_error + _)"
  by (simp add: resolve_for_claim_duration_def demo_cron_guard_config_def two_seconds_def demo_cron_resolved_def Let_def
      option_unwrap_or_def duration_checked_mul_def duration_max_def MIN_FLEET_MUTEX_HEARTBEAT_INTERVAL_def
      DEFAULT_FLEET_MUTEX_MAX_ACQUIRE_RETRY_INTERVAL_def DEFAULT_FLEET_MUTEX_MAX_CONSECUTIVE_RENEWAL_FAILURES_def)

lemma demo_cron_new: "new_cron ''p'' ''r'' demo_cron_config = (Inr demo_cron :: unit fleet_error + cron)"
  using demo_cron_resolves
  by (simp add: new_cron_def demo_cron_config_def MIN_FLEET_CRON_INTERVAL_def result_bind_def build_cron_mutex_lease_key_def
      FLEET_CRON_COMPONENT_KEY_def lease_build_key_from_parts_def lease_validate_key_part_def lease_validate_key_length_def
      LEASE_KEY_SEPARATOR_def MAX_LEASE_KEY_BYTES_def demo_cron_def demo_cron_mutex_def demo_cron_key_def
      demo_cron_guard_config_def option_unwrap_or_def DEFAULT_FLEET_CRON_ACQUIRE_RETRY_INTERVAL_def Let_def)

definition demo_cron_leases :: lease_tables where
  "demo_cron_leases = \<lparr>leases = [demo_cron_key \<mapsto> held_row ''a'' 1 1 2000005], fencing_counters = [demo_cron_key \<mapsto> 1]\<rparr>"

definition demo_cron_claim :: mutex_claim where
  "demo_cron_claim = claim_from_lease_claim demo_cron_mutex (claim_of_row demo_cron_key (held_row ''a'' 1 1 2000005))"

definition demo_tick :: "string cron_tick" where
  "demo_tick = \<lparr>before_tick = Pair, tick_task = (\<lambda>_. Inr ()), during_tick = Pair, tick_policy = (\<lambda>_. StopTicks),
     during_sleep = Pair, stop_wins = True, sleep_wins = False,
     tick_release = \<lparr>release_env = calm_pool, release_join = None, release_drop = calm_pool\<rparr>\<rparr>"

definition demo_tenure :: "(unit, string) tenure" where
  "demo_tenure = \<lparr>leadership = [\<lparr>cancelled_claim = None, leader_id_text = Inr ''a'', leader_attempts = [(demo_call, Inr)],
       leader_jitter = Inr, stop_in_retry_delay = False, after_retry_delay = id\<rparr>],
     ticks = [demo_tick], reacquire_jitter = Inr, stop_before_reacquire = False, between_tenures = id\<rparr>"

lemma demo_holder_id: "generate_holder_id (Inr ''a'') = (Inr ''a'' :: unit fleet_error + string)"
  by (simp add: generate_holder_id_def holder_id_new_def lease_validate_holder_id_def MAX_LEASE_HOLDER_ID_BYTES_def
      result_bind_def)

lemma demo_cron_claimed:
  "claim_guard_when_available demo_cron_mutex (Inr ''a'') demo_cron_guard_config [(demo_call, Inr)] no_leases
    = (Some ((Inr (guard_from_claim demo_cron_mutex demo_cron_claim) :: unit fleet_error + _), demo_cron_leases), [])"
proof -
  have "try_claim_lease ''p'' calm_pool (Inr (token_of 1)) None demo_cron_key ''a'' two_seconds no_leases
      = ((Inr (Some (claim_of_row demo_cron_key (held_row ''a'' 1 1 2000005))) :: unit lease_error + claim option), demo_cron_leases)"
    by (simp add: try_claim_lease_def try_claim_lease_in_current_transaction_def demo_pool_eval lease_eval no_leases_def
        demo_cron_leases_def)
  then have "try_claim_manual_renewal_for_holder demo_cron_mutex demo_call ''a'' no_leases
      = ((Inr (Some demo_cron_claim) :: unit fleet_error + _), demo_cron_leases)"
    by (simp add: try_claim_manual_renewal_for_holder_def demo_cron_mutex_def demo_call_def wrap_claim_def demo_cron_claim_def)
  moreover have "mutex_claim_duration demo_cron_mutex = two_seconds" by (simp add: demo_cron_mutex_def)
  ultimately show ?thesis
    by (simp add: claim_guard_when_available_def demo_holder_id claim_guard_for_holder_when_available_def
        demo_cron_resolves)
qed

lemma demo_cron_released:
  "release_cron_guard (tick_release demo_tick) (guard_from_claim demo_cron_mutex demo_cron_claim) demo_cron_leases
    = ((Inr True :: unit fleet_error + bool), \<lparr>leases = Map.empty, fencing_counters = [demo_cron_key \<mapsto> 1]\<rparr>)"
proof -
  have "release_lease ''p'' calm_pool (claim_of_row demo_cron_key (held_row ''a'' 1 1 2000005)) demo_cron_leases
      = ((Inr True :: unit lease_error + bool), \<lparr>leases = Map.empty, fencing_counters = [demo_cron_key \<mapsto> 1]\<rparr>)"
    by (simp add: release_lease_def release_lease_in_current_transaction_def demo_pool_eval
        release_lease_with_executor_def release_lease_statement_def row_matches_def lease_eval demo_cron_leases_def)
  then show ?thesis
    by (simp add: release_cron_guard_def demo_tick_def guard_from_claim_def release_def try_release_def
        release_current_claim_def release_manual_renewal_claim_def require_claim_matches_mutex_def
        demo_cron_claim_def claim_from_lease_claim_def demo_cron_mutex_def claim_of_row_def
        wrap_coordination_def stop_heartbeat_loop_def combine_mutex_guard_stop_and_release_results_def drop_guard_def)
qed

lemma demo_cron_leads:
  "acquire_leadership demo_cron (leadership demo_tenure) no_leases
    = Some ((Inr (Some (guard_from_claim demo_cron_mutex demo_cron_claim)) :: (unit, string) cron_run_error + _), demo_cron_leases)"
  by (simp add: demo_tenure_def demo_cron_def demo_cron_claimed)

lemma demo_cron_runs:
  "run_continuously_until_stopped_with_task_error_policy demo_cron [demo_tenure] no_leases
    = ([(guard_snapshot demo_cron_claim, Inr ())],
       Some ((Inr () :: (unit, string) cron_run_error + unit), \<lparr>leases = Map.empty, fencing_counters = [demo_cron_key \<mapsto> 1]\<rparr>))"
proof -
  let ?g = "guard_from_claim demo_cron_mutex demo_cron_claim"
  have live: "live_claim_snapshot ?g = Some (guard_snapshot demo_cron_claim)" "\<not> leadership_lost ?g"
    by (simp_all add: live_claim_snapshot_def guard_from_claim_def)
  have tick: "before_tick demo_tick = Pair" "during_tick demo_tick = Pair" "during_sleep demo_tick = Pair"
      "tick_task demo_tick = (\<lambda>_. Inr ())" "stop_wins demo_tick"
    by (simp_all add: demo_tick_def)
  have "tick_loop [demo_tick] ?g demo_cron_leases = ([(guard_snapshot demo_cron_claim, Inr ())],
      Some ((Inr StopRequested :: (unit, string) cron_run_error + _), \<lparr>leases = Map.empty, fencing_counters = [demo_cron_key \<mapsto> 1]\<rparr>))"
    by (simp add: tick live started_tick_def execute_task_while_guarded_def after_sleep_def demo_cron_released)
  moreover have "ticks demo_tenure = [demo_tick]" by (simp add: demo_tenure_def)
  ultimately show ?thesis by (simp add: run_single_leadership_tenure_def demo_cron_leads)
qed

lemma demo_run_plausible: "run_plausible demo_cron_resolved demo_cron [demo_tenure] no_leases"
proof -
  have seen: "call_seen demo_call = None" by (simp add: demo_call_def)
  have "leadership_plausible demo_cron (leadership demo_tenure) no_leases"
    by (simp add: demo_tenure_def demo_cron_def demo_cron_claimed seen demo_holder_id)
  moreover have "list_all (tick_plausible demo_cron_resolved) (ticks demo_tenure)"
    by (simp add: demo_tenure_def demo_tick_def tick_plausible_def)
  moreover have "between_tenures demo_tenure = id" by (simp add: demo_tenure_def)
  ultimately show ?thesis by (simp split: option.splits prod.splits)
qed

theorem cron_ticks_are_fenced_witness:
  "guard_mutex_key (guard_snapshot demo_cron_claim) = ''k'' \<and> 0 < guard_fencing_token (guard_snapshot demo_cron_claim)
    \<and> guard_fencing_token (guard_snapshot demo_cron_claim) \<le> 1"
  using cron_ticks_are_fenced [OF demo_cron_new _ lease_inv_no_leases demo_run_plausible demo_cron_runs]
    demo_cron_resolves
  by (simp add: demo_cron_config_def demo_cron_def demo_cron_mutex_def latest_fencing_def no_leases_def)

end
