(* ===== verification/Spec2Isabelle.thy ===== *)
theory Spec2Isabelle
  imports Prelude SortableId Database KvItem ThrottlerGuard Lease Mutex Counter PollingDelivery QueueEnqueue
    QueueReclaim OnceWitness CacheSafety CronSafety
begin

text \<open>
  A verification library for the crate \<open>paranoid\<close>: its identifiers, its key-value store, leases and durable
  queue on PostgreSQL, and the primitives of \<open>fleet\<close> that coordinate processes through them.

  \<^bold>\<open>The parts and how they interact.\<close> Everything durable lives in tables. An operation of a store runs
  statements in a transaction, after the admission check of \<open>protocol.rs\<close>; a pool-level operation begins the
  transaction, runs the operation and commits or rolls back. The key-value store, the leases and the queue
  have tables of their own. The primitives of \<open>fleet\<close> own no tables: mutexes and crons are leases; counters,
  topics, semaphores, throttlers (with rate limiters and circuit breakers) are rows of one state table of the
  key-value store; run-once tasks and coalescing caches use both. Holders, claims and jobs are named by the
  sortable identifiers of \<open>id.rs\<close>.

  \<^bold>\<open>Theories and code\<close> (paths under \<open>src/src/\<close>):
  \<^item> \<open>Prelude\<close>, \<open>Table\<close>, \<open>Float64\<close>: machine types, results, byte strings; tables with a primary key; \<open>f64\<close>.
  \<^item> \<open>SortableId\<close>: \<open>id.rs\<close>. \<open>Database\<close>: \<open>db/{error,sql_state,pool,protocol,mod}.rs\<close>.
  \<^item> \<open>Kv\<close>, \<open>KvStore\<close>, \<open>KvAtomic\<close>, \<open>KvItem\<close>: \<open>db/kv\<close>; statements and executors, the store, atomic mutation of a
    key, typed items. \<open>Lease\<close>: \<open>db/lease\<close>.
  \<^item> \<open>Queue\<close>, \<open>QueueStore\<close>, \<open>QueueApi\<close>: \<open>db/queue\<close>; rows and statements, operations, transactions.
    \<open>QueueInvariant\<close>: the constraints of \<open>sql/schema_sql.rs\<close>. \<open>QueueLifecycle\<close>, \<open>QueueClaim\<close>, \<open>QueueEnqueue\<close>,
    \<open>QueueReclaim\<close>: the state machine of a job and what it promises.
  \<^item> \<open>FleetError\<close>, \<open>FleetKeys\<close>: \<open>db/fleet/{error,keys,namespace_keys,constants}.rs\<close>. \<open>Mutex\<close>:
    \<open>mutex*.rs\<close>. \<open>FleetDatabase\<close>: leases, state table and application rows as one database.
  \<^item> \<open>Semaphore\<close>; \<open>Throttler\<close> with \<open>ThrottlerSafety\<close>, \<open>ThrottlerPromises\<close>, \<open>ThrottlerRate\<close>, \<open>ThrottlerRuns\<close>,
    \<open>ThrottlerGuard\<close>: \<open>semaphore*.rs\<close>, \<open>throttler*.rs\<close>, \<open>rate_limiter.rs\<close>, \<open>circuit_breaker.rs\<close>.
  \<^item> \<open>Lasting\<close> (values that never expire), \<open>Counter\<close>: \<open>counter.rs\<close>. \<open>TopicSequence\<close>, \<open>Topic\<close>, \<open>TopicDelivery\<close>,
    \<open>TopicRun\<close>, \<open>TopicPolling\<close>, \<open>PollingDelivery\<close>: \<open>topic*.rs\<close>.
  \<^item> \<open>Once\<close>, \<open>OnceTask\<close>, \<open>OnceSafety\<close>, \<open>OnceWitness\<close>: \<open>once*.rs\<close>. \<open>Cache\<close>, \<open>CacheSafety\<close>: \<open>cache*.rs\<close>. \<open>Cron\<close>,
    \<open>CronSafety\<close>: \<open>cron*.rs\<close>, \<open>handles.rs\<close>. The constructors of the handles are those of \<open>store.rs\<close>.

  \<^bold>\<open>State and operations.\<close> A statement is a function from the time of the server and a table to its answer and
  the new table: its meaning, not its text. An executor adds the conversion of arguments and rows. A
  transaction is a record of the admitted protocols and the tables it sees; the environment of a pool call
  says what the server answers, when, and how beginning, committing and rolling back end, with a commit that
  is durable although its acknowledgement is lost. A Rust \<open>Result\<close> is a sum, an enum a datatype, a handle a
  record, a callback a function, a background task its effect on the guard and the tables between two points
  of its owner. Names follow the source; a second definition of a name gets a prefix (\<open>kv_\<close>, \<open>lease_\<close>,
  \<open>item_\<close>, \<open>throttler_\<close>, \<open>cache_\<close>, \<open>cron_\<close>).

  \<^bold>\<open>What the lemmas show.\<close>
  \<^item> Leases and mutexes: fencing tokens only grow, a stale claim is powerless, a guard keeps its token, a
    failing heartbeat is noticed. The locale \<open>fencing_authority\<close> is interpreted on the lease tables
    (\<open>lease_fencing\<close>); guards, guarded tasks, manual completion and the ticks of a cron rest on it.
  \<^item> Key-value store: reads return the last write until its time to live has passed; creation excludes; scans
    are complete; an atomic mutation is its lock-free reference; typed items round-trip. The locale
    \<open>expiring_map\<close> is interpreted on the table (\<open>kv_map\<close>).
  \<^item> Queue: every writing statement refines an abstract transition of the life of a job and keeps the schema;
    claims are exclusive and ordered; a dedupe key names one active job; reclaiming spares live jobs.
  \<^item> Fleet: two namespaces share a key exactly when they are the same, or belong to a throttler, a rate limiter or
    a circuit breaker of one key, which share a row. The slot of a semaphore and the promises of a throttler (a
    slot, an open circuit, a probe) hold in runs of the operations of any processes, except those that end the
    promise, which each property names: a reset, the release by the holder, for a circuit its closing and a
    reported success, for a probe the opening and closing by hand. The promises of a throttler are proved once
    in the locale \<open>state_promise\<close> and interpreted three times; the enforced rate is bounded with the rounding of
    \<open>f64\<close>, again without resets. The type invariant of a throttler's state holds in runs with resets too. Counters
    lose no update, subscriptions and the polling loop deliver in order, crons are fenced and stop at the first
    task error. A value that a fetch reads from a cache is never older than an acknowledged invalidation; what a
    fetch computed itself it may return after one. The transactional attempts of a run-once task, in any number and
    interleaved at the pieces of their transactions, take effect at most once, by an attempt that owned the lease.
  \<^item> In all these runs others act between any two steps of the run; a step is one statement or one transaction,
    except where \<open>Not modelled\<close> says more.

  \<^bold>\<open>Bounds and fuel.\<close> A loop that waits for others takes a list of what its turns meet; \<open>None\<close> is a loop still
  waiting when the list ends, and nothing is claimed about results of such a loop. The dedupe loop of the queue
  has the five attempts of the code and the lock loop its eight; that an enqueue settles and that the batch
  deletion ends is proved. \<open>f64\<close> is a rational rounded to 53 bits, without overflow and subnormal numbers, which
  the configured ranges exclude. Identifiers and times keep their widths; numbers of 64 bits are integers with
  the range checks of the code.

  \<^bold>\<open>Not modelled.\<close>
  \<^item> The text of SQL: \<open>portable_query*.rs\<close>, \<open>simple_query.rs\<close>, \<open>identifier.rs\<close>, catalogues, schema migration and
    validation, the schema ledger, bootstrap; the constraints that the migrations create are modelled. Failures
    that do not follow from a statement's own arguments occur only as failed calls of the environment.
  \<^item> Interleavings inside one statement. Between the statements of a transaction others act only where the
    model says so: rows that a statement skips as locked or does not see, claims that miss a fresh row, steps
    between the calls of an operation, and in a transactional run-once attempt between the check of the marker, the
    task and the end of the transaction. From the renewal of its lease on such an attempt holds the rows of the lease and then of
    the marker, so renewal, marking and commit are one step, with the release that follows; the
    task's statements see one state of the committed rows. A read transaction of a topic is one step, and the runs of
    the last-write property have no atomic mutations, whose own properties are separate.
  \<^item> Time as such: sleeps and jitter are delays the caller only reports; the jitter's arithmetic is an argument.
  \<^item> The worker runtime of the queue, spawning and joining of background tasks, observers, listing and
    observability reads. Ownership of a job is by its identifier and the worker's.
  \<^item> The task of a run-once entry writes the state table and the application's rows only, and leaves the row of
    the marker alone; the reset of the entry is excluded from the runs of the at-most-once property, which it would
    rightly restart. The task of the form without a transaction is a step on the database.
  \<^item> Cryptography, web, local locks and the environment vault, which do not depend on the database; sealing of
    typed items is a parameter. Tests, fuzzing, benchmarks and build tasks.
\<close>

end
